(* ===== verification/Prelude.thy ===== *)
theory Prelude
  imports "HOL-Library.AList"
begin

text \<open>
  The prelude of the development: what every component uses.

  \<^item> An asynchronous method of the program is an action: a function from the state it
    works on to its outcome and the new state. A rejected promise (a thrown \<open>Error\<close>) is
    \<open>Inl\<close>, a returned value is \<open>Inr\<close>. One action runs to its end before the next
    starts; interleavings are sequences of actions.
  \<^item> A JavaScript \<open>Map\<close> is an association list with distinct keys in insertion
    order: \<open>Map.set\<close> replaces the value in place or appends, as \<open>AList.update\<close> does.
  \<^item> \<open>undefined\<close> and \<open>null\<close> are \<open>None\<close>. A number or a string tested with
    \<open>!x\<close> is tested with \<open>truthy_num\<close> or \<open>truthy_str\<close>: 0 and the empty
    string count as absent.
  \<^item> \<open>io_defs\<close> collects the definitions of the action combinators, \<open>triple\<close> the
    rules that reason about them without unfolding.
\<close>

named_theorems io_defs
named_theorems triple

section \<open>Actions\<close>

datatype exn = Exn string

type_synonym ('w, 'a) io = "'w \<Rightarrow> (exn + 'a) \<times> 'w"

definition io_ret :: "'a \<Rightarrow> ('w, 'a) io" where
  "io_ret x w = (Inr x, w)"

definition io_throw :: "string \<Rightarrow> ('w, 'a) io" where
  "io_throw e w = (Inl (Exn e), w)"

definition io_bind :: "('w, 'a) io \<Rightarrow> ('a \<Rightarrow> ('w, 'b) io) \<Rightarrow> ('w, 'b) io" where
  "io_bind m f w =
     (case m w of (Inl e, w') \<Rightarrow> (Inl e, w') | (Inr x, w') \<Rightarrow> f x w')"

text \<open>\<open>try { m } catch { h }\<close>: the state changes made before the throw stay.\<close>

definition io_catch :: "('w, 'a) io \<Rightarrow> ('w, 'a) io \<Rightarrow> ('w, 'a) io" where
  "io_catch m h w = (case m w of (Inl e, w') \<Rightarrow> h w' | (Inr x, w') \<Rightarrow> (Inr x, w'))"

definition io_get :: "('w \<Rightarrow> 'a) \<Rightarrow> ('w, 'a) io" where
  "io_get f w = (Inr (f w), w)"

definition io_modify :: "('w \<Rightarrow> 'w) \<Rightarrow> ('w, unit) io" where
  "io_modify f w = (Inr (), f w)"

text \<open>An action on one component of the state, run inside the whole state.\<close>

definition io_on ::
  "('w \<Rightarrow> 's) \<Rightarrow> (('s \<Rightarrow> 's) \<Rightarrow> 'w \<Rightarrow> 'w) \<Rightarrow> ('s, 'a) io \<Rightarrow> ('w, 'a) io" where
  "io_on get upd m w = (case m (get w) of (r, s') \<Rightarrow> (r, upd (\<lambda>_. s') w))"

text \<open>
  \<open>try { m } finally { f }\<close>: \<open>f\<close> sees the value of \<open>m\<close>, or that there is none; a
  throw in \<open>f\<close> replaces the outcome.
\<close>

definition io_finally ::
  "('w, 'a) io \<Rightarrow> ('a option \<Rightarrow> ('w, unit) io) \<Rightarrow> ('w, 'a) io" where
  "io_finally m f w =
     (case m w of (r, w') \<Rightarrow>
      case f (case r of Inl _ \<Rightarrow> None | Inr x \<Rightarrow> Some x) w' of
        (Inl e, w'') \<Rightarrow> (Inl e, w'')
      | (Inr _, w'') \<Rightarrow> (r, w''))"

lemmas [io_defs] = io_ret_def io_throw_def io_bind_def io_catch_def io_get_def
  io_modify_def io_on_def

text \<open>A successful run of a sequence is a successful run of both halves.\<close>

lemma io_bind_Inr:
  "io_bind m f w = (Inr y, w'') \<longleftrightarrow> (\<exists>x w'. m w = (Inr x, w') \<and> f x w' = (Inr y, w''))"
  by (auto simp: io_bind_def split: prod.splits sum.splits)

lemma io_bindE:
  assumes "io_bind m f w = (Inr y, w'')"
  obtains x w' where "m w = (Inr x, w')" and "f x w' = (Inr y, w'')"
  using assms by (auto simp: io_bind_Inr)

lemma io_bind_step [simp]: "m w = (Inr x, w') \<Longrightarrow> io_bind m f w = f x w'"
  by (simp add: io_bind_def)

lemma io_ret_app [simp]: "io_ret x w = (Inr x, w)"
  by (simp add: io_ret_def)

lemma io_throw_app [simp]: "io_throw e w = (Inl (Exn e), w)"
  by (simp add: io_throw_def)

lemma io_get_app [simp]: "io_get f w = (Inr (f w), w)"
  by (simp add: io_get_def)

lemma io_modify_app [simp]: "io_modify f w = (Inr (), f w)"
  by (simp add: io_modify_def)

lemma io_catch_Inr [simp]: "m w = (Inr x, w') \<Longrightarrow> io_catch m h w = (Inr x, w')"
  by (simp add: io_catch_def)

lemma io_catch_Inl [simp]: "m w = (Inl e, w') \<Longrightarrow> io_catch m h w = h w'"
  by (simp add: io_catch_def)

section \<open>Triples\<close>

text \<open>
  \<open>triple P m Q E\<close>: from a state in \<open>P\<close>, \<open>m\<close> either returns a value and a state
  in \<open>Q\<close> or throws in a state in \<open>E\<close>. \<open>keeps I m\<close>: the action keeps \<open>I\<close>
  whichever way it ends.
\<close>

definition trip ::
  "('w \<Rightarrow> bool) \<Rightarrow> ('w, 'a) io \<Rightarrow> ('a \<Rightarrow> 'w \<Rightarrow> bool) \<Rightarrow> ('w \<Rightarrow> bool) \<Rightarrow> bool" where
  "trip P m Q E \<longleftrightarrow>
     (\<forall>w. P w \<longrightarrow> (case m w of (Inl _, w') \<Rightarrow> E w' | (Inr x, w') \<Rightarrow> Q x w'))"

abbreviation keeps :: "('w \<Rightarrow> bool) \<Rightarrow> ('w, 'a) io \<Rightarrow> bool" where
  "keeps I m \<equiv> trip I m (\<lambda>_. I) I"

lemma trip_bind [triple]:
  "\<lbrakk>trip P m R E; \<And>x. trip (R x) (f x) Q E\<rbrakk> \<Longrightarrow> trip P (io_bind m f) Q E"
  unfolding trip_def io_bind_def
  by (fastforce split: prod.splits sum.splits)

lemma trip_ret [triple]: "(\<And>w. P w \<Longrightarrow> Q x w) \<Longrightarrow> trip P (io_ret x) Q E"
  by (simp add: trip_def)

lemma trip_throw [triple]: "(\<And>w. P w \<Longrightarrow> E w) \<Longrightarrow> trip P (io_throw e) Q E"
  by (simp add: trip_def)

lemma trip_get [triple]: "(\<And>w. P w \<Longrightarrow> Q (f w) w) \<Longrightarrow> trip P (io_get f) Q E"
  by (simp add: trip_def)

lemma trip_modify [triple]: "(\<And>w. P w \<Longrightarrow> Q () (f w)) \<Longrightarrow> trip P (io_modify f) Q E"
  by (simp add: trip_def)

lemma trip_catch [triple]:
  "\<lbrakk>trip P m Q F; trip F h Q E\<rbrakk> \<Longrightarrow> trip P (io_catch m h) Q E"
  unfolding trip_def io_catch_def
  by (fastforce split: prod.splits sum.splits)

lemma trip_weaken:
  "\<lbrakk>trip P m Q E; \<And>w. P' w \<Longrightarrow> P w; \<And>x w. Q x w \<Longrightarrow> Q' x w; \<And>w. E w \<Longrightarrow> E' w\<rbrakk>
   \<Longrightarrow> trip P' m Q' E'"
  unfolding trip_def by (fastforce split: prod.splits sum.splits)

lemma trip_if [triple]:
  "\<lbrakk>c \<Longrightarrow> trip P a Q E; \<not> c \<Longrightarrow> trip P b Q E\<rbrakk> \<Longrightarrow> trip P (if c then a else b) Q E"
  by simp

lemma trip_option [triple]:
  "\<lbrakk>x = None \<Longrightarrow> trip P a Q E; \<And>y. x = Some y \<Longrightarrow> trip P (b y) Q E\<rbrakk>
   \<Longrightarrow> trip P (case x of None \<Rightarrow> a | Some y \<Rightarrow> b y) Q E"
  by (cases x) simp_all

lemma trip_InrD: "\<lbrakk>trip P m Q E; P w; m w = (Inr x, w')\<rbrakk> \<Longrightarrow> Q x w'"
  by (auto simp: trip_def)

lemma trip_anyD:
  "\<lbrakk>keeps I m; I w; m w = (r, w')\<rbrakk> \<Longrightarrow> I w'"
  by (cases r) (auto simp: trip_def)

lemma trip_onlyD: "\<lbrakk>trip P m (\<lambda>_. Q) Q; P w; m w = (r, w')\<rbrakk> \<Longrightarrow> Q w'"
  by (cases r) (auto simp: trip_def)

text \<open>A condition that does not depend on the state moves out of the precondition.\<close>

lemma trip_pure: "(b \<Longrightarrow> trip P m Q E) \<Longrightarrow> trip (\<lambda>w. P w \<and> b) m Q E"
  by (auto simp: trip_def)

section \<open>Truthiness\<close>

text \<open>\<open>x ? .. : ..\<close> and \<open>!x\<close> on an optional number or string.\<close>

definition truthy_num :: "int option \<Rightarrow> bool" where
  "truthy_num x \<longleftrightarrow> x \<noteq> None \<and> x \<noteq> Some 0"

definition truthy_str :: "string option \<Rightarrow> bool" where
  "truthy_str x \<longleftrightarrow> x \<noteq> None \<and> x \<noteq> Some []"

lemma truthy_num_simps [simp]:
  "truthy_num None = False" "truthy_num (Some n) = (n \<noteq> 0)"
  by (simp_all add: truthy_num_def)

lemma truthy_str_simps [simp]:
  "truthy_str None = False" "truthy_str (Some s) = (s \<noteq> [])"
  by (simp_all add: truthy_str_def)

lemma truthy_strE: "truthy_str x \<Longrightarrow> (\<And>s. x = Some s \<Longrightarrow> s \<noteq> [] \<Longrightarrow> R) \<Longrightarrow> R"
  by (cases x) auto

lemma truthy_numE: "truthy_num x \<Longrightarrow> (\<And>n. x = Some n \<Longrightarrow> n \<noteq> 0 \<Longrightarrow> R) \<Longrightarrow> R"
  by (cases x) auto

text \<open>\<open>x ?? d\<close>.\<close>

definition or_else :: "'a option \<Rightarrow> 'a \<Rightarrow> 'a" where
  "or_else x d = (case x of None \<Rightarrow> d | Some y \<Rightarrow> y)"

lemma or_else_simps [simp]: "or_else None d = d" "or_else (Some y) d = y"
  by (simp_all add: or_else_def)

section \<open>JavaScript maps\<close>

type_synonym ('k, 'v) jsmap = "('k \<times> 'v) list"

definition jm_get :: "('k, 'v) jsmap \<Rightarrow> 'k \<Rightarrow> 'v option" where
  "jm_get m k = map_of m k"

definition jm_set :: "'k \<Rightarrow> 'v \<Rightarrow> ('k, 'v) jsmap \<Rightarrow> ('k, 'v) jsmap" where
  "jm_set k v m = AList.update k v m"

definition jm_delete :: "'k \<Rightarrow> ('k, 'v) jsmap \<Rightarrow> ('k, 'v) jsmap" where
  "jm_delete k m = filter (\<lambda>p. fst p \<noteq> k) m"

definition jm_ok :: "('k, 'v) jsmap \<Rightarrow> bool" where
  "jm_ok m \<longleftrightarrow> distinct (map fst m)"

lemma jm_get_empty [simp]: "jm_get [] k = None"
  by (simp add: jm_get_def)

lemma jm_get_set: "jm_get (jm_set k v m) k' = (if k' = k then Some v else jm_get m k')"
  by (simp add: jm_get_def jm_set_def update_conv')

lemma jm_get_set_same [simp]: "jm_get (jm_set k v m) k = Some v"
  by (simp add: jm_get_set)

lemma jm_get_set_other [simp]: "k' \<noteq> k \<Longrightarrow> jm_get (jm_set k v m) k' = jm_get m k'"
  by (simp add: jm_get_set)

lemma jm_get_delete: "jm_get (jm_delete k m) k' = (if k' = k then None else jm_get m k')"
  by (induction m) (auto simp: jm_get_def jm_delete_def)

lemma jm_get_delete_same [simp]: "jm_get (jm_delete k m) k = None"
  by (simp add: jm_get_delete)

lemma jm_get_filter:
  "jm_ok m \<Longrightarrow>
   jm_get (filter (\<lambda>p. P (fst p) (snd p)) m) k =
     (case jm_get m k of None \<Rightarrow> None | Some v \<Rightarrow> if P k v then Some v else None)"
  by (induction m) (auto simp: jm_get_def jm_ok_def map_of_eq_None_iff split: option.splits)

lemma jm_ok_empty [simp]: "jm_ok []"
  by (simp add: jm_ok_def)

lemma jm_ok_set [simp]: "jm_ok m \<Longrightarrow> jm_ok (jm_set k v m)"
  by (simp add: jm_ok_def jm_set_def distinct_update)

lemma jm_ok_filter [simp]: "jm_ok m \<Longrightarrow> jm_ok (filter P m)"
  by (simp add: jm_ok_def distinct_map_filter)

lemma jm_ok_delete [simp]: "jm_ok m \<Longrightarrow> jm_ok (jm_delete k m)"
  by (simp add: jm_delete_def)

lemma jm_get_in: "jm_get m k = Some v \<Longrightarrow> (k, v) \<in> set m"
  by (simp add: jm_get_def map_of_SomeD)

lemma jm_get_iff: "jm_ok m \<Longrightarrow> jm_get m k = Some v \<longleftrightarrow> (k, v) \<in> set m"
  by (simp add: jm_get_def jm_ok_def)

lemma jm_keys_set: "map fst (jm_set k v m) =
    (if k \<in> set (map fst m) then map fst m else map fst m @ [k])"
  by (simp add: jm_set_def update_keys)

lemma jm_in_keys: "k \<in> set (map fst m) \<longleftrightarrow> jm_get m k \<noteq> None"
  by (auto simp: jm_get_def map_of_eq_None_iff)

text \<open>Changing every value in place (a loop that mutates the stored records).\<close>

definition jm_map :: "('v \<Rightarrow> 'v) \<Rightarrow> ('k, 'v) jsmap \<Rightarrow> ('k, 'v) jsmap" where
  "jm_map f m = map (\<lambda>(k, v). (k, f v)) m"

lemma jm_get_map: "jm_get (jm_map f m) k = map_option f (jm_get m k)"
  by (induction m) (auto simp: jm_get_def jm_map_def)

lemma jm_map_keys [simp]: "map fst (jm_map f m) = map fst m"
  by (induction m) (auto simp: jm_map_def)

lemma jm_ok_map [simp]: "jm_ok (jm_map f m) = jm_ok m"
  by (simp add: jm_ok_def)

end
