(* ===== verification/JsText.thy ===== *)
theory JsText
  imports Prelude "HOL-Library.Word" "HOL-Library.Sublist"
begin

unbundle bit_operations_syntax

text \<open>
  Text and bytes, as the program's runtime has them.

  A JavaScript string is modelled by its UTF-8 encoding: a \<open>string\<close> whose characters
  are the bytes \<open>TextEncoder.encode\<close> gives. Every operation the code applies to text
  (equality, concatenation, \<open>startsWith\<close>, \<open>split\<close> on an ASCII character,
  \<open>trim\<close>, lower-casing of ASCII) commutes with that encoding. Outside the model:
  lone surrogates (which \<open>TextEncoder\<close> maps to U+FFFD) and the case mapping of
  non-ASCII letters. \<open>length\<close> counts UTF-8 bytes, which is the code's \<open>length\<close>
  on the ASCII strings (hex, base64, bech32, header values) the code measures.
\<close>

type_synonym byte = "8 word"

definition byte_of :: "char \<Rightarrow> byte" where
  "byte_of c = word_of_nat (of_char c)"

definition char_of_byte :: "byte \<Rightarrow> char" where
  "char_of_byte b = char_of (unat b)"

lemma of_char_less: "(of_char c :: nat) < 256"
  using nat_of_char_less_256 [of c] .

lemma unat_byte_of: "unat (byte_of c) = of_char c"
  by (simp add: byte_of_def unat_of_nat of_char_less)

lemma char_of_byte_of [simp]: "char_of_byte (byte_of c) = c"
  by (simp add: char_of_byte_def unat_byte_of)

lemma byte_of_char_of_byte [simp]: "byte_of (char_of_byte b) = b"
proof -
  have "unat b < 2 ^ LENGTH(8)" by (rule unsigned_less)
  then have "unat b < 256" by simp
  then show ?thesis by (simp add: byte_of_def char_of_byte_def)
qed

lemma byte_of_inj [simp]: "byte_of c = byte_of d \<longleftrightarrow> c = d"
  by (metis char_of_byte_of)

text \<open>\<open>new TextEncoder().encode(s)\<close>.\<close>

definition utf8_encode :: "string \<Rightarrow> byte list" where
  "utf8_encode s = map byte_of s"

lemma utf8_encode_inj [simp]: "utf8_encode s = utf8_encode t \<longleftrightarrow> s = t"
  by (simp add: utf8_encode_def inj_map_eq_map inj_def)

lemma length_utf8_encode [simp]: "length (utf8_encode s) = length s"
  by (simp add: utf8_encode_def)

section \<open>TextDecoder\<close>

text \<open>
  \<open>new TextDecoder().decode(bytes)\<close>: the WHATWG UTF-8 decoder in its default,
  non-fatal mode. A leading byte order mark is dropped; a byte that cannot continue the
  sequence begun before it yields U+FFFD for that sequence and is read again.
\<close>

definition fffd :: "byte list" where
  "fffd = [0xEF, 0xBF, 0xBD]"

definition between :: "byte \<Rightarrow> byte \<Rightarrow> byte \<Rightarrow> bool" where
  "between lo hi b \<longleftrightarrow> lo \<le> b \<and> b \<le> hi"

text \<open>How many continuation bytes a lead byte asks for, and the range of the first.\<close>

definition utf8_lead :: "byte \<Rightarrow> (nat \<times> byte \<times> byte) option" where
  "utf8_lead b =
     (if between 0xC2 0xDF b then Some (1, 0x80, 0xBF)
      else if b = 0xE0 then Some (2, 0xA0, 0xBF)
      else if b = 0xED then Some (2, 0x80, 0x9F)
      else if between 0xE1 0xEF b then Some (2, 0x80, 0xBF)
      else if b = 0xF0 then Some (3, 0x90, 0xBF)
      else if between 0xF1 0xF3 b then Some (3, 0x80, 0xBF)
      else if b = 0xF4 then Some (3, 0x80, 0x8F)
      else None)"

text \<open>
  \<open>utf8_cont n lo hi bs\<close> reads up to \<open>n\<close> continuation bytes: how many it took, and
  whether it got them all.
\<close>

fun utf8_cont :: "nat \<Rightarrow> byte \<Rightarrow> byte \<Rightarrow> byte list \<Rightarrow> nat \<times> bool" where
  "utf8_cont 0 lo hi bs = (0, True)"
| "utf8_cont (Suc n) lo hi [] = (0, False)"
| "utf8_cont (Suc n) lo hi (b # bs) =
     (if between lo hi b
      then (case utf8_cont n 0x80 0xBF bs of (k, ok) \<Rightarrow> (Suc k, ok))
      else (0, False))"

function utf8_replace :: "byte list \<Rightarrow> byte list" where
  "utf8_replace [] = []"
| "utf8_replace (b # bs) =
     (if b < 0x80 then b # utf8_replace bs
      else case utf8_lead b of
        None \<Rightarrow> fffd @ utf8_replace bs
      | Some (n, lo, hi) \<Rightarrow>
          (case utf8_cont n lo hi bs of
            (k, ok) \<Rightarrow>
              (if ok then b # take k bs else fffd) @ utf8_replace (drop k bs)))"
  by pat_completeness auto
termination
  by (relation "measure length") auto

definition utf8_decode :: "byte list \<Rightarrow> string" where
  "utf8_decode bs =
     map char_of_byte
       (utf8_replace (if take 3 bs = [0xEF, 0xBB, 0xBF] then drop 3 bs else bs))"

definition ascii :: "string \<Rightarrow> bool" where
  "ascii s \<longleftrightarrow> list_all (\<lambda>c. byte_of c < 0x80) s"

lemma utf8_replace_ascii: "list_all (\<lambda>b. b < 0x80) bs \<Longrightarrow> utf8_replace bs = bs"
  by (induction bs) simp_all

lemma utf8_decode_encode_ascii: "ascii s \<Longrightarrow> utf8_decode (utf8_encode s) = s"
proof -
  assume s: "ascii s"
  then have a: "list_all (\<lambda>b. b < 0x80) (utf8_encode s)"
    by (simp add: ascii_def utf8_encode_def list_all_length)
  then have "take 3 (utf8_encode s) \<noteq> [0xEF, 0xBB, 0xBF]"
    by (cases "utf8_encode s") auto
  then show ?thesis
    using a by (simp add: utf8_decode_def utf8_replace_ascii) (simp add: utf8_encode_def comp_def)
qed

text \<open>
  \<open>s.length\<close> counts UTF-16 units: one per character, two for a character of four bytes.
\<close>

definition js_length :: "string \<Rightarrow> nat" where
  "js_length s =
     length (filter (\<lambda>c. \<not> between 0x80 0xBF (byte_of c)) s)
     + length (filter (\<lambda>c. 0xF0 \<le> byte_of c) s)"

section \<open>White space, case, splitting\<close>

text \<open>
  The white space and line terminators \<open>String.prototype.trim\<close> and \<open>\s\<close> know, as
  UTF-8: tab, LF, VT, FF, CR, space, U+00A0, U+1680, U+2000 to U+200A, U+2028, U+2029,
  U+202F, U+205F, U+3000 and U+FEFF.
\<close>

definition js_spaces :: "string list" where
  "js_spaces =
     [[CHR 0x09], [CHR 0x0A], [CHR 0x0B], [CHR 0x0C], [CHR 0x0D], [CHR 0x20],
      [CHR 0xC2, CHR 0xA0], [CHR 0xE1, CHR 0x9A, CHR 0x80],
      [CHR 0xE2, CHR 0x80, CHR 0x80], [CHR 0xE2, CHR 0x80, CHR 0x81],
      [CHR 0xE2, CHR 0x80, CHR 0x82], [CHR 0xE2, CHR 0x80, CHR 0x83],
      [CHR 0xE2, CHR 0x80, CHR 0x84], [CHR 0xE2, CHR 0x80, CHR 0x85],
      [CHR 0xE2, CHR 0x80, CHR 0x86], [CHR 0xE2, CHR 0x80, CHR 0x87],
      [CHR 0xE2, CHR 0x80, CHR 0x88], [CHR 0xE2, CHR 0x80, CHR 0x89],
      [CHR 0xE2, CHR 0x80, CHR 0x8A], [CHR 0xE2, CHR 0x80, CHR 0xA8],
      [CHR 0xE2, CHR 0x80, CHR 0xA9], [CHR 0xE2, CHR 0x80, CHR 0xAF],
      [CHR 0xE2, CHR 0x81, CHR 0x9F], [CHR 0xE3, CHR 0x80, CHR 0x80],
      [CHR 0xEF, CHR 0xBB, CHR 0xBF]]"

definition starts_with :: "string \<Rightarrow> string \<Rightarrow> bool" where
  "starts_with s p \<longleftrightarrow> take (length p) s = p"

definition ends_with :: "string \<Rightarrow> string \<Rightarrow> bool" where
  "ends_with s p \<longleftrightarrow> starts_with (rev s) (rev p)"

text \<open>The length of the white space character a string starts with, 0 for none.\<close>

definition lead_space :: "string list \<Rightarrow> string \<Rightarrow> nat" where
  "lead_space ws s = (case List.find (starts_with s) ws of None \<Rightarrow> 0 | Some w \<Rightarrow> length w)"

function trim_lead :: "string list \<Rightarrow> string \<Rightarrow> string" where
  "trim_lead ws s =
     (let k = lead_space ws s
      in if k = 0 \<or> s = [] then s else trim_lead ws (drop k s))"
  by pat_completeness auto
termination
  by (relation "measure (\<lambda>(ws, s). length s)") (auto simp: Let_def)

declare trim_lead.simps [simp del]

definition js_trim :: "string \<Rightarrow> string" where
  "js_trim s = rev (trim_lead (map rev js_spaces) (rev (trim_lead js_spaces s)))"

text \<open>\<open>s.replace(/\s+/g, '')\<close>.\<close>

function strip_spaces :: "string \<Rightarrow> string" where
  "strip_spaces s =
     (case s of [] \<Rightarrow> []
      | c # cs \<Rightarrow>
         (let k = lead_space js_spaces s
          in if k = 0 then c # strip_spaces cs else strip_spaces (drop k s)))"
  by pat_completeness auto
termination
  by (relation "measure length") (auto simp: Let_def)

declare strip_spaces.simps [simp del]

lemma lead_space_none:
  "list_all (\<lambda>w. \<not> starts_with s w) ws \<Longrightarrow> lead_space ws s = 0"
  by (auto simp: lead_space_def list_all_iff find_Some_iff split: option.splits)

lemma strip_spaces_plain:
  "(\<And>c. c \<in> set s \<Longrightarrow> c \<notin> set (map hd js_spaces)) \<Longrightarrow> strip_spaces s = s"
proof (induction s)
  case Nil
  then show ?case by (simp add: strip_spaces.simps)
next
  case (Cons c cs)
  have "c \<notin> set (map hd js_spaces)" by (rule Cons.prems) simp
  then have "lead_space js_spaces (c # cs) = 0"
    by (intro lead_space_none) (auto simp: js_spaces_def starts_with_def)
  with Cons show ?case by (simp add: strip_spaces.simps [of "c # cs"] Let_def)
qed

definition lower_char :: "char \<Rightarrow> char" where
  "lower_char c =
     (let n = of_char c :: nat in if 65 \<le> n \<and> n \<le> 90 then char_of (n + 32) else c)"

definition upper_char :: "char \<Rightarrow> char" where
  "upper_char c =
     (let n = of_char c :: nat in if 97 \<le> n \<and> n \<le> 122 then char_of (n - 32) else c)"

definition to_lower :: "string \<Rightarrow> string" where
  "to_lower s = map lower_char s"

definition to_upper :: "string \<Rightarrow> string" where
  "to_upper s = map upper_char s"

lemma length_to_lower [simp]: "length (to_lower s) = length s"
  by (simp add: to_lower_def)

lemma lower_char_idem [simp]: "lower_char (lower_char c) = lower_char c"
  by (auto simp: lower_char_def Let_def)

lemma to_lower_idem [simp]: "to_lower (to_lower s) = to_lower s"
  by (simp add: to_lower_def)

text \<open>\<open>s.split(c)\<close> and \<open>xs.join(sep)\<close>.\<close>

fun js_split :: "char \<Rightarrow> string \<Rightarrow> string list" where
  "js_split c [] = [[]]"
| "js_split c (x # xs) =
     (if x = c then [] # js_split c xs
      else case js_split c xs of [] \<Rightarrow> [[x]] | w # ws \<Rightarrow> (x # w) # ws)"

fun js_join :: "string \<Rightarrow> string list \<Rightarrow> string" where
  "js_join sep [] = []"
| "js_join sep [w] = w"
| "js_join sep (w # ws) = w @ sep @ js_join sep ws"

lemma js_split_nonempty [simp]: "js_split c s \<noteq> []"
  by (induction s) (auto split: list.splits)

lemma js_join_split: "js_join [c] (js_split c s) = s"
proof (induction s)
  case (Cons x xs)
  then show ?case
    by (cases "js_split c xs") (auto elim: js_join.elims, (cases "tl (js_split c xs)"; simp)+)
qed simp

lemma js_split_plain: "c \<notin> set s \<Longrightarrow> js_split c s = [s]"
  by (induction s) auto

lemma js_split_append:
  "c \<notin> set s \<Longrightarrow> js_split c (s @ c # t) = s # js_split c t"
  by (induction s) auto

section \<open>Hexadecimal characters\<close>

definition hex_val :: "char \<Rightarrow> nat option" where
  "hex_val c =
     (let n = of_char c :: nat
      in if 48 \<le> n \<and> n \<le> 57 then Some (n - 48)
         else if 97 \<le> n \<and> n \<le> 102 then Some (n - 87)
         else if 65 \<le> n \<and> n \<le> 70 then Some (n - 55)
         else None)"

definition hex_char :: "nat \<Rightarrow> char" where
  "hex_char n = ''0123456789abcdef'' ! n"

lemma hex_val_hex_char: "n < 16 \<Longrightarrow> hex_val (hex_char n) = Some n"
proof -
  have "list_all (\<lambda>m. hex_val (hex_char m) = Some m) [0..<16]" by code_simp
  then show "n < 16 \<Longrightarrow> ?thesis" by (simp add: list_all_iff)
qed

lemma hex_char_in: "n < 16 \<Longrightarrow> hex_char n \<in> set ''0123456789abcdef''"
  unfolding hex_char_def by (rule nth_mem) simp

text \<open>\<open>/^[0-9a-f]{n}$/\<close>: lower-case hex of exactly \<open>n\<close> digits.\<close>

definition lower_hex :: "char \<Rightarrow> bool" where
  "lower_hex c \<longleftrightarrow> c \<in> set ''0123456789abcdef''"

definition is_hex_string :: "nat \<Rightarrow> string \<Rightarrow> bool" where
  "is_hex_string n s \<longleftrightarrow> length s = n \<and> list_all lower_hex s"

end
