(* ===== verification/JsNumber.thy ===== *)
theory JsNumber
  imports Complex_Main "HOL-Library.Log_Nat"
begin

text \<open>
  Numbers of the language. The model keeps the value of a number as a rational; a literal is
  rounded to the nearest double, ties to even, when it is read (\<open>js_round\<close>), and one of
  magnitude \<open>2 ^ 1024 - 2 ^ 970\<close> or more is read as infinity (\<open>js_overflow\<close>).

  \<open>js_round_near\<close>: the rounding moves a value by half a unit in the last place at most;
  \<open>js_round_safe\<close>: it leaves the integers up to \<open>2 ^ 53\<close> as they are.
\<close>

definition is_integer :: "rat \<Rightarrow> bool" where
  "is_integer x \<longleftrightarrow> of_int \<lfloor>x\<rfloor> = x"

text \<open>The integers up to \<open>2 ^ 53\<close>: all of them are doubles, and they print as their digits.\<close>

definition plain_number :: "rat \<Rightarrow> bool" where
  "plain_number x \<longleftrightarrow> is_integer x \<and> \<bar>x\<bar> \<le> 2 ^ 53"

text \<open>The least magnitude that rounds to infinity.\<close>

definition js_overflow :: "rat \<Rightarrow> bool" where
  "js_overflow x \<longleftrightarrow> \<bar>x\<bar> \<ge> 2 ^ 1024 - 2 ^ 970"

section \<open>Rounding to a double\<close>

text \<open>The exponent \<open>e\<close> with \<open>2 powi e \<le> x < 2 powi (e + 1)\<close>, for a positive \<open>x\<close>.\<close>

definition js_binade :: "rat \<Rightarrow> int" where
  "js_binade x = (if 1 \<le> x then bitlen \<lfloor>x\<rfloor> - 1 else - bitlen (\<lceil>1 / x\<rceil> - 1))"

text \<open>The unit in the last place: 53 significant bits, and \<open>2 powi -1074\<close> for the least numbers.\<close>

definition js_ulp :: "rat \<Rightarrow> rat" where
  "js_ulp x = 2 powi max (- 1074) (js_binade x - 52)"

definition round_even :: "rat \<Rightarrow> int" where
  "round_even x =
     (let f = \<lfloor>x\<rfloor>; d = x - of_int f in
      if d < 1 / 2 \<or> d = 1 / 2 \<and> even f then f else f + 1)"

definition round_double :: "rat \<Rightarrow> rat" where
  "round_double x = sgn x * of_int (round_even (\<bar>x\<bar> / js_ulp \<bar>x\<bar>)) * js_ulp \<bar>x\<bar>"

text \<open>The case distinction is a short cut (\<open>round_double_safe\<close>).\<close>

definition js_round :: "rat \<Rightarrow> rat" where
  "js_round x = (if plain_number x then x else round_double x)"

lemma js_ulp_pos: "0 < js_ulp x"
  by (simp add: js_ulp_def)

lemma round_even_near: "\<bar>of_int (round_even x) - x\<bar> \<le> 1 / 2"
  using floor_correct [of x] by (auto simp: round_even_def Let_def)

lemma round_even_of_int [simp]: "round_even (of_int i) = i"
  by (simp add: round_even_def)

lemma round_double_near: "\<bar>round_double x - x\<bar> \<le> js_ulp \<bar>x\<bar> / 2"
proof -
  let ?u = "js_ulp \<bar>x\<bar>" and ?n = "round_even (\<bar>x\<bar> / js_ulp \<bar>x\<bar>)"
  have u: "0 < ?u" by (rule js_ulp_pos)
  have "of_int ?n * ?u - \<bar>x\<bar> = (of_int ?n - \<bar>x\<bar> / ?u) * ?u"
    using u by (simp add: left_diff_distrib)
  then have "\<bar>of_int ?n * ?u - \<bar>x\<bar>\<bar> = \<bar>of_int ?n - \<bar>x\<bar> / ?u\<bar> * ?u"
    using u by (simp only: abs_mult) simp
  also have "\<dots> \<le> 1 / 2 * ?u" using round_even_near u by (intro mult_right_mono) auto
  finally have near: "\<bar>of_int ?n * ?u - \<bar>x\<bar>\<bar> \<le> ?u / 2" by simp
  show ?thesis
  proof (cases "x = 0")
    case False
    have "round_double x - x = sgn x * (of_int ?n * ?u - \<bar>x\<bar>)"
      by (simp add: round_double_def right_diff_distrib mult.assoc sgn_mult_abs)
    then show ?thesis using near False by (simp add: abs_mult abs_sgn_eq)
  qed (use u in \<open>simp add: round_double_def less_imp_le\<close>)
qed

lemma quotient_eq: "u \<noteq> 0 \<Longrightarrow> y = z * u \<Longrightarrow> y / u = z" for u y z :: rat
  by simp

lemma round_double_safe:
  assumes "plain_number x"
  shows "round_double x = x"
proof (cases "x = 0")
  case False
  obtain i where i: "\<bar>x\<bar> = of_int i" "0 < i" "i \<le> 2 ^ 53"
  proof
    have x: "x = of_int \<lfloor>x\<rfloor>" using assms unfolding plain_number_def is_integer_def by metis
    show a: "\<bar>x\<bar> = of_int \<bar>\<lfloor>x\<rfloor>\<bar>" using x by (metis of_int_abs)
    show "0 < \<bar>\<lfloor>x\<rfloor>\<bar>" using x False by (metis of_int_0 zero_less_abs_iff)
    have "(of_int \<bar>\<lfloor>x\<rfloor>\<bar> :: rat) \<le> of_int (2 ^ 53)" using assms a by (simp add: plain_number_def)
    then show "\<bar>\<lfloor>x\<rfloor>\<bar> \<le> 2 ^ 53" using of_int_le_iff by blast
  qed
  have b: "js_binade \<bar>x\<bar> = bitlen i - 1" using i by (simp add: js_binade_def)
  have b0: "0 < bitlen i" using i(2) bitlen_eq_zero_iff [of i] bitlen_nonneg [of i] by linarith
  obtain j where j: "of_int i = of_int j * js_ulp \<bar>x\<bar>"
  proof (cases "bitlen i \<le> 53")
    case True
    let ?k = "nat (53 - bitlen i)"
    have "js_ulp \<bar>x\<bar> = 1 / 2 ^ ?k"
      unfolding js_ulp_def b power_int_def using True b0 by (auto simp: max_def divide_simps nat_diff_distrib)
    then show thesis by (intro that [of "i * 2 ^ ?k"]) simp
  next
    case False
    then have "2 ^ 53 \<le> i" using bitlen_le_iff_power [of i 53] by (simp add: not_le)
    then have "i = 2 ^ 53" using i(3) by simp
    moreover have "bitlen 1 = 1" by (simp add: bitlen_alt_def)
    ultimately have "js_ulp \<bar>x\<bar> = 2" using b bitlen_pow2 [of 1 53] by (simp add: js_ulp_def)
    then show thesis using \<open>i = 2 ^ 53\<close> by (intro that [of "2 ^ 52"]) simp
  qed
  have "js_ulp \<bar>x\<bar> \<noteq> 0" using js_ulp_pos [of "\<bar>x\<bar>"] by simp
  then have "\<bar>x\<bar> / js_ulp \<bar>x\<bar> = of_int j" using j unfolding i(1) by (rule quotient_eq)
  then have n: "round_even (\<bar>x\<bar> / js_ulp \<bar>x\<bar>) = j" by (simp only: round_even_of_int)
  have "of_int j * js_ulp \<bar>x\<bar> = \<bar>x\<bar>" using j unfolding i(1) by (rule sym)
  then have "round_double x = sgn x * \<bar>x\<bar>" unfolding round_double_def mult.assoc n by (rule arg_cong)
  then show ?thesis by (simp only: sgn_mult_abs)
qed (simp add: round_double_def)

lemma js_round_safe [simp]: "plain_number x \<Longrightarrow> js_round x = x"
  by (simp add: js_round_def)

theorem js_round_near: "\<bar>js_round x - x\<bar> \<le> js_ulp \<bar>x\<bar> / 2"
proof -
  have "js_round x = round_double x" by (simp add: js_round_def round_double_safe)
  then show ?thesis using round_double_near by metis
qed

lemma safe_of_int: "\<bar>i\<bar> \<le> 2 ^ 53 \<Longrightarrow> plain_number (of_int i)"
proof -
  assume "\<bar>i\<bar> \<le> 2 ^ 53"
  then have "(of_int \<bar>i\<bar> :: rat) \<le> of_int (2 ^ 53)" by (simp only: of_int_le_iff)
  then show "plain_number (of_int i)" by (simp add: plain_number_def is_integer_def)
qed

lemma safe_numeral [simp]:
  "plain_number 0" "plain_number 1"
  "plain_number (numeral n) \<longleftrightarrow> (numeral n :: int) \<le> 2 ^ 53"
proof -
  show "plain_number 0" "plain_number 1" by (simp_all add: plain_number_def is_integer_def)
  have "(numeral n :: rat) \<le> 2 ^ 53 \<longleftrightarrow> (of_int (numeral n) :: rat) \<le> of_int (2 ^ 53)" by simp
  then show "plain_number (numeral n) \<longleftrightarrow> (numeral n :: int) \<le> 2 ^ 53"
    unfolding of_int_le_iff by (simp add: plain_number_def is_integer_def del: of_int_power)
qed

end
