(* ===== verification/Json.thy ===== *)
theory Json
  imports JsText JsNumber "HOL-Library.Monad_Syntax"
begin

text \<open>
  \<open>JSON.parse\<close> of ECMA-404, as the program's entry points use it on untrusted text.

  A number is the double nearest to its literal, as a rational; a literal beyond the range
  of a double stays a rational of that magnitude (\<open>js_overflow\<close> tells it). A repeated key keeps the position of its first and the value of its last
  occurrence, as \<open>JSON.parse\<close> builds its objects. A \<open>\u\<close> escape of a lone
  surrogate is read as U+FFFD, which is what \<open>TextEncoder\<close> makes of it.

  The recursive descent carries fuel. \<open>json_fuel_enough\<close> shows that twice the length of
  the text and two more is enough: any larger amount gives the same answer, so \<open>None\<close>
  always means a syntax error.
\<close>

datatype json =
    JNull
  | JBool bool
  | JNum rat
  | JStr string
  | JArr "json list"
  | JObj "(string \<times> json) list"

section \<open>Lexing\<close>

definition json_space :: "char \<Rightarrow> bool" where
  "json_space c \<longleftrightarrow> c \<in> {CHR 0x20, CHR 0x09, CHR 0x0A, CHR 0x0D}"

definition skip_ws :: "string \<Rightarrow> string" where
  "skip_ws s = dropWhile json_space s"

lemma length_skip_ws: "length (skip_ws s) \<le> length s"
  by (simp add: skip_ws_def length_dropWhile_le)

text \<open>The UTF-8 bytes of a code point.\<close>

definition utf8_of_code :: "nat \<Rightarrow> string" where
  "utf8_of_code n =
     map char_of
       (if n < 0x80 then [n]
        else if n < 0x800 then [0xC0 + n div 64, 0x80 + n mod 64]
        else if n < 0x10000 then [0xE0 + n div 4096, 0x80 + n div 64 mod 64, 0x80 + n mod 64]
        else [0xF0 + n div 262144, 0x80 + n div 4096 mod 64, 0x80 + n div 64 mod 64,
              0x80 + n mod 64])"

definition hex4 :: "char \<Rightarrow> char \<Rightarrow> char \<Rightarrow> char \<Rightarrow> nat option" where
  "hex4 a b c d =
     (case (hex_val a, hex_val b, hex_val c, hex_val d) of
        (Some w, Some x, Some y, Some z) \<Rightarrow> Some (((w * 16 + x) * 16 + y) * 16 + z)
      | _ \<Rightarrow> None)"

text \<open>The low half of a surrogate pair, if one follows: its value and what comes after it.\<close>

definition low_surrogate :: "string \<Rightarrow> (nat \<times> string) option" where
  "low_surrogate s =
     (case s of
        k # u # a # b # c # d # r \<Rightarrow>
          if k = CHR 0x5C \<and> u = CHR ''u'' then
            (case hex4 a b c d of
               Some n \<Rightarrow> if 0xDC00 \<le> n \<and> n \<le> 0xDFFF then Some (n, r) else None
             | None \<Rightarrow> None)
          else None
      | _ \<Rightarrow> None)"

definition simple_escape :: "char \<Rightarrow> char option" where
  "simple_escape e =
     map_of [(CHR 0x22, CHR 0x22), (CHR 0x5C, CHR 0x5C), (CHR ''/'', CHR ''/''),
             (CHR ''b'', CHR 0x08), (CHR ''f'', CHR 0x0C), (CHR ''n'', CHR 0x0A),
             (CHR ''r'', CHR 0x0D), (CHR ''t'', CHR 0x09)] e"

text \<open>An escape after its backslash: the text it stands for and what comes after it.\<close>

definition p_escape :: "string \<Rightarrow> (string \<times> string) option" where
  "p_escape s =
     (case s of
        [] \<Rightarrow> None
      | e # r \<Rightarrow>
          if e = CHR ''u'' then
            (case r of
               a # b # c # d # r' \<Rightarrow>
                 (case hex4 a b c d of
                    None \<Rightarrow> None
                  | Some n \<Rightarrow>
                      if 0xD800 \<le> n \<and> n \<le> 0xDBFF then
                        (case low_surrogate r' of
                           Some (m, r'') \<Rightarrow>
                             Some (utf8_of_code (0x10000 + (n - 0xD800) * 0x400 + (m - 0xDC00)), r'')
                         | None \<Rightarrow> Some (utf8_of_code 0xFFFD, r'))
                      else if 0xDC00 \<le> n \<and> n \<le> 0xDFFF then Some (utf8_of_code 0xFFFD, r')
                      else Some (utf8_of_code n, r'))
             | _ \<Rightarrow> None)
          else (case simple_escape e of None \<Rightarrow> None | Some c \<Rightarrow> Some ([c], r)))"

lemma p_escape_shorter: "p_escape s = Some (t, r) \<Longrightarrow> length r < length s"
  by (auto simp: p_escape_def low_surrogate_def split: list.splits option.splits if_splits prod.splits)

text \<open>The rest of a string literal after its opening quote.\<close>

function p_string :: "string \<Rightarrow> (string \<times> string) option" where
  "p_string s =
     (case s of
        [] \<Rightarrow> None
      | c # cs \<Rightarrow>
          if c = CHR 0x22 then Some ([], cs)
          else if c = CHR 0x5C then
            (case p_escape cs of
               None \<Rightarrow> None
             | Some (t, r) \<Rightarrow>
                 (case p_string r of None \<Rightarrow> None | Some (u, r') \<Rightarrow> Some (t @ u, r')))
          else if (of_char c :: nat) < 0x20 then None
          else (case p_string cs of None \<Rightarrow> None | Some (u, r) \<Rightarrow> Some (c # u, r)))"
  by pat_completeness auto
termination
  by (relation "measure length") (auto dest: p_escape_shorter)

declare p_string.simps [simp del]

lemma p_string_Cons:
  "p_string (c # cs) =
     (if c = CHR 0x22 then Some ([], cs)
      else if c = CHR 0x5C then
        (case p_escape cs of
           None \<Rightarrow> None
         | Some (t, r) \<Rightarrow> (case p_string r of None \<Rightarrow> None | Some (u, r') \<Rightarrow> Some (t @ u, r')))
      else if (of_char c :: nat) < 0x20 then None
      else (case p_string cs of None \<Rightarrow> None | Some (u, r) \<Rightarrow> Some (c # u, r)))"
  by (subst p_string.simps) simp

lemma p_string_Nil: "p_string [] = None"
  by (subst p_string.simps) simp

lemma p_string_shorter: "p_string s = Some (t, r) \<Longrightarrow> length r < length s"
proof (induction s arbitrary: t r rule: length_induct)
  case (1 s)
  show ?case
  proof (cases s)
    case Nil
    with "1.prems" show ?thesis by (simp add: p_string_Nil)
  next
    case (Cons c cs)
    have IH: "length r' < length s'" if "p_string s' = Some (u, r')" "length s' \<le> length cs" for s' u r'
      using "1.IH" that Cons by auto
    have esc: "length r < length cs" if "p_escape cs = Some (u, s')" "p_string s' = Some (v, r)" for u s' v
      using IH [OF that(2)] p_escape_shorter [OF that(1)] by simp
    have plain: "length r < length cs" if "p_string cs = Some (u, r)" for u
      using IH [OF that] by simp
    from "1.prems" Cons show ?thesis
      by (auto simp: p_string_Cons less_Suc_eq split: if_splits option.splits dest: esc plain)
  qed
qed

definition is_digit :: "char \<Rightarrow> bool" where
  "is_digit c \<longleftrightarrow> 48 \<le> (of_char c :: nat) \<and> (of_char c :: nat) \<le> 57"

definition digits_val :: "string \<Rightarrow> int" where
  "digits_val ds = foldl (\<lambda>n c. n * 10 + (of_char c - 48)) 0 ds"

text \<open>A run of digits, at least one.\<close>

definition p_digits :: "string \<Rightarrow> (string \<times> string) option" where
  "p_digits s =
     (let ds = takeWhile is_digit s in if ds = [] then None else Some (ds, dropWhile is_digit s))"

lemma p_digits_shorter: "p_digits s = Some (ds, r) \<Longrightarrow> length r < length s"
  by (cases s) (auto simp: p_digits_def Let_def length_dropWhile_le less_Suc_eq_le split: if_splits)

definition p_int :: "string \<Rightarrow> (int \<times> string) option" where
  "p_int s =
     (case s of
        [] \<Rightarrow> None
      | c # cs \<Rightarrow>
          if c = CHR ''0'' then Some (0, cs)
          else (case p_digits s of None \<Rightarrow> None | Some (ds, r) \<Rightarrow> Some (digits_val ds, r)))"

text \<open>The fraction as digits over a power of ten, and the exponent.\<close>

definition p_frac :: "string \<Rightarrow> (rat \<times> string) option" where
  "p_frac s =
     (case s of
        c # cs \<Rightarrow>
          if c = CHR ''.'' then
            (case p_digits cs of
               None \<Rightarrow> None
             | Some (ds, r) \<Rightarrow> Some (of_int (digits_val ds) / 10 ^ length ds, r))
          else Some (0, s)
      | [] \<Rightarrow> Some (0, s))"

definition p_exp :: "string \<Rightarrow> (rat \<times> string) option" where
  "p_exp s =
     (case s of
        [] \<Rightarrow> Some (1, s)
      | e # cs \<Rightarrow>
          if e = CHR ''e'' \<or> e = CHR ''E'' then
            (case cs of
               [] \<Rightarrow> None
             | c # cs' \<Rightarrow>
                 (case p_digits (if c = CHR ''+'' \<or> c = CHR ''-'' then cs' else cs) of
                    None \<Rightarrow> None
                  | Some (ds, r) \<Rightarrow>
                      (let p = 10 ^ nat (digits_val ds)
                       in Some (if c = CHR ''-'' then 1 / p else p, r))))
          else Some (1, s))"

definition p_number :: "string \<Rightarrow> (rat \<times> string) option" where
  "p_number s =
     (let neg = starts_with s ''-'' in
      case p_int (if neg then tl s else s) of
        None \<Rightarrow> None
      | Some (i, r1) \<Rightarrow>
          (case p_frac r1 of
             None \<Rightarrow> None
           | Some (f, r2) \<Rightarrow>
               (case p_exp r2 of
                  None \<Rightarrow> None
                | Some (x, r3) \<Rightarrow> Some ((if neg then - 1 else 1) * (of_int i + f) * x, r3))))"

lemma p_int_shorter: "p_int s = Some (i, r) \<Longrightarrow> length r < length s"
  by (auto simp: p_int_def split: list.splits if_splits option.splits dest: p_digits_shorter)

lemma p_frac_shorter: "p_frac s = Some (f, r) \<Longrightarrow> length r \<le> length s"
  by (auto simp: p_frac_def split: list.splits if_splits option.splits dest: p_digits_shorter)

lemma p_exp_shorter: "p_exp s = Some (x, r) \<Longrightarrow> length r \<le> length s"
  by (auto simp: p_exp_def Let_def split: list.splits if_splits option.splits dest!: p_digits_shorter)

lemma p_number_shorter:
  assumes "p_number s = Some (x, r)"
  shows "length r < length s"
proof -
  let ?t = "if starts_with s ''-'' then tl s else s"
  from assms obtain i r1 f r2 y where
      "p_int ?t = Some (i, r1)" and "p_frac r1 = Some (f, r2)" and "p_exp r2 = Some (y, r)"
    by (auto simp: p_number_def Let_def split: option.splits)
  then have "length r < length ?t"
    by (meson p_int_shorter p_frac_shorter p_exp_shorter le_less_trans)
  then show ?thesis by (auto split: if_splits)
qed

section \<open>The parser\<close>

definition obj_of_members :: "(string \<times> json) list \<Rightarrow> (string \<times> json) list" where
  "obj_of_members ms = foldl (\<lambda>o' m. jm_set (fst m) (snd m) o') [] ms"

text \<open>The next token is the given punctuation character.\<close>

definition expect :: "char \<Rightarrow> string \<Rightarrow> string option" where
  "expect c s = (case skip_ws s of [] \<Rightarrow> None | d # r \<Rightarrow> if d = c then Some r else None)"

definition p_keyword :: "string \<Rightarrow> (json \<times> string) option" where
  "p_keyword s =
     (if starts_with s ''true'' then Some (JBool True, drop 4 s)
      else if starts_with s ''false'' then Some (JBool False, drop 5 s)
      else if starts_with s ''null'' then Some (JNull, drop 4 s)
      else None)"

text \<open>A key and its colon.\<close>

definition p_key :: "string \<Rightarrow> (string \<times> string) option" where
  "p_key s =
     do { r \<leftarrow> expect CHR 0x22 s;
          (k, r') \<leftarrow> p_string r;
          r'' \<leftarrow> expect CHR '':'' r';
          Some (k, r'') }"

text \<open>Strings, numbers and keywords.\<close>

definition p_scalar :: "string \<Rightarrow> (json \<times> string) option" where
  "p_scalar s =
     (case expect CHR 0x22 s of
        Some r \<Rightarrow> do { (t, r') \<leftarrow> p_string r; Some (JStr t, r') }
      | None \<Rightarrow>
          (case p_keyword (skip_ws s) of
             Some y \<Rightarrow> Some y
           | None \<Rightarrow> do { (x, r) \<leftarrow> p_number (skip_ws s); Some (JNum (js_round x), r) }))"

fun p_value :: "nat \<Rightarrow> string \<Rightarrow> (json \<times> string) option"
  and p_elems :: "nat \<Rightarrow> string \<Rightarrow> (json list \<times> string) option"
  and p_members :: "nat \<Rightarrow> string \<Rightarrow> ((string \<times> json) list \<times> string) option"
where
  "p_value 0 s = None"
| "p_value (Suc n) s =
     (case expect CHR ''['' s of
        Some r \<Rightarrow>
          (case expect CHR '']'' r of
             Some r' \<Rightarrow> Some (JArr [], r')
           | None \<Rightarrow> do { (vs, r') \<leftarrow> p_elems n r; Some (JArr vs, r') })
      | None \<Rightarrow>
          (case expect CHR ''{'' s of
             Some r \<Rightarrow>
               (case expect CHR ''}'' r of
                  Some r' \<Rightarrow> Some (JObj [], r')
                | None \<Rightarrow>
                    do { (ms, r') \<leftarrow> p_members n r; Some (JObj (obj_of_members ms), r') })
           | None \<Rightarrow> p_scalar s))"
| "p_elems 0 s = None"
| "p_elems (Suc n) s =
     do { (v, r) \<leftarrow> p_value n s;
          case expect CHR '']'' r of
            Some r' \<Rightarrow> Some ([v], r')
          | None \<Rightarrow>
              do { r' \<leftarrow> expect CHR '','' r; (vs, r'') \<leftarrow> p_elems n r'; Some (v # vs, r'') } }"
| "p_members 0 s = None"
| "p_members (Suc n) s =
     do { (k, r) \<leftarrow> p_key s;
          (v, r') \<leftarrow> p_value n r;
          case expect CHR ''}'' r' of
            Some r'' \<Rightarrow> Some ([(k, v)], r'')
          | None \<Rightarrow>
              do { r'' \<leftarrow> expect CHR '','' r';
                   (ms, t) \<leftarrow> p_members n r'';
                   Some ((k, v) # ms, t) } }"

definition json_fuel :: "string \<Rightarrow> nat" where
  "json_fuel s = 2 * length s + 2"

definition json_parse :: "string \<Rightarrow> json option" where
  "json_parse s =
     (case p_value (json_fuel s) s of
        None \<Rightarrow> None
      | Some (v, r) \<Rightarrow> if skip_ws r = [] then Some v else None)"

section \<open>Enough fuel\<close>

lemma expect_shorter: "expect c s = Some r \<Longrightarrow> length r < length s"
  using length_skip_ws [of s] by (auto simp: expect_def split: list.splits if_splits)

lemma p_keyword_shorter: "p_keyword s = Some (v, r) \<Longrightarrow> length r < length s"
  by (cases s) (auto simp: p_keyword_def starts_with_def split: if_splits)

lemma p_key_shorter: "p_key s = Some (k, r) \<Longrightarrow> length r < length s"
  by (auto simp: p_key_def bind_eq_Some_conv dest!: expect_shorter p_string_shorter)

lemma p_scalar_shorter: "p_scalar s = Some (v, r) \<Longrightarrow> length r < length s"
  using length_skip_ws [of s]
  by (auto simp: p_scalar_def bind_eq_Some_conv split: option.splits
      dest!: expect_shorter p_string_shorter p_keyword_shorter p_number_shorter)

lemma p_shorter:
  "p_value n s = Some (v, r) \<Longrightarrow> length r < length s"
  "p_elems n s = Some (vs, r) \<Longrightarrow> length r < length s"
  "p_members n s = Some (ms, r) \<Longrightarrow> length r < length s"
proof (induction n arbitrary: s v r vs ms)
  case (Suc n)
  note lens = expect_shorter p_key_shorter p_scalar_shorter Suc.IH
  {
    case 1
    then show ?case
      by (auto simp: bind_eq_Some_conv split: option.splits dest!: lens)
  next
    case 2
    then obtain x t where "p_value n s = Some (x, t)"
      and "expect CHR '']'' t = Some r \<or>
        (\<exists>t' us. expect CHR '','' t = Some t' \<and> p_elems n t' = Some (us, r))"
      by (auto simp: bind_eq_Some_conv split: option.splits)
    then show ?case by (auto dest!: lens)
  next
    case 3
    then obtain k u x t where "p_key s = Some (k, u)" and "p_value n u = Some (x, t)"
      and "expect CHR ''}'' t = Some r \<or>
        (\<exists>t' us. expect CHR '','' t = Some t' \<and> p_members n t' = Some (us, r))"
      by (auto simp: bind_eq_Some_conv split: option.splits)
    then show ?case by (auto dest!: lens)
  }
qed simp_all

text \<open>
  Beyond the length of the text, fuel makes no difference: a value needs \<open>2 l + 1\<close>
  units, a list of elements or members \<open>2 l + 2\<close>.
\<close>

lemma p_fuel_Suc:
  "2 * length s + 1 \<le> n \<Longrightarrow> p_value (Suc n) s = p_value n s"
  "2 * length s + 2 \<le> n \<Longrightarrow> p_elems (Suc n) s = p_elems n s"
  "2 * length s + 2 \<le> n \<Longrightarrow> p_members (Suc n) s = p_members n s"
proof (induction n arbitrary: s)
  case (Suc n)
  {
    case 1
    have "p_elems (Suc n) r = p_elems n r" if "expect c s = Some r" for c r
      using expect_shorter [OF that] 1 by (intro Suc.IH(2)) simp
    moreover have "p_members (Suc n) r = p_members n r" if "expect c s = Some r" for c r
      using expect_shorter [OF that] 1 by (intro Suc.IH(3)) simp
    ultimately show ?case
      by (subst (1 2) p_value.simps) (auto split: option.split simp del: p_elems.simps p_members.simps)
  next
    case 2
    have v: "p_value (Suc n) s = p_value n s" using 2 by (intro Suc.IH(1)) simp
    have "p_elems (Suc n) r' = p_elems n r'"
      if "p_value n s = Some (x, r)" "expect c r = Some r'" for x r c r'
      using expect_shorter [OF that(2)] p_shorter(1) [OF that(1)] 2 by (intro Suc.IH(2)) simp
    then show ?case
      by (subst (1 2) p_elems.simps)
        (auto simp: v split: option.split intro!: Option.bind_cong simp del: p_value.simps p_elems.simps)
  next
    case 3
    have v: "p_value (Suc n) r = p_value n r" if "p_key s = Some (k, r)" for k r
      using p_key_shorter [OF that] 3 by (intro Suc.IH(1)) simp
    have "p_members (Suc n) r'' = p_members n r''"
      if "p_key s = Some (k, r)" "p_value n r = Some (x, r')" "expect c r' = Some r''"
      for k r x r' c r''
      using expect_shorter [OF that(3)] p_shorter(1) [OF that(2)] p_key_shorter [OF that(1)] 3
      by (intro Suc.IH(3)) simp
    with v show ?case
      by (subst (1 2) p_members.simps)
        (auto split: option.split intro!: Option.bind_cong simp del: p_value.simps p_members.simps)
  }
qed simp_all

theorem json_fuel_enough: "json_fuel s \<le> n \<Longrightarrow> p_value n s = p_value (json_fuel s) s"
proof (induction n rule: dec_induct)
  case (step n)
  then show ?case
    using p_fuel_Suc(1) [of s n] by (simp add: json_fuel_def del: p_value.simps)
qed simp

section \<open>Reading a parsed value\<close>

text \<open>
  \<open>v.key\<close> on a parsed value that is not \<open>null\<close>: the member of an object, \<open>undefined\<close>
  (\<open>None\<close>) for anything else. Reading a member of \<open>null\<close> throws; its callers catch
  the throw and answer as for \<open>undefined\<close>.
\<close>

definition member :: "json \<Rightarrow> string \<Rightarrow> json option" where
  "member v k = (case v of JObj ms \<Rightarrow> jm_get ms k | _ \<Rightarrow> None)"

definition as_string :: "json option \<Rightarrow> string option" where
  "as_string v = (case v of Some (JStr s) \<Rightarrow> Some s | _ \<Rightarrow> None)"

definition as_number :: "json option \<Rightarrow> rat option" where
  "as_number v = (case v of Some (JNum x) \<Rightarrow> Some x | _ \<Rightarrow> None)"

definition is_object :: "json option \<Rightarrow> bool" where
  "is_object v = (case v of Some (JObj _) \<Rightarrow> True | _ \<Rightarrow> False)"

lemma as_string_Some: "as_string v = Some s \<longleftrightarrow> v = Some (JStr s)"
  by (auto simp: as_string_def split: option.splits json.splits)

lemma as_number_Some: "as_number v = Some x \<longleftrightarrow> v = Some (JNum x)"
  by (auto simp: as_number_def split: option.splits json.splits)

end
