(* ===== verification/Codec.thy ===== *)
theory Codec
  imports JsText
begin

text \<open>
  nap-core's byte codecs: \<open>codec.ts\<close> (hex and base64), \<open>base64.ts\<close> (base64 of text)
  and \<open>hash.ts\<close>. A \<open>Uint8Array\<close> is a list of 8-bit words; the 24-bit chunks are
  32-bit words, as JavaScript's bit operators have them. \<open>SHA-256\<close>
  (\<open>@noble/hashes\<close>) is an argument.
\<close>

datatype codec_error =
    Odd_hex_length
  | Invalid_hex_byte nat
  | Invalid_base64_length
  | Invalid_base64_padding
  | Invalid_base64_character

section \<open>Hexadecimal\<close>

text \<open>
  \<open>Number.parseInt(s, 16)\<close>: leading white space, a sign and a \<open>0x\<close> prefix are
  skipped, then the longest run of hex digits is read; \<open>NaN\<close> (\<open>None\<close>) when there is
  none. Anything after the digits is ignored.
\<close>

definition hex_digits_val :: "string \<Rightarrow> int" where
  "hex_digits_val ds = foldl (\<lambda>n c. n * 16 + int (or_else (hex_val c) 0)) 0 ds"

definition parse_int_16 :: "string \<Rightarrow> int option" where
  "parse_int_16 s =
     (let s1 = trim_lead js_spaces s;
          neg = starts_with s1 ''-'';
          s2 = (if neg \<or> starts_with s1 ''+'' then tl s1 else s1);
          s3 = (if starts_with s2 ''0x'' \<or> starts_with s2 ''0X'' then drop 2 s2 else s2);
          ds = takeWhile (\<lambda>c. hex_val c \<noteq> None) s3
      in if ds = [] then None
         else Some ((if neg then - 1 else 1) * hex_digits_val ds))"

text \<open>The loop of \<open>hexToBytes\<close> from \<open>index\<close> on: the rest of the text in pairs.\<close>

fun hex_pairs :: "nat \<Rightarrow> string \<Rightarrow> codec_error + byte list" where
  "hex_pairs i (a # b # r) =
     (case parse_int_16 [a, b] of
        None \<Rightarrow> Inl (Invalid_hex_byte i)
      | Some v \<Rightarrow>
          (case hex_pairs (i + 2) r of
             Inl e \<Rightarrow> Inl e
           | Inr bs \<Rightarrow> Inr (word_of_int v # bs)))"
| "hex_pairs i r = Inr []"

definition hexToBytes :: "string \<Rightarrow> codec_error + byte list" where
  "hexToBytes hex =
     (let normalized = to_lower (js_trim hex)
      in if length normalized mod 2 \<noteq> 0 then Inl Odd_hex_length
         else hex_pairs 0 normalized)"

definition byte_hex :: "byte \<Rightarrow> string" where
  "byte_hex b = [hex_char (unat b div 16), hex_char (unat b mod 16)]"

definition bytesToHex :: "byte list \<Rightarrow> string" where
  "bytesToHex bs = concat (map byte_hex bs)"

section \<open>Base64\<close>

definition BASE64_ALPHABET :: string where
  "BASE64_ALPHABET = ''ABCDEFGHIJKLMNOPQRSTUVWXYZabcdefghijklmnopqrstuvwxyz0123456789+/''"

definition BASE64_LOOKUP :: "char \<Rightarrow> 32 word option" where
  "BASE64_LOOKUP c = map_of (zip BASE64_ALPHABET (map word_of_nat [0..<64])) c"

definition b64_char :: "32 word \<Rightarrow> char" where
  "b64_char w = BASE64_ALPHABET ! unat (w AND 63)"

definition chunk24 :: "byte \<Rightarrow> byte \<Rightarrow> byte \<Rightarrow> 32 word" where
  "chunk24 b1 b2 b3 = push_bit 16 (ucast b1) OR push_bit 8 (ucast b2) OR ucast b3"

fun encodeBase64Bytes :: "byte list \<Rightarrow> string" where
  "encodeBase64Bytes [] = []"
| "encodeBase64Bytes [a] =
     (let k = chunk24 a 0 0
      in [b64_char (drop_bit 18 k), b64_char (drop_bit 12 k), CHR ''='', CHR ''=''])"
| "encodeBase64Bytes [a, b] =
     (let k = chunk24 a b 0
      in [b64_char (drop_bit 18 k), b64_char (drop_bit 12 k), b64_char (drop_bit 6 k), CHR ''=''])"
| "encodeBase64Bytes (a # b # c # r) =
     (let k = chunk24 a b c
      in [b64_char (drop_bit 18 k), b64_char (drop_bit 12 k), b64_char (drop_bit 6 k), b64_char k]
         @ encodeBase64Bytes r)"

text \<open>One round of the decoding loop: the three bytes of four characters, less the padding.\<close>

definition decode_quad :: "char \<Rightarrow> char \<Rightarrow> char \<Rightarrow> char \<Rightarrow> codec_error + byte list" where
  "decode_quad c1 c2 c3 c4 =
     (case (BASE64_LOOKUP c1, BASE64_LOOKUP c2,
            if c3 = CHR ''='' then Some 0 else BASE64_LOOKUP c3,
            if c4 = CHR ''='' then Some 0 else BASE64_LOOKUP c4) of
        (Some v1, Some v2, Some v3, Some v4) \<Rightarrow>
          (let k = push_bit 18 v1 OR push_bit 12 v2 OR push_bit 6 v3 OR v4
           in Inr ([ucast (drop_bit 16 k AND 255)]
                   @ (if c3 \<noteq> CHR ''='' then [ucast (drop_bit 8 k AND 255)] else [])
                   @ (if c4 \<noteq> CHR ''='' then [ucast (k AND 255)] else [])))
      | _ \<Rightarrow> Inl Invalid_base64_character)"

fun decode_quads :: "string \<Rightarrow> codec_error + byte list" where
  "decode_quads (c1 # c2 # c3 # c4 # r) =
     (case decode_quad c1 c2 c3 c4 of
        Inl e \<Rightarrow> Inl e
      | Inr bs \<Rightarrow> (case decode_quads r of Inl e \<Rightarrow> Inl e | Inr bs' \<Rightarrow> Inr (bs @ bs')))"
| "decode_quads r = Inr []"

definition decodeBase64Bytes :: "string \<Rightarrow> codec_error + byte list" where
  "decodeBase64Bytes value =
     (let sanitized = strip_spaces value;
          tail = dropWhile (\<lambda>c. c \<noteq> CHR ''='') sanitized
      in if sanitized = [] then Inr []
         else if length sanitized mod 4 \<noteq> 0 then Inl Invalid_base64_length
         else if tail \<noteq> [] \<and> tail \<noteq> ''='' \<and> tail \<noteq> ''=='' then Inl Invalid_base64_padding
         else decode_quads sanitized)"

definition url_char :: "char \<Rightarrow> char" where
  "url_char c = (if c = CHR ''+'' then CHR ''-'' else if c = CHR ''/'' then CHR ''_'' else c)"

definition encodeBase64UrlBytes :: "byte list \<Rightarrow> string" where
  "encodeBase64UrlBytes bs =
     rev (dropWhile (\<lambda>c. c = CHR ''='') (rev (map url_char (encodeBase64Bytes bs))))"

definition encodeBase64String :: "string \<Rightarrow> string" where
  "encodeBase64String s = encodeBase64Bytes (utf8_encode s)"

definition decodeBase64String :: "string \<Rightarrow> codec_error + string" where
  "decodeBase64String s = map_sum id utf8_decode (decodeBase64Bytes s)"

definition sha256Hex :: "(byte list \<Rightarrow> byte list) \<Rightarrow> byte list \<Rightarrow> string" where
  "sha256Hex sha256 bs = bytesToHex (sha256 bs)"

section \<open>Hex round trip\<close>

lemma length_bytesToHex: "length (bytesToHex bs) = 2 * length bs"
  by (induction bs) (simp_all add: bytesToHex_def byte_hex_def)

lemma unat_byte_less [simp]: "unat (b :: byte) < 256"
proof -
  have "unat b < 2 ^ LENGTH(8)" by (rule unsigned_less)
  then show ?thesis by simp
qed

lemma bytesToHex_chars: "set (bytesToHex bs) \<subseteq> set ''0123456789abcdef''"
proof (induction bs)
  case (Cons b bs)
  have "unat b div 16 < 16" by (simp add: less_mult_imp_div_less)
  then show ?case
    using Cons hex_char_in [of "unat b div 16"] hex_char_in [of "unat b mod 16"]
    by (simp add: bytesToHex_def byte_hex_def)
qed (simp add: bytesToHex_def)

lemma bytesToHex_hex: "is_hex_string (2 * length bs) (bytesToHex bs)"
proof -
  have "list_all lower_hex (bytesToHex bs)"
    unfolding list_all_iff lower_hex_def using bytesToHex_chars [of bs] by blast
  then show ?thesis by (simp add: is_hex_string_def length_bytesToHex)
qed

lemma trim_lead_hex:
  assumes "s = [] \<or> hd s \<in> set ''0123456789abcdef''"
  shows "trim_lead js_spaces s = s" and "trim_lead (map rev js_spaces) s = s"
proof -
  have "lead_space js_spaces s = 0"
    using assms by (intro lead_space_none) (cases s, auto simp: js_spaces_def starts_with_def)
  then show "trim_lead js_spaces s = s" by (simp add: trim_lead.simps)
  have "lead_space (map rev js_spaces) s = 0"
    using assms by (intro lead_space_none) (cases s, auto simp: js_spaces_def starts_with_def)
  then show "trim_lead (map rev js_spaces) s = s" by (simp add: trim_lead.simps)
qed

lemma js_trim_hex:
  assumes "set s \<subseteq> set ''0123456789abcdef''"
  shows "js_trim s = s"
proof -
  have hd: "t = [] \<or> hd t \<in> set ''0123456789abcdef''" if "set t = set s" for t
    using assms that hd_in_set [of t] by blast
  then show ?thesis
    using hd [of s] hd [of "rev s"] by (simp only: js_trim_def trim_lead_hex set_rev rev_rev_ident)
qed

lemma to_lower_hex: "set s \<subseteq> set ''0123456789abcdef'' \<Longrightarrow> to_lower s = s"
  by (induction s) (auto simp: to_lower_def lower_char_def)

lemma parse_int_16_hex:
  assumes a: "hex_val a = Some x" and b: "hex_val b = Some y"
  shows "parse_int_16 [a, b] = Some (int x * 16 + int y)"
proof -
  have ns: "a \<noteq> c" "b \<noteq> c" if "hex_val c = None" for c
    using that a b by auto
  have "lead_space js_spaces [a, b] = 0"
    by (intro lead_space_none)
      (auto simp: js_spaces_def starts_with_def hex_val_def Let_def ns(1) simp del: char_of_eq_iff)
  then have t: "trim_lead js_spaces [a, b] = [a, b]"
    by (simp add: trim_lead.simps)
  have "a \<noteq> CHR ''-''" "a \<noteq> CHR ''+''" "b \<noteq> CHR ''x''" "b \<noteq> CHR ''X''"
    by (rule ns, simp add: hex_val_def)+
  then show ?thesis
    by (simp add: parse_int_16_def Let_def t starts_with_def a b hex_digits_val_def)
qed

lemma parse_int_byte_hex: "parse_int_16 (byte_hex b) = Some (int (unat b))"
proof -
  have "hex_val (hex_char (unat b div 16)) = Some (unat b div 16)"
    and "hex_val (hex_char (unat b mod 16)) = Some (unat b mod 16)"
    by (rule hex_val_hex_char, simp add: less_mult_imp_div_less)+
  then have "parse_int_16 (byte_hex b) = Some (int (unat b div 16) * 16 + int (unat b mod 16))"
    unfolding byte_hex_def by (rule parse_int_16_hex)
  moreover have "int (unat b div 16) * 16 + int (unat b mod 16) = int (unat b)"
    by (metis div_mult_mod_eq of_nat_add of_nat_mult of_nat_numeral)
  ultimately show ?thesis by simp
qed

lemma hex_pairs_bytesToHex: "hex_pairs i (bytesToHex bs) = Inr bs"
proof (induction bs arbitrary: i)
  case (Cons b bs)
  have "bytesToHex (b # bs)
      = hex_char (unat b div 16) # hex_char (unat b mod 16) # bytesToHex bs"
    by (simp add: bytesToHex_def byte_hex_def)
  then show ?case
    using Cons parse_int_byte_hex [of b] by (simp add: byte_hex_def)
qed (simp add: bytesToHex_def)

lemma hexToBytes_bytesToHex: "hexToBytes (bytesToHex bs) = Inr bs"
  using bytesToHex_chars [of bs]
  by (simp add: hexToBytes_def Let_def js_trim_hex to_lower_hex length_bytesToHex
      hex_pairs_bytesToHex)

lemma bytesToHex_inj: "bytesToHex as = bytesToHex bs \<Longrightarrow> as = bs"
  using hexToBytes_bytesToHex by (metis sum.inject(2))

section \<open>Base64 round trip\<close>

lemma alphabet_facts:
  "length BASE64_ALPHABET = 64" "distinct BASE64_ALPHABET" "CHR ''='' \<notin> set BASE64_ALPHABET"
  by (simp_all add: BASE64_ALPHABET_def)

lemma and_63: "w AND 63 = take_bit 6 (w :: 32 word)"
  by (simp add: take_bit_eq_mask mask_eq_exp_minus_1)

lemma and_255: "w AND 255 = take_bit 8 (w :: 32 word)"
  by (simp add: take_bit_eq_mask mask_eq_exp_minus_1)

lemma unat_and_63: "unat (w AND 63 :: 32 word) < 64"
  using take_bit_nat_less_exp [of 6 "unat w"] by (simp add: and_63 unsigned_take_bit_eq)

lemma b64_char_in: "b64_char w \<in> set BASE64_ALPHABET"
  using unat_and_63 [of w] by (simp add: b64_char_def alphabet_facts)

lemma b64_char_not_eq [simp]: "b64_char w \<noteq> CHR ''=''" "CHR ''='' \<noteq> b64_char w"
  using b64_char_in [of w] alphabet_facts(3) by auto

lemma lookup_b64_char [simp]: "BASE64_LOOKUP (b64_char w) = Some (w AND 63)"
  using unat_and_63 [of w] alphabet_facts
  by (simp add: BASE64_LOOKUP_def b64_char_def map_of_zip_nth)

lemma byte_high: "8 \<le> n \<Longrightarrow> \<not> bit (b :: byte) n"
  by (auto dest: bit_imp_le_length)

lemma byte_eqI:
  "list_all (\<lambda>n. bit (x :: byte) n \<longleftrightarrow> bit y n) [0..<8] \<Longrightarrow> x = y"
  by (rule bit_word_eqI) (simp add: list_all_iff)

text \<open>Four six-bit groups put together again.\<close>

definition regroup :: "32 word \<Rightarrow> 32 word" where
  "regroup k = push_bit 18 (drop_bit 18 k AND 63) OR push_bit 12 (drop_bit 12 k AND 63)
      OR push_bit 6 (drop_bit 6 k AND 63) OR (k AND 63)"

lemma chunk_recover:
  "ucast (drop_bit 16 (regroup (chunk24 a b c)) AND 255) = a"
  "ucast (drop_bit 8 (regroup (chunk24 a b c)) AND 255) = b"
  "ucast (regroup (chunk24 a b c) AND 255) = c"
  unfolding regroup_def chunk24_def and_63 and_255
  by (rule byte_eqI, simp add: upt_conv_Cons bit_simps byte_high; simp add: eval_nat_numeral)+

text \<open>The groups that padding replaces are zero.\<close>

lemma chunk_padding:
  "drop_bit 6 (chunk24 a 0 0) AND 63 = 0" "chunk24 a b 0 AND 63 = 0"
  unfolding chunk24_def and_63
  by (rule bit_word_eqI; auto simp: bit_simps)+

lemma decode_quad_full:
  "decode_quad (b64_char (drop_bit 18 (chunk24 a b c))) (b64_char (drop_bit 12 (chunk24 a b c)))
     (b64_char (drop_bit 6 (chunk24 a b c))) (b64_char (chunk24 a b c)) = Inr [a, b, c]"
  using chunk_recover [of a b c] by (simp add: decode_quad_def Let_def regroup_def)

lemma decode_quad_two:
  "decode_quad (b64_char (drop_bit 18 (chunk24 a b 0))) (b64_char (drop_bit 12 (chunk24 a b 0)))
     (b64_char (drop_bit 6 (chunk24 a b 0))) (CHR ''='') = Inr [a, b]"
  using chunk_recover [of a b 0] chunk_padding(2) [of a b]
  by (simp add: decode_quad_def Let_def regroup_def)

lemma decode_quad_one:
  "decode_quad (b64_char (drop_bit 18 (chunk24 a 0 0))) (b64_char (drop_bit 12 (chunk24 a 0 0)))
     (CHR ''='') (CHR ''='') = Inr [a]"
  using chunk_recover [of a 0 0] chunk_padding(2) [of a 0] chunk_padding(1) [of a]
  by (simp add: decode_quad_def Let_def regroup_def)

lemma decode_quads_encode: "decode_quads (encodeBase64Bytes bs) = Inr bs"
  by (induction bs rule: encodeBase64Bytes.induct)
    (simp_all add: Let_def decode_quad_full decode_quad_two decode_quad_one)

lemma length_encode_mod: "length (encodeBase64Bytes bs) mod 4 = 0"
  by (induction bs rule: encodeBase64Bytes.induct) (simp_all add: Let_def)

lemma length_encode: "length (encodeBase64Bytes bs) = 4 * ((length bs + 2) div 3)"
proof (induction bs rule: encodeBase64Bytes.induct)
  case (4 a b c r)
  have "(5 + length r) div 3 = Suc ((2 + length r) div 3)" by presburger
  then show ?case using 4 by (simp add: Let_def)
qed (simp_all add: Let_def)

lemma encode_Nil_iff [simp]: "encodeBase64Bytes bs = [] \<longleftrightarrow> bs = []"
  by (cases bs rule: encodeBase64Bytes.cases) (simp_all add: Let_def)

text \<open>The padding: none, one or two \<open>=\<close> at the very end.\<close>

definition padding :: "byte list \<Rightarrow> string" where
  "padding bs = replicate ((3 - length bs mod 3) mod 3) CHR ''=''"

lemma padding_simps:
  "padding [] = []" "padding [a] = ''==''" "padding [a, b] = ''=''"
  "padding (a # b # c # r) = padding r"
proof -
  have "Suc (Suc (Suc n)) mod 3 = n mod 3" for n :: nat by presburger
  then show "padding (a # b # c # r) = padding r" by (simp add: padding_def)
qed (simp_all add: padding_def numeral_2_eq_2)

lemma encode_shape:
  "\<exists>body. encodeBase64Bytes bs = body @ padding bs \<and> set body \<subseteq> set BASE64_ALPHABET"
proof (induction bs rule: encodeBase64Bytes.induct)
  case (4 a b c r)
  then obtain body where b: "encodeBase64Bytes r = body @ padding r" "set body \<subseteq> set BASE64_ALPHABET"
    by blast
  let ?k = "chunk24 a b c"
  let ?q = "[b64_char (drop_bit 18 ?k), b64_char (drop_bit 12 ?k), b64_char (drop_bit 6 ?k), b64_char ?k]"
  have "encodeBase64Bytes (a # b # c # r) = (?q @ body) @ padding (a # b # c # r)"
    using b(1) by (simp add: Let_def padding_simps)
  moreover have "set (?q @ body) \<subseteq> set BASE64_ALPHABET"
    using b(2) b64_char_in by simp
  ultimately show ?case by blast
next
  case (2 a)
  let ?k = "chunk24 a 0 0"
  have "encodeBase64Bytes [a] = [b64_char (drop_bit 18 ?k), b64_char (drop_bit 12 ?k)] @ padding [a]"
    by (simp add: Let_def padding_simps)
  moreover have "set [b64_char (drop_bit 18 ?k), b64_char (drop_bit 12 ?k)] \<subseteq> set BASE64_ALPHABET"
    using b64_char_in by simp
  ultimately show ?case by blast
next
  case (3 a b)
  let ?k = "chunk24 a b 0"
  let ?q = "[b64_char (drop_bit 18 ?k), b64_char (drop_bit 12 ?k), b64_char (drop_bit 6 ?k)]"
  have "encodeBase64Bytes [a, b] = ?q @ padding [a, b]"
    by (simp add: Let_def padding_simps)
  moreover have "set ?q \<subseteq> set BASE64_ALPHABET"
    using b64_char_in by simp
  ultimately show ?case by blast
qed (simp add: padding_simps)

lemma padding_cases: "padding bs = [] \<or> padding bs = ''='' \<or> padding bs = ''==''"
  by (induction bs rule: encodeBase64Bytes.induct) (simp_all add: padding_simps)

lemma padding_all: "c \<in> set (padding bs) \<Longrightarrow> c = CHR ''=''"
  by (simp add: padding_def)

lemma alphabet_not_space: "set BASE64_ALPHABET \<inter> set (map hd js_spaces) = {}"
  by (simp add: BASE64_ALPHABET_def js_spaces_def)

lemma pad_not_space: "CHR ''='' \<notin> set (map hd js_spaces)"
  by (simp add: js_spaces_def)

lemma decodeBase64Bytes_encode: "decodeBase64Bytes (encodeBase64Bytes bs) = Inr bs"
proof -
  obtain body where e: "encodeBase64Bytes bs = body @ padding bs"
    and b: "set body \<subseteq> set BASE64_ALPHABET"
    using encode_shape by blast
  have "c \<notin> set (map hd js_spaces)" if "c \<in> set (encodeBase64Bytes bs)" for c
    using that [unfolded e] b padding_all alphabet_not_space pad_not_space
    unfolding set_append by blast
  then have s: "strip_spaces (encodeBase64Bytes bs) = encodeBase64Bytes bs"
    by (rule strip_spaces_plain)
  have "dropWhile (\<lambda>c. c \<noteq> CHR ''='') (encodeBase64Bytes bs)
      = dropWhile (\<lambda>c. c \<noteq> CHR ''='') (padding bs)"
    unfolding e using b alphabet_facts(3) by (intro dropWhile_append2) blast
  also have "\<dots> = padding bs"
    using padding_cases [of bs] by (elim disjE) simp_all
  finally show ?thesis
    using padding_cases [of bs] length_encode_mod [of bs]
    by (auto simp: decodeBase64Bytes_def Let_def s decode_quads_encode)
qed

lemma decodeBase64String_encode:
  "ascii s \<Longrightarrow> decodeBase64String (encodeBase64String s) = Inr s"
  by (simp add: decodeBase64String_def encodeBase64String_def decodeBase64Bytes_encode
      utf8_decode_encode_ascii)

section \<open>Tokens in base64url\<close>

lemma url_char_eq:
  "\<lbrakk>url_char c = url_char d; c \<noteq> CHR ''-''; c \<noteq> CHR ''_''; d \<noteq> CHR ''-''; d \<noteq> CHR ''_''\<rbrakk>
   \<Longrightarrow> c = d"
  unfolding url_char_def by (simp split: if_splits)

lemma url_char_inj: "inj_on url_char (set BASE64_ALPHABET)"
proof -
  have "CHR ''-'' \<notin> set BASE64_ALPHABET" "CHR ''_'' \<notin> set BASE64_ALPHABET"
    by (simp_all add: BASE64_ALPHABET_def)
  then show ?thesis
    using url_char_eq by (intro inj_onI) blast
qed

lemma url_char_not_pad: "c \<in> set BASE64_ALPHABET \<Longrightarrow> url_char c \<noteq> CHR ''=''"
  using alphabet_facts(3) by (cases "c = CHR ''=''") (simp_all add: url_char_def)

lemma encodeBase64UrlBytes_body:
  assumes e: "encodeBase64Bytes bs = body @ padding bs" and b: "set body \<subseteq> set BASE64_ALPHABET"
  shows "encodeBase64UrlBytes bs = map url_char body"
proof -
  have pad: "map url_char (padding bs) = padding bs" "\<forall>c\<in>set (rev (padding bs)). c = CHR ''=''"
    by (simp_all add: padding_def url_char_def)
  have "rev (map url_char body) = [] \<or> hd (rev (map url_char body)) \<noteq> CHR ''=''"
    using b url_char_not_pad by (cases body rule: rev_cases) simp_all
  then have "dropWhile (\<lambda>c. c = CHR ''='') (rev (map url_char body)) = rev (map url_char body)"
    by (cases "rev (map url_char body)") auto
  then show ?thesis
    unfolding encodeBase64UrlBytes_def e map_append rev_append pad(1)
    using pad(2) by (simp only: dropWhile_append2 rev_rev_ident)
qed

lemma encodeBase64UrlBytes_inj:
  assumes len: "length as = length bs" and eq: "encodeBase64UrlBytes as = encodeBase64UrlBytes bs"
  shows "as = bs"
proof -
  obtain x where x: "encodeBase64Bytes as = x @ padding as" "set x \<subseteq> set BASE64_ALPHABET"
    using encode_shape by blast
  obtain y where y: "encodeBase64Bytes bs = y @ padding bs" "set y \<subseteq> set BASE64_ALPHABET"
    using encode_shape by blast
  have "map url_char x = map url_char y"
    using eq encodeBase64UrlBytes_body [OF x] encodeBase64UrlBytes_body [OF y] by simp
  moreover have "inj_on url_char (set x \<union> set y)"
    using x(2) y(2) by (intro inj_on_subset [OF url_char_inj] Un_least)
  ultimately have "x = y" by (rule map_inj_on)
  then have "encodeBase64Bytes as = encodeBase64Bytes bs"
    using x y len by (simp add: padding_def)
  then show ?thesis using decode_quads_encode by (metis sum.inject(2))
qed

lemma encodeBase64UrlBytes_nonempty: "bs \<noteq> [] \<Longrightarrow> encodeBase64UrlBytes bs \<noteq> []"
proof -
  assume ne: "bs \<noteq> []"
  obtain x where x: "encodeBase64Bytes bs = x @ padding bs" "set x \<subseteq> set BASE64_ALPHABET"
    using encode_shape by blast
  have "length (encodeBase64Bytes bs) \<ge> 4"
    using ne by (cases bs) (simp_all add: length_encode)
  moreover have "length (padding bs) \<le> 2"
    using padding_cases [of bs] by auto
  ultimately have "x \<noteq> []" using x(1) by auto
  then show ?thesis using x by (simp add: encodeBase64UrlBytes_body)
qed

end
