(* ===== verification/CoreTypes.thy ===== *)
theory CoreTypes
  imports Json Codec
begin

text \<open>
  nap-core's wire types (\<open>types.ts\<close>) and failures (\<open>errors.ts\<close>). Times are whole
  epoch seconds; \<open>created_at\<close> and \<open>kind\<close> of a signed event come out of JSON and are
  rationals; the bound an ACL resolver may return is any JavaScript number, because the
  code asks \<open>Number.isFinite\<close> of it. Optional fields are options.
\<close>

section \<open>Failure codes\<close>

datatype NapErrorCode =
    NAP_INIT_INVALID_JSON
  | NAP_INIT_INVALID_NPUB
  | NAP_INIT_RATE_LIMITED
  | NAP_INIT_INTERNAL
  | NAP_COMPLETE_MISSING_AUTH_HEADER
  | NAP_COMPLETE_INVALID_AUTH_SCHEME
  | NAP_COMPLETE_INVALID_EVENT_JSON
  | NAP_COMPLETE_INVALID_KIND
  | NAP_COMPLETE_INVALID_SIGNATURE
  | NAP_COMPLETE_CREATED_AT_OUT_OF_RANGE
  | NAP_COMPLETE_URL_MISMATCH
  | NAP_COMPLETE_METHOD_MISMATCH
  | NAP_COMPLETE_MISSING_PAYLOAD
  | NAP_COMPLETE_PAYLOAD_MISMATCH
  | NAP_COMPLETE_MISSING_CHALLENGE_ID
  | NAP_COMPLETE_UNKNOWN_CHALLENGE
  | NAP_COMPLETE_EXPIRED_CHALLENGE
  | NAP_COMPLETE_REDEEMED_CHALLENGE
  | NAP_COMPLETE_CHALLENGE_MISMATCH
  | NAP_COMPLETE_PRINCIPAL_MISMATCH
  | NAP_COMPLETE_ACL_DENIED
  | NAP_COMPLETE_RATE_LIMITED
  | NAP_COMPLETE_FAILED_TERMINAL
  | NAP_COMPLETE_INTERNAL
  | NAP_REFRESH_UNKNOWN_TOKEN
  | NAP_REFRESH_REUSED
  | NAP_REFRESH_EXPIRED
  | NAP_REFRESH_REVOKED
  | NAP_REFRESH_ACL_DENIED
  | NAP_REFRESH_RATE_LIMITED
  | NAP_REFRESH_INTERNAL

text \<open>The code as the string the audit trail and the metrics see.\<close>

primrec code_str :: "NapErrorCode \<Rightarrow> string" where
  "code_str NAP_INIT_INVALID_JSON = ''NAP_INIT_INVALID_JSON''"
| "code_str NAP_INIT_INVALID_NPUB = ''NAP_INIT_INVALID_NPUB''"
| "code_str NAP_INIT_RATE_LIMITED = ''NAP_INIT_RATE_LIMITED''"
| "code_str NAP_INIT_INTERNAL = ''NAP_INIT_INTERNAL''"
| "code_str NAP_COMPLETE_MISSING_AUTH_HEADER = ''NAP_COMPLETE_MISSING_AUTH_HEADER''"
| "code_str NAP_COMPLETE_INVALID_AUTH_SCHEME = ''NAP_COMPLETE_INVALID_AUTH_SCHEME''"
| "code_str NAP_COMPLETE_INVALID_EVENT_JSON = ''NAP_COMPLETE_INVALID_EVENT_JSON''"
| "code_str NAP_COMPLETE_INVALID_KIND = ''NAP_COMPLETE_INVALID_KIND''"
| "code_str NAP_COMPLETE_INVALID_SIGNATURE = ''NAP_COMPLETE_INVALID_SIGNATURE''"
| "code_str NAP_COMPLETE_CREATED_AT_OUT_OF_RANGE = ''NAP_COMPLETE_CREATED_AT_OUT_OF_RANGE''"
| "code_str NAP_COMPLETE_URL_MISMATCH = ''NAP_COMPLETE_URL_MISMATCH''"
| "code_str NAP_COMPLETE_METHOD_MISMATCH = ''NAP_COMPLETE_METHOD_MISMATCH''"
| "code_str NAP_COMPLETE_MISSING_PAYLOAD = ''NAP_COMPLETE_MISSING_PAYLOAD''"
| "code_str NAP_COMPLETE_PAYLOAD_MISMATCH = ''NAP_COMPLETE_PAYLOAD_MISMATCH''"
| "code_str NAP_COMPLETE_MISSING_CHALLENGE_ID = ''NAP_COMPLETE_MISSING_CHALLENGE_ID''"
| "code_str NAP_COMPLETE_UNKNOWN_CHALLENGE = ''NAP_COMPLETE_UNKNOWN_CHALLENGE''"
| "code_str NAP_COMPLETE_EXPIRED_CHALLENGE = ''NAP_COMPLETE_EXPIRED_CHALLENGE''"
| "code_str NAP_COMPLETE_REDEEMED_CHALLENGE = ''NAP_COMPLETE_REDEEMED_CHALLENGE''"
| "code_str NAP_COMPLETE_CHALLENGE_MISMATCH = ''NAP_COMPLETE_CHALLENGE_MISMATCH''"
| "code_str NAP_COMPLETE_PRINCIPAL_MISMATCH = ''NAP_COMPLETE_PRINCIPAL_MISMATCH''"
| "code_str NAP_COMPLETE_ACL_DENIED = ''NAP_COMPLETE_ACL_DENIED''"
| "code_str NAP_COMPLETE_RATE_LIMITED = ''NAP_COMPLETE_RATE_LIMITED''"
| "code_str NAP_COMPLETE_FAILED_TERMINAL = ''NAP_COMPLETE_FAILED_TERMINAL''"
| "code_str NAP_COMPLETE_INTERNAL = ''NAP_COMPLETE_INTERNAL''"
| "code_str NAP_REFRESH_UNKNOWN_TOKEN = ''NAP_REFRESH_UNKNOWN_TOKEN''"
| "code_str NAP_REFRESH_REUSED = ''NAP_REFRESH_REUSED''"
| "code_str NAP_REFRESH_EXPIRED = ''NAP_REFRESH_EXPIRED''"
| "code_str NAP_REFRESH_REVOKED = ''NAP_REFRESH_REVOKED''"
| "code_str NAP_REFRESH_ACL_DENIED = ''NAP_REFRESH_ACL_DENIED''"
| "code_str NAP_REFRESH_RATE_LIMITED = ''NAP_REFRESH_RATE_LIMITED''"
| "code_str NAP_REFRESH_INTERNAL = ''NAP_REFRESH_INTERNAL''"

definition RETRYABLE_ERRORS :: "NapErrorCode list" where
  "RETRYABLE_ERRORS =
     [NAP_INIT_RATE_LIMITED, NAP_INIT_INTERNAL, NAP_COMPLETE_CREATED_AT_OUT_OF_RANGE,
      NAP_COMPLETE_UNKNOWN_CHALLENGE, NAP_COMPLETE_RATE_LIMITED, NAP_COMPLETE_INTERNAL,
      NAP_REFRESH_RATE_LIMITED, NAP_REFRESH_INTERNAL]"

definition isRetryableNapError :: "NapErrorCode \<Rightarrow> bool" where
  "isRetryableNapError code = List.member RETRYABLE_ERRORS code"

text \<open>\<open>VerifyCompleteFailure\<close>; a failure of \<open>/auth/init\<close> has the same three fields.\<close>

record VerifyCompleteFailure =
  vf_code :: NapErrorCode
  vf_retryable :: bool
  vf_retryAfterSeconds :: "int option"

definition failure :: "NapErrorCode \<Rightarrow> VerifyCompleteFailure" where
  "failure code =
     \<lparr>vf_code = code, vf_retryable = isRetryableNapError code, vf_retryAfterSeconds = None\<rparr>"

lemma failure_sel [simp]:
  "vf_code (failure c) = c" "vf_retryable (failure c) = isRetryableNapError c"
  "vf_retryAfterSeconds (failure c) = None"
  by (simp_all add: failure_def)

lemma failure_inj [simp]: "failure c = failure d \<longleftrightarrow> c = d"
  by (auto simp: failure_def)

section \<open>Numbers\<close>

text \<open>A JavaScript number where the code distinguishes the non-finite ones.\<close>

datatype js_num = Fin rat | NaN | PosInf | NegInf

definition js_finite :: "js_num \<Rightarrow> bool" where
  "js_finite n = (case n of Fin _ \<Rightarrow> True | _ \<Rightarrow> False)"

text \<open>\<open>Math.min(a, b)\<close>: \<open>NaN\<close> when an argument is.\<close>

definition js_min :: "js_num \<Rightarrow> js_num \<Rightarrow> js_num" where
  "js_min a b =
     (case (a, b) of
        (NaN, _) \<Rightarrow> NaN
      | (_, NaN) \<Rightarrow> NaN
      | (NegInf, _) \<Rightarrow> NegInf
      | (_, NegInf) \<Rightarrow> NegInf
      | (PosInf, _) \<Rightarrow> b
      | (_, PosInf) \<Rightarrow> a
      | (Fin x, Fin y) \<Rightarrow> Fin (min x y))"

lemma js_min_Fin [simp]: "js_min (Fin x) (Fin y) = Fin (min x y)"
  by (simp add: js_min_def)

section \<open>Records\<close>

record Nip98Event =
  ev_id :: string
  ev_pubkey :: string
  ev_created_at :: rat
  ev_kind :: rat
  ev_tags :: "string list list"
  ev_content :: string
  ev_sig :: string

record VoucherCredential =
  v_mint_url :: string
  v_keyset_id :: string
  v_secret :: string
  v_signature :: string
  v_amount :: int
  v_dleq_e :: string
  v_dleq_s :: string
  v_dleq_r :: string
  v_witness :: "string option"

text \<open>\<open>step_up\<close> is present only with the value \<open>true\<close>.\<close>

record AuthCompleteRequest =
  rq_challenge_id :: string
  rq_step_up :: bool
  rq_voucher :: "VoucherCredential option"

datatype ChallengeState = issued | redeemed | expired | failed_terminal

text \<open>
  The order in which a challenge moves through its states: every operation of a
  challenge store moves a record up, or leaves it.
\<close>

instantiation ChallengeState :: linorder
begin

primrec rank :: "ChallengeState \<Rightarrow> nat" where
  "rank issued = 0"
| "rank redeemed = 1"
| "rank failed_terminal = 2"
| "rank expired = 3"

definition less_eq_ChallengeState :: "ChallengeState \<Rightarrow> ChallengeState \<Rightarrow> bool" where
  "a \<le> b \<longleftrightarrow> rank a \<le> rank b"

definition less_ChallengeState :: "ChallengeState \<Rightarrow> ChallengeState \<Rightarrow> bool" where
  "a < b \<longleftrightarrow> rank a < rank b"

instance
proof
  have inj: "a = b" if "rank a = rank b" for a b :: ChallengeState
    using that by (cases a; cases b) simp_all
  show "a \<le> b \<Longrightarrow> b \<le> a \<Longrightarrow> a = b" for a b :: ChallengeState
    by (simp add: less_eq_ChallengeState_def inj)
qed (auto simp: less_eq_ChallengeState_def less_ChallengeState_def)

end

lemma state_order:
  "s \<le> expired" "issued \<le> s" "redeemed \<le> s \<longleftrightarrow> s \<noteq> issued"
  "failed_terminal \<le> s \<longleftrightarrow> s = failed_terminal \<or> s = expired"
  "s \<le> issued \<longleftrightarrow> s = issued" "expired \<le> s \<longleftrightarrow> s = expired"
  by (cases s; simp add: less_eq_ChallengeState_def)+

record ChallengeRecord =
  ch_challenge_id :: string
  ch_challenge :: string
  ch_npub :: string
  ch_pubkey :: string
  ch_auth_url :: string
  ch_auth_method :: string
  ch_issued_at :: int
  ch_expires_at :: int
  ch_state :: ChallengeState
  ch_redeemed_event_id :: "string option"
  ch_redeemed_session_id :: "string option"
  ch_result_cache_until :: "int option"
  ch_client_ip :: "string option"
  ch_failure_count :: "int option"

record SessionRecord =
  s_session_id :: string
  s_challenge_id :: string
  s_access_token :: string
  s_principal_npub :: string
  s_principal_pubkey :: string
  s_roles :: "string list"
  s_permissions :: "string list"
  s_issued_at :: int
  s_expires_at :: int
  s_step_up_token :: "string option"
  s_step_up_expires_at :: "int option"
  s_refresh_token :: "string option"
  s_refresh_expires_at :: "int option"
  s_previous_refresh_token :: "string option"
  s_revoked_at :: "int option"

record AclDecision =
  d_allowed :: bool
  d_roles :: "string list"
  d_permissions :: "string list"
  d_reason :: "string option"
  d_revoke_sessions :: "bool option"
  d_expires_at :: "js_num option"

record VerifiedNip98Completion =
  vc_event :: Nip98Event
  vc_challenge :: string
  vc_challengeId :: string
  vc_payload :: string

record VerifyNip98CompletionInput =
  vi_authorization :: "string option"
  vi_method :: string
  vi_url :: string
  vi_body :: AuthCompleteRequest
  vi_rawBody :: "byte list"
  vi_now :: int
  vi_maxClockSkewSeconds :: "int option"

record AuthInitResponse =
  ir_challenge_id :: string
  ir_challenge :: string
  ir_auth_url :: string
  ir_auth_method :: string
  ir_issued_at :: int
  ir_expires_at :: int
  ir_supported_extensions :: "string list option"

record AuthSuccessResponse =
  as_status :: string
  as_access_token :: string
  as_token_type :: string
  as_expires_at :: int
  as_step_up_token :: "string option"
  as_step_up_expires_at :: "int option"
  as_refresh_token :: "string option"
  as_refresh_expires_at :: "int option"
  as_principal_npub :: string
  as_principal_pubkey :: string
  as_permissions :: "string list option"
  as_roles :: "string list option"

record AuthFailureResponse =
  fr_status :: string
  fr_message :: string

end
