(* ===== verification/ServerTypes.thy ===== *)
theory ServerTypes
  imports CoreTypes
begin

text \<open>
  nap-server's interfaces (\<open>types.ts\<close>). An object with methods is a record of
  operations, each an action on the implementation's own state; an optional method is an
  option. The contracts every implementation is expected to keep are the locales
  \<open>challenge_store\<close>, \<open>session_store\<close> and \<open>acl_store\<close> at the end: the
  in-memory and the PostgreSQL stores interpret them, and the facts proved in them hold
  for both. The lifecycle of a challenge is the step relation \<open>lifecycle\<close>.
\<close>

section \<open>Challenge stores\<close>

record OutstandingChallengeFilter =
  of_npub :: "string option"
  of_clientIp :: "string option"
  of_now :: int

record RedeemParams =
  rp_eventId :: string
  rp_sessionId :: string
  rp_now :: int
  rp_resultCacheUntil :: int

datatype RedeemStatus = Redeemed | Already_redeemed | Not_found | Redeem_expired

record 'cs challenge_ops =
  co_create :: "ChallengeRecord \<Rightarrow> ('cs, unit) io"
  co_get :: "string \<Rightarrow> ('cs, ChallengeRecord option) io"
  co_redeem :: "string \<Rightarrow> RedeemParams \<Rightarrow> ('cs, RedeemStatus) io"
  co_markExpired :: "int \<Rightarrow> ('cs, nat) io"
  co_countOutstanding :: "(OutstandingChallengeFilter \<Rightarrow> ('cs, nat) io) option"
  co_recordFailure ::
    "(string \<Rightarrow> int \<Rightarrow> int \<Rightarrow> ('cs, (int \<times> ChallengeState) option) io) option"

section \<open>Session stores\<close>

record RotateRefreshTokenParams =
  rt_expectedRefreshToken :: string
  rt_accessToken :: string
  rt_refreshToken :: string
  rt_now :: int
  rt_expiresAt :: int
  rt_refreshExpiresAt :: int
  rt_roles :: "string list"
  rt_permissions :: "string list"

record 'ss session_ops =
  so_createForChallenge :: "SessionRecord \<Rightarrow> ('ss, SessionRecord) io"
  so_getBySessionId :: "string \<Rightarrow> ('ss, SessionRecord option) io"
  so_getByAccessToken :: "string \<Rightarrow> ('ss, SessionRecord option) io"
  so_revokeBySessionId :: "string \<Rightarrow> int \<Rightarrow> ('ss, unit) io"
  so_revokeByPrincipal :: "string \<Rightarrow> int \<Rightarrow> ('ss, nat) io"
  so_getByRefreshToken :: "(string \<Rightarrow> ('ss, SessionRecord option) io) option"
  so_rotateRefreshToken ::
    "(string \<Rightarrow> RotateRefreshTokenParams \<Rightarrow> ('ss, SessionRecord option) io) option"

section \<open>Rate limiter, access control, audit\<close>

datatype RateLimitScope = scope_init | scope_complete | scope_refresh

record RateLimitKey =
  rk_scope :: RateLimitScope
  rk_npub :: "string option"
  rk_pubkey :: "string option"
  rk_clientIp :: "string option"

record RateLimitDecision =
  rd_allowed :: bool
  rd_retryAfterSeconds :: "int option"

type_synonym 'rl limiter = "RateLimitKey \<Rightarrow> ('rl, RateLimitDecision) io"

record AclResolutionContext =
  cx_voucher :: "VoucherCredential option"
  cx_now :: int
  cx_session :: "(string list \<times> string list) option"

type_synonym 'as resolver = "string \<Rightarrow> string \<Rightarrow> AclResolutionContext \<Rightarrow> ('as, AclDecision) io"

datatype override_action = Grant | Deny

record PermissionOverride =
  po_action :: override_action
  po_permission :: string

record AclRecord =
  ar_principal_pubkey :: string
  ar_app_id :: string
  ar_role :: string
  ar_permission_overrides :: "PermissionOverride list"
  ar_suspended :: bool
  ar_suspended_at :: "string option"
  ar_suspended_reason :: "string option"
  ar_created_at :: "string option"
  ar_updated_at :: "string option"

record 'as acl_ops =
  ao_get :: "string \<Rightarrow> string \<Rightarrow> ('as, AclRecord option) io"
  ao_upsert :: "AclRecord \<Rightarrow> ('as, unit) io"
  ao_suspend :: "string \<Rightarrow> string \<Rightarrow> string option \<Rightarrow> ('as, unit) io"
  ao_unsuspend :: "string \<Rightarrow> string \<Rightarrow> ('as, unit) io"

datatype outcome = Outcome_success | Outcome_failure | Outcome_rate_limited

record audit_event =
  ae_code :: string
  ae_challenge_id :: "string option"
  ae_npub :: "string option"
  ae_pubkey :: "string option"
  ae_outcome :: outcome
  ae_details :: "(string \<times> json) list option"

datatype NapCounter =
    auth_init_total
  | auth_complete_total
  | auth_success_total
  | auth_failure_total
  | auth_rate_limited_total
  | challenge_redeemed_total
  | challenge_retry_hit_total
  | challenge_expired_total
  | audience_mismatch_total
  | payload_mismatch_total

section \<open>The lifecycle of a challenge\<close>

text \<open>\<open>redeem\<close>'s update of an issued record, and \<open>recordFailure\<close>'s.\<close>

definition redeemed_record :: "ChallengeRecord \<Rightarrow> RedeemParams \<Rightarrow> ChallengeRecord" where
  "redeemed_record c p =
     c\<lparr>ch_state := redeemed, ch_redeemed_event_id := Some (rp_eventId p),
       ch_redeemed_session_id := Some (rp_sessionId p),
       ch_result_cache_until := Some (rp_resultCacheUntil p)\<rparr>"

definition failed_record :: "ChallengeRecord \<Rightarrow> int \<Rightarrow> ChallengeRecord" where
  "failed_record c maxFailures =
     (let n = or_else (ch_failure_count c) 0 + 1
      in c\<lparr>ch_failure_count := Some n,
           ch_state := (if n \<ge> maxFailures then failed_terminal else ch_state c)\<rparr>)"

inductive lifecycle :: "ChallengeRecord \<Rightarrow> ChallengeRecord \<Rightarrow> bool" where
  redeem: "ch_state c = issued \<Longrightarrow> \<not> ch_expires_at c < rp_now p \<Longrightarrow> lifecycle c (redeemed_record c p)"
| fail: "ch_state c = issued \<Longrightarrow> lifecycle c (failed_record c m)"
| expire: "ch_expires_at c < now \<Longrightarrow> lifecycle c (c\<lparr>ch_state := expired\<rparr>)"
| stay_expired: "ch_state c = expired \<Longrightarrow> lifecycle c (c\<lparr>ch_state := expired\<rparr>)"

inductive_cases lifecycleE: "lifecycle c d"

abbreviation evolves :: "ChallengeRecord \<Rightarrow> ChallengeRecord \<Rightarrow> bool" where
  "evolves \<equiv> lifecycle\<^sup>*\<^sup>*"

text \<open>What never changes in a stored challenge.\<close>

definition same_challenge :: "ChallengeRecord \<Rightarrow> ChallengeRecord \<Rightarrow> bool" where
  "same_challenge c d \<longleftrightarrow>
     ch_challenge_id d = ch_challenge_id c \<and> ch_challenge d = ch_challenge c
     \<and> ch_npub d = ch_npub c \<and> ch_pubkey d = ch_pubkey c \<and> ch_auth_url d = ch_auth_url c
     \<and> ch_auth_method d = ch_auth_method c \<and> ch_issued_at d = ch_issued_at c
     \<and> ch_expires_at d = ch_expires_at c \<and> ch_client_ip d = ch_client_ip c"

lemma lifecycle_same: "lifecycle c d \<Longrightarrow> same_challenge c d"
  by (cases rule: lifecycle.cases)
    (auto simp: same_challenge_def redeemed_record_def failed_record_def Let_def)

lemma lifecycle_mono: "lifecycle c d \<Longrightarrow> ch_state c \<le> ch_state d"
  by (erule lifecycle.cases)
    (auto simp: redeemed_record_def failed_record_def Let_def state_order)

lemma same_challenge_refl [simp]: "same_challenge c c"
  by (simp add: same_challenge_def)

lemma same_challenge_trans: "same_challenge a b \<Longrightarrow> same_challenge b c \<Longrightarrow> same_challenge a c"
  by (simp add: same_challenge_def)

lemma evolves_same: "evolves c d \<Longrightarrow> same_challenge c d"
  by (induction rule: rtranclp_induct) (auto dest: lifecycle_same same_challenge_trans)

lemma evolves_mono: "evolves c d \<Longrightarrow> ch_state c \<le> ch_state d"
  by (induction rule: rtranclp_induct) (auto dest: lifecycle_mono order_trans)

text \<open>Once a challenge has left \<open>issued\<close>, what its redemption recorded stays.\<close>

definition redemption :: "ChallengeRecord \<Rightarrow> string option \<times> string option \<times> int option" where
  "redemption c = (ch_redeemed_event_id c, ch_redeemed_session_id c, ch_result_cache_until c)"

lemma lifecycle_redemption:
  "lifecycle c d \<Longrightarrow> ch_state c \<noteq> issued \<Longrightarrow> redemption d = redemption c"
  by (erule lifecycle.cases) (auto simp: redemption_def)

lemma evolves_redemption:
  "evolves c d \<Longrightarrow> ch_state c \<noteq> issued \<Longrightarrow> redemption d = redemption c \<and> ch_state d \<noteq> issued"
proof (induction rule: rtranclp_induct)
  case (step d e)
  then show ?case
    using lifecycle_redemption [of d e] lifecycle_mono [of d e] by (auto simp: state_order)
qed simp

lemma evolves_left_issued:
  assumes "evolves c d" and "ch_state c \<noteq> issued"
  shows "ch_state d \<noteq> issued"
  using evolves_redemption assms by blast

section \<open>The contract of a challenge store\<close>

definition outstanding :: "OutstandingChallengeFilter \<Rightarrow> ChallengeRecord \<Rightarrow> bool" where
  "outstanding f c \<longleftrightarrow>
     ch_state c = issued \<and> \<not> ch_expires_at c < of_now f
     \<and> (of_npub f \<noteq> None \<longrightarrow> of_npub f = Some (ch_npub c))
     \<and> (of_clientIp f \<noteq> None \<longrightarrow> of_clientIp f = ch_client_ip c)"

text \<open>A record as \<open>issueChallenge\<close> creates it.\<close>

definition fresh_challenge :: "ChallengeRecord \<Rightarrow> bool" where
  "fresh_challenge r \<longleftrightarrow>
     ch_state r = issued \<and> redemption r = (None, None, None) \<and> ch_failure_count r = None"

text \<open>
  \<open>look s k\<close> is the record the store holds under \<open>k\<close>. The laws say what a returned value
  means and how the records move; an operation may throw, and may have evicted records
  nothing can ask about any more.
\<close>

locale challenge_store =
  fixes ops :: "'cs challenge_ops"
    and look :: "'cs \<Rightarrow> string \<Rightarrow> ChallengeRecord option"
    and inv :: "'cs \<Rightarrow> bool"
  assumes look_id: "\<lbrakk>inv s; look s k = Some c\<rbrakk> \<Longrightarrow> ch_challenge_id c = k"
    and create_inv: "\<lbrakk>inv s; co_create ops r s = (xc, s')\<rbrakk> \<Longrightarrow> inv s'"
    and create_same: "\<lbrakk>inv s; fresh_challenge r; co_create ops r s = (Inr u, s')\<rbrakk>
        \<Longrightarrow> \<exists>n. or_else n 0 = 0 \<and> look s' (ch_challenge_id r) = Some (r\<lparr>ch_failure_count := n\<rparr>)"
    and create_fail: "\<lbrakk>inv s; co_create ops r s = (Inl e, s')\<rbrakk>
        \<Longrightarrow> look s' (ch_challenge_id r) = look s (ch_challenge_id r)"
    and create_other: "\<lbrakk>inv s; co_create ops r s = (xc, s'); k \<noteq> ch_challenge_id r\<rbrakk>
        \<Longrightarrow> look s' k = look s k \<or> look s' k = None"
    and get_frame: "\<lbrakk>inv s; co_get ops k s = (xg, s')\<rbrakk> \<Longrightarrow> inv s' \<and> look s' = look s"
    and get_value: "\<lbrakk>inv s; co_get ops k s = (Inr rg, s')\<rbrakk> \<Longrightarrow> rg = look s k"
    and redeem_frame: "\<lbrakk>inv s; co_redeem ops k p s = (xr, s')\<rbrakk>
        \<Longrightarrow> inv s' \<and> (\<forall>j. j \<noteq> k \<longrightarrow> look s' j = look s j)"
    and redeem_move: "\<lbrakk>inv s; co_redeem ops k p s = (xr, s'); xr \<noteq> Inr Redeemed\<rbrakk>
        \<Longrightarrow> look s' k = look s k
          \<or> (\<exists>c. look s k = Some c \<and> lifecycle c (c\<lparr>ch_state := expired\<rparr>)
               \<and> look s' k = Some (c\<lparr>ch_state := expired\<rparr>))"
    and redeem_Redeemed: "\<lbrakk>inv s; co_redeem ops k p s = (Inr Redeemed, s')\<rbrakk>
        \<Longrightarrow> \<exists>c. look s k = Some c \<and> ch_state c = issued \<and> \<not> ch_expires_at c < rp_now p
              \<and> look s' k = Some (redeemed_record c p)"
    and redeem_Not_found: "\<lbrakk>inv s; co_redeem ops k p s = (Inr Not_found, s')\<rbrakk> \<Longrightarrow> look s k = None"
    and redeem_expired: "\<lbrakk>inv s; co_redeem ops k p s = (Inr Redeem_expired, s')\<rbrakk>
        \<Longrightarrow> \<exists>c. look s k = Some c \<and> (ch_expires_at c < rp_now p \<or> ch_state c = expired)"
    and redeem_Already: "\<lbrakk>inv s; co_redeem ops k p s = (Inr Already_redeemed, s')\<rbrakk>
        \<Longrightarrow> \<exists>c. look s k = Some c \<and> \<not> ch_expires_at c < rp_now p \<and> ch_state c \<noteq> expired
              \<and> (ch_state c = issued \<longrightarrow> ch_expires_at c = rp_now p) \<and> look s' k = Some c"
    and markExpired_frame: "\<lbrakk>inv s; co_markExpired ops t s = (xm, s')\<rbrakk>
        \<Longrightarrow> inv s' \<and> (\<forall>k. look s' k = look s k
              \<or> (\<exists>c. look s k = Some c \<and> lifecycle c (c\<lparr>ch_state := expired\<rparr>)
                   \<and> look s' k = Some (c\<lparr>ch_state := expired\<rparr>)))"
    and count_frame: "\<lbrakk>inv s; co_countOutstanding ops = Some cnt; cnt flt s = (xn, s')\<rbrakk>
        \<Longrightarrow> inv s' \<and> look s' = look s"
    and count_value: "\<lbrakk>inv s; co_countOutstanding ops = Some cnt; cnt flt s = (Inr n, s')\<rbrakk>
        \<Longrightarrow> n = card {k. \<exists>c. look s k = Some c \<and> outstanding flt c}"
    and fail_frame: "\<lbrakk>inv s; co_recordFailure ops = Some rf; rf k t m s = (xf, s')\<rbrakk>
        \<Longrightarrow> inv s' \<and> (\<forall>j. j \<noteq> k \<longrightarrow> look s' j = look s j)"
    and fail_None: "\<lbrakk>inv s; co_recordFailure ops = Some rf; rf k t m s = (xf, s');
          \<forall>fr. xf \<noteq> Inr (Some fr)\<rbrakk> \<Longrightarrow> look s' k = look s k"
    and fail_Some: "\<lbrakk>inv s; co_recordFailure ops = Some rf; rf k t m s = (Inr (Some (fc, st)), s')\<rbrakk>
        \<Longrightarrow> \<exists>c. look s k = Some c \<and> ch_state c = issued
              \<and> look s' k = Some (failed_record c m)
              \<and> ch_failure_count (failed_record c m) = Some fc
              \<and> ch_state (failed_record c m) = st"
begin

text \<open>Every record moves along the lifecycle, is evicted, or is the one just created.\<close>

definition moves :: "'cs \<Rightarrow> 'cs \<Rightarrow> bool" where
  "moves s s' \<longleftrightarrow>
     (\<forall>k d. look s' k = Some d \<longrightarrow> (\<exists>c. look s k = Some c \<and> evolves c d))"

lemma moves_refl [simp]: "moves s s"
  by (simp add: moves_def)

lemma moves_trans: "moves a b \<Longrightarrow> moves b c \<Longrightarrow> moves a c"
  unfolding moves_def by (meson rtranclp_trans)

lemma moves_frame: "look s' = look s \<Longrightarrow> moves s s'"
  by (simp add: moves_def)

lemma redeem_moves:
  assumes i: "inv s" and r: "co_redeem ops k p s = (x, s')"
  shows "moves s s'"
  unfolding moves_def
proof (intro allI impI)
  fix j d assume d: "look s' j = Some d"
  consider "j \<noteq> k" | "j = k" "x = Inr Redeemed" | "j = k" "x \<noteq> Inr Redeemed" by blast
  then show "\<exists>c. look s j = Some c \<and> evolves c d"
  proof cases
    case 1
    then show ?thesis using redeem_frame [OF i r] d by auto
  next
    case 2
    then obtain c where "look s k = Some c" "ch_state c = issued" "\<not> ch_expires_at c < rp_now p"
      "look s' k = Some (redeemed_record c p)"
      using redeem_Redeemed [OF i] r by blast
    then show ?thesis using d 2 lifecycle.redeem [of c p] by auto
  next
    case 3
    then show ?thesis using redeem_move [OF i r] d by (metis option.inject r_into_rtranclp rtranclp.rtrancl_refl)
  qed
qed

lemma fail_moves:
  assumes i: "inv s" and f: "co_recordFailure ops = Some rf" and r: "rf k t m s = (x, s')"
  shows "moves s s'"
  unfolding moves_def
proof (intro allI impI)
  fix j d assume d: "look s' j = Some d"
  consider "j \<noteq> k" | "j = k" "\<forall>r. x \<noteq> Inr (Some r)"
    | fc st where "j = k" "x = Inr (Some (fc, st))"
    by (metis surj_pair)
  then show "\<exists>c. look s j = Some c \<and> evolves c d"
  proof cases
    case 1
    then show ?thesis using fail_frame [OF i f r] d by auto
  next
    case 2
    then show ?thesis using fail_None [OF i f r] d by auto
  next
    case (3 fc st)
    then obtain c where "look s k = Some c" "ch_state c = issued"
      "look s' k = Some (failed_record c m)"
      using fail_Some [OF i f] r by blast
    then show ?thesis using d 3 lifecycle.fail [of c m] by auto
  qed
qed

lemma markExpired_moves: "\<lbrakk>inv s; co_markExpired ops n s = (x, s')\<rbrakk> \<Longrightarrow> moves s s'"
  unfolding moves_def using markExpired_frame by (metis option.sel r_into_rtranclp rtranclp.rtrancl_refl)

text \<open>A redeemed challenge is never redeemed again, whatever happened in between.\<close>

lemma redeem_once:
  assumes i: "inv s1" and r1: "co_redeem ops k p s = (Inr Redeemed, s1)" and i0: "inv s"
    and m: "moves s1 s2" and i2: "inv s2" and r2: "co_redeem ops k q s2 = (y, s3)"
  shows "y \<noteq> Inr Redeemed"
proof
  assume "y = Inr Redeemed"
  then obtain d where d: "look s2 k = Some d" "ch_state d = issued"
    using redeem_Redeemed [OF i2] r2 by blast
  obtain c where "look s1 k = Some (redeemed_record c p)"
    using redeem_Redeemed [OF i0 r1] by blast
  then have "evolves (redeemed_record c p) d"
    using m d(1) by (fastforce simp: moves_def)
  then have "ch_state d \<noteq> issued"
    by (rule evolves_left_issued) (simp add: redeemed_record_def)
  then show False using d(2) by simp
qed

end

text \<open>
  A store that never fails and redeems at any instant up to and including the expiry: with
  it a valid login succeeds.
\<close>

locale eager_challenge_store = challenge_store ops look inv
  for ops :: "'cs challenge_ops"
    and look :: "'cs \<Rightarrow> string \<Rightarrow> ChallengeRecord option"
    and inv :: "'cs \<Rightarrow> bool" +
  assumes get_total: "inv s \<Longrightarrow> \<exists>s'. co_get ops k s = (Inr (look s k), s')"
    and redeem_total: "\<lbrakk>inv s; look s k = Some c; ch_state c = issued; \<not> ch_expires_at c < rp_now p\<rbrakk>
          \<Longrightarrow> \<exists>s'. co_redeem ops k p s = (Inr Redeemed, s')"
begin

text \<open>Of two attempts at a live challenge the first is redeemed and the second is not.\<close>

lemma redeem_first_wins:
  assumes i: "inv s" and c: "look s k = Some c" "ch_state c = issued" "\<not> ch_expires_at c < rp_now p"
  shows "\<exists>s1. co_redeem ops k p s = (Inr Redeemed, s1)
           \<and> (\<forall>q y s2. co_redeem ops k q s1 = (y, s2) \<longrightarrow> y \<noteq> Inr Redeemed)"
proof -
  obtain s1 where s1: "co_redeem ops k p s = (Inr Redeemed, s1)"
    using redeem_total [OF i c] by blast
  have i1: "inv s1" using redeem_frame [OF i s1] by blast
  show ?thesis
    using s1 redeem_once [OF i1 s1 i moves_refl i1] by blast
qed

end

section \<open>The contract of a session store\<close>

definition fresh_session :: "SessionRecord \<Rightarrow> bool" where
  "fresh_session r \<longleftrightarrow> s_previous_refresh_token r = None \<and> s_revoked_at r = None"

text \<open>\<open>x'\<close> is a later version of the session \<open>x\<close>: the same login, never un-revoked.\<close>

definition succeeds :: "SessionRecord \<Rightarrow> SessionRecord \<Rightarrow> bool" where
  "succeeds x x' \<longleftrightarrow>
     s_session_id x' = s_session_id x \<and> s_challenge_id x' = s_challenge_id x
     \<and> s_principal_npub x' = s_principal_npub x \<and> s_principal_pubkey x' = s_principal_pubkey x
     \<and> s_issued_at x' = s_issued_at x
     \<and> (s_revoked_at x \<noteq> None \<longrightarrow> s_revoked_at x' \<noteq> None)"

lemma succeeds_refl [simp, intro]: "succeeds x x"
  by (simp add: succeeds_def)

lemma succeeds_trans: "succeeds x y \<Longrightarrow> succeeds y z \<Longrightarrow> succeeds x z"
  by (simp add: succeeds_def)

text \<open>What \<open>rotateRefreshToken\<close> writes.\<close>

definition rotated :: "SessionRecord \<Rightarrow> RotateRefreshTokenParams \<Rightarrow> SessionRecord" where
  "rotated y p =
     y\<lparr>s_previous_refresh_token := s_refresh_token y,
       s_refresh_token := Some (rt_refreshToken p),
       s_access_token := rt_accessToken p,
       s_expires_at := rt_expiresAt p,
       s_refresh_expires_at := Some (rt_refreshExpiresAt p),
       s_roles := rt_roles p,
       s_permissions := rt_permissions p\<rparr>"

lemma succeeds_rotated [simp, intro]: "succeeds y (rotated y p)"
  by (simp add: succeeds_def rotated_def)

text \<open>\<open>sess s\<close>: the sessions a lookup can still return.\<close>

locale session_store =
  fixes ops :: "'ss session_ops"
    and sess :: "'ss \<Rightarrow> SessionRecord set"
    and inv :: "'ss \<Rightarrow> bool"
  assumes one_per_challenge:
      "\<lbrakk>inv s; x \<in> sess s; y \<in> sess s; s_challenge_id x = s_challenge_id y\<rbrakk> \<Longrightarrow> x = y"
    and one_per_id:
      "\<lbrakk>inv s; x \<in> sess s; y \<in> sess s; s_session_id x = s_session_id y\<rbrakk> \<Longrightarrow> x = y"
    and revoked_nonzero: "\<lbrakk>inv s; x \<in> sess s\<rbrakk> \<Longrightarrow> s_revoked_at x \<noteq> Some 0"
    and create_inv: "\<lbrakk>inv s; fresh_session r; s_session_id r \<notin> s_session_id ` sess s;
          so_createForChallenge ops r s = (xc, s')\<rbrakk> \<Longrightarrow> inv s'"
    and create_sess: "\<lbrakk>inv s; fresh_session r; so_createForChallenge ops r s = (xc, s')\<rbrakk>
          \<Longrightarrow> sess s' \<subseteq> insert r (sess s)"
    and create_value: "\<lbrakk>inv s; fresh_session r; so_createForChallenge ops r s = (Inr y, s')\<rbrakk>
          \<Longrightarrow> s_challenge_id y = s_challenge_id r \<and> (y = r \<or> y \<in> sess s) \<and> y \<in> sess s'"
    and id_frame: "\<lbrakk>inv s; so_getBySessionId ops k s = (xi, s')\<rbrakk> \<Longrightarrow> inv s' \<and> sess s' \<subseteq> sess s"
    and id_value: "\<lbrakk>inv s; so_getBySessionId ops k s = (Inr (Some y), s')\<rbrakk>
          \<Longrightarrow> y \<in> sess s' \<and> s_session_id y = k"
    and token_frame: "\<lbrakk>inv s; so_getByAccessToken ops t s = (xt, s')\<rbrakk>
          \<Longrightarrow> inv s' \<and> sess s' \<subseteq> sess s"
    and token_value: "\<lbrakk>inv s; so_getByAccessToken ops t s = (Inr (Some y), s')\<rbrakk>
          \<Longrightarrow> y \<in> sess s' \<and> s_access_token y = t"
    and revoke_frame: "\<lbrakk>inv s; now \<noteq> 0; so_revokeBySessionId ops k now s = (xv, s')\<rbrakk>
          \<Longrightarrow> inv s' \<and> (\<forall>y\<in>sess s'. \<exists>x\<in>sess s. succeeds x y)"
    and revoke_done: "\<lbrakk>inv s; now \<noteq> 0; so_revokeBySessionId ops k now s = (Inr (), s');
          y \<in> sess s'; s_session_id y = k\<rbrakk> \<Longrightarrow> s_revoked_at y \<noteq> None"
    and principal_frame: "\<lbrakk>inv s; now \<noteq> 0; so_revokeByPrincipal ops pk now s = (xp, s')\<rbrakk>
          \<Longrightarrow> inv s' \<and> (\<forall>y\<in>sess s'. \<exists>x\<in>sess s. succeeds x y)"
    and principal_done: "\<lbrakk>inv s; now \<noteq> 0; so_revokeByPrincipal ops pk now s = (Inr n, s');
          y \<in> sess s'; s_principal_pubkey y = pk\<rbrakk> \<Longrightarrow> s_revoked_at y \<noteq> None"
    and refresh_frame: "\<lbrakk>inv s; so_getByRefreshToken ops = Some g; g t s = (xf, s')\<rbrakk>
          \<Longrightarrow> inv s' \<and> sess s' \<subseteq> sess s"
    and refresh_value: "\<lbrakk>inv s; so_getByRefreshToken ops = Some g; g t s = (Inr (Some y), s')\<rbrakk>
          \<Longrightarrow> y \<in> sess s' \<and> (s_refresh_token y = Some t \<or> s_previous_refresh_token y = Some t)"
    and rotate_frame: "\<lbrakk>inv s; so_rotateRefreshToken ops = Some rot; rt_refreshToken p \<noteq> [];
          rot k p s = (xr, s')\<rbrakk>
          \<Longrightarrow> inv s' \<and> (\<forall>y\<in>sess s'. \<exists>x\<in>sess s. succeeds x y)"
    and rotate_value: "\<lbrakk>inv s; so_rotateRefreshToken ops = Some rot; rt_refreshToken p \<noteq> [];
          rot k p s = (Inr (Some y), s')\<rbrakk>
          \<Longrightarrow> y \<in> sess s' \<and> (\<exists>x\<in>sess s. s_session_id x = k
                \<and> s_refresh_token x = Some (rt_expectedRefreshToken p) \<and> y = rotated x p)"
begin

text \<open>A refresh token is spent by its first rotation: the compare-and-swap fails after it.\<close>

lemma rotate_once:
  assumes i: "inv s" and rot: "so_rotateRefreshToken ops = Some rot"
    and n1: "rt_refreshToken p \<noteq> []" and n2: "rt_refreshToken q \<noteq> []"
    and r1: "rot k p s = (Inr (Some y), s1)"
    and same: "rt_expectedRefreshToken q = rt_expectedRefreshToken p"
    and new: "rt_refreshToken p \<noteq> rt_expectedRefreshToken p"
    and r2: "rot k q s1 = (Inr z, s2)"
  shows "z = None"
proof (rule ccontr)
  assume "z \<noteq> None"
  then obtain u where z: "z = Some u" by blast
  have i1: "inv s1" using rotate_frame [OF i rot n1 r1] by blast
  obtain x where x: "x \<in> sess s1" "s_session_id x = k"
    "s_refresh_token x = Some (rt_expectedRefreshToken q)"
    using rotate_value [OF i1 rot n2 r2 [unfolded z]] by blast
  have y: "y \<in> sess s1" "s_session_id y = k" "s_refresh_token y = Some (rt_refreshToken p)"
    using rotate_value [OF i rot n1 r1] by (auto simp: rotated_def)
  have "x = y" using one_per_id [OF i1 x(1) y(1)] x(2) y(2) by simp
  then show False using x(3) y(3) same new by simp
qed

text \<open>A session revoked by its principal or its id does not come back through any lookup.\<close>

lemma revoked_token:
  assumes i: "inv s" and now: "now \<noteq> 0"
    and r: "so_revokeBySessionId ops k now s = (Inr (), s1)"
    and g: "so_getByAccessToken ops t s1 = (Inr (Some y), s2)" and y: "s_session_id y = k"
  shows "truthy_num (s_revoked_at y)"
proof -
  have i1: "inv s1" using revoke_frame [OF i now r] by blast
  have i2: "inv s2" and sub: "sess s2 \<subseteq> sess s1" using token_frame [OF i1 g] by blast+
  have y2: "y \<in> sess s2" using token_value [OF i1 g] by blast
  then have "s_revoked_at y \<noteq> None"
    using revoke_done [OF i now r _ y] sub by blast
  then show ?thesis
    using revoked_nonzero [OF i2 y2] by (simp add: truthy_num_def)
qed

lemma revoked_principal_token:
  assumes i: "inv s" and now: "now \<noteq> 0"
    and r: "so_revokeByPrincipal ops pk now s = (Inr n, s1)"
    and g: "so_getByAccessToken ops t s1 = (Inr (Some y), s2)" and y: "s_principal_pubkey y = pk"
  shows "truthy_num (s_revoked_at y)"
proof -
  have i1: "inv s1" using principal_frame [OF i now r] by blast
  have i2: "inv s2" and sub: "sess s2 \<subseteq> sess s1" using token_frame [OF i1 g] by blast+
  have y2: "y \<in> sess s2" using token_value [OF i1 g] by blast
  then have "s_revoked_at y \<noteq> None"
    using principal_done [OF i now r _ y] sub by blast
  then show ?thesis
    using revoked_nonzero [OF i2 y2] by (simp add: truthy_num_def)
qed

end

section \<open>The contract of an access control store\<close>

text \<open>
  The rows by public key and application. \<open>okkey\<close>: the public keys an implementation can
  keep apart (the in-memory store glues the two parts of its key with a colon).
\<close>

definition same_grant :: "AclRecord \<Rightarrow> AclRecord \<Rightarrow> bool" where
  "same_grant a b \<longleftrightarrow>
     ar_principal_pubkey a = ar_principal_pubkey b \<and> ar_app_id a = ar_app_id b
     \<and> ar_role a = ar_role b \<and> ar_permission_overrides a = ar_permission_overrides b"

locale acl_store =
  fixes ops :: "'as acl_ops"
    and rows :: "'as \<Rightarrow> string \<Rightarrow> string \<Rightarrow> AclRecord option"
    and okkey :: "string \<Rightarrow> bool"
  assumes get_frame: "ao_get ops p a s = (x, s') \<Longrightarrow> rows s' = rows s"
    and get_value: "ao_get ops p a s = (Inr row, s') \<Longrightarrow> row = rows s p a"
    and upsert_same: "\<lbrakk>okkey (ar_principal_pubkey r); ao_upsert ops r s = (Inr u, s')\<rbrakk>
          \<Longrightarrow> \<exists>r'. rows s' (ar_principal_pubkey r) (ar_app_id r) = Some r' \<and> same_grant r' r
                \<and> ar_suspended r' = ar_suspended r"
    and upsert_other: "\<lbrakk>okkey p; okkey (ar_principal_pubkey r); ao_upsert ops r s = (xu, s');
          (p, a) \<noteq> (ar_principal_pubkey r, ar_app_id r)\<rbrakk> \<Longrightarrow> rows s' p a = rows s p a"
    and suspend_same: "\<lbrakk>okkey p; ao_suspend ops p a why s = (Inr u, s')\<rbrakk>
          \<Longrightarrow> case rows s p a of None \<Rightarrow> rows s' p a = None
              | Some r \<Rightarrow> \<exists>r'. rows s' p a = Some r' \<and> ar_suspended r' \<and> same_grant r' r"
    and suspend_other: "\<lbrakk>okkey p; okkey q; ao_suspend ops p a why s = (xu, s');
          (q, b) \<noteq> (p, a)\<rbrakk> \<Longrightarrow> rows s' q b = rows s q b"
    and unsuspend_same: "\<lbrakk>okkey p; ao_unsuspend ops p a s = (Inr u, s')\<rbrakk>
          \<Longrightarrow> case rows s p a of None \<Rightarrow> rows s' p a = None
              | Some r \<Rightarrow> \<exists>r'. rows s' p a = Some r' \<and> \<not> ar_suspended r' \<and> same_grant r' r"
    and unsuspend_other: "\<lbrakk>okkey p; okkey q; ao_unsuspend ops p a s = (xu, s');
          (q, b) \<noteq> (p, a)\<rbrakk> \<Longrightarrow> rows s' q b = rows s q b"
begin

lemma suspended_get:
  assumes k: "okkey p" and su: "ao_suspend ops p a why s = (Inr (), s1)"
    and g: "ao_get ops p a s1 = (Inr (Some r), s2)"
  shows "ar_suspended r"
proof -
  have r: "rows s1 p a = Some r" using get_value [OF g] by simp
  show ?thesis
    using suspend_same [OF k su] r by (cases "rows s p a") auto
qed

lemma upsert_get:
  assumes k: "okkey (ar_principal_pubkey r)" and up: "ao_upsert ops r s = (Inr (), s1)"
    and g: "ao_get ops (ar_principal_pubkey r) (ar_app_id r) s1 = (Inr x, s2)"
  shows "\<exists>r'. x = Some r' \<and> same_grant r' r \<and> ar_suspended r' = ar_suspended r"
  using upsert_same [OF k up] get_value [OF g] by simp

end

end
