(* ===== verification/JsonPrint.thy ===== *)
theory JsonPrint
  imports ServerTypes
begin

text \<open>
  Numbers as text, and \<open>JSON.stringify\<close>. \<open>Number(text)\<close> is the double nearest to the
  literal, or an infinity; \<open>String(number)\<close> is defined on the integers up to \<open>2 ^ 53\<close>, which
  print as their digits, and what the engine prints for other numbers is the parameter
  \<open>num_text\<close>.

  \<open>json_parse_print\<close>: a value whose numbers are such integers is read back by \<open>JSON.parse\<close>
  from the text \<open>JSON.stringify\<close> prints.
\<close>

section \<open>Numbers as text\<close>

type_synonym num_text = "rat \<Rightarrow> string"

definition digit_char :: "nat \<Rightarrow> char" where
  "digit_char d = char_of (48 + d)"

fun show_nat :: "nat \<Rightarrow> string" where
  "show_nat n = (if n < 10 then [digit_char n] else show_nat (n div 10) @ [digit_char (n mod 10)])"

declare show_nat.simps [simp del]

definition show_int :: "int \<Rightarrow> string" where
  "show_int i = (if i < 0 then ''-'' @ show_nat (nat (- i)) else show_nat (nat i))"

definition show_number :: "num_text \<Rightarrow> rat \<Rightarrow> string" where
  "show_number nt x = (if plain_number x then show_int \<lfloor>x\<rfloor> else nt x)"

text \<open>An unsigned decimal literal, as a value.\<close>

definition decimal_literal :: "string \<Rightarrow> rat option" where
  "decimal_literal s =
     (let ip = takeWhile is_digit s; r = dropWhile is_digit s;
          dot = (r \<noteq> [] \<and> hd r = CHR ''.'');
          fp = (if dot then takeWhile is_digit (tl r) else []);
          r' = (if dot then dropWhile is_digit (tl r) else r)
      in if ip = [] \<and> fp = [] then None
         else case p_exp r' of
                Some (x, []) \<Rightarrow> Some (of_int (digits_val (ip @ fp)) / 10 ^ length fp * x)
              | _ \<Rightarrow> None)"

definition radix_val :: "nat \<Rightarrow> string \<Rightarrow> rat option" where
  "radix_val base s =
     (if s \<noteq> [] \<and> list_all (\<lambda>c. case hex_val c of None \<Rightarrow> False | Some v \<Rightarrow> v < base) s
      then Some (of_nat (foldl (\<lambda>n c. n * base + the (hex_val c)) 0 s)) else None)"

text \<open>\<open>Number(text)\<close>.\<close>

definition js_Number :: "string \<Rightarrow> js_num" where
  "js_Number text =
     (let s = js_trim text;
          neg = starts_with s ''-'';
          u = (if neg \<or> starts_with s ''+'' then tl s else s);
          prefixed = to_lower (take 2 s);
          v = (if s = [] then Some 0
               else if prefixed = ''0x'' then radix_val 16 (drop 2 s)
               else if prefixed = ''0o'' then radix_val 8 (drop 2 s)
               else if prefixed = ''0b'' then radix_val 2 (drop 2 s)
               else decimal_literal u)
      in if u = ''Infinity'' then (if neg then NegInf else PosInf)
         else case v of
                None \<Rightarrow> NaN
              | Some x \<Rightarrow> if js_overflow x then (if neg then NegInf else PosInf)
                           else Fin (js_round (if neg then - x else x)))"

section \<open>\<open>JSON.stringify\<close>\<close>

definition json_escape_char :: "char \<Rightarrow> string" where
  "json_escape_char c =
     (if c = CHR 0x22 then [CHR 0x5C, CHR 0x22]
      else if c = CHR 0x5C then [CHR 0x5C, CHR 0x5C]
      else if c = CHR 0x08 then [CHR 0x5C, CHR ''b'']
      else if c = CHR 0x0C then [CHR 0x5C, CHR ''f'']
      else if c = CHR 0x0A then [CHR 0x5C, CHR ''n'']
      else if c = CHR 0x0D then [CHR 0x5C, CHR ''r'']
      else if c = CHR 0x09 then [CHR 0x5C, CHR ''t'']
      else if (of_char c :: nat) < 0x20
      then [CHR 0x5C, CHR ''u'', CHR ''0'', CHR ''0'', hex_char (of_char c div 16), hex_char (of_char c mod 16)]
      else [c])"

definition quoted :: "string \<Rightarrow> string" where
  "quoted s = CHR 0x22 # s @ [CHR 0x22]"

definition json_quote :: "string \<Rightarrow> string" where
  "json_quote s = quoted (concat (map json_escape_char s))"

fun json_print :: "num_text \<Rightarrow> json \<Rightarrow> string" where
  "json_print nt JNull = ''null''"
| "json_print nt (JBool b) = (if b then ''true'' else ''false'')"
| "json_print nt (JNum x) = show_number nt x"
| "json_print nt (JStr s) = json_quote s"
| "json_print nt (JArr xs) = ''['' @ js_join '','' (map (json_print nt) xs) @ '']''"
| "json_print nt (JObj ms) =
     ''{'' @ js_join '','' (map (\<lambda>m. json_quote (fst m) @ '':'' @ json_print nt (snd m)) ms) @ ''}''"

text \<open>The values whose text does not depend on \<open>num_text\<close>; an object's keys are distinct.\<close>

fun printable :: "json \<Rightarrow> bool" where
  "printable (JNum x) \<longleftrightarrow> plain_number x"
| "printable (JArr xs) \<longleftrightarrow> list_all printable xs"
| "printable (JObj ms) \<longleftrightarrow> distinct (map fst ms) \<and> list_all (\<lambda>m. printable (snd m)) ms"
| "printable _ \<longleftrightarrow> True"

section \<open>Reading a printed value\<close>

subsection \<open>Strings\<close>

lemma utf8_of_code_low: "n < 0x80 \<Longrightarrow> utf8_of_code n = [char_of n]"
  by (simp add: utf8_of_code_def)

lemma hex4_low:
  assumes "n < 256"
  shows "hex4 (CHR ''0'') (CHR ''0'') (hex_char (n div 16)) (hex_char (n mod 16)) = Some n"
proof -
  have "hex_val (CHR ''0'') = Some 0" by code_simp
  then show ?thesis using assms by (simp add: hex4_def hex_val_hex_char)
qed

lemma p_string_step: "p_string (json_escape_char c @ r) = map_option (\<lambda>(u, r'). (c # u, r')) (p_string r)"
proof -
  let ?n = "of_char c :: nat"
  let ?simple = "{CHR 0x22, CHR 0x5C, CHR 0x08, CHR 0x0C, CHR 0x0A, CHR 0x0D, CHR 0x09}"
  have "\<exists>e. json_escape_char c = [CHR 0x5C, e] \<and> e \<noteq> CHR ''u'' \<and> simple_escape e = Some c" if "c \<in> ?simple"
    using that by (auto simp: json_escape_char_def simple_escape_def)
  moreover have "json_escape_char c = (if ?n < 0x20
      then [CHR 0x5C, CHR ''u'', CHR ''0'', CHR ''0'', hex_char (?n div 16), hex_char (?n mod 16)] else [c])"
    if "c \<notin> ?simple"
    using that by (simp add: json_escape_char_def)
  ultimately consider
      (simple) e where "json_escape_char c = [CHR 0x5C, e]" "e \<noteq> CHR ''u''" "simple_escape e = Some c"
    | (control) "?n < 0x20" "json_escape_char c =
        [CHR 0x5C, CHR ''u'', CHR ''0'', CHR ''0'', hex_char (?n div 16), hex_char (?n mod 16)]"
    | (plain) "json_escape_char c = [c]" "c \<noteq> CHR 0x22" "c \<noteq> CHR 0x5C" "\<not> ?n < 0x20"
    by (cases "c \<in> ?simple"; cases "?n < 0x20") auto
  then show ?thesis
  proof cases
    case simple
    then show ?thesis by (simp add: p_string_Cons p_escape_def split: option.split)
  next
    case control
    have d: "\<not> (0xD800 \<le> ?n)" "\<not> (0xDC00 \<le> ?n)" using control(1) by auto
    have "p_escape (CHR ''u'' # CHR ''0'' # CHR ''0'' # hex_char (?n div 16) # hex_char (?n mod 16) # r)
        = Some ([c], r)"
      using control(1) d by (simp add: p_escape_def hex4_low utf8_of_code_low)
    then show ?thesis by (simp add: control(2) p_string_Cons split: option.split)
  next
    case plain
    then show ?thesis by (simp add: p_string_Cons split: option.split)
  qed
qed

lemma p_string_print: "p_string (concat (map json_escape_char s) @ CHR 0x22 # r) = Some (s, r)"
  by (induction s) (simp_all add: p_string_Cons p_string_step)

subsection \<open>Numbers\<close>

lemma of_char_digit: "d < 10 \<Longrightarrow> (of_char (digit_char d) :: nat) = 48 + d"
  by (simp add: digit_char_def)

lemma digit_char_is_digit: "d < 10 \<Longrightarrow> is_digit (digit_char d)"
  by (simp add: is_digit_def of_char_digit)

lemma digits_val_snoc: "digits_val (xs @ [c]) = digits_val xs * 10 + (of_char c - 48)"
  by (simp add: digits_val_def)

lemma of_char_digit_int: "d < 10 \<Longrightarrow> (of_char (digit_char d) :: int) = 48 + int d"
  using of_char_digit [of d] by (metis of_nat_add of_nat_numeral of_nat_of_char)

lemma show_nat_digits: "list_all is_digit (show_nat n) \<and> show_nat n \<noteq> [] \<and> digits_val (show_nat n) = int n
    \<and> (0 < n \<longrightarrow> hd (show_nat n) \<noteq> CHR ''0'')"
proof (induction n rule: show_nat.induct)
  case (1 n)
  show ?case
  proof (cases "n < 10")
    case True
    have "digit_char n = CHR ''0'' \<Longrightarrow> n = 0"
      using of_char_digit [OF True] by simp
    then show ?thesis using True
      by (auto simp: show_nat.simps [of n] digit_char_is_digit digits_val_def of_char_digit_int)
  next
    case False
    then show ?thesis using 1
      by (auto simp: show_nat.simps [of n] digit_char_is_digit digits_val_snoc of_char_digit_int zdiv_int zmod_int hd_append)
  qed
qed

text \<open>What may follow a printed value.\<close>

definition ends_value :: "string \<Rightarrow> bool" where
  "ends_value r \<longleftrightarrow> r = [] \<or> hd r \<in> {CHR '','', CHR '']'', CHR ''}''}"

lemma ends_not_number:
  assumes "ends_value r"
  shows "takeWhile is_digit r = []" and "dropWhile is_digit r = r" and "p_frac r = Some (0, r)" and "p_exp r = Some (1, r)"
  using assms by (cases r; auto simp: ends_value_def is_digit_def p_frac_def p_exp_def)+

lemma p_int_show:
  assumes "ends_value r"
  shows "p_int (show_nat n @ r) = Some (int n, r)"
proof (cases "n = 0")
  case True
  have "char_of (48 :: nat) = CHR ''0''" by code_simp
  then show ?thesis using True by (simp add: show_nat.simps [of 0] digit_char_def p_int_def)
next
  case False
  obtain c cs where s: "show_nat n = c # cs" using show_nat_digits [of n] by (cases "show_nat n") auto
  have "\<forall>x\<in>set (show_nat n). is_digit x" using show_nat_digits [of n] by (simp add: list_all_iff)
  then have "takeWhile is_digit (show_nat n @ r) = show_nat n" "dropWhile is_digit (show_nat n @ r) = r"
    using ends_not_number [OF assms] by (simp_all add: takeWhile_append2 dropWhile_append2)
  then have "p_digits (show_nat n @ r) = Some (show_nat n, r)"
    using s by (simp add: p_digits_def)
  then show ?thesis using show_nat_digits [of n] False by (simp add: p_int_def s)
qed

lemma p_number_show:
  assumes "ends_value r"
  shows "p_number (show_int i @ r) = Some (of_int i, r)"
proof -
  have "\<not> starts_with (show_nat n @ r) ''-''" for n
  proof -
    have "is_digit (hd (show_nat n))" "show_nat n \<noteq> []"
      using show_nat_digits [of n] by (cases "show_nat n"; auto)+
    then show ?thesis by (cases "show_nat n") (auto simp: starts_with_def is_digit_def)
  qed
  moreover have "starts_with (CHR ''-'' # s) ''-''" for s by (simp add: starts_with_def)
  ultimately show ?thesis
    using p_int_show [OF assms] ends_not_number [OF assms]
    by (simp add: p_number_def show_int_def Let_def)
qed

subsection \<open>Values\<close>

lemma expect_Cons: "\<not> json_space d \<Longrightarrow> expect c (d # r) = (if d = c then Some r else None)"
  by (simp add: expect_def skip_ws_def)

lemma skip_ws_Cons: "\<not> json_space d \<Longrightarrow> skip_ws (d # r) = d # r"
  by (simp add: skip_ws_def)

lemma not_space [simp]:
  "\<not> json_space (CHR '','')" "\<not> json_space (CHR '']'')" "\<not> json_space (CHR ''}'')" "\<not> json_space (CHR ''['')"
  "\<not> json_space (CHR ''{'')" "\<not> json_space (CHR '':'')" "\<not> json_space (CHR 0x22)"
  by (simp_all add: json_space_def)

lemma quote_append: "json_quote s @ r = CHR 0x22 # concat (map json_escape_char s) @ CHR 0x22 # r"
  by (simp add: json_quote_def quoted_def)

lemma p_scalar_quote: "p_scalar (json_quote s @ r) = Some (JStr s, r)"
  by (simp add: quote_append p_scalar_def expect_Cons p_string_print)

lemma p_key_quote: "p_key (json_quote k @ CHR '':'' # r) = Some (k, r)"
  by (simp add: quote_append p_key_def expect_Cons p_string_print)

text \<open>The first character of an integer.\<close>

lemma show_int_first: "\<exists>c cs. show_int i = c # cs \<and> (c = CHR ''-'' \<or> is_digit c)"
proof (cases "i < 0")
  case False
  then show ?thesis using show_nat_digits [of "nat i"] by (cases "show_nat (nat i)") (auto simp: show_int_def)
qed (simp add: show_int_def)

lemma p_scalar_number:
  assumes "ends_value r" and n: "plain_number (of_int i)"
  shows "p_scalar (show_int i @ r) = Some (JNum (of_int i), r)"
proof -
  obtain c cs where s: "show_int i = c # cs" "c = CHR ''-'' \<or> is_digit c" using show_int_first by blast
  then have c: "\<not> json_space c" "c \<noteq> CHR 0x22" "c \<noteq> CHR ''t''" "c \<noteq> CHR ''f''" "c \<noteq> CHR ''n''"
    by (auto simp: json_space_def is_digit_def)
  have "p_keyword (c # cs @ r) = None" using c by (simp add: p_keyword_def starts_with_def)
  then show ?thesis
    using p_number_show [OF assms(1), of i] c n by (simp add: s(1) p_scalar_def expect_Cons skip_ws_Cons)
qed

lemma print_first:
  assumes "printable v"
  shows "\<exists>c cs. json_print nt v = c # cs \<and> \<not> json_space c \<and> c \<noteq> CHR '']'' \<and> c \<noteq> CHR ''}''"
proof (cases v)
  case (JNum x)
  then show ?thesis using assms show_int_first [of "\<lfloor>x\<rfloor>"]
    by (auto simp: show_number_def json_space_def is_digit_def)
qed (auto simp: json_space_def json_quote_def quoted_def)

lemma p_value_scalar:
  assumes "\<not> json_space c" and "c \<noteq> CHR ''[''" and "c \<noteq> CHR ''{''"
  shows "p_value (Suc n) (c # cs) = p_scalar (c # cs)"
  using assms by (simp add: expect_Cons)

lemma p_value_number:
  assumes "ends_value r" and "plain_number (of_int i)"
  shows "p_value (Suc n) (show_int i @ r) = Some (JNum (of_int i), r)"
proof -
  obtain c cs where s: "show_int i = c # cs" "c = CHR ''-'' \<or> is_digit c" using show_int_first by blast
  then have c: "\<not> json_space c" "c \<noteq> CHR ''[''" "c \<noteq> CHR ''{''"
    by (auto simp: json_space_def is_digit_def)
  show ?thesis
    using p_value_scalar [OF c] p_scalar_number [OF assms] by (simp add: s(1))
qed

lemma p_value_keyword:
  "p_value (Suc n) (''null'' @ r) = Some (JNull, r)"
  "p_value (Suc n) (''true'' @ r) = Some (JBool True, r)"
  "p_value (Suc n) (''false'' @ r) = Some (JBool False, r)"
  by (simp_all add: expect_Cons json_space_def p_scalar_def p_keyword_def starts_with_def skip_ws_Cons)

lemma obj_of_distinct: "distinct (map fst ms) \<Longrightarrow> obj_of_members ms = ms"
proof -
  have "foldl (\<lambda>o' m. jm_set (fst m) (snd m) o') pre ms = pre @ ms" if "distinct (map fst (pre @ ms))" for pre
    using that
  proof (induction ms arbitrary: pre)
    case (Cons m ms)
    then have "fst m \<notin> fst ` set pre" by auto
    then have "jm_set (fst m) (snd m) pre = pre @ [m]"
      unfolding jm_set_def by (induction pre) auto
    then show ?case using Cons.IH [of "pre @ [m]"] Cons.prems by simp
  qed simp
  from this [of "[]"] show "distinct (map fst ms) \<Longrightarrow> obj_of_members ms = ms"
    by (simp add: obj_of_members_def)
qed

text \<open>A value, and the elements and members of a list of them, given fuel for the text.\<close>

definition reads :: "num_text \<Rightarrow> json \<Rightarrow> bool" where
  "reads nt v \<longleftrightarrow> (\<forall>r n. ends_value r \<longrightarrow> 2 * length (json_print nt v @ r) + 1 \<le> n \<longrightarrow>
     p_value n (json_print nt v @ r) = Some (v, r))"

lemma print_readsD: "reads nt v \<Longrightarrow> ends_value r \<Longrightarrow> 2 * length (json_print nt v) + 2 * length r + 1 \<le> n \<Longrightarrow>
     p_value n (json_print nt v @ r) = Some (v, r)"
  by (simp add: reads_def)

lemma ends_simps [simp]: "ends_value (CHR '','' # r)" "ends_value (CHR '']'' # r)" "ends_value (CHR ''}'' # r)" "ends_value []"
  by (simp_all add: ends_value_def)

lemma js_join_Cons: "ws \<noteq> [] \<Longrightarrow> js_join sep (w # ws) = w @ sep @ js_join sep ws"
  by (cases ws) simp_all

lemma p_elems_print:
  assumes "xs \<noteq> []" and "\<And>v. v \<in> set xs \<Longrightarrow> reads nt v"
    and "2 * length (js_join '','' (map (json_print nt) xs)) + 2 * length r + 4 \<le> n"
  shows "p_elems n (js_join '','' (map (json_print nt) xs) @ CHR '']'' # r) = Some (xs, r)"
  using assms
proof (induction xs arbitrary: n)
  case (Cons v vs)
  obtain k where n: "n = Suc k" using Cons.prems(3) by (cases n) auto
  have v: "reads nt v" using Cons.prems(2) by simp
  show ?case
  proof (cases "vs = []")
    case True
    then show ?thesis
      using print_readsD [OF v, of "CHR '']'' # r" k] Cons.prems(3) by (simp add: n expect_Cons del: p_value.simps)
  next
    case False
    let ?rest = "js_join '','' (map (json_print nt) vs) @ CHR '']'' # r"
    have "p_value k (json_print nt v @ CHR '','' # ?rest) = Some (v, CHR '','' # ?rest)"
      using Cons.prems(3) False by (intro print_readsD [OF v]) (simp_all add: n js_join_Cons)
    moreover have "p_elems k ?rest = Some (vs, r)"
      using Cons.prems False by (intro Cons.IH) (simp_all add: n js_join_Cons)
    ultimately show ?thesis
      using False by (simp add: n js_join_Cons expect_Cons del: p_value.simps)
  qed
qed simp

lemma p_members_print:
  assumes "ms \<noteq> []" and "\<And>m. m \<in> set ms \<Longrightarrow> reads nt (snd m)"
    and "2 * length (js_join '','' (map (\<lambda>m. json_quote (fst m) @ '':'' @ json_print nt (snd m)) ms)) + 2 * length r + 4 \<le> n"
  shows "p_members n (js_join '','' (map (\<lambda>m. json_quote (fst m) @ '':'' @ json_print nt (snd m)) ms) @ CHR ''}'' # r)
     = Some (ms, r)"
  using assms
proof (induction ms arbitrary: n)
  case (Cons m ms)
  let ?p = "\<lambda>m. json_quote (fst m) @ '':'' @ json_print nt (snd m)"
  obtain k where n: "n = Suc k" using Cons.prems(3) by (cases n) auto
  have v: "reads nt (snd m)" using Cons.prems(2) by simp
  have key: "p_key (json_quote (fst m) @ CHR '':'' # t) = Some (fst m, t)" for t by (rule p_key_quote)
  show ?case
  proof (cases "ms = []")
    case True
    have "p_value k (json_print nt (snd m) @ CHR ''}'' # r) = Some (snd m, CHR ''}'' # r)"
      using Cons.prems(3) True by (intro print_readsD [OF v]) (simp_all add: n)
    then show ?thesis
      using True key by (simp add: n expect_Cons del: p_value.simps)
  next
    case False
    let ?rest = "js_join '','' (map ?p ms) @ CHR ''}'' # r"
    have "p_value k (json_print nt (snd m) @ CHR '','' # ?rest) = Some (snd m, CHR '','' # ?rest)"
      using Cons.prems(3) False by (intro print_readsD [OF v]) (simp_all add: n js_join_Cons)
    moreover have "p_members k ?rest = Some (ms, r)"
      using Cons.prems False by (intro Cons.IH) (simp_all add: n js_join_Cons)
    ultimately show ?thesis
      using False key by (simp add: n js_join_Cons expect_Cons del: p_value.simps)
  qed
qed simp

lemma join_first:
  assumes "xs \<noteq> []" and "\<And>x. x \<in> set xs \<Longrightarrow> \<exists>c cs. f x = c # cs \<and> P c"
  shows "\<exists>c cs. js_join sep (map f xs) = c # cs \<and> P c"
  using assms by (cases xs; cases "tl xs"; fastforce)

lemma printable_reads: "printable v \<Longrightarrow> reads nt v"
proof (induction v)
  case (JNum x)
  then have "json_print nt (JNum x) = show_int \<lfloor>x\<rfloor>" "of_int \<lfloor>x\<rfloor> = x" "plain_number x"
    unfolding plain_number_def is_integer_def by (simp_all add: show_number_def plain_number_def is_integer_def)
  then show ?case unfolding reads_def
    using p_value_number [of _ "\<lfloor>x\<rfloor>"] by (metis Suc_eq_plus1 Suc_le_D)
next
  case (JArr xs)
  show ?case unfolding reads_def
  proof (intro allI impI)
    fix r n assume e: "ends_value r" and f: "2 * length (json_print nt (JArr xs) @ r) + 1 \<le> n"
    obtain k where n: "n = Suc k" using f by (cases n) auto
    show "p_value n (json_print nt (JArr xs) @ r) = Some (JArr xs, r)"
    proof (cases "xs = []")
      case True
      then show ?thesis by (simp add: n expect_Cons)
    next
      case False
      have "\<exists>c cs. js_join '','' (map (json_print nt) xs) = c # cs \<and> \<not> json_space c \<and> c \<noteq> CHR '']''"
        using JArr.prems by (intro join_first [OF False]) (auto simp: list_all_iff dest!: print_first [of _ nt])
      then obtain c cs where c: "js_join '','' (map (json_print nt) xs) = c # cs" "\<not> json_space c" "c \<noteq> CHR '']''"
        by blast
      have "p_elems k (js_join '','' (map (json_print nt) xs) @ CHR '']'' # r) = Some (xs, r)"
        using JArr f by (intro p_elems_print [OF False]) (auto simp: n list_all_iff)
      then show ?thesis using c by (simp add: n expect_Cons)
    qed
  qed
next
  case (JObj ms)
  let ?p = "\<lambda>m. json_quote (fst m) @ '':'' @ json_print nt (snd m)"
  show ?case unfolding reads_def
  proof (intro allI impI)
    fix r n assume e: "ends_value r" and f: "2 * length (json_print nt (JObj ms) @ r) + 1 \<le> n"
    obtain k where n: "n = Suc k" using f by (cases n) auto
    have all: "printable (snd m)" "reads nt (snd m)" if "m \<in> set ms" for m
      using JObj that by (auto simp: list_all_iff) (metis prod.collapse prod_set_simps(2) singletonI snds.intros)
    show "p_value n (json_print nt (JObj ms) @ r) = Some (JObj ms, r)"
    proof (cases "ms = []")
      case True
      then show ?thesis by (simp add: n expect_Cons obj_of_members_def)
    next
      case False
      have "\<exists>c cs. js_join '','' (map ?p ms) = c # cs \<and> c = CHR 0x22"
        by (intro join_first [OF False]) (simp add: json_quote_def quoted_def)
      then obtain cs where c: "js_join '','' (map ?p ms) = CHR 0x22 # cs" by blast
      have "p_members k (js_join '','' (map ?p ms) @ CHR ''}'' # r) = Some (ms, r)"
        using f all by (intro p_members_print [OF False]) (auto simp: n)
      moreover have "obj_of_members ms = ms" using JObj.prems by (intro obj_of_distinct) simp
      ultimately show ?thesis using c by (simp add: n expect_Cons)
    qed
  qed
next
  case (JStr s)
  have "p_value (Suc k) (json_quote s @ r) = Some (JStr s, r)" for k r
    using p_scalar_quote [of s r] unfolding quote_append by (subst p_value_scalar) simp_all
  then show ?case unfolding reads_def by (metis Suc_le_D add.commute json_print.simps(4) plus_1_eq_Suc)
next
  case (JBool b)
  then show ?case unfolding reads_def
    using p_value_keyword(2,3) by (metis (full_types) Suc_le_D add.commute json_print.simps(2) plus_1_eq_Suc)
next
  case JNull
  then show ?case unfolding reads_def
    using p_value_keyword(1) by (metis Suc_le_D add.commute json_print.simps(1) plus_1_eq_Suc)
qed

theorem json_parse_print:
  assumes "printable v"
  shows "json_parse (json_print nt v) = Some v"
proof -
  have "p_value (json_fuel (json_print nt v)) (json_print nt v @ []) = Some (v, [])"
    by (rule print_readsD [OF printable_reads [OF assms]]) (simp_all add: json_fuel_def)
  then show ?thesis by (simp add: json_parse_def skip_ws_def)
qed

end
