(* ===== verification/Validate.thy ===== *)
theory Validate
  imports CoreTypes
begin

text \<open>
  nap-core's check of a completion proof: \<open>header.ts\<close>, \<open>url.ts\<close> and \<open>validate.ts\<close>,
  with the record of what they take from outside: \<open>SHA-256\<close> (\<open>@noble/hashes\<close>),
  \<open>verifyEvent\<close> and \<open>nip19.decode\<close> (nostr-tools) and the runtime's \<open>URL\<close> class.
  Throwing is \<open>None\<close>. The theorems say what an accepted proof guarantees and that a
  proof with these properties is accepted.
\<close>

record platform =
  pf_sha256 :: "byte list \<Rightarrow> byte list"
  pf_verifyEvent :: "Nip98Event \<Rightarrow> bool"
  pf_nip19_decode :: "string \<Rightarrow> (string \<times> json) option"
  pf_url_toString :: "string \<Rightarrow> string option"

section \<open>The authorization header\<close>

definition string_array :: "json \<Rightarrow> string list option" where
  "string_array v =
     (case v of JArr xs \<Rightarrow> those (map (\<lambda>x. as_string (Some x)) xs) | _ \<Rightarrow> None)"

text \<open>\<open>isStringArrayArray\<close>: \<open>Some\<close> of the array when the test holds.\<close>

definition isStringArrayArray :: "json option \<Rightarrow> string list list option" where
  "isStringArrayArray v =
     (case v of Some (JArr xs) \<Rightarrow> those (map string_array xs) | _ \<Rightarrow> None)"

definition event_of_json :: "json \<Rightarrow> Nip98Event option" where
  "event_of_json v =
     (case (as_string (member v ''id''), as_string (member v ''pubkey''),
            as_number (member v ''created_at''), as_number (member v ''kind''),
            as_string (member v ''content''), as_string (member v ''sig''),
            isStringArrayArray (member v ''tags'')) of
        (Some i, Some p, Some c, Some k, Some ct, Some s, Some ts) \<Rightarrow>
          Some \<lparr>ev_id = i, ev_pubkey = p, ev_created_at = c, ev_kind = k, ev_tags = ts,
                ev_content = ct, ev_sig = s\<rparr>
      | _ \<Rightarrow> None)"

definition parseNostrAuthorizationHeader :: "string option \<Rightarrow> Nip98Event option" where
  "parseNostrAuthorizationHeader header =
     (if \<not> truthy_str header then None
      else if \<not> starts_with (the header) ''Nostr '' then None
      else let payload = js_trim (drop (length ''Nostr '') (the header))
           in if payload = [] then None
              else case decodeBase64String payload of
                     Inl _ \<Rightarrow> None
                   | Inr decoded \<Rightarrow>
                       (case json_parse decoded of
                          None \<Rightarrow> None
                        | Some parsed \<Rightarrow> event_of_json parsed))"

section \<open>URLs\<close>

definition normalizeAbsoluteUrl :: "platform \<Rightarrow> string \<Rightarrow> string option" where
  "normalizeAbsoluteUrl pf value = pf_url_toString pf value"

definition exactUrlMatch :: "platform \<Rightarrow> string \<Rightarrow> string \<Rightarrow> bool" where
  "exactUrlMatch pf left right =
     (case normalizeAbsoluteUrl pf left of
        None \<Rightarrow> False
      | Some l \<Rightarrow> (case normalizeAbsoluteUrl pf right of None \<Rightarrow> False | Some r \<Rightarrow> l = r))"

lemma exactUrlMatch_iff:
  "exactUrlMatch pf a b \<longleftrightarrow> (\<exists>u. pf_url_toString pf a = Some u \<and> pf_url_toString pf b = Some u)"
  by (auto simp: exactUrlMatch_def normalizeAbsoluteUrl_def split: option.splits)

section \<open>Tags\<close>

definition tag_matches :: "Nip98Event \<Rightarrow> string \<Rightarrow> string list list" where
  "tag_matches ev name = filter (\<lambda>tag. tag \<noteq> [] \<and> hd tag = name) (ev_tags ev)"

definition getSingleTag :: "Nip98Event \<Rightarrow> string \<Rightarrow> VerifyCompleteFailure + string" where
  "getSingleTag ev tagName =
     (case tag_matches ev tagName of
        [_ # v # _] \<Rightarrow> Inr v
      | _ \<Rightarrow>
          if tagName = ''payload'' then Inl (failure NAP_COMPLETE_MISSING_PAYLOAD)
          else if tagName = ''challenge_id'' then Inl (failure NAP_COMPLETE_MISSING_CHALLENGE_ID)
          else Inl (failure NAP_COMPLETE_INVALID_EVENT_JSON))"

text \<open>The one value of a tag: the event has exactly one such tag, and it has a value.\<close>

definition single_tag :: "Nip98Event \<Rightarrow> string \<Rightarrow> string \<Rightarrow> bool" where
  "single_tag ev name v \<longleftrightarrow> (\<exists>r. tag_matches ev name = [name # v # r])"

definition tag_failure :: "string \<Rightarrow> VerifyCompleteFailure" where
  "tag_failure tagName =
     (if tagName = ''payload'' then failure NAP_COMPLETE_MISSING_PAYLOAD
      else if tagName = ''challenge_id'' then failure NAP_COMPLETE_MISSING_CHALLENGE_ID
      else failure NAP_COMPLETE_INVALID_EVENT_JSON)"

lemma getSingleTag_alt:
  "getSingleTag ev n =
     (case tag_matches ev n of [_ # v # _] \<Rightarrow> Inr v | _ \<Rightarrow> Inl (tag_failure n))"
  unfolding getSingleTag_def tag_failure_def by (cases "n = ''payload''") simp_all

lemma getSingleTag_Inr: "getSingleTag ev n = Inr v \<longleftrightarrow> single_tag ev n v"
proof -
  have hd: "t \<in> set (tag_matches ev n) \<Longrightarrow> hd t = n" for t
    by (simp add: tag_matches_def)
  consider "tag_matches ev n = []" | t where "tag_matches ev n = [t]"
    | t t' ts where "tag_matches ev n = t # t' # ts"
    by (metis list.exhaust)
  then show ?thesis
  proof cases
    case (2 t)
    then have "hd t = n" using hd by simp
    then show ?thesis
      using 2 by (auto simp: getSingleTag_alt single_tag_def split: list.splits)
  qed (simp_all add: getSingleTag_alt single_tag_def split: list.splits)
qed

lemma single_tag_fun: "single_tag ev n v \<Longrightarrow> single_tag ev n w \<Longrightarrow> v = w"
  by (auto simp: single_tag_def)

section \<open>Time windows\<close>

definition validateCreatedAtWindow ::
  "rat \<Rightarrow> int \<Rightarrow> int option \<Rightarrow> VerifyCompleteFailure + unit" where
  "validateCreatedAtWindow createdAt now maxClockSkewSeconds =
     (if \<bar>of_int now - createdAt\<bar> > of_int (or_else maxClockSkewSeconds 60)
      then Inl (failure NAP_COMPLETE_CREATED_AT_OUT_OF_RANGE) else Inr ())"

definition validateChallengeBoundCreatedAt ::
  "rat \<Rightarrow> int \<Rightarrow> int \<Rightarrow> int option \<Rightarrow> int option \<Rightarrow> VerifyCompleteFailure + unit" where
  "validateChallengeBoundCreatedAt createdAt issuedAt expiresAt lowerGrace upperGrace =
     (if createdAt < of_int (issuedAt - or_else lowerGrace 30)
         \<or> createdAt > of_int (expiresAt + or_else upperGrace 5)
      then Inl (failure NAP_COMPLETE_CREATED_AT_OUT_OF_RANGE) else Inr ())"

section \<open>The proof\<close>

definition verifyNip98Completion ::
  "platform \<Rightarrow> VerifyNip98CompletionInput \<Rightarrow> VerifyCompleteFailure + VerifiedNip98Completion" where
  "verifyNip98Completion pf input =
     (if \<not> truthy_str (vi_authorization input) then Inl (failure NAP_COMPLETE_MISSING_AUTH_HEADER)
      else if \<not> starts_with (the (vi_authorization input)) ''Nostr ''
           then Inl (failure NAP_COMPLETE_INVALID_AUTH_SCHEME)
      else case parseNostrAuthorizationHeader (vi_authorization input) of
        None \<Rightarrow> Inl (failure NAP_COMPLETE_INVALID_EVENT_JSON)
      | Some event \<Rightarrow>
        if ev_kind event \<noteq> 27235 then Inl (failure NAP_COMPLETE_INVALID_KIND)
        else if ev_content event \<noteq> [] then Inl (failure NAP_COMPLETE_INVALID_EVENT_JSON)
        else if \<not> pf_verifyEvent pf event then Inl (failure NAP_COMPLETE_INVALID_SIGNATURE)
        else (case validateCreatedAtWindow (ev_created_at event) (vi_now input)
                     (vi_maxClockSkewSeconds input) of
          Inl f \<Rightarrow> Inl f
        | Inr _ \<Rightarrow>
        (case getSingleTag event ''u'' of
          Inl f \<Rightarrow> Inl f
        | Inr urlTag \<Rightarrow>
        if \<not> exactUrlMatch pf urlTag (vi_url input) then Inl (failure NAP_COMPLETE_URL_MISMATCH)
        else (case getSingleTag event ''method'' of
          Inl f \<Rightarrow> Inl f
        | Inr methodTag \<Rightarrow>
        if methodTag \<noteq> to_upper (vi_method input) then Inl (failure NAP_COMPLETE_METHOD_MISMATCH)
        else (case getSingleTag event ''payload'' of
          Inl f \<Rightarrow> Inl f
        | Inr payloadTag \<Rightarrow>
        if payloadTag \<noteq> sha256Hex (pf_sha256 pf) (vi_rawBody input)
        then Inl (failure NAP_COMPLETE_PAYLOAD_MISMATCH)
        else (case getSingleTag event ''challenge_id'' of
          Inl f \<Rightarrow> Inl f
        | Inr challengeIdTag \<Rightarrow>
        if rq_challenge_id (vi_body input) = []
           \<or> challengeIdTag \<noteq> rq_challenge_id (vi_body input)
        then Inl (failure NAP_COMPLETE_MISSING_CHALLENGE_ID)
        else (case getSingleTag event ''challenge'' of
          Inl _ \<Rightarrow> Inl (failure NAP_COMPLETE_CHALLENGE_MISMATCH)
        | Inr challengeTag \<Rightarrow>
            Inr \<lparr>vc_event = event, vc_challenge = challengeTag,
                 vc_challengeId = challengeIdTag, vc_payload = payloadTag\<rparr>)))))))"

subsection \<open>What an accepted proof is\<close>

text \<open>
  The contract of a proof, stated without the order of the checks: a signed NIP-98 event
  of this request, fresh, for this URL, method and body, naming this challenge.
\<close>

definition valid_proof :: "platform \<Rightarrow> VerifyNip98CompletionInput \<Rightarrow> Nip98Event \<Rightarrow> bool" where
  "valid_proof pf input ev \<longleftrightarrow>
     parseNostrAuthorizationHeader (vi_authorization input) = Some ev
     \<and> ev_kind ev = 27235 \<and> ev_content ev = [] \<and> pf_verifyEvent pf ev
     \<and> \<bar>of_int (vi_now input) - ev_created_at ev\<bar> \<le> of_int (or_else (vi_maxClockSkewSeconds input) 60)
     \<and> (\<exists>u. single_tag ev ''u'' u \<and> exactUrlMatch pf u (vi_url input))
     \<and> single_tag ev ''method'' (to_upper (vi_method input))
     \<and> single_tag ev ''payload'' (sha256Hex (pf_sha256 pf) (vi_rawBody input))
     \<and> rq_challenge_id (vi_body input) \<noteq> []
     \<and> single_tag ev ''challenge_id'' (rq_challenge_id (vi_body input))"

lemma parse_header_scheme:
  "parseNostrAuthorizationHeader h = Some ev \<Longrightarrow> truthy_str h \<and> starts_with (the h) ''Nostr ''"
  by (auto simp: parseNostrAuthorizationHeader_def split: if_splits)

lemma createdAtWindow_Inr:
  "validateCreatedAtWindow c n s = Inr () \<longleftrightarrow> \<bar>of_int n - c\<bar> \<le> of_int (or_else s 60)"
  by (simp add: validateCreatedAtWindow_def not_less)

lemma challengeBound_Inr:
  "validateChallengeBoundCreatedAt c i e l u = Inr () \<longleftrightarrow>
     of_int (i - or_else l 30) \<le> c \<and> c \<le> of_int (e + or_else u 5)"
  by (auto simp: validateChallengeBoundCreatedAt_def)

lemma challengeBound_Inl:
  "validateChallengeBoundCreatedAt c i e l u = Inl f \<Longrightarrow> f = failure NAP_COMPLETE_CREATED_AT_OUT_OF_RANGE"
  by (auto simp: validateChallengeBoundCreatedAt_def split: if_splits)

lemma verifyNip98Completion_Inr:
  "verifyNip98Completion pf input = Inr r \<longleftrightarrow>
     valid_proof pf input (vc_event r)
     \<and> single_tag (vc_event r) ''challenge'' (vc_challenge r)
     \<and> vc_challengeId r = rq_challenge_id (vi_body input)
     \<and> vc_payload r = sha256Hex (pf_sha256 pf) (vi_rawBody input)"
  (is "?L \<longleftrightarrow> ?R")
proof
  assume ?L
  then show ?R
    by (auto simp: verifyNip98Completion_def valid_proof_def getSingleTag_Inr
        createdAtWindow_Inr split: if_splits option.splits sum.splits)
next
  assume r: ?R
  then obtain u where u: "single_tag (vc_event r) ''u'' u" "exactUrlMatch pf u (vi_url input)"
    by (auto simp: valid_proof_def)
  have tags: "getSingleTag (vc_event r) ''method'' = Inr (to_upper (vi_method input))"
    "getSingleTag (vc_event r) ''payload'' = Inr (sha256Hex (pf_sha256 pf) (vi_rawBody input))"
    "getSingleTag (vc_event r) ''challenge_id'' = Inr (rq_challenge_id (vi_body input))"
    "getSingleTag (vc_event r) ''challenge'' = Inr (vc_challenge r)"
    "getSingleTag (vc_event r) ''u'' = Inr u"
    using r u(1) by (simp_all add: getSingleTag_Inr valid_proof_def)
  show ?L
    using r u(2) parse_header_scheme [of "vi_authorization input" "vc_event r"]
    by (simp add: verifyNip98Completion_def valid_proof_def createdAtWindow_Inr [THEN iffD2] tags)
qed

lemma verifyNip98Completion_codes:
  assumes "verifyNip98Completion pf input = Inl f"
  shows "vf_code f \<in> {NAP_COMPLETE_MISSING_AUTH_HEADER, NAP_COMPLETE_INVALID_AUTH_SCHEME,
     NAP_COMPLETE_INVALID_EVENT_JSON, NAP_COMPLETE_INVALID_KIND, NAP_COMPLETE_INVALID_SIGNATURE,
     NAP_COMPLETE_CREATED_AT_OUT_OF_RANGE, NAP_COMPLETE_URL_MISMATCH,
     NAP_COMPLETE_METHOD_MISMATCH, NAP_COMPLETE_MISSING_PAYLOAD, NAP_COMPLETE_PAYLOAD_MISMATCH,
     NAP_COMPLETE_MISSING_CHALLENGE_ID, NAP_COMPLETE_CHALLENGE_MISMATCH}"
proof -
  have tag: "vf_code g \<in> {NAP_COMPLETE_MISSING_PAYLOAD, NAP_COMPLETE_MISSING_CHALLENGE_ID,
      NAP_COMPLETE_INVALID_EVENT_JSON}" if "getSingleTag ev n = Inl g" for ev n g
    using that by (auto simp: getSingleTag_alt tag_failure_def simp del: char_of_eq_iff
        split: list.splits if_splits)
  have win: "vf_code g = NAP_COMPLETE_CREATED_AT_OUT_OF_RANGE"
    if "validateCreatedAtWindow c n s = Inl g" for c n s g
    using that by (auto simp: validateCreatedAtWindow_def split: if_splits)
  show ?thesis
    using assms
    by (auto simp: verifyNip98Completion_def dest!: tag win
        split: if_splits option.splits sum.splits)
qed

end
