(* ===== verification/HeaderFacts.thy ===== *)
theory HeaderFacts
  imports Validate
begin

text \<open>
  The round trip of the authorization header: what a client builds from the text of its
  event, \<open>"Nostr " + base64(text)\<close>, is read back as the event that text denotes.
\<close>

lemma trim_lead_plain:
  assumes "s = [] \<or> hd s \<notin> set (map hd ws)" and "[] \<notin> set ws"
  shows "trim_lead ws s = s"
proof -
  have "\<not> starts_with s w" if "w \<in> set ws" for w
  proof -
    have "w \<noteq> []" using that assms(2) by blast
    then obtain c r where w: "w = c # r" by (cases w) simp_all
    have "hd w \<in> set (map hd ws)" using that by simp
    then have "s = [] \<or> hd s \<noteq> c" using assms(1) w by auto
    then show ?thesis by (cases s) (auto simp: starts_with_def w)
  qed
  then have "lead_space ws s = 0" by (intro lead_space_none) (simp add: list_all_iff)
  then show ?thesis by (simp add: trim_lead.simps)
qed

definition space_ends :: "char set" where
  "space_ends = set (map hd js_spaces) \<union> set (map last js_spaces)"

lemma js_trim_plain:
  assumes "set s \<inter> space_ends = {}"
  shows "js_trim s = s"
proof -
  have ne: "[] \<notin> set js_spaces" by (simp add: js_spaces_def)
  have hl: "set (map hd (map rev js_spaces)) = set (map last js_spaces)"
    using ne by (auto simp: hd_rev)
  have 1: "trim_lead js_spaces s = s"
    using assms by (intro trim_lead_plain ne) (cases s, auto simp: space_ends_def)
  have "rev s = [] \<or> hd (rev s) \<notin> set (map last js_spaces)"
    using assms hd_in_set [of "rev s"] by (auto simp: space_ends_def)
  then have "trim_lead (map rev js_spaces) (rev s) = rev s"
    using ne hl by (intro trim_lead_plain) auto
  then show ?thesis by (simp add: js_trim_def 1)
qed

lemma alphabet_not_end: "set BASE64_ALPHABET \<inter> space_ends = {}" "CHR ''='' \<notin> space_ends"
  by (simp_all add: BASE64_ALPHABET_def js_spaces_def space_ends_def)

lemma js_trim_base64: "js_trim (encodeBase64Bytes bs) = encodeBase64Bytes bs"
proof (rule js_trim_plain)
  obtain body where e: "encodeBase64Bytes bs = body @ padding bs" "set body \<subseteq> set BASE64_ALPHABET"
    using encode_shape by blast
  then show "set (encodeBase64Bytes bs) \<inter> space_ends = {}"
    using alphabet_not_end padding_all by (auto dest!: padding_all)
qed

lemma parse_header_encode:
  assumes a: "ascii text" and ne: "text \<noteq> []"
  shows "parseNostrAuthorizationHeader (Some (''Nostr '' @ encodeBase64String text)) =
    (case json_parse text of None \<Rightarrow> None | Some v \<Rightarrow> event_of_json v)"
proof -
  have "utf8_encode text \<noteq> []" using ne by (simp add: utf8_encode_def)
  then have "encodeBase64String text \<noteq> []" by (simp add: encodeBase64String_def)
  moreover have "js_trim (encodeBase64String text) = encodeBase64String text"
    by (simp add: encodeBase64String_def js_trim_base64)
  ultimately show ?thesis
    by (simp add: parseNostrAuthorizationHeader_def starts_with_def decodeBase64String_encode [OF a])
qed

end
