(* ===== verification/Metrics.thy ===== *)
theory Metrics
  imports ServerTypes
begin

text \<open>
  nap-server's metrics (\<open>metrics.ts\<close>) and guard audit (\<open>guard.ts\<close>). The audit logger
  and the metrics recorder are the caller's: what the model keeps is the sequence of calls
  each has received, and whether the next call throws is a function of that sequence.
  \<open>None\<close> is an unbound recorder, and the no-op logger.
\<close>

record audit_log =
  al_events :: "audit_event list"
  al_counters :: "NapCounter list"

record log_config =
  lc_auditLogger :: "(audit_event list \<Rightarrow> audit_event \<Rightarrow> bool) option"
  lc_metrics :: "(NapCounter list \<Rightarrow> NapCounter \<Rightarrow> bool) option"

section \<open>Counters\<close>

text \<open>\<open>increment\<close>: a recorder that throws costs the counter and nothing else.\<close>

definition increment ::
  "(NapCounter list \<Rightarrow> NapCounter \<Rightarrow> bool) \<Rightarrow> NapCounter \<Rightarrow> audit_log \<Rightarrow> audit_log" where
  "increment throws counter l =
     (if throws (al_counters l) counter then l
      else l\<lparr>al_counters := al_counters l @ [counter]\<rparr>)"

definition countTotal :: "log_config \<Rightarrow> NapCounter \<Rightarrow> (audit_log, unit) io" where
  "countTotal cfg counter l =
     (case lc_metrics cfg of
        None \<Rightarrow> (Inr (), l)
      | Some throws \<Rightarrow> (Inr (), increment throws counter l))"

definition COUNTER_BY_OUTCOME :: "outcome \<Rightarrow> NapCounter" where
  "COUNTER_BY_OUTCOME oc =
     (case oc of Outcome_success \<Rightarrow> auth_success_total
      | Outcome_failure \<Rightarrow> auth_failure_total
      | Outcome_rate_limited \<Rightarrow> auth_rate_limited_total)"

definition COUNTER_BY_CODE :: "string \<Rightarrow> NapCounter option" where
  "COUNTER_BY_CODE code =
     (if code = code_str NAP_COMPLETE_EXPIRED_CHALLENGE then Some challenge_expired_total
      else if code = code_str NAP_COMPLETE_URL_MISMATCH then Some audience_mismatch_total
      else if code = code_str NAP_COMPLETE_PAYLOAD_MISMATCH then Some payload_mismatch_total
      else None)"

definition NAP_COMPLETE_SUCCESS :: string where
  "NAP_COMPLETE_SUCCESS = ''NAP_COMPLETE_SUCCESS''"

definition is_retry :: "audit_event \<Rightarrow> bool" where
  "is_retry ev = (case ae_details ev of None \<Rightarrow> False | Some d \<Rightarrow> jm_get d ''retry'' = Some (JBool True))"

text \<open>The increments of one audit event, in order.\<close>

definition event_counters :: "audit_event \<Rightarrow> NapCounter list" where
  "event_counters ev =
     [COUNTER_BY_OUTCOME (ae_outcome ev)]
     @ (case COUNTER_BY_CODE (ae_code ev) of None \<Rightarrow> [] | Some c \<Rightarrow> [c])
     @ (if ae_code ev = NAP_COMPLETE_SUCCESS
        then [if is_retry ev then challenge_retry_hit_total else challenge_redeemed_total]
        else [])"

definition logger_log :: "log_config \<Rightarrow> audit_event \<Rightarrow> (audit_log, unit) io" where
  "logger_log cfg ev l =
     (case lc_auditLogger cfg of
        None \<Rightarrow> (Inr (), l)
      | Some throws \<Rightarrow>
          (if throws (al_events l) ev then Inl (Exn ''audit'') else Inr (),
           l\<lparr>al_events := al_events l @ [ev]\<rparr>))"

text \<open>\<open>withMetrics(auditLogger, metrics).log(event)\<close>.\<close>

definition withMetrics_log :: "log_config \<Rightarrow> audit_event \<Rightarrow> (audit_log, unit) io" where
  "withMetrics_log cfg ev l =
     (case lc_metrics cfg of
        None \<Rightarrow> logger_log cfg ev l
      | Some throws \<Rightarrow> logger_log cfg ev (fold (increment throws) (event_counters ev) l))"

section \<open>Guard denials\<close>

datatype GuardDenialCode = NO_SESSION | ACL_DENIED | PERMISSION_DENIED | ROLE_DENIED | STEP_UP_REQUIRED

primrec GUARD_DENIAL_CODES :: "GuardDenialCode \<Rightarrow> string" where
  "GUARD_DENIAL_CODES NO_SESSION = ''NAP_GUARD_NO_SESSION''"
| "GUARD_DENIAL_CODES ACL_DENIED = ''NAP_GUARD_ACL_DENIED''"
| "GUARD_DENIAL_CODES PERMISSION_DENIED = ''NAP_GUARD_PERMISSION_DENIED''"
| "GUARD_DENIAL_CODES ROLE_DENIED = ''NAP_GUARD_ROLE_DENIED''"
| "GUARD_DENIAL_CODES STEP_UP_REQUIRED = ''NAP_GUARD_STEP_UP_REQUIRED''"

definition guard_event ::
  "GuardDenialCode \<Rightarrow> SessionRecord option \<Rightarrow> (string \<times> json) list option \<Rightarrow> audit_event" where
  "guard_event code session details =
     \<lparr>ae_code = GUARD_DENIAL_CODES code, ae_challenge_id = None,
      ae_npub = map_option s_principal_npub session,
      ae_pubkey = map_option s_principal_pubkey session,
      ae_outcome = Outcome_failure, ae_details = details\<rparr>"

text \<open>\<open>logGuardDenial\<close>: without a logger nothing is counted; a throw is swallowed.\<close>

definition logGuardDenial ::
  "log_config \<Rightarrow> GuardDenialCode \<Rightarrow> SessionRecord option \<Rightarrow> (string \<times> json) list option
     \<Rightarrow> (audit_log, unit) io" where
  "logGuardDenial cfg code session details =
     (if lc_auditLogger cfg = None then io_ret ()
      else io_catch (withMetrics_log cfg (guard_event code session details)) (io_ret ()))"

section \<open>What is counted\<close>

text \<open>A recorder and a logger that never fail.\<close>

definition reliable :: "log_config \<Rightarrow> bool" where
  "reliable cfg \<longleftrightarrow>
     lc_metrics cfg = Some (\<lambda>_ _. False) \<and> lc_auditLogger cfg = Some (\<lambda>_ _. False)"

lemma increments_reliable:
  "fold (increment (\<lambda>_ _. False)) cs l = l\<lparr>al_counters := al_counters l @ cs\<rparr>"
  by (induction cs arbitrary: l) (simp_all add: increment_def)

lemma withMetrics_reliable:
  "reliable cfg \<Longrightarrow> withMetrics_log cfg ev l =
     (Inr (), l\<lparr>al_events := al_events l @ [ev], al_counters := al_counters l @ event_counters ev\<rparr>)"
  by (simp add: withMetrics_log_def reliable_def increments_reliable logger_log_def)

text \<open>Whatever the recorder does, the logger sees every event.\<close>

lemma increments_events: "al_events (fold (increment th) cs l) = al_events l"
  by (induction cs arbitrary: l) (simp_all add: increment_def)

lemma withMetrics_events:
  "lc_auditLogger cfg = Some th \<Longrightarrow>
   withMetrics_log cfg ev l = (x, l') \<Longrightarrow>
   al_events l' = al_events l @ [ev] \<and> (x = Inr () \<longleftrightarrow> \<not> th (al_events l) ev)"
  by (auto simp: withMetrics_log_def logger_log_def increments_events
      split: option.splits if_splits prod.splits)

lemma code_not_success: "code_str c \<noteq> NAP_COMPLETE_SUCCESS"
  by (cases c) (simp_all add: NAP_COMPLETE_SUCCESS_def)

text \<open>
  Every audit event is counted once by its outcome; a success of a completion is a
  redemption or a retry hit, never both.
\<close>

definition outcome_counters :: "NapCounter list" where
  "outcome_counters = [auth_success_total, auth_failure_total, auth_rate_limited_total]"

lemma COUNTER_BY_CODE_cases:
  obtains "COUNTER_BY_CODE c = None" | "COUNTER_BY_CODE c = Some challenge_expired_total"
  | "COUNTER_BY_CODE c = Some audience_mismatch_total" | "COUNTER_BY_CODE c = Some payload_mismatch_total"
  by (metis COUNTER_BY_CODE_def)

lemma event_counters_outcome:
  "filter (\<lambda>c. c \<in> set outcome_counters) (event_counters ev) = [COUNTER_BY_OUTCOME (ae_outcome ev)]"
  by (cases "ae_outcome ev"; rule COUNTER_BY_CODE_cases [of "ae_code ev"])
    (simp_all add: event_counters_def COUNTER_BY_OUTCOME_def outcome_counters_def)

lemma event_counters_success:
  "filter (\<lambda>c. c = challenge_redeemed_total \<or> c = challenge_retry_hit_total) (event_counters ev) =
     (if ae_code ev = NAP_COMPLETE_SUCCESS
      then [if is_retry ev then challenge_retry_hit_total else challenge_redeemed_total] else [])"
  by (cases "ae_outcome ev"; rule COUNTER_BY_CODE_cases [of "ae_code ev"])
    (simp_all add: event_counters_def COUNTER_BY_OUTCOME_def)

lemma logGuardDenial_never_throws: "\<exists>l'. logGuardDenial cfg code ss d l = (Inr (), l')"
  by (cases "withMetrics_log cfg (guard_event code ss d) l"; cases "fst (withMetrics_log cfg (guard_event code ss d) l)")
    (auto simp: logGuardDenial_def io_catch_def)

lemma logGuardDenial_records:
  assumes "lc_auditLogger cfg = Some th"
  shows "al_events (snd (logGuardDenial cfg code ss d l)) = al_events l @ [guard_event code ss d]"
proof -
  obtain x l' where r: "withMetrics_log cfg (guard_event code ss d) l = (x, l')" by fastforce
  have "al_events l' = al_events l @ [guard_event code ss d]"
    using withMetrics_events [OF assms r] by blast
  then show ?thesis
    using assms r by (cases x) (simp_all add: logGuardDenial_def io_catch_def)
qed

end
