(* ===== verification/RateLimit.thy ===== *)
theory RateLimit
  imports ServerTypes
begin

text \<open>
  nap-server's in-memory fixed-window rate limiter (\<open>rateLimit.ts\<close>). The theorems: a
  window lets at most \<open>maxPerWindow\<close> requests of one identifier through, and the sweep
  of expired windows is never seen in an answer.
\<close>

record limiter_config =
  lm_windowSeconds :: int
  lm_maxPerWindow :: int

definition default_limiter_config :: limiter_config where
  "default_limiter_config = \<lparr>lm_windowSeconds = 60, lm_maxPerWindow = 30\<rparr>"

record rate_window =
  rw_startedAt :: int
  rw_count :: int

record mem_limiter =
  rl_windows :: "(string, rate_window) jsmap"
  rl_lastPrunedAt :: "int option"
  rl_clock :: int

definition rl_new :: "int \<Rightarrow> mem_limiter" where
  "rl_new clock = \<lparr>rl_windows = [], rl_lastPrunedAt = None, rl_clock = clock\<rparr>"

section \<open>Operations\<close>

definition rl_allowed :: RateLimitDecision where
  "rl_allowed = \<lparr>rd_allowed = True, rd_retryAfterSeconds = None\<rparr>"

definition rl_refused :: "int \<Rightarrow> RateLimitDecision" where
  "rl_refused n = \<lparr>rd_allowed = False, rd_retryAfterSeconds = Some n\<rparr>"

definition elapsed :: "limiter_config \<Rightarrow> int \<Rightarrow> rate_window \<Rightarrow> bool" where
  "elapsed cfg now w \<longleftrightarrow> now - rw_startedAt w \<ge> lm_windowSeconds cfg"

text \<open>\<open>hit\<close>: the decision for one identifier and its window afterwards.\<close>

definition rl_count :: "limiter_config \<Rightarrow> int \<Rightarrow> rate_window option \<Rightarrow> RateLimitDecision \<times> rate_window" where
  "rl_count cfg now existing =
     (case existing of
        None \<Rightarrow> (rl_allowed, \<lparr>rw_startedAt = now, rw_count = 1\<rparr>)
      | Some w \<Rightarrow>
          if elapsed cfg now w then (rl_allowed, \<lparr>rw_startedAt = now, rw_count = 1\<rparr>)
          else let w' = w\<lparr>rw_count := rw_count w + 1\<rparr>
               in (if rw_count w' > lm_maxPerWindow cfg
                   then rl_refused (max 1 (rw_startedAt w + lm_windowSeconds cfg - now))
                   else rl_allowed, w'))"

definition rl_hit ::
  "limiter_config \<Rightarrow> int \<Rightarrow> string \<Rightarrow> mem_limiter \<Rightarrow> RateLimitDecision \<times> mem_limiter" where
  "rl_hit cfg now i s =
     (case rl_count cfg now (jm_get (rl_windows s) i) of
        (d, w) \<Rightarrow> (d, s\<lparr>rl_windows := jm_set i w (rl_windows s)\<rparr>))"

definition rl_prune :: "limiter_config \<Rightarrow> int \<Rightarrow> mem_limiter \<Rightarrow> mem_limiter" where
  "rl_prune cfg now s =
     (if (case rl_lastPrunedAt s of None \<Rightarrow> False | Some t \<Rightarrow> now \<le> t) then s
      else s\<lparr>rl_lastPrunedAt := Some now,
             rl_windows := filter (\<lambda>e. \<not> elapsed cfg now (snd e)) (rl_windows s)\<rparr>)"

definition scope_str :: "RateLimitScope \<Rightarrow> string" where
  "scope_str sc = (case sc of scope_init \<Rightarrow> ''init'' | scope_complete \<Rightarrow> ''complete''
                   | scope_refresh \<Rightarrow> ''refresh'')"

definition rl_identifiers :: "RateLimitKey \<Rightarrow> string list" where
  "rl_identifiers key =
     (let sc = scope_str (rk_scope key)
      in (if truthy_str (rk_npub key)
          then [sc @ '':npub:'' @ the (rk_npub key)
                  @ (if truthy_str (rk_clientIp key) then ''@'' @ the (rk_clientIp key) else [])]
          else [])
         @ (if truthy_str (rk_pubkey key) then [sc @ '':pubkey:'' @ the (rk_pubkey key)] else [])
         @ (if truthy_str (rk_clientIp key) then [sc @ '':ip:'' @ the (rk_clientIp key)] else []))"

text \<open>\<open>identifiers.map(hit)\<close>, in order; then the reduction: the last refusal wins.\<close>

fun rl_hits ::
  "limiter_config \<Rightarrow> int \<Rightarrow> string list \<Rightarrow> mem_limiter \<Rightarrow> RateLimitDecision list \<times> mem_limiter" where
  "rl_hits cfg now [] s = ([], s)"
| "rl_hits cfg now (i # r) s =
     (case rl_hit cfg now i s of (d, s1) \<Rightarrow>
      case rl_hits cfg now r s1 of (ds, s2) \<Rightarrow> (d # ds, s2))"

definition rl_worst :: "RateLimitDecision list \<Rightarrow> RateLimitDecision" where
  "rl_worst ds = foldl (\<lambda>worst d. if rd_allowed d then worst else d) rl_allowed ds"

definition rl_check :: "limiter_config \<Rightarrow> RateLimitKey \<Rightarrow> (mem_limiter, RateLimitDecision) io" where
  "rl_check cfg key s0 =
     (let now = rl_clock s0;
          s = rl_prune cfg now s0;
          ids = rl_identifiers key
      in if ids = [] then (Inr rl_allowed, s)
         else case rl_hits cfg now ids s of (ds, s') \<Rightarrow> (Inr (rl_worst ds), s'))"

section \<open>A limiter that never sweeps\<close>

text \<open>
  The specification: one window per identifier, kept for ever. The invariant relates the
  windows that have not elapsed.
\<close>

type_synonym windows_spec = "string \<Rightarrow> rate_window option"

fun spec_hits ::
  "limiter_config \<Rightarrow> int \<Rightarrow> string list \<Rightarrow> windows_spec \<Rightarrow> RateLimitDecision list \<times> windows_spec" where
  "spec_hits cfg now [] f = ([], f)"
| "spec_hits cfg now (i # r) f =
     (case rl_count cfg now (f i) of (d, w) \<Rightarrow>
      case spec_hits cfg now r (f(i \<mapsto> w)) of (ds, f') \<Rightarrow> (d # ds, f'))"

definition spec_check ::
  "limiter_config \<Rightarrow> int \<Rightarrow> RateLimitKey \<Rightarrow> windows_spec \<Rightarrow> RateLimitDecision \<times> windows_spec" where
  "spec_check cfg now key f =
     (case spec_hits cfg now (rl_identifiers key) f of (ds, f') \<Rightarrow> (rl_worst ds, f'))"

definition live :: "limiter_config \<Rightarrow> int \<Rightarrow> rate_window option \<Rightarrow> rate_window option" where
  "live cfg now x = (case x of None \<Rightarrow> None | Some w \<Rightarrow> if elapsed cfg now w then None else Some w)"

definition agree :: "limiter_config \<Rightarrow> int \<Rightarrow> mem_limiter \<Rightarrow> windows_spec \<Rightarrow> bool" where
  "agree cfg now s f \<longleftrightarrow>
     jm_ok (rl_windows s) \<and> (\<forall>i. live cfg now (jm_get (rl_windows s) i) = live cfg now (f i))"

lemma rl_count_live: "rl_count cfg now x = rl_count cfg now (live cfg now x)"
  by (cases x) (simp_all add: rl_count_def live_def)

lemma live_later:
  assumes "now \<le> now'" and "live cfg now x = live cfg now y"
  shows "live cfg now' x = live cfg now' y"
proof -
  have "live cfg now' z = live cfg now' (live cfg now z)" for z
    using assms(1) by (cases z) (auto simp: live_def elapsed_def)
  then show ?thesis using assms(2) by metis
qed

lemma agree_later: "agree cfg now s f \<Longrightarrow> now \<le> now' \<Longrightarrow> agree cfg now' s f"
  unfolding agree_def using live_later by blast

lemma agree_prune: "agree cfg now s f \<Longrightarrow> agree cfg now (rl_prune cfg now s) f"
proof -
  assume a: "agree cfg now s f"
  then have ok: "jm_ok (rl_windows s)" by (simp add: agree_def)
  have "live cfg now (jm_get (filter (\<lambda>e. \<not> elapsed cfg now (snd e)) (rl_windows s)) i)
      = live cfg now (jm_get (rl_windows s) i)" for i
    using jm_get_filter [OF ok, of "\<lambda>_ w. \<not> elapsed cfg now w" i]
    by (auto simp: live_def split: option.splits)
  then show ?thesis using a by (simp add: agree_def rl_prune_def)
qed

lemma agree_hits:
  assumes "agree cfg now s f"
  shows "fst (rl_hits cfg now ids s) = fst (spec_hits cfg now ids f)
     \<and> agree cfg now (snd (rl_hits cfg now ids s)) (snd (spec_hits cfg now ids f))"
  using assms
proof (induction ids arbitrary: s f)
  case (Cons i r)
  obtain d w where dw: "rl_count cfg now (jm_get (rl_windows s) i) = (d, w)" by fastforce
  then have dw': "rl_count cfg now (f i) = (d, w)"
    using Cons.prems rl_count_live by (metis agree_def)
  let ?s = "s\<lparr>rl_windows := jm_set i w (rl_windows s)\<rparr>" and ?f = "f(i \<mapsto> w)"
  have "agree cfg now ?s ?f"
    using Cons.prems by (auto simp: agree_def jm_get_set)
  from Cons.IH [OF this] show ?case
    by (simp add: rl_hit_def dw dw' case_prod_beta del: fun_upd_apply)
qed simp

text \<open>The answers to a sequence of requests, each at its instant.\<close>

fun rl_run ::
  "limiter_config \<Rightarrow> (int \<times> RateLimitKey) list \<Rightarrow> mem_limiter \<Rightarrow> RateLimitDecision list" where
  "rl_run cfg [] s = []"
| "rl_run cfg ((t, k) # r) s =
     (case rl_check cfg k (s\<lparr>rl_clock := t\<rparr>) of
        (Inr d, s') \<Rightarrow> d # rl_run cfg r s'
      | (Inl _, s') \<Rightarrow> rl_run cfg r s')"

fun spec_run ::
  "limiter_config \<Rightarrow> (int \<times> RateLimitKey) list \<Rightarrow> windows_spec \<Rightarrow> RateLimitDecision list" where
  "spec_run cfg [] f = []"
| "spec_run cfg ((t, k) # r) f =
     (case spec_check cfg t k f of (d, f') \<Rightarrow> d # spec_run cfg r f')"

lemma agree_clock [simp]: "agree cfg now (s\<lparr>rl_clock := t\<rparr>) f = agree cfg now s f"
  by (simp add: agree_def)

lemma agree_check:
  assumes "agree cfg t s f"
  shows "\<exists>s'. rl_check cfg k (s\<lparr>rl_clock := t\<rparr>) = (Inr (fst (spec_check cfg t k f)), s')
     \<and> agree cfg t s' (snd (spec_check cfg t k f))"
proof -
  let ?s = "rl_prune cfg t (s\<lparr>rl_clock := t\<rparr>)"
  have a: "agree cfg t ?s f" using agree_prune [of cfg t "s\<lparr>rl_clock := t\<rparr>" f] assms by simp
  show ?thesis
    using agree_hits [OF a, of "rl_identifiers k"] a
    by (auto simp: rl_check_def spec_check_def Let_def rl_worst_def split: prod.splits)
qed

lemma rl_run_spec:
  assumes "agree cfg now s f" and "sorted (map fst reqs)" and "\<forall>r\<in>set reqs. now \<le> fst r"
  shows "rl_run cfg reqs s = spec_run cfg reqs f"
  using assms
proof (induction reqs arbitrary: now s f)
  case (Cons r reqs)
  obtain t k where r: "r = (t, k)" by (cases r)
  have a: "agree cfg t s f" using agree_later [OF Cons.prems(1)] Cons.prems(3) r by simp
  obtain s' where s': "rl_check cfg k (s\<lparr>rl_clock := t\<rparr>) = (Inr (fst (spec_check cfg t k f)), s')"
    "agree cfg t s' (snd (spec_check cfg t k f))"
    using agree_check [OF a] by blast
  have "rl_run cfg reqs s' = spec_run cfg reqs (snd (spec_check cfg t k f))"
    using Cons.IH [OF s'(2)] Cons.prems(2) r by (auto simp: sorted_wrt_map)
  then show ?case by (simp add: r s'(1) split: prod.splits)
qed simp

lemma agree_new: "agree cfg now (rl_new t) (\<lambda>_. None)"
  by (simp add: agree_def rl_new_def)

section \<open>The bound\<close>

text \<open>Within an open window the budget of an identifier only goes down.\<close>

definition spent :: "limiter_config \<Rightarrow> int \<Rightarrow> string \<Rightarrow> int \<Rightarrow> mem_limiter \<Rightarrow> bool" where
  "spent cfg T i n s \<longleftrightarrow>
     jm_ok (rl_windows s)
     \<and> (\<exists>w. jm_get (rl_windows s) i = Some w \<and> rw_startedAt w = T \<and> n \<le> rw_count w)"

lemma spent_hit:
  assumes s: "spent cfg T i n s" and t: "t - T < lm_windowSeconds cfg"
    and h: "rl_hit cfg t j s = (d, s')"
  shows "if j = i then spent cfg T i (n + 1) s' \<and> (n \<ge> lm_maxPerWindow cfg \<longrightarrow> \<not> rd_allowed d)
         else spent cfg T i n s'"
proof -
  obtain w where w: "jm_get (rl_windows s) i = Some w" "rw_startedAt w = T" "n \<le> rw_count w"
    using s by (auto simp: spent_def)
  have ne: "\<not> elapsed cfg t w" using t w(2) by (simp add: elapsed_def)
  show ?thesis
    using h s w ne
    by (auto simp: rl_hit_def rl_count_def spent_def Let_def jm_get_set rl_refused_def
        split: prod.splits)
qed

lemma spent_mono: "spent cfg T i n s \<Longrightarrow> m \<le> n \<Longrightarrow> spent cfg T i m s"
  by (auto simp: spent_def)

lemma spent_hits:
  assumes "spent cfg T i n s" and "t - T < lm_windowSeconds cfg"
    and "rl_hits cfg t ids s = (ds, s')"
  shows "spent cfg T i n s' \<and> (i \<in> set ids \<longrightarrow> spent cfg T i (n + 1) s'
           \<and> (n \<ge> lm_maxPerWindow cfg \<longrightarrow> (\<exists>d\<in>set ds. \<not> rd_allowed d)))"
  using assms
proof (induction ids arbitrary: n s ds)
  case (Cons j r)
  obtain d s1 where h: "rl_hit cfg t j s = (d, s1)" by fastforce
  obtain es where es: "rl_hits cfg t r s1 = (es, s')" "ds = d # es"
    using Cons.prems(3) h by (auto split: prod.splits)
  note H = spent_hit [OF Cons.prems(1,2) h]
  have s1: "spent cfg T i n s1"
    using H by (auto split: if_splits intro: spent_mono)
  note IH = Cons.IH [OF s1 Cons.prems(2) es(1)]
  show ?case
  proof (cases "j = i")
    case True
    then have "spent cfg T i (n + 1) s'"
      using H Cons.IH [OF _ Cons.prems(2) es(1), of "n + 1"] by simp
    then show ?thesis using True H IH es(2) by auto
  next
    case False
    then show ?thesis using IH es(2) by auto
  qed
qed simp

lemma rl_worst_allowed: "rd_allowed (rl_worst ds) \<longleftrightarrow> (\<forall>d\<in>set ds. rd_allowed d)"
proof -
  have "rd_allowed (foldl (\<lambda>worst d. if rd_allowed d then worst else d) a ds)
      \<longleftrightarrow> rd_allowed a \<and> (\<forall>d\<in>set ds. rd_allowed d)" for a
    by (induction ds arbitrary: a) auto
  then show ?thesis by (simp add: rl_worst_def rl_allowed_def)
qed

lemma spent_prune:
  assumes "spent cfg T i n s" and "t - T < lm_windowSeconds cfg"
  shows "spent cfg T i n (rl_prune cfg t s)"
proof -
  have ok: "jm_ok (rl_windows s)" using assms(1) by (simp add: spent_def)
  show ?thesis
    using assms jm_get_filter [OF ok, of "\<lambda>_ w. \<not> elapsed cfg t w" i]
    by (auto simp: spent_def rl_prune_def elapsed_def split: option.splits)
qed

lemma spent_check:
  assumes s: "spent cfg T i n s" and t: "t - T < lm_windowSeconds cfg" and i: "i \<in> set (rl_identifiers k)"
    and c: "rl_check cfg k (s\<lparr>rl_clock := t\<rparr>) = (Inr d, s')"
  shows "spent cfg T i (n + 1) s'" and "n \<ge> lm_maxPerWindow cfg \<Longrightarrow> \<not> rd_allowed d"
proof -
  let ?s = "rl_prune cfg t (s\<lparr>rl_clock := t\<rparr>)"
  have p: "spent cfg T i n ?s"
    by (rule spent_prune) (use s t in \<open>simp_all add: spent_def\<close>)
  obtain ds where ds: "rl_hits cfg t (rl_identifiers k) ?s = (ds, s')" "d = rl_worst ds"
    using c i by (auto simp: rl_check_def Let_def split: prod.splits if_splits)
  note H = spent_hits [OF p t ds(1)]
  show "spent cfg T i (n + 1) s'" using H i by blast
  show "n \<ge> lm_maxPerWindow cfg \<Longrightarrow> \<not> rd_allowed d"
    using H i by (auto simp: ds(2) rl_worst_allowed)
qed

definition allowed_count :: "RateLimitDecision list \<Rightarrow> nat" where
  "allowed_count ds = length (filter rd_allowed ds)"

lemma rl_check_ok: "\<exists>d s'. rl_check cfg k s = (Inr d, s')"
  by (auto simp: rl_check_def Let_def split: prod.splits)

lemma rl_run_budget:
  assumes "spent cfg T i n s" and "\<forall>(t, k)\<in>set reqs. t - T < lm_windowSeconds cfg \<and> i \<in> set (rl_identifiers k)"
  shows "int (allowed_count (rl_run cfg reqs s)) \<le> max 0 (lm_maxPerWindow cfg - n)"
  using assms
proof (induction reqs arbitrary: n s)
  case Nil
  then show ?case by (simp add: allowed_count_def)
next
  case (Cons r reqs)
  obtain t k where r: "r = (t, k)" by (cases r)
  obtain d s' where c: "rl_check cfg k (s\<lparr>rl_clock := t\<rparr>) = (Inr d, s')"
    using rl_check_ok by blast
  have tk: "t - T < lm_windowSeconds cfg" "i \<in> set (rl_identifiers k)" using Cons.prems(2) r by auto
  note S = spent_check [OF Cons.prems(1) tk c]
  have "int (allowed_count (rl_run cfg reqs s')) \<le> max 0 (lm_maxPerWindow cfg - (n + 1))"
    using Cons.IH [OF S(1)] Cons.prems(2) by simp
  moreover have "rd_allowed d \<Longrightarrow> n < lm_maxPerWindow cfg"
    using S(2) by (meson not_le)
  moreover have "rl_run cfg (r # reqs) s = d # rl_run cfg reqs s'"
    by (simp add: r c)
  ultimately show ?case
    by (cases "rd_allowed d") (simp_all add: allowed_count_def max_def split: if_splits)
qed

text \<open>The first request opens a window: it is let through, whatever the limit.\<close>

lemma rl_open_window:
  assumes ok: "jm_ok (rl_windows s)" and none: "jm_get (rl_windows s) i = None"
    and i: "i \<in> set (rl_identifiers k)" and pos: "0 < lm_windowSeconds cfg"
    and c: "rl_check cfg k (s\<lparr>rl_clock := t\<rparr>) = (Inr d, s')"
  shows "spent cfg t i 1 s'"
proof -
  have "spent cfg t i 1 s2" if "rl_hits cfg t ids s1 = (ds, s2)" "i \<in> set ids"
    "jm_ok (rl_windows s1)" "jm_get (rl_windows s1) i = None" for ids ds s1 s2
    using that
  proof (induction ids arbitrary: s1 ds)
    case (Cons j r)
    obtain e s3 where h: "rl_hit cfg t j s1 = (e, s3)" by fastforce
    obtain es where es: "rl_hits cfg t r s3 = (es, s2)"
      using Cons.prems(1) h by (auto split: prod.splits)
    show ?case
    proof (cases "j = i")
      case True
      then have "spent cfg t i 1 s3"
        using h Cons.prems(3,4) by (auto simp: rl_hit_def rl_count_def spent_def)
      then show ?thesis using spent_hits [OF _ _ es] pos by auto
    next
      case False
      then have "jm_ok (rl_windows s3)" "jm_get (rl_windows s3) i = None"
        using h Cons.prems(3,4) by (auto simp: rl_hit_def split: prod.splits)
      then show ?thesis using Cons.IH [OF es] Cons.prems(2) False by simp
    qed
  qed simp
  moreover have "jm_ok (rl_windows (rl_prune cfg t (s\<lparr>rl_clock := t\<rparr>)))"
    "jm_get (rl_windows (rl_prune cfg t (s\<lparr>rl_clock := t\<rparr>))) i = None"
    using ok none jm_get_filter [OF ok, of "\<lambda>_ w. \<not> elapsed cfg t w" i]
    by (simp_all add: rl_prune_def)
  ultimately show ?thesis
    using c i by (auto simp: rl_check_def Let_def split: prod.splits if_splits)
qed

lemma rl_window_bound:
  assumes ok: "jm_ok (rl_windows s)" and none: "jm_get (rl_windows s) i = None"
    and pos: "0 < lm_windowSeconds cfg"
    and reqs: "\<forall>(t, k)\<in>set ((T, k0) # reqs). t - T < lm_windowSeconds cfg \<and> i \<in> set (rl_identifiers k)"
  shows "int (allowed_count (rl_run cfg ((T, k0) # reqs) s)) \<le> max 1 (lm_maxPerWindow cfg)"
proof -
  obtain d s' where c: "rl_check cfg k0 (s\<lparr>rl_clock := T\<rparr>) = (Inr d, s')"
    using rl_check_ok by blast
  have "spent cfg T i 1 s'"
    by (rule rl_open_window [OF ok none _ pos c]) (use reqs in simp)
  then have "int (allowed_count (rl_run cfg reqs s')) \<le> max 0 (lm_maxPerWindow cfg - 1)"
    by (rule rl_run_budget) (use reqs in simp)
  moreover have "rl_run cfg ((T, k0) # reqs) s = d # rl_run cfg reqs s'"
    by (simp add: c)
  ultimately show ?thesis
    by (cases "rd_allowed d") (simp_all add: allowed_count_def max_def split: if_splits)
qed

end
