(* ===== verification/ServerCore.thy ===== *)
theory ServerCore
  imports Validate Metrics RateLimit
begin

text \<open>
  What the operations of nap-server's \<open>server.ts\<close> share: the options object, the world
  they run in, the rate limit check, the parsing of a completion body, the building of a
  session record, the clamp of a session's lifetime and the floor on response times. The
  world holds one state per collaborator; an operation of a collaborator changes its own
  part only.
\<close>

unbundle bit_operations_syntax

datatype 'rl rate_limiter_option = Limiter_undefined | Limiter_null | Limiter "'rl limiter"

record ('cs, 'ss, 'as, 'rl) server_options =
  op_platform :: platform
  op_challengeStore :: "'cs challenge_ops"
  op_sessionStore :: "'ss session_ops"
  op_aclResolver :: "'as resolver"
  op_log :: log_config
  op_rateLimiter :: "'rl rate_limiter_option"
  op_challengeTtlSeconds :: "int option"
  op_sessionTtlSeconds :: "int option"
  op_resultCacheTtlSeconds :: "int option"
  op_maxClockSkewSeconds :: "int option"
  op_lowerBoundGraceSeconds :: "int option"
  op_upperBoundGraceSeconds :: "int option"
  op_stepUpTtlSeconds :: "int option"
  op_refreshTtlSeconds :: "int option"
  op_maxSessionLifetimeSeconds :: "int option"
  op_supportedExtensions :: "string list option"
  op_maxOutstandingChallengesPerNpub :: "int option"
  op_maxOutstandingChallengesPerIp :: "int option"
  op_maxFailuresPerChallenge :: "int option"
  op_minAuthResponseMillis :: "int option"
  op_responseJitterMillis :: "int option"

text \<open>
  \<open>w_now\<close> is \<open>clock.nowUnix()\<close>, \<open>w_millis\<close> is \<open>Date.now()\<close>, \<open>w_latency\<close> the
  time the work of the next request takes, \<open>w_random\<close> the random bytes to come and
  \<open>w_drawn\<close> how many have been taken.
\<close>

record ('cs, 'ss, 'as, 'rl) world =
  w_challenges :: 'cs
  w_sessions :: 'ss
  w_acl :: 'as
  w_limiter :: 'rl
  w_default_limiter :: mem_limiter
  w_log :: audit_log
  w_random :: "nat \<Rightarrow> byte"
  w_drawn :: nat
  w_now :: int
  w_millis :: int
  w_latency :: int

type_synonym ('cs, 'ss, 'as, 'rl, 'a) act = "(('cs, 'ss, 'as, 'rl) world, 'a) io"

definition on_challenges :: "('cs, 'a) io \<Rightarrow> ('cs, 'ss, 'as, 'rl, 'a) act" where
  "on_challenges = io_on w_challenges w_challenges_update"

definition on_sess :: "('ss, 'a) io \<Rightarrow> ('cs, 'ss, 'as, 'rl, 'a) act" where
  "on_sess = io_on w_sessions w_sessions_update"

definition on_resolver :: "('as, 'a) io \<Rightarrow> ('cs, 'ss, 'as, 'rl, 'a) act" where
  "on_resolver = io_on w_acl w_acl_update"

definition on_log :: "(audit_log, 'a) io \<Rightarrow> ('cs, 'ss, 'as, 'rl, 'a) act" where
  "on_log = io_on w_log w_log_update"

section \<open>Random tokens\<close>

definition randomBytes :: "nat \<Rightarrow> ('cs, 'ss, 'as, 'rl, byte list) act" where
  "randomBytes n w =
     (Inr (map (w_random w) [w_drawn w..<w_drawn w + n]), w\<lparr>w_drawn := w_drawn w + n\<rparr>)"

definition randomToken :: "nat \<Rightarrow> ('cs, 'ss, 'as, 'rl, string) act" where
  "randomToken n = io_bind (randomBytes n) (\<lambda>bs. io_ret (encodeBase64UrlBytes bs))"

section \<open>Audit and metrics\<close>

definition audit :: "('cs, 'ss, 'as, 'rl) server_options \<Rightarrow> audit_event \<Rightarrow> ('cs, 'ss, 'as, 'rl, unit) act" where
  "audit opts ev = on_log (withMetrics_log (op_log opts) ev)"

definition count_total ::
  "('cs, 'ss, 'as, 'rl) server_options \<Rightarrow> NapCounter \<Rightarrow> ('cs, 'ss, 'as, 'rl, unit) act" where
  "count_total opts c = on_log (countTotal (op_log opts) c)"

definition simple_event :: "string \<Rightarrow> outcome \<Rightarrow> (string \<times> json) list option \<Rightarrow> audit_event" where
  "simple_event code oc details =
     \<lparr>ae_code = code, ae_challenge_id = None, ae_npub = None, ae_pubkey = None,
      ae_outcome = oc, ae_details = details\<rparr>"

definition logFailure ::
  "('cs, 'ss, 'as, 'rl) server_options \<Rightarrow> NapErrorCode \<Rightarrow> (string \<times> json) list option
     \<Rightarrow> ('cs, 'ss, 'as, 'rl, unit) act" where
  "logFailure opts code details = audit opts (simple_event (code_str code) Outcome_failure details)"

definition logSuccess ::
  "('cs, 'ss, 'as, 'rl) server_options \<Rightarrow> (string \<times> json) list option \<Rightarrow> ('cs, 'ss, 'as, 'rl, unit) act" where
  "logSuccess opts details = audit opts (simple_event NAP_COMPLETE_SUCCESS Outcome_success details)"

section \<open>Rate limits\<close>

text \<open>
  \<open>resolveRateLimiter\<close> and \<open>checkRateLimit\<close>: \<open>null\<close> switches the limiter off,
  \<open>undefined\<close> means the default in-memory limiter of this options object.
  \<open>Inl\<close> is a refusal with its \<open>retryAfterSeconds\<close>.
\<close>

definition resolveRateLimiter ::
  "('cs, 'ss, 'as, 'rl) server_options \<Rightarrow> (RateLimitKey \<Rightarrow> ('cs, 'ss, 'as, 'rl, RateLimitDecision) act) option" where
  "resolveRateLimiter opts =
     (case op_rateLimiter opts of
        Limiter_null \<Rightarrow> None
      | Limiter check \<Rightarrow> Some (\<lambda>key. io_on w_limiter w_limiter_update (check key))
      | Limiter_undefined \<Rightarrow>
          Some (\<lambda>key. io_on w_default_limiter w_default_limiter_update
                        (rl_check default_limiter_config key)))"

definition checkRateLimit ::
  "('cs, 'ss, 'as, 'rl) server_options \<Rightarrow> RateLimitKey \<Rightarrow> ('cs, 'ss, 'as, 'rl, int option + unit) act" where
  "checkRateLimit opts key =
     (case resolveRateLimiter opts of
        None \<Rightarrow> io_ret (Inr ())
      | Some check \<Rightarrow>
          io_bind (check key) (\<lambda>d.
            io_ret (if rd_allowed d then Inr () else Inl (rd_retryAfterSeconds d))))"

definition MAX_NPUB_KEY_LENGTH :: nat where
  "MAX_NPUB_KEY_LENGTH = 128"

definition boundedNpub :: "string \<Rightarrow> string option" where
  "boundedNpub npub = (if js_length npub \<le> MAX_NPUB_KEY_LENGTH then Some npub else None)"

definition rate_limited_failure :: "NapErrorCode \<Rightarrow> int option \<Rightarrow> VerifyCompleteFailure" where
  "rate_limited_failure code retryAfter =
     \<lparr>vf_code = code, vf_retryable = isRetryableNapError code, vf_retryAfterSeconds = retryAfter\<rparr>"

lemma rate_limited_failure_code [simp]: "vf_code (rate_limited_failure c r) = c"
  by (simp add: rate_limited_failure_def)

section \<open>Principals and lifetimes\<close>

definition decodeNpub :: "platform \<Rightarrow> string \<Rightarrow> string option" where
  "decodeNpub pf npub =
     (case pf_nip19_decode pf npub of
        None \<Rightarrow> None
      | Some (ty, data) \<Rightarrow> if ty \<noteq> ''npub'' then None else as_string (Some data))"

definition MAX_CHALLENGE_TTL_SECONDS :: int where
  "MAX_CHALLENGE_TTL_SECONDS = 60"

text \<open>\<open>None\<close>: a configuration error, thrown.\<close>

definition resolveChallengeTtl :: "('cs, 'ss, 'as, 'rl) server_options \<Rightarrow> int option" where
  "resolveChallengeTtl opts =
     (let ttl = or_else (op_challengeTtlSeconds opts) 60
      in if ttl \<le> 0 \<or> ttl > MAX_CHALLENGE_TTL_SECONDS then None else Some ttl)"

definition clampTtlToDecision :: "int \<Rightarrow> js_num option \<Rightarrow> int \<Rightarrow> int" where
  "clampTtlToDecision configured decisionExpiresAt now =
     (case decisionExpiresAt of
        Some (Fin x) \<Rightarrow>
          (let remaining = \<lfloor>x\<rfloor> - now
           in if remaining \<ge> configured then configured else max 1 remaining)
      | _ \<Rightarrow> configured)"

definition constantTimeEquals :: "string \<Rightarrow> string \<Rightarrow> bool" where
  "constantTimeEquals a b =
     (let left = utf8_encode a; right = utf8_encode b;
          d0 = (word_of_nat (length left) :: 32 word) XOR word_of_nat (length right);
          byte_at = (\<lambda>bs i. if i < length bs then ucast (bs ! i) else (0 :: 32 word))
      in foldl (\<lambda>d i. d OR (byte_at left i XOR byte_at right i)) d0 [0..<length left] = 0)"

definition createSessionRecord ::
  "ChallengeRecord \<Rightarrow> int \<Rightarrow> int \<Rightarrow> string list \<Rightarrow> string list \<Rightarrow> int option \<Rightarrow> int option
     \<Rightarrow> ('cs, 'ss, 'as, 'rl, SessionRecord) act" where
  "createSessionRecord challenge now sessionTtl roles permissions stepUpTtl refreshTtl =
     io_bind (randomToken 24) (\<lambda>sid.
     io_bind (randomToken 32) (\<lambda>token.
     io_bind (case stepUpTtl of None \<Rightarrow> io_ret None
              | Some t \<Rightarrow> io_bind (randomToken 32) (\<lambda>x. io_ret (Some (x, now + t)))) (\<lambda>stepUp.
     io_bind (if truthy_num refreshTtl
              then io_bind (randomToken 32) (\<lambda>x. io_ret (Some (x, now + the refreshTtl)))
              else io_ret None) (\<lambda>refresh.
       io_ret \<lparr>s_session_id = sid, s_challenge_id = ch_challenge_id challenge,
               s_access_token = token, s_principal_npub = ch_npub challenge,
               s_principal_pubkey = ch_pubkey challenge, s_roles = roles,
               s_permissions = permissions, s_issued_at = now, s_expires_at = now + sessionTtl,
               s_step_up_token = map_option fst stepUp, s_step_up_expires_at = map_option snd stepUp,
               s_refresh_token = map_option fst refresh, s_refresh_expires_at = map_option snd refresh,
               s_previous_refresh_token = None, s_revoked_at = None\<rparr>))))"

section \<open>The floor on response times\<close>

definition padAuthResponse ::
  "int \<Rightarrow> ('cs, 'ss, 'as, 'rl) server_options \<Rightarrow> ('cs, 'ss, 'as, 'rl, unit) act" where
  "padAuthResponse startedAtMillis opts =
     (let floor = or_else (op_minAuthResponseMillis opts) 100;
          jitterRange = or_else (op_responseJitterMillis opts) 25
      in if floor \<le> 0 \<and> jitterRange \<le> 0 then io_ret ()
         else
           io_bind (if jitterRange > 0
                    then io_bind (randomBytes 1) (\<lambda>bs. io_ret (int (unat (hd bs)) mod (jitterRange + 1)))
                    else io_ret 0) (\<lambda>jitter.
           io_bind (io_get w_millis) (\<lambda>millis.
             let remaining = floor + jitter - (millis - startedAtMillis)
             in if remaining > 0 then io_modify (w_millis_update (\<lambda>m. m + remaining)) else io_ret ())))"

text \<open>
  An operation with its floor: the clock is read, the work takes \<open>w_latency\<close>, and unless
  the outcome is a rate limit refusal the answer is held back.
\<close>

definition padded ::
  "('cs, 'ss, 'as, 'rl) server_options \<Rightarrow> ('a \<Rightarrow> bool) \<Rightarrow> ('cs, 'ss, 'as, 'rl, 'a) act
     \<Rightarrow> ('cs, 'ss, 'as, 'rl, 'a) act" where
  "padded opts rateLimited m =
     io_bind (io_get w_millis) (\<lambda>startedAt.
       io_finally (io_finally m (\<lambda>_. io_modify (\<lambda>w. w\<lparr>w_millis := w_millis w + w_latency w\<rparr>)))
         (\<lambda>result.
            if (case result of None \<Rightarrow> False | Some r \<Rightarrow> rateLimited r) then io_ret ()
            else padAuthResponse startedAt opts))"

section \<open>The completion body\<close>

definition nonempty_string :: "json option \<Rightarrow> string option" where
  "nonempty_string v = (case as_string v of Some s \<Rightarrow> if s = [] then None else Some s | None \<Rightarrow> None)"

definition parseVoucherCredential :: "json option \<Rightarrow> VoucherCredential option" where
  "parseVoucherCredential value =
     (if \<not> is_object value then None
      else
        let candidate = the value; dleq = member candidate ''dleq''
        in case (nonempty_string (member candidate ''mint_url''),
                 nonempty_string (member candidate ''keyset_id''),
                 nonempty_string (member candidate ''secret''),
                 nonempty_string (member candidate ''signature'')) of
             (Some mint, Some keyset, Some secret, Some signature) \<Rightarrow>
               (case as_number (member candidate ''amount'') of
                  None \<Rightarrow> None
                | Some amount \<Rightarrow>
                    if amount \<noteq> of_int \<lfloor>amount\<rfloor> \<or> amount \<le> 0 then None
                    else if \<not> is_object dleq then None
                    else (case (nonempty_string (member (the dleq) ''e''),
                                nonempty_string (member (the dleq) ''s''),
                                nonempty_string (member (the dleq) ''r'')) of
                            (Some e, Some s, Some r) \<Rightarrow>
                              if member candidate ''witness'' \<noteq> None
                                 \<and> as_string (member candidate ''witness'') = None then None
                              else Some \<lparr>v_mint_url = mint, v_keyset_id = keyset, v_secret = secret,
                                         v_signature = signature, v_amount = \<lfloor>amount\<rfloor>,
                                         v_dleq_e = e, v_dleq_s = s, v_dleq_r = r,
                                         v_witness = as_string (member candidate ''witness'')\<rparr>
                          | _ \<Rightarrow> None))
           | _ \<Rightarrow> None)"

definition request_of_json :: "json \<Rightarrow> AuthCompleteRequest option" where
  "request_of_json parsed =
     (case nonempty_string (member parsed ''challenge_id'') of
        None \<Rightarrow> None
      | Some cid \<Rightarrow>
          if (case member parsed ''step_up'' of None \<Rightarrow> False | Some (JBool _) \<Rightarrow> False | _ \<Rightarrow> True) then None
          else let voucher = parseVoucherCredential (member parsed ''voucher'')
               in if member parsed ''voucher'' \<noteq> None \<and> voucher = None then None
                  else Some \<lparr>rq_challenge_id = cid,
                             rq_step_up = (member parsed ''step_up'' = Some (JBool True)),
                             rq_voucher = voucher\<rparr>)"

definition parseAuthCompleteRequest :: "byte list \<Rightarrow> AuthCompleteRequest option" where
  "parseAuthCompleteRequest rawBody =
     (case json_parse (utf8_decode rawBody) of
        None \<Rightarrow> None
      | Some parsed \<Rightarrow> request_of_json parsed)"

section \<open>Facts about the helpers\<close>

lemma xor_zero_iff: "(a :: 32 word) XOR b = 0 \<longleftrightarrow> a = b"
  by (metis xor.assoc xor.left_neutral xor.right_neutral xor_self_eq)

lemma byte_word_inj: "(ucast (x :: byte) :: 32 word) = ucast y \<longleftrightarrow> x = y"
  by transfer simp

lemma constantTimeEquals_fold:
  fixes f :: "nat \<Rightarrow> 32 word"
  shows "foldl (\<lambda>d i. d OR f i) d is = 0 \<longleftrightarrow> d = 0 \<and> (\<forall>i\<in>set is. f i = 0)"
proof (induction "is" arbitrary: d)
  case (Cons i r)
  have "d OR f i = 0 \<longleftrightarrow> d = 0 \<and> f i = 0" by (rule or_eq_0_iff)
  then show ?case using Cons by auto
qed simp

lemma constantTimeEquals_iff:
  assumes "length a < 2 ^ 32" and "length b < 2 ^ 32"
  shows "constantTimeEquals a b \<longleftrightarrow> a = b"
proof -
  have len: "word_of_nat (length a) XOR word_of_nat (length b) = (0 :: 32 word)
      \<longleftrightarrow> length a = length b"
  proof -
    have "word_of_nat (length a) XOR word_of_nat (length b) = (0 :: 32 word)
        \<longleftrightarrow> (word_of_nat (length a) :: 32 word) = word_of_nat (length b)"
      by (simp add: xor_zero_iff)
    also have "\<dots> \<longleftrightarrow> length a = length b"
      using assms by (simp add: word_of_nat_eq_iff take_bit_nat_eq_self)
    finally show ?thesis .
  qed
  define ba where "ba s i = (if i < length (utf8_encode s) then ucast (utf8_encode s ! i) else (0 :: 32 word))"
    for s i
  have eq: "constantTimeEquals a b \<longleftrightarrow> length a = length b \<and> (\<forall>i<length a. ba a i XOR ba b i = 0)"
    unfolding constantTimeEquals_def Let_def ba_def [symmetric] constantTimeEquals_fold
      length_utf8_encode len
    by (auto simp: ba_def)
  show ?thesis
  proof (cases "length a = length b")
    case True
    then have "ba a i XOR ba b i = 0 \<longleftrightarrow> a ! i = b ! i" if "i < length a" for i
      using that by (simp add: ba_def xor_zero_iff byte_word_inj utf8_encode_def)
    then show ?thesis using True eq by (simp add: list_eq_iff_nth_eq)
  qed (use eq in auto)
qed

text \<open>The clamp: at least a second, never more than configured, never past the bound.\<close>

lemma clamp_bounds:
  assumes "1 \<le> configured"
  shows "1 \<le> clampTtlToDecision configured d now" and "clampTtlToDecision configured d now \<le> configured"
  using assms by (auto simp: clampTtlToDecision_def Let_def split: option.splits js_num.splits)

lemma clamp_bound:
  assumes "of_int (now + 1) \<le> x"
  shows "of_int (now + clampTtlToDecision configured (Some (Fin x)) now) \<le> x"
proof -
  have "now + 1 \<le> \<lfloor>x\<rfloor>" using assms by (simp add: le_floor_iff)
  then have "now + clampTtlToDecision configured (Some (Fin x)) now \<le> \<lfloor>x\<rfloor>"
    by (auto simp: clampTtlToDecision_def Let_def)
  then show ?thesis by (simp add: le_floor_iff)
qed

lemma resolveChallengeTtl_bounds:
  "resolveChallengeTtl opts = Some ttl \<Longrightarrow> 1 \<le> ttl \<and> ttl \<le> 60"
  by (auto simp: resolveChallengeTtl_def MAX_CHALLENGE_TTL_SECONDS_def Let_def split: if_splits)

subsection \<open>Frames\<close>

text \<open>
  An action on one part of the world leaves the others alone. \<open>stores w\<close> collects the
  parts whose changes the theorems follow.
\<close>

lemma on_challenges_eq:
  "on_challenges m w = (x, w') \<longleftrightarrow>
     (\<exists>s'. m (w_challenges w) = (x, s') \<and> w' = w\<lparr>w_challenges := s'\<rparr>)"
  by (auto simp: on_challenges_def io_on_def split: prod.splits)

lemma on_sess_eq:
  "on_sess m w = (x, w') \<longleftrightarrow> (\<exists>s'. m (w_sessions w) = (x, s') \<and> w' = w\<lparr>w_sessions := s'\<rparr>)"
  by (auto simp: on_sess_def io_on_def split: prod.splits)

lemma on_resolver_eq:
  "on_resolver m w = (x, w') \<longleftrightarrow> (\<exists>s'. m (w_acl w) = (x, s') \<and> w' = w\<lparr>w_acl := s'\<rparr>)"
  by (auto simp: on_resolver_def io_on_def split: prod.splits)

lemma on_log_eq:
  "on_log m w = (x, w') \<longleftrightarrow> (\<exists>s'. m (w_log w) = (x, s') \<and> w' = w\<lparr>w_log := s'\<rparr>)"
  by (auto simp: on_log_def io_on_def split: prod.splits)

text \<open>The action leaves the two stores, the resolver's state, and the clock as they are.\<close>

definition quiet :: "('cs, 'ss, 'as, 'rl, 'a) act \<Rightarrow> bool" where
  "quiet m \<longleftrightarrow>
     (\<forall>w x w'. m w = (x, w') \<longrightarrow>
        w_challenges w' = w_challenges w \<and> w_sessions w' = w_sessions w \<and> w_acl w' = w_acl w
        \<and> w_now w' = w_now w)"

named_theorems quiet_rules

lemma quietD:
  "\<lbrakk>quiet m; m w = (x, w')\<rbrakk> \<Longrightarrow>
     w_challenges w' = w_challenges w \<and> w_sessions w' = w_sessions w \<and> w_acl w' = w_acl w
     \<and> w_now w' = w_now w"
  unfolding quiet_def by blast

lemma quiet_ret [quiet_rules]: "quiet (io_ret x)"
  by (simp add: quiet_def)

lemma quiet_throw [quiet_rules]: "quiet (io_throw e)"
  by (simp add: quiet_def)

lemma quiet_get [quiet_rules]: "quiet (io_get f)"
  by (simp add: quiet_def)

lemma quiet_bind [quiet_rules]: "quiet m \<Longrightarrow> (\<And>x. quiet (f x)) \<Longrightarrow> quiet (io_bind m f)"
  unfolding quiet_def io_bind_def by (fastforce split: prod.splits sum.splits)

lemma quiet_if [quiet_rules]: "quiet a \<Longrightarrow> quiet b \<Longrightarrow> quiet (if c then a else b)"
  by simp

lemma quiet_option [quiet_rules]:
  "quiet a \<Longrightarrow> (\<And>y. quiet (b y)) \<Longrightarrow> quiet (case x of None \<Rightarrow> a | Some y \<Rightarrow> b y)"
  by (cases x) simp_all

lemma quiet_log [quiet_rules]: "quiet (on_log m)"
  by (auto simp: quiet_def on_log_eq)

lemma quiet_audit [quiet_rules]: "quiet (audit opts ev)"
  unfolding audit_def by (rule quiet_log)

lemma quiet_logFailure [quiet_rules]: "quiet (logFailure opts c d)"
  unfolding logFailure_def by (rule quiet_audit)

lemma quiet_logSuccess [quiet_rules]: "quiet (logSuccess opts d)"
  unfolding logSuccess_def by (rule quiet_audit)

lemma quiet_count [quiet_rules]: "quiet (count_total opts c)"
  unfolding count_total_def by (rule quiet_log)

lemma quiet_random [quiet_rules]: "quiet (randomBytes n)"
  by (auto simp: quiet_def randomBytes_def)

lemma quiet_token [quiet_rules]: "quiet (randomToken n)"
  unfolding randomToken_def by (intro quiet_rules)

lemma quiet_on_limiter [quiet_rules]: "quiet (io_on w_limiter w_limiter_update m)"
  by (auto simp: quiet_def io_on_def split: prod.splits)

lemma quiet_on_default [quiet_rules]: "quiet (io_on w_default_limiter w_default_limiter_update m)"
  by (auto simp: quiet_def io_on_def split: prod.splits)

lemma quiet_limit [quiet_rules]: "quiet (checkRateLimit opts key)"
  by (auto simp: checkRateLimit_def resolveRateLimiter_def intro!: quiet_rules
      split: rate_limiter_option.splits)

lemma quiet_createSession [quiet_rules]: "quiet (createSessionRecord c now ttl rs ps su rf)"
  unfolding createSessionRecord_def by (intro quiet_rules)

lemma quiet_pad [quiet_rules]: "quiet (padAuthResponse t opts)"
proof -
  have m: "quiet (io_modify (w_millis_update f))" for f by (simp add: quiet_def)
  show ?thesis
    unfolding padAuthResponse_def Let_def by (intro quiet_rules m)
qed

text \<open>What a built session record says.\<close>

lemma createSessionRecord_value:
  assumes "createSessionRecord c now ttl rs ps su rf w = (Inr r, w')"
  shows "s_challenge_id r = ch_challenge_id c \<and> s_principal_npub r = ch_npub c
    \<and> s_principal_pubkey r = ch_pubkey c \<and> s_roles r = rs \<and> s_permissions r = ps
    \<and> s_issued_at r = now \<and> s_expires_at r = now + ttl \<and> fresh_session r
    \<and> (s_step_up_token r = None \<longleftrightarrow> su = None)
    \<and> s_step_up_expires_at r = map_option (\<lambda>t. now + t) su
    \<and> (s_refresh_token r = None \<longleftrightarrow> \<not> truthy_num rf)
    \<and> s_refresh_expires_at r = (if truthy_num rf then Some (now + the rf) else None)"
  using assms
  by (auto simp: createSessionRecord_def io_bind_Inr fresh_session_def split: option.splits if_splits)

lemma createSessionRecord_total: "\<exists>r w'. createSessionRecord c now ttl rs ps su rf w = (Inr r, w')"
  by (cases su) (auto simp: createSessionRecord_def randomToken_def randomBytes_def io_bind_def)

subsection \<open>The floor\<close>

text \<open>
  The time an answer takes: the work, or the floor and its jitter when that is longer. The
  jitter is one random byte, and does not depend on the outcome.
\<close>

definition response_floor :: "('cs, 'ss, 'as, 'rl) server_options \<Rightarrow> byte \<Rightarrow> int" where
  "response_floor opts b =
     or_else (op_minAuthResponseMillis opts) 100
     + (if or_else (op_responseJitterMillis opts) 25 > 0
        then int (unat b) mod (or_else (op_responseJitterMillis opts) 25 + 1) else 0)"

definition times_kept :: "('cs, 'ss, 'as, 'rl, 'a) act \<Rightarrow> bool" where
  "times_kept m \<longleftrightarrow>
     (\<forall>w x w'. m w = (x, w') \<longrightarrow>
        w_millis w' = w_millis w \<and> w_latency w' = w_latency w \<and> w_random w' = w_random w)"

lemma pad_millis:
  assumes "or_else (op_minAuthResponseMillis opts) 100 > 0"
  shows "padAuthResponse t opts w
    = (Inr (), w\<lparr>w_drawn := (if or_else (op_responseJitterMillis opts) 25 > 0 then w_drawn w + 1
                             else w_drawn w),
                 w_millis := max (w_millis w) (t + response_floor opts (w_random w (w_drawn w)))\<rparr>)"
  using assms
  by (simp add: padAuthResponse_def response_floor_def Let_def io_bind_def randomBytes_def max_def)

end
