(* ===== verification/MemoryChallenges.thy ===== *)
theory MemoryChallenges
  imports ServerTypes
begin

text \<open>
  \<open>InMemoryChallengeStore\<close> of nap-server's \<open>memory.ts\<close>, with the interpretation of the
  challenge store contract. The store's own clock is the field \<open>mc_clock\<close>: it need not
  agree with the instant the server passes to an operation.
\<close>

record mem_challenges =
  mc_records :: "(string, ChallengeRecord) jsmap"
  mc_lastSweptAt :: "int option"
  mc_clock :: int

definition mc_new :: "int \<Rightarrow> mem_challenges" where
  "mc_new clock = \<lparr>mc_records = [], mc_lastSweptAt = None, mc_clock = clock\<rparr>"

section \<open>Operations\<close>

definition mc_retainUntil :: "ChallengeRecord \<Rightarrow> int" where
  "mc_retainUntil r = or_else (ch_result_cache_until r) (ch_expires_at r)"

text \<open>\<open>sweep\<close>, at most once per tick of the clock.\<close>

definition swept_already :: "int option \<Rightarrow> int \<Rightarrow> bool" where
  "swept_already lastSwept now = (case lastSwept of None \<Rightarrow> False | Some t \<Rightarrow> now \<le> t)"

definition mc_sweep :: "int \<Rightarrow> mem_challenges \<Rightarrow> mem_challenges" where
  "mc_sweep now s =
     (if swept_already (mc_lastSweptAt s) now then s
      else s\<lparr>mc_lastSweptAt := Some now,
             mc_records := filter (\<lambda>e. \<not> mc_retainUntil (snd e) < now) (mc_records s)\<rparr>)"

definition mc_put :: "string \<Rightarrow> ChallengeRecord \<Rightarrow> mem_challenges \<Rightarrow> mem_challenges" where
  "mc_put k r s = s\<lparr>mc_records := jm_set k r (mc_records s)\<rparr>"

definition mc_create :: "ChallengeRecord \<Rightarrow> (mem_challenges, unit) io" where
  "mc_create r s = (Inr (), mc_put (ch_challenge_id r) r (mc_sweep (mc_clock s) s))"

definition mc_get :: "string \<Rightarrow> (mem_challenges, ChallengeRecord option) io" where
  "mc_get k s = (Inr (jm_get (mc_records s) k), s)"

definition mc_redeem :: "string \<Rightarrow> RedeemParams \<Rightarrow> (mem_challenges, RedeemStatus) io" where
  "mc_redeem k p s =
     (case jm_get (mc_records s) k of
        None \<Rightarrow> (Inr Not_found, s)
      | Some r \<Rightarrow>
          if ch_expires_at r < rp_now p \<or> ch_state r = expired
          then (Inr Redeem_expired, mc_put k (r\<lparr>ch_state := expired\<rparr>) s)
          else if ch_state r = issued
          then (Inr Redeemed,
                mc_put k (r\<lparr>ch_state := redeemed,
                            ch_redeemed_event_id := Some (rp_eventId p),
                            ch_redeemed_session_id := Some (rp_sessionId p),
                            ch_result_cache_until := Some (rp_resultCacheUntil p)\<rparr>) s)
          else (Inr Already_redeemed, s))"

definition due :: "int \<Rightarrow> ChallengeRecord \<Rightarrow> bool" where
  "due now r \<longleftrightarrow> ch_state r = issued \<and> ch_expires_at r < now"

definition mc_markExpired :: "int \<Rightarrow> (mem_challenges, nat) io" where
  "mc_markExpired now s =
     (Inr (length (filter (\<lambda>e. due now (snd e)) (mc_records s))),
      s\<lparr>mc_records :=
          jm_map (\<lambda>r. if due now r then r\<lparr>ch_state := expired\<rparr> else r) (mc_records s)\<rparr>)"

text \<open>The two \<open>continue\<close>s of \<open>countOutstanding\<close>, and the increment they skip.\<close>

definition counts :: "OutstandingChallengeFilter \<Rightarrow> ChallengeRecord \<Rightarrow> bool" where
  "counts f r =
     (if ch_state r \<noteq> issued \<or> ch_expires_at r < of_now f then False
      else if of_npub f \<noteq> None \<and> of_npub f \<noteq> Some (ch_npub r) then False
      else if of_clientIp f \<noteq> None \<and> ch_client_ip r \<noteq> of_clientIp f then False
      else True)"

definition mc_countOutstanding :: "OutstandingChallengeFilter \<Rightarrow> (mem_challenges, nat) io" where
  "mc_countOutstanding f s = (Inr (length (filter (\<lambda>e. counts f (snd e)) (mc_records s))), s)"

definition mc_recordFailure ::
  "string \<Rightarrow> int \<Rightarrow> int \<Rightarrow> (mem_challenges, (int \<times> ChallengeState) option) io" where
  "mc_recordFailure k now maxFailures s =
     (case jm_get (mc_records s) k of
        None \<Rightarrow> (Inr None, s)
      | Some r \<Rightarrow>
          if ch_state r \<noteq> issued then (Inr None, s)
          else let fc = or_else (ch_failure_count r) 0 + 1;
                   st = (if fc \<ge> maxFailures then failed_terminal else ch_state r)
               in (Inr (Some (fc, st)),
                   mc_put k (r\<lparr>ch_failure_count := Some fc, ch_state := st\<rparr>) s))"

definition mc_ops :: "mem_challenges challenge_ops" where
  "mc_ops =
     \<lparr>co_create = mc_create, co_get = mc_get, co_redeem = mc_redeem,
      co_markExpired = mc_markExpired, co_countOutstanding = Some mc_countOutstanding,
      co_recordFailure = Some mc_recordFailure\<rparr>"

section \<open>The contract\<close>

definition mc_look :: "mem_challenges \<Rightarrow> string \<Rightarrow> ChallengeRecord option" where
  "mc_look s = jm_get (mc_records s)"

definition mc_inv :: "mem_challenges \<Rightarrow> bool" where
  "mc_inv s \<longleftrightarrow> jm_ok (mc_records s) \<and> (\<forall>k r. mc_look s k = Some r \<longrightarrow> ch_challenge_id r = k)"

lemma mc_inv_new: "mc_inv (mc_new t)"
  by (simp add: mc_inv_def mc_new_def mc_look_def)

lemma mc_look_put: "mc_look (mc_put k r s) j = (if j = k then Some r else mc_look s j)"
  by (simp add: mc_look_def mc_put_def jm_get_set)

lemma mc_inv_put: "\<lbrakk>mc_inv s; ch_challenge_id r = k\<rbrakk> \<Longrightarrow> mc_inv (mc_put k r s)"
  by (simp add: mc_inv_def mc_look_put) (simp add: mc_put_def)

lemma mc_look_sweep:
  "jm_ok (mc_records s) \<Longrightarrow>
   mc_look (mc_sweep now s) k =
     (case mc_look s k of
        None \<Rightarrow> None
      | Some r \<Rightarrow>
          if \<not> swept_already (mc_lastSweptAt s) now \<and> mc_retainUntil r < now then None else Some r)"
  using jm_get_filter [of "mc_records s" "\<lambda>_ r. \<not> mc_retainUntil r < now" k]
  by (auto simp: mc_look_def mc_sweep_def split: option.splits)

lemma mc_inv_sweep: "mc_inv s \<Longrightarrow> mc_inv (mc_sweep now s)"
proof -
  assume i: "mc_inv s"
  then have "jm_ok (mc_records (mc_sweep now s))"
    by (simp add: mc_inv_def mc_sweep_def)
  then show ?thesis
    using i by (auto simp: mc_inv_def mc_look_sweep split: option.splits if_splits)
qed

lemma mc_look_markExpired:
  "mc_look (snd (mc_markExpired now s)) k =
     map_option (\<lambda>r. if due now r then r\<lparr>ch_state := expired\<rparr> else r) (mc_look s k)"
  by (simp add: mc_look_def mc_markExpired_def jm_get_map)

lemma counts_outstanding: "counts f r = outstanding f r"
  by (auto simp: counts_def outstanding_def)

text \<open>Counting the entries of a map counts the keys.\<close>

lemma count_entries:
  assumes "jm_ok m"
  shows "length (filter (\<lambda>e. P (snd e)) m) = card {k. \<exists>r. jm_get m k = Some r \<and> P r}"
proof -
  have "{k. \<exists>r. jm_get m k = Some r \<and> P r} = fst ` set (filter (\<lambda>e. P (snd e)) m)"
    using jm_get_iff [OF assms] by force
  moreover have "card (fst ` set (filter (\<lambda>e. P (snd e)) m)) = length (filter (\<lambda>e. P (snd e)) m)"
    using assms by (metis distinct_card distinct_map_filter image_set jm_ok_def length_map)
  ultimately show ?thesis by simp
qed

lemmas mc_defs = mc_ops_def mc_create_def mc_get_def mc_redeem_def mc_countOutstanding_def
  mc_recordFailure_def

lemma mc_redeem_cases:
  assumes "mc_redeem k p s = (x, s')"
  obtains "mc_look s k = None" "x = Inr Not_found" "s' = s"
  | r where "mc_look s k = Some r" "ch_expires_at r < rp_now p \<or> ch_state r = expired"
      "x = Inr Redeem_expired" "s' = mc_put k (r\<lparr>ch_state := expired\<rparr>) s"
  | r where "mc_look s k = Some r" "\<not> ch_expires_at r < rp_now p" "ch_state r = issued"
      "x = Inr Redeemed" "s' = mc_put k (redeemed_record r p) s"
  | r where "mc_look s k = Some r" "\<not> ch_expires_at r < rp_now p" "ch_state r \<noteq> expired"
      "ch_state r \<noteq> issued" "x = Inr Already_redeemed" "s' = s"
  using assms
  by (auto simp: mc_redeem_def mc_look_def redeemed_record_def split: option.splits if_splits)

lemma mc_recordFailure_cases:
  assumes "mc_recordFailure k n m s = (x, s')"
  obtains "x = Inr None" "s' = s"
  | r where "mc_look s k = Some r" "ch_state r = issued"
      "x = Inr (Some (the (ch_failure_count (failed_record r m)), ch_state (failed_record r m)))"
      "s' = mc_put k (failed_record r m) s"
  using assms
  by (auto simp: mc_recordFailure_def mc_look_def failed_record_def Let_def
      split: option.splits if_splits)

interpretation mc: eager_challenge_store mc_ops mc_look mc_inv
proof unfold_locales
  fix s :: mem_challenges and k c
  show "mc_inv s \<Longrightarrow> mc_look s k = Some c \<Longrightarrow> ch_challenge_id c = k"
    by (simp add: mc_inv_def)
next
  fix s s' :: mem_challenges and r x
  assume i: "mc_inv s" and c: "co_create mc_ops r s = (x, s')"
  have s': "s' = mc_put (ch_challenge_id r) r (mc_sweep (mc_clock s) s)"
    using c by (simp add: mc_ops_def mc_create_def)
  show "mc_inv s'"
    unfolding s' by (intro mc_inv_put mc_inv_sweep i refl)
  show "k \<noteq> ch_challenge_id r \<Longrightarrow> mc_look s' k = mc_look s k \<or> mc_look s' k = None" for k
    using i by (auto simp: s' mc_look_put mc_look_sweep mc_inv_def split: option.splits)
next
  fix s s' :: mem_challenges and r u
  assume f: "fresh_challenge r" and c: "co_create mc_ops r s = (Inr u, s')"
  then have "mc_look s' (ch_challenge_id r) = Some (r\<lparr>ch_failure_count := None\<rparr>)"
    by (auto simp: mc_ops_def mc_create_def mc_look_put fresh_challenge_def)
  then show "\<exists>n. or_else n 0 = 0 \<and> mc_look s' (ch_challenge_id r) = Some (r\<lparr>ch_failure_count := n\<rparr>)"
    by (intro exI [of _ None]) simp
next
  fix s s' :: mem_challenges and k p x
  assume i: "mc_inv s" and r: "co_redeem mc_ops k p s = (x, s')"
  have r: "mc_redeem k p s = (x, s')" using r by (simp add: mc_ops_def)
  show "mc_inv s' \<and> (\<forall>j. j \<noteq> k \<longrightarrow> mc_look s' j = mc_look s j)"
    using r by (cases rule: mc_redeem_cases)
      (use i in \<open>auto simp: mc_look_put redeemed_record_def mc_inv_def [of s] intro!: mc_inv_put\<close>)
  show "x \<noteq> Inr Redeemed \<Longrightarrow> mc_look s' k = mc_look s k \<or> (\<exists>c. mc_look s k = Some c
      \<and> lifecycle c (c\<lparr>ch_state := expired\<rparr>) \<and> mc_look s' k = Some (c\<lparr>ch_state := expired\<rparr>))"
    using r by (cases rule: mc_redeem_cases)
      (auto simp: mc_look_put intro: lifecycle.intros)
next
  fix s s' :: mem_challenges and k p
  show "co_redeem mc_ops k p s = (Inr Redeemed, s') \<Longrightarrow>
      \<exists>c. mc_look s k = Some c \<and> ch_state c = issued \<and> \<not> ch_expires_at c < rp_now p
        \<and> mc_look s' k = Some (redeemed_record c p)"
    unfolding mc_ops_def by (auto simp: mc_look_put elim: mc_redeem_cases)
  show "co_redeem mc_ops k p s = (Inr Not_found, s') \<Longrightarrow> mc_look s k = None"
    unfolding mc_ops_def by (auto elim: mc_redeem_cases)
  show "co_redeem mc_ops k p s = (Inr Redeem_expired, s') \<Longrightarrow>
      \<exists>c. mc_look s k = Some c \<and> (ch_expires_at c < rp_now p \<or> ch_state c = expired)"
    unfolding mc_ops_def by (auto elim: mc_redeem_cases)
  show "co_redeem mc_ops k p s = (Inr Already_redeemed, s') \<Longrightarrow>
      \<exists>c. mc_look s k = Some c \<and> \<not> ch_expires_at c < rp_now p \<and> ch_state c \<noteq> expired
        \<and> (ch_state c = issued \<longrightarrow> ch_expires_at c = rp_now p) \<and> mc_look s' k = Some c"
    unfolding mc_ops_def by (auto elim: mc_redeem_cases)
next
  fix s s' :: mem_challenges and n x
  assume i: "mc_inv s" and m: "co_markExpired mc_ops n s = (x, s')"
  have s': "s' = snd (mc_markExpired n s)" using m by (simp add: mc_ops_def)
  have ok: "jm_ok (mc_records s')" using i by (simp add: s' mc_markExpired_def mc_inv_def)
  have look: "mc_look s' k = mc_look s k \<or> (\<exists>c. mc_look s k = Some c
      \<and> lifecycle c (c\<lparr>ch_state := expired\<rparr>) \<and> mc_look s' k = Some (c\<lparr>ch_state := expired\<rparr>))"
    for k
    by (cases "mc_look s k") (auto simp: s' mc_look_markExpired due_def intro: lifecycle.expire)
  have "mc_inv s'"
    using ok i by (auto simp: mc_inv_def s' mc_look_markExpired)
  with look show "mc_inv s' \<and> (\<forall>k. mc_look s' k = mc_look s k \<or> (\<exists>c. mc_look s k = Some c
      \<and> lifecycle c (c\<lparr>ch_state := expired\<rparr>) \<and> mc_look s' k = Some (c\<lparr>ch_state := expired\<rparr>)))"
    by blast
next
  fix s s' :: mem_challenges and cnt flt x n
  assume i: "mc_inv s" and o: "co_countOutstanding mc_ops = Some cnt"
  show "cnt flt s = (x, s') \<Longrightarrow> mc_inv s' \<and> mc_look s' = mc_look s"
    using i o by (auto simp: mc_ops_def mc_countOutstanding_def)
  show "cnt flt s = (Inr n, s') \<Longrightarrow> n = card {k. \<exists>c. mc_look s k = Some c \<and> outstanding flt c}"
    using i o count_entries [of "mc_records s" "outstanding flt"]
    by (auto simp: mc_ops_def mc_countOutstanding_def mc_inv_def mc_look_def counts_outstanding)
next
  fix s s' :: mem_challenges and rf k t m x
  assume i: "mc_inv s" and o: "co_recordFailure mc_ops = Some rf" and c: "rf k t m s = (x, s')"
  have c: "mc_recordFailure k t m s = (x, s')" using o c by (simp add: mc_ops_def)
  show "mc_inv s' \<and> (\<forall>j. j \<noteq> k \<longrightarrow> mc_look s' j = mc_look s j)"
    using c by (cases rule: mc_recordFailure_cases)
      (use i in \<open>auto simp: mc_look_put failed_record_def Let_def mc_inv_def [of s] intro!: mc_inv_put\<close>)
  show "\<forall>fr. x \<noteq> Inr (Some fr) \<Longrightarrow> mc_look s' k = mc_look s k"
    using c by (cases rule: mc_recordFailure_cases) auto
next
  fix s s' :: mem_challenges and rf k t m fc st
  assume o: "co_recordFailure mc_ops = Some rf" and c: "rf k t m s = (Inr (Some (fc, st)), s')"
  have "mc_recordFailure k t m s = (Inr (Some (fc, st)), s')" using o c by (simp add: mc_ops_def)
  then show "\<exists>c. mc_look s k = Some c \<and> ch_state c = issued \<and> mc_look s' k = Some (failed_record c m)
      \<and> ch_failure_count (failed_record c m) = Some fc \<and> ch_state (failed_record c m) = st"
    by (cases rule: mc_recordFailure_cases) (auto simp: mc_look_put failed_record_def Let_def)
next
  fix s :: mem_challenges and k p c
  show "mc_look s k = Some c \<Longrightarrow> ch_state c = issued \<Longrightarrow> \<not> ch_expires_at c < rp_now p \<Longrightarrow>
      \<exists>s'. co_redeem mc_ops k p s = (Inr Redeemed, s')"
    by (simp add: mc_ops_def mc_redeem_def mc_look_def)
qed (auto simp: mc_ops_def mc_create_def mc_get_def mc_look_def)

section \<open>Eviction\<close>

text \<open>
  The sweep drops exactly the records nothing can ask about: a record inside its lifetime,
  or inside its result cache once redeemed, survives a \<open>create\<close>.
\<close>

lemma mc_create_retains:
  assumes i: "mc_inv s" and r: "mc_look s k = Some r" and k: "k \<noteq> ch_challenge_id new"
    and live: "mc_clock s \<le> mc_retainUntil r"
  shows "mc_look (snd (mc_create new s)) k = Some r"
  using assms by (simp add: mc_create_def mc_look_put mc_look_sweep mc_inv_def)

lemma mc_create_evicts:
  assumes i: "mc_inv s" and r: "mc_look s k = Some r" and k: "k \<noteq> ch_challenge_id new"
    and dead: "mc_retainUntil r < mc_clock s"
    and tick: "\<not> swept_already (mc_lastSweptAt s) (mc_clock s)"
  shows "mc_look (snd (mc_create new s)) k = None"
  using assms by (simp add: mc_create_def mc_look_put mc_look_sweep mc_inv_def)

end
