(* ===== verification/ServerIssue.thy ===== *)
theory ServerIssue
  imports ServerCore MemoryChallenges
begin

text \<open>
  \<open>issueChallenge\<close> of nap-server's \<open>server.ts\<close>: the rate limit, the caps on outstanding
  challenges and the creation of the record. The theorems say when nothing is written, what
  is written otherwise, and that the caps bound what a store holds.
\<close>

record IssueChallengeInput =
  ii_npub :: string
  ii_authUrl :: string
  ii_authMethod :: "string option"
  ii_clientIp :: "string option"

section \<open>The caps\<close>

datatype exceeded_cap = Cap_npub | Cap_ip

primrec cap_str :: "exceeded_cap \<Rightarrow> string" where
  "cap_str Cap_npub = ''npub''"
| "cap_str Cap_ip = ''ip''"

definition truthy_part :: "string option \<Rightarrow> string option" where
  "truthy_part x = (if truthy_str x then x else None)"

definition findExceededOutstandingCap ::
  "('cs, 'ss, 'as, 'rl) server_options \<Rightarrow> string \<Rightarrow> string option \<Rightarrow> int
     \<Rightarrow> ('cs, 'ss, 'as, 'rl, exceeded_cap option) act" where
  "findExceededOutstandingCap opts npub clientIp now =
     (case co_countOutstanding (op_challengeStore opts) of
        None \<Rightarrow> io_ret None
      | Some countOutstanding \<Rightarrow>
          let perNpub = or_else (op_maxOutstandingChallengesPerNpub opts) 10;
              perIp = or_else (op_maxOutstandingChallengesPerIp opts) 30;
              countsIp = truthy_str clientIp \<and> perIp > 0
          in io_bind (if perNpub > 0
                      then on_challenges (countOutstanding
                             \<lparr>of_npub = Some npub, of_clientIp = truthy_part clientIp, of_now = now\<rparr>)
                      else io_ret 0) (\<lambda>npubCount.
             io_bind (if countsIp
                      then on_challenges (countOutstanding
                             \<lparr>of_npub = None, of_clientIp = clientIp, of_now = now\<rparr>)
                      else io_ret 0) (\<lambda>ipCount.
               io_ret (if perNpub > 0 \<and> int npubCount \<ge> perNpub then Some Cap_npub
                       else if countsIp \<and> int ipCount \<ge> perIp then Some Cap_ip
                       else None))))"

section \<open>The handler\<close>

definition new_challenge ::
  "IssueChallengeInput \<Rightarrow> string \<Rightarrow> string \<Rightarrow> string \<Rightarrow> int \<Rightarrow> int \<Rightarrow> ChallengeRecord" where
  "new_challenge input challenge_id challenge pubkey now ttl =
     \<lparr>ch_challenge_id = challenge_id, ch_challenge = challenge, ch_npub = ii_npub input,
      ch_pubkey = pubkey, ch_auth_url = ii_authUrl input,
      ch_auth_method = or_else (ii_authMethod input) ''POST'', ch_issued_at = now,
      ch_expires_at = now + ttl, ch_state = issued, ch_redeemed_event_id = None,
      ch_redeemed_session_id = None, ch_result_cache_until = None,
      ch_client_ip = truthy_part (ii_clientIp input), ch_failure_count = None\<rparr>"

definition init_response ::
  "('cs, 'ss, 'as, 'rl) server_options \<Rightarrow> ChallengeRecord \<Rightarrow> AuthInitResponse" where
  "init_response opts r =
     \<lparr>ir_challenge_id = ch_challenge_id r, ir_challenge = ch_challenge r,
      ir_auth_url = ch_auth_url r, ir_auth_method = ch_auth_method r,
      ir_issued_at = ch_issued_at r, ir_expires_at = ch_expires_at r,
      ir_supported_extensions =
        (if op_supportedExtensions opts = Some [] then None else op_supportedExtensions opts)\<rparr>"

text \<open>The record and its storing: the end of the handler.\<close>

definition store_challenge ::
  "IssueChallengeInput \<Rightarrow> ('cs, 'ss, 'as, 'rl) server_options \<Rightarrow> string \<Rightarrow> int \<Rightarrow> int
     \<Rightarrow> ('cs, 'ss, 'as, 'rl, VerifyCompleteFailure + AuthInitResponse) act" where
  "store_challenge input opts pubkey now ttl =
     io_bind (randomToken 12) (\<lambda>challenge_id.
     io_bind (randomToken 32) (\<lambda>challenge.
       let r = new_challenge input challenge_id challenge pubkey now ttl
       in io_catch
            (io_bind (on_challenges (co_create (op_challengeStore opts) r))
               (\<lambda>_. io_ret (Inr (init_response opts r))))
            (io_bind (logFailure opts NAP_INIT_INTERNAL (Some [(''npub'', JStr (ii_npub input))]))
               (\<lambda>_. io_ret (Inl (failure NAP_INIT_INTERNAL))))))"

definition issueChallengeUnpadded ::
  "IssueChallengeInput \<Rightarrow> ('cs, 'ss, 'as, 'rl) server_options
     \<Rightarrow> ('cs, 'ss, 'as, 'rl, VerifyCompleteFailure + AuthInitResponse) act" where
  "issueChallengeUnpadded input opts =
     (case resolveChallengeTtl opts of
        None \<Rightarrow> io_throw ''challengeTtlSeconds''
      | Some ttl \<Rightarrow>
     io_bind (count_total opts auth_init_total) (\<lambda>_.
     io_bind (checkRateLimit opts
                \<lparr>rk_scope = scope_init, rk_npub = boundedNpub (ii_npub input), rk_pubkey = None,
                 rk_clientIp = ii_clientIp input\<rparr>) (\<lambda>rateLimit.
     (case rateLimit of
        Inl retryAfter \<Rightarrow>
          io_bind (audit opts (simple_event (code_str NAP_INIT_RATE_LIMITED) Outcome_rate_limited
                     (Some [(''npub'', JStr (ii_npub input))]))) (\<lambda>_.
            io_ret (Inl (rate_limited_failure NAP_INIT_RATE_LIMITED retryAfter)))
      | Inr _ \<Rightarrow>
     (case decodeNpub (op_platform opts) (ii_npub input) of
        None \<Rightarrow>
          io_bind (logFailure opts NAP_INIT_INVALID_NPUB (Some [(''npub'', JStr (ii_npub input))]))
            (\<lambda>_. io_ret (Inl (failure NAP_INIT_INVALID_NPUB)))
      | Some pubkey \<Rightarrow>
     if pubkey = []
     then io_bind (logFailure opts NAP_INIT_INVALID_NPUB (Some [(''npub'', JStr (ii_npub input))]))
            (\<lambda>_. io_ret (Inl (failure NAP_INIT_INVALID_NPUB)))
     else
     io_bind (io_get w_now) (\<lambda>now.
     io_bind (findExceededOutstandingCap opts (ii_npub input) (ii_clientIp input) now) (\<lambda>exceeded.
     (case exceeded of
        Some cap \<Rightarrow>
          io_bind (audit opts (simple_event (code_str NAP_INIT_RATE_LIMITED) Outcome_rate_limited
                     (Some [(''npub'', JStr (ii_npub input)), (''cap'', JStr (cap_str cap))]))) (\<lambda>_.
            io_ret (Inl (rate_limited_failure NAP_INIT_RATE_LIMITED (Some ttl))))
      | None \<Rightarrow> store_challenge input opts pubkey now ttl))))))))"

definition issue_rate_limited :: "VerifyCompleteFailure + AuthInitResponse \<Rightarrow> bool" where
  "issue_rate_limited r = (case r of Inl f \<Rightarrow> vf_code f = NAP_INIT_RATE_LIMITED | Inr _ \<Rightarrow> False)"

definition issueChallenge ::
  "IssueChallengeInput \<Rightarrow> ('cs, 'ss, 'as, 'rl) server_options
     \<Rightarrow> ('cs, 'ss, 'as, 'rl, VerifyCompleteFailure + AuthInitResponse) act" where
  "issueChallenge input opts = padded opts issue_rate_limited (issueChallengeUnpadded input opts)"

section \<open>What is written\<close>

lemma new_challenge_fresh: "fresh_challenge (new_challenge i c x p now ttl)"
  by (simp add: fresh_challenge_def new_challenge_def redemption_def)

context challenge_store
begin

text \<open>Reading the challenge store: the records stay, and so do the sessions and the clock.\<close>

definition reads :: "('cs, 'ss, 'as, 'rl, 'a) act \<Rightarrow> bool" where
  "reads m \<longleftrightarrow>
     (\<forall>w x w'. inv (w_challenges w) \<longrightarrow> m w = (x, w') \<longrightarrow>
        inv (w_challenges w') \<and> look (w_challenges w') = look (w_challenges w)
        \<and> w_sessions w' = w_sessions w \<and> w_now w' = w_now w)"

lemma reads_quiet: "quiet m \<Longrightarrow> reads m"
  by (auto simp: reads_def dest: quietD)

lemma readsD:
  "\<lbrakk>reads m; inv (w_challenges w); m w = (x, w')\<rbrakk> \<Longrightarrow>
     inv (w_challenges w') \<and> look (w_challenges w') = look (w_challenges w)
     \<and> w_sessions w' = w_sessions w \<and> w_now w' = w_now w"
  unfolding reads_def by blast

lemma reads_bind:
  assumes m: "reads m" and f: "\<And>x. reads (f x)"
  shows "reads (io_bind m f)"
  unfolding reads_def
proof (intro allI impI)
  fix w x w' assume i: "inv (w_challenges w)" and b: "io_bind m f w = (x, w')"
  obtain y v where y: "m w = (y, v)" by fastforce
  note v = readsD [OF m i y]
  show "inv (w_challenges w') \<and> look (w_challenges w') = look (w_challenges w)
      \<and> w_sessions w' = w_sessions w \<and> w_now w' = w_now w"
  proof (cases y)
    case (Inl e)
    then show ?thesis using b y v by (simp add: io_bind_def)
  next
    case (Inr a)
    then have "f a v = (x, w')" using b y by (simp add: io_bind_def)
    then show ?thesis using readsD [OF f] v by metis
  qed
qed

lemma reads_count: "co_countOutstanding ops = Some cnt \<Longrightarrow> reads (on_challenges (cnt f))"
  using count_frame by (fastforce simp: reads_def on_challenges_eq)

lemma reads_get: "reads (on_challenges (co_get ops k))"
  using get_frame by (fastforce simp: reads_def on_challenges_eq)

lemma reads_cap:
  assumes "op_challengeStore opts = ops"
  shows "reads (findExceededOutstandingCap opts npub ip now)"
proof (cases "co_countOutstanding ops")
  case None
  then show ?thesis
    by (simp add: findExceededOutstandingCap_def assms reads_quiet quiet_rules)
next
  case (Some cnt)
  then have rd: "reads (if b then on_challenges (cnt f) else io_ret 0)" for b f
    by (simp add: reads_count reads_quiet quiet_rules)
  show ?thesis
    unfolding findExceededOutstandingCap_def assms Some option.case Let_def
    by (intro reads_bind rd) (rule reads_quiet, rule quiet_rules)
qed

lemma cap_value:
  assumes ops: "op_challengeStore opts = ops" and i: "inv (w_challenges w)"
    and cnt: "co_countOutstanding ops = Some cnt"
    and r: "findExceededOutstandingCap opts npub ip now w = (Inr None, w')"
    and pos: "or_else (op_maxOutstandingChallengesPerNpub opts) 10 > 0"
  shows "int (card {k. \<exists>c. look (w_challenges w) k = Some c
           \<and> outstanding \<lparr>of_npub = Some npub, of_clientIp = truthy_part ip, of_now = now\<rparr> c})
         < or_else (op_maxOutstandingChallengesPerNpub opts) 10"
proof -
  obtain n s where n: "cnt \<lparr>of_npub = Some npub, of_clientIp = truthy_part ip, of_now = now\<rparr>
      (w_challenges w) = (Inr n, s)" "int n < or_else (op_maxOutstandingChallengesPerNpub opts) 10"
    using r pos
    by (auto simp: findExceededOutstandingCap_def ops cnt Let_def io_bind_Inr on_challenges_eq
        split: if_splits)
  show ?thesis using n(2) count_value [OF i cnt n(1)] by simp
qed

text \<open>
  What \<open>issueChallenge\<close> does to the challenge store: nothing, or one \<open>create\<close> of a record
  for the decoded principal. It succeeds only in the second case.
\<close>

definition created ::
  "IssueChallengeInput \<Rightarrow> ('cs, 'ss, 'as, 'rl) server_options \<Rightarrow> ('cs, 'ss, 'as, 'rl) world
     \<Rightarrow> ChallengeRecord \<Rightarrow> bool" where
  "created input opts w r \<longleftrightarrow>
     (\<exists>cid ch pk ttl. resolveChallengeTtl opts = Some ttl
        \<and> decodeNpub (op_platform opts) (ii_npub input) = Some pk \<and> pk \<noteq> []
        \<and> r = new_challenge input cid ch pk (w_now w) ttl)"

definition issue_step ::
  "IssueChallengeInput \<Rightarrow> ('cs, 'ss, 'as, 'rl) server_options \<Rightarrow> ('cs, 'ss, 'as, 'rl) world
     \<Rightarrow> exn + VerifyCompleteFailure + AuthInitResponse \<Rightarrow> ('cs, 'ss, 'as, 'rl) world \<Rightarrow> bool" where
  "issue_step input opts w x w' \<longleftrightarrow>
     w_sessions w' = w_sessions w \<and> w_now w' = w_now w \<and> inv (w_challenges w')
     \<and> (look (w_challenges w') = look (w_challenges w) \<and> (\<forall>z. x \<noteq> Inr (Inr z))
        \<or> (\<exists>r s y. created input opts w r \<and> look s = look (w_challenges w) \<and> inv s
             \<and> co_create ops r s = (y, w_challenges w')
             \<and> (\<forall>z. x = Inr (Inr z) \<longrightarrow> y = Inr () \<and> z = init_response opts r)))"

definition issue_ok ::
  "IssueChallengeInput \<Rightarrow> ('cs, 'ss, 'as, 'rl) server_options \<Rightarrow> int
     \<Rightarrow> ('cs, 'ss, 'as, 'rl, VerifyCompleteFailure + AuthInitResponse) act \<Rightarrow> bool" where
  "issue_ok input opts now m \<longleftrightarrow>
     (\<forall>w x w'. inv (w_challenges w) \<longrightarrow> w_now w = now \<longrightarrow> m w = (x, w') \<longrightarrow>
        issue_step input opts w x w')"

lemma issue_step_later:
  "\<lbrakk>issue_step input opts v x w'; look (w_challenges v) = look (w_challenges w);
    w_sessions v = w_sessions w; w_now v = w_now w\<rbrakk> \<Longrightarrow> issue_step input opts w x w'"
  unfolding issue_step_def created_def by simp

lemma issue_ok_bind:
  assumes m: "reads m" and f: "\<And>x. issue_ok input opts now (f x)"
  shows "issue_ok input opts now (io_bind m f)"
  unfolding issue_ok_def
proof (intro allI impI)
  fix w x w' assume i: "inv (w_challenges w)" and n: "w_now w = now" and b: "io_bind m f w = (x, w')"
  obtain y v where y: "m w = (y, v)" by fastforce
  then have v: "inv (w_challenges v)" "look (w_challenges v) = look (w_challenges w)"
    "w_sessions v = w_sessions w" "w_now v = w_now w"
    using readsD [OF m i y] by blast+
  show "issue_step input opts w x w'"
  proof (cases y)
    case (Inl e)
    then have "x = Inl e" "w' = v" using b y by (simp_all add: io_bind_def)
    then show ?thesis using v by (simp add: issue_step_def)
  next
    case (Inr a)
    then have "f a v = (x, w')" using b y by (simp add: io_bind_def)
    moreover have "w_now v = now" using v(4) n by simp
    ultimately have "issue_step input opts v x w'"
      using f [of a] v(1) unfolding issue_ok_def by blast
    then show ?thesis by (rule issue_step_later) (use v in blast)+
  qed
qed

lemma issue_ok_now: "issue_ok input opts now (f now) \<Longrightarrow> issue_ok input opts now (io_bind (io_get w_now) f)"
  by (auto simp: issue_ok_def io_bind_def)

lemma issue_ok_ret: "issue_ok input opts now (io_ret (Inl e))"
  by (auto simp: issue_ok_def issue_step_def)

lemma issue_ok_throw: "issue_ok input opts now (io_throw e)"
  by (auto simp: issue_ok_def issue_step_def)

lemma issue_ok_failing: "quiet m \<Longrightarrow> issue_ok input opts now (io_bind m (\<lambda>_. io_ret (Inl e)))"
  by (intro issue_ok_bind reads_quiet issue_ok_ret)

lemma issue_ok_store:
  assumes ops: "op_challengeStore opts = ops" and ttl: "resolveChallengeTtl opts = Some ttl"
    and pk: "decodeNpub (op_platform opts) (ii_npub input) = Some pk" "pk \<noteq> []"
  shows "issue_ok input opts now (store_challenge input opts pk now ttl)"
  unfolding store_challenge_def ops Let_def
proof (intro issue_ok_bind reads_quiet quiet_rules)
  fix cid ch
  let ?r = "new_challenge input cid ch pk now ttl"
  show "issue_ok input opts now (io_catch
      (io_bind (on_challenges (co_create ops ?r)) (\<lambda>_. io_ret (Inr (init_response opts ?r))))
      (io_bind (logFailure opts NAP_INIT_INTERNAL (Some [(''npub'', JStr (ii_npub input))]))
         (\<lambda>_. io_ret (Inl (failure NAP_INIT_INTERNAL)))))"
    unfolding issue_ok_def
  proof (intro allI impI)
    fix w x w'
    assume i: "inv (w_challenges w)" and n: "w_now w = now"
      and c: "io_catch
      (io_bind (on_challenges (co_create ops ?r)) (\<lambda>_. io_ret (Inr (init_response opts ?r))))
      (io_bind (logFailure opts NAP_INIT_INTERNAL (Some [(''npub'', JStr (ii_npub input))]))
         (\<lambda>_. io_ret (Inl (failure NAP_INIT_INTERNAL)))) w = (x, w')"
    have cr: "created input opts w ?r" using ttl pk n by (auto simp: created_def)
    obtain y s where y: "co_create ops ?r (w_challenges w) = (y, s)" by fastforce
    have iw: "inv s" by (rule create_inv [OF i y])
    show "issue_step input opts w x w'"
    proof (cases y)
      case (Inr u)
      then have "x = Inr (Inr (init_response opts ?r)) \<and> w' = w\<lparr>w_challenges := s\<rparr>"
        using c y by (simp add: io_catch_def io_bind_def on_challenges_def io_on_def)
      moreover have "co_create ops ?r (w_challenges w) = (Inr (), s)" using y Inr by simp
      ultimately show ?thesis
        unfolding issue_step_def using cr i iw by (auto intro!: exI [of _ ?r])
    next
      case (Inl e)
      let ?v = "w\<lparr>w_challenges := s\<rparr>"
      have lf: "io_bind (logFailure opts NAP_INIT_INTERNAL (Some [(''npub'', JStr (ii_npub input))]))
          (\<lambda>_. io_ret (Inl (failure NAP_INIT_INTERNAL))) ?v = (x, w')"
        using c y Inl by (simp add: io_catch_def io_bind_def on_challenges_def io_on_def)
      have q: "quiet (io_bind (logFailure opts NAP_INIT_INTERNAL (Some [(''npub'', JStr (ii_npub input))]))
          (\<lambda>_. io_ret (Inl (failure NAP_INIT_INTERNAL) :: VerifyCompleteFailure + AuthInitResponse)))"
        by (intro quiet_rules)
      have w': "w_challenges w' = s" "w_sessions w' = w_sessions w" "w_now w' = w_now w"
        using quietD [OF q lf] by simp_all
      have "\<forall>z. x \<noteq> Inr (Inr z)"
        using lf by (auto simp: io_bind_def split: prod.splits sum.splits)
      then show ?thesis
        unfolding issue_step_def using cr y i iw w' by blast
    qed
  qed
qed

lemma issue_ok_unpadded:
  assumes ops: "op_challengeStore opts = ops"
  shows "issue_ok input opts now (issueChallengeUnpadded input opts)"
  unfolding issueChallengeUnpadded_def
  by (auto split: option.split sum.split intro!: issue_ok_throw issue_ok_bind issue_ok_now
      issue_ok_failing issue_ok_store [OF ops] reads_cap [OF ops] reads_quiet quiet_rules)

end

end
