(* ===== verification/ServerComplete.thy ===== *)
theory ServerComplete
  imports ServerIssue
begin

text \<open>
  \<open>verifyCompletion\<close> of nap-server's \<open>server.ts\<close>: from a signed completion to a session.
  The handler is cut where the source changes subject: the request (parsing, rate limits,
  NIP-98 proof), the challenge (state, principal, binding), the session (creation,
  redemption) and the answer to a challenge that was already redeemed.
\<close>

record VerifyCompletionInput =
  vn_authorization :: "string option"
  vn_method :: string
  vn_url :: string
  vn_rawBody :: "byte list"
  vn_clientIp :: "string option"

datatype VerifyCompletionOutcome =
    Verify_ok SessionRecord
  | Verify_failed VerifyCompleteFailure
  | Verify_malformed

definition isMalformedRequestFailure :: "VerifyCompletionOutcome \<Rightarrow> bool" where
  "isMalformedRequestFailure v = (case v of Verify_malformed \<Rightarrow> True | _ \<Rightarrow> False)"

definition isVerifyFailure :: "VerifyCompletionOutcome \<Rightarrow> bool" where
  "isVerifyFailure v = (case v of Verify_failed _ \<Rightarrow> True | _ \<Rightarrow> False)"

definition isVerifySuccess :: "VerifyCompletionOutcome \<Rightarrow> bool" where
  "isVerifySuccess v = (case v of Verify_ok _ \<Rightarrow> True | _ \<Rightarrow> False)"

section \<open>Failures\<close>

text \<open>The log entry of a failure, and the failure.\<close>

definition refuse ::
  "('cs, 'ss, 'as, 'rl) server_options \<Rightarrow> VerifyCompleteFailure \<Rightarrow> (string \<times> json) list option
     \<Rightarrow> ('cs, 'ss, 'as, 'rl, VerifyCompletionOutcome) act" where
  "refuse opts f details =
     io_bind (logFailure opts (vf_code f) details) (\<lambda>_. io_ret (Verify_failed f))"

definition recordChallengeFailure ::
  "('cs, 'ss, 'as, 'rl) server_options \<Rightarrow> string \<Rightarrow> int \<Rightarrow> ('cs, 'ss, 'as, 'rl, unit) act" where
  "recordChallengeFailure opts challengeId now =
     (case co_recordFailure (op_challengeStore opts) of
        None \<Rightarrow> io_ret ()
      | Some recordFailure \<Rightarrow>
          let maxFailures = or_else (op_maxFailuresPerChallenge opts) 5
          in if maxFailures \<le> 0 then io_ret ()
             else io_bind (on_challenges (recordFailure challengeId now maxFailures)) (\<lambda>result.
                    case result of
                      Some (failure_count, failed_terminal) \<Rightarrow>
                        logFailure opts NAP_COMPLETE_FAILED_TERMINAL
                          (Some [(''challenge_id'', JStr challengeId),
                                 (''failure_count'', JNum (of_int failure_count))])
                    | _ \<Rightarrow> io_ret ()))"

definition challenge_details :: "string \<Rightarrow> (string \<times> json) list option" where
  "challenge_details k = Some [(''challenge_id'', JStr k)]"

section \<open>The session\<close>

text \<open>A challenge that was redeemed before: the same event inside the cache window again.\<close>

definition retry_hit :: "ChallengeRecord option \<Rightarrow> Nip98Event \<Rightarrow> int \<Rightarrow> string option" where
  "retry_hit redeemedChallenge event now =
     (case redeemedChallenge of
        None \<Rightarrow> None
      | Some c \<Rightarrow>
          if ch_redeemed_event_id c = Some (ev_id event)
             \<and> truthy_str (ch_redeemed_session_id c)
             \<and> (\<not> truthy_num (ch_result_cache_until c) \<or> the (ch_result_cache_until c) \<ge> now)
          then ch_redeemed_session_id c else None)"

definition answer_redeemed ::
  "('cs, 'ss, 'as, 'rl) server_options \<Rightarrow> ChallengeRecord \<Rightarrow> Nip98Event \<Rightarrow> int
     \<Rightarrow> ('cs, 'ss, 'as, 'rl, VerifyCompletionOutcome) act" where
  "answer_redeemed opts challenge event now =
     io_bind (on_challenges (co_get (op_challengeStore opts) (ch_challenge_id challenge))) (\<lambda>again.
       case retry_hit again event now of
         None \<Rightarrow> refuse opts (failure NAP_COMPLETE_REDEEMED_CHALLENGE)
                   (challenge_details (ch_challenge_id challenge))
       | Some sid \<Rightarrow>
           io_bind (on_sess (so_getBySessionId (op_sessionStore opts) sid)) (\<lambda>existing.
             case existing of
               Some s \<Rightarrow>
                 io_bind (logSuccess opts (Some [(''challenge_id'', JStr (ch_challenge_id challenge)),
                            (''session_id'', JStr (s_session_id s)), (''retry'', JBool True)]))
                   (\<lambda>_. io_ret (Verify_ok s))
             | None \<Rightarrow>
                 refuse opts (failure NAP_COMPLETE_INTERNAL)
                   (Some [(''challenge_id'', JStr (ch_challenge_id challenge)),
                          (''reason'', JStr ''redeemed_session_missing'')])))"

definition redeem_params ::
  "('cs, 'ss, 'as, 'rl) server_options \<Rightarrow> Nip98Event \<Rightarrow> SessionRecord \<Rightarrow> int \<Rightarrow> RedeemParams" where
  "redeem_params opts event session now =
     \<lparr>rp_eventId = ev_id event, rp_sessionId = s_session_id session, rp_now = now,
      rp_resultCacheUntil = now + or_else (op_resultCacheTtlSeconds opts) 30\<rparr>"

text \<open>The redemption, and what its four outcomes answer.\<close>

definition settle_challenge ::
  "('cs, 'ss, 'as, 'rl) server_options \<Rightarrow> ChallengeRecord \<Rightarrow> Nip98Event \<Rightarrow> int \<Rightarrow> SessionRecord
     \<Rightarrow> ('cs, 'ss, 'as, 'rl, VerifyCompletionOutcome) act" where
  "settle_challenge opts challenge event now session =
     io_bind (on_challenges (co_redeem (op_challengeStore opts) (ch_challenge_id challenge)
                               (redeem_params opts event session now))) (\<lambda>status.
       case status of
         Redeemed \<Rightarrow>
           io_bind (logSuccess opts (Some [(''challenge_id'', JStr (ch_challenge_id challenge)),
                      (''session_id'', JStr (s_session_id session))]))
             (\<lambda>_. io_ret (Verify_ok session))
       | Redeem_expired \<Rightarrow> refuse opts (failure NAP_COMPLETE_EXPIRED_CHALLENGE)
                             (challenge_details (ch_challenge_id challenge))
       | Not_found \<Rightarrow> refuse opts (failure NAP_COMPLETE_UNKNOWN_CHALLENGE)
                        (challenge_details (ch_challenge_id challenge))
       | Already_redeemed \<Rightarrow> answer_redeemed opts challenge event now)"

definition establish_session ::
  "('cs, 'ss, 'as, 'rl) server_options \<Rightarrow> AuthCompleteRequest \<Rightarrow> ChallengeRecord \<Rightarrow> Nip98Event \<Rightarrow> int
     \<Rightarrow> AclDecision \<Rightarrow> ('cs, 'ss, 'as, 'rl, VerifyCompletionOutcome) act" where
  "establish_session opts body challenge event now decision =
     io_bind (createSessionRecord challenge now
                (clampTtlToDecision (or_else (op_sessionTtlSeconds opts) 900) (d_expires_at decision) now)
                (d_roles decision) (d_permissions decision)
                (if rq_step_up body then Some (or_else (op_stepUpTtlSeconds opts) 600) else None)
                (op_refreshTtlSeconds opts)) (\<lambda>r.
     io_bind (on_sess (so_createForChallenge (op_sessionStore opts) r)) (\<lambda>session.
       settle_challenge opts challenge event now session))"

section \<open>The challenge\<close>

text \<open>The checks of the loaded challenge, in the order of the source.\<close>

definition match_challenge ::
  "('cs, 'ss, 'as, 'rl) server_options \<Rightarrow> AuthCompleteRequest \<Rightarrow> VerifiedNip98Completion \<Rightarrow> int
     \<Rightarrow> ChallengeRecord \<Rightarrow> ('cs, 'ss, 'as, 'rl, VerifyCompletionOutcome) act" where
  "match_challenge opts body proof now challenge =
     (let k = ch_challenge_id challenge; event = vc_event proof in
      if ch_expires_at challenge < now \<or> ch_state challenge = expired
      then refuse opts (failure NAP_COMPLETE_EXPIRED_CHALLENGE) (challenge_details k)
      else if ch_state challenge = failed_terminal
      then refuse opts (failure NAP_COMPLETE_FAILED_TERMINAL) (challenge_details k)
      else if ch_pubkey challenge \<noteq> ev_pubkey event
      then refuse opts (failure NAP_COMPLETE_PRINCIPAL_MISMATCH) (challenge_details k)
      else if ch_challenge challenge \<noteq> vc_challenge proof
      then io_bind (recordChallengeFailure opts k now) (\<lambda>_.
             refuse opts (failure NAP_COMPLETE_CHALLENGE_MISMATCH) (challenge_details k))
      else case validateChallengeBoundCreatedAt (ev_created_at event) (ch_issued_at challenge)
                  (ch_expires_at challenge) (Some (or_else (op_lowerBoundGraceSeconds opts) 30))
                  (Some (or_else (op_upperBoundGraceSeconds opts) 5)) of
        Inl f \<Rightarrow> io_bind (recordChallengeFailure opts k now) (\<lambda>_.
                   refuse opts f (challenge_details k))
      | Inr _ \<Rightarrow>
          io_bind (on_resolver (op_aclResolver opts (ch_npub challenge) (ch_pubkey challenge)
                     \<lparr>cx_voucher = rq_voucher body, cx_now = now, cx_session = None\<rparr>)) (\<lambda>decision.
            if \<not> d_allowed decision
            then refuse opts (failure NAP_COMPLETE_ACL_DENIED) (challenge_details k)
            else establish_session opts body challenge event now decision))"

definition complete_proven ::
  "('cs, 'ss, 'as, 'rl) server_options \<Rightarrow> AuthCompleteRequest \<Rightarrow> VerifiedNip98Completion \<Rightarrow> int
     \<Rightarrow> ('cs, 'ss, 'as, 'rl, VerifyCompletionOutcome) act" where
  "complete_proven opts body proof now =
     io_bind (on_challenges (co_get (op_challengeStore opts) (vc_challengeId proof))) (\<lambda>found.
       case found of
         None \<Rightarrow> refuse opts (failure NAP_COMPLETE_UNKNOWN_CHALLENGE)
                   (challenge_details (vc_challengeId proof))
       | Some challenge \<Rightarrow> match_challenge opts body proof now challenge)"

section \<open>The request\<close>

definition completion_input ::
  "VerifyCompletionInput \<Rightarrow> ('cs, 'ss, 'as, 'rl) server_options \<Rightarrow> AuthCompleteRequest \<Rightarrow> int
     \<Rightarrow> VerifyNip98CompletionInput" where
  "completion_input input opts body now =
     \<lparr>vi_authorization = vn_authorization input, vi_method = vn_method input, vi_url = vn_url input,
      vi_body = body, vi_rawBody = vn_rawBody input, vi_now = now,
      vi_maxClockSkewSeconds = Some (or_else (op_maxClockSkewSeconds opts) 60)\<rparr>"

definition complete_limited ::
  "('cs, 'ss, 'as, 'rl) server_options \<Rightarrow> AuthCompleteRequest \<Rightarrow> string option \<Rightarrow> int option
     \<Rightarrow> ('cs, 'ss, 'as, 'rl, VerifyCompletionOutcome) act" where
  "complete_limited opts body pubkey retryAfter =
     io_bind (audit opts \<lparr>ae_code = code_str NAP_COMPLETE_RATE_LIMITED, ae_challenge_id = None,
                ae_npub = None, ae_pubkey = pubkey, ae_outcome = Outcome_rate_limited,
                ae_details = challenge_details (rq_challenge_id body)\<rparr>)
       (\<lambda>_. io_ret (Verify_failed (rate_limited_failure NAP_COMPLETE_RATE_LIMITED retryAfter)))"

definition verifyCompletionUnpadded ::
  "VerifyCompletionInput \<Rightarrow> ('cs, 'ss, 'as, 'rl) server_options
     \<Rightarrow> ('cs, 'ss, 'as, 'rl, VerifyCompletionOutcome) act" where
  "verifyCompletionUnpadded input opts =
     io_bind (count_total opts auth_complete_total) (\<lambda>_.
     case parseAuthCompleteRequest (vn_rawBody input) of
       None \<Rightarrow> io_ret Verify_malformed
     | Some body \<Rightarrow>
     io_bind (checkRateLimit opts
                \<lparr>rk_scope = scope_complete, rk_npub = None, rk_pubkey = None,
                 rk_clientIp = vn_clientIp input\<rparr>) (\<lambda>rateLimit.
     case rateLimit of
       Inl retryAfter \<Rightarrow> complete_limited opts body None retryAfter
     | Inr _ \<Rightarrow>
     io_bind (io_get w_now) (\<lambda>now.
     case verifyNip98Completion (op_platform opts) (completion_input input opts body now) of
       Inl f \<Rightarrow> refuse opts f (Some [(''url'', JStr (vn_url input))])
     | Inr proof \<Rightarrow>
     io_bind (checkRateLimit opts
                \<lparr>rk_scope = scope_complete, rk_npub = None, rk_pubkey = Some (ev_pubkey (vc_event proof)),
                 rk_clientIp = None\<rparr>) (\<lambda>provenRateLimit.
     case provenRateLimit of
       Inl retryAfter \<Rightarrow> complete_limited opts body (Some (ev_pubkey (vc_event proof))) retryAfter
     | Inr _ \<Rightarrow> complete_proven opts body proof now))))"

definition complete_rate_limited :: "VerifyCompletionOutcome \<Rightarrow> bool" where
  "complete_rate_limited v =
     (case v of Verify_failed f \<Rightarrow> vf_code f = NAP_COMPLETE_RATE_LIMITED | _ \<Rightarrow> False)"

definition verifyCompletion ::
  "VerifyCompletionInput \<Rightarrow> ('cs, 'ss, 'as, 'rl) server_options
     \<Rightarrow> ('cs, 'ss, 'as, 'rl, VerifyCompletionOutcome) act" where
  "verifyCompletion input opts = padded opts complete_rate_limited (verifyCompletionUnpadded input opts)"

lemma quiet_refuse [quiet_rules]: "quiet (refuse opts f d)"
  unfolding refuse_def by (intro quiet_rules)

lemma quiet_limited [quiet_rules]: "quiet (complete_limited opts b p r)"
  unfolding complete_limited_def by (intro quiet_rules)

lemma refuse_not_ok: "refuse opts f d w = (Inr x, w') \<Longrightarrow> x = Verify_failed f"
  by (auto simp: refuse_def io_bind_Inr)

lemma limited_not_ok: "complete_limited opts b p r w \<noteq> (Inr (Verify_ok s), w')"
  by (auto simp: complete_limited_def io_bind_Inr)

end
