(* ===== verification/ClientHttp.thy ===== *)
theory ClientHttp
  imports JsonPrint HeaderFacts ServerIssue ServerComplete
begin

text \<open>
  nap-client-http: the completion a client builds for a challenge (\<open>client.ts\<close>).

  A signer is an action on a state of its own; \<open>finalizeEvent\<close> of nostr-tools is a parameter
  of \<open>createPrivateKeySigner\<close>. The members of a signed event are written in the order
  in which \<open>finalizeEvent\<close> adds them. \<open>build_verifies\<close> shows that what the client builds is
  what the server's check accepts.
\<close>

section \<open>The client\<close>

record EventTemplate =
  et_kind :: rat
  et_created_at :: rat
  et_tags :: "string list list"
  et_content :: string

type_synonym 's event_signer = "EventTemplate \<Rightarrow> ('s, Nip98Event) io"

record 's BuildAuthCompleteRequestInput =
  ba_challenge :: AuthInitResponse
  ba_signer :: "'s event_signer"
  ba_createdAt :: "rat option"
  ba_stepUp :: bool
  ba_voucher :: "VoucherCredential option"

record BuiltAuthCompleteRequest =
  br_method :: string
  br_url :: string
  br_body :: AuthCompleteRequest
  br_rawBody :: "byte list"
  br_payloadHash :: string
  br_event :: Nip98Event
  br_authorization :: string

definition voucher_json :: "VoucherCredential \<Rightarrow> json" where
  "voucher_json v =
     JObj ([(''mint_url'', JStr (v_mint_url v)), (''keyset_id'', JStr (v_keyset_id v)),
            (''secret'', JStr (v_secret v)), (''signature'', JStr (v_signature v)),
            (''amount'', JNum (of_int (v_amount v))),
            (''dleq'', JObj [(''e'', JStr (v_dleq_e v)), (''s'', JStr (v_dleq_s v)), (''r'', JStr (v_dleq_r v))])]
           @ (case v_witness v of None \<Rightarrow> [] | Some x \<Rightarrow> [(''witness'', JStr x)]))"

definition body_json :: "AuthCompleteRequest \<Rightarrow> json" where
  "body_json body =
     JObj ([(''challenge_id'', JStr (rq_challenge_id body))]
           @ (if rq_step_up body then [(''step_up'', JBool True)] else [])
           @ (case rq_voucher body of None \<Rightarrow> [] | Some v \<Rightarrow> [(''voucher'', voucher_json v)]))"

definition serializeAuthCompleteBody :: "num_text \<Rightarrow> AuthCompleteRequest \<Rightarrow> byte list" where
  "serializeAuthCompleteBody nt body = utf8_encode (json_print nt (body_json body))"

definition event_json :: "Nip98Event \<Rightarrow> json" where
  "event_json ev =
     JObj [(''kind'', JNum (ev_kind ev)), (''created_at'', JNum (ev_created_at ev)),
           (''tags'', JArr (map (\<lambda>tag. JArr (map JStr tag)) (ev_tags ev))),
           (''content'', JStr (ev_content ev)), (''pubkey'', JStr (ev_pubkey ev)),
           (''id'', JStr (ev_id ev)), (''sig'', JStr (ev_sig ev))]"

definition createPrivateKeySigner ::
  "(EventTemplate \<Rightarrow> byte list \<Rightarrow> exn + Nip98Event) \<Rightarrow> string \<Rightarrow> codec_error + 's event_signer" where
  "createPrivateKeySigner finalizeEvent privateKeyHex =
     (case hexToBytes privateKeyHex of
        Inl e \<Rightarrow> Inl e
      | Inr privateKey \<Rightarrow> Inr (\<lambda>tmpl s. (finalizeEvent tmpl privateKey, s)))"

text \<open>The template a client asks its signer to sign.\<close>

definition completion_template :: "AuthInitResponse \<Rightarrow> string \<Rightarrow> rat \<Rightarrow> EventTemplate" where
  "completion_template ch payloadHash created_at =
     \<lparr>et_kind = 27235, et_created_at = created_at,
      et_tags = [[''u'', ir_auth_url ch], [''method'', ir_auth_method ch], [''payload'', payloadHash],
                 [''challenge'', ir_challenge ch], [''challenge_id'', ir_challenge_id ch]],
      et_content = []\<rparr>"

text \<open>\<open>now\<close> is \<open>Date.now()\<close>, in milliseconds.\<close>

definition buildAuthCompleteRequest ::
  "(byte list \<Rightarrow> byte list) \<Rightarrow> num_text \<Rightarrow> int \<Rightarrow> 's BuildAuthCompleteRequestInput
     \<Rightarrow> ('s, BuiltAuthCompleteRequest) io" where
  "buildAuthCompleteRequest sha256 nt now input =
     (let ch = ba_challenge input;
          body = \<lparr>rq_challenge_id = ir_challenge_id ch, rq_step_up = ba_stepUp input, rq_voucher = ba_voucher input\<rparr>;
          rawBody = serializeAuthCompleteBody nt body;
          payloadHash = sha256Hex sha256 rawBody
      in io_bind (ba_signer input (completion_template ch payloadHash
                    (or_else (ba_createdAt input) (of_int (now div 1000))))) (\<lambda>event.
           io_ret \<lparr>br_method = ir_auth_method ch, br_url = ir_auth_url ch, br_body = body, br_rawBody = rawBody,
                   br_payloadHash = payloadHash, br_event = event,
                   br_authorization = ''Nostr '' @ encodeBase64String (json_print nt (event_json event))\<rparr>))"

section \<open>What the server reads\<close>

text \<open>Text that UTF-8 carries over unchanged.\<close>

definition unicode :: "string \<Rightarrow> bool" where
  "unicode s \<longleftrightarrow> utf8_decode (utf8_encode s) = s"

lemma unicode_ascii: "ascii s \<Longrightarrow> unicode s"
  by (simp add: unicode_def utf8_decode_encode_ascii)

text \<open>A text made of ASCII parts.\<close>

fun ascii_json :: "json \<Rightarrow> bool" where
  "ascii_json (JStr s) \<longleftrightarrow> ascii s"
| "ascii_json (JArr xs) \<longleftrightarrow> list_all ascii_json xs"
| "ascii_json (JObj ms) \<longleftrightarrow> list_all (\<lambda>m. ascii (fst m) \<and> ascii_json (snd m)) ms"
| "ascii_json _ \<longleftrightarrow> True"

lemma ascii_simps [simp]:
  "ascii []" "ascii (c # s) \<longleftrightarrow> byte_of c < 0x80 \<and> ascii s" "ascii (s @ t) \<longleftrightarrow> ascii s \<and> ascii t"
  by (simp_all add: ascii_def)

lemma ascii_hex_char: "n < 16 \<Longrightarrow> byte_of (hex_char n) < 0x80"
proof -
  have "list_all (\<lambda>c. byte_of c < 0x80) ''0123456789abcdef''" by code_simp
  then show "n < 16 \<Longrightarrow> ?thesis" using hex_char_in unfolding list_all_iff by blast
qed

lemma ascii_quote: "ascii s \<Longrightarrow> ascii (json_quote s)"
proof (unfold json_quote_def quoted_def, induction s)
  case (Cons c s)
  have k: "byte_of CHR 0x22 < 0x80" "byte_of CHR 0x5C < 0x80" "byte_of CHR ''u'' < 0x80" "byte_of CHR ''0'' < 0x80"
    "byte_of CHR ''b'' < 0x80" "byte_of CHR ''f'' < 0x80" "byte_of CHR ''n'' < 0x80" "byte_of CHR ''r'' < 0x80"
    "byte_of CHR ''t'' < 0x80" by code_simp+
  have "ascii (json_escape_char c)"
    using Cons.prems k by (auto simp: json_escape_char_def ascii_hex_char)
  then show ?case using Cons by simp
qed (simp, code_simp)

lemma ascii_digits: "list_all is_digit s \<Longrightarrow> ascii s"
proof (induction s)
  case (Cons c s)
  then have "of_char c < (128 :: nat)" by (simp add: is_digit_def)
  then have "byte_of c < 0x80" by (simp add: byte_of_def word_less_nat_alt unat_of_nat)
  then show ?case using Cons by simp
qed simp

lemma ascii_show_int: "ascii (show_int i)"
proof -
  have "byte_of CHR ''-'' < 0x80" by code_simp
  then show ?thesis using ascii_digits show_nat_digits by (simp add: show_int_def)
qed

lemma ascii_join: "ascii sep \<Longrightarrow> list_all ascii ws \<Longrightarrow> ascii (js_join sep ws)"
  by (induction sep ws rule: js_join.induct) simp_all

lemma ascii_print: "printable v \<Longrightarrow> ascii_json v \<Longrightarrow> ascii (json_print nt v)"
proof (induction v)
  case (JArr xs)
  have k: "byte_of CHR ''['' < 0x80" "byte_of CHR '']'' < 0x80" "byte_of CHR '','' < 0x80" by code_simp+
  have "list_all ascii (map (json_print nt) xs)" using JArr by (auto simp: list_all_iff)
  then show ?case using k by (simp add: ascii_join)
next
  case (JObj ms)
  have k: "byte_of CHR ''{'' < 0x80" "byte_of CHR ''}'' < 0x80" "byte_of CHR '','' < 0x80" "byte_of CHR '':'' < 0x80" by code_simp+
  have "list_all ascii (map (\<lambda>m. json_quote (fst m) @ '':'' @ json_print nt (snd m)) ms)"
    using JObj k by (fastforce simp: list_all_iff ascii_quote)
  then show ?case using k by (simp add: ascii_join)
next
  case JNull
  show ?case by simp code_simp
next
  case (JBool b)
  show ?case by (cases b; simp; code_simp)
qed (simp_all add: ascii_quote show_number_def ascii_show_int)

lemma unicode_print: "printable v \<Longrightarrow> ascii_json v \<Longrightarrow> unicode (json_print nt v)"
  by (simp add: unicode_ascii ascii_print)

text \<open>A credential the server takes: no empty member, an amount it can count.\<close>

definition presentable :: "VoucherCredential \<Rightarrow> bool" where
  "presentable v \<longleftrightarrow>
     list_all (\<lambda>s. s \<noteq> []) [v_mint_url v, v_keyset_id v, v_secret v, v_signature v, v_dleq_e v, v_dleq_s v, v_dleq_r v]
     \<and> 0 < v_amount v \<and> plain_number (of_int (v_amount v))"

lemma nonempty_JStr: "s \<noteq> [] \<Longrightarrow> nonempty_string (Some (JStr s)) = Some s"
  by (simp add: nonempty_string_def as_string_def)

lemma voucher_read: "presentable v \<Longrightarrow> parseVoucherCredential (Some (voucher_json v)) = Some v"
  by (cases "v_witness v")
    (simp_all add: presentable_def parseVoucherCredential_def voucher_json_def is_object_def member_def jm_get_def
      nonempty_JStr as_number_def as_string_def Let_def)

lemma body_read:
  assumes "rq_challenge_id body \<noteq> []" and "\<And>v. rq_voucher body = Some v \<Longrightarrow> presentable v"
  shows "request_of_json (body_json body) = Some body"
  using assms voucher_read
  by (cases "rq_step_up body"; cases "rq_voucher body")
    (simp_all add: request_of_json_def body_json_def member_def jm_get_def nonempty_JStr Let_def parseVoucherCredential_def is_object_def)

lemma body_printable:
  assumes "\<And>v. rq_voucher body = Some v \<Longrightarrow> presentable v"
  shows "printable (body_json body)"
  using assms
  by (auto simp: body_json_def voucher_json_def presentable_def split: option.split)

lemma serialize_parse:
  assumes "rq_challenge_id body \<noteq> []" and "\<And>v. rq_voucher body = Some v \<Longrightarrow> presentable v"
    and "unicode (json_print nt (body_json body))"
  shows "parseAuthCompleteRequest (serializeAuthCompleteBody nt body) = Some body"
  using assms(3) body_read [OF assms(1,2)] json_parse_print [OF body_printable [OF assms(2)]]
  by (simp add: parseAuthCompleteRequest_def serializeAuthCompleteBody_def unicode_def)

lemma those_map: "(\<And>x. x \<in> set xs \<Longrightarrow> f x = Some (g x)) \<Longrightarrow> those (map f xs) = Some (map g xs)"
  by (induction xs) simp_all

lemma event_read: "event_of_json (event_json ev) = Some ev"
proof -
  have "string_array (JArr (map JStr tag)) = Some tag" for tag
    using those_map [of tag "\<lambda>x. as_string (Some (JStr x))" "\<lambda>x. x"]
    by (simp add: string_array_def as_string_def comp_def)
  then have "isStringArrayArray (Some (JArr (map (\<lambda>tag. JArr (map JStr tag)) (ev_tags ev)))) = Some (ev_tags ev)"
    using those_map [of "ev_tags ev" "\<lambda>tag. string_array (JArr (map JStr tag))" "\<lambda>x. x"]
    by (simp add: isStringArrayArray_def comp_def)
  then show ?thesis
    by (simp add: event_of_json_def event_json_def member_def jm_get_def as_string_def as_number_def)
qed

lemma event_printable:
  "plain_number (ev_kind ev) \<Longrightarrow> plain_number (ev_created_at ev) \<Longrightarrow> printable (event_json ev)"
  by (simp add: event_json_def list_all_iff)

lemma header_read:
  assumes "unicode text" and "text \<noteq> []"
  shows "parseNostrAuthorizationHeader (Some (''Nostr '' @ encodeBase64String text)) =
    (case json_parse text of None \<Rightarrow> None | Some v \<Rightarrow> event_of_json v)"
proof -
  have "utf8_encode text \<noteq> []" using assms(2) by (simp add: utf8_encode_def)
  then have "encodeBase64String text \<noteq> []" by (simp add: encodeBase64String_def)
  moreover have "js_trim (encodeBase64String text) = encodeBase64String text"
    by (simp add: encodeBase64String_def js_trim_base64)
  moreover have "decodeBase64String (encodeBase64String text) = Inr text"
    using assms(1) by (simp add: decodeBase64String_def encodeBase64String_def decodeBase64Bytes_encode unicode_def)
  ultimately show ?thesis
    by (simp add: parseNostrAuthorizationHeader_def starts_with_def)
qed

section \<open>What the client builds verifies\<close>

text \<open>The event says what the template asked for.\<close>

definition signed_as :: "EventTemplate \<Rightarrow> Nip98Event \<Rightarrow> bool" where
  "signed_as tmpl ev \<longleftrightarrow>
     ev_kind ev = et_kind tmpl \<and> ev_created_at ev = et_created_at tmpl \<and> ev_tags ev = et_tags tmpl
     \<and> ev_content ev = et_content tmpl"

lemma template_tags:
  assumes "signed_as (completion_template ch h t) ev"
  shows "single_tag ev ''u'' (ir_auth_url ch)" and "single_tag ev ''method'' (ir_auth_method ch)"
    and "single_tag ev ''payload'' h" and "single_tag ev ''challenge'' (ir_challenge ch)"
    and "single_tag ev ''challenge_id'' (ir_challenge_id ch)"
  using assms by (simp_all add: signed_as_def completion_template_def single_tag_def tag_matches_def)

text \<open>The request a built completion is sent as.\<close>

definition sent :: "BuiltAuthCompleteRequest \<Rightarrow> string option \<Rightarrow> VerifyCompletionInput" where
  "sent b clientIp =
     \<lparr>vn_authorization = Some (br_authorization b), vn_method = br_method b, vn_url = br_url b,
      vn_rawBody = br_rawBody b, vn_clientIp = clientIp\<rparr>"

lemma build_run:
  assumes "buildAuthCompleteRequest sha256 nt ms input st = (Inr b, st')"
  shows "br_url b = ir_auth_url (ba_challenge input)" and "br_method b = ir_auth_method (ba_challenge input)"
    and "rq_challenge_id (br_body b) = ir_challenge_id (ba_challenge input)"
    and "rq_voucher (br_body b) = ba_voucher input" and "rq_step_up (br_body b) = ba_stepUp input"
    and "br_rawBody b = serializeAuthCompleteBody nt (br_body b)"
    and "br_payloadHash b = sha256Hex sha256 (br_rawBody b)"
    and "br_authorization b = ''Nostr '' @ encodeBase64String (json_print nt (event_json (br_event b)))"
    and "ba_signer input (completion_template (ba_challenge input) (br_payloadHash b)
           (or_else (ba_createdAt input) (of_int (ms div 1000)))) st = (Inr (br_event b), st')"
  using assms by (auto simp: buildAuthCompleteRequest_def Let_def io_bind_Inr)

lemma build_verifies:
  assumes b: "buildAuthCompleteRequest (pf_sha256 pf) nt ms input st = (Inr b, st')"
    and sg: "signed_as (completion_template (ba_challenge input) (br_payloadHash b)
               (or_else (ba_createdAt input) (of_int (ms div 1000)))) (br_event b)"
      "pf_verifyEvent pf (br_event b)"
    and v: "\<And>v. ba_voucher input = Some v \<Longrightarrow> presentable v"
    and ch: "ir_challenge_id (ba_challenge input) \<noteq> []" "ir_auth_method (ba_challenge input) = ''POST''"
      "pf_url_toString pf (ir_auth_url (ba_challenge input)) \<noteq> None"
    and u: "unicode (json_print nt (body_json (br_body b)))" "unicode (json_print nt (event_json (br_event b)))"
    and t: "plain_number (ev_created_at (br_event b))"
      "\<bar>of_int now - ev_created_at (br_event b)\<bar> \<le> of_int (or_else skew 60)"
  shows "parseAuthCompleteRequest (br_rawBody b) = Some (br_body b)"
    and "verifyNip98Completion pf
       \<lparr>vi_authorization = Some (br_authorization b), vi_method = br_method b, vi_url = br_url b,
        vi_body = br_body b, vi_rawBody = br_rawBody b, vi_now = now, vi_maxClockSkewSeconds = skew\<rparr>
      = Inr \<lparr>vc_event = br_event b, vc_challenge = ir_challenge (ba_challenge input),
             vc_challengeId = ir_challenge_id (ba_challenge input), vc_payload = br_payloadHash b\<rparr>"
proof -
  note r = build_run [OF b] and tags = template_tags [OF sg(1)]
  show "parseAuthCompleteRequest (br_rawBody b) = Some (br_body b)"
    unfolding r(6) by (rule serialize_parse) (use r v ch u in simp_all)
  have k: "ev_kind (br_event b) = 27235" "ev_content (br_event b) = []"
    using sg(1) by (simp_all add: signed_as_def completion_template_def)
  have "plain_number 27235" by code_simp
  then have "printable (event_json (br_event b))"
    using event_printable [of "br_event b"] k(1) t(1) by simp
  then have "json_parse (json_print nt (event_json (br_event b))) = Some (event_json (br_event b))"
    by (rule json_parse_print)
  moreover have "json_print nt (event_json (br_event b)) \<noteq> []" by (simp add: event_json_def)
  ultimately have h: "parseNostrAuthorizationHeader (Some (br_authorization b)) = Some (br_event b)"
    using header_read [OF u(2)] event_read r(8) by simp
  have up: "to_upper ''POST'' = ''POST''" by code_simp
  show "verifyNip98Completion pf
       \<lparr>vi_authorization = Some (br_authorization b), vi_method = br_method b, vi_url = br_url b,
        vi_body = br_body b, vi_rawBody = br_rawBody b, vi_now = now, vi_maxClockSkewSeconds = skew\<rparr>
      = Inr \<lparr>vc_event = br_event b, vc_challenge = ir_challenge (ba_challenge input),
             vc_challengeId = ir_challenge_id (ba_challenge input), vc_payload = br_payloadHash b\<rparr>"
    unfolding verifyNip98Completion_Inr valid_proof_def
    using r tags h k sg(2) t(2) ch up
    by (auto simp: exactUrlMatch_def normalizeAbsoluteUrl_def)
qed

end
