(* ===== verification/VoucherLists.thy ===== *)
theory VoucherLists
  imports ServerTypes
begin

text \<open>
  nap-voucher: the allowlists of mints and issuers (\<open>allowlist.ts\<close>) and the policy for a mint
  that does not answer (\<open>availability.ts\<close>).

  The URL parser of the platform is a parameter, \<open>url_parser\<close>: the parts \<open>new URL(text)\<close>
  has, or \<open>None\<close> where it throws. An \<open>Error\<close> thrown at wiring time is a constructor of
  \<open>mint_list_error\<close>, \<open>issuer_list_error\<close> or \<open>availability_error\<close>.
\<close>

record url_parts =
  up_protocol :: string
  up_username :: string
  up_password :: string
  up_host :: string
  up_pathname :: string
  up_search :: string
  up_hash :: string
  up_origin :: string

type_synonym url_parser = "string \<Rightarrow> url_parts option"

text \<open>\<open>xs.map(f)\<close> where \<open>f\<close> may throw.\<close>

primrec map_or_throw :: "('a \<Rightarrow> 'e + 'b) \<Rightarrow> 'a list \<Rightarrow> 'e + 'b list" where
  "map_or_throw f [] = Inr []"
| "map_or_throw f (x # xs) =
     (case f x of
        Inl e \<Rightarrow> Inl e
      | Inr y \<Rightarrow> (case map_or_throw f xs of Inl e \<Rightarrow> Inl e | Inr ys \<Rightarrow> Inr (y # ys)))"

lemma map_or_throw_Inr: "map_or_throw f xs = Inr ys \<longleftrightarrow> map f xs = map Inr ys"
proof (induction xs arbitrary: ys)
  case (Cons x xs)
  show ?case
  proof (cases ys)
    case Nil
    then show ?thesis by (auto split: sum.splits)
  next
    case (Cons z zs)
    then show ?thesis using Cons.IH [of zs] by (cases "map_or_throw f xs") (auto split: sum.splits)
  qed
qed auto

section \<open>Mints\<close>

datatype mint_list_error =
    Mint_list_empty
  | Mint_entry_empty
  | Mint_entry_wildcard string
  | Mint_entry_not_a_url string
  | Mint_entry_not_https string
  | Mint_entry_userinfo string
  | Mint_entry_not_bare string
  | Mint_duplicates "string list"

record AllowedMint =
  am_scheme :: string
  am_host :: string
  am_origin :: string

definition parseMintEntry :: "url_parser \<Rightarrow> string \<Rightarrow> mint_list_error + AllowedMint" where
  "parseMintEntry parse entry =
     (let raw = js_trim entry in
      if raw = [] then Inl Mint_entry_empty
      else if CHR ''*'' \<in> set raw then Inl (Mint_entry_wildcard entry)
      else case parse raw of
             None \<Rightarrow> Inl (Mint_entry_not_a_url entry)
           | Some url \<Rightarrow>
               if up_protocol url \<noteq> ''https:'' then Inl (Mint_entry_not_https entry)
               else if up_username url \<noteq> [] \<or> up_password url \<noteq> [] then Inl (Mint_entry_userinfo entry)
               else if up_pathname url \<noteq> ''/'' \<or> up_search url \<noteq> [] \<or> up_hash url \<noteq> []
               then Inl (Mint_entry_not_bare entry)
               else Inr \<lparr>am_scheme = ''https'', am_host = to_lower (up_host url),
                         am_origin = to_lower (up_origin url)\<rparr>)"

definition canonicalizeMintUrl :: "url_parser \<Rightarrow> string \<Rightarrow> string option" where
  "canonicalizeMintUrl parse mintUrl =
     (if js_trim mintUrl = [] then None
      else case parse (js_trim mintUrl) of
             None \<Rightarrow> None
           | Some url \<Rightarrow>
               if up_protocol url \<noteq> ''https:'' \<or> up_username url \<noteq> [] \<or> up_password url \<noteq> [] then None
               else Some (to_lower (up_origin url)))"

record mint_allowlist =
  ml_resolve :: "string \<Rightarrow> string option"
  ml_origins :: "string list"

text \<open>\<open>byOrigin.get(candidate)\<close>, after the test for an unusable candidate.\<close>

definition resolve_origin :: "url_parser \<Rightarrow> string list \<Rightarrow> string \<Rightarrow> string option" where
  "resolve_origin parse origins mintUrl =
     (case canonicalizeMintUrl parse mintUrl of
        None \<Rightarrow> None
      | Some candidate \<Rightarrow>
          if candidate = [] then None else map_of (map (\<lambda>origin. (origin, origin)) origins) candidate)"

definition createMintAllowlist :: "url_parser \<Rightarrow> string list \<Rightarrow> mint_list_error + mint_allowlist" where
  "createMintAllowlist parse allowedMints =
     (if allowedMints = [] then Inl Mint_list_empty
      else case map_or_throw (parseMintEntry parse) allowedMints of
             Inl e \<Rightarrow> Inl e
           | Inr parsed \<Rightarrow>
               let origins = map am_origin parsed in
               if length (remdups origins) \<noteq> length origins then Inl (Mint_duplicates origins)
               else Inr \<lparr>ml_resolve = resolve_origin parse origins, ml_origins = origins\<rparr>)"

section \<open>Issuers\<close>

record IssuerAllowlistEntry =
  ie_mint :: string
  ie_issuerPubkey :: string

record AllowedIssuer =
  ai_mint :: string
  ai_issuerPubkey :: string

datatype issuer_list_error =
    Issuer_list_empty
  | Issuer_mint_not_allowed string
  | Issuer_bad_key string
  | Issuer_duplicates

definition HEX_64 :: "string \<Rightarrow> bool" where
  "HEX_64 s \<longleftrightarrow> is_hex_string 64 s"

definition parseIssuerEntry ::
  "mint_allowlist \<Rightarrow> IssuerAllowlistEntry \<Rightarrow> issuer_list_error + AllowedIssuer" where
  "parseIssuerEntry mints entry =
     (case ml_resolve mints (ie_mint entry) of
        None \<Rightarrow> Inl (Issuer_mint_not_allowed (ie_mint entry))
      | Some mint \<Rightarrow>
          if mint = [] then Inl (Issuer_mint_not_allowed (ie_mint entry))
          else let issuerPubkey = to_lower (js_trim (ie_issuerPubkey entry)) in
               if \<not> HEX_64 issuerPubkey then Inl (Issuer_bad_key (ie_issuerPubkey entry))
               else Inr \<lparr>ai_mint = mint, ai_issuerPubkey = issuerPubkey\<rparr>)"

record issuer_allowlist =
  il_allows :: "string \<Rightarrow> string \<Rightarrow> bool"
  il_entries :: "AllowedIssuer list"

text \<open>The key of a pair: the two halves with a bar between them.\<close>

definition issuer_key :: "string \<Rightarrow> string \<Rightarrow> string" where
  "issuer_key mint issuerPubkey = mint @ ''|'' @ issuerPubkey"

definition createIssuerAllowlist ::
  "IssuerAllowlistEntry list \<Rightarrow> mint_allowlist \<Rightarrow> issuer_list_error + issuer_allowlist" where
  "createIssuerAllowlist allowedIssuers mints =
     (if allowedIssuers = [] then Inl Issuer_list_empty
      else case map_or_throw (parseIssuerEntry mints) allowedIssuers of
             Inl e \<Rightarrow> Inl e
           | Inr entries \<Rightarrow>
               let keys = map (\<lambda>e. issuer_key (ai_mint e) (ai_issuerPubkey e)) entries in
               if length (remdups keys) \<noteq> length keys then Inl Issuer_duplicates
               else Inr \<lparr>il_allows = (\<lambda>mintOrigin issuerPubkey.
                            issuer_key (to_lower mintOrigin) (to_lower (js_trim issuerPubkey)) \<in> set keys),
                         il_entries = entries\<rparr>)"

section \<open>Availability\<close>

datatype MintFailureReason = mint_not_allowed | unavailable | malformed_response | unknown_keyset

record DegradedGrant =
  dg_roles :: "string list"
  dg_permissions :: "string list"

datatype AvailabilityDecision = Avail_deny MintFailureReason | Avail_degrade DegradedGrant

record availability_options =
  ao_onMintUnavailable :: "string option"
  ao_degradedGrant :: "DegradedGrant option"
  ao_destructivePermissions :: "string list option"
  ao_destructiveRoles :: "string list option"

datatype availability_error =
    Bad_mode string
  | Unused_grant
  | Missing_grant
  | Destructive_permissions "string list"
  | Destructive_roles "string list"

record availability_policy =
  ap_mode :: string
  ap_decide :: "MintFailureReason \<Rightarrow> AvailabilityDecision"

definition createMintAvailabilityPolicy :: "availability_options \<Rightarrow> availability_error + availability_policy" where
  "createMintAvailabilityPolicy options =
     (let mode = or_else (ao_onMintUnavailable options) ''deny'' in
      if mode \<noteq> ''deny'' \<and> mode \<noteq> ''degrade'' then Inl (Bad_mode mode)
      else if mode = ''deny'' then
        (if ao_degradedGrant options \<noteq> None then Inl Unused_grant
         else Inr \<lparr>ap_mode = mode, ap_decide = Avail_deny\<rparr>)
      else
        (case ao_degradedGrant options of
           None \<Rightarrow> Inl Missing_grant
         | Some grant \<Rightarrow>
             let destructive = or_else (ao_destructivePermissions options) [];
                 overlap = filter (\<lambda>p. p \<in> set destructive) (dg_permissions grant);
                 destructiveRoles = or_else (ao_destructiveRoles options) [];
                 roleOverlap = filter (\<lambda>r. r \<in> set destructiveRoles) (dg_roles grant)
             in if overlap \<noteq> [] then Inl (Destructive_permissions overlap)
                else if roleOverlap \<noteq> [] then Inl (Destructive_roles roleOverlap)
                else Inr \<lparr>ap_mode = mode,
                          ap_decide = (\<lambda>reason. if reason = unavailable then Avail_degrade grant
                                                else Avail_deny reason)\<rparr>))"

section \<open>What they promise\<close>

lemma resolve_origin_in: "resolve_origin parse origins u = Some origin \<Longrightarrow> origin \<in> set origins"
  by (auto simp: resolve_origin_def map_of_eq_Some_iff dest!: map_of_SomeD split: option.splits if_splits)

lemma mint_allowlist_origins:
  assumes "createMintAllowlist parse entries = Inr al"
  shows "ml_origins al \<noteq> []" and "distinct (ml_origins al)" and "ml_resolve al = resolve_origin parse (ml_origins al)"
    and "\<And>origin. origin \<in> set (ml_origins al) \<Longrightarrow>
           \<exists>e\<in>set entries. \<exists>url. parse (js_trim e) = Some url \<and> up_protocol url = ''https:''
             \<and> up_pathname url = ''/'' \<and> origin = to_lower (up_origin url)"
proof -
  from assms obtain parsed where p: "map (parseMintEntry parse) entries = map Inr parsed" and e: "entries \<noteq> []"
    and d: "distinct (map am_origin parsed)"
    and al: "al = \<lparr>ml_resolve = resolve_origin parse (map am_origin parsed), ml_origins = map am_origin parsed\<rparr>"
    by (auto simp: createMintAllowlist_def Let_def map_or_throw_Inr split: if_splits sum.splits)
  have l: "length parsed = length entries" using p by (metis length_map)
  then show "ml_origins al \<noteq> []" using e al by auto
  show "distinct (ml_origins al)" using d al by simp
  show "ml_resolve al = resolve_origin parse (ml_origins al)" using al by simp
  fix origin assume "origin \<in> set (ml_origins al)"
  then obtain m where m: "m \<in> set parsed" "origin = am_origin m" using al by auto
  then have "Inr m \<in> set (map (parseMintEntry parse) entries)" using p by simp
  then obtain x where "x \<in> set entries" "parseMintEntry parse x = Inr m" by auto
  then show "\<exists>e\<in>set entries. \<exists>url. parse (js_trim e) = Some url \<and> up_protocol url = ''https:''
             \<and> up_pathname url = ''/'' \<and> origin = to_lower (up_origin url)"
    using m(2) by (intro bexI [of _ x]) (auto simp: parseMintEntry_def Let_def split: if_splits option.splits)
qed

lemma degrades_only_unavailable:
  assumes "createMintAvailabilityPolicy options = Inr policy" and "ap_decide policy reason = Avail_degrade grant"
  shows "reason = unavailable" and "ao_onMintUnavailable options = Some ''degrade''"
    and "ao_degradedGrant options = Some grant"
    and "set (dg_permissions grant) \<inter> set (or_else (ao_destructivePermissions options) []) = {}"
    and "set (dg_roles grant) \<inter> set (or_else (ao_destructiveRoles options) []) = {}"
proof -
  let ?mode = "or_else (ao_onMintUnavailable options) ''deny''"
  have m: "?mode = ''degrade''"
  proof (rule ccontr)
    assume "?mode \<noteq> ''degrade''"
    then have "ap_decide policy = Avail_deny"
      using assms(1) by (auto simp: createMintAvailabilityPolicy_def Let_def split: if_splits)
    then show False using assms(2) by simp
  qed
  then show "ao_onMintUnavailable options = Some ''degrade''"
    by (cases "ao_onMintUnavailable options") simp_all
  obtain g where g: "ao_degradedGrant options = Some g"
      "filter (\<lambda>p. p \<in> set (or_else (ao_destructivePermissions options) [])) (dg_permissions g) = []"
      "filter (\<lambda>r. r \<in> set (or_else (ao_destructiveRoles options) [])) (dg_roles g) = []"
      "ap_decide policy = (\<lambda>reason. if reason = unavailable then Avail_degrade g else Avail_deny reason)"
    using assms(1) m by (auto simp: createMintAvailabilityPolicy_def Let_def split: if_splits option.splits)
  show "reason = unavailable" using assms(2) g(4) by (simp split: if_splits)
  then have "g = grant" using assms(2) g(4) by simp
  then show "ao_degradedGrant options = Some grant"
    "set (dg_permissions grant) \<inter> set (or_else (ao_destructivePermissions options) []) = {}"
    "set (dg_roles grant) \<inter> set (or_else (ao_destructiveRoles options) []) = {}"
    using g(1-3) by (auto simp: filter_empty_conv)
qed

end
