(* ===== verification/WebProtocol.thy ===== *)
theory WebProtocol
  imports ClientHttp VoucherLists
begin

text \<open>
  nap-client-web, the wire of the cross-origin signer (\<open>crossOriginProtocol.ts\<close>).

  What a window receives is a structured clone, read here as a \<open>json\<close>: a member that is
  \<open>undefined\<close> is absent, and a value without a JSON counterpart (a date, a map, \<open>NaN\<close>) is
  \<open>JNull\<close>, which every test of the parser refuses as it refuses the value itself. A clone
  holds no getters, so that reading it never throws.
\<close>

section \<open>Constants and types\<close>

definition CROSS_ORIGIN_PROTOCOL :: string where "CROSS_ORIGIN_PROTOCOL = ''nap-cross-origin-signer/1''"
definition DEFAULT_SIGNER_PATH :: string where "DEFAULT_SIGNER_PATH = ''/nap/signer''"
definition MAX_GRANT_TTL_SECONDS :: rat where "MAX_GRANT_TTL_SECONDS = 900"
definition DEFAULT_CREATED_AT_SKEW_SECONDS :: rat where "DEFAULT_CREATED_AT_SKEW_SECONDS = 300"

datatype CrossOriginErrorCode =
    NOT_AVAILABLE | POPUP_BLOCKED | DECLINED | REFUSED | GRANT_EXPIRED | REVOKED
  | CHANNEL_CLOSED | TIMEOUT | SIGNER_ERROR

primrec cross_code_str :: "CrossOriginErrorCode \<Rightarrow> string" where
  "cross_code_str NOT_AVAILABLE = ''NOT_AVAILABLE''"
| "cross_code_str POPUP_BLOCKED = ''POPUP_BLOCKED''"
| "cross_code_str DECLINED = ''DECLINED''"
| "cross_code_str REFUSED = ''REFUSED''"
| "cross_code_str GRANT_EXPIRED = ''GRANT_EXPIRED''"
| "cross_code_str REVOKED = ''REVOKED''"
| "cross_code_str CHANNEL_CLOSED = ''CHANNEL_CLOSED''"
| "cross_code_str TIMEOUT = ''TIMEOUT''"
| "cross_code_str SIGNER_ERROR = ''SIGNER_ERROR''"

definition ERROR_CODES :: "CrossOriginErrorCode list" where
  "ERROR_CODES = [NOT_AVAILABLE, POPUP_BLOCKED, DECLINED, REFUSED, GRANT_EXPIRED, REVOKED,
                  CHANNEL_CLOSED, TIMEOUT, SIGNER_ERROR]"

definition cross_code_of :: "string \<Rightarrow> CrossOriginErrorCode option" where
  "cross_code_of s = find (\<lambda>c. cross_code_str c = s) ERROR_CODES"

record GrantInfo =
  gi_grantId :: string
  gi_pubkey :: string
  gi_kinds :: "rat list"
  gi_audiences :: "string list"
  gi_expiresAt :: rat

datatype CrossOriginMessage =
    M_ready
  | M_connect string "rat list" "string list" "string option"
  | M_connected string GrantInfo
  | M_sign string string EventTemplate
  | M_signed string Nip98Event
  | M_error "string option" CrossOriginErrorCode
  | M_revoked string
  | M_disconnect string

section \<open>Reading a message\<close>

definition isId :: "json option \<Rightarrow> bool" where
  "isId v \<longleftrightarrow> (case v of Some (JStr s) \<Rightarrow> 0 < js_length s \<and> js_length s \<le> 128 | _ \<Rightarrow> False)"

definition is_kind :: "json \<Rightarrow> bool" where
  "is_kind v \<longleftrightarrow> (case v of JNum k \<Rightarrow> is_integer k \<and> 0 \<le> k \<and> k \<le> 65535 | _ \<Rightarrow> False)"

definition isKindList :: "json option \<Rightarrow> bool" where
  "isKindList v \<longleftrightarrow>
     (case v of Some (JArr xs) \<Rightarrow> xs \<noteq> [] \<and> length xs \<le> 32 \<and> list_all is_kind xs | _ \<Rightarrow> False)"

definition short_string :: "nat \<Rightarrow> json \<Rightarrow> bool" where
  "short_string n v \<longleftrightarrow> (case v of JStr s \<Rightarrow> js_length s \<le> n | _ \<Rightarrow> False)"

definition isStringList :: "json option \<Rightarrow> bool" where
  "isStringList v \<longleftrightarrow>
     (case v of Some (JArr xs) \<Rightarrow> xs \<noteq> [] \<and> length xs \<le> 32 \<and> list_all (short_string 512) xs | _ \<Rightarrow> False)"

definition is_hex64 :: "json option \<Rightarrow> bool" where
  "is_hex64 v \<longleftrightarrow> (case v of Some (JStr s) \<Rightarrow> is_hex_string 64 s | _ \<Rightarrow> False)"

definition is_integer_number :: "json option \<Rightarrow> bool" where
  "is_integer_number v \<longleftrightarrow> (case v of Some (JNum x) \<Rightarrow> is_integer x | _ \<Rightarrow> False)"

definition is_tag :: "json \<Rightarrow> bool" where
  "is_tag v \<longleftrightarrow>
     (case v of JArr parts \<Rightarrow> parts \<noteq> [] \<and> length parts \<le> 16 \<and> list_all (short_string 4096) parts | _ \<Rightarrow> False)"

definition isEventTemplate :: "json option \<Rightarrow> bool" where
  "isEventTemplate v \<longleftrightarrow>
     is_object v
     \<and> is_integer_number (member (the v) ''kind'') \<and> is_integer_number (member (the v) ''created_at'')
     \<and> (case member (the v) ''content'' of Some c \<Rightarrow> short_string 65536 c | None \<Rightarrow> False)
     \<and> (case member (the v) ''tags'' of
           Some (JArr tags) \<Rightarrow> length tags \<le> 64 \<and> list_all is_tag tags
         | _ \<Rightarrow> False)"

definition isGrantInfo :: "json option \<Rightarrow> bool" where
  "isGrantInfo v \<longleftrightarrow>
     is_object v
     \<and> isId (member (the v) ''grantId'') \<and> is_hex64 (member (the v) ''pubkey'')
     \<and> isKindList (member (the v) ''kinds'') \<and> isStringList (member (the v) ''audiences'')
     \<and> is_integer_number (member (the v) ''expiresAt'')"

text \<open>Copies of what the tests accepted.\<close>

definition str_of :: "json option \<Rightarrow> string" where "str_of v = or_else (as_string v) []"
definition num_of :: "json option \<Rightarrow> rat" where "num_of v = or_else (as_number v) 0"

definition elems_of :: "json option \<Rightarrow> json list" where
  "elems_of v = (case v of Some (JArr xs) \<Rightarrow> xs | _ \<Rightarrow> [])"

definition strs_of :: "json option \<Rightarrow> string list" where
  "strs_of v = map (\<lambda>x. str_of (Some x)) (elems_of v)"

definition nums_of :: "json option \<Rightarrow> rat list" where
  "nums_of v = map (\<lambda>x. num_of (Some x)) (elems_of v)"

definition tags_of :: "json option \<Rightarrow> string list list" where
  "tags_of v = map (\<lambda>x. strs_of (Some x)) (elems_of v)"

definition template_of :: "json \<Rightarrow> EventTemplate" where
  "template_of v =
     \<lparr>et_kind = num_of (member v ''kind''), et_created_at = num_of (member v ''created_at''),
      et_tags = tags_of (member v ''tags''), et_content = str_of (member v ''content'')\<rparr>"

definition grant_of :: "json \<Rightarrow> GrantInfo" where
  "grant_of v =
     \<lparr>gi_grantId = str_of (member v ''grantId''), gi_pubkey = str_of (member v ''pubkey''),
      gi_kinds = nums_of (member v ''kinds''), gi_audiences = strs_of (member v ''audiences''),
      gi_expiresAt = num_of (member v ''expiresAt'')\<rparr>"

definition signed_event_of :: "json \<Rightarrow> Nip98Event" where
  "signed_event_of v =
     \<lparr>ev_id = str_of (member v ''id''), ev_pubkey = str_of (member v ''pubkey''),
      ev_created_at = num_of (member v ''created_at''), ev_kind = num_of (member v ''kind''),
      ev_tags = tags_of (member v ''tags''), ev_content = str_of (member v ''content''),
      ev_sig = str_of (member v ''sig'')\<rparr>"

definition parse_typed :: "string \<Rightarrow> json \<Rightarrow> CrossOriginMessage option" where
  "parse_typed type v =
     (if type = ''ready'' then Some M_ready
      else if type = ''connect'' then
        (if \<not> isId (member v ''id'') \<or> \<not> isKindList (member v ''kinds'') \<or> \<not> isStringList (member v ''audiences'')
         then None
         else if member v ''expectedPubkey'' \<noteq> None \<and> \<not> is_hex64 (member v ''expectedPubkey'') then None
         else Some (M_connect (str_of (member v ''id'')) (nums_of (member v ''kinds''))
                (strs_of (member v ''audiences'')) (as_string (member v ''expectedPubkey''))))
      else if type = ''connected'' then
        (if \<not> isId (member v ''id'') \<or> \<not> isGrantInfo (member v ''grant'') then None
         else Some (M_connected (str_of (member v ''id'')) (grant_of (the (member v ''grant'')))))
      else if type = ''sign'' then
        (if \<not> isId (member v ''id'') \<or> \<not> isId (member v ''grantId'') \<or> \<not> isEventTemplate (member v ''template'')
         then None
         else Some (M_sign (str_of (member v ''id'')) (str_of (member v ''grantId''))
                (template_of (the (member v ''template'')))))
      else if type = ''signed'' then
        (if \<not> isId (member v ''id'') \<or> \<not> isEventTemplate (member v ''event'') then None
         else let event = the (member v ''event'') in
              if as_string (member event ''id'') = None \<or> as_string (member event ''pubkey'') = None
                 \<or> as_string (member event ''sig'') = None
              then None
              else Some (M_signed (str_of (member v ''id'')) (signed_event_of event)))
      else if type = ''error'' then
        (case Option.bind (as_string (member v ''code'')) cross_code_of of
           None \<Rightarrow> None
         | Some code \<Rightarrow>
             if member v ''id'' \<noteq> None \<and> \<not> isId (member v ''id'') then None
             else Some (M_error (as_string (member v ''id'')) code))
      else if type = ''revoked'' then
        (if isId (member v ''grantId'') then Some (M_revoked (str_of (member v ''grantId''))) else None)
      else if type = ''disconnect'' then
        (if isId (member v ''grantId'') then Some (M_disconnect (str_of (member v ''grantId''))) else None)
      else None)"

definition parseMessage :: "json \<Rightarrow> CrossOriginMessage option" where
  "parseMessage v =
     (if \<not> is_object (Some v) \<or> member v ''nap'' \<noteq> Some (JStr CROSS_ORIGIN_PROTOCOL) then None
      else case as_string (member v ''type'') of
             None \<Rightarrow> None
           | Some type \<Rightarrow> parse_typed type v)"

section \<open>Origins\<close>

datatype origin_error =
    Not_an_origin string | Not_http string | Not_bare string | Not_canonical string string

text \<open>\<open>value.replace(/\/$/, '')\<close>.\<close>

definition strip_slash :: "string \<Rightarrow> string" where
  "strip_slash s = (if s \<noteq> [] \<and> last s = CHR ''/'' then butlast s else s)"

definition normalizeOrigin :: "url_parser \<Rightarrow> string \<Rightarrow> origin_error + string" where
  "normalizeOrigin parse value =
     (case parse value of
        None \<Rightarrow> Inl (Not_an_origin value)
      | Some url \<Rightarrow>
          if up_protocol url \<noteq> ''https:'' \<and> up_protocol url \<noteq> ''http:'' then Inl (Not_http value)
          else if up_username url \<noteq> [] \<or> up_password url \<noteq> [] \<or> (up_pathname url \<noteq> ''/'' \<and> up_pathname url \<noteq> [])
                  \<or> up_search url \<noteq> [] \<or> up_hash url \<noteq> []
          then Inl (Not_bare value)
          else if strip_slash (js_trim value) \<noteq> up_origin url then Inl (Not_canonical value (up_origin url))
          else Inr (up_origin url))"

definition audienceOf :: "url_parser \<Rightarrow> EventTemplate \<Rightarrow> string option" where
  "audienceOf parse tmpl =
     (case filter (\<lambda>tag. tag \<noteq> [] \<and> hd tag = ''u'') (et_tags tmpl) of
        [_ # target # _] \<Rightarrow>
          (case parse target of
             None \<Rightarrow> None
           | Some url \<Rightarrow>
               if up_protocol url \<noteq> ''https:'' \<and> up_protocol url \<noteq> ''http:'' then None
               else if up_username url \<noteq> [] \<or> up_password url \<noteq> [] then None
               else Some (up_origin url))
      | _ \<Rightarrow> None)"

text \<open>The 16 bytes of \<open>getRandomValues\<close>, in hex.\<close>

definition randomId :: "byte list \<Rightarrow> string" where "randomId bs = bytesToHex bs"

text \<open>\<open>sameEvent\<close> of the signer page and \<open>sameTemplate\<close> of the relying page.\<close>

definition tags_json :: "string list list \<Rightarrow> json" where
  "tags_json tags = JArr (map (\<lambda>tag. JArr (map JStr tag)) tags)"

definition sameEvent :: "EventTemplate \<Rightarrow> Nip98Event \<Rightarrow> bool" where
  "sameEvent tmpl event \<longleftrightarrow>
     ev_kind event = et_kind tmpl \<and> ev_created_at event = et_created_at tmpl \<and> ev_content event = et_content tmpl
     \<and> json_print (\<lambda>_. []) (tags_json (ev_tags event)) = json_print (\<lambda>_. []) (tags_json (et_tags tmpl))"

section \<open>What a page posts\<close>

definition template_members :: "EventTemplate \<Rightarrow> (string \<times> json) list" where
  "template_members tmpl =
     [(''kind'', JNum (et_kind tmpl)), (''created_at'', JNum (et_created_at tmpl)),
      (''content'', JStr (et_content tmpl)), (''tags'', tags_json (et_tags tmpl))]"

definition signed_members :: "Nip98Event \<Rightarrow> (string \<times> json) list" where
  "signed_members ev =
     [(''id'', JStr (ev_id ev)), (''pubkey'', JStr (ev_pubkey ev)), (''sig'', JStr (ev_sig ev)),
      (''kind'', JNum (ev_kind ev)), (''created_at'', JNum (ev_created_at ev)),
      (''content'', JStr (ev_content ev)), (''tags'', tags_json (ev_tags ev))]"

definition grant_json :: "GrantInfo \<Rightarrow> json" where
  "grant_json g =
     JObj [(''grantId'', JStr (gi_grantId g)), (''pubkey'', JStr (gi_pubkey g)),
           (''kinds'', JArr (map JNum (gi_kinds g))), (''audiences'', JArr (map JStr (gi_audiences g))),
           (''expiresAt'', JNum (gi_expiresAt g))]"

definition posted :: "string \<Rightarrow> (string \<times> json) list \<Rightarrow> json" where
  "posted type ms = JObj ((''nap'', JStr CROSS_ORIGIN_PROTOCOL) # (''type'', JStr type) # ms)"

text \<open>The objects that the two pages hand to \<open>postMessage\<close>.\<close>

fun message_json :: "CrossOriginMessage \<Rightarrow> json" where
  "message_json M_ready = posted ''ready'' []"
| "message_json (M_connect i kinds audiences expected) =
     posted ''connect'' ([(''id'', JStr i), (''kinds'', JArr (map JNum kinds)), (''audiences'', JArr (map JStr audiences))]
       @ (case expected of None \<Rightarrow> [] | Some k \<Rightarrow> [(''expectedPubkey'', JStr k)]))"
| "message_json (M_connected i g) = posted ''connected'' [(''id'', JStr i), (''grant'', grant_json g)]"
| "message_json (M_sign i grantId tmpl) =
     posted ''sign'' [(''id'', JStr i), (''grantId'', JStr grantId), (''template'', JObj (template_members tmpl))]"
| "message_json (M_signed i ev) = posted ''signed'' [(''id'', JStr i), (''event'', JObj (signed_members ev))]"
| "message_json (M_error i code) =
     posted ''error'' ((''code'', JStr (cross_code_str code)) # (case i of None \<Rightarrow> [] | Some k \<Rightarrow> [(''id'', JStr k)]))"
| "message_json (M_revoked grantId) = posted ''revoked'' [(''grantId'', JStr grantId)]"
| "message_json (M_disconnect grantId) = posted ''disconnect'' [(''grantId'', JStr grantId)]"

section \<open>The bounds of the wire\<close>

definition id_ok :: "string \<Rightarrow> bool" where
  "id_ok s \<longleftrightarrow> isId (Some (JStr s))"

definition template_ok :: "EventTemplate \<Rightarrow> bool" where
  "template_ok tmpl \<longleftrightarrow> isEventTemplate (Some (JObj (template_members tmpl)))"

definition event_template :: "Nip98Event \<Rightarrow> EventTemplate" where
  "event_template ev =
     \<lparr>et_kind = ev_kind ev, et_created_at = ev_created_at ev, et_tags = ev_tags ev, et_content = ev_content ev\<rparr>"

fun wire_ok :: "CrossOriginMessage \<Rightarrow> bool" where
  "wire_ok M_ready \<longleftrightarrow> True"
| "wire_ok (M_connect i kinds audiences expected) \<longleftrightarrow>
     id_ok i \<and> isKindList (Some (JArr (map JNum kinds))) \<and> isStringList (Some (JArr (map JStr audiences)))
     \<and> (case expected of None \<Rightarrow> True | Some k \<Rightarrow> is_hex_string 64 k)"
| "wire_ok (M_connected i g) \<longleftrightarrow> id_ok i \<and> isGrantInfo (Some (grant_json g))"
| "wire_ok (M_sign i grantId tmpl) \<longleftrightarrow> id_ok i \<and> id_ok grantId \<and> template_ok tmpl"
| "wire_ok (M_signed i ev) \<longleftrightarrow> id_ok i \<and> template_ok (event_template ev)"
| "wire_ok (M_error i code) \<longleftrightarrow> (case i of None \<Rightarrow> True | Some k \<Rightarrow> id_ok k)"
| "wire_ok (M_revoked grantId) \<longleftrightarrow> id_ok grantId"
| "wire_ok (M_disconnect grantId) \<longleftrightarrow> id_ok grantId"

lemma reads_simps [simp]:
  "str_of (Some (JStr s)) = s" "num_of (Some (JNum x)) = x" "elems_of (Some (JArr xs)) = xs"
  "as_string (Some (JStr s)) = Some s" "as_string None = None"
  "is_object (Some (JObj ms))" "member (JObj ms) k = jm_get ms k"
  by (simp_all add: str_of_def num_of_def elems_of_def as_number_def as_string_def is_object_def member_def)

lemma strs_of_print [simp]: "strs_of (Some (JArr (map JStr ss))) = ss"
  by (simp add: strs_of_def comp_def)

lemma nums_of_print [simp]: "nums_of (Some (JArr (map JNum xs))) = xs"
  by (simp add: nums_of_def comp_def)

lemma tags_of_print [simp]: "tags_of (Some (tags_json tags)) = tags"
  by (simp add: tags_of_def tags_json_def comp_def)

lemma cross_code_read [simp]: "cross_code_of (cross_code_str c) = Some c"
  by (cases c) (simp_all add: cross_code_of_def ERROR_CODES_def)

lemma jm_get_Cons [simp]: "jm_get ((a, b) # m) k = (if a = k then Some b else jm_get m k)"
  by (simp add: jm_get_def)

lemma set_jm_set: "set (jm_set k v xs) \<subseteq> insert (k, v) (set xs)"
  unfolding jm_set_def by (induction xs) auto

lemma template_read [simp]: "template_of (JObj (template_members tmpl)) = tmpl"
  by (simp add: template_of_def template_members_def)

lemma grant_read [simp]: "grant_of (grant_json g) = g"
  by (simp add: grant_of_def grant_json_def)

lemma signed_read [simp]: "signed_event_of (JObj (signed_members ev)) = ev"
  by (simp add: signed_event_of_def signed_members_def)

lemma signed_template: "isEventTemplate (Some (JObj (signed_members ev))) \<longleftrightarrow> template_ok (event_template ev)"
  by (simp add: template_ok_def isEventTemplate_def signed_members_def template_members_def event_template_def)

lemma parse_posted: "parseMessage (posted type ms) = parse_typed type (posted type ms)"
  by (simp add: parseMessage_def posted_def)

text \<open>A message within the bounds is read as it was sent.\<close>

lemma message_read: "wire_ok m \<Longrightarrow> parseMessage (message_json m) = Some m"
proof (induction m rule: wire_ok.induct)
  case (2 i kinds audiences expected)
  then show ?case
    by (cases expected) (simp_all add: parse_posted, simp_all add: parse_typed_def posted_def id_ok_def is_hex64_def)
next
  case (6 i code)
  then show ?case
    by (cases i) (simp_all add: parse_posted, simp_all add: parse_typed_def posted_def id_ok_def)
qed (simp_all add: parse_posted, simp_all add: parse_typed_def posted_def id_ok_def template_ok_def [symmetric]
       signed_template, simp_all add: signed_members_def signed_event_of_def)

text \<open>What is read is within the bounds.\<close>

lemma isId_print: "isId v \<Longrightarrow> id_ok (str_of v)"
  by (auto simp: isId_def id_ok_def split: option.splits json.splits)

lemma kinds_print: "isKindList v \<Longrightarrow> isKindList (Some (JArr (map JNum (nums_of v))))"
proof -
  assume k: "isKindList v"
  then obtain xs where v: "v = Some (JArr xs)" and a: "list_all is_kind xs"
    by (auto simp: isKindList_def split: option.splits json.splits)
  have "map JNum (nums_of v) = xs"
    using a unfolding v by (induction xs) (auto simp: nums_of_def is_kind_def split: json.splits)
  then show ?thesis using k v by simp
qed

lemma short_strings_print:
  "list_all (short_string n) xs \<Longrightarrow> map (\<lambda>x. JStr (str_of (Some x))) xs = xs"
  by (induction xs) (auto simp: short_string_def split: json.splits)

lemma strings_print: "isStringList v \<Longrightarrow> isStringList (Some (JArr (map JStr (strs_of v))))"
proof -
  assume k: "isStringList v"
  then obtain xs where v: "v = Some (JArr xs)" and a: "list_all (short_string 512) xs"
    by (auto simp: isStringList_def split: option.splits json.splits)
  have "map JStr (strs_of v) = xs" using short_strings_print [OF a] by (simp add: v strs_of_def comp_def)
  then show ?thesis using k v by simp
qed

lemma tag_print: "is_tag x \<Longrightarrow> JArr (map JStr (strs_of (Some x))) = x"
  using short_strings_print by (auto simp: is_tag_def strs_of_def comp_def split: json.splits)

lemma tags_print: "list_all is_tag xs \<Longrightarrow> tags_json (tags_of (Some (JArr xs))) = JArr xs"
  by (induction xs) (simp_all add: tags_json_def tags_of_def tag_print)

lemma number_print: "is_integer_number v \<Longrightarrow> is_integer_number (Some (JNum (num_of v)))"
  by (auto simp: is_integer_number_def split: option.splits json.splits)

lemma template_print: "isEventTemplate v \<Longrightarrow> template_ok (template_of (the v))"
  using tags_print number_print
  by (auto simp: isEventTemplate_def template_ok_def template_members_def template_of_def short_string_def
      split: option.splits json.splits)

lemma hex_print: "is_hex64 v \<Longrightarrow> is_hex64 (Some (JStr (str_of v)))"
  by (auto simp: is_hex64_def split: option.splits json.splits)

lemma grant_print: "isGrantInfo v \<Longrightarrow> isGrantInfo (Some (grant_json (grant_of (the v))))"
  using isId_print kinds_print strings_print number_print hex_print
  by (simp add: isGrantInfo_def grant_json_def grant_of_def id_ok_def)

lemma id_read: "isId v \<Longrightarrow> as_string v = Some s \<Longrightarrow> id_ok s"
  by (simp add: as_string_Some id_ok_def)

lemma hex_read: "is_hex64 v \<Longrightarrow> as_string v = Some s \<Longrightarrow> is_hex_string 64 s"
  by (auto simp: as_string_Some is_hex64_def)

lemma signed_event_template: "event_template (signed_event_of v) = template_of v"
  by (simp add: event_template_def signed_event_of_def template_of_def)

lemma typed_ok: "parse_typed type v = Some m \<Longrightarrow> wire_ok m"
  by (auto simp: parse_typed_def Let_def signed_event_template
      intro: isId_print kinds_print strings_print template_print grant_print id_read hex_read
      split: if_splits option.splits)

lemma parsed_ok: "parseMessage v = Some m \<Longrightarrow> wire_ok m"
  by (auto simp: parseMessage_def dest: typed_ok split: if_splits option.splits)

text \<open>\<open>JSON.stringify\<close> is injective on arrays of arrays of strings.\<close>

lemma tags_json_inj: "tags_json a = tags_json b \<longleftrightarrow> a = b"
  by (metis tags_of_print)

lemma sameEvent_iff: "sameEvent tmpl ev \<longleftrightarrow> event_template ev = tmpl"
proof -
  have p: "printable (tags_json ts)" for ts by (auto simp: tags_json_def list_all_iff)
  have "json_print (\<lambda>_. []) (tags_json a) = json_print (\<lambda>_. []) (tags_json b) \<longleftrightarrow> a = b" for a b
    using json_parse_print [OF p, of "\<lambda>_. []" a] json_parse_print [OF p, of "\<lambda>_. []" b] tags_json_inj
    by (metis option.inject)
  then show ?thesis by (cases tmpl) (auto simp: sameEvent_def event_template_def)
qed

text \<open>A normalised origin is the text itself, trimmed and without its slash.\<close>

lemma normalizeOrigin_Inr:
  "normalizeOrigin parse value = Inr o' \<Longrightarrow>
     o' = strip_slash (js_trim value) \<and> (\<exists>url. parse value = Some url \<and> up_origin url = o')"
  by (auto simp: normalizeOrigin_def split: option.splits if_splits)

end
