(* ===== verification/Reactive.thy ===== *)
theory Reactive
  imports Main
begin

text \<open>
  Programs that react to inputs, one at a time, and keep a trace of their effects: the pages
  of nap-client-web. \<open>reacts\<close> is a run over a sequence of inputs, \<open>since\<close> the effects of a
  part of a run. The locale \<open>reactive\<close> has what every such program shares.
\<close>

definition reacts :: "('i \<Rightarrow> 's \<Rightarrow> 's) \<Rightarrow> 'i list \<Rightarrow> 's \<Rightarrow> 's" where
  "reacts step inputs s = fold step inputs s"

definition since :: "('s \<Rightarrow> 'e list) \<Rightarrow> 's \<Rightarrow> 's \<Rightarrow> 'e list" where
  "since trace s s' = drop (length (trace s)) (trace s')"

lemma reacts_simps [simp]:
  "reacts step [] s = s"
  "reacts step (i # inputs) s = reacts step inputs (step i s)"
  by (simp_all add: reacts_def)

lemma reacts_append: "reacts step (a @ b) s = reacts step b (reacts step a s)"
  by (simp add: reacts_def)

lemma since_append: "trace s' = trace s @ new \<Longrightarrow> since trace s s' = new"
  by (simp add: since_def)

locale reactive =
  fixes step :: "'i \<Rightarrow> 's \<Rightarrow> 's" and trace :: "'s \<Rightarrow> 'e list"
  assumes step_appends: "\<exists>new. trace (step i s) = trace s @ new"
begin

lemma run_appends: "\<exists>new. trace (reacts step inputs s) = trace s @ new"
proof (induction inputs arbitrary: s)
  case (Cons i inputs)
  obtain a where "trace (step i s) = trace s @ a" using step_appends by blast
  moreover obtain b where "trace (reacts step inputs (step i s)) = trace (step i s) @ b" using Cons.IH by blast
  ultimately show ?case by simp
qed simp

lemma trace_since: "trace (reacts step inputs s) = trace s @ since trace s (reacts step inputs s)"
  using run_appends [of inputs s] since_append by metis

lemma since_Cons:
  "since trace s (reacts step (i # inputs) s) =
     since trace s (step i s) @ since trace (step i s) (reacts step inputs (step i s))"
proof -
  obtain a where "trace (step i s) = trace s @ a" using step_appends by blast
  moreover obtain b where "trace (reacts step inputs (step i s)) = trace (step i s) @ b"
    using run_appends by blast
  ultimately show ?thesis by (simp add: since_def)
qed

lemma run_keeps:
  assumes "\<And>i s. P s \<Longrightarrow> P (step i s)" and "P s"
  shows "P (reacts step inputs s)"
  using assms(2) by (induction inputs arbitrary: s) (simp_all add: assms(1))

text \<open>As long as the key effect does not come, the guard holds and nothing bad is done.\<close>

lemma run_guarded:
  assumes "\<And>i s. P s \<Longrightarrow>
      (\<exists>e\<in>set (since trace s (step i s)). key e) \<or> P (step i s) \<and> (\<forall>e\<in>set (since trace s (step i s)). \<not> bad e)"
    and "P s" and "\<forall>e\<in>set (since trace s (reacts step inputs s)). \<not> key e"
  shows "P (reacts step inputs s) \<and> (\<forall>e\<in>set (since trace s (reacts step inputs s)). \<not> bad e)"
  using assms(2,3)
proof (induction inputs arbitrary: s)
  case Nil
  then show ?case by (simp add: since_def)
next
  case (Cons i inputs)
  have n: "\<forall>e\<in>set (since trace s (step i s)). \<not> key e"
    "\<forall>e\<in>set (since trace (step i s) (reacts step inputs (step i s))). \<not> key e"
    using Cons.prems(2) unfolding since_Cons by auto
  then have "P (step i s)" "\<forall>e\<in>set (since trace s (step i s)). \<not> bad e"
    using assms(1) [OF Cons.prems(1), of i] by auto
  then show ?case using Cons.IH [OF _ n(2)] unfolding since_Cons by auto
qed

end

end
