(* ===== verification/WebClient.thy ===== *)
theory WebClient
  imports WebProtocol Reactive
begin

text \<open>
  nap-client-web, the relying end of the cross-origin signer (\<open>crossOriginClient.ts\<close>): a page
  that opens the signer page of a key origin, gets a grant and has events signed.

  The page reacts to inputs: messages, timers, the poll for a closed window, and calls of the
  handle. Promises that are settled in an input queue the continuations that await them, which
  run before the next input, as microtasks do. A timer may fire at any time while it is armed;
  its length is not modelled. Listeners of \<open>onEnd\<close> and open windows are numbers.
\<close>

section \<open>Options and state\<close>

type_synonym relying_window = nat

record ConnectCrossOriginOptions =
  xo_keyOrigin :: string
  xo_kinds :: "rat list"
  xo_audiences :: "string list"
  xo_expectedPubkey :: "string option"
  xo_signerPath :: "string option"
  xo_windowFeatures :: "string option"
  xo_url :: url_parser
  xo_resolve :: "string \<Rightarrow> string \<Rightarrow> string option"
  xo_open :: "string \<Rightarrow> string \<Rightarrow> string \<Rightarrow> relying_window option"
  xo_random :: "nat \<Rightarrow> byte list"
  xo_verifyEvent :: "Nip98Event \<Rightarrow> bool"
  xo_npubEncode :: "string \<Rightarrow> string"

definition DEFAULT_FEATURES :: string where "DEFAULT_FEATURES = ''popup=yes,width=420,height=640''"

text \<open>What the closure of a connection has fixed.\<close>

record relying =
  xr_options :: ConnectCrossOriginOptions
  xr_keyOrigin :: string
  xr_audiences :: "string list"
  xr_popup :: relying_window

datatype end_listener = Internal | Listener nat

datatype relying_request = Req_connect | Req_sign EventTemplate

text \<open>A promise that was settled: the wait for \<open>ready\<close>, or a request, under its number.\<close>

datatype settlement =
    Settle_ready "CrossOriginErrorCode option"
  | Settle_request nat "CrossOriginErrorCode + CrossOriginMessage"

datatype relying_effect =
    X_opened string
  | X_posted string CrossOriginMessage
  | X_connected GrantInfo
  | X_failed CrossOriginErrorCode
  | X_called nat EventTemplate
  | X_signed nat Nip98Event
  | X_refused nat CrossOriginErrorCode
  | X_notified nat CrossOriginErrorCode
  | X_npub "CrossOriginErrorCode + string"
  | X_closed

text \<open>
  \<open>rl_pending\<close> has the request of each id, \<open>rl_timers\<close> the id that a request's timer deletes,
  \<open>rl_open\<close> the requests whose promise is not settled.
\<close>

record relying_page =
  rl_pending :: "(string, nat) jsmap"
  rl_timers :: "(nat, string) jsmap"
  rl_open :: "(nat, relying_request) jsmap"
  rl_listeners :: "end_listener list"
  rl_grant :: "GrantInfo option"
  rl_ended :: "CrossOriginErrorCode option"
  rl_ready :: bool
  rl_waiting :: bool
  rl_readyTimer :: bool
  rl_queue :: "settlement list"
  rl_next :: nat
  rl_drawn :: nat
  rl_now :: int
  rl_trace :: "relying_effect list"

definition xc_log :: "relying_effect \<Rightarrow> relying_page \<Rightarrow> relying_page" where
  "xc_log e s = s\<lparr>rl_trace := rl_trace s @ [e]\<rparr>"

definition xc_post :: "relying \<Rightarrow> CrossOriginMessage \<Rightarrow> relying_page \<Rightarrow> relying_page" where
  "xc_post r msg = xc_log (X_posted (xr_keyOrigin r) msg)"

definition xc_queue :: "settlement \<Rightarrow> relying_page \<Rightarrow> relying_page" where
  "xc_queue x s = s\<lparr>rl_queue := rl_queue s @ [x]\<rparr>"

section \<open>The end of a grant\<close>

primrec notify_end :: "CrossOriginErrorCode \<Rightarrow> end_listener \<Rightarrow> relying_page \<Rightarrow> relying_page" where
  "notify_end code Internal s = xc_queue (Settle_ready (Some code)) (s\<lparr>rl_readyTimer := False\<rparr>)"
| "notify_end code (Listener n) s = xc_log (X_notified n code) s"

definition xc_end :: "CrossOriginErrorCode \<Rightarrow> relying_page \<Rightarrow> relying_page" where
  "xc_end code s =
     (if rl_ended s \<noteq> None then s
      else (fold (notify_end code) (rl_listeners s)
             (s\<lparr>rl_ended := Some code, rl_pending := [],
                rl_timers := filter (\<lambda>(n, _). n \<notin> snd ` set (rl_pending s)) (rl_timers s),
                rl_queue := rl_queue s @ map (\<lambda>(_, n). Settle_request n (Inl code)) (rl_pending s)\<rparr>))
           \<lparr>rl_listeners := []\<rparr>)"

section \<open>Requests\<close>

definition xc_id :: "relying \<Rightarrow> relying_page \<Rightarrow> string" where
  "xc_id r s = randomId (xo_random (xr_options r) (rl_drawn s))"

text \<open>\<open>request\<close> under the next number, with the message that \<open>msg\<close> makes of a fresh id.\<close>

definition xc_request ::
  "relying \<Rightarrow> relying_request \<Rightarrow> (string \<Rightarrow> CrossOriginMessage) \<Rightarrow> nat \<Rightarrow> relying_page \<Rightarrow> relying_page" where
  "xc_request r k msg n s =
     (let i = xc_id r s; s' = s\<lparr>rl_drawn := Suc (rl_drawn s), rl_open := jm_set n k (rl_open s)\<rparr> in
      case rl_ended s of
        Some code \<Rightarrow> xc_queue (Settle_request n (Inl code)) s'
      | None \<Rightarrow> xc_post r (msg i)
          (s'\<lparr>rl_timers := jm_set n i (rl_timers s), rl_pending := jm_set i n (rl_pending s)\<rparr>))"

text \<open>What \<open>connectCrossOrigin\<close> does with an error, and with the grant.\<close>

definition connect_fails :: "CrossOriginErrorCode \<Rightarrow> relying_page \<Rightarrow> relying_page" where
  "connect_fails code s = xc_log (X_failed code) (xc_log X_closed (xc_end code s))"

definition xc_granted :: "relying \<Rightarrow> GrantInfo \<Rightarrow> bool" where
  "xc_granted r info \<longleftrightarrow>
     set (gi_kinds info) \<subseteq> set (xo_kinds (xr_options r)) \<and> set (gi_audiences info) \<subseteq> set (xr_audiences r)
     \<and> (truthy_str (xo_expectedPubkey (xr_options r)) \<longrightarrow> xo_expectedPubkey (xr_options r) = Some (gi_pubkey info))"

definition xc_connected :: "relying \<Rightarrow> CrossOriginMessage \<Rightarrow> relying_page \<Rightarrow> relying_page" where
  "xc_connected r msg s =
     (case msg of
        M_connected _ info \<Rightarrow>
          if xc_granted r info then xc_log (X_connected info) (s\<lparr>rl_grant := Some info, rl_listeners := []\<rparr>)
          else connect_fails SIGNER_ERROR s
      | _ \<Rightarrow> connect_fails SIGNER_ERROR s)"

definition xc_signed :: "relying \<Rightarrow> nat \<Rightarrow> EventTemplate \<Rightarrow> CrossOriginMessage \<Rightarrow> relying_page \<Rightarrow> relying_page" where
  "xc_signed r n tmpl msg s =
     (case (msg, rl_grant s) of
        (M_signed _ event, Some grant) \<Rightarrow>
          if ev_pubkey event \<noteq> gi_pubkey grant \<or> \<not> sameEvent tmpl event \<or> \<not> xo_verifyEvent (xr_options r) event
          then xc_log (X_refused n SIGNER_ERROR) s
          else xc_log (X_signed n event) s
      | _ \<Rightarrow> xc_log (X_refused n SIGNER_ERROR) s)"

definition connect_message :: "relying \<Rightarrow> string \<Rightarrow> CrossOriginMessage" where
  "connect_message r i =
     M_connect i (xo_kinds (xr_options r)) (xr_audiences r)
       (if truthy_str (xo_expectedPubkey (xr_options r)) then xo_expectedPubkey (xr_options r) else None)"

section \<open>Continuations\<close>

text \<open>A promise that is settled twice keeps its first outcome.\<close>

primrec settle :: "relying \<Rightarrow> settlement \<Rightarrow> relying_page \<Rightarrow> relying_page" where
  "settle r (Settle_ready outcome) s =
     (if \<not> rl_waiting s then s
      else let s' = s\<lparr>rl_waiting := False\<rparr> in
           case outcome of
             Some code \<Rightarrow> connect_fails code s'
           | None \<Rightarrow> xc_request r Req_connect (connect_message r) (rl_next s') (s'\<lparr>rl_next := Suc (rl_next s')\<rparr>))"
| "settle r (Settle_request n outcome) s =
     (case jm_get (rl_open s) n of
        None \<Rightarrow> s
      | Some k \<Rightarrow>
          let s' = s\<lparr>rl_open := jm_delete n (rl_open s)\<rparr> in
          case (k, outcome) of
            (Req_connect, Inl code) \<Rightarrow> connect_fails code s'
          | (Req_connect, Inr msg) \<Rightarrow> xc_connected r msg s'
          | (Req_sign tmpl, Inl code) \<Rightarrow> xc_log (X_refused n code) s'
          | (Req_sign tmpl, Inr msg) \<Rightarrow> xc_signed r n tmpl msg s')"

definition xc_drain :: "relying \<Rightarrow> relying_page \<Rightarrow> relying_page" where
  "xc_drain r s = fold (settle r) (rl_queue s) (s\<lparr>rl_queue := []\<rparr>)"

text \<open>
  The microtasks after an input. Two rounds empty the queue: only the end of the grant queues
  in the first, and what it queues fails without queueing (\<open>flush_empties\<close>).
\<close>

definition xc_flush :: "relying \<Rightarrow> relying_page \<Rightarrow> relying_page" where
  "xc_flush r s = xc_drain r (xc_drain r s)"

section \<open>Messages\<close>

definition xc_answer :: "string option \<Rightarrow> (CrossOriginErrorCode + CrossOriginMessage) \<Rightarrow> relying_page \<Rightarrow> relying_page" where
  "xc_answer i outcome s =
     (case Option.bind i (jm_get (rl_pending s)) of
        None \<Rightarrow> s
      | Some n \<Rightarrow>
          let s' = xc_queue (Settle_request n outcome)
                     (s\<lparr>rl_pending := jm_delete (the i) (rl_pending s), rl_timers := jm_delete n (rl_timers s)\<rparr>)
          in case outcome of
               Inl code \<Rightarrow> if code = REVOKED \<or> code = GRANT_EXPIRED then xc_end code s' else s'
             | Inr _ \<Rightarrow> s')"

fun xc_dispatch :: "CrossOriginMessage \<Rightarrow> relying_page \<Rightarrow> relying_page" where
  "xc_dispatch M_ready s =
     (if \<not> rl_ready s
      then xc_queue (Settle_ready None) (s\<lparr>rl_ready := True, rl_readyTimer := False\<rparr>)
      else if rl_grant s \<noteq> None then xc_end REVOKED s else s)"
| "xc_dispatch (M_revoked grantId) s =
     (case rl_grant s of
        Some grant \<Rightarrow> if grantId = gi_grantId grant then xc_end REVOKED s else s
      | None \<Rightarrow> s)"
| "xc_dispatch (M_connected i g) s = xc_answer (Some i) (Inr (M_connected i g)) s"
| "xc_dispatch (M_signed i ev) s = xc_answer (Some i) (Inr (M_signed i ev)) s"
| "xc_dispatch (M_error i code) s = xc_answer i (Inl code) s"
| "xc_dispatch _ s = s"

text \<open>The end of the grant removes the listener.\<close>

definition xc_listener :: "relying \<Rightarrow> relying_window \<Rightarrow> string \<Rightarrow> json \<Rightarrow> relying_page \<Rightarrow> relying_page" where
  "xc_listener r source origin data s =
     (if rl_ended s \<noteq> None \<or> source \<noteq> xr_popup r \<or> origin \<noteq> xr_keyOrigin r then s
      else case parseMessage data of
             None \<Rightarrow> s
           | Some msg \<Rightarrow> xc_dispatch msg s)"

section \<open>The handle\<close>

definition xc_isActive :: "relying_page \<Rightarrow> bool" where
  "xc_isActive s \<longleftrightarrow>
     rl_ended s = None \<and> (case rl_grant s of None \<Rightarrow> False | Some grant \<Rightarrow> of_int (rl_now s) < gi_expiresAt grant)"

definition xc_getNpub :: "relying \<Rightarrow> relying_page \<Rightarrow> CrossOriginErrorCode + string" where
  "xc_getNpub r s =
     (case rl_grant s of
        Some grant \<Rightarrow>
          if xc_isActive s then Inr (xo_npubEncode (xr_options r) (gi_pubkey grant))
          else Inl (or_else (rl_ended s) GRANT_EXPIRED)
      | None \<Rightarrow> Inl (or_else (rl_ended s) GRANT_EXPIRED))"

definition xc_signEvent :: "relying \<Rightarrow> EventTemplate \<Rightarrow> relying_page \<Rightarrow> relying_page" where
  "xc_signEvent r tmpl s =
     (let n = rl_next s; s' = xc_log (X_called n tmpl) (s\<lparr>rl_next := Suc n\<rparr>) in
      case (rl_grant s, rl_ended s) of
        (Some grant, None) \<Rightarrow>
          if gi_expiresAt grant \<le> of_int (rl_now s)
          then xc_log (X_refused n GRANT_EXPIRED) (xc_end GRANT_EXPIRED s')
          else xc_request r (Req_sign tmpl) (\<lambda>i. M_sign i (gi_grantId grant) tmpl) n s'
      | (_, ended) \<Rightarrow> xc_log (X_refused n (or_else ended REVOKED)) s')"

definition xc_onEnd :: "nat \<Rightarrow> relying_page \<Rightarrow> relying_page" where
  "xc_onEnd n s =
     (case rl_ended s of
        Some code \<Rightarrow> xc_log (X_notified n code) s
      | None \<Rightarrow>
          if Listener n \<in> set (rl_listeners s) then s
          else s\<lparr>rl_listeners := rl_listeners s @ [Listener n]\<rparr>)"

definition xc_disconnect :: "relying \<Rightarrow> relying_page \<Rightarrow> relying_page" where
  "xc_disconnect r s =
     xc_log X_closed (xc_end REVOKED
       (case (rl_grant s, rl_ended s) of
          (Some grant, None) \<Rightarrow> xc_post r (M_disconnect (gi_grantId grant)) s
        | _ \<Rightarrow> s))"

section \<open>Inputs\<close>

datatype relying_input =
    I_message relying_window string json
  | I_ready_timer
  | I_request_timer nat
  | I_poll bool
  | I_getNpub
  | I_signEvent EventTemplate
  | I_onEnd nat
  | I_offEnd nat
  | I_disconnect
  | I_clock int

primrec xc_input :: "relying \<Rightarrow> relying_input \<Rightarrow> relying_page \<Rightarrow> relying_page" where
  "xc_input r (I_message source origin data) s = xc_listener r source origin data s"
| "xc_input r I_ready_timer s =
     (if rl_readyTimer s then xc_queue (Settle_ready (Some NOT_AVAILABLE)) (s\<lparr>rl_readyTimer := False\<rparr>) else s)"
| "xc_input r (I_request_timer n) s =
     (case jm_get (rl_timers s) n of
        None \<Rightarrow> s
      | Some i \<Rightarrow> xc_queue (Settle_request n (Inl TIMEOUT))
          (s\<lparr>rl_timers := jm_delete n (rl_timers s), rl_pending := jm_delete i (rl_pending s)\<rparr>))"
| "xc_input r (I_poll gone) s = (if gone then xc_end CHANNEL_CLOSED s else s)"
| "xc_input r I_getNpub s = xc_log (X_npub (xc_getNpub r s)) s"
| "xc_input r (I_signEvent tmpl) s = xc_signEvent r tmpl s"
| "xc_input r (I_onEnd n) s = xc_onEnd n s"
| "xc_input r (I_offEnd n) s = s\<lparr>rl_listeners := removeAll (Listener n) (rl_listeners s)\<rparr>"
| "xc_input r I_disconnect s = xc_disconnect r s"
| "xc_input r (I_clock now) s = s\<lparr>rl_now := now\<rparr>"

definition xc_step :: "relying \<Rightarrow> relying_input \<Rightarrow> relying_page \<Rightarrow> relying_page" where
  "xc_step r i s = xc_flush r (xc_input r i s)"

section \<open>Connecting\<close>

datatype connect_error = Connect_origin origin_error | Connect_empty | Connect_url | Connect_blocked

definition opened_page :: "int \<Rightarrow> string \<Rightarrow> relying_page" where
  "opened_page now url =
     \<lparr>rl_pending = [], rl_timers = [], rl_open = [], rl_listeners = [Internal], rl_grant = None, rl_ended = None,
      rl_ready = False, rl_waiting = True, rl_readyTimer = True, rl_queue = [], rl_next = 0, rl_drawn = 0,
      rl_now = now, rl_trace = [X_opened url]\<rparr>"

definition connectCrossOrigin ::
  "ConnectCrossOriginOptions \<Rightarrow> int \<Rightarrow> connect_error + (relying \<times> relying_page)" where
  "connectCrossOrigin opts now =
     (case (normalizeOrigin (xo_url opts) (xo_keyOrigin opts), map_or_throw (normalizeOrigin (xo_url opts)) (xo_audiences opts)) of
        (Inl e, _) \<Rightarrow> Inl (Connect_origin e)
      | (_, Inl e) \<Rightarrow> Inl (Connect_origin e)
      | (Inr keyOrigin, Inr audiences) \<Rightarrow>
          if xo_kinds opts = [] \<or> audiences = [] then Inl Connect_empty
          else case xo_resolve opts (or_else (xo_signerPath opts) DEFAULT_SIGNER_PATH) keyOrigin of
                 None \<Rightarrow> Inl Connect_url
               | Some url \<Rightarrow>
                   (case xo_open opts url ''_blank'' (or_else (xo_windowFeatures opts) DEFAULT_FEATURES) of
                      None \<Rightarrow> Inl Connect_blocked
                    | Some popup \<Rightarrow>
                        Inr (\<lparr>xr_options = opts, xr_keyOrigin = keyOrigin, xr_audiences = audiences, xr_popup = popup\<rparr>,
                             opened_page now url)))"

end
