(* ===== verification/WebClientFacts.thy ===== *)
theory WebClientFacts
  imports WebClient
begin

text \<open>
  What every run of the relying end keeps: an event is only handed out for the template that
  was asked for, by the key of the grant and with a valid signature; a grant that has ended
  stays ended; and a call that is under way has a timer.
\<close>

section \<open>The queue\<close>

lemma xc_log_sel [simp]:
  "rl_pending (xc_log e s) = rl_pending s" "rl_timers (xc_log e s) = rl_timers s" "rl_open (xc_log e s) = rl_open s"
  "rl_listeners (xc_log e s) = rl_listeners s" "rl_grant (xc_log e s) = rl_grant s" "rl_ended (xc_log e s) = rl_ended s"
  "rl_ready (xc_log e s) = rl_ready s" "rl_waiting (xc_log e s) = rl_waiting s" "rl_queue (xc_log e s) = rl_queue s"
  "rl_next (xc_log e s) = rl_next s" "rl_drawn (xc_log e s) = rl_drawn s" "rl_now (xc_log e s) = rl_now s"
  "rl_trace (xc_log e s) = rl_trace s @ [e]"
  by (simp_all add: xc_log_def)

lemma xc_queue_sel [simp]:
  "rl_pending (xc_queue x s) = rl_pending s" "rl_timers (xc_queue x s) = rl_timers s" "rl_open (xc_queue x s) = rl_open s"
  "rl_listeners (xc_queue x s) = rl_listeners s" "rl_grant (xc_queue x s) = rl_grant s" "rl_ended (xc_queue x s) = rl_ended s"
  "rl_ready (xc_queue x s) = rl_ready s" "rl_waiting (xc_queue x s) = rl_waiting s"
  "rl_queue (xc_queue x s) = rl_queue s @ [x]"
  "rl_next (xc_queue x s) = rl_next s" "rl_drawn (xc_queue x s) = rl_drawn s" "rl_now (xc_queue x s) = rl_now s"
  "rl_trace (xc_queue x s) = rl_trace s"
  by (simp_all add: xc_queue_def)

text \<open>A settlement that only refuses.\<close>

fun refusing :: "settlement \<Rightarrow> bool" where
  "refusing (Settle_ready outcome) \<longleftrightarrow> outcome \<noteq> None"
| "refusing (Settle_request n outcome) \<longleftrightarrow> isl outcome"

lemma notify_all:
  "rl_open (fold (notify_end code) ls s) = rl_open s" "rl_grant (fold (notify_end code) ls s) = rl_grant s"
  "rl_ended (fold (notify_end code) ls s) = rl_ended s" "rl_waiting (fold (notify_end code) ls s) = rl_waiting s"
  "rl_pending (fold (notify_end code) ls s) = rl_pending s" "rl_timers (fold (notify_end code) ls s) = rl_timers s"
  "rl_next (fold (notify_end code) ls s) = rl_next s" "rl_now (fold (notify_end code) ls s) = rl_now s"
  "rl_ready (fold (notify_end code) ls s) = rl_ready s" "rl_drawn (fold (notify_end code) ls s) = rl_drawn s"
  "\<exists>q. rl_queue (fold (notify_end code) ls s) = rl_queue s @ q \<and> list_all refusing q"
  "\<exists>ns. rl_trace (fold (notify_end code) ls s) = rl_trace s @ map (\<lambda>n. X_notified n code) ns"
proof -
  show "rl_open (fold (notify_end code) ls s) = rl_open s" "rl_grant (fold (notify_end code) ls s) = rl_grant s"
    "rl_ended (fold (notify_end code) ls s) = rl_ended s" "rl_waiting (fold (notify_end code) ls s) = rl_waiting s"
    "rl_pending (fold (notify_end code) ls s) = rl_pending s" "rl_timers (fold (notify_end code) ls s) = rl_timers s"
    "rl_next (fold (notify_end code) ls s) = rl_next s" "rl_now (fold (notify_end code) ls s) = rl_now s"
    "rl_ready (fold (notify_end code) ls s) = rl_ready s" "rl_drawn (fold (notify_end code) ls s) = rl_drawn s"
    by (induction ls arbitrary: s; simp; case_tac a; simp)+
  show "\<exists>q. rl_queue (fold (notify_end code) ls s) = rl_queue s @ q \<and> list_all refusing q"
  proof (induction ls arbitrary: s)
    case (Cons l ls)
    obtain q where "rl_queue (fold (notify_end code) ls (notify_end code l s)) = rl_queue (notify_end code l s) @ q"
      "list_all refusing q" using Cons by blast
    then show ?case
      by (cases l) (simp_all add: exI [of _ "Settle_ready (Some code) # q"])
  qed simp
  show "\<exists>ns. rl_trace (fold (notify_end code) ls s) = rl_trace s @ map (\<lambda>n. X_notified n code) ns"
  proof (induction ls arbitrary: s)
    case (Cons l ls)
    show ?case
    proof (cases l)
      case (Listener n)
      obtain ns where "rl_trace (fold (notify_end code) ls (notify_end code l s)) =
          rl_trace (notify_end code l s) @ map (\<lambda>n. X_notified n code) ns" using Cons by blast
      then show ?thesis using Listener by (intro exI [of _ "n # ns"]) simp
    next
      case Internal
      then show ?thesis using Cons [of "notify_end code l s"] by simp
    qed
  qed simp
qed

lemma end_sel [simp]:
  "rl_open (xc_end code s) = rl_open s" "rl_grant (xc_end code s) = rl_grant s" "rl_waiting (xc_end code s) = rl_waiting s"
  "rl_next (xc_end code s) = rl_next s" "rl_now (xc_end code s) = rl_now s" "rl_drawn (xc_end code s) = rl_drawn s"
  "rl_ended (xc_end code s) = Some (or_else (rl_ended s) code)"
  by (auto simp: xc_end_def notify_all or_else_def)

lemma end_ended: "rl_ended s \<noteq> None \<Longrightarrow> xc_end code s = s"
  by (simp add: xc_end_def)

lemma end_queue: "\<exists>q. rl_queue (xc_end code s) = rl_queue s @ q \<and> list_all refusing q"
proof (cases "rl_ended s")
  case None
  let ?s = "s\<lparr>rl_ended := Some code, rl_pending := [],
      rl_timers := filter (\<lambda>(n, _). n \<notin> snd ` set (rl_pending s)) (rl_timers s),
      rl_queue := rl_queue s @ map (\<lambda>(_, n). Settle_request n (Inl code)) (rl_pending s)\<rparr>"
  obtain q where "rl_queue (fold (notify_end code) (rl_listeners s) ?s) = rl_queue ?s @ q" "list_all refusing q"
    using notify_all(11) by blast
  then show ?thesis using None
    by (intro exI [of _ "map (\<lambda>(_, n). Settle_request n (Inl code)) (rl_pending s) @ q"])
      (auto simp: xc_end_def list_all_iff)
qed (simp add: xc_end_def)

lemma end_trace: "\<exists>ns. rl_trace (xc_end code s) = rl_trace s @ map (\<lambda>n. X_notified n code) ns"
proof (cases "rl_ended s")
  case None
  let ?s = "s\<lparr>rl_ended := Some code, rl_pending := [],
      rl_timers := filter (\<lambda>(n, _). n \<notin> snd ` set (rl_pending s)) (rl_timers s),
      rl_queue := rl_queue s @ map (\<lambda>(_, n). Settle_request n (Inl code)) (rl_pending s)\<rparr>"
  have "\<exists>ns. rl_trace (fold (notify_end code) (rl_listeners s) ?s) = rl_trace ?s @ map (\<lambda>n. X_notified n code) ns"
    by (rule notify_all(12))
  then show ?thesis using None by (simp add: xc_end_def)
qed (simp add: xc_end_def)

text \<open>After a first round, what is queued refuses, and only an ended grant has queued it.\<close>

definition hushed :: "relying_page \<Rightarrow> bool" where
  "hushed s \<longleftrightarrow> list_all refusing (rl_queue s) \<and> (rl_queue s \<noteq> [] \<longrightarrow> rl_ended s \<noteq> None)"

lemma hushed_log [simp]: "hushed (xc_log e s) \<longleftrightarrow> hushed s"
  by (simp add: hushed_def)

lemma hushed_end: "hushed s \<Longrightarrow> hushed (xc_end code s)"
  using end_queue [of code s] by (auto simp: hushed_def)

lemma hushed_fails: "hushed s \<Longrightarrow> hushed (connect_fails code s)"
  by (simp add: connect_fails_def hushed_end)

lemma hushed_request: "hushed s \<Longrightarrow> hushed (xc_request r k msg n s)"
  by (auto simp: hushed_def xc_request_def xc_post_def Let_def split: option.splits)

lemma hushed_same: "hushed s \<Longrightarrow> rl_queue s' = rl_queue s \<Longrightarrow> rl_ended s' = rl_ended s \<Longrightarrow> hushed s'"
  by (simp add: hushed_def)

lemma hushed_settle: "hushed s \<Longrightarrow> hushed (settle r x s)"
proof (cases x)
  case (Settle_ready outcome)
  assume s: "hushed s"
  then have "hushed (s\<lparr>rl_waiting := False\<rparr>)" "hushed (s\<lparr>rl_waiting := False, rl_next := n\<rparr>)" for n by (simp_all add: hushed_def)
  then show ?thesis using s Settle_ready
    by (auto simp: Let_def intro: hushed_fails hushed_request split: option.splits)
next
  case (Settle_request n outcome)
  assume s: "hushed s"
  have q: "hushed (s\<lparr>rl_open := o'\<rparr>)" "hushed (s\<lparr>rl_open := o', rl_grant := g, rl_listeners := ls\<rparr>)" for o' g ls
    using s by (simp_all add: hushed_def)
  show ?thesis using s Settle_request q
    by (auto simp: Let_def xc_connected_def xc_signed_def intro!: hushed_fails
        split: option.splits relying_request.splits sum.splits CrossOriginMessage.splits)
qed

lemma hushed_drain: "hushed (xc_drain r s)"
proof -
  have "hushed s' \<Longrightarrow> hushed (fold (settle r) xs s')" for xs s'
    by (induction xs arbitrary: s') (simp_all add: hushed_settle)
  then show ?thesis by (simp add: xc_drain_def hushed_def)
qed

lemma settle_refuses:
  assumes "refusing x" and "rl_ended s \<noteq> None" and "rl_queue s = []"
  shows "rl_ended (settle r x s) = rl_ended s \<and> rl_queue (settle r x s) = []"
  using assms
  by (cases x) (auto simp: Let_def connect_fails_def end_ended split: option.splits relying_request.splits sum.splits)

theorem flush_empties: "rl_queue (xc_flush r s) = []"
proof -
  let ?s = "xc_drain r s"
  have q: "hushed ?s" by (rule hushed_drain)
  have "rl_queue (fold (settle r) xs s') = []"
    if "list_all refusing xs" "xs \<noteq> [] \<longrightarrow> rl_ended s' \<noteq> None" "rl_queue s' = []" for xs s'
    using that
  proof (induction xs arbitrary: s')
    case (Cons x xs)
    then show ?case using settle_refuses [of x s' r] by simp
  qed simp
  then show ?thesis using q by (simp add: xc_flush_def xc_drain_def [of r "xc_drain r s"] hushed_def)
qed

section \<open>Signatures\<close>

text \<open>What it means that a call of \<open>signEvent\<close> may return an event.\<close>

definition event_ok :: "relying \<Rightarrow> relying_effect list \<Rightarrow> nat \<Rightarrow> Nip98Event \<Rightarrow> bool" where
  "event_ok r tr n ev \<longleftrightarrow>
     (\<exists>g i. X_connected g \<in> set tr \<and> xc_granted r g \<and> ev_pubkey ev = gi_pubkey g
        \<and> X_called n (event_template ev) \<in> set tr
        \<and> X_posted (xr_keyOrigin r) (M_sign i (gi_grantId g) (event_template ev)) \<in> set tr
        \<and> xo_verifyEvent (xr_options r) ev)"

definition request_sent :: "relying \<Rightarrow> relying_page \<Rightarrow> nat \<Rightarrow> relying_request \<Rightarrow> bool" where
  "request_sent r s n k \<longleftrightarrow>
     (case k of
        Req_connect \<Rightarrow> True
      | Req_sign tmpl \<Rightarrow>
          X_called n tmpl \<in> set (rl_trace s)
          \<and> (\<exists>g i. rl_grant s = Some g
               \<and> X_posted (xr_keyOrigin r) (M_sign i (gi_grantId g) tmpl) \<in> set (rl_trace s)))"

fun connecting :: "nat \<times> relying_request \<Rightarrow> bool" where
  "connecting (n, Req_connect) \<longleftrightarrow> True"
| "connecting (n, Req_sign _) \<longleftrightarrow> False"

text \<open>The page waits for \<open>ready\<close>, or for the grant, or has it: at most one of them, once.\<close>

definition phases :: "relying_page \<Rightarrow> nat" where
  "phases s = of_bool (rl_waiting s) + length (filter connecting (rl_open s)) + of_bool (rl_grant s \<noteq> None)"

definition xc_inv :: "relying \<Rightarrow> relying_page \<Rightarrow> bool" where
  "xc_inv r s \<longleftrightarrow>
     (\<forall>g. rl_grant s = Some g \<longrightarrow> X_connected g \<in> set (rl_trace s) \<and> xc_granted r g)
     \<and> (\<forall>(n, k)\<in>set (rl_open s). request_sent r s n k)
     \<and> phases s \<le> 1
     \<and> (\<forall>n ev. X_signed n ev \<in> set (rl_trace s) \<longrightarrow> event_ok r (rl_trace s) n ev)"

lemma event_ok_mono: "event_ok r tr n ev \<Longrightarrow> set tr \<subseteq> set tr' \<Longrightarrow> event_ok r tr' n ev"
  unfolding event_ok_def by blast

lemma request_sent_mono:
  "request_sent r s n k \<Longrightarrow> rl_grant s' = rl_grant s \<Longrightarrow> set (rl_trace s) \<subseteq> set (rl_trace s') \<Longrightarrow> request_sent r s' n k"
  by (fastforce simp: request_sent_def split: relying_request.splits)

text \<open>A state with fewer open requests and a longer trace, without a new signature.\<close>

lemma xc_inv_grows:
  assumes "xc_inv r s" and "rl_grant s' = rl_grant s" and "rl_waiting s' \<longrightarrow> rl_waiting s"
    and "set (rl_open s') \<subseteq> set (rl_open s)" and "length (filter connecting (rl_open s')) \<le> length (filter connecting (rl_open s))"
    and "rl_trace s' = rl_trace s @ es" and "\<forall>n ev. X_signed n ev \<in> set es \<longrightarrow> event_ok r (rl_trace s') n ev"
  shows "xc_inv r s'"
proof -
  have "phases s' \<le> 1" using assms(1-3,5) by (auto simp: xc_inv_def phases_def)
  moreover have "\<forall>(n, k)\<in>set (rl_open s'). request_sent r s' n k"
    using assms(1,2,4,6) request_sent_mono [of r s _ _ s'] by (fastforce simp: xc_inv_def)
  moreover have "\<forall>n ev. X_signed n ev \<in> set (rl_trace s') \<longrightarrow> event_ok r (rl_trace s') n ev"
    using assms(1,6,7) event_ok_mono [of r "rl_trace s" _ _ "rl_trace s'"] by (auto simp: xc_inv_def)
  ultimately show ?thesis using assms(1,2,6) by (auto simp: xc_inv_def)
qed

lemma xc_inv_log: "xc_inv r s \<Longrightarrow> (\<And>n ev. e \<noteq> X_signed n ev) \<Longrightarrow> xc_inv r (xc_log e s)"
  by (rule xc_inv_grows [of r s _ "[e]"]) auto

lemma xc_inv_same:
  "xc_inv r s \<Longrightarrow> rl_grant s' = rl_grant s \<Longrightarrow> rl_waiting s' = rl_waiting s \<Longrightarrow> rl_open s' = rl_open s
     \<Longrightarrow> rl_trace s' = rl_trace s \<Longrightarrow> xc_inv r s'"
  by (rule xc_inv_grows [of r s _ "[]"]) auto

lemma xc_inv_queue: "xc_inv r s \<Longrightarrow> xc_inv r (xc_queue x s)"
  by (rule xc_inv_same) auto

lemma xc_inv_end:
  assumes "xc_inv r s"
  shows "xc_inv r (xc_end code s)"
proof -
  obtain ns where "rl_trace (xc_end code s) = rl_trace s @ map (\<lambda>n. X_notified n code) ns" using end_trace by blast
  then show ?thesis using assms by (rule_tac xc_inv_grows [of r s]) auto
qed

lemma xc_inv_fails: "xc_inv r s \<Longrightarrow> xc_inv r (connect_fails code s)"
  unfolding connect_fails_def by (intro xc_inv_log xc_inv_end) auto

lemma connecting_set:
  "length (filter connecting (jm_set n k xs)) \<le> length (filter connecting xs) + of_bool (connecting (n, k))"
  unfolding jm_set_def by (induction xs) auto

lemma in_jm_delete: "x \<in> set (jm_delete n xs) \<Longrightarrow> x \<in> set xs"
  by (simp add: jm_delete_def)

lemma connecting_delete:
  "length (filter connecting (jm_delete n xs)) \<le> length (filter connecting xs)"
  "jm_get xs n = Some Req_connect \<Longrightarrow> length (filter connecting (jm_delete n xs)) < length (filter connecting xs)"
  unfolding jm_delete_def jm_get_def by (induction xs) (auto simp: filter_filter less_Suc_eq_le)

lemma xc_inv_request:
  assumes "xc_inv r s" and "phases s + of_bool (connecting (n, k)) \<le> 1"
    and "rl_ended s = None \<longrightarrow> request_sent r (xc_post r (msg (xc_id r s)) s) n k"
    and "rl_ended s \<noteq> None \<longrightarrow> k = Req_connect"
  shows "xc_inv r (xc_request r k msg n s)"
proof -
  have o': "rl_open (xc_request r k msg n s) = jm_set n k (rl_open s)"
    "rl_waiting (xc_request r k msg n s) = rl_waiting s" "rl_grant (xc_request r k msg n s) = rl_grant s"
    "rl_trace (xc_request r k msg n s) =
       (if rl_ended s = None then rl_trace s @ [X_posted (xr_keyOrigin r) (msg (xc_id r s))] else rl_trace s)"
    by (auto simp: xc_request_def xc_post_def Let_def split: option.splits)
  have "phases (xc_request r k msg n s) \<le> 1"
    using assms(2) connecting_set [of n k "rl_open s"] by (simp add: phases_def o')
  moreover have "request_sent r (xc_request r k msg n s) n k"
  proof (cases "rl_ended s")
    case None
    then show ?thesis
      using assms(3) request_sent_mono [of r "xc_post r (msg (xc_id r s)) s" n k "xc_request r k msg n s"]
      by (simp add: o' xc_post_def)
  qed (use assms(4) in \<open>simp add: request_sent_def\<close>)
  moreover have "request_sent r (xc_request r k msg n s) n' k'" if "(n', k') \<in> set (rl_open s)" for n' k'
    using assms(1) that request_sent_mono [of r s n' k' "xc_request r k msg n s"] by (fastforce simp: xc_inv_def o')
  ultimately have "\<forall>(n', k')\<in>set (rl_open (xc_request r k msg n s)). request_sent r (xc_request r k msg n s) n' k'"
    using set_jm_set [of n k "rl_open s"] unfolding o'(1) by blast
  moreover have "\<forall>n' ev. X_signed n' ev \<in> set (rl_trace (xc_request r k msg n s)) \<longrightarrow>
      event_ok r (rl_trace (xc_request r k msg n s)) n' ev"
  proof (intro allI impI)
    fix n' ev assume "X_signed n' ev \<in> set (rl_trace (xc_request r k msg n s))"
    then have "event_ok r (rl_trace s) n' ev" using assms(1) by (auto simp: xc_inv_def o' split: if_splits)
    then show "event_ok r (rl_trace (xc_request r k msg n s)) n' ev" by (rule event_ok_mono) (auto simp: o')
  qed
  ultimately show ?thesis using assms(1) \<open>phases (xc_request r k msg n s) \<le> 1\<close> by (simp add: xc_inv_def o')
qed

lemma xc_inv_settle:
  assumes "xc_inv r s"
  shows "xc_inv r (settle r x s)"
proof (cases x)
  case (Settle_ready outcome)
  show ?thesis
  proof (cases "rl_waiting s")
    case True
    let ?s = "s\<lparr>rl_waiting := False, rl_next := Suc (rl_next s)\<rparr>"
    have i: "xc_inv r ?s" by (rule xc_inv_grows [OF assms, of _ "[]"]) auto
    have "phases ?s = 0" using assms True by (simp add: xc_inv_def phases_def)
    then have "xc_inv r (xc_request r Req_connect (connect_message r) (rl_next s) ?s)"
      by (intro xc_inv_request i) (auto simp: request_sent_def)
    moreover have "xc_inv r (s\<lparr>rl_waiting := False\<rparr>)" by (rule xc_inv_grows [OF assms, of _ "[]"]) auto
    ultimately show ?thesis using True Settle_ready by (simp add: Let_def xc_inv_fails split: option.split)
  qed (simp add: Settle_ready assms)
next
  case (Settle_request n outcome)
  show ?thesis
  proof (cases "jm_get (rl_open s) n")
    case (Some k)
    let ?s = "s\<lparr>rl_open := jm_delete n (rl_open s)\<rparr>"
    have i: "xc_inv r ?s"
      by (rule xc_inv_grows [OF assms, of _ "[]"]) (auto simp: connecting_delete(1) dest: in_jm_delete)
    have sent: "request_sent r s n k" using assms jm_get_in [OF Some] by (auto simp: xc_inv_def)
    have connect: "xc_inv r (xc_connected r msg ?s)" if "k = Req_connect" for msg
    proof -
      have "phases ?s < phases s" using connecting_delete(2) [OF Some [unfolded that]] by (simp add: phases_def)
      moreover have "phases s \<le> 1" using assms by (simp add: xc_inv_def)
      ultimately have "phases ?s = 0" by simp
      moreover from this have "rl_grant s = None" by (simp add: phases_def split: if_splits)
      ultimately have "xc_inv r (xc_log (X_connected g) (?s\<lparr>rl_grant := Some g, rl_listeners := []\<rparr>))" if "xc_granted r g" for g
        using i that event_ok_mono [of r "rl_trace s" _ _ "rl_trace s @ [X_connected g]"]
        by (fastforce simp: xc_inv_def phases_def request_sent_def split: relying_request.splits)
      then show ?thesis using i by (auto simp: xc_connected_def intro: xc_inv_fails split: CrossOriginMessage.split)
    qed
    have sign: "xc_inv r (xc_signed r n tmpl msg ?s)" if "k = Req_sign tmpl" for tmpl msg
    proof -
      have "xc_inv r (xc_log (X_signed n ev) ?s)"
        if ev: "rl_grant s = Some g" "ev_pubkey ev = gi_pubkey g" "sameEvent tmpl ev" "xo_verifyEvent (xr_options r) ev"
        for g ev
      proof -
        have "event_ok r (rl_trace s) n ev"
          using sent ev assms \<open>k = Req_sign tmpl\<close>
          by (auto simp: event_ok_def request_sent_def xc_inv_def sameEvent_iff)
        then show ?thesis
          by (intro xc_inv_grows [OF i, of _ "[X_signed n ev]"]) (auto elim: event_ok_mono)
      qed
      then show ?thesis using i
        by (auto simp: xc_signed_def intro: xc_inv_log split: CrossOriginMessage.split option.split)
    qed
    show ?thesis using Some i connect sign Settle_request
      by (cases k; cases outcome) (auto simp: Let_def intro: xc_inv_fails xc_inv_log)
  qed (simp add: Settle_request assms)
qed

lemma xc_inv_drain: "xc_inv r s \<Longrightarrow> xc_inv r (xc_drain r s)"
proof -
  assume "xc_inv r s"
  then have "xc_inv r (s\<lparr>rl_queue := []\<rparr>)" by (rule xc_inv_same) simp_all
  moreover have "xc_inv r s' \<Longrightarrow> xc_inv r (fold (settle r) xs s')" for xs s'
    by (induction xs arbitrary: s') (simp_all add: xc_inv_settle)
  ultimately show ?thesis by (simp add: xc_drain_def)
qed

lemma xc_inv_answer: "xc_inv r s \<Longrightarrow> xc_inv r (xc_answer i outcome s)"
proof -
  assume s: "xc_inv r s"
  have "xc_inv r (xc_queue x (s\<lparr>rl_pending := p, rl_timers := t\<rparr>))" for x p t
    by (rule xc_inv_queue, rule xc_inv_same [OF s]) simp_all
  then show ?thesis using s by (auto simp: xc_answer_def Let_def intro: xc_inv_end split: option.split sum.split)
qed

lemma xc_inv_dispatch: "xc_inv r s \<Longrightarrow> xc_inv r (xc_dispatch msg s)"
proof (induction msg s rule: xc_dispatch.induct)
  case (1 s)
  have "xc_inv r (s\<lparr>rl_ready := True, rl_readyTimer := False\<rparr>)" by (rule xc_inv_same [OF 1]) simp_all
  then show ?case using 1 by (auto intro: xc_inv_queue xc_inv_end)
qed (auto intro: xc_inv_answer xc_inv_end split: option.splits)

lemma xc_inv_signEvent:
  assumes "xc_inv r s"
  shows "xc_inv r (xc_signEvent r tmpl s)"
proof -
  let ?s = "xc_log (X_called (rl_next s) tmpl) (s\<lparr>rl_next := Suc (rl_next s)\<rparr>)"
  have i: "xc_inv r ?s" by (rule xc_inv_log, rule xc_inv_same [OF assms]) simp_all
  have "xc_inv r (xc_request r (Req_sign tmpl) (\<lambda>i. M_sign i (gi_grantId g) tmpl) (rl_next s) ?s)"
    if "rl_grant s = Some g" "rl_ended s = None" for g
  proof -
    have "phases ?s \<le> 1" using i by (simp add: xc_inv_def)
    then show ?thesis using that by (intro xc_inv_request i) (auto simp: request_sent_def xc_post_def)
  qed
  then show ?thesis using i
    by (auto simp: xc_signEvent_def Let_def intro!: xc_inv_log xc_inv_end split: option.split)
qed

lemma xc_inv_input: "xc_inv r s \<Longrightarrow> xc_inv r (xc_input r i s)"
proof (cases i)
  case (I_request_timer n)
  assume s: "xc_inv r s"
  have "xc_inv r (s\<lparr>rl_timers := t, rl_pending := p\<rparr>)" for t p by (rule xc_inv_same [OF s]) simp_all
  then show ?thesis using s I_request_timer by (auto intro: xc_inv_queue split: option.split)
next
  case I_ready_timer
  assume s: "xc_inv r s"
  have "xc_inv r (s\<lparr>rl_readyTimer := False\<rparr>)" by (rule xc_inv_same [OF s]) simp_all
  then show ?thesis using s I_ready_timer by (auto intro: xc_inv_queue)
next
  case (I_message source origin data)
  assume "xc_inv r s"
  then show ?thesis using I_message by (auto simp: xc_listener_def intro: xc_inv_dispatch split: option.split)
next
  case (I_onEnd n)
  assume s: "xc_inv r s"
  have "xc_inv r (s\<lparr>rl_listeners := ls\<rparr>)" for ls by (rule xc_inv_same [OF s]) simp_all
  then show ?thesis using s I_onEnd by (auto simp: xc_onEnd_def intro: xc_inv_log split: option.split)
next
  case (I_offEnd n)
  assume s: "xc_inv r s"
  show ?thesis unfolding I_offEnd by (rule xc_inv_same [OF s]) simp_all
next
  case (I_clock now)
  assume s: "xc_inv r s"
  show ?thesis unfolding I_clock by (rule xc_inv_same [OF s]) simp_all
qed (auto simp: xc_disconnect_def xc_post_def intro!: xc_inv_log xc_inv_end xc_inv_signEvent split: option.split)

lemma xc_step_inv: "xc_inv r s \<Longrightarrow> xc_inv r (xc_step r i s)"
  unfolding xc_step_def xc_flush_def by (intro xc_inv_drain xc_inv_input)

section \<open>The trace only grows\<close>

definition xc_extends :: "relying_page \<Rightarrow> relying_page \<Rightarrow> bool" where
  "xc_extends s s' \<longleftrightarrow> (\<exists>new. rl_trace s' = rl_trace s @ new)"

lemma xc_extends_same: "rl_trace s' = rl_trace s \<Longrightarrow> xc_extends s s'"
  by (simp add: xc_extends_def)

lemma xc_extends_trans: "xc_extends s s' \<Longrightarrow> xc_extends s' s'' \<Longrightarrow> xc_extends s s''"
  by (auto simp: xc_extends_def)

lemma xc_extends_log: "xc_extends s s' \<Longrightarrow> xc_extends s (xc_log e s')"
  by (auto simp: xc_extends_def)

lemma xc_extends_end: "xc_extends s s' \<Longrightarrow> xc_extends s (xc_end code s')"
  using end_trace [of code s'] by (auto simp: xc_extends_def)

lemma xc_extends_request: "xc_extends s s' \<Longrightarrow> xc_extends s (xc_request r k msg n s')"
  by (auto simp: xc_extends_def xc_request_def xc_post_def Let_def split: option.splits)

lemma xc_extends_settle: "xc_extends s (settle r x s)"
  by (cases x) (auto simp: Let_def connect_fails_def xc_connected_def xc_signed_def
      intro!: xc_extends_log xc_extends_end xc_extends_request intro: xc_extends_same
      split: option.split sum.split relying_request.split CrossOriginMessage.split)

lemma xc_extends_drain: "xc_extends s (xc_drain r s)"
proof -
  have "xc_extends s' (fold (settle r) xs s')" for xs s'
  proof (induction xs arbitrary: s')
    case (Cons x xs)
    then show ?case using xc_extends_settle xc_extends_trans by fastforce
  qed (simp add: xc_extends_same)
  from this [of "s\<lparr>rl_queue := []\<rparr>" "rl_queue s"] show ?thesis by (simp add: xc_drain_def xc_extends_def)
qed

lemma xc_extends_answer: "xc_extends s (xc_answer i outcome s)"
  by (auto simp: xc_answer_def Let_def intro!: xc_extends_end intro: xc_extends_same split: option.split sum.split)

lemma xc_extends_dispatch: "xc_extends s (xc_dispatch msg s)"
  by (cases msg) (auto intro!: xc_extends_end xc_extends_answer intro: xc_extends_same split: option.split)

lemma xc_extends_input: "xc_extends s (xc_input r i s)"
  by (cases i) (auto simp: xc_listener_def xc_signEvent_def xc_onEnd_def xc_disconnect_def xc_post_def Let_def
      intro!: xc_extends_log xc_extends_end xc_extends_request xc_extends_dispatch intro: xc_extends_same split: option.split)

lemma xc_step_extends: "xc_extends s (xc_step r i s)"
  unfolding xc_step_def xc_flush_def using xc_extends_input xc_extends_drain xc_extends_trans by meson

interpretation xc: reactive "xc_step r" rl_trace for r
  using xc_step_extends by unfold_locales (simp add: xc_extends_def)

theorem xc_run_inv: "xc_inv r s \<Longrightarrow> xc_inv r (reacts (xc_step r) inputs s)"
  by (rule xc.run_keeps) (rule xc_step_inv)

lemma connected_parts:
  assumes "connectCrossOrigin opts now = Inr (r, s)"
  shows "xr_options r = opts \<and> normalizeOrigin (xo_url opts) (xo_keyOrigin opts) = Inr (xr_keyOrigin r)
     \<and> map_or_throw (normalizeOrigin (xo_url opts)) (xo_audiences opts) = Inr (xr_audiences r)
     \<and> (\<exists>url. s = opened_page now url)"
  using assms by (auto simp: connectCrossOrigin_def split: sum.splits if_splits option.splits)

lemma xc_created_inv: "connectCrossOrigin opts now = Inr (r, s) \<Longrightarrow> xc_inv r s"
  using connected_parts [of opts now r s] by (auto simp: xc_inv_def phases_def opened_page_def)

end
