(* ===== verification/WebSigner.thy ===== *)
theory WebSigner
  imports WebProtocol Reactive "HOL-Library.List_Lexorder"
begin

text \<open>
  nap-client-web, the signer page of the key origin (\<open>crossOriginSigner.ts\<close>): a page that
  another origin opens, asks for a grant and has events signed by.

  The page is a program that reacts. Each \<open>await\<close> of its two handlers ends a step: the rest
  of the handler waits as a \<open>task\<close> with the variables it has captured, under a number, until
  the input \<open>Answered\<close> brings what was awaited; any other input may come first. The trace
  has what the page does: the messages it posts (with the origin they are addressed to), the
  calls it makes to the application, what they were answered. Windows are numbers. Calls to
  \<open>onGrantsChanged\<close> do not throw. Numbers in the policy are finite.
\<close>

section \<open>Policy and options\<close>

record CrossOriginPolicyEntry =
  pe_kinds :: "rat list"
  pe_audiences :: "string list"
  pe_maxTtlSeconds :: "rat option"

datatype signer_policy_error =
    Policy_empty
  | Policy_origin origin_error
  | Policy_kinds string
  | Policy_audiences string
  | Policy_ttl string

record ConsentRequest =
  cr_origin :: string
  cr_pubkey :: string
  cr_npub :: string
  cr_kinds :: "rat list"
  cr_audiences :: "string list"
  cr_expectedPubkey :: "string option"

record LiveGrant = GrantInfo +
  lg_origin :: string

datatype sign_reason = Reason_completion | Reason_request

record SignRequest =
  si_origin :: string
  si_grant :: GrantInfo
  si_template :: EventTemplate
  si_reason :: sign_reason

type_synonym window_id = nat

text \<open>
  Which of the optional members are there, the platform's functions, and the random bytes.
  \<open>sn_sessionBus\<close>: there is a \<open>BroadcastChannel\<close>, and \<open>sessionChannel\<close> is not \<open>false\<close>.
\<close>

record CrossOriginSignerOptions =
  sn_policy :: "(string \<times> CrossOriginPolicyEntry) list"
  sn_onSign :: bool
  sn_ensureUnlocked :: bool
  sn_consentStore :: bool
  sn_opener :: "window_id option"
  sn_target :: bool
  sn_isFramed :: bool
  sn_createdAtSkewSeconds :: "rat option"
  sn_sessionBus :: bool
  sn_url :: url_parser
  sn_nip19_decode :: "string \<Rightarrow> (string \<times> json) option"
  sn_random :: "nat \<Rightarrow> byte list"

record GrantState = LiveGrant +
  gs_completionUsed :: bool
  gs_source :: window_id

definition valid_ttl :: "rat \<Rightarrow> bool" where
  "valid_ttl ttl \<longleftrightarrow> is_integer ttl \<and> 0 < ttl \<and> ttl \<le> MAX_GRANT_TTL_SECONDS"

definition validate_entry :: "url_parser \<Rightarrow> string \<times> CrossOriginPolicyEntry
    \<Rightarrow> signer_policy_error + (string \<times> CrossOriginPolicyEntry)" where
  "validate_entry parse = (\<lambda>(origin, entry).
     case normalizeOrigin parse origin of
       Inl e \<Rightarrow> Inl (Policy_origin e)
     | Inr normalized \<Rightarrow>
         if pe_kinds entry = [] \<or> \<not> list_all is_integer (pe_kinds entry) then Inl (Policy_kinds origin)
         else if pe_audiences entry = [] then Inl (Policy_audiences origin)
         else let ttl = or_else (pe_maxTtlSeconds entry) MAX_GRANT_TTL_SECONDS in
              if \<not> valid_ttl ttl then Inl (Policy_ttl origin)
              else case map_or_throw (normalizeOrigin parse) (pe_audiences entry) of
                     Inl e \<Rightarrow> Inl (Policy_origin e)
                   | Inr audiences \<Rightarrow>
                       Inr (normalized, \<lparr>pe_kinds = pe_kinds entry, pe_audiences = audiences,
                                         pe_maxTtlSeconds = Some ttl\<rparr>))"

definition validatePolicy :: "url_parser \<Rightarrow> (string \<times> CrossOriginPolicyEntry) list
    \<Rightarrow> signer_policy_error + (string, CrossOriginPolicyEntry) jsmap" where
  "validatePolicy parse entries =
     (if entries = [] then Inl Policy_empty
      else case map_or_throw (validate_entry parse) entries of
             Inl e \<Rightarrow> Inl e
           | Inr checked \<Rightarrow> Inr (foldl (\<lambda>m (origin, entry). jm_set origin entry m) [] checked))"

section \<open>The page\<close>

text \<open>\<open>[...new Set(xs)]\<close>.\<close>

definition js_unique :: "'a list \<Rightarrow> 'a list" where "js_unique xs = rev (remdups (rev xs))"

text \<open>The lists are sorted; an origin is ASCII, so that the order of its bytes is JavaScript's.\<close>

definition scopeKey :: "rat list \<Rightarrow> string list \<Rightarrow> string" where
  "scopeKey kinds audiences =
     js_join '','' (map (show_number (\<lambda>_. [])) (sort kinds)) @ ''|''
     @ js_join '','' (sort_key (map of_char :: string \<Rightarrow> nat list) audiences)"

datatype page_call =
    Call_ensureUnlocked
  | Call_getNpub
  | Call_has string string string
  | Call_onConsent ConsentRequest
  | Call_remember string string string
  | Call_onSign SignRequest
  | Call_signEvent string EventTemplate

datatype page_answer = Threw | Returned | Returned_bool bool | Returned_npub string | Returned_event Nip98Event

datatype page_effect =
    Posted string CrossOriginMessage
  | Called nat page_call
  | Settled nat page_answer
  | Grants_changed "LiveGrant list"

text \<open>What a handler has captured when it waits.\<close>

record connect_request =
  cq_origin :: string
  cq_source :: window_id
  cq_id :: string
  cq_kinds :: "rat list"
  cq_audiences :: "string list"
  cq_expected :: "string option"

record sign_request =
  sq_id :: string
  sq_grant :: GrantState
  sq_template :: EventTemplate

datatype task =
    Wait_unlock connect_request
  | Wait_npub connect_request
  | Wait_has connect_request string string
  | Wait_consent connect_request string string
  | Wait_remember connect_request string
  | Wait_onSign sign_request
  | Wait_sign sign_request

record page =
  pg_grants :: "(string, GrantState) jsmap"
  pg_closed :: bool
  pg_tasks :: "(nat, task) jsmap"
  pg_next :: nat
  pg_drawn :: nat
  pg_now :: int
  pg_trace :: "page_effect list"

text \<open>The closure of a mounted page: its options and its validated policy.\<close>

record mounted =
  mt_options :: CrossOriginSignerOptions
  mt_policy :: "(string, CrossOriginPolicyEntry) jsmap"
  mt_opener :: window_id

definition page_log :: "page_effect \<Rightarrow> page \<Rightarrow> page" where
  "page_log e p = p\<lparr>pg_trace := pg_trace p @ [e]\<rparr>"

definition reply :: "string \<Rightarrow> CrossOriginMessage \<Rightarrow> page \<Rightarrow> page" where
  "reply origin msg = page_log (Posted origin msg)"

definition fail :: "string \<Rightarrow> string \<Rightarrow> CrossOriginErrorCode \<Rightarrow> page \<Rightarrow> page" where
  "fail origin i code = reply origin (M_error (if i = [] then None else Some i) code)"

definition page_snapshot :: "page \<Rightarrow> LiveGrant list" where
  "page_snapshot p = map (\<lambda>(_, g). LiveGrant.truncate g) (pg_grants p)"

definition page_changed :: "page \<Rightarrow> page" where
  "page_changed p = page_log (Grants_changed (page_snapshot p)) p"

definition dropGrant :: "GrantState \<Rightarrow> bool \<Rightarrow> page \<Rightarrow> page" where
  "dropGrant grant notify p =
     (let p' = p\<lparr>pg_grants := jm_delete (gi_grantId grant) (pg_grants p)\<rparr> in
      if notify then reply (lg_origin grant) (M_revoked (gi_grantId grant)) p' else p')"

definition drop_all :: "GrantState list \<Rightarrow> page \<Rightarrow> page" where
  "drop_all gs p = fold (\<lambda>g. dropGrant g True) gs p"

definition page_revokeAll :: "page \<Rightarrow> page" where
  "page_revokeAll p =
     (if pg_grants p = [] then p else page_changed (drop_all (map snd (pg_grants p)) p))"

definition page_revoke :: "string \<Rightarrow> page \<Rightarrow> page" where
  "page_revoke x p =
     (let matched = filter (\<lambda>g. gi_grantId g = x \<or> lg_origin g = x) (map snd (pg_grants p)) in
      if matched = [] then p else page_changed (drop_all matched p))"

text \<open>An \<open>await\<close>: of a call, or of nothing when the optional member is absent.\<close>

definition await_turn :: "task \<Rightarrow> page \<Rightarrow> page" where
  "await_turn k p = p\<lparr>pg_tasks := jm_set (pg_next p) k (pg_tasks p), pg_next := Suc (pg_next p)\<rparr>"

definition await_call :: "page_call \<Rightarrow> task \<Rightarrow> page \<Rightarrow> page" where
  "await_call call k p = await_turn k (page_log (Called (pg_next p) call) p)"

section \<open>Connecting\<close>

definition npub_key :: "(string \<Rightarrow> (string \<times> json) option) \<Rightarrow> string \<Rightarrow> string option" where
  "npub_key decode npub =
     (case decode npub of Some (type, data) \<Rightarrow> if type = ''npub'' then as_string (Some data) else None | None \<Rightarrow> None)"

definition handleConnect ::
  "mounted \<Rightarrow> string \<Rightarrow> window_id \<Rightarrow> string \<Rightarrow> rat list \<Rightarrow> string list \<Rightarrow> string option \<Rightarrow> page \<Rightarrow> page" where
  "handleConnect m origin source i kinds audiences expected p =
     (case (jm_get (mt_policy m) origin, map_or_throw (normalizeOrigin (sn_url (mt_options m))) audiences) of
        (Some entry, Inr normalized) \<Rightarrow>
          let kinds = js_unique kinds; audiences = js_unique normalized in
          if \<not> set kinds \<subseteq> set (pe_kinds entry) \<or> \<not> set audiences \<subseteq> set (pe_audiences entry)
          then fail origin i REFUSED p
          else let c = \<lparr>cq_origin = origin, cq_source = source, cq_id = i, cq_kinds = kinds,
                        cq_audiences = audiences, cq_expected = expected\<rparr>
               in if sn_ensureUnlocked (mt_options m) then await_call Call_ensureUnlocked (Wait_unlock c) p
                  else await_turn (Wait_unlock c) p
      | _ \<Rightarrow> fail origin i REFUSED p)"

definition new_grant :: "mounted \<Rightarrow> connect_request \<Rightarrow> string \<Rightarrow> CrossOriginPolicyEntry \<Rightarrow> page \<Rightarrow> GrantState" where
  "new_grant m c pubkey entry p =
     \<lparr>gi_grantId = randomId (sn_random (mt_options m) (pg_drawn p)), gi_pubkey = pubkey,
      gi_kinds = cq_kinds c, gi_audiences = cq_audiences c,
      gi_expiresAt = of_int (pg_now p) + or_else (pe_maxTtlSeconds entry) MAX_GRANT_TTL_SECONDS,
      lg_origin = cq_origin c, gs_completionUsed = False, gs_source = cq_source c\<rparr>"

definition give_grant :: "connect_request \<Rightarrow> GrantState \<Rightarrow> page \<Rightarrow> page" where
  "give_grant c grant p =
     reply (cq_origin c) (M_connected (cq_id c) (GrantInfo.truncate grant))
       (page_changed (p\<lparr>pg_drawn := Suc (pg_drawn p),
                        pg_grants := jm_set (gi_grantId grant) grant (pg_grants p)\<rparr>))"

text \<open>After the consent: \<open>approved\<close>, and the identity the relying page expects.\<close>

definition conclude :: "mounted \<Rightarrow> connect_request \<Rightarrow> string \<Rightarrow> bool \<Rightarrow> page \<Rightarrow> page" where
  "conclude m c pubkey approved p =
     (if pg_closed p then p
      else if \<not> approved then fail (cq_origin c) (cq_id c) DECLINED p
      else if truthy_str (cq_expected c) \<and> cq_expected c \<noteq> Some pubkey then fail (cq_origin c) (cq_id c) REFUSED p
      else case jm_get (mt_policy m) (cq_origin c) of
             None \<Rightarrow> p
           | Some entry \<Rightarrow> give_grant c (new_grant m c pubkey entry p) p)"

definition consent_request :: "connect_request \<Rightarrow> string \<Rightarrow> string \<Rightarrow> ConsentRequest" where
  "consent_request c pubkey npub =
     \<lparr>cr_origin = cq_origin c, cr_pubkey = pubkey, cr_npub = npub, cr_kinds = cq_kinds c,
      cr_audiences = cq_audiences c,
      cr_expectedPubkey = (if truthy_str (cq_expected c) then cq_expected c else None)\<rparr>"

definition cq_scope :: "connect_request \<Rightarrow> string" where
  "cq_scope c = scopeKey (cq_kinds c) (cq_audiences c)"

definition ask_consent :: "connect_request \<Rightarrow> string \<Rightarrow> string \<Rightarrow> page \<Rightarrow> page" where
  "ask_consent c pubkey npub =
     await_call (Call_onConsent (consent_request c pubkey npub)) (Wait_consent c pubkey npub)"

fun connect_resumes :: "mounted \<Rightarrow> task \<Rightarrow> page_answer \<Rightarrow> page \<Rightarrow> page" where
  "connect_resumes m (Wait_unlock c) a p =
     (if sn_ensureUnlocked (mt_options m) \<and> a = Threw then fail (cq_origin c) (cq_id c) DECLINED p
      else await_call Call_getNpub (Wait_npub c) p)"
| "connect_resumes m (Wait_npub c) a p =
     (case (case a of Returned_npub npub \<Rightarrow> map_option (Pair npub) (npub_key (sn_nip19_decode (mt_options m)) npub)
                    | _ \<Rightarrow> None) of
        None \<Rightarrow> fail (cq_origin c) (cq_id c) SIGNER_ERROR p
      | Some (npub, pubkey) \<Rightarrow>
          if sn_consentStore (mt_options m)
          then await_call (Call_has (cq_origin c) pubkey (cq_scope c)) (Wait_has c pubkey npub) p
          else await_turn (Wait_has c pubkey npub) p)"
| "connect_resumes m (Wait_has c pubkey npub) a p =
     (if \<not> sn_consentStore (mt_options m) then ask_consent c pubkey npub p
      else if a = Threw then conclude m c pubkey False p
      else if a = Returned_bool True then conclude m c pubkey True p
      else ask_consent c pubkey npub p)"
| "connect_resumes m (Wait_consent c pubkey npub) a p =
     (if a \<noteq> Returned_bool True then conclude m c pubkey False p
      else if sn_consentStore (mt_options m)
      then await_call (Call_remember (cq_origin c) pubkey (cq_scope c)) (Wait_remember c pubkey) p
      else await_turn (Wait_remember c pubkey) p)"
| "connect_resumes m (Wait_remember c pubkey) a p =
     conclude m c pubkey (\<not> (sn_consentStore (mt_options m) \<and> a = Threw)) p"
| "connect_resumes m _ a p = p"

section \<open>Signing\<close>

definition is_completion :: "EventTemplate \<Rightarrow> bool" where
  "is_completion tmpl \<longleftrightarrow> (\<exists>tag\<in>set (et_tags tmpl). tag \<noteq> [] \<and> hd tag = ''challenge'')"

definition sign_skew :: "mounted \<Rightarrow> rat" where
  "sign_skew m = or_else (sn_createdAtSkewSeconds (mt_options m)) DEFAULT_CREATED_AT_SKEW_SECONDS"

text \<open>The event is within the grant and its time within the skew.\<close>

definition within_grant :: "mounted \<Rightarrow> int \<Rightarrow> GrantState \<Rightarrow> EventTemplate \<Rightarrow> bool" where
  "within_grant m now grant tmpl \<longleftrightarrow>
     et_kind tmpl \<in> set (gi_kinds grant)
     \<and> (case audienceOf (sn_url (mt_options m)) tmpl of
           None \<Rightarrow> False
         | Some audience \<Rightarrow> audience \<in> set (gi_audiences grant))
     \<and> \<bar>et_created_at tmpl - of_int now\<bar> \<le> sign_skew m"

definition ask_signature :: "sign_request \<Rightarrow> page \<Rightarrow> page" where
  "ask_signature q =
     await_call (Call_signEvent (gi_grantId (sq_grant q)) (sq_template q)) (Wait_sign q)"

definition claim_completion :: "GrantState \<Rightarrow> EventTemplate \<Rightarrow> page \<Rightarrow> page" where
  "claim_completion grant tmpl p =
     (if is_completion tmpl \<and> \<not> gs_completionUsed grant
      then p\<lparr>pg_grants := jm_set (gi_grantId grant) (grant\<lparr>gs_completionUsed := True\<rparr>) (pg_grants p)\<rparr>
      else p)"

definition sign_prompt :: "sign_request \<Rightarrow> bool \<Rightarrow> SignRequest" where
  "sign_prompt q needsPrompt =
     \<lparr>si_origin = lg_origin (sq_grant q), si_grant = GrantInfo.truncate (sq_grant q),
      si_template = sq_template q, si_reason = (if needsPrompt then Reason_completion else Reason_request)\<rparr>"

definition handleSign ::
  "mounted \<Rightarrow> string \<Rightarrow> window_id \<Rightarrow> string \<Rightarrow> string \<Rightarrow> EventTemplate \<Rightarrow> page \<Rightarrow> page" where
  "handleSign m origin source i grantId tmpl p =
     (case jm_get (pg_grants p) grantId of
        None \<Rightarrow> fail origin i REVOKED p
      | Some grant \<Rightarrow>
          if lg_origin grant \<noteq> origin \<or> gs_source grant \<noteq> source then fail origin i REVOKED p
          else if gi_expiresAt grant \<le> of_int (pg_now p)
          then fail origin i GRANT_EXPIRED (page_changed (dropGrant grant False p))
          else if \<not> within_grant m (pg_now p) grant tmpl then fail origin i REFUSED p
          else
            let needsPrompt = is_completion tmpl \<and> gs_completionUsed grant;
                q = \<lparr>sq_id = i, sq_grant = grant, sq_template = tmpl\<rparr>;
                p' = claim_completion grant tmpl p
            in if sn_onSign (mt_options m)
               then await_call (Call_onSign (sign_prompt q needsPrompt)) (Wait_onSign q) p'
               else if needsPrompt then fail origin i REFUSED p'
               else ask_signature q p')"

definition grant_lives :: "GrantState \<Rightarrow> page \<Rightarrow> bool" where
  "grant_lives grant p \<longleftrightarrow> jm_get (pg_grants p) (gi_grantId grant) \<noteq> None"

text \<open>The signer returned an event.\<close>

definition signature_arrives :: "sign_request \<Rightarrow> Nip98Event \<Rightarrow> page \<Rightarrow> page" where
  "signature_arrives q event p =
     (let origin = lg_origin (sq_grant q); i = sq_id q in
      if \<not> grant_lives (sq_grant q) p then fail origin i REVOKED p
      else if ev_pubkey event \<noteq> gi_pubkey (sq_grant q) then page_revokeAll (fail origin i REVOKED p)
      else if \<not> sameEvent (sq_template q) event then fail origin i SIGNER_ERROR p
      else reply origin (M_signed i event) p)"

fun sign_resumes :: "task \<Rightarrow> page_answer \<Rightarrow> page \<Rightarrow> page" where
  "sign_resumes (Wait_onSign q) a p =
     (if a \<noteq> Returned_bool True then fail (lg_origin (sq_grant q)) (sq_id q) DECLINED p
      else if \<not> grant_lives (sq_grant q) p then fail (lg_origin (sq_grant q)) (sq_id q) REVOKED p
      else ask_signature q p)"
| "sign_resumes (Wait_sign q) a p =
     (case a of
        Returned_event event \<Rightarrow> signature_arrives q event p
      | _ \<Rightarrow> fail (lg_origin (sq_grant q)) (sq_id q) SIGNER_ERROR p)"
| "sign_resumes _ a p = p"

section \<open>The inputs of the page\<close>

datatype page_input =
    Message_event window_id string json
  | Answered nat page_answer
  | Session_message string
  | Revoke string
  | RevokeAll
  | Close
  | Clock int

fun page_dispatch :: "mounted \<Rightarrow> string \<Rightarrow> window_id \<Rightarrow> CrossOriginMessage \<Rightarrow> page \<Rightarrow> page" where
  "page_dispatch m origin source (M_connect i kinds audiences expected) p =
     handleConnect m origin source i kinds audiences expected p"
| "page_dispatch m origin source (M_sign i grantId tmpl) p = handleSign m origin source i grantId tmpl p"
| "page_dispatch m origin source (M_disconnect grantId) p =
     (case jm_get (pg_grants p) grantId of
        None \<Rightarrow> p
      | Some grant \<Rightarrow> if lg_origin grant = origin then page_changed (dropGrant grant False p) else p)"
| "page_dispatch m origin source _ p = p"

definition page_listener :: "mounted \<Rightarrow> window_id \<Rightarrow> string \<Rightarrow> json \<Rightarrow> page \<Rightarrow> page" where
  "page_listener m source origin data p =
     (if pg_closed p \<or> source \<noteq> mt_opener m then p
      else if jm_get (mt_policy m) origin = None then p
      else case parseMessage data of
             None \<Rightarrow> p
           | Some msg \<Rightarrow> page_dispatch m origin source msg p)"

definition page_resume :: "mounted \<Rightarrow> nat \<Rightarrow> page_answer \<Rightarrow> page \<Rightarrow> page" where
  "page_resume m t a p =
     (case jm_get (pg_tasks p) t of
        None \<Rightarrow> p
      | Some k \<Rightarrow>
          let p' = page_log (Settled t a) (p\<lparr>pg_tasks := jm_delete t (pg_tasks p)\<rparr>)
          in sign_resumes k a (connect_resumes m k a p'))"

definition ends_session :: "string \<Rightarrow> bool" where
  "ends_session type \<longleftrightarrow> type \<in> {''lock'', ''logout'', ''shutdown'', ''identity-changed''}"

definition page_close :: "page \<Rightarrow> page" where
  "page_close p = (if pg_closed p then p else page_revokeAll p \<lparr>pg_closed := True\<rparr>)"

primrec page_step :: "mounted \<Rightarrow> page_input \<Rightarrow> page \<Rightarrow> page" where
  "page_step m (Message_event source origin data) p = page_listener m source origin data p"
| "page_step m (Answered t a) p = page_resume m t a p"
| "page_step m (Session_message type) p =
     (if sn_sessionBus (mt_options m) \<and> \<not> pg_closed p \<and> ends_session type then page_revokeAll p else p)"
| "page_step m (Revoke x) p = page_revoke x p"
| "page_step m RevokeAll p = page_revokeAll p"
| "page_step m Close p = page_close p"
| "page_step m (Clock now) p = p\<lparr>pg_now := now\<rparr>"

text \<open>
  Mounting: a policy error, or the closure and the first state of the page. A framed page
  and one without opener or target are inert: \<open>None\<close>.
\<close>

definition empty_page :: "int \<Rightarrow> page" where
  "empty_page now = \<lparr>pg_grants = [], pg_closed = False, pg_tasks = [], pg_next = 0, pg_drawn = 0,
                     pg_now = now, pg_trace = []\<rparr>"

definition announce :: "(string, CrossOriginPolicyEntry) jsmap \<Rightarrow> page \<Rightarrow> page" where
  "announce policy p = fold (\<lambda>(origin, _). reply origin M_ready) policy p"

definition mountCrossOriginSigner ::
  "CrossOriginSignerOptions \<Rightarrow> int \<Rightarrow> signer_policy_error + (mounted \<times> page) option" where
  "mountCrossOriginSigner opts now =
     (case validatePolicy (sn_url opts) (sn_policy opts) of
        Inl e \<Rightarrow> Inl e
      | Inr policy \<Rightarrow>
          (case sn_opener opts of
             Some opener \<Rightarrow>
               if sn_isFramed opts \<or> \<not> sn_target opts then Inr None
               else Inr (Some (\<lparr>mt_options = opts, mt_policy = policy, mt_opener = opener\<rparr>,
                               announce policy (empty_page now)))
           | None \<Rightarrow> Inr None))"

section \<open>The consent store\<close>

record ConsentRecord =
  co_origin :: string
  co_pubkey :: string
  co_scope :: string

text \<open>
  Web Storage under one key: its item, whether \<open>getItem\<close> throws (\<open>cs_blocked\<close>) and whether
  \<open>setItem\<close> does (\<open>cs_refuses\<close>). Members of a stored record other than the three are not kept.
\<close>

record consent_storage =
  cs_item :: "string option"
  cs_blocked :: bool
  cs_refuses :: bool

definition consent_record :: "json \<Rightarrow> ConsentRecord option" where
  "consent_record v =
     (case (as_string (member v ''origin''), as_string (member v ''pubkey''), as_string (member v ''scope'')) of
        (Some origin, Some pubkey, Some scope) \<Rightarrow>
          Some \<lparr>co_origin = origin, co_pubkey = pubkey, co_scope = scope\<rparr>
      | _ \<Rightarrow> None)"

definition consent_read :: "consent_storage \<Rightarrow> ConsentRecord list" where
  "consent_read st =
     (if cs_blocked st then []
      else case json_parse (or_else (cs_item st) ''[]'') of
             Some (JArr xs) \<Rightarrow> map the (filter (\<lambda>r. r \<noteq> None) (map consent_record xs))
           | _ \<Rightarrow> [])"

definition consent_json :: "ConsentRecord \<Rightarrow> json" where
  "consent_json r = JObj [(''origin'', JStr (co_origin r)), (''pubkey'', JStr (co_pubkey r)), (''scope'', JStr (co_scope r))]"

definition consent_write :: "ConsentRecord list \<Rightarrow> consent_storage \<Rightarrow> consent_storage" where
  "consent_write records st =
     (if cs_refuses st then st
      else st\<lparr>cs_item := Some (json_print (\<lambda>_. []) (JArr (map consent_json records)))\<rparr>)"

definition consent_has :: "string \<Rightarrow> string \<Rightarrow> string \<Rightarrow> consent_storage \<Rightarrow> bool" where
  "consent_has origin pubkey scope st \<longleftrightarrow>
     (\<exists>r\<in>set (consent_read st). co_origin r = origin \<and> co_pubkey r = pubkey \<and> co_scope r = scope)"

definition consent_remember :: "string \<Rightarrow> string \<Rightarrow> string \<Rightarrow> consent_storage \<Rightarrow> consent_storage" where
  "consent_remember origin pubkey scope st =
     consent_write (filter (\<lambda>r. \<not> (co_origin r = origin \<and> co_pubkey r = pubkey)) (consent_read st)
                    @ [\<lparr>co_origin = origin, co_pubkey = pubkey, co_scope = scope\<rparr>]) st"

definition consent_forget :: "string \<Rightarrow> string option \<Rightarrow> consent_storage \<Rightarrow> consent_storage" where
  "consent_forget origin pubkey st =
     consent_write (filter (\<lambda>r. \<not> (co_origin r = origin \<and> (pubkey = None \<or> Some (co_pubkey r) = pubkey)))
                    (consent_read st)) st"

end
