(* ===== verification/WebSignerFacts.thy ===== *)
theory WebSignerFacts
  imports WebSigner
begin

text \<open>
  What every run of the signer page keeps: a grant comes from an approved request within the
  policy, an event that leaves the page is the answer of the signer to a request within its
  grant, and every message is addressed to an origin of the policy. The invariant
  \<open>page_inv\<close> is about the grants, the handlers that wait, and the trace.
\<close>

section \<open>The invariant\<close>

definition policy_allows :: "mounted \<Rightarrow> string \<Rightarrow> rat list \<Rightarrow> string list \<Rightarrow> bool" where
  "policy_allows m origin kinds audiences \<longleftrightarrow>
     (\<exists>entry. jm_get (mt_policy m) origin = Some entry
        \<and> set kinds \<subseteq> set (pe_kinds entry) \<and> set audiences \<subseteq> set (pe_audiences entry))"

definition request_ok :: "mounted \<Rightarrow> connect_request \<Rightarrow> bool" where
  "request_ok m c \<longleftrightarrow>
     policy_allows m (cq_origin c) (cq_kinds c) (cq_audiences c) \<and> cq_source c = mt_opener m"

text \<open>A remembered or a fresh consent to this request, for this key.\<close>

definition consented :: "page_effect list \<Rightarrow> connect_request \<Rightarrow> string \<Rightarrow> bool" where
  "consented tr c pubkey \<longleftrightarrow>
     (\<exists>t call. Called t call \<in> set tr \<and> Settled t (Returned_bool True) \<in> set tr
        \<and> (call = Call_has (cq_origin c) pubkey (cq_scope c)
           \<or> (\<exists>npub. call = Call_onConsent (consent_request c pubkey npub))))"

definition grant_made :: "mounted \<Rightarrow> page_effect list \<Rightarrow> GrantState \<Rightarrow> bool" where
  "grant_made m tr g \<longleftrightarrow>
     (\<exists>c. request_ok m c \<and> consented tr c (gi_pubkey g)
        \<and> (truthy_str (cq_expected c) \<longrightarrow> cq_expected c = Some (gi_pubkey g))
        \<and> gi_kinds g = cq_kinds c \<and> gi_audiences g = cq_audiences c
        \<and> lg_origin g = cq_origin c \<and> gs_source g = cq_source c
        \<and> Posted (cq_origin c) (M_connected (cq_id c) (GrantInfo.truncate g)) \<in> set tr)"

definition in_grant :: "mounted \<Rightarrow> GrantState \<Rightarrow> EventTemplate \<Rightarrow> bool" where
  "in_grant m g tmpl \<longleftrightarrow>
     et_kind tmpl \<in> set (gi_kinds g)
     \<and> (\<exists>a. audienceOf (sn_url (mt_options m)) tmpl = Some a \<and> a \<in> set (gi_audiences g))"

definition sign_ok :: "mounted \<Rightarrow> page_effect list \<Rightarrow> sign_request \<Rightarrow> bool" where
  "sign_ok m tr q \<longleftrightarrow> grant_made m tr (sq_grant q) \<and> in_grant m (sq_grant q) (sq_template q)"

definition prompt_approved :: "page_effect list \<Rightarrow> sign_request \<Rightarrow> bool" where
  "prompt_approved tr q \<longleftrightarrow>
     (\<exists>t b. Called t (Call_onSign (sign_prompt q b)) \<in> set tr \<and> Settled t (Returned_bool True) \<in> set tr)"

fun task_ok :: "mounted \<Rightarrow> page_effect list \<Rightarrow> nat \<Rightarrow> task \<Rightarrow> bool" where
  "task_ok m tr t (Wait_unlock c) \<longleftrightarrow> request_ok m c"
| "task_ok m tr t (Wait_npub c) \<longleftrightarrow> request_ok m c"
| "task_ok m tr t (Wait_has c pubkey npub) \<longleftrightarrow>
     request_ok m c
     \<and> (sn_consentStore (mt_options m) \<longrightarrow> Called t (Call_has (cq_origin c) pubkey (cq_scope c)) \<in> set tr)"
| "task_ok m tr t (Wait_consent c pubkey npub) \<longleftrightarrow>
     request_ok m c \<and> Called t (Call_onConsent (consent_request c pubkey npub)) \<in> set tr"
| "task_ok m tr t (Wait_remember c pubkey) \<longleftrightarrow> request_ok m c \<and> consented tr c pubkey"
| "task_ok m tr t (Wait_onSign q) \<longleftrightarrow>
     sign_ok m tr q \<and> (\<exists>b. Called t (Call_onSign (sign_prompt q b)) \<in> set tr)"
| "task_ok m tr t (Wait_sign q) \<longleftrightarrow>
     sign_ok m tr q \<and> Called t (Call_signEvent (gi_grantId (sq_grant q)) (sq_template q)) \<in> set tr
     \<and> (sn_onSign (mt_options m) \<longrightarrow> prompt_approved tr q)"

text \<open>What it means for an event to have been signed for an origin.\<close>

definition signed_for :: "mounted \<Rightarrow> page_effect list \<Rightarrow> string \<Rightarrow> Nip98Event \<Rightarrow> bool" where
  "signed_for m tr origin ev \<longleftrightarrow>
     (\<exists>q t. sign_ok m tr q \<and> lg_origin (sq_grant q) = origin
        \<and> sq_template q = event_template ev \<and> ev_pubkey ev = gi_pubkey (sq_grant q)
        \<and> Called t (Call_signEvent (gi_grantId (sq_grant q)) (sq_template q)) \<in> set tr
        \<and> Settled t (Returned_event ev) \<in> set tr
        \<and> (sn_onSign (mt_options m) \<longrightarrow> prompt_approved tr q))"

definition effect_ok :: "mounted \<Rightarrow> page_effect list \<Rightarrow> page_effect \<Rightarrow> bool" where
  "effect_ok m tr e \<longleftrightarrow>
     (case e of
        Posted origin msg \<Rightarrow>
          jm_get (mt_policy m) origin \<noteq> None
          \<and> (case msg of M_signed i ev \<Rightarrow> signed_for m tr origin ev | _ \<Rightarrow> True)
      | _ \<Rightarrow> True)"

definition grants_ok :: "mounted \<Rightarrow> page_effect list \<Rightarrow> (string, GrantState) jsmap \<Rightarrow> bool" where
  "grants_ok m tr gs \<longleftrightarrow> (\<forall>(i, g)\<in>set gs. gi_grantId g = i \<and> grant_made m tr g)"

definition page_inv :: "mounted \<Rightarrow> page \<Rightarrow> bool" where
  "page_inv m p \<longleftrightarrow>
     grants_ok m (pg_trace p) (pg_grants p)
     \<and> (\<forall>(t, k)\<in>set (pg_tasks p). task_ok m (pg_trace p) t k)
     \<and> (\<forall>e\<in>set (pg_trace p). effect_ok m (pg_trace p) e)"

section \<open>A longer trace\<close>

lemma consented_mono: "consented tr c pk \<Longrightarrow> set tr \<subseteq> set tr' \<Longrightarrow> consented tr' c pk"
  by (auto simp: consented_def)

lemma grant_made_mono: "grant_made m tr g \<Longrightarrow> set tr \<subseteq> set tr' \<Longrightarrow> grant_made m tr' g"
  unfolding grant_made_def using consented_mono by blast

lemma sign_ok_mono: "sign_ok m tr q \<Longrightarrow> set tr \<subseteq> set tr' \<Longrightarrow> sign_ok m tr' q"
  unfolding sign_ok_def using grant_made_mono by blast

lemma prompt_mono: "prompt_approved tr q \<Longrightarrow> set tr \<subseteq> set tr' \<Longrightarrow> prompt_approved tr' q"
  unfolding prompt_approved_def by blast

lemma task_ok_mono: "task_ok m tr t k \<Longrightarrow> set tr \<subseteq> set tr' \<Longrightarrow> task_ok m tr' t k"
  by (cases k) (auto intro: consented_mono sign_ok_mono prompt_mono)

lemma signed_for_mono: "signed_for m tr o' ev \<Longrightarrow> set tr \<subseteq> set tr' \<Longrightarrow> signed_for m tr' o' ev"
  unfolding signed_for_def using sign_ok_mono prompt_mono by blast

lemma effect_ok_mono: "effect_ok m tr e \<Longrightarrow> set tr \<subseteq> set tr' \<Longrightarrow> effect_ok m tr' e"
  by (auto simp: effect_ok_def intro: signed_for_mono split: page_effect.splits CrossOriginMessage.splits)

lemma grants_ok_mono: "grants_ok m tr gs \<Longrightarrow> set tr \<subseteq> set tr' \<Longrightarrow> set gs' \<subseteq> set gs \<Longrightarrow> grants_ok m tr' gs'"
  unfolding grants_ok_def using grant_made_mono by fastforce

lemma grant_made_known: "grant_made m tr g \<Longrightarrow> jm_get (mt_policy m) (lg_origin g) \<noteq> None"
  by (auto simp: grant_made_def request_ok_def policy_allows_def)

lemma grant_made_used: "grant_made m tr (g\<lparr>gs_completionUsed := b\<rparr>) \<longleftrightarrow> grant_made m tr g"
  by (simp add: grant_made_def GrantInfo.truncate_def)

lemma trace_extends:
  "consented tr c pk \<Longrightarrow> consented (tr @ es) c pk"
  "grant_made m tr g \<Longrightarrow> grant_made m (tr @ es) g"
  "prompt_approved tr q \<Longrightarrow> prompt_approved (tr @ es) q"
  by (erule consented_mono grant_made_mono prompt_mono, simp)+

section \<open>Every operation keeps it\<close>

lemma inv_log:
  assumes "page_inv m p" and "effect_ok m (pg_trace p @ [e]) e"
  shows "page_inv m (page_log e p)"
  using assms unfolding page_inv_def page_log_def
  by (auto intro: grants_ok_mono task_ok_mono effect_ok_mono)

lemma inv_plain: "page_inv m p \<Longrightarrow> (\<And>o' msg. e \<noteq> Posted o' msg) \<Longrightarrow> page_inv m (page_log e p)"
  by (rule inv_log) (auto simp: effect_ok_def split: page_effect.splits)

lemma inv_reply:
  assumes "page_inv m p" and "jm_get (mt_policy m) o' \<noteq> None" and "\<And>i ev. msg \<noteq> M_signed i ev"
  shows "page_inv m (reply o' msg p)"
  unfolding reply_def using assms by (intro inv_log) (auto simp: effect_ok_def split: CrossOriginMessage.splits)

lemma inv_fail: "page_inv m p \<Longrightarrow> jm_get (mt_policy m) o' \<noteq> None \<Longrightarrow> page_inv m (fail o' i code p)"
  by (auto simp: fail_def intro: inv_reply)

lemma inv_changed: "page_inv m p \<Longrightarrow> page_inv m (page_changed p)"
  unfolding page_changed_def by (rule inv_plain) auto

lemma inv_drop:
  assumes "page_inv m p" and "jm_get (mt_policy m) (lg_origin g) \<noteq> None"
  shows "page_inv m (dropGrant g notify p)"
proof -
  have "set (jm_delete (gi_grantId g) (pg_grants p)) \<subseteq> set (pg_grants p)" by (auto simp: jm_delete_def)
  then have "page_inv m (p\<lparr>pg_grants := jm_delete (gi_grantId g) (pg_grants p)\<rparr>)"
    using assms(1) by (auto simp: page_inv_def intro: grants_ok_mono)
  then show ?thesis using assms(2) by (auto simp: dropGrant_def Let_def intro: inv_reply)
qed

lemma inv_drop_all:
  "page_inv m p \<Longrightarrow> \<forall>g\<in>set gs. jm_get (mt_policy m) (lg_origin g) \<noteq> None \<Longrightarrow> page_inv m (drop_all gs p)"
  unfolding drop_all_def by (induction gs arbitrary: p) (auto intro: inv_drop)

lemma inv_known: "page_inv m p \<Longrightarrow> (i, g) \<in> set (pg_grants p) \<Longrightarrow> jm_get (mt_policy m) (lg_origin g) \<noteq> None"
  unfolding page_inv_def grants_ok_def using grant_made_known by fastforce

lemma inv_revokeAll: "page_inv m p \<Longrightarrow> page_inv m (page_revokeAll p)"
  unfolding page_revokeAll_def using inv_known by (fastforce intro!: inv_changed inv_drop_all)

lemma inv_revoke: "page_inv m p \<Longrightarrow> page_inv m (page_revoke x p)"
  unfolding page_revoke_def Let_def using inv_known by (fastforce intro!: inv_changed inv_drop_all)

lemma inv_turn: "page_inv m p \<Longrightarrow> task_ok m (pg_trace p) (pg_next p) k \<Longrightarrow> page_inv m (await_turn k p)"
  using set_jm_set [of "pg_next p" k "pg_tasks p"] by (fastforce simp: page_inv_def await_turn_def)

lemma inv_call:
  assumes "page_inv m p" and "task_ok m (pg_trace p @ [Called (pg_next p) call]) (pg_next p) k"
  shows "page_inv m (await_call call k p)"
proof -
  have "page_inv m (page_log (Called (pg_next p) call) p)" by (rule inv_plain [OF assms(1)]) simp
  then show ?thesis using assms(2) by (auto simp: await_call_def page_log_def intro!: inv_turn)
qed

text \<open>A grant is given only for a request within the policy, to which the user agreed.\<close>

lemma inv_give_grant:
  assumes "page_inv m p" and c: "request_ok m c" "consented (pg_trace p) c (gi_pubkey g)"
    and e: "truthy_str (cq_expected c) \<longrightarrow> cq_expected c = Some (gi_pubkey g)"
    and g: "gi_kinds g = cq_kinds c" "gi_audiences g = cq_audiences c" "lg_origin g = cq_origin c"
      "gs_source g = cq_source c"
  shows "page_inv m (give_grant c g p)"
proof -
  let ?tr = "pg_trace (give_grant c g p)"
  have sub: "set (pg_trace p) \<subseteq> set ?tr"
    by (auto simp: give_grant_def reply_def page_log_def page_changed_def)
  have posted: "Posted (cq_origin c) (M_connected (cq_id c) (GrantInfo.truncate g)) \<in> set ?tr"
    by (simp add: give_grant_def reply_def page_log_def)
  have made: "grant_made m ?tr g"
    unfolding grant_made_def using c e g posted consented_mono [OF c(2) sub] by blast
  have "set (pg_grants (give_grant c g p)) \<subseteq> insert (gi_grantId g, g) (set (pg_grants p))"
    using set_jm_set [of "gi_grantId g" g "pg_grants p"]
    by (simp add: give_grant_def reply_def page_log_def page_changed_def)
  moreover have "grants_ok m ?tr (pg_grants p)"
    using assms(1) sub by (auto simp: page_inv_def intro: grants_ok_mono)
  ultimately have "grants_ok m ?tr (pg_grants (give_grant c g p))"
    using made by (fastforce simp: grants_ok_def)
  moreover have "pg_tasks (give_grant c g p) = pg_tasks p"
    by (simp add: give_grant_def reply_def page_log_def page_changed_def)
  moreover have "\<forall>e\<in>set ?tr. effect_ok m ?tr e"
  proof -
    have "effect_ok m ?tr e" if "e \<in> set (pg_trace p)" for e
      using assms(1) that sub by (auto simp: page_inv_def intro: effect_ok_mono)
    moreover have "jm_get (mt_policy m) (cq_origin c) \<noteq> None"
      using c(1) by (auto simp: request_ok_def policy_allows_def)
    moreover have "set ?tr = insert (Posted (cq_origin c) (M_connected (cq_id c) (GrantInfo.truncate g)))
        (insert (Grants_changed (page_snapshot (p\<lparr>pg_drawn := Suc (pg_drawn p),
            pg_grants := jm_set (gi_grantId g) g (pg_grants p)\<rparr>))) (set (pg_trace p)))"
      by (simp add: give_grant_def reply_def page_log_def page_changed_def insert_commute)
    ultimately show ?thesis by (auto simp: effect_ok_def)
  qed
  ultimately show ?thesis
    using assms(1) sub unfolding page_inv_def by (auto intro: task_ok_mono)
qed

lemma request_known: "request_ok m c \<Longrightarrow> jm_get (mt_policy m) (cq_origin c) \<noteq> None"
  by (auto simp: request_ok_def policy_allows_def)

lemma inv_conclude:
  assumes "page_inv m p" and "request_ok m c" and "approved \<longrightarrow> consented (pg_trace p) c pubkey"
  shows "page_inv m (conclude m c pubkey approved p)"
  using assms request_known [OF assms(2)]
  by (auto simp: conclude_def new_grant_def intro!: inv_fail inv_give_grant split: option.splits)

lemma inv_connect:
  assumes "page_inv m p" and "jm_get (mt_policy m) origin \<noteq> None" and "source = mt_opener m"
  shows "page_inv m (handleConnect m origin source i kinds audiences expected p)"
  using assms
  by (auto simp: handleConnect_def Let_def request_ok_def policy_allows_def js_unique_def
      intro!: inv_fail inv_call inv_turn split: option.splits sum.splits)

text \<open>The answer to a waiting handler.\<close>

lemma inv_connect_resumes:
  assumes "page_inv m p" and "task_ok m (pg_trace p) t k" and "Settled t a \<in> set (pg_trace p)"
  shows "page_inv m (connect_resumes m k a p)"
proof (cases k)
  case (Wait_unlock c)
  then show ?thesis using assms request_known by (auto intro!: inv_fail inv_call)
next
  case (Wait_npub c)
  then show ?thesis using assms request_known
    by (auto intro!: inv_fail inv_call inv_turn split: option.splits)
next
  case (Wait_has c pubkey npub)
  then have "consented (pg_trace p) c pubkey" if "sn_consentStore (mt_options m)" "a = Returned_bool True"
    using assms that by (auto simp: consented_def)
  then show ?thesis using assms Wait_has
    by (auto simp: ask_consent_def intro!: inv_call inv_conclude)
next
  case (Wait_consent c pubkey npub)
  then have c: "consented (pg_trace p) c pubkey" if "a = Returned_bool True"
    using assms that by (auto simp: consented_def)
  then show ?thesis using assms Wait_consent
    by (auto intro!: inv_call inv_turn inv_conclude trace_extends)
next
  case (Wait_remember c pubkey)
  then show ?thesis using assms by (auto intro!: inv_conclude)
qed (use assms in simp_all)

section \<open>Signing keeps it\<close>

lemma inv_claim:
  assumes "page_inv m p" and "jm_get (pg_grants p) (gi_grantId g) = Some g"
  shows "page_inv m (claim_completion g tmpl p)"
proof -
  have "grant_made m (pg_trace p) g"
    using assms by (auto simp: page_inv_def grants_ok_def dest: jm_get_in)
  then have "grants_ok m (pg_trace p) (jm_set (gi_grantId g) (g\<lparr>gs_completionUsed := True\<rparr>) (pg_grants p))"
    using assms(1) set_jm_set [of "gi_grantId g" "g\<lparr>gs_completionUsed := True\<rparr>" "pg_grants p"]
    by (fastforce simp: page_inv_def grants_ok_def grant_made_used)
  then show ?thesis using assms(1) by (simp add: claim_completion_def page_inv_def)
qed

lemma claim_trace [simp]: "pg_trace (claim_completion g tmpl p) = pg_trace p"
  "pg_next (claim_completion g tmpl p) = pg_next p"
  by (simp_all add: claim_completion_def)

lemma within_in: "within_grant m now g tmpl \<Longrightarrow> in_grant m g tmpl"
  by (auto simp: within_grant_def in_grant_def split: option.splits)

lemma inv_sign:
  assumes "page_inv m p" and "jm_get (mt_policy m) origin \<noteq> None"
  shows "page_inv m (handleSign m origin source i grantId tmpl p)"
proof (cases "jm_get (pg_grants p) grantId")
  case None
  then show ?thesis using assms by (simp add: handleSign_def inv_fail)
next
  case (Some g)
  then have g: "gi_grantId g = grantId" "grant_made m (pg_trace p) g"
    using assms(1) by (auto simp: page_inv_def grants_ok_def dest: jm_get_in)
  have claimed: "page_inv m (claim_completion g tmpl p)"
    by (rule inv_claim) (use assms(1) Some g in simp_all)
  have ok: "sign_ok m (pg_trace p @ es) \<lparr>sq_id = i, sq_grant = g, sq_template = tmpl\<rparr>"
    if "within_grant m (pg_now p) g tmpl" for es
    using that g(2) within_in by (auto simp: sign_ok_def elim: grant_made_mono)
  show ?thesis
    using assms Some grant_made_known [OF g(2)] claimed ok
    by (auto simp: handleSign_def Let_def ask_signature_def
        intro!: inv_fail inv_changed inv_drop inv_call split: if_splits)
qed

lemma inv_arrives:
  assumes "page_inv m p" and "task_ok m (pg_trace p) t (Wait_sign q)" and "Settled t (Returned_event ev) \<in> set (pg_trace p)"
  shows "page_inv m (signature_arrives q ev p)"
proof -
  have o': "jm_get (mt_policy m) (lg_origin (sq_grant q)) \<noteq> None"
    using assms(2) grant_made_known by (auto simp: sign_ok_def)
  have "page_inv m (reply (lg_origin (sq_grant q)) (M_signed (sq_id q) ev) p)"
    if "ev_pubkey ev = gi_pubkey (sq_grant q)" "sameEvent (sq_template q) ev"
  proof -
    have "signed_for m (pg_trace p) (lg_origin (sq_grant q)) ev"
      unfolding signed_for_def using assms(2,3) that by (auto simp: sameEvent_iff)
    then show ?thesis unfolding reply_def using assms(1) o'
      by (intro inv_log) (auto simp: effect_ok_def elim: signed_for_mono)
  qed
  then show ?thesis using assms(1) o'
    by (auto simp: signature_arrives_def Let_def intro!: inv_fail inv_revokeAll)
qed

lemma inv_sign_resumes:
  assumes "page_inv m p" and "task_ok m (pg_trace p) t k" and "Settled t a \<in> set (pg_trace p)"
  shows "page_inv m (sign_resumes k a p)"
proof (cases k)
  case (Wait_onSign q)
  then have "prompt_approved (pg_trace p) q" if "a = Returned_bool True"
    using assms that by (auto simp: prompt_approved_def)
  then show ?thesis using assms Wait_onSign grant_made_known
    by (auto simp: ask_signature_def sign_ok_def intro!: inv_fail inv_call trace_extends
        split: if_splits)
next
  case (Wait_sign q)
  then show ?thesis using assms grant_made_known inv_arrives
    by (auto simp: sign_ok_def intro!: inv_fail split: page_answer.splits)
qed (use assms in simp_all)

section \<open>Every step, every run\<close>

lemma inv_resume:
  assumes "page_inv m p"
  shows "page_inv m (page_resume m t a p)"
proof (cases "jm_get (pg_tasks p) t")
  case (Some k)
  let ?p = "page_log (Settled t a) (p\<lparr>pg_tasks := jm_delete t (pg_tasks p)\<rparr>)"
  have k: "task_ok m (pg_trace p) t k" using assms Some by (auto simp: page_inv_def dest: jm_get_in)
  have "page_inv m (p\<lparr>pg_tasks := jm_delete t (pg_tasks p)\<rparr>)"
    using assms by (auto simp: page_inv_def jm_delete_def)
  then have p: "page_inv m ?p" by (rule inv_plain) simp
  have st: "Settled t a \<in> set (pg_trace ?p)" "task_ok m (pg_trace ?p) t k"
    using k by (auto simp: page_log_def elim: task_ok_mono)
  have "page_inv m (sign_resumes k a (connect_resumes m k a ?p))"
  proof (cases "connect_resumes m k a ?p = ?p")
    case True
    then show ?thesis using inv_sign_resumes [OF p st(2,1)] by simp
  next
    case False
    then have "sign_resumes k a (connect_resumes m k a ?p) = connect_resumes m k a ?p" by (cases k) simp_all
    then show ?thesis using inv_connect_resumes [OF p st(2,1)] by simp
  qed
  then show ?thesis using Some by (simp add: page_resume_def Let_def)
qed (simp add: page_resume_def assms)

lemma inv_listener:
  assumes "page_inv m p"
  shows "page_inv m (page_listener m source origin data p)"
proof -
  have "page_inv m (page_dispatch m origin source msg p)"
    if "jm_get (mt_policy m) origin \<noteq> None" "source = mt_opener m" for msg
    using assms that
    by (cases msg) (auto intro!: inv_connect inv_sign inv_changed inv_drop split: option.splits)
  then show ?thesis using assms by (auto simp: page_listener_def split: option.splits)
qed

lemma page_step_inv: "page_inv m p \<Longrightarrow> page_inv m (page_step m i p)"
proof (induction i)
  case Close
  then show ?case using inv_revokeAll [OF Close] by (simp add: page_close_def page_inv_def)
next
  case (Clock x)
  then show ?case by (simp add: page_inv_def)
qed (auto intro!: inv_listener inv_resume inv_revokeAll inv_revoke)

lemma announce_trace:
  "pg_trace (announce policy p) = pg_trace p @ map (\<lambda>(origin, _). Posted origin M_ready) policy"
  "pg_grants (announce policy p) = pg_grants p" "pg_tasks (announce policy p) = pg_tasks p"
  "pg_closed (announce policy p) = pg_closed p" "pg_now (announce policy p) = pg_now p"
  "pg_drawn (announce policy p) = pg_drawn p" "pg_next (announce policy p) = pg_next p"
  unfolding announce_def by (induction policy arbitrary: p) (auto simp: reply_def page_log_def)

lemma mount_inv:
  assumes "mountCrossOriginSigner opts now = Inr (Some (m, p))"
  shows "page_inv m p"
proof -
  have p: "p = announce (mt_policy m) (empty_page now)"
    using assms by (auto simp: mountCrossOriginSigner_def split: sum.splits option.splits if_splits)
  have "jm_get (mt_policy m) o' \<noteq> None" if "(o', e) \<in> set (mt_policy m)" for o' e
    unfolding jm_in_keys [symmetric] using that by force
  then show ?thesis
    by (auto simp: p page_inv_def announce_trace empty_page_def grants_ok_def effect_ok_def)
qed

section \<open>The trace only grows\<close>

definition extends :: "page \<Rightarrow> page \<Rightarrow> bool" where
  "extends p p' \<longleftrightarrow> (\<exists>new. pg_trace p' = pg_trace p @ new)"

lemma extends_refl: "extends p p"
  by (simp add: extends_def)

lemma extends_trans: "extends p q \<Longrightarrow> extends q r \<Longrightarrow> extends p r"
  by (auto simp: extends_def)

lemma extends_same: "pg_trace p' = pg_trace p \<Longrightarrow> extends p p'"
  by (simp add: extends_def)

lemma extends_log: "extends p q \<Longrightarrow> extends p (page_log e q)"
  by (auto simp: extends_def page_log_def)

lemma extends_ops:
  "extends p q \<Longrightarrow> extends p (reply o' msg q)"
  "extends p q \<Longrightarrow> extends p (fail o' i code q)"
  "extends p q \<Longrightarrow> extends p (page_changed q)"
  "extends p q \<Longrightarrow> extends p (await_turn k q)"
  "extends p q \<Longrightarrow> extends p (await_call call k q)"
  "extends p q \<Longrightarrow> extends p (dropGrant g notify q)"
  "extends p q \<Longrightarrow> extends p (claim_completion g tmpl q)"
  "extends p q \<Longrightarrow> extends p (give_grant c g q)"
  by (auto simp: extends_def reply_def fail_def page_changed_def page_log_def await_turn_def await_call_def
      dropGrant_def Let_def claim_completion_def give_grant_def)

lemma extends_drop_all: "extends p q \<Longrightarrow> extends p (drop_all gs q)"
  unfolding drop_all_def by (induction gs arbitrary: q) (auto intro: extends_ops)

lemma extends_revoke:
  "extends p q \<Longrightarrow> extends p (page_revokeAll q)"
  "extends p q \<Longrightarrow> extends p (page_revoke x q)"
  by (auto simp: page_revokeAll_def page_revoke_def Let_def intro: extends_ops extends_drop_all)

lemma extends_conclude: "extends p q \<Longrightarrow> extends p (conclude m c pubkey approved q)"
  by (auto simp: conclude_def intro: extends_ops split: option.splits)

lemma extends_resumes:
  "extends p q \<Longrightarrow> extends p (connect_resumes m k a q)"
  "extends p q \<Longrightarrow> extends p (sign_resumes k a q)"
  by (cases k; auto simp: ask_consent_def ask_signature_def signature_arrives_def Let_def
      intro: extends_ops extends_conclude extends_revoke split: option.splits page_answer.splits)+

lemma extends_dispatch: "extends p (page_dispatch m origin source msg p)"
  by (cases msg) (auto simp: handleConnect_def handleSign_def ask_signature_def Let_def
      intro: extends_ops extends_refl split: option.splits sum.splits)

lemma extends_step: "extends p (page_step m i p)"
proof (cases i)
  case (Answered t a)
  have "extends p (page_log (Settled t a) (p\<lparr>pg_tasks := jm_delete t (pg_tasks p)\<rparr>))"
    by (simp add: extends_def page_log_def)
  then show ?thesis using Answered
    by (auto simp: page_resume_def Let_def intro: extends_resumes extends_refl split: option.splits)
next
  case Close
  have "extends p (page_revokeAll p)" by (rule extends_revoke [OF extends_refl])
  then show ?thesis using Close by (auto simp: page_close_def extends_def)
qed (auto simp: page_listener_def intro: extends_dispatch extends_revoke extends_refl extends_same
      split: option.splits)

interpretation sp: reactive "page_step m" pg_trace for m
  using extends_step by unfold_locales (simp add: extends_def)

theorem page_run_inv: "page_inv m p \<Longrightarrow> page_inv m (reacts (page_step m) inputs p)"
  by (rule sp.run_keeps) (rule page_step_inv)

section \<open>A page without grants\<close>

fun is_signed :: "page_effect \<Rightarrow> bool" where
  "is_signed (Posted _ (M_signed _ _)) \<longleftrightarrow> True"
| "is_signed _ \<longleftrightarrow> False"

fun is_connected :: "page_effect \<Rightarrow> bool" where
  "is_connected (Posted _ (M_connected _ _)) \<longleftrightarrow> True"
| "is_connected _ \<longleftrightarrow> False"

text \<open>No grant, and nothing signed since \<open>p\<close>; or a grant was given.\<close>

definition calm :: "page \<Rightarrow> page \<Rightarrow> bool" where
  "calm p p' \<longleftrightarrow> pg_grants p' = [] \<and> filter is_signed (pg_trace p') = filter is_signed (pg_trace p)"

lemma calm_refl: "pg_grants p = [] \<Longrightarrow> calm p p"
  by (simp add: calm_def)

lemma calm_log: "calm p q \<Longrightarrow> \<not> is_signed e \<Longrightarrow> calm p (page_log e q)"
  by (simp add: calm_def page_log_def)

lemma calm_ops:
  "calm p q \<Longrightarrow> calm p (fail o' i code q)"
  "calm p q \<Longrightarrow> calm p (await_turn k q)"
  "calm p q \<Longrightarrow> calm p (await_call call k q)"
  by (auto simp: calm_def reply_def fail_def page_log_def await_turn_def await_call_def)

lemma calm_revoke: "calm p q \<Longrightarrow> calm p (page_revokeAll q)" "calm p q \<Longrightarrow> calm p (page_revoke x q)"
  by (auto simp: calm_def page_revokeAll_def page_revoke_def Let_def)

definition calm_or_connected :: "page \<Rightarrow> page \<Rightarrow> bool" where
  "calm_or_connected p p' \<longleftrightarrow> calm p p' \<or> length (filter is_connected (pg_trace p)) < length (filter is_connected (pg_trace p'))"

lemma calm_conclude: "calm p q \<Longrightarrow> filter is_connected (pg_trace q) = filter is_connected (pg_trace p)
    \<Longrightarrow> calm_or_connected p (conclude m c pubkey approved q)"
  by (auto simp: calm_or_connected_def conclude_def give_grant_def reply_def page_log_def page_changed_def
      intro: calm_ops split: option.splits)

lemma calm_resumes:
  assumes q: "calm p q" "filter is_connected (pg_trace q) = filter is_connected (pg_trace p)"
  shows "calm_or_connected p (sign_resumes k a (connect_resumes m k a q))"
proof -
  have none: "\<not> grant_lives g q" for g using q(1) by (simp add: grant_lives_def calm_def)
  show ?thesis
  proof (cases k)
    case (Wait_sign sq)
    then show ?thesis using q(1) none
      by (auto simp: calm_or_connected_def signature_arrives_def Let_def intro: calm_ops split: page_answer.splits)
  next
    case (Wait_onSign sq)
    then show ?thesis using q(1) none by (auto simp: calm_or_connected_def intro: calm_ops)
  next
    case (Wait_npub c)
    then show ?thesis using q(1)
      by (auto simp: calm_or_connected_def intro: calm_ops split: option.splits)
  next
    case (Wait_unlock c)
    then show ?thesis using q(1) by (auto simp: calm_or_connected_def intro: calm_ops)
  next
    case (Wait_remember c pubkey)
    then show ?thesis using calm_conclude [OF q] by simp
  next
    case (Wait_has c pubkey npub)
    then show ?thesis using q(1) calm_conclude [OF q]
      by (auto simp: calm_or_connected_def ask_consent_def intro: calm_ops)
  next
    case (Wait_consent c pubkey npub)
    then show ?thesis using q(1) calm_conclude [OF q] by (auto simp: calm_or_connected_def intro: calm_ops)
  qed
qed

lemma calm_step:
  assumes "pg_grants p = []"
  shows "calm_or_connected p (page_step m i p)"
proof (cases i)
  case (Message_event source origin data)
  have "calm p (page_dispatch m origin source msg p)" for msg
    using assms
    by (cases msg) (auto simp: handleConnect_def handleSign_def Let_def
        intro!: calm_ops calm_refl split: option.splits sum.splits)
  then show ?thesis using Message_event assms
    by (auto simp: calm_or_connected_def page_listener_def intro: calm_refl split: option.splits)
next
  case (Answered t a)
  let ?q = "page_log (Settled t a) (p\<lparr>pg_tasks := jm_delete t (pg_tasks p)\<rparr>)"
  have "calm p ?q" "filter is_connected (pg_trace ?q) = filter is_connected (pg_trace p)"
    using assms by (simp_all add: calm_def page_log_def)
  then have "calm_or_connected p (sign_resumes k a (connect_resumes m k a ?q))" for k by (rule calm_resumes)
  then show ?thesis using Answered assms
    by (auto simp: page_resume_def Let_def calm_or_connected_def intro: calm_refl split: option.splits)
next
  case Close
  then show ?thesis using assms
    by (auto simp: calm_or_connected_def page_close_def calm_def page_revokeAll_def)
qed (use assms in \<open>auto simp: calm_or_connected_def calm_def page_revokeAll_def page_revoke_def\<close>)

lemma calm_run:
  assumes "pg_grants p = []"
    and "\<forall>e\<in>set (since pg_trace p (reacts (page_step m) inputs p)). \<not> is_connected e"
  shows "\<forall>e\<in>set (since pg_trace p (reacts (page_step m) inputs p)). \<not> is_signed e"
proof -
  have "(\<exists>e\<in>set (since pg_trace p (page_step m i p)). is_connected e)
      \<or> pg_grants (page_step m i p) = [] \<and> (\<forall>e\<in>set (since pg_trace p (page_step m i p)). \<not> is_signed e)"
    if "pg_grants p = []" for i p
  proof -
    obtain new where new: "pg_trace (page_step m i p) = pg_trace p @ new"
      using extends_step [of p m i] by (auto simp: extends_def)
    then show ?thesis using calm_step [OF that, of m i]
      by (auto simp: calm_or_connected_def calm_def since_append [where trace = pg_trace, OF new] filter_empty_conv)
  qed
  then show ?thesis using sp.run_guarded [of "\<lambda>p. pg_grants p = []" _ is_connected is_signed, OF _ assms(1)] assms(2)
    by blast
qed

section \<open>Revocation\<close>

lemma drop_all_empties:
  "\<forall>(i, g)\<in>set gs. gi_grantId g = i \<Longrightarrow> set gs \<supseteq> set (pg_grants p) \<Longrightarrow> pg_grants (drop_all (map snd gs) p) = []"
proof (induction gs arbitrary: p)
  case Nil
  then show ?case by (simp add: drop_all_def)
next
  case (Cons x gs)
  have "set (pg_grants (dropGrant (snd x) True p)) \<subseteq> set gs"
    using Cons.prems by (auto simp: dropGrant_def Let_def reply_def page_log_def jm_delete_def)
  then show ?case using Cons.IH [of "dropGrant (snd x) True p"] Cons.prems(1) by (simp add: drop_all_def)
qed

lemma revokeAll_empties: "page_inv m p \<Longrightarrow> pg_grants (page_revokeAll p) = []"
proof -
  assume "page_inv m p"
  then have "\<forall>(i, g)\<in>set (pg_grants p). gi_grantId g = i" by (auto simp: page_inv_def grants_ok_def)
  then have "pg_grants (drop_all (map snd (pg_grants p)) p) = []" by (rule drop_all_empties) simp
  then show ?thesis by (simp add: page_revokeAll_def page_changed_def page_log_def)
qed

end
