(* ===== verification/WebSignerLimits.thy ===== *)
theory WebSignerLimits
  imports WebSignerFacts
begin

text \<open>
  The limits of a grant of the signer page: how long it lives, and how many completion proofs
  one consent covers. \<open>emits\<close> relates two states of a page when everything the second has
  done since the first satisfies a predicate.
\<close>

section \<open>The validated policy\<close>

lemma validate_entry_ttl:
  "validate_entry parse x = Inr (o', entry) \<Longrightarrow>
     \<exists>ttl. pe_maxTtlSeconds entry = Some ttl \<and> valid_ttl ttl"
  by (auto simp: validate_entry_def Let_def split: prod.splits sum.splits if_splits)

lemma policy_entry:
  assumes "validatePolicy parse entries = Inr policy" and "jm_get policy o' = Some entry"
  shows "\<exists>x\<in>set entries. validate_entry parse x = Inr (o', entry)"
proof -
  obtain checked where c: "map (validate_entry parse) entries = map Inr checked"
    and p: "policy = foldl (\<lambda>m (origin, entry). jm_set origin entry m) [] checked"
    using assms(1) by (auto simp: validatePolicy_def map_or_throw_Inr split: if_splits sum.splits)
  have "set (foldl (\<lambda>m (origin, entry). jm_set origin entry m) acc xs) \<subseteq> set acc \<union> set xs" for acc xs
  proof (induction xs arbitrary: acc)
    case (Cons x xs)
    then show ?case using set_jm_set [of "fst x" "snd x" acc] by (cases x) fastforce
  qed simp
  then have "(o', entry) \<in> set checked" using jm_get_in [OF assms(2)] p by fastforce
  then have "Inr (o', entry) \<in> set (map (validate_entry parse) entries)" using c by simp
  then show ?thesis by (auto dest: sym)
qed

lemma policy_ttl:
  assumes "validatePolicy parse entries = Inr policy" and "jm_get policy o' = Some entry"
  shows "\<exists>ttl. pe_maxTtlSeconds entry = Some ttl \<and> valid_ttl ttl"
  using policy_entry [OF assms] validate_entry_ttl by blast

lemma mounted_policy:
  "mountCrossOriginSigner opts now = Inr (Some (m, p)) \<Longrightarrow>
     validatePolicy (sn_url opts) (sn_policy opts) = Inr (mt_policy m) \<and> mt_options m = opts
     \<and> sn_opener opts = Some (mt_opener m) \<and> \<not> sn_isFramed opts"
  by (auto simp: mountCrossOriginSigner_def split: sum.splits option.splits if_splits)

lemma mounted_origins:
  assumes "mountCrossOriginSigner opts now = Inr (Some (m, p))" and "jm_get (mt_policy m) origin = Some entry"
  shows "\<exists>x\<in>set (sn_policy opts). normalizeOrigin (sn_url opts) (fst x) = Inr origin
      \<and> pe_kinds entry = pe_kinds (snd x)"
proof -
  have "validatePolicy (sn_url opts) (sn_policy opts) = Inr (mt_policy m)" using mounted_policy [OF assms(1)] by simp
  then obtain x where x: "x \<in> set (sn_policy opts)" "validate_entry (sn_url opts) x = Inr (origin, entry)"
    using policy_entry assms(2) by blast
  have "normalizeOrigin (sn_url opts) (fst x) = Inr origin \<and> pe_kinds entry = pe_kinds (snd x)"
    using x(2) by (auto simp: validate_entry_def Let_def split: prod.splits sum.splits if_splits)
  then show ?thesis using x(1) by blast
qed

section \<open>What a step emits\<close>

definition emits :: "(page_effect \<Rightarrow> bool) \<Rightarrow> page \<Rightarrow> page \<Rightarrow> bool" where
  "emits P p q \<longleftrightarrow> (\<exists>new. pg_trace q = pg_trace p @ new \<and> (\<forall>e\<in>set new. P e))"

lemma emits_same: "pg_trace q = pg_trace p \<Longrightarrow> emits P p q"
  by (simp add: emits_def)

lemma emits_refl: "emits P p p"
  by (simp add: emits_def)

lemma emits_since: "emits P p q \<Longrightarrow> e \<in> set (since pg_trace p q) \<Longrightarrow> P e"
  by (auto simp: emits_def since_def)

lemma emits_log: "emits P p q \<Longrightarrow> P e \<Longrightarrow> emits P p (page_log e q)"
  by (auto simp: emits_def page_log_def)

lemma emits_turn: "emits P p q \<Longrightarrow> emits P p (await_turn k q)"
  by (simp add: emits_def await_turn_def)

lemma emits_call: "emits P p q \<Longrightarrow> (\<And>t. P (Called t call)) \<Longrightarrow> emits P p (await_call call k q)"
  by (simp add: await_call_def emits_turn emits_log)

lemma emits_claim: "emits P p q \<Longrightarrow> emits P p (claim_completion g tmpl q)"
  by (simp add: emits_def)

locale harmless =
  fixes P :: "page_effect \<Rightarrow> bool"
  assumes harmless_error: "P (Posted o' (M_error i code))"
    and harmless_revoked: "P (Posted o' (M_revoked g))"
    and harmless_changed: "P (Grants_changed gs)"
    and harmless_settled: "P (Settled t a)"
    and harmless_consent: "P (Called t (Call_onConsent r))" "P (Called t Call_ensureUnlocked)" "P (Called t Call_getNpub)"
      "P (Called t (Call_has x y z))" "P (Called t (Call_remember x y z))"
begin

lemma emits_fail: "emits P p q \<Longrightarrow> emits P p (fail o' i code q)"
  unfolding fail_def reply_def by (rule emits_log) (auto intro: harmless_error)

lemma emits_changed: "emits P p q \<Longrightarrow> emits P p (page_changed q)"
  unfolding page_changed_def by (rule emits_log) (auto intro: harmless_changed)

lemma emits_drop: "emits P p q \<Longrightarrow> emits P p (dropGrant g notify q)"
proof -
  assume "emits P p q"
  then have "emits P p (q\<lparr>pg_grants := jm_delete (gi_grantId g) (pg_grants q)\<rparr>)" by (simp add: emits_def)
  then show ?thesis by (auto simp: dropGrant_def Let_def reply_def intro: emits_log harmless_revoked)
qed

lemma emits_drop_all: "emits P p q \<Longrightarrow> emits P p (drop_all gs q)"
  unfolding drop_all_def by (induction gs arbitrary: q) (auto intro: emits_drop)

lemma emits_revokeAll: "emits P p q \<Longrightarrow> emits P p (page_revokeAll q)"
  by (auto simp: page_revokeAll_def intro: emits_changed emits_drop_all)

lemma emits_revoke: "emits P p q \<Longrightarrow> emits P p (page_revoke x q)"
  by (auto simp: page_revoke_def Let_def intro: emits_changed emits_drop_all)

lemma emits_conclude:
  assumes "emits P p q"
    and "\<And>entry i. jm_get (mt_policy m) (cq_origin c) = Some entry \<Longrightarrow>
      P (Posted (cq_origin c) (M_connected i (GrantInfo.truncate (new_grant m c pubkey entry q))))"
  shows "emits P p (conclude m c pubkey approved q)"
proof -
  have "emits P p (give_grant c (new_grant m c pubkey entry q) q)"
    if "jm_get (mt_policy m) (cq_origin c) = Some entry" for entry
  proof -
    have "emits P p (q\<lparr>pg_drawn := Suc (pg_drawn q), pg_grants := gs\<rparr>)" for gs
      using assms(1) by (simp add: emits_def)
    then show ?thesis unfolding give_grant_def reply_def
      using assms(2) [OF that] by (intro emits_log emits_changed)
  qed
  then show ?thesis using assms(1) by (auto simp: conclude_def intro: emits_fail split: option.splits)
qed

lemma emits_connect_resumes:
  assumes "emits P p q"
    and "\<And>c pubkey entry i. jm_get (mt_policy m) (cq_origin c) = Some entry \<Longrightarrow>
      P (Posted (cq_origin c) (M_connected i (GrantInfo.truncate (new_grant m c pubkey entry q))))"
  shows "emits P p (connect_resumes m k a q)"
  using assms
  by (cases k) (auto simp: ask_consent_def harmless_consent
      intro!: emits_fail emits_call emits_turn emits_conclude split: option.splits)

lemma emits_arrives:
  assumes "emits P p q" and "\<And>o' i. P (Posted o' (M_signed i event))"
  shows "emits P p (signature_arrives sq event q)"
  using assms by (auto simp: signature_arrives_def Let_def reply_def intro!: emits_fail emits_revokeAll emits_log)

lemma emits_sign_resumes:
  assumes "emits P p q" and "\<And>o' i ev. P (Posted o' (M_signed i ev))"
    and "\<And>sq t. k = Wait_onSign sq \<Longrightarrow> P (Called t (Call_signEvent (gi_grantId (sq_grant sq)) (sq_template sq)))"
  shows "emits P p (sign_resumes k a q)"
  using assms
  by (cases k) (auto simp: ask_signature_def intro!: emits_fail emits_call emits_arrives split: page_answer.splits)

lemma emits_connect: "emits P p q \<Longrightarrow> emits P p (handleConnect m o' source i kinds audiences expected q)"
  by (auto simp: handleConnect_def Let_def harmless_consent intro!: emits_fail emits_call emits_turn
      split: option.splits sum.splits)

lemma emits_sign:
  assumes "emits P p q"
    and "\<And>g t b. jm_get (pg_grants q) grantId = Some g \<Longrightarrow> of_int (pg_now q) < gi_expiresAt g \<Longrightarrow>
      P (Called t (Call_onSign (sign_prompt \<lparr>sq_id = i, sq_grant = g, sq_template = tmpl\<rparr> b)))
      \<and> P (Called t (Call_signEvent (gi_grantId g) tmpl))"
  shows "emits P p (handleSign m o' source i grantId tmpl q)"
  using assms
  by (auto simp: handleSign_def Let_def ask_signature_def
      intro!: emits_fail emits_call emits_claim emits_changed emits_drop split: option.splits)

end

section \<open>How long a grant lives\<close>

text \<open>
  A grant expires after the moment it is given and at most 900 seconds later; a prompt, and a
  signature that needs none, only begin while the grant has not expired.
\<close>

definition timely :: "page \<Rightarrow> page_input \<Rightarrow> page_effect \<Rightarrow> bool" where
  "timely p i e \<longleftrightarrow>
     (case e of
        Posted _ (M_connected _ info) \<Rightarrow>
          of_int (pg_now p) < gi_expiresAt info \<and> gi_expiresAt info \<le> of_int (pg_now p) + 900
      | Called _ (Call_onSign s) \<Rightarrow> of_int (pg_now p) < gi_expiresAt (si_grant s)
      | Called _ (Call_signEvent grantId _) \<Rightarrow>
          (case i of
             Answered _ _ \<Rightarrow> True
           | _ \<Rightarrow> \<exists>g. jm_get (pg_grants p) grantId = Some g \<and> of_int (pg_now p) < gi_expiresAt g)
      | _ \<Rightarrow> True)"

interpretation timely: harmless "timely p i" for p i
  by unfold_locales (simp_all add: timely_def)

lemma timely_signed: "timely p i (Posted o' (M_signed j ev))"
  by (simp add: timely_def)

lemma timely_step:
  assumes "mountCrossOriginSigner opts now = Inr (Some (m, p0))" and "grants_ok m tr (pg_grants p)"
  shows "emits (timely p i) p (page_step m i p)"
proof (cases i)
  case (Message_event source origin data)
  have "emits (timely p i) p (page_dispatch m origin source msg p)" for msg
  proof (cases msg)
    case (M_sign j grantId tmpl)
    have "gi_grantId g = grantId" if "jm_get (pg_grants p) grantId = Some g" for g
      using assms(2) jm_get_in [OF that] by (auto simp: grants_ok_def)
    then show ?thesis using Message_event M_sign
      by (auto simp: timely_def sign_prompt_def GrantInfo.truncate_def intro!: timely.emits_sign emits_refl)
  qed (auto intro!: timely.emits_connect timely.emits_changed timely.emits_drop emits_refl split: option.splits)
  then show ?thesis using Message_event
    by (auto simp: page_listener_def intro: emits_same split: option.splits)
next
  case (Answered t a)
  let ?q = "page_log (Settled t a) (p\<lparr>pg_tasks := jm_delete t (pg_tasks p)\<rparr>)"
  have q: "emits (timely p i) p ?q" by (rule emits_log) (auto simp: emits_def timely_def)
  have "timely p i (Posted (cq_origin c) (M_connected j (GrantInfo.truncate (new_grant m c pubkey entry ?q))))"
    if "jm_get (mt_policy m) (cq_origin c) = Some entry" for c pubkey entry j
    using policy_ttl [OF _ that] mounted_policy [OF assms(1)]
    by (fastforce simp: timely_def new_grant_def GrantInfo.truncate_def page_log_def valid_ttl_def
        MAX_GRANT_TTL_SECONDS_def)
  then have "emits (timely p i) p (sign_resumes k a (connect_resumes m k a ?q))" for k
    using timely_signed Answered
    by (intro timely.emits_sign_resumes timely.emits_connect_resumes q) (auto simp: timely_def)
  then show ?thesis using Answered
    by (auto simp: page_resume_def Let_def intro: emits_same split: option.splits)
next
  case Close
  have "emits (timely p i) p (page_revokeAll p)" by (intro timely.emits_revokeAll emits_same) simp
  then show ?thesis using Close by (auto simp: page_close_def emits_def)
qed (auto intro!: timely.emits_revokeAll timely.emits_revoke intro: emits_refl emits_same)

section \<open>One completion proof per consent\<close>

fun completion_of :: "string \<Rightarrow> page_effect \<Rightarrow> bool" where
  "completion_of grantId (Called _ (Call_signEvent g tmpl)) \<longleftrightarrow> g = grantId \<and> is_completion tmpl"
| "completion_of grantId _ \<longleftrightarrow> False"

lemma completion_of_iff:
  "completion_of grantId e \<longleftrightarrow> (\<exists>t tmpl. e = Called t (Call_signEvent grantId tmpl) \<and> is_completion tmpl)"
  by (cases "(grantId, e)" rule: completion_of.cases) auto

lemma completion_of_fun:
  "completion_of grantId = (\<lambda>e. \<exists>t tmpl. e = Called t (Call_signEvent grantId tmpl) \<and> is_completion tmpl)"
  by (rule ext) (rule completion_of_iff)

text \<open>How many completion proofs the signer has been asked for under a grant.\<close>

definition completions :: "string \<Rightarrow> page \<Rightarrow> nat" where
  "completions grantId p = length (filter (completion_of grantId) (pg_trace p))"

fun prompts :: "task \<Rightarrow> bool" where
  "prompts (Wait_onSign _) \<longleftrightarrow> True"
| "prompts _ \<longleftrightarrow> False"

definition drawn :: "mounted \<Rightarrow> page \<Rightarrow> string \<Rightarrow> bool" where
  "drawn m p grantId \<longleftrightarrow> (\<exists>n<pg_drawn p. grantId = randomId (sn_random (mt_options m) n))"

text \<open>The first \<open>N\<close> random numbers differ.\<close>

definition distinct_ids :: "mounted \<Rightarrow> nat \<Rightarrow> bool" where
  "distinct_ids m N \<longleftrightarrow> inj_on (\<lambda>n. randomId (sn_random (mt_options m) n)) {..<N}"

definition no_prompts :: "page \<Rightarrow> bool" where
  "no_prompts p \<longleftrightarrow> list_all (\<lambda>(_, k). \<not> prompts k) (pg_tasks p)"

definition claimed :: "mounted \<Rightarrow> page \<Rightarrow> string \<Rightarrow> bool" where
  "claimed m p i \<longleftrightarrow> drawn m p i \<and> (\<forall>g. jm_get (pg_grants p) i = Some g \<longrightarrow> gs_completionUsed g)"

definition claim_inv :: "mounted \<Rightarrow> page \<Rightarrow> bool" where
  "claim_inv m p \<longleftrightarrow>
     no_prompts p
     \<and> (\<forall>i g. jm_get (pg_grants p) i = Some g \<longrightarrow> gi_grantId g = i \<and> drawn m p i)
     \<and> (\<forall>i. completions i p = 0 \<or> completions i p = 1 \<and> claimed m p i)"

text \<open>No new grant, no claim, no completion.\<close>

definition steady :: "page \<Rightarrow> page \<Rightarrow> bool" where
  "steady p q \<longleftrightarrow>
     (\<forall>i. completions i q = completions i p) \<and> pg_drawn q = pg_drawn p \<and> (no_prompts p \<longrightarrow> no_prompts q)
     \<and> (\<forall>i g. jm_get (pg_grants q) i = Some g \<longrightarrow> jm_get (pg_grants p) i = Some g)"

lemma steady_refl: "steady p p"
  by (simp add: steady_def)

lemma steady_inv:
  assumes "claim_inv m p" and "steady p q"
  shows "claim_inv m q"
proof -
  have "drawn m q i = drawn m p i" for i using assms(2) by (simp add: drawn_def steady_def)
  then have "claimed m p i \<Longrightarrow> claimed m q i" for i using assms(2) by (simp add: claimed_def steady_def)
  moreover have "no_prompts q" "\<forall>i g. jm_get (pg_grants q) i = Some g \<longrightarrow> gi_grantId g = i \<and> drawn m q i"
    "\<forall>i. completions i q = completions i p"
    using assms \<open>\<And>i. drawn m q i = drawn m p i\<close> by (simp_all add: claim_inv_def steady_def)
  ultimately show ?thesis using assms(1) unfolding claim_inv_def by metis
qed

lemma claim_invD:
  assumes "claim_inv m p"
  shows "no_prompts p" and "jm_get (pg_grants p) i = Some g \<Longrightarrow> gi_grantId g = i"
    and "jm_get (pg_grants p) i = Some g \<Longrightarrow> drawn m p i"
    and "completions i p = 0 \<or> completions i p = 1 \<and> claimed m p i"
  using assms unfolding claim_inv_def by blast+

lemma claim_invI:
  assumes "no_prompts p" and "\<And>i g. jm_get (pg_grants p) i = Some g \<Longrightarrow> gi_grantId g = i"
    and "\<And>i g. jm_get (pg_grants p) i = Some g \<Longrightarrow> drawn m p i"
    and "\<And>i. completions i p = 0 \<or> completions i p = 1 \<and> claimed m p i"
  shows "claim_inv m p"
  using assms unfolding claim_inv_def by blast

lemma steady_log: "steady p q \<Longrightarrow> (\<And>i. \<not> completion_of i e) \<Longrightarrow> steady p (page_log e q)"
  by (simp add: steady_def page_log_def completions_def no_prompts_def)

lemma steady_reply: "steady p q \<Longrightarrow> steady p (reply o' msg q)"
  unfolding reply_def by (rule steady_log) simp_all

lemma steady_fail: "steady p q \<Longrightarrow> steady p (fail o' i code q)"
  unfolding fail_def by (rule steady_reply)

lemma steady_changed: "steady p q \<Longrightarrow> steady p (page_changed q)"
  unfolding page_changed_def by (rule steady_log) simp_all

lemma steady_drop: "steady p q \<Longrightarrow> steady p (dropGrant g notify q)"
proof -
  assume "steady p q"
  then have "steady p (q\<lparr>pg_grants := jm_delete (gi_grantId g) (pg_grants q)\<rparr>)"
    by (auto simp: steady_def completions_def no_prompts_def jm_get_delete)
  then show ?thesis by (auto simp: dropGrant_def Let_def intro: steady_reply)
qed

lemma steady_drop_all: "steady p q \<Longrightarrow> steady p (drop_all gs q)"
  unfolding drop_all_def by (induction gs arbitrary: q) (auto intro: steady_drop)

lemma steady_revoke: "steady p q \<Longrightarrow> steady p (page_revokeAll q)" "steady p q \<Longrightarrow> steady p (page_revoke x q)"
  by (auto simp: page_revokeAll_def page_revoke_def Let_def intro: steady_changed steady_drop_all)

lemma steady_turn: "steady p q \<Longrightarrow> \<not> prompts k \<Longrightarrow> steady p (await_turn k q)"
  using set_jm_set [of "pg_next q" k "pg_tasks q"]
  by (auto simp: steady_def await_turn_def completions_def no_prompts_def list_all_iff)

lemma steady_call:
  "steady p q \<Longrightarrow> \<not> prompts k \<Longrightarrow> (\<And>i t. \<not> completion_of i (Called t call)) \<Longrightarrow> steady p (await_call call k q)"
  unfolding await_call_def by (intro steady_turn steady_log)

lemmas steady_ops = steady_refl steady_fail steady_changed steady_drop steady_revoke steady_turn steady_call

text \<open>A new grant has a number that no grant had before.\<close>

lemma claim_give_grant:
  assumes "claim_inv m q" and "distinct_ids m N" and "pg_drawn q < N"
  shows "claim_inv m (give_grant c (new_grant m c pubkey entry q) q)"
proof -
  let ?g = "new_grant m c pubkey entry q" and ?p = "give_grant c (new_grant m c pubkey entry q) q"
  have id: "gi_grantId ?g = randomId (sn_random (mt_options m) (pg_drawn q))" by (simp add: new_grant_def)
  have fresh: "\<not> drawn m q (gi_grantId ?g)"
    using assms(2,3) id by (fastforce simp: drawn_def distinct_ids_def inj_on_def)
  have p: "pg_drawn ?p = Suc (pg_drawn q)" "pg_tasks ?p = pg_tasks q" "completions i ?p = completions i q"
    "pg_grants ?p = jm_set (gi_grantId ?g) ?g (pg_grants q)" for i
    by (simp_all add: give_grant_def reply_def page_log_def page_changed_def completions_def)
  have d: "drawn m ?p i \<longleftrightarrow> drawn m q i \<or> i = gi_grantId ?g" for i
    using id p(1) by (auto simp: drawn_def less_Suc_eq)
  have zero: "completions (gi_grantId ?g) q = 0"
    using claim_invD(4) [OF assms(1), of "gi_grantId ?g"] fresh by (simp add: claimed_def)
  show ?thesis
  proof (rule claim_invI)
    show "no_prompts ?p" using claim_invD(1) [OF assms(1)] by (simp add: no_prompts_def p(2))
  next
    fix i g assume "jm_get (pg_grants ?p) i = Some g"
    then show "gi_grantId g = i" "drawn m ?p i"
      unfolding p(4) jm_get_set d using claim_invD(2,3) [OF assms(1), of i g] by (auto split: if_splits)
  next
    fix i
    have "claimed m ?p i" if "claimed m q i" "i \<noteq> gi_grantId ?g"
      using that by (simp add: claimed_def p(4) jm_get_set d)
    then show "completions i ?p = 0 \<or> completions i ?p = 1 \<and> claimed m ?p i"
      unfolding p(3) using claim_invD(4) [OF assms(1), of i] zero by metis
  qed
qed

lemma claim_conclude:
  assumes "claim_inv m q" and "distinct_ids m N" and "pg_drawn (conclude m c pubkey approved q) \<le> N"
  shows "claim_inv m (conclude m c pubkey approved q)"
proof -
  have "pg_drawn (give_grant c g q) = Suc (pg_drawn q)" for g
    by (simp add: give_grant_def reply_def page_log_def page_changed_def)
  then show ?thesis
    using assms(1,3) claim_give_grant [OF assms(1,2)] steady_inv [OF assms(1) steady_fail [OF steady_refl]]
    by (simp add: conclude_def Suc_le_eq split: option.splits if_splits)
qed

text \<open>A completion is claimed in the step that asks the signer for it.\<close>

lemma claim_asked:
  assumes "claim_inv m p" and "jm_get (pg_grants p) (gi_grantId g) = Some g"
    and "\<not> (is_completion tmpl \<and> gs_completionUsed g)"
  shows "claim_inv m (ask_signature \<lparr>sq_id = i, sq_grant = g, sq_template = tmpl\<rparr> (claim_completion g tmpl p))"
    (is "claim_inv m ?p")
proof (cases "is_completion tmpl")
  case False
  then have "steady p ?p"
    by (auto simp: claim_completion_def ask_signature_def intro!: steady_ops)
  then show ?thesis by (rule steady_inv [OF assms(1)])
next
  case True
  note unfolded = claim_completion_def ask_signature_def await_call_def await_turn_def page_log_def
  have zero: "completions (gi_grantId g) p = 0"
    using claim_invD(4) [OF assms(1), of "gi_grantId g"] True assms(2,3) by (auto simp: claimed_def)
  have grants: "pg_grants ?p = jm_set (gi_grantId g) (g\<lparr>gs_completionUsed := True\<rparr>) (pg_grants p)"
    using True assms(3) by (simp add: unfolded)
  have count: "completions j ?p = completions j p + (if j = gi_grantId g then 1 else 0)" for j
    using True by (simp add: completions_def unfolded)
  have "steady (p\<lparr>pg_grants := pg_grants ?p\<rparr>) (await_turn (Wait_sign \<lparr>sq_id = i, sq_grant = g, sq_template = tmpl\<rparr>)
      (p\<lparr>pg_grants := pg_grants ?p\<rparr>))" by (intro steady_turn steady_refl) simp
  then have tasks: "no_prompts p \<Longrightarrow> no_prompts ?p" "drawn m ?p j \<longleftrightarrow> drawn m p j" for j
    by (simp_all add: steady_def unfolded no_prompts_def drawn_def)
  show ?thesis
  proof (rule claim_invI)
    show "no_prompts ?p" by (rule tasks(1) [OF claim_invD(1) [OF assms(1)]])
  next
    fix j g' assume "jm_get (pg_grants ?p) j = Some g'"
    then show "gi_grantId g' = j" "drawn m ?p j"
      unfolding grants jm_get_set tasks(2)
      using claim_invD(2,3) [OF assms(1), of j g'] claim_invD(3) [OF assms(1,2)] by (auto split: if_splits)
  next
    fix j
    have "claimed m ?p j" if "j = gi_grantId g \<or> claimed m p j"
      using that claim_invD(3) [OF assms(1,2)] by (auto simp: claimed_def grants jm_get_set tasks(2))
    then show "completions j ?p = 0 \<or> completions j ?p = 1 \<and> claimed m ?p j"
      unfolding count using claim_invD(4) [OF assms(1), of j] zero by auto
  qed
qed

lemma claim_sign:
  assumes "claim_inv m p" and "\<not> sn_onSign (mt_options m)"
  shows "claim_inv m (handleSign m o' source i grantId tmpl p)"
proof (cases "jm_get (pg_grants p) grantId")
  case None
  then show ?thesis using steady_inv [OF assms(1) steady_fail [OF steady_refl]] by (simp add: handleSign_def)
next
  case (Some g)
  then have g: "gi_grantId g = grantId" by (rule claim_invD(2) [OF assms(1)])
  have st: "claim_inv m q" if "steady p q" for q by (rule steady_inv [OF assms(1) that])
  show ?thesis
  proof (cases "is_completion tmpl \<and> gs_completionUsed g")
    case True
    then have "claim_completion g tmpl p = p" by (simp add: claim_completion_def)
    then show ?thesis using Some assms(2) True
      by (auto simp: handleSign_def Let_def intro!: st steady_ops)
  next
    case False
    then show ?thesis
      using Some assms(2) claim_asked [OF assms(1) _ False, of i] g
      by (auto simp: handleSign_def Let_def intro!: st steady_ops)
  qed
qed

lemma claim_resumes:
  assumes "claim_inv m q" and "\<not> prompts k" and "distinct_ids m N"
    and "pg_drawn (sign_resumes k a (connect_resumes m k a q)) \<le> N"
  shows "claim_inv m (sign_resumes k a (connect_resumes m k a q))"
proof -
  have st: "claim_inv m q'" if "steady q q'" for q' by (rule steady_inv [OF assms(1) that])
  note conclude = claim_conclude [OF assms(1,3)]
  show ?thesis
  proof (cases k)
    case (Wait_has c pubkey npub)
    then show ?thesis using assms(4) conclude
      by (cases "sn_consentStore (mt_options m)"; cases "a = Threw"; cases "a = Returned_bool True";
          simp add: ask_consent_def st steady_ops)
  next
    case (Wait_consent c pubkey npub)
    then show ?thesis using assms(4) conclude
      by (cases "a = Returned_bool True"; simp add: st steady_ops)
  next
    case (Wait_remember c pubkey)
    then show ?thesis using assms(4) conclude by simp
  qed (use assms(2) in \<open>auto simp: signature_arrives_def Let_def reply_def [of _ "M_signed _ _"]
        intro!: st steady_ops steady_log split: option.splits page_answer.splits\<close>)
qed

lemma claim_step:
  assumes "claim_inv m p" and "\<not> sn_onSign (mt_options m)" and "distinct_ids m N"
    and "pg_drawn (page_step m i p) \<le> N"
  shows "claim_inv m (page_step m i p)"
proof (cases i)
  case (Message_event source origin data)
  have st: "claim_inv m q" if "steady p q" for q by (rule steady_inv [OF assms(1) that])
  have "claim_inv m (page_dispatch m origin source msg p)" for msg
    using assms(1) claim_sign [OF assms(1,2)]
    by (cases msg) (auto simp: handleConnect_def Let_def intro!: st steady_ops split: option.splits sum.splits)
  then show ?thesis using Message_event assms(1) by (auto simp: page_listener_def split: option.splits)
next
  case (Answered t a)
  show ?thesis
  proof (cases "jm_get (pg_tasks p) t")
    case (Some k)
    let ?q = "page_log (Settled t a) (p\<lparr>pg_tasks := jm_delete t (pg_tasks p)\<rparr>)"
    have "steady p (p\<lparr>pg_tasks := jm_delete t (pg_tasks p)\<rparr>)"
      by (auto simp: steady_def completions_def no_prompts_def list_all_iff jm_delete_def)
    then have q: "claim_inv m ?q" by (intro steady_inv [OF assms(1)] steady_log) simp_all
    have "\<not> prompts k" using claim_invD(1) [OF assms(1)] jm_get_in [OF Some] by (auto simp: no_prompts_def list_all_iff)
    moreover have "pg_drawn (sign_resumes k a (connect_resumes m k a ?q)) \<le> N"
      using assms(4) Answered Some by (simp add: page_resume_def Let_def)
    ultimately have "claim_inv m (sign_resumes k a (connect_resumes m k a ?q))"
      by (rule claim_resumes [OF q _ assms(3)])
    then show ?thesis using Answered Some by (simp add: page_resume_def Let_def)
  qed (use Answered assms(1) in \<open>simp add: page_resume_def\<close>)
next
  case Close
  have "steady p (page_revokeAll p)" by (intro steady_ops)
  then have "steady p (page_close p)"
    by (auto simp: page_close_def steady_def completions_def no_prompts_def)
  then show ?thesis using Close steady_inv [OF assms(1)] by simp
next
  case (Clock now)
  have "steady p (p\<lparr>pg_now := now\<rparr>)" by (simp add: steady_def completions_def no_prompts_def)
  then show ?thesis using Clock steady_inv [OF assms(1)] by simp
qed (use assms(1) in \<open>auto intro: steady_inv steady_ops\<close>)

lemma drawn_ops [simp]:
  "pg_drawn (page_log e p) = pg_drawn p" "pg_drawn (reply o' msg p) = pg_drawn p"
  "pg_drawn (fail o' i code p) = pg_drawn p" "pg_drawn (page_changed p) = pg_drawn p"
  "pg_drawn (await_turn k p) = pg_drawn p" "pg_drawn (await_call call k p) = pg_drawn p"
  "pg_drawn (dropGrant g notify p) = pg_drawn p" "pg_drawn (claim_completion g tmpl p) = pg_drawn p"
  by (simp_all add: page_log_def reply_def fail_def page_changed_def await_turn_def await_call_def dropGrant_def
      Let_def claim_completion_def)

lemma drawn_drop_all [simp]: "pg_drawn (drop_all gs p) = pg_drawn p"
  unfolding drop_all_def by (induction gs arbitrary: p) simp_all

lemma drawn_revoke [simp]: "pg_drawn (page_revokeAll p) = pg_drawn p" "pg_drawn (page_revoke x p) = pg_drawn p"
  by (simp_all add: page_revokeAll_def page_revoke_def Let_def)

lemma drawn_conclude: "pg_drawn p \<le> pg_drawn (conclude m c pubkey approved p)"
  by (simp add: conclude_def give_grant_def split: option.split)

lemma drawn_resumes: "pg_drawn p \<le> pg_drawn (sign_resumes k a (connect_resumes m k a p))"
  using drawn_conclude
  by (cases k) (auto simp: ask_consent_def ask_signature_def signature_arrives_def Let_def
      split: option.splits page_answer.splits)

lemma drawn_step: "pg_drawn p \<le> pg_drawn (page_step m i p)"
proof (cases i)
  case (Message_event source origin data)
  have "pg_drawn (page_dispatch m origin source msg p) = pg_drawn p" for msg
    by (cases msg) (auto simp: handleConnect_def handleSign_def ask_signature_def Let_def split: option.splits sum.splits)
  then show ?thesis using Message_event by (auto simp: page_listener_def split: option.splits)
next
  case (Answered t a)
  then show ?thesis
    using drawn_resumes [of "page_log (Settled t a) (p\<lparr>pg_tasks := jm_delete t (pg_tasks p)\<rparr>)" _ a m]
    by (auto simp: page_resume_def Let_def split: option.splits)
qed (simp_all add: page_close_def)

lemma claim_run:
  assumes "claim_inv m p" and "\<not> sn_onSign (mt_options m)"
    and "distinct_ids m (pg_drawn (reacts (page_step m) inputs p))"
  shows "claim_inv m (reacts (page_step m) inputs p)"
proof -
  have mono: "pg_drawn q \<le> pg_drawn (reacts (page_step m) is q)" for "is" q
  proof (induction "is" arbitrary: q)
    case (Cons i "is")
    then show ?case using drawn_step [of q m i] by (auto intro: le_trans)
  qed simp
  show ?thesis
    using assms(1,3)
  proof (induction inputs arbitrary: p)
    case (Cons i inputs)
    have "claim_inv m (page_step m i p)"
      using Cons.prems assms(2) mono by (intro claim_step [where N = "pg_drawn (reacts (page_step m) (i # inputs) p)"]) auto
    then show ?case using Cons by simp
  qed simp
qed

lemma claim_mounted:
  assumes "mountCrossOriginSigner opts now = Inr (Some (m, p))"
  shows "claim_inv m p"
proof -
  have p: "p = announce (mt_policy m) (empty_page now)"
    using assms by (auto simp: mountCrossOriginSigner_def split: sum.splits option.splits if_splits)
  have "completions i p = 0" for i
    by (auto simp: completions_def p announce_trace empty_page_def filter_empty_conv)
  then show ?thesis by (simp add: claim_inv_def p announce_trace empty_page_def no_prompts_def)
qed

end
