(* ===== verification/WebClientCalls.thy ===== *)
theory WebClientCalls
  imports WebClientFacts WebSignerLimits
begin

text \<open>
  The calls of a grant: nothing is posted, connected or signed once it has ended; every call of
  \<open>signEvent\<close> is answered once, or waits with a timer that ends it; and an event that a call
  returns came in a message of the signer's window.
\<close>

section \<open>An ended grant\<close>

fun active_effect :: "relying_effect \<Rightarrow> bool" where
  "active_effect (X_posted _ _) \<longleftrightarrow> True"
| "active_effect (X_connected _) \<longleftrightarrow> True"
| "active_effect (X_signed _ _) \<longleftrightarrow> True"
| "active_effect _ \<longleftrightarrow> False"

text \<open>The grant is as ended as before, and nothing active was done.\<close>

definition idle :: "relying_page \<Rightarrow> relying_page \<Rightarrow> bool" where
  "idle s s' \<longleftrightarrow>
     rl_ended s' = rl_ended s
     \<and> (\<exists>new. rl_trace s' = rl_trace s @ new \<and> (\<forall>e\<in>set new. \<not> active_effect e))"

lemma idle_same: "rl_ended s' = rl_ended s \<Longrightarrow> rl_trace s' = rl_trace s \<Longrightarrow> idle s s'"
  by (simp add: idle_def)

lemma idle_log: "idle s s' \<Longrightarrow> \<not> active_effect e \<Longrightarrow> idle s (xc_log e s')"
  by (auto simp: idle_def)

lemma idle_trans: "idle s s' \<Longrightarrow> idle s' s'' \<Longrightarrow> idle s s''"
  by (auto simp: idle_def)

lemma idle_end: "idle s s' \<Longrightarrow> rl_ended s \<noteq> None \<Longrightarrow> idle s (xc_end code s')"
  by (auto simp: idle_def end_ended)

lemma idle_settle:
  assumes "refusing x" and "rl_ended s \<noteq> None"
  shows "idle s (settle r x s)"
  using assms
  by (cases x) (auto simp: Let_def connect_fails_def intro!: idle_log idle_end intro: idle_same
      split: option.split sum.splits relying_request.splits)

lemma idle_drain:
  assumes "list_all refusing (rl_queue s)" and "rl_ended s \<noteq> None"
  shows "idle s (xc_drain r s)"
proof -
  have "idle s' (fold (settle r) xs s')" if "list_all refusing xs" "rl_ended s' \<noteq> None" for xs s'
    using that
  proof (induction xs arbitrary: s')
    case (Cons x xs)
    have "idle s' (settle r x s')" using Cons.prems by (intro idle_settle) simp_all
    moreover from this have "idle (settle r x s') (fold (settle r) xs (settle r x s'))"
      using Cons by (intro Cons.IH) (auto simp: idle_def)
    ultimately show ?case by (auto intro: idle_trans)
  qed (simp add: idle_same)
  from this [of "rl_queue s" "s\<lparr>rl_queue := []\<rparr>"] assms show ?thesis
    by (auto simp: xc_drain_def idle_def)
qed

lemma ended_input:
  assumes "rl_ended s \<noteq> None" and "rl_queue s = []"
  shows "idle s (xc_input r i s) \<and> list_all refusing (rl_queue (xc_input r i s))"
proof (cases i)
  case (I_signEvent tmpl)
  then show ?thesis using assms
    by (auto simp: xc_signEvent_def Let_def intro!: idle_log intro: idle_same split: option.split)
next
  case I_disconnect
  then show ?thesis using assms
    by (auto simp: xc_disconnect_def end_ended intro!: idle_log intro: idle_same split: option.split)
qed (use assms in \<open>auto simp: xc_listener_def xc_onEnd_def end_ended intro: idle_same idle_log split: option.split\<close>)

definition grant_over :: "relying_page \<Rightarrow> bool" where
  "grant_over s \<longleftrightarrow> rl_ended s \<noteq> None \<and> rl_queue s = []"

lemma ended_step:
  assumes "grant_over s"
  shows "idle s (xc_step r i s) \<and> grant_over (xc_step r i s)"
proof -
  have i: "idle s (xc_input r i s)" "list_all refusing (rl_queue (xc_input r i s))"
    using ended_input assms by (simp_all add: grant_over_def)
  then have e: "rl_ended (xc_input r i s) \<noteq> None" using assms by (simp add: idle_def grant_over_def)
  have d: "idle (xc_input r i s) (xc_drain r (xc_input r i s))" by (rule idle_drain [OF i(2) e])
  have "hushed (xc_drain r (xc_input r i s))" by (rule hushed_drain)
  then have "idle (xc_drain r (xc_input r i s)) (xc_step r i s)"
    using d e unfolding xc_step_def xc_flush_def by (intro idle_drain) (auto simp: hushed_def idle_def)
  then have "idle s (xc_step r i s)" using i(1) d idle_trans by blast
  then show ?thesis using assms flush_empties by (auto simp: grant_over_def idle_def xc_step_def)
qed

lemma ended_run:
  assumes "grant_over s"
  shows "idle s (reacts (xc_step r) inputs s)"
  using assms
proof (induction inputs arbitrary: s)
  case (Cons i inputs)
  then show ?case using ended_step [of s r i] idle_trans by fastforce
qed (simp add: idle_same)

lemma run_queue: "rl_queue s = [] \<Longrightarrow> rl_queue (reacts (xc_step r) inputs s) = []"
  by (induction inputs arbitrary: s) (simp_all add: xc_step_def flush_empties)

section \<open>Every call is answered once\<close>

fun calls :: "nat \<Rightarrow> relying_effect \<Rightarrow> bool" where
  "calls n (X_called m _) \<longleftrightarrow> m = n"
| "calls n _ \<longleftrightarrow> False"

fun answers :: "nat \<Rightarrow> relying_effect \<Rightarrow> bool" where
  "answers n (X_signed m _) \<longleftrightarrow> m = n"
| "answers n (X_refused m _) \<longleftrightarrow> m = n"
| "answers n _ \<longleftrightarrow> False"

definition counted :: "(relying_effect \<Rightarrow> bool) \<Rightarrow> relying_page \<Rightarrow> nat" where
  "counted P s = length (filter P (rl_trace s))"

definition opens :: "nat \<Rightarrow> relying_page \<Rightarrow> nat" where
  "opens n s = (case jm_get (rl_open s) n of Some (Req_sign _) \<Rightarrow> 1 | _ \<Rightarrow> 0)"

text \<open>A call that was made is answered once or open; a number not yet given has no call.\<close>

definition call_ok :: "nat \<Rightarrow> nat \<Rightarrow> nat \<Rightarrow> bool \<Rightarrow> bool" where
  "call_ok made answered waiting new \<longleftrightarrow>
     made = answered + waiting \<and> made \<le> 1 \<and> (new \<longrightarrow> made = 0)"

definition call_inv :: "relying_page \<Rightarrow> bool" where
  "call_inv s \<longleftrightarrow>
     (\<forall>n. call_ok (counted (calls n) s) (counted (answers n) s) (opens n s) (rl_next s \<le> n)
        \<and> (rl_next s \<le> n \<longrightarrow> jm_get (rl_open s) n = None))"

lemma counted_log [simp]: "counted P (xc_log e s) = counted P s + of_bool (P e)"
  by (simp add: counted_def)

lemma counted_queue [simp]: "counted P (xc_queue x s) = counted P s"
  by (simp add: counted_def)

lemma opens_ops [simp]: "opens n (xc_log e s) = opens n s" "opens n (xc_queue x s) = opens n s"
  "opens n (xc_end code s) = opens n s"
  by (simp_all add: opens_def)

lemma call_inv_same:
  "call_inv s \<Longrightarrow> rl_open s' = rl_open s \<Longrightarrow> rl_next s' = rl_next s \<Longrightarrow> rl_trace s' = rl_trace s \<Longrightarrow> call_inv s'"
  by (simp add: call_inv_def counted_def opens_def)

lemma call_inv_log: "call_inv s \<Longrightarrow> (\<And>n. \<not> calls n e \<and> \<not> answers n e) \<Longrightarrow> call_inv (xc_log e s)"
  by (simp add: call_inv_def)

lemma call_inv_queue: "call_inv s \<Longrightarrow> call_inv (xc_queue x s)"
  by (rule call_inv_same) simp_all

lemma counted_end [simp]: "counted (calls n) (xc_end code s) = counted (calls n) s"
  "counted (answers n) (xc_end code s) = counted (answers n) s"
proof -
  obtain ns where ns: "rl_trace (xc_end code s) = rl_trace s @ map (\<lambda>n. X_notified n code) ns" using end_trace by blast
  have "filter (calls n) (map (\<lambda>n. X_notified n code) ns) = []" "filter (answers n) (map (\<lambda>n. X_notified n code) ns) = []"
    by (auto simp: filter_empty_conv)
  then show "counted (calls n) (xc_end code s) = counted (calls n) s"
    "counted (answers n) (xc_end code s) = counted (answers n) s"
    unfolding counted_def ns filter_append by simp_all
qed

lemma call_inv_end: "call_inv s \<Longrightarrow> call_inv (xc_end code s)"
  by (simp add: call_inv_def)

lemma call_inv_fails: "call_inv s \<Longrightarrow> call_inv (connect_fails code s)"
  unfolding connect_fails_def by (intro call_inv_log call_inv_end) simp_all

lemma request_sel [simp]:
  "rl_open (xc_request r k msg n s) = jm_set n k (rl_open s)" "rl_next (xc_request r k msg n s) = rl_next s"
  "counted (calls j) (xc_request r k msg n s) = counted (calls j) s"
  "counted (answers j) (xc_request r k msg n s) = counted (answers j) s"
  by (auto simp: xc_request_def xc_post_def counted_def Let_def split: option.split)

lemma call_inv_settle:
  assumes "call_inv s"
  shows "call_inv (settle r x s)"
proof (cases x)
  case (Settle_ready outcome)
  have w: "call_inv (s\<lparr>rl_waiting := False\<rparr>)" by (rule call_inv_same [OF assms]) simp_all
  have "call_inv (xc_request r Req_connect msg (rl_next s) (s\<lparr>rl_waiting := False, rl_next := Suc (rl_next s)\<rparr>))" for msg
  proof -
    have "call_ok (counted (calls n) s) (counted (answers n) s)
        (opens n (xc_request r Req_connect msg (rl_next s) (s\<lparr>rl_waiting := False, rl_next := Suc (rl_next s)\<rparr>))) (Suc (rl_next s) \<le> n)"
      for n using assms by (auto simp: call_inv_def call_ok_def opens_def jm_get_set dest!: spec [of _ n])
    moreover have "counted P (s\<lparr>rl_waiting := False, rl_next := Suc (rl_next s)\<rparr>) = counted P s" for P
      by (simp add: counted_def)
    ultimately show ?thesis using assms by (simp add: call_inv_def jm_get_set)
  qed
  then show ?thesis using assms w Settle_ready by (auto simp: Let_def intro: call_inv_fails split: option.split)
next
  case (Settle_request n outcome)
  show ?thesis
  proof (cases "jm_get (rl_open s) n")
    case (Some k)
    let ?s = "s\<lparr>rl_open := jm_delete n (rl_open s)\<rparr>"
    have c: "counted P ?s = counted P s" for P by (simp add: counted_def)
    show ?thesis
    proof (cases k)
      case Req_connect
      then have "opens j ?s = opens j s" for j using Some by (auto simp: opens_def jm_get_delete)
      then have i: "call_inv ?s" using assms by (simp add: call_inv_def c jm_get_delete)
      have "call_inv (?s\<lparr>rl_grant := g, rl_listeners := []\<rparr>)" for g by (rule call_inv_same [OF i]) simp_all
      then show ?thesis using i Some Req_connect Settle_request
        by (auto simp: Let_def xc_connected_def intro: call_inv_fails call_inv_log split: sum.split CrossOriginMessage.split)
    next
      case (Req_sign tmpl)
      have answered: "call_inv (xc_log e ?s)" if "\<And>j. answers j e \<longleftrightarrow> j = n" "\<And>j. \<not> calls j e" for e
      proof -
        have "call_ok (counted (calls j) s) (counted (answers j) s + of_bool (j = n)) (opens j ?s) (rl_next s \<le> j)" for j
          using assms Some Req_sign by (auto simp: call_inv_def call_ok_def opens_def jm_get_delete dest!: spec [of _ j])
        then show ?thesis using assms that by (simp add: call_inv_def c jm_get_delete)
      qed
      have "call_inv (xc_log (X_refused n code) ?s)" "call_inv (xc_log (X_signed n ev) ?s)" for code ev
        by (rule answered; auto)+
      then show ?thesis using Some Req_sign Settle_request
        by (auto simp: Let_def xc_signed_def split: sum.split CrossOriginMessage.split option.split)
    qed
  qed (simp add: Settle_request assms)
qed

lemma call_inv_drain: "call_inv s \<Longrightarrow> call_inv (xc_drain r s)"
proof -
  assume "call_inv s"
  then have "call_inv (s\<lparr>rl_queue := []\<rparr>)" by (rule call_inv_same) simp_all
  moreover have "call_inv s' \<Longrightarrow> call_inv (fold (settle r) xs s')" for xs s'
    by (induction xs arbitrary: s') (simp_all add: call_inv_settle)
  ultimately show ?thesis by (simp add: xc_drain_def)
qed

lemma call_inv_answer: "call_inv s \<Longrightarrow> call_inv (xc_answer i outcome s)"
proof -
  assume s: "call_inv s"
  have "call_inv (xc_queue x (s\<lparr>rl_pending := p, rl_timers := t\<rparr>))" for x p t
    by (rule call_inv_queue, rule call_inv_same [OF s]) simp_all
  then show ?thesis using s by (auto simp: xc_answer_def Let_def intro: call_inv_end split: option.split sum.split)
qed

lemma call_inv_dispatch: "call_inv s \<Longrightarrow> call_inv (xc_dispatch msg s)"
proof (induction msg s rule: xc_dispatch.induct)
  case (1 s)
  have "call_inv (s\<lparr>rl_ready := True, rl_readyTimer := False\<rparr>)" by (rule call_inv_same [OF 1]) simp_all
  then show ?case using 1 by (auto intro: call_inv_queue call_inv_end)
qed (auto intro: call_inv_answer call_inv_end split: option.splits)

lemma call_inv_signEvent:
  assumes "call_inv s"
  shows "call_inv (xc_signEvent r tmpl s)"
proof -
  let ?s = "xc_log (X_called (rl_next s) tmpl) (s\<lparr>rl_next := Suc (rl_next s)\<rparr>)"
  have c: "counted P (s\<lparr>rl_next := n\<rparr>) = counted P s" for P n by (simp add: counted_def)
  have o': "opens n (s\<lparr>rl_next := m\<rparr>) = opens n s" for n m by (simp add: opens_def)
  have new: "counted (calls (rl_next s)) s = 0" "jm_get (rl_open s) (rl_next s) = None"
    "counted (answers (rl_next s)) s = 0" "opens (rl_next s) s = 0"
    using assms by (auto simp: call_inv_def call_ok_def dest!: spec [of _ "rl_next s"])
  have ok: "call_ok (counted (calls n) s + of_bool (rl_next s = n)) (counted (answers n) s + of_bool (rl_next s = n))
      (opens n s) (Suc (rl_next s) \<le> n)"
    "call_ok (counted (calls n) s + of_bool (rl_next s = n)) (counted (answers n) s)
      (if n = rl_next s then 1 else opens n s) (Suc (rl_next s) \<le> n)"
    "Suc (rl_next s) \<le> n \<longrightarrow> jm_get (rl_open s) n = None" for n
    using assms new by (auto simp: call_inv_def call_ok_def dest!: spec [of _ n])
  have "call_inv (xc_log (X_refused (rl_next s) code) ?s)" "call_inv (xc_log (X_refused (rl_next s) code) (xc_end GRANT_EXPIRED ?s))"
    for code
    using ok(1,3) by (simp_all add: call_inv_def c o')
  moreover have "call_inv (xc_request r (Req_sign tmpl) msg (rl_next s) ?s)" for msg
  proof -
    have "opens n (xc_request r (Req_sign tmpl) msg (rl_next s) ?s) = (if n = rl_next s then 1 else opens n s)" for n
      by (simp add: opens_def jm_get_set)
    then show ?thesis using ok(2,3) by (simp add: call_inv_def c jm_get_set)
  qed
  ultimately show ?thesis by (auto simp: xc_signEvent_def Let_def split: option.split)
qed

lemma call_inv_input: "call_inv s \<Longrightarrow> call_inv (xc_input r i s)"
proof (cases i)
  case (I_message source origin data)
  assume "call_inv s"
  then show ?thesis using I_message by (auto simp: xc_listener_def intro: call_inv_dispatch split: option.split)
next
  case (I_signEvent tmpl)
  assume "call_inv s"
  then show ?thesis using I_signEvent by (simp add: call_inv_signEvent)
next
  case (I_request_timer n)
  assume s: "call_inv s"
  have "call_inv (s\<lparr>rl_timers := t, rl_pending := p\<rparr>)" for t p by (rule call_inv_same [OF s]) simp_all
  then show ?thesis using s I_request_timer by (auto intro: call_inv_queue split: option.split)
next
  case I_ready_timer
  assume s: "call_inv s"
  have "call_inv (s\<lparr>rl_readyTimer := False\<rparr>)" by (rule call_inv_same [OF s]) simp_all
  then show ?thesis using s I_ready_timer by (auto intro: call_inv_queue)
next
  case (I_onEnd n)
  assume s: "call_inv s"
  have "call_inv (s\<lparr>rl_listeners := ls\<rparr>)" for ls by (rule call_inv_same [OF s]) simp_all
  then show ?thesis using s I_onEnd by (auto simp: xc_onEnd_def intro: call_inv_log split: option.split)
next
  case (I_offEnd n)
  assume s: "call_inv s"
  show ?thesis unfolding I_offEnd by (rule call_inv_same [OF s]) simp_all
next
  case (I_clock now)
  assume s: "call_inv s"
  show ?thesis unfolding I_clock by (rule call_inv_same [OF s]) simp_all
qed (auto simp: xc_disconnect_def xc_post_def intro!: call_inv_log call_inv_end split: option.split)

lemma call_inv_step: "call_inv s \<Longrightarrow> call_inv (xc_step r i s)"
  unfolding xc_step_def xc_flush_def by (intro call_inv_drain call_inv_input)

lemma call_inv_run: "call_inv s \<Longrightarrow> call_inv (reacts (xc_step r) inputs s)"
  by (rule xc.run_keeps) (rule call_inv_step)

lemma call_inv_created: "connectCrossOrigin opts now = Inr (r, s) \<Longrightarrow> call_inv s"
  using connected_parts [of opts now r s]
  by (auto simp: call_inv_def call_ok_def opened_page_def counted_def opens_def)

section \<open>An open request has a timer\<close>

definition will_settle :: "settlement list \<Rightarrow> nat \<Rightarrow> bool" where
  "will_settle xs n \<longleftrightarrow> (\<exists>outcome. Settle_request n outcome \<in> set xs)"

definition timer_armed :: "relying_page \<Rightarrow> nat \<Rightarrow> bool" where
  "timer_armed s n \<longleftrightarrow> n \<in> set (map fst (rl_timers s))"

text \<open>With \<open>xs\<close> still to be run.\<close>

definition armed :: "settlement list \<Rightarrow> relying_page \<Rightarrow> bool" where
  "armed xs s \<longleftrightarrow>
     (\<forall>n. jm_get (rl_open s) n \<noteq> None \<longrightarrow> timer_armed s n \<or> will_settle (xs @ rl_queue s) n)"

lemma armed_log [simp]: "armed xs (xc_log e s) = armed xs s"
  by (simp add: armed_def timer_armed_def)

lemma armed_same:
  "armed xs s \<Longrightarrow> rl_open s' = rl_open s \<Longrightarrow> rl_timers s' = rl_timers s \<Longrightarrow> rl_queue s' = rl_queue s \<Longrightarrow> armed xs s'"
  by (simp add: armed_def timer_armed_def)

lemma armed_queue: "armed xs s \<Longrightarrow> armed xs (xc_queue x s)"
  by (auto simp: armed_def timer_armed_def will_settle_def)

text \<open>Every timer the end of a grant clears belongs to a request it queues.\<close>

lemma end_timers:
  "timer_armed s n \<Longrightarrow> timer_armed (xc_end code s) n \<or> will_settle (rl_queue (xc_end code s)) n"
proof (cases "rl_ended s")
  case None
  let ?s = "s\<lparr>rl_ended := Some code, rl_pending := [],
      rl_timers := filter (\<lambda>(n, _). n \<notin> snd ` set (rl_pending s)) (rl_timers s),
      rl_queue := rl_queue s @ map (\<lambda>(_, n). Settle_request n (Inl code)) (rl_pending s)\<rparr>"
  obtain q where q: "rl_queue (fold (notify_end code) (rl_listeners s) ?s) = rl_queue ?s @ q"
    using notify_all(11) by blast
  assume "timer_armed s n"
  then obtain i where i: "(n, i) \<in> set (rl_timers s)" by (auto simp: timer_armed_def)
  show ?thesis
  proof (cases "n \<in> snd ` set (rl_pending s)")
    case True
    then have "Settle_request n (Inl code) \<in> set (rl_queue ?s)" by force
    then show ?thesis using None q by (auto simp: will_settle_def xc_end_def)
  next
    case False
    then have "(n, i) \<in> set (rl_timers (xc_end code s))" using None i by (simp add: xc_end_def notify_all)
    then show ?thesis by (force simp: timer_armed_def)
  qed
qed (simp add: end_ended)

lemma armed_end:
  assumes "armed xs s"
  shows "armed xs (xc_end code s)"
proof -
  obtain q where "rl_queue (xc_end code s) = rl_queue s @ q" using end_queue by blast
  then have "will_settle (xs @ rl_queue s) n \<Longrightarrow> will_settle (xs @ rl_queue (xc_end code s)) n" for n
    by (auto simp: will_settle_def)
  moreover have "will_settle (rl_queue (xc_end code s)) n \<Longrightarrow> will_settle (xs @ rl_queue (xc_end code s)) n" for n
    by (auto simp: will_settle_def)
  ultimately show ?thesis using assms end_timers [of s _ code] unfolding armed_def end_sel(1) by blast
qed

lemma armed_fails: "armed xs s \<Longrightarrow> armed xs (connect_fails code s)"
  by (simp add: connect_fails_def armed_end)

lemma jm_set_keys: "fst ` set (jm_set k v m) = insert k (fst ` set m)"
  unfolding jm_set_def by (induction m) auto

lemma armed_request: "armed xs s \<Longrightarrow> armed xs (xc_request r k msg n s)"
  by (auto simp: armed_def timer_armed_def will_settle_def xc_request_def xc_post_def Let_def jm_get_set jm_set_keys
      split: option.splits if_splits)

lemma armed_settle:
  assumes "armed (x # xs) s"
  shows "armed xs (settle r x s)"
proof (cases x)
  case (Settle_ready outcome)
  have s: "armed xs s" using assms Settle_ready by (simp add: armed_def will_settle_def)
  have "armed xs (s\<lparr>rl_waiting := False\<rparr>)" "armed xs (s\<lparr>rl_waiting := False, rl_next := n\<rparr>)" for n
    by (rule armed_same [OF s]; simp)+
  then show ?thesis using s Settle_ready by (auto simp: Let_def intro: armed_fails armed_request split: option.split)
next
  case (Settle_request n outcome)
  let ?s = "s\<lparr>rl_open := jm_delete n (rl_open s)\<rparr>"
  have s: "armed xs ?s"
    using assms Settle_request by (fastforce simp: armed_def will_settle_def timer_armed_def jm_get_delete split: if_splits)
  have g: "armed xs (?s\<lparr>rl_grant := g, rl_listeners := []\<rparr>)" for g by (rule armed_same [OF s]) simp_all
  show ?thesis
  proof (cases "jm_get (rl_open s) n")
    case None
    then show ?thesis
      using assms Settle_request by (fastforce simp: armed_def will_settle_def)
  next
    case (Some k)
    then show ?thesis using s g Settle_request
      by (auto simp: Let_def xc_connected_def xc_signed_def intro: armed_fails
          split: relying_request.split sum.split CrossOriginMessage.split option.split)
  qed
qed

lemma armed_drain: "armed [] s \<Longrightarrow> armed [] (xc_drain r s)"
proof -
  assume "armed [] s"
  then have "armed (rl_queue s) (s\<lparr>rl_queue := []\<rparr>)" by (simp add: armed_def timer_armed_def)
  moreover have "armed xs s' \<Longrightarrow> armed [] (fold (settle r) xs s')" for xs s'
    by (induction xs arbitrary: s') (simp_all add: armed_settle)
  ultimately show ?thesis by (simp add: xc_drain_def)
qed

lemma timers_delete: "timer_armed s m \<Longrightarrow> m \<noteq> n \<Longrightarrow> m \<in> set (map fst (jm_delete n (rl_timers s)))"
  by (auto simp: timer_armed_def jm_delete_def)

lemma armed_settled:
  assumes "armed [] s"
  shows "armed [] (xc_queue (Settle_request n outcome) (s\<lparr>rl_pending := p, rl_timers := jm_delete n (rl_timers s)\<rparr>))"
proof -
  have "timer_armed s m \<Longrightarrow> m \<noteq> n \<Longrightarrow>
      timer_armed (xc_queue (Settle_request n outcome) (s\<lparr>rl_pending := p, rl_timers := jm_delete n (rl_timers s)\<rparr>)) m" for m
    using timers_delete [of s m n] by (simp add: timer_armed_def)
  then show ?thesis using assms by (fastforce simp: armed_def will_settle_def)
qed

lemma armed_answer: "armed [] s \<Longrightarrow> armed [] (xc_answer i outcome s)"
  using armed_settled by (auto simp: xc_answer_def Let_def intro: armed_end split: option.split sum.split)

lemma armed_dispatch: "armed [] s \<Longrightarrow> armed [] (xc_dispatch msg s)"
proof (induction msg s rule: xc_dispatch.induct)
  case (1 s)
  have "armed [] (s\<lparr>rl_ready := True, rl_readyTimer := False\<rparr>)" by (rule armed_same [OF 1]) simp_all
  then show ?case using 1 by (auto intro: armed_queue armed_end)
qed (auto intro: armed_answer armed_end split: option.splits)

lemma armed_input: "armed [] s \<Longrightarrow> armed [] (xc_input r i s)"
proof (cases i)
  case (I_message source origin data)
  assume "armed [] s"
  then show ?thesis using I_message by (auto simp: xc_listener_def intro: armed_dispatch split: option.split)
next
  case (I_signEvent tmpl)
  assume s: "armed [] s"
  have "armed [] (s\<lparr>rl_next := n\<rparr>)" for n by (rule armed_same [OF s]) simp_all
  then show ?thesis using I_signEvent
    by (auto simp: xc_signEvent_def Let_def intro: armed_request armed_end split: option.split)
next
  case (I_request_timer n)
  assume s: "armed [] s"
  have "armed [] (xc_queue (Settle_request n (Inl TIMEOUT)) (s\<lparr>rl_timers := jm_delete n (rl_timers s), rl_pending := p\<rparr>))" for p
    using armed_settled [OF s, of n "Inl TIMEOUT" p] by (simp add: armed_def timer_armed_def)
  then show ?thesis using s I_request_timer by (simp split: option.split)
next
  case I_ready_timer
  assume s: "armed [] s"
  have "armed [] (s\<lparr>rl_readyTimer := False\<rparr>)" by (rule armed_same [OF s]) simp_all
  then show ?thesis using s I_ready_timer by (auto intro: armed_queue)
next
  case (I_onEnd n)
  assume s: "armed [] s"
  have "armed [] (s\<lparr>rl_listeners := ls\<rparr>)" for ls by (rule armed_same [OF s]) simp_all
  then show ?thesis using s I_onEnd by (auto simp: xc_onEnd_def split: option.split)
next
  case (I_offEnd n)
  assume s: "armed [] s"
  show ?thesis unfolding I_offEnd by (rule armed_same [OF s]) simp_all
next
  case (I_clock now)
  assume s: "armed [] s"
  show ?thesis unfolding I_clock by (rule armed_same [OF s]) simp_all
qed (auto simp: xc_disconnect_def xc_post_def intro!: armed_end split: option.split)

lemma armed_step: "armed [] s \<Longrightarrow> armed [] (xc_step r i s)"
  unfolding xc_step_def xc_flush_def by (intro armed_drain armed_input)

lemma armed_run: "armed [] s \<Longrightarrow> armed [] (reacts (xc_step r) inputs s)"
  by (rule xc.run_keeps) (rule armed_step)

text \<open>When the timer of an open call fires, the call is refused.\<close>

lemma timer_refuses:
  assumes "jm_get (rl_open s) n = Some (Req_sign tmpl)" and "armed [] s" and "rl_queue s = []"
  shows "rl_trace (xc_step r (I_request_timer n) s) = rl_trace s @ [X_refused n TIMEOUT]"
proof -
  have "timer_armed s n" using assms by (auto simp: armed_def will_settle_def)
  then obtain i where i: "jm_get (rl_timers s) n = Some i" unfolding timer_armed_def jm_in_keys by blast
  let ?s = "s\<lparr>rl_timers := jm_delete n (rl_timers s), rl_pending := jm_delete i (rl_pending s)\<rparr>"
  have d: "xc_drain r (xc_input r (I_request_timer n) s) =
      xc_log (X_refused n TIMEOUT) (?s\<lparr>rl_queue := [], rl_open := jm_delete n (rl_open s)\<rparr>)"
    using i assms(1,3) by (simp add: xc_drain_def xc_queue_def)
  show ?thesis unfolding xc_step_def xc_flush_def d by (simp add: xc_drain_def)
qed

section \<open>Where an event comes from\<close>

definition sources :: "(CrossOriginMessage \<Rightarrow> bool) \<Rightarrow> settlement list \<Rightarrow> bool" where
  "sources M xs \<longleftrightarrow> (\<forall>n msg. Settle_request n (Inr msg) \<in> set xs \<longrightarrow> M msg)"

definition from_message :: "(CrossOriginMessage \<Rightarrow> bool) \<Rightarrow> relying_page \<Rightarrow> relying_page \<Rightarrow> bool" where
  "from_message M s s' \<longleftrightarrow>
     (\<exists>new. rl_trace s' = rl_trace s @ new \<and> (\<forall>n ev. X_signed n ev \<in> set new \<longrightarrow> (\<exists>i. M (M_signed i ev))))"

lemma from_same: "rl_trace s' = rl_trace s \<Longrightarrow> from_message M s s'"
  by (simp add: from_message_def)

lemma from_trans: "from_message M s s' \<Longrightarrow> from_message M s' s'' \<Longrightarrow> from_message M s s''"
  unfolding from_message_def by (metis append.assoc Un_iff set_append)

lemma from_log: "from_message M s s' \<Longrightarrow> (\<And>n ev. e \<noteq> X_signed n ev) \<Longrightarrow> from_message M s (xc_log e s')"
  by (cases e) (auto simp: from_message_def)

lemma from_end: "from_message M s s' \<Longrightarrow> from_message M s (xc_end code s')"
  using end_trace [of code s'] by (fastforce simp: from_message_def)

lemma from_request: "from_message M s s' \<Longrightarrow> from_message M s (xc_request r k msg n s')"
  by (auto simp: xc_request_def xc_post_def Let_def from_message_def split: option.split)

lemma from_settle:
  assumes "sources M [x]"
  shows "from_message M s (settle r x s)"
proof (cases x)
  case (Settle_ready outcome)
  then show ?thesis
    by (auto simp: Let_def connect_fails_def intro!: from_log from_end from_request intro: from_same split: option.split)
next
  case (Settle_request n outcome)
  have "from_message M s (xc_signed r n tmpl msg (s\<lparr>rl_open := o'\<rparr>))" if "outcome = Inr msg" for tmpl msg o'
  proof -
    have "M msg" using assms Settle_request that by (simp add: sources_def)
    then show ?thesis
      by (cases msg) (auto simp: xc_signed_def from_message_def split: option.split)
  qed
  then show ?thesis using Settle_request
    by (auto simp: Let_def connect_fails_def xc_connected_def intro!: from_log from_end intro: from_same
        split: option.split sum.split relying_request.split CrossOriginMessage.split)
qed

lemma sources_refusing: "list_all refusing xs \<Longrightarrow> sources M xs"
  by (fastforce simp: sources_def list_all_iff)

lemma from_drain: "sources M (rl_queue s) \<Longrightarrow> from_message M s (xc_drain r s)"
proof -
  assume q: "sources M (rl_queue s)"
  have "from_message M s' (fold (settle r) xs s')" if "sources M xs" for xs s'
    using that
  proof (induction xs arbitrary: s')
    case (Cons x xs)
    have "sources M [x]" "sources M xs" using Cons.prems by (auto simp: sources_def)
    then show ?case using Cons.IH [of "settle r x s'"] from_settle [of M x s' r] from_trans by fastforce
  qed (simp add: from_same)
  from this [OF q, of "s\<lparr>rl_queue := []\<rparr>"] show ?thesis by (simp add: xc_drain_def from_message_def)
qed

lemma input_sources:
  assumes "rl_queue s = []"
  shows "from_message M s (xc_input r i s)
     \<and> sources (\<lambda>msg. \<exists>data. i = I_message (xr_popup r) (xr_keyOrigin r) data \<and> parseMessage data = Some msg)
         (rl_queue (xc_input r i s))"
proof -
  have e: "sources M' (rl_queue (xc_end code s'))" if "sources M' (rl_queue s')" for M' code s'
  proof -
    obtain q where "rl_queue (xc_end code s') = rl_queue s' @ q" "list_all refusing q" using end_queue by blast
    then show ?thesis using that sources_refusing [of q M'] by (auto simp: sources_def)
  qed
  have none: "sources M' []" for M' by (simp add: sources_def)
  have a: "from_message M s (xc_answer j outcome s)" for j outcome
    by (auto simp: xc_answer_def Let_def intro!: from_end intro: from_same split: option.split sum.split)
  have b: "sources M' (rl_queue (xc_answer j outcome s))" if "\<And>msg. outcome = Inr msg \<Longrightarrow> M' msg" for M' j outcome
    using assms that none by (auto simp: xc_answer_def Let_def sources_def intro!: e [unfolded sources_def] split: option.split sum.split)
  show ?thesis
  proof (cases i)
    case (I_signEvent tmpl)
    have "rl_queue (xc_request r k msg n s') = rl_queue s'" if "rl_ended s' = None" for k msg n s'
      using that by (simp add: xc_request_def xc_post_def Let_def)
    then show ?thesis using I_signEvent assms none
      by (auto simp: xc_signEvent_def Let_def intro!: from_log from_end from_request e intro: from_same split: option.split)
  next
    case (I_message source origin data)
    show ?thesis
    proof (cases "rl_ended s \<noteq> None \<or> source \<noteq> xr_popup r \<or> origin \<noteq> xr_keyOrigin r \<or> parseMessage data = None")
      case True
      then show ?thesis using I_message assms by (auto simp: xc_listener_def sources_def intro: from_same)
    next
      case False
      then obtain msg where msg: "parseMessage data = Some msg" by blast
      have "from_message M s (xc_dispatch msg s)"
        by (cases msg) (auto intro!: from_end a intro: from_same split: option.split)
      moreover have "sources (\<lambda>m. m = msg) (rl_queue (xc_dispatch msg s))"
        using assms by (cases msg) (auto intro!: e b simp: none sources_def [of _ "[Settle_ready None]"] split: option.split)
      ultimately show ?thesis using False msg I_message by (auto simp: xc_listener_def sources_def)
    qed
  qed (use assms none in \<open>auto simp: xc_onEnd_def xc_disconnect_def xc_post_def Let_def
      sources_def [of _ "[Settle_ready _]"] sources_def [of _ "[Settle_request _ (Inl _)]"]
      intro!: from_log from_end e intro: from_same split: option.split\<close>)
qed

lemma step_sources:
  assumes "rl_queue s = []"
  shows "from_message (\<lambda>msg. \<exists>data. i = I_message (xr_popup r) (xr_keyOrigin r) data \<and> parseMessage data = Some msg)
           s (xc_step r i s)"
  (is "from_message ?M _ _")
proof -
  have i: "from_message ?M s (xc_input r i s)" "sources ?M (rl_queue (xc_input r i s))"
    using input_sources [OF assms, of ?M r i] by simp_all
  have "sources ?M (rl_queue (xc_drain r (xc_input r i s)))"
    using hushed_drain [of r "xc_input r i s"] by (auto simp: hushed_def intro: sources_refusing)
  then show ?thesis
    using i from_drain from_trans unfolding xc_step_def xc_flush_def by meson
qed

text \<open>An event that a call returned came in a message of the signer's window.\<close>

lemma run_sources:
  assumes "rl_queue s = []" and "X_signed n ev \<in> set (since rl_trace s (reacts (xc_step r) inputs s))"
  shows "\<exists>i data. I_message (xr_popup r) (xr_keyOrigin r) data \<in> set inputs \<and> parseMessage data = Some (M_signed i ev)"
  using assms
proof (induction inputs arbitrary: s)
  case (Cons i inputs)
  have q: "rl_queue (xc_step r i s) = []" by (simp add: xc_step_def flush_empties)
  obtain new where new: "rl_trace (xc_step r i s) = rl_trace s @ new"
    "X_signed n ev \<in> set new \<Longrightarrow>
      \<exists>j data. i = I_message (xr_popup r) (xr_keyOrigin r) data \<and> parseMessage data = Some (M_signed j ev)"
    using step_sources [OF Cons.prems(1), of i r] by (auto simp: from_message_def)
  show ?case
  proof (cases "X_signed n ev \<in> set new")
    case True
    then show ?thesis using new(2) by auto
  next
    case False
    then have "X_signed n ev \<in> set (since rl_trace (xc_step r i s) (reacts (xc_step r) inputs (xc_step r i s)))"
      using Cons.prems(2) unfolding xc.since_Cons by (simp add: since_append [where trace = rl_trace, OF new(1)])
    then show ?thesis using Cons.IH [OF q] by auto
  qed
qed (simp add: since_def)

text \<open>What is read of a posted message is that message.\<close>

lemma posted_read: "parseMessage (message_json msg) = Some msg' \<Longrightarrow> msg' = msg"
proof (cases msg)
  case (M_connect i kinds audiences expected)
  assume "parseMessage (message_json msg) = Some msg'"
  then show ?thesis unfolding M_connect
    by (cases expected) (auto simp: parse_posted, auto simp: parse_typed_def posted_def split: if_splits)
next
  case (M_error i code)
  assume "parseMessage (message_json msg) = Some msg'"
  then show ?thesis unfolding M_error
    by (cases i) (auto simp: parse_posted, auto simp: parse_typed_def posted_def split: if_splits)
qed (auto simp: parse_posted, auto simp: parse_typed_def posted_def Let_def split: if_splits)

end
