(* ===== verification/WebSession.thy ===== *)
theory WebSession
  imports WebProtocol Reactive
begin

text \<open>
  nap-client-web, the session of a tab (\<open>session.ts\<close>) with its activity lock
  (\<open>activityLock.ts\<close>), its broadcast bus (\<open>broadcast.ts\<close>), its requests (\<open>httpClient.ts\<close>) and
  the way back from a lock (\<open>reunlock.ts\<close>).

  A tab reacts to inputs: calls of the session's methods, messages of other tabs, timers,
  activity of the user, and answers to what it awaits. Each \<open>await\<close> ends a step; the rest of
  the method is a task under a number. The trace has the requests and calls the tab makes, the
  callbacks it runs, what it publishes, and how each call ends. Bodies of responses have
  their declared types, the application's callbacks do not throw, and an answer may be any.
\<close>

section \<open>Types\<close>

datatype LockRecovery = Recover_unlock | Recover_passphrase | Recover_reauthenticate

record SessionState =
  ss_pubkey :: string
  ss_npub :: string
  ss_roles :: "string list"
  ss_permissions :: "string list"
  ss_expiresAt :: int

datatype BroadcastMessageType = B_logout | B_lock | B_unlock | B_shutdown | B_identity_changed

primrec broadcast_str :: "BroadcastMessageType \<Rightarrow> string" where
  "broadcast_str B_logout = ''logout''"
| "broadcast_str B_lock = ''lock''"
| "broadcast_str B_unlock = ''unlock''"
| "broadcast_str B_shutdown = ''shutdown''"
| "broadcast_str B_identity_changed = ''identity-changed''"

definition MESSAGE_TYPES :: "BroadcastMessageType list" where
  "MESSAGE_TYPES = [B_logout, B_lock, B_unlock, B_shutdown, B_identity_changed]"

definition broadcast_of :: "json option \<Rightarrow> BroadcastMessageType option" where
  "broadcast_of v =
     (case as_string v of None \<Rightarrow> None | Some s \<Rightarrow> find (\<lambda>t. broadcast_str t = s) MESSAGE_TYPES)"

datatype auth_phase = Phase_init | Phase_complete

datatype ReunlockErrorCode = INVALID_PASSPHRASE | NO_STORED_KEY | STORAGE_UNAVAILABLE

datatype web_error =
    SessionLockedError
  | AuthRequestError auth_phase nat bool
  | IdentityMismatchError string string
  | Lookup_failed nat
  | No_step_up_token
  | Key_store_required
  | ReunlockError ReunlockErrorCode
  | Holds_a_key
  | Bus_closed
  | Thrown

text \<open>
  The options: which members are there, and the platform. \<open>co_accepts\<close>: the evictable
  signer's \<open>setKey\<close> takes the key, it throws otherwise. \<open>co_window\<close>: there is a \<open>window\<close>.
\<close>

record NapClientOptions =
  co_baseUrl :: string
  co_evictable :: bool
  co_accepts :: "string \<Rightarrow> bool"
  co_autoLock :: bool
  co_shutdownTimer :: bool
  co_window :: bool
  co_broadcast :: bool
  co_keyStore :: bool
  co_signerPreference :: bool
  co_nip19_decode :: "string \<Rightarrow> (string \<times> json) option"
  co_sha256 :: "byte list \<Rightarrow> byte list"
  co_num_text :: num_text

datatype login_via = Via_login | Via_resume

datatype tab_value = V_success AuthSuccessResponse | V_null | V_token string | V_done

datatype tab_effect =
    E_getNpub nat
  | E_signEvent nat EventTemplate
  | E_fetch nat string string "string option" "string option"
  | E_keyStore_hasKey nat
  | E_keyStore_loadKey nat string
  | E_settled nat
  | E_resolved nat tab_value
  | E_rejected nat web_error
  | E_threw web_error
  | E_received BroadcastMessageType
  | E_published BroadcastMessageType "json option"
  | E_preference_cleared
  | E_onLogin login_via
  | E_onLock
  | E_onUnlock
  | E_onShutdown
  | E_onLogout
  | E_onSessionExpired
  | E_onIdentityChanged json

datatype tab_task =
    T_npub nat bool
  | T_init nat bool
  | T_sign nat bool AuthInitResponse int
  | T_complete nat bool
  | T_logout nat
  | T_session nat bool
  | T_verify nat AuthSuccessResponse
  | T_hasKey nat string
  | T_loadKey nat

datatype tab_answer =
    A_threw
  | A_bad_passphrase
  | A_npub string
  | A_init nat "AuthInitResponse option"
  | A_event Nip98Event
  | A_success nat "AuthSuccessResponse option"
  | A_bool bool
  | A_key string

record tab =
  ts_session :: "SessionState option"
  ts_locked :: bool
  ts_shutdown :: bool
  ts_key :: bool
  ts_lockTimer :: bool
  ts_shutdownTimer :: bool
  ts_listening :: bool
  ts_busOpen :: bool
  ts_tasks :: "(nat, tab_task) jsmap"
  ts_next :: nat
  ts_now :: int
  ts_trace :: "tab_effect list"

section \<open>Helpers\<close>

definition sessionPath :: "string \<Rightarrow> string \<Rightarrow> string" where
  "sessionPath baseUrl path = strip_slash baseUrl @ ''/auth/'' @ path"

definition tab_pubkeyOfNpub :: "(string \<Rightarrow> (string \<times> json) option) \<Rightarrow> string \<Rightarrow> string" where
  "tab_pubkeyOfNpub decode npub =
     (case decode npub of
        Some (type, data) \<Rightarrow> if type = ''npub'' then or_else (as_string (Some data)) npub else npub
      | None \<Rightarrow> npub)"

definition toSessionState :: "AuthSuccessResponse \<Rightarrow> SessionState" where
  "toSessionState r =
     \<lparr>ss_pubkey = as_principal_pubkey r, ss_npub = as_principal_npub r, ss_roles = or_else (as_roles r) [],
      ss_permissions = or_else (as_permissions r) [], ss_expiresAt = as_expires_at r\<rparr>"

definition terminal_status :: "nat \<Rightarrow> bool" where
  "terminal_status status \<longleftrightarrow> 400 \<le> status \<and> status < 500 \<and> status \<noteq> 429"

definition lockRecovery :: "NapClientOptions \<Rightarrow> LockRecovery" where
  "lockRecovery o' =
     (if \<not> co_evictable o' then Recover_unlock
      else if co_keyStore o' then Recover_passphrase else Recover_reauthenticate)"

definition tab_log :: "tab_effect \<Rightarrow> tab \<Rightarrow> tab" where
  "tab_log e s = s\<lparr>ts_trace := ts_trace s @ [e]\<rparr>"

text \<open>\<open>activityLock.touch()\<close>; without a window or when disabled the lock does nothing.\<close>

definition tab_touch :: "NapClientOptions \<Rightarrow> tab \<Rightarrow> tab" where
  "tab_touch o' s =
     (if co_autoLock o' \<and> co_window o'
      then s\<lparr>ts_lockTimer := True, ts_shutdownTimer := co_shutdownTimer o' \<or> ts_shutdownTimer s\<rparr>
      else s)"

definition evictKey :: "NapClientOptions \<Rightarrow> tab \<Rightarrow> tab" where
  "evictKey o' s = (if co_evictable o' then s\<lparr>ts_key := False\<rparr> else s)"

text \<open>The key holder.\<close>

definition holder_clearKey :: "NapClientOptions \<Rightarrow> tab \<Rightarrow> tab" where
  "holder_clearKey o' s = evictKey o' s\<lparr>ts_locked := True\<rparr>"

definition holder_hasKey :: "NapClientOptions \<Rightarrow> tab \<Rightarrow> bool" where
  "holder_hasKey o' s = (if co_evictable o' then ts_key s else \<not> ts_locked s)"

definition holder_setKey :: "NapClientOptions \<Rightarrow> tab \<Rightarrow> tab" where
  "holder_setKey o' s = s\<lparr>ts_key := co_evictable o' \<or> ts_key s, ts_locked := False, ts_shutdown := False\<rparr>"

definition unlocked :: "tab \<Rightarrow> tab" where
  "unlocked s = s\<lparr>ts_locked := False, ts_shutdown := False\<rparr>"

text \<open>Publishing on a closed channel throws.\<close>

definition publish_throws :: "NapClientOptions \<Rightarrow> tab \<Rightarrow> bool" where
  "publish_throws o' s \<longleftrightarrow> co_broadcast o' \<and> \<not> ts_busOpen s"

definition publish :: "NapClientOptions \<Rightarrow> BroadcastMessageType \<Rightarrow> json option \<Rightarrow> tab \<Rightarrow> tab" where
  "publish o' type detail s =
     (if co_broadcast o' \<and> ts_busOpen s then tab_log (E_published type detail) s else s)"

text \<open>\<open>publish\<close> as the last statement of a synchronous method.\<close>

definition publish_last :: "NapClientOptions \<Rightarrow> BroadcastMessageType \<Rightarrow> tab \<Rightarrow> tab" where
  "publish_last o' type s =
     (if publish_throws o' s then tab_log (E_threw Bus_closed) s else publish o' type None s)"

definition identity_detail :: "string \<Rightarrow> string \<Rightarrow> json" where
  "identity_detail expected actual = JObj [(''expectedPubkey'', JStr expected), (''actualPubkey'', JStr actual)]"

definition clear_preference :: "NapClientOptions \<Rightarrow> tab \<Rightarrow> tab" where
  "clear_preference o' s = (if co_signerPreference o' then tab_log E_preference_cleared s else s)"

definition drop_session :: "NapClientOptions \<Rightarrow> tab \<Rightarrow> tab" where
  "drop_session o' s = unlocked (evictKey o' (s\<lparr>ts_session := None\<rparr>))"

definition reject :: "nat \<Rightarrow> web_error \<Rightarrow> tab \<Rightarrow> tab" where
  "reject c e = tab_log (E_rejected c e)"

definition resolve :: "nat \<Rightarrow> tab_value \<Rightarrow> tab \<Rightarrow> tab" where
  "resolve c v = tab_log (E_resolved c v)"

text \<open>\<open>throw terminateForIdentity(expected, actual)\<close>.\<close>

definition terminateForIdentity :: "NapClientOptions \<Rightarrow> nat \<Rightarrow> string \<Rightarrow> string \<Rightarrow> tab \<Rightarrow> tab" where
  "terminateForIdentity o' c expected actual s =
     (let detail = identity_detail expected actual;
          s' = tab_log (E_onIdentityChanged detail) (clear_preference o' (drop_session o' s))
      in reject c (if publish_throws o' s then Bus_closed else IdentityMismatchError expected actual)
           (publish o' B_identity_changed (Some detail) s'))"

definition failAuth :: "NapClientOptions \<Rightarrow> nat \<Rightarrow> auth_phase \<Rightarrow> nat \<Rightarrow> tab \<Rightarrow> tab" where
  "failAuth o' c phase status s =
     reject c (AuthRequestError phase status (terminal_status status))
       (if terminal_status status then clear_preference o' s else s)"

text \<open>An \<open>await\<close> of a call, under the next number.\<close>

definition tab_await :: "(nat \<Rightarrow> tab_effect) \<Rightarrow> tab_task \<Rightarrow> tab \<Rightarrow> tab" where
  "tab_await call k s =
     (tab_log (call (ts_next s)) s)
       \<lparr>ts_tasks := jm_set (ts_next s) k (ts_tasks s), ts_next := Suc (ts_next s)\<rparr>"

section \<open>Lock and shutdown\<close>

definition hasSession :: "tab \<Rightarrow> bool" where "hasSession s \<longleftrightarrow> ts_session s \<noteq> None"

definition publishLock :: "NapClientOptions \<Rightarrow> tab \<Rightarrow> tab" where
  "publishLock o' s =
     (if \<not> hasSession s then tab_touch o' s
      else publish_last o' B_lock (tab_log E_onLock (holder_clearKey o' s)))"

definition publishShutdown :: "NapClientOptions \<Rightarrow> tab \<Rightarrow> tab" where
  "publishShutdown o' s =
     (if \<not> hasSession s then tab_touch o' s
      else publish_last o' B_shutdown (tab_log E_onShutdown ((holder_clearKey o' s)\<lparr>ts_shutdown := True\<rparr>)))"

section \<open>Messages of other tabs\<close>

definition json_truthy :: "json \<Rightarrow> bool" where
  "json_truthy v \<longleftrightarrow>
     (case v of JNull \<Rightarrow> False | JBool b \<Rightarrow> b | JNum x \<Rightarrow> x \<noteq> 0 | JStr s \<Rightarrow> s \<noteq> [] | _ \<Rightarrow> True)"

primrec on_bus :: "NapClientOptions \<Rightarrow> BroadcastMessageType \<Rightarrow> json option \<Rightarrow> tab \<Rightarrow> tab" where
  "on_bus o' B_identity_changed detail s =
     (case detail of
        Some d \<Rightarrow> if json_truthy d then tab_log (E_onIdentityChanged d) (drop_session o' s) else drop_session o' s
      | None \<Rightarrow> drop_session o' s)"
| "on_bus o' B_logout detail s = tab_log E_onLogout (drop_session o' s)"
| "on_bus o' B_unlock detail s =
     tab_log E_onUnlock (if co_evictable o' then s else tab_touch o' (unlocked s))"
| "on_bus o' B_shutdown detail s =
     (if \<not> hasSession s then s
      else tab_log E_onShutdown ((holder_clearKey o' s)\<lparr>ts_shutdown := True\<rparr>))"
| "on_bus o' B_lock detail s = (if \<not> hasSession s then s else tab_log E_onLock (holder_clearKey o' s))"

text \<open>A bare string or an object, as \<open>createBroadcastBus\<close> reads them.\<close>

definition bus_message :: "NapClientOptions \<Rightarrow> json \<Rightarrow> tab \<Rightarrow> tab" where
  "bus_message o' data s =
     (if \<not> co_broadcast o' \<or> \<not> ts_busOpen s then s
      else case broadcast_of (Some data) of
             Some type \<Rightarrow> on_bus o' type None (tab_log (E_received type) s)
           | None \<Rightarrow>
               (case broadcast_of (member data ''type'') of
                  Some type \<Rightarrow> on_bus o' type (member data ''detail'') (tab_log (E_received type) s)
                | None \<Rightarrow> s))"

section \<open>Authentication\<close>

definition authenticate :: "NapClientOptions \<Rightarrow> bool \<Rightarrow> tab \<Rightarrow> tab" where
  "authenticate o' stepUp s =
     (if \<not> holder_hasKey o' s then reject (ts_next s) SessionLockedError (s\<lparr>ts_next := Suc (ts_next s)\<rparr>)
      else tab_await E_getNpub (T_npub (ts_next s) stepUp) s)"

definition init_body :: "NapClientOptions \<Rightarrow> string \<Rightarrow> string" where
  "init_body o' npub = json_print (co_num_text o') (JObj [(''npub'', JStr npub)])"

definition after_npub :: "NapClientOptions \<Rightarrow> nat \<Rightarrow> bool \<Rightarrow> string \<Rightarrow> tab \<Rightarrow> tab" where
  "after_npub o' c stepUp npub s =
     (let actual = tab_pubkeyOfNpub (co_nip19_decode o') npub in
      case ts_session s of
        Some session \<Rightarrow>
          if ss_pubkey session \<noteq> actual then terminateForIdentity o' c (ss_pubkey session) actual s
          else tab_await (\<lambda>t. E_fetch t ''POST'' (sessionPath (co_baseUrl o') ''init'') None (Some (init_body o' npub)))
                 (T_init c stepUp) (tab_touch o' (unlocked s))
      | None \<Rightarrow>
          tab_await (\<lambda>t. E_fetch t ''POST'' (sessionPath (co_baseUrl o') ''init'') None (Some (init_body o' npub)))
            (T_init c stepUp) (tab_touch o' (unlocked s)))"

text \<open>
  \<open>buildAuthCompleteRequest\<close> around the signer: \<open>build_with\<close> is what it returns when the
  signer returns the event, \<open>build_template\<close> the template the signer is asked for.
\<close>

definition build_input :: "AuthInitResponse \<Rightarrow> bool \<Rightarrow> Nip98Event \<Rightarrow> EventTemplate option BuildAuthCompleteRequestInput" where
  "build_input ch stepUp event =
     \<lparr>ba_challenge = ch, ba_signer = (\<lambda>tmpl _. (Inr event, Some tmpl)), ba_createdAt = None,
      ba_stepUp = stepUp, ba_voucher = None\<rparr>"

definition build_with :: "NapClientOptions \<Rightarrow> int \<Rightarrow> AuthInitResponse \<Rightarrow> bool \<Rightarrow> Nip98Event
    \<Rightarrow> (exn + BuiltAuthCompleteRequest) \<times> EventTemplate option" where
  "build_with o' now ch stepUp event =
     buildAuthCompleteRequest (co_sha256 o') (co_num_text o') now (build_input ch stepUp event) None"

definition no_event :: Nip98Event where
  "no_event = \<lparr>ev_id = [], ev_pubkey = [], ev_created_at = 0, ev_kind = 0, ev_tags = [], ev_content = [], ev_sig = []\<rparr>"

definition build_template :: "NapClientOptions \<Rightarrow> int \<Rightarrow> AuthInitResponse \<Rightarrow> bool \<Rightarrow> EventTemplate" where
  "build_template o' now ch stepUp = the (snd (build_with o' now ch stepUp no_event))"

definition after_init :: "NapClientOptions \<Rightarrow> nat \<Rightarrow> bool \<Rightarrow> nat \<Rightarrow> AuthInitResponse option \<Rightarrow> tab \<Rightarrow> tab" where
  "after_init o' c stepUp status body s =
     (case body of
        Some ch \<Rightarrow>
          if status \<noteq> 200 then failAuth o' c Phase_init status s
          else tab_await (\<lambda>t. E_signEvent t (build_template o' (ts_now s) ch stepUp)) (T_sign c stepUp ch (ts_now s)) s
      | None \<Rightarrow> failAuth o' c Phase_init status s)"

definition after_sign :: "NapClientOptions \<Rightarrow> nat \<Rightarrow> bool \<Rightarrow> AuthInitResponse \<Rightarrow> int \<Rightarrow> Nip98Event \<Rightarrow> tab \<Rightarrow> tab" where
  "after_sign o' c stepUp ch now event s =
     (case fst (build_with o' now ch stepUp event) of
        Inl _ \<Rightarrow> reject c Thrown s
      | Inr completion \<Rightarrow>
          tab_await (\<lambda>t. E_fetch t ''POST'' (sessionPath (co_baseUrl o') ''complete'')
              (Some (br_authorization completion)) (Some (utf8_decode (br_rawBody completion))))
            (T_complete c stepUp) s)"

text \<open>What \<open>login\<close> and \<open>stepUp\<close> do with the response.\<close>

definition auth_done :: "nat \<Rightarrow> bool \<Rightarrow> AuthSuccessResponse \<Rightarrow> tab \<Rightarrow> tab" where
  "auth_done c stepUp response s =
     (if \<not> stepUp then resolve c (V_success response) (tab_log (E_onLogin Via_login) s)
      else if \<not> truthy_str (as_step_up_token response) then reject c No_step_up_token s
      else resolve c (V_token (the (as_step_up_token response))) s)"

definition after_complete :: "NapClientOptions \<Rightarrow> nat \<Rightarrow> bool \<Rightarrow> nat \<Rightarrow> AuthSuccessResponse option \<Rightarrow> tab \<Rightarrow> tab" where
  "after_complete o' c stepUp status body s =
     (case body of
        Some response \<Rightarrow>
          if status \<noteq> 200 then failAuth o' c Phase_complete status s
          else let new = toSessionState response in
               (case ts_session s of
                  Some session \<Rightarrow>
                    if ss_pubkey session \<noteq> ss_pubkey new
                    then terminateForIdentity o' c (ss_pubkey session) (ss_pubkey new) s
                    else auth_done c stepUp response (s\<lparr>ts_session := Some new\<rparr>)
                | None \<Rightarrow> auth_done c stepUp response (s\<lparr>ts_session := Some new\<rparr>))
      | None \<Rightarrow> failAuth o' c Phase_complete status s)"

section \<open>Logout, resume, reunlock\<close>

definition after_logout :: "NapClientOptions \<Rightarrow> nat \<Rightarrow> tab \<Rightarrow> tab" where
  "after_logout o' c s =
     (let s' = tab_log E_onLogout (drop_session o' s) in
      if publish_throws o' s' then reject c Bus_closed s'
      else resolve c V_done (publish o' B_logout None s'))"

definition resume_done :: "nat \<Rightarrow> AuthSuccessResponse \<Rightarrow> tab \<Rightarrow> tab" where
  "resume_done c response s = resolve c (V_success response) (tab_log (E_onLogin Via_resume) s)"

definition after_session :: "nat \<Rightarrow> bool \<Rightarrow> nat \<Rightarrow> AuthSuccessResponse option \<Rightarrow> tab \<Rightarrow> tab" where
  "after_session c verify status body s =
     (if status = 401 then resolve c V_null (tab_log E_onSessionExpired (s\<lparr>ts_session := None\<rparr>))
      else case body of
             None \<Rightarrow> reject c (Lookup_failed status) s
           | Some response \<Rightarrow>
               if status \<noteq> 200 then reject c (Lookup_failed status) s
               else let s' = s\<lparr>ts_session := Some (toSessionState response)\<rparr> in
                    if verify then tab_await E_getNpub (T_verify c response) s' else resume_done c response s')"

definition after_verify :: "NapClientOptions \<Rightarrow> nat \<Rightarrow> AuthSuccessResponse \<Rightarrow> string \<Rightarrow> tab \<Rightarrow> tab" where
  "after_verify o' c response npub s =
     (let actual = tab_pubkeyOfNpub (co_nip19_decode o') npub; expected = ss_pubkey (toSessionState response) in
      if expected \<noteq> actual then terminateForIdentity o' c expected actual s else resume_done c response s)"

definition start_reunlock :: "NapClientOptions \<Rightarrow> string \<Rightarrow> tab \<Rightarrow> tab" where
  "start_reunlock o' passphrase s =
     (if \<not> co_keyStore o' then reject (ts_next s) Key_store_required (s\<lparr>ts_next := Suc (ts_next s)\<rparr>)
      else tab_await E_keyStore_hasKey (T_hasKey (ts_next s) passphrase) s)"

text \<open>With the key loaded; a throw of the broadcast is caught.\<close>

definition reunlock_key :: "NapClientOptions \<Rightarrow> nat \<Rightarrow> string \<Rightarrow> tab \<Rightarrow> tab" where
  "reunlock_key o' c key s =
     (if key = [] then reject c (ReunlockError NO_STORED_KEY) s
      else if co_evictable o' \<and> \<not> co_accepts o' key then reject c Thrown s
      else resolve c V_done (publish o' B_unlock None (tab_touch o' (holder_setKey o' s))))"

section \<open>The tab\<close>

definition tab_continue :: "NapClientOptions \<Rightarrow> tab_task \<Rightarrow> tab_answer \<Rightarrow> tab \<Rightarrow> tab" where
  "tab_continue o' k a s =
     (case (k, a) of
        (T_npub c stepUp, A_npub npub) \<Rightarrow> after_npub o' c stepUp npub s
      | (T_init c stepUp, A_init status body) \<Rightarrow> after_init o' c stepUp status body s
      | (T_sign c stepUp ch now, A_event event) \<Rightarrow> after_sign o' c stepUp ch now event s
      | (T_complete c stepUp, A_success status body) \<Rightarrow> after_complete o' c stepUp status body s
      | (T_logout c, A_threw) \<Rightarrow> reject c Thrown s
      | (T_logout c, _) \<Rightarrow> after_logout o' c s
      | (T_session c verify, A_success status body) \<Rightarrow> after_session c verify status body s
      | (T_verify c response, A_npub npub) \<Rightarrow> after_verify o' c response npub s
      | (T_hasKey c passphrase, A_bool True) \<Rightarrow>
          tab_await (\<lambda>t. E_keyStore_loadKey t passphrase) (T_loadKey c) s
      | (T_hasKey c passphrase, A_bool False) \<Rightarrow> reject c (ReunlockError NO_STORED_KEY) s
      | (T_hasKey c passphrase, _) \<Rightarrow> reject c (ReunlockError STORAGE_UNAVAILABLE) s
      | (T_loadKey c, A_key key) \<Rightarrow> reunlock_key o' c key s
      | (T_loadKey c, A_bad_passphrase) \<Rightarrow> reject c (ReunlockError INVALID_PASSPHRASE) s
      | (T_loadKey c, _) \<Rightarrow> reject c (ReunlockError STORAGE_UNAVAILABLE) s
      | (T_npub c _, _) \<Rightarrow> reject c Thrown s
      | (T_init c _, _) \<Rightarrow> reject c Thrown s
      | (T_sign c _ _ _, _) \<Rightarrow> reject c Thrown s
      | (T_complete c _, _) \<Rightarrow> reject c Thrown s
      | (T_session c _, _) \<Rightarrow> reject c Thrown s
      | (T_verify c _, _) \<Rightarrow> reject c Thrown s)"

datatype tab_input =
    Login
  | StepUp
  | Logout
  | Resume bool
  | Reunlock string
  | Lock
  | Shutdown
  | Unlock
  | Destroy
  | Bus_message json
  | Activity
  | Lock_timer
  | Shutdown_timer
  | Answer nat tab_answer
  | Tick int

definition tab_unlock :: "NapClientOptions \<Rightarrow> tab \<Rightarrow> tab" where
  "tab_unlock o' s =
     (if co_evictable o' then tab_log (E_threw Holds_a_key) s
      else publish_last o' B_unlock (tab_log E_onUnlock (tab_touch o' (unlocked s))))"

definition tab_destroy :: "NapClientOptions \<Rightarrow> tab \<Rightarrow> tab" where
  "tab_destroy o' s =
     evictKey o' (s\<lparr>ts_lockTimer := False, ts_shutdownTimer := False, ts_listening := False, ts_busOpen := False\<rparr>)"

definition tab_answered :: "NapClientOptions \<Rightarrow> nat \<Rightarrow> tab_answer \<Rightarrow> tab \<Rightarrow> tab" where
  "tab_answered o' t a s =
     (case jm_get (ts_tasks s) t of
        None \<Rightarrow> s
      | Some k \<Rightarrow> tab_continue o' k a (tab_log (E_settled t) (s\<lparr>ts_tasks := jm_delete t (ts_tasks s)\<rparr>)))"

primrec tab_step :: "NapClientOptions \<Rightarrow> tab_input \<Rightarrow> tab \<Rightarrow> tab" where
  "tab_step o' Login s = authenticate o' False s"
| "tab_step o' StepUp s = authenticate o' True s"
| "tab_step o' Logout s =
     tab_await (\<lambda>t. E_fetch t ''POST'' (sessionPath (co_baseUrl o') ''logout'') None None) (T_logout (ts_next s)) s"
| "tab_step o' (Resume verify) s =
     tab_await (\<lambda>t. E_fetch t ''GET'' (sessionPath (co_baseUrl o') ''session'') None None) (T_session (ts_next s) verify) s"
| "tab_step o' (Reunlock passphrase) s = start_reunlock o' passphrase s"
| "tab_step o' Lock s = publishLock o' s"
| "tab_step o' Shutdown s = publishShutdown o' s"
| "tab_step o' Unlock s = tab_unlock o' s"
| "tab_step o' Destroy s = tab_destroy o' s"
| "tab_step o' (Bus_message data) s = bus_message o' data s"
| "tab_step o' Activity s = (if ts_listening s then tab_touch o' s else s)"
| "tab_step o' Lock_timer s = (if ts_lockTimer s then publishLock o' (s\<lparr>ts_lockTimer := False\<rparr>) else s)"
| "tab_step o' Shutdown_timer s = (if ts_shutdownTimer s then publishShutdown o' (s\<lparr>ts_shutdownTimer := False\<rparr>) else s)"
| "tab_step o' (Answer t a) s = tab_answered o' t a s"
| "tab_step o' (Tick now) s = s\<lparr>ts_now := now\<rparr>"

text \<open>The accessors.\<close>

definition tab_hasPermission :: "string \<Rightarrow> tab \<Rightarrow> bool" where
  "tab_hasPermission permission s \<longleftrightarrow>
     (case ts_session s of None \<Rightarrow> False | Some x \<Rightarrow> permission \<in> set (ss_permissions x))"

definition tab_hasRole :: "string \<Rightarrow> tab \<Rightarrow> bool" where
  "tab_hasRole role s \<longleftrightarrow> (case ts_session s of None \<Rightarrow> False | Some x \<Rightarrow> role \<in> set (ss_roles x))"

text \<open>\<open>createNapSession\<close>: \<open>None\<close> where it refuses the wiring; \<open>key\<close>: an evictable signer has its key.\<close>

definition createNapSession :: "NapClientOptions \<Rightarrow> bool \<Rightarrow> int \<Rightarrow> tab option" where
  "createNapSession o' key now =
     (if co_autoLock o' \<and> lockRecovery o' = Recover_reauthenticate then None
      else Some (tab_touch o'
        \<lparr>ts_session = None, ts_locked = False, ts_shutdown = False, ts_key = co_evictable o' \<and> key,
         ts_lockTimer = False, ts_shutdownTimer = False, ts_listening = co_autoLock o' \<and> co_window o',
         ts_busOpen = co_broadcast o', ts_tasks = [], ts_next = 0, ts_now = now, ts_trace = []\<rparr>))"

end
