(* ===== verification/WebSessionFacts.thy ===== *)
theory WebSessionFacts
  imports WebSession
begin

text \<open>
  What every run of a tab's session keeps: a locked tab has no key and is no way to a
  signature, the identity of a live session is not replaced by an authentication, and the
  events that end or lock a session take the key out of the page.
\<close>

section \<open>What the helpers leave alone\<close>

lemma tab_helpers [simp]:
  "ts_session (tab_log e s) = ts_session s" "ts_locked (tab_log e s) = ts_locked s"
  "ts_shutdown (tab_log e s) = ts_shutdown s" "ts_key (tab_log e s) = ts_key s"
  "ts_session (tab_touch o' s) = ts_session s" "ts_locked (tab_touch o' s) = ts_locked s"
  "ts_shutdown (tab_touch o' s) = ts_shutdown s" "ts_key (tab_touch o' s) = ts_key s"
  "ts_trace (tab_touch o' s) = ts_trace s"
  "ts_session (evictKey o' s) = ts_session s" "ts_locked (evictKey o' s) = ts_locked s"
  "ts_shutdown (evictKey o' s) = ts_shutdown s" "ts_trace (evictKey o' s) = ts_trace s"
  "ts_key (evictKey o' s) \<longleftrightarrow> \<not> co_evictable o' \<and> ts_key s"
  "ts_session (holder_clearKey o' s) = ts_session s" "ts_locked (holder_clearKey o' s)"
  "ts_shutdown (holder_clearKey o' s) = ts_shutdown s" "ts_trace (holder_clearKey o' s) = ts_trace s"
  "ts_key (holder_clearKey o' s) \<longleftrightarrow> \<not> co_evictable o' \<and> ts_key s"
  "ts_session (unlocked s) = ts_session s" "\<not> ts_locked (unlocked s)" "\<not> ts_shutdown (unlocked s)"
  "ts_key (unlocked s) = ts_key s" "ts_trace (unlocked s) = ts_trace s"
  "ts_session (drop_session o' s) = None" "\<not> ts_locked (drop_session o' s)" "\<not> ts_shutdown (drop_session o' s)"
  "ts_key (drop_session o' s) \<longleftrightarrow> \<not> co_evictable o' \<and> ts_key s" "ts_trace (drop_session o' s) = ts_trace s"
  by (simp_all add: tab_log_def tab_touch_def evictKey_def holder_clearKey_def unlocked_def drop_session_def)

lemma tab_await_sel [simp]:
  "ts_session (tab_await call k s) = ts_session s" "ts_locked (tab_await call k s) = ts_locked s"
  "ts_shutdown (tab_await call k s) = ts_shutdown s" "ts_key (tab_await call k s) = ts_key s"
  "ts_trace (tab_await call k s) = ts_trace s @ [call (ts_next s)]"
  by (simp_all add: tab_await_def tab_log_def)

lemma tab_publish_sel [simp]:
  "ts_session (publish o' ty d s) = ts_session s" "ts_locked (publish o' ty d s) = ts_locked s"
  "ts_shutdown (publish o' ty d s) = ts_shutdown s" "ts_key (publish o' ty d s) = ts_key s"
  "ts_session (publish_last o' ty s) = ts_session s" "ts_locked (publish_last o' ty s) = ts_locked s"
  "ts_shutdown (publish_last o' ty s) = ts_shutdown s" "ts_key (publish_last o' ty s) = ts_key s"
  "ts_session (clear_preference o' s) = ts_session s" "ts_locked (clear_preference o' s) = ts_locked s"
  "ts_shutdown (clear_preference o' s) = ts_shutdown s" "ts_key (clear_preference o' s) = ts_key s"
  "ts_session (reject c e s) = ts_session s" "ts_locked (reject c e s) = ts_locked s"
  "ts_shutdown (reject c e s) = ts_shutdown s" "ts_key (reject c e s) = ts_key s"
  "ts_session (resolve c v s) = ts_session s" "ts_locked (resolve c v s) = ts_locked s"
  "ts_shutdown (resolve c v s) = ts_shutdown s" "ts_key (resolve c v s) = ts_key s"
  "ts_session (failAuth o' c ph st s) = ts_session s" "ts_locked (failAuth o' c ph st s) = ts_locked s"
  "ts_shutdown (failAuth o' c ph st s) = ts_shutdown s" "ts_key (failAuth o' c ph st s) = ts_key s"
  "ts_session (auth_done c su r s) = ts_session s" "ts_locked (auth_done c su r s) = ts_locked s"
  "ts_shutdown (auth_done c su r s) = ts_shutdown s" "ts_key (auth_done c su r s) = ts_key s"
  "ts_session (resume_done c r s) = ts_session s" "ts_locked (resume_done c r s) = ts_locked s"
  "ts_shutdown (resume_done c r s) = ts_shutdown s" "ts_key (resume_done c r s) = ts_key s"
  by (simp_all add: publish_def publish_last_def clear_preference_def reject_def resolve_def failAuth_def
      auth_done_def resume_done_def)

lemma terminate_sel [simp]:
  "ts_session (terminateForIdentity o' c e a s) = None" "\<not> ts_locked (terminateForIdentity o' c e a s)"
  "\<not> ts_shutdown (terminateForIdentity o' c e a s)"
  "ts_key (terminateForIdentity o' c e a s) \<longleftrightarrow> \<not> co_evictable o' \<and> ts_key s"
  by (simp_all add: terminateForIdentity_def Let_def)

lemmas tab_steps = authenticate_def after_npub_def after_init_def after_sign_def after_complete_def after_logout_def
  after_session_def after_verify_def start_reunlock_def reunlock_key_def publishLock_def publishShutdown_def
  tab_unlock_def tab_destroy_def bus_message_def

lemma bus_cases:
  obtains "bus_message o' data s = s"
  | ty d where "bus_message o' data s = on_bus o' ty d (tab_log (E_received ty) s)"
  by (cases "broadcast_of (Some data)"; cases "broadcast_of (member data ''type'')"; cases "co_broadcast o' \<and> ts_busOpen s")
    (auto simp: bus_message_def)

section \<open>Locked means that there is no key\<close>

definition tab_inv :: "NapClientOptions \<Rightarrow> tab \<Rightarrow> bool" where
  "tab_inv o' s \<longleftrightarrow>
     (ts_shutdown s \<longrightarrow> ts_locked s) \<and> (ts_locked s \<longrightarrow> \<not> ts_key s) \<and> (ts_key s \<longrightarrow> co_evictable o')"

lemma inv_continue: "tab_inv o' s \<Longrightarrow> tab_inv o' (tab_continue o' k a s)"
  by (cases k; cases a)
    (auto simp: tab_continue_def tab_inv_def tab_steps Let_def holder_setKey_def
      split: option.splits sum.splits bool.splits)

lemma inv_bus: "tab_inv o' s \<Longrightarrow> tab_inv o' (on_bus o' ty d s)"
  by (cases ty) (auto simp: tab_inv_def split: option.splits)

lemma tab_step_inv: "tab_inv o' s \<Longrightarrow> tab_inv o' (tab_step o' i s)"
proof (cases i)
  case (Answer t a)
  assume s: "tab_inv o' s"
  have "tab_inv o' (tab_log (E_settled t) (s\<lparr>ts_tasks := jm_delete t (ts_tasks s)\<rparr>))"
    using s by (simp add: tab_inv_def)
  then show ?thesis using Answer s inv_continue by (auto simp: tab_answered_def split: option.splits)
next
  case (Bus_message data)
  assume s: "tab_inv o' s"
  have "tab_inv o' (tab_log e s)" for e using s by (simp add: tab_inv_def)
  then show ?thesis using Bus_message s inv_bus by (cases rule: bus_cases [of o' data s]) auto
qed (auto simp: tab_inv_def tab_steps)

lemma created_inv: "createNapSession o' key now = Some s \<Longrightarrow> tab_inv o' s"
  by (auto simp: createNapSession_def tab_inv_def split: if_splits)

section \<open>The trace only grows\<close>

definition tab_extends :: "tab \<Rightarrow> tab \<Rightarrow> bool" where
  "tab_extends s s' \<longleftrightarrow> (\<exists>new. ts_trace s' = ts_trace s @ new)"

lemma tab_extends_log: "tab_extends s s' \<Longrightarrow> tab_extends s (tab_log e s')"
  by (auto simp: tab_extends_def tab_log_def)

lemma tab_extends_same: "ts_trace s' = ts_trace s \<Longrightarrow> tab_extends s s'"
  by (simp add: tab_extends_def)

lemma tab_extends_ops:
  "tab_extends s s' \<Longrightarrow> tab_extends s (tab_await call k s')"
  "tab_extends s s' \<Longrightarrow> tab_extends s (tab_touch o' s')"
  "tab_extends s s' \<Longrightarrow> tab_extends s (evictKey o' s')"
  "tab_extends s s' \<Longrightarrow> tab_extends s (holder_clearKey o' s')"
  "tab_extends s s' \<Longrightarrow> tab_extends s (unlocked s')"
  "tab_extends s s' \<Longrightarrow> tab_extends s (drop_session o' s')"
  "tab_extends s s' \<Longrightarrow> tab_extends s (holder_setKey o' s')"
  "tab_extends s s' \<Longrightarrow> tab_extends s (s'\<lparr>ts_shutdown := b\<rparr>)"
  "tab_extends s s' \<Longrightarrow> tab_extends s (s'\<lparr>ts_session := x\<rparr>)"
  by (auto simp: tab_extends_def holder_setKey_def)

lemma tab_extends_ends:
  "tab_extends s s' \<Longrightarrow> tab_extends s (publish o' ty d s')"
  "tab_extends s s' \<Longrightarrow> tab_extends s (publish_last o' ty s')"
  "tab_extends s s' \<Longrightarrow> tab_extends s (clear_preference o' s')"
  "tab_extends s s' \<Longrightarrow> tab_extends s (reject c e s')"
  "tab_extends s s' \<Longrightarrow> tab_extends s (resolve c v s')"
  "tab_extends s s' \<Longrightarrow> tab_extends s (failAuth o' c ph st s')"
  "tab_extends s s' \<Longrightarrow> tab_extends s (auth_done c su r s')"
  "tab_extends s s' \<Longrightarrow> tab_extends s (resume_done c r s')"
  "tab_extends s s' \<Longrightarrow> tab_extends s (terminateForIdentity o' c e' a s')"
  by (auto simp: publish_def publish_last_def clear_preference_def reject_def resolve_def failAuth_def
      auth_done_def resume_done_def terminateForIdentity_def Let_def intro!: tab_extends_log tab_extends_ops)

lemma extends_continue: "tab_extends s s' \<Longrightarrow> tab_extends s (tab_continue o' k a s')"
  by (cases k; cases a)
    (auto simp: tab_continue_def tab_steps Let_def
      intro!: tab_extends_log tab_extends_ops tab_extends_ends split: option.splits sum.splits bool.splits)

lemma extends_bus: "tab_extends s s' \<Longrightarrow> tab_extends s (on_bus o' ty d s')"
  by (cases ty) (auto intro!: tab_extends_log tab_extends_ops intro: tab_extends_same split: option.splits)

lemma tab_step_extends: "tab_extends s (tab_step o' i s)"
proof (cases i)
  case (Answer t a)
  have "tab_extends s (tab_log (E_settled t) (s\<lparr>ts_tasks := jm_delete t (ts_tasks s)\<rparr>))"
    by (intro tab_extends_log tab_extends_same) simp
  then show ?thesis using Answer extends_continue
    by (auto simp: tab_answered_def intro: tab_extends_same split: option.splits)
next
  case (Bus_message data)
  then show ?thesis
    by (cases rule: bus_cases [of o' data s]) (auto intro: extends_bus tab_extends_log tab_extends_same)
qed (auto simp: tab_steps intro!: tab_extends_log tab_extends_ops tab_extends_ends intro: tab_extends_same)

interpretation nap_tab: reactive "tab_step o'" ts_trace for o'
  using tab_step_extends by unfold_locales (simp add: tab_extends_def)

theorem tab_run_inv: "tab_inv o' s \<Longrightarrow> tab_inv o' (reacts (tab_step o') inputs s)"
  by (rule nap_tab.run_keeps) (rule tab_step_inv)

section \<open>The identity of a session\<close>

text \<open>Only a lookup of the session replaces a live session by one of another key.\<close>

lemma identity_continue:
  assumes "ts_session s = Some x" and "ts_session (tab_continue o' k a s) = Some y"
    and "\<And>c v. k \<noteq> T_session c v"
  shows "ss_pubkey y = ss_pubkey x"
  using assms
  by (cases k; cases a)
    (auto simp: tab_continue_def tab_steps Let_def holder_setKey_def split: option.splits sum.splits bool.splits if_splits)

lemma identity_step:
  assumes "ts_session s = Some x" and "ts_session (tab_step o' i s) = Some y"
    and "\<And>t a c v. i = Answer t a \<Longrightarrow> jm_get (ts_tasks s) t \<noteq> Some (T_session c v)"
  shows "ss_pubkey y = ss_pubkey x"
proof (cases i)
  case (Answer t a)
  let ?s = "tab_log (E_settled t) (s\<lparr>ts_tasks := jm_delete t (ts_tasks s)\<rparr>)"
  have "ss_pubkey y = ss_pubkey x" if "jm_get (ts_tasks s) t = Some k" for k
  proof -
    have "k \<noteq> T_session c v" for c v using assms(3) [OF Answer, of c v] that by simp
    then show ?thesis using identity_continue [of ?s x o' k a y] that assms(1,2) Answer by (simp add: tab_answered_def)
  qed
  then show ?thesis using assms Answer by (auto simp: tab_answered_def split: option.splits)
next
  case (Bus_message data)
  have "ts_session (on_bus o' ty d r) = None \<or> ts_session (on_bus o' ty d r) = ts_session r" for ty d r
    by (cases ty) (auto split: option.splits)
  from this [of _ _ "tab_log _ s"] have "ts_session (bus_message o' data s) = None \<or> ts_session (bus_message o' data s) = ts_session s"
    by (cases rule: bus_cases [of o' data s]) simp_all
  then show ?thesis using assms(1,2) Bus_message by auto
qed (use assms in \<open>auto simp: tab_steps split: if_splits\<close>)

section \<open>What takes the key out of the page\<close>

text \<open>The callbacks of a lock, a shutdown, a logout and a change of identity.\<close>

fun ends_key :: "tab_effect \<Rightarrow> bool" where
  "ends_key E_onLock \<longleftrightarrow> True"
| "ends_key E_onShutdown \<longleftrightarrow> True"
| "ends_key E_onLogout \<longleftrightarrow> True"
| "ends_key (E_onIdentityChanged _) \<longleftrightarrow> True"
| "ends_key _ \<longleftrightarrow> False"

lemma trace_log [simp]: "ts_trace (tab_log e s) = ts_trace s @ [e]"
  by (simp add: tab_log_def)

lemma trace_setKey [simp]: "ts_trace (holder_setKey o' s) = ts_trace s"
  by (simp add: holder_setKey_def)

lemma ends_key_ops [simp]:
  "filter ends_key (ts_trace (publish o' ty d s)) = filter ends_key (ts_trace s)"
  "filter ends_key (ts_trace (publish_last o' ty s)) = filter ends_key (ts_trace s)"
  "filter ends_key (ts_trace (clear_preference o' s)) = filter ends_key (ts_trace s)"
  "filter ends_key (ts_trace (reject c e s)) = filter ends_key (ts_trace s)"
  "filter ends_key (ts_trace (resolve c v s)) = filter ends_key (ts_trace s)"
  "filter ends_key (ts_trace (failAuth o' c ph st s)) = filter ends_key (ts_trace s)"
  "filter ends_key (ts_trace (auth_done c su r s)) = filter ends_key (ts_trace s)"
  "filter ends_key (ts_trace (resume_done c r s)) = filter ends_key (ts_trace s)"
  by (simp_all add: publish_def publish_last_def clear_preference_def reject_def resolve_def failAuth_def
      auth_done_def resume_done_def)

text \<open>A step runs none of them, or the evictable key is gone after it.\<close>

definition key_ended :: "tab \<Rightarrow> tab \<Rightarrow> bool" where
  "key_ended s s' \<longleftrightarrow> filter ends_key (ts_trace s') = filter ends_key (ts_trace s) \<or> \<not> ts_key s'"

lemma key_ended_continue:
  assumes "co_evictable o'"
  shows "key_ended s (tab_continue o' k a s)"
  using assms
  by (cases k; cases a)
    (auto simp: tab_continue_def key_ended_def tab_steps Let_def split: option.splits sum.splits bool.splits)

lemma key_ended_bus: "co_evictable o' \<Longrightarrow> key_ended s (on_bus o' ty d (tab_log (E_received ty) s))"
  by (cases ty) (auto simp: key_ended_def split: option.splits)

lemma key_ended_step:
  assumes "co_evictable o'"
  shows "key_ended s (tab_step o' i s)"
proof (cases i)
  case (Answer t a)
  show ?thesis
  proof (cases "jm_get (ts_tasks s) t")
    case (Some k)
    then show ?thesis
      using Answer key_ended_continue [OF assms, of "tab_log (E_settled t) (s\<lparr>ts_tasks := jm_delete t (ts_tasks s)\<rparr>)" k a]
      by (simp add: tab_answered_def key_ended_def)
  qed (simp add: Answer tab_answered_def key_ended_def)
next
  case (Bus_message data)
  then show ?thesis using key_ended_bus [OF assms]
    by (cases rule: bus_cases [of o' data s]) (auto simp: key_ended_def)
qed (use assms in \<open>auto simp: key_ended_def tab_steps\<close>)

section \<open>The remembered signer\<close>

text \<open>The errors that say that the remembered choice is no good.\<close>

fun forgets :: "web_error \<Rightarrow> bool" where
  "forgets (AuthRequestError phase status terminal) \<longleftrightarrow> terminal \<and> terminal_status status"
| "forgets (IdentityMismatchError expected actual) \<longleftrightarrow> expected \<noteq> actual"
| "forgets Bus_closed \<longleftrightarrow> True"
| "forgets _ \<longleftrightarrow> False"

fun clears :: "tab_effect \<Rightarrow> bool" where
  "clears E_preference_cleared \<longleftrightarrow> True"
| "clears _ \<longleftrightarrow> False"

fun forgetting :: "tab_effect \<Rightarrow> bool" where
  "forgetting (E_rejected _ e) \<longleftrightarrow> forgets e"
| "forgetting _ \<longleftrightarrow> False"

definition preference_kept :: "tab \<Rightarrow> tab \<Rightarrow> bool" where
  "preference_kept s s' \<longleftrightarrow>
     filter clears (ts_trace s') = filter clears (ts_trace s)
     \<or> length (filter forgetting (ts_trace s)) < length (filter forgetting (ts_trace s'))"

lemma kept_same: "filter clears (ts_trace s') = filter clears (ts_trace s) \<Longrightarrow> preference_kept s s'"
  by (simp add: preference_kept_def)

lemma clears_ops [simp]:
  "filter clears (ts_trace (publish o' ty d s)) = filter clears (ts_trace s)"
  "filter clears (ts_trace (publish_last o' ty s)) = filter clears (ts_trace s)"
  "filter clears (ts_trace (reject c e s)) = filter clears (ts_trace s)"
  "filter clears (ts_trace (resolve c v s)) = filter clears (ts_trace s)"
  "filter clears (ts_trace (auth_done c su r s)) = filter clears (ts_trace s)"
  "filter clears (ts_trace (resume_done c r s)) = filter clears (ts_trace s)"
  by (simp_all add: publish_def publish_last_def reject_def resolve_def auth_done_def resume_done_def)

lemma kept_failAuth: "preference_kept s (failAuth o' c ph st s)"
  by (simp add: preference_kept_def failAuth_def reject_def clear_preference_def)

lemma kept_terminate: "e \<noteq> a \<Longrightarrow> preference_kept s (terminateForIdentity o' c e a s)"
  by (simp add: preference_kept_def terminateForIdentity_def Let_def reject_def publish_def clear_preference_def)

lemma preference_continue: "preference_kept s (tab_continue o' k a s)"
  by (cases k; cases a)
    (auto simp: tab_continue_def tab_steps Let_def intro: kept_same kept_failAuth kept_terminate
      split: option.splits sum.splits bool.splits)

lemma preference_bus: "preference_kept s (on_bus o' ty d (tab_log (E_received ty) s))"
  by (cases ty) (auto simp: preference_kept_def split: option.splits)

lemma preference_step: "preference_kept s (tab_step o' i s)"
proof (cases i)
  case (Answer t a)
  show ?thesis
  proof (cases "jm_get (ts_tasks s) t")
    case (Some k)
    then show ?thesis
      using Answer preference_continue [of "tab_log (E_settled t) (s\<lparr>ts_tasks := jm_delete t (ts_tasks s)\<rparr>)" o' k a]
      by (simp add: tab_answered_def preference_kept_def)
  qed (simp add: Answer tab_answered_def preference_kept_def)
next
  case (Bus_message data)
  then show ?thesis using preference_bus
    by (cases rule: bus_cases [of o' data s]) (auto simp: preference_kept_def)
qed (auto simp: tab_steps intro: kept_same)

section \<open>A locked tab\<close>

fun asks_signature :: "tab_effect \<Rightarrow> bool" where
  "asks_signature (E_signEvent _ _) \<longleftrightarrow> True"
| "asks_signature _ \<longleftrightarrow> False"

text \<open>The ways out of a lock: a stored key is read, an unlock, a logout, a change of identity.\<close>

fun way_out :: "tab_effect \<Rightarrow> bool" where
  "way_out (E_keyStore_loadKey _ _) \<longleftrightarrow> True"
| "way_out E_onUnlock \<longleftrightarrow> True"
| "way_out E_onLogout \<longleftrightarrow> True"
| "way_out (E_onIdentityChanged _) \<longleftrightarrow> True"
| "way_out (E_received B_identity_changed) \<longleftrightarrow> True"
| "way_out _ \<longleftrightarrow> False"

text \<open>A method that already waits for the signer or for a stored key.\<close>

fun in_flight :: "tab_task \<Rightarrow> bool" where
  "in_flight (T_npub _ _) \<longleftrightarrow> True"
| "in_flight (T_init _ _) \<longleftrightarrow> True"
| "in_flight (T_loadKey _) \<longleftrightarrow> True"
| "in_flight _ \<longleftrightarrow> False"

definition locked_up :: "NapClientOptions \<Rightarrow> tab \<Rightarrow> bool" where
  "locked_up o' s \<longleftrightarrow> tab_inv o' s \<and> ts_locked s \<and> list_all (\<lambda>(_, k). \<not> in_flight k) (ts_tasks s)"

definition stays_locked :: "NapClientOptions \<Rightarrow> tab \<Rightarrow> tab \<Rightarrow> bool" where
  "stays_locked o' s s' \<longleftrightarrow>
     length (filter way_out (ts_trace s)) < length (filter way_out (ts_trace s'))
     \<or> ts_locked s' \<and> list_all (\<lambda>(_, k). \<not> in_flight k) (ts_tasks s')
       \<and> filter asks_signature (ts_trace s') = filter asks_signature (ts_trace s)"

lemma locked_no_key: "tab_inv o' s \<Longrightarrow> ts_locked s \<Longrightarrow> \<not> holder_hasKey o' s"
  by (auto simp: tab_inv_def holder_hasKey_def)

lemma tasks_ops [simp]:
  "ts_tasks (tab_log e s) = ts_tasks s" "ts_tasks (tab_touch o' s) = ts_tasks s"
  "ts_tasks (evictKey o' s) = ts_tasks s" "ts_tasks (holder_clearKey o' s) = ts_tasks s"
  "ts_tasks (unlocked s) = ts_tasks s" "ts_tasks (drop_session o' s) = ts_tasks s"
  "ts_tasks (publish o' ty d s) = ts_tasks s" "ts_tasks (publish_last o' ty s) = ts_tasks s"
  "ts_tasks (clear_preference o' s) = ts_tasks s" "ts_tasks (reject c er s) = ts_tasks s"
  "ts_tasks (resolve c v s) = ts_tasks s" "ts_tasks (failAuth o' c ph st s) = ts_tasks s"
  "ts_tasks (auth_done c su r s) = ts_tasks s" "ts_tasks (resume_done c r s) = ts_tasks s"
  by (simp_all add: tab_log_def tab_touch_def evictKey_def holder_clearKey_def unlocked_def drop_session_def
      publish_def publish_last_def clear_preference_def reject_def resolve_def failAuth_def auth_done_def resume_done_def)

lemma tasks_await:
  "list_all (\<lambda>(_, k). \<not> in_flight k) (ts_tasks s) \<Longrightarrow> \<not> in_flight k \<Longrightarrow>
     list_all (\<lambda>(_, k). \<not> in_flight k) (ts_tasks (tab_await call k s))"
  using set_jm_set [of "ts_next s" k "ts_tasks s"]
  by (auto simp: tab_await_def list_all_iff)

lemma asks_ops [simp]:
  "filter asks_signature (ts_trace (publish o' ty d s)) = filter asks_signature (ts_trace s)"
  "filter asks_signature (ts_trace (publish_last o' ty s)) = filter asks_signature (ts_trace s)"
  "filter asks_signature (ts_trace (clear_preference o' s)) = filter asks_signature (ts_trace s)"
  "filter asks_signature (ts_trace (reject c e s)) = filter asks_signature (ts_trace s)"
  "filter asks_signature (ts_trace (resolve c v s)) = filter asks_signature (ts_trace s)"
  "filter asks_signature (ts_trace (failAuth o' c ph st s)) = filter asks_signature (ts_trace s)"
  "filter asks_signature (ts_trace (auth_done c su r s)) = filter asks_signature (ts_trace s)"
  "filter asks_signature (ts_trace (resume_done c r s)) = filter asks_signature (ts_trace s)"
  by (simp_all add: publish_def publish_last_def clear_preference_def reject_def resolve_def failAuth_def
      auth_done_def resume_done_def)

lemma out_terminate:
  "length (filter way_out (ts_trace s)) < length (filter way_out (ts_trace (terminateForIdentity o' c e a s)))"
  by (simp add: terminateForIdentity_def Let_def reject_def publish_def clear_preference_def)

lemma out_logout: "length (filter way_out (ts_trace s)) < length (filter way_out (ts_trace (after_logout o' c s)))"
  by (simp add: after_logout_def Let_def reject_def resolve_def publish_def)

lemma out_unlock: "\<not> co_evictable o' \<Longrightarrow> length (filter way_out (ts_trace s)) < length (filter way_out (ts_trace (tab_unlock o' s)))"
  by (simp add: tab_unlock_def publish_last_def publish_def)

lemma stays_continue:
  assumes "ts_locked s" and "list_all (\<lambda>(_, k). \<not> in_flight k) (ts_tasks s)" and "\<not> in_flight k"
  shows "stays_locked o' s (tab_continue o' k a s)"
  using assms out_terminate out_logout
  by (cases k; cases a)
    (auto simp: tab_continue_def stays_locked_def after_sign_def after_complete_def after_session_def after_verify_def
      Let_def intro!: tasks_await split: option.splits sum.splits bool.splits)

lemma stays_bus:
  assumes "ts_locked s" and "list_all (\<lambda>(_, k). \<not> in_flight k) (ts_tasks s)"
  shows "stays_locked o' s (on_bus o' ty d (tab_log (E_received ty) s))"
  using assms by (cases ty) (auto simp: stays_locked_def split: option.splits)

lemma stays_step:
  assumes "tab_inv o' s" and l: "ts_locked s" and t: "list_all (\<lambda>(_, k). \<not> in_flight k) (ts_tasks s)"
  shows "stays_locked o' s (tab_step o' i s)"
proof (cases i)
  case (Answer n a)
  show ?thesis
  proof (cases "jm_get (ts_tasks s) n")
    case (Some k)
    let ?s = "tab_log (E_settled n) (s\<lparr>ts_tasks := jm_delete n (ts_tasks s)\<rparr>)"
    have "\<not> in_flight k" using t jm_get_in [OF Some] by (auto simp: list_all_iff)
    moreover have "list_all (\<lambda>(_, k). \<not> in_flight k) (ts_tasks ?s)"
      using t by (auto simp: list_all_iff jm_delete_def)
    ultimately have "stays_locked o' ?s (tab_continue o' k a ?s)" using l by (intro stays_continue) simp_all
    then show ?thesis using Answer Some by (simp add: tab_answered_def stays_locked_def)
  qed (use l t Answer in \<open>simp add: tab_answered_def stays_locked_def\<close>)
next
  case (Bus_message data)
  then show ?thesis using stays_bus [OF l t] l t
    by (cases rule: bus_cases [of o' data s]) (auto simp: stays_locked_def)
next
  case Unlock
  then show ?thesis using out_unlock [of o' s] l t by (auto simp: stays_locked_def tab_unlock_def)
qed (use l t locked_no_key [OF assms(1) l] in
  \<open>auto simp: stays_locked_def authenticate_def start_reunlock_def publishLock_def publishShutdown_def tab_destroy_def
    intro!: tasks_await\<close>)

lemma locked_run:
  assumes "locked_up o' s" and "\<forall>e\<in>set (since ts_trace s (reacts (tab_step o') inputs s)). \<not> way_out e"
  shows "locked_up o' (reacts (tab_step o') inputs s)
    \<and> (\<forall>e\<in>set (since ts_trace s (reacts (tab_step o') inputs s)). \<not> asks_signature e)"
proof -
  have "(\<exists>e\<in>set (since ts_trace s (tab_step o' i s)). way_out e)
      \<or> locked_up o' (tab_step o' i s) \<and> (\<forall>e\<in>set (since ts_trace s (tab_step o' i s)). \<not> asks_signature e)"
    if "locked_up o' s" for i s
  proof -
    obtain new where new: "ts_trace (tab_step o' i s) = ts_trace s @ new"
      using tab_step_extends [of s o' i] by (auto simp: tab_extends_def)
    have "stays_locked o' s (tab_step o' i s)" "tab_inv o' (tab_step o' i s)"
      using that stays_step tab_step_inv by (auto simp: locked_up_def)
    then show ?thesis
      by (auto simp: stays_locked_def locked_up_def since_append [where trace = ts_trace, OF new] new filter_empty_conv)
  qed
  then show ?thesis
    using nap_tab.run_guarded [of "locked_up o'" o' way_out asks_signature s inputs] assms by blast
qed

text \<open>The signer's name is asked for by a resume that verifies the identity, and by nothing else.\<close>

fun asks_name :: "tab_effect \<Rightarrow> bool" where
  "asks_name (E_getNpub _) \<longleftrightarrow> True"
| "asks_name _ \<longleftrightarrow> False"

fun verifying :: "tab_task \<Rightarrow> bool" where
  "verifying (T_session _ verify) \<longleftrightarrow> verify"
| "verifying _ \<longleftrightarrow> False"

definition stays_unnamed :: "tab \<Rightarrow> tab \<Rightarrow> bool" where
  "stays_unnamed s s' \<longleftrightarrow>
     length (filter way_out (ts_trace s)) < length (filter way_out (ts_trace s'))
     \<or> list_all (\<lambda>(_, k). \<not> verifying k) (ts_tasks s')
       \<and> filter asks_name (ts_trace s') = filter asks_name (ts_trace s)"

lemma verifying_await:
  "list_all (\<lambda>(_, k). \<not> verifying k) (ts_tasks s) \<Longrightarrow> \<not> verifying k \<Longrightarrow>
     list_all (\<lambda>(_, k). \<not> verifying k) (ts_tasks (tab_await call k s))"
  using set_jm_set [of "ts_next s" k "ts_tasks s"]
  by (auto simp: tab_await_def list_all_iff)

lemma names_ops [simp]:
  "filter asks_name (ts_trace (publish o' ty d s)) = filter asks_name (ts_trace s)"
  "filter asks_name (ts_trace (publish_last o' ty s)) = filter asks_name (ts_trace s)"
  "filter asks_name (ts_trace (clear_preference o' s)) = filter asks_name (ts_trace s)"
  "filter asks_name (ts_trace (reject c e s)) = filter asks_name (ts_trace s)"
  "filter asks_name (ts_trace (resolve c v s)) = filter asks_name (ts_trace s)"
  "filter asks_name (ts_trace (failAuth o' c ph st s)) = filter asks_name (ts_trace s)"
  "filter asks_name (ts_trace (auth_done c su r s)) = filter asks_name (ts_trace s)"
  "filter asks_name (ts_trace (resume_done c r s)) = filter asks_name (ts_trace s)"
  by (simp_all add: publish_def publish_last_def clear_preference_def reject_def resolve_def failAuth_def
      auth_done_def resume_done_def)

lemma unnamed_continue:
  assumes "list_all (\<lambda>(_, k). \<not> verifying k) (ts_tasks s)" and "\<not> in_flight k" and "\<not> verifying k"
  shows "stays_unnamed s (tab_continue o' k a s)"
  using assms out_terminate out_logout
  by (cases k; cases a)
    (auto simp: tab_continue_def stays_unnamed_def after_sign_def after_complete_def after_session_def after_verify_def
      Let_def intro!: verifying_await split: option.splits sum.splits bool.splits)

lemma unnamed_bus:
  assumes "list_all (\<lambda>(_, k). \<not> verifying k) (ts_tasks s)"
  shows "stays_unnamed s (on_bus o' ty d (tab_log (E_received ty) s))"
  using assms by (cases ty) (auto simp: stays_unnamed_def split: option.splits)

lemma unnamed_step:
  assumes l: "locked_up o' s" and t: "list_all (\<lambda>(_, k). \<not> verifying k) (ts_tasks s)" and "i \<noteq> Resume True"
  shows "stays_unnamed s (tab_step o' i s)"
proof (cases i)
  case (Answer n a)
  show ?thesis
  proof (cases "jm_get (ts_tasks s) n")
    case (Some k)
    let ?s = "tab_log (E_settled n) (s\<lparr>ts_tasks := jm_delete n (ts_tasks s)\<rparr>)"
    have "\<not> in_flight k" "\<not> verifying k" using l t jm_get_in [OF Some] by (auto simp: list_all_iff locked_up_def)
    moreover have "list_all (\<lambda>(_, k). \<not> verifying k) (ts_tasks ?s)"
      using t by (auto simp: list_all_iff jm_delete_def)
    ultimately have "stays_unnamed ?s (tab_continue o' k a ?s)" by (intro unnamed_continue)
    then show ?thesis using Answer Some by (simp add: tab_answered_def stays_unnamed_def)
  qed (use t Answer in \<open>simp add: tab_answered_def stays_unnamed_def\<close>)
next
  case (Bus_message data)
  then show ?thesis using unnamed_bus [OF t] t
    by (cases rule: bus_cases [of o' data s]) (auto simp: stays_unnamed_def)
next
  case Unlock
  then show ?thesis using out_unlock [of o' s] t by (auto simp: stays_unnamed_def tab_unlock_def)
next
  case (Resume v)
  then show ?thesis using t assms(3) by (auto simp: stays_unnamed_def intro!: verifying_await)
qed (use t l locked_no_key [of o' s] in
  \<open>auto simp: locked_up_def stays_unnamed_def authenticate_def start_reunlock_def publishLock_def publishShutdown_def
    tab_destroy_def intro!: verifying_await\<close>)

lemma unnamed_run:
  assumes "locked_up o' s" and "list_all (\<lambda>(_, k). \<not> verifying k) (ts_tasks s)" and "Resume True \<notin> set inputs"
    and "\<forall>e\<in>set (since ts_trace s (reacts (tab_step o') inputs s)). \<not> way_out e"
  shows "filter asks_name (ts_trace (reacts (tab_step o') inputs s)) = filter asks_name (ts_trace s)"
  using assms
proof (induction inputs arbitrary: s)
  case (Cons i inputs)
  let ?s = "tab_step o' i s"
  obtain new where new: "ts_trace ?s = ts_trace s @ new"
    using tab_step_extends [of s o' i] by (auto simp: tab_extends_def)
  have since: "since ts_trace s ?s = new" by (rule since_append [where trace = ts_trace, OF new])
  have out: "\<forall>e\<in>set new. \<not> way_out e"
    "\<forall>e\<in>set (since ts_trace ?s (reacts (tab_step o') inputs ?s)). \<not> way_out e"
    using Cons.prems(4) unfolding nap_tab.since_Cons since by auto
  have "stays_unnamed s ?s" "stays_locked o' s ?s" "tab_inv o' ?s"
    using Cons.prems unnamed_step [of o' s i] stays_step [of o' s i] tab_step_inv by (auto simp: locked_up_def)
  then have "locked_up o' ?s" "list_all (\<lambda>(_, k). \<not> verifying k) (ts_tasks ?s)"
    "filter asks_name (ts_trace ?s) = filter asks_name (ts_trace s)"
    using out(1) by (auto simp: stays_unnamed_def stays_locked_def locked_up_def new filter_empty_conv)
  then show ?case using Cons.IH [of ?s] Cons.prems(3) out(2) by simp
qed simp

end
