(* ===== verification/WebScenario.thy ===== *)
theory WebScenario
  imports WebClientCalls WebSessionFacts
begin

text \<open>
  A signer page with one relying origin, that origin's page and a tab with a session, evaluated by the kernel, for
  the witnesses: a connection, a signature, a session that is restored and locked.
\<close>

section \<open>A signer page\<close>

definition sg_shop :: string where "sg_shop = ''https://shop''"

definition sg_key :: string where "sg_key = replicate 64 CHR ''a''"

definition sg_parts :: url_parts where
  "sg_parts = \<lparr>up_protocol = ''https:'', up_username = [], up_password = [], up_host = ''shop'', up_pathname = ''/'',
               up_search = [], up_hash = [], up_origin = sg_shop\<rparr>"

definition sg_url :: url_parser where
  "sg_url s = (if s = sg_shop \<or> s = ''https://shop/auth'' then Some sg_parts else None)"

definition sg_options :: CrossOriginSignerOptions where
  "sg_options =
     \<lparr>sn_policy = [(sg_shop, \<lparr>pe_kinds = [27235], pe_audiences = [sg_shop], pe_maxTtlSeconds = None\<rparr>)],
      sn_onSign = False, sn_ensureUnlocked = False, sn_consentStore = False, sn_opener = Some 7, sn_target = True,
      sn_isFramed = False, sn_createdAtSkewSeconds = None, sn_sessionBus = True, sn_url = sg_url,
      sn_nip19_decode = (\<lambda>s. if s = ''npub1'' then Some (''npub'', JStr sg_key) else None),
      sn_random = (\<lambda>n. [word_of_nat n])\<rparr>"

definition sg_mounted :: mounted where
  "sg_mounted = \<lparr>mt_options = sg_options,
     mt_policy = [(sg_shop, \<lparr>pe_kinds = [27235], pe_audiences = [sg_shop], pe_maxTtlSeconds = Some 900\<rparr>)], mt_opener = 7\<rparr>"

lemma sg_origin: "normalizeOrigin sg_url sg_shop = Inr sg_shop"
  by code_simp

definition sg_template :: EventTemplate where
  "sg_template = \<lparr>et_kind = 27235, et_created_at = 1000,
                  et_tags = [[''u'', ''https://shop/auth''], [''challenge'', ''x'']], et_content = []\<rparr>"

definition sg_event :: Nip98Event where
  "sg_event = \<lparr>ev_id = ''e'', ev_pubkey = sg_key, ev_created_at = 1000, ev_kind = 27235,
               ev_tags = et_tags sg_template, ev_content = [], ev_sig = ''s''\<rparr>"

definition sg_from_shop :: "CrossOriginMessage \<Rightarrow> page_input" where
  "sg_from_shop msg = Message_event 7 sg_shop (message_json msg)"

definition sg_start :: page where
  "sg_start = \<lparr>pg_grants = [], pg_closed = False, pg_tasks = [], pg_next = 0, pg_drawn = 0, pg_now = 1000,
                pg_trace = [Posted sg_shop M_ready]\<rparr>"

text \<open>A connection up to the consent, the consent, and a signature.\<close>

definition sg_asking :: "page_input list" where
  "sg_asking = [sg_from_shop (M_connect ''00'' [27235] [sg_shop] None), Answered 0 Returned,
     Answered 1 (Returned_npub ''npub1''), Answered 2 Returned, Answered 3 (Returned_bool True)]"

definition sg_connecting :: "page_input list" where "sg_connecting = sg_asking @ [Answered 4 Returned]"

definition sg_sign :: page_input where "sg_sign = sg_from_shop (M_sign ''01'' ''00'' sg_template)"
definition sg_signed :: page_input where "sg_signed = Answered 5 (Returned_event sg_event)"

lemma sg_mount: "mountCrossOriginSigner sg_options 1000 = Inr (Some (sg_mounted, sg_start))"
  by (simp add: mountCrossOriginSigner_def validatePolicy_def validate_entry_def sg_options_def sg_origin
      sg_mounted_def sg_start_def valid_ttl_def MAX_GRANT_TTL_SECONDS_def is_integer_def jm_set_def
      announce_def empty_page_def reply_def page_log_def)

lemma short_string_length: "2 * length s \<le> n \<Longrightarrow> short_string n (JStr s)"
proof -
  have "js_length s \<le> length s + length s" unfolding js_length_def by (intro add_mono length_filter_le)
  then show "2 * length s \<le> n \<Longrightarrow> short_string n (JStr s)" by (simp add: short_string_def)
qed

lemma sg_ids: "id_ok ''00''" "id_ok ''01''"
  by (simp_all add: id_ok_def isId_def js_length_def byte_of_def between_def)

lemma sg_wire: "wire_ok (M_connect ''00'' [27235] [sg_shop] None)" "wire_ok (M_sign ''01'' ''00'' sg_template)"
  by (simp_all add: sg_ids isKindList_def is_kind_def isStringList_def short_string_length sg_shop_def is_integer_def
     template_ok_def isEventTemplate_def template_members_def sg_template_def is_integer_number_def tags_json_def is_tag_def)

lemma sg_audience: "audienceOf sg_url sg_template = Some sg_shop"
  by code_simp

lemma sg_sel [simp]:
  "mt_options sg_mounted = sg_options" "mt_opener sg_mounted = 7"
  "mt_policy sg_mounted = [(sg_shop, \<lparr>pe_kinds = [27235], pe_audiences = [sg_shop], pe_maxTtlSeconds = Some 900\<rparr>)]"
  "sn_onSign sg_options = False" "sn_ensureUnlocked sg_options = False" "sn_consentStore sg_options = False"
  "sn_url sg_options = sg_url" "sn_nip19_decode sg_options ''npub1'' = Some (''npub'', JStr sg_key)"
  "sn_random sg_options n = [word_of_nat n]" "sn_sessionBus sg_options = True" "sn_createdAtSkewSeconds sg_options = None"
  by (simp_all add: sg_mounted_def sg_options_def)

lemmas page_defs = page_listener_def handleConnect_def page_resume_def
  page_log_def await_call_def await_turn_def reply_def fail_def page_changed_def conclude_def give_grant_def new_grant_def
  ask_consent_def npub_key_def js_unique_def jm_set_def jm_delete_def consent_request_def page_snapshot_def

definition sg_grant :: GrantState where
  "sg_grant = \<lparr>gi_grantId = ''00'', gi_pubkey = sg_key, gi_kinds = [27235], gi_audiences = [sg_shop], gi_expiresAt = 1900,
               lg_origin = sg_shop, gs_completionUsed = False, gs_source = 7\<rparr>"

lemma sg_id: "randomId [0] = ''00''" by code_simp

definition sg_request :: connect_request where
  "sg_request = \<lparr>cq_origin = sg_shop, cq_source = 7, cq_id = ''00'', cq_kinds = [27235], cq_audiences = [sg_shop],
                 cq_expected = None\<rparr>"

definition sg_asked :: page where "sg_asked = reacts (page_step sg_mounted) sg_asking sg_start"
definition sg_page :: page where "sg_page = reacts (page_step sg_mounted) sg_connecting sg_start"

lemma sg_asked_sel:
  "pg_grants sg_asked = []" "pg_next sg_asked = 5" "pg_now sg_asked = 1000" "\<not> pg_closed sg_asked" "pg_drawn sg_asked = 0"
  "pg_tasks sg_asked = [(4, Wait_remember sg_request sg_key)]"
  by (simp_all add: sg_asked_def sg_asking_def sg_from_shop_def message_read [OF sg_wire(1)] page_defs sg_start_def sg_origin
    sg_request_def del: message_json.simps)

lemma sg_page_eq: "sg_page = give_grant sg_request sg_grant (page_log (Settled 4 Returned) (sg_asked\<lparr>pg_tasks := []\<rparr>))"
  by (simp add: sg_page_def sg_connecting_def reacts_append sg_asked_def [symmetric] page_resume_def Let_def sg_asked_sel
    conclude_def new_grant_def sg_grant_def sg_request_def sg_id jm_delete_def truthy_str_def page_log_def)

lemma sg_page_sel:
  "pg_grants sg_page = [(''00'', sg_grant)]" "pg_next sg_page = 5" "pg_now sg_page = 1000" "\<not> pg_closed sg_page"
  "pg_drawn sg_page = 1" "pg_tasks sg_page = []"
  "Posted sg_shop (M_connected ''00'' (GrantInfo.truncate sg_grant)) \<in> set (pg_trace sg_page)"
  by (simp_all add: sg_page_eq give_grant_def reply_def page_log_def page_changed_def sg_asked_sel sg_request_def
      sg_grant_def jm_set_def)

definition sg_pending :: sign_request where
  "sg_pending = \<lparr>sq_id = ''01'', sq_grant = sg_grant, sq_template = sg_template\<rparr>"

lemma sg_signing: "page_step sg_mounted sg_sign sg_page = ask_signature sg_pending (claim_completion sg_grant sg_template sg_page)"
  by (simp add: sg_sign_def sg_from_shop_def message_read [OF sg_wire(2)] page_listener_def handleSign_def sg_page_sel
    within_grant_def sign_skew_def DEFAULT_CREATED_AT_SKEW_SECONDS_def sg_audience sg_pending_def sg_grant_def
    sg_template_def [THEN arg_cong, of et_kind] sg_template_def [THEN arg_cong, of et_created_at]
    del: message_json.simps)

definition sg_done :: page where "sg_done = reacts (page_step sg_mounted) [sg_sign, sg_signed] sg_page"

lemma sg_done_posted: "Posted sg_shop (M_signed ''01'' sg_event) \<in> set (pg_trace sg_done)"
proof -
  have "sameEvent sg_template sg_event" by (simp add: sameEvent_iff event_template_def sg_event_def sg_template_def)
  moreover have "is_completion sg_template" by (simp add: is_completion_def sg_template_def)
  ultimately show ?thesis
    by (simp add: sg_done_def sg_signing sg_signed_def ask_signature_def await_call_def await_turn_def page_log_def
      claim_completion_def page_resume_def Let_def sg_page_sel signature_arrives_def grant_lives_def sg_pending_def
      sg_grant_def jm_set_def jm_delete_def sg_event_def reply_def)
qed

lemma sg_done_all:
  "Posted sg_shop M_ready \<in> set (pg_trace sg_done)"
  "Posted sg_shop (M_connected ''00'' (GrantInfo.truncate sg_grant)) \<in> set (pg_trace sg_done)"
  "Posted sg_shop (M_signed ''01'' sg_event) \<in> set (pg_trace sg_done)"
proof -
  have "set (pg_trace sg_page) \<subseteq> set (pg_trace sg_done)" "set (pg_trace sg_start) \<subseteq> set (pg_trace sg_page)"
    using sp.run_appends unfolding sg_done_def sg_page_def by (metis Un_upper1 set_append)+
  then show "Posted sg_shop M_ready \<in> set (pg_trace sg_done)"
    "Posted sg_shop (M_connected ''00'' (GrantInfo.truncate sg_grant)) \<in> set (pg_trace sg_done)"
    using sg_page_sel(7) by (auto simp: sg_start_def)
qed (rule sg_done_posted)

lemma sg_done_count: "pg_drawn sg_done = 1" "completions ''00'' sg_done = completions ''00'' sg_page + 1"
proof -
  have "is_completion sg_template" by (simp add: is_completion_def sg_template_def)
  then show "pg_drawn sg_done = 1" "completions ''00'' sg_done = completions ''00'' sg_page + 1"
    by (simp_all add: sg_done_def sg_signing sg_signed_def ask_signature_def await_call_def await_turn_def page_log_def
      claim_completion_def page_resume_def Let_def sg_page_sel signature_arrives_def sg_pending_def
      sg_grant_def jm_set_def jm_delete_def reply_def completions_def fail_def page_revokeAll_def page_changed_def
      drop_all_def dropGrant_def)
qed

section \<open>The page that asks\<close>

definition xs_wallet :: string where "xs_wallet = ''https://wallet''"

definition xs_url :: url_parser where
  "xs_url s =
     (if s = xs_wallet
      then Some \<lparr>up_protocol = ''https:'', up_username = [], up_password = [], up_host = ''wallet'', up_pathname = ''/'',
                 up_search = [], up_hash = [], up_origin = xs_wallet\<rparr>
      else sg_url s)"

definition xs_options :: ConnectCrossOriginOptions where
  "xs_options =
     \<lparr>xo_keyOrigin = xs_wallet, xo_kinds = [27235], xo_audiences = [sg_shop], xo_expectedPubkey = None,
      xo_signerPath = None, xo_windowFeatures = None, xo_url = xs_url, xo_resolve = (\<lambda>path base. Some (base @ path)),
      xo_open = (\<lambda>_ _ _. Some 9), xo_random = (\<lambda>n. [word_of_nat n]), xo_verifyEvent = (\<lambda>_. True),
      xo_npubEncode = (\<lambda>_. ''npub1'')\<rparr>"

definition xs_relying :: relying where
  "xs_relying = \<lparr>xr_options = xs_options, xr_keyOrigin = xs_wallet, xr_audiences = [sg_shop], xr_popup = 9\<rparr>"

definition xs_start :: relying_page where "xs_start = opened_page 1000 (xs_wallet @ DEFAULT_SIGNER_PATH)"

lemma xs_origins: "normalizeOrigin xs_url xs_wallet = Inr xs_wallet" "normalizeOrigin xs_url sg_shop = Inr sg_shop"
  by code_simp+

lemma xs_connect: "connectCrossOrigin xs_options 1000 = Inr (xs_relying, xs_start)"
  by (simp add: connectCrossOrigin_def xs_options_def xs_origins xs_relying_def xs_start_def)

lemma xs_sel [simp]:
  "xr_options xs_relying = xs_options" "xr_keyOrigin xs_relying = xs_wallet" "xr_audiences xs_relying = [sg_shop]"
  "xr_popup xs_relying = 9" "xo_kinds xs_options = [27235]" "xo_expectedPubkey xs_options = None"
  "xo_random xs_options n = [word_of_nat n]" "xo_verifyEvent xs_options ev"
  by (simp_all add: xs_relying_def xs_options_def)

definition xs_from_wallet :: "CrossOriginMessage \<Rightarrow> relying_input" where
  "xs_from_wallet msg = I_message 9 xs_wallet (message_json msg)"

abbreviation xs_grant :: GrantInfo where "xs_grant \<equiv> GrantInfo.truncate sg_grant"

lemma xs_wire: "wire_ok M_ready" "wire_ok (M_connected ''00'' xs_grant)" "wire_ok (M_signed ''01'' sg_event)"
proof -
  have "is_hex_string 64 sg_key" by code_simp
  then show "wire_ok (M_connected ''00'' xs_grant)"
    using sg_ids by (simp add: isGrantInfo_def grant_json_def is_hex64_def isKindList_def is_kind_def isStringList_def
        short_string_length sg_shop_def is_integer_def is_integer_number_def sg_grant_def GrantInfo.truncate_def id_ok_def)
  show "wire_ok (M_signed ''01'' sg_event)"
    using sg_wire(2) sg_ids by (simp add: event_template_def sg_event_def sg_template_def)
qed simp

lemma xs_id: "randomId [1] = ''01''" by code_simp

definition xs_inputs :: "relying_input list" where
  "xs_inputs = [xs_from_wallet M_ready, xs_from_wallet (M_connected ''00'' xs_grant), I_signEvent sg_template]"

definition xs_waiting :: relying_page where "xs_waiting = reacts (xc_step xs_relying) xs_inputs xs_start"
definition xs_signed :: relying_page where
  "xs_signed = reacts (xc_step xs_relying) (xs_inputs @ [xs_from_wallet (M_signed ''01'' sg_event)]) xs_start"

lemmas relying_defs = xc_step_def xc_flush_def xc_drain_def xc_listener_def xc_queue_def xc_request_def xc_post_def xc_log_def
  xc_id_def xc_answer_def xc_connected_def xc_signEvent_def Let_def

lemma xs_ready:
  "xc_step xs_relying (xs_from_wallet M_ready) xs_start =
     xs_start\<lparr>rl_ready := True, rl_readyTimer := False, rl_waiting := False, rl_next := 1, rl_drawn := 1,
       rl_open := [(0, Req_connect)], rl_timers := [(0, ''00'')], rl_pending := [(''00'', 0)],
       rl_trace := rl_trace xs_start @ [X_posted xs_wallet (connect_message xs_relying ''00'')]\<rparr>"
  by (simp add: xs_from_wallet_def relying_defs message_read [OF xs_wire(1)] xs_start_def opened_page_def sg_id jm_set_def
      del: message_json.simps)

lemma xs_granted: "xc_granted xs_relying xs_grant"
  by (simp add: xc_granted_def GrantInfo.truncate_def sg_grant_def truthy_str_def)

lemma xs_connected:
  "xc_step xs_relying (xs_from_wallet (M_connected ''00'' xs_grant)) (xc_step xs_relying (xs_from_wallet M_ready) xs_start) =
     xs_start\<lparr>rl_ready := True, rl_readyTimer := False, rl_waiting := False, rl_next := 1, rl_drawn := 1,
       rl_grant := Some xs_grant, rl_listeners := [],
       rl_trace := rl_trace xs_start @ [X_posted xs_wallet (connect_message xs_relying ''00''), X_connected xs_grant]\<rparr>"
  unfolding xs_ready
  by (simp add: xs_from_wallet_def relying_defs message_read [OF xs_wire(2)] xs_start_def opened_page_def xs_granted
      jm_delete_def del: message_json.simps)

lemma xs_waiting_eq:
  "xs_waiting =
     xs_start\<lparr>rl_ready := True, rl_readyTimer := False, rl_waiting := False, rl_next := 2, rl_drawn := 2,
       rl_grant := Some xs_grant, rl_listeners := [], rl_open := [(1, Req_sign sg_template)],
       rl_timers := [(1, ''01'')], rl_pending := [(''01'', 1)],
       rl_trace := rl_trace xs_start @ [X_posted xs_wallet (connect_message xs_relying ''00''), X_connected xs_grant,
         X_called 1 sg_template, X_posted xs_wallet (M_sign ''01'' ''00'' sg_template)]\<rparr>"
  by (simp add: xs_waiting_def xs_inputs_def xs_connected)
    (simp add: relying_defs xs_start_def opened_page_def jm_set_def xs_id GrantInfo.truncate_def sg_grant_def)

lemma xs_signed_trace: "rl_trace xs_signed = rl_trace xs_waiting @ [X_signed 1 sg_event]"
proof -
  have "sameEvent sg_template sg_event" by (simp add: sameEvent_iff event_template_def sg_event_def sg_template_def)
  moreover have "ev_pubkey sg_event = gi_pubkey xs_grant" by (simp add: sg_event_def sg_grant_def GrantInfo.truncate_def)
  moreover have step: "xs_signed = xc_step xs_relying (xs_from_wallet (M_signed ''01'' sg_event)) xs_waiting"
    by (simp add: xs_signed_def xs_waiting_def reacts_append)
  ultimately show ?thesis unfolding step
    by (simp add: xs_waiting_eq xs_from_wallet_def relying_defs message_read [OF xs_wire(3)] xs_start_def opened_page_def
        xc_signed_def jm_delete_def del: message_json.simps)
qed

section \<open>A tab\<close>

definition tb_options :: NapClientOptions where
  "tb_options =
     \<lparr>co_baseUrl = ''https://shop'', co_evictable = True, co_accepts = (\<lambda>_. True), co_autoLock = True,
      co_shutdownTimer = False, co_window = True, co_broadcast = True, co_keyStore = True, co_signerPreference = True,
      co_nip19_decode = (\<lambda>s. if s = ''npub1'' then Some (''npub'', JStr ''key'') else None),
      co_sha256 = (\<lambda>bs. bs), co_num_text = (\<lambda>_. [])\<rparr>"

definition tb_response :: AuthSuccessResponse where
  "tb_response =
     \<lparr>as_status = ''ok'', as_access_token = ''t'', as_token_type = ''Bearer'', as_expires_at = 2000,
      as_step_up_token = None, as_step_up_expires_at = None, as_refresh_token = None, as_refresh_expires_at = None,
      as_principal_npub = ''npub1'', as_principal_pubkey = ''key'', as_permissions = None, as_roles = None\<rparr>"

definition tb_start :: tab where "tb_start = the (createNapSession tb_options True 0)"

definition tb_resuming :: "tab_input list" where
  "tb_resuming = [Resume False, Answer 0 (A_success 200 (Some tb_response))]"

definition tb_live :: tab where "tb_live = reacts (tab_step tb_options) tb_resuming tb_start"

lemma tb_created: "createNapSession tb_options True 0 = Some tb_start"
  by (simp add: tb_start_def createNapSession_def lockRecovery_def tb_options_def)

lemma tb_live_sel:
  "ts_session tb_live = Some (toSessionState tb_response)" "ts_tasks tb_live = []" "ts_key tb_live" "\<not> ts_locked tb_live"
  "ts_busOpen tb_live" "ts_next tb_live = 1"
  by (simp_all add: tb_live_def tb_resuming_def tb_start_def createNapSession_def lockRecovery_def tb_options_def
    tab_touch_def tab_await_def tab_log_def tab_answered_def tab_continue_def after_session_def Let_def resume_done_def
    resolve_def jm_set_def jm_delete_def)

lemma tb_evictable: "co_evictable tb_options" by (simp add: tb_options_def)

lemma tb_pubkey: "tab_pubkeyOfNpub (co_nip19_decode tb_options) ''npub1'' = ss_pubkey (toSessionState tb_response)"
  by (simp add: tb_options_def tab_pubkeyOfNpub_def toSessionState_def tb_response_def)

definition tb_locked :: tab where "tb_locked = tab_step tb_options Lock tb_live"

lemma tb_locked_sel:
  "ts_locked tb_locked" "ts_session tb_locked = Some (toSessionState tb_response)" "ts_tasks tb_locked = []"
  by (simp_all add: tb_locked_def publishLock_def hasSession_def tb_live_sel)

lemma tb_locked_run: "tb_locked = reacts (tab_step tb_options) (tb_resuming @ [Lock]) tb_start"
  by (simp add: reacts_append tb_locked_def tb_live_def)

lemma tb_locked_nokey: "\<not> ts_key tb_locked"
  by (simp add: tb_locked_def publishLock_def hasSession_def tb_live_sel tb_evictable)

text \<open>A step-up that waits for the signer's name.\<close>

definition tb_waiting :: tab where "tb_waiting = tab_step tb_options StepUp tb_live"

lemma tb_waiting_sel:
  "jm_get (ts_tasks tb_waiting) 1 = Some (T_npub 1 True)" "ts_session tb_waiting = Some (toSessionState tb_response)"
  by (simp_all add: tb_waiting_def authenticate_def holder_hasKey_def tb_live_sel tb_evictable tab_await_def tab_log_def)

lemma tb_waiting_run: "tb_waiting = reacts (tab_step tb_options) (tb_resuming @ [StepUp]) tb_start"
  by (simp add: reacts_append tb_waiting_def tb_live_def)

lemma tb_npub_other: "tab_pubkeyOfNpub (co_nip19_decode tb_options) ''other'' = ''other''"
  by (simp add: tb_options_def tab_pubkeyOfNpub_def)

lemma tb_npub_differs: "ss_pubkey (toSessionState tb_response) \<noteq> ''other''"
  by (simp add: toSessionState_def tb_response_def)

lemma tb_preference: "co_signerPreference tb_options" by (simp add: tb_options_def)

end
