(* ===== verification/WebStores.thy ===== *)
theory WebStores
  imports WebSession
begin

text \<open>
  nap-client-web, what the page keeps in Web Storage: the encrypted secret store and the key
  store (\<open>webCryptoSecretStore.ts\<close>, \<open>secretStore.ts\<close>), the remembered signer
  (\<open>signerPreference.ts\<close>), both over \<open>resolveStorage\<close> (\<open>storage.ts\<close>), and the signer whose key
  is in the page (\<open>signers.ts\<close>).

  A storage may be missing, and each of its methods may throw. Every method of a store touches
  the storage at one moment, but for \<open>loadKey\<close>, which reads it again after it has decrypted.
  WebCrypto is a parameter.
\<close>

section \<open>Storage\<close>

text \<open>\<open>Denied\<close>: reading \<open>globalThis.localStorage\<close> throws.\<close>

datatype storage_source = Given | Local | Absent | Denied

record web_storage =
  ws_source :: storage_source
  ws_items :: "(string, string) jsmap"
  ws_getThrows :: bool
  ws_setThrows :: "string \<Rightarrow> bool"
  ws_removeThrows :: bool

text \<open>A \<open>DOMException\<close>, or an error of another class with its message.\<close>

datatype store_error = Dom_exception | Store_error string

definition resolveStorage :: "web_storage \<Rightarrow> web_storage option" where
  "resolveStorage st = (case ws_source st of Given \<Rightarrow> Some st | Local \<Rightarrow> Some st | _ \<Rightarrow> None)"

definition NO_STORAGE :: store_error where
  "NO_STORAGE = Store_error ''No storage available: pass options.storage outside a browser''"

definition requireStorage :: "web_storage \<Rightarrow> store_error + web_storage" where
  "requireStorage st = (case resolveStorage st of None \<Rightarrow> Inl NO_STORAGE | Some s \<Rightarrow> Inr s)"

definition st_getItem :: "string \<Rightarrow> web_storage \<Rightarrow> store_error + string option" where
  "st_getItem k st = (if ws_getThrows st then Inl Dom_exception else Inr (jm_get (ws_items st) k))"

definition st_setItem :: "string \<Rightarrow> string \<Rightarrow> web_storage \<Rightarrow> store_error + web_storage" where
  "st_setItem k v st = (if ws_setThrows st v then Inl Dom_exception else Inr (st\<lparr>ws_items := jm_set k v (ws_items st)\<rparr>))"

definition st_removeItem :: "string \<Rightarrow> web_storage \<Rightarrow> store_error + web_storage" where
  "st_removeItem k st = (if ws_removeThrows st then Inl Dom_exception else Inr (st\<lparr>ws_items := jm_delete k (ws_items st)\<rparr>))"

section \<open>The secret store\<close>

definition ENVELOPE_VERSION :: rat where "ENVELOPE_VERSION = 1"
definition PBKDF2_ITERATIONS :: rat where "PBKDF2_ITERATIONS = 310000"
definition MIN_ITERATIONS :: rat where "MIN_ITERATIONS = 1000"
definition MAX_ITERATIONS :: rat where "MAX_ITERATIONS = 10000000"

text \<open>
  PBKDF2 and AES-GCM of WebCrypto: the key derived from the bytes of a passphrase, a salt and
  a count; encryption and decryption under a key and an IV. \<open>None\<close>: it throws.
\<close>

record webcrypto =
  wc_derive :: "byte list \<Rightarrow> byte list \<Rightarrow> rat \<Rightarrow> byte list option"
  wc_encrypt :: "byte list \<Rightarrow> byte list \<Rightarrow> byte list \<Rightarrow> byte list option"
  wc_decrypt :: "byte list \<Rightarrow> byte list \<Rightarrow> byte list \<Rightarrow> byte list option"

record secret_store =
  sk_key :: string
  sk_iterations :: rat
  sk_crypto :: webcrypto
  sk_num_text :: num_text

definition usable_count :: "rat \<Rightarrow> bool" where
  "usable_count n \<longleftrightarrow> is_integer n \<and> MIN_ITERATIONS \<le> n \<and> n \<le> MAX_ITERATIONS"

definition usableIterations :: "json option \<Rightarrow> bool" where
  "usableIterations v = (case as_number v of None \<Rightarrow> False | Some n \<Rightarrow> usable_count n)"

text \<open>\<open>None\<close>: nothing there, or nothing that parses, or \<open>null\<close>.\<close>

definition readStoredEnvelope :: "string \<Rightarrow> web_storage \<Rightarrow> store_error + json option" where
  "readStoredEnvelope k st =
     (case requireStorage st of
        Inl e \<Rightarrow> Inl e
      | Inr s \<Rightarrow>
          (case st_getItem k s of
             Inl e \<Rightarrow> Inl e
           | Inr raw \<Rightarrow>
               if \<not> truthy_str raw then Inr None
               else case json_parse (the raw) of Some JNull \<Rightarrow> Inr None | v \<Rightarrow> Inr v))"

definition usable_envelope :: "json \<Rightarrow> bool" where
  "usable_envelope v \<longleftrightarrow>
     member v ''version'' = Some (JNum ENVELOPE_VERSION)
     \<and> usableIterations (Option.bind (member v ''kdf'') (\<lambda>kdf. member kdf ''iterations''))"

definition readUsableEnvelope :: "string \<Rightarrow> web_storage \<Rightarrow> store_error + json option" where
  "readUsableEnvelope k st =
     (case readStoredEnvelope k st of
        Inl e \<Rightarrow> Inl e
      | Inr None \<Rightarrow> Inr None
      | Inr (Some v) \<Rightarrow> Inr (if usable_envelope v then Some v else None))"

definition deriveKey :: "webcrypto \<Rightarrow> string \<Rightarrow> byte list \<Rightarrow> rat \<Rightarrow> byte list option" where
  "deriveKey wc passphrase = wc_derive wc (utf8_encode passphrase)"

definition createWebCryptoSecretStore ::
  "webcrypto \<Rightarrow> num_text \<Rightarrow> string option \<Rightarrow> js_num option \<Rightarrow> store_error + secret_store" where
  "createWebCryptoSecretStore wc nt key count =
     (case or_else count (Fin PBKDF2_ITERATIONS) of
        Fin n \<Rightarrow>
          if usable_count n
          then Inr \<lparr>sk_key = or_else key ''nap-nip46-connection'', sk_iterations = n, sk_crypto = wc, sk_num_text = nt\<rparr>
          else Inl (Store_error ''iterations must be an integer between 1000 and 10000000'')
      | _ \<Rightarrow> Inl (Store_error ''iterations must be an integer between 1000 and 10000000''))"

definition envelope_json :: "rat \<Rightarrow> byte list \<Rightarrow> byte list \<Rightarrow> byte list \<Rightarrow> json" where
  "envelope_json iterations salt iv ciphertext =
     JObj [(''version'', JNum ENVELOPE_VERSION),
           (''kdf'', JObj [(''name'', JStr ''PBKDF2''), (''hash'', JStr ''SHA-256''), (''iterations'', JNum iterations),
                           (''salt'', JStr (encodeBase64Bytes salt))]),
           (''iv'', JStr (encodeBase64Bytes iv)),
           (''ciphertext'', JStr (encodeBase64Bytes ciphertext))]"

text \<open>\<open>save\<close>, with the random salt and IV.\<close>

definition secret_save ::
  "secret_store \<Rightarrow> byte list \<Rightarrow> byte list \<Rightarrow> string \<Rightarrow> string \<Rightarrow> web_storage \<Rightarrow> store_error + web_storage" where
  "secret_save c salt iv plaintext passphrase st =
     (case Option.bind (deriveKey (sk_crypto c) passphrase salt (sk_iterations c))
             (\<lambda>key. wc_encrypt (sk_crypto c) key iv (utf8_encode plaintext)) of
        None \<Rightarrow> Inl Dom_exception
      | Some ciphertext \<Rightarrow>
          (case requireStorage st of
             Inl e \<Rightarrow> Inl e
           | Inr s \<Rightarrow> st_setItem (sk_key c) (json_print (sk_num_text c) (envelope_json (sk_iterations c) salt iv ciphertext)) s))"

text \<open>A member as the bytes its base64 has; what is not text, or no base64, throws.\<close>

definition envelope_bytes :: "json option \<Rightarrow> byte list option" where
  "envelope_bytes v =
     (case as_string v of
        None \<Rightarrow> None
      | Some s \<Rightarrow> (case decodeBase64Bytes s of Inl e \<Rightarrow> None | Inr bs \<Rightarrow> Some bs))"

definition decrypt_envelope :: "webcrypto \<Rightarrow> string \<Rightarrow> json \<Rightarrow> string option" where
  "decrypt_envelope wc passphrase v =
     (case (Option.bind (member v ''kdf'') (\<lambda>kdf. envelope_bytes (member kdf ''salt'')),
            as_number (Option.bind (member v ''kdf'') (\<lambda>kdf. member kdf ''iterations'')),
            envelope_bytes (member v ''iv''), envelope_bytes (member v ''ciphertext'')) of
        (Some salt, Some iterations, Some iv, Some ciphertext) \<Rightarrow>
          (case Option.bind (deriveKey wc passphrase salt iterations) (\<lambda>key. wc_decrypt wc key iv ciphertext) of
             None \<Rightarrow> None
           | Some plaintext \<Rightarrow> Some (utf8_decode plaintext))
      | _ \<Rightarrow> None)"

definition secret_load :: "secret_store \<Rightarrow> string \<Rightarrow> web_storage \<Rightarrow> store_error + string option" where
  "secret_load c passphrase st =
     (case readUsableEnvelope (sk_key c) st of
        Inl e \<Rightarrow> Inl e
      | Inr None \<Rightarrow> Inr None
      | Inr (Some v) \<Rightarrow> Inr (decrypt_envelope (sk_crypto c) passphrase v))"

definition secret_clear :: "secret_store \<Rightarrow> web_storage \<Rightarrow> store_error + web_storage" where
  "secret_clear c st =
     (case requireStorage st of Inl e \<Rightarrow> Inl e | Inr s \<Rightarrow> st_removeItem (sk_key c) s)"

definition secret_has :: "secret_store \<Rightarrow> web_storage \<Rightarrow> store_error + bool" where
  "secret_has c st = map_sum id (\<lambda>v. v \<noteq> None) (readStoredEnvelope (sk_key c) st)"

section \<open>The key store\<close>

definition createWebCryptoKeyStore ::
  "webcrypto \<Rightarrow> num_text \<Rightarrow> string option \<Rightarrow> js_num option \<Rightarrow> store_error + secret_store" where
  "createWebCryptoKeyStore wc nt key count = createWebCryptoSecretStore wc nt (Some (or_else key ''nap-key'')) count"

definition UNREADABLE :: store_error where "UNREADABLE = Store_error ''stored key cannot be read by this version''"
definition INVALID :: store_error where "INVALID = Store_error ''Invalid passphrase''"

text \<open>The storage is \<open>st\<close> when the record is read, \<open>later\<close> when it has been decrypted.\<close>

definition ks_loadKey :: "secret_store \<Rightarrow> string \<Rightarrow> web_storage \<Rightarrow> web_storage \<Rightarrow> store_error + string" where
  "ks_loadKey c passphrase st later =
     (case secret_load c passphrase st of
        Inl e \<Rightarrow> Inl e
      | Inr (Some key) \<Rightarrow> Inr key
      | Inr None \<Rightarrow>
          (case readStoredEnvelope (sk_key c) later of
             Inl e \<Rightarrow> Inl e
           | Inr None \<Rightarrow> Inl INVALID
           | Inr (Some _) \<Rightarrow>
               (case readUsableEnvelope (sk_key c) later of
                  Inl e \<Rightarrow> Inl e
                | Inr None \<Rightarrow> Inl UNREADABLE
                | Inr (Some _) \<Rightarrow> Inl INVALID)))"

definition isDecryptionError :: "store_error \<Rightarrow> bool" where
  "isDecryptionError e \<longleftrightarrow> e = Dom_exception \<or> e = INVALID"

text \<open>What \<open>reunlock\<close> of the session makes of the two calls: the answers its tab awaits.\<close>

definition hasKey_answer :: "secret_store \<Rightarrow> web_storage \<Rightarrow> tab_answer" where
  "hasKey_answer c st = (case secret_has c st of Inl e \<Rightarrow> A_threw | Inr b \<Rightarrow> A_bool b)"

definition loadKey_answer :: "secret_store \<Rightarrow> string \<Rightarrow> web_storage \<Rightarrow> web_storage \<Rightarrow> tab_answer" where
  "loadKey_answer c passphrase st later =
     (case ks_loadKey c passphrase st later of
        Inl e \<Rightarrow> if isDecryptionError e then A_bad_passphrase else A_threw
      | Inr key \<Rightarrow> A_key key)"

section \<open>The remembered signer\<close>

datatype SignerKind = Kind_nip07 | Kind_nip46 | Kind_key

primrec kind_str :: "SignerKind \<Rightarrow> string" where
  "kind_str Kind_nip07 = ''nip07''"
| "kind_str Kind_nip46 = ''nip46''"
| "kind_str Kind_key = ''key''"

definition SIGNER_KINDS :: "SignerKind list" where "SIGNER_KINDS = [Kind_nip07, Kind_nip46, Kind_key]"

record SignerPreference =
  sp_kind :: SignerKind
  sp_npub :: string
  sp_savedAt :: rat

definition isPreference :: "json \<Rightarrow> SignerPreference option" where
  "isPreference v =
     (case (as_string (member v ''npub''), as_number (member v ''savedAt''),
            Option.bind (as_string (member v ''kind'')) (\<lambda>s. find (\<lambda>k. kind_str k = s) SIGNER_KINDS)) of
        (Some npub, Some savedAt, Some kind) \<Rightarrow>
          if starts_with npub ''npub1'' then Some \<lparr>sp_kind = kind, sp_npub = npub, sp_savedAt = savedAt\<rparr> else None
      | _ \<Rightarrow> None)"

definition preference_json :: "SignerPreference \<Rightarrow> json" where
  "preference_json p =
     JObj [(''kind'', JStr (kind_str (sp_kind p))), (''npub'', JStr (sp_npub p)), (''savedAt'', JNum (sp_savedAt p))]"

definition preference_read :: "string \<Rightarrow> web_storage \<Rightarrow> SignerPreference option" where
  "preference_read k st =
     (case resolveStorage st of
        None \<Rightarrow> None
      | Some s \<Rightarrow>
          (case st_getItem k s of
             Inl e \<Rightarrow> None
           | Inr raw \<Rightarrow> if truthy_str raw then Option.bind (json_parse (the raw)) isPreference else None))"

definition preference_write ::
  "num_text \<Rightarrow> string \<Rightarrow> SignerPreference \<Rightarrow> web_storage \<Rightarrow> SignerPreference option \<times> web_storage" where
  "preference_write nt k p st =
     (case resolveStorage st of
        None \<Rightarrow> (None, st)
      | Some s \<Rightarrow>
          (case st_setItem k (json_print nt (preference_json p)) s of
             Inl e \<Rightarrow> (None, st)
           | Inr s' \<Rightarrow> (Some p, s')))"

definition preference_clear :: "string \<Rightarrow> web_storage \<Rightarrow> web_storage" where
  "preference_clear k st =
     (case resolveStorage st of
        None \<Rightarrow> st
      | Some s \<Rightarrow> (case st_removeItem k s of Inl e \<Rightarrow> st | Inr s' \<Rightarrow> s'))"

section \<open>A key in the page\<close>

text \<open>
  The signer's closure. \<open>getPublicKey\<close> and \<open>finalizeEvent\<close> of nostr-tools are parameters; a key
  that is no key makes \<open>getPublicKey\<close> throw (\<open>None\<close>). The arrays that were zeroed are listed.
\<close>

record key_platform =
  kp_getPublicKey :: "byte list \<Rightarrow> string option"
  kp_npubEncode :: "string \<Rightarrow> string"
  kp_finalizeEvent :: "EventTemplate \<Rightarrow> byte list \<Rightarrow> Nip98Event"

record page_signer =
  ps_privateKey :: "byte list option"
  ps_pubkey :: string
  ps_zeroed :: "byte list list"

datatype signer_error = Bad_hex codec_error | Bad_key | Other_identity | Key_evicted

definition zeroed :: "byte list option \<Rightarrow> page_signer \<Rightarrow> page_signer" where
  "zeroed key s = (case key of None \<Rightarrow> s | Some k \<Rightarrow> s\<lparr>ps_zeroed := ps_zeroed s @ [k]\<rparr>)"

definition createPrivateKeySessionSigner :: "key_platform \<Rightarrow> string \<Rightarrow> signer_error + page_signer" where
  "createPrivateKeySessionSigner kp hex =
     (case hexToBytes hex of
        Inl e \<Rightarrow> Inl (Bad_hex e)
      | Inr key \<Rightarrow>
          (case kp_getPublicKey kp key of
             None \<Rightarrow> Inl Bad_key
           | Some pubkey \<Rightarrow> Inr \<lparr>ps_privateKey = Some key, ps_pubkey = pubkey, ps_zeroed = []\<rparr>))"

definition ps_getNpub :: "key_platform \<Rightarrow> page_signer \<Rightarrow> string" where
  "ps_getNpub kp s = kp_npubEncode kp (ps_pubkey s)"

definition ps_signEvent :: "key_platform \<Rightarrow> EventTemplate \<Rightarrow> page_signer \<Rightarrow> signer_error + Nip98Event" where
  "ps_signEvent kp tmpl s =
     (case ps_privateKey s of None \<Rightarrow> Inl Key_evicted | Some key \<Rightarrow> Inr (kp_finalizeEvent kp tmpl key))"

definition ps_setKey :: "key_platform \<Rightarrow> string \<Rightarrow> page_signer \<Rightarrow> signer_error option \<times> page_signer" where
  "ps_setKey kp hex s =
     (case hexToBytes hex of
        Inl e \<Rightarrow> (Some (Bad_hex e), s)
      | Inr key \<Rightarrow>
          (case kp_getPublicKey kp key of
             None \<Rightarrow> (Some Bad_key, s)
           | Some pubkey \<Rightarrow>
               if pubkey \<noteq> ps_pubkey s then (Some Other_identity, zeroed (Some key) s)
               else (None, (zeroed (ps_privateKey s) s)\<lparr>ps_privateKey := Some key\<rparr>)))"

definition ps_clearKey :: "page_signer \<Rightarrow> page_signer" where
  "ps_clearKey s = (zeroed (ps_privateKey s) s)\<lparr>ps_privateKey := None\<rparr>"

definition ps_hasKey :: "page_signer \<Rightarrow> bool" where
  "ps_hasKey s \<longleftrightarrow> ps_privateKey s \<noteq> None"

end
