(* ===== verification/WebStoreFacts.thy ===== *)
theory WebStoreFacts
  imports WebStores
begin

text \<open>
  What the stores of the page keep: a secret is read back with its passphrase, a record of a
  newer version is never taken for an absent one, a preference is read back, and the key of a
  page's signer is always the key of its identity.
\<close>

section \<open>The secret store\<close>

text \<open>Documented behaviour of WebCrypto, and of a storage that works.\<close>

definition crypto_works :: "webcrypto \<Rightarrow> bool" where
  "crypto_works wc \<longleftrightarrow>
     (\<forall>passphrase salt n. usable_count n \<longrightarrow> wc_derive wc passphrase salt n \<noteq> None)
     \<and> (\<forall>key iv m. \<exists>ct. wc_encrypt wc key iv m = Some ct \<and> wc_decrypt wc key iv ct = Some m)"

definition storage_works :: "web_storage \<Rightarrow> bool" where
  "storage_works st \<longleftrightarrow> (ws_source st = Given \<or> ws_source st = Local) \<and> \<not> ws_getThrows st \<and> (\<forall>v. \<not> ws_setThrows st v)"

lemma required [simp]: "storage_works st \<Longrightarrow> requireStorage st = Inr st" "storage_works st \<Longrightarrow> resolveStorage st = Some st"
  by (auto simp: storage_works_def requireStorage_def resolveStorage_def)

lemma got [simp]: "storage_works st \<Longrightarrow> st_getItem k st = Inr (jm_get (ws_items st) k)"
  by (simp add: storage_works_def st_getItem_def)

lemma put [simp]:
  "storage_works st \<Longrightarrow> st_setItem k v st = Inr (st\<lparr>ws_items := jm_set k v (ws_items st)\<rparr>)"
  "storage_works (st\<lparr>ws_items := items\<rparr>) = storage_works st"
  by (simp_all add: storage_works_def st_setItem_def)

lemma created_count: "createWebCryptoSecretStore wc nt key count = Inr c \<Longrightarrow> usable_count (sk_iterations c) \<and> sk_crypto c = wc"
  by (auto simp: createWebCryptoSecretStore_def split: js_num.splits if_splits)

lemma key_store_created: "createWebCryptoKeyStore wc nt key count = Inr c \<Longrightarrow> usable_count (sk_iterations c) \<and> sk_crypto c = wc"
  unfolding createWebCryptoKeyStore_def by (rule created_count)

lemma envelope_read:
  assumes "usable_count n"
  shows "json_parse (json_print nt (envelope_json n salt iv ciphertext)) = Some (envelope_json n salt iv ciphertext)"
proof (rule json_parse_print)
  have "plain_number n" using assms
    by (simp add: usable_count_def plain_number_def MIN_ITERATIONS_def MAX_ITERATIONS_def)
  then show "printable (envelope_json n salt iv ciphertext)"
    by (simp add: envelope_json_def ENVELOPE_VERSION_def plain_number_def is_integer_def)
qed

lemma envelope_usable: "usable_count n \<Longrightarrow> usable_envelope (envelope_json n salt iv ciphertext)"
  by (simp add: usable_envelope_def envelope_json_def member_def usableIterations_def as_number_def)

lemma envelope_decrypts:
  "decrypt_envelope wc passphrase (envelope_json n salt iv ciphertext) =
     map_option utf8_decode (Option.bind (deriveKey wc passphrase salt n) (\<lambda>key. wc_decrypt wc key iv ciphertext))"
  by (simp add: decrypt_envelope_def envelope_json_def member_def as_number_def envelope_bytes_def as_string_def
      decodeBase64Bytes_encode split: option.split)

text \<open>What a saved secret is to the readers.\<close>

lemma secret_saved:
  assumes c: "usable_count (sk_iterations c)" and works: "crypto_works (sk_crypto c)" and st: "storage_works st"
  obtains st' ciphertext key where "secret_save c salt iv plaintext passphrase st = Inr st'" and "storage_works st'"
    and "deriveKey (sk_crypto c) passphrase salt (sk_iterations c) = Some key"
    and "wc_decrypt (sk_crypto c) key iv ciphertext = Some (utf8_encode plaintext)"
    and "readStoredEnvelope (sk_key c) st' = Inr (Some (envelope_json (sk_iterations c) salt iv ciphertext))"
    and "readUsableEnvelope (sk_key c) st' = Inr (Some (envelope_json (sk_iterations c) salt iv ciphertext))"
    and "\<forall>k. k \<noteq> sk_key c \<longrightarrow> jm_get (ws_items st') k = jm_get (ws_items st) k"
proof -
  obtain key where key: "deriveKey (sk_crypto c) passphrase salt (sk_iterations c) = Some key"
    using works c unfolding crypto_works_def deriveKey_def by blast
  obtain ciphertext where ct: "wc_encrypt (sk_crypto c) key iv (utf8_encode plaintext) = Some ciphertext"
    "wc_decrypt (sk_crypto c) key iv ciphertext = Some (utf8_encode plaintext)"
    using works unfolding crypto_works_def by blast
  let ?v = "envelope_json (sk_iterations c) salt iv ciphertext"
  let ?st = "st\<lparr>ws_items := jm_set (sk_key c) (json_print (sk_num_text c) ?v) (ws_items st)\<rparr>"
  have nonempty: "json_print (sk_num_text c) ?v \<noteq> []" by (simp add: envelope_json_def)
  have "secret_save c salt iv plaintext passphrase st = Inr ?st"
    using key ct(1) st by (simp add: secret_save_def)
  moreover have "readStoredEnvelope (sk_key c) ?st = Inr (Some ?v)"
    using st nonempty envelope_read [OF c]
    by (simp add: readStoredEnvelope_def) (simp add: envelope_json_def)
  moreover from this have "readUsableEnvelope (sk_key c) ?st = Inr (Some ?v)"
    using envelope_usable [OF c] by (simp add: readUsableEnvelope_def)
  ultimately show ?thesis using that [of ?st key ciphertext] key ct(2) st by simp
qed

text \<open>A record this build cannot read is present, and never an invalid passphrase.\<close>

lemma newer_record:
  assumes "storage_works st" and "jm_get (ws_items st) (sk_key c) = Some raw"
    and "json_parse raw = Some v" and "v \<noteq> JNull" and "\<not> usable_envelope v"
  shows "secret_has c st = Inr True" and "secret_load c passphrase st = Inr None"
    and "ks_loadKey c passphrase st st = Inl UNREADABLE"
proof -
  have "json_parse [] = None" by code_simp
  then have "raw \<noteq> []" using assms(3) by auto
  then have s: "readStoredEnvelope (sk_key c) st = Inr (Some v)"
    using assms(1-4) by (cases v) (simp_all add: readStoredEnvelope_def)
  then have u: "readUsableEnvelope (sk_key c) st = Inr None" using assms(5) by (simp add: readUsableEnvelope_def)
  show "secret_has c st = Inr True" by (simp add: secret_has_def s)
  show "secret_load c passphrase st = Inr None" by (simp add: secret_load_def u)
  then show "ks_loadKey c passphrase st st = Inl UNREADABLE" by (simp add: ks_loadKey_def s u)
qed

text \<open>A storage whose \<open>getItem\<close> throws when the record is read: \<open>reunlock\<close> says the passphrase is wrong.\<close>

theorem denied_read_blames_passphrase:
  "resolveStorage st \<noteq> None \<Longrightarrow> ws_getThrows st \<Longrightarrow> loadKey_answer c passphrase st later = A_bad_passphrase"
  by (auto simp: loadKey_answer_def ks_loadKey_def secret_load_def readUsableEnvelope_def readStoredEnvelope_def
      requireStorage_def resolveStorage_def st_getItem_def isDecryptionError_def split: storage_source.splits)

section \<open>The remembered signer\<close>

lemma preference_json_read: "starts_with (sp_npub p) ''npub1'' \<Longrightarrow> isPreference (preference_json p) = Some p"
  by (cases "sp_kind p")
    (simp_all add: isPreference_def preference_json_def member_def as_string_def as_number_def SIGNER_KINDS_def)

theorem preference_kept:
  assumes "storage_works st" and "plain_number (sp_savedAt p)"
  shows "fst (preference_write nt k p st) = Some p"
    and "preference_read k (snd (preference_write nt k p st)) = (if starts_with (sp_npub p) ''npub1'' then Some p else None)"
proof -
  have "printable (preference_json p)" using assms(2) by (simp add: preference_json_def)
  then have p: "json_parse (json_print nt (preference_json p)) = Some (preference_json p)" by (rule json_parse_print)
  have nonempty: "json_print nt (preference_json p) \<noteq> []" by (simp add: preference_json_def)
  have w: "preference_write nt k p st =
      (Some p, st\<lparr>ws_items := jm_set k (json_print nt (preference_json p)) (ws_items st)\<rparr>)"
    using assms(1) by (simp add: preference_write_def)
  then show "fst (preference_write nt k p st) = Some p" by simp
  have "\<not> starts_with (sp_npub p) ''npub1'' \<Longrightarrow> isPreference (preference_json p) = None"
    by (simp add: isPreference_def preference_json_def member_def as_string_def split: option.split)
  then show "preference_read k (snd (preference_write nt k p st)) =
      (if starts_with (sp_npub p) ''npub1'' then Some p else None)"
    using assms(1) nonempty by (simp add: w preference_read_def p preference_json_read)
qed

section \<open>A key in the page\<close>

definition holds_identity :: "key_platform \<Rightarrow> page_signer \<Rightarrow> bool" where
  "holds_identity kp s \<longleftrightarrow> (\<forall>key. ps_privateKey s = Some key \<longrightarrow> kp_getPublicKey kp key = Some (ps_pubkey s))"

lemma signer_created:
  "createPrivateKeySessionSigner kp hex = Inr s \<Longrightarrow>
     holds_identity kp s \<and> (\<exists>key. hexToBytes hex = Inr key \<and> ps_privateKey s = Some key \<and> kp_getPublicKey kp key = Some (ps_pubkey s))"
  by (auto simp: createPrivateKeySessionSigner_def holds_identity_def split: sum.splits option.splits)

lemma setKey_identity: "holds_identity kp s \<Longrightarrow> holds_identity kp (snd (ps_setKey kp hex s))"
  by (auto simp: ps_setKey_def holds_identity_def zeroed_def split: sum.splits option.splits)

lemma clearKey_identity: "holds_identity kp (ps_clearKey s)"
  by (simp add: holds_identity_def ps_clearKey_def)

text \<open>Two states of a signer with one identity take the same keys.\<close>

lemma setKey_same_identity: "ps_pubkey s' = ps_pubkey s \<Longrightarrow> fst (ps_setKey kp hex s') = fst (ps_setKey kp hex s)"
  by (auto simp: ps_setKey_def split: sum.splits option.splits)

lemma setKey_pubkey [simp]: "ps_pubkey (snd (ps_setKey kp hex s)) = ps_pubkey s"
  by (auto simp: ps_setKey_def zeroed_def split: sum.splits option.splits)

lemma clearKey_pubkey [simp]: "ps_pubkey (ps_clearKey s) = ps_pubkey s"
  by (auto simp: ps_clearKey_def zeroed_def split: option.splits)

text \<open>
  The session's view of the signer: a flag, and the set of keys it takes. The signer's methods
  are the steps of the flag that the model of the tab has.
\<close>

theorem page_signer_refines:
  "ps_hasKey (snd (ps_setKey kp hex s)) \<longleftrightarrow> fst (ps_setKey kp hex s) = None \<or> ps_hasKey s"
  "\<not> ps_hasKey (ps_clearKey s)"
  "(\<exists>ev. ps_signEvent kp tmpl s = Inr ev) \<longleftrightarrow> ps_hasKey s"
  by (auto simp: ps_setKey_def ps_hasKey_def ps_clearKey_def ps_signEvent_def zeroed_def split: sum.splits option.splits)

lemma created_accepts:
  assumes "createPrivateKeySessionSigner kp hex = Inr s" and "ps_pubkey s' = ps_pubkey s"
  shows "fst (ps_setKey kp hex s') = None"
  using signer_created [OF assms(1)] assms(2) by (auto simp: ps_setKey_def)

section \<open>Reunlocking a tab over the key store\<close>

lemma has_key_continues:
  "tab_continue o' (T_hasKey c passphrase) (A_bool True) s =
     tab_await (\<lambda>t. E_keyStore_loadKey t passphrase) (T_loadKey c) s"
  by (simp add: tab_continue_def)

lemma reunlock_run:
  "co_keyStore o' \<Longrightarrow> n = ts_next s \<Longrightarrow>
   reacts (tab_step o') [Reunlock passphrase, Answer n (A_bool True), Answer (Suc n) a] s =
     tab_continue o' (T_loadKey n) a
       (s\<lparr>ts_next := Suc (Suc n),
          ts_tasks := jm_delete (Suc n) (jm_set (Suc n) (T_loadKey n) (jm_delete n (jm_set n (T_hasKey n passphrase) (ts_tasks s)))),
          ts_trace := ts_trace s @ [E_keyStore_hasKey n, E_settled n, E_keyStore_loadKey (Suc n) passphrase, E_settled (Suc n)]\<rparr>)"
  by (simp add: start_reunlock_def tab_await_def tab_answered_def tab_log_def has_key_continues)

lemma loadKey_continues: "tab_continue o' (T_loadKey c) (A_key key) s = reunlock_key o' c key s"
  by (simp add: tab_continue_def)

lemma touch_sel [simp]:
  "ts_locked (tab_touch o' s) = ts_locked s" "ts_shutdown (tab_touch o' s) = ts_shutdown s"
  "ts_key (tab_touch o' s) = ts_key s" "ts_session (tab_touch o' s) = ts_session s" "ts_trace (tab_touch o' s) = ts_trace s"
  by (simp_all add: tab_touch_def)

lemma reunlock_key_runs:
  assumes "key \<noteq> []" and "co_accepts o' key"
  shows "ts_locked (reunlock_key o' c key s) = False" and "ts_shutdown (reunlock_key o' c key s) = False"
    and "ts_key (reunlock_key o' c key s) \<longleftrightarrow> co_evictable o' \<or> ts_key s"
    and "ts_session (reunlock_key o' c key s) = ts_session s"
    and "\<exists>es. ts_trace (reunlock_key o' c key s) = ts_trace s @ es @ [E_resolved c V_done]"
  using assms by (auto simp: reunlock_key_def resolve_def publish_def tab_log_def holder_setKey_def)

end
