(* ===== verification/Audience.thy ===== *)
theory Audience
  imports ServerTypes
begin

text \<open>
  nap-server's host allowlist for audiences derived from a request (\<open>audience.ts\<close>). The
  lemmas say which audiences an allowlist can yield: with exact entries only the listed
  hosts; with a wildcard entry, whatever ends in the suffix, and that includes text that
  is not a host (\<open>wildcard_escapes\<close>). Case folding is that of ASCII.
\<close>

record AllowedHost =
  ah_host :: string
  ah_scheme :: "string option"
  ah_wildcard :: bool

datatype audience_error =
    Empty_entry
  | Bad_scheme string
  | Not_a_host string
  | Bad_wildcard string
  | Too_broad string
  | Empty_allowlist
  | No_host
  | Host_not_allowed string

definition lower_alpha :: "char \<Rightarrow> bool" where
  "lower_alpha c \<longleftrightarrow> (let n = of_char c :: nat in 97 \<le> n \<and> n \<le> 122)"

definition scheme_char :: "char \<Rightarrow> bool" where
  "scheme_char c \<longleftrightarrow>
     lower_alpha c \<or> (let n = of_char c :: nat in 48 \<le> n \<and> n \<le> 57)
     \<or> c = CHR ''+'' \<or> c = CHR ''.'' \<or> c = CHR ''-''"

text \<open>\<open>/^([a-z][a-z0-9+.-]*):\/\//\<close>: the scheme before \<open>://\<close>, when there is one.\<close>

definition scheme_match :: "string \<Rightarrow> string option" where
  "scheme_match raw =
     (let sc = takeWhile scheme_char raw
      in if sc \<noteq> [] \<and> lower_alpha (hd sc) \<and> starts_with (drop (length sc) raw) ''://''
         then Some sc else None)"

text \<open>\<open>/[/?#@\s]/.test(host)\<close>.\<close>

definition url_char_in :: "string \<Rightarrow> bool" where
  "url_char_in host \<longleftrightarrow>
     list_ex (\<lambda>c. c = CHR ''/'' \<or> c = CHR ''?'' \<or> c = CHR ''#'' \<or> c = CHR ''@'') host
     \<or> list_ex (\<lambda>i. lead_space js_spaces (drop i host) \<noteq> 0) [0..<length host]"

definition parseEntry :: "string \<Rightarrow> audience_error + AllowedHost" where
  "parseEntry entry =
     (let raw = to_lower (js_trim entry)
      in if raw = [] then Inl Empty_entry
         else let scheme = scheme_match raw;
                  host = (case scheme of Some sc \<Rightarrow> drop (length sc + 3) raw | None \<Rightarrow> raw)
              in if scheme \<noteq> None \<and> scheme \<noteq> Some ''http'' \<and> scheme \<noteq> Some ''https''
                 then Inl (Bad_scheme entry)
                 else if url_char_in host then Inl (Not_a_host entry)
                 else let wildcard = starts_with host ''*.'';
                          bare = (if wildcard then drop 2 host else host)
                      in if bare = [] \<or> CHR ''*'' \<in> set bare then Inl (Bad_wildcard entry)
                         else if wildcard \<and> CHR ''.'' \<notin> set bare then Inl (Too_broad entry)
                         else Inr \<lparr>ah_host = bare, ah_scheme = scheme, ah_wildcard = wildcard\<rparr>)"

definition ah_matches :: "AllowedHost \<Rightarrow> string \<Rightarrow> bool" where
  "ah_matches allowed host \<longleftrightarrow>
     (if ah_wildcard allowed
      then ends_with host (CHR ''.'' # ah_host allowed) \<and> length host > length (ah_host allowed) + 1
      else host = ah_host allowed)"

fun parseEntries :: "string list \<Rightarrow> audience_error + AllowedHost list" where
  "parseEntries [] = Inr []"
| "parseEntries (e # r) =
     (case parseEntry e of
        Inl x \<Rightarrow> Inl x
      | Inr a \<Rightarrow> (case parseEntries r of Inl x \<Rightarrow> Inl x | Inr as \<Rightarrow> Inr (a # as)))"

definition resolve_audience ::
  "AllowedHost list \<Rightarrow> string option \<Rightarrow> string \<Rightarrow> audience_error + string" where
  "resolve_audience allowed host protocol =
     (if \<not> truthy_str host then Inl No_host
      else let normalized = to_lower (js_trim (the host))
           in case List.find (\<lambda>a. ah_matches a normalized) allowed of
                None \<Rightarrow> Inl (Host_not_allowed (the host))
              | Some m \<Rightarrow> Inr (or_else (ah_scheme m) protocol @ ''://'' @ normalized))"

definition createAudienceHostAllowlist ::
  "string list \<Rightarrow> audience_error + (string option \<Rightarrow> string \<Rightarrow> audience_error + string)" where
  "createAudienceHostAllowlist allowedHosts =
     (if allowedHosts = [] then Inl Empty_allowlist
      else case parseEntries allowedHosts of
             Inl e \<Rightarrow> Inl e
           | Inr allowed \<Rightarrow> Inr (resolve_audience allowed))"

section \<open>What an allowlist yields\<close>

lemma ends_with_iff: "ends_with s p \<longleftrightarrow> (\<exists>x. s = x @ p)"
proof
  assume "ends_with s p"
  then have t: "take (length p) (rev s) = rev p" by (simp add: ends_with_def starts_with_def)
  have "rev s = take (length p) (rev s) @ drop (length p) (rev s)" by simp
  then have "s = rev (drop (length p) (rev s)) @ p"
    unfolding t by (metis rev_append rev_rev_ident)
  then show "\<exists>x. s = x @ p" ..
qed (auto simp: ends_with_def starts_with_def)

lemma ah_matches_iff:
  "ah_matches a h \<longleftrightarrow>
     (if ah_wildcard a then \<exists>x. x \<noteq> [] \<and> h = x @ ''.'' @ ah_host a else h = ah_host a)"
  by (auto simp: ah_matches_def ends_with_iff)

lemma parseEntry_Inr:
  assumes p: "parseEntry e = Inr a"
  shows "ah_host a \<noteq> []" and "CHR ''*'' \<notin> set (ah_host a)"
    and "ah_wildcard a \<Longrightarrow> CHR ''.'' \<in> set (ah_host a)"
    and "ah_scheme a \<in> {None, Some ''http'', Some ''https''}"
    and "{CHR ''/'', CHR ''?'', CHR ''#'', CHR ''@''} \<inter> set (ah_host a) = {}"
proof -
  define raw where "raw = to_lower (js_trim e)"
  define host where "host = (case scheme_match raw of Some sc \<Rightarrow> drop (length sc + 3) raw | None \<Rightarrow> raw)"
  have f: "scheme_match raw = None \<or> scheme_match raw = Some ''http'' \<or> scheme_match raw = Some ''https''"
    "\<not> url_char_in host"
    "ah_host a \<noteq> []" "CHR ''*'' \<notin> set (ah_host a)" "ah_scheme a = scheme_match raw"
    "ah_wildcard a \<longrightarrow> CHR ''.'' \<in> set (ah_host a)"
    "ah_host a = host \<or> ah_host a = drop 2 host"
    using p unfolding parseEntry_def Let_def raw_def [symmetric] host_def [symmetric]
    by (auto split: if_splits)
  show "ah_host a \<noteq> []" "CHR ''*'' \<notin> set (ah_host a)" "ah_wildcard a \<Longrightarrow> CHR ''.'' \<in> set (ah_host a)"
    "ah_scheme a \<in> {None, Some ''http'', Some ''https''}"
    using f by auto
  have "{CHR ''/'', CHR ''?'', CHR ''#'', CHR ''@''} \<inter> set host = {}"
    using f(2) by (auto simp: url_char_in_def list_ex_iff)
  moreover have "set (ah_host a) \<subseteq> set host"
    using f(7) by (auto dest: in_set_dropD)
  ultimately show "{CHR ''/'', CHR ''?'', CHR ''#'', CHR ''@''} \<inter> set (ah_host a) = {}" by blast
qed

lemma parseEntries_Inr:
  "parseEntries es = Inr as \<Longrightarrow> a \<in> set as \<Longrightarrow> \<exists>e\<in>set es. parseEntry e = Inr a"
  by (induction es arbitrary: as) (auto split: sum.splits)

lemma allowlist_sound:
  assumes c: "createAudienceHostAllowlist hosts = Inr resolve" and r: "resolve host protocol = Inr url"
  shows "\<exists>e\<in>set hosts. \<exists>a h. parseEntry e = Inr a \<and> host = Some h
     \<and> ah_matches a (to_lower (js_trim h))
     \<and> url = or_else (ah_scheme a) protocol @ ''://'' @ to_lower (js_trim h)"
proof -
  obtain as where as: "parseEntries hosts = Inr as" "resolve = resolve_audience as"
    using c by (auto simp: createAudienceHostAllowlist_def split: if_splits sum.splits)
  obtain h where h: "host = Some h" using r as(2) by (cases host) (auto simp: resolve_audience_def)
  obtain a where a: "List.find (\<lambda>a. ah_matches a (to_lower (js_trim h))) as = Some a"
    "url = or_else (ah_scheme a) protocol @ ''://'' @ to_lower (js_trim h)"
    using r as(2) h by (auto simp: resolve_audience_def Let_def split: if_splits option.splits)
  have "a \<in> set as" "ah_matches a (to_lower (js_trim h))" using a(1) by (auto simp: find_Some_iff)
  then show ?thesis using parseEntries_Inr [OF as(1)] a(2) h by blast
qed

text \<open>
  With exact entries the audience is one of finitely many, whatever the headers say; a
  scheme-pinned entry leaves nothing to the request.
\<close>

lemma exact_audiences:
  assumes c: "createAudienceHostAllowlist hosts = Inr resolve" and r: "resolve host protocol = Inr url"
    and exact: "\<forall>e\<in>set hosts. \<forall>a. parseEntry e = Inr a \<longrightarrow> \<not> ah_wildcard a"
  shows "\<exists>e\<in>set hosts. \<exists>a. parseEntry e = Inr a
     \<and> url = or_else (ah_scheme a) protocol @ ''://'' @ ah_host a"
proof -
  obtain e a h where e: "e \<in> set hosts" "parseEntry e = Inr a" "ah_matches a (to_lower (js_trim h))"
    "url = or_else (ah_scheme a) protocol @ ''://'' @ to_lower (js_trim h)"
    using allowlist_sound [OF c r] by blast
  then have "to_lower (js_trim h) = ah_host a" using exact by (auto simp: ah_matches_def)
  then show ?thesis using e by auto
qed

lemma unlisted_refused:
  assumes c: "createAudienceHostAllowlist hosts = Inr resolve"
    and n: "\<forall>e\<in>set hosts. \<forall>a. parseEntry e = Inr a \<longrightarrow> \<not> ah_matches a (to_lower (js_trim h))"
  shows "\<exists>x. resolve (Some h) protocol = Inl x"
proof (cases "resolve (Some h) protocol")
  case (Inr url)
  then show ?thesis using allowlist_sound [OF c Inr] n by blast
qed simp

text \<open>
  A \<open>Host\<close> header is free text. Text with a slash in it matches a wildcard entry, and the
  audience it yields is a URL of another host.
\<close>

definition escape_hosts :: "string list" where
  "escape_hosts = [''*.example.com'']"

lemma wildcard_escapes:
  "\<exists>resolve. createAudienceHostAllowlist escape_hosts = Inr resolve
     \<and> resolve (Some ''evil.test/.example.com'') ''https'' = Inr ''https://evil.test/.example.com''"
proof -
  have "parseEntries escape_hosts
      = Inr [\<lparr>ah_host = ''example.com'', ah_scheme = None, ah_wildcard = True\<rparr>]"
    by code_simp
  then have p: "createAudienceHostAllowlist escape_hosts
      = Inr (resolve_audience [\<lparr>ah_host = ''example.com'', ah_scheme = None, ah_wildcard = True\<rparr>])"
    by (simp add: createAudienceHostAllowlist_def escape_hosts_def)
  moreover have "resolve_audience [\<lparr>ah_host = ''example.com'', ah_scheme = None, ah_wildcard = True\<rparr>]
      (Some ''evil.test/.example.com'') ''https'' = Inr ''https://evil.test/.example.com''"
    by code_simp
  ultimately show ?thesis by blast
qed

end
