(* ===== verification/Nip46Pairing.thy ===== *)
theory Nip46Pairing
  imports WebSession Audience
begin

text \<open>
  nap-client-nip46, the errors of a remote signer (\<open>errors.ts\<close>), the bound on a call
  (\<open>timeout.ts\<close>), and the wait for a signer to answer a \<open>nostrconnect://\<close> URI
  (\<open>waitForNostrConnect\<close> of \<open>connection.ts\<close>).

  The wait reacts to the events the relays deliver and to its timer. What an event's content
  decrypts to is a parameter: anybody can encrypt to the client's key, so the text may be any.
  The properties are that only an echo of the secret ends the wait with a key, and that
  nothing else keeps such an echo from ending it.
\<close>

section \<open>Errors\<close>

datatype Nip46ErrorCode =
    N46_INVALID_TOKEN | N46_UNREACHABLE | N46_TIMEOUT | N46_DECLINED | N46_SECRET_MISMATCH | N46_PROVIDER_ERROR

record Nip46Error =
  ne_code :: Nip46ErrorCode
  ne_message :: string

abbreviation nip46_error :: "Nip46ErrorCode \<Rightarrow> string \<Rightarrow> Nip46Error" where
  "nip46_error code msg \<equiv> \<lparr>ne_code = code, ne_message = msg\<rparr>"

text \<open>
  A value that was thrown. \<open>Thrown_value\<close> is one that is not an \<open>Error\<close>, as the text
  \<open>String(cause ?? '')\<close>; \<open>Thrown_error\<close> is an \<open>Error\<close> of any other class.
\<close>

datatype thrown =
    Thrown_nip46 Nip46Error
  | Thrown_aggregate string
  | Thrown_error string
  | Thrown_value string

primrec thrown_message :: "thrown \<Rightarrow> string" where
  "thrown_message (Thrown_nip46 e) = ne_message e"
| "thrown_message (Thrown_aggregate m) = m"
| "thrown_message (Thrown_error m) = m"
| "thrown_message (Thrown_value m) = m"

text \<open>\<open>/p/i.test(s)\<close> for a lower-case ASCII literal \<open>p\<close>.\<close>

fun mentions :: "string \<Rightarrow> string \<Rightarrow> bool" where
  "mentions p [] \<longleftrightarrow> p = []"
| "mentions p (c # cs) \<longleftrightarrow> starts_with (to_lower (c # cs)) p \<or> mentions p cs"

definition word_char :: "char \<Rightarrow> bool" where
  "word_char c \<longleftrightarrow> is_digit c \<or> lower_alpha (lower_char c) \<or> c = CHR ''_''"

text \<open>\<open>/\b(..)/i.test(s)\<close>: \<open>m\<close> matches at the start of a text and only before a letter.\<close>

fun at_word :: "(string \<Rightarrow> bool) \<Rightarrow> bool \<Rightarrow> string \<Rightarrow> bool" where
  "at_word m inside [] \<longleftrightarrow> False"
| "at_word m inside (c # cs) \<longleftrightarrow> \<not> inside \<and> m (to_lower (c # cs)) \<or> at_word m (word_char c) cs"

definition TRANSPORT_WORDS :: "string list" where
  "TRANSPORT_WORDS =
     [''relay'', ''websocket'', ''connection refused'', ''connection closed'', ''connection failed'',
      ''connection error'', ''econnrefused'']"

definition declined_here :: "string \<Rightarrow> bool" where
  "declined_here s \<longleftrightarrow>
     list_ex (starts_with s) [''reject'', ''denied'', ''deny'', ''declin'', ''refus'', ''unauthoriz'']
     \<or> starts_with s ''not'' \<and> 0 < lead_space js_spaces (drop 3 s)
       \<and> starts_with (trim_lead js_spaces (drop 3 s)) ''authorized''"

definition DECLINED_PATTERN :: "string \<Rightarrow> bool" where
  "DECLINED_PATTERN s \<longleftrightarrow> at_word declined_here False s"

definition transport_failed :: "thrown \<Rightarrow> bool" where
  "transport_failed cause \<longleftrightarrow>
     (case cause of Thrown_aggregate _ \<Rightarrow> True | _ \<Rightarrow> list_ex (\<lambda>w. mentions w (thrown_message cause)) TRANSPORT_WORDS)"

definition toNip46Error :: "thrown \<Rightarrow> string \<Rightarrow> Nip46Error" where
  "toNip46Error cause fallback =
     (case cause of
        Thrown_nip46 e \<Rightarrow> e
      | _ \<Rightarrow>
          let msg = thrown_message cause; shown = (if msg = [] then fallback else msg) in
          if transport_failed cause then nip46_error N46_UNREACHABLE shown
          else if DECLINED_PATTERN msg then nip46_error N46_DECLINED msg
          else nip46_error N46_PROVIDER_ERROR shown)"

section \<open>A bound on a call\<close>

definition DEFAULT_CONNECT_TIMEOUT_MS :: int where "DEFAULT_CONNECT_TIMEOUT_MS = 15000"
definition DEFAULT_SIGN_TIMEOUT_MS :: int where "DEFAULT_SIGN_TIMEOUT_MS = 30000"
definition DEFAULT_PING_TIMEOUT_MS :: int where "DEFAULT_PING_TIMEOUT_MS = 5000"

text \<open>What ends a call under a bound: the promise settles, or the timer fires. The first counts.\<close>

datatype 'a race_end = Race_settled "thrown + 'a" | Race_timer

definition timed_out :: "int \<Rightarrow> string \<Rightarrow> Nip46Error" where
  "timed_out ms label = nip46_error N46_TIMEOUT (label @ '' timed out after '' @ show_int ms @ ''ms'')"

primrec withTimeout :: "int \<Rightarrow> string \<Rightarrow> 'a race_end \<Rightarrow> thrown + 'a" where
  "withTimeout ms label (Race_settled outcome) = outcome"
| "withTimeout ms label Race_timer = Inl (Thrown_nip46 (timed_out ms label))"

section \<open>Text of a parsed value\<close>

text \<open>
  \<open>String(v)\<close> of a value that \<open>JSON.parse\<close> made; \<open>None\<close>: it throws. An object with a member
  \<open>toString\<close>, which cannot be a function, has no text.
\<close>

fun json_text :: "num_text \<Rightarrow> json \<Rightarrow> string option" where
  "json_text nt JNull = Some ''null''"
| "json_text nt (JBool b) = Some (if b then ''true'' else ''false'')"
| "json_text nt (JNum x) = Some (show_number nt x)"
| "json_text nt (JStr s) = Some s"
| "json_text nt (JArr xs) =
     (let ts = map (\<lambda>x. if x = JNull then Some [] else json_text nt x) xs in
      if None \<in> set ts then None else Some (js_join '','' (map the ts)))"
| "json_text nt (JObj ms) = (if ''toString'' \<in> fst ` set ms then None else Some ''[object Object]'')"

section \<open>Waiting for a signer\<close>

record pairing =
  pg_secret :: string
  pg_decrypt :: "string \<Rightarrow> string \<Rightarrow> string option"
  pg_onAuthUrl :: bool
  pg_num_text :: num_text

text \<open>\<open>W_threw\<close> is a throw in the callback of the timer, which nothing catches.\<close>

datatype wait_effect =
    W_closed
  | W_auth_url json
  | W_resolved string
  | W_rejected Nip46Error
  | W_threw

record waiting =
  wt_sawWrongSecret :: bool
  wt_declineReason :: "json option"
  wt_settled :: bool
  wt_timer :: bool
  wt_subscription :: bool
  wt_trace :: "wait_effect list"

definition wait_log :: "wait_effect \<Rightarrow> waiting \<Rightarrow> waiting" where
  "wait_log e w = w\<lparr>wt_trace := wt_trace w @ [e]\<rparr>"

definition wait_settle :: "wait_effect \<Rightarrow> waiting \<Rightarrow> waiting" where
  "wait_settle action w =
     (if wt_settled w then w
      else let w' = w\<lparr>wt_settled := True, wt_timer := False\<rparr> in
           wait_log action (if wt_subscription w' then wait_log W_closed w' else w'))"

text \<open>What an event says: a payload that is not \<open>null\<close>. Anything else throws and is dropped.\<close>

definition wait_payload :: "pairing \<Rightarrow> string \<Rightarrow> string \<Rightarrow> json option" where
  "wait_payload p pubkey content =
     (case Option.bind (pg_decrypt p pubkey content) json_parse of
        Some JNull \<Rightarrow> None
      | v \<Rightarrow> v)"

definition wait_event :: "pairing \<Rightarrow> string \<Rightarrow> string \<Rightarrow> waiting \<Rightarrow> waiting" where
  "wait_event p pubkey content w =
     (case wait_payload p pubkey content of
        None \<Rightarrow> w
      | Some payload \<Rightarrow>
          let result = member payload ''result''; error = member payload ''error'' in
          if result = Some (JStr (pg_secret p)) then wait_settle (W_resolved pubkey) w
          else if result = Some (JStr ''auth_url'') then
            (case error of
               Some url \<Rightarrow> if json_truthy url \<and> pg_onAuthUrl p then wait_log (W_auth_url url) w else w
             | None \<Rightarrow> w)
          else if result = None \<and> error \<noteq> None then
            (if wt_declineReason w = None \<and> error \<noteq> Some JNull then w\<lparr>wt_declineReason := error\<rparr> else w)
          else w\<lparr>wt_sawWrongSecret := True\<rparr>)"

definition wait_verdict :: "pairing \<Rightarrow> waiting \<Rightarrow> wait_effect" where
  "wait_verdict p w =
     (case wt_declineReason w of
        Some reason \<Rightarrow>
          (case json_text (pg_num_text p) reason of
             Some msg \<Rightarrow> W_rejected (nip46_error N46_DECLINED msg)
           | None \<Rightarrow> W_threw)
      | None \<Rightarrow>
          if wt_sawWrongSecret w
          then W_rejected (nip46_error N46_SECRET_MISMATCH
                 ''a signer answered the connection URI without the matching secret'')
          else W_rejected (nip46_error N46_TIMEOUT ''no signer answered the connection URI in time''))"

datatype wait_input = W_event string string | W_timer

primrec wait_step :: "pairing \<Rightarrow> wait_input \<Rightarrow> waiting \<Rightarrow> waiting" where
  "wait_step p (W_event pubkey content) w = wait_event p pubkey content w"
| "wait_step p W_timer w = (if wt_timer w then wait_settle (wait_verdict p w) w else w)"

definition no_answer_yet :: waiting where
  "no_answer_yet =
     \<lparr>wt_sawWrongSecret = False, wt_declineReason = None, wt_settled = False, wt_timer = False,
      wt_subscription = False, wt_trace = []\<rparr>"

text \<open>The pool may deliver \<open>early\<close> events from inside \<open>subscribe\<close>, before its handle exists.\<close>

definition waitForNostrConnect :: "pairing \<Rightarrow> (string \<times> string) list \<Rightarrow> waiting" where
  "waitForNostrConnect p early =
     (let w = (fold (\<lambda>(pubkey, content). wait_event p pubkey content) early no_answer_yet)\<lparr>wt_subscription := True\<rparr> in
      if wt_settled w then wait_log W_closed w else w\<lparr>wt_timer := True\<rparr>)"

end
