(* ===== verification/WebNip07.thy ===== *)
theory WebNip07
  imports WebStores Nip46Pairing
begin

text \<open>
  nap-client-web, the signer of a browser extension (\<open>nip07.ts\<close>) and which signers a page can
  offer (\<open>signerCapabilities.ts\<close>). The detection reacts to its interval, its deadline and to
  what the extension does to the window. A provider is any value; calls of it are ended by an
  answer, a throw or the timer. \<open>classifyError\<close> does not throw.
\<close>

section \<open>Errors\<close>

datatype Nip07ErrorCode = N07_NOT_AVAILABLE | N07_DECLINED | N07_TIMEOUT | N07_PROVIDER_ERROR

record Nip07Error =
  nx_code :: Nip07ErrorCode
  nx_message :: string

abbreviation nip07_error :: "Nip07ErrorCode \<Rightarrow> string \<Rightarrow> Nip07Error" where
  "nip07_error code msg \<equiv> \<lparr>nx_code = code, nx_message = msg\<rparr>"

text \<open>What was thrown: a \<open>Nip07Error\<close>, another \<open>Error\<close>, or a value as \<open>String(error ?? '')\<close>.\<close>

datatype nip07_thrown = Threw_nip07 Nip07Error | Threw_error string | Threw_value string

primrec nip07_message :: "nip07_thrown \<Rightarrow> string" where
  "nip07_message (Threw_nip07 e) = nx_message e"
| "nip07_message (Threw_error m) = m"
| "nip07_message (Threw_value m) = m"

definition nip07_declined_here :: "string \<Rightarrow> bool" where
  "nip07_declined_here s \<longleftrightarrow>
     list_ex (starts_with s) [''reject'', ''denied'', ''deny'', ''declin'', ''cancel'', ''refus'', ''unauthoriz'']
     \<or> starts_with s ''not'' \<and> 0 < lead_space js_spaces (drop 3 s)
       \<and> starts_with (trim_lead js_spaces (drop 3 s)) ''allowed''"

definition NIP07_DECLINED_PATTERN :: "string \<Rightarrow> bool" where
  "NIP07_DECLINED_PATTERN s \<longleftrightarrow> at_word nip07_declined_here False s"

type_synonym classify_error = "(nip07_thrown \<Rightarrow> Nip07ErrorCode option) option"

definition nip07_classify :: "nip07_thrown \<Rightarrow> classify_error \<Rightarrow> Nip07ErrorCode" where
  "nip07_classify error override =
     (case Option.bind override (\<lambda>f. f error) of
        Some code \<Rightarrow> code
      | None \<Rightarrow> if NIP07_DECLINED_PATTERN (nip07_message error) then N07_DECLINED else N07_PROVIDER_ERROR)"

section \<open>Detection\<close>

definition DEFAULT_DETECT_TIMEOUT_MS :: int where "DEFAULT_DETECT_TIMEOUT_MS = 1000"
definition DEFAULT_REQUEST_TIMEOUT_MS :: int where "DEFAULT_REQUEST_TIMEOUT_MS = 60000"

text \<open>
  \<open>window.nostr\<close>: a value with which of the two methods it has as functions. \<open>None\<close> for
  \<open>undefined\<close> and \<open>null\<close>.
\<close>

record 'p nostr_value =
  nv_value :: 'p
  nv_getPublicKey :: bool
  nv_signEvent :: bool

definition isProvider :: "'p nostr_value option \<Rightarrow> bool" where
  "isProvider v = (case v of None \<Rightarrow> False | Some p \<Rightarrow> nv_getPublicKey p \<and> nv_signEvent p)"

definition current_provider :: "'p nostr_value option \<Rightarrow> 'p option" where
  "current_provider v = (if isProvider v then map_option nv_value v else None)"

text \<open>\<open>dt_resolved\<close>: the promise's value, once there is one.\<close>

record 'p detection =
  dt_window :: "'p nostr_value option"
  dt_interval :: bool
  dt_deadline :: bool
  dt_resolved :: "'p option option"

definition detectNip07Provider :: "'p nostr_value option \<Rightarrow> 'p detection" where
  "detectNip07Provider window =
     (case current_provider window of
        Some p \<Rightarrow> \<lparr>dt_window = window, dt_interval = False, dt_deadline = False, dt_resolved = Some (Some p)\<rparr>
      | None \<Rightarrow> \<lparr>dt_window = window, dt_interval = True, dt_deadline = True, dt_resolved = None\<rparr>)"

definition detect_settle :: "'p option \<Rightarrow> 'p detection \<Rightarrow> 'p detection" where
  "detect_settle p d =
     d\<lparr>dt_interval := False, dt_deadline := False,
       dt_resolved := (case dt_resolved d of None \<Rightarrow> Some p | r \<Rightarrow> r)\<rparr>"

datatype 'p detect_input = Window_changed "'p nostr_value option" | Poll | Deadline

primrec detect_step :: "'p detect_input \<Rightarrow> 'p detection \<Rightarrow> 'p detection" where
  "detect_step (Window_changed v) d = d\<lparr>dt_window := v\<rparr>"
| "detect_step Poll d =
     (if \<not> dt_interval d then d
      else case current_provider (dt_window d) of None \<Rightarrow> d | Some p \<Rightarrow> detect_settle (Some p) d)"
| "detect_step Deadline d = (if dt_deadline d then detect_settle (current_provider (dt_window d)) d else d)"

section \<open>The signer\<close>

record Nip07SignerOptions =
  nz_requestTimeoutMs :: "int option"
  nz_classifyError :: classify_error

datatype 'a nip07_end = Ext_returned 'a | Ext_threw nip07_thrown | Ext_timer

definition nip07_timed_out :: "int \<Rightarrow> string \<Rightarrow> Nip07Error" where
  "nip07_timed_out ms label = nip07_error N07_TIMEOUT (label @ '' timed out after '' @ show_int ms @ ''ms'')"

definition nip07_withTimeout :: "int \<Rightarrow> string \<Rightarrow> 'a nip07_end \<Rightarrow> nip07_thrown + 'a" where
  "nip07_withTimeout ms label e =
     (case e of Ext_returned x \<Rightarrow> Inr x | Ext_threw err \<Rightarrow> Inl err | Ext_timer \<Rightarrow> Inl (Threw_nip07 (nip07_timed_out ms label)))"

definition nip07_call :: "Nip07SignerOptions \<Rightarrow> string \<Rightarrow> 'a nip07_end \<Rightarrow> Nip07Error + 'a" where
  "nip07_call opts label e =
     (case nip07_withTimeout (or_else (nz_requestTimeoutMs opts) DEFAULT_REQUEST_TIMEOUT_MS) label e of
        Inr x \<Rightarrow> Inr x
      | Inl (Threw_nip07 err) \<Rightarrow> Inl err
      | Inl err \<Rightarrow>
          Inl (nip07_error (nip07_classify err (nz_classifyError opts))
                 (if nip07_message err = [] then label @ '' failed'' else nip07_message err)))"

text \<open>\<open>npubEncode\<close> is outside the guarded call: its throw is passed on as it is.\<close>

definition nip07_getNpub ::
  "(string \<Rightarrow> nip07_thrown + string) \<Rightarrow> Nip07SignerOptions \<Rightarrow> string nip07_end \<Rightarrow> nip07_thrown + string" where
  "nip07_getNpub npubEncode opts e =
     (case nip07_call opts ''getPublicKey'' e of Inl err \<Rightarrow> Inl (Threw_nip07 err) | Inr pubkey \<Rightarrow> npubEncode pubkey)"

definition nip07_signEvent :: "Nip07SignerOptions \<Rightarrow> Nip98Event nip07_end \<Rightarrow> Nip07Error + Nip98Event" where
  "nip07_signEvent opts e = nip07_call opts ''signEvent'' e"

definition createNip07SignerFromWindow :: "'p option \<Rightarrow> Nip07Error + 'p" where
  "createNip07SignerFromWindow provider =
     (case provider of
        None \<Rightarrow> Inl (nip07_error N07_NOT_AVAILABLE ''No NIP-07 provider (window.nostr) is available'')
      | Some p \<Rightarrow> Inr p)"

section \<open>Capabilities\<close>

record SignerCapabilities =
  sa_nip07 :: bool
  sa_nip46 :: bool
  sa_localKey :: bool

definition getSignerCapabilities :: "'p option \<Rightarrow> bool option \<Rightarrow> bool \<Rightarrow> SignerCapabilities" where
  "getSignerCapabilities detected nip46 keyStore =
     \<lparr>sa_nip07 = (detected \<noteq> None), sa_nip46 = or_else nip46 False, sa_localKey = keyStore\<rparr>"

section \<open>Facts\<close>

text \<open>
  The detection has one answer: it never changes, it is a provider that was in the window when
  it was found, and after the deadline it is there.
\<close>

lemma detect_resolved_final: "dt_resolved d = Some r \<Longrightarrow> dt_resolved (detect_step i d) = Some r"
  by (cases i) (auto simp: detect_settle_def split: option.split)

lemma detection_final: "dt_resolved d = Some r \<Longrightarrow> dt_resolved (reacts detect_step inputs d) = Some r"
  by (induction inputs arbitrary: d) (simp_all add: detect_resolved_final)

definition detect_ok :: "'p detection \<Rightarrow> bool" where
  "detect_ok d \<longleftrightarrow> (dt_resolved d = None \<longleftrightarrow> dt_deadline d) \<and> (dt_interval d \<longleftrightarrow> dt_deadline d)"

lemma detect_ok_start: "detect_ok (detectNip07Provider v)"
  by (simp add: detect_ok_def detectNip07Provider_def split: option.split)

lemma detect_ok_step: "detect_ok d \<Longrightarrow> detect_ok (detect_step i d)"
  by (cases i) (auto simp: detect_ok_def detect_settle_def split: option.split)

theorem detection_ends:
  "Deadline \<in> set inputs \<Longrightarrow> dt_resolved (reacts detect_step inputs (detectNip07Provider v)) \<noteq> None"
proof -
  have "Deadline \<in> set inputs \<Longrightarrow> detect_ok d \<Longrightarrow> dt_resolved (reacts detect_step inputs d) \<noteq> None" for d :: "'a detection"
  proof (induction inputs arbitrary: d)
    case (Cons i inputs)
    show ?case
    proof (cases "i = Deadline")
      case True
      then have "dt_resolved (detect_step i d) \<noteq> None"
        using Cons.prems(2) by (auto simp: detect_ok_def detect_settle_def split: option.split)
      then show ?thesis using detection_final by (cases "dt_resolved (detect_step i d)") force+
    next
      case False
      then show ?thesis using Cons detect_ok_step by auto
    qed
  qed simp
  then show "Deadline \<in> set inputs \<Longrightarrow> dt_resolved (reacts detect_step inputs (detectNip07Provider v)) \<noteq> None"
    using detect_ok_start by blast
qed

text \<open>An answer is a provider of the window at some moment, or \<open>null\<close> after the deadline.\<close>

theorem detected_was_there:
  "dt_resolved (reacts detect_step inputs (detectNip07Provider v)) = Some (Some p) \<Longrightarrow>
     \<exists>w. (w = v \<or> Window_changed w \<in> set inputs) \<and> current_provider w = Some p"
proof -
  have "dt_resolved (reacts detect_step inputs d) = Some (Some p) \<Longrightarrow>
      dt_resolved d = Some (Some p) \<or> (\<exists>w. (w = dt_window d \<or> Window_changed w \<in> set inputs) \<and> current_provider w = Some p)"
    for d
  proof (induction inputs arbitrary: d)
    case (Cons i inputs)
    have "dt_resolved (detect_step i d) = Some (Some p) \<Longrightarrow>
        dt_resolved d = Some (Some p) \<or> current_provider (dt_window d) = Some p"
      by (cases i) (auto simp: detect_settle_def split: option.splits if_splits)
    moreover have "dt_window (detect_step i d) = dt_window d \<or> i = Window_changed (dt_window (detect_step i d))"
      by (cases i) (auto simp: detect_settle_def split: option.split)
    moreover have "dt_resolved (reacts detect_step inputs (detect_step i d)) = Some (Some p)" using Cons.prems by simp
    ultimately show ?case using Cons.IH [of "detect_step i d"] by (metis list.set_intros)
  qed simp
  from this [of "detectNip07Provider v"]
  show "dt_resolved (reacts detect_step inputs (detectNip07Provider v)) = Some (Some p) \<Longrightarrow>
     \<exists>w. (w = v \<or> Window_changed w \<in> set inputs) \<and> current_provider w = Some p"
    by (auto simp: detectNip07Provider_def split: option.splits)
qed

end
