(* ===== verification/WebProperties.thy ===== *)
theory WebProperties
  imports WebScenario WebStoreFacts WebNip07
begin

text \<open>
  The properties of the browser client: the signer page that another origin opens, the wire
  between the two, the session of a tab under locks, logouts and changes of identity, and the
  stores it is unlocked from.
\<close>

section \<open>The signer page\<close>

text \<open>What it means that an event left the page, written out.\<close>

lemma signed_for_out:
  assumes "signed_for m tr origin ev"
  shows "\<exists>c g t. policy_allows m origin (cq_kinds c) (cq_audiences c) \<and> cq_origin c = origin
     \<and> consented tr c (ev_pubkey ev) \<and> (truthy_str (cq_expected c) \<longrightarrow> cq_expected c = Some (ev_pubkey ev))
     \<and> Posted origin (M_connected (cq_id c) g) \<in> set tr \<and> gi_pubkey g = ev_pubkey ev
     \<and> gi_kinds g = cq_kinds c \<and> gi_audiences g = cq_audiences c
     \<and> et_kind (event_template ev) \<in> set (gi_kinds g)
     \<and> (\<exists>a\<in>set (gi_audiences g). audienceOf (sn_url (mt_options m)) (event_template ev) = Some a)
     \<and> Called t (Call_signEvent (gi_grantId g) (event_template ev)) \<in> set tr
     \<and> Settled t (Returned_event ev) \<in> set tr
     \<and> (sn_onSign (mt_options m) \<longrightarrow>
          (\<exists>u r. Called u (Call_onSign \<lparr>si_origin = origin, si_grant = g, si_template = event_template ev, si_reason = r\<rparr>) \<in> set tr
             \<and> Settled u (Returned_bool True) \<in> set tr))"
proof -
  obtain q t where q: "sign_ok m tr q" "lg_origin (sq_grant q) = origin" "sq_template q = event_template ev"
    "ev_pubkey ev = gi_pubkey (sq_grant q)" "Called t (Call_signEvent (gi_grantId (sq_grant q)) (sq_template q)) \<in> set tr"
    "Settled t (Returned_event ev) \<in> set tr" "sn_onSign (mt_options m) \<longrightarrow> prompt_approved tr q"
    using assms by (auto simp: signed_for_def)
  let ?g = "GrantInfo.truncate (sq_grant q)"
  obtain c where c: "request_ok m c" "consented tr c (ev_pubkey ev)"
    "truthy_str (cq_expected c) \<longrightarrow> cq_expected c = Some (ev_pubkey ev)" "cq_origin c = origin"
    "gi_kinds (sq_grant q) = cq_kinds c" "gi_audiences (sq_grant q) = cq_audiences c"
    "Posted origin (M_connected (cq_id c) ?g) \<in> set tr"
    using q(1,2,4) by (auto simp: sign_ok_def grant_made_def)
  have g: "gi_pubkey ?g = ev_pubkey ev" "gi_kinds ?g = cq_kinds c" "gi_audiences ?g = cq_audiences c"
    "gi_grantId ?g = gi_grantId (sq_grant q)"
    using q(4) c by (simp_all add: GrantInfo.truncate_def)
  have "policy_allows m origin (cq_kinds c) (cq_audiences c)" using c(1,4) by (simp add: request_ok_def)
  moreover have "et_kind (event_template ev) \<in> set (gi_kinds ?g)"
    "\<exists>a\<in>set (gi_audiences ?g). audienceOf (sn_url (mt_options m)) (event_template ev) = Some a"
    using q(1,3) by (auto simp: sign_ok_def in_grant_def GrantInfo.truncate_def)
  moreover have "sn_onSign (mt_options m) \<longrightarrow>
      (\<exists>u r. Called u (Call_onSign \<lparr>si_origin = origin, si_grant = ?g, si_template = event_template ev, si_reason = r\<rparr>) \<in> set tr
        \<and> Settled u (Returned_bool True) \<in> set tr)"
    using q(2,3,7) unfolding prompt_approved_def sign_prompt_def by auto
  ultimately show ?thesis using q(3,5,6) c g by (intro exI [of _ c] exI [of _ ?g] exI [of _ t]) simp
qed

text \<open>
  C10. Every event a signer page hands to another origin was signed for that origin: the policy
  allows the origin its kinds and audiences, the user agreed to that very request for that
  very key (now or remembered), the relying page was told of the grant, the event's kind and
  the audience of its single u tag are in the grant, the signer was asked for exactly this
  event and answered with it, and a configured prompt was approved.
\<close>

theorem signer_page_safe:
  assumes "mountCrossOriginSigner opts now = Inr (Some (m, p0))" and "p = reacts (page_step m) inputs p0"
    and "Posted origin (M_signed i ev) \<in> set (pg_trace p)"
  shows "\<exists>c g t. policy_allows m origin (cq_kinds c) (cq_audiences c) \<and> cq_origin c = origin
     \<and> consented (pg_trace p) c (ev_pubkey ev)
     \<and> (truthy_str (cq_expected c) \<longrightarrow> cq_expected c = Some (ev_pubkey ev))
     \<and> Posted origin (M_connected (cq_id c) g) \<in> set (pg_trace p) \<and> gi_pubkey g = ev_pubkey ev
     \<and> gi_kinds g = cq_kinds c \<and> gi_audiences g = cq_audiences c
     \<and> et_kind (event_template ev) \<in> set (gi_kinds g)
     \<and> (\<exists>a\<in>set (gi_audiences g). audienceOf (sn_url (mt_options m)) (event_template ev) = Some a)
     \<and> Called t (Call_signEvent (gi_grantId g) (event_template ev)) \<in> set (pg_trace p)
     \<and> Settled t (Returned_event ev) \<in> set (pg_trace p)
     \<and> (sn_onSign (mt_options m) \<longrightarrow>
          (\<exists>u r. Called u (Call_onSign \<lparr>si_origin = origin, si_grant = g, si_template = event_template ev, si_reason = r\<rparr>)
                   \<in> set (pg_trace p)
             \<and> Settled u (Returned_bool True) \<in> set (pg_trace p)))"
proof -
  have "page_inv m p" using page_run_inv [OF mount_inv [OF assms(1)]] assms(2) by simp
  then have "effect_ok m (pg_trace p) (Posted origin (M_signed i ev))"
    using assms(3) unfolding page_inv_def by blast
  then have "signed_for m (pg_trace p) origin ev" by (simp add: effect_ok_def)
  then show ?thesis by (rule signed_for_out)
qed

theorem signer_page_safe_witness:
  "\<exists>(c :: connect_request) g. cq_origin c = sg_shop \<and> gi_pubkey g = sg_key
     \<and> Posted sg_shop (M_connected (cq_id c) g) \<in> set (pg_trace sg_done)"
proof -
  have run: "sg_done = reacts (page_step sg_mounted) (sg_connecting @ [sg_sign, sg_signed]) sg_start"
    by (simp only: reacts_append sg_done_def sg_page_def)
  have key: "ev_pubkey sg_event = sg_key" by (simp add: sg_event_def)
  show ?thesis using signer_page_safe [OF sg_mount run sg_done_posted] unfolding key by blast
qed

theorem policy_origins_only:
  assumes "mountCrossOriginSigner opts now = Inr (Some (m, p0))"
    and "Posted origin msg \<in> set (pg_trace (reacts (page_step m) inputs p0))"
  shows "jm_get (mt_policy m) origin \<noteq> None
     \<and> (\<exists>x\<in>set (sn_policy opts). normalizeOrigin (sn_url opts) (fst x) = Inr origin)"
proof -
  have "page_inv m (reacts (page_step m) inputs p0)" by (rule page_run_inv [OF mount_inv [OF assms(1)]])
  then have "jm_get (mt_policy m) origin \<noteq> None" using assms(2) by (auto simp: page_inv_def effect_ok_def)
  then show ?thesis using mounted_origins [OF assms(1)] by blast
qed

theorem policy_origins_only_witness: "jm_get (mt_policy sg_mounted) sg_shop \<noteq> None"
proof -
  have "sg_done = reacts (page_step sg_mounted) (sg_connecting @ [sg_sign, sg_signed]) sg_start"
    by (simp only: reacts_append sg_done_def sg_page_def)
  then show ?thesis using policy_origins_only [OF sg_mount] sg_done_posted by metis
qed

text \<open>
  C11. A lock, logout, shutdown or change of identity on the session channel ends every grant of
  the signer page at once; whatever comes after, answers of the signer to requests already
  under way included, no signed event leaves the page until a new connection is granted.
\<close>

theorem locked_wallet_signs_nothing:
  assumes "mountCrossOriginSigner opts now = Inr (Some (m, p0))" and "sn_sessionBus opts"
    and "p = reacts (page_step m) before p0" and "\<not> pg_closed p" and "ends_session type"
    and "q = page_step m (Session_message type) p" and "q' = reacts (page_step m) later q"
    and "\<forall>o' i g. Posted o' (M_connected i g) \<notin> set (since pg_trace q q')"
  shows "pg_grants q = [] \<and> (\<forall>o' i ev. Posted o' (M_signed i ev) \<notin> set (since pg_trace q q'))"
proof -
  have "q = page_revokeAll p" using assms(2,4-6) mounted_policy [OF assms(1)] by simp
  then have g: "pg_grants q = []"
    using revokeAll_empties [OF page_run_inv [OF mount_inv [OF assms(1)]]] assms(3) by simp
  have "\<not> is_connected e" if "e \<in> set (since pg_trace q q')" for e
    using assms(8) that by (cases rule: is_connected.cases [of e]) auto
  then have "\<forall>e\<in>set (since pg_trace q q'). \<not> is_signed e"
    using calm_run [OF g, of m later] assms(7) by simp
  then show ?thesis using g by auto
qed

theorem locked_wallet_signs_nothing_witness:
  "sg_grant \<in> snd ` set (pg_grants sg_page) \<and> pg_grants (page_step sg_mounted (Session_message ''lock'') sg_page) = []"
proof -
  have "sn_sessionBus sg_options" "ends_session ''lock''" by (simp_all add: ends_session_def)
  moreover have "\<forall>o' i g. Posted o' (M_connected i g) \<notin> set (since pg_trace q (reacts (page_step sg_mounted) [] q))" for q
    by (simp add: since_def)
  ultimately have "pg_grants (page_step sg_mounted (Session_message ''lock'') sg_page) = []"
    using locked_wallet_signs_nothing [OF sg_mount _ sg_page_def sg_page_sel(4)] by blast
  then show ?thesis by (simp add: sg_page_sel)
qed

text \<open>
  C32. On a signer page without a prompt for signatures, the signer is asked for at most one
  completion proof under each grant, in every order of messages and answers, as long as the
  random grant ids differ.
\<close>

theorem one_completion_per_consent:
  assumes "mountCrossOriginSigner opts now = Inr (Some (m, p0))" and "\<not> sn_onSign opts"
    and "p = reacts (page_step m) inputs p0" and "distinct_ids m (pg_drawn p)"
  shows "length (filter (\<lambda>e. \<exists>t tmpl. e = Called t (Call_signEvent grantId tmpl) \<and> is_completion tmpl) (pg_trace p)) \<le> 1"
proof -
  have "claim_inv m p"
    using claim_run [OF claim_mounted [OF assms(1)], of inputs] assms(2-4) mounted_policy [OF assms(1)] by simp
  then have "completions grantId p \<le> 1" using claim_invD(4) [of m p grantId] by auto
  then show ?thesis unfolding completions_def completion_of_fun .
qed

theorem one_completion_per_consent_witness:
  "completions ''00'' sg_done = 1"
proof -
  have "sg_done = reacts (page_step sg_mounted) (sg_connecting @ [sg_sign, sg_signed]) sg_start"
    by (simp only: reacts_append sg_done_def sg_page_def)
  from one_completion_per_consent [OF sg_mount _ this, of "''00''"]
  have "completions ''00'' sg_done \<le> 1"
    unfolding completions_def completion_of_fun sg_done_count(1) by (simp add: distinct_ids_def lessThan_Suc)
  then show ?thesis using sg_done_count(2) by simp
qed

theorem grant_lifetime_bounded:
  assumes "mountCrossOriginSigner opts now = Inr (Some (m, p0))" and "p = reacts (page_step m) inputs p0"
    and "e \<in> set (since pg_trace p (page_step m i p))"
  shows "(\<forall>o' j g. e = Posted o' (M_connected j g) \<longrightarrow>
            of_int (pg_now p) < gi_expiresAt g \<and> gi_expiresAt g \<le> of_int (pg_now p) + 900)
     \<and> (\<forall>t s. e = Called t (Call_onSign s) \<longrightarrow> of_int (pg_now p) < gi_expiresAt (si_grant s))
     \<and> (\<forall>t grantId tmpl. e = Called t (Call_signEvent grantId tmpl) \<and> (\<forall>u a. i \<noteq> Answered u a) \<longrightarrow>
          (\<exists>g. jm_get (pg_grants p) grantId = Some g \<and> of_int (pg_now p) < gi_expiresAt g))"
proof -
  have "page_inv m p" using page_run_inv [OF mount_inv [OF assms(1)]] assms(2) by simp
  then have "grants_ok m (pg_trace p) (pg_grants p)" by (simp add: page_inv_def)
  then have "timely p i e" by (rule emits_since [OF timely_step [OF assms(1)] assms(3)])
  then show ?thesis by (auto simp: timely_def split: page_input.splits)
qed

theorem grant_lifetime_bounded_witness:
  "Posted sg_shop (M_connected ''00'' (GrantInfo.truncate sg_grant)) \<in> set (since pg_trace sg_asked sg_page)
     \<and> gi_expiresAt sg_grant \<le> 1900"
proof -
  have p: "sg_page = page_step sg_mounted (Answered 4 Returned) sg_asked"
    by (simp add: sg_page_def sg_connecting_def reacts_append sg_asked_def)
  have e: "Posted sg_shop (M_connected ''00'' (GrantInfo.truncate sg_grant)) \<in> set (since pg_trace sg_asked sg_page)"
    by (simp add: since_def sg_page_eq give_grant_def reply_def page_log_def page_changed_def sg_request_def)
  from grant_lifetime_bounded [OF sg_mount sg_asked_def e [unfolded p]]
  show ?thesis using e by (simp add: sg_asked_sel GrantInfo.truncate_def)
qed

section \<open>The page that asks\<close>

text \<open>
  C13. Whatever the signer's window sends, an event that signEvent returns carries a valid
  signature by the key of the one grant that was accepted, is exactly the template of that
  call, which was sent to the key origin under that grant, and the grant was within the
  kinds, the audiences and the identity that were asked for.
\<close>

theorem relying_signature_checked:
  assumes "connectCrossOrigin opts now = Inr (r, s0)" and "s = reacts (xc_step r) inputs s0"
    and "X_signed n ev \<in> set (rl_trace s)"
  shows "\<exists>g i. X_connected g \<in> set (rl_trace s)
     \<and> set (gi_kinds g) \<subseteq> set (xo_kinds opts) \<and> set (gi_audiences g) \<subseteq> set (xr_audiences r)
     \<and> ev_pubkey ev = gi_pubkey g
     \<and> (truthy_str (xo_expectedPubkey opts) \<longrightarrow> xo_expectedPubkey opts = Some (ev_pubkey ev))
     \<and> X_called n (event_template ev) \<in> set (rl_trace s)
     \<and> X_posted (xr_keyOrigin r) (M_sign i (gi_grantId g) (event_template ev)) \<in> set (rl_trace s)
     \<and> xo_verifyEvent opts ev"
proof -
  have "xr_options r = opts" using connected_parts [OF assms(1)] by simp
  moreover have "xc_inv r s" using xc_run_inv [OF xc_created_inv [OF assms(1)]] assms(2) by simp
  then have "event_ok r (rl_trace s) n ev" using assms(3) by (simp add: xc_inv_def)
  ultimately show ?thesis unfolding event_ok_def xc_granted_def by auto
qed

theorem relying_signature_checked_witness:
  "X_called 1 (event_template sg_event) \<in> set (rl_trace xs_signed)"
proof -
  have "X_signed 1 sg_event \<in> set (rl_trace xs_signed)" by (simp add: xs_signed_trace)
  then show ?thesis using relying_signature_checked [OF xs_connect xs_signed_def] by blast
qed

text \<open>
  C23. A cross-origin grant that has ended, for whatever reason, stays ended for that reason:
  nothing is posted, connected or signed after it, in any order of messages, timers and
  calls.
\<close>

theorem ended_grant_final:
  assumes "connectCrossOrigin opts now = Inr (r, s0)" and "s = reacts (xc_step r) before s0"
    and "rl_ended s = Some code" and "s' = reacts (xc_step r) later s"
  shows "rl_ended s' = Some code \<and> \<not> xc_isActive s'
     \<and> (\<forall>e\<in>set (since rl_trace s s'). (\<forall>o' msg. e \<noteq> X_posted o' msg) \<and> (\<forall>g. e \<noteq> X_connected g) \<and> (\<forall>n ev. e \<noteq> X_signed n ev))"
proof -
  have "rl_queue s0 = []" using connected_parts [OF assms(1)] by (auto simp: opened_page_def)
  then have "grant_over s" using run_queue assms(2,3) by (simp add: grant_over_def)
  then have p: "idle s s'" using ended_run assms(4) by blast
  then obtain new where new: "rl_trace s' = rl_trace s @ new" "\<forall>e\<in>set new. \<not> active_effect e" by (auto simp: idle_def)
  have e: "(\<forall>o' msg. e \<noteq> X_posted o' msg) \<and> (\<forall>g. e \<noteq> X_connected g) \<and> (\<forall>n ev. e \<noteq> X_signed n ev)"
    if "e \<in> set new" for e
    using new(2) that by (cases e) auto
  show ?thesis
    using p assms(3) e unfolding since_append [where trace = rl_trace, OF new(1)] idle_def xc_isActive_def by auto
qed

theorem ended_grant_final_witness:
  "rl_ended (reacts (xc_step xs_relying) [I_signEvent sg_template] (xc_step xs_relying I_disconnect xs_waiting)) = Some REVOKED"
proof -
  have run: "xc_step xs_relying I_disconnect xs_waiting = reacts (xc_step xs_relying) (xs_inputs @ [I_disconnect]) xs_start"
    by (simp add: xs_waiting_def reacts_append)
  have "rl_ended (xc_step xs_relying I_disconnect xs_waiting) = Some REVOKED"
    by (simp add: xs_waiting_eq relying_defs xs_start_def opened_page_def xc_disconnect_def xc_end_def)
  from ended_grant_final [OF xs_connect run this refl] show ?thesis by blast
qed

text \<open>
  C29. Every call of signEvent is made once and answered exactly once, or still waits, not
  answered, with an armed timer whose firing refuses it with TIMEOUT.
\<close>

theorem sign_call_settles:
  assumes "connectCrossOrigin opts now = Inr (r, s0)" and "s = reacts (xc_step r) inputs s0"
    and "X_called n tmpl \<in> set (rl_trace s)"
  shows "length (filter (calls n) (rl_trace s)) = 1
     \<and> (length (filter (answers n) (rl_trace s)) = 1
        \<or> length (filter (answers n) (rl_trace s)) = 0
          \<and> since rl_trace s (xc_step r (I_request_timer n) s) = [X_refused n TIMEOUT])"
proof -
  have start: "rl_queue s0 = []" "armed [] s0"
    using connected_parts [OF assms(1)] by (auto simp: opened_page_def armed_def)
  then have q: "rl_queue s = []" "armed [] s" using run_queue armed_run assms(2) by blast+
  have "call_inv s" using call_inv_run [OF call_inv_created [OF assms(1)]] assms(2) by blast
  then have "call_ok (counted (calls n) s) (counted (answers n) s) (opens n s) (rl_next s \<le> n)"
    unfolding call_inv_def by blast
  then have c: "counted (calls n) s = counted (answers n) s + opens n s" "counted (calls n) s \<le> 1"
    unfolding call_ok_def by blast+
  have "filter (calls n) (rl_trace s) \<noteq> []"
    using assms(3) unfolding filter_empty_conv by (metis calls.simps(1))
  then have one: "counted (calls n) s = 1" using c(2) by (simp add: counted_def le_Suc_eq)
  show ?thesis
  proof (cases "opens n s")
    case 0
    then show ?thesis using one c(1) by (simp add: counted_def)
  next
    case (Suc k)
    then obtain t where "jm_get (rl_open s) n = Some (Req_sign t)"
      by (auto simp: opens_def split: option.splits relying_request.splits)
    then have "since rl_trace s (xc_step r (I_request_timer n) s) = [X_refused n TIMEOUT]"
      using timer_refuses [OF _ q(2,1)] by (intro since_append) blast
    then show ?thesis using one c(1) Suc by (simp add: counted_def)
  qed
qed

theorem sign_call_settles_witness:
  "since rl_trace xs_waiting (xc_step xs_relying (I_request_timer 1) xs_waiting) = [X_refused 1 TIMEOUT]"
proof -
  have called: "X_called 1 sg_template \<in> set (rl_trace xs_waiting)" by (simp add: xs_waiting_eq)
  have "filter (answers 1) (rl_trace xs_waiting) = []" by (simp add: xs_waiting_eq xs_start_def opened_page_def)
  then show ?thesis using sign_call_settles [OF xs_connect xs_waiting_def called] by simp
qed

text \<open>
  C12. From the relying page to the wallet: when what the relying page receives from the wallet's
  window and origin is what a signer page of this model posted to it, in any order and any
  number of times, every event its signer returns is the one that call asked for, validly
  signed, and the wallet's user agreed to a connection of this origin for this key, kind and
  audience, and the wallet's own signer made the event.
\<close>

theorem cross_origin_end_to_end:
  assumes "mountCrossOriginSigner opts now = Inr (Some (m, p0))" and "p = reacts (page_step m) page_inputs p0"
    and "connectCrossOrigin ropts rnow = Inr (r, s0)" and "s = reacts (xc_step r) inputs s0"
    and "\<forall>data. I_message (xr_popup r) (xr_keyOrigin r) data \<in> set inputs \<longrightarrow>
           (\<exists>msg. data = message_json msg \<and> Posted origin msg \<in> set (pg_trace p))"
    and "X_signed n ev \<in> set (rl_trace s)"
  shows "X_called n (event_template ev) \<in> set (rl_trace s) \<and> xo_verifyEvent ropts ev
     \<and> (\<exists>c t. policy_allows m origin (cq_kinds c) (cq_audiences c) \<and> cq_origin c = origin
          \<and> consented (pg_trace p) c (ev_pubkey ev) \<and> et_kind (event_template ev) \<in> set (cq_kinds c)
          \<and> (\<exists>a\<in>set (cq_audiences c). audienceOf (sn_url opts) (event_template ev) = Some a)
          \<and> Settled t (Returned_event ev) \<in> set (pg_trace p))"
proof -
  have start: "rl_queue s0 = []" "\<exists>url. rl_trace s0 = [X_opened url]"
    using connected_parts [OF assms(3)] by (auto simp: opened_page_def)
  have "X_signed n ev \<in> set (since rl_trace s0 s)"
    using assms(6) start(2) xc.trace_since [of r inputs s0] unfolding assms(4) [symmetric] by auto
  then obtain i data where in': "I_message (xr_popup r) (xr_keyOrigin r) data \<in> set inputs"
    and read: "parseMessage data = Some (M_signed i ev)"
    using run_sources [OF start(1)] assms(4) by blast
  obtain msg where msg: "data = message_json msg" "Posted origin msg \<in> set (pg_trace p)" using assms(5) in' by blast
  then have "Posted origin (M_signed i ev) \<in> set (pg_trace p)" using posted_read [of msg] read by blast
  moreover have "page_inv m p" using page_run_inv [OF mount_inv [OF assms(1)]] assms(2) by simp
  ultimately have "signed_for m (pg_trace p) origin ev" by (auto simp: page_inv_def effect_ok_def)
  from signed_for_out [OF this] obtain c :: connect_request and g :: GrantInfo and t where c: "policy_allows m origin (cq_kinds c) (cq_audiences c)" "cq_origin c = origin"
    "consented (pg_trace p) c (ev_pubkey ev)" "gi_kinds g = cq_kinds c" "gi_audiences g = cq_audiences c"
    "et_kind (event_template ev) \<in> set (gi_kinds g)"
    "\<exists>a\<in>set (gi_audiences g). audienceOf (sn_url (mt_options m)) (event_template ev) = Some a"
    "Settled t (Returned_event ev) \<in> set (pg_trace p)"
    by blast
  have "xc_inv r s" using xc_run_inv [OF xc_created_inv [OF assms(3)]] assms(4) by simp
  then have "event_ok r (rl_trace s) n ev" using assms(6) by (simp add: xc_inv_def)
  then have "X_called n (event_template ev) \<in> set (rl_trace s)" "xo_verifyEvent ropts ev"
    using connected_parts [OF assms(3)] by (auto simp: event_ok_def)
  then show ?thesis using c mounted_policy [OF assms(1)] by (intro conjI exI [of _ c] exI [of _ t]) simp_all
qed

theorem cross_origin_end_to_end_witness:
  "\<exists>(c :: connect_request) t. cq_origin c = sg_shop \<and> Settled t (Returned_event sg_event) \<in> set (pg_trace sg_done)"
proof -
  have page: "sg_done = reacts (page_step sg_mounted) (sg_connecting @ [sg_sign, sg_signed]) sg_start"
    by (simp only: reacts_append sg_done_def sg_page_def)
  have signed: "X_signed 1 sg_event \<in> set (rl_trace xs_signed)" by (simp add: xs_signed_trace)
  have "\<forall>data. I_message (xr_popup xs_relying) (xr_keyOrigin xs_relying) data
        \<in> set (xs_inputs @ [xs_from_wallet (M_signed ''01'' sg_event)]) \<longrightarrow>
      (\<exists>msg. data = message_json msg \<and> Posted sg_shop msg \<in> set (pg_trace sg_done))"
    using sg_done_all by (auto simp: xs_inputs_def xs_from_wallet_def simp del: message_json.simps)
  from cross_origin_end_to_end [OF sg_mount page xs_connect xs_signed_def this signed] show ?thesis by blast
qed

section \<open>The wire\<close>

theorem web_message_round_trip:
  assumes "parseMessage v = Some msg"
  shows "parseMessage (message_json msg) = Some msg"
  using parsed_ok [OF assms] by (rule message_read)

theorem web_message_round_trip_witness:
  "parseMessage (message_json (M_sign ''01'' ''00'' sg_template)) = Some (M_sign ''01'' ''00'' sg_template)"
  by (rule web_message_round_trip [OF message_read [OF sg_wire(2)]])

section \<open>The session of a tab\<close>

theorem session_identity_kept:
  assumes "createNapSession o' key now = Some s0" and "s = reacts (tab_step o') inputs s0"
    and "ts_session s = Some x" and "ts_session (tab_step o' i s) = Some y"
    and "\<forall>t a c v. i = Answer t a \<longrightarrow> jm_get (ts_tasks s) t \<noteq> Some (T_session c v)"
  shows "ss_pubkey y = ss_pubkey x"
  using identity_step [OF assms(3,4)] assms(5) by blast

theorem session_identity_kept_witness:
  "\<exists>y. ts_session (tab_step tb_options Lock tb_live) = Some y \<and> ss_pubkey y = ss_pubkey (toSessionState tb_response)"
  using session_identity_kept [OF tb_created tb_live_def tb_live_sel(1), of Lock] tb_locked_sel(2)
  by (simp add: tb_locked_def)

text \<open>
  C14. In a tab whose signer holds the key, a step that runs the callback of a lock, a shutdown,
  a logout or a change of identity leaves no key in the page, in whatever state and by
  whatever way it came.
\<close>

theorem lock_takes_key:
  assumes "createNapSession o' key now = Some s0" and "co_evictable o'"
    and "s = reacts (tab_step o') inputs s0" and "e \<in> set (since ts_trace s (tab_step o' i s))"
    and "e = E_onLock \<or> e = E_onShutdown \<or> e = E_onLogout \<or> (\<exists>d. e = E_onIdentityChanged d)"
  shows "\<not> ts_key (tab_step o' i s)"
proof -
  obtain new where new: "ts_trace (tab_step o' i s) = ts_trace s @ new"
    using tab_step_extends [of s o' i] by (auto simp: tab_extends_def)
  have "e \<in> set new" using assms(4) by (simp add: since_append [where trace = ts_trace, OF new])
  moreover have "ends_key e" using assms(5) by auto
  ultimately have "filter ends_key new \<noteq> []" by (auto simp: filter_empty_conv)
  then show ?thesis using key_ended_step [OF assms(2), of s i] by (auto simp: key_ended_def new)
qed

theorem lock_takes_key_witness: "ts_key tb_live \<and> \<not> ts_key tb_locked"
proof -
  have "E_onLock \<in> set (since ts_trace tb_live (tab_step tb_options Lock tb_live))"
    by (simp add: publishLock_def hasSession_def tb_live_sel publish_last_def publish_throws_def publish_def since_def)
  then have "\<not> ts_key (tab_step tb_options Lock tb_live)"
    using lock_takes_key [OF tb_created tb_evictable tb_live_def] by blast
  then show ?thesis by (simp add: tb_live_sel tb_locked_def)
qed

text \<open>
  C15. A locked tab with no authentication or reunlock under way stays locked, without a key, and
  asks its signer for no signature until the stored key is read, an unlock, a logout or a
  change of identity; the signer's name it asks only for a resume that verifies the
  identity, one under way or called in the meantime.
\<close>

theorem locked_tab_signs_nothing:
  assumes "createNapSession o' key now = Some s0" and "s = reacts (tab_step o') before s0" and "ts_locked s"
    and "\<forall>(t, k)\<in>set (ts_tasks s). \<not> in_flight k" and "s' = reacts (tab_step o') later s"
    and "\<forall>e\<in>set (since ts_trace s s'). \<not> way_out e"
  shows "ts_locked s' \<and> \<not> ts_key s' \<and> (\<forall>t tmpl. E_signEvent t tmpl \<notin> set (since ts_trace s s'))
     \<and> ((\<forall>(t, k)\<in>set (ts_tasks s). \<not> verifying k) \<longrightarrow> Resume True \<notin> set later \<longrightarrow>
          (\<forall>t. E_getNpub t \<notin> set (since ts_trace s s')))"
proof -
  have l: "locked_up o' s"
    using tab_run_inv [OF created_inv [OF assms(1)]] assms(2-4) by (auto simp: locked_up_def list_all_iff)
  from locked_run [OF this] have "locked_up o' s'" "\<forall>e\<in>set (since ts_trace s s'). \<not> asks_signature e"
    using assms(5,6) by blast+
  moreover obtain new where new: "ts_trace s' = ts_trace s @ new"
    using nap_tab.run_appends assms(5) by blast
  have "\<forall>t. E_getNpub t \<notin> set new" if "\<forall>(t, k)\<in>set (ts_tasks s). \<not> verifying k" "Resume True \<notin> set later"
  proof -
    have "filter asks_name (ts_trace s') = filter asks_name (ts_trace s)"
      using unnamed_run [OF l _ that(2)] that(1) assms(5,6) by (auto simp: list_all_iff)
    then have "filter asks_name new = []" by (simp add: new)
    then show ?thesis by (auto simp: filter_empty_conv)
  qed
  ultimately show ?thesis
    by (auto simp: locked_up_def tab_inv_def since_append [where trace = ts_trace, OF new])
qed

theorem locked_tab_signs_nothing_witness:
  "ts_locked (reacts (tab_step tb_options) [Login, Activity, StepUp] tb_locked)"
proof -
  let ?s = "reacts (tab_step tb_options) [Login, Activity, StepUp] tb_locked"
  have "\<forall>e\<in>set (since ts_trace tb_locked ?s). \<not> way_out e"
    by (simp add: authenticate_def holder_hasKey_def tb_locked_nokey tb_evictable reject_def since_def)
  then show ?thesis
    using locked_tab_signs_nothing [OF tb_created tb_locked_run tb_locked_sel(1) _ refl] tb_locked_sel(3)
    by (simp del: reacts_simps)
qed

theorem preference_cleared_only:
  assumes "createNapSession o' key now = Some s0" and "s = reacts (tab_step o') inputs s0"
    and "E_preference_cleared \<in> set (since ts_trace s (tab_step o' i s))"
  shows "\<exists>c e. E_rejected c e \<in> set (since ts_trace s (tab_step o' i s))
     \<and> ((\<exists>phase status. e = AuthRequestError phase status True \<and> 400 \<le> status \<and> status < 500 \<and> status \<noteq> 429)
        \<or> (\<exists>expected actual. e = IdentityMismatchError expected actual \<and> expected \<noteq> actual)
        \<or> e = Bus_closed)"
proof -
  obtain new where new: "ts_trace (tab_step o' i s) = ts_trace s @ new"
    using tab_step_extends [of s o' i] by (auto simp: tab_extends_def)
  have since: "since ts_trace s (tab_step o' i s) = new" by (rule since_append [where trace = ts_trace, OF new])
  have "filter clears new \<noteq> []"
    using assms(3) unfolding since filter_empty_conv by (metis clears.simps(1))
  then obtain e where e: "e \<in> set new" "forgetting e"
    using preference_step [of s o' i] by (auto simp: preference_kept_def new filter_empty_conv)
  from e(2) obtain c x where x: "e = E_rejected c x" "forgets x" by (cases e) simp_all
  then show ?thesis unfolding since using e(1) by (cases x) (simp_all add: terminal_status_def, blast+)
qed

theorem preference_cleared_only_witness:
  "\<exists>c e. E_rejected c e \<in> set (since ts_trace tb_waiting (tab_step tb_options (Answer 1 (A_npub ''other'')) tb_waiting))"
proof -
  have "E_preference_cleared \<in> set (since ts_trace tb_waiting (tab_step tb_options (Answer 1 (A_npub ''other'')) tb_waiting))"
    by (simp add: tab_answered_def tb_waiting_sel [simplified] tab_continue_def after_npub_def terminateForIdentity_def Let_def
      tb_npub_other tb_npub_differs tb_preference clear_preference_def reject_def publish_def since_def)
  then show ?thesis using preference_cleared_only [OF tb_created tb_waiting_run] by blast
qed

text \<open>
  C16. A login or step-up that waits for the signer's name when the tab is locked goes on as soon
  as the name comes: the lock flag is cleared although the key is gone, the session stays,
  and a challenge is asked for.
\<close>

theorem pending_login_undoes_lock:
  assumes "createNapSession o' key now = Some s0" and "co_evictable o'" and "s = reacts (tab_step o') inputs s0"
    and "ts_session s = Some x" and "jm_get (ts_tasks s) t = Some (T_npub c stepUp)"
    and "tab_pubkeyOfNpub (co_nip19_decode o') npub = ss_pubkey x"
    and "s' = reacts (tab_step o') [Lock, Answer t (A_npub npub)] s"
  shows "ts_locked (tab_step o' Lock s) \<and> \<not> ts_locked s' \<and> \<not> ts_key s' \<and> ts_session s' = Some x
     \<and> (\<exists>n body. E_fetch n ''POST'' (sessionPath (co_baseUrl o') ''init'') None body \<in> set (since ts_trace s s'))"
proof -
  let ?s = "tab_step o' Lock s"
  have l: "ts_session ?s = Some x" "ts_tasks ?s = ts_tasks s" "ts_locked ?s" "\<not> ts_key ?s"
    using assms(2,4) by (simp_all add: publishLock_def hasSession_def)
  obtain new where "ts_trace ?s = ts_trace s @ new"
    using tab_step_extends [of s o' Lock] by (auto simp: tab_extends_def)
  then show ?thesis
    using assms(5-7) l by (auto simp: tab_answered_def tab_continue_def after_npub_def since_def simp del: tab_step.simps(6))
qed

theorem pending_login_undoes_lock_witness:
  "\<not> ts_locked (reacts (tab_step tb_options) [Lock, Answer 1 (A_npub ''npub1'')] tb_waiting)"
  using pending_login_undoes_lock [OF tb_created tb_evictable tb_waiting_run tb_waiting_sel(2,1) tb_pubkey refl] by blast

text \<open>A lookup that finds no session while the tab is locked leaves it locked, with no session to unlock for.\<close>

theorem expired_while_locked:
  assumes "ts_locked s" and "jm_get (ts_tasks s) t = Some (T_session c v)"
  shows "ts_session (tab_step o' (Answer t (A_success 401 body)) s) = None
     \<and> ts_locked (tab_step o' (Answer t (A_success 401 body)) s)"
  using assms by (simp add: tab_answered_def tab_continue_def after_session_def)

section \<open>The key of a page, stored\<close>

text \<open>A store, a signer and a tab that uses them, for the witness.\<close>

definition ek_crypto :: webcrypto where
  "ek_crypto =
     \<lparr>wc_derive = (\<lambda>passphrase salt n. Some (passphrase @ salt)), wc_encrypt = (\<lambda>key iv m. Some (key @ m)),
      wc_decrypt = (\<lambda>key iv c. if take (length key) c = key then Some (drop (length key) c) else None)\<rparr>"

definition ek_store :: secret_store where
  "ek_store = \<lparr>sk_key = ''nap-key'', sk_iterations = PBKDF2_ITERATIONS, sk_crypto = ek_crypto, sk_num_text = (\<lambda>_. [])\<rparr>"

definition ek_storage :: web_storage where
  "ek_storage =
     \<lparr>ws_source = Local, ws_items = [], ws_getThrows = False, ws_setThrows = (\<lambda>_. False), ws_removeThrows = False\<rparr>"

definition ek_platform :: key_platform where
  "ek_platform =
     \<lparr>kp_getPublicKey = (\<lambda>key. Some (bytesToHex key)), kp_npubEncode = (\<lambda>s. s),
      kp_finalizeEvent = (\<lambda>tmpl key.
        \<lparr>ev_id = [], ev_pubkey = bytesToHex key, ev_created_at = et_created_at tmpl, ev_kind = et_kind tmpl,
         ev_tags = et_tags tmpl, ev_content = et_content tmpl, ev_sig = []\<rparr>)\<rparr>"

definition ek_signer :: page_signer where
  "ek_signer = \<lparr>ps_privateKey = Some [0xab], ps_pubkey = ''ab'', ps_zeroed = []\<rparr>"

definition ek_options :: NapClientOptions where
  "ek_options = tb_options\<lparr>co_accepts := (\<lambda>h. fst (ps_setKey ek_platform h (ps_clearKey ek_signer)) = None)\<rparr>"

lemma ek_created:
  "createWebCryptoKeyStore ek_crypto (\<lambda>_. []) None None = Inr ek_store"
  "createPrivateKeySessionSigner ek_platform ''ab'' = Inr ek_signer"
proof -
  have "usable_count PBKDF2_ITERATIONS" by code_simp
  then show "createWebCryptoKeyStore ek_crypto (\<lambda>_. []) None None = Inr ek_store"
    by (simp add: createWebCryptoKeyStore_def createWebCryptoSecretStore_def or_else_def ek_store_def)
  have "hexToBytes ''ab'' = Inr [0xab]" by code_simp
  moreover have "bytesToHex [0xab] = ''ab''" by code_simp
  ultimately show "createPrivateKeySessionSigner ek_platform ''ab'' = Inr ek_signer"
    by (simp add: createPrivateKeySessionSigner_def ek_platform_def ek_signer_def)
qed

lemma ek_works: "crypto_works ek_crypto" "storage_works ek_storage" "co_keyStore ek_options"
  by (simp_all add: crypto_works_def ek_crypto_def storage_works_def ek_storage_def ek_options_def tb_options_def)

text \<open>
  The way back from a lock, with the parts of the page put together: a key saved in the key
  store under a passphrase is the one \<open>reunlock\<close> finds with it.
\<close>

text \<open>
  C38. A private key saved in the encrypted key store under a passphrase unlocks the tab of its
  signer: reunlock with that passphrase finds the record, decrypts the same key, the evicted
  signer takes it, and the call resolves with the tab unlocked, the key in the page and the
  session kept. WebCrypto decrypts what it encrypted, and the storage works.
\<close>

theorem enrolled_key_unlocks:
  assumes "createWebCryptoKeyStore wc nt k count = Inr c" and "crypto_works wc" and "storage_works st"
    and "createPrivateKeySessionSigner kp hex = Inr signer" and "unicode hex" and "hex \<noteq> []"
    and "co_keyStore o'" and "co_accepts o' = (\<lambda>h. fst (ps_setKey kp h (ps_clearKey signer)) = None)"
  shows "\<exists>st'. secret_save c salt iv hex passphrase st = Inr st'
     \<and> (let n = ts_next s;
            s' = reacts (tab_step o') [Reunlock passphrase, Answer n (hasKey_answer c st'),
                   Answer (Suc n) (loadKey_answer c passphrase st' st')] s
        in \<not> ts_locked s' \<and> \<not> ts_shutdown s' \<and> holder_hasKey o' s' \<and> ts_session s' = ts_session s
           \<and> E_resolved n V_done \<in> set (since ts_trace s s'))"
proof -
  have c: "usable_count (sk_iterations c)" "sk_crypto c = wc" using key_store_created [OF assms(1)] by simp_all
  obtain st' ciphertext key where saved: "secret_save c salt iv hex passphrase st = Inr st'"
    "deriveKey (sk_crypto c) passphrase salt (sk_iterations c) = Some key"
    "wc_decrypt (sk_crypto c) key iv ciphertext = Some (utf8_encode hex)"
    "readStoredEnvelope (sk_key c) st' = Inr (Some (envelope_json (sk_iterations c) salt iv ciphertext))"
    "readUsableEnvelope (sk_key c) st' = Inr (Some (envelope_json (sk_iterations c) salt iv ciphertext))"
    using secret_saved [OF c(1) _ assms(3), of salt iv hex passphrase] assms(2) c(2) by metis
  have has: "hasKey_answer c st' = A_bool True" using saved(4) by (simp add: hasKey_answer_def secret_has_def)
  have "secret_load c passphrase st' = Inr (Some hex)"
    using saved(2,3,5) assms(5) by (simp add: secret_load_def envelope_decrypts unicode_def)
  then have load: "loadKey_answer c passphrase st' st' = A_key hex" by (simp add: loadKey_answer_def ks_loadKey_def)
  have accepts: "co_accepts o' hex" using created_accepts [OF assms(4), of "ps_clearKey signer"] assms(8) by simp
  let ?n = "ts_next s"
  let ?s' = "reacts (tab_step o') [Reunlock passphrase, Answer ?n (A_bool True), Answer (Suc ?n) (A_key hex)] s"
  obtain t where run: "?s' = reunlock_key o' ?n hex t" and t: "ts_session t = ts_session s"
    "\<exists>es. ts_trace t = ts_trace s @ es"
    using reunlock_run [OF assms(7) refl, where s = s and passphrase = passphrase and a = "A_key hex"] unfolding loadKey_continues
    by (rule that) simp_all
  note runs = reunlock_key_runs [OF assms(6) accepts, of ?n t]
  obtain es where "ts_trace ?s' = ts_trace s @ es @ [E_resolved ?n V_done]" using runs(5) t(2) unfolding run by auto
  then have "E_resolved ?n V_done \<in> set (since ts_trace s ?s')" by (simp only: since_append [where trace = ts_trace]) simp
  then have "\<not> ts_locked ?s' \<and> \<not> ts_shutdown ?s' \<and> holder_hasKey o' ?s' \<and> ts_session ?s' = ts_session s
      \<and> E_resolved ?n V_done \<in> set (since ts_trace s ?s')"
    using runs(1-4) t(1) unfolding run holder_hasKey_def by auto
  then show ?thesis using saved(1) unfolding Let_def by (intro exI [of _ st']) (simp only: has load simp_thms)
qed

theorem enrolled_key_unlocks_witness:
  "\<exists>st'. secret_save ek_store [1, 2] [3] ''ab'' ''open'' ek_storage = Inr st'
     \<and> \<not> ts_locked (reacts (tab_step ek_options) [Reunlock ''open'', Answer (ts_next tb_locked) (hasKey_answer ek_store st'),
           Answer (Suc (ts_next tb_locked)) (loadKey_answer ek_store ''open'' st' st')] tb_locked)"
proof -
  have "ascii ''ab''" by code_simp
  then have "unicode ''ab''" by (rule unicode_ascii)
  from enrolled_key_unlocks [OF ek_created(1) ek_works(1,2) ek_created(2) this _ ek_works(3), of "[1, 2]" "[3]" "''open''" tb_locked]
  show ?thesis unfolding Let_def by (auto simp: ek_options_def)
qed

end
