(* ===== verification/Nip46Signer.thy ===== *)
theory Nip46Signer
  imports Nip46Pairing
begin

text \<open>
  nap-client-nip46, the remote signer (\<open>signer.ts\<close>): pairing from a token, from a URI or from
  a stored record (\<open>connection.ts\<close>, \<open>persistence.ts\<close>), and the calls over a pairing.

  The signer reacts to calls of its methods and to answers to what it awaits. Each \<open>await\<close>
  ends a step; the rest of the call is a task under a number. A connection is numbered by its
  place among the connections opened, and the pool made for it has the same number. The trace
  has what the signer does to pools, bunkers, keys and the store, and how each call ends. The
  relays, the bunker, the store and nostr-tools are the environment: parameters and answers.
\<close>

section \<open>Connections and their record\<close>

text \<open>The relays and the secret are JSON values: those of a stored record are not checked.\<close>

record BunkerPointer =
  bp_pubkey :: string
  bp_relays :: "json list"
  bp_secret :: "json option"

record ActiveConnection =
  ac_id :: nat
  ac_pointer :: BunkerPointer
  ac_clientSecretKey :: "byte list"

record StoredConnectionRecord =
  sc_bunkerPubkey :: string
  sc_relays :: "json list"
  sc_secret :: "json option"
  sc_clientSecretKey :: string

definition CONNECTION_RECORD_VERSION :: rat where "CONNECTION_RECORD_VERSION = 1"

definition toPointer :: "StoredConnectionRecord \<Rightarrow> BunkerPointer" where
  "toPointer rec = \<lparr>bp_pubkey = sc_bunkerPubkey rec, bp_relays = sc_relays rec, bp_secret = sc_secret rec\<rparr>"

text \<open>\<open>JSON.stringify\<close> leaves out a member that is \<open>undefined\<close>.\<close>

definition record_json :: "StoredConnectionRecord \<Rightarrow> json" where
  "record_json rec =
     JObj ([(''version'', JNum CONNECTION_RECORD_VERSION), (''bunkerPubkey'', JStr (sc_bunkerPubkey rec)),
            (''relays'', JArr (sc_relays rec))]
           @ (case sc_secret rec of None \<Rightarrow> [] | Some v \<Rightarrow> [(''secret'', v)])
           @ [(''clientSecretKey'', JStr (sc_clientSecretKey rec))])"

definition saved_text :: "num_text \<Rightarrow> StoredConnectionRecord \<Rightarrow> string" where
  "saved_text nt rec = json_print nt (record_json rec)"

text \<open>\<open>loadConnection\<close>, from what the store returned.\<close>

definition loaded_record :: "string option \<Rightarrow> StoredConnectionRecord option" where
  "loaded_record plaintext =
     (case plaintext of
        None \<Rightarrow> None
      | Some t \<Rightarrow>
          if t = [] then None
          else case json_parse t of
                 None \<Rightarrow> None
               | Some v \<Rightarrow>
                   if member v ''version'' \<noteq> Some (JNum CONNECTION_RECORD_VERSION) then None
                   else case (member v ''clientSecretKey'', member v ''bunkerPubkey'', member v ''relays'') of
                          (Some (JStr key), Some (JStr pubkey), Some (JArr relays)) \<Rightarrow>
                            Some \<lparr>sc_bunkerPubkey = pubkey, sc_relays = relays,
                                  sc_secret = member v ''secret'', sc_clientSecretKey = key\<rparr>
                        | _ \<Rightarrow> None)"

section \<open>Options and state\<close>

text \<open>
  The options, and the functions of the platform. \<open>so_pool\<close>: the caller gave a pool.
  \<open>so_store\<close>: there are a \<open>secretStore\<close> and a \<open>passphrase\<close>. \<open>so_generate n\<close> is the secret key
  that the \<open>n\<close>-th call of \<open>generateSecretKey\<close> makes, \<open>so_early n\<close> the events that the pool of
  connection \<open>n\<close> delivers from inside \<open>subscribe\<close>.
\<close>

record Nip46SignerOptions =
  so_connectionToken :: "string option"
  so_relays :: "string list option"
  so_store :: bool
  so_pool :: bool
  so_permissions :: "string list option"
  so_connectTimeoutMs :: "int option"
  so_signTimeoutMs :: "int option"
  so_pingTimeoutMs :: "int option"
  so_onAuthUrl :: bool
  so_onConnectionUri :: "string \<Rightarrow> thrown option"
  so_generate :: "nat \<Rightarrow> byte list"
  so_getPublicKey :: "byte list \<Rightarrow> string"
  so_npubEncode :: "string \<Rightarrow> thrown + string"
  so_createURI :: "string \<Rightarrow> string list \<Rightarrow> string \<Rightarrow> string list \<Rightarrow> string"
  so_decrypt :: "byte list \<Rightarrow> string \<Rightarrow> string \<Rightarrow> string option"
  so_fromBunker :: "byte list \<Rightarrow> BunkerPointer \<Rightarrow> thrown option"
  so_early :: "nat \<Rightarrow> (string \<times> string) list"
  so_num_text :: num_text

definition DEFAULT_PERMISSIONS :: "string list" where "DEFAULT_PERMISSIONS = [''sign_event:27235'']"

definition so_perms :: "Nip46SignerOptions \<Rightarrow> string list" where
  "so_perms o' = or_else (so_permissions o') DEFAULT_PERMISSIONS"

definition so_connectMs :: "Nip46SignerOptions \<Rightarrow> int" where
  "so_connectMs o' = or_else (so_connectTimeoutMs o') DEFAULT_CONNECT_TIMEOUT_MS"

datatype n46_value = N_done | N_npub string | N_event Nip98Event | N_pong bool

datatype n46_effect =
    N_pool_made nat
  | N_pool_destroyed nat
  | N_bunker_opened nat BunkerPointer
  | N_bunker_closing nat
  | N_requested nat string "json list"
  | N_sign_asked nat EventTemplate
  | N_ping_asked nat
  | N_key_wiped nat
  | N_token_parsing string
  | N_uri string
  | N_pairing nat wait_effect
  | N_store_load
  | N_store_save string
  | N_store_clear
  | N_resolved nat n46_value
  | N_rejected nat thrown

text \<open>What follows when the bunker of a connection is closed.\<close>

datatype after_close = Close_restore | Close_reject thrown | Close_disconnect

datatype n46_task =
    P_load
  | P_parse string
  | P_handshake bool ActiveConnection
  | P_close after_close ActiveConnection
  | P_clear bool
  | P_wait nat "byte list" string waiting
  | P_save ActiveConnection
  | P_npub nat
  | P_sign nat
  | P_ping nat

record n46 =
  rs_connection :: "ActiveConnection option"
  rs_connectionUri :: "string option"
  rs_tasks :: "(nat, n46_task) jsmap"
  rs_next :: nat
  rs_opened :: nat
  rs_drawn :: nat
  rs_trace :: "n46_effect list"

definition n46_log :: "n46_effect \<Rightarrow> n46 \<Rightarrow> n46" where
  "n46_log e s = s\<lparr>rs_trace := rs_trace s @ [e]\<rparr>"

definition n46_await :: "nat \<Rightarrow> n46_task \<Rightarrow> n46 \<Rightarrow> n46" where
  "n46_await n t s = s\<lparr>rs_tasks := jm_set n t (rs_tasks s)\<rparr>"

section \<open>Pools and bunkers\<close>

definition poolFor :: "Nip46SignerOptions \<Rightarrow> n46 \<Rightarrow> n46" where
  "poolFor o' s =
     (let s' = s\<lparr>rs_opened := Suc (rs_opened s)\<rparr> in
      if so_pool o' then s' else n46_log (N_pool_made (rs_opened s)) s')"

definition destroy_pool :: "Nip46SignerOptions \<Rightarrow> nat \<Rightarrow> n46 \<Rightarrow> n46" where
  "destroy_pool o' i s = (if so_pool o' then s else n46_log (N_pool_destroyed i) s)"

definition closeConnection :: "nat \<Rightarrow> after_close \<Rightarrow> ActiveConnection \<Rightarrow> n46 \<Rightarrow> n46" where
  "closeConnection n after c s = n46_await n (P_close after c) (n46_log (N_bunker_closing (ac_id c)) s)"

text \<open>\<open>pointer.secret ?? ''\<close>.\<close>

definition secret_param :: "BunkerPointer \<Rightarrow> json" where
  "secret_param p = (if or_else (bp_secret p) JNull = JNull then JStr [] else the (bp_secret p))"

definition handshake :: "Nip46SignerOptions \<Rightarrow> nat \<Rightarrow> bool \<Rightarrow> ActiveConnection \<Rightarrow> n46 \<Rightarrow> n46" where
  "handshake o' n restoring c s =
     n46_await n (P_handshake restoring c)
       (n46_log (N_requested (ac_id c) ''connect''
          [JStr (bp_pubkey (ac_pointer c)), secret_param (ac_pointer c), JStr (js_join '','' (so_perms o'))]) s)"

text \<open>What the bunker answered to \<open>connect\<close>: \<open>None\<close> when it acknowledges.\<close>

definition handshake_error :: "Nip46SignerOptions \<Rightarrow> ActiveConnection \<Rightarrow> string race_end \<Rightarrow> thrown option" where
  "handshake_error o' c answer =
     (case withTimeout (so_connectMs o') ''connect'' answer of
        Inl e \<Rightarrow> Some (Thrown_nip46 (toNip46Error e ''connect failed''))
      | Inr result \<Rightarrow>
          if result \<noteq> ''ack'' \<and> bp_secret (ac_pointer c) \<noteq> Some (JStr result)
          then Some (Thrown_nip46 (nip46_error N46_SECRET_MISMATCH
                 (''bunker answered connect with \"'' @ result @ ''\" rather than acknowledging the pairing'')))
          else None)"

section \<open>Connecting\<close>

definition n46_reject :: "nat \<Rightarrow> thrown \<Rightarrow> n46 \<Rightarrow> n46" where
  "n46_reject n e = n46_log (N_rejected n e)"

definition established :: "nat \<Rightarrow> ActiveConnection \<Rightarrow> n46 \<Rightarrow> n46" where
  "established n c s = n46_log (N_resolved n N_done) (s\<lparr>rs_connection := Some c\<rparr>)"

definition connection_record :: "ActiveConnection \<Rightarrow> StoredConnectionRecord" where
  "connection_record c =
     \<lparr>sc_bunkerPubkey = bp_pubkey (ac_pointer c), sc_relays = bp_relays (ac_pointer c),
      sc_secret = Some (or_else (bp_secret (ac_pointer c)) JNull),
      sc_clientSecretKey = bytesToHex (ac_clientSecretKey c)\<rparr>"

definition persist :: "Nip46SignerOptions \<Rightarrow> nat \<Rightarrow> ActiveConnection \<Rightarrow> n46 \<Rightarrow> n46" where
  "persist o' n c s =
     (if so_store o'
      then n46_await n (P_save c) (n46_log (N_store_save (saved_text (so_num_text o') (connection_record c))) s)
      else established n c s)"

text \<open>A failed restoration clears the record; any other failure ends the call.\<close>

definition open_failed :: "nat \<Rightarrow> bool \<Rightarrow> thrown \<Rightarrow> n46 \<Rightarrow> n46" where
  "open_failed n restoring e s =
     (if restoring then n46_await n (P_clear True) (n46_log N_store_clear s) else n46_reject n e s)"

definition openConnection ::
  "Nip46SignerOptions \<Rightarrow> nat \<Rightarrow> bool \<Rightarrow> byte list \<Rightarrow> BunkerPointer \<Rightarrow> n46 \<Rightarrow> n46" where
  "openConnection o' n restoring key p s =
     (let c = \<lparr>ac_id = rs_opened s, ac_pointer = p, ac_clientSecretKey = key\<rparr>; s' = poolFor o' s in
      case so_fromBunker o' key p of
        Some e \<Rightarrow> open_failed n restoring e s'
      | None \<Rightarrow> handshake o' n restoring c (n46_log (N_bunker_opened (ac_id c) p) s'))"

definition connectWithBunkerToken ::
  "Nip46SignerOptions \<Rightarrow> nat \<Rightarrow> string \<Rightarrow> BunkerPointer option \<Rightarrow> n46 \<Rightarrow> n46" where
  "connectWithBunkerToken o' n token found s =
     (case found of
        None \<Rightarrow> n46_reject n (Thrown_nip46 (nip46_error N46_INVALID_TOKEN
                  (''not a usable bunker connection token: '' @ token))) s
      | Some p \<Rightarrow>
          if bp_relays p = []
          then n46_reject n (Thrown_nip46 (nip46_error N46_INVALID_TOKEN ''bunker token names no relays'')) s
          else openConnection o' n False (so_generate o' (rs_drawn s)) p (s\<lparr>rs_drawn := Suc (rs_drawn s)\<rparr>))"

definition pairing_of :: "Nip46SignerOptions \<Rightarrow> byte list \<Rightarrow> string \<Rightarrow> pairing" where
  "pairing_of o' key secret =
     \<lparr>pg_secret = secret, pg_decrypt = so_decrypt o' key, pg_onAuthUrl = so_onAuthUrl o', pg_num_text = so_num_text o'\<rparr>"

text \<open>A signer answered the URI.\<close>

definition paired :: "Nip46SignerOptions \<Rightarrow> nat \<Rightarrow> nat \<Rightarrow> byte list \<Rightarrow> string \<Rightarrow> string \<Rightarrow> n46 \<Rightarrow> n46" where
  "paired o' n i key secret pubkey s =
     (let p = \<lparr>bp_pubkey = pubkey, bp_relays = map JStr (or_else (so_relays o') []), bp_secret = Some (JStr secret)\<rparr>;
          c = \<lparr>ac_id = i, ac_pointer = p, ac_clientSecretKey = key\<rparr> in
      case so_fromBunker o' key p of
        Some e \<Rightarrow> n46_reject n e s
      | None \<Rightarrow> persist o' n c (n46_log (N_bunker_opened i p) s))"

text \<open>The wait has made the effects \<open>new\<close>: it is over, or it goes on.\<close>

fun wait_result :: "wait_effect list \<Rightarrow> (Nip46Error + string) option" where
  "wait_result [] = None"
| "wait_result (W_resolved pubkey # es) = Some (Inr pubkey)"
| "wait_result (W_rejected e # es) = Some (Inl e)"
| "wait_result (_ # es) = wait_result es"

definition after_wait ::
  "Nip46SignerOptions \<Rightarrow> nat \<Rightarrow> nat \<Rightarrow> byte list \<Rightarrow> string \<Rightarrow> wait_effect list \<Rightarrow> waiting \<Rightarrow> n46 \<Rightarrow> n46" where
  "after_wait o' n i key secret new w s =
     (let s' = fold (\<lambda>e. n46_log (N_pairing i e)) new s in
      case wait_result new of
        None \<Rightarrow> n46_await n (P_wait i key secret w) s'
      | Some (Inl e) \<Rightarrow> n46_reject n (Thrown_nip46 e) (destroy_pool o' i s')
      | Some (Inr pubkey) \<Rightarrow> paired o' n i key secret pubkey s')"

definition connectWithNostrConnect :: "Nip46SignerOptions \<Rightarrow> nat \<Rightarrow> string list \<Rightarrow> n46 \<Rightarrow> n46" where
  "connectWithNostrConnect o' n relays s =
     (if relays = []
      then n46_reject n (Thrown_nip46 (nip46_error N46_INVALID_TOKEN ''nostrconnect pairing needs at least one relay'')) s
      else let key = so_generate o' (rs_drawn s);
               secret = take 32 (bytesToHex (so_generate o' (Suc (rs_drawn s))));
               i = rs_opened s;
               uri = so_createURI o' (so_getPublicKey o' key) relays secret (so_perms o');
               s' = n46_log (N_uri uri)
                      ((poolFor o' (s\<lparr>rs_drawn := rs_drawn s + 2\<rparr>))\<lparr>rs_connectionUri := Some uri\<rparr>)
           in case so_onConnectionUri o' uri of
                Some e \<Rightarrow> n46_reject n e s'
              | None \<Rightarrow>
                  let w = waitForNostrConnect (pairing_of o' key secret) (so_early o' i)
                  in after_wait o' n i key secret (wt_trace w) w s')"

text \<open>\<open>connect\<close> after a restoration that gave no connection.\<close>

definition connect_afresh :: "Nip46SignerOptions \<Rightarrow> nat \<Rightarrow> n46 \<Rightarrow> n46" where
  "connect_afresh o' n s =
     (if truthy_str (so_connectionToken o')
      then n46_await n (P_parse (the (so_connectionToken o'))) (n46_log (N_token_parsing (the (so_connectionToken o'))) s)
      else if or_else (so_relays o') [] \<noteq> [] then connectWithNostrConnect o' n (or_else (so_relays o') []) s
      else if so_store o' then n46_log (N_resolved n N_done) s
      else n46_reject n (Thrown_nip46 (nip46_error N46_INVALID_TOKEN
             ''pass connectionToken for a bunker:// pairing or relays for a nostrconnect:// one'')) s)"

definition n46_connect :: "Nip46SignerOptions \<Rightarrow> nat \<Rightarrow> n46 \<Rightarrow> n46" where
  "n46_connect o' n s =
     (if rs_connection s \<noteq> None then n46_log (N_resolved n N_done) s
      else if so_store o' then n46_await n P_load (n46_log N_store_load s)
      else connect_afresh o' n s)"

definition restore :: "Nip46SignerOptions \<Rightarrow> nat \<Rightarrow> string option \<Rightarrow> n46 \<Rightarrow> n46" where
  "restore o' n plaintext s =
     (case loaded_record plaintext of
        None \<Rightarrow> connect_afresh o' n s
      | Some rec \<Rightarrow>
          (case hexToBytes (sc_clientSecretKey rec) of
             Inl e \<Rightarrow> open_failed n True (Thrown_error []) s
           | Inr key \<Rightarrow> openConnection o' n True key (toPointer rec) s))"

section \<open>The other methods\<close>

definition NOT_CONNECTED :: thrown where
  "NOT_CONNECTED =
     Thrown_nip46 (nip46_error N46_UNREACHABLE ''no remote signer is connected; call connect() first'')"

definition n46_getNpub :: "nat \<Rightarrow> n46 \<Rightarrow> n46" where
  "n46_getNpub n s =
     (case rs_connection s of
        None \<Rightarrow> n46_reject n NOT_CONNECTED s
      | Some c \<Rightarrow> n46_await n (P_npub (ac_id c)) (n46_log (N_requested (ac_id c) ''get_public_key'' []) s))"

definition n46_signEvent :: "nat \<Rightarrow> EventTemplate \<Rightarrow> n46 \<Rightarrow> n46" where
  "n46_signEvent n tmpl s =
     (case rs_connection s of
        None \<Rightarrow> n46_reject n NOT_CONNECTED s
      | Some c \<Rightarrow> n46_await n (P_sign (ac_id c)) (n46_log (N_sign_asked (ac_id c) tmpl) s))"

definition n46_ping :: "nat \<Rightarrow> n46 \<Rightarrow> n46" where
  "n46_ping n s =
     (case rs_connection s of
        None \<Rightarrow> n46_log (N_resolved n (N_pong False)) s
      | Some c \<Rightarrow> n46_await n (P_ping (ac_id c)) (n46_log (N_ping_asked (ac_id c)) s))"

definition clear_after_disconnect :: "Nip46SignerOptions \<Rightarrow> nat \<Rightarrow> n46 \<Rightarrow> n46" where
  "clear_after_disconnect o' n s =
     (if so_store o' then n46_await n (P_clear False) (n46_log N_store_clear s) else n46_log (N_resolved n N_done) s)"

definition n46_disconnect :: "Nip46SignerOptions \<Rightarrow> nat \<Rightarrow> n46 \<Rightarrow> n46" where
  "n46_disconnect o' n s =
     (let s' = s\<lparr>rs_connection := None, rs_connectionUri := None\<rparr> in
      case rs_connection s of
        None \<Rightarrow> clear_after_disconnect o' n s'
      | Some c \<Rightarrow> closeConnection n Close_disconnect c s')"

definition n46_getStatus :: "n46 \<Rightarrow> string" where
  "n46_getStatus s = (if rs_connection s \<noteq> None then ''connected'' else ''disconnected'')"

definition n46_getClientPubkey :: "Nip46SignerOptions \<Rightarrow> n46 \<Rightarrow> thrown + string option" where
  "n46_getClientPubkey o' s =
     (case rs_connection s of
        None \<Rightarrow> Inr None
      | Some c \<Rightarrow> map_sum id Some (so_npubEncode o' (so_getPublicKey o' (ac_clientSecretKey c))))"

section \<open>Answers\<close>

datatype n46_answer =
    R_threw thrown
  | R_done
  | R_loaded "string option"
  | R_pointer "BunkerPointer option"
  | R_text string
  | R_event Nip98Event
  | R_timer
  | R_relay string string

text \<open>What ended a call under a bound; \<open>None\<close> for what does not answer it.\<close>

definition text_end :: "n46_answer \<Rightarrow> string race_end option" where
  "text_end a =
     (case a of R_text t \<Rightarrow> Some (Race_settled (Inr t)) | R_threw e \<Rightarrow> Some (Race_settled (Inl e))
      | R_timer \<Rightarrow> Some Race_timer | _ \<Rightarrow> None)"

definition event_end :: "n46_answer \<Rightarrow> Nip98Event race_end option" where
  "event_end a =
     (case a of R_event ev \<Rightarrow> Some (Race_settled (Inr ev)) | R_threw e \<Rightarrow> Some (Race_settled (Inl e))
      | R_timer \<Rightarrow> Some Race_timer | _ \<Rightarrow> None)"

definition done_end :: "n46_answer \<Rightarrow> unit race_end option" where
  "done_end a =
     (case a of R_done \<Rightarrow> Some (Race_settled (Inr ())) | R_threw e \<Rightarrow> Some (Race_settled (Inl e))
      | R_timer \<Rightarrow> Some Race_timer | _ \<Rightarrow> None)"

definition npub_answer :: "Nip46SignerOptions \<Rightarrow> string race_end \<Rightarrow> Nip46Error + string" where
  "npub_answer o' e =
     (case withTimeout (so_connectMs o') ''get_public_key'' e of
        Inl err \<Rightarrow> Inl (toNip46Error err ''the remote signer would not reveal its public key'')
      | Inr pubkey \<Rightarrow>
          (case so_npubEncode o' pubkey of
             Inl err \<Rightarrow> Inl (toNip46Error err ''the remote signer would not reveal its public key'')
           | Inr npub \<Rightarrow> Inr npub))"

definition sign_answer :: "Nip46SignerOptions \<Rightarrow> Nip98Event race_end \<Rightarrow> Nip46Error + Nip98Event" where
  "sign_answer o' e =
     (case withTimeout (or_else (so_signTimeoutMs o') DEFAULT_SIGN_TIMEOUT_MS) ''sign_event'' e of
        Inl err \<Rightarrow> Inl (toNip46Error err ''the remote signer did not return a signature'')
      | Inr ev \<Rightarrow> Inr ev)"

definition ping_answer :: "Nip46SignerOptions \<Rightarrow> unit race_end \<Rightarrow> bool" where
  "ping_answer o' e =
     (case withTimeout (or_else (so_pingTimeoutMs o') DEFAULT_PING_TIMEOUT_MS) ''ping'' e of
        Inl _ \<Rightarrow> False
      | Inr _ \<Rightarrow> True)"

definition end_call :: "nat \<Rightarrow> ('a \<Rightarrow> n46_value) \<Rightarrow> Nip46Error + 'a \<Rightarrow> n46 \<Rightarrow> n46" where
  "end_call n val r =
     (case r of Inl e \<Rightarrow> n46_reject n (Thrown_nip46 e) | Inr x \<Rightarrow> n46_log (N_resolved n (val x)))"

text \<open>The bunker is closed, or was gone already: then the pool that is ours goes.\<close>

primrec bunker_closed :: "Nip46SignerOptions \<Rightarrow> nat \<Rightarrow> nat \<Rightarrow> after_close \<Rightarrow> n46 \<Rightarrow> n46" where
  "bunker_closed o' n i Close_restore s =
     n46_await n (P_clear True) (n46_log N_store_clear (destroy_pool o' i s))"
| "bunker_closed o' n i (Close_reject e) s = n46_reject n e (destroy_pool o' i s)"
| "bunker_closed o' n i Close_disconnect s =
     clear_after_disconnect o' n (n46_log (N_key_wiped i) (destroy_pool o' i s))"

definition handshake_answered ::
  "Nip46SignerOptions \<Rightarrow> nat \<Rightarrow> bool \<Rightarrow> ActiveConnection \<Rightarrow> string race_end \<Rightarrow> n46 \<Rightarrow> n46" where
  "handshake_answered o' n restoring c e s =
     (case handshake_error o' c e of
        Some err \<Rightarrow> closeConnection n (if restoring then Close_restore else Close_reject err) c s
      | None \<Rightarrow> if restoring then established n c s else persist o' n c s)"

definition wait_input_of :: "n46_answer \<Rightarrow> wait_input option" where
  "wait_input_of a =
     (case a of R_relay pubkey content \<Rightarrow> Some (W_event pubkey content) | R_timer \<Rightarrow> Some W_timer | _ \<Rightarrow> None)"

text \<open>The rest of a call, with the answer; \<open>None\<close> when the answer is not one it waits for.\<close>

primrec n46_resume :: "Nip46SignerOptions \<Rightarrow> nat \<Rightarrow> n46_task \<Rightarrow> n46_answer \<Rightarrow> (n46 \<Rightarrow> n46) option" where
  "n46_resume o' n P_load a =
     (case a of R_loaded plaintext \<Rightarrow> Some (restore o' n plaintext) | R_threw e \<Rightarrow> Some (n46_reject n e) | _ \<Rightarrow> None)"
| "n46_resume o' n (P_parse token) a =
     (case a of R_pointer p \<Rightarrow> Some (connectWithBunkerToken o' n token p) | _ \<Rightarrow> None)"
| "n46_resume o' n (P_handshake restoring c) a = map_option (handshake_answered o' n restoring c) (text_end a)"
| "n46_resume o' n (P_close after c) a =
     (case a of
        R_done \<Rightarrow> Some (bunker_closed o' n (ac_id c) after)
      | R_threw e \<Rightarrow> Some (bunker_closed o' n (ac_id c) after)
      | _ \<Rightarrow> None)"
| "n46_resume o' n (P_clear restoring) a =
     (case a of
        R_done \<Rightarrow> Some (if restoring then connect_afresh o' n else n46_log (N_resolved n N_done))
      | R_threw e \<Rightarrow> Some (n46_reject n e)
      | _ \<Rightarrow> None)"
| "n46_resume o' n (P_wait i key secret w) a =
     (case wait_input_of a of
        None \<Rightarrow> None
      | Some x \<Rightarrow>
          let w' = wait_step (pairing_of o' key secret) x w
          in Some (after_wait o' n i key secret (since wt_trace w w') w'))"
| "n46_resume o' n (P_save c) a =
     (case a of
        R_done \<Rightarrow> Some (established n c)
      | R_threw e \<Rightarrow> Some (closeConnection n (Close_reject e) c)
      | _ \<Rightarrow> None)"
| "n46_resume o' n (P_npub i) a = map_option (\<lambda>e. end_call n N_npub (npub_answer o' e)) (text_end a)"
| "n46_resume o' n (P_sign i) a = map_option (\<lambda>e. end_call n N_event (sign_answer o' e)) (event_end a)"
| "n46_resume o' n (P_ping i) a = map_option (\<lambda>e. n46_log (N_resolved n (N_pong (ping_answer o' e)))) (done_end a)"

section \<open>Inputs\<close>

datatype n46_input =
    J_connect
  | J_disconnect
  | J_getNpub
  | J_signEvent EventTemplate
  | J_ping
  | J_answer nat n46_answer

primrec n46_call :: "Nip46SignerOptions \<Rightarrow> n46_input \<Rightarrow> nat \<Rightarrow> n46 \<Rightarrow> n46" where
  "n46_call o' J_connect n s = n46_connect o' n s"
| "n46_call o' J_disconnect n s = n46_disconnect o' n s"
| "n46_call o' J_getNpub n s = n46_getNpub n s"
| "n46_call o' (J_signEvent tmpl) n s = n46_signEvent n tmpl s"
| "n46_call o' J_ping n s = n46_ping n s"
| "n46_call o' (J_answer m a) n s = s"

definition n46_answered :: "Nip46SignerOptions \<Rightarrow> nat \<Rightarrow> n46_answer \<Rightarrow> n46 \<Rightarrow> n46" where
  "n46_answered o' n a s =
     (case jm_get (rs_tasks s) n of
        None \<Rightarrow> s
      | Some t \<Rightarrow>
          (case n46_resume o' n t a of
             None \<Rightarrow> s
           | Some rest \<Rightarrow> rest (s\<lparr>rs_tasks := jm_delete n (rs_tasks s)\<rparr>)))"

definition n46_step :: "Nip46SignerOptions \<Rightarrow> n46_input \<Rightarrow> n46 \<Rightarrow> n46" where
  "n46_step o' i s =
     (case i of
        J_answer n a \<Rightarrow> n46_answered o' n a s
      | _ \<Rightarrow> n46_call o' i (rs_next s) (s\<lparr>rs_next := Suc (rs_next s)\<rparr>))"

definition createNip46Signer :: n46 where
  "createNip46Signer =
     \<lparr>rs_connection = None, rs_connectionUri = None, rs_tasks = [], rs_next = 0, rs_opened = 0, rs_drawn = 0,
      rs_trace = []\<rparr>"

end
