(* ===== verification/Nip46PairingFacts.thy ===== *)
theory Nip46PairingFacts
  imports Nip46Pairing
begin

text \<open>
  The wait for a signer ends once: with the key that first echoed the secret, or with the
  timer when none did before. \<open>pairing_ends\<close> says so for every sequence of events.
\<close>

section \<open>The trace\<close>

fun settles :: "wait_effect \<Rightarrow> bool" where
  "settles (W_resolved pubkey) \<longleftrightarrow> True"
| "settles (W_rejected e) \<longleftrightarrow> True"
| "settles W_threw \<longleftrightarrow> True"
| "settles _ \<longleftrightarrow> False"

definition echoes :: "pairing \<Rightarrow> string \<Rightarrow> string \<Rightarrow> bool" where
  "echoes p pubkey content \<longleftrightarrow>
     (\<exists>payload. wait_payload p pubkey content = Some payload
        \<and> member payload ''result'' = Some (JStr (pg_secret p)))"

lemma wait_log_sel [simp]:
  "wt_settled (wait_log e w) = wt_settled w" "wt_timer (wait_log e w) = wt_timer w"
  "wt_subscription (wait_log e w) = wt_subscription w" "wt_trace (wait_log e w) = wt_trace w @ [e]"
  "wt_declineReason (wait_log e w) = wt_declineReason w" "wt_sawWrongSecret (wait_log e w) = wt_sawWrongSecret w"
  by (simp_all add: wait_log_def)

lemma wait_settle_sel [simp]:
  "wt_settled (wait_settle e w)" "wt_subscription (wait_settle e w) = wt_subscription w"
  "wt_timer (wait_settle e w) \<longleftrightarrow> wt_settled w \<and> wt_timer w"
  "wt_trace (wait_settle e w) = wt_trace w @ (if wt_settled w then [] else if wt_subscription w then [W_closed, e] else [e])"
  by (auto simp: wait_settle_def Let_def)

lemma wait_event_echo: "echoes p pubkey content \<Longrightarrow> wait_event p pubkey content w = wait_settle (W_resolved pubkey) w"
  by (auto simp: echoes_def wait_event_def Let_def)

text \<open>An event that is not an echo leaves the wait where it is, but for a hint.\<close>

lemma wait_event_noise:
  assumes "\<not> echoes p pubkey content"
  shows "wt_settled (wait_event p pubkey content w) = wt_settled w"
    and "wt_timer (wait_event p pubkey content w) = wt_timer w"
    and "wt_subscription (wait_event p pubkey content w) = wt_subscription w"
    and "\<exists>urls. wt_trace (wait_event p pubkey content w) = wt_trace w @ map W_auth_url urls"
proof -
  have "\<exists>urls. wt_trace w = wt_trace w @ map W_auth_url urls"
    "\<exists>urls. wt_trace w @ [W_auth_url u] = wt_trace w @ map W_auth_url urls" for u
    by (auto intro: exI [of _ "[]"] exI [of _ "[u]"])
  then show "\<exists>urls. wt_trace (wait_event p pubkey content w) = wt_trace w @ map W_auth_url urls"
    using assms by (auto simp: wait_event_def echoes_def Let_def split: option.split)
qed (use assms in \<open>auto simp: wait_event_def echoes_def Let_def split: option.split\<close>)

lemma wait_event_settled:
  assumes "wt_settled w"
  shows "wt_settled (wait_event p pubkey content w)"
    and "\<exists>urls. wt_trace (wait_event p pubkey content w) = wt_trace w @ map W_auth_url urls"
    and "wt_timer (wait_event p pubkey content w) = wt_timer w"
proof -
  show "wt_settled (wait_event p pubkey content w)" "wt_timer (wait_event p pubkey content w) = wt_timer w"
    using assms wait_event_echo wait_event_noise by (cases "echoes p pubkey content"; simp)+
  show "\<exists>urls. wt_trace (wait_event p pubkey content w) = wt_trace w @ map W_auth_url urls"
  proof (cases "echoes p pubkey content")
    case True
    then show ?thesis using assms wait_event_echo by (auto intro: exI [of _ "[]"])
  qed (rule wait_event_noise)
qed

lemma wait_step_appends: "\<exists>new. wt_trace (wait_step p i w) = wt_trace w @ new"
proof (cases i)
  case (W_event pubkey content)
  then show ?thesis
    using wait_event_echo [of p pubkey content w] wait_event_noise(4) [of p pubkey content w]
    by (cases "echoes p pubkey content") auto
qed (auto simp: wait_step.simps)

interpretation pairing: reactive "wait_step p" wt_trace for p
  by unfold_locales (rule wait_step_appends)

lemma unsettling_urls [simp]: "filter settles (map W_auth_url urls) = []"
  by (induction urls) auto

section \<open>The end of the wait\<close>

text \<open>A wait that has ended stays as it ended: what comes later adds no outcome.\<close>

lemma ended_wait_step:
  assumes "wt_settled w" and "\<not> wt_timer w"
  shows "wt_settled (wait_step p i w)" and "\<not> wt_timer (wait_step p i w)"
    and "filter settles (wt_trace (wait_step p i w)) = filter settles (wt_trace w)"
proof -
  have "\<exists>urls. wt_trace (wait_event p pubkey content w) = wt_trace w @ map W_auth_url urls" for pubkey content
    by (rule wait_event_settled) (rule assms)
  then have "filter settles (wt_trace (wait_event p pubkey content w)) = filter settles (wt_trace w)" for pubkey content
    by (metis append_Nil2 filter_append unsettling_urls)
  then show "filter settles (wt_trace (wait_step p i w)) = filter settles (wt_trace w)"
    using assms by (cases i) simp_all
qed (use assms wait_event_settled in \<open>cases i; simp\<close>)+

lemma ended_wait:
  assumes "wt_settled w" and "\<not> wt_timer w"
  shows "filter settles (wt_trace (reacts (wait_step p) inputs w)) = filter settles (wt_trace w)"
  using assms by (induction inputs arbitrary: w) (simp_all add: ended_wait_step)

fun decisive :: "pairing \<Rightarrow> wait_input \<Rightarrow> bool" where
  "decisive p (W_event pubkey content) \<longleftrightarrow> echoes p pubkey content"
| "decisive p W_timer \<longleftrightarrow> True"

text \<open>A wait that has not ended has its timer and an open subscription.\<close>

definition open_wait :: "waiting \<Rightarrow> bool" where
  "open_wait w \<longleftrightarrow> \<not> wt_settled w \<and> wt_timer w \<and> wt_subscription w \<and> filter settles (wt_trace w) = [] \<and> W_closed \<notin> set (wt_trace w)"

lemma open_noise: "open_wait w \<Longrightarrow> \<not> echoes p pubkey content \<Longrightarrow> open_wait (wait_event p pubkey content w)"
  using wait_event_noise [of p pubkey content w] by (auto simp: open_wait_def)

fun outcome_of :: "wait_input option \<Rightarrow> wait_effect list \<Rightarrow> bool" where
  "outcome_of None es \<longleftrightarrow> es = []"
| "outcome_of (Some (W_event pubkey content)) es \<longleftrightarrow> es = [W_resolved pubkey]"
| "outcome_of (Some W_timer) es \<longleftrightarrow> es = [W_threw] \<or> (\<exists>e. es = [W_rejected e])"

lemma verdict_fails: "wait_verdict p w = W_threw \<or> (\<exists>e. wait_verdict p w = W_rejected e)"
  by (auto simp: wait_verdict_def split: option.split)

lemma open_run:
  "open_wait w \<Longrightarrow>
     outcome_of (find (decisive p) inputs) (filter settles (wt_trace (reacts (wait_step p) inputs w)))"
proof (induction inputs arbitrary: w)
  case Nil
  then show ?case by (simp add: open_wait_def)
next
  case (Cons i inputs)
  show ?case
  proof (cases i)
    case (W_event pubkey content)
    show ?thesis
    proof (cases "echoes p pubkey content")
      case True
      let ?w = "wait_settle (W_resolved pubkey) w"
      have "filter settles (wt_trace (reacts (wait_step p) inputs ?w)) = filter settles (wt_trace ?w)"
        using Cons.prems by (intro ended_wait) (simp_all add: open_wait_def)
      then show ?thesis using True W_event Cons.prems wait_event_echo by (simp add: open_wait_def)
    next
      case False
      then show ?thesis using W_event Cons.IH [OF open_noise [OF Cons.prems False]] by simp
    qed
  next
    case W_timer
    let ?w = "wait_settle (wait_verdict p w) w"
    have "filter settles (wt_trace (reacts (wait_step p) inputs ?w)) = filter settles (wt_trace ?w)"
      using Cons.prems by (intro ended_wait) (simp_all add: open_wait_def)
    then show ?thesis using W_timer Cons.prems verdict_fails [of p w] by (auto simp: open_wait_def)
  qed
qed

text \<open>Events from inside \<open>subscribe\<close>: no handle to close yet, and no timer.\<close>

definition subscribing :: "waiting \<Rightarrow> bool" where
  "subscribing w \<longleftrightarrow> \<not> wt_timer w \<and> \<not> wt_subscription w \<and> W_closed \<notin> set (wt_trace w)
     \<and> (\<not> wt_settled w \<longrightarrow> filter settles (wt_trace w) = [])"

definition early_run :: "pairing \<Rightarrow> (string \<times> string) list \<Rightarrow> waiting \<Rightarrow> waiting" where
  "early_run p early = fold (\<lambda>(pubkey, content). wait_event p pubkey content) early"

abbreviation early_inputs :: "(string \<times> string) list \<Rightarrow> wait_input list" where
  "early_inputs early \<equiv> map (\<lambda>(pubkey, content). W_event pubkey content) early"

lemma early_run_simps [simp]:
  "early_run p [] w = w"
  "early_run p ((pubkey, content) # early) w = early_run p early (wait_event p pubkey content w)"
  by (simp_all add: early_run_def)

lemma subscribing_event:
  assumes "subscribing w"
  shows "subscribing (wait_event p pubkey content w)"
proof (cases "echoes p pubkey content")
  case True
  then show ?thesis using assms by (simp add: wait_event_echo subscribing_def)
next
  case False
  obtain urls where "wt_trace (wait_event p pubkey content w) = wt_trace w @ map W_auth_url urls"
    using wait_event_noise(4) [OF False] by blast
  then show ?thesis using assms wait_event_noise(1-3) [OF False] by (auto simp: subscribing_def)
qed

lemma early_subscribing: "subscribing w \<Longrightarrow> subscribing (early_run p early w)"
  by (induction early arbitrary: w) (auto simp: subscribing_event)

lemma early_settled:
  assumes "wt_settled w" and "subscribing w"
  shows "wt_settled (early_run p early w) \<and> filter settles (wt_trace (early_run p early w)) = filter settles (wt_trace w)"
  using assms
proof (induction early arbitrary: w)
  case (Cons e early)
  obtain pubkey content where e: "e = (pubkey, content)" by (cases e)
  have t: "\<not> wt_timer w" using Cons.prems by (simp add: subscribing_def)
  show ?case
    using Cons.IH [of "wait_event p pubkey content w"] ended_wait_step [OF Cons.prems(1) t, of p "W_event pubkey content"]
      subscribing_event [OF Cons.prems(2)] e by simp
qed simp

lemma early_open:
  assumes "\<not> wt_settled w" and "subscribing w"
  shows "outcome_of (find (decisive p) (early_inputs early)) (filter settles (wt_trace (early_run p early w)))
    \<and> (wt_settled (early_run p early w) \<longleftrightarrow> find (decisive p) (early_inputs early) \<noteq> None)"
  using assms
proof (induction early arbitrary: w)
  case Nil
  then show ?case by (simp add: subscribing_def)
next
  case (Cons e early)
  obtain pubkey content where e: "e = (pubkey, content)" by (cases e)
  show ?case
  proof (cases "echoes p pubkey content")
    case True
    let ?w = "wait_settle (W_resolved pubkey) w"
    have "subscribing ?w" using subscribing_event [OF Cons.prems(2)] wait_event_echo [OF True] by metis
    then have "wt_settled (early_run p early ?w)"
      "filter settles (wt_trace (early_run p early ?w)) = filter settles (wt_trace ?w)"
      using early_settled by simp_all
    then show ?thesis using e True Cons.prems by (simp add: wait_event_echo subscribing_def)
  next
    case False
    then show ?thesis
      using Cons.IH [OF _ subscribing_event [OF Cons.prems(2)]] wait_event_noise(1) [OF False] Cons.prems(1) e by simp
  qed
qed

lemma find_found_append: "find P (xs @ ys) = (case find P xs of None \<Rightarrow> find P ys | Some x \<Rightarrow> Some x)"
  by (induction xs) simp_all

theorem pairing_ends:
  "outcome_of (find (decisive p) (early_inputs early @ inputs))
     (filter settles (wt_trace (reacts (wait_step p) inputs (waitForNostrConnect p early))))"
proof -
  let ?w = "early_run p early no_answer_yet"
  have start: "waitForNostrConnect p early =
      (if wt_settled ?w then wait_log W_closed (?w\<lparr>wt_subscription := True\<rparr>)
       else ?w\<lparr>wt_subscription := True, wt_timer := True\<rparr>)"
    by (simp add: waitForNostrConnect_def early_run_def)
  have s: "subscribing no_answer_yet" "\<not> wt_settled no_answer_yet" by (simp_all add: subscribing_def no_answer_yet_def)
  note w = early_subscribing [OF s(1), of p early] and early = early_open [OF s(2,1), of p early]
  show ?thesis
  proof (cases "wt_settled ?w")
    case True
    then have "filter settles (wt_trace (reacts (wait_step p) inputs (waitForNostrConnect p early))) =
        filter settles (wt_trace ?w)"
      using w ended_wait [of "waitForNostrConnect p early" p inputs] by (simp add: start subscribing_def)
    then show ?thesis using early True by (auto simp: find_found_append)
  next
    case False
    then have "open_wait (waitForNostrConnect p early)"
      using w by (simp add: open_wait_def subscribing_def start)
    from open_run [OF this, of p inputs] show ?thesis using False early by (simp add: find_found_append)
  qed
qed

text \<open>
  A hint without a text: anybody can send an \<open>error\<close> that is an object with a member
  \<open>toString\<close>. When it comes first and no signer answers, the callback of the timer throws and
  the promise is never settled.
\<close>

theorem hint_without_text_hangs:
  assumes "wait_payload p pubkey content = Some payload" and "member payload ''result'' = None"
    and "member payload ''error'' = Some (JObj ms)" and "''toString'' \<in> fst ` set ms"
  shows "filter settles (wt_trace (reacts (wait_step p) (W_event pubkey content # W_timer # inputs)
           (waitForNostrConnect p []))) = [W_threw]"
proof -
  let ?w = "(waitForNostrConnect p [])\<lparr>wt_declineReason := Some (JObj ms)\<rparr>"
  let ?t = "wait_settle W_threw ?w"
  have w: "waitForNostrConnect p [] = no_answer_yet\<lparr>wt_subscription := True, wt_timer := True\<rparr>"
    by (simp add: waitForNostrConnect_def no_answer_yet_def)
  have "wait_event p pubkey content (waitForNostrConnect p []) = ?w"
    using assms(1-3) by (simp add: wait_event_def w no_answer_yet_def)
  moreover have "wait_step p W_timer ?w = ?t"
    using assms(4) by (simp add: w no_answer_yet_def wait_verdict_def)
  moreover have "filter settles (wt_trace (reacts (wait_step p) inputs ?t)) = filter settles (wt_trace ?t)"
    by (rule ended_wait) (simp_all add: w no_answer_yet_def)
  ultimately show ?thesis by (simp add: w no_answer_yet_def)
qed

end
