(* ===== verification/Nip46SignerFacts.thy ===== *)
theory Nip46SignerFacts
  imports Nip46Signer Nip46PairingFacts "HOL-Library.Multiset"
begin

text \<open>
  What every run of the remote signer keeps: as long as no two calls of \<open>connect\<close> overlap, each
  pool it made is destroyed once, or is the pool of the connection or of a call under way
  (\<open>pools_kept\<close>). And a stored record is read back as it was saved (\<open>record_read\<close>).
\<close>

section \<open>Accounts\<close>

definition pools_made :: "n46_effect list \<Rightarrow> nat list" where
  "pools_made es = concat (map (\<lambda>e. case e of N_pool_made i \<Rightarrow> [i] | _ \<Rightarrow> []) es)"

definition pools_destroyed :: "n46_effect list \<Rightarrow> nat list" where
  "pools_destroyed es = concat (map (\<lambda>e. case e of N_pool_destroyed i \<Rightarrow> [i] | _ \<Rightarrow> []) es)"

primrec task_pools :: "n46_task \<Rightarrow> nat list" where
  "task_pools P_load = []"
| "task_pools (P_parse token) = []"
| "task_pools (P_handshake restoring c) = [ac_id c]"
| "task_pools (P_close after c) = [ac_id c]"
| "task_pools (P_clear restoring) = []"
| "task_pools (P_wait i key secret w) = [i]"
| "task_pools (P_save c) = [ac_id c]"
| "task_pools (P_npub i) = []"
| "task_pools (P_sign i) = []"
| "task_pools (P_ping i) = []"

text \<open>The tasks of \<open>connect\<close>.\<close>

primrec of_connect :: "n46_task \<Rightarrow> bool" where
  "of_connect P_load \<longleftrightarrow> True"
| "of_connect (P_parse token) \<longleftrightarrow> True"
| "of_connect (P_handshake restoring c) \<longleftrightarrow> True"
| "of_connect (P_close after c) \<longleftrightarrow> after \<noteq> Close_disconnect"
| "of_connect (P_clear restoring) \<longleftrightarrow> restoring"
| "of_connect (P_wait i key secret w) \<longleftrightarrow> True"
| "of_connect (P_save c) \<longleftrightarrow> True"
| "of_connect (P_npub i) \<longleftrightarrow> False"
| "of_connect (P_sign i) \<longleftrightarrow> False"
| "of_connect (P_ping i) \<longleftrightarrow> False"

definition connects :: "n46 \<Rightarrow> nat" where
  "connects s = length (filter (of_connect \<circ> snd) (rs_tasks s))"

definition pools_held :: "n46 \<Rightarrow> nat list" where
  "pools_held s =
     (case rs_connection s of None \<Rightarrow> [] | Some c \<Rightarrow> [ac_id c]) @ concat (map (task_pools \<circ> snd) (rs_tasks s))"

text \<open>
  A call under the number \<open>n\<close> runs and has the pools \<open>X\<close> in its hands; with \<open>b\<close> it is a call
  of \<open>connect\<close>, the only one, and there is no connection yet.
\<close>

definition runs :: "bool \<Rightarrow> nat \<Rightarrow> nat list \<Rightarrow> n46 \<Rightarrow> bool" where
  "runs b n X s \<longleftrightarrow>
     jm_ok (rs_tasks s) \<and> n \<notin> fst ` set (rs_tasks s) \<and> (\<forall>m\<in>fst ` set (rs_tasks s). m < rs_next s) \<and> n < rs_next s
     \<and> (if b then connects s = 0 \<and> rs_connection s = None
        else connects s \<le> 1 \<and> (0 < connects s \<longrightarrow> rs_connection s = None))
     \<and> pools_made (rs_trace s) = [0..<rs_opened s]
     \<and> mset [0..<rs_opened s] = mset (pools_destroyed (rs_trace s)) + mset (pools_held s) + mset X"

definition rests :: "n46 \<Rightarrow> bool" where
  "rests s \<longleftrightarrow>
     jm_ok (rs_tasks s) \<and> (\<forall>m\<in>fst ` set (rs_tasks s). m < rs_next s)
     \<and> connects s \<le> 1 \<and> (0 < connects s \<longrightarrow> rs_connection s = None)
     \<and> pools_made (rs_trace s) = [0..<rs_opened s]
     \<and> mset [0..<rs_opened s] = mset (pools_destroyed (rs_trace s)) + mset (pools_held s)"

lemma runs_stop: "runs b n [] s \<Longrightarrow> rests s"
  by (auto simp: runs_def rests_def split: if_splits)

lemma n46_log_sel [simp]:
  "rs_connection (n46_log e s) = rs_connection s" "rs_tasks (n46_log e s) = rs_tasks s"
  "rs_next (n46_log e s) = rs_next s" "rs_opened (n46_log e s) = rs_opened s" "rs_drawn (n46_log e s) = rs_drawn s"
  "rs_connectionUri (n46_log e s) = rs_connectionUri s" "rs_trace (n46_log e s) = rs_trace s @ [e]"
  by (simp_all add: n46_log_def)

lemma pools_append [simp]:
  "pools_made (es @ es') = pools_made es @ pools_made es'" "pools_made [] = []"
  "pools_destroyed (es @ es') = pools_destroyed es @ pools_destroyed es'" "pools_destroyed [] = []"
  by (simp_all add: pools_made_def pools_destroyed_def)

definition poolless :: "n46_effect \<Rightarrow> bool" where
  "poolless e \<longleftrightarrow> (\<forall>i. e \<noteq> N_pool_made i \<and> e \<noteq> N_pool_destroyed i)"

lemma poolless_simps [simp]:
  "poolless (N_bunker_opened i p)" "poolless (N_bunker_closing i)" "poolless (N_requested i m ps)"
  "poolless (N_sign_asked i t)" "poolless (N_ping_asked i)" "poolless (N_key_wiped i)" "poolless (N_token_parsing token)"
  "poolless (N_uri uri)" "poolless (N_pairing i w)" "poolless N_store_load" "poolless (N_store_save txt)"
  "poolless N_store_clear" "poolless (N_resolved n v)" "poolless (N_rejected n err)"
  by (simp_all add: poolless_def)

lemma poolless_pools: "poolless e \<Longrightarrow> pools_made [e] = []" "poolless e \<Longrightarrow> pools_destroyed [e] = []"
  by (auto simp: poolless_def pools_made_def pools_destroyed_def split: n46_effect.split)

lemma runs_log: "runs b n X s \<Longrightarrow> poolless e \<Longrightarrow> runs b n X (n46_log e s)"
  by (auto simp: runs_def poolless_pools connects_def pools_held_def)

lemma runs_same:
  "runs b n X s \<Longrightarrow> rs_connection s' = rs_connection s \<Longrightarrow> rs_tasks s' = rs_tasks s \<Longrightarrow> rs_next s' = rs_next s
     \<Longrightarrow> rs_opened s' = rs_opened s \<Longrightarrow> rs_trace s' = rs_trace s \<Longrightarrow> runs b n X s'"
  by (auto simp: runs_def connects_def pools_held_def)

lemma jm_set_fresh: "k \<notin> fst ` set m \<Longrightarrow> jm_set k v m = m @ [(k, v)]"
  unfolding jm_set_def by (induction m) auto

lemma runs_await:
  assumes "runs b n X s" and "mset (task_pools t) = mset X" and "of_connect t \<longrightarrow> b"
  shows "rests (n46_await n t s)"
proof -
  have n: "n \<notin> fst ` set (rs_tasks s)" using assms(1) by (simp add: runs_def)
  then have "jm_set n t (rs_tasks s) = rs_tasks s @ [(n, t)]"
    by (rule jm_set_fresh)
  then show ?thesis using assms n
    by (auto simp: runs_def rests_def n46_await_def connects_def pools_held_def jm_ok_def split: if_splits)
qed

section \<open>Steps of a call\<close>

text \<open>The pools are the signer's own, and the platform's functions do not throw.\<close>

definition own_pools :: "Nip46SignerOptions \<Rightarrow> bool" where
  "own_pools o' \<longleftrightarrow> \<not> so_pool o' \<and> (\<forall>key p. so_fromBunker o' key p = None) \<and> (\<forall>uri. so_onConnectionUri o' uri = None)"

lemma runs_made: "own_pools o' \<Longrightarrow> runs b n X s \<Longrightarrow> runs b n (rs_opened s # X) (poolFor o' s)"
  by (auto simp: own_pools_def poolFor_def runs_def connects_def pools_held_def pools_made_def
      pools_destroyed_def Let_def split: if_splits)

lemma runs_destroyed: "own_pools o' \<Longrightarrow> runs b n (i # X) s \<Longrightarrow> runs b n X (destroy_pool o' i s)"
  by (auto simp: own_pools_def destroy_pool_def runs_def connects_def pools_held_def pools_made_def
      pools_destroyed_def split: if_splits)

lemma runs_ends: "runs b n [] s \<Longrightarrow> poolless e \<Longrightarrow> rests (n46_log e s)"
  by (rule runs_stop [OF runs_log])

lemma runs_reject: "runs b n [] s \<Longrightarrow> rests (n46_reject n e s)"
  unfolding n46_reject_def by (rule runs_ends) simp_all

lemma runs_established: "runs True n [ac_id c] s \<Longrightarrow> rests (established n c s)"
  by (auto simp: established_def runs_def rests_def connects_def pools_held_def poolless_pools)

lemma runs_persist: "runs True n [ac_id c] s \<Longrightarrow> rests (persist o' n c s)"
  unfolding persist_def by (auto intro: runs_established intro!: runs_await [of True n "[ac_id c]"] runs_log)

lemma runs_close:
  "runs b n [ac_id c] s \<Longrightarrow> after \<noteq> Close_disconnect \<longrightarrow> b \<Longrightarrow> rests (closeConnection n after c s)"
  unfolding closeConnection_def by (rule runs_await [of b n "[ac_id c]"]) (auto intro: runs_log)

lemma runs_clear: "runs b n [] s \<Longrightarrow> rests (clear_after_disconnect o' n s)"
  unfolding clear_after_disconnect_def by (auto intro: runs_ends intro!: runs_await [of b n "[]"] runs_log)

lemma runs_clear_restore: "runs True n [] s \<Longrightarrow> rests (n46_await n (P_clear True) (n46_log N_store_clear s))"
  by (rule runs_await [of True n "[]"]) (auto intro: runs_log)

lemma runs_closed:
  assumes "own_pools o'" and "runs b n [i] s" and "after \<noteq> Close_disconnect \<longrightarrow> b"
  shows "rests (bunker_closed o' n i after s)"
proof -
  have d: "runs b n [] (destroy_pool o' i s)" using assms by (intro runs_destroyed)
  show ?thesis
  proof (cases after)
    case Close_restore
    then show ?thesis using d assms(3) by (auto intro: runs_clear_restore)
  next
    case (Close_reject e)
    then show ?thesis using d by (auto intro: runs_reject)
  next
    case Close_disconnect
    then show ?thesis using d by (auto intro!: runs_clear runs_log)
  qed
qed

lemma runs_open:
  assumes "own_pools o'" and "runs True n [] s"
  shows "rests (openConnection o' n restoring key p s)"
  using assms unfolding openConnection_def handshake_def Let_def own_pools_def
  by (auto intro!: runs_await [of True n "[rs_opened s]"] runs_log runs_made [unfolded own_pools_def])

lemma runs_token:
  assumes "own_pools o'" and "runs True n [] s"
  shows "rests (connectWithBunkerToken o' n token found s)"
proof -
  have "runs True n [] (s\<lparr>rs_drawn := d\<rparr>)" for d using assms(2) by (rule runs_same) simp_all
  then show ?thesis using assms unfolding connectWithBunkerToken_def
    by (auto intro: runs_reject runs_open split: option.split)
qed

lemma runs_paired: "own_pools o' \<Longrightarrow> runs True n [i] s \<Longrightarrow> rests (paired o' n i key secret pubkey s)"
  by (auto simp: own_pools_def paired_def Let_def intro!: runs_persist runs_log)

lemma runs_logs: "runs b n X s \<Longrightarrow> runs b n X (fold (\<lambda>e. n46_log (N_pairing i e)) es s)"
  by (induction es arbitrary: s) (simp_all add: runs_log)

lemma runs_waited:
  assumes "own_pools o'" and "runs True n [i] s"
  shows "rests (after_wait o' n i key secret new w s)"
proof -
  let ?s = "fold (\<lambda>e. n46_log (N_pairing i e)) new s"
  have s: "runs True n [i] ?s" using assms(2) by (rule runs_logs)
  have "rests (n46_await n (P_wait i key secret w) ?s)" by (rule runs_await [OF s]) simp_all
  moreover have "rests (n46_reject n e (destroy_pool o' i ?s))" for e
    by (rule runs_reject [OF runs_destroyed [OF assms(1) s]])
  ultimately show ?thesis
    using runs_paired [OF assms(1) s] by (auto simp: after_wait_def Let_def split: option.split sum.split)
qed

lemma runs_uri:
  assumes "own_pools o'" and "runs True n [] s"
  shows "rests (connectWithNostrConnect o' n relays s)"
proof -
  let ?s = "s\<lparr>rs_drawn := rs_drawn s + 2\<rparr>"
  have "runs True n [] ?s" using assms(2) by (rule runs_same) simp_all
  from runs_made [OF assms(1) this] have "runs True n [rs_opened s] (poolFor o' ?s)" by simp
  then have "runs True n [rs_opened s] ((poolFor o' ?s)\<lparr>rs_connectionUri := u\<rparr>)" for u
    by (rule runs_same) simp_all
  then have "runs True n [rs_opened s] (n46_log (N_uri u) ((poolFor o' ?s)\<lparr>rs_connectionUri := u'\<rparr>))" for u u'
    by (rule runs_log) simp
  then show ?thesis using assms
    by (auto simp: connectWithNostrConnect_def Let_def own_pools_def
        intro: runs_reject intro!: runs_waited [unfolded own_pools_def])
qed

lemma runs_afresh: "own_pools o' \<Longrightarrow> runs True n [] s \<Longrightarrow> rests (connect_afresh o' n s)"
  unfolding connect_afresh_def
  by (auto intro: runs_ends runs_reject runs_uri intro!: runs_await [of True n "[]"] runs_log)

lemma runs_connect: "own_pools o' \<Longrightarrow> runs True n [] s \<Longrightarrow> rests (n46_connect o' n s)"
  unfolding n46_connect_def
  by (auto intro: runs_ends runs_afresh intro!: runs_await [of True n "[]"] runs_log)

lemma runs_restore: "own_pools o' \<Longrightarrow> runs True n [] s \<Longrightarrow> rests (restore o' n plaintext s)"
  unfolding restore_def open_failed_def
  by (auto intro: runs_afresh runs_open runs_clear_restore split: option.split sum.split)

section \<open>A step\<close>

lemma jm_delete_fresh: "k \<notin> fst ` set m \<Longrightarrow> jm_delete k m = m"
  by (auto simp: jm_delete_def filter_id_conv image_iff)

lemma rests_taken:
  assumes "rests s" and "jm_get (rs_tasks s) n = Some t"
  shows "runs (of_connect t) n (task_pools t) (s\<lparr>rs_tasks := jm_delete n (rs_tasks s)\<rparr>)"
proof -
  obtain xs ys where m: "rs_tasks s = xs @ (n, t) # ys"
    using jm_get_in [OF assms(2)] by (meson split_list)
  have k: "n \<notin> fst ` set xs" "n \<notin> fst ` set ys" using assms(1) by (auto simp: rests_def jm_ok_def m)
  then have d: "jm_delete n (rs_tasks s) = xs @ ys"
    using jm_delete_fresh [OF k(1)] jm_delete_fresh [OF k(2)] by (simp add: m jm_delete_def)
  have p: "mset (pools_held s) = mset (pools_held (s\<lparr>rs_tasks := xs @ ys\<rparr>)) + mset (task_pools t)"
    by (simp add: pools_held_def m)
  have c: "connects s = connects (s\<lparr>rs_tasks := xs @ ys\<rparr>) + of_bool (of_connect t)"
    by (simp add: connects_def m)
  have "jm_ok (xs @ ys)" "n < rs_next s" "\<forall>m\<in>fst ` set (xs @ ys). m < rs_next s"
    using assms(1) by (auto simp: rests_def jm_ok_def m)
  then show ?thesis using assms(1) k unfolding runs_def rests_def d p c
    by (auto simp: connects_def)
qed

lemma ends_call: "runs b n [] s \<Longrightarrow> rests (end_call n val r s)"
  unfolding end_call_def by (auto intro: runs_ends runs_reject split: sum.split)

lemma resumed:
  assumes own: "own_pools o'" and r: "n46_resume o' n t a = Some f" and s: "runs (of_connect t) n (task_pools t) s"
  shows "rests (f s)"
proof (cases t)
  case P_load
  then show ?thesis using r s own by (auto intro: runs_restore runs_reject split: n46_answer.splits)
next
  case (P_parse token)
  then show ?thesis using r s own by (auto intro: runs_token split: n46_answer.splits)
next
  case (P_handshake restoring c)
  obtain e where f: "f = handshake_answered o' n restoring c e" using r P_handshake by auto
  have c: "runs True n [ac_id c] s" using s P_handshake by simp
  show ?thesis unfolding f handshake_answered_def
    using runs_close [OF c] runs_established [OF c] runs_persist [OF c] by (auto split: option.split)
next
  case (P_close after c)
  then show ?thesis using r s own runs_closed [OF own, of _ n "ac_id c" s after]
    by (auto split: n46_answer.splits)
next
  case (P_clear restoring)
  then show ?thesis using r s own
    by (auto intro: runs_afresh runs_ends runs_reject split: n46_answer.splits if_splits)
next
  case (P_wait i key secret w)
  then show ?thesis using r s own by (auto simp: Let_def intro: runs_waited split: option.splits)
next
  case (P_save c)
  then show ?thesis using r s own by (auto intro: runs_established runs_close split: n46_answer.splits)
qed (use r s in \<open>auto intro: ends_call runs_ends\<close>)

lemma rests_called:
  assumes "rests s"
  shows "runs False (rs_next s) [] (s\<lparr>rs_next := Suc (rs_next s)\<rparr>)"
    and "connects s = 0 \<Longrightarrow> rs_connection s = None \<Longrightarrow> runs True (rs_next s) [] (s\<lparr>rs_next := Suc (rs_next s)\<rparr>)"
  using assms by (auto simp: rests_def runs_def connects_def pools_held_def intro: less_SucI)

lemma rests_step:
  assumes own: "own_pools o'" and s: "rests s" and lone: "i = J_connect \<Longrightarrow> connects s = 0"
  shows "rests (n46_step o' i s)"
proof (cases i)
  case J_connect
  show ?thesis
  proof (cases "rs_connection s = None")
    case True
    then show ?thesis using J_connect lone runs_connect [OF own rests_called(2) [OF s]] by (simp add: n46_step_def)
  next
    case False
    then show ?thesis using J_connect runs_ends [OF rests_called(1) [OF s]] by (simp add: n46_step_def n46_connect_def)
  qed
next
  case J_disconnect
  let ?s = "s\<lparr>rs_next := Suc (rs_next s)\<rparr>" and ?n = "rs_next s"
  have r: "runs False ?n [] ?s" by (rule rests_called(1) [OF s])
  have "runs False ?n (case rs_connection s of None \<Rightarrow> [] | Some c \<Rightarrow> [ac_id c])
      (?s\<lparr>rs_connection := None, rs_connectionUri := None\<rparr>)"
    using r by (auto simp: runs_def connects_def pools_held_def split: option.splits)
  then show ?thesis using J_disconnect
    by (auto simp: n46_step_def n46_disconnect_def Let_def intro: runs_clear runs_close split: option.splits)
next
  case (J_answer n a)
  then show ?thesis
    using s resumed [OF own _ rests_taken [OF s]]
    by (auto simp: n46_step_def n46_answered_def split: option.split)
next
  case J_getNpub
  then show ?thesis using rests_called(1) [OF s]
    by (auto simp: n46_step_def n46_getNpub_def intro: runs_reject
        intro!: runs_await [of False _ "[]"] runs_log split: option.split)
next
  case (J_signEvent tmpl)
  then show ?thesis using rests_called(1) [OF s]
    by (auto simp: n46_step_def n46_signEvent_def intro: runs_reject
        intro!: runs_await [of False _ "[]"] runs_log split: option.split)
next
  case J_ping
  then show ?thesis using rests_called(1) [OF s]
    by (auto simp: n46_step_def n46_ping_def intro: runs_ends
        intro!: runs_await [of False _ "[]"] runs_log split: option.split)
qed

section \<open>Runs\<close>

text \<open>No call of \<open>connect\<close> starts while another is under way.\<close>

fun lone_connects :: "Nip46SignerOptions \<Rightarrow> n46_input list \<Rightarrow> n46 \<Rightarrow> bool" where
  "lone_connects o' [] s \<longleftrightarrow> True"
| "lone_connects o' (i # inputs) s \<longleftrightarrow>
     (i = J_connect \<longrightarrow> connects s = 0) \<and> lone_connects o' inputs (n46_step o' i s)"

lemma rests_new: "rests createNip46Signer"
  by (simp add: rests_def createNip46Signer_def connects_def pools_held_def)

theorem pools_kept:
  "own_pools o' \<Longrightarrow> rests s \<Longrightarrow> lone_connects o' inputs s \<Longrightarrow> rests (reacts (n46_step o') inputs s)"
  by (induction inputs arbitrary: s) (simp_all add: rests_step)

section \<open>The trace\<close>

definition n46_extends :: "n46 \<Rightarrow> n46 \<Rightarrow> bool" where
  "n46_extends s s' \<longleftrightarrow> (\<exists>new. rs_trace s' = rs_trace s @ new)"

named_theorems extends_intros

lemma n46_extends_refl [simp]: "n46_extends s s"
  by (simp add: n46_extends_def)

lemma n46_extends_log [extends_intros]: "n46_extends s s' \<Longrightarrow> n46_extends s (n46_log e s')"
  by (auto simp: n46_extends_def)

lemma n46_extends_await [extends_intros]: "n46_extends s s' \<Longrightarrow> n46_extends s (n46_await n t s')"
  by (auto simp: n46_extends_def n46_await_def)

lemma n46_extends_same [extends_intros]:
  "n46_extends s s' \<Longrightarrow> n46_extends s (s'\<lparr>rs_connection := c\<rparr>)"
  "n46_extends s s' \<Longrightarrow> n46_extends s (s'\<lparr>rs_connectionUri := u\<rparr>)"
  "n46_extends s s' \<Longrightarrow> n46_extends s (s'\<lparr>rs_drawn := d\<rparr>)"
  "n46_extends s s' \<Longrightarrow> n46_extends s (s'\<lparr>rs_next := d\<rparr>)"
  "n46_extends s s' \<Longrightarrow> n46_extends s (s'\<lparr>rs_opened := d\<rparr>)"
  "n46_extends s s' \<Longrightarrow> n46_extends s (s'\<lparr>rs_tasks := ts\<rparr>)"
  by (auto simp: n46_extends_def)

lemma n46_extends_logs [extends_intros]:
  "n46_extends s s' \<Longrightarrow> n46_extends s (fold (\<lambda>e. n46_log (N_pairing i e)) es s')"
  by (induction es arbitrary: s') (simp_all add: n46_extends_log)

lemma n46_extends_parts [extends_intros]:
  "n46_extends s s' \<Longrightarrow> n46_extends s (poolFor o' s')"
  "n46_extends s s' \<Longrightarrow> n46_extends s (destroy_pool o' i s')"
  "n46_extends s s' \<Longrightarrow> n46_extends s (closeConnection n after c s')"
  "n46_extends s s' \<Longrightarrow> n46_extends s (handshake o' n restoring c s')"
  "n46_extends s s' \<Longrightarrow> n46_extends s (n46_reject n err s')"
  "n46_extends s s' \<Longrightarrow> n46_extends s (established n c s')"
  "n46_extends s s' \<Longrightarrow> n46_extends s (clear_after_disconnect o' n s')"
  "n46_extends s s' \<Longrightarrow> n46_extends s (open_failed n restoring err s')"
  by (simp_all add: poolFor_def destroy_pool_def closeConnection_def handshake_def n46_reject_def established_def
      clear_after_disconnect_def open_failed_def Let_def extends_intros)

lemma n46_extends_connecting [extends_intros]:
  "n46_extends s s' \<Longrightarrow> n46_extends s (persist o' n c s')"
  "n46_extends s s' \<Longrightarrow> n46_extends s (openConnection o' n restoring key p s')"
  by (auto simp: persist_def openConnection_def Let_def intro!: extends_intros split: option.split)

lemma n46_extends_paired [extends_intros]: "n46_extends s s' \<Longrightarrow> n46_extends s (paired o' n i key secret pubkey s')"
  by (auto simp: paired_def Let_def intro!: extends_intros split: option.split)

lemma n46_extends_waited [extends_intros]:
  "n46_extends s s' \<Longrightarrow> n46_extends s (after_wait o' n i key secret new w s')"
  by (auto simp: after_wait_def Let_def intro!: extends_intros split: option.split sum.split)

lemma n46_extends_token [extends_intros]:
  "n46_extends s s' \<Longrightarrow> n46_extends s (connectWithBunkerToken o' n token found s')"
  by (auto simp: connectWithBunkerToken_def intro!: extends_intros split: option.split)

lemma n46_extends_uri [extends_intros]: "n46_extends s s' \<Longrightarrow> n46_extends s (connectWithNostrConnect o' n relays s')"
  by (auto simp: connectWithNostrConnect_def Let_def intro!: extends_intros split: option.split)

lemma n46_extends_afresh [extends_intros]: "n46_extends s s' \<Longrightarrow> n46_extends s (connect_afresh o' n s')"
  by (auto simp: connect_afresh_def intro!: extends_intros)

lemma n46_extends_restore [extends_intros]: "n46_extends s s' \<Longrightarrow> n46_extends s (restore o' n plaintext s')"
  by (auto simp: restore_def intro!: extends_intros split: option.split sum.split)

lemma n46_extends_closed [extends_intros]: "n46_extends s s' \<Longrightarrow> n46_extends s (bunker_closed o' n i after s')"
  by (cases after) (auto intro!: extends_intros)

lemma n46_extends_handshake [extends_intros]:
  "n46_extends s s' \<Longrightarrow> n46_extends s (handshake_answered o' n restoring c e s')"
  by (auto simp: handshake_answered_def intro!: extends_intros split: option.split)

lemma n46_extends_resume:
  "n46_resume o' n t a = Some f \<Longrightarrow> n46_extends s s' \<Longrightarrow> n46_extends s (f s')"
  by (cases t)
    (auto simp: Let_def end_call_def intro!: extends_intros split: n46_answer.splits option.splits sum.split if_splits)

lemma n46_step_appends: "\<exists>new. rs_trace (n46_step o' i s) = rs_trace s @ new"
proof -
  have "n46_extends s (n46_call o' i n s')" if "n46_extends s s'" for n s'
    using that by (cases i)
      (auto simp: n46_connect_def n46_disconnect_def n46_getNpub_def n46_signEvent_def n46_ping_def Let_def
        intro!: extends_intros split: option.split)
  moreover have "n46_extends s (n46_answered o' n a s)" for n a
  proof -
    have "n46_extends s (s\<lparr>rs_tasks := ts\<rparr>)" for ts by (intro extends_intros n46_extends_refl)
    then have "n46_extends s (f (s\<lparr>rs_tasks := ts\<rparr>))" if "n46_resume o' n t a = Some f" for f t ts
      by (rule n46_extends_resume [OF that])
    then show ?thesis by (auto simp: n46_answered_def split: option.split)
  qed
  moreover have "n46_extends s (s\<lparr>rs_next := Suc (rs_next s)\<rparr>)" by (intro extends_intros n46_extends_refl)
  ultimately have "n46_extends s (n46_step o' i s)"
    unfolding n46_step_def by (cases i) (simp_all only: n46_input.case)
  then show ?thesis by (simp add: n46_extends_def)
qed

interpretation n46: reactive "n46_step o'" rs_trace for o'
  by unfold_locales (rule n46_step_appends)

section \<open>The stored record\<close>

definition plain_record :: "StoredConnectionRecord \<Rightarrow> bool" where
  "plain_record rec \<longleftrightarrow> list_all printable (sc_relays rec) \<and> (case sc_secret rec of None \<Rightarrow> True | Some v \<Rightarrow> printable v)"

theorem record_read: "plain_record rec \<Longrightarrow> loaded_record (Some (saved_text nt rec)) = Some rec"
proof -
  assume r: "plain_record rec"
  have "printable (record_json rec)"
    using r by (auto simp: record_json_def plain_record_def CONNECTION_RECORD_VERSION_def plain_number_def is_integer_def
        split: option.splits)
  then have p: "json_parse (saved_text nt rec) = Some (record_json rec)"
    unfolding saved_text_def by (rule json_parse_print)
  moreover have "saved_text nt rec \<noteq> []" by (simp add: saved_text_def record_json_def)
  ultimately show ?thesis
    by (cases "sc_secret rec") (simp_all add: loaded_record_def record_json_def member_def)
qed

end
