(* ===== verification/Nip46Properties.thy ===== *)
theory Nip46Properties
  imports Nip46SignerFacts
begin

text \<open>
  The properties of the remote signer: what ends a pairing, what becomes of the pools it makes,
  what a disconnection undoes and does not, and how a stored pairing is opened again.
\<close>

section \<open>Pairing\<close>

text \<open>
  C17. Pairing by a nostrconnect URI: whatever the relays deliver, in whatever order and from
  inside subscribe or later, the wait ends at most once, with the key of the first event
  that echoes the secret, unless the timer fires before; wrong secrets, errors, auth URLs
  and undecryptable events neither end it nor keep the echo from ending it.
\<close>

theorem pairing_by_secret_alone:
  "outcome_of (find (decisive p) (early_inputs early @ inputs))
     (filter settles (wt_trace (reacts (wait_step p) inputs (waitForNostrConnect p early))))"
  by (rule pairing_ends)

section \<open>Pools\<close>

text \<open>A signer with a token and pools of its own, for the witnesses.\<close>

definition rp_options :: Nip46SignerOptions where
  "rp_options =
     \<lparr>so_connectionToken = Some ''bunker'', so_relays = None, so_store = False, so_pool = False,
      so_permissions = None, so_connectTimeoutMs = None, so_signTimeoutMs = None, so_pingTimeoutMs = None,
      so_onAuthUrl = False, so_onConnectionUri = (\<lambda>_. None), so_generate = (\<lambda>n. [word_of_nat n]),
      so_getPublicKey = bytesToHex, so_npubEncode = Inr, so_createURI = (\<lambda>key relays secret perms. secret),
      so_decrypt = (\<lambda>key pubkey content. Some content), so_fromBunker = (\<lambda>key p. None), so_early = (\<lambda>n. []),
      so_num_text = (\<lambda>_. [])\<rparr>"

definition rp_pointer :: BunkerPointer where
  "rp_pointer = \<lparr>bp_pubkey = ''ab'', bp_relays = [JStr ''wss://r''], bp_secret = None\<rparr>"

definition rp_visit :: "n46_input list" where
  "rp_visit =
     [J_connect, J_answer 0 (R_pointer (Some rp_pointer)), J_answer 0 (R_text ''ack''), J_disconnect,
      J_answer 1 R_done]"

definition rp_conn :: "nat \<Rightarrow> nat \<Rightarrow> ActiveConnection" where
  "rp_conn i k = \<lparr>ac_id = i, ac_pointer = rp_pointer, ac_clientSecretKey = [word_of_nat k]\<rparr>"

definition rp_state ::
  "ActiveConnection option \<Rightarrow> (nat, n46_task) jsmap \<Rightarrow> nat \<Rightarrow> nat \<Rightarrow> nat \<Rightarrow> n46_effect list \<Rightarrow> n46" where
  "rp_state c tasks nx op dr tr =
     \<lparr>rs_connection = c, rs_connectionUri = None, rs_tasks = tasks, rs_next = nx, rs_opened = op, rs_drawn = dr,
      rs_trace = tr\<rparr>"

lemma rp_state_sel [simp]:
  "rs_connection (rp_state c tasks nx op dr tr) = c" "rs_tasks (rp_state c tasks nx op dr tr) = tasks"
  "rs_trace (rp_state c tasks nx op dr tr) = tr"
  by (simp_all add: rp_state_def)

text \<open>What each input does to this signer.\<close>

lemma rp_new: "createNip46Signer = rp_state None [] 0 0 0 []"
  by (simp add: createNip46Signer_def rp_state_def)

lemma rp_connect:
  "n46_step rp_options J_connect (rp_state None tasks nx op dr tr) =
     rp_state None (jm_set nx (P_parse ''bunker'') tasks) (Suc nx) op dr (tr @ [N_token_parsing ''bunker''])"
  by (simp add: n46_step_def n46_connect_def connect_afresh_def n46_await_def n46_log_def rp_state_def rp_options_def)

lemma rp_token:
  "jm_get tasks n = Some (P_parse token) \<Longrightarrow>
   n46_step rp_options (J_answer n (R_pointer (Some rp_pointer))) (rp_state c tasks nx op dr tr) =
     rp_state c (jm_set n (P_handshake False (rp_conn op dr)) (jm_delete n tasks)) nx (Suc op) (Suc dr)
       (tr @ [N_pool_made op, N_bunker_opened op rp_pointer,
              N_requested op ''connect'' [JStr ''ab'', JStr [], JStr ''sign_event:27235'']])"
  by (simp add: n46_step_def n46_answered_def connectWithBunkerToken_def openConnection_def poolFor_def
      n46_log_def Let_def rp_state_def rp_conn_def rp_pointer_def)
    (simp add: rp_options_def handshake_def n46_await_def n46_log_def secret_param_def or_else_def so_perms_def
      DEFAULT_PERMISSIONS_def)

lemma rp_ack:
  "jm_get tasks n = Some (P_handshake False d) \<Longrightarrow>
   n46_step rp_options (J_answer n (R_text ''ack'')) (rp_state c tasks nx op dr tr) =
     rp_state (Some d) (jm_delete n tasks) nx op dr (tr @ [N_resolved n N_done])"
  by (simp add: n46_step_def n46_answered_def text_end_def handshake_answered_def handshake_error_def persist_def
      established_def n46_log_def rp_state_def)
    (simp add: rp_options_def)

lemma rp_disconnect:
  "n46_step rp_options J_disconnect (rp_state (Some c) tasks nx op dr tr) =
     rp_state None (jm_set nx (P_close Close_disconnect c) tasks) (Suc nx) op dr (tr @ [N_bunker_closing (ac_id c)])"
  by (simp add: n46_step_def n46_disconnect_def closeConnection_def n46_await_def n46_log_def Let_def rp_state_def)

lemma rp_closed:
  "jm_get tasks n = Some (P_close Close_disconnect d) \<Longrightarrow>
   n46_step rp_options (J_answer n R_done) (rp_state c tasks nx op dr tr) =
     rp_state c (jm_delete n tasks) nx op dr
       (tr @ [N_pool_destroyed (ac_id d), N_key_wiped (ac_id d), N_resolved n N_done])"
  by (simp add: n46_step_def n46_answered_def destroy_pool_def clear_after_disconnect_def n46_log_def rp_state_def)
    (simp add: rp_options_def)

lemmas rp_steps = rp_connect rp_token rp_ack rp_disconnect rp_closed
lemmas rp_values = jm_get_def jm_set_def jm_delete_def connects_def pools_made_def pools_destroyed_def rp_conn_def

text \<open>
  C18. A remote signer with pools of its own, whose calls of connect do not overlap: every pool
  it makes is destroyed once, or is the pool of the connection or of one call under way;
  when it is disconnected and nothing is under way all are destroyed. The platform's
  constructors and the application's onConnectionUri do not throw.
\<close>

theorem pools_accounted:
  assumes "own_pools o'" and "lone_connects o' inputs createNip46Signer"
    and "s = reacts (n46_step o') inputs createNip46Signer"
  shows "distinct (pools_made (rs_trace s))
     \<and> mset (pools_made (rs_trace s)) = mset (pools_destroyed (rs_trace s)) + mset (pools_held s)
     \<and> (rs_connection s = None \<and> rs_tasks s = [] \<longrightarrow>
          mset (pools_made (rs_trace s)) = mset (pools_destroyed (rs_trace s)))"
proof -
  have "rests s" using pools_kept [OF assms(1) rests_new assms(2)] assms(3) by simp
  then show ?thesis by (auto simp: rests_def pools_held_def)
qed

theorem pools_accounted_witness:
  "pools_made (rs_trace (reacts (n46_step rp_options) rp_visit createNip46Signer)) = [0]
     \<and> mset [0::nat] = mset (pools_destroyed (rs_trace (reacts (n46_step rp_options) rp_visit createNip46Signer)))"
proof -
  let ?s = "reacts (n46_step rp_options) rp_visit createNip46Signer"
  have own: "own_pools rp_options" by (simp add: own_pools_def rp_options_def)
  have lone: "lone_connects rp_options rp_visit createNip46Signer"
    by (simp add: rp_visit_def rp_new rp_steps rp_values)
  have s: "rs_connection ?s = None" "rs_tasks ?s = []" "pools_made (rs_trace ?s) = [0]"
    by (simp_all add: rp_visit_def rp_new rp_steps rp_values)
  have "mset (pools_made (rs_trace ?s)) = mset (pools_destroyed (rs_trace ?s))"
    using pools_accounted [OF own lone refl] s(1,2) by blast
  then show ?thesis unfolding s(3) by (rule conjI [OF refl])
qed

text \<open>
  Two calls of \<open>connect\<close> that overlap both open a connection; the second replaces the first,
  whose pool is then never destroyed: \<open>disconnect\<close> closes only the second.
\<close>

theorem overlapping_connects_leak:
  defines "s \<equiv> reacts (n46_step rp_options)
      [J_connect, J_connect, J_answer 0 (R_pointer (Some rp_pointer)), J_answer 1 (R_pointer (Some rp_pointer)),
       J_answer 0 (R_text ''ack''), J_answer 1 (R_text ''ack''), J_disconnect, J_answer 2 R_done] createNip46Signer"
  shows "rs_connection s = None \<and> rs_tasks s = [] \<and> pools_made (rs_trace s) = [0, 1] \<and> pools_destroyed (rs_trace s) = [1]"
  unfolding s_def by (simp add: rp_new rp_steps rp_values)

section \<open>Disconnecting\<close>

text \<open>
  A call of \<open>disconnect\<close> while \<open>connect\<close> waits for the bunker is undone: it clears the store
  and returns, and the bunker's answer then saves the record again and leaves the signer
  connected.
\<close>

theorem disconnect_undone:
  assumes "jm_get (rs_tasks s) n = Some (P_handshake False c)" and "rs_connection s = None" and "rests s"
    and "so_store o'" and "handshake_error o' c (Race_settled (Inr answer)) = None"
  shows "let s' = reacts (n46_step o')
             [J_disconnect, J_answer (rs_next s) R_done, J_answer n (R_text answer), J_answer n R_done] s
         in rs_connection s' = Some c
            \<and> since rs_trace s s' =
                [N_store_clear, N_resolved (rs_next s) N_done,
                 N_store_save (saved_text (so_num_text o') (connection_record c)), N_resolved n N_done]"
proof -
  have n: "n \<noteq> rs_next s" using jm_get_in [OF assms(1)] assms(3) by (force simp: rests_def)
  let ?d = "rs_next s"
  let ?a = "s\<lparr>rs_next := Suc ?d, rs_connectionUri := None, rs_tasks := jm_set ?d (P_clear False) (rs_tasks s),
      rs_trace := rs_trace s @ [N_store_clear]\<rparr>"
  have a: "n46_step o' J_disconnect s = ?a"
    using assms(2,4) by (simp add: n46_step_def n46_disconnect_def clear_after_disconnect_def n46_await_def n46_log_def)
  let ?b = "?a\<lparr>rs_tasks := jm_delete ?d (rs_tasks ?a), rs_trace := rs_trace ?a @ [N_resolved ?d N_done]\<rparr>"
  have b: "n46_step o' (J_answer ?d R_done) ?a = ?b"
    by (simp add: n46_step_def n46_answered_def n46_log_def)
  let ?t = "N_store_save (saved_text (so_num_text o') (connection_record c))"
  let ?c = "?b\<lparr>rs_tasks := jm_set n (P_save c) (jm_delete n (rs_tasks ?b)), rs_trace := rs_trace ?b @ [?t]\<rparr>"
  have c: "n46_step o' (J_answer n (R_text answer)) ?b = ?c"
    using n assms(1,4,5) by (simp add: n46_step_def n46_answered_def jm_get_delete text_end_def handshake_answered_def
        persist_def n46_await_def n46_log_def)
  have d: "n46_step o' (J_answer n R_done) ?c =
      ?c\<lparr>rs_tasks := jm_delete n (rs_tasks ?c), rs_connection := Some c, rs_trace := rs_trace ?c @ [N_resolved n N_done]\<rparr>"
    by (simp add: n46_step_def n46_answered_def established_def n46_log_def)
  show ?thesis unfolding reacts_simps a b c d by (simp add: Let_def since_def)
qed

section \<open>The stored pairing\<close>

text \<open>The record of a connection re-opens it: with the same key, bunker, relays and secret.\<close>

theorem stored_pairing_restored:
  assumes "list_all printable (bp_relays (ac_pointer c))" and "printable (or_else (bp_secret (ac_pointer c)) JNull)"
  shows "restore o' n (Some (saved_text nt (connection_record c))) s =
     openConnection o' n True (ac_clientSecretKey c)
       ((ac_pointer c)\<lparr>bp_secret := Some (or_else (bp_secret (ac_pointer c)) JNull)\<rparr>) s"
proof -
  have "plain_record (connection_record c)" using assms by (simp add: plain_record_def connection_record_def)
  from record_read [OF this, of nt] show ?thesis
    by (cases "ac_pointer c") (simp add: restore_def connection_record_def hexToBytes_bytesToHex toPointer_def)
qed

end
