(* ===== verification/VoucherMint.thy ===== *)
theory VoucherMint
  imports VoucherLists JsonPrint
begin

text \<open>
  nap-voucher: DLEQ verification (\<open>dleq.ts\<close>) and the client of a Cashu mint
  (\<open>mintClient.ts\<close>). SHA-256, the curve secp256k1 and BIP-340 verification (the noble
  libraries) are the parameter \<open>curve\<close>; a function of theirs that throws gives \<open>None\<close>.

  A mint answers a request as a function of the requests made so far, so that it may answer
  the same question differently each time, or not at all. A thrown \<open>MintUnavailableError\<close> is
  the value \<open>Inl reason\<close>; every other throw is a throw of the action.
\<close>

section \<open>DLEQ\<close>

record 'p curve =
  cv_sha256 :: "byte list \<Rightarrow> byte list"
  cv_base :: 'p
  cv_order :: int
  cv_fromHex :: "string \<Rightarrow> 'p option"
  cv_toHex :: "bool \<Rightarrow> 'p \<Rightarrow> string option"
  cv_add :: "'p \<Rightarrow> 'p \<Rightarrow> 'p"
  cv_negate :: "'p \<Rightarrow> 'p"
  cv_multiply :: "'p \<Rightarrow> int \<Rightarrow> 'p option"
  cv_schnorr :: "byte list \<Rightarrow> byte list \<Rightarrow> byte list \<Rightarrow> bool option"

definition hex_number :: "string \<Rightarrow> int" where
  "hex_number s = foldl (\<lambda>n c. n * 16 + int (or_else (hex_val c) 0)) 0 s"

definition parseScalar :: "'p curve \<Rightarrow> string \<Rightarrow> int option" where
  "parseScalar cv value =
     (let hex = to_lower (js_trim value) in
      if \<not> HEX_64 hex then None
      else let scalar = hex_number hex in
           if 0 < scalar \<and> scalar < cv_order cv then Some scalar else None)"

definition parsePoint :: "'p curve \<Rightarrow> string \<Rightarrow> 'p option" where
  "parsePoint cv value = cv_fromHex cv (to_lower (js_trim value))"

definition DOMAIN_SEPARATOR :: "byte list" where
  "DOMAIN_SEPARATOR = utf8_encode ''Secp256k1_HashToCurve_Cashu_''"

definition dleq_bytesToHex :: "byte list \<Rightarrow> string" where
  "dleq_bytesToHex bs = concat (map byte_hex bs)"

text \<open>\<open>setUint32(0, counter, true)\<close>.\<close>

definition counter_bytes :: "nat \<Rightarrow> byte list" where
  "counter_bytes counter = map (\<lambda>i. word_of_nat (counter div 256 ^ i)) [0..<4]"

function hash_from :: "'p curve \<Rightarrow> byte list \<Rightarrow> nat \<Rightarrow> 'p option" where
  "hash_from cv messageHash counter =
     (if counter < 0x1000000 then
        (case cv_fromHex cv (dleq_bytesToHex (0x02 # cv_sha256 cv (messageHash @ counter_bytes counter))) of
           Some p \<Rightarrow> Some p
         | None \<Rightarrow> hash_from cv messageHash (counter + 1))
      else None)"
  by pat_completeness auto
termination
  by (relation "measure (\<lambda>(_, _, counter). 0x1000000 - counter)") auto

declare hash_from.simps [simp del]

definition hashToCurve :: "'p curve \<Rightarrow> byte list \<Rightarrow> 'p option" where
  "hashToCurve cv secret = hash_from cv (cv_sha256 cv (DOMAIN_SEPARATOR @ secret)) 0"

definition proofY :: "'p curve \<Rightarrow> string \<Rightarrow> string option" where
  "proofY cv secret = Option.bind (hashToCurve cv (utf8_encode secret)) (cv_toHex cv True)"

definition hashE :: "'p curve \<Rightarrow> 'p list \<Rightarrow> byte list option" where
  "hashE cv points =
     (let hexes = map (cv_toHex cv False) points in
      if None \<in> set hexes then None else Some (cv_sha256 cv (utf8_encode (concat (map the hexes)))))"

definition dleq_equation :: "'p curve \<Rightarrow> 'p \<Rightarrow> 'p \<Rightarrow> 'p \<Rightarrow> int \<Rightarrow> int \<Rightarrow> string option" where
  "dleq_equation cv A Bb Cb e s =
     do { sG \<leftarrow> cv_multiply cv (cv_base cv) s;
          eA \<leftarrow> cv_multiply cv A e;
          sB \<leftarrow> cv_multiply cv Bb s;
          eC \<leftarrow> cv_multiply cv Cb e;
          h \<leftarrow> hashE cv [cv_add cv sG (cv_negate cv eA), cv_add cv sB (cv_negate cv eC), A, Cb];
          Some (dleq_bytesToHex h) }"

definition verifyDleq :: "'p curve \<Rightarrow> string \<Rightarrow> string \<Rightarrow> string \<Rightarrow> string \<Rightarrow> string \<Rightarrow> bool" where
  "verifyDleq cv A Bb Cb e s \<longleftrightarrow>
     (case (parsePoint cv A, parsePoint cv Bb, parsePoint cv Cb, parseScalar cv e, parseScalar cv s) of
        (Some pA, Some pB, Some pC, Some ne, Some ns) \<Rightarrow>
          dleq_equation cv pA pB pC ne ns = Some (to_lower (js_trim e))
      | _ \<Rightarrow> False)"

definition verifyProofDleq :: "'p curve \<Rightarrow> string \<Rightarrow> string \<Rightarrow> string \<Rightarrow> string \<Rightarrow> string \<Rightarrow> string \<Rightarrow> bool" where
  "verifyProofDleq cv A secret C e s r \<longleftrightarrow>
     (case (parsePoint cv A, parsePoint cv C, parseScalar cv r) of
        (Some pA, Some pC, Some nr) \<Rightarrow>
          secret \<noteq> []
          \<and> (case do { Y \<leftarrow> hashToCurve cv (utf8_encode secret);
                       rA \<leftarrow> cv_multiply cv pA nr;
                       rG \<leftarrow> cv_multiply cv (cv_base cv) nr;
                       hA \<leftarrow> cv_toHex cv True pA;
                       hB \<leftarrow> cv_toHex cv True (cv_add cv Y rG);
                       hC \<leftarrow> cv_toHex cv True (cv_add cv pC rA);
                       Some (verifyDleq cv hA hB hC e s) } of
               Some ok \<Rightarrow> ok
             | None \<Rightarrow> False)
      | _ \<Rightarrow> False)"

section \<open>The client's state\<close>

datatype ProofState = UNSPENT | SPENT | PENDING

type_synonym keyset = "(string, string) jsmap"

record cache_entry =
  ce_keysets :: "(string, keyset) jsmap"
  ce_expiresAt :: rat
  ce_refreshed :: bool

text \<open>A request by its URL and body (\<open>None\<close> is a \<open>GET\<close>), and its answer.\<close>

record net_request =
  nr_url :: string
  nr_body :: "string option"

datatype net_answer = Net_failed | Net_answer nat "json option"

text \<open>\<open>mw_delay\<close> is how long a request takes, in whole seconds.\<close>

record mint_world =
  mw_cache :: "(string, cache_entry) jsmap"
  mw_requests :: "net_request list"
  mw_answer :: "net_request list \<Rightarrow> net_request \<Rightarrow> net_answer"
  mw_delay :: "net_request list \<Rightarrow> nat"
  mw_now :: int

record 'p mint_client =
  mk_allowlist :: mint_allowlist
  mk_ttl :: rat
  mk_curve :: "'p curve"
  mk_num_text :: num_text

definition createMintClient ::
  "'p curve \<Rightarrow> num_text \<Rightarrow> mint_allowlist option \<Rightarrow> js_num option \<Rightarrow> string + 'p mint_client" where
  "createMintClient cv nt allowlist keysetCacheTtlSeconds =
     (case allowlist of
        None \<Rightarrow> Inl ''allowlist''
      | Some al \<Rightarrow>
          (case or_else keysetCacheTtlSeconds (Fin 3600) of
             Fin ttl \<Rightarrow>
               if ttl \<le> 0 then Inl ''keysetCacheTtlSeconds''
               else Inr \<lparr>mk_allowlist = al, mk_ttl = ttl, mk_curve = cv, mk_num_text = nt\<rparr>
           | _ \<Rightarrow> Inl ''keysetCacheTtlSeconds''))"

section \<open>Keysets\<close>

definition isRecord :: "json \<Rightarrow> bool" where
  "isRecord v \<longleftrightarrow> (case v of JObj _ \<Rightarrow> True | JArr _ \<Rightarrow> True | _ \<Rightarrow> False)"

text \<open>\<open>Object.entries(v)\<close>.\<close>

definition object_entries :: "json \<Rightarrow> (string \<times> json) list" where
  "object_entries v =
     (case v of
        JObj ms \<Rightarrow> ms
      | JArr xs \<Rightarrow> zip (map show_nat [0..<length xs]) xs
      | _ \<Rightarrow> [])"

text \<open>Assigning a string to \<open>__proto__\<close> does nothing.\<close>

definition add_key :: "keyset \<Rightarrow> string \<times> json \<Rightarrow> keyset" where
  "add_key keys entry =
     (case entry of (amount, key) \<Rightarrow>
        (case key of
           JStr k \<Rightarrow> if amount = ''__proto__'' then keys else jm_set amount (to_lower k) keys
         | _ \<Rightarrow> keys))"

definition add_keyset :: "(string, keyset) jsmap \<Rightarrow> json \<Rightarrow> (string, keyset) jsmap" where
  "add_keyset out entry =
     (case (as_string (member entry ''id''), member entry ''keys'') of
        (Some k, Some ks) \<Rightarrow>
          if \<not> isRecord ks then out
          else let keys = foldl add_key [] (object_entries ks) in
               if keys = [] then out else jm_set k keys out
      | _ \<Rightarrow> out)"

definition parseKeysets :: "json \<Rightarrow> MintFailureReason + (string, keyset) jsmap" where
  "parseKeysets payload =
     (case member payload ''keysets'' of
        Some (JArr entries) \<Rightarrow>
          let out = foldl add_keyset [] entries in
          if out = [] then Inl malformed_response else Inr out
      | _ \<Rightarrow> Inl malformed_response)"

section \<open>Requests\<close>

type_synonym ('w, 'a) mint_io = "('w, MintFailureReason + 'a) io"

definition mint_bind :: "('w, 'a) mint_io \<Rightarrow> ('a \<Rightarrow> ('w, 'b) mint_io) \<Rightarrow> ('w, 'b) mint_io" where
  "mint_bind m f = io_bind m (\<lambda>x. case x of Inl reason \<Rightarrow> io_ret (Inl reason) | Inr y \<Rightarrow> f y)"

definition mint_ret :: "'a \<Rightarrow> ('w, 'a) mint_io" where
  "mint_ret x = io_ret (Inr x)"

definition mint_fail :: "MintFailureReason \<Rightarrow> ('w, 'a) mint_io" where
  "mint_fail reason = io_ret (Inl reason)"

definition requireAllowedOrigin :: "'p mint_client \<Rightarrow> string \<Rightarrow> ('w, string) mint_io" where
  "requireAllowedOrigin cl mintUrl =
     (case ml_resolve (mk_allowlist cl) mintUrl of
        None \<Rightarrow> mint_fail mint_not_allowed
      | Some origin \<Rightarrow> if origin = [] then mint_fail mint_not_allowed else mint_ret origin)"

definition mint_request :: "net_request \<Rightarrow> ('m mint_world_scheme, json) mint_io" where
  "mint_request rq w =
     (let answer = mw_answer w (mw_requests w) rq;
          w' = w\<lparr>mw_requests := mw_requests w @ [rq], mw_now := mw_now w + int (mw_delay w (mw_requests w))\<rparr>
      in (Inr (case answer of
                 Net_failed \<Rightarrow> Inl unavailable
               | Net_answer status body \<Rightarrow>
                   if 200 \<le> status \<and> status \<le> 299
                   then (case body of None \<Rightarrow> Inl unavailable | Some payload \<Rightarrow> Inr payload)
                   else if 400 \<le> status \<and> status < 500 then Inl malformed_response
                   else Inl unavailable), w'))"

definition fetch_keysets ::
  "'p mint_client \<Rightarrow> string \<Rightarrow> bool \<Rightarrow> ('m mint_world_scheme, (string, keyset) jsmap) mint_io" where
  "fetch_keysets cl origin wasRefreshed =
     mint_bind (mint_request \<lparr>nr_url = origin @ ''/v1/keys'', nr_body = None\<rparr>) (\<lambda>payload.
       case parseKeysets payload of
         Inl reason \<Rightarrow> mint_fail reason
       | Inr keysets \<Rightarrow>
           io_bind (io_modify (\<lambda>w. w\<lparr>mw_cache := jm_set origin
             \<lparr>ce_keysets = keysets, ce_expiresAt = of_int (mw_now w) + mk_ttl cl,
              ce_refreshed = wasRefreshed\<rparr> (mw_cache w)\<rparr>)) (\<lambda>_. mint_ret keysets))"

definition loadKeysets ::
  "'p mint_client \<Rightarrow> string \<Rightarrow> bool \<Rightarrow> ('m mint_world_scheme, (string, keyset) jsmap) mint_io" where
  "loadKeysets cl origin wasRefreshed =
     io_bind (io_get (\<lambda>w. (jm_get (mw_cache w) origin, mw_now w))) (\<lambda>(cached, now).
       case cached of
         Some entry \<Rightarrow>
           if ce_expiresAt entry > of_int now then mint_ret (ce_keysets entry)
           else fetch_keysets cl origin wasRefreshed
       | None \<Rightarrow> fetch_keysets cl origin wasRefreshed)"

text \<open>\<open>cache.get(origin)?.refreshed === false\<close>.\<close>

definition may_refetch :: "string \<Rightarrow> 'm mint_world_scheme \<Rightarrow> bool" where
  "may_refetch origin w =
     (case jm_get (mw_cache w) origin of Some entry \<Rightarrow> \<not> ce_refreshed entry | None \<Rightarrow> False)"

definition refetch ::
  "'p mint_client \<Rightarrow> string \<Rightarrow> ('m mint_world_scheme, (string, keyset) jsmap) mint_io" where
  "refetch cl origin =
     io_bind (io_modify (\<lambda>w. w\<lparr>mw_cache := jm_delete origin (mw_cache w)\<rparr>)) (\<lambda>_.
       loadKeysets cl origin True)"

definition getKey :: "'p mint_client \<Rightarrow> string \<Rightarrow> string \<Rightarrow> rat \<Rightarrow> ('m mint_world_scheme, string) mint_io" where
  "getKey cl mintUrl keysetId amount =
     mint_bind (requireAllowedOrigin cl mintUrl) (\<lambda>origin.
     mint_bind (loadKeysets cl origin False) (\<lambda>first.
     io_bind (io_get (may_refetch origin)) (\<lambda>again.
     mint_bind (if jm_get first keysetId = None \<and> again then refetch cl origin else mint_ret first) (\<lambda>keysets.
       case jm_get keysets keysetId of
         None \<Rightarrow> mint_fail unknown_keyset
       | Some keys \<Rightarrow>
           let key = jm_get keys (show_number (mk_num_text cl) amount) in
           if truthy_str key then mint_ret (the key) else mint_fail unknown_keyset))))"

section \<open>The state check\<close>

definition checkstate_body :: "num_text \<Rightarrow> string \<Rightarrow> string" where
  "checkstate_body nt Y = json_print nt (JObj [(''Ys'', JArr [JStr Y])])"

definition proof_state :: "string \<Rightarrow> ProofState option" where
  "proof_state s =
     (if s = ''UNSPENT'' then Some UNSPENT
      else if s = ''SPENT'' then Some SPENT
      else if s = ''PENDING'' then Some PENDING else None)"

text \<open>\<open>payload.states.find(..)\<close>: the first entry whose \<open>Y\<close> is ours.\<close>

definition state_of :: "string \<Rightarrow> json \<Rightarrow> MintFailureReason + ProofState" where
  "state_of Y payload =
     (case member payload ''states'' of
        Some (JArr entries) \<Rightarrow>
          (case List.find (\<lambda>e. map_option to_lower (as_string (member e ''Y'')) = Some Y) entries of
             None \<Rightarrow> Inl malformed_response
           | Some e \<Rightarrow>
               (case Option.bind (as_string (member e ''state'')) proof_state of
                  None \<Rightarrow> Inl malformed_response
                | Some st \<Rightarrow> Inr st))
      | _ \<Rightarrow> Inl malformed_response)"

definition checkState :: "'p mint_client \<Rightarrow> string \<Rightarrow> string \<Rightarrow> ('m mint_world_scheme, ProofState) mint_io" where
  "checkState cl mintUrl secret =
     mint_bind (requireAllowedOrigin cl mintUrl) (\<lambda>origin.
       case proofY (mk_curve cl) secret of
         None \<Rightarrow> io_throw ''hash_to_curve''
       | Some Y \<Rightarrow>
           mint_bind (mint_request \<lparr>nr_url = origin @ ''/v1/checkstate'',
                                    nr_body = Some (checkstate_body (mk_num_text cl) Y)\<rparr>) (\<lambda>payload.
             io_ret (state_of Y payload)))"

definition clearCache :: "('m mint_world_scheme, unit) io" where
  "clearCache = io_modify (\<lambda>w. w\<lparr>mw_cache := []\<rparr>)"

section \<open>Running the client\<close>

text \<open>The client only ever adds to the requests, and keeps what it is asked to.\<close>

lemma mint_bind_Inr: "mint_bind m f w = (Inr (Inr y), w') \<longleftrightarrow>
    (\<exists>x w1. m w = (Inr (Inr x), w1) \<and> f x w1 = (Inr (Inr y), w'))"
  by (auto simp: mint_bind_def io_bind_Inr split: sum.splits) (metis io_ret_app prod.inject sum.distinct(1) sum.inject(2) sum.exhaust_sel sum.collapse(1) sum.collapse(2))+

lemma mint_app [simp]: "mint_ret x w = (Inr (Inr x), w)" "mint_fail reason w = (Inr (Inl reason), w)"
  by (simp_all add: mint_ret_def mint_fail_def)

end
