(* ===== verification/VoucherSecret.thy ===== *)
theory VoucherSecret
  imports JsonPrint
begin

text \<open>
  nap-voucher: NUT-10 secrets and the bytes an issuer signs (\<open>secret.ts\<close>).

  A \<open>TypeError\<close> the parser lets through is an \<open>Inl\<close>. \<open>canonical_parse\<close>: the canonical
  text of a secret whose \<open>data\<close> and \<open>nonce\<close> need no escapes is read back by \<open>JSON.parse\<close> as
  its signed part, so that the bytes determine that part.
\<close>

section \<open>\<open>String(value)\<close>\<close>

text \<open>
  \<open>String(value)\<close> of what \<open>JSON.parse\<close> returns. An object with a member \<open>toString\<close> has
  no method of that name, and its inherited \<open>valueOf\<close> gives no primitive: a \<open>TypeError\<close>.
\<close>

definition show_num :: "num_text \<Rightarrow> rat \<Rightarrow> string" where
  "show_num nt x =
     (if js_overflow x then (if x < 0 then ''-Infinity'' else ''Infinity'') else show_number nt x)"

fun js_String :: "num_text \<Rightarrow> json \<Rightarrow> exn + string"
  and js_Strings :: "num_text \<Rightarrow> json list \<Rightarrow> exn + string list" where
  "js_String nt JNull = Inr ''null''"
| "js_String nt (JBool b) = Inr (if b then ''true'' else ''false'')"
| "js_String nt (JNum x) = Inr (show_num nt x)"
| "js_String nt (JStr s) = Inr s"
| "js_String nt (JArr xs) =
     (case js_Strings nt xs of Inl e \<Rightarrow> Inl e | Inr ss \<Rightarrow> Inr (js_join '','' ss))"
| "js_String nt (JObj fs) =
     (if map_of fs ''toString'' \<noteq> None then Inl (Exn ''TypeError'') else Inr ''[object Object]'')"
| "js_Strings nt [] = Inr []"
| "js_Strings nt (x # xs) =
     (case (if x = JNull then Inr [] else js_String nt x) of
        Inl e \<Rightarrow> Inl e
      | Inr s \<Rightarrow> (case js_Strings nt xs of Inl e \<Rightarrow> Inl e | Inr ss \<Rightarrow> Inr (s # ss)))"

section \<open>The parsed secret\<close>

datatype VoucherKind = VOUCHER | P2PK_VOUCHER

primrec kind_str :: "VoucherKind \<Rightarrow> string" where
  "kind_str VOUCHER = ''VOUCHER''"
| "kind_str P2PK_VOUCHER = ''P2PK_VOUCHER''"

definition kind_of :: "json \<Rightarrow> VoucherKind option" where
  "kind_of k =
     (if k = JStr ''VOUCHER'' then Some VOUCHER
      else if k = JStr ''P2PK_VOUCHER'' then Some P2PK_VOUCHER else None)"

definition NUMERIC_TAGS :: "string list" where
  "NUMERIC_TAGS = [''face_value'', ''expires_at'', ''face_decimals'', ''issuance_ratio'']"

definition ADDED_AFTER_SIGNING :: "string list" where
  "ADDED_AFTER_SIGNING = [''issuer_sig'', ''issuer_pubkey'']"

record ParsedVoucherSecret =
  pv_kind :: VoucherKind
  pv_nonce :: "string option"
  pv_data :: string
  pv_tags :: "string list list"
  pv_lockKey :: "string option"
  pv_voucherId :: "string option"
  pv_issuer :: "string option"
  pv_issuerPubkey :: "string option"
  pv_issuerSig :: "string option"
  pv_expiresAt :: "rat option"
  pv_unit :: "string option"
  pv_faceValue :: "rat option"

definition tagValue :: "string list list \<Rightarrow> string \<Rightarrow> string option" where
  "tagValue tags key =
     map_option (\<lambda>tag. tag ! 1) (List.find (\<lambda>tag. length tag > 1 \<and> tag ! 0 = key) tags)"

definition numericTagValue :: "string list list \<Rightarrow> string \<Rightarrow> rat option" where
  "numericTagValue tags key =
     (case tagValue tags key of
        None \<Rightarrow> None
      | Some raw \<Rightarrow> (case js_Number raw of Fin x \<Rightarrow> Some x | _ \<Rightarrow> None))"

definition tag_value :: "num_text \<Rightarrow> json \<Rightarrow> string option" where
  "tag_value nt v =
     (case v of
        JStr s \<Rightarrow> Some s
      | JNum x \<Rightarrow> if js_overflow x then None else Some (show_number nt x)
      | _ \<Rightarrow> None)"

fun tag_values :: "num_text \<Rightarrow> json list \<Rightarrow> string list option" where
  "tag_values nt [] = Some []"
| "tag_values nt (v # vs) =
     (case tag_value nt v of
        None \<Rightarrow> None
      | Some s \<Rightarrow> (case tag_values nt vs of None \<Rightarrow> None | Some ss \<Rightarrow> Some (s # ss)))"

text \<open>The loop over the tags: \<open>Inr None\<close> is the \<open>return null\<close> of a malformed one.\<close>

fun parse_tags :: "num_text \<Rightarrow> string list \<Rightarrow> json list \<Rightarrow> exn + string list list option" where
  "parse_tags nt seenKeys [] = Inr (Some [])"
| "parse_tags nt seenKeys (tag # rest) =
     (case tag of
        JArr (v # vs) \<Rightarrow>
          (case js_String nt v of
             Inl e \<Rightarrow> Inl e
           | Inr key \<Rightarrow>
               if key \<in> set seenKeys then Inr None
               else case tag_values nt (v # vs) of
                      None \<Rightarrow> Inr None
                    | Some values \<Rightarrow>
                        (case parse_tags nt (key # seenKeys) rest of
                           Inl e \<Rightarrow> Inl e
                         | Inr None \<Rightarrow> Inr None
                         | Inr (Some tags) \<Rightarrow> Inr (Some (values # tags))))
      | _ \<Rightarrow> Inr None)"

definition secret_record :: "VoucherKind \<Rightarrow> string option \<Rightarrow> string \<Rightarrow> string list list \<Rightarrow> ParsedVoucherSecret" where
  "secret_record kind nonce data tags =
     \<lparr>pv_kind = kind, pv_nonce = nonce, pv_data = data, pv_tags = tags,
      pv_lockKey = (if kind = P2PK_VOUCHER then Some data else None),
      pv_voucherId = (if kind = P2PK_VOUCHER then tagValue tags ''voucher_id'' else Some data),
      pv_issuer = tagValue tags ''issuer'', pv_issuerPubkey = tagValue tags ''issuer_pubkey'',
      pv_issuerSig = tagValue tags ''issuer_sig'', pv_expiresAt = numericTagValue tags ''expires_at'',
      pv_unit = tagValue tags ''unit'', pv_faceValue = numericTagValue tags ''face_value''\<rparr>"

definition secret_of_body :: "num_text \<Rightarrow> VoucherKind \<Rightarrow> (string \<times> json) list \<Rightarrow> exn + ParsedVoucherSecret option" where
  "secret_of_body nt kind members =
     (let rawNonce = or_else (map_of members ''nonce'') JNull; rawTags = or_else (map_of members ''tags'') JNull in
      if rawNonce \<noteq> JNull \<and> as_string (Some rawNonce) = None then Inr None
      else case as_string (map_of members ''data'') of
             None \<Rightarrow> Inr None
           | Some data \<Rightarrow>
               (case (case rawTags of JNull \<Rightarrow> Inr (Some []) | JArr xs \<Rightarrow> parse_tags nt [] xs | _ \<Rightarrow> Inr None) of
                  Inl e \<Rightarrow> Inl e
                | Inr None \<Rightarrow> Inr None
                | Inr (Some tags) \<Rightarrow> Inr (Some (secret_record kind (as_string (Some rawNonce)) data tags))))"

definition parseVoucherSecret :: "num_text \<Rightarrow> string \<Rightarrow> exn + ParsedVoucherSecret option" where
  "parseVoucherSecret nt secret =
     (if secret = [] then Inr None
      else case json_parse secret of
             Some (JArr [k, JObj members]) \<Rightarrow>
               (case kind_of k of None \<Rightarrow> Inr None | Some kind \<Rightarrow> secret_of_body nt kind members)
           | _ \<Rightarrow> Inr None)"

section \<open>The signed bytes\<close>

definition escape_char :: "char \<Rightarrow> string" where
  "escape_char c =
     (if c = CHR 0x22 then [CHR 0x5C, CHR 0x22]
      else if c = CHR 0x5C then [CHR 0x5C, CHR 0x5C]
      else if c = CHR 0x08 then [CHR 0x5C, CHR ''b'']
      else if c = CHR 0x0C then [CHR 0x5C, CHR ''f'']
      else if c = CHR 0x0A then [CHR 0x5C, CHR ''n'']
      else if c = CHR 0x0D then [CHR 0x5C, CHR ''r'']
      else if c = CHR 0x09 then [CHR 0x5C, CHR ''t'']
      else if (of_char c :: nat) < 0x20
      then [CHR 0x5C, CHR ''u'', CHR ''0'', CHR ''0'', hex_char (of_char c div 16), hex_char (of_char c mod 16)]
      else [c])"

definition escapeJson :: "string \<Rightarrow> string" where
  "escapeJson s = concat (map escape_char s)"

definition renderNumber :: "num_text \<Rightarrow> string \<Rightarrow> string" where
  "renderNumber nt raw = (case js_Number raw of Fin x \<Rightarrow> show_number nt x | _ \<Rightarrow> ''0'')"

definition render_value :: "num_text \<Rightarrow> string \<Rightarrow> string \<Rightarrow> string" where
  "render_value nt key v =
     (if key \<in> set NUMERIC_TAGS then renderNumber nt v else quoted (escapeJson v))"

definition tag_key :: "string list \<Rightarrow> string" where
  "tag_key tag = (case tag of [] \<Rightarrow> [] | k # _ \<Rightarrow> k)"

definition render_tag :: "num_text \<Rightarrow> string list \<Rightarrow> string" where
  "render_tag nt tag =
     ''['' @ quoted (escapeJson (tag_key tag))
     @ concat (map (\<lambda>v. '','' @ render_value nt (tag_key tag) v) (tl tag)) @ '']''"

definition signed_tags :: "string list list \<Rightarrow> string list list" where
  "signed_tags tags = filter (\<lambda>tag. tag_key tag \<notin> set ADDED_AFTER_SIGNING) tags"

definition canonical_text :: "num_text \<Rightarrow> ParsedVoucherSecret \<Rightarrow> string" where
  "canonical_text nt secret =
     ''['' @ quoted (kind_str (pv_kind secret)) @ '','' @ quoted (pv_data secret) @ '',''
     @ quoted (or_else (pv_nonce secret) []) @ '',['' @ js_join '','' (map (render_tag nt) (signed_tags (pv_tags secret)))
     @ '']]''"

definition voucherCanonicalBytes :: "num_text \<Rightarrow> ParsedVoucherSecret \<Rightarrow> byte list" where
  "voucherCanonicalBytes nt secret = utf8_encode (canonical_text nt secret)"

section \<open>What the bytes determine\<close>

lemma escapeJson_print: "quoted (escapeJson s) = json_quote s"
proof -
  have "escape_char = json_escape_char" by (rule ext) (simp add: escape_char_def json_escape_char_def)
  then show ?thesis by (simp add: escapeJson_def json_quote_def)
qed

definition signed_value :: "string \<Rightarrow> string \<Rightarrow> json" where
  "signed_value key v =
     (if key \<in> set NUMERIC_TAGS then (case js_Number v of Fin x \<Rightarrow> JNum x | _ \<Rightarrow> JNum 0) else JStr v)"

definition signed_json :: "ParsedVoucherSecret \<Rightarrow> json" where
  "signed_json s =
     JArr [JStr (kind_str (pv_kind s)), JStr (pv_data s), JStr (or_else (pv_nonce s) []),
       JArr (map (\<lambda>tag. JArr (JStr (tag_key tag) # map (signed_value (tag_key tag)) (tl tag)))
              (signed_tags (pv_tags s)))]"

text \<open>No character of the text is escaped by \<open>JSON.stringify\<close>.\<close>

definition unescaped :: "string \<Rightarrow> bool" where
  "unescaped s \<longleftrightarrow> list_all (\<lambda>c. json_escape_char c = [c]) s"

definition plain_secret :: "ParsedVoucherSecret \<Rightarrow> bool" where
  "plain_secret s \<longleftrightarrow>
     unescaped (pv_data s) \<and> unescaped (or_else (pv_nonce s) []) \<and> printable (signed_json s)"

lemma unescaped_quote: "unescaped s \<Longrightarrow> quoted s = json_quote s"
proof -
  assume "unescaped s"
  then have "concat (map json_escape_char s) = s" unfolding unescaped_def by (induction s) auto
  then show ?thesis by (simp add: json_quote_def)
qed

lemma kind_quote: "quoted (kind_str k) = json_quote (kind_str k)"
proof -
  have "unescaped (kind_str VOUCHER)" "unescaped (kind_str P2PK_VOUCHER)" by code_simp+
  then show ?thesis by (cases k) (simp_all add: unescaped_quote del: kind_str.simps)
qed

lemma render_value_print: "render_value nt key v = json_print nt (signed_value key v)"
proof -
  have "show_number nt 0 = ''0''" by (simp add: show_number_def plain_number_def is_integer_def) code_simp
  then show ?thesis
    by (auto simp: render_value_def signed_value_def renderNumber_def escapeJson_print split: js_num.split)
qed

lemma join_concat: "js_join sep (w # ws) = w @ concat (map (\<lambda>v. sep @ v) ws)"
  by (induction ws arbitrary: w) simp_all

lemma render_tag_print:
  "render_tag nt tag = json_print nt (JArr (JStr (tag_key tag) # map (signed_value (tag_key tag)) (tl tag)))"
  by (simp add: render_tag_def join_concat comp_def render_value_print escapeJson_print)

lemma canonical_print: "plain_secret s \<Longrightarrow> canonical_text nt s = json_print nt (signed_json s)"
proof -
  have "render_tag nt = (\<lambda>tag. json_print nt (JArr (JStr (tag_key tag) # map (signed_value (tag_key tag)) (tl tag))))"
    by (rule ext) (rule render_tag_print)
  then show "plain_secret s \<Longrightarrow> canonical_text nt s = json_print nt (signed_json s)"
    by (simp add: plain_secret_def canonical_text_def signed_json_def unescaped_quote kind_quote comp_def)
qed

lemma canonical_parse: "plain_secret s \<Longrightarrow> json_parse (canonical_text nt s) = Some (signed_json s)"
  using canonical_print by (simp add: json_parse_print plain_secret_def)

lemma kind_str_inj [simp]: "kind_str k = kind_str l \<longleftrightarrow> k = l"
  by (cases k; cases l) simp_all

section \<open>What the parser promises\<close>

lemma tag_values_length: "tag_values nt vs = Some ss \<Longrightarrow> length ss = length vs"
  by (induction vs arbitrary: ss) (auto split: option.splits)

lemma string_key: "js_String nt v = Inr key \<Longrightarrow> tag_value nt v = Some s \<Longrightarrow> s = key"
  by (cases v) (auto simp: tag_value_def show_num_def split: if_splits)

text \<open>No key occurs twice, and no tag is empty.\<close>

lemma parse_tags_keys:
  "parse_tags nt seenKeys xs = Inr (Some tags) \<Longrightarrow>
     distinct (map tag_key tags) \<and> [] \<notin> set tags \<and> set (map tag_key tags) \<inter> set seenKeys = {}"
proof (induction xs arbitrary: seenKeys tags)
  case (Cons tag rest)
  then obtain v vs key vals ts where t: "tag = JArr (v # vs)" "js_String nt v = Inr key" "key \<notin> set seenKeys"
      "tag_values nt (v # vs) = Some vals" "parse_tags nt (key # seenKeys) rest = Inr (Some ts)" "tags = vals # ts"
    by (auto split: json.splits list.splits sum.splits if_splits option.splits)
  then obtain s ss where v: "tag_value nt v = Some s" "vals = s # ss" by (auto split: option.splits)
  have "tag_key vals = key" using string_key [OF t(2) v(1)] v(2) by (simp add: tag_key_def)
  then show ?case using Cons.IH [OF t(5)] t(3,6) v(2) by auto
qed simp

lemma parse_secret_shape:
  assumes "parseVoucherSecret nt text = Inr (Some s)"
  shows "pv_lockKey s = (if pv_kind s = P2PK_VOUCHER then Some (pv_data s) else None)"
    and "pv_expiresAt s = numericTagValue (pv_tags s) ''expires_at''"
    and "pv_issuerPubkey s = tagValue (pv_tags s) ''issuer_pubkey''"
    and "pv_issuerSig s = tagValue (pv_tags s) ''issuer_sig''"
    and "distinct (map tag_key (pv_tags s))"
proof -
  obtain kind members where "secret_of_body nt kind members = Inr (Some s)"
    using assms by (auto simp: parseVoucherSecret_def split: if_splits option.splits json.splits list.splits)
  then obtain nonce data tags where s: "s = secret_record kind nonce data tags"
    and t: "tags = [] \<or> (\<exists>xs. parse_tags nt [] xs = Inr (Some tags))"
    by (auto simp: secret_of_body_def Let_def split: if_splits option.splits sum.splits json.splits)
  then show "pv_lockKey s = (if pv_kind s = P2PK_VOUCHER then Some (pv_data s) else None)"
    "pv_expiresAt s = numericTagValue (pv_tags s) ''expires_at''"
    "pv_issuerPubkey s = tagValue (pv_tags s) ''issuer_pubkey''"
    "pv_issuerSig s = tagValue (pv_tags s) ''issuer_sig''"
    by (simp_all add: secret_record_def)
  show "distinct (map tag_key (pv_tags s))"
    using t parse_tags_keys by (auto simp: s secret_record_def)
qed

end
