(* ===== verification/VoucherResolver.thy ===== *)
theory VoucherResolver
  imports VoucherMint VoucherSecret
begin

text \<open>
  nap-voucher: the access control resolver for vouchers (\<open>resolver.ts\<close>).

  It runs over the mint client's state, the audit events and the state of the resolver it may
  fall back on. The functions an application supplies are functions of the options; one that
  may throw returns \<open>Inl\<close>. A credential is \<open>unknown\<close> to the resolver: its members are JSON
  values or absent. \<open>voucher_resolver\<close> is the resolver as the server calls it, with the
  credential the server has parsed.
\<close>

section \<open>Codes and records\<close>

datatype VoucherDenialCode =
    VC_MINT_NOT_ALLOWED | VC_MALFORMED | VC_DLEQ_INVALID | VC_BINDING_MISMATCH | VC_ISSUER_UNTRUSTED
  | VC_EXPIRED | VC_SPENT | VC_MINT_UNAVAILABLE | VC_ABSENT | VC_GRANT_NOT_IN_REGISTRY

primrec VOUCHER_DENIAL_CODES :: "VoucherDenialCode \<Rightarrow> string" where
  "VOUCHER_DENIAL_CODES VC_MINT_NOT_ALLOWED = ''NAP_VOUCHER_MINT_NOT_ALLOWED''"
| "VOUCHER_DENIAL_CODES VC_MALFORMED = ''NAP_VOUCHER_MALFORMED''"
| "VOUCHER_DENIAL_CODES VC_DLEQ_INVALID = ''NAP_VOUCHER_DLEQ_INVALID''"
| "VOUCHER_DENIAL_CODES VC_BINDING_MISMATCH = ''NAP_VOUCHER_BINDING_MISMATCH''"
| "VOUCHER_DENIAL_CODES VC_ISSUER_UNTRUSTED = ''NAP_VOUCHER_ISSUER_UNTRUSTED''"
| "VOUCHER_DENIAL_CODES VC_EXPIRED = ''NAP_VOUCHER_EXPIRED''"
| "VOUCHER_DENIAL_CODES VC_SPENT = ''NAP_VOUCHER_SPENT''"
| "VOUCHER_DENIAL_CODES VC_MINT_UNAVAILABLE = ''NAP_VOUCHER_MINT_UNAVAILABLE''"
| "VOUCHER_DENIAL_CODES VC_ABSENT = ''NAP_VOUCHER_ABSENT''"
| "VOUCHER_DENIAL_CODES VC_GRANT_NOT_IN_REGISTRY = ''NAP_VOUCHER_GRANT_NOT_IN_REGISTRY''"

record VerifiedVoucher =
  vv_mintUrl :: string
  vv_issuerPubkey :: string
  vv_voucherId :: "string option"
  vv_issuer :: "string option"
  vv_unit :: "string option"
  vv_faceValue :: "rat option"
  vv_expiresAt :: "rat option"
  vv_lockedTo :: string
  vv_secret :: ParsedVoucherSecret

record VoucherGrant =
  vg_roles :: "string list"
  vg_permissions :: "string list"

record voucher_event =
  ve_code :: string
  ve_npub :: string
  ve_pubkey :: string
  ve_success :: bool
  ve_details :: "(string \<times> json) list"

record 'f voucher_world = mint_world +
  vw_audit :: "voucher_event list"
  vw_fallback :: 'f

record raw_credential =
  rc_mint_url :: "json option"
  rc_keyset_id :: "json option"
  rc_secret :: "json option"
  rc_signature :: "json option"
  rc_amount :: "json option"
  rc_dleq :: "json option"

record PermissionRegistryLike =
  rl_permissions :: "string list"
  rl_roles :: "string list"

datatype missing_credential = Missing_deny | Missing_trust_session

text \<open>\<open>vo_audit\<close>: whether the logger throws on the next event.\<close>

record ('p, 'f) voucher_options =
  vo_mintAllowlist :: mint_allowlist
  vo_issuerAllowlist :: issuer_allowlist
  vo_mintClient :: "'p mint_client"
  vo_availability :: availability_policy
  vo_grant :: "VerifiedVoucher \<Rightarrow> exn + VoucherGrant option"
  vo_permissionRegistry :: "PermissionRegistryLike option"
  vo_auditLogger :: "(voucher_event list \<Rightarrow> voucher_event \<Rightarrow> bool) option"
  vo_fallback :: "'f resolver option"
  vo_onMissingCredential :: missing_credential

text \<open>The options as an operator passes them, any of them possibly forgotten.\<close>

record ('p, 'f) voucher_wiring =
  wi_mintAllowlist :: "mint_allowlist option"
  wi_issuerAllowlist :: "issuer_allowlist option"
  wi_mintClient :: "'p mint_client option"
  wi_availability :: "availability_policy option"
  wi_grant :: "(VerifiedVoucher \<Rightarrow> exn + VoucherGrant option) option"
  wi_permissionRegistry :: "PermissionRegistryLike option"
  wi_auditLogger :: "(voucher_event list \<Rightarrow> voucher_event \<Rightarrow> bool) option"
  wi_fallback :: "'f resolver option"
  wi_onMissingCredential :: "missing_credential option"

section \<open>Local checks\<close>

definition voucher_DENY :: "string \<Rightarrow> AclDecision" where
  "voucher_DENY reason =
     \<lparr>d_allowed = False, d_roles = [], d_permissions = [], d_reason = Some reason,
      d_revoke_sessions = None, d_expires_at = None\<rparr>"

text \<open>\<open>/^0[23][0-9a-f]{64}$/\<close>.\<close>

definition compressed_key :: "string \<Rightarrow> bool" where
  "compressed_key s \<longleftrightarrow> (take 2 s = ''02'' \<or> take 2 s = ''03'') \<and> is_hex_string 64 (drop 2 s)"

definition lockKeyMatchesPubkey :: "string \<Rightarrow> string \<Rightarrow> bool" where
  "lockKeyMatchesPubkey lockKey pubkey =
     (let lock = to_lower (js_trim lockKey); signer = to_lower (js_trim pubkey) in
      if \<not> is_hex_string 64 signer then False
      else if compressed_key lock then drop 2 lock = signer
      else is_hex_string 64 lock \<and> lock = signer)"

fun hex_decode :: "string \<Rightarrow> byte list" where
  "hex_decode (a # b # r) =
     word_of_nat (or_else (hex_val a) 0 * 16 + or_else (hex_val b) 0) # hex_decode r"
| "hex_decode _ = []"

definition issuer_key_hex :: "string \<Rightarrow> string" where
  "issuer_key_hex issuerPubkey =
     (if compressed_key (to_lower issuerPubkey) then drop 2 issuerPubkey else issuerPubkey)"

definition verifyIssuerSignature :: "'p curve \<Rightarrow> num_text \<Rightarrow> ParsedVoucherSecret \<Rightarrow> bool" where
  "verifyIssuerSignature cv nt secret =
     (if \<not> truthy_str (pv_issuerSig secret) \<or> \<not> truthy_str (pv_issuerPubkey secret) then False
      else let issuerSig = the (pv_issuerSig secret); key = issuer_key_hex (the (pv_issuerPubkey secret)) in
           if \<not> is_hex_string 64 (to_lower key) \<or> \<not> is_hex_string 128 (to_lower issuerSig) then False
           else cv_schnorr cv (hex_decode issuerSig)
                  (cv_sha256 cv (voucherCanonicalBytes nt secret)) (hex_decode key) = Some True)"

definition undeclaredKeys :: "PermissionRegistryLike option \<Rightarrow> VoucherGrant option \<Rightarrow> string list" where
  "undeclaredKeys registry granted =
     (case registry of
        None \<Rightarrow> []
      | Some reg \<Rightarrow>
          filter (\<lambda>key. key \<notin> set (rl_permissions reg)) (case granted of None \<Rightarrow> [] | Some g \<Rightarrow> vg_permissions g)
          @ filter (\<lambda>key. key \<notin> set (rl_roles reg)) (case granted of None \<Rightarrow> [] | Some g \<Rightarrow> vg_roles g))"

section \<open>Answers\<close>

definition voucher_audit :: "('p, 'f) voucher_options \<Rightarrow> voucher_event \<Rightarrow> ('f voucher_world, unit) io" where
  "voucher_audit opts ev w =
     (case vo_auditLogger opts of
        None \<Rightarrow> (Inr (), w)
      | Some throws \<Rightarrow>
          (if throws (vw_audit w) ev then Inl (Exn ''audit'') else Inr (),
           w\<lparr>vw_audit := vw_audit w @ [ev]\<rparr>))"

definition voucher_deny ::
  "('p, 'f) voucher_options \<Rightarrow> string \<Rightarrow> string \<Rightarrow> VoucherDenialCode \<Rightarrow> (string \<times> json) list
     \<Rightarrow> ('f voucher_world, AclDecision) io" where
  "voucher_deny opts npub pubkey code details =
     io_bind (voucher_audit opts \<lparr>ve_code = VOUCHER_DENIAL_CODES code, ve_npub = npub, ve_pubkey = pubkey,
                                  ve_success = False, ve_details = details\<rparr>) (\<lambda>_.
       io_ret (voucher_DENY (VOUCHER_DENIAL_CODES code)))"

definition json_opt :: "string option \<Rightarrow> json" where
  "json_opt x = (case x of None \<Rightarrow> JNull | Some s \<Rightarrow> JStr s)"

primrec reason_str :: "MintFailureReason \<Rightarrow> string" where
  "reason_str mint_not_allowed = ''mint_not_allowed''"
| "reason_str unavailable = ''unavailable''"
| "reason_str malformed_response = ''malformed_response''"
| "reason_str unknown_keyset = ''unknown_keyset''"

primrec state_str :: "ProofState \<Rightarrow> string" where
  "state_str UNSPENT = ''UNSPENT''"
| "state_str SPENT = ''SPENT''"
| "state_str PENDING = ''PENDING''"

text \<open>No credential.\<close>

definition resolve_absent ::
  "('p, 'f) voucher_options \<Rightarrow> string \<Rightarrow> string \<Rightarrow> AclResolutionContext \<Rightarrow> ('f voucher_world, AclDecision) io" where
  "resolve_absent opts npub pubkey context =
     (case vo_fallback opts of
        Some fallback \<Rightarrow> io_on vw_fallback (\<lambda>f w. w\<lparr>vw_fallback := f (vw_fallback w)\<rparr>) (fallback npub pubkey context)
      | None \<Rightarrow>
          (case cx_session context of
             Some (roles, permissions) \<Rightarrow>
               if vo_onMissingCredential opts = Missing_trust_session
               then io_ret \<lparr>d_allowed = True, d_roles = roles, d_permissions = permissions, d_reason = None,
                            d_revoke_sessions = None, d_expires_at = None\<rparr>
               else voucher_deny opts npub pubkey VC_ABSENT
                      [(''note'', JStr ''guard re-resolution has no credential; see onMissingCredential'')]
           | None \<Rightarrow> voucher_deny opts npub pubkey VC_ABSENT []))"

text \<open>The mint did not answer as it should, for a voucher that passed every local check.\<close>

definition resolve_unavailable ::
  "('p, 'f) voucher_options \<Rightarrow> string \<Rightarrow> string \<Rightarrow> ParsedVoucherSecret \<Rightarrow> MintFailureReason
     \<Rightarrow> ('f voucher_world, AclDecision) io" where
  "resolve_unavailable opts npub pubkey secret reason =
     (case ap_decide (vo_availability opts) reason of
        Avail_deny _ \<Rightarrow>
          voucher_deny opts npub pubkey VC_MINT_UNAVAILABLE [(''reason'', JStr (reason_str reason))]
      | Avail_degrade grant \<Rightarrow>
          let degradedUnknown = undeclaredKeys (vo_permissionRegistry opts)
                (Some \<lparr>vg_roles = dg_roles grant, vg_permissions = dg_permissions grant\<rparr>)
          in if degradedUnknown \<noteq> []
             then voucher_deny opts npub pubkey VC_GRANT_NOT_IN_REGISTRY
                    [(''unknown'', JArr (map JStr degradedUnknown)), (''degraded'', JBool True)]
             else io_bind (voucher_audit opts
                    \<lparr>ve_code = VOUCHER_DENIAL_CODES VC_MINT_UNAVAILABLE, ve_npub = npub, ve_pubkey = pubkey,
                     ve_success = True,
                     ve_details = [(''reason'', JStr (reason_str reason)), (''degraded'', JBool True)]\<rparr>) (\<lambda>_.
                  io_ret \<lparr>d_allowed = True, d_roles = dg_roles grant, d_permissions = dg_permissions grant,
                          d_reason = Some ''NAP_VOUCHER_DEGRADED'', d_revoke_sessions = None,
                          d_expires_at = map_option Fin (pv_expiresAt secret)\<rparr>))"

text \<open>The voucher is verified: the policy and its registry.\<close>

definition verified_voucher :: "string \<Rightarrow> string \<Rightarrow> ParsedVoucherSecret \<Rightarrow> VerifiedVoucher" where
  "verified_voucher mintUrl pubkey secret =
     \<lparr>vv_mintUrl = mintUrl, vv_issuerPubkey = or_else (pv_issuerPubkey secret) [],
      vv_voucherId = pv_voucherId secret, vv_issuer = pv_issuer secret, vv_unit = pv_unit secret,
      vv_faceValue = pv_faceValue secret, vv_expiresAt = pv_expiresAt secret, vv_lockedTo = pubkey,
      vv_secret = secret\<rparr>"

definition resolve_verified ::
  "('p, 'f) voucher_options \<Rightarrow> string \<Rightarrow> string \<Rightarrow> string \<Rightarrow> ParsedVoucherSecret
     \<Rightarrow> ('f voucher_world, AclDecision) io" where
  "resolve_verified opts npub pubkey mintUrl secret =
     (case vo_grant opts (verified_voucher mintUrl pubkey secret) of
        Inl e \<Rightarrow> (\<lambda>w. (Inl e, w))
      | Inr granted \<Rightarrow>
          let unknown = undeclaredKeys (vo_permissionRegistry opts) granted in
          if unknown \<noteq> []
          then voucher_deny opts npub pubkey VC_GRANT_NOT_IN_REGISTRY [(''unknown'', JArr (map JStr unknown))]
          else io_bind (voucher_audit opts
                 \<lparr>ve_code = ''NAP_VOUCHER_ACCEPTED'', ve_npub = npub, ve_pubkey = pubkey, ve_success = True,
                  ve_details = [(''mint_url'', JStr mintUrl), (''voucher_id'', json_opt (pv_voucherId secret)),
                                (''issuer'', json_opt (pv_issuer secret))]\<rparr>) (\<lambda>_.
               io_ret \<lparr>d_allowed = True,
                       d_roles = (case granted of None \<Rightarrow> [] | Some g \<Rightarrow> vg_roles g),
                       d_permissions = (case granted of None \<Rightarrow> [] | Some g \<Rightarrow> vg_permissions g),
                       d_reason = None, d_revoke_sessions = None,
                       d_expires_at = map_option Fin (pv_expiresAt secret)\<rparr>))"

section \<open>The order of the checks\<close>

datatype local_outcome =
    Local_denied VoucherDenialCode "(string \<times> json) list"
  | Local_ok string string string rat ParsedVoucherSecret

text \<open>
  Everything that needs no network, in order: the mint, the shape, the secret, the binding,
  the expiry, the issuer's signature and the issuer. \<open>Local_ok\<close> carries the mint's origin, the
  keyset, the signature, the amount and the secret. \<open>Inl\<close>: the secret's parser threw.
\<close>

definition local_secret ::
  "('p, 'f) voucher_options \<Rightarrow> string \<Rightarrow> int \<Rightarrow> string \<Rightarrow> ParsedVoucherSecret
     \<Rightarrow> (VoucherDenialCode \<times> (string \<times> json) list) option" where
  "local_secret opts pubkey now mintUrl secret =
     (if \<not> truthy_str (pv_lockKey secret) \<or> \<not> lockKeyMatchesPubkey (the (pv_lockKey secret)) pubkey
      then Some (VC_BINDING_MISMATCH, [(''kind'', JStr (kind_str (pv_kind secret)))])
      else if (case pv_expiresAt secret of None \<Rightarrow> False | Some e \<Rightarrow> e \<le> of_int now)
      then Some (VC_EXPIRED, [(''expires_at'', JNum (the (pv_expiresAt secret)))])
      else if \<not> verifyIssuerSignature (mk_curve (vo_mintClient opts)) (mk_num_text (vo_mintClient opts)) secret
              \<or> \<not> truthy_str (pv_issuerPubkey secret)
      then Some (VC_ISSUER_UNTRUSTED, [])
      else if \<not> il_allows (vo_issuerAllowlist opts) mintUrl (the (pv_issuerPubkey secret))
      then Some (VC_ISSUER_UNTRUSTED, [(''issuer_pubkey'', JStr (the (pv_issuerPubkey secret)))])
      else None)"

definition local_checks ::
  "('p, 'f) voucher_options \<Rightarrow> string \<Rightarrow> int \<Rightarrow> raw_credential \<Rightarrow> exn + local_outcome" where
  "local_checks opts pubkey now cred =
     (case Option.bind (as_string (rc_mint_url cred)) (ml_resolve (vo_mintAllowlist opts)) of
        None \<Rightarrow> Inr (Local_denied VC_MINT_NOT_ALLOWED [])
      | Some mintUrl \<Rightarrow>
          if mintUrl = [] then Inr (Local_denied VC_MINT_NOT_ALLOWED [])
          else case (as_string (rc_secret cred), as_string (rc_signature cred), as_string (rc_keyset_id cred),
                     as_number (rc_amount cred)) of
                 (Some text, Some signature, Some keysetId, Some amount) \<Rightarrow>
                   (case parseVoucherSecret (mk_num_text (vo_mintClient opts)) text of
                      Inl e \<Rightarrow> Inl e
                    | Inr None \<Rightarrow> Inr (Local_denied VC_MALFORMED [])
                    | Inr (Some secret) \<Rightarrow>
                        (case local_secret opts pubkey now mintUrl secret of
                           Some (code, details) \<Rightarrow> Inr (Local_denied code details)
                         | None \<Rightarrow> Inr (Local_ok mintUrl keysetId signature amount secret)))
               | _ \<Rightarrow> Inr (Local_denied VC_MALFORMED []))"

definition dleq_parts :: "json option \<Rightarrow> (string \<times> string \<times> string) option" where
  "dleq_parts dleq =
     (case dleq of
        None \<Rightarrow> None
      | Some d \<Rightarrow>
          (case (as_string (member d ''e''), as_string (member d ''s''), as_string (member d ''r'')) of
             (Some e, Some s, Some r) \<Rightarrow> Some (e, s, r)
           | _ \<Rightarrow> None))"

datatype mint_verdict = Mint_refuses VoucherDenialCode "(string \<times> json) list" | Mint_confirms

text \<open>The \<open>try\<close> block: the key, the DLEQ proof, the state of the proof.\<close>

definition ask_mint ::
  "'p mint_client \<Rightarrow> string \<Rightarrow> string \<Rightarrow> rat \<Rightarrow> string \<Rightarrow> string \<Rightarrow> json option
     \<Rightarrow> ('m mint_world_scheme, mint_verdict) mint_io" where
  "ask_mint cl mintUrl keysetId amount text signature dleq =
     mint_bind (getKey cl mintUrl keysetId amount) (\<lambda>A.
       case dleq_parts dleq of
         None \<Rightarrow> mint_ret (Mint_refuses VC_MALFORMED [])
       | Some (e, s, r) \<Rightarrow>
           if \<not> verifyProofDleq (mk_curve cl) A text signature e s r
           then mint_ret (Mint_refuses VC_DLEQ_INVALID [])
           else mint_bind (checkState cl mintUrl text) (\<lambda>st.
                  if st \<noteq> UNSPENT
                  then mint_ret (Mint_refuses VC_SPENT [(''state'', JStr (state_str st))])
                  else mint_ret Mint_confirms))"

definition voucher_resolve ::
  "('p, 'f) voucher_options \<Rightarrow> string \<Rightarrow> string \<Rightarrow> AclResolutionContext \<Rightarrow> raw_credential option
     \<Rightarrow> ('f voucher_world, AclDecision) io" where
  "voucher_resolve opts npub pubkey context credential =
     (case credential of
        None \<Rightarrow> resolve_absent opts npub pubkey context
      | Some cred \<Rightarrow>
          (case local_checks opts pubkey (cx_now context) cred of
             Inl e \<Rightarrow> (\<lambda>w. (Inl e, w))
           | Inr (Local_denied code details) \<Rightarrow> voucher_deny opts npub pubkey code details
           | Inr (Local_ok mintUrl keysetId signature amount secret) \<Rightarrow>
               io_bind (ask_mint (vo_mintClient opts) mintUrl keysetId amount
                          (the (as_string (rc_secret cred))) signature (rc_dleq cred)) (\<lambda>answer.
                 case answer of
                   Inl reason \<Rightarrow> resolve_unavailable opts npub pubkey secret reason
                 | Inr (Mint_refuses code details) \<Rightarrow> voucher_deny opts npub pubkey code details
                 | Inr Mint_confirms \<Rightarrow> resolve_verified opts npub pubkey mintUrl secret)))"

section \<open>As the server calls it\<close>

definition raw_of :: "VoucherCredential \<Rightarrow> raw_credential" where
  "raw_of v =
     \<lparr>rc_mint_url = Some (JStr (v_mint_url v)), rc_keyset_id = Some (JStr (v_keyset_id v)),
      rc_secret = Some (JStr (v_secret v)), rc_signature = Some (JStr (v_signature v)),
      rc_amount = Some (JNum (of_int (v_amount v))),
      rc_dleq = Some (JObj [(''e'', JStr (v_dleq_e v)), (''s'', JStr (v_dleq_s v)), (''r'', JStr (v_dleq_r v))])\<rparr>"

definition voucher_resolver :: "('p, 'f) voucher_options \<Rightarrow> 'f voucher_world resolver" where
  "voucher_resolver opts npub pubkey context =
     voucher_resolve opts npub pubkey context (map_option raw_of (cx_voucher context))"

text \<open>The wiring: the first option that is missing is named.\<close>

definition createVoucherAclResolver :: "('p, 'f) voucher_wiring \<Rightarrow> string + 'f voucher_world resolver" where
  "createVoucherAclResolver wi =
     (case (wi_mintAllowlist wi, wi_issuerAllowlist wi, wi_mintClient wi, wi_availability wi, wi_grant wi) of
        (None, _) \<Rightarrow> Inl ''mintAllowlist''
      | (_, None, _) \<Rightarrow> Inl ''issuerAllowlist''
      | (_, _, None, _) \<Rightarrow> Inl ''mintClient''
      | (_, _, _, None, _) \<Rightarrow> Inl ''availability''
      | (_, _, _, _, None) \<Rightarrow> Inl ''grant''
      | (Some mints, Some issuers, Some client, Some availability, Some grant) \<Rightarrow>
          Inr (voucher_resolver
            \<lparr>vo_mintAllowlist = mints, vo_issuerAllowlist = issuers, vo_mintClient = client,
             vo_availability = availability, vo_grant = grant,
             vo_permissionRegistry = wi_permissionRegistry wi, vo_auditLogger = wi_auditLogger wi,
             vo_fallback = wi_fallback wi,
             vo_onMissingCredential = or_else (wi_onMissingCredential wi) Missing_deny\<rparr>))"

end
