(* ===== verification/VoucherFacts.thy ===== *)
theory VoucherFacts
  imports VoucherResolver
begin

text \<open>
  What the voucher resolver guarantees: the order of its checks, which requests the mint client
  makes and how many, and what stands behind a grant.
\<close>

section \<open>Which requests are made\<close>

text \<open>Requests to the two endpoints of the mint at \<open>origin\<close>, after those of \<open>rs\<close>.\<close>

definition mint_urls :: "string \<Rightarrow> string set" where
  "mint_urls origin = {origin @ ''/v1/keys'', origin @ ''/v1/checkstate''}"

definition asked :: "net_request list \<Rightarrow> string \<Rightarrow> 'm mint_world_scheme \<Rightarrow> bool" where
  "asked rs origin w \<longleftrightarrow> (\<exists>new. mw_requests w = rs @ new \<and> (\<forall>rq\<in>set new. nr_url rq \<in> mint_urls origin))"

lemma asked_start: "asked (mw_requests w) origin w"
  by (simp add: asked_def)

lemma asked_bind: "keeps I m \<Longrightarrow> (\<And>x. keeps I (f x)) \<Longrightarrow> keeps I (io_bind m f)"
  by (rule trip_bind)

lemma keeps_sum:
  "(\<And>x. s = Inl x \<Longrightarrow> keeps I (a x)) \<Longrightarrow> (\<And>y. s = Inr y \<Longrightarrow> keeps I (b y)) \<Longrightarrow> keeps I (case_sum a b s)"
  by (cases s) simp_all

lemma keeps_mint_bind: "keeps I m \<Longrightarrow> (\<And>x. keeps I (f x)) \<Longrightarrow> keeps I (mint_bind m f)"
  unfolding mint_bind_def by (intro asked_bind keeps_sum trip_ret)

lemma keeps_pure: "keeps I (io_ret x)" "keeps I (mint_ret y)" "keeps I (mint_fail r)" "keeps I (io_throw e)" "keeps I (io_get g)"
  by (simp_all add: mint_ret_def mint_fail_def trip_def)

lemma keeps_modify: "(\<And>w. I w \<Longrightarrow> I (f w)) \<Longrightarrow> keeps I (io_modify f)"
  by (simp add: trip_def)

lemmas keeps_rules = keeps_mint_bind asked_bind keeps_sum keeps_pure keeps_modify trip_option trip_if

lemma keeps_request: "nr_url rq \<in> mint_urls origin \<Longrightarrow> keeps (asked rs origin) (mint_request rq)"
  by (auto simp: trip_def mint_request_def asked_def Let_def)

lemma asked_cache [simp]: "asked rs origin (w\<lparr>mw_cache := c\<rparr>) = asked rs origin w"
  by (simp add: asked_def)

lemma keeps_fetch: "keeps (asked rs origin) (fetch_keysets cl origin r)"
  unfolding fetch_keysets_def by (intro keeps_rules keeps_request) (auto simp: mint_urls_def)

lemma keeps_load: "keeps (asked rs origin) (loadKeysets cl origin r)"
proof -
  have "keeps (asked rs origin) (case x of (cached, now) \<Rightarrow> (case cached of
         Some entry \<Rightarrow>
           if ce_expiresAt entry > of_int now then mint_ret (ce_keysets entry) else fetch_keysets cl origin r
       | None \<Rightarrow> fetch_keysets cl origin r))" for x :: "cache_entry option \<times> int"
    by (cases x) (auto intro!: keeps_rules keeps_fetch)
  then show ?thesis unfolding loadKeysets_def by (intro asked_bind keeps_pure)
qed

lemma keeps_refetch: "keeps (asked rs origin) (refetch cl origin)"
  unfolding refetch_def by (intro keeps_rules keeps_load) simp

lemma keeps_require: "keeps I (requireAllowedOrigin cl url)"
  unfolding requireAllowedOrigin_def by (intro keeps_rules)

text \<open>Where the client refuses the URL nothing is asked; else its origin is.\<close>

definition asks_origin :: "'p mint_client \<Rightarrow> string \<Rightarrow> string \<Rightarrow> bool" where
  "asks_origin cl url origin \<longleftrightarrow>
     ml_resolve (mk_allowlist cl) url = Some origin \<or> ml_resolve (mk_allowlist cl) url = None"

lemma require_bind:
  assumes "asks_origin cl url origin" and "keeps I (f origin)"
  shows "keeps I (mint_bind (requireAllowedOrigin cl url) f)"
  using assms by (auto simp: asks_origin_def requireAllowedOrigin_def mint_bind_def mint_ret_def mint_fail_def
      trip_def io_bind_def split: if_splits)

lemma keeps_getKey:
  assumes "asks_origin cl url origin"
  shows "keeps (asked rs origin) (getKey cl url keysetId amount)"
  unfolding getKey_def Let_def by (intro require_bind [OF assms] keeps_rules keeps_load keeps_refetch)

lemma keeps_checkState:
  assumes "asks_origin cl url origin"
  shows "keeps (asked rs origin) (checkState cl url secret)"
  unfolding checkState_def
  by (intro require_bind [OF assms] keeps_rules keeps_request) (simp add: mint_urls_def)

lemma keeps_ask_mint:
  assumes "asks_origin cl url origin"
  shows "keeps (asked rs origin) (ask_mint cl url keysetId amount text signature dleq)"
proof -
  have "keeps (asked rs origin) (case p of None \<Rightarrow> mint_ret (Mint_refuses VC_MALFORMED [])
       | Some (e, s, r) \<Rightarrow>
           if \<not> verifyProofDleq (mk_curve cl) A text signature e s r
           then mint_ret (Mint_refuses VC_DLEQ_INVALID [])
           else mint_bind (checkState cl url text) (\<lambda>st.
                  if st \<noteq> UNSPENT
                  then mint_ret (Mint_refuses VC_SPENT [(''state'', JStr (state_str st))])
                  else mint_ret Mint_confirms))" for p A
    by (cases p) (auto intro!: keeps_rules keeps_checkState [OF assms])
  then show ?thesis unfolding ask_mint_def by (intro keeps_mint_bind keeps_getKey [OF assms])
qed

section \<open>The resolver\<close>

text \<open>The voucher passes every check that needs no network, for a completion by \<open>pubkey\<close>.\<close>

definition locally_valid ::
  "('p, 'f) voucher_options \<Rightarrow> string \<Rightarrow> int \<Rightarrow> VoucherCredential \<Rightarrow> string \<Rightarrow> ParsedVoucherSecret \<Rightarrow> bool" where
  "locally_valid opts pubkey now v mintUrl secret \<longleftrightarrow>
     ml_resolve (vo_mintAllowlist opts) (v_mint_url v) = Some mintUrl
     \<and> parseVoucherSecret (mk_num_text (vo_mintClient opts)) (v_secret v) = Inr (Some secret)
     \<and> pv_kind secret = P2PK_VOUCHER \<and> lockKeyMatchesPubkey (pv_data secret) pubkey
     \<and> (case pv_expiresAt secret of None \<Rightarrow> True | Some e \<Rightarrow> of_int now < e)
     \<and> verifyIssuerSignature (mk_curve (vo_mintClient opts)) (mk_num_text (vo_mintClient opts)) secret
     \<and> (case pv_issuerPubkey secret of None \<Rightarrow> False | Some k \<Rightarrow> il_allows (vo_issuerAllowlist opts) mintUrl k)"

lemma local_secret_None:
  assumes "parseVoucherSecret nt text = Inr (Some secret)" and "local_secret opts pubkey now mintUrl secret = None"
  shows "pv_kind secret = P2PK_VOUCHER \<and> lockKeyMatchesPubkey (pv_data secret) pubkey
     \<and> (case pv_expiresAt secret of None \<Rightarrow> True | Some e \<Rightarrow> of_int now < e)
     \<and> verifyIssuerSignature (mk_curve (vo_mintClient opts)) (mk_num_text (vo_mintClient opts)) secret
     \<and> (case pv_issuerPubkey secret of None \<Rightarrow> False | Some k \<Rightarrow> il_allows (vo_issuerAllowlist opts) mintUrl k)"
  using assms(2) parse_secret_shape(1) [OF assms(1)]
  by (auto simp: local_secret_def not_le split: if_splits option.splits elim: truthy_strE)

lemma local_checks_ok:
  assumes "local_checks opts pubkey now (raw_of v) = Inr (Local_ok mintUrl keysetId signature amount secret)"
  shows "locally_valid opts pubkey now v mintUrl secret" and "keysetId = v_keyset_id v"
    and "signature = v_signature v" and "amount = of_int (v_amount v)"
proof -
  have p: "parseVoucherSecret (mk_num_text (vo_mintClient opts)) (v_secret v) = Inr (Some secret)"
    and l: "local_secret opts pubkey now mintUrl secret = None"
    and m: "ml_resolve (vo_mintAllowlist opts) (v_mint_url v) = Some mintUrl"
    and r: "keysetId = v_keyset_id v" "signature = v_signature v" "amount = of_int (v_amount v)"
    using assms
    by (auto simp: local_checks_def raw_of_def as_string_def as_number_def split: if_splits option.splits sum.splits)
  show "locally_valid opts pubkey now v mintUrl secret"
    unfolding locally_valid_def using m p local_secret_None [OF p l] by blast
  show "keysetId = v_keyset_id v" "signature = v_signature v" "amount = of_int (v_amount v)" by (fact r)+
qed

lemma voucher_audit_requests: "voucher_audit opts ev w = (r, w') \<Longrightarrow> mw_requests w' = mw_requests w"
  by (auto simp: voucher_audit_def split: option.splits)

lemma voucher_deny_run:
  assumes "voucher_deny opts npub pubkey code details w = (r, w')"
  shows "mw_requests w' = mw_requests w"
    and "\<And>d. r = Inr d \<Longrightarrow> d = voucher_DENY (VOUCHER_DENIAL_CODES code)"
    and "vo_auditLogger opts \<noteq> None \<Longrightarrow> vw_audit w' = vw_audit w @
           [\<lparr>ve_code = VOUCHER_DENIAL_CODES code, ve_npub = npub, ve_pubkey = pubkey, ve_success = False,
             ve_details = details\<rparr>]"
  using assms by (auto simp: voucher_deny_def voucher_audit_def io_bind_def split: option.splits if_splits)

lemma after_mint_requests:
  "resolve_unavailable opts npub pubkey secret reason w = (r, w') \<Longrightarrow> mw_requests w' = mw_requests w"
  "resolve_verified opts npub pubkey mintUrl secret w = (r, w') \<Longrightarrow> mw_requests w' = mw_requests w"
  by (auto simp: resolve_unavailable_def resolve_verified_def Let_def io_bind_def
      dest: voucher_deny_run(1) voucher_audit_requests
      split: AvailabilityDecision.splits if_splits prod.splits sum.splits)

text \<open>
  No request is made unless every local check has passed, and those made go to the mint that
  both allowlists know.
\<close>

lemma contact:
  assumes r: "voucher_resolver opts npub pubkey context w = (x, w')" and v: "cx_voucher context = Some v"
    and c: "mw_requests w' \<noteq> mw_requests w"
  shows "\<exists>mintUrl secret origin. locally_valid opts pubkey (cx_now context) v mintUrl secret
     \<and> ml_resolve (mk_allowlist (vo_mintClient opts)) mintUrl = Some origin \<and> asked (mw_requests w) origin w'"
proof -
  let ?cl = "vo_mintClient opts"
  obtain mintUrl keysetId signature amount secret where
      l: "local_checks opts pubkey (cx_now context) (raw_of v) = Inr (Local_ok mintUrl keysetId signature amount secret)"
    using r c v
    by (auto simp: voucher_resolver_def voucher_resolve_def dest: voucher_deny_run(1)
        split: sum.splits local_outcome.splits)
  obtain y w1 where a: "ask_mint ?cl mintUrl keysetId amount (v_secret v) signature (rc_dleq (raw_of v)) w = (y, w1)"
    by fastforce
  have same: "mw_requests w' = mw_requests w1"
    using r v l a
    by (auto simp: voucher_resolver_def voucher_resolve_def io_bind_def raw_of_def as_string_def
        dest: voucher_deny_run(1) after_mint_requests split: sum.splits mint_verdict.splits)
  have "\<exists>origin. ml_resolve (mk_allowlist ?cl) mintUrl = Some origin"
  proof (rule ccontr)
    assume "\<not> ?thesis"
    then have n: "ml_resolve (mk_allowlist ?cl) mintUrl = None" by simp
    then have "mw_requests w1 = mw_requests w"
      using a by (auto simp: ask_mint_def getKey_def requireAllowedOrigin_def mint_bind_def io_bind_def
          mint_fail_def n split: option.splits)
    then show False using same c by simp
  qed
  then obtain origin where o: "ml_resolve (mk_allowlist ?cl) mintUrl = Some origin" by blast
  then have "asks_origin ?cl mintUrl origin" by (simp add: asks_origin_def)
  then have "asked (mw_requests w) origin w1"
    using trip_anyD [OF keeps_ask_mint asked_start a] by blast
  then show ?thesis using local_checks_ok(1) [OF l] o same by (auto simp: asked_def)
qed

text \<open>What stands behind a grant.\<close>

definition mint_confirmed ::
  "'p mint_client \<Rightarrow> string \<Rightarrow> VoucherCredential \<Rightarrow> 'm mint_world_scheme \<Rightarrow> bool" where
  "mint_confirmed cl mintUrl v w \<longleftrightarrow>
     (\<exists>A w1 w2. getKey cl mintUrl (v_keyset_id v) (of_int (v_amount v)) w = (Inr (Inr A), w1)
        \<and> verifyProofDleq (mk_curve cl) A (v_secret v) (v_signature v) (v_dleq_e v) (v_dleq_s v) (v_dleq_r v)
        \<and> checkState cl mintUrl (v_secret v) w1 = (Inr (Inr UNSPENT), w2))"

definition mint_failed ::
  "'p mint_client \<Rightarrow> string \<Rightarrow> VoucherCredential \<Rightarrow> MintFailureReason \<Rightarrow> 'm mint_world_scheme \<Rightarrow> bool" where
  "mint_failed cl mintUrl v reason w \<longleftrightarrow>
     (\<exists>w1. getKey cl mintUrl (v_keyset_id v) (of_int (v_amount v)) w = (Inr (Inl reason), w1))
     \<or> (\<exists>A w1 w2. getKey cl mintUrl (v_keyset_id v) (of_int (v_amount v)) w = (Inr (Inr A), w1)
        \<and> verifyProofDleq (mk_curve cl) A (v_secret v) (v_signature v) (v_dleq_e v) (v_dleq_s v) (v_dleq_r v)
        \<and> checkState cl mintUrl (v_secret v) w1 = (Inr (Inl reason), w2))"

lemma dleq_parts_raw: "dleq_parts (rc_dleq (raw_of v)) = Some (v_dleq_e v, v_dleq_s v, v_dleq_r v)"
  by (simp add: dleq_parts_def raw_of_def member_def jm_get_def as_string_def)

lemma ask_mint_cases:
  assumes "ask_mint cl mintUrl (v_keyset_id v) (of_int (v_amount v)) (v_secret v) (v_signature v) (rc_dleq (raw_of v)) w
     = (Inr y, w')"
  shows "(y = Inr Mint_confirms \<and> mint_confirmed cl mintUrl v w)
     \<or> (\<exists>reason. y = Inl reason \<and> mint_failed cl mintUrl v reason w)
     \<or> (\<exists>code details. y = Inr (Mint_refuses code details))"
proof -
  let ?checked = "\<lambda>A. verifyProofDleq (mk_curve cl) A (v_secret v) (v_signature v) (v_dleq_e v) (v_dleq_s v) (v_dleq_r v)"
  obtain g w1 where g: "getKey cl mintUrl (v_keyset_id v) (of_int (v_amount v)) w = (Inr g, w1)"
    using assms by (auto simp: ask_mint_def mint_bind_def io_bind_Inr)
  show ?thesis
  proof (cases g)
    case (Inl reason)
    then show ?thesis using assms g by (auto simp: ask_mint_def mint_bind_def mint_failed_def)
  next
    case (Inr A)
    show ?thesis
    proof (cases "?checked A")
      case False
      then show ?thesis using assms g Inr by (auto simp: ask_mint_def mint_bind_def dleq_parts_raw)
    next
      case True
      then obtain st w2 where st: "checkState cl mintUrl (v_secret v) w1 = (Inr st, w2)"
        using assms g Inr by (auto simp: ask_mint_def mint_bind_def dleq_parts_raw io_bind_Inr)
      show ?thesis
        using assms g Inr True st
        by (cases st) (auto simp: ask_mint_def mint_bind_def dleq_parts_raw mint_failed_def mint_confirmed_def split: if_splits)
    qed
  qed
qed

lemma resolve_unavailable_run:
  assumes "resolve_unavailable opts npub pubkey secret reason w = (Inr d, w')" and "d_allowed d"
  shows "\<exists>grant. ap_decide (vo_availability opts) reason = Avail_degrade grant
     \<and> undeclaredKeys (vo_permissionRegistry opts) (Some \<lparr>vg_roles = dg_roles grant, vg_permissions = dg_permissions grant\<rparr>) = []
     \<and> d_roles d = dg_roles grant \<and> d_permissions d = dg_permissions grant
     \<and> d_reason d = Some ''NAP_VOUCHER_DEGRADED'' \<and> d_expires_at d = map_option Fin (pv_expiresAt secret)"
  using assms
  by (auto simp: resolve_unavailable_def Let_def io_bind_Inr voucher_DENY_def dest!: voucher_deny_run(2)
      split: AvailabilityDecision.splits if_splits)

lemma resolve_verified_run:
  assumes "resolve_verified opts npub pubkey mintUrl secret w = (Inr d, w')" and "d_allowed d"
  shows "\<exists>granted. vo_grant opts (verified_voucher mintUrl pubkey secret) = Inr granted
     \<and> undeclaredKeys (vo_permissionRegistry opts) granted = []
     \<and> d_roles d = (case granted of None \<Rightarrow> [] | Some g \<Rightarrow> vg_roles g)
     \<and> d_permissions d = (case granted of None \<Rightarrow> [] | Some g \<Rightarrow> vg_permissions g)
     \<and> d_reason d = None \<and> d_expires_at d = map_option Fin (pv_expiresAt secret)"
  using assms
  by (auto simp: resolve_verified_def Let_def io_bind_Inr voucher_DENY_def dest!: voucher_deny_run(2)
      split: sum.splits if_splits)

lemma resolver_allows:
  assumes r: "voucher_resolver opts npub pubkey context w = (Inr d, w')" and v: "cx_voucher context = Some v"
    and a: "d_allowed d"
  shows "\<exists>mintUrl secret. locally_valid opts pubkey (cx_now context) v mintUrl secret
     \<and> d_expires_at d = map_option Fin (pv_expiresAt secret)
     \<and> ((mint_confirmed (vo_mintClient opts) mintUrl v w
          \<and> d_reason d = None \<and> (\<exists>granted. vo_grant opts (verified_voucher mintUrl pubkey secret) = Inr granted
              \<and> undeclaredKeys (vo_permissionRegistry opts) granted = []
              \<and> d_roles d = (case granted of None \<Rightarrow> [] | Some g \<Rightarrow> vg_roles g)
              \<and> d_permissions d = (case granted of None \<Rightarrow> [] | Some g \<Rightarrow> vg_permissions g)))
        \<or> (\<exists>reason grant. mint_failed (vo_mintClient opts) mintUrl v reason w
              \<and> ap_decide (vo_availability opts) reason = Avail_degrade grant
              \<and> undeclaredKeys (vo_permissionRegistry opts) (Some \<lparr>vg_roles = dg_roles grant, vg_permissions = dg_permissions grant\<rparr>) = []
              \<and> d_reason d = Some ''NAP_VOUCHER_DEGRADED'' \<and> d_roles d = dg_roles grant \<and> d_permissions d = dg_permissions grant))"
proof -
  let ?cl = "vo_mintClient opts"
  have nd: "\<not> d_allowed d" if "voucher_deny opts npub pubkey code details w1 = (Inr d, w')" for code details w1
    using voucher_deny_run(2) [OF that] by (simp add: voucher_DENY_def)
  obtain mintUrl keysetId signature amount secret where
      l: "local_checks opts pubkey (cx_now context) (raw_of v) = Inr (Local_ok mintUrl keysetId signature amount secret)"
    using r a v nd
    by (auto simp: voucher_resolver_def voucher_resolve_def split: sum.splits local_outcome.splits)
  note l' = local_checks_ok [OF l]
  obtain y w1 where m: "ask_mint ?cl mintUrl (v_keyset_id v) (of_int (v_amount v)) (v_secret v) (v_signature v)
        (rc_dleq (raw_of v)) w = (Inr y, w1)"
    and k: "(case y of Inl reason \<Rightarrow> resolve_unavailable opts npub pubkey secret reason
         | Inr (Mint_refuses code details) \<Rightarrow> voucher_deny opts npub pubkey code details
         | Inr Mint_confirms \<Rightarrow> resolve_verified opts npub pubkey mintUrl secret) w1 = (Inr d, w')"
    using r v l l'(2-4)
    by (auto simp: voucher_resolver_def voucher_resolve_def io_bind_Inr raw_of_def as_string_def)
  from ask_mint_cases [OF m] show ?thesis
  proof (elim disjE exE conjE)
    assume "y = Inr Mint_confirms" and c: "mint_confirmed ?cl mintUrl v w"
    then have "resolve_verified opts npub pubkey mintUrl secret w1 = (Inr d, w')" using k by simp
    from resolve_verified_run [OF this a] show ?thesis using l'(1) c by blast
  next
    fix reason assume "y = Inl reason" and c: "mint_failed ?cl mintUrl v reason w"
    then have "resolve_unavailable opts npub pubkey secret reason w1 = (Inr d, w')" using k by simp
    from resolve_unavailable_run [OF this a] show ?thesis using l'(1) c by blast
  next
    fix code details assume "y = Inr (Mint_refuses code details)"
    then have "voucher_deny opts npub pubkey code details w1 = (Inr d, w')" using k by simp
    from nd [OF this] show ?thesis using a by blast
  qed
qed

text \<open>The keys a registry declares.\<close>

lemma undeclared_none:
  "undeclaredKeys (Some reg) (Some g) = [] \<longleftrightarrow>
     set (vg_permissions g) \<subseteq> set (rl_permissions reg) \<and> set (vg_roles g) \<subseteq> set (rl_roles reg)"
  by (auto simp: undeclaredKeys_def filter_empty_conv)

section \<open>What is audited\<close>

definition audited :: "voucher_event list \<Rightarrow> 'f voucher_world \<Rightarrow> bool" where
  "audited evs w \<longleftrightarrow> vw_audit w = evs"

lemma audited_mint [simp]:
  "audited evs (w\<lparr>mw_cache := c\<rparr>) = audited evs w" "audited evs (w\<lparr>mw_requests := r, mw_now := t\<rparr>) = audited evs w"
  by (simp_all add: audited_def)

lemma audits_request: "keeps (audited evs) (mint_request rq)"
  by (simp add: trip_def mint_request_def Let_def)

lemma audits_load: "keeps (audited evs) (loadKeysets cl origin r)"
proof -
  have f: "keeps (audited evs) (fetch_keysets cl origin r)"
    unfolding fetch_keysets_def by (intro keeps_rules audits_request) simp
  have "keeps (audited evs) (case x of (cached, now) \<Rightarrow> (case cached of
         Some entry \<Rightarrow>
           if ce_expiresAt entry > of_int now then mint_ret (ce_keysets entry) else fetch_keysets cl origin r
       | None \<Rightarrow> fetch_keysets cl origin r))" for x :: "cache_entry option \<times> int"
    by (cases x) (auto intro!: keeps_rules f)
  then show ?thesis unfolding loadKeysets_def by (intro asked_bind keeps_pure)
qed

lemma audits_ask: "keeps (audited evs) (ask_mint cl mintUrl keysetId amount text signature dleq)"
proof -
  have g: "keeps (audited evs) (getKey cl mintUrl keysetId amount)"
    unfolding getKey_def refetch_def Let_def by (intro keeps_rules keeps_require audits_load) simp
  have c: "keeps (audited evs) (checkState cl mintUrl text)"
    unfolding checkState_def by (intro keeps_rules keeps_require audits_request)
  have "keeps (audited evs) (case p of None \<Rightarrow> mint_ret (Mint_refuses VC_MALFORMED [])
       | Some (e, s, r) \<Rightarrow>
           if \<not> verifyProofDleq (mk_curve cl) A text signature e s r
           then mint_ret (Mint_refuses VC_DLEQ_INVALID [])
           else mint_bind (checkState cl mintUrl text) (\<lambda>st.
                  if st \<noteq> UNSPENT
                  then mint_ret (Mint_refuses VC_SPENT [(''state'', JStr (state_str st))])
                  else mint_ret Mint_confirms))" for p A
    by (cases p) (use c in \<open>auto intro!: keeps_rules\<close>)
  then show ?thesis unfolding ask_mint_def by (intro keeps_mint_bind g)
qed

text \<open>A refusal: one of the codes as the reason, and the event that says so.\<close>

definition refusal ::
  "('p, 'f) voucher_options \<Rightarrow> string \<Rightarrow> string \<Rightarrow> voucher_event list \<Rightarrow> AclDecision \<Rightarrow> 'f voucher_world \<Rightarrow> bool" where
  "refusal opts npub pubkey evs d w \<longleftrightarrow>
     (\<exists>code details. d = voucher_DENY (VOUCHER_DENIAL_CODES code)
        \<and> (vo_auditLogger opts = None \<or> vw_audit w = evs @
             [\<lparr>ve_code = VOUCHER_DENIAL_CODES code, ve_npub = npub, ve_pubkey = pubkey, ve_success = False,
               ve_details = details\<rparr>]))"

lemma deny_refusal:
  assumes "voucher_deny opts npub pubkey code details w = (Inr d, w')"
  shows "refusal opts npub pubkey (vw_audit w) d w'"
proof -
  have "d = voucher_DENY (VOUCHER_DENIAL_CODES code)" by (rule voucher_deny_run(2) [OF assms]) simp
  then show ?thesis
    unfolding refusal_def using voucher_deny_run(3) [OF assms]
    by (cases "vo_auditLogger opts = None"; intro exI [of _ code] exI [of _ details]; simp)
qed

lemma unavailable_refusal:
  assumes "resolve_unavailable opts npub pubkey secret reason w = (Inr d, w')" and "\<not> d_allowed d"
  shows "refusal opts npub pubkey (vw_audit w) d w'"
  using assms
  by (auto simp: resolve_unavailable_def Let_def io_bind_Inr dest: deny_refusal
      split: AvailabilityDecision.splits if_splits)

lemma verified_refusal:
  assumes "resolve_verified opts npub pubkey mintUrl secret w = (Inr d, w')" and "\<not> d_allowed d"
  shows "refusal opts npub pubkey (vw_audit w) d w'"
  using assms
  by (auto simp: resolve_verified_def Let_def io_bind_Inr dest: deny_refusal split: sum.splits if_splits)

lemma resolver_refuses:
  assumes r: "voucher_resolver opts npub pubkey context w = (Inr d, w')" and na: "\<not> d_allowed d"
    and f: "cx_voucher context = None \<Longrightarrow> vo_fallback opts = None"
  shows "refusal opts npub pubkey (vw_audit w) d w'"
proof (cases "cx_voucher context")
  case None
  then show ?thesis using r na f
    by (auto simp: voucher_resolver_def voucher_resolve_def resolve_absent_def dest: deny_refusal
        split: option.splits if_splits)
next
  case (Some v)
  show ?thesis
  proof (cases "local_checks opts pubkey (cx_now context) (raw_of v)")
    case (Inr l)
    show ?thesis
    proof (cases l)
      case (Local_denied code details)
      then have "voucher_deny opts npub pubkey code details w = (Inr d, w')"
        using r Some Inr by (simp add: voucher_resolver_def voucher_resolve_def)
      then show ?thesis by (rule deny_refusal)
    next
      case (Local_ok mintUrl keysetId signature amount secret)
      let ?ask = "ask_mint (vo_mintClient opts) mintUrl keysetId amount
                    (the (as_string (rc_secret (raw_of v)))) signature (rc_dleq (raw_of v))"
      obtain y w1 where a: "?ask w = (Inr y, w1)"
        and k: "(case y of Inl reason \<Rightarrow> resolve_unavailable opts npub pubkey secret reason
           | Inr (Mint_refuses code details) \<Rightarrow> voucher_deny opts npub pubkey code details
           | Inr Mint_confirms \<Rightarrow> resolve_verified opts npub pubkey mintUrl secret) w1 = (Inr d, w')"
        using r Some Inr Local_ok by (auto simp: voucher_resolver_def voucher_resolve_def io_bind_Inr)
      have "audited (vw_audit w) w1"
        by (rule trip_InrD [OF audits_ask _ a]) (simp add: audited_def)
      then have same: "vw_audit w1 = vw_audit w" by (simp add: audited_def)
      show ?thesis
        using k na same
        by (auto dest: unavailable_refusal verified_refusal deny_refusal split: sum.splits mint_verdict.splits)
    qed
  qed (use r Some in \<open>simp add: voucher_resolver_def voucher_resolve_def\<close>)
qed

end
