(* ===== verification/Padding.thy ===== *)
theory Padding
  imports ServerComplete
begin

text \<open>
  The floor on response times, as \<open>issueChallenge\<close> and \<open>verifyCompletion\<close> use it:
  padding does not change what an operation does (\<open>padded_run\<close>), and the time an answer
  takes is the work, or the floor and its jitter when that is longer (\<open>padded_time\<close>).
\<close>

section \<open>Padding changes the clock only\<close>

definition same_but_time :: "('cs, 'ss, 'as, 'rl) world \<Rightarrow> ('cs, 'ss, 'as, 'rl) world \<Rightarrow> bool" where
  "same_but_time w w' \<longleftrightarrow> w_drawn w \<le> w_drawn w' \<and> w' = w\<lparr>w_millis := w_millis w', w_drawn := w_drawn w'\<rparr>"

lemma same_but_time_refl: "same_but_time w w"
  by (simp add: same_but_time_def)

lemma same_but_time_trans: "same_but_time a b \<Longrightarrow> same_but_time b c \<Longrightarrow> same_but_time a c"
  by (cases a; cases b; cases c) (simp add: same_but_time_def)

lemma same_but_time_millis: "same_but_time w (w_millis_update f w)"
  by (cases w) (simp add: same_but_time_def)

lemma same_but_timeD:
  assumes "same_but_time w w'"
  shows "w_challenges w' = w_challenges w" "w_sessions w' = w_sessions w" "w_acl w' = w_acl w"
    "w_now w' = w_now w" "w_random w' = w_random w" "w_log w' = w_log w" "w_drawn w \<le> w_drawn w'"
  using assms by (cases w; cases w'; simp add: same_but_time_def)+

lemma pad_run: "\<exists>w'. padAuthResponse t opts w = (Inr (), w') \<and> same_but_time w w'"
  by (cases w) (simp add: padAuthResponse_def Let_def io_bind_def randomBytes_def same_but_time_def)

lemma padded_run:
  assumes "m w = (x, w1)"
  shows "\<exists>w'. padded opts rl m w = (x, w') \<and> same_but_time w1 w'"
proof -
  let ?w2 = "w1\<lparr>w_millis := w_millis w1 + w_latency w1\<rparr>"
  have 2: "same_but_time w1 ?w2" by (rule same_but_time_millis)
  obtain w3 where 3: "padAuthResponse (w_millis w) opts ?w2 = (Inr (), w3)" "same_but_time ?w2 w3"
    using pad_run by blast
  have 4: "same_but_time w1 w3" by (rule same_but_time_trans [OF 2 3(2)])
  show ?thesis
    using assms 2 3(1) 4 by (simp add: padded_def io_bind_def io_finally_def)
qed

lemma padded_runD:
  assumes p: "padded opts rl m w = (x, w')"
  obtains w1 where "m w = (x, w1)" and "same_but_time w1 w'"
proof -
  obtain y w1 where r: "m w = (y, w1)" by fastforce
  obtain v where "padded opts rl m w = (y, v)" "same_but_time w1 v" using padded_run [of m w y w1, OF r] by blast
  then show ?thesis using p r that by simp
qed

section \<open>The time an answer takes\<close>

named_theorems times

lemma times_ret [times]: "times_kept (io_ret x)"
  by (simp add: times_kept_def)

lemma times_throw [times]: "times_kept (io_throw x)"
  by (simp add: times_kept_def)

lemma times_get [times]: "times_kept (io_get f)"
  by (simp add: times_kept_def)

lemma times_bind [times]: "times_kept m \<Longrightarrow> (\<And>x. times_kept (f x)) \<Longrightarrow> times_kept (io_bind m f)"
  unfolding times_kept_def io_bind_def by (fastforce split: prod.splits sum.splits)

lemma times_catch [times]: "times_kept m \<Longrightarrow> times_kept h \<Longrightarrow> times_kept (io_catch m h)"
  unfolding times_kept_def io_catch_def by (fastforce split: prod.splits sum.splits)

lemma times_if [times]: "times_kept a \<Longrightarrow> times_kept b \<Longrightarrow> times_kept (if c then a else b)"
  by simp

lemma times_option [times]:
  "times_kept a \<Longrightarrow> (\<And>y. times_kept (b y)) \<Longrightarrow> times_kept (case x of None \<Rightarrow> a | Some y \<Rightarrow> b y)"
  by (cases x) simp_all

lemma times_sum [times]:
  "(\<And>y. times_kept (a y)) \<Longrightarrow> (\<And>y. times_kept (b y)) \<Longrightarrow> times_kept (case x of Inl y \<Rightarrow> a y | Inr y \<Rightarrow> b y)"
  by (cases x) simp_all

lemma times_challenges [times]: "times_kept (on_challenges m)"
  by (auto simp: times_kept_def on_challenges_eq)

lemma times_sess [times]: "times_kept (on_sess m)"
  by (auto simp: times_kept_def on_sess_eq)

lemma times_resolver [times]: "times_kept (on_resolver m)"
  by (auto simp: times_kept_def on_resolver_eq)

lemma times_log: "times_kept (on_log m)"
  by (auto simp: times_kept_def on_log_eq)

lemma times_audit [times]: "times_kept (audit opts ev)"
  unfolding audit_def by (rule times_log)

lemma times_logFailure [times]: "times_kept (logFailure opts c d)"
  unfolding logFailure_def by (rule times_audit)

lemma times_logSuccess [times]: "times_kept (logSuccess opts d)"
  unfolding logSuccess_def by (rule times_audit)

lemma times_count [times]: "times_kept (count_total opts c)"
  unfolding count_total_def by (rule times_log)

lemma times_token [times]: "times_kept (randomToken n)"
  by (auto simp: times_kept_def randomToken_def randomBytes_def io_bind_def)

lemma times_limit [times]: "times_kept (checkRateLimit opts key)"
proof -
  have l: "times_kept (io_on w_limiter w_limiter_update m)"
    "times_kept (io_on w_default_limiter w_default_limiter_update m')" for m m'
    by (auto simp: times_kept_def io_on_def split: prod.splits)
  show ?thesis
    by (auto simp: checkRateLimit_def resolveRateLimiter_def intro!: times l
        split: rate_limiter_option.splits)
qed

lemma times_refuse [times]: "times_kept (refuse opts f d)"
  unfolding refuse_def by (intro times)

lemma times_createSession [times]: "times_kept (createSessionRecord c now ttl rs ps su rf)"
  unfolding createSessionRecord_def by (intro times)

lemma times_recordFailure [times]: "times_kept (recordChallengeFailure opts k now)"
  unfolding recordChallengeFailure_def Let_def by (auto intro!: times split: option.split ChallengeState.split)

lemma times_answer [times]: "times_kept (answer_redeemed opts c ev now)"
  unfolding answer_redeemed_def by (intro times)

lemma times_settle [times]: "times_kept (settle_challenge opts c ev now y)"
  unfolding settle_challenge_def by (auto intro!: times split: RedeemStatus.split)

lemma times_establish [times]: "times_kept (establish_session opts body c ev now d)"
  unfolding establish_session_def by (intro times)

lemma times_match [times]: "times_kept (match_challenge opts body pr now c)"
  unfolding match_challenge_def Let_def by (intro times)

lemma times_complete: "times_kept (verifyCompletionUnpadded input opts)"
  unfolding verifyCompletionUnpadded_def complete_proven_def complete_limited_def by (intro times)

lemma times_cap [times]: "times_kept (findExceededOutstandingCap opts npub ip now)"
  unfolding findExceededOutstandingCap_def Let_def by (intro times)

lemma times_issue: "times_kept (issueChallengeUnpadded input opts)"
  unfolding issueChallengeUnpadded_def store_challenge_def Let_def by (intro times)

text \<open>The jitter byte of a padded run is the next byte after those the work has drawn.\<close>

lemma padded_time:
  assumes k: "times_kept m" and pos: "or_else (op_minAuthResponseMillis opts) 100 > 0"
    and r: "m w = (Inr x, w1)" and n: "\<not> rl x"
  shows "w_millis (snd (padded opts rl m w))
    = w_millis w + max (w_latency w) (response_floor opts (w_random w (w_drawn w1)))"
proof -
  have "w_millis w1 = w_millis w" "w_latency w1 = w_latency w" "w_random w1 = w_random w"
    using k r unfolding times_kept_def by blast+
  then show ?thesis
    using r n by (simp add: padded_def io_bind_def io_finally_def pad_millis [OF pos])
qed

end
