(* ===== verification/MemorySessions.thy ===== *)
theory MemorySessions
  imports MemoryChallenges
begin

text \<open>
  \<open>InMemorySessionStore\<close> of nap-server's \<open>memory.ts\<close>. Its four maps share the session
  objects, so the model has a heap: an object is an address of \<open>ms_heap\<close>, a map leads to
  addresses, and an update of an object is seen through every map. The interpretation of
  the session store contract rests on the index invariant \<open>ms_inv\<close>: no index leads to an
  object another index has forgotten.
\<close>

record mem_sessions =
  ms_heap :: "SessionRecord list"
  ms_byChallengeId :: "(string, nat) jsmap"
  ms_byId :: "(string, nat) jsmap"
  ms_byAccessToken :: "(string, nat) jsmap"
  ms_byRefreshToken :: "(string, nat) jsmap"
  ms_lastSweptAt :: "int option"
  ms_clock :: int

definition ms_new :: "int \<Rightarrow> mem_sessions" where
  "ms_new clock = \<lparr>ms_heap = [], ms_byChallengeId = [], ms_byId = [], ms_byAccessToken = [],
     ms_byRefreshToken = [], ms_lastSweptAt = None, ms_clock = clock\<rparr>"

abbreviation deref :: "mem_sessions \<Rightarrow> nat \<Rightarrow> SessionRecord" where
  "deref s a \<equiv> ms_heap s ! a"

section \<open>Operations\<close>

definition jm_delete_truthy :: "string option \<Rightarrow> (string, 'v) jsmap \<Rightarrow> (string, 'v) jsmap" where
  "jm_delete_truthy k m = (if truthy_str k then jm_delete (the k) m else m)"

definition ms_retainUntil :: "SessionRecord \<Rightarrow> int" where
  "ms_retainUntil x = max (s_expires_at x) (or_else (s_refresh_expires_at x) 0)"

definition ms_drop :: "string \<Rightarrow> nat \<Rightarrow> mem_sessions \<Rightarrow> mem_sessions" where
  "ms_drop k a s =
     (let x = deref s a
      in s\<lparr>ms_byId := jm_delete k (ms_byId s),
           ms_byChallengeId := jm_delete (s_challenge_id x) (ms_byChallengeId s),
           ms_byAccessToken := jm_delete (s_access_token x) (ms_byAccessToken s),
           ms_byRefreshToken := jm_delete_truthy (s_previous_refresh_token x)
             (jm_delete_truthy (s_refresh_token x) (ms_byRefreshToken s))\<rparr>)"

definition ms_sweep_entry :: "int \<Rightarrow> string \<times> nat \<Rightarrow> mem_sessions \<Rightarrow> mem_sessions" where
  "ms_sweep_entry now e s =
     (if ms_retainUntil (deref s (snd e)) \<ge> now then s else ms_drop (fst e) (snd e) s)"

definition ms_sweep :: "int \<Rightarrow> mem_sessions \<Rightarrow> mem_sessions" where
  "ms_sweep now s =
     (if swept_already (ms_lastSweptAt s) now then s
      else fold (ms_sweep_entry now) (ms_byId s) (s\<lparr>ms_lastSweptAt := Some now\<rparr>))"

text \<open>The insertion of a new object into the maps.\<close>

definition ms_insert :: "SessionRecord \<Rightarrow> mem_sessions \<Rightarrow> mem_sessions" where
  "ms_insert r s =
     (let a = length (ms_heap s)
      in s\<lparr>ms_heap := ms_heap s @ [r],
           ms_byChallengeId := jm_set (s_challenge_id r) a (ms_byChallengeId s),
           ms_byId := jm_set (s_session_id r) a (ms_byId s),
           ms_byAccessToken := jm_set (s_access_token r) a (ms_byAccessToken s),
           ms_byRefreshToken :=
             (if truthy_str (s_refresh_token r)
              then jm_set (the (s_refresh_token r)) a (ms_byRefreshToken s)
              else ms_byRefreshToken s)\<rparr>)"

definition ms_createForChallenge :: "SessionRecord \<Rightarrow> (mem_sessions, SessionRecord) io" where
  "ms_createForChallenge r s0 =
     (let s = ms_sweep (ms_clock s0) s0
      in case jm_get (ms_byChallengeId s) (s_challenge_id r) of
           Some a \<Rightarrow> (Inr (deref s a), s)
         | None \<Rightarrow> (Inr r, ms_insert r s))"

definition ms_getBySessionId :: "string \<Rightarrow> (mem_sessions, SessionRecord option) io" where
  "ms_getBySessionId k s = (Inr (map_option (deref s) (jm_get (ms_byId s) k)), s)"

definition ms_getByAccessToken :: "string \<Rightarrow> (mem_sessions, SessionRecord option) io" where
  "ms_getByAccessToken t s0 =
     (let s = ms_sweep (ms_clock s0) s0
      in (Inr (map_option (deref s) (jm_get (ms_byAccessToken s) t)), s))"

definition ms_write :: "nat \<Rightarrow> SessionRecord \<Rightarrow> mem_sessions \<Rightarrow> mem_sessions" where
  "ms_write a x s = s\<lparr>ms_heap := (ms_heap s)[a := x]\<rparr>"

definition ms_revokeBySessionId :: "string \<Rightarrow> int \<Rightarrow> (mem_sessions, unit) io" where
  "ms_revokeBySessionId k now s =
     (case jm_get (ms_byId s) k of
        None \<Rightarrow> (Inr (), s)
      | Some a \<Rightarrow> (Inr (), ms_write a ((deref s a)\<lparr>s_revoked_at := Some now\<rparr>) s))"

definition ms_revoke_entry ::
  "string \<Rightarrow> int \<Rightarrow> string \<times> nat \<Rightarrow> nat \<times> mem_sessions \<Rightarrow> nat \<times> mem_sessions" where
  "ms_revoke_entry pubkey now e ns =
     (case ns of (n, s) \<Rightarrow>
        let x = deref s (snd e)
        in if s_principal_pubkey x = pubkey \<and> \<not> truthy_num (s_revoked_at x)
           then (n + 1, ms_write (snd e) (x\<lparr>s_revoked_at := Some now\<rparr>) s)
           else (n, s))"

definition ms_revokeByPrincipal :: "string \<Rightarrow> int \<Rightarrow> (mem_sessions, nat) io" where
  "ms_revokeByPrincipal pubkey now s =
     (case fold (ms_revoke_entry pubkey now) (ms_byId s) (0, s) of (n, s') \<Rightarrow> (Inr n, s'))"

definition ms_getByRefreshToken :: "string \<Rightarrow> (mem_sessions, SessionRecord option) io" where
  "ms_getByRefreshToken t s = (Inr (map_option (deref s) (jm_get (ms_byRefreshToken s) t)), s)"

definition ms_rotateRefreshToken ::
  "string \<Rightarrow> RotateRefreshTokenParams \<Rightarrow> (mem_sessions, SessionRecord option) io" where
  "ms_rotateRefreshToken k p s =
     (case jm_get (ms_byId s) k of
        None \<Rightarrow> (Inr None, s)
      | Some a \<Rightarrow>
          let x = deref s a
          in if s_refresh_token x \<noteq> Some (rt_expectedRefreshToken p) then (Inr None, s)
             else let x' = x\<lparr>s_previous_refresh_token := s_refresh_token x,
                             s_refresh_token := Some (rt_refreshToken p),
                             s_access_token := rt_accessToken p,
                             s_expires_at := rt_expiresAt p,
                             s_refresh_expires_at := Some (rt_refreshExpiresAt p),
                             s_roles := rt_roles p,
                             s_permissions := rt_permissions p\<rparr>
                  in (Inr (Some x'),
                      s\<lparr>ms_heap := (ms_heap s)[a := x'],
                        ms_byAccessToken := jm_set (rt_accessToken p) a
                          (jm_delete (s_access_token x) (ms_byAccessToken s)),
                        ms_byRefreshToken := jm_set (rt_refreshToken p) a
                          (jm_delete_truthy (s_previous_refresh_token x) (ms_byRefreshToken s))\<rparr>))"

definition ms_ops :: "mem_sessions session_ops" where
  "ms_ops =
     \<lparr>so_createForChallenge = ms_createForChallenge, so_getBySessionId = ms_getBySessionId,
      so_getByAccessToken = ms_getByAccessToken, so_revokeBySessionId = ms_revokeBySessionId,
      so_revokeByPrincipal = ms_revokeByPrincipal,
      so_getByRefreshToken = Some ms_getByRefreshToken,
      so_rotateRefreshToken = Some ms_rotateRefreshToken\<rparr>"

section \<open>The index invariant\<close>

text \<open>The address is the one its session id leads to.\<close>

definition resident :: "mem_sessions \<Rightarrow> nat \<Rightarrow> bool" where
  "resident s a \<longleftrightarrow> jm_get (ms_byId s) (s_session_id (deref s a)) = Some a"

definition ms_inv :: "mem_sessions \<Rightarrow> bool" where
  "ms_inv s \<longleftrightarrow>
     jm_ok (ms_byId s)
     \<and> (\<forall>k a. jm_get (ms_byId s) k = Some a \<longrightarrow>
          a < length (ms_heap s) \<and> s_session_id (deref s a) = k
          \<and> jm_get (ms_byChallengeId s) (s_challenge_id (deref s a)) = Some a
          \<and> s_revoked_at (deref s a) \<noteq> Some 0)
     \<and> (\<forall>c a. jm_get (ms_byChallengeId s) c = Some a \<longrightarrow>
          s_challenge_id (deref s a) = c \<and> resident s a)
     \<and> (\<forall>t a. jm_get (ms_byAccessToken s) t = Some a \<longrightarrow>
          s_access_token (deref s a) = t \<and> resident s a)
     \<and> (\<forall>t a. jm_get (ms_byRefreshToken s) t = Some a \<longrightarrow>
          t \<noteq> [] \<and> resident s a
          \<and> (s_refresh_token (deref s a) = Some t \<or> s_previous_refresh_token (deref s a) = Some t))"

definition ms_sess :: "mem_sessions \<Rightarrow> SessionRecord set" where
  "ms_sess s = {deref s a | k a. jm_get (ms_byId s) k = Some a}"

lemma ms_inv_new: "ms_inv (ms_new t)"
  by (simp add: ms_inv_def ms_new_def)

lemma ms_invD:
  assumes "ms_inv s"
  shows "jm_ok (ms_byId s)"
    and "jm_get (ms_byId s) k = Some a \<Longrightarrow> a < length (ms_heap s)"
    and "jm_get (ms_byId s) k = Some a \<Longrightarrow> s_session_id (deref s a) = k"
    and "jm_get (ms_byId s) k = Some a \<Longrightarrow>
           jm_get (ms_byChallengeId s) (s_challenge_id (deref s a)) = Some a"
    and "jm_get (ms_byId s) k = Some a \<Longrightarrow> s_revoked_at (deref s a) \<noteq> Some 0"
    and "jm_get (ms_byChallengeId s) c = Some a \<Longrightarrow> s_challenge_id (deref s a) = c \<and> resident s a"
    and "jm_get (ms_byAccessToken s) t = Some a \<Longrightarrow> s_access_token (deref s a) = t \<and> resident s a"
    and "jm_get (ms_byRefreshToken s) t = Some a \<Longrightarrow> t \<noteq> [] \<and> resident s a
           \<and> (s_refresh_token (deref s a) = Some t \<or> s_previous_refresh_token (deref s a) = Some t)"
  using assms unfolding ms_inv_def by blast+

lemma residentI: "\<lbrakk>ms_inv s; jm_get (ms_byId s) k = Some a\<rbrakk> \<Longrightarrow> resident s a"
  using ms_invD(3) [of s k a] by (simp add: resident_def)

lemma resident_sess: "resident s a \<Longrightarrow> deref s a \<in> ms_sess s"
  by (auto simp: ms_sess_def resident_def)

lemma sess_resident: "\<lbrakk>ms_inv s; x \<in> ms_sess s\<rbrakk> \<Longrightarrow> \<exists>a. x = deref s a \<and> resident s a"
  using residentI by (fastforce simp: ms_sess_def)

lemma jm_get_delete_truthy:
  "jm_get (jm_delete_truthy k m) j = (if truthy_str k \<and> k = Some j then None else jm_get m j)"
  by (cases k) (auto simp: jm_delete_truthy_def jm_get_delete)

subsection \<open>Dropping a session\<close>

lemma ms_drop_sel [simp]:
  "ms_heap (ms_drop k a s) = ms_heap s"
  "ms_lastSweptAt (ms_drop k a s) = ms_lastSweptAt s" "ms_clock (ms_drop k a s) = ms_clock s"
  "jm_get (ms_byId (ms_drop k a s)) j = (if j = k then None else jm_get (ms_byId s) j)"
  by (simp_all add: ms_drop_def Let_def jm_get_delete)

lemma ms_drop_inv:
  assumes i: "ms_inv s" and a: "jm_get (ms_byId s) k = Some a"
  shows "ms_inv (ms_drop k a s)"
proof -
  let ?s = "ms_drop k a s" and ?x = "deref s a"
  have id: "s_session_id ?x = k" using ms_invD(3) [OF i a] .
  have res: "resident ?s b" if "resident s b" "b \<noteq> a" for b
    using that a by (auto simp: resident_def)
  have cid: "jm_get (ms_byChallengeId ?s) c = (if c = s_challenge_id ?x then None
      else jm_get (ms_byChallengeId s) c)" for c
    by (simp add: ms_drop_def Let_def jm_get_delete)
  have tok: "jm_get (ms_byAccessToken ?s) t = (if t = s_access_token ?x then None
      else jm_get (ms_byAccessToken s) t)" for t
    by (simp add: ms_drop_def Let_def jm_get_delete)
  have ref: "jm_get (ms_byRefreshToken ?s) t = Some b \<Longrightarrow> jm_get (ms_byRefreshToken s) t = Some b
      \<and> (t \<noteq> [] \<longrightarrow> s_refresh_token ?x \<noteq> Some t \<and> s_previous_refresh_token ?x \<noteq> Some t)" for t b
    by (auto simp: ms_drop_def Let_def jm_get_delete_truthy split: if_splits)
  have ids: "b < length (ms_heap s) \<and> s_session_id (deref s b) = j
      \<and> jm_get (ms_byChallengeId ?s) (s_challenge_id (deref s b)) = Some b
      \<and> s_revoked_at (deref s b) \<noteq> Some 0"
    if b: "jm_get (ms_byId s) j = Some b" and j: "j \<noteq> k" for j b
  proof -
    have "b \<noteq> a" using ms_invD(3) [OF i b] id j by auto
    then have "s_challenge_id (deref s b) \<noteq> s_challenge_id ?x"
      using ms_invD(4) [OF i b] ms_invD(4) [OF i a] by auto
    then show ?thesis using ms_invD(2-5) [OF i b] by (simp add: cid)
  qed
  show ?thesis
    unfolding ms_inv_def
  proof (intro conjI allI impI)
    show "jm_ok (ms_byId ?s)" using ms_invD(1) [OF i] by (simp add: ms_drop_def Let_def)
  next
    fix j b assume "jm_get (ms_byId ?s) j = Some b"
    then have "jm_get (ms_byId s) j = Some b" "j \<noteq> k" by (simp_all split: if_splits)
    then show "b < length (ms_heap ?s)" "s_session_id (deref ?s b) = j"
      "jm_get (ms_byChallengeId ?s) (s_challenge_id (deref ?s b)) = Some b"
      "s_revoked_at (deref ?s b) \<noteq> Some 0"
      using ids [of j b] by simp_all
  next
    fix c b assume "jm_get (ms_byChallengeId ?s) c = Some b"
    then have "jm_get (ms_byChallengeId s) c = Some b" "c \<noteq> s_challenge_id ?x"
      by (simp_all add: cid split: if_splits)
    then show "s_challenge_id (deref ?s b) = c" "resident ?s b"
      using ms_invD(6) [OF i, of c b] res [of b] by auto
  next
    fix t b assume "jm_get (ms_byAccessToken ?s) t = Some b"
    then have "jm_get (ms_byAccessToken s) t = Some b" "t \<noteq> s_access_token ?x"
      by (simp_all add: tok split: if_splits)
    then show "s_access_token (deref ?s b) = t" "resident ?s b"
      using ms_invD(7) [OF i, of t b] res [of b] by auto
  next
    fix t b assume "jm_get (ms_byRefreshToken ?s) t = Some b"
    from ref [OF this] show "t \<noteq> []" "resident ?s b"
      "s_refresh_token (deref ?s b) = Some t \<or> s_previous_refresh_token (deref ?s b) = Some t"
      using ms_invD(8) [OF i, of t b] res [of b] by auto
  qed
qed

lemma ms_drop_sess: "ms_sess (ms_drop k a s) \<subseteq> ms_sess s"
  by (auto simp: ms_sess_def split: if_splits)

subsection \<open>The sweep\<close>

lemma ms_sweep_fold:
  assumes "ms_inv s" and "distinct (map fst es)" and "\<forall>(k, a)\<in>set es. jm_get (ms_byId s) k = Some a"
  shows "ms_inv (fold (ms_sweep_entry now) es s)
     \<and> ms_heap (fold (ms_sweep_entry now) es s) = ms_heap s
     \<and> (\<forall>j. jm_get (ms_byId (fold (ms_sweep_entry now) es s)) j =
           (case jm_get (ms_byId s) j of None \<Rightarrow> None
            | Some a \<Rightarrow> if j \<in> fst ` set es \<and> ms_retainUntil (deref s a) < now then None else Some a))"
  using assms
proof (induction es arbitrary: s)
  case Nil
  then show ?case by (auto split: option.splits)
next
  case (Cons e es)
  obtain k a where e: "e = (k, a)" by (cases e)
  have a: "jm_get (ms_byId s) k = Some a" using Cons.prems(3) e by simp
  have k: "k \<notin> fst ` set es" using Cons.prems(2) e by simp
  let ?s = "ms_sweep_entry now (k, a) s"
  have heap: "ms_heap ?s = ms_heap s" by (simp add: ms_sweep_entry_def)
  have inv: "ms_inv ?s"
    using Cons.prems(1) a by (simp add: ms_sweep_entry_def ms_drop_inv)
  have get: "jm_get (ms_byId ?s) j =
      (if j = k \<and> ms_retainUntil (deref s a) < now then None else jm_get (ms_byId s) j)" for j
    by (simp add: ms_sweep_entry_def)
  have "jm_get (ms_byId ?s) j = Some b" if "(j, b) \<in> set es" for j b
  proof -
    have "j \<noteq> k" using that k by (metis fst_conv image_eqI)
    then show ?thesis using that Cons.prems(3) by (auto simp: get)
  qed
  then have "\<forall>(j, b)\<in>set es. jm_get (ms_byId ?s) j = Some b" by blast
  with Cons.IH [OF inv] Cons.prems(2)
  have IH: "ms_inv (fold (ms_sweep_entry now) es ?s)
     \<and> ms_heap (fold (ms_sweep_entry now) es ?s) = ms_heap ?s
     \<and> (\<forall>j. jm_get (ms_byId (fold (ms_sweep_entry now) es ?s)) j =
           (case jm_get (ms_byId ?s) j of None \<Rightarrow> None
            | Some a \<Rightarrow> if j \<in> fst ` set es \<and> ms_retainUntil (deref ?s a) < now then None else Some a))"
    by simp
  show ?case
    unfolding e fold.simps comp_apply
  proof (intro conjI allI)
    show "ms_inv (fold (ms_sweep_entry now) es ?s)"
      "ms_heap (fold (ms_sweep_entry now) es ?s) = ms_heap s"
      using IH heap by simp_all
  next
    fix j
    show "jm_get (ms_byId (fold (ms_sweep_entry now) es ?s)) j =
        (case jm_get (ms_byId s) j of None \<Rightarrow> None
         | Some b \<Rightarrow> if j \<in> fst ` set ((k, a) # es) \<and> ms_retainUntil (deref s b) < now
                     then None else Some b)"
      using IH a k by (cases "j = k"; cases "jm_get (ms_byId s) j") (simp_all add: heap get)
  qed
qed

lemma ms_inv_lastSwept [simp]: "ms_inv (s\<lparr>ms_lastSweptAt := t\<rparr>) = ms_inv s"
  by (simp add: ms_inv_def resident_def)

lemma ms_sweep_facts:
  assumes i: "ms_inv s"
  shows "ms_inv (ms_sweep now s)" and "ms_heap (ms_sweep now s) = ms_heap s"
    and "jm_get (ms_byId (ms_sweep now s)) j =
           (case jm_get (ms_byId s) j of None \<Rightarrow> None
            | Some a \<Rightarrow> if \<not> swept_already (ms_lastSweptAt s) now \<and> ms_retainUntil (deref s a) < now
                        then None else Some a)"
proof -
  let ?s = "s\<lparr>ms_lastSweptAt := Some now\<rparr>"
  have ok: "jm_ok (ms_byId s)" using ms_invD(1) [OF i] .
  have "\<forall>(k, a)\<in>set (ms_byId s). jm_get (ms_byId ?s) k = Some a"
    using jm_get_iff [OF ok] by auto
  with ms_sweep_fold [of ?s "ms_byId s" now] i ok
  have F: "ms_inv (fold (ms_sweep_entry now) (ms_byId s) ?s)
     \<and> ms_heap (fold (ms_sweep_entry now) (ms_byId s) ?s) = ms_heap s
     \<and> (\<forall>j. jm_get (ms_byId (fold (ms_sweep_entry now) (ms_byId s) ?s)) j =
           (case jm_get (ms_byId s) j of None \<Rightarrow> None
            | Some a \<Rightarrow> if j \<in> fst ` set (ms_byId s) \<and> ms_retainUntil (deref s a) < now
                        then None else Some a))"
    by (simp add: jm_ok_def cong: option.case_cong)
  have mem: "j \<in> fst ` set (ms_byId s)" if "jm_get (ms_byId s) j = Some a" for a
    using that jm_get_in by force
  show "ms_inv (ms_sweep now s)" "ms_heap (ms_sweep now s) = ms_heap s"
    using F i by (simp_all add: ms_sweep_def)
  show "jm_get (ms_byId (ms_sweep now s)) j =
           (case jm_get (ms_byId s) j of None \<Rightarrow> None
            | Some a \<Rightarrow> if \<not> swept_already (ms_lastSweptAt s) now \<and> ms_retainUntil (deref s a) < now
                        then None else Some a)"
    using F mem by (auto simp: ms_sweep_def split: option.splits)
qed

lemma ms_sweep_sess: "ms_inv s \<Longrightarrow> ms_sess (ms_sweep now s) \<subseteq> ms_sess s"
  using ms_sweep_facts [of s now] by (auto simp: ms_sess_def split: option.splits if_splits)

lemma ms_sweep_keeps:
  assumes i: "ms_inv s" and x: "x \<in> ms_sess s" and live: "now \<le> ms_retainUntil x"
  shows "x \<in> ms_sess (ms_sweep now s)"
proof -
  obtain k a where a: "jm_get (ms_byId s) k = Some a" "x = deref s a"
    using x by (auto simp: ms_sess_def)
  then have "jm_get (ms_byId (ms_sweep now s)) k = Some a"
    using live by (simp add: ms_sweep_facts(3) [OF i])
  then show ?thesis
    using a(2) ms_sweep_facts(2) [OF i, of now] by (auto simp: ms_sess_def)
qed

subsection \<open>Writing an object\<close>

lemma ms_write_sel [simp]:
  "ms_byId (ms_write a x s) = ms_byId s" "ms_byChallengeId (ms_write a x s) = ms_byChallengeId s"
  "ms_byAccessToken (ms_write a x s) = ms_byAccessToken s"
  "ms_byRefreshToken (ms_write a x s) = ms_byRefreshToken s"
  by (simp_all add: ms_write_def)

lemma ms_write_deref:
  "a < length (ms_heap s) \<Longrightarrow> deref (ms_write a x s) b = (if b = a then x else deref s b)"
  by (simp add: ms_write_def nth_list_update)

lemma ms_write_inv:
  assumes i: "ms_inv s" and a: "jm_get (ms_byId s) k = Some a" and nz: "s_revoked_at x \<noteq> Some 0"
    and same: "s_session_id x = s_session_id (deref s a)" "s_challenge_id x = s_challenge_id (deref s a)"
      "s_access_token x = s_access_token (deref s a)" "s_refresh_token x = s_refresh_token (deref s a)"
      "s_previous_refresh_token x = s_previous_refresh_token (deref s a)"
  shows "ms_inv (ms_write a x s)"
proof -
  let ?s = "ms_write a x s"
  have len: "a < length (ms_heap s)" using ms_invD(2) [OF i a] .
  have eq: "s_session_id (deref ?s b) = s_session_id (deref s b)"
    "s_challenge_id (deref ?s b) = s_challenge_id (deref s b)"
    "s_access_token (deref ?s b) = s_access_token (deref s b)"
    "s_refresh_token (deref ?s b) = s_refresh_token (deref s b)"
    "s_previous_refresh_token (deref ?s b) = s_previous_refresh_token (deref s b)" for b
    using same by (simp_all add: ms_write_deref [OF len])
  have res: "resident ?s b = resident s b" for b
    by (simp add: resident_def eq)
  have rev: "s_revoked_at (deref ?s b) \<noteq> Some 0" if "jm_get (ms_byId s) j = Some b" for j b
    using ms_invD(5) [OF i that] nz by (simp add: ms_write_deref [OF len])
  have hl: "length (ms_heap ?s) = length (ms_heap s)" by (simp add: ms_write_def)
  show ?thesis
    unfolding ms_inv_def ms_write_sel eq res hl
    using ms_invD(1-4,6-8) [OF i] rev by blast
qed

lemma ms_write_sess:
  assumes i: "ms_inv s" and a: "jm_get (ms_byId s) k = Some a" and y: "y \<in> ms_sess (ms_write a x s)"
  shows "y = x \<or> y \<in> ms_sess s"
  using y by (auto simp: ms_sess_def ms_write_deref [OF ms_invD(2) [OF i a]] split: if_splits)

text \<open>
  Revoking one resident object: the index invariant stays, and every session is a later
  version of one there was.
\<close>

lemma ms_revoke_one:
  assumes i: "ms_inv s" and a: "jm_get (ms_byId s) k = Some a" and now: "now \<noteq> 0"
  defines "s' \<equiv> ms_write a ((deref s a)\<lparr>s_revoked_at := Some now\<rparr>) s"
  shows "ms_inv s'" and "\<forall>y\<in>ms_sess s'. \<exists>x\<in>ms_sess s. succeeds x y"
proof -
  show "ms_inv s'" unfolding s'_def by (rule ms_write_inv [OF i a]) (use now in simp_all)
  have x: "deref s a \<in> ms_sess s" using a by (auto simp: ms_sess_def)
  show "\<forall>y\<in>ms_sess s'. \<exists>x\<in>ms_sess s. succeeds x y"
  proof
    fix y assume "y \<in> ms_sess s'"
    then have "y = (deref s a)\<lparr>s_revoked_at := Some now\<rparr> \<or> y \<in> ms_sess s"
      unfolding s'_def by (rule ms_write_sess [OF i a])
    then show "\<exists>x\<in>ms_sess s. succeeds x y"
      using x by (auto simp: succeeds_def)
  qed
qed

lemma ms_revoke_fold:
  assumes "ms_inv s" and "now \<noteq> 0" and "\<forall>e\<in>set es. jm_get (ms_byId s) (fst e) = Some (snd e)"
    and "fold (ms_revoke_entry pk now) es (n, s) = (n', s')"
  shows "ms_inv s' \<and> ms_byId s' = ms_byId s
    \<and> (\<forall>y\<in>ms_sess s'. \<exists>x\<in>ms_sess s. succeeds x y)
    \<and> (\<forall>a. s_principal_pubkey (deref s' a) = s_principal_pubkey (deref s a)
          \<and> (s_revoked_at (deref s a) \<noteq> None \<longrightarrow> s_revoked_at (deref s' a) \<noteq> None))
    \<and> (\<forall>e\<in>set es. s_principal_pubkey (deref s (snd e)) = pk \<longrightarrow> s_revoked_at (deref s' (snd e)) \<noteq> None)"
  using assms
proof (induction es arbitrary: n s)
  case Nil
  then show ?case by auto
next
  case (Cons e es)
  obtain m t where t: "ms_revoke_entry pk now e (n, s) = (m, t)" by fastforce
  have a: "jm_get (ms_byId s) (fst e) = Some (snd e)" using Cons.prems(3) by simp
  have len: "snd e < length (ms_heap s)" using ms_invD(2) [OF Cons.prems(1) a] .
  have nz: "s_revoked_at (deref s (snd e)) \<noteq> Some 0" using ms_invD(5) [OF Cons.prems(1) a] .
  consider "t = s" "s_principal_pubkey (deref s (snd e)) = pk \<Longrightarrow> s_revoked_at (deref s (snd e)) \<noteq> None"
    | "t = ms_write (snd e) ((deref s (snd e))\<lparr>s_revoked_at := Some now\<rparr>) s"
    using t by (auto simp: ms_revoke_entry_def Let_def truthy_num_def split: if_splits)
  then have step: "ms_inv t \<and> ms_byId t = ms_byId s \<and> (\<forall>y\<in>ms_sess t. \<exists>x\<in>ms_sess s. succeeds x y)
    \<and> (\<forall>a. s_principal_pubkey (deref t a) = s_principal_pubkey (deref s a)
          \<and> (s_revoked_at (deref s a) \<noteq> None \<longrightarrow> s_revoked_at (deref t a) \<noteq> None))
    \<and> (s_principal_pubkey (deref s (snd e)) = pk \<longrightarrow> s_revoked_at (deref t (snd e)) \<noteq> None)"
  proof cases
    case 1
    then show ?thesis using Cons.prems(1) by auto
  next
    case 2
    then show ?thesis
      using ms_revoke_one [OF Cons.prems(1) a Cons.prems(2)]
      by (simp add: ms_write_deref [OF len])
  qed
  have "fold (ms_revoke_entry pk now) es (m, t) = (n', s')"
    using Cons.prems(4) t by simp
  from Cons.IH [OF _ Cons.prems(2) _ this] step Cons.prems(3)
  have IH: "ms_inv s' \<and> ms_byId s' = ms_byId t
    \<and> (\<forall>y\<in>ms_sess s'. \<exists>x\<in>ms_sess t. succeeds x y)
    \<and> (\<forall>a. s_principal_pubkey (deref s' a) = s_principal_pubkey (deref t a)
          \<and> (s_revoked_at (deref t a) \<noteq> None \<longrightarrow> s_revoked_at (deref s' a) \<noteq> None))
    \<and> (\<forall>e\<in>set es. s_principal_pubkey (deref t (snd e)) = pk \<longrightarrow> s_revoked_at (deref s' (snd e)) \<noteq> None)"
    by simp
  have "\<forall>y\<in>ms_sess s'. \<exists>x\<in>ms_sess s. succeeds x y"
    using IH step succeeds_trans by meson
  then show ?case using IH step by auto
qed

subsection \<open>Inserting and rotating\<close>

lemma ms_insert_sess: "ms_inv s \<Longrightarrow> ms_sess (ms_insert r s) \<subseteq> insert r (ms_sess s)"
proof
  fix y assume i: "ms_inv s" and y: "y \<in> ms_sess (ms_insert r s)"
  let ?n = "length (ms_heap s)"
  obtain k a where a: "y = (ms_heap s @ [r]) ! a"
    "(if k = s_session_id r then Some ?n else jm_get (ms_byId s) k) = Some a"
    using y by (auto simp: ms_sess_def ms_insert_def Let_def jm_get_set)
  show "y \<in> insert r (ms_sess s)"
  proof (cases "k = s_session_id r")
    case False
    then have "jm_get (ms_byId s) k = Some a" using a(2) by simp
    then show ?thesis
      using a(1) ms_invD(2) [OF i, of k a] by (auto simp: ms_sess_def nth_append)
  qed (use a in auto)
qed

lemma ms_insert_member: "r \<in> ms_sess (ms_insert r s)"
  by (auto simp: ms_sess_def ms_insert_def Let_def jm_get_set intro!: exI [of _ "s_session_id r"])

lemma ms_insert_inv:
  assumes i: "ms_inv s" and f: "fresh_session r" and new: "s_session_id r \<notin> s_session_id ` ms_sess s"
    and c: "jm_get (ms_byChallengeId s) (s_challenge_id r) = None"
  shows "ms_inv (ms_insert r s)"
proof -
  let ?s = "ms_insert r s" and ?n = "length (ms_heap s)"
  have id: "jm_get (ms_byId ?s) j = (if j = s_session_id r then Some ?n else jm_get (ms_byId s) j)" for j
    by (simp add: ms_insert_def Let_def jm_get_set)
  have d: "deref ?s ?n = r" "b < ?n \<Longrightarrow> deref ?s b = deref s b" "length (ms_heap ?s) = Suc ?n" for b
    by (simp_all add: ms_insert_def Let_def nth_append)
  have old: "jm_get (ms_byId s) (s_session_id r) = None"
  proof (cases "jm_get (ms_byId s) (s_session_id r)")
    case (Some a)
    then have "deref s a \<in> ms_sess s" "s_session_id (deref s a) = s_session_id r"
      using ms_invD(3) [OF i Some] by (auto simp: ms_sess_def)
    then show ?thesis using new by (metis image_eqI)
  qed
  have res: "b < ?n \<and> deref ?s b = deref s b \<and> resident ?s b" if "resident s b" for b
  proof -
    have "b < ?n" using that ms_invD(2) [OF i] by (simp add: resident_def)
    then show ?thesis using that old by (auto simp: resident_def id d)
  qed
  have resn: "resident ?s ?n" by (simp add: resident_def id d)
  have nn: "b \<noteq> ?n" if "resident s b" for b using res [OF that] by simp
  show ?thesis
    unfolding ms_inv_def
  proof (intro conjI allI impI)
    show "jm_ok (ms_byId ?s)" using ms_invD(1) [OF i] by (simp add: ms_insert_def Let_def)
  next
    fix j b assume b: "jm_get (ms_byId ?s) j = Some b"
    have "b < Suc ?n \<and> s_session_id (deref ?s b) = j
      \<and> jm_get (ms_byChallengeId ?s) (s_challenge_id (deref ?s b)) = Some b
      \<and> s_revoked_at (deref ?s b) \<noteq> Some 0"
    proof (cases "j = s_session_id r")
      case True
      then have "b = ?n" using b by (simp add: id)
      moreover have "jm_get (ms_byChallengeId ?s) (s_challenge_id r) = Some ?n"
        by (simp add: ms_insert_def Let_def)
      ultimately show ?thesis using True f by (simp add: d fresh_session_def)
    next
      case False
      then have b: "jm_get (ms_byId s) j = Some b" using b by (simp add: id)
      have "s_challenge_id (deref s b) \<noteq> s_challenge_id r"
        using ms_invD(4) [OF i b] c by auto
      then have "jm_get (ms_byChallengeId ?s) (s_challenge_id (deref s b)) = Some b"
        using ms_invD(4) [OF i b] by (simp add: ms_insert_def Let_def)
      then show ?thesis
        using ms_invD(2,3,5) [OF i b] by (simp add: d)
    qed
    then show "b < length (ms_heap ?s)" "s_session_id (deref ?s b) = j"
      "jm_get (ms_byChallengeId ?s) (s_challenge_id (deref ?s b)) = Some b"
      "s_revoked_at (deref ?s b) \<noteq> Some 0"
      by (simp_all add: d)
  next
    fix k b assume "jm_get (ms_byChallengeId ?s) k = Some b"
    then have "k = s_challenge_id r \<and> b = ?n \<or> jm_get (ms_byChallengeId s) k = Some b"
      by (auto simp: ms_insert_def Let_def jm_get_set split: if_splits)
    then show "s_challenge_id (deref ?s b) = k" "resident ?s b"
      using ms_invD(6) [OF i, of k b] res [of b] resn d(1) by auto
  next
    fix t b assume "jm_get (ms_byAccessToken ?s) t = Some b"
    then have "t = s_access_token r \<and> b = ?n \<or> jm_get (ms_byAccessToken s) t = Some b"
      by (auto simp: ms_insert_def Let_def jm_get_set split: if_splits)
    then show "s_access_token (deref ?s b) = t" "resident ?s b"
      using ms_invD(7) [OF i, of t b] res [of b] resn d(1) by auto
  next
    fix t b assume "jm_get (ms_byRefreshToken ?s) t = Some b"
    then have "t \<noteq> [] \<and> s_refresh_token r = Some t \<and> b = ?n \<or> jm_get (ms_byRefreshToken s) t = Some b"
      by (cases "s_refresh_token r")
        (auto simp: ms_insert_def Let_def jm_get_set split: if_splits)
    then show "t \<noteq> []" "resident ?s b"
      "s_refresh_token (deref ?s b) = Some t \<or> s_previous_refresh_token (deref ?s b) = Some t"
      using ms_invD(8) [OF i, of t b] res [of b] resn d(1) by auto
  qed
qed

text \<open>The state after a rotation of the object at \<open>a\<close>.\<close>

definition ms_rotate_to :: "nat \<Rightarrow> RotateRefreshTokenParams \<Rightarrow> mem_sessions \<Rightarrow> mem_sessions" where
  "ms_rotate_to a p s =
     (let x = deref s a
      in s\<lparr>ms_heap := (ms_heap s)[a := rotated x p],
           ms_byAccessToken := jm_set (rt_accessToken p) a
             (jm_delete (s_access_token x) (ms_byAccessToken s)),
           ms_byRefreshToken := jm_set (rt_refreshToken p) a
             (jm_delete_truthy (s_previous_refresh_token x) (ms_byRefreshToken s))\<rparr>)"

lemma ms_rotate_cases:
  assumes "ms_rotateRefreshToken k p s = (z, s')"
  obtains "z = Inr None" "s' = s"
  | a where "jm_get (ms_byId s) k = Some a"
      "s_refresh_token (deref s a) = Some (rt_expectedRefreshToken p)"
      "z = Inr (Some (rotated (deref s a) p))" "s' = ms_rotate_to a p s"
  using assms
  by (auto simp: ms_rotateRefreshToken_def ms_rotate_to_def rotated_def Let_def
      split: option.splits if_splits)

lemma ms_rotate_to_sel:
  "ms_byId (ms_rotate_to a p s) = ms_byId s"
  "ms_byChallengeId (ms_rotate_to a p s) = ms_byChallengeId s"
  "length (ms_heap (ms_rotate_to a p s)) = length (ms_heap s)"
  "a < length (ms_heap s) \<Longrightarrow>
     deref (ms_rotate_to a p s) b = (if b = a then rotated (deref s a) p else deref s b)"
  by (simp_all add: ms_rotate_to_def Let_def nth_list_update)

lemma ms_rotate_to_inv:
  assumes i: "ms_inv s" and a: "jm_get (ms_byId s) k = Some a" and ne: "rt_refreshToken p \<noteq> []"
  shows "ms_inv (ms_rotate_to a p s)"
proof -
  let ?s = "ms_rotate_to a p s" and ?x = "deref s a"
  have len: "a < length (ms_heap s)" using ms_invD(2) [OF i a] .
  note d = ms_rotate_to_sel(4) [OF len, of p]
  have eq: "s_session_id (deref ?s b) = s_session_id (deref s b)"
    "s_challenge_id (deref ?s b) = s_challenge_id (deref s b)"
    "s_revoked_at (deref ?s b) = s_revoked_at (deref s b)" for b
    by (simp_all add: d rotated_def)
  have res: "resident ?s b = resident s b" for b
    by (simp add: resident_def ms_rotate_to_sel eq)
  have ra: "resident s a" by (rule residentI [OF i a])
  have acc: "s_access_token (deref ?s b) = t \<and> resident s b"
    if "jm_get (ms_byAccessToken ?s) t = Some b" for t b
  proof (cases "t = rt_accessToken p")
    case True
    then have "b = a" using that by (simp add: ms_rotate_to_def Let_def)
    then show ?thesis using True ra by (simp add: d rotated_def)
  next
    case False
    then have t: "jm_get (ms_byAccessToken s) t = Some b" "t \<noteq> s_access_token ?x"
      using that by (auto simp: ms_rotate_to_def Let_def jm_get_set jm_get_delete split: if_splits)
    then show ?thesis using ms_invD(7) [OF i t(1)] by (auto simp: d)
  qed
  have ref: "t \<noteq> [] \<and> resident s b
      \<and> (s_refresh_token (deref ?s b) = Some t \<or> s_previous_refresh_token (deref ?s b) = Some t)"
    if "jm_get (ms_byRefreshToken ?s) t = Some b" for t b
  proof (cases "t = rt_refreshToken p")
    case True
    then have "b = a" using that by (simp add: ms_rotate_to_def Let_def)
    then show ?thesis using True ra ne by (simp add: d rotated_def)
  next
    case False
    then have t: "jm_get (ms_byRefreshToken s) t = Some b"
      "\<not> (truthy_str (s_previous_refresh_token ?x) \<and> s_previous_refresh_token ?x = Some t)"
      using that by (auto simp: ms_rotate_to_def Let_def jm_get_set jm_get_delete_truthy
          split: if_splits)
    then show ?thesis using ms_invD(8) [OF i t(1)] by (auto simp: d rotated_def)
  qed
  show ?thesis
    unfolding ms_inv_def ms_rotate_to_sel(1-3) eq res
    using ms_invD(1-6) [OF i] acc ref by blast
qed

lemma ms_rotate_to_sess:
  assumes i: "ms_inv s" and a: "jm_get (ms_byId s) k = Some a"
  shows "\<forall>y\<in>ms_sess (ms_rotate_to a p s). \<exists>x\<in>ms_sess s. succeeds x y"
    and "rotated (deref s a) p \<in> ms_sess (ms_rotate_to a p s)"
proof -
  note d = ms_rotate_to_sel(4) [OF ms_invD(2) [OF i a], of p]
  have x: "deref s a \<in> ms_sess s" using a by (auto simp: ms_sess_def)
  show "\<forall>y\<in>ms_sess (ms_rotate_to a p s). \<exists>x\<in>ms_sess s. succeeds x y"
  proof
    fix y assume "y \<in> ms_sess (ms_rotate_to a p s)"
    then have "y = rotated (deref s a) p \<or> y \<in> ms_sess s"
      by (auto simp: ms_sess_def ms_rotate_to_sel d split: if_splits)
    then show "\<exists>x\<in>ms_sess s. succeeds x y" using x by blast
  qed
  show "rotated (deref s a) p \<in> ms_sess (ms_rotate_to a p s)"
    using a by (auto simp: ms_sess_def ms_rotate_to_sel d intro!: exI [of _ k] exI [of _ a])
qed

lemma ms_entries: "ms_inv s \<Longrightarrow> \<forall>e\<in>set (ms_byId s). jm_get (ms_byId s) (fst e) = Some (snd e)"
  by (simp add: jm_get_iff ms_invD(1))

section \<open>The contract\<close>

lemma ms_get_sess: "ms_inv s \<Longrightarrow> jm_get (ms_byId s) k = Some a \<Longrightarrow> deref s a \<in> ms_sess s"
  by (auto simp: ms_sess_def)

lemma ms_create_cases:
  assumes i: "ms_inv s" and f: "fresh_session r" and c: "ms_createForChallenge r s = (z, s')"
  obtains a where "jm_get (ms_byChallengeId (ms_sweep (ms_clock s) s)) (s_challenge_id r) = Some a"
      "z = Inr (deref s a)" "s' = ms_sweep (ms_clock s) s"
  | "jm_get (ms_byChallengeId (ms_sweep (ms_clock s) s)) (s_challenge_id r) = None"
      "z = Inr r" "s' = ms_insert r (ms_sweep (ms_clock s) s)"
  using c by (auto simp: ms_createForChallenge_def Let_def ms_sweep_facts(2) [OF i] split: option.splits)

interpretation ms: session_store ms_ops ms_sess ms_inv
proof unfold_locales
  fix s :: mem_sessions and x y
  assume i: "ms_inv s" and x: "x \<in> ms_sess s" and y: "y \<in> ms_sess s"
  obtain a where a: "x = deref s a" "resident s a" using sess_resident [OF i x] by blast
  obtain b where b: "y = deref s b" "resident s b" using sess_resident [OF i y] by blast
  show "s_session_id x = s_session_id y \<Longrightarrow> x = y"
    using a b by (simp add: resident_def)
  show "s_challenge_id x = s_challenge_id y \<Longrightarrow> x = y"
    using a b ms_invD(4) [OF i] by (metis option.inject resident_def)
next
  fix s :: mem_sessions and x
  show "ms_inv s \<Longrightarrow> x \<in> ms_sess s \<Longrightarrow> s_revoked_at x \<noteq> Some 0"
    using ms_invD(5) by (fastforce simp: ms_sess_def)
next
  fix s s' :: mem_sessions and r z
  assume i: "ms_inv s" and f: "fresh_session r" and c: "so_createForChallenge ms_ops r s = (z, s')"
  have c: "ms_createForChallenge r s = (z, s')" using c by (simp add: ms_ops_def)
  let ?s = "ms_sweep (ms_clock s) s"
  have iw: "ms_inv ?s" by (rule ms_sweep_facts(1) [OF i])
  have sub: "ms_sess ?s \<subseteq> ms_sess s" by (rule ms_sweep_sess [OF i])
  show "s_session_id r \<notin> s_session_id ` ms_sess s \<Longrightarrow> ms_inv s'"
    using c by (rule ms_create_cases [OF i f]) (use iw sub ms_insert_inv [OF iw f] in auto)
  show "ms_sess s' \<subseteq> insert r (ms_sess s)"
    using c by (rule ms_create_cases [OF i f]) (use sub ms_insert_sess [OF iw, of r] in auto)
next
  fix s s' :: mem_sessions and r y
  assume i: "ms_inv s" and f: "fresh_session r" and c: "so_createForChallenge ms_ops r s = (Inr y, s')"
  have c: "ms_createForChallenge r s = (Inr y, s')" using c by (simp add: ms_ops_def)
  let ?s = "ms_sweep (ms_clock s) s"
  have iw: "ms_inv ?s" by (rule ms_sweep_facts(1) [OF i])
  from c show "s_challenge_id y = s_challenge_id r \<and> (y = r \<or> y \<in> ms_sess s) \<and> y \<in> ms_sess s'"
  proof (rule ms_create_cases [OF i f])
    fix a assume a: "jm_get (ms_byChallengeId ?s) (s_challenge_id r) = Some a" "Inr y = Inr (deref s a)" "s' = ?s"
    have "s_challenge_id (deref ?s a) = s_challenge_id r" "deref ?s a \<in> ms_sess ?s"
      using ms_invD(6) [OF iw a(1)] resident_sess by blast+
    then show ?thesis using a ms_sweep_facts(2) [OF i] ms_sweep_sess [OF i] by auto
  qed (use ms_insert_member in auto)
next
  fix s s' :: mem_sessions and k z
  assume i: "ms_inv s"
  show "so_getBySessionId ms_ops k s = (z, s') \<Longrightarrow> ms_inv s' \<and> ms_sess s' \<subseteq> ms_sess s"
    using i by (auto simp: ms_ops_def ms_getBySessionId_def)
  show "so_getByAccessToken ms_ops k s = (z, s') \<Longrightarrow> ms_inv s' \<and> ms_sess s' \<subseteq> ms_sess s"
    using ms_sweep_facts(1) [OF i] ms_sweep_sess [OF i]
    by (auto simp: ms_ops_def ms_getByAccessToken_def Let_def)
next
  fix s s' :: mem_sessions and k y
  assume i: "ms_inv s"
  show "so_getBySessionId ms_ops k s = (Inr (Some y), s') \<Longrightarrow> y \<in> ms_sess s' \<and> s_session_id y = k"
    using ms_invD(3) [OF i] ms_get_sess [OF i] by (auto simp: ms_ops_def ms_getBySessionId_def)
  have iw: "ms_inv (ms_sweep (ms_clock s) s)" by (rule ms_sweep_facts(1) [OF i])
  show "so_getByAccessToken ms_ops k s = (Inr (Some y), s') \<Longrightarrow> y \<in> ms_sess s' \<and> s_access_token y = k"
    using ms_invD(7) [OF iw] resident_sess
    by (auto simp: ms_ops_def ms_getByAccessToken_def Let_def)
next
  fix s s' :: mem_sessions and k now z
  assume i: "ms_inv s" and now: "now \<noteq> 0" and r: "so_revokeBySessionId ms_ops k now s = (z, s')"
  show "ms_inv s' \<and> (\<forall>y\<in>ms_sess s'. \<exists>x\<in>ms_sess s. succeeds x y)"
    using r i ms_revoke_one [OF i _ now]
    by (auto simp: ms_ops_def ms_revokeBySessionId_def split: option.splits)
next
  fix s s' :: mem_sessions and k now y
  assume i: "ms_inv s" and r: "so_revokeBySessionId ms_ops k now s = (Inr (), s')"
    and y: "y \<in> ms_sess s'" "s_session_id y = k" and now: "now \<noteq> 0"
  have r: "ms_revokeBySessionId k now s = (Inr (), s')" using r by (simp add: ms_ops_def)
  show "s_revoked_at y \<noteq> None"
  proof (cases "jm_get (ms_byId s) k")
    case None
    then have "s' = s" using r by (simp add: ms_revokeBySessionId_def)
    then show ?thesis using y None ms_invD(3) [OF i] by (auto simp: ms_sess_def)
  next
    case (Some a)
    then have s': "s' = ms_write a ((deref s a)\<lparr>s_revoked_at := Some now\<rparr>) s"
      using r by (simp add: ms_revokeBySessionId_def)
    have i': "ms_inv s'" unfolding s' by (rule ms_revoke_one(1) [OF i Some now])
    obtain j b where "jm_get (ms_byId s') j = Some b" "y = deref s' b"
      using y(1) by (auto simp: ms_sess_def)
    then have "b = a" using ms_invD(3) [OF i'] y(2) Some by (auto simp: s')
    then show ?thesis
      using \<open>y = deref s' b\<close> by (simp add: s' ms_write_deref [OF ms_invD(2) [OF i Some]])
  qed
next
  fix s s' :: mem_sessions and pk now z
  assume i: "ms_inv s" and now: "now \<noteq> 0" and r: "so_revokeByPrincipal ms_ops pk now s = (z, s')"
  obtain n where f: "fold (ms_revoke_entry pk now) (ms_byId s) (0, s) = (n, s')"
    using r by (auto simp: ms_ops_def ms_revokeByPrincipal_def split: prod.splits)
  have "\<forall>e\<in>set (ms_byId s). jm_get (ms_byId s) (fst e) = Some (snd e)"
    by (rule ms_entries [OF i])
  from ms_revoke_fold [OF i now this f]
  show "ms_inv s' \<and> (\<forall>y\<in>ms_sess s'. \<exists>x\<in>ms_sess s. succeeds x y)" by blast
next
  fix s s' :: mem_sessions and pk now n y
  assume i: "ms_inv s" and now: "now \<noteq> 0" and r: "so_revokeByPrincipal ms_ops pk now s = (Inr n, s')"
    and y: "y \<in> ms_sess s'" "s_principal_pubkey y = pk"
  obtain m where f: "fold (ms_revoke_entry pk now) (ms_byId s) (0, s) = (m, s')"
    using r by (auto simp: ms_ops_def ms_revokeByPrincipal_def split: prod.splits)
  have "\<forall>e\<in>set (ms_byId s). jm_get (ms_byId s) (fst e) = Some (snd e)"
    by (rule ms_entries [OF i])
  note F = ms_revoke_fold [OF i now this f]
  obtain k a where a: "jm_get (ms_byId s') k = Some a" "y = deref s' a"
    using y(1) by (auto simp: ms_sess_def)
  then have "(k, a) \<in> set (ms_byId s)" using F jm_get_in by metis
  then show "s_revoked_at y \<noteq> None" using F a(2) y(2) by (metis snd_conv)
next
  fix s s' :: mem_sessions and g t z
  assume i: "ms_inv s" and g: "so_getByRefreshToken ms_ops = Some g"
  have "g = ms_getByRefreshToken" using g by (simp add: ms_ops_def)
  then show "g t s = (z, s') \<Longrightarrow> ms_inv s' \<and> ms_sess s' \<subseteq> ms_sess s"
    using i by (auto simp: ms_getByRefreshToken_def)
next
  fix s s' :: mem_sessions and g t y
  assume i: "ms_inv s" and g: "so_getByRefreshToken ms_ops = Some g" and c: "g t s = (Inr (Some y), s')"
  have c: "ms_getByRefreshToken t s = (Inr (Some y), s')" using g c by (simp add: ms_ops_def)
  then have s': "s' = s" by (simp add: ms_getByRefreshToken_def)
  obtain a where a: "jm_get (ms_byRefreshToken s) t = Some a" "y = deref s a"
    using c unfolding ms_getByRefreshToken_def s' by (cases "jm_get (ms_byRefreshToken s) t") simp_all
  have "resident s a" and "s_refresh_token y = Some t \<or> s_previous_refresh_token y = Some t"
    unfolding a(2) using ms_invD(8) [OF i a(1)] by blast+
  then show "y \<in> ms_sess s' \<and> (s_refresh_token y = Some t \<or> s_previous_refresh_token y = Some t)"
    unfolding s' using resident_sess [of s a] a(2) by blast
next
  fix s s' :: mem_sessions and rot p k z
  assume i: "ms_inv s" and o: "so_rotateRefreshToken ms_ops = Some rot"
    and ne: "rt_refreshToken p \<noteq> []" and c: "rot k p s = (z, s')"
  have "ms_rotateRefreshToken k p s = (z, s')" using o c by (simp add: ms_ops_def)
  then show "ms_inv s' \<and> (\<forall>y\<in>ms_sess s'. \<exists>x\<in>ms_sess s. succeeds x y)"
    by (rule ms_rotate_cases) (use i ne ms_rotate_to_inv [OF i] ms_rotate_to_sess(1) [OF i] in auto)
next
  fix s s' :: mem_sessions and rot p k y
  assume i: "ms_inv s" and o: "so_rotateRefreshToken ms_ops = Some rot"
    and ne: "rt_refreshToken p \<noteq> []" and c: "rot k p s = (Inr (Some y), s')"
  have "ms_rotateRefreshToken k p s = (Inr (Some y), s')" using o c by (simp add: ms_ops_def)
  then show "y \<in> ms_sess s' \<and> (\<exists>x\<in>ms_sess s. s_session_id x = k
      \<and> s_refresh_token x = Some (rt_expectedRefreshToken p) \<and> y = rotated x p)"
  proof (rule ms_rotate_cases)
    fix a assume a: "jm_get (ms_byId s) k = Some a"
      "s_refresh_token (deref s a) = Some (rt_expectedRefreshToken p)"
      "Inr (Some y) = Inr (Some (rotated (deref s a) p))" "s' = ms_rotate_to a p s"
    then show ?thesis
      using ms_rotate_to_sess(2) [OF i a(1)] ms_invD(3) [OF i a(1)] ms_get_sess [OF i a(1)]
      by (auto intro!: bexI [of _ "deref s a"])
  qed simp
qed

text \<open>
  A token that resolves belongs to a session that every index still knows, and after a
  sweep a resolvable session is within its lifetime or its refresh window.
\<close>

lemma ms_token_live:
  assumes i: "ms_inv s" and g: "ms_getByAccessToken t s = (Inr (Some y), s')"
    and tick: "\<not> swept_already (ms_lastSweptAt s) (ms_clock s)"
  shows "s_access_token y = t \<and> ms_clock s \<le> ms_retainUntil y"
proof -
  let ?s = "ms_sweep (ms_clock s) s"
  have iw: "ms_inv ?s" by (rule ms_sweep_facts(1) [OF i])
  obtain a where a: "jm_get (ms_byAccessToken ?s) t = Some a" "y = deref ?s a"
    using g by (auto simp: ms_getByAccessToken_def Let_def)
  then have "s_access_token y = t" "jm_get (ms_byId ?s) (s_session_id y) = Some a"
    using ms_invD(7) [OF iw a(1)] by (auto simp: resident_def)
  then show ?thesis
    using tick a(2) by (simp add: ms_sweep_facts(3) [OF i] ms_sweep_facts(2) [OF i]
        split: option.splits if_splits)
qed

end
