(* ===== verification/ServerRefresh.thy ===== *)
theory ServerRefresh
  imports Padding MemorySessions
begin

text \<open>
  The rest of nap-server's \<open>server.ts\<close>: \<open>refreshSession\<close> with the rotation of refresh
  tokens, \<open>resolveEffectiveAcl\<close> of the guards, and the public answers. The theorems are
  proved over any session store that keeps its contract: \<open>refresh_ok\<close> says what a granted
  refresh means, \<open>refresh_replay\<close> that a retired token ends the session,
  \<open>refresh_lifetime\<close> that the lifetime ceiling binds what a refresh issues.
\<close>

record RefreshSessionInput =
  rf_refreshToken :: "string option"
  rf_clientIp :: "string option"

type_synonym RefreshSessionOutcome = "VerifyCompleteFailure + SessionRecord"

definition MAX_SAFE_INTEGER :: int where
  "MAX_SAFE_INTEGER = 2 ^ 53 - 1"

section \<open>Refresh\<close>

definition refresh_refuse ::
  "('cs, 'ss, 'as, 'rl) server_options \<Rightarrow> NapErrorCode \<Rightarrow> (string \<times> json) list option
     \<Rightarrow> ('cs, 'ss, 'as, 'rl, RefreshSessionOutcome) act" where
  "refresh_refuse opts code details =
     io_bind (logFailure opts code details) (\<lambda>_. io_ret (Inl (failure code)))"

definition session_details :: "SessionRecord \<Rightarrow> (string \<times> json) list" where
  "session_details s = [(''session_id'', JStr (s_session_id s))]"

definition session_ceiling :: "('cs, 'ss, 'as, 'rl) server_options \<Rightarrow> SessionRecord \<Rightarrow> int option" where
  "session_ceiling opts s = map_option (\<lambda>m. s_issued_at s + m) (op_maxSessionLifetimeSeconds opts)"

text \<open>The ceiling narrowed by the resolver's own bound.\<close>

definition decision_bound :: "int option \<Rightarrow> js_num option \<Rightarrow> js_num option" where
  "decision_bound bound expires =
     (case bound of
        None \<Rightarrow> expires
      | Some c \<Rightarrow> Some (js_min (Fin (of_int c)) (or_else expires (Fin (of_int c)))))"

definition rotation_params ::
  "('cs, 'ss, 'as, 'rl) server_options \<Rightarrow> SessionRecord \<Rightarrow> string \<Rightarrow> int \<Rightarrow> AclDecision \<Rightarrow> string \<Rightarrow> string
     \<Rightarrow> RotateRefreshTokenParams" where
  "rotation_params opts s presented now d access refresh =
     (let bound = session_ceiling opts s in
      \<lparr>rt_expectedRefreshToken = presented, rt_accessToken = access, rt_refreshToken = refresh,
       rt_now = now,
       rt_expiresAt = clampTtlToDecision (or_else (op_sessionTtlSeconds opts) 900)
                        (decision_bound bound (d_expires_at d)) now + now,
       rt_refreshExpiresAt = min (now + the (op_refreshTtlSeconds opts)) (or_else bound MAX_SAFE_INTEGER),
       rt_roles = d_roles d, rt_permissions = d_permissions d\<rparr>)"

definition rotate_session ::
  "('cs, 'ss, 'as, 'rl) server_options \<Rightarrow> (string \<Rightarrow> RotateRefreshTokenParams \<Rightarrow> ('ss, SessionRecord option) io)
     \<Rightarrow> SessionRecord \<Rightarrow> string \<Rightarrow> int \<Rightarrow> AclDecision \<Rightarrow> ('cs, 'ss, 'as, 'rl, RefreshSessionOutcome) act" where
  "rotate_session opts rot s presented now d =
     io_bind (randomToken 32) (\<lambda>access.
     io_bind (randomToken 32) (\<lambda>refresh.
     io_bind (on_sess (rot (s_session_id s) (rotation_params opts s presented now d access refresh))) (\<lambda>res.
       case res of
         None \<Rightarrow> refresh_refuse opts NAP_REFRESH_INTERNAL (Some (session_details s))
       | Some r \<Rightarrow>
           io_bind (audit opts \<lparr>ae_code = ''NAP_REFRESH_SUCCESS'', ae_challenge_id = None, ae_npub = None,
                      ae_pubkey = Some (s_principal_pubkey r), ae_outcome = Outcome_success,
                      ae_details = Some (session_details r)\<rparr>)
             (\<lambda>_. io_ret (Inr r)))))"

text \<open>The session the token led to, and the checks in the order of the source.\<close>

definition refresh_found ::
  "('cs, 'ss, 'as, 'rl) server_options \<Rightarrow> (string \<Rightarrow> RotateRefreshTokenParams \<Rightarrow> ('ss, SessionRecord option) io)
     \<Rightarrow> string \<Rightarrow> int \<Rightarrow> SessionRecord \<Rightarrow> ('cs, 'ss, 'as, 'rl, RefreshSessionOutcome) act" where
  "refresh_found opts rot presented now s =
     (if truthy_str (s_previous_refresh_token s)
         \<and> constantTimeEquals (the (s_previous_refresh_token s)) presented
      then io_bind (on_sess (so_revokeBySessionId (op_sessionStore opts) (s_session_id s) now)) (\<lambda>_.
           io_bind (audit opts \<lparr>ae_code = code_str NAP_REFRESH_REUSED, ae_challenge_id = None, ae_npub = None,
                      ae_pubkey = Some (s_principal_pubkey s), ae_outcome = Outcome_failure,
                      ae_details = Some (session_details s)\<rparr>)
             (\<lambda>_. io_ret (Inl (failure NAP_REFRESH_REUSED))))
      else if \<not> truthy_str (s_refresh_token s)
              \<or> \<not> constantTimeEquals (the (s_refresh_token s)) presented
      then refresh_refuse opts NAP_REFRESH_UNKNOWN_TOKEN (Some (session_details s))
      else if truthy_num (s_revoked_at s)
      then refresh_refuse opts NAP_REFRESH_REVOKED (Some (session_details s))
      else if \<not> truthy_num (s_refresh_expires_at s) \<or> the (s_refresh_expires_at s) < now
      then refresh_refuse opts NAP_REFRESH_EXPIRED (Some (session_details s))
      else if (case op_maxSessionLifetimeSeconds opts of None \<Rightarrow> False | Some m \<Rightarrow> now \<ge> s_issued_at s + m)
      then refresh_refuse opts NAP_REFRESH_EXPIRED
             (Some (session_details s @ [(''reason'', JStr ''max_session_lifetime'')]))
      else io_bind (on_resolver (op_aclResolver opts (s_principal_npub s) (s_principal_pubkey s)
                      \<lparr>cx_voucher = None, cx_now = now, cx_session = Some (s_roles s, s_permissions s)\<rparr>)) (\<lambda>d.
           if \<not> d_allowed d
           then io_bind (if d_revoke_sessions d = Some True
                         then io_bind (on_sess (so_revokeByPrincipal (op_sessionStore opts) (s_principal_pubkey s) now))
                                (\<lambda>_. io_ret ())
                         else io_ret ()) (\<lambda>_.
                  refresh_refuse opts NAP_REFRESH_ACL_DENIED
                    (Some (session_details s
                           @ (case d_reason d of None \<Rightarrow> [] | Some r \<Rightarrow> [(''reason'', JStr r)]))))
           else rotate_session opts rot s presented now d))"

definition refreshSessionUnpadded ::
  "RefreshSessionInput \<Rightarrow> ('cs, 'ss, 'as, 'rl) server_options
     \<Rightarrow> ('cs, 'ss, 'as, 'rl, RefreshSessionOutcome) act" where
  "refreshSessionUnpadded input opts =
     (if \<not> truthy_num (op_refreshTtlSeconds opts)
         \<or> so_getByRefreshToken (op_sessionStore opts) = None
         \<or> so_rotateRefreshToken (op_sessionStore opts) = None
      then refresh_refuse opts NAP_REFRESH_UNKNOWN_TOKEN (Some [(''reason'', JStr ''not_configured'')])
      else
        io_bind (checkRateLimit opts
                   \<lparr>rk_scope = scope_refresh, rk_npub = None, rk_pubkey = None,
                    rk_clientIp = rf_clientIp input\<rparr>) (\<lambda>rateLimit.
        case rateLimit of
          Inl retryAfter \<Rightarrow>
            io_bind (audit opts (simple_event (code_str NAP_REFRESH_RATE_LIMITED) Outcome_rate_limited None))
              (\<lambda>_. io_ret (Inl (rate_limited_failure NAP_REFRESH_RATE_LIMITED retryAfter)))
        | Inr _ \<Rightarrow>
            if \<not> truthy_str (rf_refreshToken input)
            then refresh_refuse opts NAP_REFRESH_UNKNOWN_TOKEN None
            else let presented = the (rf_refreshToken input) in
              io_bind (on_sess (the (so_getByRefreshToken (op_sessionStore opts)) presented)) (\<lambda>session.
                case session of
                  None \<Rightarrow> refresh_refuse opts NAP_REFRESH_UNKNOWN_TOKEN None
                | Some s \<Rightarrow>
                    io_bind (io_get w_now) (\<lambda>now.
                      refresh_found opts (the (so_rotateRefreshToken (op_sessionStore opts))) presented now s))))"

definition refresh_rate_limited :: "RefreshSessionOutcome \<Rightarrow> bool" where
  "refresh_rate_limited r = (case r of Inl f \<Rightarrow> vf_code f = NAP_REFRESH_RATE_LIMITED | Inr _ \<Rightarrow> False)"

definition refreshSession ::
  "RefreshSessionInput \<Rightarrow> ('cs, 'ss, 'as, 'rl) server_options
     \<Rightarrow> ('cs, 'ss, 'as, 'rl, RefreshSessionOutcome) act" where
  "refreshSession input opts = padded opts refresh_rate_limited (refreshSessionUnpadded input opts)"

section \<open>The permissions a request is judged against\<close>

text \<open>
  \<open>clock?: Clock\<close> of the guards. The clock of the world is the server's; a guard reads it
  too, or has a clock of its own, which reads the given time at the request.
\<close>

definition clock_now :: "int option \<Rightarrow> ('cs, 'ss, 'as, 'rl) world \<Rightarrow> int" where
  "clock_now clock w = (case clock of Some t \<Rightarrow> t | None \<Rightarrow> w_now w)"

text \<open>\<open>None\<close>: the principal is no longer allowed.\<close>

definition resolveEffectiveAcl ::
  "'as resolver option \<Rightarrow> 'ss session_ops option \<Rightarrow> int option \<Rightarrow> SessionRecord
     \<Rightarrow> ('cs, 'ss, 'as, 'rl, (string list \<times> string list) option) act" where
  "resolveEffectiveAcl aclResolver sessionStore clock s =
     (case aclResolver of
        None \<Rightarrow> io_ret (Some (s_roles s, s_permissions s))
      | Some resolve \<Rightarrow>
          io_bind (io_get (clock_now clock)) (\<lambda>now.
          io_bind (on_resolver (resolve (s_principal_npub s) (s_principal_pubkey s)
                     \<lparr>cx_voucher = None, cx_now = now, cx_session = Some (s_roles s, s_permissions s)\<rparr>)) (\<lambda>d.
            if \<not> d_allowed d
            then io_bind (if d_revoke_sessions d = Some True
                          then case sessionStore of
                                 None \<Rightarrow> io_ret ()
                               | Some store \<Rightarrow>
                                   io_bind (io_get (clock_now clock)) (\<lambda>now2.
                                   io_bind (on_sess (so_revokeByPrincipal store (s_principal_pubkey s) now2))
                                     (\<lambda>_. io_ret ()))
                          else io_ret ()) (\<lambda>_. io_ret None)
            else io_ret (Some (d_roles d, d_permissions d)))))"

section \<open>Public answers\<close>

definition toPublicAuthSuccess :: "SessionRecord \<Rightarrow> AuthSuccessResponse" where
  "toPublicAuthSuccess s =
     \<lparr>as_status = ''ok'', as_access_token = s_access_token s, as_token_type = ''Bearer'',
      as_expires_at = s_expires_at s, as_step_up_token = s_step_up_token s,
      as_step_up_expires_at = s_step_up_expires_at s, as_refresh_token = s_refresh_token s,
      as_refresh_expires_at = s_refresh_expires_at s, as_principal_npub = s_principal_npub s,
      as_principal_pubkey = s_principal_pubkey s, as_permissions = Some (s_permissions s),
      as_roles = Some (s_roles s)\<rparr>"

record PublicSessionView =
  pv_status :: string
  pv_expires_at :: int
  pv_principal_npub :: string
  pv_principal_pubkey :: string
  pv_roles :: "string list"
  pv_permissions :: "string list"

definition toPublicSessionView :: "SessionRecord \<Rightarrow> PublicSessionView" where
  "toPublicSessionView s =
     \<lparr>pv_status = ''ok'', pv_expires_at = s_expires_at s, pv_principal_npub = s_principal_npub s,
      pv_principal_pubkey = s_principal_pubkey s, pv_roles = s_roles s, pv_permissions = s_permissions s\<rparr>"

definition toPublicAuthFailure :: "nat \<times> AuthFailureResponse" where
  "toPublicAuthFailure = (401, \<lparr>fr_status = ''error'', fr_message = ''authentication failed''\<rparr>)"

section \<open>What a granted refresh means\<close>

lemma foldl_unchanged: "foldl (\<lambda>d i. d) x is = x"
  by (induction "is") simp_all

lemma constantTimeEquals_refl [simp]: "constantTimeEquals a a"
  by (simp add: constantTimeEquals_def Let_def foldl_unchanged)

lemma refresh_refuse_not_ok: "refresh_refuse opts c d w \<noteq> (Inr (Inr s), w')"
  by (auto simp: refresh_refuse_def io_bind_Inr)

lemma quiet_refresh_refuse [quiet_rules]: "quiet (refresh_refuse opts c d)"
  unfolding refresh_refuse_def by (intro quiet_rules)

text \<open>The clamp and the bound: what a rotation issues ends at the ceiling.\<close>

definition bound_ok :: "js_num option \<Rightarrow> bool" where
  "bound_ok e \<longleftrightarrow> (case e of None \<Rightarrow> True | Some n \<Rightarrow> js_finite n \<or> n = PosInf)"

lemma refresh_lifetime:
  assumes m: "op_maxSessionLifetimeSeconds opts = Some m" and now: "now < s_issued_at s + m"
    and e: "bound_ok (d_expires_at d)"
  shows "rt_expiresAt (rotation_params opts s t now d a r) \<le> s_issued_at s + m"
    and "rt_refreshExpiresAt (rotation_params opts s t now d a r) \<le> s_issued_at s + m"
proof -
  let ?c = "s_issued_at s + m"
  obtain x where x: "decision_bound (Some ?c) (d_expires_at d) = Some (Fin x)" "x \<le> of_int ?c"
    using e by (cases "d_expires_at d" rule: option.exhaust)
      (auto simp: decision_bound_def bound_ok_def js_finite_def js_min_def split: js_num.splits)
  have "\<lfloor>x\<rfloor> \<le> ?c" using x(2) by (simp add: floor_le_iff)
  then show "rt_expiresAt (rotation_params opts s t now d a r) \<le> ?c"
    using now x(1) by (simp add: rotation_params_def session_ceiling_def m Let_def clampTtlToDecision_def max_def)
  show "rt_refreshExpiresAt (rotation_params opts s t now d a r) \<le> ?c"
    by (simp add: rotation_params_def session_ceiling_def m Let_def)
qed

text \<open>A resolver's \<open>NaN\<close> or \<open>-Infinity\<close> takes the ceiling away from the access token.\<close>

lemma refresh_lifetime_nan:
  assumes "op_maxSessionLifetimeSeconds opts = Some m"
    and "d_expires_at d = Some NaN \<or> d_expires_at d = Some NegInf"
  shows "rt_expiresAt (rotation_params opts s t now d a r) = now + or_else (op_sessionTtlSeconds opts) 900"
  using assms
  by (auto simp: rotation_params_def session_ceiling_def Let_def decision_bound_def js_min_def
      clampTtlToDecision_def)

text \<open>
  A granted refresh of \<open>w\<close>: a stored session whose current token was presented, neither
  revoked nor expired nor past its lifetime, a resolver that allows it now, and the
  rotation of that session.
\<close>

context session_store
begin

definition refreshed ::
  "RefreshSessionInput \<Rightarrow> ('cs, 'ss, 'as, 'rl) server_options \<Rightarrow> ('cs, 'ss, 'as, 'rl) world
     \<Rightarrow> SessionRecord \<Rightarrow> SessionRecord \<Rightarrow> bool" where
  "refreshed input opts w x s \<longleftrightarrow>
     (\<exists>t d a r as'. rf_refreshToken input = Some t \<and> s_refresh_token x = Some t
        \<and> s_previous_refresh_token x \<noteq> Some t
        \<and> s_revoked_at x = None
        \<and> (\<exists>e. s_refresh_expires_at x = Some e \<and> w_now w \<le> e)
        \<and> (\<forall>m. op_maxSessionLifetimeSeconds opts = Some m \<longrightarrow> w_now w < s_issued_at x + m)
        \<and> op_aclResolver opts (s_principal_npub x) (s_principal_pubkey x)
             \<lparr>cx_voucher = None, cx_now = w_now w, cx_session = Some (s_roles x, s_permissions x)\<rparr> (w_acl w)
             = (Inr d, as') \<and> d_allowed d
        \<and> s = rotated x (rotation_params opts x t (w_now w) d a r))"

text \<open>The sessions stay later versions of what they were, and the invariant holds.\<close>

definition versions :: "('cs, 'ss, 'as, 'rl) world \<Rightarrow> ('cs, 'ss, 'as, 'rl) world \<Rightarrow> bool" where
  "versions w0 w \<longleftrightarrow>
     inv (w_sessions w) \<and> (\<forall>y\<in>sess (w_sessions w). \<exists>x\<in>sess (w_sessions w0). succeeds x y)
     \<and> w_challenges w = w_challenges w0 \<and> w_now w = w_now w0"

lemma versions_refl: "inv (w_sessions w) \<Longrightarrow> versions w w"
  by (auto simp: versions_def)

lemma versions_quiet: "quiet m \<Longrightarrow> keeps (versions w0) m"
  unfolding trip_def versions_def by (auto split: prod.splits sum.splits dest: quietD)

lemma versions_sess:
  assumes "\<And>s x s'. inv s \<Longrightarrow> m s = (x, s') \<Longrightarrow> inv s' \<and> (\<forall>y\<in>sess s'. \<exists>x\<in>sess s. succeeds x y)"
  shows "keeps (versions w0) (on_sess m)"
  unfolding trip_def
proof (intro allI impI)
  fix w assume v: "versions w0 w"
  obtain x s' where m: "m (w_sessions w) = (x, s')" by fastforce
  have i: "inv s'" "\<forall>y\<in>sess s'. \<exists>x\<in>sess (w_sessions w). succeeds x y"
    using assms [OF _ m] v by (simp_all add: versions_def)
  have "\<exists>x\<in>sess (w_sessions w0). succeeds x y" if "y \<in> sess s'" for y
    using i(2) that v succeeds_trans unfolding versions_def by meson
  then have "versions w0 (w\<lparr>w_sessions := s'\<rparr>)" using v i(1) by (simp add: versions_def)
  then show "case on_sess m w of (Inl _, w') \<Rightarrow> versions w0 w' | (Inr _, w') \<Rightarrow> versions w0 w'"
    by (simp add: on_sess_def io_on_def m split: sum.splits)
qed

lemma versions_resolver: "keeps (versions w0) (on_resolver m)"
  unfolding trip_def versions_def by (simp add: on_resolver_def io_on_def split: prod.split sum.split)

lemma versions_revoke: "now \<noteq> 0 \<Longrightarrow> keeps (versions w0) (on_sess (so_revokeBySessionId ops k now))"
  by (rule versions_sess) (rule revoke_frame)

lemma versions_principal: "now \<noteq> 0 \<Longrightarrow> keeps (versions w0) (on_sess (so_revokeByPrincipal ops k now))"
  by (rule versions_sess) (rule principal_frame)

lemma versions_getByRefresh:
  "so_getByRefreshToken ops = Some g \<Longrightarrow> keeps (versions w0) (on_sess (g t))"
  by (rule versions_sess) (use refresh_frame in blast)

lemma token_nonempty:
  assumes "randomToken (Suc n) w = (Inr t, w')"
  shows "t \<noteq> []"
proof -
  have "t = encodeBase64UrlBytes (map (w_random w) [w_drawn w..<w_drawn w + Suc n])"
    using assms by (auto simp: randomToken_def randomBytes_def io_bind_def)
  then show ?thesis by (simp add: encodeBase64UrlBytes_nonempty)
qed

lemma versions_rotate:
  assumes rot: "so_rotateRefreshToken ops = Some rot"
  shows "keeps (versions w0) (rotate_session opts rot s t now d)"
proof -
  have ne: "trip (versions w0) (randomToken 32) (\<lambda>r w. versions w0 w \<and> r \<noteq> []) (versions w0)"
    unfolding trip_def
  proof (intro allI impI)
    fix w assume v: "versions w0 w"
    obtain r w' where r: "randomToken 32 w = (Inr r, w')"
      by (auto simp: randomToken_def randomBytes_def io_bind_def)
    have "r \<noteq> []" using token_nonempty [of 31 w r w'] r by simp
    moreover have "versions w0 w'"
      using trip_anyD [OF versions_quiet [OF quiet_token] v r] .
    ultimately show "case randomToken 32 w of (Inl _, w') \<Rightarrow> versions w0 w'
        | (Inr r, w') \<Rightarrow> versions w0 w' \<and> r \<noteq> []"
      using r by simp
  qed
  have rt: "keeps (versions w0) (on_sess (rot k (rotation_params opts s t now d a r)))" if "r \<noteq> []" for k a r
    by (rule versions_sess, rule rotate_frame [OF _ rot])
      (use that in \<open>simp_all add: rotation_params_def Let_def\<close>)
  show ?thesis
    unfolding rotate_session_def
  proof (rule trip_bind [OF versions_quiet [OF quiet_token]], rule trip_bind [OF ne])
    fix a r
    show "trip (\<lambda>w. versions w0 w \<and> r \<noteq> []) (io_bind (on_sess (rot (s_session_id s)
          (rotation_params opts s t now d a r))) (\<lambda>res.
       case res of
         None \<Rightarrow> refresh_refuse opts NAP_REFRESH_INTERNAL (Some (session_details s))
       | Some r \<Rightarrow>
           io_bind (audit opts \<lparr>ae_code = ''NAP_REFRESH_SUCCESS'', ae_challenge_id = None, ae_npub = None,
                      ae_pubkey = Some (s_principal_pubkey r), ae_outcome = Outcome_success,
                      ae_details = Some (session_details r)\<rparr>)
             (\<lambda>_. io_ret (Inr r)))) (\<lambda>_. versions w0) (versions w0)"
    proof (rule trip_pure)
      assume r: "r \<noteq> []"
      show "keeps (versions w0) (io_bind (on_sess (rot (s_session_id s)
          (rotation_params opts s t now d a r))) (\<lambda>res.
       case res of
         None \<Rightarrow> refresh_refuse opts NAP_REFRESH_INTERNAL (Some (session_details s))
       | Some r \<Rightarrow>
           io_bind (audit opts \<lparr>ae_code = ''NAP_REFRESH_SUCCESS'', ae_challenge_id = None, ae_npub = None,
                      ae_pubkey = Some (s_principal_pubkey r), ae_outcome = Outcome_success,
                      ae_details = Some (session_details r)\<rparr>)
             (\<lambda>_. io_ret (Inr r))))"
        by (rule trip_bind [OF rt [OF r] versions_quiet]) (intro quiet_rules)
    qed
  qed
qed

lemmas versions_rules = trip_bind versions_quiet [OF quiet_ret] versions_quiet [OF quiet_audit]
  versions_quiet [OF quiet_refresh_refuse] versions_quiet [OF quiet_limit] versions_resolver

lemma versions_found:
  assumes o: "op_sessionStore opts = ops" and rot: "so_rotateRefreshToken ops = Some rot" and now: "now \<noteq> 0"
  shows "keeps (versions w0) (refresh_found opts rot t now s)"
  unfolding refresh_found_def o
  by (auto intro!: versions_rules versions_revoke [OF now] versions_principal [OF now]
      versions_rotate [OF rot])

lemma versions_refresh:
  assumes o: "op_sessionStore opts = ops" and i: "inv (w_sessions w)" and now: "w_now w \<noteq> 0"
    and r: "refreshSessionUnpadded input opts w = (x, w')"
  shows "versions w w'"
proof -
  have "keeps (versions w) (refreshSessionUnpadded input opts)"
  proof (cases "so_getByRefreshToken ops = None \<or> so_rotateRefreshToken ops = None")
    case True
    then show ?thesis
      by (simp add: refreshSessionUnpadded_def o versions_quiet quiet_refresh_refuse)
  next
    case False
    then obtain g rot where g: "so_getByRefreshToken ops = Some g" and rot: "so_rotateRefreshToken ops = Some rot"
      by auto
    have n: "keeps (versions w) (io_bind (io_get w_now) (\<lambda>now. refresh_found opts rot t now s))" for t s
    proof (rule trip_bind [where R = "\<lambda>n v. versions w v \<and> n = w_now w"])
      show "trip (\<lambda>v. versions w v \<and> n = w_now w) (refresh_found opts rot t n s) (\<lambda>_. versions w) (versions w)"
        for n by (rule trip_pure) (simp add: versions_found [OF o rot now])
    qed (rule trip_get, simp add: versions_def)
    show ?thesis
      unfolding refreshSessionUnpadded_def o g rot option.sel Let_def
      by (auto intro!: n versions_getByRefresh [OF g] versions_rules
          split: sum.split option.split)
  qed
  then show ?thesis
    by (rule trip_anyD [of "versions w" "refreshSessionUnpadded input opts" w x w', OF _ versions_refl [OF i] r])
qed

text \<open>The rotation a granted refresh is.\<close>

lemma rotate_session_ok:
  assumes i: "inv (w_sessions w)" and rot: "so_rotateRefreshToken ops = Some rot" and x: "x \<in> sess (w_sessions w)"
    and r: "rotate_session opts rot x t now d w = (Inr (Inr s), w')"
  shows "s \<in> sess (w_sessions w') \<and> s_refresh_token x = Some t
    \<and> (\<exists>a r. s = rotated x (rotation_params opts x t now d a r))"
proof -
  obtain a w1 b w2 z w3 where 1: "randomToken 32 w = (Inr a, w1)" and 2: "randomToken 32 w1 = (Inr b, w2)"
    and 3: "on_sess (rot (s_session_id x) (rotation_params opts x t now d a b)) w2 = (Inr (Some z), w3)"
    and 4: "io_bind (audit opts \<lparr>ae_code = ''NAP_REFRESH_SUCCESS'', ae_challenge_id = None, ae_npub = None,
                      ae_pubkey = Some (s_principal_pubkey z), ae_outcome = Outcome_success,
                      ae_details = Some (session_details z)\<rparr>) (\<lambda>_. io_ret (Inr z)) w3
             = (Inr (Inr s :: RefreshSessionOutcome), w')"
    using r unfolding rotate_session_def
    by (elim io_bindE) (auto simp: refresh_refuse_not_ok split: option.splits)
  let ?p = "rotation_params opts x t now d a b"
  have w2: "w_sessions w2 = w_sessions w"
    using quietD [OF quiet_token 1] quietD [OF quiet_token 2] by simp
  obtain s' where s': "rot (s_session_id x) ?p (w_sessions w) = (Inr (Some z), s')" "w_sessions w3 = s'"
    using 3 w2 by (auto simp: on_sess_eq)
  have b: "rt_refreshToken ?p \<noteq> []"
    using token_nonempty [of 31 w1 b w2] 2 by (simp add: rotation_params_def Let_def)
  obtain y where y: "y \<in> sess (w_sessions w)" "s_session_id y = s_session_id x"
    "s_refresh_token y = Some (rt_expectedRefreshToken ?p)" "z = rotated y ?p" "z \<in> sess s'"
    using rotate_value [OF i rot b s'(1)] by blast
  have "y = x" using one_per_id [OF i y(1) x y(2)] .
  moreover have "s = z" "w_sessions w' = s'"
    using 4 s'(2) by (auto simp: io_bind_Inr dest: quietD [OF quiet_audit])
  ultimately show ?thesis using y by (auto simp: rotation_params_def Let_def)
qed

lemma refresh_found_ok:
  assumes o: "op_sessionStore opts = ops" and i: "inv (w_sessions w)" and rot: "so_rotateRefreshToken ops = Some rot"
    and x: "x \<in> sess (w_sessions w)" and t: "t \<noteq> []" "rf_refreshToken input = Some t"
    and w0: "w_now w = w_now w0" "w_acl w = w_acl w0" and r: "refresh_found opts rot t (w_now w) x w = (Inr (Inr s), w')"
  shows "refreshed input opts w0 x s \<and> s \<in> sess (w_sessions w')"
proof -
  let ?n = "w_now w"
  have no: "s_previous_refresh_token x \<noteq> Some t"
  proof
    assume "s_previous_refresh_token x = Some t"
    then show False using r t by (simp add: refresh_found_def io_bind_Inr)
  qed
  have c: "truthy_str (s_refresh_token x)" "\<not> truthy_num (s_revoked_at x)"
    "truthy_num (s_refresh_expires_at x)" "\<not> the (s_refresh_expires_at x) < ?n"
    "\<not> (case op_maxSessionLifetimeSeconds opts of None \<Rightarrow> False | Some m \<Rightarrow> ?n \<ge> s_issued_at x + m)"
    using r unfolding refresh_found_def
    by (auto simp: refresh_refuse_not_ok io_bind_Inr split: if_splits)
  have rest: "io_bind (on_resolver (op_aclResolver opts (s_principal_npub x) (s_principal_pubkey x)
                      \<lparr>cx_voucher = None, cx_now = ?n, cx_session = Some (s_roles x, s_permissions x)\<rparr>)) (\<lambda>d.
           if \<not> d_allowed d
           then io_bind (if d_revoke_sessions d = Some True
                         then io_bind (on_sess (so_revokeByPrincipal ops (s_principal_pubkey x) ?n))
                                (\<lambda>_. io_ret ())
                         else io_ret ()) (\<lambda>_.
                  refresh_refuse opts NAP_REFRESH_ACL_DENIED
                    (Some (session_details x
                           @ (case d_reason d of None \<Rightarrow> [] | Some r \<Rightarrow> [(''reason'', JStr r)]))))
           else rotate_session opts rot x t ?n d) w = (Inr (Inr s), w')"
    using r c unfolding refresh_found_def o
    by (auto simp: refresh_refuse_not_ok io_bind_Inr split: if_splits)
  obtain d w1 where 1: "on_resolver (op_aclResolver opts (s_principal_npub x) (s_principal_pubkey x)
                      \<lparr>cx_voucher = None, cx_now = ?n, cx_session = Some (s_roles x, s_permissions x)\<rparr>) w = (Inr d, w1)"
    and d: "d_allowed d" and 2: "rotate_session opts rot x t ?n d w1 = (Inr (Inr s), w')"
    using rest by (elim io_bindE) (auto simp: io_bind_Inr refresh_refuse_not_ok split: if_splits)
  have w1: "w_sessions w1 = w_sessions w" using 1 by (auto simp: on_resolver_eq)
  have ok: "s \<in> sess (w_sessions w')" "s_refresh_token x = Some t"
    "\<exists>a r. s = rotated x (rotation_params opts x t ?n d a r)"
    using rotate_session_ok [of w1, OF _ rot _ 2] i x w1 by simp_all
  have rv: "s_revoked_at x = None"
    using c(2) revoked_nonzero [OF i x] by (cases "s_revoked_at x") auto
  have e: "\<exists>e. s_refresh_expires_at x = Some e \<and> ?n \<le> e"
    using c(3,4) by (cases "s_refresh_expires_at x") auto
  have m: "\<forall>m. op_maxSessionLifetimeSeconds opts = Some m \<longrightarrow> ?n < s_issued_at x + m"
    using c(5) by auto
  obtain as' where as': "op_aclResolver opts (s_principal_npub x) (s_principal_pubkey x)
                      \<lparr>cx_voucher = None, cx_now = ?n, cx_session = Some (s_roles x, s_permissions x)\<rparr> (w_acl w) = (Inr d, as')"
    using 1 by (auto simp: on_resolver_eq)
  show ?thesis
    unfolding refreshed_def w0 [symmetric]
    using t(2) ok no rv e m as' d by blast
qed

lemma refresh_ok:
  assumes o: "op_sessionStore opts = ops" and i: "inv (w_sessions w)"
    and r: "refreshSessionUnpadded input opts w = (Inr (Inr s), w')"
  shows "s \<in> sess (w_sessions w') \<and> (\<exists>x\<in>sess (w_sessions w). refreshed input opts w x s)"
proof -
  obtain g rot where g: "so_getByRefreshToken ops = Some g" and rot: "so_rotateRefreshToken ops = Some rot"
    using r o by (auto simp: refreshSessionUnpadded_def refresh_refuse_not_ok split: if_splits)
  have c: "truthy_num (op_refreshTtlSeconds opts)"
    using r by (auto simp: refreshSessionUnpadded_def refresh_refuse_not_ok split: if_splits)
  let ?lim = "checkRateLimit opts \<lparr>rk_scope = scope_refresh, rk_npub = None, rk_pubkey = None,
                    rk_clientIp = rf_clientIp input\<rparr>"
  obtain lim w1 where 1: "?lim w = (Inr lim, w1)" and 2: "(case lim of
          Inl retryAfter \<Rightarrow>
            io_bind (audit opts (simple_event (code_str NAP_REFRESH_RATE_LIMITED) Outcome_rate_limited None))
              (\<lambda>_. io_ret (Inl (rate_limited_failure NAP_REFRESH_RATE_LIMITED retryAfter)))
        | Inr _ \<Rightarrow>
            if \<not> truthy_str (rf_refreshToken input)
            then refresh_refuse opts NAP_REFRESH_UNKNOWN_TOKEN None
            else io_bind (on_sess (g (the (rf_refreshToken input)))) (\<lambda>session.
                case session of
                  None \<Rightarrow> refresh_refuse opts NAP_REFRESH_UNKNOWN_TOKEN None
                | Some s \<Rightarrow>
                    io_bind (io_get w_now) (\<lambda>now.
                      refresh_found opts rot (the (rf_refreshToken input)) now s))) w1 = (Inr (Inr s), w')"
    using r unfolding refreshSessionUnpadded_def o g rot option.sel Let_def
    by (simp only: c option.distinct simp_thms if_False) (elim io_bindE, blast)
  have w1: "w_sessions w1 = w_sessions w" "w_now w1 = w_now w" "w_acl w1 = w_acl w"
    using quietD [OF quiet_limit 1] by simp_all
  have ne: "truthy_str (rf_refreshToken input)"
    using 2 by (auto simp: refresh_refuse_not_ok io_bind_Inr split: sum.splits if_splits)
  then obtain t where t: "rf_refreshToken input = Some t" "t \<noteq> []" by (rule truthy_strE)
  have 3: "io_bind (on_sess (g t)) (\<lambda>session. case session of
                  None \<Rightarrow> refresh_refuse opts NAP_REFRESH_UNKNOWN_TOKEN None
                | Some s \<Rightarrow> io_bind (io_get w_now) (\<lambda>now. refresh_found opts rot t now s)) w1 = (Inr (Inr s), w')"
    using 2 t by (cases lim) (auto simp: io_bind_Inr)
  obtain x w2 where 4: "on_sess (g t) w1 = (Inr (Some x), w2)"
    and 5: "refresh_found opts rot t (w_now w2) x w2 = (Inr (Inr s), w')"
    using 3 by (elim io_bindE) (auto simp: refresh_refuse_not_ok split: option.splits)
  obtain s2 where s2: "g t (w_sessions w) = (Inr (Some x), s2)" "w2 = w1\<lparr>w_sessions := s2\<rparr>"
    using 4 w1 by (auto simp: on_sess_eq)
  have fr: "inv s2" "sess s2 \<subseteq> sess (w_sessions w)" "x \<in> sess s2"
    using refresh_frame [OF i g s2(1)] refresh_value [OF i g s2(1)] by blast+
  have "refreshed input opts w2 x s \<and> s \<in> sess (w_sessions w')"
    by (rule refresh_found_ok [OF o _ rot _ t(2,1) refl refl 5]) (use fr s2(2) in simp_all)
  moreover have "refreshed input opts w2 x s \<Longrightarrow> refreshed input opts w x s"
    unfolding refreshed_def using s2(2) w1(2,3) by simp
  ultimately show ?thesis using fr by blast
qed

text \<open>A retired token presented again ends the session.\<close>

lemma refresh_replay:
  assumes o: "op_sessionStore opts = ops" and i: "inv (w_sessions w)" and now: "w_now w \<noteq> 0"
    and conf: "truthy_num (op_refreshTtlSeconds opts)"
      "so_getByRefreshToken ops = Some g" "so_rotateRefreshToken ops \<noteq> None"
    and t: "rf_refreshToken input = Some t" "t \<noteq> []"
    and y: "g t (w_sessions w) = (Inr (Some y), s1)" "s_previous_refresh_token y = Some t"
    and r: "refreshSessionUnpadded input opts w = (Inr z, w')" and nl: "\<not> refresh_rate_limited z"
  shows "z = Inl (failure NAP_REFRESH_REUSED)
    \<and> (\<forall>x\<in>sess (w_sessions w'). s_session_id x = s_session_id y \<longrightarrow> s_revoked_at x \<noteq> None)"
proof -
  obtain rot where rot: "so_rotateRefreshToken ops = Some rot" using conf by blast
  obtain lim w1 where 1: "checkRateLimit opts \<lparr>rk_scope = scope_refresh, rk_npub = None, rk_pubkey = None,
                    rk_clientIp = rf_clientIp input\<rparr> w = (Inr lim, w1)"
    and 2: "(case lim of
          Inl retryAfter \<Rightarrow>
            io_bind (audit opts (simple_event (code_str NAP_REFRESH_RATE_LIMITED) Outcome_rate_limited None))
              (\<lambda>_. io_ret (Inl (rate_limited_failure NAP_REFRESH_RATE_LIMITED retryAfter)))
        | Inr _ \<Rightarrow> io_bind (on_sess (g t)) (\<lambda>session. case session of
                  None \<Rightarrow> refresh_refuse opts NAP_REFRESH_UNKNOWN_TOKEN None
                | Some s \<Rightarrow> io_bind (io_get w_now) (\<lambda>now. refresh_found opts rot t now s))) w1 = (Inr z, w')"
    using r unfolding refreshSessionUnpadded_def o conf(2) rot option.sel Let_def t(1)
    by (simp only: conf(1) option.distinct simp_thms if_False truthy_str_simps t(2) if_True not_False_eq_True)
      (elim io_bindE, blast)
  have w1: "w_sessions w1 = w_sessions w" "w_now w1 = w_now w" using quietD [OF quiet_limit 1] by simp_all
  let ?w2 = "w1\<lparr>w_sessions := s1\<rparr>"
  have 3: "refresh_found opts rot t (w_now w) y ?w2 = (Inr z, w')"
  proof (cases lim)
    case (Inl a)
    then show ?thesis using 2 nl by (auto simp: io_bind_Inr refresh_rate_limited_def)
  next
    case (Inr a)
    have "on_sess (g t) w1 = (Inr (Some y), ?w2)" using y(1) w1 by (simp add: on_sess_eq)
    then show ?thesis using 2 Inr w1 by simp
  qed
  then obtain w3 where 4: "on_sess (so_revokeBySessionId ops (s_session_id y) (w_now w)) ?w2 = (Inr (), w3)"
    and 5: "io_bind (audit opts \<lparr>ae_code = code_str NAP_REFRESH_REUSED, ae_challenge_id = None, ae_npub = None,
                      ae_pubkey = Some (s_principal_pubkey y), ae_outcome = Outcome_failure,
                      ae_details = Some (session_details y)\<rparr>)
             (\<lambda>_. io_ret (Inl (failure NAP_REFRESH_REUSED))) w3 = (Inr z, w')"
    using y(2) t(2) o by (auto simp: refresh_found_def io_bind_Inr)
  have i1: "inv s1" using refresh_frame [OF i conf(2) y(1)] by blast
  obtain s3 where s3: "so_revokeBySessionId ops (s_session_id y) (w_now w) s1 = (Inr (), s3)" "w_sessions w3 = s3"
    using 4 by (auto simp: on_sess_eq)
  have w': "w_sessions w' = s3" "z = Inl (failure NAP_REFRESH_REUSED)"
    using 5 s3(2) by (auto simp: io_bind_Inr dest: quietD [OF quiet_audit])
  show ?thesis
    using revoke_done [OF i1 now s3(1)] w' by blast
qed

end

end
