(* ===== verification/Acl.thy ===== *)
theory Acl
  imports MemorySessions "HOL-Library.List_Lexorder" "HOL-Library.Char_ord"
begin

text \<open>
  nap-server's access control (\<open>acl.ts\<close>): the check of a permission registry, the
  resolver that turns a stored row into a decision, and the store wrapper that revokes
  sessions when access is lost; and \<open>InMemoryAclStore\<close> of \<open>memory.ts\<close>. Permission keys
  are sorted by their UTF-8 bytes, which is JavaScript's order of UTF-16 units for text
  inside the basic plane. The resolver's \<open>logger\<close> calls have no part in the result and
  are left out.
\<close>

section \<open>The permission registry\<close>

record PermissionDefinition =
  pd_key :: string
  pd_description :: string
  pd_stepUp :: bool

record RoleDefinition =
  ro_key :: string
  ro_description :: string
  ro_permissions :: "string list"

record PermissionRegistry =
  pr_appId :: string
  pr_permissions :: "PermissionDefinition list"
  pr_roles :: "RoleDefinition list"
  pr_defaultRole :: string

datatype registry_error =
    Duplicate_key string string
  | Undeclared_default_role string
  | Unknown_permission string string

fun validateUniqueKeys_from :: "string list \<Rightarrow> string list \<Rightarrow> string \<Rightarrow> registry_error + unit" where
  "validateUniqueKeys_from seen [] label = Inr ()"
| "validateUniqueKeys_from seen (v # r) label =
     (if v \<in> set seen then Inl (Duplicate_key label v)
      else validateUniqueKeys_from (v # seen) r label)"

definition validateUniqueKeys :: "string list \<Rightarrow> string \<Rightarrow> registry_error + unit" where
  "validateUniqueKeys vs label = validateUniqueKeys_from [] vs label"

fun validateRolePermissions :: "string \<Rightarrow> string list \<Rightarrow> string list \<Rightarrow> registry_error + unit" where
  "validateRolePermissions role [] known = Inr ()"
| "validateRolePermissions role (p # r) known =
     (if p \<in> set known then validateRolePermissions role r known
      else Inl (Unknown_permission role p))"

fun validateRoles :: "RoleDefinition list \<Rightarrow> string list \<Rightarrow> registry_error + unit" where
  "validateRoles [] known = Inr ()"
| "validateRoles (ro # r) known =
     (case validateRolePermissions (ro_key ro) (ro_permissions ro) known of
        Inl e \<Rightarrow> Inl e
      | Inr _ \<Rightarrow> validateRoles r known)"

definition validatePermissionRegistry :: "PermissionRegistry \<Rightarrow> registry_error + unit" where
  "validatePermissionRegistry reg =
     (case validateUniqueKeys (map pd_key (pr_permissions reg)) ''permission'' of
        Inl e \<Rightarrow> Inl e
      | Inr _ \<Rightarrow>
     (case validateUniqueKeys (map ro_key (pr_roles reg)) ''role'' of
        Inl e \<Rightarrow> Inl e
      | Inr _ \<Rightarrow>
          if pr_defaultRole reg \<notin> set (map ro_key (pr_roles reg))
          then Inl (Undeclared_default_role (pr_defaultRole reg))
          else validateRoles (pr_roles reg) (map pd_key (pr_permissions reg))))"

text \<open>What a registry that passes the check is.\<close>

definition well_formed_registry :: "PermissionRegistry \<Rightarrow> bool" where
  "well_formed_registry reg \<longleftrightarrow>
     distinct (map pd_key (pr_permissions reg)) \<and> distinct (map ro_key (pr_roles reg))
     \<and> pr_defaultRole reg \<in> ro_key ` set (pr_roles reg)
     \<and> (\<forall>ro\<in>set (pr_roles reg). set (ro_permissions ro) \<subseteq> pd_key ` set (pr_permissions reg))"

lemma validateUniqueKeys_from_Inr:
  "validateUniqueKeys_from seen vs label = Inr () \<longleftrightarrow> distinct vs \<and> set vs \<inter> set seen = {}"
  by (induction vs arbitrary: seen) auto

lemma validateRolePermissions_Inr:
  "validateRolePermissions role ps known = Inr () \<longleftrightarrow> set ps \<subseteq> set known"
  by (induction ps) auto

lemma validateRoles_Inr:
  "validateRoles rs known = Inr () \<longleftrightarrow> (\<forall>ro\<in>set rs. set (ro_permissions ro) \<subseteq> set known)"
proof (induction rs)
  case (Cons ro r)
  show ?case
    using Cons validateRolePermissions_Inr [of "ro_key ro" "ro_permissions ro" known]
    by (cases "validateRolePermissions (ro_key ro) (ro_permissions ro) known") auto
qed simp

lemma validatePermissionRegistry_Inr:
  "validatePermissionRegistry reg = Inr () \<longleftrightarrow> well_formed_registry reg"
proof -
  have u: "validateUniqueKeys vs l = Inr () \<longleftrightarrow> distinct vs" for vs l
    by (simp add: validateUniqueKeys_def validateUniqueKeys_from_Inr)
  show ?thesis
    using u [of "map pd_key (pr_permissions reg)" "''permission''"]
      u [of "map ro_key (pr_roles reg)" "''role''"]
    by (auto simp: validatePermissionRegistry_def well_formed_registry_def validateRoles_Inr
        split: sum.splits)
qed

section \<open>Overrides\<close>

fun split_overrides ::
  "PermissionOverride list \<Rightarrow> string list \<Rightarrow> string list \<Rightarrow> string list \<times> string list" where
  "split_overrides [] granted denied = (granted, denied)"
| "split_overrides (ov # r) granted denied =
     (if po_action ov = Grant
      then split_overrides r (List.insert (po_permission ov) granted) denied
      else split_overrides r granted (List.insert (po_permission ov) denied))"

definition applyOverrides :: "string list \<Rightarrow> PermissionOverride list \<Rightarrow> string list" where
  "applyOverrides base overrides =
     (case split_overrides overrides (fold List.insert base []) [] of
        (granted, denied) \<Rightarrow> sort (filter (\<lambda>p. p \<notin> set denied) granted))"

definition grants_of :: "PermissionOverride list \<Rightarrow> string set" where
  "grants_of ovs = {po_permission ov | ov. ov \<in> set ovs \<and> po_action ov = Grant}"

definition denies_of :: "PermissionOverride list \<Rightarrow> string set" where
  "denies_of ovs = {po_permission ov | ov. ov \<in> set ovs \<and> po_action ov = Deny}"

lemma split_overrides_sets:
  "split_overrides ovs g d = (g', d') \<Longrightarrow>
     set g' = set g \<union> grants_of ovs \<and> set d' = set d \<union> denies_of ovs
     \<and> (distinct g \<longrightarrow> distinct g')"
proof (induction ovs arbitrary: g d)
  case (Cons ov r)
  then show ?case
    by (cases "po_action ov")
      (fastforce simp: grants_of_def denies_of_def split: if_splits)+
qed (simp add: grants_of_def denies_of_def)

lemma fold_insert_facts: "set (fold List.insert xs ys) = set xs \<union> set ys \<and> (distinct ys \<longrightarrow> distinct (fold List.insert xs ys))"
  by (induction xs arbitrary: ys) auto

lemma applyOverrides_spec:
  "set (applyOverrides base ovs) = (set base \<union> grants_of ovs) - denies_of ovs"
  "sorted (applyOverrides base ovs)" "distinct (applyOverrides base ovs)"
proof -
  obtain g d where gd: "split_overrides ovs (fold List.insert base []) [] = (g, d)" by fastforce
  note S = split_overrides_sets [OF gd] fold_insert_facts [of base "[]"]
  show "set (applyOverrides base ovs) = (set base \<union> grants_of ovs) - denies_of ovs"
    "sorted (applyOverrides base ovs)" "distinct (applyOverrides base ovs)"
    using S by (auto simp: applyOverrides_def gd)
qed

section \<open>The resolver\<close>

text \<open>\<open>denied\<close> and \<open>allowed\<close> of the source.\<close>

definition acl_denied :: "string \<Rightarrow> bool \<Rightarrow> AclDecision" where
  "acl_denied reason revokeSessions =
     \<lparr>d_allowed = False, d_roles = [], d_permissions = [], d_reason = Some reason,
      d_revoke_sessions = (if revokeSessions then Some True else None), d_expires_at = None\<rparr>"

definition acl_allowed :: "string \<Rightarrow> string list \<Rightarrow> AclDecision" where
  "acl_allowed role permissions =
     \<lparr>d_allowed = True, d_roles = [role], d_permissions = permissions, d_reason = None,
      d_revoke_sessions = None, d_expires_at = None\<rparr>"

definition buildAutoProvisionRecord :: "PermissionRegistry \<Rightarrow> string \<Rightarrow> AclRecord" where
  "buildAutoProvisionRecord reg pubkey =
     \<lparr>ar_principal_pubkey = pubkey, ar_app_id = pr_appId reg, ar_role = pr_defaultRole reg,
      ar_permission_overrides = [], ar_suspended = False, ar_suspended_at = None,
      ar_suspended_reason = None, ar_created_at = None, ar_updated_at = None\<rparr>"

definition resolveAclRecord ::
  "PermissionRegistry \<Rightarrow> 'as acl_ops \<Rightarrow> string \<Rightarrow> bool \<Rightarrow> ('as, AclRecord option) io" where
  "resolveAclRecord reg ops pubkey autoProvision =
     io_bind (ao_get ops pubkey (pr_appId reg)) (\<lambda>existing.
       case existing of
         Some r \<Rightarrow> io_ret (Some r)
       | None \<Rightarrow>
           if \<not> autoProvision then io_ret None
           else io_bind (ao_upsert ops (buildAutoProvisionRecord reg pubkey)) (\<lambda>_.
                  ao_get ops pubkey (pr_appId reg)))"

definition decide :: "PermissionRegistry \<Rightarrow> AclRecord option \<Rightarrow> AclDecision" where
  "decide reg rec =
     (case rec of
        None \<Rightarrow> acl_denied ''no_acl_record'' False
      | Some r \<Rightarrow>
          if ar_suspended r then acl_denied ''suspended'' True
          else case List.find (\<lambda>ro. ro_key ro = ar_role r) (pr_roles reg) of
                 None \<Rightarrow> acl_denied ''unknown_role'' False
               | Some ro \<Rightarrow>
                   acl_allowed (ro_key ro)
                     (applyOverrides (ro_permissions ro) (ar_permission_overrides r)))"

definition registry_resolve ::
  "PermissionRegistry \<Rightarrow> 'as acl_ops \<Rightarrow> bool \<Rightarrow> 'as resolver" where
  "registry_resolve reg ops autoProvision npub pubkey ctx =
     io_bind (resolveAclRecord reg ops pubkey autoProvision) (\<lambda>rec. io_ret (decide reg rec))"

definition createRegistryAclResolver ::
  "PermissionRegistry \<Rightarrow> 'as acl_ops \<Rightarrow> bool option \<Rightarrow> registry_error + 'as resolver" where
  "createRegistryAclResolver reg ops autoProvision =
     (case validatePermissionRegistry reg of
        Inl e \<Rightarrow> Inl e
      | Inr _ \<Rightarrow> Inr (registry_resolve reg ops (or_else autoProvision True)))"

lemma decide_allowed:
  "d_allowed (decide reg rec) \<longleftrightarrow>
     (\<exists>r ro. rec = Some r \<and> \<not> ar_suspended r
        \<and> List.find (\<lambda>ro. ro_key ro = ar_role r) (pr_roles reg) = Some ro
        \<and> d_roles (decide reg rec) = [ar_role r]
        \<and> d_permissions (decide reg rec)
            = applyOverrides (ro_permissions ro) (ar_permission_overrides r))"
  by (auto simp: decide_def acl_denied_def acl_allowed_def find_Some_iff
      split: option.splits if_splits)

lemma decide_revokes:
  "d_revoke_sessions (decide reg rec) = Some True \<longleftrightarrow> (\<exists>r. rec = Some r \<and> ar_suspended r)"
  by (auto simp: decide_def acl_denied_def acl_allowed_def split: option.splits if_splits)

text \<open>An allowed principal never holds a denied permission, nor one no one granted.\<close>

lemma decide_permissions:
  assumes "well_formed_registry reg" and "d_allowed (decide reg (Some r))"
  shows "set (d_permissions (decide reg (Some r)))
      \<subseteq> (pd_key ` set (pr_permissions reg) \<union> grants_of (ar_permission_overrides r))
        - denies_of (ar_permission_overrides r)"
proof -
  obtain ro where ro: "List.find (\<lambda>ro. ro_key ro = ar_role r) (pr_roles reg) = Some ro"
    "d_permissions (decide reg (Some r)) = applyOverrides (ro_permissions ro) (ar_permission_overrides r)"
    using assms(2) by (auto simp: decide_allowed)
  have "ro \<in> set (pr_roles reg)" using ro(1) by (auto simp: find_Some_iff)
  then have "set (ro_permissions ro) \<subseteq> pd_key ` set (pr_permissions reg)"
    using assms(1) by (simp add: well_formed_registry_def)
  then show ?thesis by (auto simp: ro(2) applyOverrides_spec(1))
qed

section \<open>The resolver over any store\<close>

context acl_store
begin

lemma resolve_decides:
  assumes r: "registry_resolve reg ops ap npub pk ctx s = (Inr d, s')"
  shows "\<exists>rec. d = decide reg rec \<and> rec = rows s' pk (pr_appId reg)"
proof -
  obtain rec where m: "resolveAclRecord reg ops pk ap s = (Inr rec, s')" and d: "d = decide reg rec"
    using r by (auto simp: registry_resolve_def io_bind_Inr)
  obtain e s1 where g: "ao_get ops pk (pr_appId reg) s = (Inr e, s1)"
    and k: "(case e of Some r \<Rightarrow> io_ret (Some r)
       | None \<Rightarrow> if \<not> ap then io_ret None
           else io_bind (ao_upsert ops (buildAutoProvisionRecord reg pk)) (\<lambda>_.
                  ao_get ops pk (pr_appId reg))) s1 = (Inr rec, s')"
    using m by (auto simp: resolveAclRecord_def io_bind_Inr)
  have e: "e = rows s1 pk (pr_appId reg)" using get_frame [OF g] get_value [OF g] by simp
  have "rec = rows s' pk (pr_appId reg)"
  proof (cases "\<exists>r. e = Some r \<or> \<not> ap")
    case True
    then show ?thesis using k e by (auto split: option.splits)
  next
    case False
    then obtain u s2 where "ao_get ops pk (pr_appId reg) s2 = (Inr rec, s')"
      using k by (auto simp: io_bind_Inr split: option.splits)
    then show ?thesis using get_frame get_value by metis
  qed
  then show ?thesis using d by blast
qed

text \<open>A suspended principal is denied, and the denial asks for the sessions to end.\<close>

lemma suspended_denied:
  assumes k: "okkey pk" and su: "ao_suspend ops pk (pr_appId reg) why s = (Inr (), s1)"
    and row: "rows s pk (pr_appId reg) \<noteq> None"
    and r: "registry_resolve reg ops ap npub pk ctx s1 = (Inr d, s2)"
  shows "\<not> d_allowed d \<and> d_revoke_sessions d = Some True"
proof -
  obtain r1 where r1: "rows s1 pk (pr_appId reg) = Some r1" "ar_suspended r1"
    using suspend_same [OF k su] row by (auto split: option.splits)
  obtain e s3 where g: "ao_get ops pk (pr_appId reg) s1 = (Inr e, s3)"
    using r by (auto simp: registry_resolve_def resolveAclRecord_def io_bind_Inr)
  have "e = Some r1" using get_value [OF g] r1 by simp
  then have "d = decide reg (Some r1)"
    using r g by (auto simp: registry_resolve_def resolveAclRecord_def io_bind_Inr)
  then show ?thesis using r1 by (simp add: decide_def acl_denied_def)
qed

text \<open>An unknown principal gets the default role.\<close>

lemma auto_provisioned:
  assumes k: "okkey pk" and reg: "well_formed_registry reg" and row: "rows s pk (pr_appId reg) = None"
    and r: "registry_resolve reg ops True npub pk ctx s = (Inr d, s')"
  shows "d_allowed d \<and> d_roles d = [pr_defaultRole reg]"
proof -
  let ?new = "buildAutoProvisionRecord reg pk"
  obtain e s1 where g: "ao_get ops pk (pr_appId reg) s = (Inr e, s1)"
    using r by (auto simp: registry_resolve_def resolveAclRecord_def io_bind_Inr)
  have "e = None" using get_value [OF g] row by simp
  then obtain s2 e2 s3 where up: "ao_upsert ops ?new s1 = (Inr (), s2)"
    and g2: "ao_get ops pk (pr_appId reg) s2 = (Inr e2, s3)" and d: "d = decide reg e2"
    using r g by (auto simp: registry_resolve_def resolveAclRecord_def io_bind_Inr)
  have new: "ar_principal_pubkey ?new = pk" "ar_app_id ?new = pr_appId reg"
    by (simp_all add: buildAutoProvisionRecord_def)
  obtain r' where r': "e2 = Some r'" "same_grant r' ?new" "ar_suspended r' = ar_suspended ?new"
    using upsert_get [of ?new s1 s2 e2 s3] k up g2 new by auto
  have role: "ar_role r' = pr_defaultRole reg" "\<not> ar_suspended r'"
    using r' by (simp_all add: same_grant_def buildAutoProvisionRecord_def)
  have "List.find (\<lambda>ro. ro_key ro = ar_role r') (pr_roles reg) \<noteq> None"
    unfolding find_None_iff using reg role(1) by (auto simp: well_formed_registry_def)
  then obtain ro where ro: "List.find (\<lambda>ro. ro_key ro = ar_role r') (pr_roles reg) = Some ro"
    by blast
  then have "ro_key ro = ar_role r'" by (auto simp: find_Some_iff)
  then show ?thesis
    using d r'(1) role ro by (simp add: decide_def acl_allowed_def)
qed

end

section \<open>The in-memory store\<close>

record mem_acl =
  ma_records :: "(string, AclRecord) jsmap"
  ma_nowIso :: string

definition ma_key :: "string \<Rightarrow> string \<Rightarrow> string" where
  "ma_key appId pubkey = appId @ '':'' @ pubkey"

definition ma_get :: "string \<Rightarrow> string \<Rightarrow> (mem_acl, AclRecord option) io" where
  "ma_get pubkey appId s = (Inr (jm_get (ma_records s) (ma_key appId pubkey)), s)"

definition ma_upsert :: "AclRecord \<Rightarrow> (mem_acl, unit) io" where
  "ma_upsert r s =
     (Inr (), s\<lparr>ma_records := jm_set (ma_key (ar_app_id r) (ar_principal_pubkey r)) r (ma_records s)\<rparr>)"

definition ma_suspend :: "string \<Rightarrow> string \<Rightarrow> string option \<Rightarrow> (mem_acl, unit) io" where
  "ma_suspend pubkey appId reason s =
     (let key = ma_key appId pubkey
      in case jm_get (ma_records s) key of
           None \<Rightarrow> (Inr (), s)
         | Some existing \<Rightarrow>
             (Inr (), s\<lparr>ma_records := jm_set key
                (existing\<lparr>ar_suspended := True, ar_suspended_reason := reason,
                          ar_suspended_at := Some (ma_nowIso s)\<rparr>) (ma_records s)\<rparr>))"

definition ma_unsuspend :: "string \<Rightarrow> string \<Rightarrow> (mem_acl, unit) io" where
  "ma_unsuspend pubkey appId s =
     (let key = ma_key appId pubkey
      in case jm_get (ma_records s) key of
           None \<Rightarrow> (Inr (), s)
         | Some existing \<Rightarrow>
             (Inr (), s\<lparr>ma_records := jm_set key
                (existing\<lparr>ar_suspended := False, ar_suspended_reason := None,
                          ar_suspended_at := None\<rparr>) (ma_records s)\<rparr>))"

definition ma_ops :: "mem_acl acl_ops" where
  "ma_ops = \<lparr>ao_get = ma_get, ao_upsert = ma_upsert, ao_suspend = ma_suspend,
     ao_unsuspend = ma_unsuspend\<rparr>"

definition ma_rows :: "mem_acl \<Rightarrow> string \<Rightarrow> string \<Rightarrow> AclRecord option" where
  "ma_rows s p a = jm_get (ma_records s) (ma_key a p)"

text \<open>The colon of the key keeps apart public keys that have none (they are hex).\<close>

definition no_colon :: "string \<Rightarrow> bool" where
  "no_colon p \<longleftrightarrow> CHR '':'' \<notin> set p"

lemma takeWhile_upto: "x \<notin> set y \<Longrightarrow> takeWhile (\<lambda>c. c \<noteq> x) (y @ x # z) = y"
  by (induction y) auto

lemma ma_key_inj:
  assumes p: "no_colon p" and q: "no_colon q" and eq: "ma_key a p = ma_key b q"
  shows "a = b \<and> p = q"
proof -
  have key: "takeWhile (\<lambda>c. c \<noteq> CHR '':'') (rev (ma_key c x)) = rev x" if "no_colon x" for c x
    using that takeWhile_upto [of "CHR '':''" "rev x" "rev c"] by (simp add: ma_key_def no_colon_def)
  have "rev p = rev q" using key [OF p, of a] key [OF q, of b] eq by simp
  then show ?thesis using eq by (simp add: ma_key_def)
qed

interpretation ma: acl_store ma_ops ma_rows no_colon
proof unfold_locales
  fix s s' :: mem_acl and r xu p a
  assume p: "no_colon p" "no_colon (ar_principal_pubkey r)"
    and u: "ao_upsert ma_ops r s = (xu, s')" and ne: "(p, a) \<noteq> (ar_principal_pubkey r, ar_app_id r)"
  have "ma_key a p \<noteq> ma_key (ar_app_id r) (ar_principal_pubkey r)"
    using ma_key_inj p ne by blast
  then show "ma_rows s' p a = ma_rows s p a"
    using u by (auto simp: ma_ops_def ma_upsert_def ma_rows_def)
next
  fix s s' :: mem_acl and xu and p q a b :: string and why
  assume p: "no_colon p" "no_colon q" and ne: "(q, b) \<noteq> (p, a)"
  have k: "ma_key b q \<noteq> ma_key a p" using ma_key_inj p ne by blast
  show "ao_suspend ma_ops p a why s = (xu, s') \<Longrightarrow> ma_rows s' q b = ma_rows s q b"
    using k by (auto simp: ma_ops_def ma_suspend_def ma_rows_def Let_def split: option.splits)
  show "ao_unsuspend ma_ops p a s = (xu, s') \<Longrightarrow> ma_rows s' q b = ma_rows s q b"
    using k by (auto simp: ma_ops_def ma_unsuspend_def ma_rows_def Let_def split: option.splits)
qed (auto simp: ma_ops_def ma_get_def ma_upsert_def ma_suspend_def ma_unsuspend_def ma_rows_def
    same_grant_def Let_def split: option.splits)

section \<open>The revoking store\<close>

text \<open>\<open>createRevokingAclStore\<close> over an ACL store and a session store; \<open>now\<close> is its clock.\<close>

definition on_acl :: "('as, 'a) io \<Rightarrow> ('as \<times> 'ss, 'a) io" where
  "on_acl = io_on fst (\<lambda>f (a, b). (f a, b))"

definition on_sessions :: "('ss, 'a) io \<Rightarrow> ('as \<times> 'ss, 'a) io" where
  "on_sessions = io_on snd (\<lambda>f (a, b). (a, f b))"

definition revoking_upsert ::
  "'as acl_ops \<Rightarrow> 'ss session_ops \<Rightarrow> int \<Rightarrow> AclRecord \<Rightarrow> ('as \<times> 'ss, unit) io" where
  "revoking_upsert aops sops now r =
     io_bind (on_acl (ao_get aops (ar_principal_pubkey r) (ar_app_id r))) (\<lambda>previous.
     io_bind (on_acl (ao_upsert aops r)) (\<lambda>_.
       if (case previous of None \<Rightarrow> False | Some old \<Rightarrow> ar_role old \<noteq> ar_role r) \<or> ar_suspended r
       then io_bind (on_sessions (so_revokeByPrincipal sops (ar_principal_pubkey r) now)) (\<lambda>_. io_ret ())
       else io_ret ()))"

definition revoking_suspend ::
  "'as acl_ops \<Rightarrow> 'ss session_ops \<Rightarrow> int \<Rightarrow> string \<Rightarrow> string \<Rightarrow> string option \<Rightarrow> ('as \<times> 'ss, unit) io" where
  "revoking_suspend aops sops now pubkey appId reason =
     io_bind (on_acl (ao_suspend aops pubkey appId reason)) (\<lambda>_.
     io_bind (on_sessions (so_revokeByPrincipal sops pubkey now)) (\<lambda>_. io_ret ()))"

definition createRevokingAclStore ::
  "'as acl_ops \<Rightarrow> 'ss session_ops \<Rightarrow> int \<Rightarrow> ('as \<times> 'ss) acl_ops" where
  "createRevokingAclStore aops sops now =
     \<lparr>ao_get = (\<lambda>p a. on_acl (ao_get aops p a)),
      ao_upsert = revoking_upsert aops sops now,
      ao_suspend = revoking_suspend aops sops now,
      ao_unsuspend = (\<lambda>p a. on_acl (ao_unsuspend aops p a))\<rparr>"

lemma on_acl_eq: "on_acl m (a, b) = (x, s') \<longleftrightarrow> (\<exists>a'. m a = (x, a') \<and> s' = (a', b))"
  by (auto simp: on_acl_def io_on_def split: prod.splits)

lemma on_sessions_eq: "on_sessions m (a, b) = (x, s') \<longleftrightarrow> (\<exists>b'. m b = (x, b') \<and> s' = (a, b'))"
  by (auto simp: on_sessions_def io_on_def split: prod.splits)

text \<open>
  The wrapper is itself an ACL store: it changes the same rows, and adds only the
  revocations.
\<close>

lemma revoking_upsert_acl:
  assumes "revoking_upsert aops sops now r (a, b) = (Inr (), s')"
  shows "\<exists>e a1. ao_get aops (ar_principal_pubkey r) (ar_app_id r) a = (Inr e, a1)
           \<and> ao_upsert aops r a1 = (Inr (), fst s')"
  using assms
  by (auto simp: revoking_upsert_def io_bind_Inr on_acl_eq on_sessions_eq split: if_splits)

interpretation rv: acl_store "createRevokingAclStore ma_ops ms_ops now" "\<lambda>s. ma_rows (fst s)" no_colon
  for now
proof unfold_locales
  fix s s' :: "mem_acl \<times> mem_sessions" and x and p a :: string
  assume g: "ao_get (createRevokingAclStore ma_ops ms_ops now) p a s = (x, s')"
  obtain sa sb where s: "s = (sa, sb)" by (cases s)
  show "ma_rows (fst s') = ma_rows (fst s)"
    using g ma.get_frame [of p a sa x] by (auto simp: createRevokingAclStore_def s on_acl_eq)
next
  fix s s' :: "mem_acl \<times> mem_sessions" and row and p a :: string
  assume g: "ao_get (createRevokingAclStore ma_ops ms_ops now) p a s = (Inr row, s')"
  obtain sa sb where s: "s = (sa, sb)" by (cases s)
  show "row = ma_rows (fst s) p a"
    using g ma.get_value [of p a sa row] by (auto simp: createRevokingAclStore_def s on_acl_eq)
next
  fix s s' :: "mem_acl \<times> mem_sessions" and r u
  assume k: "no_colon (ar_principal_pubkey r)"
    and up: "ao_upsert (createRevokingAclStore ma_ops ms_ops now) r s = (Inr u, s')"
  obtain sa sb where s: "s = (sa, sb)" by (cases s)
  obtain e a1 where "ao_upsert ma_ops r a1 = (Inr (), fst s')"
    using revoking_upsert_acl [of ma_ops ms_ops now r sa sb s'] up
    by (auto simp: createRevokingAclStore_def s)
  from ma.upsert_same [OF k this]
  show "\<exists>r'. ma_rows (fst s') (ar_principal_pubkey r) (ar_app_id r) = Some r' \<and> same_grant r' r
      \<and> ar_suspended r' = ar_suspended r" .
next
  fix s s' :: "mem_acl \<times> mem_sessions" and p a :: string and r xu
  assume k: "no_colon p" "no_colon (ar_principal_pubkey r)" "(p, a) \<noteq> (ar_principal_pubkey r, ar_app_id r)"
    and up: "ao_upsert (createRevokingAclStore ma_ops ms_ops now) r s = (xu, s')"
  obtain sa sb where s: "s = (sa, sb)" by (cases s)
  have "fst s' = snd (ma_upsert r sa)"
    using up by (auto simp: createRevokingAclStore_def s revoking_upsert_def io_bind_def on_acl_def
        on_sessions_def io_on_def ma_ops_def ma_get_def ma_upsert_def
        split: prod.splits sum.splits if_splits)
  then show "ma_rows (fst s') p a = ma_rows (fst s) p a"
    using ma.upsert_other [OF k(1,2) _ k(3), of sa "Inr ()" "fst s'"]
    by (simp add: s ma_ops_def ma_upsert_def)
next
  fix s s' :: "mem_acl \<times> mem_sessions" and p a :: string and why u
  assume k: "no_colon p"
    and su: "ao_suspend (createRevokingAclStore ma_ops ms_ops now) p a why s = (Inr u, s')"
  obtain sa sb where s: "s = (sa, sb)" by (cases s)
  have "ao_suspend ma_ops p a why sa = (Inr (), fst s')"
    using su by (auto simp: createRevokingAclStore_def s revoking_suspend_def io_bind_Inr on_acl_eq
        on_sessions_eq)
  from ma.suspend_same [OF k this]
  show "case ma_rows (fst s) p a of None \<Rightarrow> ma_rows (fst s') p a = None
      | Some r \<Rightarrow> \<exists>r'. ma_rows (fst s') p a = Some r' \<and> ar_suspended r' \<and> same_grant r' r"
    by (simp add: s)
next
  fix s s' :: "mem_acl \<times> mem_sessions" and p q a b :: string and why xu
  assume k: "no_colon p" "no_colon q" "(q, b) \<noteq> (p, a)"
    and su: "ao_suspend (createRevokingAclStore ma_ops ms_ops now) p a why s = (xu, s')"
  obtain sa sb where s: "s = (sa, sb)" by (cases s)
  have "fst s' = snd (ma_suspend p a why sa)"
    using su by (auto simp: createRevokingAclStore_def s revoking_suspend_def io_bind_def on_acl_def
        on_sessions_def io_on_def ma_ops_def ma_suspend_def Let_def
        split: prod.splits sum.splits if_splits option.splits)
  moreover have "ao_suspend ma_ops p a why sa = (Inr (), snd (ma_suspend p a why sa))"
    by (simp add: ma_ops_def ma_suspend_def Let_def split: option.splits)
  ultimately show "ma_rows (fst s') q b = ma_rows (fst s) q b"
    using ma.suspend_other [OF k(1,2) _ k(3)] by (simp add: s)
next
  fix s s' :: "mem_acl \<times> mem_sessions" and p a :: string and u
  assume k: "no_colon p"
    and su: "ao_unsuspend (createRevokingAclStore ma_ops ms_ops now) p a s = (Inr u, s')"
  obtain sa sb where s: "s = (sa, sb)" by (cases s)
  have "ao_unsuspend ma_ops p a sa = (Inr (), fst s')"
    using su by (auto simp: createRevokingAclStore_def s on_acl_eq)
  from ma.unsuspend_same [OF k this]
  show "case ma_rows (fst s) p a of None \<Rightarrow> ma_rows (fst s') p a = None
      | Some r \<Rightarrow> \<exists>r'. ma_rows (fst s') p a = Some r' \<and> \<not> ar_suspended r' \<and> same_grant r' r"
    by (simp add: s)
next
  fix s s' :: "mem_acl \<times> mem_sessions" and p q a b :: string and xu
  assume k: "no_colon p" "no_colon q" "(q, b) \<noteq> (p, a)"
    and su: "ao_unsuspend (createRevokingAclStore ma_ops ms_ops now) p a s = (xu, s')"
  obtain sa sb where s: "s = (sa, sb)" by (cases s)
  show "ma_rows (fst s') q b = ma_rows (fst s) q b"
    using su ma.unsuspend_other [OF k(1,2) _ k(3)]
    by (auto simp: createRevokingAclStore_def s on_acl_eq)
qed

text \<open>Losing access ends the sessions: by suspension, and by a change of role.\<close>

lemma revoking_suspend_revokes:
  assumes i: "ms_inv b" and now: "now \<noteq> 0"
    and su: "ao_suspend (createRevokingAclStore aops ms_ops now) pk app why (a, b) = (Inr (), (a', b'))"
    and g: "ms_getByAccessToken t b' = (Inr (Some y), b'')" and pk: "s_principal_pubkey y = pk"
  shows "truthy_num (s_revoked_at y)"
proof -
  obtain n where n: "so_revokeByPrincipal ms_ops pk now b = (Inr n, b')"
    using su by (auto simp: createRevokingAclStore_def revoking_suspend_def io_bind_Inr on_acl_eq
        on_sessions_eq)
  show ?thesis
    by (rule ms.revoked_principal_token [OF i now n _ pk]) (use g in \<open>simp add: ms_ops_def\<close>)
qed

lemma revoking_upsert_revokes:
  assumes i: "ms_inv b" and now: "now \<noteq> 0"
    and old: "ma_rows a (ar_principal_pubkey r) (ar_app_id r) = Some old"
    and lost: "ar_role old \<noteq> ar_role r \<or> ar_suspended r"
    and up: "ao_upsert (createRevokingAclStore ma_ops ms_ops now) r (a, b) = (Inr (), (a', b'))"
    and g: "ms_getByAccessToken t b' = (Inr (Some y), b'')"
    and pk: "s_principal_pubkey y = ar_principal_pubkey r"
  shows "truthy_num (s_revoked_at y)"
proof -
  obtain n where n: "so_revokeByPrincipal ms_ops (ar_principal_pubkey r) now b = (Inr n, b')"
    using up old lost
    by (auto simp: createRevokingAclStore_def revoking_upsert_def io_bind_Inr on_acl_eq
        on_sessions_eq ma_ops_def ma_get_def ma_rows_def split: if_splits)
  show ?thesis
    by (rule ms.revoked_principal_token [OF i now n _ pk]) (use g in \<open>simp add: ms_ops_def\<close>)
qed

end
