(* ===== verification/Express.thy ===== *)
theory Express
  imports ServerRefresh Acl Audience
begin

text \<open>
  nap-adapter-express (\<open>adapter.ts\<close>): the request handlers of the five authentication
  routes, the guards applications put before their own routes, and the wiring checks. A
  handler is an action from the request to a response; \<open>next()\<close> is \<open>Pass\<close> and
  \<open>next(error)\<close> is \<open>Fail\<close>. The framework (Express) is a parameter: a request is its
  headers by lower-case name, the raw body the parser captured, and the parsed \<open>npub\<close>;
  the body parser itself is not modelled. The functions an application supplies
  (\<open>writeSuccess\<close>, \<open>getExternalBaseUrl\<close>, ...) are functions of the options.
\<close>

section \<open>Requests, responses, options\<close>

record http_request =
  hr_headers :: "(string \<times> string) list"
  hr_method :: string
  hr_npub :: "json option"
  hr_rawBody :: "byte list option"
  hr_protocol :: string
  hr_ip :: "string option"

definition header :: "http_request \<Rightarrow> string \<Rightarrow> string option" where
  "header req name = map_of (hr_headers req) name"

datatype response_body =
    Body_message string string
  | Body_init AuthInitResponse
  | Body_success AuthSuccessResponse
  | Body_session PublicSessionView
  | Body_json json
  | Body_none

type_synonym cookie_attrs = "(string, json) jsmap"

record http_response =
  hs_status :: nat
  hs_body :: response_body
  hs_retryAfter :: "int option"
  hs_cookie :: "(string \<times> string \<times> cookie_attrs) option"
  hs_clear :: "(string \<times> cookie_attrs) option"

definition reply_json :: "nat \<Rightarrow> response_body \<Rightarrow> http_response" where
  "reply_json status body =
     \<lparr>hs_status = status, hs_body = body, hs_retryAfter = None, hs_cookie = None, hs_clear = None\<rparr>"

datatype handled = Pass | Reply http_response | Fail exn

text \<open>\<open>try { .. } catch (error) { next(error) }\<close>.\<close>

definition guarded :: "('w, handled) io \<Rightarrow> ('w, handled) io" where
  "guarded m w = (case m w of (Inl e, w') \<Rightarrow> (Inr (Fail e), w') | (Inr r, w') \<Rightarrow> (Inr r, w'))"

text \<open>\<open>writeSuccess\<close> with the three symbols \<open>writeNapCookieSuccess\<close> attaches to it.\<close>

record success_writer =
  sw_write :: "AuthSuccessResponse \<Rightarrow> http_response"
  sw_discardsTokens :: bool
  sw_cookieAttrs :: "cookie_attrs option"
  sw_cookieName :: "string option"

record ('cs, 'ss, 'as, 'rl) express_options =
  eo_server :: "('cs, 'ss, 'as, 'rl) server_options"
  eo_getExternalBaseUrl :: "(http_request \<Rightarrow> exn + string) option"
  eo_audienceResolver :: "(http_request \<Rightarrow> exn + string) option"
  eo_cookieName :: "string option"
  eo_clearCookieOptions :: "cookie_attrs option"
  eo_getClientIp :: "(http_request \<Rightarrow> string option) option"
  eo_rawBodyExtractor :: "(http_request \<Rightarrow> byte list option) option"
  eo_writeSuccess :: "success_writer option"
  eo_writeFailure :: "(VerifyCompleteFailure \<Rightarrow> http_response) option"

record ('ss, 'as) guard_options =
  go_sessionStore :: "'ss session_ops"
  go_cookieName :: "string option"
  go_aclResolver :: "'as resolver option"
  go_registry :: "PermissionRegistry option"
  go_log :: log_config
  go_clock :: "int option"

text \<open>The guard's notion of now: its own clock, or the one it shares with the server.\<close>

definition guardNow :: "('ss, 'as) guard_options \<Rightarrow> ('cs, 'ss, 'as, 'rl) world \<Rightarrow> int" where
  "guardNow gopts w = clock_now (go_clock gopts) w"

section \<open>Answers\<close>

definition unauthorized :: http_response where
  "unauthorized =
     (case toPublicAuthFailure of (status, body) \<Rightarrow>
        reply_json status (Body_message (fr_status body) (fr_message body)))"

definition defaultWriteFailure :: http_response where
  "defaultWriteFailure =
     (case toPublicAuthFailure of (status, body) \<Rightarrow>
        reply_json status (Body_message (fr_status body) (fr_message body)))"

definition forbidden :: "string \<Rightarrow> http_response" where
  "forbidden reason = reply_json 403 (Body_message ''error'' reason)"

definition rateLimited :: "int option \<Rightarrow> http_response" where
  "rateLimited retryAfterSeconds =
     (reply_json 429 (Body_message ''error'' ''rate limited''))\<lparr>hs_retryAfter := retryAfterSeconds\<rparr>"

definition malformed_response :: http_response where
  "malformed_response = reply_json 400 (Body_message ''error'' ''bad request'')"

definition issueChallengeFailure :: "VerifyCompleteFailure \<Rightarrow> http_response" where
  "issueChallengeFailure f =
     (if vf_code f = NAP_INIT_RATE_LIMITED then rateLimited (vf_retryAfterSeconds f)
      else reply_json (if vf_code f = NAP_INIT_INVALID_NPUB then 400 else 500)
             (Body_message ''error''
                (if vf_code f = NAP_INIT_INVALID_NPUB then ''bad request'' else ''internal error'')))"

section \<open>Reading the request\<close>

text \<open>\<open>None\<close>: the cookie is not there.\<close>

definition cookie_pair :: "string \<Rightarrow> string \<times> string" where
  "cookie_pair candidate =
     (case js_split (CHR ''='') (js_trim candidate) of
        [] \<Rightarrow> ([], [])
      | name # rest \<Rightarrow> (name, js_join ''='' rest))"

definition parseCookieValue :: "string option \<Rightarrow> string \<Rightarrow> string option" where
  "parseCookieValue hdr cookieName =
     (if \<not> truthy_str hdr then None
      else map_of (map cookie_pair (js_split (CHR '';'') (the hdr))) cookieName)"

definition bearer_session_token :: "http_request \<Rightarrow> string option" where
  "bearer_session_token req =
     (case header req ''authorization'' of
        None \<Rightarrow> None
      | Some a \<Rightarrow> if starts_with a ''Bearer '' then Some (js_trim (drop (length ''Bearer '') a)) else None)"

text \<open>\<open>bearerTokenOf\<close>: the refresh credential; here the scheme is case-insensitive.\<close>

definition bearerTokenOf :: "http_request \<Rightarrow> string option" where
  "bearerTokenOf req =
     (case header req ''authorization'' of
        None \<Rightarrow> None
      | Some a \<Rightarrow> if starts_with (to_lower a) ''bearer '' then Some (js_trim (drop 7 a)) else None)"

definition session_token :: "http_request \<Rightarrow> string option \<Rightarrow> string option" where
  "session_token req cookieName =
     (let bearer = bearer_session_token req;
          cookie = parseCookieValue (header req ''cookie'') (or_else cookieName ''session'')
      in if truthy_str bearer then bearer else cookie)"

definition loadSession ::
  "http_request \<Rightarrow> ('ss, 'as) guard_options \<Rightarrow> ('cs, 'ss, 'as, 'rl, SessionRecord option) act" where
  "loadSession req gopts =
     (let token = session_token req (go_cookieName gopts) in
      if \<not> truthy_str token then io_ret None
      else
        io_bind (on_sess (so_getByAccessToken (go_sessionStore gopts) (the token))) (\<lambda>session.
          case session of
            None \<Rightarrow> io_ret None
          | Some s \<Rightarrow>
              io_bind (io_get (guardNow gopts)) (\<lambda>now.
                io_ret (if truthy_num (s_revoked_at s) \<or> s_expires_at s \<le> now then None else Some s))))"

section \<open>Guards\<close>

datatype guard_context =
    Context_ok SessionRecord "string list \<times> string list"
  | Context_denied GuardDenialCode "SessionRecord option"

definition loadGuardContext ::
  "http_request \<Rightarrow> ('ss, 'as) guard_options \<Rightarrow> ('cs, 'ss, 'as, 'rl, guard_context) act" where
  "loadGuardContext req gopts =
     io_bind (loadSession req gopts) (\<lambda>session.
       case session of
         None \<Rightarrow> io_ret (Context_denied NO_SESSION None)
       | Some s \<Rightarrow>
           io_bind (resolveEffectiveAcl (go_aclResolver gopts) (Some (go_sessionStore gopts)) (go_clock gopts) s) (\<lambda>acl.
             case acl of
               Some a \<Rightarrow> io_ret (Context_ok s a)
             | None \<Rightarrow> io_ret (Context_denied ACL_DENIED (Some s))))"

definition denyGuard ::
  "('ss, 'as) guard_options \<Rightarrow> GuardDenialCode \<Rightarrow> SessionRecord option \<Rightarrow> http_response
     \<Rightarrow> (string \<times> json) list option \<Rightarrow> ('cs, 'ss, 'as, 'rl, handled) act" where
  "denyGuard gopts code session response details =
     io_bind (on_log (logGuardDenial (go_log gopts) code session details)) (\<lambda>_. io_ret (Reply response))"

definition hasValidStepUpToken :: "http_request \<Rightarrow> SessionRecord \<Rightarrow> int \<Rightarrow> bool" where
  "hasValidStepUpToken req s now \<longleftrightarrow>
     truthy_str (header req ''x-step-up-token'')
     \<and> truthy_str (s_step_up_token s)
     \<and> constantTimeEquals (the (s_step_up_token s)) (the (header req ''x-step-up-token''))
     \<and> truthy_num (s_step_up_expires_at s)
     \<and> the (s_step_up_expires_at s) > now"

definition requiresStepUp :: "string \<Rightarrow> PermissionRegistry option \<Rightarrow> bool" where
  "requiresStepUp permission registry =
     (case registry of
        None \<Rightarrow> False
      | Some reg \<Rightarrow> list_ex (\<lambda>d. pd_key d = permission \<and> pd_stepUp d) (pr_permissions reg))"

definition permission_details :: "string \<Rightarrow> (string \<times> json) list option" where
  "permission_details permission = Some [(''permission'', JStr permission)]"

definition requirePermission ::
  "string \<Rightarrow> ('ss, 'as) guard_options \<Rightarrow> http_request \<Rightarrow> ('cs, 'ss, 'as, 'rl, handled) act" where
  "requirePermission permission gopts req =
     guarded (io_bind (loadGuardContext req gopts) (\<lambda>context.
       case context of
         Context_denied code session \<Rightarrow>
           denyGuard gopts code session unauthorized (permission_details permission)
       | Context_ok s acl \<Rightarrow>
           if permission \<notin> set (snd acl)
           then denyGuard gopts PERMISSION_DENIED (Some s) (forbidden ''forbidden'') (permission_details permission)
           else io_bind (io_get (guardNow gopts)) (\<lambda>now.
                  if requiresStepUp permission (go_registry gopts) \<and> \<not> hasValidStepUpToken req s now
                  then denyGuard gopts STEP_UP_REQUIRED (Some s) (forbidden ''step-up required'')
                         (permission_details permission)
                  else io_ret Pass)))"

definition roles_details :: "string list \<Rightarrow> (string \<times> json) list option" where
  "roles_details accepted = Some [(''roles'', JArr (map JStr accepted))]"

definition requireRole ::
  "string list \<Rightarrow> ('ss, 'as) guard_options \<Rightarrow> http_request \<Rightarrow> ('cs, 'ss, 'as, 'rl, handled) act" where
  "requireRole accepted gopts req =
     guarded (io_bind (loadGuardContext req gopts) (\<lambda>context.
       case context of
         Context_denied code session \<Rightarrow> denyGuard gopts code session unauthorized (roles_details accepted)
       | Context_ok s acl \<Rightarrow>
           if \<not> list_ex (\<lambda>r. r \<in> set (fst acl)) accepted
           then denyGuard gopts ROLE_DENIED (Some s) (forbidden ''forbidden'') (roles_details accepted)
           else io_ret Pass))"

definition requireStepUp ::
  "('ss, 'as) guard_options \<Rightarrow> http_request \<Rightarrow> ('cs, 'ss, 'as, 'rl, handled) act" where
  "requireStepUp gopts req =
     guarded (io_bind (loadSession req gopts) (\<lambda>session.
       case session of
         None \<Rightarrow> denyGuard gopts NO_SESSION None unauthorized None
       | Some s \<Rightarrow>
           io_bind (io_get (guardNow gopts)) (\<lambda>now.
             if \<not> hasValidStepUpToken req s now
             then denyGuard gopts STEP_UP_REQUIRED (Some s) (forbidden ''step-up required'') None
             else io_ret Pass)))"

definition requireSession ::
  "('ss, 'as) guard_options \<Rightarrow> http_request \<Rightarrow> ('cs, 'ss, 'as, 'rl, handled) act" where
  "requireSession gopts req =
     guarded (io_bind (loadGuardContext req gopts) (\<lambda>context.
       case context of
         Context_denied code session \<Rightarrow> denyGuard gopts code session unauthorized None
       | Context_ok s acl \<Rightarrow> io_ret Pass))"

section \<open>Wiring\<close>

definition normalizeBaseUrl :: "string \<Rightarrow> string" where
  "normalizeBaseUrl value = (if ends_with value ''/'' then butlast value else value)"

text \<open>Only called when one of the two sources is there (\<open>assertOneAudienceSource\<close>).\<close>

definition authCompleteUrl ::
  "http_request \<Rightarrow> ('cs, 'ss, 'as, 'rl) express_options \<Rightarrow> exn + string" where
  "authCompleteUrl req eopts =
     (case eo_audienceResolver eopts of
        Some resolve \<Rightarrow> resolve req
      | None \<Rightarrow>
          (case eo_getExternalBaseUrl eopts of
             None \<Rightarrow> Inl (Exn ''TypeError'')
           | Some base \<Rightarrow>
               (case base req of
                  Inl e \<Rightarrow> Inl e
                | Inr b \<Rightarrow> Inr (normalizeBaseUrl b @ ''/auth/complete''))))"

definition assertOneAudienceSource :: "('cs, 'ss, 'as, 'rl) express_options \<Rightarrow> bool" where
  "assertOneAudienceSource eopts \<longleftrightarrow>
     (eo_getExternalBaseUrl eopts \<noteq> None) \<noteq> (eo_audienceResolver eopts \<noteq> None)"

definition discardsTokens :: "success_writer option \<Rightarrow> bool" where
  "discardsTokens wr = (case wr of None \<Rightarrow> False | Some sw \<Rightarrow> sw_discardsTokens sw)"

definition setCookieAttrsOf :: "success_writer option \<Rightarrow> cookie_attrs option" where
  "setCookieAttrsOf wr =
     (case wr of
        None \<Rightarrow> None
      | Some sw \<Rightarrow> map_option (\<lambda>attrs. jm_delete ''expires'' (jm_delete ''maxAge'' attrs)) (sw_cookieAttrs sw))"

definition assertCookieNamesAgree :: "('cs, 'ss, 'as, 'rl) express_options \<Rightarrow> bool" where
  "assertCookieNamesAgree eopts =
     (case eo_writeSuccess eopts of
        None \<Rightarrow> True
      | Some sw \<Rightarrow>
          (case sw_cookieName sw of
             None \<Rightarrow> True
           | Some written \<Rightarrow> written = or_else (eo_cookieName eopts) ''session''))"

definition rawBodyOf :: "http_request \<Rightarrow> ('cs, 'ss, 'as, 'rl) express_options \<Rightarrow> byte list option" where
  "rawBodyOf req eopts =
     (case eo_rawBodyExtractor eopts of Some extract \<Rightarrow> extract req | None \<Rightarrow> hr_rawBody req)"

definition assertRefreshIsWirable :: "('cs, 'ss, 'as, 'rl) express_options \<Rightarrow> bool" where
  "assertRefreshIsWirable eopts \<longleftrightarrow>
     truthy_num (op_refreshTtlSeconds (eo_server eopts))
     \<and> so_getByRefreshToken (op_sessionStore (eo_server eopts)) \<noteq> None
     \<and> so_rotateRefreshToken (op_sessionStore (eo_server eopts)) \<noteq> None
     \<and> \<not> discardsTokens (eo_writeSuccess eopts)"

definition clientIpOf :: "http_request \<Rightarrow> ('cs, 'ss, 'as, 'rl) express_options \<Rightarrow> string option" where
  "clientIpOf req eopts =
     (case eo_getClientIp eopts of Some get \<Rightarrow> get req | None \<Rightarrow> hr_ip req)"

definition routeGuardOptions ::
  "('cs, 'ss, 'as, 'rl) express_options \<Rightarrow> ('ss, 'as) guard_options" where
  "routeGuardOptions eopts =
     \<lparr>go_sessionStore = op_sessionStore (eo_server eopts), go_cookieName = eo_cookieName eopts,
      go_aclResolver = None, go_registry = None,
      go_log = \<lparr>lc_auditLogger = None, lc_metrics = None\<rparr>, go_clock = None\<rparr>"

definition SECURE_COOKIE_DEFAULTS :: cookie_attrs where
  "SECURE_COOKIE_DEFAULTS =
     [(''httpOnly'', JBool True), (''secure'', JBool True), (''sameSite'', JStr ''lax''),
      (''path'', JStr ''/'')]"

text \<open>\<open>{ ...defaults, ...cookieOptions }\<close>.\<close>

definition spread :: "cookie_attrs \<Rightarrow> cookie_attrs \<Rightarrow> cookie_attrs" where
  "spread defaults options = fold (\<lambda>(k, v) m. jm_set k v m) options defaults"

definition writeNapCookieSuccess ::
  "string \<Rightarrow> cookie_attrs option \<Rightarrow> (AuthSuccessResponse \<Rightarrow> json) option \<Rightarrow> success_writer" where
  "writeNapCookieSuccess cookieName cookieOptions transformBody =
     (let attrs = spread SECURE_COOKIE_DEFAULTS (or_else cookieOptions []) in
      \<lparr>sw_write = (\<lambda>body.
         (reply_json 200 (case transformBody of
              Some f \<Rightarrow> Body_json (f body)
            | None \<Rightarrow> Body_json (JObj [(''status'', JStr ''ok'')])))
         \<lparr>hs_cookie := Some (cookieName, as_access_token body, attrs)\<rparr>),
       sw_discardsTokens = (transformBody = None),
       sw_cookieAttrs = Some attrs,
       sw_cookieName = Some cookieName\<rparr>)"

definition write_success :: "('cs, 'ss, 'as, 'rl) express_options \<Rightarrow> AuthSuccessResponse \<Rightarrow> http_response" where
  "write_success eopts body =
     (case eo_writeSuccess eopts of
        Some sw \<Rightarrow> sw_write sw body
      | None \<Rightarrow> reply_json 200 (Body_success body))"

definition createRequestDerivedBaseUrlResolver ::
  "string list \<Rightarrow> audience_error + (http_request \<Rightarrow> exn + string)" where
  "createRequestDerivedBaseUrlResolver allowedHosts =
     (case createAudienceHostAllowlist allowedHosts of
        Inl e \<Rightarrow> Inl e
      | Inr allow \<Rightarrow>
          Inr (\<lambda>req. case allow (header req ''host'') (hr_protocol req) of
                        Inl _ \<Rightarrow> Inl (Exn ''audience'') | Inr url \<Rightarrow> Inr url))"

section \<open>Registered permissions\<close>

text \<open>The module's two sets of names guards were built with.\<close>

record registered =
  rg_permissions :: "string list"
  rg_roles :: "string list"

definition register_permission :: "string \<Rightarrow> registered \<Rightarrow> registered" where
  "register_permission p g = g\<lparr>rg_permissions := List.insert p (rg_permissions g)\<rparr>"

definition register_roles :: "string list \<Rightarrow> registered \<Rightarrow> registered" where
  "register_roles rs g = g\<lparr>rg_roles := fold List.insert rs (rg_roles g)\<rparr>"

definition resetPermissionValidationState :: "registered \<Rightarrow> registered" where
  "resetPermissionValidationState g = \<lparr>rg_permissions = [], rg_roles = []\<rparr>"

datatype permissions_error =
    Registry_invalid registry_error
  | Unknown_permissions "string list"
  | Unknown_roles "string list"

definition validatePermissions :: "PermissionRegistry \<Rightarrow> registered \<Rightarrow> permissions_error + unit" where
  "validatePermissions reg g =
     (case validatePermissionRegistry reg of
        Inl e \<Rightarrow> Inl (Registry_invalid e)
      | Inr _ \<Rightarrow>
          let unknown = filter (\<lambda>p. p \<notin> pd_key ` set (pr_permissions reg)) (rg_permissions g);
              unknownRoles = filter (\<lambda>r. r \<notin> ro_key ` set (pr_roles reg)) (rg_roles g)
          in if unknown \<noteq> [] then Inl (Unknown_permissions unknown)
             else if unknownRoles \<noteq> [] then Inl (Unknown_roles unknownRoles)
             else Inr ())"

section \<open>Routes\<close>

definition lift :: "exn + 'a \<Rightarrow> ('w, 'a) io" where
  "lift r w = (r, w)"

definition init_request ::
  "('cs, 'ss, 'as, 'rl) express_options \<Rightarrow> http_request \<Rightarrow> ('cs, 'ss, 'as, 'rl, handled) act" where
  "init_request eopts req =
     (case as_string (hr_npub req) of
        None \<Rightarrow> io_ret (Reply malformed_response)
      | Some npub \<Rightarrow>
          io_bind (lift (authCompleteUrl req eopts)) (\<lambda>url.
          io_bind (issueChallenge
                     \<lparr>ii_npub = npub, ii_authUrl = url, ii_authMethod = Some ''POST'',
                      ii_clientIp = clientIpOf req eopts\<rparr> (eo_server eopts)) (\<lambda>result.
            case result of
              Inl f \<Rightarrow> io_ret (Reply (issueChallengeFailure f))
            | Inr value \<Rightarrow> io_ret (Reply (reply_json 200 (Body_init value))))))"

definition createNapExpressInitHandler ::
  "('cs, 'ss, 'as, 'rl) express_options \<Rightarrow> string + (http_request \<Rightarrow> ('cs, 'ss, 'as, 'rl, handled) act)" where
  "createNapExpressInitHandler eopts =
     (if \<not> assertOneAudienceSource eopts then Inl ''audience source''
      else Inr (\<lambda>req. guarded (init_request eopts req)))"

definition complete_response ::
  "('cs, 'ss, 'as, 'rl) express_options \<Rightarrow> VerifyCompletionOutcome \<Rightarrow> http_response" where
  "complete_response eopts result =
     (case result of
        Verify_malformed \<Rightarrow> malformed_response
      | Verify_failed f \<Rightarrow>
          if vf_code f = NAP_COMPLETE_RATE_LIMITED then rateLimited (vf_retryAfterSeconds f)
          else (case eo_writeFailure eopts of Some wr \<Rightarrow> wr f | None \<Rightarrow> defaultWriteFailure)
      | Verify_ok s \<Rightarrow> write_success eopts (toPublicAuthSuccess s))"

definition complete_request ::
  "('cs, 'ss, 'as, 'rl) express_options \<Rightarrow> http_request \<Rightarrow> ('cs, 'ss, 'as, 'rl, handled) act" where
  "complete_request eopts req =
     (case rawBodyOf req eopts of
        None \<Rightarrow> io_throw ''raw body''
      | Some rawBody \<Rightarrow>
          io_bind (lift (authCompleteUrl req eopts)) (\<lambda>url.
          io_bind (verifyCompletion
                     \<lparr>vn_authorization = header req ''authorization'', vn_method = hr_method req,
                      vn_url = url, vn_rawBody = rawBody, vn_clientIp = clientIpOf req eopts\<rparr>
                     (eo_server eopts)) (\<lambda>result.
            io_ret (Reply (complete_response eopts result)))))"

definition createNapExpressCompleteHandler ::
  "('cs, 'ss, 'as, 'rl) express_options \<Rightarrow> string + (http_request \<Rightarrow> ('cs, 'ss, 'as, 'rl, handled) act)" where
  "createNapExpressCompleteHandler eopts =
     (if \<not> assertOneAudienceSource eopts then Inl ''audience source''
      else if \<not> assertCookieNamesAgree eopts then Inl ''cookie name''
      else Inr (\<lambda>req. guarded (complete_request eopts req)))"

definition createNapExpressSessionHandler ::
  "('cs, 'ss, 'as, 'rl) express_options \<Rightarrow> http_request \<Rightarrow> ('cs, 'ss, 'as, 'rl, handled) act" where
  "createNapExpressSessionHandler eopts req =
     guarded (io_bind (loadSession req (routeGuardOptions eopts)) (\<lambda>session.
       case session of
         None \<Rightarrow> io_ret (Reply unauthorized)
       | Some s \<Rightarrow> io_ret (Reply (reply_json 200 (Body_session (toPublicSessionView s))))))"

definition logout_response :: "('cs, 'ss, 'as, 'rl) express_options \<Rightarrow> http_response" where
  "logout_response eopts =
     (reply_json 204 Body_none)
     \<lparr>hs_clear := Some (or_else (eo_cookieName eopts) ''session'',
        (case eo_clearCookieOptions eopts of
           Some attrs \<Rightarrow> attrs
         | None \<Rightarrow> or_else (setCookieAttrsOf (eo_writeSuccess eopts)) [(''path'', JStr ''/'')]))\<rparr>"

definition createNapExpressLogoutHandler ::
  "('cs, 'ss, 'as, 'rl) express_options \<Rightarrow> http_request \<Rightarrow> ('cs, 'ss, 'as, 'rl, handled) act" where
  "createNapExpressLogoutHandler eopts req =
     guarded (io_bind (loadSession req (routeGuardOptions eopts)) (\<lambda>session.
       io_bind (case session of
                  None \<Rightarrow> io_ret ()
                | Some s \<Rightarrow>
                    io_bind (io_get (guardNow (routeGuardOptions eopts))) (\<lambda>now.
                      on_sess (so_revokeBySessionId (op_sessionStore (eo_server eopts)) (s_session_id s) now)))
         (\<lambda>_. io_ret (Reply (logout_response eopts)))))"

definition refresh_response ::
  "('cs, 'ss, 'as, 'rl) express_options \<Rightarrow> RefreshSessionOutcome \<Rightarrow> http_response" where
  "refresh_response eopts result =
     (case result of
        Inl f \<Rightarrow>
          if vf_code f = NAP_REFRESH_RATE_LIMITED then rateLimited (vf_retryAfterSeconds f)
          else defaultWriteFailure
      | Inr s \<Rightarrow> write_success eopts (toPublicAuthSuccess s))"

definition refresh_request ::
  "('cs, 'ss, 'as, 'rl) express_options \<Rightarrow> http_request \<Rightarrow> ('cs, 'ss, 'as, 'rl, handled) act" where
  "refresh_request eopts req =
     io_bind (refreshSession
                \<lparr>rf_refreshToken = bearerTokenOf req, rf_clientIp = clientIpOf req eopts\<rparr>
                (eo_server eopts)) (\<lambda>result.
       io_ret (Reply (refresh_response eopts result)))"

definition createNapExpressRefreshHandler ::
  "('cs, 'ss, 'as, 'rl) express_options \<Rightarrow> string + (http_request \<Rightarrow> ('cs, 'ss, 'as, 'rl, handled) act)" where
  "createNapExpressRefreshHandler eopts =
     (if \<not> assertRefreshIsWirable eopts then Inl ''refresh''
      else Inr (\<lambda>req. guarded (refresh_request eopts req)))"

text \<open>The routes mounted, by method and path; \<open>Inl\<close>: the wiring is refused.\<close>

definition createNapExpressRouter ::
  "('cs, 'ss, 'as, 'rl) express_options
     \<Rightarrow> string + ((string \<times> string) \<times> (http_request \<Rightarrow> ('cs, 'ss, 'as, 'rl, handled) act)) list" where
  "createNapExpressRouter eopts =
     (case createNapExpressInitHandler eopts of
        Inl e \<Rightarrow> Inl e
      | Inr init \<Rightarrow>
     (case createNapExpressCompleteHandler eopts of
        Inl e \<Rightarrow> Inl e
      | Inr completion \<Rightarrow>
          let routes = [((''post'', ''/init''), init), ((''post'', ''/complete''), completion),
                        ((''get'', ''/session''), createNapExpressSessionHandler eopts),
                        ((''post'', ''/logout''), createNapExpressLogoutHandler eopts)]
          in if truthy_num (op_refreshTtlSeconds (eo_server eopts))
             then (case createNapExpressRefreshHandler eopts of
                     Inl e \<Rightarrow> Inl e
                   | Inr refresh \<Rightarrow> Inr (routes @ [((''post'', ''/refresh''), refresh)]))
             else Inr routes))"

end
