(* ===== verification/ExpressFacts.thy ===== *)
theory ExpressFacts
  imports Express
begin

text \<open>
  What the Express adapter guarantees over any session store that keeps its contract: a
  guard lets a request through only for a live session with the permission (and the step-up
  token) in force now, a refusal is audited once, and a session that was ended never passes
  a guard again.
\<close>

section \<open>Guards\<close>

lemma guarded_Inr: "guarded m w = (Inr r, w') \<Longrightarrow> r = Pass \<or> (\<exists>a. r = Reply a) \<Longrightarrow> m w = (Inr r, w')"
  by (auto simp: guarded_def split: prod.splits sum.splits)

lemma denyGuard_reply:
  assumes "denyGuard gopts code s resp d w = (Inr r, w')"
  shows "r = Reply resp" and "w_log w' = snd (logGuardDenial (go_log gopts) code s d (w_log w))"
    and "w_sessions w' = w_sessions w" and "w_acl w' = w_acl w"
  using assms by (auto simp: denyGuard_def io_bind_Inr on_log_eq)

lemma denyGuard_not_Pass [simp]: "denyGuard gopts code s resp d w \<noteq> (Inr Pass, w')"
  using denyGuard_reply(1) by blast

lemma denyGuard_total: "\<exists>w'. denyGuard gopts code s resp d w = (Inr (Reply resp), w')"
proof -
  obtain l where "logGuardDenial (go_log gopts) code s d (w_log w) = (Inr (), l)"
    using logGuardDenial_never_throws by blast
  then have "on_log (logGuardDenial (go_log gopts) code s d) w = (Inr (), w\<lparr>w_log := l\<rparr>)"
    by (simp add: on_log_eq)
  then show ?thesis by (simp add: denyGuard_def)
qed

lemma guardNow_keeps: "w_now w' = w_now w \<Longrightarrow> guardNow gopts w' = guardNow gopts w"
  by (simp add: guardNow_def clock_now_def split: option.split)

lemma guardNow_upd [simp]:
  "guardNow gopts (w\<lparr>w_sessions := s\<rparr>) = guardNow gopts w" "guardNow gopts (w\<lparr>w_acl := a\<rparr>) = guardNow gopts w"
  by (rule guardNow_keeps, simp)+

lemma route_clock [simp]: "guardNow (routeGuardOptions eopts) w = w_now w"
  by (simp add: guardNow_def clock_now_def routeGuardOptions_def)

lemma resolver_clock: "clock_now (go_clock gopts) = guardNow gopts"
  by (rule ext) (simp add: guardNow_def)

text \<open>The session of the request is live at \<open>w\<close>.\<close>

definition live_session :: "http_request \<Rightarrow> string option \<Rightarrow> int \<Rightarrow> SessionRecord \<Rightarrow> bool" where
  "live_session req cookieName now s \<longleftrightarrow>
     s_access_token s \<noteq> [] \<and> session_token req cookieName = Some (s_access_token s)
     \<and> s_revoked_at s = None \<and> now < s_expires_at s"

text \<open>The permissions and roles the request is judged against.\<close>

definition effective_acl ::
  "('ss, 'as) guard_options \<Rightarrow> ('cs, 'ss, 'as, 'rl) world \<Rightarrow> SessionRecord \<Rightarrow> string list \<times> string list \<Rightarrow> bool" where
  "effective_acl gopts w s acl \<longleftrightarrow>
     (case go_aclResolver gopts of
        None \<Rightarrow> acl = (s_roles s, s_permissions s)
      | Some resolve \<Rightarrow>
          (\<exists>d as'. resolve (s_principal_npub s) (s_principal_pubkey s)
             \<lparr>cx_voucher = None, cx_now = guardNow gopts w, cx_session = Some (s_roles s, s_permissions s)\<rparr> (w_acl w)
               = (Inr d, as') \<and> d_allowed d \<and> acl = (d_roles d, d_permissions d)))"

context session_store
begin

lemma load_ok:
  assumes o: "go_sessionStore gopts = ops" and i: "inv (w_sessions w)"
    and r: "loadSession req gopts w = (Inr (Some s), w')"
  shows "live_session req (go_cookieName gopts) (guardNow gopts w) s \<and> s \<in> sess (w_sessions w)
    \<and> s \<in> sess (w_sessions w') \<and> inv (w_sessions w') \<and> sess (w_sessions w') \<subseteq> sess (w_sessions w)
    \<and> w_now w' = w_now w \<and> w_acl w' = w_acl w \<and> w_log w' = w_log w \<and> guardNow gopts w' = guardNow gopts w"
proof -
  obtain t where t: "session_token req (go_cookieName gopts) = Some t" "t \<noteq> []"
    using r by (auto simp: loadSession_def Let_def split: if_splits elim!: truthy_strE)
  obtain z w1 where z: "on_sess (so_getByAccessToken ops t) w = (Inr z, w1)"
    and k: "(case z of None \<Rightarrow> io_ret None
          | Some s \<Rightarrow> io_bind (io_get (guardNow gopts)) (\<lambda>now.
                io_ret (if truthy_num (s_revoked_at s) \<or> s_expires_at s \<le> now then None else Some s))) w1
        = (Inr (Some s), w')"
    using r t by (auto simp: loadSession_def Let_def o elim!: io_bindE)
  have s: "z = Some s" "w' = w1" "\<not> truthy_num (s_revoked_at s)" "\<not> s_expires_at s \<le> guardNow gopts w1"
    using k by (auto split: option.splits if_splits)
  obtain s1 where s1: "so_getByAccessToken ops t (w_sessions w) = (Inr (Some s), s1)"
    "w1 = w\<lparr>w_sessions := s1\<rparr>"
    using z s(1) by (auto simp: on_sess_eq)
  have f: "inv s1" "sess s1 \<subseteq> sess (w_sessions w)" "s \<in> sess s1" "s_access_token s = t"
    using token_frame [OF i s1(1)] token_value [OF i s1(1)] by blast+
  have "s_revoked_at s = None"
    using s(3) revoked_nonzero [OF f(1,3)] by (cases "s_revoked_at s") auto
  then show ?thesis using s s1(2) f t by (auto simp: live_session_def)
qed

lemma context_ok:
  assumes o: "go_sessionStore gopts = ops" and i: "inv (w_sessions w)"
    and r: "loadGuardContext req gopts w = (Inr (Context_ok s acl), w')"
  shows "live_session req (go_cookieName gopts) (guardNow gopts w) s \<and> s \<in> sess (w_sessions w)
    \<and> effective_acl gopts w s acl \<and> guardNow gopts w' = guardNow gopts w"
proof -
  obtain w1 where l: "loadSession req gopts w = (Inr (Some s), w1)"
    and a: "resolveEffectiveAcl (go_aclResolver gopts) (Some (go_sessionStore gopts)) (go_clock gopts) s w1 = (Inr (Some acl), w')"
    using r by (auto simp: loadGuardContext_def io_bind_Inr split: option.splits)
  note L = load_ok [OF o i l]
  have "effective_acl gopts w s acl \<and> guardNow gopts w' = guardNow gopts w1"
  proof (cases "go_aclResolver gopts")
    case None
    then show ?thesis using a by (simp add: resolveEffectiveAcl_def resolver_clock effective_acl_def)
  next
    case (Some resolve)
    then show ?thesis
      using a L
      by (auto simp: resolveEffectiveAcl_def resolver_clock effective_acl_def io_bind_Inr on_resolver_eq split: if_splits)
  qed
  then show ?thesis using L by simp
qed

text \<open>A guard's continuation after its context.\<close>

lemma permission_ok:
  assumes o: "go_sessionStore gopts = ops" and i: "inv (w_sessions w)"
    and r: "requirePermission p gopts req w = (Inr Pass, w')"
  shows "\<exists>s\<in>sess (w_sessions w). \<exists>acl. live_session req (go_cookieName gopts) (guardNow gopts w) s
    \<and> effective_acl gopts w s acl \<and> p \<in> set (snd acl)
    \<and> (requiresStepUp p (go_registry gopts) \<longrightarrow> hasValidStepUpToken req s (guardNow gopts w))"
proof -
  obtain c w1 where c: "loadGuardContext req gopts w = (Inr c, w1)"
    and k: "(case c of
         Context_denied code session \<Rightarrow>
           denyGuard gopts code session unauthorized (permission_details p)
       | Context_ok s acl \<Rightarrow>
           if p \<notin> set (snd acl)
           then denyGuard gopts PERMISSION_DENIED (Some s) (forbidden ''forbidden'') (permission_details p)
           else io_bind (io_get (guardNow gopts)) (\<lambda>now.
                  if requiresStepUp p (go_registry gopts) \<and> \<not> hasValidStepUpToken req s now
                  then denyGuard gopts STEP_UP_REQUIRED (Some s) (forbidden ''step-up required'')
                         (permission_details p)
                  else io_ret Pass)) w1 = (Inr Pass, w')"
    using guarded_Inr [OF r [unfolded requirePermission_def]] by (rule io_bindE) simp
  then obtain s acl where sa: "c = Context_ok s acl" by (cases c) auto
  have "p \<in> set (snd acl)" "requiresStepUp p (go_registry gopts) \<longrightarrow> hasValidStepUpToken req s (guardNow gopts w1)"
    using k sa by (auto split: if_splits)
  moreover note context_ok [OF o i c [unfolded sa]]
  ultimately show ?thesis by metis
qed

lemma role_ok:
  assumes o: "go_sessionStore gopts = ops" and i: "inv (w_sessions w)"
    and r: "requireRole accepted gopts req w = (Inr Pass, w')"
  shows "\<exists>s\<in>sess (w_sessions w). \<exists>acl. live_session req (go_cookieName gopts) (guardNow gopts w) s
    \<and> effective_acl gopts w s acl \<and> set accepted \<inter> set (fst acl) \<noteq> {}"
proof -
  obtain c w1 where c: "loadGuardContext req gopts w = (Inr c, w1)"
    and k: "(case c of
         Context_denied code session \<Rightarrow> denyGuard gopts code session unauthorized (roles_details accepted)
       | Context_ok s acl \<Rightarrow>
           if \<not> list_ex (\<lambda>r. r \<in> set (fst acl)) accepted
           then denyGuard gopts ROLE_DENIED (Some s) (forbidden ''forbidden'') (roles_details accepted)
           else io_ret Pass) w1 = (Inr Pass, w')"
    using guarded_Inr [OF r [unfolded requireRole_def]] by (rule io_bindE) simp
  then obtain s acl where sa: "c = Context_ok s acl" by (cases c) auto
  have "list_ex (\<lambda>r. r \<in> set (fst acl)) accepted"
    using k sa by (simp split: if_splits)
  then have "set accepted \<inter> set (fst acl) \<noteq> {}" by (auto simp: list_ex_iff)
  moreover note context_ok [OF o i c [unfolded sa]]
  ultimately show ?thesis by metis
qed

lemma session_ok:
  assumes o: "go_sessionStore gopts = ops" and i: "inv (w_sessions w)"
    and r: "requireSession gopts req w = (Inr Pass, w')"
  shows "\<exists>s\<in>sess (w_sessions w). \<exists>acl. live_session req (go_cookieName gopts) (guardNow gopts w) s
    \<and> effective_acl gopts w s acl"
proof -
  obtain c w1 where c: "loadGuardContext req gopts w = (Inr c, w1)"
    and k: "(case c of
         Context_denied code session \<Rightarrow> denyGuard gopts code session unauthorized None
       | Context_ok s acl \<Rightarrow> io_ret Pass) w1 = (Inr Pass, w')"
    using guarded_Inr [OF r [unfolded requireSession_def]] by (rule io_bindE) simp
  then obtain s acl where sa: "c = Context_ok s acl" by (cases c) auto
  show ?thesis using context_ok [OF o i c [unfolded sa]] by metis
qed

lemma stepup_ok:
  assumes o: "go_sessionStore gopts = ops" and i: "inv (w_sessions w)"
    and r: "requireStepUp gopts req w = (Inr Pass, w')"
  shows "\<exists>s\<in>sess (w_sessions w). live_session req (go_cookieName gopts) (guardNow gopts w) s
    \<and> hasValidStepUpToken req s (guardNow gopts w)"
proof -
  obtain c w1 where c: "loadSession req gopts w = (Inr c, w1)"
    and k: "(case c of
         None \<Rightarrow> denyGuard gopts NO_SESSION None unauthorized None
       | Some s \<Rightarrow> io_bind (io_get (guardNow gopts)) (\<lambda>now.
             if \<not> hasValidStepUpToken req s now
             then denyGuard gopts STEP_UP_REQUIRED (Some s) (forbidden ''step-up required'') None
             else io_ret Pass)) w1 = (Inr Pass, w')"
    using guarded_Inr [OF r [unfolded requireStepUp_def]] by (rule io_bindE) simp
  then obtain s where sa: "c = Some s" by (cases c) auto
  have "hasValidStepUpToken req s (guardNow gopts w1)" using k sa by (simp split: if_splits)
  moreover note load_ok [OF o i c [unfolded sa]]
  ultimately show ?thesis by metis
qed

section \<open>A session that has ended\<close>

text \<open>
  The session \<open>k\<close> is revoked. Later versions of the store, whatever sessions with other
  ids they gained, keep it revoked.
\<close>

definition ended :: "string \<Rightarrow> 'ss \<Rightarrow> bool" where
  "ended k s \<longleftrightarrow> (\<forall>y\<in>sess s. s_session_id y = k \<longrightarrow> s_revoked_at y \<noteq> None)"

definition later_for :: "string \<Rightarrow> 'ss \<Rightarrow> 'ss \<Rightarrow> bool" where
  "later_for k s s' \<longleftrightarrow> (\<forall>y\<in>sess s'. (\<exists>x\<in>sess s. succeeds x y) \<or> s_session_id y \<noteq> k)"

lemma ended_later: "ended k s \<Longrightarrow> later_for k s s' \<Longrightarrow> ended k s'"
  unfolding ended_def later_for_def succeeds_def by metis

lemma ended_not_live: "ended k s \<Longrightarrow> y \<in> sess s \<Longrightarrow> live_session req cn now y \<Longrightarrow> s_session_id y \<noteq> k"
  unfolding ended_def live_session_def by metis

lemma logout_ends:
  assumes o: "op_sessionStore (eo_server eopts) = ops" and i: "inv (w_sessions w)" and now: "w_now w \<noteq> 0"
    and l: "loadSession req (routeGuardOptions eopts) w = (Inr (Some s), w0)"
    and r: "createNapExpressLogoutHandler eopts req w = (Inr (Reply a), w1)"
  shows "ended (s_session_id s) (w_sessions w1) \<and> inv (w_sessions w1) \<and> a = logout_response eopts"
proof -
  have o': "go_sessionStore (routeGuardOptions eopts) = ops" using o by (simp add: routeGuardOptions_def)
  note L = load_ok [OF o' i l]
  obtain t where t: "so_revokeBySessionId ops (s_session_id s) (w_now w) (w_sessions w0) = (Inr (), t)"
    "w_sessions w1 = t" "a = logout_response eopts"
    using guarded_Inr [OF r [unfolded createNapExpressLogoutHandler_def]] l L o
    by (auto simp: io_bind_Inr on_sess_eq)
  have "inv (w_sessions w0)" using L by blast
  then show ?thesis
    unfolding ended_def using revoke_done [OF _ now t(1)] revoke_frame [OF _ now t(1)] t(2,3) by blast
qed

text \<open>A denied principal's sessions end when the resolver says so.\<close>

lemma denied_ends:
  assumes o: "go_sessionStore gopts = ops" and i: "inv (w_sessions w)" and now: "guardNow gopts w \<noteq> 0"
    and l: "loadSession req gopts w = (Inr (Some s), w0)"
    and res: "go_aclResolver gopts = Some resolve"
    and d: "resolve (s_principal_npub s) (s_principal_pubkey s)
             \<lparr>cx_voucher = None, cx_now = guardNow gopts w, cx_session = Some (s_roles s, s_permissions s)\<rparr> (w_acl w)
               = (Inr d, as')" "\<not> d_allowed d" "d_revoke_sessions d = Some True"
    and r: "loadGuardContext req gopts w = (Inr c, w1)"
  shows "c = Context_denied ACL_DENIED (Some s)
    \<and> (\<forall>y\<in>sess (w_sessions w1). s_principal_pubkey y = s_principal_pubkey s \<longrightarrow> s_revoked_at y \<noteq> None)"
proof -
  note L = load_ok [OF o i l]
  have "io_bind (resolveEffectiveAcl (Some resolve) (Some ops) (go_clock gopts) s) (\<lambda>acl.
             case acl of
               Some a \<Rightarrow> io_ret (Context_ok s a)
             | None \<Rightarrow> io_ret (Context_denied ACL_DENIED (Some s))) w0 = (Inr c, w1)"
    using r l by (simp add: loadGuardContext_def o res)
  moreover have "on_resolver (resolve (s_principal_npub s) (s_principal_pubkey s)
             \<lparr>cx_voucher = None, cx_now = guardNow gopts w0, cx_session = Some (s_roles s, s_permissions s)\<rparr>) w0
      = (Inr d, w0\<lparr>w_acl := as'\<rparr>)"
    using d(1) L by (simp add: on_resolver_eq)
  ultimately obtain n t where t: "so_revokeByPrincipal ops (s_principal_pubkey s) (guardNow gopts w) (w_sessions w0) = (Inr n, t)"
    "w_sessions w1 = t" "c = Context_denied ACL_DENIED (Some s)"
    using d(2,3) L by (auto simp: resolveEffectiveAcl_def resolver_clock io_bind_Inr on_sess_eq)
  have "inv (w_sessions w0)" using L by blast
  then show ?thesis using principal_done [OF _ now t(1)] t(2,3) by blast
qed

end

section \<open>Refusals are audited\<close>

text \<open>
  With an audit logger, a refused request adds exactly one event to the log, whether or not
  the logger accepts it; the 401 answers of a missing session and of a denied principal are
  the same.
\<close>

lemma log_sess: "keeps (\<lambda>w. w_log w = l) (on_sess m)"
  by (auto simp: trip_def on_sess_def io_on_def split: prod.splits sum.splits)

lemma log_resolver: "keeps (\<lambda>w. w_log w = l) (on_resolver m)"
  by (auto simp: trip_def on_resolver_def io_on_def split: prod.splits sum.splits)

lemma log_load: "keeps (\<lambda>w. w_log w = l) (loadSession req gopts)"
  unfolding loadSession_def Let_def
  by (intro trip_if trip_ret trip_bind [OF log_sess] trip_option trip_bind [OF trip_get]; assumption)

lemma log_effective: "keeps (\<lambda>w. w_log w = l) (resolveEffectiveAcl rs st cl s)"
  unfolding resolveEffectiveAcl_def
  by (intro trip_option trip_ret trip_bind [where R = "\<lambda>_ w. w_log w = l"] trip_get trip_if
      log_resolver log_sess)

lemma guard_context_log:
  assumes r: "loadGuardContext req gopts w = (Inr c, w1)"
  shows "w_log w1 = w_log w"
proof -
  have "keeps (\<lambda>v. w_log v = w_log w) (loadGuardContext req gopts)"
    unfolding loadGuardContext_def
    by (intro trip_bind [OF log_load] trip_option trip_ret trip_bind [OF log_effective])
  then show ?thesis using r by (auto simp: trip_def)
qed

lemma denied_event:
  assumes "lc_auditLogger (go_log gopts) = Some th" and "denyGuard gopts code s resp d w = (Inr r, w')"
  shows "r = Reply resp \<and> al_events (w_log w') = al_events (w_log w) @ [guard_event code s d]"
  using denyGuard_reply [OF assms(2)] logGuardDenial_records [OF assms(1)] by simp

lemma permission_refused:
  assumes lg: "lc_auditLogger (go_log gopts) = Some th"
    and r: "requirePermission p gopts req w = (Inr (Reply a), w')"
  shows "\<exists>code s. al_events (w_log w') = al_events (w_log w) @ [guard_event code s (permission_details p)]
    \<and> (code \<in> {NO_SESSION, ACL_DENIED} \<and> a = unauthorized
       \<or> code = PERMISSION_DENIED \<and> a = forbidden ''forbidden''
       \<or> code = STEP_UP_REQUIRED \<and> a = forbidden ''step-up required'')"
proof -
  obtain c w1 where c: "loadGuardContext req gopts w = (Inr c, w1)"
    and k: "(case c of
         Context_denied code session \<Rightarrow>
           denyGuard gopts code session unauthorized (permission_details p)
       | Context_ok s acl \<Rightarrow>
           if p \<notin> set (snd acl)
           then denyGuard gopts PERMISSION_DENIED (Some s) (forbidden ''forbidden'') (permission_details p)
           else io_bind (io_get (guardNow gopts)) (\<lambda>now.
                  if requiresStepUp p (go_registry gopts) \<and> \<not> hasValidStepUpToken req s now
                  then denyGuard gopts STEP_UP_REQUIRED (Some s) (forbidden ''step-up required'')
                         (permission_details p)
                  else io_ret Pass)) w1 = (Inr (Reply a), w')"
    using guarded_Inr [OF r [unfolded requirePermission_def]] by (rule io_bindE) simp
  have code: "code \<in> {NO_SESSION, ACL_DENIED}" if "c = Context_denied code s" for code s
    using c that by (auto simp: loadGuardContext_def io_bind_Inr split: option.splits)
  show ?thesis
  proof (cases c)
    case (Context_denied code s)
    then have d: "denyGuard gopts code s unauthorized (permission_details p) w1 = (Inr (Reply a), w')"
      using k by simp
    have "a = unauthorized"
      "al_events (w_log w') = al_events (w_log w) @ [guard_event code s (permission_details p)]"
      using denied_event [OF lg d] guard_context_log [OF c] by simp_all
    then show ?thesis using code [OF Context_denied] by blast
  next
    case (Context_ok s acl)
    show ?thesis
    proof (cases "p \<in> set (snd acl)")
      case False
      then have d: "denyGuard gopts PERMISSION_DENIED (Some s) (forbidden ''forbidden'')
          (permission_details p) w1 = (Inr (Reply a), w')" using k Context_ok by simp
      have "a = forbidden ''forbidden''" "al_events (w_log w')
          = al_events (w_log w) @ [guard_event PERMISSION_DENIED (Some s) (permission_details p)]"
        using denied_event [OF lg d] guard_context_log [OF c] by simp_all
      then show ?thesis by blast
    next
      case True
      then have d: "denyGuard gopts STEP_UP_REQUIRED (Some s) (forbidden ''step-up required'')
          (permission_details p) w1 = (Inr (Reply a), w')"
        using k Context_ok by (auto split: if_splits)
      have "a = forbidden ''step-up required''" "al_events (w_log w')
          = al_events (w_log w) @ [guard_event STEP_UP_REQUIRED (Some s) (permission_details p)]"
        using denied_event [OF lg d] guard_context_log [OF c] by simp_all
      then show ?thesis by blast
    qed
  qed
qed

section \<open>Answers of the authentication routes\<close>

text \<open>
  Every completion the server refuses, but for the rate limit, gets the same 401: the
  reason stays in the audit log.
\<close>

lemma complete_uniform:
  assumes "eo_writeFailure eopts = None"
    and "\<not> complete_rate_limited (Verify_failed f)"
  shows "complete_response eopts (Verify_failed f)
    = reply_json 401 (Body_message ''error'' ''authentication failed'')"
  using assms
  by (simp add: complete_response_def complete_rate_limited_def defaultWriteFailure_def toPublicAuthFailure_def)

lemma complete_request_run:
  assumes "complete_request eopts req w = (Inr r, w')"
  shows "\<exists>body url out. rawBodyOf req eopts = Some body \<and> authCompleteUrl req eopts = Inr url
    \<and> verifyCompletion \<lparr>vn_authorization = header req ''authorization'', vn_method = hr_method req,
         vn_url = url, vn_rawBody = body, vn_clientIp = clientIpOf req eopts\<rparr> (eo_server eopts) w
       = (Inr out, w') \<and> r = Reply (complete_response eopts out)"
  using assms by (auto simp: complete_request_def io_bind_Inr lift_def split: option.splits)

lemma complete_handler_run:
  assumes h: "createNapExpressCompleteHandler eopts = Inr h" and r: "h req w = (Inr (Reply a), w')"
  shows "complete_request eopts req w = (Inr (Reply a), w')"
proof -
  have "h = (\<lambda>req. guarded (complete_request eopts req))"
    using h by (simp add: createNapExpressCompleteHandler_def split: if_splits)
  then have "guarded (complete_request eopts req) w = (Inr (Reply a), w')" using r by simp
  then show ?thesis by (rule guarded_Inr) simp
qed

section \<open>Cookies\<close>

lemma js_split_join:
  "\<lbrakk>ws \<noteq> []; \<forall>x\<in>set ws. c \<notin> set x\<rbrakk> \<Longrightarrow> js_split c (js_join [c] ws) = ws"
proof (induction ws)
  case (Cons x ws)
  then show ?case by (cases ws) (simp_all add: js_split_plain js_split_append)
qed simp

text \<open>The cookie pair of a trimmed candidate whose name has no equals sign.\<close>

lemma cookie_pair_value:
  assumes "js_trim cand = n @ ''='' @ v" and "CHR ''='' \<notin> set n"
  shows "cookie_pair cand = (n, v)"
proof -
  have "js_split (CHR ''='') (n @ CHR ''='' # v) = n # js_split (CHR ''='') v"
    by (rule js_split_append [OF assms(2)])
  then show ?thesis using assms(1) by (simp add: cookie_pair_def js_join_split)
qed

lemma parseCookieValue_header:
  assumes ne: "cands \<noteq> []" and nz: "js_join '';'' cands \<noteq> []"
    and sc: "\<forall>x\<in>set cands. CHR '';'' \<notin> set x"
  shows "parseCookieValue (Some (js_join '';'' cands)) name = map_of (map cookie_pair cands) name"
  using nz by (simp add: parseCookieValue_def js_split_join [OF ne sc])

text \<open>What \<open>writeNapCookieSuccess\<close> sends: the token only in the cookie.\<close>

lemma spread_get:
  "jm_ok b \<Longrightarrow> jm_get (spread a b) k = (case jm_get b k of Some v \<Rightarrow> Some v | None \<Rightarrow> jm_get a k)"
proof (induction b arbitrary: a)
  case (Cons e b)
  obtain j v where e: "e = (j, v)" by fastforce
  have "jm_get b k = None" if "k = j"
    using Cons.prems that by (simp add: e jm_ok_def jm_get_def map_of_eq_None_iff)
  then show ?case
    using Cons.IH [of "jm_set j v a"] Cons.prems
    by (auto simp: spread_def e jm_ok_def jm_get_set split: option.splits) (auto simp: jm_get_def)
qed (simp add: spread_def)

end
