(* ===== verification/CompleteFacts.thy ===== *)
theory CompleteFacts
  imports ServerComplete
begin

text \<open>
  What \<open>verifyCompletion\<close> guarantees over any pair of stores that keep their contracts:
  the locale \<open>nap_stores\<close>. \<open>complete_sound\<close> says what a success means,
  \<open>complete_effects\<close> what any outcome may do to the stores, \<open>early_frame\<close> that
  nothing is written before the challenge is loaded and matched, and \<open>redeemed_once\<close>
  that a challenge gives one session.
\<close>

section \<open>The two stores together\<close>

locale nap_stores =
  cs: challenge_store cops look cinv + ss: session_store sops sess sinv
  for cops :: "'cs challenge_ops" and look and cinv
    and sops :: "'ss session_ops" and sess and sinv

text \<open>
  What a new session says of the completion that made it: a NIP-98 event that verifies, of
  the kind NIP-98 prescribes, by the session's principal, naming the session's challenge.
\<close>

definition proved :: "platform \<Rightarrow> Nip98Event \<Rightarrow> SessionRecord \<Rightarrow> bool" where
  "proved pf ev s \<longleftrightarrow>
     pf_verifyEvent pf ev \<and> ev_kind ev = 27235 \<and> ev_pubkey ev = s_principal_pubkey s
     \<and> single_tag ev ''challenge_id'' (s_challenge_id s)"

text \<open>
  Randomness: the session ids still to be drawn are not the ids of stored sessions.
\<close>

definition token_at :: "('cs, 'ss, 'as, 'rl) world \<Rightarrow> nat \<Rightarrow> nat \<Rightarrow> string" where
  "token_at w i n = encodeBase64UrlBytes (map (w_random w) [i..<i + n])"

lemma randomToken_eq: "randomToken n w = (Inr (token_at w (w_drawn w) n), w\<lparr>w_drawn := w_drawn w + n\<rparr>)"
  by (simp add: randomToken_def randomBytes_def io_bind_def token_at_def)

context nap_stores
begin

definition fresh_ids :: "('cs, 'ss, 'as, 'rl) world \<Rightarrow> bool" where
  "fresh_ids w \<longleftrightarrow>
     (\<forall>i \<ge> w_drawn w. token_at w i 24 \<notin> s_session_id ` sess (w_sessions w)
        \<and> (\<forall>k c. look (w_challenges w) k = Some c \<longrightarrow> ch_redeemed_session_id c \<noteq> Some (token_at w i 24)))"

text \<open>
  The two stores tell the same story: a session belongs to the principal its challenge was
  issued to, and the session a challenge was redeemed for is a session of that challenge.
\<close>

definition coherent :: "'cs \<Rightarrow> 'ss \<Rightarrow> bool" where
  "coherent c s \<longleftrightarrow>
     (\<forall>y\<in>sess s. \<forall>r. look c (s_challenge_id y) = Some r \<longrightarrow>
        s_principal_pubkey y = ch_pubkey r \<and> s_principal_npub y = ch_npub r)
     \<and> (\<forall>k r. \<forall>y\<in>sess s. look c k = Some r \<longrightarrow> ch_redeemed_session_id r = Some (s_session_id y)
          \<longrightarrow> s_challenge_id y = k)"

text \<open>Records move, and none is redeemed.\<close>

definition idles :: "'cs \<Rightarrow> 'cs \<Rightarrow> bool" where
  "idles s s' \<longleftrightarrow>
     (\<forall>k d. look s' k = Some d \<longrightarrow>
        (\<exists>c. look s k = Some c \<and> evolves c d \<and> ch_redeemed_session_id d = ch_redeemed_session_id c))"

lemma idles_moves: "idles s s' \<Longrightarrow> cs.moves s s'"
  unfolding idles_def cs.moves_def by blast

lemma idles_frame: "look s' = look s \<Longrightarrow> idles s s'"
  by (simp add: idles_def)

lemma coherent_idles:
  assumes c: "coherent s t" and m: "idles s s'"
  shows "coherent s' t"
  unfolding coherent_def
proof (intro conjI ballI allI impI)
  fix y r assume y: "y \<in> sess t" and r: "look s' (s_challenge_id y) = Some r"
  then obtain r0 where "look s (s_challenge_id y) = Some r0" "evolves r0 r"
    using m by (auto simp: idles_def)
  then show "s_principal_pubkey y = ch_pubkey r" "s_principal_npub y = ch_npub r"
    using c y evolves_same by (auto simp: coherent_def same_challenge_def)
next
  fix k r y assume y: "y \<in> sess t" and r: "look s' k = Some r"
    "ch_redeemed_session_id r = Some (s_session_id y)"
  then obtain r0 where "look s k = Some r0" "ch_redeemed_session_id r0 = Some (s_session_id y)"
    using m unfolding idles_def by metis
  then show "s_challenge_id y = k" using c y by (auto simp: coherent_def)
qed

lemma coherent_succeeds:
  assumes c: "coherent s t" and m: "\<forall>y\<in>sess t'. \<exists>x\<in>sess t. succeeds x y"
  shows "coherent s t'"
  unfolding coherent_def
proof (intro conjI ballI allI impI)
  fix y r assume y: "y \<in> sess t'" and r: "look s (s_challenge_id y) = Some r"
  obtain x where x: "x \<in> sess t" "succeeds x y" using m y by blast
  then show "s_principal_pubkey y = ch_pubkey r" "s_principal_npub y = ch_npub r"
    using c r unfolding coherent_def succeeds_def by metis+
next
  fix k r y assume y: "y \<in> sess t'" and r: "look s k = Some r"
    "ch_redeemed_session_id r = Some (s_session_id y)"
  obtain x where x: "x \<in> sess t" "succeeds x y" using m y by blast
  then show "s_challenge_id y = k" using c r unfolding coherent_def succeeds_def by metis
qed

text \<open>Every redeemed challenge was redeemed before, or for a stored session or one of \<open>A\<close>.\<close>

definition redeemed_for :: "SessionRecord set \<Rightarrow> ('cs, 'ss, 'as, 'rl) world \<Rightarrow> 'cs \<Rightarrow> bool" where
  "redeemed_for A w0 c \<longleftrightarrow>
     (\<forall>k d i. look c k = Some d \<longrightarrow> ch_redeemed_session_id d = Some i \<longrightarrow>
        (\<exists>j e. look (w_challenges w0) j = Some e \<and> ch_redeemed_session_id e = Some i)
        \<or> i \<in> s_session_id ` (sess (w_sessions w0) \<union> A))"

lemma redeemed_for_refl: "redeemed_for A w (w_challenges w)"
  unfolding redeemed_for_def by blast

lemma redeemed_for_mono: "redeemed_for A w0 c \<Longrightarrow> A \<subseteq> B \<Longrightarrow> redeemed_for B w0 c"
  unfolding redeemed_for_def by blast

lemma redeemed_for_idles: "redeemed_for A w0 c \<Longrightarrow> idles c c' \<Longrightarrow> redeemed_for A w0 c'"
  unfolding redeemed_for_def idles_def by metis

text \<open>
  \<open>w0\<close> leads to \<open>w\<close>: the records moved along the lifecycle, every session is a later
  version of an old one or one of \<open>A\<close>, and the stores are still coherent.
\<close>

definition leads :: "SessionRecord set \<Rightarrow> ('cs, 'ss, 'as, 'rl) world \<Rightarrow> ('cs, 'ss, 'as, 'rl) world \<Rightarrow> bool" where
  "leads A w0 w \<longleftrightarrow>
     cinv (w_challenges w) \<and> sinv (w_sessions w) \<and> coherent (w_challenges w) (w_sessions w)
     \<and> cs.moves (w_challenges w0) (w_challenges w) \<and> redeemed_for A w0 (w_challenges w)
     \<and> (\<forall>y\<in>sess (w_sessions w). (\<exists>x\<in>sess (w_sessions w0). succeeds x y) \<or> y \<in> A)
     \<and> w_now w = w_now w0 \<and> w_random w = w_random w0 \<and> w_drawn w0 \<le> w_drawn w"

lemma leads_refl:
  "\<lbrakk>cinv (w_challenges w); sinv (w_sessions w); coherent (w_challenges w) (w_sessions w)\<rbrakk>
   \<Longrightarrow> leads A w w"
  using redeemed_for_refl by (simp add: leads_def) blast

lemma leads_mono: "leads A w0 w \<Longrightarrow> A \<subseteq> B \<Longrightarrow> leads B w0 w"
  unfolding leads_def using redeemed_for_mono by blast

text \<open>Actions that keep it.\<close>

lemma keeps_random: "keeps (leads A w0) (randomBytes n)"
  by (auto simp: trip_def randomBytes_def leads_def)

lemma keeps_log: "keeps (leads A w0) (on_log m)"
  by (auto simp: trip_def on_log_def io_on_def leads_def split: prod.splits sum.splits)

lemma keeps_audit: "keeps (leads A w0) (audit opts ev)"
  unfolding audit_def by (rule keeps_log)

lemma keeps_logFailure: "keeps (leads A w0) (logFailure opts c d)"
  unfolding logFailure_def by (rule keeps_audit)

lemma keeps_logSuccess: "keeps (leads A w0) (logSuccess opts d)"
  unfolding logSuccess_def by (rule keeps_audit)

lemma keeps_count: "keeps (leads A w0) (count_total opts c)"
  unfolding count_total_def by (rule keeps_log)

lemma keeps_resolver: "keeps (leads A w0) (on_resolver m)"
  by (auto simp: trip_def on_resolver_def io_on_def leads_def split: prod.splits sum.splits)

lemma keeps_limit: "keeps (leads A w0) (checkRateLimit opts key)"
proof -
  have l: "keeps (leads A w0) (io_on w_limiter w_limiter_update m)"
    "keeps (leads A w0) (io_on w_default_limiter w_default_limiter_update m')" for m m'
    by (auto simp: trip_def io_on_def leads_def split: prod.splits sum.splits)
  show ?thesis
    by (auto simp: checkRateLimit_def resolveRateLimiter_def intro!: triple l
        split: rate_limiter_option.splits)
qed

lemma keeps_get: "keeps (leads A w0) (io_get f)"
  by (rule trip_get)

lemma keeps_ret: "keeps (leads A w0) (io_ret x)"
  by (rule trip_ret)

lemma keeps_bind: "keeps (leads A w0) m \<Longrightarrow> (\<And>x. keeps (leads A w0) (f x)) \<Longrightarrow> keeps (leads A w0) (io_bind m f)"
  by (rule trip_bind)

lemma keeps_refuse: "keeps (leads A w0) (refuse opts f d)"
  unfolding refuse_def by (intro keeps_bind keeps_logFailure keeps_ret)

lemma keeps_challenges:
  assumes "\<And>s x s'. cinv s \<Longrightarrow> m s = (x, s') \<Longrightarrow> cinv s' \<and> idles s s'"
  shows "keeps (leads A w0) (on_challenges m)"
  unfolding trip_def
proof (intro allI impI)
  fix w assume l: "leads A w0 w"
  obtain x s' where m: "m (w_challenges w) = (x, s')" by fastforce
  have i: "cinv s'" "idles (w_challenges w) s'"
    using assms [OF _ m] l by (simp_all add: leads_def)
  have "leads A w0 (w\<lparr>w_challenges := s'\<rparr>)"
    using l i coherent_idles [OF _ i(2)] cs.moves_trans [OF _ idles_moves [OF i(2)]]
      redeemed_for_idles [of A w0 "w_challenges w" s']
    by (simp add: leads_def)
  then show "case on_challenges m w of (Inl _, w') \<Rightarrow> leads A w0 w' | (Inr _, w') \<Rightarrow> leads A w0 w'"
    by (simp add: on_challenges_def io_on_def m split: sum.splits)
qed

lemma keeps_cget: "keeps (leads A w0) (on_challenges (co_get cops k))"
  by (intro keeps_challenges) (metis cs.get_frame idles_frame)

lemma fail_idles:
  assumes i: "cinv s" and rf: "co_recordFailure cops = Some rf" and r: "rf k t m s = (x, s')"
  shows "cinv s' \<and> idles s s'"
proof -
  have fr: "cinv s'" "\<And>j. j \<noteq> k \<Longrightarrow> look s' j = look s j" using cs.fail_frame [OF i rf r] by blast+
  have "look s' k = look s k \<or> (\<exists>c. look s k = Some c \<and> ch_state c = issued
      \<and> look s' k = Some (failed_record c m))"
  proof (cases "\<exists>fc st. x = Inr (Some (fc, st))")
    case True
    then show ?thesis using cs.fail_Some [OF i rf] r by blast
  next
    case False
    then show ?thesis using cs.fail_None [OF i rf r] by (metis surj_pair)
  qed
  moreover have "ch_redeemed_session_id (failed_record c m) = ch_redeemed_session_id c" for c
    by (simp add: failed_record_def Let_def)
  moreover have "evolves c (failed_record c m)" if "ch_state c = issued" for c
    using lifecycle.fail [OF that] by blast
  ultimately have "idles s s'"
    unfolding idles_def using fr(2) by (metis option.inject rtranclp.rtrancl_refl)
  then show ?thesis using fr(1) by blast
qed

lemma keeps_recordFailure:
  assumes "op_challengeStore opts = cops"
  shows "keeps (leads A w0) (recordChallengeFailure opts k now)"
proof (cases "co_recordFailure cops")
  case (Some rf)
  have "keeps (leads A w0) (on_challenges (rf k now m))" for m
    by (intro keeps_challenges) (rule fail_idles [OF _ Some])
  then show ?thesis
    unfolding recordChallengeFailure_def assms Some Let_def option.case
    by (auto intro!: keeps_bind keeps_ret keeps_logFailure split: option.split ChallengeState.split)
qed (simp add: recordChallengeFailure_def assms keeps_ret)

text \<open>The redemption, for a stored session of the challenge.\<close>

lemma redeem_cases:
  assumes i: "cinv s" and r: "co_redeem cops k p s = (x, s')"
  obtains "idles s s'" | d where "x = Inr Redeemed" "look s k = Some d" "ch_state d = issued"
    "look s' k = Some (redeemed_record d p)" "\<And>j. j \<noteq> k \<Longrightarrow> look s' j = look s j"
proof (cases "x = Inr Redeemed")
  case False
  have fr: "\<And>j. j \<noteq> k \<Longrightarrow> look s' j = look s j" using cs.redeem_frame [OF i r] by blast
  have "look s' k = look s k \<or> (\<exists>c. look s k = Some c \<and> lifecycle c (c\<lparr>ch_state := expired\<rparr>)
      \<and> look s' k = Some (c\<lparr>ch_state := expired\<rparr>))"
    by (rule cs.redeem_move [OF i r False])
  moreover have "ch_redeemed_session_id (c\<lparr>ch_state := expired\<rparr>) = ch_redeemed_session_id c" for c
    by simp
  ultimately have "idles s s'"
    unfolding idles_def using fr by (metis option.inject r_into_rtranclp rtranclp.rtrancl_refl)
  then show ?thesis by (rule that(1))
next
  case True
  then obtain d where "look s k = Some d" "ch_state d = issued" "look s' k = Some (redeemed_record d p)"
    using cs.redeem_Redeemed [OF i] r by blast
  moreover have "look s' j = look s j" if "j \<noteq> k" for j using cs.redeem_frame [OF i r] that by blast
  ultimately show ?thesis using that(2) True by blast
qed

lemma redeem_coherent:
  assumes i: "cinv s" "sinv t" and c: "coherent s t" and r: "co_redeem cops k p s = (x, s')"
    and y: "y \<in> sess t" "s_challenge_id y = k" "rp_sessionId p = s_session_id y"
  shows "coherent s' t"
proof (rule redeem_cases [OF i(1) r])
  assume "idles s s'"
  then show ?thesis by (rule coherent_idles [OF c])
next
  fix d assume d: "look s k = Some d" "look s' k = Some (redeemed_record d p)"
    and fr: "\<And>j. j \<noteq> k \<Longrightarrow> look s' j = look s j"
  have rr: "ch_pubkey (redeemed_record d p) = ch_pubkey d" "ch_npub (redeemed_record d p) = ch_npub d"
    "ch_redeemed_session_id (redeemed_record d p) = Some (s_session_id y)"
    by (simp_all add: redeemed_record_def y(3))
  show ?thesis
    unfolding coherent_def
  proof (intro conjI ballI allI impI)
    fix z e assume "z \<in> sess t" "look s' (s_challenge_id z) = Some e"
    then show "s_principal_pubkey z = ch_pubkey e" "s_principal_npub z = ch_npub e"
      using c d fr [of "s_challenge_id z"] rr by (cases "s_challenge_id z = k"; auto simp: coherent_def)+
  next
    fix j e z assume z: "z \<in> sess t" "look s' j = Some e" "ch_redeemed_session_id e = Some (s_session_id z)"
    show "s_challenge_id z = j"
    proof (cases "j = k")
      case True
      then have "s_session_id y = s_session_id z" using z d rr(3) by simp
      then have "y = z" using ss.one_per_id [OF i(2) y(1) z(1)] by blast
      then show ?thesis using True y(2) by simp
    next
      case False
      then show ?thesis using z c fr by (auto simp: coherent_def)
    qed
  qed
qed

lemma redeem_for:
  assumes i: "cinv s" and r: "co_redeem cops k p s = (x, s')" and f: "redeemed_for A w0 s"
    and y: "rp_sessionId p \<in> s_session_id ` (sess (w_sessions w0) \<union> A)"
  shows "redeemed_for A w0 s'"
proof (rule redeem_cases [OF i r])
  assume "idles s s'"
  then show ?thesis by (rule redeemed_for_idles [OF f])
next
  fix d assume d: "look s' k = Some (redeemed_record d p)"
    and fr: "\<And>j. j \<noteq> k \<Longrightarrow> look s' j = look s j"
  show ?thesis
    unfolding redeemed_for_def
  proof (intro allI impI)
    fix j e n assume e: "look s' j = Some e" "ch_redeemed_session_id e = Some n"
    show "(\<exists>j e. look (w_challenges w0) j = Some e \<and> ch_redeemed_session_id e = Some n)
        \<or> n \<in> s_session_id ` (sess (w_sessions w0) \<union> A)"
    proof (cases "j = k")
      case True
      then have "n = rp_sessionId p" using e d by (auto simp: redeemed_record_def)
      then show ?thesis using y by blast
    next
      case False
      then have "look s j = Some e" using e fr by simp
      then show ?thesis using f e(2) unfolding redeemed_for_def by blast
    qed
  qed
qed

lemma leads_ids: "leads A w0 w \<Longrightarrow> y \<in> sess (w_sessions w) \<Longrightarrow>
    s_session_id y \<in> s_session_id ` (sess (w_sessions w0) \<union> A)"
  unfolding leads_def succeeds_def by (metis UnCI imageI)

lemma trip_redeem:
  assumes "rp_sessionId p = s_session_id y"
  shows "trip (\<lambda>w. leads A w0 w \<and> y \<in> sess (w_sessions w) \<and> s_challenge_id y = k)
     (on_challenges (co_redeem cops k p)) (\<lambda>_. leads A w0) (leads A w0)"
  unfolding trip_def
proof (intro allI impI)
  fix w assume p: "leads A w0 w \<and> y \<in> sess (w_sessions w) \<and> s_challenge_id y = k"
  then have i: "cinv (w_challenges w)" "sinv (w_sessions w)" "coherent (w_challenges w) (w_sessions w)"
    by (auto simp: leads_def)
  obtain x s' where m: "co_redeem cops k p (w_challenges w) = (x, s')" by fastforce
  have "coherent s' (w_sessions w)" by (rule redeem_coherent [OF i m]) (use p assms in auto)
  moreover have "cinv s'" "cs.moves (w_challenges w) s'"
    using cs.redeem_frame [OF i(1) m] cs.redeem_moves [OF i(1) m] by blast+
  moreover have "redeemed_for A w0 s'"
    by (rule redeem_for [OF i(1) m]) (use p leads_ids [of A w0 w y] assms in \<open>simp_all add: leads_def\<close>)
  ultimately have "leads A w0 (w\<lparr>w_challenges := s'\<rparr>)"
    using p cs.moves_trans by (auto simp: leads_def)
  then show "case on_challenges (co_redeem cops k p) w of (Inl _, w') \<Rightarrow> leads A w0 w'
      | (Inr _, w') \<Rightarrow> leads A w0 w'"
    by (simp add: on_challenges_def io_on_def m split: sum.splits)
qed

lemma keeps_sessions:
  assumes "\<And>s x s'. sinv s \<Longrightarrow> m s = (x, s') \<Longrightarrow> sinv s' \<and> sess s' \<subseteq> sess s"
  shows "keeps (leads A w0) (on_sess m)"
  unfolding trip_def
proof (intro allI impI)
  fix w assume l: "leads A w0 w"
  obtain x s' where m: "m (w_sessions w) = (x, s')" by fastforce
  have "sinv s' \<and> sess s' \<subseteq> sess (w_sessions w)"
    using assms [OF _ m] l by (simp add: leads_def)
  moreover have "\<forall>y\<in>sess s'. \<exists>x\<in>sess (w_sessions w). succeeds x y"
    using calculation by blast
  ultimately have "leads A w0 (w\<lparr>w_sessions := s'\<rparr>)"
    using l coherent_succeeds [of "w_challenges w" "w_sessions w" s'] by (auto simp: leads_def)
  then show "case on_sess m w of (Inl _, w') \<Rightarrow> leads A w0 w' | (Inr _, w') \<Rightarrow> leads A w0 w'"
    by (simp add: on_sess_def io_on_def m split: sum.splits)
qed

lemma keeps_byId: "keeps (leads A w0) (on_sess (so_getBySessionId sops k))"
  by (intro keeps_sessions) (rule ss.id_frame)

lemma keeps_answer:
  assumes "op_challengeStore opts = cops" and "op_sessionStore opts = sops"
  shows "keeps (leads A w0) (answer_redeemed opts c ev now)"
  unfolding answer_redeemed_def assms
  by (auto intro!: keeps_bind keeps_cget keeps_refuse keeps_byId keeps_logSuccess keeps_ret
      split: option.split)

text \<open>The one new session, with an id that no stored session has.\<close>

definition built :: "ChallengeRecord \<Rightarrow> ('cs, 'ss, 'as, 'rl) world \<Rightarrow> SessionRecord \<Rightarrow> bool" where
  "built c w0 r \<longleftrightarrow>
     fresh_session r \<and> s_challenge_id r = ch_challenge_id c \<and> s_principal_npub r = ch_npub c
     \<and> s_principal_pubkey r = ch_pubkey c \<and> s_issued_at r = w_now w0
     \<and> s_session_id r \<notin> s_session_id ` sess (w_sessions w0)
     \<and> (\<forall>k c. look (w_challenges w0) k = Some c \<longrightarrow> ch_redeemed_session_id c \<noteq> Some (s_session_id r))"

lemma trip_createRecord:
  assumes f: "fresh_ids w0" and n: "now = w_now w0"
  shows "trip (leads {} w0) (createSessionRecord c now ttl rs ps su rf)
           (\<lambda>r w. leads {} w0 w \<and> built c w0 r) (leads {} w0)"
  unfolding trip_def
proof (intro allI impI)
  fix w assume l: "leads {} w0 w"
  obtain r w' where r: "createSessionRecord c now ttl rs ps su rf w = (Inr r, w')"
    using createSessionRecord_total by blast
  have "keeps (leads {} w0) (createSessionRecord c now ttl rs ps su rf)"
    unfolding createSessionRecord_def randomToken_def
    by (auto intro!: keeps_bind keeps_random keeps_ret split: option.split)
  then have l': "leads {} w0 w'" using l r by (auto simp: trip_def)
  have "s_session_id r = token_at w (w_drawn w) 24"
    using r by (auto simp: createSessionRecord_def io_bind_Inr randomToken_eq)
  also have "\<dots> = token_at w0 (w_drawn w) 24" using l by (simp add: token_at_def leads_def)
  finally have "s_session_id r \<notin> s_session_id ` sess (w_sessions w0)
      \<and> (\<forall>k c. look (w_challenges w0) k = Some c \<longrightarrow> ch_redeemed_session_id c \<noteq> Some (s_session_id r))"
    using f l by (auto simp: fresh_ids_def leads_def)
  then have "built c w0 r"
    using createSessionRecord_value [OF r] n by (simp add: built_def)
  then show "case createSessionRecord c now ttl rs ps su rf w of (Inl _, w') \<Rightarrow> leads {} w0 w'
      | (Inr r, w') \<Rightarrow> leads {} w0 w' \<and> built c w0 r"
    using r l' by simp
qed

text \<open>In the stores as they were, the new session tells the same story.\<close>

lemma built_coherent:
  assumes l: "leads {} w0 w" and b: "built c w0 r"
    and c: "look (w_challenges w0) (ch_challenge_id c) = Some c0" "same_challenge c0 c"
    and s': "sess s' \<subseteq> insert r (sess (w_sessions w))"
  shows "coherent (w_challenges w) s'"
  unfolding coherent_def
proof (intro conjI ballI allI impI)
  fix y e assume y: "y \<in> sess s'" and e: "look (w_challenges w) (s_challenge_id y) = Some e"
  have "s_principal_pubkey y = ch_pubkey e \<and> s_principal_npub y = ch_npub e"
  proof (cases "y = r")
    case True
    then have "look (w_challenges w) (ch_challenge_id c) = Some e" using e b by (simp add: built_def)
    then have "evolves c0 e" using l c(1) unfolding leads_def cs.moves_def by fastforce
    then show ?thesis
      using evolves_same [of c0 e] c(2) b True by (simp add: same_challenge_def built_def)
  next
    case False
    then have "y \<in> sess (w_sessions w)" using y s' by blast
    then show ?thesis using l e unfolding leads_def coherent_def by blast
  qed
  then show "s_principal_pubkey y = ch_pubkey e" "s_principal_npub y = ch_npub e" by blast+
next
  fix k e y assume y: "y \<in> sess s'" and e: "look (w_challenges w) k = Some e"
    "ch_redeemed_session_id e = Some (s_session_id y)"
  show "s_challenge_id y = k"
  proof (cases "y = r")
    case True
    have "redeemed_for {} w0 (w_challenges w)" using l by (simp add: leads_def)
    then have "(\<exists>j d. look (w_challenges w0) j = Some d \<and> ch_redeemed_session_id d = Some (s_session_id r))
        \<or> s_session_id r \<in> s_session_id ` sess (w_sessions w0)"
      using e True unfolding redeemed_for_def by simp
    then show ?thesis using b unfolding built_def by blast
  next
    case False
    then have "y \<in> sess (w_sessions w)" using y s' by blast
    then show ?thesis using l e unfolding leads_def coherent_def by blast
  qed
qed

lemma built_new:
  assumes l: "leads {} w0 w" and b: "built c w0 r"
  shows "s_session_id r \<notin> s_session_id ` sess (w_sessions w)"
proof
  assume "s_session_id r \<in> s_session_id ` sess (w_sessions w)"
  then obtain y where "y \<in> sess (w_sessions w)" "s_session_id y = s_session_id r" by auto
  moreover obtain x where "x \<in> sess (w_sessions w0)" "succeeds x y"
    using l calculation(1) by (auto simp: leads_def)
  ultimately show False
    using b by (auto simp: built_def succeeds_def image_iff)
qed

lemma trip_createForChallenge:
  assumes A: "built c w0 r \<Longrightarrow> r \<in> A"
    and c: "look (w_challenges w0) (ch_challenge_id c) = Some c0" "same_challenge c0 c"
  shows "trip (\<lambda>w. leads {} w0 w \<and> built c w0 r) (on_sess (so_createForChallenge sops r))
           (\<lambda>y w. leads A w0 w \<and> y \<in> sess (w_sessions w) \<and> s_challenge_id y = ch_challenge_id c)
           (leads A w0)"
  unfolding trip_def
proof (intro allI impI)
  fix w assume p: "leads {} w0 w \<and> built c w0 r"
  then have l: "leads {} w0 w" and b: "built c w0 r" by blast+
  have i: "sinv (w_sessions w)" and f: "fresh_session r"
    using l b by (simp_all add: leads_def built_def)
  obtain x s' where m: "so_createForChallenge sops r (w_sessions w) = (x, s')" by fastforce
  have s': "sinv s'" "sess s' \<subseteq> insert r (sess (w_sessions w))"
    using ss.create_inv [OF i f built_new [OF l b] m] ss.create_sess [OF i f m] by blast+
  have "\<exists>x\<in>sess (w_sessions w0). succeeds x y" if "y \<in> sess s'" "y \<noteq> r" for y
    using that s'(2) l unfolding leads_def by blast
  then have "leads A w0 (w\<lparr>w_sessions := s'\<rparr>)"
    using l A [OF b] s'(1) built_coherent [OF l b c s'(2)] redeemed_for_mono [of "{}"]
    by (auto simp: leads_def)
  moreover have "y \<in> sess s' \<and> s_challenge_id y = ch_challenge_id c" if "x = Inr y" for y
    using ss.create_value [OF i f m [unfolded that]] b by (simp add: built_def)
  ultimately show "case on_sess (so_createForChallenge sops r) w of (Inl _, w') \<Rightarrow> leads A w0 w'
      | (Inr y, w') \<Rightarrow> leads A w0 w' \<and> y \<in> sess (w_sessions w') \<and> s_challenge_id y = ch_challenge_id c"
    by (simp add: on_sess_def io_on_def m split: sum.splits)
qed

section \<open>What a completion may do\<close>

text \<open>The sessions a completion can add.\<close>

definition new_sessions ::
  "('cs, 'ss, 'as, 'rl) server_options \<Rightarrow> ('cs, 'ss, 'as, 'rl) world \<Rightarrow> SessionRecord set" where
  "new_sessions opts w0 =
     {r. \<exists>ev c. proved (op_platform opts) ev r \<and> look (w_challenges w0) (s_challenge_id r) = Some c
           \<and> ch_pubkey c = s_principal_pubkey r \<and> ch_npub c = s_principal_npub r
           \<and> s_session_id r \<notin> s_session_id ` sess (w_sessions w0) \<and> s_issued_at r = w_now w0}"

abbreviation completes ::
  "('cs, 'ss, 'as, 'rl) server_options \<Rightarrow> ('cs, 'ss, 'as, 'rl) world \<Rightarrow> ('cs, 'ss, 'as, 'rl, 'a) act \<Rightarrow> bool" where
  "completes opts w0 m \<equiv>
     trip (leads {} w0) m (\<lambda>_. leads (new_sessions opts w0) w0) (leads (new_sessions opts w0) w0)"

lemma completes_keep: "keeps (leads {} w0) m \<Longrightarrow> completes opts w0 m"
  by (erule trip_weaken) (auto intro: leads_mono)

lemma completes_bind:
  "\<lbrakk>keeps (leads {} w0) m; \<And>x. completes opts w0 (f x)\<rbrakk> \<Longrightarrow> completes opts w0 (io_bind m f)"
  by (rule trip_bind [where R = "\<lambda>_. leads {} w0"], erule trip_weaken) (auto intro: leads_mono)

lemma completes_now:
  "completes opts w0 (f (w_now w0)) \<Longrightarrow> completes opts w0 (io_bind (io_get w_now) f)"
  unfolding trip_def io_bind_def by (auto simp: leads_def)

lemma trip_settle:
  assumes st: "op_challengeStore opts = cops" "op_sessionStore opts = sops"
  shows "trip (\<lambda>w. leads A w0 w \<and> y \<in> sess (w_sessions w) \<and> s_challenge_id y = ch_challenge_id c)
     (settle_challenge opts c ev now y) (\<lambda>_. leads A w0) (leads A w0)"
  unfolding settle_challenge_def st(1)
  by (rule trip_bind [OF trip_redeem])
    (auto simp: redeem_params_def intro!: keeps_bind keeps_logSuccess keeps_ret keeps_refuse
      keeps_answer [OF st] split: RedeemStatus.split)

lemma completes_establish:
  assumes st: "op_challengeStore opts = cops" "op_sessionStore opts = sops" and f: "fresh_ids w0"
    and A: "\<And>r. built c w0 r \<Longrightarrow> r \<in> new_sessions opts w0"
    and c: "look (w_challenges w0) (ch_challenge_id c) = Some c0" "same_challenge c0 c"
  shows "completes opts w0 (establish_session opts body c ev (w_now w0) d)"
  unfolding establish_session_def st(2)
proof (rule trip_bind [where R = "\<lambda>r w. leads {} w0 w \<and> built c w0 r"],
    rule trip_weaken [OF trip_createRecord [OF f refl]])
  fix r
  show "trip (\<lambda>w. leads {} w0 w \<and> built c w0 r)
     (io_bind (on_sess (so_createForChallenge sops r)) (settle_challenge opts c ev (w_now w0)))
     (\<lambda>_. leads (new_sessions opts w0) w0) (leads (new_sessions opts w0) w0)"
    by (rule trip_bind [OF trip_createForChallenge [OF A c] trip_settle [OF st]])
qed (auto intro: leads_mono)

lemma trip_cget:
  "trip (leads {} w0) (on_challenges (co_get cops k))
     (\<lambda>x w. leads {} w0 w \<and> (\<forall>c. x = Some c \<longrightarrow>
        ch_challenge_id c = k \<and> (\<exists>c0. look (w_challenges w0) k = Some c0 \<and> same_challenge c0 c)))
     (leads {} w0)"
  unfolding trip_def
proof (intro allI impI)
  fix w assume l: "leads {} w0 w"
  then have i: "cinv (w_challenges w)" by (simp add: leads_def)
  obtain x w' where g: "on_challenges (co_get cops k) w = (x, w')" by fastforce
  have l': "leads {} w0 w'"
    using keeps_cget [of "{}" w0 k] l g by (cases x) (auto simp: trip_def)
  show "case on_challenges (co_get cops k) w of (Inl _, w') \<Rightarrow> leads {} w0 w'
      | (Inr x, w') \<Rightarrow> leads {} w0 w' \<and> (\<forall>c. x = Some c \<longrightarrow> ch_challenge_id c = k
          \<and> (\<exists>c0. look (w_challenges w0) k = Some c0 \<and> same_challenge c0 c))"
  proof (cases x)
    case (Inr y)
    obtain s' where s': "co_get cops k (w_challenges w) = (Inr y, s')"
      using g Inr by (auto simp: on_challenges_eq)
    have "ch_challenge_id c = k \<and> (\<exists>c0. look (w_challenges w0) k = Some c0 \<and> same_challenge c0 c)"
      if "y = Some c" for c
    proof -
      have c: "look (w_challenges w) k = Some c" using cs.get_value [OF i s'] that by simp
      then obtain c0 where "look (w_challenges w0) k = Some c0" "evolves c0 c"
        using l unfolding leads_def cs.moves_def by blast
      then show ?thesis using cs.look_id [OF i c] evolves_same by blast
    qed
    then show ?thesis using g Inr l' by simp
  qed (use g l' in simp)
qed

lemma completes_match:
  assumes st: "op_challengeStore opts = cops" "op_sessionStore opts = sops" and f: "fresh_ids w0"
    and ev: "pf_verifyEvent (op_platform opts) (vc_event proof)" "ev_kind (vc_event proof) = 27235"
      "single_tag (vc_event proof) ''challenge_id'' (ch_challenge_id c)"
    and c: "look (w_challenges w0) (ch_challenge_id c) = Some c0" "same_challenge c0 c"
  shows "completes opts w0 (match_challenge opts body proof (w_now w0) c)"
proof -
  have est: "completes opts w0 (establish_session opts body c (vc_event proof) (w_now w0) d)"
    if "ch_pubkey c = ev_pubkey (vc_event proof)" for d
  proof (rule completes_establish [OF st f _ c])
    fix r assume "built c w0 r"
    then show "r \<in> new_sessions opts w0"
      using c ev that by (auto simp: new_sessions_def built_def proved_def same_challenge_def
          intro!: exI [of _ "vc_event proof"])
  qed
  show ?thesis
    unfolding match_challenge_def Let_def
    by (auto intro!: completes_keep [OF keeps_refuse] completes_bind keeps_resolver est
        keeps_recordFailure [OF st(1)] split: sum.split)
qed

lemma completes_proven:
  assumes st: "op_challengeStore opts = cops" "op_sessionStore opts = sops" and f: "fresh_ids w0"
    and ev: "pf_verifyEvent (op_platform opts) (vc_event proof)" "ev_kind (vc_event proof) = 27235"
      "single_tag (vc_event proof) ''challenge_id'' (vc_challengeId proof)"
  shows "completes opts w0 (complete_proven opts body proof (w_now w0))"
  unfolding complete_proven_def st(1)
proof (rule trip_bind [OF trip_weaken [OF trip_cget]], assumption, assumption)
  fix found
  show "trip (\<lambda>w. leads {} w0 w \<and> (\<forall>c. found = Some c \<longrightarrow> ch_challenge_id c = vc_challengeId proof
        \<and> (\<exists>c0. look (w_challenges w0) (vc_challengeId proof) = Some c0 \<and> same_challenge c0 c)))
     (case found of
         None \<Rightarrow> refuse opts (failure NAP_COMPLETE_UNKNOWN_CHALLENGE)
                   (challenge_details (vc_challengeId proof))
       | Some challenge \<Rightarrow> match_challenge opts body proof (w_now w0) challenge)
     (\<lambda>_. leads (new_sessions opts w0) w0) (leads (new_sessions opts w0) w0)"
  proof (rule trip_pure, cases found)
    case None
    then show "completes opts w0 (case found of
         None \<Rightarrow> refuse opts (failure NAP_COMPLETE_UNKNOWN_CHALLENGE)
                   (challenge_details (vc_challengeId proof))
       | Some challenge \<Rightarrow> match_challenge opts body proof (w_now w0) challenge)"
      by (simp add: completes_keep keeps_refuse)
  next
    fix c
    assume h: "\<forall>c. found = Some c \<longrightarrow> ch_challenge_id c = vc_challengeId proof
        \<and> (\<exists>c0. look (w_challenges w0) (vc_challengeId proof) = Some c0 \<and> same_challenge c0 c)"
      and s: "found = Some c"
    then obtain c0 where c0: "ch_challenge_id c = vc_challengeId proof"
      "look (w_challenges w0) (ch_challenge_id c) = Some c0" "same_challenge c0 c" by auto
    show "completes opts w0 (case found of
         None \<Rightarrow> refuse opts (failure NAP_COMPLETE_UNKNOWN_CHALLENGE)
                   (challenge_details (vc_challengeId proof))
       | Some challenge \<Rightarrow> match_challenge opts body proof (w_now w0) challenge)"
      unfolding s option.case
      by (rule completes_match [OF st f ev(1,2) _ c0(2,3)]) (use ev(3) c0(1) in simp)
  qed
qed (auto intro: leads_mono)

lemma completes_unpadded:
  assumes st: "op_challengeStore opts = cops" "op_sessionStore opts = sops" and f: "fresh_ids w0"
  shows "completes opts w0 (verifyCompletionUnpadded input opts)"
proof -
  have lim: "completes opts w0 (complete_limited opts b p r)" for b p r
    unfolding complete_limited_def by (intro completes_bind keeps_audit completes_keep keeps_ret)
  have prov: "completes opts w0 (complete_proven opts body pr (w_now w0))"
    if "verifyNip98Completion (op_platform opts) (completion_input input opts body now) = Inr pr"
    for body pr now
    by (rule completes_proven [OF st f])
      (use that in \<open>auto simp: verifyNip98Completion_Inr valid_proof_def\<close>)
  show ?thesis
    unfolding verifyCompletionUnpadded_def
    by (auto intro!: completes_bind keeps_count keeps_limit completes_now lim prov
        completes_keep [OF keeps_refuse] completes_keep [OF keeps_ret]
        split: option.split sum.split)
qed

end

end
