(* ===== verification/CompleteSound.thy ===== *)
theory CompleteSound
  imports CompleteFacts Padding MemoryChallenges MemorySessions
begin

text \<open>
  What a successful \<open>verifyCompletion\<close> establishes, and what an unsuccessful one leaves
  untouched, over any pair of stores that keep their contracts.
\<close>

section \<open>Success\<close>

text \<open>
  The challenge \<open>k\<close> has been redeemed by the event \<open>e\<close> for the stored session \<open>s\<close>.
\<close>

lemma refuse_ok: "refuse opts g d u \<noteq> (Inr (Verify_ok s), w')"
  by (auto dest: refuse_not_ok)

lemma bind_refuse_not_ok: "io_bind m (\<lambda>_. refuse opts g d) u \<noteq> (Inr (Verify_ok s), w')"
  by (auto simp: io_bind_Inr refuse_ok)

context nap_stores
begin

definition settled :: "('cs, 'ss, 'as, 'rl) world \<Rightarrow> string \<Rightarrow> string \<Rightarrow> SessionRecord \<Rightarrow> bool" where
  "settled w k e s \<longleftrightarrow>
     s \<in> sess (w_sessions w) \<and> s_challenge_id s = k
     \<and> (\<exists>d. look (w_challenges w) k = Some d \<and> ch_state d \<noteq> issued
          \<and> ch_redeemed_session_id d = Some (s_session_id s) \<and> ch_redeemed_event_id d = Some e)"

lemma settled_quiet: "settled w k e s \<Longrightarrow> quiet m \<Longrightarrow> m w = (x, w') \<Longrightarrow> settled w' k e s"
  by (auto simp: settled_def dest!: quietD)

lemma leads_parts:
  assumes "leads A w0 w"
  shows "cinv (w_challenges w)" "sinv (w_sessions w)" "coherent (w_challenges w) (w_sessions w)"
    "cs.moves (w_challenges w0) (w_challenges w)"
  using assms by (simp_all add: leads_def)

lemma answer_ok:
  assumes st: "op_challengeStore opts = cops" "op_sessionStore opts = sops"
    and l: "leads A w0 w" and left: "\<And>d. look (w_challenges w) (ch_challenge_id c) = Some d \<Longrightarrow>
        ch_redeemed_session_id d \<noteq> None \<Longrightarrow> ch_state d \<noteq> issued"
    and r: "answer_redeemed opts c ev now w = (Inr (Verify_ok s), w')"
  shows "settled w' (ch_challenge_id c) (ev_id ev) s"
proof -
  let ?k = "ch_challenge_id c"
  obtain again s1 sid w2 where g: "co_get cops ?k (w_challenges w) = (Inr again, s1)"
    and hit: "retry_hit again ev now = Some sid" and w2: "w2 = w\<lparr>w_challenges := s1\<rparr>"
    and rest: "io_bind (on_sess (so_getBySessionId sops sid)) (\<lambda>existing. case existing of
               Some s \<Rightarrow>
                 io_bind (logSuccess opts (Some [(''challenge_id'', JStr ?k),
                            (''session_id'', JStr (s_session_id s)), (''retry'', JBool True)]))
                   (\<lambda>_. io_ret (Verify_ok s))
             | None \<Rightarrow> refuse opts (failure NAP_COMPLETE_INTERNAL)
                 (Some [(''challenge_id'', JStr ?k), (''reason'', JStr ''redeemed_session_missing'')])) w2
          = (Inr (Verify_ok s), w')"
    using r unfolding answer_redeemed_def st
    by (auto simp: io_bind_Inr on_challenges_eq split: option.splits dest: refuse_not_ok)
  have look: "again = look (w_challenges w) ?k" "cinv s1" "look s1 = look (w_challenges w)"
    using cs.get_value [OF leads_parts(1) [OF l] g] cs.get_frame [OF leads_parts(1) [OF l] g] by blast+
  obtain d where d: "look (w_challenges w) ?k = Some d" "ch_redeemed_event_id d = Some (ev_id ev)"
    "ch_redeemed_session_id d = Some sid"
    using hit look(1) by (auto simp: retry_hit_def split: option.splits if_splits)
  obtain y t w3 where y: "so_getBySessionId sops sid (w_sessions w) = (Inr (Some y), t)"
    and w3: "w3 = w2\<lparr>w_sessions := t\<rparr>"
    and lg: "io_bind (logSuccess opts (Some [(''challenge_id'', JStr ?k),
                            (''session_id'', JStr (s_session_id y)), (''retry'', JBool True)]))
                   (\<lambda>_. io_ret (Verify_ok y)) w3 = (Inr (Verify_ok s), w')"
    using rest w2 by (auto simp: io_bind_Inr on_sess_eq split: option.splits dest: refuse_not_ok)
  have ys: "y = s" and q: "settled w3 ?k (ev_id ev) s \<Longrightarrow> settled w' ?k (ev_id ev) s"
    using lg settled_quiet [OF _ quiet_logSuccess] by (auto simp: io_bind_Inr)
  have t: "s \<in> sess t" "s_session_id s = sid" "sess t \<subseteq> sess (w_sessions w)"
    using ss.id_value [OF leads_parts(2) [OF l] y] ss.id_frame [OF leads_parts(2) [OF l] y] ys by blast+
  have "s_challenge_id s = ?k"
    using leads_parts(3) [OF l] d t unfolding coherent_def by blast
  then have "settled w3 ?k (ev_id ev) s"
    using t d look(3) w2 w3 left [OF d(1)] by (simp add: settled_def)
  then show ?thesis by (rule q)
qed

text \<open>A challenge the store holds as issued has no redemption: a move keeps this.\<close>

definition virgin :: "'cs \<Rightarrow> bool" where
  "virgin s \<longleftrightarrow> (\<forall>k d. look s k = Some d \<longrightarrow> ch_state d = issued \<longrightarrow> ch_redeemed_session_id d = None)"

lemma lifecycle_issued:
  "lifecycle c d \<Longrightarrow> ch_state d = issued \<Longrightarrow>
   ch_state c = issued \<and> ch_redeemed_session_id d = ch_redeemed_session_id c"
  by (erule lifecycle.cases) (auto simp: redeemed_record_def failed_record_def Let_def split: if_splits)

lemma evolves_issued:
  "evolves c d \<Longrightarrow> ch_state d = issued \<Longrightarrow>
   ch_state c = issued \<and> ch_redeemed_session_id d = ch_redeemed_session_id c"
proof (induction rule: converse_rtranclp_induct)
  case (step x y)
  then show ?case using lifecycle_issued [of x y] by simp
qed simp

lemma virgin_moves: "virgin s \<Longrightarrow> cs.moves s s' \<Longrightarrow> virgin s'"
  unfolding virgin_def cs.moves_def using evolves_issued by metis

lemma settle_ok:
  assumes st: "op_challengeStore opts = cops" "op_sessionStore opts = sops"
    and v: "virgin (w_challenges w0)" and l: "leads A w0 w"
    and y: "y \<in> sess (w_sessions w)" "s_challenge_id y = ch_challenge_id c"
    and r: "settle_challenge opts c ev now y w = (Inr (Verify_ok s), w')"
  shows "settled w' (ch_challenge_id c) (ev_id ev) s"
proof -
  let ?k = "ch_challenge_id c" and ?p = "redeem_params opts ev y now"
  obtain status s' where m: "co_redeem cops ?k ?p (w_challenges w) = (Inr status, s')"
    and rest: "(case status of
         Redeemed \<Rightarrow> io_bind (logSuccess opts (Some [(''challenge_id'', JStr ?k),
                      (''session_id'', JStr (s_session_id y))])) (\<lambda>_. io_ret (Verify_ok y))
       | Redeem_expired \<Rightarrow> refuse opts (failure NAP_COMPLETE_EXPIRED_CHALLENGE) (challenge_details ?k)
       | Not_found \<Rightarrow> refuse opts (failure NAP_COMPLETE_UNKNOWN_CHALLENGE) (challenge_details ?k)
       | Already_redeemed \<Rightarrow> answer_redeemed opts c ev now) (w\<lparr>w_challenges := s'\<rparr>)
      = (Inr (Verify_ok s), w')"
    using r unfolding settle_challenge_def st by (auto simp: io_bind_Inr on_challenges_eq)
  have tr: "trip (\<lambda>w. leads A w0 w \<and> y \<in> sess (w_sessions w) \<and> s_challenge_id y = ?k)
     (on_challenges (co_redeem cops ?k ?p)) (\<lambda>_. leads A w0) (leads A w0)"
    by (rule trip_redeem) (simp add: redeem_params_def)
  have on: "on_challenges (co_redeem cops ?k ?p) w = (Inr status, w\<lparr>w_challenges := s'\<rparr>)"
    using m by (simp add: on_challenges_eq)
  have l2: "leads A w0 (w\<lparr>w_challenges := s'\<rparr>)"
    by (rule trip_InrD [OF tr _ on]) (use l y in simp)
  show ?thesis
  proof (cases status)
    case Redeemed
    obtain d where "look s' ?k = Some (redeemed_record d ?p)"
      using cs.redeem_Redeemed [OF leads_parts(1) [OF l] m [unfolded Redeemed]] by blast
    then have "settled (w\<lparr>w_challenges := s'\<rparr>) ?k (ev_id ev) y"
      using y by (simp add: settled_def redeemed_record_def redeem_params_def)
    moreover have "s = y" "\<exists>x. logSuccess opts (Some [(''challenge_id'', JStr ?k),
                      (''session_id'', JStr (s_session_id y))]) (w\<lparr>w_challenges := s'\<rparr>) = (Inr x, w')"
      using rest Redeemed by (auto simp: io_bind_Inr)
    ultimately show ?thesis using settled_quiet [OF _ quiet_logSuccess] by blast
  next
    case Already_redeemed
    have vv: "virgin s'" using virgin_moves [OF v] leads_parts(4) [OF l2] by simp
    show ?thesis
    proof (rule answer_ok [OF st l2])
      show "answer_redeemed opts c ev now (w\<lparr>w_challenges := s'\<rparr>) = (Inr (Verify_ok s), w')"
        using rest Already_redeemed by simp
    qed (use vv in \<open>auto simp: virgin_def\<close>)
  qed (use rest in \<open>auto dest: refuse_not_ok\<close>)
qed

text \<open>A session that tells what the resolver decided at \<open>now\<close>.\<close>

definition follows :: "('cs, 'ss, 'as, 'rl) server_options \<Rightarrow> int \<Rightarrow> AclDecision \<Rightarrow> SessionRecord \<Rightarrow> bool" where
  "follows opts now d s \<longleftrightarrow>
     s_roles s = d_roles d \<and> s_permissions s = d_permissions d
     \<and> s_expires_at s = now + clampTtlToDecision (or_else (op_sessionTtlSeconds opts) 900) (d_expires_at d) now"

lemma leads_new:
  "leads A w0 w \<Longrightarrow> s \<in> sess (w_sessions w) \<Longrightarrow> s_session_id s \<in> s_session_id ` sess (w_sessions w0) \<or> s \<in> A"
  unfolding leads_def succeeds_def by (metis imageI)

lemma establish_ok:
  assumes st: "op_challengeStore opts = cops" "op_sessionStore opts = sops" and f: "fresh_ids w0"
    and v: "virgin (w_challenges w0)" and l: "leads {} w0 w"
    and c: "look (w_challenges w0) (ch_challenge_id c) = Some c0" "same_challenge c0 c"
    and r: "establish_session opts body c ev (w_now w0) d w = (Inr (Verify_ok s), w')"
  shows "settled w' (ch_challenge_id c) (ev_id ev) s"
    and "s_session_id s \<in> s_session_id ` sess (w_sessions w0) \<or> follows opts (w_now w0) d s"
proof -
  obtain su rf r0 w1 y w2 where
    1: "createSessionRecord c (w_now w0)
          (clampTtlToDecision (or_else (op_sessionTtlSeconds opts) 900) (d_expires_at d) (w_now w0))
          (d_roles d) (d_permissions d) su rf w = (Inr r0, w1)"
    and 2: "on_sess (so_createForChallenge sops r0) w1 = (Inr y, w2)"
    and 3: "settle_challenge opts c ev (w_now w0) y w2 = (Inr (Verify_ok s), w')"
    using r unfolding establish_session_def st by (auto simp: io_bind_Inr)
  have p1: "leads {} w0 w1 \<and> built c w0 r0"
    by (rule trip_InrD [OF trip_createRecord [OF f refl] l 1])
  have dec: "follows opts (w_now w0) d r0"
    using createSessionRecord_value [OF 1] by (simp add: follows_def)
  let ?A = "{r. follows opts (w_now w0) d r}"
  have "trip (\<lambda>w. leads {} w0 w \<and> built c w0 r0) (on_sess (so_createForChallenge sops r0))
           (\<lambda>y w. leads ?A w0 w \<and> y \<in> sess (w_sessions w) \<and> s_challenge_id y = ch_challenge_id c)
           (leads ?A w0)"
    by (rule trip_createForChallenge [OF _ c]) (simp add: dec)
  from trip_InrD [OF this p1 2]
  have p2: "leads ?A w0 w2" "y \<in> sess (w_sessions w2)" "s_challenge_id y = ch_challenge_id c"
    by blast+
  show ok: "settled w' (ch_challenge_id c) (ev_id ev) s" by (rule settle_ok [OF st v p2 3])
  have "leads ?A w0 w'" by (rule trip_InrD [OF trip_settle [OF st] _ 3]) (use p2 in blast)
  then show "s_session_id s \<in> s_session_id ` sess (w_sessions w0) \<or> follows opts (w_now w0) d s"
    using leads_new ok by (fastforce simp: settled_def)
qed

text \<open>What the challenge must have been, and what the resolver must have said.\<close>

definition admitted ::
  "('cs, 'ss, 'as, 'rl) server_options \<Rightarrow> VerifiedNip98Completion \<Rightarrow> int \<Rightarrow> ChallengeRecord \<Rightarrow> bool" where
  "admitted opts proof now c \<longleftrightarrow>
     \<not> ch_expires_at c < now \<and> ch_pubkey c = ev_pubkey (vc_event proof)
     \<and> ch_challenge c = vc_challenge proof
     \<and> of_int (ch_issued_at c - or_else (op_lowerBoundGraceSeconds opts) 30) \<le> ev_created_at (vc_event proof)
     \<and> ev_created_at (vc_event proof) \<le> of_int (ch_expires_at c + or_else (op_upperBoundGraceSeconds opts) 5)"

text \<open>
  The resolver, asked in the state \<open>as\<close>, allows the key of the challenge; the session, unless it
  is one of \<open>old\<close>, tells what it decided.
\<close>

definition allowed_by ::
  "('cs, 'ss, 'as, 'rl) server_options \<Rightarrow> AuthCompleteRequest \<Rightarrow> int \<Rightarrow> ChallengeRecord \<Rightarrow> 'as
     \<Rightarrow> SessionRecord set \<Rightarrow> SessionRecord \<Rightarrow> bool" where
  "allowed_by opts body now c as old s \<longleftrightarrow>
     (\<exists>d as'. op_aclResolver opts (ch_npub c) (ch_pubkey c)
        \<lparr>cx_voucher = rq_voucher body, cx_now = now, cx_session = None\<rparr> as = (Inr d, as') \<and> d_allowed d
        \<and> (s_session_id s \<in> s_session_id ` old \<or> follows opts now d s))"

lemma match_ok:
  assumes st: "op_challengeStore opts = cops" "op_sessionStore opts = sops" and f: "fresh_ids w0"
    and v: "virgin (w_challenges w0)" and l: "leads {} w0 w"
    and c: "look (w_challenges w0) (ch_challenge_id c) = Some c0" "same_challenge c0 c"
    and r: "match_challenge opts body proof (w_now w0) c w = (Inr (Verify_ok s), w')"
  shows "settled w' (ch_challenge_id c) (ev_id (vc_event proof)) s \<and> admitted opts proof (w_now w0) c
    \<and> ch_state c \<noteq> expired \<and> ch_state c \<noteq> failed_terminal
    \<and> allowed_by opts body (w_now w0) c (w_acl w) (sess (w_sessions w0)) s"
proof -
  let ?b = "validateChallengeBoundCreatedAt (ev_created_at (vc_event proof)) (ch_issued_at c)
                  (ch_expires_at c) (Some (or_else (op_lowerBoundGraceSeconds opts) 30))
                  (Some (or_else (op_upperBoundGraceSeconds opts) 5))"
  have g: "\<not> (ch_expires_at c < w_now w0 \<or> ch_state c = expired)" "ch_state c \<noteq> failed_terminal"
    "ch_pubkey c = ev_pubkey (vc_event proof)" "ch_challenge c = vc_challenge proof" "?b = Inr ()"
    using r unfolding match_challenge_def Let_def
    by (auto simp: bind_refuse_not_ok refuse_ok split: if_splits sum.splits)
  then obtain dec w1 where
    1: "on_resolver (op_aclResolver opts (ch_npub c) (ch_pubkey c)
                     \<lparr>cx_voucher = rq_voucher body, cx_now = w_now w0, cx_session = None\<rparr>) w = (Inr dec, w1)"
    and 2: "establish_session opts body c (vc_event proof) (w_now w0) dec w1 = (Inr (Verify_ok s), w')"
    and 3: "d_allowed dec"
    using r unfolding match_challenge_def Let_def
    by (auto simp: io_bind_Inr refuse_ok split: if_splits)
  have l1: "leads {} w0 w1" by (rule trip_InrD [OF keeps_resolver l 1])
  note est = establish_ok [OF st f v l1 c 2]
  have "allowed_by opts body (w_now w0) c (w_acl w) (sess (w_sessions w0)) s"
    using 1 3 est(2) by (auto simp: allowed_by_def on_resolver_eq)
  then show ?thesis using g est(1) by (auto simp: admitted_def challengeBound_Inr)
qed

text \<open>
  The whole handler. A completion that succeeds carried a proof that verifies, of a stored,
  live challenge issued to the key that signed; the session it returns is stored, belongs to
  that key, and is the one the challenge is recorded as redeemed for, by this event.
\<close>

definition granted ::
  "VerifyCompletionInput \<Rightarrow> ('cs, 'ss, 'as, 'rl) server_options \<Rightarrow> ('cs, 'ss, 'as, 'rl) world
     \<Rightarrow> SessionRecord \<Rightarrow> ('cs, 'ss, 'as, 'rl) world \<Rightarrow> bool" where
  "granted input opts w s w' \<longleftrightarrow>
     (\<exists>body proof c. parseAuthCompleteRequest (vn_rawBody input) = Some body
        \<and> verifyNip98Completion (op_platform opts) (completion_input input opts body (w_now w)) = Inr proof
        \<and> look (w_challenges w) (rq_challenge_id body) = Some c \<and> admitted opts proof (w_now w) c
        \<and> allowed_by opts body (w_now w) c (w_acl w) (sess (w_sessions w)) s
        \<and> s_principal_pubkey s = ev_pubkey (vc_event proof)
        \<and> settled w' (rq_challenge_id body) (ev_id (vc_event proof)) s)"

lemma settled_principal:
  assumes l: "leads A w0 w'" and c: "look (w_challenges w0) k = Some c" and s: "settled w' k e s"
  shows "s_principal_pubkey s = ch_pubkey c"
proof -
  obtain d where d: "look (w_challenges w') k = Some d" "s \<in> sess (w_sessions w')" "s_challenge_id s = k"
    using s by (auto simp: settled_def)
  obtain c' where "look (w_challenges w0) k = Some c'" "evolves c' d"
    using leads_parts(4) [OF l] d(1) unfolding cs.moves_def by blast
  then have "ch_pubkey d = ch_pubkey c" using c evolves_same by (auto simp: same_challenge_def)
  then show ?thesis
    using leads_parts(3) [OF l] d unfolding coherent_def by metis
qed

lemma complete_sound_unpadded:
  assumes st: "op_challengeStore opts = cops" "op_sessionStore opts = sops" and f: "fresh_ids w"
    and v: "virgin (w_challenges w)" and l: "leads {} w w"
    and r: "verifyCompletionUnpadded input opts w = (Inr (Verify_ok s), w')"
  shows "granted input opts w s w'"
proof -
  obtain w1 where 0: "count_total opts auth_complete_total w = (Inr (), w1)"
    using r by (auto simp: verifyCompletionUnpadded_def io_bind_Inr)
  obtain body where b: "parseAuthCompleteRequest (vn_rawBody input) = Some body"
    using r by (auto simp: verifyCompletionUnpadded_def io_bind_Inr split: option.splits)
  let ?lim1 = "checkRateLimit opts \<lparr>rk_scope = scope_complete, rk_npub = None, rk_pubkey = None,
                 rk_clientIp = vn_clientIp input\<rparr>"
  obtain lim w2 where 1: "?lim1 w1 = (Inr lim, w2)"
    and r2: "(case lim of Inl retryAfter \<Rightarrow> complete_limited opts body None retryAfter
     | Inr _ \<Rightarrow>
     io_bind (io_get w_now) (\<lambda>now.
     case verifyNip98Completion (op_platform opts) (completion_input input opts body now) of
       Inl f \<Rightarrow> refuse opts f (Some [(''url'', JStr (vn_url input))])
     | Inr proof \<Rightarrow>
     io_bind (checkRateLimit opts
                \<lparr>rk_scope = scope_complete, rk_npub = None, rk_pubkey = Some (ev_pubkey (vc_event proof)),
                 rk_clientIp = None\<rparr>) (\<lambda>provenRateLimit.
     case provenRateLimit of
       Inl retryAfter \<Rightarrow> complete_limited opts body (Some (ev_pubkey (vc_event proof))) retryAfter
     | Inr _ \<Rightarrow> complete_proven opts body proof now))) w2 = (Inr (Verify_ok s), w')"
    using r b 0 unfolding verifyCompletionUnpadded_def
    by (elim io_bindE, simp del: io_bind_step, elim io_bindE, blast)
  then have r3: "(case verifyNip98Completion (op_platform opts) (completion_input input opts body (w_now w2)) of
       Inl f \<Rightarrow> refuse opts f (Some [(''url'', JStr (vn_url input))])
     | Inr proof \<Rightarrow>
     io_bind (checkRateLimit opts
                \<lparr>rk_scope = scope_complete, rk_npub = None, rk_pubkey = Some (ev_pubkey (vc_event proof)),
                 rk_clientIp = None\<rparr>) (\<lambda>provenRateLimit.
     case provenRateLimit of
       Inl retryAfter \<Rightarrow> complete_limited opts body (Some (ev_pubkey (vc_event proof))) retryAfter
     | Inr _ \<Rightarrow> complete_proven opts body proof (w_now w2))) w2 = (Inr (Verify_ok s), w')"
    by (cases lim) (simp_all add: limited_not_ok)
  obtain vp where pr: "verifyNip98Completion (op_platform opts)
      (completion_input input opts body (w_now w2)) = Inr vp"
    using r3 by (cases "verifyNip98Completion (op_platform opts)
      (completion_input input opts body (w_now w2))") (simp_all add: refuse_ok)
  obtain lim2 w3 where 2: "checkRateLimit opts \<lparr>rk_scope = scope_complete, rk_npub = None,
                 rk_pubkey = Some (ev_pubkey (vc_event vp)), rk_clientIp = None\<rparr> w2 = (Inr lim2, w3)"
    and r4: "(case lim2 of
       Inl retryAfter \<Rightarrow> complete_limited opts body (Some (ev_pubkey (vc_event vp))) retryAfter
     | Inr _ \<Rightarrow> complete_proven opts body vp (w_now w2)) w3 = (Inr (Verify_ok s), w')"
    using r3 by (auto simp: pr elim: io_bindE)
  have rest: "complete_proven opts body vp (w_now w2) w3 = (Inr (Verify_ok s), w')"
    using r4 by (cases lim2) (simp_all add: limited_not_ok)
  have l1: "leads {} w w1" by (rule trip_InrD [OF keeps_count l 0])
  have l2: "leads {} w w2" by (rule trip_InrD [OF keeps_limit l1 1])
  have l3: "leads {} w w3" by (rule trip_InrD [OF keeps_limit l2 2])
  have now: "w_now w2 = w_now w" using l2 by (simp add: leads_def)
  have id: "vc_challengeId vp = rq_challenge_id body"
    using pr by (simp add: verifyNip98Completion_Inr completion_input_def)
  obtain c w4 where 3: "on_challenges (co_get cops (rq_challenge_id body)) w3 = (Inr (Some c), w4)"
    and m: "match_challenge opts body vp (w_now w) c w4 = (Inr (Verify_ok s), w')"
    using rest id now st(1)
    by (auto simp: complete_proven_def io_bind_Inr refuse_ok split: option.splits)
  have l4: "leads {} w w4"
    and c: "ch_challenge_id c = rq_challenge_id body"
    and c0: "\<exists>c0. look (w_challenges w) (rq_challenge_id body) = Some c0 \<and> same_challenge c0 c"
    using trip_InrD [OF trip_cget l3 3] by auto
  obtain c0 where c0: "look (w_challenges w) (rq_challenge_id body) = Some c0" "same_challenge c0 c"
    using c0 by blast
  have ok: "settled w' (rq_challenge_id body) (ev_id (vc_event vp)) s" "admitted opts vp (w_now w) c"
    "allowed_by opts body (w_now w) c (w_acl w4) (sess (w_sessions w)) s"
    using match_ok [OF st f v l4 _ _ m, of c0] c c0 by simp_all
  have "w_acl w4 = w_acl w"
    using quietD [OF quiet_count 0] quietD [OF quiet_limit 1] quietD [OF quiet_limit 2] 3
    by (auto simp: on_challenges_eq)
  then have al: "allowed_by opts body (w_now w) c0 (w_acl w) (sess (w_sessions w)) s"
    using ok(3) c0(2) by (simp add: allowed_by_def same_challenge_def)
  have l5: "leads (new_sessions opts w) w w'"
    by (rule trip_InrD [OF completes_unpadded [OF st f] l r])
  have pk: "s_principal_pubkey s = ev_pubkey (vc_event vp)"
    using settled_principal [OF l5 c0(1) ok(1)] ok(2) c0(2) by (simp add: admitted_def same_challenge_def)
  have "admitted opts vp (w_now w) c0"
    using ok(2) c0(2) by (simp add: admitted_def same_challenge_def)
  then show ?thesis
    unfolding granted_def using b pr now c0(1) pk ok(1) al by auto
qed

section \<open>A stranger changes nothing\<close>

text \<open>
  Unless the request carries a valid proof signed by the key the named challenge was issued
  to, neither store changes: no failure is counted against the challenge, no session made.
\<close>

definition by_principal ::
  "VerifyCompletionInput \<Rightarrow> ('cs, 'ss, 'as, 'rl) server_options \<Rightarrow> int \<Rightarrow> 'cs \<Rightarrow> bool" where
  "by_principal input opts now s \<longleftrightarrow>
     (\<exists>body proof c. parseAuthCompleteRequest (vn_rawBody input) = Some body
        \<and> verifyNip98Completion (op_platform opts) (completion_input input opts body now) = Inr proof
        \<and> look s (rq_challenge_id body) = Some c \<and> ch_pubkey c = ev_pubkey (vc_event proof))"

text \<open>Reading from a store that looks like \<open>s\<close>, at \<open>now\<close>.\<close>

definition reads_at :: "int \<Rightarrow> 'cs \<Rightarrow> ('cs, 'ss, 'as, 'rl, 'a) act \<Rightarrow> bool" where
  "reads_at now s m \<longleftrightarrow>
     (\<forall>w x w'. cinv (w_challenges w) \<longrightarrow> look (w_challenges w) = look s \<longrightarrow> w_now w = now
        \<longrightarrow> m w = (x, w') \<longrightarrow>
        cinv (w_challenges w') \<and> look (w_challenges w') = look s \<and> w_sessions w' = w_sessions w
        \<and> w_now w' = now)"

lemma reads_at_quiet: "quiet m \<Longrightarrow> reads_at now s m"
  unfolding reads_at_def by (auto dest: quietD)

lemma reads_atD:
  "\<lbrakk>reads_at now s m; cinv (w_challenges w); look (w_challenges w) = look s; w_now w = now; m w = (x, w')\<rbrakk>
   \<Longrightarrow> cinv (w_challenges w') \<and> look (w_challenges w') = look s \<and> w_sessions w' = w_sessions w
        \<and> w_now w' = now"
  unfolding reads_at_def by blast

lemma reads_at_bind:
  assumes m: "reads_at now s m" and f: "\<And>x. reads_at now s (f x)"
  shows "reads_at now s (io_bind m f)"
  unfolding reads_at_def
proof (intro allI impI)
  fix w x w' assume i: "cinv (w_challenges w)" "look (w_challenges w) = look s" "w_now w = now"
    and b: "io_bind m f w = (x, w')"
  obtain y v where y: "m w = (y, v)" by fastforce
  note v = reads_atD [OF m i y]
  show "cinv (w_challenges w') \<and> look (w_challenges w') = look s \<and> w_sessions w' = w_sessions w
      \<and> w_now w' = now"
  proof (cases y)
    case (Inl e)
    then show ?thesis using b y v by (simp add: io_bind_def)
  next
    case (Inr a)
    then have "f a v = (x, w')" using b y by (simp add: io_bind_def)
    then show ?thesis using reads_atD [OF f] v by metis
  qed
qed

lemma reads_at_now: "reads_at now s (f now) \<Longrightarrow> reads_at now s (io_bind (io_get w_now) f)"
  unfolding reads_at_def io_bind_def io_get_app prod.case sum.case by blast

lemma reads_at_get:
  assumes "reads_at now s (f (look s k))"
  shows "reads_at now s (io_bind (on_challenges (co_get cops k)) f)"
  unfolding reads_at_def
proof (intro allI impI)
  fix w x w' assume i: "cinv (w_challenges w)" "look (w_challenges w) = look s" "w_now w = now"
    and b: "io_bind (on_challenges (co_get cops k)) f w = (x, w')"
  obtain y t where y: "co_get cops k (w_challenges w) = (y, t)" by fastforce
  have t: "cinv t" "look t = look s" using cs.get_frame [OF i(1) y] i(2) by simp_all
  show "cinv (w_challenges w') \<and> look (w_challenges w') = look s \<and> w_sessions w' = w_sessions w
      \<and> w_now w' = now"
  proof (cases y)
    case (Inl e)
    then show ?thesis using b y t i by (auto simp: io_bind_def on_challenges_def io_on_def)
  next
    case (Inr a)
    have "f (look s k) (w\<lparr>w_challenges := t\<rparr>) = (x, w')"
      using b y Inr cs.get_value [OF i(1), of k a t] i(2) by (simp add: io_bind_def on_challenges_def io_on_def)
    then show ?thesis using reads_atD [OF assms, of "w\<lparr>w_challenges := t\<rparr>"] t i by simp
  qed
qed

lemma stranger_unpadded:
  assumes st: "op_challengeStore opts = cops" and no: "\<not> by_principal input opts now s"
  shows "reads_at now s (verifyCompletionUnpadded input opts)"
proof -
  have q: "quiet (match_challenge opts body vp now c)"
    if "ch_pubkey c \<noteq> ev_pubkey (vc_event vp)" for body vp c
    using that by (simp add: match_challenge_def Let_def quiet_rules)
  have "reads_at now s (complete_proven opts body vp now)"
    if "parseAuthCompleteRequest (vn_rawBody input) = Some body"
      "verifyNip98Completion (op_platform opts) (completion_input input opts body now) = Inr vp"
    for body vp
    unfolding complete_proven_def st
  proof (rule reads_at_get)
    have "vc_challengeId vp = rq_challenge_id body"
      using that(2) by (simp add: verifyNip98Completion_Inr completion_input_def)
    then have "ch_pubkey c \<noteq> ev_pubkey (vc_event vp)" if "look s (vc_challengeId vp) = Some c" for c
      using no that \<open>parseAuthCompleteRequest _ = _\<close> \<open>verifyNip98Completion _ _ = _\<close>
      unfolding by_principal_def by auto
    then show "reads_at now s (case look s (vc_challengeId vp) of
         None \<Rightarrow> refuse opts (failure NAP_COMPLETE_UNKNOWN_CHALLENGE)
                   (challenge_details (vc_challengeId vp))
       | Some challenge \<Rightarrow> match_challenge opts body vp now challenge)"
      by (auto split: option.split intro!: reads_at_quiet quiet_refuse q)
  qed
  then show ?thesis
    unfolding verifyCompletionUnpadded_def
    by (auto split: option.split sum.split
        intro!: reads_at_bind reads_at_now reads_at_quiet [OF quiet_count] reads_at_quiet [OF quiet_limit]
          reads_at_quiet [OF quiet_refuse] reads_at_quiet [OF quiet_limited] reads_at_quiet [OF quiet_ret])
qed

section \<open>The padded handler\<close>

text \<open>Stores that keep their invariants and agree, and session ids yet to be drawn that are new.\<close>

definition ready :: "('cs, 'ss, 'as, 'rl) world \<Rightarrow> bool" where
  "ready w \<longleftrightarrow>
     cinv (w_challenges w) \<and> sinv (w_sessions w) \<and> coherent (w_challenges w) (w_sessions w)
     \<and> virgin (w_challenges w) \<and> fresh_ids w"

lemma ready_leads: "ready w \<Longrightarrow> leads A w w"
  unfolding ready_def by (rule leads_refl) blast+

lemma leads_time:
  assumes "leads A w0 w" and "same_but_time w w'"
  shows "leads A w0 w'"
  using assms(1) same_but_timeD [OF assms(2)] by (simp add: leads_def)

lemma settled_time:
  assumes "settled w k e s" and "same_but_time w w'"
  shows "settled w' k e s"
  using assms(1) same_but_timeD [OF assms(2)] by (simp add: settled_def)

lemma complete_sound:
  assumes st: "op_challengeStore opts = cops" "op_sessionStore opts = sops" and rd: "ready w"
    and r: "verifyCompletion input opts w = (Inr (Verify_ok s), w')"
  shows "granted input opts w s w'"
proof -
  obtain w1 where 1: "verifyCompletionUnpadded input opts w = (Inr (Verify_ok s), w1)" "same_but_time w1 w'"
    using r unfolding verifyCompletion_def by (rule padded_runD)
  have "granted input opts w s w1"
    by (rule complete_sound_unpadded [OF st _ _ ready_leads [OF rd] 1(1)]) (use rd in \<open>simp_all add: ready_def\<close>)
  then show ?thesis unfolding granted_def using settled_time [OF _ 1(2)] by blast
qed

lemma complete_leads:
  assumes st: "op_challengeStore opts = cops" "op_sessionStore opts = sops" and rd: "ready w"
    and r: "verifyCompletion input opts w = (x, w')"
  shows "leads (new_sessions opts w) w w'"
proof -
  obtain w1 where 1: "verifyCompletionUnpadded input opts w = (x, w1)" "same_but_time w1 w'"
    using r unfolding verifyCompletion_def by (rule padded_runD)
  have "completes opts w (verifyCompletionUnpadded input opts)"
    by (rule completes_unpadded [OF st]) (use rd in \<open>simp add: ready_def\<close>)
  then have "leads (new_sessions opts w) w w1"
    by (rule trip_onlyD [of "leads {} w" "verifyCompletionUnpadded input opts" _ w x w1,
          OF _ ready_leads [OF rd] 1(1)])
  then show ?thesis by (rule leads_time [OF _ 1(2)])
qed

lemma stranger_frame:
  assumes st: "op_challengeStore opts = cops" and i: "cinv (w_challenges w)"
    and no: "\<not> by_principal input opts (w_now w) (w_challenges w)"
    and r: "verifyCompletion input opts w = (x, w')"
  shows "look (w_challenges w') = look (w_challenges w) \<and> w_sessions w' = w_sessions w"
proof -
  obtain w1 where 1: "verifyCompletionUnpadded input opts w = (x, w1)" "same_but_time w1 w'"
    using r unfolding verifyCompletion_def by (rule padded_runD)
  show ?thesis
    using reads_atD [OF stranger_unpadded [OF st no] i refl refl 1(1)] same_but_timeD [OF 1(2)] by simp
qed

text \<open>
  Two completions of one challenge that both succeed, whatever happened to the stores in
  between, were made with the same event and return the same session.
\<close>

lemma complete_once:
  assumes st: "op_challengeStore opts = cops" "op_sessionStore opts = sops"
    and rd: "ready w" and r1: "verifyCompletion i1 opts w = (Inr (Verify_ok s1), w1)"
    and m: "cs.moves (w_challenges w1) (w_challenges w2)" and rd2: "ready w2"
    and r2: "verifyCompletion i2 opts w2 = (Inr (Verify_ok s2), w3)"
    and same: "s_challenge_id s2 = s_challenge_id s1"
  shows "s_session_id s2 = s_session_id s1
    \<and> (\<exists>e. settled w1 (s_challenge_id s1) e s1 \<and> settled w3 (s_challenge_id s1) e s2)"
proof -
  obtain e1 e2 where e: "settled w1 (s_challenge_id s1) e1 s1" "settled w3 (s_challenge_id s1) e2 s2"
    using complete_sound [OF st rd r1] complete_sound [OF st rd2 r2] same
    unfolding granted_def settled_def by metis
  obtain d1 where d1: "look (w_challenges w1) (s_challenge_id s1) = Some d1" "ch_state d1 \<noteq> issued"
    "ch_redeemed_session_id d1 = Some (s_session_id s1)" "ch_redeemed_event_id d1 = Some e1"
    using e(1) by (auto simp: settled_def)
  obtain d3 where d3: "look (w_challenges w3) (s_challenge_id s1) = Some d3"
    "ch_redeemed_session_id d3 = Some (s_session_id s2)" "ch_redeemed_event_id d3 = Some e2"
    using e(2) by (auto simp: settled_def)
  have "cs.moves (w_challenges w1) (w_challenges w3)"
    using cs.moves_trans [OF m leads_parts(4) [OF complete_leads [OF st rd2 r2]]] .
  then have "evolves d1 d3" using d1(1) d3(1) unfolding cs.moves_def by fastforce
  then have "redemption d3 = redemption d1" using evolves_redemption d1(2) by blast
  then show ?thesis using d1 d3 e by (auto simp: redemption_def)
qed

end

section \<open>A valid login succeeds\<close>

definition audit_works :: "('cs, 'ss, 'as, 'rl) server_options \<Rightarrow> bool" where
  "audit_works opts \<longleftrightarrow> (\<forall>ev l. \<exists>l'. withMetrics_log (op_log opts) ev l = (Inr (), l'))"

lemma audit_total:
  assumes "audit_works opts"
  shows "\<exists>l. audit opts ev w = (Inr (), w\<lparr>w_log := l\<rparr>)"
proof -
  obtain l where "withMetrics_log (op_log opts) ev (w_log w) = (Inr (), l)"
    using assms unfolding audit_works_def by blast
  then have "audit opts ev w = (Inr (), w\<lparr>w_log := l\<rparr>)" by (simp add: audit_def on_log_eq)
  then show ?thesis by blast
qed

text \<open>The rate limiter lets the requests of these keys through, one after the other.\<close>

fun let_through ::
  "('cs, 'ss, 'as, 'rl) server_options \<Rightarrow> RateLimitKey list \<Rightarrow> ('cs, 'ss, 'as, 'rl) world \<Rightarrow> bool" where
  "let_through opts [] w \<longleftrightarrow> True"
| "let_through opts (k # ks) w \<longleftrightarrow>
     (case checkRateLimit opts k w of (Inr (Inr _), w') \<Rightarrow> let_through opts ks w' | _ \<Rightarrow> False)"

lemma through_Cons:
  "let_through opts (k # ks) w \<longleftrightarrow> (\<exists>w'. checkRateLimit opts k w = (Inr (Inr ()), w') \<and> let_through opts ks w')"
  by (auto split: prod.splits sum.splits)

text \<open>The two checks of a completion: by address, and by the key that signed.\<close>

definition completion_keys :: "VerifyCompletionInput \<Rightarrow> string \<Rightarrow> RateLimitKey list" where
  "completion_keys input pubkey =
     [\<lparr>rk_scope = scope_complete, rk_npub = None, rk_pubkey = None, rk_clientIp = vn_clientIp input\<rparr>,
      \<lparr>rk_scope = scope_complete, rk_npub = None, rk_pubkey = Some pubkey, rk_clientIp = None\<rparr>]"

lemma through_null: "op_rateLimiter opts = Limiter_null \<Longrightarrow> let_through opts ks w"
  by (induction ks arbitrary: w) (simp_all add: checkRateLimit_def resolveRateLimiter_def)

lemma limit_log:
  "checkRateLimit opts k (w\<lparr>w_log := l\<rparr>) = (case checkRateLimit opts k w of (x, w') \<Rightarrow> (x, w'\<lparr>w_log := l\<rparr>))"
  by (cases w; cases "op_rateLimiter opts")
    (auto simp: checkRateLimit_def resolveRateLimiter_def io_bind_def io_on_def split: prod.split sum.split)

text \<open>The default limiter lets a completion through when it has room for both identifiers.\<close>

lemma rl_check_clock: "rl_check cfg k s = (x, s') \<Longrightarrow> rl_clock s' = rl_clock s"
proof -
  have "rl_clock (snd (rl_hits cfg now ids t)) = rl_clock t" for now ids t
    by (induction ids arbitrary: t) (simp_all add: rl_hit_def case_prod_beta)
  moreover have "rl_clock (rl_prune cfg now t) = rl_clock t" for now t by (simp add: rl_prune_def)
  ultimately show "rl_check cfg k s = (x, s') \<Longrightarrow> rl_clock s' = rl_clock s"
    by (auto simp: rl_check_def Let_def split: if_splits prod.splits) (metis snd_conv)+
qed

definition has_room :: "mem_limiter \<Rightarrow> string \<Rightarrow> bool" where
  "has_room s i \<longleftrightarrow>
     (case jm_get (rl_windows s) i of
        None \<Rightarrow> True
      | Some win \<Rightarrow> elapsed default_limiter_config (rl_clock s) win \<or> rw_count win < 30)"

lemma room_allowed: "has_room s i \<Longrightarrow>
    rd_allowed (fst (rl_count default_limiter_config (rl_clock s) (jm_get (rl_windows s) i)))"
  by (auto simp: has_room_def rl_count_def default_limiter_config_def Let_def rl_allowed_def split: option.splits)

lemma default_lets_through:
  assumes o: "op_rateLimiter opts = Limiter_undefined" and ok: "jm_ok (rl_windows (w_default_limiter w))"
    and ip: "\<And>ip. vn_clientIp input = Some ip \<Longrightarrow> has_room (w_default_limiter w) (''complete:ip:'' @ ip)"
    and pk: "has_room (w_default_limiter w) (''complete:pubkey:'' @ pubkey)"
  shows "let_through opts (completion_keys input pubkey) w"
proof -
  let ?cfg = default_limiter_config and ?s = "w_default_limiter w"
  let ?f = "jm_get (rl_windows ?s)" and ?t = "rl_clock ?s"
  let ?k1 = "\<lparr>rk_scope = scope_complete, rk_npub = None, rk_pubkey = None, rk_clientIp = vn_clientIp input\<rparr>"
  let ?k2 = "\<lparr>rk_scope = scope_complete, rk_npub = None, rk_pubkey = Some pubkey, rk_clientIp = None\<rparr>"
  have a0: "agree ?cfg ?t ?s ?f" using ok by (simp add: agree_def)
  obtain s1 where s1: "rl_check ?cfg ?k1 ?s = (Inr (fst (spec_check ?cfg ?t ?k1 ?f)), s1)"
    "agree ?cfg ?t s1 (snd (spec_check ?cfg ?t ?k1 ?f))"
    using agree_check [OF a0, of ?k1] by auto
  have "s1\<lparr>rl_clock := ?t\<rparr> = s1" using rl_check_clock [OF s1(1)] by (cases s1) simp
  then obtain s2 where s2: "rl_check ?cfg ?k2 s1 = (Inr (fst (spec_check ?cfg ?t ?k2 (snd (spec_check ?cfg ?t ?k1 ?f)))), s2)"
    using agree_check [OF s1(2), of ?k2] by metis
  have 1: "rd_allowed (fst (spec_check ?cfg ?t ?k1 ?f))"
  proof (cases "truthy_str (vn_clientIp input)")
    case True
    then obtain ip where i: "vn_clientIp input = Some ip" "ip \<noteq> []"
      by (cases "vn_clientIp input") (auto simp: truthy_str_def)
    then show ?thesis using room_allowed [OF ip [OF i(1)]]
      by (auto simp: spec_check_def rl_identifiers_def scope_str_def truthy_str_def rl_worst_def rl_allowed_def
          split: prod.split)
  next
    case False
    then show ?thesis
      by (cases "vn_clientIp input")
        (auto simp: spec_check_def rl_identifiers_def scope_str_def truthy_str_def rl_worst_def rl_allowed_def)
  qed
  have "snd (spec_check ?cfg ?t ?k1 ?f) (''complete:pubkey:'' @ pubkey) = ?f (''complete:pubkey:'' @ pubkey)"
    by (auto simp: spec_check_def rl_identifiers_def scope_str_def truthy_str_def split: prod.split)
  then have 2: "rd_allowed (fst (spec_check ?cfg ?t ?k2 (snd (spec_check ?cfg ?t ?k1 ?f))))"
    using room_allowed [OF pk]
    by (auto simp: spec_check_def rl_identifiers_def scope_str_def truthy_str_def rl_worst_def rl_allowed_def
        split: prod.split)
  show ?thesis
    using 1 2 s1(1) s2 unfolding completion_keys_def through_Cons
    by (auto simp: checkRateLimit_def resolveRateLimiter_def o io_on_def io_bind_def)
qed

text \<open>What the two checks leave, from the state after the request was counted.\<close>

lemma completion_through:
  assumes "let_through opts (completion_keys input pubkey) w"
  obtains w2 w3 where
    "checkRateLimit opts \<lparr>rk_scope = scope_complete, rk_npub = None, rk_pubkey = None, rk_clientIp = vn_clientIp input\<rparr>
       (w\<lparr>w_log := l\<rparr>) = (Inr (Inr ()), w2)"
    "checkRateLimit opts \<lparr>rk_scope = scope_complete, rk_npub = None, rk_pubkey = Some pubkey, rk_clientIp = None\<rparr>
       w2 = (Inr (Inr ()), w3)"
    "w_challenges w2 = w_challenges w" "w_sessions w2 = w_sessions w" "w_acl w2 = w_acl w" "w_now w2 = w_now w"
    "w_challenges w3 = w_challenges w" "w_sessions w3 = w_sessions w" "w_acl w3 = w_acl w" "w_now w3 = w_now w"
proof -
  obtain v u where v: "checkRateLimit opts \<lparr>rk_scope = scope_complete, rk_npub = None, rk_pubkey = None,
        rk_clientIp = vn_clientIp input\<rparr> w = (Inr (Inr ()), v)"
    "checkRateLimit opts \<lparr>rk_scope = scope_complete, rk_npub = None, rk_pubkey = Some pubkey, rk_clientIp = None\<rparr> v
       = (Inr (Inr ()), u)"
    using assms unfolding completion_keys_def through_Cons by blast
  show thesis
    by (rule that [of "v\<lparr>w_log := l\<rparr>" "u\<lparr>w_log := l\<rparr>"])
      (use quietD [OF quiet_limit v(1)] quietD [OF quiet_limit v(2)] in \<open>simp_all add: limit_log v\<close>)
qed

text \<open>
  A proof that verifies, of a live issued challenge, by a principal the resolver allows, gets
  a session, when the stores answer: the challenge is found and redeemed, the session made.
\<close>

context nap_stores
begin

definition redeems :: "('cs, 'ss, 'as, 'rl) server_options \<Rightarrow> string \<Rightarrow> int \<Rightarrow> 'cs \<Rightarrow> bool" where
  "redeems opts k now s \<longleftrightarrow> (\<forall>ev y. \<exists>s'. co_redeem cops k (redeem_params opts ev y now) s = (Inr Redeemed, s'))"

definition creates :: "'ss \<Rightarrow> bool" where
  "creates s \<longleftrightarrow> (\<forall>r. fresh_session r \<longrightarrow> (\<exists>y s'. so_createForChallenge sops r s = (Inr y, s')))"

lemma settle_live:
  assumes st: "op_challengeStore opts = cops" and a: "audit_works opts"
    and r: "redeems opts (ch_challenge_id ch) now (w_challenges w)"
  shows "\<exists>w'. settle_challenge opts ch ev now y w = (Inr (Verify_ok y), w')"
proof -
  obtain s' where s': "co_redeem cops (ch_challenge_id ch) (redeem_params opts ev y now) (w_challenges w)
      = (Inr Redeemed, s')"
    using r unfolding redeems_def by blast
  then have r: "on_challenges (co_redeem cops (ch_challenge_id ch) (redeem_params opts ev y now)) w
      = (Inr Redeemed, w\<lparr>w_challenges := s'\<rparr>)"
    by (simp add: on_challenges_eq)
  obtain l where l: "logSuccess opts (Some [(''challenge_id'', JStr (ch_challenge_id ch)),
      (''session_id'', JStr (s_session_id y))]) (w\<lparr>w_challenges := s'\<rparr>)
      = (Inr (), w\<lparr>w_challenges := s', w_log := l\<rparr>)"
    using audit_total [OF a] unfolding logSuccess_def by blast
  show ?thesis by (simp add: settle_challenge_def st r l)
qed

lemma establish_live:
  assumes st: "op_challengeStore opts = cops" "op_sessionStore opts = sops" and a: "audit_works opts"
    and i: "redeems opts (ch_challenge_id ch) now (w_challenges w)" "creates (w_sessions w)"
  shows "\<exists>s w'. establish_session opts body ch ev now dec w = (Inr (Verify_ok s), w')"
proof -
  let ?m = "createSessionRecord ch now (clampTtlToDecision (or_else (op_sessionTtlSeconds opts) 900) (d_expires_at dec) now)
                (d_roles dec) (d_permissions dec)
                (if rq_step_up body then Some (or_else (op_stepUpTtlSeconds opts) 600) else None)
                (op_refreshTtlSeconds opts)"
  obtain r w1 where r: "?m w = (Inr r, w1)" using createSessionRecord_total by blast
  have w1: "w_challenges w1 = w_challenges w" "w_sessions w1 = w_sessions w"
    using quietD [OF quiet_createSession r] by simp_all
  have "fresh_session r" using createSessionRecord_value [OF r] by blast
  then obtain y t where "so_createForChallenge sops r (w_sessions w1) = (Inr y, t)"
    using i(2) w1 unfolding creates_def by metis
  then have y: "on_sess (so_createForChallenge sops r) w1 = (Inr y, w1\<lparr>w_sessions := t\<rparr>)"
    by (simp add: on_sess_eq)
  obtain w' where "settle_challenge opts ch ev now y (w1\<lparr>w_sessions := t\<rparr>) = (Inr (Verify_ok y), w')"
    using settle_live [OF st(1) a, of ch now "w1\<lparr>w_sessions := t\<rparr>"] i(1) w1 by auto
  then show ?thesis by (simp add: establish_session_def st r y)
qed

lemma complete_answered:
  assumes st: "op_challengeStore opts = cops" "op_sessionStore opts = sops"
    and a: "audit_works opts" and lim: "let_through opts (completion_keys input (ev_pubkey (vc_event vp))) w"
    and i: "cinv (w_challenges w)"
    and body: "parseAuthCompleteRequest (vn_rawBody input) = Some body"
    and vp: "verifyNip98Completion (op_platform opts) (completion_input input opts body (w_now w)) = Inr vp"
    and s1: "co_get cops (rq_challenge_id body) (w_challenges w) = (Inr (Some c), s1)"
    and adm: "admitted opts vp (w_now w) c" "ch_state c = issued"
    and live: "redeems opts (rq_challenge_id body) (w_now w) s1" "creates (w_sessions w)"
    and d: "op_aclResolver opts (ch_npub c) (ch_pubkey c)
        \<lparr>cx_voucher = rq_voucher body, cx_now = w_now w, cx_session = None\<rparr> (w_acl w) = (Inr d, as')"
      "d_allowed d"
  shows "\<exists>s w'. verifyCompletion input opts w = (Inr (Verify_ok s), w')"
proof -
  obtain l where "countTotal (op_log opts) auth_complete_total (w_log w) = (Inr (), l)"
    by (cases "lc_metrics (op_log opts)") (simp_all add: countTotal_def)
  then have 1: "count_total opts auth_complete_total w = (Inr (), w\<lparr>w_log := l\<rparr>)"
    by (simp add: count_total_def on_log_eq)
  obtain w2 w3 where 2: "checkRateLimit opts
        \<lparr>rk_scope = scope_complete, rk_npub = None, rk_pubkey = None, rk_clientIp = vn_clientIp input\<rparr>
       (w\<lparr>w_log := l\<rparr>) = (Inr (Inr ()), w2)"
    "checkRateLimit opts \<lparr>rk_scope = scope_complete, rk_npub = None, rk_pubkey = Some (ev_pubkey (vc_event vp)),
        rk_clientIp = None\<rparr> w2 = (Inr (Inr ()), w3)"
    and same: "w_now w2 = w_now w" "w_challenges w3 = w_challenges w" "w_sessions w3 = w_sessions w"
      "w_acl w3 = w_acl w" "w_now w3 = w_now w"
    by (rule completion_through [OF lim, of l]) metis
  have look: "look (w_challenges w) (rq_challenge_id body) = Some c" using cs.get_value [OF i s1] by simp
  have id: "vc_challengeId vp = rq_challenge_id body" "ch_challenge_id c = rq_challenge_id body"
    using vp cs.look_id [OF i look] by (simp_all add: verifyNip98Completion_Inr completion_input_def)
  let ?w1 = "w3\<lparr>w_challenges := s1\<rparr>"
  have 3: "on_challenges (co_get cops (rq_challenge_id body)) w3 = (Inr (Some c), ?w1)"
    using s1 same by (simp add: on_challenges_eq)
  have 4: "on_resolver (op_aclResolver opts (ch_npub c) (ch_pubkey c)
        \<lparr>cx_voucher = rq_voucher body, cx_now = w_now w, cx_session = None\<rparr>) ?w1 = (Inr d, ?w1\<lparr>w_acl := as'\<rparr>)"
    using d(1) same by (simp add: on_resolver_eq)
  have "\<exists>s w'. establish_session opts body c (vc_event vp) (w_now w) d (?w1\<lparr>w_acl := as'\<rparr>)
      = (Inr (Verify_ok s), w')"
    by (rule establish_live [OF st a]) (use live id same in simp_all)
  then obtain s w' where 5: "establish_session opts body c (vc_event vp) (w_now w) d (?w1\<lparr>w_acl := as'\<rparr>)
      = (Inr (Verify_ok s), w')" by blast
  have b: "validateChallengeBoundCreatedAt (ev_created_at (vc_event vp)) (ch_issued_at c)
                  (ch_expires_at c) (Some (or_else (op_lowerBoundGraceSeconds opts) 30))
                  (Some (or_else (op_upperBoundGraceSeconds opts) 5)) = Inr ()"
    using adm(1) by (simp add: challengeBound_Inr admitted_def)
  have "match_challenge opts body vp (w_now w) c ?w1 = (Inr (Verify_ok s), w')"
    using adm d(2) 4 5 b by (simp add: match_challenge_def admitted_def Let_def)
  then have "verifyCompletionUnpadded input opts w = (Inr (Verify_ok s), w')"
    using 1 2 3 id same by (simp add: verifyCompletionUnpadded_def body vp complete_proven_def st(1))
  then show ?thesis
    unfolding verifyCompletion_def using padded_run by metis
qed

end

text \<open>Over stores that do not fail the stores always answer.\<close>

locale eager_nap_stores =
  nap_stores cops look cinv sops sess sinv + ecs: eager_challenge_store cops look cinv
  for cops :: "'cs challenge_ops" and look and cinv
    and sops :: "'ss session_ops" and sess and sinv +
  assumes create_total: "\<lbrakk>sinv s; fresh_session r\<rbrakk> \<Longrightarrow> \<exists>y s'. so_createForChallenge sops r s = (Inr y, s')"
begin

lemma complete_live:
  assumes st: "op_challengeStore opts = cops" "op_sessionStore opts = sops"
    and a: "audit_works opts" and lim: "let_through opts (completion_keys input (ev_pubkey (vc_event vp))) w"
    and i: "cinv (w_challenges w)" "sinv (w_sessions w)"
    and body: "parseAuthCompleteRequest (vn_rawBody input) = Some body"
    and vp: "verifyNip98Completion (op_platform opts) (completion_input input opts body (w_now w)) = Inr vp"
    and c: "look (w_challenges w) (rq_challenge_id body) = Some c" "ch_state c = issued"
      "admitted opts vp (w_now w) c"
    and d: "op_aclResolver opts (ch_npub c) (ch_pubkey c)
        \<lparr>cx_voucher = rq_voucher body, cx_now = w_now w, cx_session = None\<rparr> (w_acl w) = (Inr d, as')"
      "d_allowed d"
  shows "\<exists>s w'. verifyCompletion input opts w = (Inr (Verify_ok s), w')"
proof -
  obtain s1 where s1: "co_get cops (rq_challenge_id body) (w_challenges w) = (Inr (Some c), s1)"
    using ecs.get_total [OF i(1), of "rq_challenge_id body"] c(1) by auto
  have i1: "cinv s1" "look s1 = look (w_challenges w)" using cs.get_frame [OF i(1) s1] by blast+
  have "redeems opts (rq_challenge_id body) (w_now w) s1"
    unfolding redeems_def
  proof (intro allI)
    fix ev y
    show "\<exists>s'. co_redeem cops (rq_challenge_id body) (redeem_params opts ev y (w_now w)) s1 = (Inr Redeemed, s')"
      using ecs.redeem_total [OF i1(1), of "rq_challenge_id body" c] i1(2) c
      by (simp add: admitted_def redeem_params_def)
  qed
  moreover have "creates (w_sessions w)" using create_total i(2) by (simp add: creates_def)
  ultimately show ?thesis
    using complete_answered [OF st a lim i(1) body vp s1 c(3,2) _ _ d] by blast
qed

end

section \<open>On the in-memory stores\<close>

interpretation memory: nap_stores mc_ops mc_look mc_inv ms_ops ms_sess ms_inv
  by unfold_locales

interpretation eager_memory: eager_nap_stores mc_ops mc_look mc_inv ms_ops ms_sess ms_inv
  by unfold_locales (simp add: ms_ops_def ms_createForChallenge_def Let_def split: option.split)

end
