(* ===== verification/StoreRuns.thy ===== *)
theory StoreRuns
  imports MemoryChallenges MemorySessions
begin

text \<open>
  Runs of the stores. A server shares its stores between every request it serves, so what a
  store promises has to survive any interleaving of the other operations. The steps below
  are the operations of \<open>ChallengeStore\<close> and \<open>SessionStore\<close> in any order and with any
  outcome, a thrown exception included; the lemmas say what every run keeps.
\<close>

section \<open>Runs of a challenge store\<close>

text \<open>Any operation, but for creating the challenge \<open>k\<close> again.\<close>

inductive challenge_step :: "'cs challenge_ops \<Rightarrow> string \<Rightarrow> 'cs \<Rightarrow> 'cs \<Rightarrow> bool"
  for ops :: "'cs challenge_ops" and k :: string where
  create: "\<lbrakk>ch_challenge_id r \<noteq> k; co_create ops r s = (xc, s')\<rbrakk> \<Longrightarrow> challenge_step ops k s s'"
| get: "co_get ops j s = (xg, s') \<Longrightarrow> challenge_step ops k s s'"
| redeem: "co_redeem ops j p s = (xr, s') \<Longrightarrow> challenge_step ops k s s'"
| markExpired: "co_markExpired ops now s = (xm, s') \<Longrightarrow> challenge_step ops k s s'"
| count: "\<lbrakk>co_countOutstanding ops = Some cnt; cnt f s = (xn, s')\<rbrakk> \<Longrightarrow> challenge_step ops k s s'"
| fail: "\<lbrakk>co_recordFailure ops = Some rf; rf j now m s = (xf, s')\<rbrakk> \<Longrightarrow> challenge_step ops k s s'"

inductive_cases challenge_stepE: "challenge_step ops k s s'"

abbreviation challenge_run :: "'cs challenge_ops \<Rightarrow> string \<Rightarrow> 'cs \<Rightarrow> 'cs \<Rightarrow> bool" where
  "challenge_run ops k \<equiv> (challenge_step ops k)\<^sup>*\<^sup>*"

context challenge_store
begin

lemma step_inv:
  assumes "challenge_step ops k s s'" and i: "inv s"
  shows "inv s'"
  using assms(1)
proof cases
  case (create r xc)
  then show ?thesis using create_inv [OF i] by blast
next
  case (get j xg)
  then show ?thesis using get_frame [OF i] by blast
next
  case (redeem j p xr)
  then show ?thesis using redeem_frame [OF i] by blast
next
  case (markExpired now xm)
  then show ?thesis using markExpired_frame [OF i] by blast
next
  case (count cnt f xn)
  then show ?thesis using count_frame [OF i] by blast
next
  case (fail rf j now m xf)
  then show ?thesis using fail_frame [OF i] by blast
qed

lemma movesD: "moves s s' \<Longrightarrow> look s' k = Some d \<Longrightarrow> \<exists>c. look s k = Some c \<and> evolves c d"
  unfolding moves_def by blast

lemma step_evolves:
  assumes "challenge_step ops k s s'" and i: "inv s" and d: "look s' k = Some d"
  shows "\<exists>c. look s k = Some c \<and> evolves c d"
  using assms(1)
proof cases
  case (create r xc)
  then have "look s k = Some d" using create_other [OF i create(2) create(1) [symmetric]] d by simp
  then show ?thesis by blast
next
  case (get j xg)
  then show ?thesis using movesD [OF moves_frame d] get_frame [OF i] by blast
next
  case (redeem j p xr)
  then show ?thesis using movesD [OF redeem_moves [OF i] d] by blast
next
  case (markExpired now xm)
  then show ?thesis using movesD [OF markExpired_moves [OF i] d] by blast
next
  case (count cnt f xn)
  then show ?thesis using movesD [OF moves_frame d] count_frame [OF i] by blast
next
  case (fail rf j now m xf)
  then show ?thesis using movesD [OF fail_moves [OF i] d] by blast
qed

lemma run_inv: "challenge_run ops k s s' \<Longrightarrow> inv s \<Longrightarrow> inv s'"
  by (induction rule: rtranclp_induct) (auto intro: step_inv)

text \<open>The record under \<open>k\<close> after a run is a later form of the one before.\<close>

lemma run_evolves:
  "challenge_run ops k s s' \<Longrightarrow> inv s \<Longrightarrow> look s' k = Some d \<Longrightarrow> \<exists>c. look s k = Some c \<and> evolves c d"
proof (induction arbitrary: d rule: rtranclp_induct)
  case (step y z)
  obtain e where e: "look y k = Some e" "evolves e d"
    using step_evolves [OF step.hyps(2) run_inv [OF step.hyps(1) step.prems(1)] step.prems(2)] by blast
  obtain c where "look s k = Some c" "evolves c e" using step.IH [OF step.prems(1) e(1)] by blast
  then show ?case using e(2) by (meson rtranclp_trans)
qed blast

lemma run_monotone:
  assumes "challenge_run ops k s s'" and "inv s" and "look s k = Some c" and "look s' k = Some d"
  shows "ch_state c \<le> ch_state d \<and> same_challenge c d
    \<and> (ch_state c \<noteq> issued \<longrightarrow> ch_state d \<noteq> issued \<and> redemption d = redemption c)"
proof -
  have e: "evolves c d" using run_evolves [OF assms(1,2,4)] assms(3) by simp
  show ?thesis
    using evolves_mono [OF e] evolves_same [OF e] evolves_redemption [OF e] evolves_left_issued [OF e] by blast
qed

lemma redeemed_forever:
  assumes i: "inv s" and r1: "co_redeem ops k p s = (Inr Redeemed, s1)"
    and run: "challenge_run ops k s1 s2" and r2: "co_redeem ops k q s2 = (y, s3)"
  shows "y \<noteq> Inr Redeemed"
proof
  assume "y = Inr Redeemed"
  have i1: "inv s1" using redeem_frame [OF i r1] by blast
  obtain d where d: "look s2 k = Some d" "ch_state d = issued"
    using redeem_Redeemed [OF run_inv [OF run i1]] r2 \<open>y = Inr Redeemed\<close> by blast
  obtain c where c: "look s1 k = Some (redeemed_record c p)"
    using redeem_Redeemed [OF i r1] by blast
  have "ch_state d \<noteq> issued"
    using run_monotone [OF run i1 c d(1)] by (simp add: redeemed_record_def)
  then show False using d(2) by simp
qed

end

section \<open>Runs of a session store\<close>

text \<open>
  Any operation, at times other than 0, that does not create a session under the id \<open>k\<close> or
  under an id the store holds, and does not rotate in the token \<open>t\<close> or the empty token.
\<close>

inductive session_step ::
  "'ss session_ops \<Rightarrow> ('ss \<Rightarrow> string set) \<Rightarrow> string \<Rightarrow> string \<Rightarrow> 'ss \<Rightarrow> 'ss \<Rightarrow> bool"
  for ops :: "'ss session_ops" and ids :: "'ss \<Rightarrow> string set" and k :: string and t :: string where
  create: "\<lbrakk>fresh_session r; s_session_id r \<notin> ids s; s_session_id r \<noteq> k;
     so_createForChallenge ops r s = (xc, s')\<rbrakk> \<Longrightarrow> session_step ops ids k t s s'"
| by_id: "so_getBySessionId ops j s = (xi, s') \<Longrightarrow> session_step ops ids k t s s'"
| by_token: "so_getByAccessToken ops a s = (xt, s') \<Longrightarrow> session_step ops ids k t s s'"
| revoke: "\<lbrakk>now \<noteq> 0; so_revokeBySessionId ops j now s = (xv, s')\<rbrakk> \<Longrightarrow> session_step ops ids k t s s'"
| principal: "\<lbrakk>now \<noteq> 0; so_revokeByPrincipal ops pk now s = (xp, s')\<rbrakk> \<Longrightarrow> session_step ops ids k t s s'"
| by_refresh: "\<lbrakk>so_getByRefreshToken ops = Some g; g a s = (xf, s')\<rbrakk> \<Longrightarrow> session_step ops ids k t s s'"
| rotate: "\<lbrakk>so_rotateRefreshToken ops = Some rot; rt_refreshToken p \<noteq> []; rt_refreshToken p \<noteq> t;
     rot j p s = (xr, s')\<rbrakk> \<Longrightarrow> session_step ops ids k t s s'"

inductive_cases session_stepE: "session_step ops ids k t s s'"

abbreviation session_run ::
  "'ss session_ops \<Rightarrow> ('ss \<Rightarrow> string set) \<Rightarrow> string \<Rightarrow> string \<Rightarrow> 'ss \<Rightarrow> 'ss \<Rightarrow> bool" where
  "session_run ops ids k t \<equiv> (session_step ops ids k t)\<^sup>*\<^sup>*"

context session_store
begin

abbreviation (input) held :: "'ss \<Rightarrow> string set" where
  "held s \<equiv> s_session_id ` sess s"

lemma session_step_inv:
  assumes "session_step ops held k t s s'" and i: "inv s"
  shows "inv s'"
  using assms(1)
proof cases
  case (create r xc)
  then show ?thesis using create_inv [OF i create(1) _ create(4)] by blast
next
  case (by_id j xi)
  then show ?thesis using id_frame [OF i] by blast
next
  case (by_token a xt)
  then show ?thesis using token_frame [OF i] by blast
next
  case (revoke now j xv)
  then show ?thesis using revoke_frame [OF i] by blast
next
  case (principal now pk xp)
  then show ?thesis using principal_frame [OF i] by blast
next
  case (by_refresh g a xf)
  then show ?thesis using refresh_frame [OF i] by blast
next
  case (rotate rot p j xr)
  then show ?thesis using rotate_frame [OF i rotate(1,2,4)] by blast
qed

text \<open>What the store holds under \<open>k\<close> after a step is a later version of what it held.\<close>

lemma session_step_succeeds:
  assumes "session_step ops held k t s s'" and i: "inv s" and y: "y \<in> sess s'" "s_session_id y = k"
  shows "\<exists>x\<in>sess s. succeeds x y"
  using assms(1)
proof cases
  case (create r xc)
  then have "y \<in> sess s" using create_sess [OF i create(1,4)] y by blast
  then show ?thesis by blast
next
  case (by_id j xi)
  then show ?thesis using id_frame [OF i] y(1) by blast
next
  case (by_token a xt)
  then show ?thesis using token_frame [OF i] y(1) by blast
next
  case (revoke now j xv)
  then show ?thesis using revoke_frame [OF i] y(1) by blast
next
  case (principal now pk xp)
  then show ?thesis using principal_frame [OF i] y(1) by blast
next
  case (by_refresh g a xf)
  then show ?thesis using refresh_frame [OF i] y(1) by blast
next
  case (rotate rot p j xr)
  then show ?thesis using rotate_frame [OF i rotate(1,2,4)] y(1) by blast
qed

lemma session_run_inv: "session_run ops held k t s s' \<Longrightarrow> inv s \<Longrightarrow> inv s'"
  by (induction rule: rtranclp_induct) (auto intro: session_step_inv)

lemma session_run_succeeds:
  "session_run ops held k t s s' \<Longrightarrow> inv s \<Longrightarrow> y \<in> sess s' \<Longrightarrow> s_session_id y = k
   \<Longrightarrow> \<exists>x\<in>sess s. succeeds x y"
proof (induction arbitrary: y rule: rtranclp_induct)
  case (step u v)
  obtain x where x: "x \<in> sess u" "succeeds x y"
    using session_step_succeeds [OF step.hyps(2) session_run_inv [OF step.hyps(1) step.prems(1)]
        step.prems(2,3)] by blast
  have "s_session_id x = k" using x(2) step.prems(3) by (simp add: succeeds_def)
  then show ?case using step.IH [OF step.prems(1) x(1)] x(2) succeeds_trans by blast
qed auto

text \<open>A revoked session stays revoked along every run.\<close>

lemma revoked_forever:
  assumes i: "inv s" and now: "now \<noteq> 0" and r: "so_revokeBySessionId ops k now s = (Inr (), s1)"
    and run: "session_run ops held k [] s1 s2"
    and g: "so_getByAccessToken ops a s2 = (Inr (Some y), s3)" and y: "s_session_id y = k"
  shows "truthy_num (s_revoked_at y)"
proof -
  have i1: "inv s1" using revoke_frame [OF i now r] by blast
  have i2: "inv s2" by (rule session_run_inv [OF run i1])
  have i3: "inv s3" "y \<in> sess s3" "y \<in> sess s2"
    using token_frame [OF i2 g] token_value [OF i2 g] by blast+
  obtain x where x: "x \<in> sess s1" "succeeds x y"
    using session_run_succeeds [OF run i1 i3(3) y] by blast
  have "s_revoked_at x \<noteq> None"
    using revoke_done [OF i now r x(1)] x(2) y by (simp add: succeeds_def)
  then have "s_revoked_at y \<noteq> None" using x(2) by (simp add: succeeds_def)
  then show ?thesis using revoked_nonzero [OF i3(1,2)] by (simp add: truthy_num_def)
qed

end

section \<open>A spent refresh token\<close>

text \<open>
  A store that changes the refresh token of a session in no operation but its rotation: a
  token that was rotated away is not current again unless it is issued again.
\<close>

locale rotating_session_store = session_store ops sess inv
  for ops :: "'ss session_ops" and sess :: "'ss \<Rightarrow> SessionRecord set" and inv :: "'ss \<Rightarrow> bool" +
  assumes revoke_token: "\<lbrakk>inv s; so_revokeBySessionId ops j now s = (xv, s'); y \<in> sess s'\<rbrakk>
      \<Longrightarrow> \<exists>x\<in>sess s. s_session_id y = s_session_id x \<and> s_refresh_token y = s_refresh_token x"
    and principal_token: "\<lbrakk>inv s; so_revokeByPrincipal ops pk now s = (xp, s'); y \<in> sess s'\<rbrakk>
      \<Longrightarrow> \<exists>x\<in>sess s. s_session_id y = s_session_id x \<and> s_refresh_token y = s_refresh_token x"
    and rotate_token: "\<lbrakk>inv s; so_rotateRefreshToken ops = Some rot; rot j p s = (xr, s'); y \<in> sess s'\<rbrakk>
      \<Longrightarrow> (\<exists>x\<in>sess s. s_session_id y = s_session_id x \<and> s_refresh_token y = s_refresh_token x)
        \<or> s_refresh_token y = Some (rt_refreshToken p)"
begin

definition spent :: "string \<Rightarrow> string \<Rightarrow> 'ss \<Rightarrow> bool" where
  "spent k t s \<longleftrightarrow> (\<forall>y\<in>sess s. s_session_id y = k \<longrightarrow> s_refresh_token y \<noteq> Some t)"

lemma spent_step:
  assumes "session_step ops held k t s s'" and i: "inv s" and sp: "spent k t s"
  shows "spent k t s'"
  using assms(1)
proof cases
  case (create r xc)
  then show ?thesis using create_sess [OF i create(1,4)] sp unfolding spent_def by blast
next
  case (by_id j xi)
  then show ?thesis using id_frame [OF i] sp unfolding spent_def by blast
next
  case (by_token a xt)
  then show ?thesis using token_frame [OF i] sp unfolding spent_def by blast
next
  case (revoke now j xv)
  then show ?thesis using revoke_token [OF i revoke(2)] sp unfolding spent_def by metis
next
  case (principal now pk xp)
  then show ?thesis using principal_token [OF i principal(2)] sp unfolding spent_def by metis
next
  case (by_refresh g a xf)
  then show ?thesis using refresh_frame [OF i] sp unfolding spent_def by blast
next
  case (rotate rot p j xr)
  then show ?thesis using rotate_token [OF i rotate(1,4)] sp unfolding spent_def by (metis option.inject)
qed

lemma spent_run: "session_run ops held k t s s' \<Longrightarrow> inv s \<Longrightarrow> spent k t s \<Longrightarrow> spent k t s'"
  by (induction rule: rtranclp_induct) (auto intro: spent_step session_run_inv)

lemma rotate_once_ever:
  assumes i: "inv s" and rot: "so_rotateRefreshToken ops = Some rot"
    and n: "rt_refreshToken p \<noteq> []" "rt_refreshToken q \<noteq> []"
    and r1: "rot k p s = (Inr (Some y), s1)" and new: "rt_refreshToken p \<noteq> rt_expectedRefreshToken p"
    and run: "session_run ops held k (rt_expectedRefreshToken p) s1 s2"
    and r2: "rot k q s2 = (Inr z, s3)" and same: "rt_expectedRefreshToken q = rt_expectedRefreshToken p"
  shows "z = None"
proof (rule ccontr)
  assume "z \<noteq> None"
  then obtain u where z: "z = Some u" by blast
  have i1: "inv s1" using rotate_frame [OF i rot n(1) r1] by blast
  have i2: "inv s2" by (rule session_run_inv [OF run i1])
  have y: "y \<in> sess s1" "s_session_id y = k" "s_refresh_token y = Some (rt_refreshToken p)"
    using rotate_value [OF i rot n(1) r1] by (auto simp: rotated_def)
  have "spent k (rt_expectedRefreshToken p) s1"
    unfolding spent_def using one_per_id [OF i1 y(1)] y(2,3) new by (metis option.inject)
  then have "spent k (rt_expectedRefreshToken p) s2" by (rule spent_run [OF run i1])
  then show False
    using rotate_value [OF i2 rot n(2) r2 [unfolded z]] same unfolding spent_def by metis
qed

end

lemma ms_write_token:
  assumes "a < length (ms_heap s)" and "s_session_id x = s_session_id (deref s a)"
    and "s_refresh_token x = s_refresh_token (deref s a)"
  shows "s_session_id (deref (ms_write a x s) b) = s_session_id (deref s b)
    \<and> s_refresh_token (deref (ms_write a x s) b) = s_refresh_token (deref s b)"
  using assms by (cases "b = a") (simp_all add: ms_write_def)

lemma ms_revoke_fold_token:
  "\<lbrakk>\<forall>e\<in>set es. snd e < length (ms_heap s); fold (ms_revoke_entry pk now) es (n, s) = (m, s')\<rbrakk> \<Longrightarrow>
   ms_byId s' = ms_byId s \<and> (\<forall>b. s_session_id (deref s' b) = s_session_id (deref s b)
     \<and> s_refresh_token (deref s' b) = s_refresh_token (deref s b))"
proof (induction es arbitrary: n s)
  case (Cons e es)
  let ?x = "(deref s (snd e))\<lparr>s_revoked_at := Some now\<rparr>" and ?w = "ms_write (snd e)"
  have a: "snd e < length (ms_heap s)" using Cons.prems(1) by simp
  consider "ms_revoke_entry pk now e (n, s) = (n, s)"
    | "ms_revoke_entry pk now e (n, s) = (n + 1, ?w ?x s)"
    unfolding ms_revoke_entry_def Let_def by (cases "s_principal_pubkey (deref s (snd e)) = pk
        \<and> \<not> truthy_num (s_revoked_at (deref s (snd e)))") simp_all
  then show ?case
  proof cases
    case 1
    then show ?thesis using Cons.IH [of s n] Cons.prems by simp
  next
    case 2
    then have "ms_byId s' = ms_byId (?w ?x s) \<and> (\<forall>b. s_session_id (deref s' b) = s_session_id (deref (?w ?x s) b)
        \<and> s_refresh_token (deref s' b) = s_refresh_token (deref (?w ?x s) b))"
      using Cons.IH [of "?w ?x s" "n + 1"] Cons.prems by (simp add: ms_write_def)
    then show ?thesis using ms_write_token [OF a, of ?x] by (simp add: ms_write_def)
  qed
qed simp

lemma ms_sess_same:
  assumes "ms_byId s' = ms_byId s" and "y \<in> ms_sess s'"
    and "\<And>b. s_session_id (deref s' b) = s_session_id (deref s b) \<and> s_refresh_token (deref s' b) = s_refresh_token (deref s b)"
  shows "\<exists>x\<in>ms_sess s. s_session_id y = s_session_id x \<and> s_refresh_token y = s_refresh_token x"
proof -
  obtain j b where "jm_get (ms_byId s) j = Some b" "y = deref s' b"
    using assms(1,2) by (auto simp: ms_sess_def)
  then show ?thesis using assms(3) [of b] by (auto simp: ms_sess_def)
qed

interpretation ms_rotating: rotating_session_store ms_ops ms_sess ms_inv
proof unfold_locales
  fix s s' :: mem_sessions and j now x y
  assume i: "ms_inv s" and r: "so_revokeBySessionId ms_ops j now s = (x, s')" and y: "y \<in> ms_sess s'"
  have "ms_byId s' = ms_byId s \<and> (\<forall>b. s_session_id (deref s' b) = s_session_id (deref s b)
      \<and> s_refresh_token (deref s' b) = s_refresh_token (deref s b))"
  proof (cases "jm_get (ms_byId s) j")
    case (Some a)
    then show ?thesis
      using r ms_write_token [OF ms_invD(2) [OF i Some], of "(deref s a)\<lparr>s_revoked_at := Some now\<rparr>"]
      by (auto simp: ms_ops_def ms_revokeBySessionId_def)
  qed (use r in \<open>simp add: ms_ops_def ms_revokeBySessionId_def\<close>)
  then show "\<exists>x\<in>ms_sess s. s_session_id y = s_session_id x \<and> s_refresh_token y = s_refresh_token x"
    using ms_sess_same [OF _ y, of s] by blast
next
  fix s s' :: mem_sessions and pk now x y
  assume i: "ms_inv s" and r: "so_revokeByPrincipal ms_ops pk now s = (x, s')" and y: "y \<in> ms_sess s'"
  obtain m where f: "fold (ms_revoke_entry pk now) (ms_byId s) (0, s) = (m, s')"
    using r by (auto simp: ms_ops_def ms_revokeByPrincipal_def split: prod.splits)
  have "\<forall>e\<in>set (ms_byId s). snd e < length (ms_heap s)"
    using ms_entries [OF i] ms_invD(2) [OF i] by blast
  from ms_revoke_fold_token [OF this f]
  show "\<exists>x\<in>ms_sess s. s_session_id y = s_session_id x \<and> s_refresh_token y = s_refresh_token x"
    using ms_sess_same [OF _ y, of s] by blast
next
  fix s s' :: mem_sessions and rot p j x y
  assume i: "ms_inv s" and o: "so_rotateRefreshToken ms_ops = Some rot" and c: "rot j p s = (x, s')"
    and y: "y \<in> ms_sess s'"
  have "ms_rotateRefreshToken j p s = (x, s')" using o c by (simp add: ms_ops_def)
  then show "(\<exists>x\<in>ms_sess s. s_session_id y = s_session_id x \<and> s_refresh_token y = s_refresh_token x)
      \<or> s_refresh_token y = Some (rt_refreshToken p)"
  proof (rule ms_rotate_cases)
    fix a assume a: "jm_get (ms_byId s) j = Some a" "s' = ms_rotate_to a p s"
    obtain k b where b: "jm_get (ms_byId s) k = Some b" "y = deref s' b"
      using y by (auto simp: a(2) ms_sess_def ms_rotate_to_sel)
    then show ?thesis
      using ms_rotate_to_sel(4) [OF ms_invD(2) [OF i a(1)], of p b] a(2)
      by (auto simp: ms_sess_def rotated_def)
  qed (use y in auto)
qed

end
