(* ===== verification/LoginRuns.thy ===== *)
theory LoginRuns
  imports CompleteSound StoreRuns
begin

text \<open>
  Logins and what happens between them. A challenge answers one event with one session,
  whatever the stores went through in between; and a client that lost the answer and sends
  the same event again gets the same session back.
\<close>

section \<open>One session per challenge\<close>

context nap_stores
begin

lemma complete_once_run:
  assumes st: "op_challengeStore opts = cops" "op_sessionStore opts = sops"
    and rd: "ready w" and r1: "verifyCompletion i1 opts w = (Inr (Verify_ok s1), w1)"
    and m: "challenge_run cops (s_challenge_id s1) (w_challenges w1) (w_challenges w2)" and rd2: "ready w2"
    and r2: "verifyCompletion i2 opts w2 = (Inr (Verify_ok s2), w3)"
    and same: "s_challenge_id s2 = s_challenge_id s1"
  shows "s_session_id s2 = s_session_id s1
    \<and> (\<exists>e. settled w1 (s_challenge_id s1) e s1 \<and> settled w3 (s_challenge_id s1) e s2)"
proof -
  let ?k = "s_challenge_id s1"
  obtain e1 e2 where e: "settled w1 ?k e1 s1" "settled w3 ?k e2 s2"
    using complete_sound [OF st rd r1] complete_sound [OF st rd2 r2] same
    unfolding granted_def settled_def by metis
  obtain d1 where d1: "look (w_challenges w1) ?k = Some d1" "ch_state d1 \<noteq> issued"
    "ch_redeemed_session_id d1 = Some (s_session_id s1)" "ch_redeemed_event_id d1 = Some e1"
    using e(1) by (auto simp: settled_def)
  obtain d3 where d3: "look (w_challenges w3) ?k = Some d3"
    "ch_redeemed_session_id d3 = Some (s_session_id s2)" "ch_redeemed_event_id d3 = Some e2"
    using e(2) by (auto simp: settled_def)
  have i1: "cinv (w_challenges w1)" using leads_parts(1) [OF complete_leads [OF st rd r1]] .
  obtain d2 where d2: "look (w_challenges w2) ?k = Some d2" "evolves d2 d3"
    using cs.movesD [OF leads_parts(4) [OF complete_leads [OF st rd2 r2]] d3(1)] by blast
  obtain c where "look (w_challenges w1) ?k = Some c" "evolves c d2"
    using cs.run_evolves [OF m i1 d2(1)] by blast
  then have "evolves d1 d3" using d1(1) d2(2) by (metis option.inject rtranclp_trans)
  then have "redemption d3 = redemption d1" using evolves_redemption d1(2) by blast
  then show ?thesis using d1 d3 e by (auto simp: redemption_def)
qed

end

section \<open>A lost answer\<close>

text \<open>The session of a challenge is found again, and the record made for the retry discarded.\<close>

lemma ms_create_again:
  assumes i: "ms_inv s" and y: "y \<in> ms_sess s" and live: "ms_clock s \<le> ms_retainUntil y"
    and c: "s_challenge_id r = s_challenge_id y"
  shows "\<exists>s'. ms_createForChallenge r s = (Inr y, s') \<and> ms_getBySessionId (s_session_id y) s' = (Inr (Some y), s')"
proof -
  let ?s = "ms_sweep (ms_clock s) s"
  have iw: "ms_inv ?s" by (rule ms_sweep_facts(1) [OF i])
  have "y \<in> ms_sess ?s" by (rule ms_sweep_keeps [OF i y live])
  then obtain k a where a: "jm_get (ms_byId ?s) k = Some a" "y = deref ?s a" by (auto simp: ms_sess_def)
  have "jm_get (ms_byChallengeId ?s) (s_challenge_id y) = Some a" "s_session_id y = k"
    using ms_invD(3,4) [OF iw a(1)] a(2) by simp_all
  then show ?thesis
    using a c by (simp add: ms_createForChallenge_def ms_getBySessionId_def Let_def)
qed

lemma mc_redeem_again:
  assumes "mc_look s k = Some c" and "ch_state c = redeemed" and "\<not> ch_expires_at c < rp_now p"
  shows "mc_redeem k p s = (Inr Already_redeemed, s)"
  using assms by (simp add: mc_redeem_def mc_look_def)

lemma retry_establishes:
  assumes st: "op_challengeStore opts = mc_ops" "op_sessionStore opts = ms_ops" and a: "audit_works opts"
    and i: "ms_inv (w_sessions w)" and k: "ch_challenge_id c = k"
    and c: "mc_look (w_challenges w) k = Some c" "ch_state c = redeemed" "\<not> ch_expires_at c < now"
    and hit: "retry_hit (Some c) ev now = Some (s_session_id y)"
    and y: "y \<in> ms_sess (w_sessions w)" "s_challenge_id y = k" "ms_clock (w_sessions w) \<le> ms_retainUntil y"
  shows "\<exists>w'. establish_session opts body c ev now dec w = (Inr (Verify_ok y), w') \<and> w_challenges w' = w_challenges w"
proof -
  let ?m = "createSessionRecord c now (clampTtlToDecision (or_else (op_sessionTtlSeconds opts) 900) (d_expires_at dec) now)
                (d_roles dec) (d_permissions dec)
                (if rq_step_up body then Some (or_else (op_stepUpTtlSeconds opts) 600) else None)
                (op_refreshTtlSeconds opts)"
  obtain r w1 where r: "?m w = (Inr r, w1)" using createSessionRecord_total by blast
  have w1: "w_challenges w1 = w_challenges w" "w_sessions w1 = w_sessions w"
    using quietD [OF quiet_createSession r] by simp_all
  have "s_challenge_id r = k" using createSessionRecord_value [OF r] k by blast
  then obtain t where t: "ms_createForChallenge r (w_sessions w) = (Inr y, t)"
    "ms_getBySessionId (s_session_id y) t = (Inr (Some y), t)"
    using ms_create_again [OF i y(1,3), of r] y(2) by auto
  let ?w2 = "w1\<lparr>w_sessions := t\<rparr>"
  have 1: "on_sess (so_createForChallenge ms_ops r) w1 = (Inr y, ?w2)"
    using t(1) w1 by (simp add: on_sess_eq ms_ops_def)
  have 2: "on_challenges (co_redeem mc_ops k (redeem_params opts ev y now)) ?w2 = (Inr Already_redeemed, ?w2)"
    using mc_redeem_again [OF c(1,2)] c(3) w1
    by (simp add: on_challenges_eq mc_ops_def redeem_params_def)
  have 3: "on_challenges (co_get mc_ops k) ?w2 = (Inr (Some c), ?w2)"
    using c(1) w1 by (simp add: on_challenges_eq mc_ops_def mc_get_def mc_look_def)
  have 4: "on_sess (so_getBySessionId ms_ops (s_session_id y)) ?w2 = (Inr (Some y), ?w2)"
    using t(2) by (simp add: on_sess_eq ms_ops_def)
  obtain l where l: "logSuccess opts (Some [(''challenge_id'', JStr k), (''session_id'', JStr (s_session_id y)),
      (''retry'', JBool True)]) ?w2 = (Inr (), ?w2\<lparr>w_log := l\<rparr>)"
    using audit_total [OF a] unfolding logSuccess_def by blast
  have "answer_redeemed opts c ev now ?w2 = (Inr (Verify_ok y), ?w2\<lparr>w_log := l\<rparr>)"
    using 3 4 l hit by (simp add: answer_redeemed_def st k)
  then have "settle_challenge opts c ev now y ?w2 = (Inr (Verify_ok y), ?w2\<lparr>w_log := l\<rparr>)"
    using 2 by (simp add: settle_challenge_def st k)
  then show ?thesis using r 1 w1 by (simp add: establish_session_def st)
qed

text \<open>The completion sent again inside the cache window.\<close>

lemma retry_live:
  assumes st: "op_challengeStore opts = mc_ops" "op_sessionStore opts = ms_ops"
    and a: "audit_works opts" and lim: "let_through opts (completion_keys input (ev_pubkey (vc_event vp))) w"
    and i: "mc_inv (w_challenges w)" "ms_inv (w_sessions w)"
    and body: "parseAuthCompleteRequest (vn_rawBody input) = Some body"
    and vp: "verifyNip98Completion (op_platform opts) (completion_input input opts body (w_now w)) = Inr vp"
    and c: "mc_look (w_challenges w) (rq_challenge_id body) = Some c" "ch_state c = redeemed"
      "memory.admitted opts vp (w_now w) c"
    and hit: "retry_hit (Some c) (vc_event vp) (w_now w) = Some (s_session_id y)"
    and y: "y \<in> ms_sess (w_sessions w)" "s_challenge_id y = rq_challenge_id body"
      "ms_clock (w_sessions w) \<le> ms_retainUntil y"
    and d: "op_aclResolver opts (ch_npub c) (ch_pubkey c)
        \<lparr>cx_voucher = rq_voucher body, cx_now = w_now w, cx_session = None\<rparr> (w_acl w) = (Inr d, as')"
      "d_allowed d"
  shows "\<exists>w'. verifyCompletion input opts w = (Inr (Verify_ok y), w') \<and> w_challenges w' = w_challenges w"
proof -
  obtain l where "countTotal (op_log opts) auth_complete_total (w_log w) = (Inr (), l)"
    by (cases "lc_metrics (op_log opts)") (simp_all add: countTotal_def)
  then have 1: "count_total opts auth_complete_total w = (Inr (), w\<lparr>w_log := l\<rparr>)"
    by (simp add: count_total_def on_log_eq)
  obtain w2 w3 where 2: "checkRateLimit opts
        \<lparr>rk_scope = scope_complete, rk_npub = None, rk_pubkey = None, rk_clientIp = vn_clientIp input\<rparr>
       (w\<lparr>w_log := l\<rparr>) = (Inr (Inr ()), w2)"
    "checkRateLimit opts \<lparr>rk_scope = scope_complete, rk_npub = None, rk_pubkey = Some (ev_pubkey (vc_event vp)),
        rk_clientIp = None\<rparr> w2 = (Inr (Inr ()), w3)"
    and same: "w_now w2 = w_now w" "w_challenges w3 = w_challenges w" "w_sessions w3 = w_sessions w"
      "w_acl w3 = w_acl w" "w_now w3 = w_now w"
    by (rule completion_through [OF lim, of l]) metis
  have id: "vc_challengeId vp = rq_challenge_id body" "ch_challenge_id c = rq_challenge_id body"
    using vp mc.look_id [OF i(1) c(1)] by (simp_all add: verifyNip98Completion_Inr completion_input_def)
  let ?w1 = w3
  have 3: "on_challenges (co_get mc_ops (rq_challenge_id body)) ?w1 = (Inr (Some c), ?w1)"
    using c(1) same by (simp add: on_challenges_eq mc_ops_def mc_get_def mc_look_def)
  have 4: "on_resolver (op_aclResolver opts (ch_npub c) (ch_pubkey c)
        \<lparr>cx_voucher = rq_voucher body, cx_now = w_now w, cx_session = None\<rparr>) ?w1 = (Inr d, ?w1\<lparr>w_acl := as'\<rparr>)"
    using d(1) same by (simp add: on_resolver_eq)
  have "\<exists>w'. establish_session opts body c (vc_event vp) (w_now w) d (?w1\<lparr>w_acl := as'\<rparr>)
      = (Inr (Verify_ok y), w') \<and> w_challenges w' = w_challenges (?w1\<lparr>w_acl := as'\<rparr>)"
    by (rule retry_establishes [OF st a _ id(2) _ c(2) _ hit _ y(2)])
      (use i c y same in \<open>simp_all add: memory.admitted_def\<close>)
  then obtain w' where 5: "establish_session opts body c (vc_event vp) (w_now w) d (?w1\<lparr>w_acl := as'\<rparr>)
      = (Inr (Verify_ok y), w')" "w_challenges w' = w_challenges w" using same by auto
  have b: "validateChallengeBoundCreatedAt (ev_created_at (vc_event vp)) (ch_issued_at c)
                  (ch_expires_at c) (Some (or_else (op_lowerBoundGraceSeconds opts) 30))
                  (Some (or_else (op_upperBoundGraceSeconds opts) 5)) = Inr ()"
    using c(3) by (simp add: challengeBound_Inr memory.admitted_def)
  have "match_challenge opts body vp (w_now w) c ?w1 = (Inr (Verify_ok y), w')"
    using c(2,3) d(2) 4 5 b by (simp add: match_challenge_def memory.admitted_def Let_def)
  then have "verifyCompletionUnpadded input opts w = (Inr (Verify_ok y), w')"
    using 1 2 3 id same by (simp add: verifyCompletionUnpadded_def body vp complete_proven_def st(1))
  then obtain w2 where "verifyCompletion input opts w = (Inr (Verify_ok y), w2)" "same_but_time w' w2"
    unfolding verifyCompletion_def using padded_run by metis
  then show ?thesis using same_but_timeD 5(2) by metis
qed

end
