(* ===== verification/Scenario.thy ===== *)
theory Scenario
  imports HeaderFacts ExpressFacts LoginRuns
begin

text \<open>
  One concrete deployment, on which the theorems are exercised: the in-memory stores, a
  registry with one role, reliable loggers, the default rate limiter, an application on
  \<open>https://a\<close>. The key \<open>p\<close> holds a challenge issued at 100; its completion, the guarded
  requests and the refresh that follow are evaluated by the kernel.
\<close>

section \<open>The deployment\<close>

definition scen_platform :: platform where
  "scen_platform = \<lparr>pf_sha256 = (\<lambda>_. [7]), pf_verifyEvent = (\<lambda>ev. ev_sig ev = ''good''),
     pf_nip19_decode = (\<lambda>s. if starts_with s ''npub1'' then Some (''npub'', JStr (drop 5 s)) else None),
     pf_url_toString = Some\<rparr>"

definition scen_registry :: PermissionRegistry where
  "scen_registry = \<lparr>pr_appId = ''app'',
     pr_permissions = [\<lparr>pd_key = ''read'', pd_description = [], pd_stepUp = False\<rparr>,
                       \<lparr>pd_key = ''pay'', pd_description = [], pd_stepUp = True\<rparr>],
     pr_roles = [\<lparr>ro_key = ''member'', ro_description = [], ro_permissions = [''read'', ''pay'']\<rparr>],
     pr_defaultRole = ''member''\<rparr>"

definition scen_log :: log_config where
  "scen_log = \<lparr>lc_auditLogger = Some (\<lambda>_ _. False), lc_metrics = Some (\<lambda>_ _. False)\<rparr>"

definition scen_opts :: "(mem_challenges, mem_sessions, mem_acl, mem_limiter) server_options" where
  "scen_opts =
     \<lparr>op_platform = scen_platform, op_challengeStore = mc_ops, op_sessionStore = ms_ops,
      op_aclResolver = registry_resolve scen_registry ma_ops True, op_log = scen_log,
      op_rateLimiter = Limiter_null, op_challengeTtlSeconds = None, op_sessionTtlSeconds = None,
      op_resultCacheTtlSeconds = None, op_maxClockSkewSeconds = None, op_lowerBoundGraceSeconds = None,
      op_upperBoundGraceSeconds = None, op_stepUpTtlSeconds = None, op_refreshTtlSeconds = Some 3600,
      op_maxSessionLifetimeSeconds = Some 7200, op_supportedExtensions = None,
      op_maxOutstandingChallengesPerNpub = None, op_maxOutstandingChallengesPerIp = None,
      op_maxFailuresPerChallenge = None, op_minAuthResponseMillis = None,
      op_responseJitterMillis = None\<rparr>"

definition scen_challenge :: ChallengeRecord where
  "scen_challenge =
     new_challenge \<lparr>ii_npub = ''npub1p'', ii_authUrl = ''https://a/auth/complete'',
                     ii_authMethod = Some ''POST'', ii_clientIp = None\<rparr> ''c'' ''x'' ''p'' 100 60"

definition scen_world :: "(mem_challenges, mem_sessions, mem_acl, mem_limiter) world" where
  "scen_world =
     \<lparr>w_challenges = mc_put ''c'' scen_challenge (mc_new 100), w_sessions = ms_new 100,
      w_acl = \<lparr>ma_records = [], ma_nowIso = ''t''\<rparr>, w_limiter = rl_new 100, w_default_limiter = rl_new 100,
      w_log = \<lparr>al_events = [], al_counters = []\<rparr>, w_random = of_nat, w_drawn = 0,
      w_now = 110, w_millis = 1000, w_latency = 40\<rparr>"

definition scen_json :: string where
  "scen_json = ''{\"id\":\"e\",\"pubkey\":\"p\",\"created_at\":108,\"kind\":27235,\"tags\":[[\"u\",\"https://a/auth/complete\"],[\"method\",\"POST\"],[\"payload\",\"07\"],[\"challenge_id\",\"c\"],[\"challenge\",\"x\"]],\"content\":\"\",\"sig\":\"good\"}''"

definition scen_input :: VerifyCompletionInput where
  "scen_input =
     \<lparr>vn_authorization = Some (''Nostr '' @ encodeBase64String scen_json), vn_method = ''POST'',
      vn_url = ''https://a/auth/complete'',
      vn_rawBody = utf8_encode ''{\"challenge_id\":\"c\",\"step_up\":true}'', vn_clientIp = Some ''1.2.3.4''\<rparr>"

definition scen_event :: Nip98Event where
  "scen_event = \<lparr>ev_id = ''e'', ev_pubkey = ''p'', ev_created_at = 108, ev_kind = 27235,
     ev_tags = [[''u'', ''https://a/auth/complete''], [''method'', ''POST''], [''payload'', ''07''],
                [''challenge_id'', ''c''], [''challenge'', ''x'']],
     ev_content = [], ev_sig = ''good''\<rparr>"

definition scen_body :: AuthCompleteRequest where
  "scen_body = \<lparr>rq_challenge_id = ''c'', rq_step_up = True, rq_voucher = None\<rparr>"

definition scen_proof :: VerifiedNip98Completion where
  "scen_proof = \<lparr>vc_event = scen_event, vc_challenge = ''x'', vc_challengeId = ''c'', vc_payload = ''07''\<rparr>"

lemma scen_parse: "parseAuthCompleteRequest (vn_rawBody scen_input) = Some scen_body"
proof -
  have "ascii ''{\"challenge_id\":\"c\",\"step_up\":true}''" by code_simp
  moreover have "(case json_parse ''{\"challenge_id\":\"c\",\"step_up\":true}'' of
      None \<Rightarrow> None | Some v \<Rightarrow> request_of_json v) = Some scen_body"
    by code_simp
  ultimately show ?thesis
    by (simp only: parseAuthCompleteRequest_def scen_input_def VerifyCompletionInput.select_convs
        utf8_decode_encode_ascii)
qed

lemma scen_json_parse: "(case json_parse scen_json of None \<Rightarrow> None | Some v \<Rightarrow> event_of_json v) = Some scen_event"
  by code_simp

lemma scen_ascii: "ascii scen_json"
  by code_simp

lemma scen_header: "parseNostrAuthorizationHeader (vn_authorization scen_input) = Some scen_event"
proof -
  have "scen_json \<noteq> []" by (simp add: scen_json_def)
  then have "parseNostrAuthorizationHeader (Some (''Nostr '' @ encodeBase64String scen_json)) = Some scen_event"
    by (rule trans [OF parse_header_encode [OF scen_ascii] scen_json_parse])
  then show ?thesis by (simp only: scen_input_def VerifyCompletionInput.select_convs)
qed

lemma scen_verify:
  "verifyNip98Completion (op_platform scen_opts) (completion_input scen_input scen_opts scen_body (w_now scen_world))
     = Inr scen_proof"
proof -
  have t: "single_tag scen_event ''u'' ''https://a/auth/complete''"
    "single_tag scen_event ''method'' ''POST''" "single_tag scen_event ''payload'' ''07''"
    "single_tag scen_event ''challenge_id'' ''c''" "single_tag scen_event ''challenge'' ''x''"
    by (simp_all add: single_tag_def tag_matches_def scen_event_def)
  have p: "sha256Hex (pf_sha256 scen_platform) b = ''07''" for b
    unfolding sha256Hex_def scen_platform_def platform.select_convs by code_simp
  have m: "to_upper ''POST'' = ''POST''" by code_simp
  show ?thesis
    unfolding verifyNip98Completion_Inr valid_proof_def
    using t p m scen_header
    by (auto simp: completion_input_def scen_opts_def scen_proof_def scen_body_def scen_input_def
        scen_world_def scen_event_def scen_platform_def exactUrlMatch_def normalizeAbsoluteUrl_def)
qed

section \<open>Before the login\<close>

lemma scen_ready: "memory.ready scen_world"
proof -
  have look: "mc_look (w_challenges scen_world) k = (if k = ''c'' then Some scen_challenge else None)" for k
    by (simp add: scen_world_def mc_look_put) (simp add: mc_look_def mc_new_def)
  have inv: "mc_inv (w_challenges scen_world)"
    by (simp add: scen_world_def mc_inv_put mc_inv_new scen_challenge_def new_challenge_def)
  have none: "ms_sess (w_sessions scen_world) = {}"
    by (simp add: scen_world_def ms_sess_def ms_new_def)
  have "ms_inv (w_sessions scen_world)" by (simp add: scen_world_def ms_inv_new)
  moreover have "ch_redeemed_session_id scen_challenge = None"
    by (simp add: scen_challenge_def new_challenge_def)
  ultimately show ?thesis
    by (auto simp: memory.ready_def memory.coherent_def memory.virgin_def memory.fresh_ids_def look inv none)
qed

lemma scen_admitted: "memory.admitted scen_opts scen_proof (w_now scen_world) scen_challenge"
  by (simp add: memory.admitted_def scen_opts_def scen_proof_def scen_event_def scen_world_def
      scen_challenge_def new_challenge_def)

lemma scen_audit: "audit_works scen_opts"
proof -
  have "reliable (op_log scen_opts)" by (simp add: reliable_def scen_opts_def scen_log_def)
  then show ?thesis by (simp add: audit_works_def withMetrics_reliable)
qed

lemma scen_resolver:
  "\<exists>d as'. registry_resolve scen_registry ma_ops True npub ''p'' ctx \<lparr>ma_records = [], ma_nowIso = ''t''\<rparr> = (Inr d, as')
     \<and> d_allowed d"
  by (simp add: registry_resolve_def resolveAclRecord_def io_bind_def ma_ops_def ma_get_def ma_upsert_def
      scen_registry_def decide_def buildAutoProvisionRecord_def acl_allowed_def)

lemma scen_login: "\<exists>s w'. verifyCompletion scen_input scen_opts scen_world = (Inr (Verify_ok s), w')"
proof -
  obtain d as' where d: "registry_resolve scen_registry ma_ops True ''npub1p'' ''p''
      \<lparr>cx_voucher = rq_voucher scen_body, cx_now = w_now scen_world, cx_session = None\<rparr> (w_acl scen_world)
        = (Inr d, as')" "d_allowed d"
    using scen_resolver unfolding scen_world_def by force
  show ?thesis
  proof (rule eager_memory.complete_live [OF _ _ scen_audit through_null _ _ scen_parse scen_verify _ _ _ _ d(2)])
    show "mc_look (w_challenges scen_world) (rq_challenge_id scen_body) = Some scen_challenge"
      by (simp add: scen_world_def scen_body_def mc_look_put)
    show "memory.admitted scen_opts scen_proof (w_now scen_world) scen_challenge" by (rule scen_admitted)
    show "op_aclResolver scen_opts (ch_npub scen_challenge) (ch_pubkey scen_challenge)
      \<lparr>cx_voucher = rq_voucher scen_body, cx_now = w_now scen_world, cx_session = None\<rparr> (w_acl scen_world)
        = (Inr d, as')"
      using d(1) by (simp add: scen_opts_def scen_challenge_def new_challenge_def)
  qed (use scen_ready in \<open>simp_all add: scen_opts_def memory.ready_def scen_challenge_def new_challenge_def\<close>)
qed

section \<open>After a login\<close>

definition scen_session :: SessionRecord where
  "scen_session =
     \<lparr>s_session_id = ''sid'', s_challenge_id = ''c0'', s_access_token = ''tok'',
      s_principal_npub = ''npub1p'', s_principal_pubkey = ''p'', s_roles = [''member''],
      s_permissions = [''read''], s_issued_at = 100, s_expires_at = 1000,
      s_step_up_token = Some ''su'', s_step_up_expires_at = Some 700, s_refresh_token = Some ''r1'',
      s_refresh_expires_at = Some 3700, s_previous_refresh_token = None, s_revoked_at = None\<rparr>"

definition scen_signed :: "(mem_challenges, mem_sessions, mem_acl, mem_limiter) world" where
  "scen_signed = scen_world\<lparr>w_sessions := ms_insert scen_session (ms_new 100)\<rparr>"

definition scen_guard :: "(mem_sessions, mem_acl) guard_options" where
  "scen_guard =
     \<lparr>go_sessionStore = ms_ops, go_cookieName = None,
      go_aclResolver = Some (registry_resolve scen_registry ma_ops True),
      go_registry = Some scen_registry, go_log = scen_log, go_clock = None\<rparr>"

definition scen_express :: "(mem_challenges, mem_sessions, mem_acl, mem_limiter) express_options" where
  "scen_express =
     \<lparr>eo_server = scen_opts, eo_getExternalBaseUrl = Some (\<lambda>_. Inr ''https://a''), eo_audienceResolver = None,
      eo_cookieName = None, eo_clearCookieOptions = None, eo_getClientIp = None, eo_rawBodyExtractor = None,
      eo_writeSuccess = None, eo_writeFailure = None\<rparr>"

definition scen_request :: http_request where
  "scen_request =
     \<lparr>hr_headers = [(''cookie'', ''theme=dark; session=tok''), (''x-step-up-token'', ''su'')],
      hr_method = ''GET'', hr_npub = None, hr_rawBody = None, hr_protocol = ''https'', hr_ip = None\<rparr>"

lemma scen_inv: "ms_inv (w_sessions scen_signed)"
proof -
  have "ms_inv (ms_insert scen_session (ms_new 100))"
    by (rule ms_insert_inv [OF ms_inv_new])
      (simp_all add: fresh_session_def scen_session_def ms_sess_def ms_new_def)
  then show ?thesis by (simp add: scen_signed_def)
qed

lemma scen_guard_pass: "fst (requirePermission ''pay'' scen_guard scen_request scen_signed) = Inr Pass"
  by code_simp

text \<open>The refresh of that session, its tokens left symbolic.\<close>

definition scen_refresh_input :: RefreshSessionInput where
  "scen_refresh_input = \<lparr>rf_refreshToken = Some ''r1'', rf_clientIp = None\<rparr>"

lemma ms_insert_token: "s_refresh_token r = Some t \<Longrightarrow> t \<noteq> [] \<Longrightarrow>
    ms_getByRefreshToken t (ms_insert r s) = (Inr (Some r), ms_insert r s)"
  by (simp add: ms_getByRefreshToken_def ms_insert_def Let_def)

lemma ms_insert_access: "ms_byId s = [] \<Longrightarrow> ms_retainUntil r \<ge> ms_clock s \<Longrightarrow>
    \<exists>s'. ms_getByAccessToken (s_access_token r) (ms_insert r s) = (Inr (Some r), s')"
proof -
  assume "ms_byId s = []" "ms_retainUntil r \<ge> ms_clock s"
  moreover have "jm_set k v [] = [(k, v)]" for k :: string and v :: nat by (simp add: jm_set_def)
  ultimately show ?thesis
    by (simp add: ms_getByAccessToken_def ms_insert_def Let_def ms_sweep_def ms_sweep_entry_def)
qed

lemma ms_insert_rotate:
  assumes "s_refresh_token r = Some (rt_expectedRefreshToken p)"
  shows "\<exists>s'. ms_rotateRefreshToken (s_session_id r) p (ms_insert r s) = (Inr (Some (rotated r p)), s')"
  using assms by (simp add: ms_rotateRefreshToken_def ms_insert_def Let_def rotated_def)

text \<open>A live session in a store of its own is refreshed when the resolver allows it.\<close>

lemma rotate_live:
  assumes a: "audit_works opts" and w: "w_sessions w = ms_insert r (ms_new k)" and t: "s_refresh_token r = Some t"
  shows "\<exists>s w'. rotate_session opts ms_rotateRefreshToken r t now d w = (Inr (Inr s), w')"
proof -
  obtain x w1 y w2 where ts: "randomToken 32 w = (Inr x, w1)" "randomToken 32 w1 = (Inr y, w2)"
    by (auto simp: randomToken_eq)
  have w2: "w_sessions w2 = ms_insert r (ms_new k)"
    using quietD [OF quiet_token ts(1)] quietD [OF quiet_token ts(2)] w by simp
  let ?p = "rotation_params opts r t now d x y"
  obtain s' where "ms_rotateRefreshToken (s_session_id r) ?p (ms_insert r (ms_new k)) = (Inr (Some (rotated r ?p)), s')"
    using ms_insert_rotate [of r ?p "ms_new k"] t by (auto simp: rotation_params_def Let_def)
  then have 1: "on_sess (ms_rotateRefreshToken (s_session_id r) ?p) w2
      = (Inr (Some (rotated r ?p)), w2\<lparr>w_sessions := s'\<rparr>)"
    by (simp add: on_sess_eq w2)
  let ?ev = "\<lparr>ae_code = ''NAP_REFRESH_SUCCESS'', ae_challenge_id = None,
      ae_npub = None, ae_pubkey = Some (s_principal_pubkey (rotated r ?p)), ae_outcome = Outcome_success,
      ae_details = Some (session_details (rotated r ?p))\<rparr>"
  obtain l where "audit opts ?ev (w2\<lparr>w_sessions := s'\<rparr>) = (Inr (), w2\<lparr>w_sessions := s', w_log := l\<rparr>)"
    using audit_total [OF a] by metis
  then show ?thesis using 1 by (simp add: rotate_session_def ts)
qed

lemma refresh_live:
  assumes o: "op_sessionStore opts = ms_ops" "op_rateLimiter opts = Limiter_null" "truthy_num (op_refreshTtlSeconds opts)"
    and a: "audit_works opts" and w: "w_sessions w = ms_insert r (ms_new k)"
    and t: "s_refresh_token r = Some t" "t \<noteq> []" "s_previous_refresh_token r = None" "s_revoked_at r = None"
      "truthy_num (s_refresh_expires_at r)" "w_now w \<le> the (s_refresh_expires_at r)"
      "case op_maxSessionLifetimeSeconds opts of None \<Rightarrow> True | Some m \<Rightarrow> w_now w < s_issued_at r + m"
    and d: "op_aclResolver opts (s_principal_npub r) (s_principal_pubkey r)
      \<lparr>cx_voucher = None, cx_now = w_now w, cx_session = Some (s_roles r, s_permissions r)\<rparr> (w_acl w) = (Inr d, as')" "d_allowed d"
  shows "\<exists>s w'. refreshSession \<lparr>rf_refreshToken = Some t, rf_clientIp = ip\<rparr> opts w = (Inr (Inr s), w')"
proof -
  have 1: "checkRateLimit opts k v = (Inr (Inr ()), v)" for k v
    by (simp add: checkRateLimit_def resolveRateLimiter_def o)
  have 2: "on_sess (ms_getByRefreshToken t) w = (Inr (Some r), w)"
    using ms_insert_token [OF t(1,2)] w by (simp add: on_sess_eq)
  have 3: "on_resolver (op_aclResolver opts (s_principal_npub r) (s_principal_pubkey r)
      \<lparr>cx_voucher = None, cx_now = w_now w, cx_session = Some (s_roles r, s_permissions r)\<rparr>) w = (Inr d, w\<lparr>w_acl := as'\<rparr>)"
    using d(1) by (simp add: on_resolver_eq)
  obtain s w' where 4: "rotate_session opts ms_rotateRefreshToken r t (w_now w) d (w\<lparr>w_acl := as'\<rparr>) = (Inr (Inr s), w')"
    using rotate_live [OF a _ t(1), of "w\<lparr>w_acl := as'\<rparr>"] w by fastforce
  have "refresh_found opts ms_rotateRefreshToken t (w_now w) r w = (Inr (Inr s), w')"
    using 3 4 d(2) t by (auto simp: refresh_found_def truthy_str_def truthy_num_def split: option.splits)
  then have "refreshSessionUnpadded \<lparr>rf_refreshToken = Some t, rf_clientIp = ip\<rparr> opts w = (Inr (Inr s), w')"
    using o(3) t(2) by (simp add: refreshSessionUnpadded_def o(1) ms_ops_def 1 2 Let_def truthy_str_def)
  then show ?thesis unfolding refreshSession_def using padded_run by metis
qed

lemma scen_refresh: "\<exists>s w'. refreshSession scen_refresh_input scen_opts scen_signed = (Inr (Inr s), w')"
proof -
  obtain d as' where d: "registry_resolve scen_registry ma_ops True ''npub1p'' ''p''
      \<lparr>cx_voucher = None, cx_now = 110, cx_session = Some ([''member''], [''read''])\<rparr> \<lparr>ma_records = [], ma_nowIso = ''t''\<rparr>
        = (Inr d, as')" "d_allowed d"
    using scen_resolver by blast
  show ?thesis
    unfolding scen_refresh_input_def
    by (rule refresh_live [OF _ _ _ scen_audit, where r = scen_session and k = 100 and d = d and as' = as'])
      (use d in \<open>simp_all add: scen_opts_def scen_session_def scen_signed_def scen_world_def truthy_num_def\<close>)
qed

section \<open>The retry of a completion\<close>

text \<open>The challenge redeemed at 105 for a session that its client never heard of.\<close>

definition scen_owned :: SessionRecord where
  "scen_owned = scen_session\<lparr>s_challenge_id := ''c''\<rparr>"

definition scen_redeemed :: ChallengeRecord where
  "scen_redeemed = redeemed_record scen_challenge (redeem_params scen_opts scen_event scen_owned 105)"

definition scen_settled :: "(mem_challenges, mem_sessions, mem_acl, mem_limiter) world" where
  "scen_settled = scen_world\<lparr>w_challenges := mc_put ''c'' scen_redeemed (mc_new 100),
     w_sessions := ms_insert scen_owned (ms_new 100)\<rparr>"

lemma length_url_le: "length (encodeBase64UrlBytes bs) \<le> length (encodeBase64Bytes bs)"
  unfolding encodeBase64UrlBytes_def by (metis length_dropWhile_le length_map length_rev)

lemma length_token_ge: "32 \<le> length (token_at w i 24)"
proof -
  have l: "length (map (w_random w) [i..<i + 24]) = 24" by simp
  then have p: "padding (map (w_random w) [i..<i + 24]) = []" by (simp add: padding_def)
  obtain body where b: "encodeBase64Bytes (map (w_random w) [i..<i + 24]) = body" "set body \<subseteq> set BASE64_ALPHABET"
    using encode_shape [of "map (w_random w) [i..<i + 24]"] p by auto
  have "CHR ''='' \<notin> set (map url_char body)"
  proof
    assume "CHR ''='' \<in> set (map url_char body)"
    then obtain c where c: "c \<in> set body" "CHR ''='' = url_char c" by auto
    then show False using url_char_not_pad [of c] b(2) by auto
  qed
  then have "encodeBase64UrlBytes (map (w_random w) [i..<i + 24]) = map url_char body"
    unfolding encodeBase64UrlBytes_def b(1)
    by (metis dropWhile_eq_self_iff hd_in_set rev_rev_ident set_rev)
  then show ?thesis using length_encode [of "map (w_random w) [i..<i + 24]"] l b(1)
    by (simp add: token_at_def)
qed

lemma scen_settled_look: "mc_look (w_challenges scen_settled) k = (if k = ''c'' then Some scen_redeemed else None)"
  by (simp add: scen_settled_def mc_look_put) (simp add: mc_look_def mc_new_def)

lemma ms_sess_new: "ms_sess (ms_insert r (ms_new t)) = {r}"
proof -
  have "ms_sess (ms_insert r (ms_new t)) \<subseteq> {r}"
    using ms_insert_sess [OF ms_inv_new, of r t] by (auto simp: ms_sess_def ms_new_def)
  then show ?thesis using ms_insert_member by blast
qed

lemma scen_settled_sess: "ms_sess (w_sessions scen_settled) = {scen_owned}"
  by (simp add: scen_settled_def ms_sess_new)

lemma scen_settled_inv: "mc_inv (w_challenges scen_settled)" "ms_inv (w_sessions scen_settled)"
proof -
  show "mc_inv (w_challenges scen_settled)"
    by (simp add: scen_settled_def mc_inv_put mc_inv_new scen_redeemed_def redeemed_record_def
        scen_challenge_def new_challenge_def)
  have "ms_inv (ms_insert scen_owned (ms_new 100))"
    by (rule ms_insert_inv [OF ms_inv_new])
      (simp_all add: fresh_session_def scen_owned_def scen_session_def ms_sess_def ms_new_def)
  then show "ms_inv (w_sessions scen_settled)" by (simp add: scen_settled_def)
qed

lemma scen_settled_ready: "memory.ready scen_settled"
proof -
  have "length (''sid'') < length (token_at scen_settled i 24)" for i
    using length_token_ge [of scen_settled i] by simp
  then have "''sid'' \<noteq> token_at scen_settled i 24" "token_at scen_settled i 24 \<noteq> ''sid''" for i
    by (metis less_irrefl)+
  then show ?thesis
    using scen_settled_inv
    by (auto simp: memory.ready_def memory.coherent_def memory.virgin_def memory.fresh_ids_def
        scen_settled_look scen_settled_sess scen_redeemed_def redeemed_record_def scen_challenge_def
        new_challenge_def scen_owned_def scen_session_def redeem_params_def split: if_splits)
qed

lemma scen_settled_admitted: "memory.admitted scen_opts scen_proof (w_now scen_settled) scen_redeemed"
  using scen_admitted by (simp add: memory.admitted_def scen_redeemed_def redeemed_record_def scen_settled_def)

lemma scen_retry_hit: "retry_hit (Some scen_redeemed) (vc_event scen_proof) (w_now scen_settled) = Some (s_session_id scen_owned)"
  by (simp add: retry_hit_def scen_redeemed_def redeemed_record_def redeem_params_def scen_proof_def
      scen_event_def scen_settled_def scen_world_def scen_owned_def scen_session_def scen_opts_def truthy_num_def truthy_str_def)

lemma scen_settled_clock: "ms_clock (w_sessions scen_settled) \<le> ms_retainUntil scen_owned"
  by (simp add: scen_settled_def ms_insert_def Let_def ms_new_def ms_retainUntil_def scen_owned_def scen_session_def)

lemma scen_retry: "\<exists>w'. verifyCompletion scen_input scen_opts scen_settled = (Inr (Verify_ok scen_owned), w')
  \<and> w_challenges w' = w_challenges scen_settled"
proof -
  obtain d as' where d: "registry_resolve scen_registry ma_ops True ''npub1p'' ''p''
      \<lparr>cx_voucher = rq_voucher scen_body, cx_now = w_now scen_settled, cx_session = None\<rparr> (w_acl scen_settled)
        = (Inr d, as')" "d_allowed d"
    using scen_resolver unfolding scen_settled_def scen_world_def by force
  show ?thesis
  proof (rule retry_live [OF _ _ scen_audit through_null scen_settled_inv scen_parse _ _ _ scen_settled_admitted scen_retry_hit])
    show "verifyNip98Completion (op_platform scen_opts)
        (completion_input scen_input scen_opts scen_body (w_now scen_settled)) = Inr scen_proof"
      using scen_verify by (simp add: scen_settled_def)
    show "op_aclResolver scen_opts (ch_npub scen_redeemed) (ch_pubkey scen_redeemed)
      \<lparr>cx_voucher = rq_voucher scen_body, cx_now = w_now scen_settled, cx_session = None\<rparr> (w_acl scen_settled)
        = (Inr d, as')"
      using d(1) by (simp add: scen_opts_def scen_redeemed_def redeemed_record_def scen_challenge_def new_challenge_def)
  qed (use scen_settled_clock d(2) in \<open>simp_all add: scen_opts_def scen_settled_look scen_settled_sess scen_body_def
        scen_redeemed_def redeemed_record_def scen_owned_def\<close>)
qed

section \<open>After a refresh, a suspension, and before a first challenge\<close>

definition scen_rotation :: RotateRefreshTokenParams where
  "scen_rotation = rotation_params scen_opts scen_session ''r1'' 105 (acl_allowed ''member'' [''read'']) ''a2'' ''r2''"

definition scen_rotated :: "(mem_challenges, mem_sessions, mem_acl, mem_limiter) world" where
  "scen_rotated = scen_signed\<lparr>w_sessions := snd (ms_rotateRefreshToken ''sid'' scen_rotation (w_sessions scen_signed))\<rparr>"

lemma scen_rotated_inv: "ms_inv (w_sessions scen_rotated)"
proof -
  have "ms_rotateRefreshToken ''sid'' scen_rotation (w_sessions scen_signed)
      = (fst (ms_rotateRefreshToken ''sid'' scen_rotation (w_sessions scen_signed)), w_sessions scen_rotated)"
    by (simp add: scen_rotated_def)
  then show ?thesis
    using ms.rotate_frame [where rot = ms_rotateRefreshToken and p = scen_rotation, OF scen_inv]
    by (simp add: ms_ops_def scen_rotation_def rotation_params_def Let_def)
qed

definition scen_suspended :: "(mem_challenges, mem_sessions, mem_acl, mem_limiter) world" where
  "scen_suspended = scen_signed\<lparr>w_acl := \<lparr>ma_records = [(''app:p'', \<lparr>ar_principal_pubkey = ''p'', ar_app_id = ''app'',
     ar_role = ''member'', ar_permission_overrides = [], ar_suspended = True, ar_suspended_at = Some ''t'',
     ar_suspended_reason = None, ar_created_at = None, ar_updated_at = None\<rparr>)], ma_nowIso = ''t''\<rparr>\<rparr>"

lemma scen_registry_ok: "validatePermissionRegistry scen_registry = Inr ()"
  by code_simp

definition scen_member :: AclRecord where
  "scen_member = buildAutoProvisionRecord scen_registry ''p''"

definition scen_acl :: mem_acl where
  "scen_acl = \<lparr>ma_records = [(''app:p'', scen_member)], ma_nowIso = ''t''\<rparr>"

definition scen_init :: IssueChallengeInput where
  "scen_init = \<lparr>ii_npub = ''npub1p'', ii_authUrl = ''https://a/auth/complete'', ii_authMethod = Some ''POST'',
     ii_clientIp = Some ''1.2.3.4''\<rparr>"

definition scen_fresh :: "(mem_challenges, mem_sessions, mem_acl, mem_limiter) world" where
  "scen_fresh = scen_world\<lparr>w_challenges := mc_new 110\<rparr>"

lemma scen_fresh_inv: "mc_inv (w_challenges scen_fresh)"
  by (simp add: scen_fresh_def mc_inv_new)

lemma scen_issue: "\<exists>z w'. issueChallenge scen_init scen_opts scen_fresh = (Inr (Inr z), w')"
proof -
  have "(case fst (issueChallenge scen_init scen_opts scen_fresh) of Inr (Inr _) \<Rightarrow> True | _ \<Rightarrow> False)"
    by code_simp
  then show ?thesis by (cases "issueChallenge scen_init scen_opts scen_fresh") (auto split: sum.splits)
qed

end
