(* ===== verification/VoucherScenario.thy ===== *)
theory VoucherScenario
  imports VoucherFacts ClientHttp Scenario
begin

text \<open>
  A deployment that lets in the holders of vouchers of one mint, and a client with such a
  voucher: the witnesses of the properties of nap-voucher and of nap-client-http.
\<close>

section \<open>The mint and the voucher\<close>

definition vs_key :: string where "vs_key = replicate 64 CHR ''a''"
definition vs_issuer :: string where "vs_issuer = replicate 64 CHR ''b''"
definition vs_scalar :: string where "vs_scalar = concat (replicate 32 ''01'')"

text \<open>The integers modulo a large number, with a hash that is constant.\<close>

definition vs_curve :: "int curve" where
  "vs_curve =
     \<lparr>cv_sha256 = (\<lambda>_. replicate 32 1), cv_base = 3, cv_order = 2 ^ 256,
      cv_fromHex = (\<lambda>s. if s = [] then None else Some (hex_number (take 4 s))),
      cv_toHex = (\<lambda>compressed p. Some (if compressed then ''02'' else ''04'')),
      cv_add = (\<lambda>p q. (p + q) mod 1009), cv_negate = (\<lambda>p. (- p) mod 1009),
      cv_multiply = (\<lambda>p k. Some ((p * k) mod 1009)),
      cv_schnorr = (\<lambda>sig m key. Some (sig = replicate 64 0xCC))\<rparr>"

definition vs_url :: url_parser where
  "vs_url s = (if s = ''https://mint'' then Some \<lparr>up_protocol = ''https:'', up_username = [], up_password = [],
     up_host = ''mint'', up_pathname = ''/'', up_search = [], up_hash = [], up_origin = ''https://mint''\<rparr> else None)"

definition vs_mints :: mint_allowlist where
  "vs_mints = (case createMintAllowlist vs_url [''https://mint''] of Inr al \<Rightarrow> al)"

definition vs_issuers :: issuer_allowlist where
  "vs_issuers = (case createIssuerAllowlist
     [\<lparr>ie_mint = ''https://mint'', ie_issuerPubkey = vs_issuer\<rparr>] vs_mints of Inr al \<Rightarrow> al)"

definition vs_policy_options :: availability_options where
  "vs_policy_options = \<lparr>ao_onMintUnavailable = Some ''degrade'',
     ao_degradedGrant = Some \<lparr>dg_roles = [], dg_permissions = [''read'']\<rparr>,
     ao_destructivePermissions = Some [''pay''], ao_destructiveRoles = None\<rparr>"

definition vs_policy :: availability_policy where
  "vs_policy = (case createMintAvailabilityPolicy vs_policy_options of Inr p \<Rightarrow> p)"

definition vs_client :: "int mint_client" where
  "vs_client = (case createMintClient vs_curve (\<lambda>_. []) (Some vs_mints) None of Inr cl \<Rightarrow> cl)"

definition vs_voucher_options :: "(int, unit) voucher_options" where
  "vs_voucher_options =
     \<lparr>vo_mintAllowlist = vs_mints, vo_issuerAllowlist = vs_issuers, vo_mintClient = vs_client,
      vo_availability = vs_policy,
      vo_grant = (\<lambda>v. Inr (Some \<lparr>vg_roles = [''member''], vg_permissions = [''read'', ''pay'']\<rparr>)),
      vo_permissionRegistry = Some \<lparr>rl_permissions = [''read'', ''pay''], rl_roles = [''member'']\<rparr>,
      vo_auditLogger = Some (\<lambda>_ _. False), vo_fallback = None, vo_onMissingCredential = Missing_deny\<rparr>"

text \<open>The voucher, locked to \<open>vs_key\<close> and good until 500.\<close>

definition vs_secret_json :: json where
  "vs_secret_json = JArr [JStr ''P2PK_VOUCHER'', JObj [(''nonce'', JStr ''n''), (''data'', JStr vs_key),
     (''tags'', JArr [JArr [JStr ''expires_at'', JNum 500], JArr [JStr ''issuer_pubkey'', JStr vs_issuer],
                      JArr [JStr ''issuer_sig'', JStr (replicate 128 CHR ''c'')]])]]"

definition vs_secret :: string where
  "vs_secret = json_print (\<lambda>_. []) vs_secret_json"

definition vs_voucher :: VoucherCredential where
  "vs_voucher = \<lparr>v_mint_url = ''https://mint'', v_keyset_id = ''k'', v_secret = vs_secret, v_signature = ''05'',
     v_amount = 1, v_dleq_e = vs_scalar, v_dleq_s = vs_scalar, v_dleq_r = vs_scalar, v_witness = None\<rparr>"

definition vs_keys :: json where
  "vs_keys = JObj [(''keysets'', JArr [JObj [(''id'', JStr ''k''), (''keys'', JObj [(''1'', JStr ''07'')])]])]"

definition vs_answer :: "net_request list \<Rightarrow> net_request \<Rightarrow> net_answer" where
  "vs_answer hist rq =
     (if nr_body rq = None then Net_answer 200 (Some vs_keys)
      else Net_answer 200 (Some (JObj [(''states'', JArr [JObj [(''Y'', JStr ''02''), (''state'', JStr ''UNSPENT'')]])])))"

definition vs_acl :: "unit voucher_world" where
  "vs_acl = \<lparr>mw_cache = [], mw_requests = [], mw_answer = vs_answer, mw_delay = (\<lambda>_. 0), mw_now = 110,
     vw_audit = [], vw_fallback = ()\<rparr>"

text \<open>The same deployment while the mint does not answer.\<close>

definition vs_acl_down :: "unit voucher_world" where
  "vs_acl_down = vs_acl\<lparr>mw_answer := (\<lambda>_ _. Net_failed)\<rparr>"

definition vs_context :: AclResolutionContext where
  "vs_context = \<lparr>cx_voucher = Some vs_voucher, cx_now = 110, cx_session = None\<rparr>"

definition vs_decision :: AclDecision where
  "vs_decision = \<lparr>d_allowed = True, d_roles = [''member''], d_permissions = [''read'', ''pay''], d_reason = None,
     d_revoke_sessions = None, d_expires_at = Some (Fin 500)\<rparr>"


lemma hex_replicate:
  assumes "c \<in> {CHR ''a'', CHR ''b'', CHR ''c''}"
  shows "is_hex_string n (replicate n c)" and "to_lower (replicate n c) = replicate n c"
    and "js_trim (replicate n c) = replicate n c"
proof -
  have "lower_hex c" "lower_char c = c" using assms by (elim insertE emptyE; simp; code_simp)+
  then show "is_hex_string n (replicate n c)" "to_lower (replicate n c) = replicate n c"
    by (simp_all add: is_hex_string_def list_all_length to_lower_def)
  have "space_ends \<inter> {CHR ''a'', CHR ''b'', CHR ''c''} = {}" by (simp add: js_spaces_def space_ends_def)
  then show "js_trim (replicate n c) = replicate n c"
    by (intro js_trim_plain) (use assms in auto)
qed

lemma not_compressed: "c \<noteq> CHR ''0'' \<Longrightarrow> \<not> compressed_key (replicate 64 c)"
  by (simp add: compressed_key_def numeral_2_eq_2 numeral_eq_Suc)

lemmas vs_hex = vs_key_def vs_issuer_def hex_replicate not_compressed

lemma number_500: "js_Number ''500'' = Fin 500"
proof -
  have "js_trim ''500'' = ''500''" "decimal_literal ''500'' = Some 500" "to_lower (take 2 ''500'') = ''50''" by code_simp+
  then show ?thesis by (simp add: js_Number_def js_overflow_def starts_with_def)
qed

lemma show_500: "show_number nt 500 = ''500''"
proof -
  have "plain_number 500" "show_int 500 = ''500''" by code_simp+
  then show ?thesis by (simp add: show_number_def)
qed

definition vs_parsed :: ParsedVoucherSecret where
  "vs_parsed =
     \<lparr>pv_kind = P2PK_VOUCHER, pv_nonce = Some ''n'', pv_data = vs_key,
      pv_tags = [[''expires_at'', ''500''], [''issuer_pubkey'', vs_issuer], [''issuer_sig'', replicate 128 CHR ''c'']],
      pv_lockKey = Some vs_key, pv_voucherId = None, pv_issuer = None, pv_issuerPubkey = Some vs_issuer,
      pv_issuerSig = Some (replicate 128 CHR ''c''), pv_expiresAt = Some 500, pv_unit = None, pv_faceValue = None\<rparr>"

lemma vs_parse: "parseVoucherSecret (\<lambda>_. []) vs_secret = Inr (Some vs_parsed)"
proof -
  have n: "plain_number 500" by code_simp
  have "printable vs_secret_json" by (simp add: vs_secret_json_def n)
  then have "json_parse vs_secret = Some vs_secret_json" unfolding vs_secret_def by (rule json_parse_print)
  moreover have "vs_secret \<noteq> []" by (simp add: vs_secret_def vs_secret_json_def)
  moreover have "\<not> js_overflow 500" by (simp add: js_overflow_def)
  ultimately show ?thesis
    by (simp add: parseVoucherSecret_def vs_secret_json_def kind_of_def secret_of_body_def as_string_def
        tag_value_def show_500 show_num_def secret_record_def tagValue_def numericTagValue_def number_500 vs_parsed_def)
qed

lemma vs_signature: "verifyIssuerSignature vs_curve (\<lambda>_. []) vs_parsed"
proof -
  have "hex_decode (replicate 128 CHR ''c'') = replicate 64 0xCC" by code_simp
  then show ?thesis
    by (simp add: verifyIssuerSignature_def vs_parsed_def vs_hex issuer_key_hex_def vs_curve_def truthy_str_def Let_def)
qed


lemma vs_mints_made: "createMintAllowlist vs_url [''https://mint''] = Inr vs_mints"
proof -
  have "js_trim ''https://mint'' = ''https://mint''" "to_lower ''https://mint'' = ''https://mint''" by code_simp+
  then show ?thesis by (simp add: vs_mints_def createMintAllowlist_def parseMintEntry_def vs_url_def Let_def)
qed

lemma vs_mint: "ml_resolve vs_mints ''https://mint'' = Some ''https://mint''"
  by code_simp

lemma vs_issuer_ok: "il_allows vs_issuers ''https://mint'' vs_issuer"
proof -
  have "to_lower ''https://mint'' = ''https://mint''" by code_simp
  then show ?thesis
    by (simp add: vs_issuers_def createIssuerAllowlist_def parseIssuerEntry_def vs_mint HEX_64_def vs_hex)
qed

lemma vs_client_eq: "vs_client = \<lparr>mk_allowlist = vs_mints, mk_ttl = 3600, mk_curve = vs_curve, mk_num_text = (\<lambda>_. [])\<rparr>"
  by (simp add: vs_client_def createMintClient_def)

lemma vs_policy_eq: "createMintAvailabilityPolicy vs_policy_options = Inr vs_policy"
  by (simp add: vs_policy_def createMintAvailabilityPolicy_def vs_policy_options_def)

lemma vs_lock: "lockKeyMatchesPubkey vs_key vs_key"
  by (simp add: lockKeyMatchesPubkey_def vs_hex)

lemma vs_local:
  assumes "now < 500"
  shows "local_checks vs_voucher_options vs_key now (raw_of vs_voucher)
    = Inr (Local_ok ''https://mint'' ''k'' ''05'' 1 vs_parsed)"
proof -
  have "local_secret vs_voucher_options vs_key now ''https://mint'' vs_parsed = None"
    using assms vs_signature vs_lock vs_issuer_ok
    by (auto simp: local_secret_def vs_parsed_def vs_voucher_options_def vs_client_eq truthy_str_def vs_hex)
  then show ?thesis
    by (simp add: local_checks_def raw_of_def vs_voucher_def as_string_def as_number_def vs_mint vs_parse
        vs_voucher_options_def vs_client_eq)
qed


section \<open>The mint's answers\<close>

lemma vs_ops:
  "cv_sha256 vs_curve bs = replicate 32 1" "cv_toHex vs_curve c p = Some (if c then ''02'' else ''04'')"
  "cv_multiply vs_curve p k = Some (p * k mod 1009)"
  by (simp_all add: vs_curve_def)

lemma vs_hash: "hashToCurve vs_curve bs = Some 0x0201"
proof -
  have "hex_number (take 4 (dleq_bytesToHex (0x02 # replicate 32 1))) = 0x0201"
    "dleq_bytesToHex (0x02 # replicate 32 1) \<noteq> []" by code_simp+
  then show ?thesis by (simp add: hashToCurve_def hash_from.simps vs_curve_def)
qed

lemma vs_dleq: "verifyProofDleq vs_curve ''07'' text ''05'' vs_scalar vs_scalar vs_scalar = (text \<noteq> [])"
proof -
  have s: "parseScalar vs_curve vs_scalar = Some (hex_number vs_scalar)" "to_lower (js_trim vs_scalar) = vs_scalar"
    "dleq_bytesToHex (replicate 32 1) = vs_scalar" by code_simp+
  have p: "parsePoint vs_curve ''07'' = Some 7" "parsePoint vs_curve ''05'' = Some 5"
    "parsePoint vs_curve ''02'' = Some 2" by code_simp+
  show ?thesis
    using s p by (simp add: verifyProofDleq_def verifyDleq_def dleq_equation_def hashE_def vs_hash vs_ops)
qed

lemma vs_get_key: "getKey vs_client ''https://mint'' ''k'' 1 vs_acl
    = (Inr (Inr ''07''), vs_acl\<lparr>mw_requests := [\<lparr>nr_url = ''https://mint/v1/keys'', nr_body = None\<rparr>],
        mw_cache := [(''https://mint'', \<lparr>ce_keysets = [(''k'', [(''1'', ''07'')])], ce_expiresAt = 3710, ce_refreshed = False\<rparr>)]\<rparr>)"
proof -
  have "parseKeysets vs_keys = Inr [(''k'', [(''1'', ''07'')])]" "show_number (\<lambda>_. []) 1 = ''1''" by code_simp+
  then show ?thesis
    by (simp add: getKey_def requireAllowedOrigin_def vs_client_eq vs_mint mint_bind_def loadKeysets_def vs_acl_def
       jm_get_def fetch_keysets_def mint_request_def vs_answer_def jm_set_def may_refetch_def truthy_str_def)
qed

lemma vs_state:
  assumes "mw_answer w = vs_answer"
  shows "\<exists>w'. checkState vs_client ''https://mint'' text w = (Inr (Inr UNSPENT), w') \<and> vw_audit w' = vw_audit w"
proof -
  have "state_of ''02'' (JObj [(''states'', JArr [JObj [(''Y'', JStr ''02''), (''state'', JStr ''UNSPENT'')]])]) = Inr UNSPENT"
    by code_simp
  then show ?thesis using assms
    by (simp add: checkState_def requireAllowedOrigin_def vs_client_eq vs_mint mint_bind_def proofY_def vs_hash vs_ops
       mint_request_def vs_answer_def io_bind_def Let_def)
qed


lemma vs_asked: "\<exists>w. ask_mint vs_client ''https://mint'' ''k'' 1 vs_secret ''05'' (rc_dleq (raw_of vs_voucher)) vs_acl
    = (Inr (Inr Mint_confirms), w) \<and> vw_audit w = []"
proof -
  let ?w = "vs_acl\<lparr>mw_requests := [\<lparr>nr_url = ''https://mint/v1/keys'', nr_body = None\<rparr>],
        mw_cache := [(''https://mint'', \<lparr>ce_keysets = [(''k'', [(''1'', ''07'')])], ce_expiresAt = 3710, ce_refreshed = False\<rparr>)]\<rparr>"
  have "mw_answer ?w = vs_answer" "vw_audit ?w = []" by (simp_all add: vs_acl_def)
  from vs_state [OF this(1), of vs_secret] this(2)
  obtain w' where "checkState vs_client ''https://mint'' vs_secret ?w = (Inr (Inr UNSPENT), w')" "vw_audit w' = []" by auto
  moreover have "vs_secret \<noteq> []" by (simp add: vs_secret_def vs_secret_json_def)
  moreover have "mk_curve vs_client = vs_curve" by (simp add: vs_client_eq)
  ultimately show ?thesis
    using vs_get_key vs_dleq
    by (simp add: ask_mint_def mint_bind_def dleq_parts_raw vs_voucher_def)
qed

lemma vs_allowed: "\<exists>w. voucher_resolver vs_voucher_options npub vs_key vs_context vs_acl = (Inr vs_decision, w)"
proof -
  obtain w where w: "ask_mint vs_client ''https://mint'' ''k'' 1 vs_secret ''05'' (rc_dleq (raw_of vs_voucher)) vs_acl
    = (Inr (Inr Mint_confirms), w)" "vw_audit w = []"
    using vs_asked by blast
  have "as_string (rc_secret (raw_of vs_voucher)) = Some vs_secret"
    by (simp add: raw_of_def vs_voucher_def as_string_def)
  then show ?thesis
    using w vs_local [of 110]
    by (simp add: voucher_resolver_def voucher_resolve_def vs_context_def vs_voucher_options_def resolve_verified_def
        undeclaredKeys_def voucher_audit_def vs_decision_def vs_parsed_def verified_voucher_def)
qed


lemma vs_degraded: "\<exists>w. voucher_resolver vs_voucher_options npub vs_key vs_context vs_acl_down
    = (Inr (vs_decision\<lparr>d_roles := [], d_permissions := [''read''], d_reason := Some ''NAP_VOUCHER_DEGRADED''\<rparr>), w)"
proof -
  have "\<exists>w. ask_mint vs_client ''https://mint'' ''k'' 1 t sig dleq vs_acl_down = (Inr (Inl unavailable), w) \<and> vw_audit w = []"
    for t sig dleq
    by (simp add: ask_mint_def getKey_def requireAllowedOrigin_def vs_client_eq vs_mint mint_bind_def loadKeysets_def
        vs_acl_down_def vs_acl_def jm_get_def fetch_keysets_def mint_request_def io_bind_def)
  then obtain w where w: "ask_mint vs_client ''https://mint'' ''k'' 1 vs_secret ''05'' (rc_dleq (raw_of vs_voucher)) vs_acl_down
    = (Inr (Inl unavailable), w)" "vw_audit w = []"
    by blast
  have p: "ap_decide vs_policy unavailable = Avail_degrade \<lparr>dg_roles = [], dg_permissions = [''read'']\<rparr>"
    by (simp add: vs_policy_def createMintAvailabilityPolicy_def vs_policy_options_def)
  have "as_string (rc_secret (raw_of vs_voucher)) = Some vs_secret"
    by (simp add: raw_of_def vs_voucher_def as_string_def)
  then show ?thesis
    using w vs_local [of 110] p
    by (simp add: voucher_resolver_def voucher_resolve_def vs_context_def vs_voucher_options_def resolve_unavailable_def
        undeclaredKeys_def voucher_audit_def vs_decision_def vs_parsed_def)
qed


section \<open>A client that logs in with the voucher\<close>

text \<open>A signer with the key of the challenge it is given.\<close>

definition key_signer :: "string \<Rightarrow> unit event_signer" where
  "key_signer key t s = (Inr \<lparr>ev_id = ''e'', ev_pubkey = key, ev_created_at = et_created_at t, ev_kind = et_kind t,
     ev_tags = et_tags t, ev_content = et_content t, ev_sig = ''good''\<rparr>, s)"

definition client_input :: "AuthInitResponse \<Rightarrow> string \<Rightarrow> VoucherCredential option \<Rightarrow> unit BuildAuthCompleteRequestInput" where
  "client_input ch key v = \<lparr>ba_challenge = ch, ba_signer = key_signer key, ba_createdAt = None, ba_stepUp = True, ba_voucher = v\<rparr>"

definition client_built :: "AuthInitResponse \<Rightarrow> string \<Rightarrow> VoucherCredential option \<Rightarrow> BuiltAuthCompleteRequest" where
  "client_built ch key v =
     (case fst (buildAuthCompleteRequest (pf_sha256 scen_platform) (\<lambda>_. []) 110000 (client_input ch key v) ()) of Inr b \<Rightarrow> b)"

lemma client_build: "buildAuthCompleteRequest (pf_sha256 scen_platform) (\<lambda>_. []) 110000 (client_input ch key v) ()
    = (Inr (client_built ch key v), ())"
proof -
  have "\<exists>b. buildAuthCompleteRequest (pf_sha256 scen_platform) (\<lambda>_. []) 110000 (client_input ch key v) () = (Inr b, ())"
    by (simp add: buildAuthCompleteRequest_def Let_def client_input_def key_signer_def)
  then show ?thesis by (auto simp: client_built_def)
qed

lemmas client_run = build_run [OF client_build]

lemma client_event:
  "br_event (client_built ch key v) = \<lparr>ev_id = ''e'', ev_pubkey = key, ev_created_at = 110, ev_kind = 27235,
     ev_tags = [[''u'', ir_auth_url ch], [''method'', ir_auth_method ch], [''payload'', ''07''],
                [''challenge'', ir_challenge ch], [''challenge_id'', ir_challenge_id ch]],
     ev_content = [], ev_sig = ''good''\<rparr>"
  "br_payloadHash (client_built ch key v) = ''07''"
proof -
  have h: "sha256Hex (pf_sha256 scen_platform) b = ''07''" for b
    unfolding sha256Hex_def scen_platform_def platform.select_convs by code_simp
  then show "br_payloadHash (client_built ch key v) = ''07''"
    by (simp add: client_built_def buildAuthCompleteRequest_def Let_def client_input_def key_signer_def)
  show "br_event (client_built ch key v) = \<lparr>ev_id = ''e'', ev_pubkey = key, ev_created_at = 110, ev_kind = 27235,
     ev_tags = [[''u'', ir_auth_url ch], [''method'', ir_auth_method ch], [''payload'', ''07''],
                [''challenge'', ir_challenge ch], [''challenge_id'', ir_challenge_id ch]],
     ev_content = [], ev_sig = ''good''\<rparr>"
    using h by (simp add: client_built_def buildAuthCompleteRequest_def Let_def client_input_def key_signer_def completion_template_def)
qed

lemma client_signed: "signed_as (completion_template ch ''07'' 110) (br_event (client_built ch key v))"
  by (simp add: client_event signed_as_def completion_template_def)

lemma client_texts:
  assumes "list_all ascii [ir_challenge_id ch, ir_challenge ch, ir_auth_url ch, ir_auth_method ch, key]"
    and "\<And>x. v = Some x \<Longrightarrow> presentable x \<and> ascii_json (voucher_json x)"
  shows "unicode (json_print nt (body_json (br_body (client_built ch key v))))"
    and "unicode (json_print nt (event_json (br_event (client_built ch key v))))"
proof -
  have k: "list_all ascii [[], ''e'', ''u'', ''method'', ''payload'', ''07'', ''challenge'', ''challenge_id'', ''good'', ''kind'',
      ''created_at'', ''tags'', ''content'', ''pubkey'', ''id'', ''sig'', ''step_up'', ''voucher'']" by code_simp
  have n: "plain_number 27235" "plain_number 110" by code_simp+
  have b: "rq_voucher (br_body (client_built ch key v)) = v" "rq_step_up (br_body (client_built ch key v))"
    "rq_challenge_id (br_body (client_built ch key v)) = ir_challenge_id ch"
    using client_run by (simp_all add: client_input_def)
  have "printable (body_json (br_body (client_built ch key v)))"
    by (rule body_printable) (use b assms(2) in simp)
  moreover have "ascii_json (body_json (br_body (client_built ch key v)))"
    using b assms k by (auto simp: body_json_def simp del: ascii_simps split: option.split)
  ultimately show "unicode (json_print nt (body_json (br_body (client_built ch key v))))" by (rule unicode_print)
  show "unicode (json_print nt (event_json (br_event (client_built ch key v))))"
    by (rule unicode_print) (use k n assms(1) in \<open>simp_all add: event_json_def client_event del: ascii_simps\<close>)
qed

lemma client_verifies:
  assumes t: "list_all ascii [ir_challenge_id ch, ir_challenge ch, ir_auth_url ch, ir_auth_method ch, key]"
    and v: "\<And>x. v = Some x \<Longrightarrow> presentable x \<and> ascii_json (voucher_json x)"
    and ch: "ir_challenge_id ch \<noteq> []" "ir_auth_method ch = ''POST''"
  defines "b \<equiv> client_built ch key v"
  shows "parseAuthCompleteRequest (br_rawBody b) = Some (br_body b)"
    and "verifyNip98Completion scen_platform
       \<lparr>vi_authorization = Some (br_authorization b), vi_method = br_method b, vi_url = br_url b,
        vi_body = br_body b, vi_rawBody = br_rawBody b, vi_now = 110, vi_maxClockSkewSeconds = Some 60\<rparr>
      = Inr \<lparr>vc_event = br_event b, vc_challenge = ir_challenge ch, vc_challengeId = ir_challenge_id ch,
             vc_payload = ''07''\<rparr>"
proof -
  have n: "plain_number 110" by code_simp
  note r = build_verifies [OF client_build [of ch key v], where now = 110 and skew = "Some 60"]
  have u: "unicode (json_print (\<lambda>_. []) (body_json (br_body (client_built ch key v))))"
    "unicode (json_print (\<lambda>_. []) (event_json (br_event (client_built ch key v))))"
    using client_texts [OF t] v by blast+
  note p = client_signed [of ch key v] client_event [of ch key v] u v ch n
  have i: "ba_challenge (client_input ch key v) = ch" "ba_createdAt (client_input ch key v) = None"
    "ba_voucher (client_input ch key v) = v" by (simp_all add: client_input_def)
  show "parseAuthCompleteRequest (br_rawBody b) = Some (br_body b)"
    unfolding b_def by (rule r(1)) (use p in \<open>simp_all add: i scen_platform_def\<close>)
  show "verifyNip98Completion scen_platform
       \<lparr>vi_authorization = Some (br_authorization b), vi_method = br_method b, vi_url = br_url b,
        vi_body = br_body b, vi_rawBody = br_rawBody b, vi_now = 110, vi_maxClockSkewSeconds = Some 60\<rparr>
      = Inr \<lparr>vc_event = br_event b, vc_challenge = ir_challenge ch, vc_challengeId = ir_challenge_id ch,
             vc_payload = ''07''\<rparr>"
    unfolding b_def using r(2) p by (simp add: i scen_platform_def)
qed

definition vs_opts :: "(mem_challenges, mem_sessions, unit voucher_world, mem_limiter) server_options" where
  "vs_opts =
     \<lparr>op_platform = scen_platform, op_challengeStore = mc_ops, op_sessionStore = ms_ops,
      op_aclResolver = voucher_resolver vs_voucher_options, op_log = scen_log,
      op_rateLimiter = Limiter_null, op_challengeTtlSeconds = None, op_sessionTtlSeconds = None,
      op_resultCacheTtlSeconds = None, op_maxClockSkewSeconds = None, op_lowerBoundGraceSeconds = None,
      op_upperBoundGraceSeconds = None, op_stepUpTtlSeconds = None, op_refreshTtlSeconds = Some 3600,
      op_maxSessionLifetimeSeconds = None, op_supportedExtensions = None,
      op_maxOutstandingChallengesPerNpub = None, op_maxOutstandingChallengesPerIp = None,
      op_maxFailuresPerChallenge = None, op_minAuthResponseMillis = None,
      op_responseJitterMillis = None\<rparr>"

definition vs_challenge :: ChallengeRecord where
  "vs_challenge =
     new_challenge \<lparr>ii_npub = ''npub1'' @ vs_key, ii_authUrl = ''https://a/auth/complete'',
                     ii_authMethod = Some ''POST'', ii_clientIp = None\<rparr> ''c'' ''x'' vs_key 100 60"

definition vs_world :: "(mem_challenges, mem_sessions, unit voucher_world, mem_limiter) world" where
  "vs_world =
     \<lparr>w_challenges = mc_put ''c'' vs_challenge (mc_new 100), w_sessions = ms_new 100,
      w_acl = vs_acl, w_limiter = rl_new 100, w_default_limiter = rl_new 100,
      w_log = \<lparr>al_events = [], al_counters = []\<rparr>, w_random = of_nat, w_drawn = 0,
      w_now = 110, w_millis = 1000, w_latency = 40\<rparr>"

definition vs_built :: BuiltAuthCompleteRequest where
  "vs_built = client_built (init_response vs_opts vs_challenge) vs_key (Some vs_voucher)"

definition vs_body :: AuthCompleteRequest where
  "vs_body = \<lparr>rq_challenge_id = ''c'', rq_step_up = True, rq_voucher = Some vs_voucher\<rparr>"

lemma vs_voucher_ok: "presentable vs_voucher \<and> ascii_json (voucher_json vs_voucher)"
proof -
  have n: "plain_number 1" "plain_number 500" by code_simp+
  have r: "ascii (replicate n c)" if "c \<in> {CHR ''a'', CHR ''b'', CHR ''c''}" for n c
  proof -
    have "byte_of CHR ''a'' < 0x80" "byte_of CHR ''b'' < 0x80" "byte_of CHR ''c'' < 0x80" by code_simp+
    then show ?thesis using that by (auto simp: ascii_def list_all_length)
  qed
  have k: "list_all ascii [''P2PK_VOUCHER'', ''nonce'', ''n'', ''data'', ''tags'', ''expires_at'', ''issuer_pubkey'',
      ''issuer_sig'', ''mint_url'', ''keyset_id'', ''secret'', ''signature'', ''amount'', ''dleq'', ''e'', ''s'', ''r'',
      ''https://mint'', ''k'', ''05'', vs_scalar]" by code_simp
  have "printable vs_secret_json" "ascii_json vs_secret_json"
    using n k r by (simp_all add: vs_secret_json_def vs_key_def vs_issuer_def del: ascii_simps)
  then have "ascii vs_secret" unfolding vs_secret_def by (rule ascii_print)
  moreover have "vs_secret \<noteq> []" "vs_scalar \<noteq> []" by (simp_all add: vs_secret_def vs_secret_json_def vs_scalar_def)
  ultimately show ?thesis using n k by (simp add: presentable_def voucher_json_def vs_voucher_def del: ascii_simps)
qed

lemma vs_body_eq: "br_body vs_built = vs_body"
  unfolding vs_built_def
  by (simp add: client_built_def buildAuthCompleteRequest_def Let_def client_input_def key_signer_def vs_body_def
      init_response_def vs_challenge_def new_challenge_def)

lemma vs_response:
  "ir_challenge_id (init_response opts vs_challenge) = ''c''" "ir_challenge (init_response opts vs_challenge) = ''x''"
  "ir_auth_url (init_response opts vs_challenge) = ''https://a/auth/complete''"
  "ir_auth_method (init_response opts vs_challenge) = ''POST''"
  by (simp_all add: init_response_def vs_challenge_def new_challenge_def)

definition vs_input :: VerifyCompletionInput where
  "vs_input = sent vs_built (Some ''1.2.3.4'')"

definition vs_proof :: VerifiedNip98Completion where
  "vs_proof = \<lparr>vc_event = br_event vs_built, vc_challenge = ''x'', vc_challengeId = ''c'',
     vc_payload = br_payloadHash vs_built\<rparr>"

lemma vs_verified:
  "parseAuthCompleteRequest (vn_rawBody vs_input) = Some vs_body"
  "verifyNip98Completion (op_platform vs_opts) (completion_input vs_input vs_opts vs_body (w_now vs_world)) = Inr vs_proof"
proof -
  have k: "ascii vs_key" "list_all ascii [''c'', ''x'', ''https://a/auth/complete'', ''POST'']" by code_simp+
  have o: "op_platform vs_opts = scen_platform" "op_maxClockSkewSeconds vs_opts = None" by (simp_all add: vs_opts_def)
  have "vs_proof = \<lparr>vc_event = br_event vs_built, vc_challenge = ''x'', vc_challengeId = ''c'', vc_payload = ''07''\<rparr>"
    by (simp add: vs_proof_def vs_built_def client_event)
  then show "parseAuthCompleteRequest (vn_rawBody vs_input) = Some vs_body"
    "verifyNip98Completion (op_platform vs_opts) (completion_input vs_input vs_opts vs_body (w_now vs_world)) = Inr vs_proof"
    using client_verifies [of "init_response vs_opts vs_challenge" vs_key "Some vs_voucher"] k vs_voucher_ok
    by (simp_all add: vs_response vs_built_def [symmetric] vs_body_eq vs_input_def sent_def completion_input_def
        o vs_world_def del: ascii_simps)
qed

lemma vs_ready: "memory.ready vs_world"
proof -
  have look: "mc_look (w_challenges vs_world) k = (if k = ''c'' then Some vs_challenge else None)" for k
    by (simp add: vs_world_def mc_look_put) (simp add: mc_look_def mc_new_def)
  have inv: "mc_inv (w_challenges vs_world)"
    by (simp add: vs_world_def mc_inv_put mc_inv_new vs_challenge_def new_challenge_def)
  have none: "ms_sess (w_sessions vs_world) = {}"
    by (simp add: vs_world_def ms_sess_def ms_new_def)
  have "ms_inv (w_sessions vs_world)" by (simp add: vs_world_def ms_inv_new)
  moreover have "ch_redeemed_session_id vs_challenge = None"
    by (simp add: vs_challenge_def new_challenge_def)
  ultimately show ?thesis
    by (auto simp: memory.ready_def memory.coherent_def memory.virgin_def memory.fresh_ids_def look inv none)
qed

lemma vs_login: "\<exists>s w'. verifyCompletion vs_input vs_opts vs_world = (Inr (Verify_ok s), w')"
proof -
  have a: "audit_works vs_opts"
    by (simp add: audit_works_def reliable_def vs_opts_def scen_log_def withMetrics_reliable)
  obtain wa where d: "voucher_resolver vs_voucher_options (ch_npub vs_challenge) vs_key vs_context vs_acl = (Inr vs_decision, wa)"
    using vs_allowed by blast
  show ?thesis
  proof (rule eager_memory.complete_live [OF _ _ a through_null _ _ vs_verified])
    show "mc_look (w_challenges vs_world) (rq_challenge_id vs_body) = Some vs_challenge"
      by (simp add: vs_world_def vs_body_def mc_look_put)
    show "memory.admitted vs_opts vs_proof (w_now vs_world) vs_challenge"
      by (simp add: memory.admitted_def vs_opts_def vs_proof_def vs_built_def client_event vs_world_def
          vs_challenge_def new_challenge_def)
    show "op_aclResolver vs_opts (ch_npub vs_challenge) (ch_pubkey vs_challenge)
      \<lparr>cx_voucher = rq_voucher vs_body, cx_now = w_now vs_world, cx_session = None\<rparr> (w_acl vs_world) = (Inr vs_decision, wa)"
      using d by (simp add: vs_opts_def vs_challenge_def new_challenge_def vs_context_def vs_body_def vs_world_def)
  qed (use vs_ready in \<open>simp_all add: vs_opts_def memory.ready_def vs_challenge_def new_challenge_def vs_decision_def\<close>)
qed

section \<open>Refusals and hostile secrets\<close>

lemma vs_contacted: "mw_requests (snd (voucher_resolver vs_voucher_options npub vs_key vs_context vs_acl_down)) \<noteq> mw_requests vs_acl_down"
proof -
  obtain y w1 where w: "ask_mint vs_client ''https://mint'' ''k'' 1 vs_secret ''05'' (rc_dleq (raw_of vs_voucher)) vs_acl_down = (Inr (Inl unavailable), w1)"
    "mw_requests w1 = [\<lparr>nr_url = ''https://mint/v1/keys'', nr_body = None\<rparr>]"
    by (simp add: ask_mint_def getKey_def requireAllowedOrigin_def vs_client_eq vs_mint mint_bind_def loadKeysets_def
        vs_acl_down_def vs_acl_def jm_get_def fetch_keysets_def mint_request_def io_bind_def)
  obtain x w2 where r: "resolve_unavailable vs_voucher_options npub vs_key vs_parsed unavailable w1 = (x, w2)" by fastforce
  have "as_string (rc_secret (raw_of vs_voucher)) = Some vs_secret"
    by (simp add: raw_of_def vs_voucher_def as_string_def)
  then have "voucher_resolver vs_voucher_options npub vs_key vs_context vs_acl_down = (x, w2)"
    using w(1) r vs_local [of 110]
    by (simp add: voucher_resolver_def voucher_resolve_def vs_context_def vs_voucher_options_def)
  then show ?thesis using after_mint_requests(1) [OF r] w(2) by (simp add: vs_acl_down_def vs_acl_def)
qed

lemma vs_refused: "\<exists>d w. voucher_resolver vs_voucher_options npub vs_issuer vs_context vs_acl = (Inr d, w) \<and> \<not> d_allowed d"
proof -
  have "replicate 64 CHR ''a'' \<noteq> replicate 64 CHR ''b''" by (simp add: numeral_eq_Suc)
  then have "\<not> lockKeyMatchesPubkey vs_key vs_issuer" by (simp add: lockKeyMatchesPubkey_def vs_hex)
  then have "local_secret vs_voucher_options vs_issuer 110 ''https://mint'' vs_parsed = Some (VC_BINDING_MISMATCH, [(''kind'', JStr ''P2PK_VOUCHER'')])"
    by (simp add: local_secret_def vs_parsed_def)
  then have "local_checks vs_voucher_options vs_issuer 110 (raw_of vs_voucher)
      = Inr (Local_denied VC_BINDING_MISMATCH [(''kind'', JStr ''P2PK_VOUCHER'')])"
    by (simp add: local_checks_def raw_of_def vs_voucher_def as_string_def as_number_def vs_mint vs_parse
        vs_voucher_options_def vs_client_eq)
  then show ?thesis
    by (simp add: voucher_resolver_def voucher_resolve_def vs_context_def voucher_deny_def voucher_audit_def
        vs_voucher_options_def voucher_DENY_def)
qed

lemma vs_plain: "plain_secret vs_parsed"
proof -
  have e: "json_escape_char CHR ''a'' = [CHR ''a'']" "unescaped ''n''" by code_simp+
  then have "unescaped vs_key" by (simp add: vs_key_def unescaped_def list_all_length)
  moreover have "printable (JNum 500)" by code_simp
  ultimately show ?thesis
    using e(2) by (simp add: plain_secret_def vs_parsed_def signed_json_def
        signed_tags_def tag_key_def ADDED_AFTER_SIGNING_def signed_value_def NUMERIC_TAGS_def number_500)
qed

text \<open>A tag whose name is an object with a member \<open>toString\<close>.\<close>

definition hostile_secret :: string where
  "hostile_secret = ''[\"VOUCHER\",{\"data\":\"\",\"tags\":[[{\"toString\":0}]]}]''"

lemma hostile_parse: "parseVoucherSecret nt hostile_secret = Inl (Exn ''TypeError'')"
proof -
  have "json_parse hostile_secret
      = Some (JArr [JStr ''VOUCHER'', JObj [(''data'', JStr []), (''tags'', JArr [JArr [JObj [(''toString'', JNum 0)]]])]])"
    by code_simp
  moreover have "hostile_secret \<noteq> []" by (simp add: hostile_secret_def)
  ultimately show ?thesis by (simp add: parseVoucherSecret_def kind_of_def secret_of_body_def as_string_def)
qed

text \<open>The challenge issued in the scenario.\<close>

lemma hs_run: "issueChallenge scen_init scen_opts scen_fresh = (Inr (Inr z), w1) \<Longrightarrow>
   list_all ascii [ir_challenge_id z, ir_challenge z, ir_auth_url z, ir_auth_method z, ''p'']
   \<and> ir_challenge_id z \<noteq> [] \<and> ir_auth_method z = ''POST'' \<and> ir_issued_at z = 110 \<and> ir_expires_at z = 170
   \<and> w_acl w1 = \<lparr>ma_records = [], ma_nowIso = ''t''\<rparr>"
proof -
  have "case issueChallenge scen_init scen_opts scen_fresh of (Inr (Inr z), w1) \<Rightarrow>
     list_all ascii [ir_challenge_id z, ir_challenge z, ir_auth_url z, ir_auth_method z, ''p'']
     \<and> ir_challenge_id z \<noteq> [] \<and> ir_auth_method z = ''POST'' \<and> ir_issued_at z = 110 \<and> ir_expires_at z = 170
     \<and> w_acl w1 = \<lparr>ma_records = [], ma_nowIso = ''t''\<rparr> | _ \<Rightarrow> False"
    by code_simp
  moreover assume r: "issueChallenge scen_init scen_opts scen_fresh = (Inr (Inr z), w1)"
  ultimately show ?thesis unfolding r prod.case sum.case by blast
qed


section \<open>The session of a voucher, refreshed\<close>

definition vs_trusting :: "(mem_challenges, mem_sessions, unit voucher_world, mem_limiter) server_options" where
  "vs_trusting = vs_opts\<lparr>op_aclResolver := voucher_resolver (vs_voucher_options\<lparr>vo_onMissingCredential := Missing_trust_session\<rparr>)\<rparr>"

text \<open>A session cut to the voucher's expiry, 500, shortly before it.\<close>

definition vs_session :: SessionRecord where
  "vs_session = scen_session\<lparr>s_principal_pubkey := vs_key, s_expires_at := 500\<rparr>"

definition vs_signed :: "(mem_challenges, mem_sessions, unit voucher_world, mem_limiter) world" where
  "vs_signed = vs_world\<lparr>w_sessions := ms_insert vs_session (ms_new 490), w_now := 490\<rparr>"

lemma vs_signed_inv: "ms_inv (w_sessions vs_signed)"
proof -
  have "ms_inv (ms_insert vs_session (ms_new 490))"
    by (rule ms_insert_inv [OF ms_inv_new])
      (simp_all add: fresh_session_def vs_session_def scen_session_def ms_sess_def ms_new_def)
  then show ?thesis by (simp add: vs_signed_def)
qed

lemma vs_refreshed: "\<exists>s w'. refreshSession scen_refresh_input vs_trusting vs_signed = (Inr (Inr s), w')"
proof -
  let ?d = "\<lparr>d_allowed = True, d_roles = [''member''], d_permissions = [''read''], d_reason = None,
     d_revoke_sessions = None, d_expires_at = None\<rparr>"
  have a: "audit_works vs_trusting"
    by (simp add: audit_works_def reliable_def vs_trusting_def vs_opts_def scen_log_def withMetrics_reliable)
  show ?thesis
    unfolding scen_refresh_input_def
    by (rule refresh_live [OF _ _ _ a, where r = vs_session and k = 490 and d = ?d and as' = vs_acl])
      (simp_all add: vs_trusting_def vs_opts_def vs_session_def scen_session_def vs_signed_def vs_world_def truthy_num_def
        voucher_resolver_def voucher_resolve_def resolve_absent_def vs_voucher_options_def)
qed

end
