(* ===== verification/IssueRuns.thy ===== *)
theory IssueRuns
  imports ServerIssue Padding MemoryChallenges
begin

text \<open>
  A challenge that was issued: what the store holds for it afterwards, and that the caps on
  outstanding challenges, per key and per address, were not reached before it.
\<close>

context challenge_store
begin

abbreviation outstanding_count :: "'cs \<Rightarrow> OutstandingChallengeFilter \<Rightarrow> int" where
  "outstanding_count s f \<equiv> int (card {k. \<exists>c. look s k = Some c \<and> outstanding f c})"

lemma caps_value:
  assumes ops: "op_challengeStore opts = ops" and i: "inv (w_challenges w)"
    and cnt: "co_countOutstanding ops = Some cnt"
    and r: "findExceededOutstandingCap opts npub ip now w = (Inr None, w')"
  shows "(0 < or_else (op_maxOutstandingChallengesPerNpub opts) 10 \<longrightarrow>
      outstanding_count (w_challenges w) \<lparr>of_npub = Some npub, of_clientIp = truthy_part ip, of_now = now\<rparr>
        < or_else (op_maxOutstandingChallengesPerNpub opts) 10)
    \<and> (truthy_str ip \<and> 0 < or_else (op_maxOutstandingChallengesPerIp opts) 30 \<longrightarrow>
      outstanding_count (w_challenges w) \<lparr>of_npub = None, of_clientIp = ip, of_now = now\<rparr>
        < or_else (op_maxOutstandingChallengesPerIp opts) 30)"
proof -
  let ?n = "or_else (op_maxOutstandingChallengesPerNpub opts) 10"
  let ?p = "or_else (op_maxOutstandingChallengesPerIp opts) 30"
  let ?f = "\<lparr>of_npub = Some npub, of_clientIp = truthy_part ip, of_now = now\<rparr>"
  let ?g = "\<lparr>of_npub = None, of_clientIp = ip, of_now = now\<rparr>"
  let ?c = "truthy_str ip \<and> ?p > 0"
  obtain a v b where 1: "(if ?n > 0 then on_challenges (cnt ?f) else io_ret 0) w = (Inr a, v)"
    and 2: "(if ?c then on_challenges (cnt ?g) else io_ret 0) v = (Inr b, w')"
    and 3: "\<not> (?n > 0 \<and> int a \<ge> ?n)" "\<not> (?c \<and> int b \<ge> ?p)"
    using r unfolding findExceededOutstandingCap_def ops cnt Let_def option.case
    by (elim io_bindE) (auto split: if_splits)
  have v: "inv (w_challenges v)" "look (w_challenges v) = look (w_challenges w)"
    using 1 count_frame [OF i cnt] i by (auto simp: on_challenges_eq split: if_splits)
  have "outstanding_count (w_challenges w) ?f < ?n" if "0 < ?n"
    using 1 3(1) that count_value [OF i cnt] by (auto simp: on_challenges_eq)
  moreover have "outstanding_count (w_challenges w) ?g < ?p" if "?c"
    using 2 3(2) that count_value [OF v(1) cnt] v(2) by (auto simp: on_challenges_eq)
  ultimately show ?thesis by blast
qed

lemma issue_checked:
  assumes "issueChallengeUnpadded input opts w = (Inr (Inr z), w')"
  obtains v v' where "findExceededOutstandingCap opts (ii_npub input) (ii_clientIp input) (w_now w) v = (Inr None, v')"
    and "w_challenges v = w_challenges w"
proof -
  obtain ttl where ttl: "resolveChallengeTtl opts = Some ttl"
    using assms by (auto simp: issueChallengeUnpadded_def split: option.splits)
  obtain w1 lim w2 where 1: "count_total opts auth_init_total w = (Inr (), w1)"
    and 2: "checkRateLimit opts \<lparr>rk_scope = scope_init, rk_npub = boundedNpub (ii_npub input), rk_pubkey = None,
                 rk_clientIp = ii_clientIp input\<rparr> w1 = (Inr lim, w2)"
    and 3: "(case lim of
        Inl retryAfter \<Rightarrow>
          io_bind (audit opts (simple_event (code_str NAP_INIT_RATE_LIMITED) Outcome_rate_limited
                     (Some [(''npub'', JStr (ii_npub input))]))) (\<lambda>_.
            io_ret (Inl (rate_limited_failure NAP_INIT_RATE_LIMITED retryAfter)))
      | Inr _ \<Rightarrow>
     (case decodeNpub (op_platform opts) (ii_npub input) of
        None \<Rightarrow>
          io_bind (logFailure opts NAP_INIT_INVALID_NPUB (Some [(''npub'', JStr (ii_npub input))]))
            (\<lambda>_. io_ret (Inl (failure NAP_INIT_INVALID_NPUB)))
      | Some pubkey \<Rightarrow>
     if pubkey = []
     then io_bind (logFailure opts NAP_INIT_INVALID_NPUB (Some [(''npub'', JStr (ii_npub input))]))
            (\<lambda>_. io_ret (Inl (failure NAP_INIT_INVALID_NPUB)))
     else
     io_bind (io_get w_now) (\<lambda>now.
     io_bind (findExceededOutstandingCap opts (ii_npub input) (ii_clientIp input) now) (\<lambda>exceeded.
     (case exceeded of
        Some cap \<Rightarrow>
          io_bind (audit opts (simple_event (code_str NAP_INIT_RATE_LIMITED) Outcome_rate_limited
                     (Some [(''npub'', JStr (ii_npub input)), (''cap'', JStr (cap_str cap))]))) (\<lambda>_.
            io_ret (Inl (rate_limited_failure NAP_INIT_RATE_LIMITED (Some ttl))))
      | None \<Rightarrow> store_challenge input opts pubkey now ttl))))) w2 = (Inr (Inr z), w')"
    using assms unfolding issueChallengeUnpadded_def ttl option.case
    by (elim io_bindE) (simp add: ttl)
  have q: "w_challenges w2 = w_challenges w" "w_now w2 = w_now w"
    using quietD [OF quiet_count 1] quietD [OF quiet_limit 2] by simp_all
  obtain ex v' where 4: "findExceededOutstandingCap opts (ii_npub input) (ii_clientIp input) (w_now w2) w2 = (Inr ex, v')"
    and 5: "ex = None"
    using 3 by (auto simp: io_bind_Inr split: sum.splits option.splits if_splits)
  show ?thesis by (rule that [of w2 v']) (use 4 5 q in simp_all)
qed

text \<open>The issued challenge is stored as issued, fresh, for the decoded key; nothing else was touched.\<close>

lemma issue_stored:
  assumes ops: "op_challengeStore opts = ops" and i: "inv (w_challenges w)"
    and r: "issueChallenge input opts w = (Inr (Inr z), w')"
  shows "\<exists>r d. created input opts w r \<and> z = init_response opts r \<and> inv (w_challenges w')
    \<and> look (w_challenges w') (ch_challenge_id r) = Some d \<and> same_challenge r d \<and> ch_state d = issued
    \<and> (\<forall>k. k \<noteq> ch_challenge_id r \<longrightarrow> look (w_challenges w') k = look (w_challenges w) k \<or> look (w_challenges w') k = None)
    \<and> w_sessions w' = w_sessions w"
proof -
  obtain w1 where 1: "issueChallengeUnpadded input opts w = (Inr (Inr z), w1)" "same_but_time w1 w'"
    using r unfolding issueChallenge_def by (rule padded_runD)
  have t: "w_challenges w' = w_challenges w1" "w_sessions w' = w_sessions w1"
    using same_but_timeD [OF 1(2)] by simp_all
  have st: "issue_step input opts w (Inr (Inr z)) w1"
    using issue_ok_unpadded [OF ops, of input "w_now w"] i 1(1) unfolding issue_ok_def by blast
  then obtain r s where r: "created input opts w r" "look s = look (w_challenges w)" "inv s"
    "co_create ops r s = (Inr (), w_challenges w1)" "z = init_response opts r"
    unfolding issue_step_def by blast
  have f: "fresh_challenge r" using r(1) new_challenge_fresh by (auto simp: created_def)
  obtain n where n: "look (w_challenges w1) (ch_challenge_id r) = Some (r\<lparr>ch_failure_count := n\<rparr>)"
    using create_same [OF r(3) f r(4)] by blast
  have "\<forall>k. k \<noteq> ch_challenge_id r \<longrightarrow> look (w_challenges w1) k = look (w_challenges w) k \<or> look (w_challenges w1) k = None"
    using create_other [OF r(3,4)] r(2) by metis
  moreover have "w_sessions w1 = w_sessions w" "inv (w_challenges w1)" using st by (simp_all add: issue_step_def)
  moreover have "same_challenge r (r\<lparr>ch_failure_count := n\<rparr>)" "ch_state (r\<lparr>ch_failure_count := n\<rparr>) = issued"
    using f by (simp_all add: same_challenge_def fresh_challenge_def)
  ultimately show ?thesis using r(1,5) n t by metis
qed

lemma issue_capped:
  assumes ops: "op_challengeStore opts = ops" and i: "inv (w_challenges w)"
    and cnt: "co_countOutstanding ops = Some cnt"
    and r: "issueChallenge input opts w = (Inr (Inr z), w')"
  shows "(0 < or_else (op_maxOutstandingChallengesPerNpub opts) 10 \<longrightarrow>
      outstanding_count (w_challenges w) \<lparr>of_npub = Some (ii_npub input), of_clientIp = truthy_part (ii_clientIp input), of_now = w_now w\<rparr>
        < or_else (op_maxOutstandingChallengesPerNpub opts) 10)
    \<and> (truthy_str (ii_clientIp input) \<and> 0 < or_else (op_maxOutstandingChallengesPerIp opts) 30 \<longrightarrow>
      outstanding_count (w_challenges w) \<lparr>of_npub = None, of_clientIp = ii_clientIp input, of_now = w_now w\<rparr>
        < or_else (op_maxOutstandingChallengesPerIp opts) 30)"
proof -
  obtain w1 where 1: "issueChallengeUnpadded input opts w = (Inr (Inr z), w1)"
    using r unfolding issueChallenge_def by (rule padded_runD)
  obtain v v' where v: "findExceededOutstandingCap opts (ii_npub input) (ii_clientIp input) (w_now w) v = (Inr None, v')"
    "w_challenges v = w_challenges w"
    using 1 by (rule issue_checked)
  show ?thesis using caps_value [OF ops _ cnt v(1)] i v(2) by simp
qed

end

end
