(* ===== verification/RefreshRuns.thy ===== *)
theory RefreshRuns
  imports ServerRefresh Padding MemorySessions
begin

text \<open>
  The refresh handler as its callers see it, the padding of its answer included: what a
  granted refresh means, and what the second use of a retired token does.
\<close>

lemma refreshSession_run:
  assumes "refreshSession input opts w = (x, w')"
  obtains w1 where "refreshSessionUnpadded input opts w = (x, w1)" and "same_but_time w1 w'"
  using assms unfolding refreshSession_def by (rule padded_runD)

context session_store
begin

lemma refresh_granted:
  assumes o: "op_sessionStore opts = ops" and i: "inv (w_sessions w)"
    and r: "refreshSession input opts w = (Inr (Inr s), w')"
  shows "s \<in> sess (w_sessions w') \<and> (\<exists>x\<in>sess (w_sessions w). refreshed input opts w x s)"
proof -
  obtain w1 where 1: "refreshSessionUnpadded input opts w = (Inr (Inr s), w1)" "same_but_time w1 w'"
    using r by (rule refreshSession_run)
  show ?thesis using refresh_ok [OF o i 1(1)] same_but_timeD [OF 1(2)] by simp
qed

text \<open>A refresh keeps the store's invariant and makes no session.\<close>

lemma refresh_versions:
  assumes o: "op_sessionStore opts = ops" and i: "inv (w_sessions w)" and now: "w_now w \<noteq> 0"
    and r: "refreshSession input opts w = (x, w')"
  shows "inv (w_sessions w') \<and> (\<forall>y\<in>sess (w_sessions w'). \<exists>x\<in>sess (w_sessions w). succeeds x y)
    \<and> w_challenges w' = w_challenges w"
proof -
  obtain w1 where 1: "refreshSessionUnpadded input opts w = (x, w1)" "same_but_time w1 w'"
    using r by (rule refreshSession_run)
  show ?thesis
    using versions_refresh [OF o i now 1(1)] same_but_timeD [OF 1(2)] by (simp add: versions_def)
qed

lemma refresh_reuse:
  assumes o: "op_sessionStore opts = ops" and i: "inv (w_sessions w)" and now: "w_now w \<noteq> 0"
    and conf: "truthy_num (op_refreshTtlSeconds opts)"
      "so_getByRefreshToken ops = Some g" "so_rotateRefreshToken ops \<noteq> None"
    and t: "rf_refreshToken input = Some t" "t \<noteq> []"
    and y: "g t (w_sessions w) = (Inr (Some y), s1)" "s_previous_refresh_token y = Some t"
    and r: "refreshSession input opts w = (Inr z, w')" and nl: "\<not> refresh_rate_limited z"
  shows "z = Inl (failure NAP_REFRESH_REUSED)
    \<and> (\<forall>x\<in>sess (w_sessions w'). s_session_id x = s_session_id y \<longrightarrow> s_revoked_at x \<noteq> None)"
proof -
  obtain w1 where 1: "refreshSessionUnpadded input opts w = (Inr z, w1)" "same_but_time w1 w'"
    using r by (rule refreshSession_run)
  show ?thesis
    using refresh_replay [OF o i now conf t y 1(1) nl] same_but_timeD [OF 1(2)] by simp
qed

end

end
