(* ===== verification/EndToEndProperties.thy ===== *)
theory EndToEndProperties
  imports VoucherScenario IssueRuns RefreshRuns
begin

text \<open>
  The properties that span the client, the server and the voucher resolver: a login the HTTP
  client builds, a login with a voucher, and a session refreshed past its voucher's end.
\<close>

section \<open>An honest client\<close>



section \<open>A voucher at the server\<close>

lemma clamp_before:
  assumes "of_int now < e"
  shows "of_int (now + clampTtlToDecision configured (Some (Fin e)) now) < e + 1"
proof -
  have "now \<le> \<lfloor>e\<rfloor>" using assms by (simp add: le_floor_iff)
  then have "now + clampTtlToDecision configured (Some (Fin e)) now \<le> \<lfloor>e\<rfloor> \<or> now + clampTtlToDecision configured (Some (Fin e)) now \<le> now + 1"
    by (auto simp: clampTtlToDecision_def Let_def)
  then have "of_int (now + clampTtlToDecision configured (Some (Fin e)) now) \<le> (of_int \<lfloor>e\<rfloor> :: rat)
      \<or> of_int (now + clampTtlToDecision configured (Some (Fin e)) now) \<le> (of_int (now + 1) :: rat)"
    by (simp only: of_int_le_iff)
  then show ?thesis using assms of_int_floor_le [of e] by (elim disjE) linarith+
qed

text \<open>
  C6. A login that presents a voucher and makes a new session: the voucher passed every local
  check for the very key that signed, the mint confirmed it (or failed and the degraded
  grant applies), the session has exactly the granted roles and permissions, and it expires
  less than a second after the voucher at the latest.
\<close>

theorem voucher_login:
  assumes "op_challengeStore opts = mc_ops" and "op_sessionStore opts = ms_ops" and "memory.ready w"
    and "op_aclResolver opts = voucher_resolver vopts"
    and "verifyCompletion input opts w = (Inr (Verify_ok s), w')"
    and "parseAuthCompleteRequest (vn_rawBody input) = Some body" and "rq_voucher body = Some v"
    and new: "s_session_id s \<notin> s_session_id ` ms_sess (w_sessions w)"
  shows "\<exists>mintUrl secret. locally_valid vopts (s_principal_pubkey s) (w_now w) v mintUrl secret
     \<and> (case pv_expiresAt secret of None \<Rightarrow> True | Some e \<Rightarrow> of_int (s_expires_at s) < e + 1)
     \<and> ((mint_confirmed (vo_mintClient vopts) mintUrl v (w_acl w)
          \<and> (\<exists>granted. vo_grant vopts (verified_voucher mintUrl (s_principal_pubkey s) secret) = Inr granted
              \<and> s_roles s = (case granted of None \<Rightarrow> [] | Some g \<Rightarrow> vg_roles g)
              \<and> s_permissions s = (case granted of None \<Rightarrow> [] | Some g \<Rightarrow> vg_permissions g)))
        \<or> (\<exists>reason grant. mint_failed (vo_mintClient vopts) mintUrl v reason (w_acl w)
              \<and> ap_decide (vo_availability vopts) reason = Avail_degrade grant
              \<and> s_roles s = dg_roles grant \<and> s_permissions s = dg_permissions grant))"
proof -
  have "memory.granted input opts w s w'" by (rule memory.complete_sound [OF assms(1-3,5)])
  then obtain body' vp c where g: "parseAuthCompleteRequest (vn_rawBody input) = Some body'"
    "memory.admitted opts vp (w_now w) c" "s_principal_pubkey s = ev_pubkey (vc_event vp)"
    "memory.allowed_by opts body' (w_now w) c (w_acl w) (ms_sess (w_sessions w)) s"
    unfolding memory.granted_def by blast
  then have "body' = body" "ch_pubkey c = s_principal_pubkey s" using assms(6) by (simp_all add: memory.admitted_def)
  then obtain d as' where
    d: "voucher_resolver vopts (ch_npub c) (s_principal_pubkey s)
          \<lparr>cx_voucher = Some v, cx_now = w_now w, cx_session = None\<rparr> (w_acl w) = (Inr d, as')"
      "d_allowed d" "memory.follows opts (w_now w) d s"
    using g(4) new assms(4,7) by (auto simp: memory.allowed_by_def)
  have f: "s_roles s = d_roles d" "s_permissions s = d_permissions d"
    "s_expires_at s = w_now w + clampTtlToDecision (or_else (op_sessionTtlSeconds opts) 900) (d_expires_at d) (w_now w)"
    using d(3) by (simp_all add: memory.follows_def)
  have late: "case pv_expiresAt secret of None \<Rightarrow> True | Some e \<Rightarrow> of_int (s_expires_at s) < e + 1"
    if "locally_valid vopts (s_principal_pubkey s) (w_now w) v mintUrl secret"
      "d_expires_at d = map_option Fin (pv_expiresAt secret)" for mintUrl secret
    using that f(3) clamp_before by (auto simp: locally_valid_def split: option.splits)
  show ?thesis using resolver_allows [OF d(1) _ d(2)] late f(1,2) by fastforce
qed

theorem voucher_login_witness:
  "\<exists>s w' secret. verifyCompletion vs_input vs_opts vs_world = (Inr (Verify_ok s), w')
     \<and> locally_valid vs_voucher_options (s_principal_pubkey s) 110 vs_voucher ''https://mint'' secret"
proof -
  obtain s w' where l: "verifyCompletion vs_input vs_opts vs_world = (Inr (Verify_ok s), w')"
    using vs_login by blast
  have o: "op_challengeStore vs_opts = mc_ops" "op_sessionStore vs_opts = ms_ops"
    "op_aclResolver vs_opts = voucher_resolver vs_voucher_options" by (simp_all add: vs_opts_def)
  have v: "rq_voucher vs_body = Some vs_voucher" by (simp add: vs_body_def)
  have "s_session_id s \<notin> s_session_id ` ms_sess (w_sessions vs_world)"
    by (simp add: vs_world_def ms_sess_def ms_new_def)
  from voucher_login [OF o(1,2) vs_ready o(3) l vs_verified(1) v this]
  obtain mintUrl secret where m: "locally_valid vs_voucher_options (s_principal_pubkey s) 110 vs_voucher mintUrl secret"
    by (auto simp: vs_world_def)
  then have "mintUrl = ''https://mint''"
    using vs_mint by (simp add: locally_valid_def vs_voucher_options_def vs_voucher_def)
  then show ?thesis using l m by blast
qed

theorem refresh_outlives_voucher:
  assumes "op_sessionStore opts = ms_ops" and "ms_inv (w_sessions w)"
    and "op_aclResolver opts = voucher_resolver vopts" and "vo_fallback vopts = None"
    and "op_maxSessionLifetimeSeconds opts = None"
    and "refreshSession input opts w = (Inr (Inr s), w')"
  shows "s_expires_at s = w_now w + or_else (op_sessionTtlSeconds opts) 900
     \<and> vo_onMissingCredential vopts = Missing_trust_session"
proof -
  obtain x t d a r as' where
    d: "voucher_resolver vopts (s_principal_npub x) (s_principal_pubkey x)
         \<lparr>cx_voucher = None, cx_now = w_now w, cx_session = Some (s_roles x, s_permissions x)\<rparr> (w_acl w) = (Inr d, as')"
      "d_allowed d"
    and s: "s = rotated x (rotation_params opts x t (w_now w) d a r)"
    using ms.refresh_granted [OF assms(1,2,6)] assms(3) unfolding ms.refreshed_def by metis
  have "vo_onMissingCredential vopts = Missing_trust_session \<and> d_expires_at d = None"
    using d assms(4)
    by (auto simp: voucher_resolver_def voucher_resolve_def resolve_absent_def voucher_DENY_def
        dest!: voucher_deny_run(2) split: if_splits)
  then show ?thesis
    using s assms(5)
    by (simp add: rotated_def rotation_params_def session_ceiling_def decision_bound_def clampTtlToDecision_def)
qed

theorem refresh_outlives_voucher_witness:
  "\<exists>s w'. refreshSession scen_refresh_input vs_trusting vs_signed = (Inr (Inr s), w') \<and> s_expires_at s = 1390"
proof -
  obtain s w' where r: "refreshSession scen_refresh_input vs_trusting vs_signed = (Inr (Inr s), w')"
    using vs_refreshed by blast
  have o: "op_sessionStore vs_trusting = ms_ops" "op_maxSessionLifetimeSeconds vs_trusting = None"
    "op_sessionTtlSeconds vs_trusting = None"
    "op_aclResolver vs_trusting = voucher_resolver (vs_voucher_options\<lparr>vo_onMissingCredential := Missing_trust_session\<rparr>)"
    "vo_fallback (vs_voucher_options\<lparr>vo_onMissingCredential := Missing_trust_session\<rparr>) = None"
    by (simp_all add: vs_trusting_def vs_opts_def vs_voucher_options_def)
  have "w_now vs_signed = 490" by (simp add: vs_signed_def)
  then show ?thesis
    using refresh_outlives_voucher [OF o(1) vs_signed_inv o(4,5,2) r] r by (simp add: o(3))
qed

end
