(* ===== verification/VoucherOverlap.thy ===== *)
theory VoucherOverlap
  imports VoucherMint
begin

text \<open>
  Calls of \<open>getKey\<close> that overlap (\<open>mintClient.ts\<close>). \<open>getKey\<close> of \<open>VoucherMint\<close> runs a call
  from its start to its end; here a call is cut at its \<open>await\<close>s, so that the steps of several
  calls for one origin, the answers of the mint, the clock and \<open>clearCache\<close> come in any order.

  \<open>run_alone\<close>: a call whose steps nothing comes between does what \<open>getKey\<close> does.
  \<open>requests_two_each\<close>: in any order, a call makes two requests at most. \<open>requests_two_in_all\<close>:
  calls that do not overlap make two in all within the TTL. \<open>flood_requests\<close>: with two calls
  under way at a time, each makes two requests after all.
\<close>

section \<open>The calls and their steps\<close>

text \<open>
  A call with its keyset id and amount: its request is under way (with \<open>refreshed\<close> for the
  entry it will make), its first \<open>loadKeysets\<close> has returned, or it is over.
\<close>

datatype key_call =
    Requested string rat bool
  | Loaded string rat "(string, keyset) jsmap"
  | Settled "MintFailureReason + string"

record key_world = mint_world +
  kw_calls :: "key_call list"

text \<open>\<open>Mint_answers n\<close> is the answer to the request of call \<open>n\<close>, \<open>Goes_on n\<close> its microtask.\<close>

datatype key_input =
    Asks string rat
  | Mint_answers nat net_answer
  | Goes_on nat
  | Passes nat
  | Clears

definition keys_url :: "string \<Rightarrow> net_request" where
  "keys_url origin = \<lparr>nr_url = origin @ ''/v1/keys'', nr_body = None\<rparr>"

text \<open>What \<open>request\<close> and \<open>parseKeysets\<close> make of an answer.\<close>

definition read_keysets :: "net_answer \<Rightarrow> MintFailureReason + (string, keyset) jsmap" where
  "read_keysets ans =
     (case ans of
        Net_failed \<Rightarrow> Inl unavailable
      | Net_answer status body \<Rightarrow>
          if 200 \<le> status \<and> status \<le> 299
          then (case body of None \<Rightarrow> Inl unavailable | Some payload \<Rightarrow> parseKeysets payload)
          else if 400 \<le> status \<and> status < 500 then Inl malformed_response
          else Inl unavailable)"

definition send_request :: "string \<Rightarrow> 'm mint_world_scheme \<Rightarrow> 'm mint_world_scheme" where
  "send_request origin w = w\<lparr>mw_requests := mw_requests w @ [keys_url origin]\<rparr>"

definition fresh_keysets :: "string \<Rightarrow> 'm mint_world_scheme \<Rightarrow> (string, keyset) jsmap option" where
  "fresh_keysets origin w =
     (case jm_get (mw_cache w) origin of
        Some entry \<Rightarrow> if ce_expiresAt entry > of_int (mw_now w) then Some (ce_keysets entry) else None
      | None \<Rightarrow> None)"

definition put_keysets ::
  "'p mint_client \<Rightarrow> string \<Rightarrow> bool \<Rightarrow> (string, keyset) jsmap \<Rightarrow> 'm mint_world_scheme \<Rightarrow> 'm mint_world_scheme" where
  "put_keysets cl origin wasRefreshed keysets w =
     w\<lparr>mw_cache := jm_set origin
         \<lparr>ce_keysets = keysets, ce_expiresAt = of_int (mw_now w) + mk_ttl cl, ce_refreshed = wasRefreshed\<rparr>
         (mw_cache w)\<rparr>"

definition drop_keysets :: "string \<Rightarrow> 'm mint_world_scheme \<Rightarrow> 'm mint_world_scheme" where
  "drop_keysets origin w = w\<lparr>mw_cache := jm_delete origin (mw_cache w)\<rparr>"

text \<open>The end of \<open>getKey\<close>.\<close>

definition find_key :: "'p mint_client \<Rightarrow> (string, keyset) jsmap \<Rightarrow> string \<Rightarrow> rat \<Rightarrow> MintFailureReason + string" where
  "find_key cl keysets keysetId amount =
     (case jm_get keysets keysetId of
        None \<Rightarrow> Inl unknown_keyset
      | Some keys \<Rightarrow>
          let key = jm_get keys (show_number (mk_num_text cl) amount) in
          if truthy_str key then Inr (the key) else Inl unknown_keyset)"

definition set_call :: "nat \<Rightarrow> key_call \<Rightarrow> key_world \<Rightarrow> key_world" where
  "set_call n c w = w\<lparr>kw_calls := (kw_calls w)[n := c]\<rparr>"

definition add_call :: "key_call \<Rightarrow> key_world \<Rightarrow> key_world" where
  "add_call c w = w\<lparr>kw_calls := kw_calls w @ [c]\<rparr>"

text \<open>\<open>await loadKeysets(origin)\<close> up to its request, or to the cached value it returns.\<close>

definition start_call :: "string \<Rightarrow> string \<Rightarrow> rat \<Rightarrow> key_world \<Rightarrow> key_world" where
  "start_call origin keysetId amount w =
     (case fresh_keysets origin w of
        Some keysets \<Rightarrow> add_call (Loaded keysetId amount keysets) w
      | None \<Rightarrow> add_call (Requested keysetId amount False) (send_request origin w))"

text \<open>The answer: \<open>cache.set\<close>, and for the second load the end of the call.\<close>

definition answer_call :: "'p mint_client \<Rightarrow> string \<Rightarrow> nat \<Rightarrow> net_answer \<Rightarrow> key_world \<Rightarrow> key_world" where
  "answer_call cl origin n ans w =
     (if n < length (kw_calls w) then
        (case kw_calls w ! n of
           Requested keysetId amount wasRefreshed \<Rightarrow>
             (case read_keysets ans of
                Inl reason \<Rightarrow> set_call n (Settled (Inl reason)) w
              | Inr keysets \<Rightarrow>
                  set_call n (if wasRefreshed then Settled (find_key cl keysets keysetId amount)
                              else Loaded keysetId amount keysets)
                    (put_keysets cl origin wasRefreshed keysets w))
         | _ \<Rightarrow> w)
      else w)"

text \<open>After the first load: the second one, whose request is sent at once, or the end.\<close>

definition resume_call :: "'p mint_client \<Rightarrow> string \<Rightarrow> nat \<Rightarrow> key_world \<Rightarrow> key_world" where
  "resume_call cl origin n w =
     (if n < length (kw_calls w) then
        (case kw_calls w ! n of
           Loaded keysetId amount keysets \<Rightarrow>
             if jm_get keysets keysetId = None \<and> may_refetch origin w
             then set_call n (Requested keysetId amount True) (send_request origin (drop_keysets origin w))
             else set_call n (Settled (find_key cl keysets keysetId amount)) w
         | _ \<Rightarrow> w)
      else w)"

fun key_step :: "'p mint_client \<Rightarrow> string \<Rightarrow> key_input \<Rightarrow> key_world \<Rightarrow> key_world" where
  "key_step cl origin (Asks keysetId amount) w = start_call origin keysetId amount w"
| "key_step cl origin (Mint_answers n ans) w = answer_call cl origin n ans w"
| "key_step cl origin (Goes_on n) w = resume_call cl origin n w"
| "key_step cl origin (Passes dt) w = w\<lparr>mw_now := mw_now w + int dt\<rparr>"
| "key_step cl origin Clears w = w\<lparr>mw_cache := []\<rparr>"

definition key_run :: "'p mint_client \<Rightarrow> string \<Rightarrow> key_input list \<Rightarrow> key_world \<Rightarrow> key_world" where
  "key_run cl origin ins w = fold (key_step cl origin) ins w"

lemma key_run_simps [simp]:
  "key_run cl origin [] w = w"
  "key_run cl origin (i # ins) w = key_run cl origin ins (key_step cl origin i w)"
  "key_run cl origin (ins @ ins') w = key_run cl origin ins' (key_run cl origin ins w)"
  by (simp_all add: key_run_def)

lemmas key_pieces = send_request_def put_keysets_def drop_keysets_def set_call_def add_call_def

section \<open>In any order: two requests for each call\<close>

text \<open>How many requests a call may still make.\<close>

fun still :: "key_call \<Rightarrow> nat" where
  "still (Requested _ _ r) = (if r then 0 else 1)"
| "still (Loaded _ _ _) = 1"
| "still (Settled _) = 0"

definition still_all :: "key_world \<Rightarrow> nat" where
  "still_all w = sum_list (map still (kw_calls w))"

fun asked_now :: "key_input \<Rightarrow> nat" where
  "asked_now (Asks _ _) = 1"
| "asked_now _ = 0"

definition asked_in :: "key_input list \<Rightarrow> nat" where
  "asked_in ins = sum_list (map asked_now ins)"

lemma still_add [simp]: "still_all (add_call c w) = still_all w + still c"
  by (simp add: still_all_def add_call_def)

lemma still_world [simp]:
  "still_all (send_request origin w) = still_all w" "still_all (put_keysets cl origin r ks w) = still_all w"
  "still_all (drop_keysets origin w) = still_all w" "still_all (w\<lparr>mw_now := t\<rparr>) = still_all w"
  "still_all (w\<lparr>mw_cache := c\<rparr>) = still_all w"
  by (simp_all add: still_all_def key_pieces)

lemma still_set:
  assumes "n < length (kw_calls w)"
  shows "still_all (set_call n c w) + still (kw_calls w ! n) = still_all w + still c"
proof -
  let ?xs = "map still (kw_calls w)"
  have "?xs ! n \<le> sum_list ?xs" using assms by (intro elem_le_sum_list) simp
  then show ?thesis using sum_list_update [of n ?xs "still c"] assms
    by (simp add: still_all_def set_call_def map_update)
qed

lemma requests_world [simp]:
  "mw_requests (add_call c w) = mw_requests w" "mw_requests (set_call n c w) = mw_requests w"
  "mw_requests (put_keysets cl origin r ks w0) = mw_requests w0"
  "mw_requests (drop_keysets origin w0) = mw_requests w0"
  "mw_requests (send_request origin w0) = mw_requests w0 @ [keys_url origin]"
  "kw_calls (send_request origin w) = kw_calls w" "kw_calls (put_keysets cl origin r ks w) = kw_calls w"
  "kw_calls (drop_keysets origin w) = kw_calls w"
  by (simp_all add: key_pieces)

lemma key_step_still:
  "length (mw_requests (key_step cl origin i w)) + still_all (key_step cl origin i w)
     \<le> length (mw_requests w) + still_all w + 2 * asked_now i"
proof (cases i)
  case (Mint_answers n ans)
  have "mw_requests (answer_call cl origin n ans w) = mw_requests w"
    by (simp add: answer_call_def split: key_call.split sum.split)
  moreover have "still_all (answer_call cl origin n ans w) \<le> still_all w"
  proof (cases "n < length (kw_calls w)")
    case n: True
    show ?thesis
    proof (cases "kw_calls w ! n")
      case (Requested k a r)
      then have "still_all (set_call n c (put_keysets cl origin r ks w)) \<le> still_all w"
        if "still c \<le> still (kw_calls w ! n)" for c ks
        using still_set [of n "put_keysets cl origin r ks w" c] n that by simp
      moreover have "still_all (set_call n (Settled x) w) \<le> still_all w" for x
        using still_set [OF n, of "Settled x"] by simp
      ultimately show ?thesis
        using Requested n by (simp add: answer_call_def split: sum.split)
    qed (simp_all add: answer_call_def)
  qed (simp add: answer_call_def)
  ultimately show ?thesis using Mint_answers by simp
next
  case (Goes_on n)
  have settles: "still_all (set_call n (Settled x) w) \<le> still_all w" if "n < length (kw_calls w)" for x
    using still_set [OF that, of "Settled x"] by simp
  have "still_all (set_call n (Requested k a True) (send_request origin (drop_keysets origin w))) + 1 = still_all w"
    if "n < length (kw_calls w)" "kw_calls w ! n = Loaded k a ks" for k a ks
    using still_set [of n "send_request origin (drop_keysets origin w)" "Requested k a True"] that by simp
  then show ?thesis using Goes_on settles
    by (fastforce simp: resume_call_def split: key_call.split)
qed (auto simp: start_call_def split: option.split)

lemma requests_two_each:
  "length (mw_requests (key_run cl origin ins w)) + still_all (key_run cl origin ins w)
     \<le> length (mw_requests w) + still_all w + 2 * asked_in ins"
proof (induction ins arbitrary: w)
  case (Cons i ins)
  show ?case using Cons.IH [of "key_step cl origin i w"] key_step_still [of cl origin i w]
    by (simp add: asked_in_def)
qed (simp add: asked_in_def)

section \<open>One after the other: two requests in all\<close>

definition settled :: "key_call \<Rightarrow> bool" where
  "settled c \<longleftrightarrow> (case c of Settled _ \<Rightarrow> True | _ \<Rightarrow> False)"

definition idle :: "key_world \<Rightarrow> bool" where
  "idle w \<longleftrightarrow> list_all settled (kw_calls w)"

text \<open>Every call is over when the next one is made.\<close>

fun one_at_a_time :: "'p mint_client \<Rightarrow> string \<Rightarrow> key_input list \<Rightarrow> key_world \<Rightarrow> bool" where
  "one_at_a_time cl origin [] w \<longleftrightarrow> True"
| "one_at_a_time cl origin (i # ins) w \<longleftrightarrow>
     (asked_now i = 0 \<or> idle w) \<and> one_at_a_time cl origin ins (key_step cl origin i w)"

text \<open>The mint answers with usable keysets, and nobody clears the cache.\<close>

fun good_input :: "key_input \<Rightarrow> bool" where
  "good_input (Mint_answers _ ans) \<longleftrightarrow> \<not> isl (read_keysets ans)"
| "good_input Clears \<longleftrightarrow> False"
| "good_input _ \<longleftrightarrow> True"

fun waited_now :: "key_input \<Rightarrow> nat" where
  "waited_now (Passes dt) = dt"
| "waited_now _ = 0"

definition waited_in :: "key_input list \<Rightarrow> nat" where
  "waited_in ins = sum_list (map waited_now ins)"

text \<open>How many requests may still follow within \<open>T\<close> seconds when no call is under way.\<close>

definition spare :: "nat \<Rightarrow> string \<Rightarrow> 'm mint_world_scheme \<Rightarrow> nat" where
  "spare T origin w =
     (case jm_get (mw_cache w) origin of
        None \<Rightarrow> 2
      | Some e \<Rightarrow> if of_int (mw_now w + int T) < ce_expiresAt e then (if ce_refreshed e then 0 else 1) else 2)"

text \<open>All calls but \<open>n\<close> are over, and what may still be asked while \<open>n\<close> is under way.\<close>

definition only_call :: "nat \<Rightarrow> key_world \<Rightarrow> bool" where
  "only_call n w \<longleftrightarrow> (\<forall>m<length (kw_calls w). m \<noteq> n \<longrightarrow> settled (kw_calls w ! m))"

definition spare_with :: "nat \<Rightarrow> string \<Rightarrow> nat \<Rightarrow> key_world \<Rightarrow> nat" where
  "spare_with T origin n w =
     (if n < length (kw_calls w)
      then (case kw_calls w ! n of Requested _ _ r \<Rightarrow> if r then 0 else 1 | _ \<Rightarrow> spare T origin w)
      else spare T origin w)"

lemma settled_simps [simp]:
  "settled (Settled x)" "\<not> settled (Requested k a r)" "\<not> settled (Loaded k a ks)"
  by (simp_all add: settled_def)

lemma idle_only: "idle w \<Longrightarrow> only_call n w"
  by (simp add: idle_def only_call_def list_all_length)

lemma idle_spare: "idle w \<Longrightarrow> spare_with T origin n w = spare T origin w"
  by (auto simp: idle_def spare_with_def list_all_length settled_def split: key_call.split)

lemma spare_le: "spare T origin w \<le> 2"
  by (simp add: spare_def split: option.split)

lemma spare_calls [simp]: "spare T origin (w\<lparr>kw_calls := cs\<rparr>) = spare T origin w"
  by (simp add: spare_def split: option.split)

lemma spare_sel [simp]: "spare T origin (set_call n c w) = spare T origin w" "spare T origin (add_call c w) = spare T origin w"
  by (simp_all add: key_pieces)

lemma spare_later: "spare T origin (w\<lparr>mw_now := mw_now w + int dt\<rparr>) = spare (dt + T) origin w"
  by (simp add: spare_def add.assoc split: option.split)

lemma spare_put: "of_nat T < mk_ttl cl \<Longrightarrow> spare T origin (put_keysets cl origin r ks w) = (if r then 0 else 1)"
  by (simp add: spare_def put_keysets_def)

lemma spare_stale: "fresh_keysets origin w = None \<Longrightarrow> spare T origin w = 2"
  by (auto simp: spare_def fresh_keysets_def split: option.splits if_splits)

lemma spare_refetch: "may_refetch origin w \<Longrightarrow> 1 \<le> spare T origin w"
  by (auto simp: spare_def may_refetch_def split: option.splits)

lemma only_set: "only_call n w \<Longrightarrow> kw_calls w' = kw_calls w \<Longrightarrow> only_call n (set_call n c w')"
  by (simp add: only_call_def set_call_def)

lemma only_open: "only_call n w \<Longrightarrow> m < length (kw_calls w) \<Longrightarrow> \<not> settled (kw_calls w ! m) \<Longrightarrow> m = n"
  by (auto simp: only_call_def)

lemma spare_with_set: "n < length (kw_calls w) \<Longrightarrow> spare_with T origin n (set_call n c w)
     = (case c of Requested _ _ r \<Rightarrow> if r then 0 else 1 | _ \<Rightarrow> spare T origin w)"
  by (simp add: spare_with_def set_call_def split: key_call.split)

lemma spare_with_add: "kw_calls w' = kw_calls w \<Longrightarrow> spare_with T origin (length (kw_calls w)) (add_call c w')
     = (case c of Requested _ _ r \<Rightarrow> if r then 0 else 1 | _ \<Rightarrow> spare T origin w')"
  by (simp add: spare_with_def add_call_def split: key_call.split)

lemma ask_spare:
  assumes "idle w"
  shows "\<exists>n'. only_call n' (start_call origin k a w) \<and>
    length (mw_requests (start_call origin k a w)) + spare_with T origin n' (start_call origin k a w)
      \<le> length (mw_requests w) + spare T origin w"
proof -
  have o: "only_call (length (kw_calls w)) (add_call c w')" if "kw_calls w' = kw_calls w" for c w'
    using assms that by (simp add: only_call_def add_call_def idle_def list_all_length nth_append)
  show ?thesis
  proof (cases "fresh_keysets origin w")
    case None
    then show ?thesis using spare_stale [OF None] o
      by (intro exI [of _ "length (kw_calls w)"]) (simp add: start_call_def spare_with_add)
  next
    case (Some ks)
    then show ?thesis using o
      by (intro exI [of _ "length (kw_calls w)"]) (simp add: start_call_def spare_with_add)
  qed
qed

lemma answer_spare:
  assumes o: "only_call n w" and T: "of_nat T < mk_ttl cl" and ans: "\<not> isl (read_keysets ans)"
  shows "only_call n (answer_call cl origin m ans w) \<and> mw_requests (answer_call cl origin m ans w) = mw_requests w
     \<and> spare_with T origin n (answer_call cl origin m ans w) = spare_with T origin n w"
proof (cases "m < length (kw_calls w)")
  case m: True
  obtain ks where ks: "read_keysets ans = Inr ks" using ans by (cases "read_keysets ans") auto
  show ?thesis
  proof (cases "kw_calls w ! m")
    case (Requested k a r)
    then have "m = n" using only_open [OF o m] by simp
    then show ?thesis using Requested m ks only_set [OF o] spare_put [OF T, where origin = origin and r = True and ks = ks and w = w]
      spare_put [OF T, where origin = origin and r = False and ks = ks and w = w]
      by (simp add: answer_call_def spare_with_set) (simp add: spare_with_def)
  qed (use m o in \<open>simp_all add: answer_call_def\<close>)
qed (use o in \<open>simp add: answer_call_def\<close>)

lemma resume_spare:
  assumes o: "only_call n w"
  shows "only_call n (resume_call cl origin m w) \<and>
    length (mw_requests (resume_call cl origin m w)) + spare_with T origin n (resume_call cl origin m w)
      \<le> length (mw_requests w) + spare_with T origin n w"
proof (cases "m < length (kw_calls w)")
  case m: True
  show ?thesis
  proof (cases "kw_calls w ! m")
    case (Loaded k a ks)
    then have mn: "m = n" using only_open [OF o m] by simp
    then have "spare_with T origin n w = spare T origin w" using Loaded m by (simp add: spare_with_def)
    then show ?thesis using Loaded m mn only_set [OF o] spare_refetch [of origin w T]
      by (simp add: resume_call_def spare_with_set)
  qed (use m o in \<open>simp_all add: resume_call_def\<close>)
qed (use o in \<open>simp add: resume_call_def\<close>)

lemma step_spare:
  assumes o: "only_call n w" and i: "asked_now i = 0 \<or> idle w" and g: "good_input i"
    and T: "of_nat (waited_now i + T) < mk_ttl cl"
  shows "\<exists>n'. only_call n' (key_step cl origin i w) \<and>
    length (mw_requests (key_step cl origin i w)) + spare_with T origin n' (key_step cl origin i w)
      \<le> length (mw_requests w) + spare_with (waited_now i + T) origin n w"
proof (cases i)
  case (Asks k a)
  then show ?thesis using ask_spare [of w origin k a T] i idle_spare [of w T origin n] by simp
next
  case (Mint_answers m ans)
  then show ?thesis using answer_spare [OF o, of T cl ans origin m] T g by (intro exI [of _ n]) simp
next
  case (Goes_on m)
  then show ?thesis using resume_spare [OF o, of cl origin m T] by (intro exI [of _ n]) simp
next
  case (Passes dt)
  then show ?thesis using o spare_later [of T origin w dt]
    by (intro exI [of _ n]) (simp add: only_call_def spare_with_def cong: key_call.case_cong)
qed (use g in simp)

lemma run_spare:
  assumes "only_call n w" and "one_at_a_time cl origin ins w" and "list_all good_input ins"
    and "of_nat (waited_in ins) < mk_ttl cl"
  shows "length (mw_requests (key_run cl origin ins w)) \<le> length (mw_requests w) + spare_with (waited_in ins) origin n w"
  using assms
proof (induction ins arbitrary: n w)
  case (Cons i ins)
  have t: "waited_in (i # ins) = waited_now i + waited_in ins" by (simp add: waited_in_def)
  obtain n' where n': "only_call n' (key_step cl origin i w)"
    "length (mw_requests (key_step cl origin i w)) + spare_with (waited_in ins) origin n' (key_step cl origin i w)
      \<le> length (mw_requests w) + spare_with (waited_now i + waited_in ins) origin n w"
    using step_spare [OF Cons.prems(1), of i "waited_in ins" cl origin] Cons.prems(2-4) t by auto
  have "of_nat (waited_in ins) < mk_ttl cl"
    using Cons.prems(4) unfolding t of_nat_add by (meson le_add_same_cancel2 le_less_trans of_nat_0_le_iff)
  then show ?case using Cons.IH [OF n'(1)] Cons.prems(2,3) n'(2) t by fastforce
qed simp

lemma requests_two_in_all:
  assumes "idle w" and "one_at_a_time cl origin ins w" and "list_all good_input ins"
    and "of_nat (waited_in ins) < mk_ttl cl"
  shows "length (mw_requests (key_run cl origin ins w)) \<le> length (mw_requests w) + 2"
  using run_spare [OF idle_only [OF assms(1)] assms(2-4), of 0] idle_spare [OF assms(1)] spare_le
  by (metis add_left_mono order_trans)

section \<open>Two at a time: two requests for each call\<close>

definition under_way :: "key_world \<Rightarrow> nat" where
  "under_way w = length (filter (\<lambda>c. \<not> settled c) (kw_calls w))"

text \<open>At no moment of the run are more than \<open>b\<close> calls under way.\<close>

fun at_most_under_way :: "nat \<Rightarrow> 'p mint_client \<Rightarrow> string \<Rightarrow> key_input list \<Rightarrow> key_world \<Rightarrow> bool" where
  "at_most_under_way b cl origin [] w \<longleftrightarrow> under_way w \<le> b"
| "at_most_under_way b cl origin (i # ins) w \<longleftrightarrow>
     under_way w \<le> b \<and> at_most_under_way b cl origin ins (key_step cl origin i w)"

text \<open>
  Call \<open>n\<close> is in its second load when call \<open>n + 1\<close> starts: with no entry in the cache that one
  sends its request too, and its answer, the later one, replaces the entry of call \<open>n\<close> by one
  that may be fetched again.
\<close>

definition flood_round :: "string \<Rightarrow> rat \<Rightarrow> net_answer \<Rightarrow> nat \<Rightarrow> key_input list" where
  "flood_round keysetId amount ans n =
     [Asks keysetId amount, Mint_answers n ans, Mint_answers (Suc n) ans, Goes_on (Suc n)]"

fun flood :: "string \<Rightarrow> rat \<Rightarrow> net_answer \<Rightarrow> nat \<Rightarrow> key_input list" where
  "flood keysetId amount ans 0 = [Asks keysetId amount, Mint_answers 0 ans, Goes_on 0]"
| "flood keysetId amount ans (Suc n) = flood keysetId amount ans n @ flood_round keysetId amount ans n"

text \<open>The state after a round: the last of \<open>n + 1\<close> calls is in its second load.\<close>

definition flooded :: "string \<Rightarrow> string \<Rightarrow> rat \<Rightarrow> nat \<Rightarrow> key_world \<Rightarrow> bool" where
  "flooded origin keysetId amount n w \<longleftrightarrow>
     jm_get (mw_cache w) origin = None
     \<and> (\<exists>cs. kw_calls w = cs @ [Requested keysetId amount True] \<and> length cs = n \<and> list_all settled cs)"

lemma settled_none: "list_all settled cs \<Longrightarrow> filter (\<lambda>c. \<not> settled c) cs = []"
  by (simp add: filter_empty_conv list_all_iff)

lemma at_most_append: "at_most_under_way b cl origin ins w
    \<Longrightarrow> at_most_under_way b cl origin ins' (key_run cl origin ins w)
    \<Longrightarrow> at_most_under_way b cl origin (ins @ ins') w"
  by (induction ins arbitrary: w) auto

lemma flood_first:
  assumes "read_keysets ans = Inr ks" and "jm_get ks keysetId = None"
    and "jm_get (mw_cache w) origin = None" and "kw_calls w = []"
  shows "flooded origin keysetId amount 0 (key_run cl origin (flood keysetId amount ans 0) w)
    \<and> length (mw_requests (key_run cl origin (flood keysetId amount ans 0) w)) = length (mw_requests w) + 2
    \<and> at_most_under_way 2 cl origin (flood keysetId amount ans 0) w"
  using assms
  by (simp add: start_call_def fresh_keysets_def answer_call_def resume_call_def may_refetch_def key_pieces
      flooded_def under_way_def)

lemma flood_next:
  assumes ks: "read_keysets ans = Inr ks" "jm_get ks keysetId = None"
    and f: "flooded origin keysetId amount n w"
  shows "flooded origin keysetId amount (Suc n) (key_run cl origin (flood_round keysetId amount ans n) w)
    \<and> length (mw_requests (key_run cl origin (flood_round keysetId amount ans n) w)) = length (mw_requests w) + 2
    \<and> at_most_under_way 2 cl origin (flood_round keysetId amount ans n) w"
proof -
  obtain cs where cs: "kw_calls w = cs @ [Requested keysetId amount True]" "length cs = n" "list_all settled cs"
    and c: "jm_get (mw_cache w) origin = None"
    using f by (auto simp: flooded_def)
  have app: "(cs @ [a, b]) ! Suc n = b" "(cs @ [a, b]) ! n = a" "(cs @ [a]) ! n = a" "(cs @ [a, b])[n := x] = cs @ [x, b]"
    "(cs @ [a, b])[Suc n := x] = cs @ [a, x]" for a b x
    using cs(2) by (simp_all add: nth_append list_update_append)
  show ?thesis
    using cs c ks
    by (simp add: flood_round_def start_call_def fresh_keysets_def answer_call_def resume_call_def may_refetch_def
        key_pieces flooded_def under_way_def app settled_none)
qed

lemma flood_requests:
  assumes "read_keysets ans = Inr ks" and "jm_get ks keysetId = None"
    and "jm_get (mw_cache w) origin = None" and "kw_calls w = []"
  shows "flooded origin keysetId amount n (key_run cl origin (flood keysetId amount ans n) w)
    \<and> length (mw_requests (key_run cl origin (flood keysetId amount ans n) w)) = length (mw_requests w) + 2 * Suc n
    \<and> at_most_under_way 2 cl origin (flood keysetId amount ans n) w"
proof (induction n)
  case 0
  then show ?case using flood_first [OF assms] by simp
next
  case (Suc n)
  then show ?case using flood_next [OF assms(1,2), of origin amount n _ cl] at_most_append by fastforce
qed

lemma flood_inputs:
  assumes "read_keysets ans = Inr ks"
  shows "asked_in (flood keysetId amount ans n) = Suc n" and "waited_in (flood keysetId amount ans n) = 0"
    and "list_all good_input (flood keysetId amount ans n)"
  using assms by (induction n) (simp_all add: asked_in_def waited_in_def flood_round_def)

section \<open>Alone: the call of \<open>getKey\<close>\<close>

text \<open>The answer \<open>request\<close> gets in \<open>VoucherMint\<close>, and the time it takes.\<close>

definition own_answer :: "string \<Rightarrow> nat \<Rightarrow> 'm mint_world_scheme \<Rightarrow> key_input list" where
  "own_answer origin n w =
     [Passes (mw_delay w (mw_requests w)), Mint_answers n (mw_answer w (mw_requests w) (keys_url origin))]"

lemma fetch_read:
  "fetch_keysets cl origin r w =
     (let w1 = (send_request origin w)\<lparr>mw_now := mw_now w + int (mw_delay w (mw_requests w))\<rparr> in
      case read_keysets (mw_answer w (mw_requests w) (keys_url origin)) of
        Inl reason \<Rightarrow> (Inr (Inl reason), w1)
      | Inr ks \<Rightarrow> (Inr (Inr ks), put_keysets cl origin r ks w1))"
  by (cases "mw_answer w (mw_requests w) (keys_url origin)")
    (auto simp: fetch_keysets_def mint_bind_def mint_request_def io_bind_def Let_def keys_url_def read_keysets_def
      key_pieces split: option.split sum.split)

lemma fetch_returns: "\<exists>x w1. fetch_keysets cl origin r w = (Inr x, w1)"
  by (simp add: fetch_read Let_def split: sum.split)

lemma load_read:
  "loadKeysets cl origin r w =
     (case fresh_keysets origin w of Some ks \<Rightarrow> (Inr (Inr ks), w) | None \<Rightarrow> fetch_keysets cl origin r w)"
  by (simp add: loadKeysets_def fresh_keysets_def split: option.split)

lemma refetch_read: "refetch cl origin w = fetch_keysets cl origin True (drop_keysets origin w)"
  by (simp add: refetch_def load_read fresh_keysets_def drop_keysets_def)

text \<open>The call at its own place after the others, which a step of its own does not touch.\<close>

definition with_call :: "key_call list \<Rightarrow> key_call \<Rightarrow> key_world \<Rightarrow> key_world" where
  "with_call cs c w = w\<lparr>kw_calls := cs @ [c]\<rparr>"

lemma with_call_sel [simp]:
  "kw_calls (with_call cs c w) = cs @ [c]" "mw_requests (with_call cs c w) = mw_requests w"
  "mw_answer (with_call cs c w) = mw_answer w" "mw_delay (with_call cs c w) = mw_delay w"
  "may_refetch origin (with_call cs c w) = may_refetch origin w"
  by (simp_all add: with_call_def may_refetch_def split: option.split)

lemma with_call_pieces:
  "set_call (length cs) d (with_call cs c w) = with_call cs d w"
  "set_call (length cs) d (put_keysets cl origin r ks (with_call cs c w)) = with_call cs d (put_keysets cl origin r ks w)"
  "set_call (length cs) d (send_request origin (drop_keysets origin (with_call cs c w)))
     = with_call cs d (send_request origin (drop_keysets origin w))"
  "(with_call cs c w)\<lparr>mw_now := t\<rparr> = with_call cs c (w\<lparr>mw_now := t\<rparr>)"
  "add_call c w = with_call (kw_calls w) c w"
  "add_call c (send_request origin w) = with_call (kw_calls w) c (send_request origin w)"
  by (cases w, simp add: with_call_def key_pieces)+

lemma answer_own:
  assumes "fetch_keysets cl origin r w = (Inr x, w1)"
  shows "key_run cl origin (own_answer origin (length cs) w) (with_call cs (Requested k a r) (send_request origin w))
     = with_call cs (case x of Inl reason \<Rightarrow> Settled (Inl reason)
         | Inr ks \<Rightarrow> if r then Settled (find_key cl ks k a) else Loaded k a ks) w1"
proof -
  have now: "mw_now (with_call cs c (send_request origin w)) = mw_now w" for c
    by (simp add: with_call_def send_request_def)
  show ?thesis
    using assms
    by (auto simp: fetch_read Let_def own_answer_def with_call_pieces now answer_call_def split: sum.splits)
qed

lemma run_alone:
  assumes o: "ml_resolve (mk_allowlist cl) url = Some origin" "origin \<noteq> []"
    and g: "getKey cl url keysetId amount w = (out, w')"
  shows "\<exists>ins r. out = Inr r \<and> asked_in ins = 1
     \<and> key_run cl origin ins w = with_call (kw_calls w) (Settled r) w'"
proof -
  let ?cs = "kw_calls w" and ?n = "length (kw_calls w)"
  let ?loaded = "\<lambda>x. case x of Inl reason \<Rightarrow> Settled (Inl reason) | Inr ks \<Rightarrow> Loaded keysetId amount ks"
  obtain x w1 where l: "loadKeysets cl origin False w = (Inr x, w1)"
    using fetch_returns [of cl origin False w] by (cases "fresh_keysets origin w") (auto simp: load_read)
  have "\<exists>ins. asked_in ins = 1 \<and> key_run cl origin ins w = with_call ?cs (?loaded x) w1"
  proof (cases "fresh_keysets origin w")
    case (Some ks)
    then show ?thesis using l
      by (intro exI [of _ "[Asks keysetId amount]"]) (auto simp: load_read start_call_def with_call_pieces asked_in_def)
  next
    case None
    then have "fetch_keysets cl origin False w = (Inr x, w1)" using l by (simp add: load_read)
    from answer_own [OF this, of ?cs keysetId amount] None show ?thesis
      by (intro exI [of _ "Asks keysetId amount # own_answer origin ?n w"])
        (simp add: start_call_def with_call_pieces asked_in_def own_answer_def split: sum.splits)
  qed
  then obtain ins where ins: "asked_in ins = 1" "key_run cl origin ins w = with_call ?cs (?loaded x) w1" by blast
  show ?thesis
  proof (cases x)
    case (Inl reason)
    then have "out = Inr (Inl reason)" "w' = w1"
      using g l o by (auto simp: getKey_def requireAllowedOrigin_def mint_bind_def)
    then show ?thesis using ins Inl by auto
  next
    case (Inr ks)
    show ?thesis
    proof (cases "jm_get ks keysetId = None \<and> may_refetch origin w1")
      case True
      obtain y w2 where y: "fetch_keysets cl origin True (drop_keysets origin w1) = (Inr y, w2)"
        using fetch_returns by blast
      have out: "out = Inr (case y of Inl reason \<Rightarrow> Inl reason | Inr ks2 \<Rightarrow> find_key cl ks2 keysetId amount)" "w' = w2"
        using g l y True Inr o
        by (auto simp: getKey_def requireAllowedOrigin_def mint_bind_def refetch_read find_key_def Let_def
            split: sum.splits option.splits if_splits)
      have "key_run cl origin (ins @ Goes_on ?n # own_answer origin ?n (drop_keysets origin w1)) w
          = with_call ?cs (Settled (case y of Inl reason \<Rightarrow> Inl reason | Inr ks2 \<Rightarrow> find_key cl ks2 keysetId amount)) w2"
        using ins(2) Inr True answer_own [OF y, of ?cs keysetId amount]
        by (auto simp: resume_call_def with_call_pieces split: sum.split)
      moreover have "asked_in (ins @ Goes_on ?n # own_answer origin ?n (drop_keysets origin w1)) = 1"
        using ins(1) by (simp add: asked_in_def own_answer_def)
      ultimately show ?thesis using out by blast
    next
      case False
      have out: "out = Inr (find_key cl ks keysetId amount)" "w' = w1"
        using g l False Inr o
        by (auto simp: getKey_def requireAllowedOrigin_def mint_bind_def find_key_def Let_def
            split: sum.splits option.splits if_splits)
      have "key_run cl origin (ins @ [Goes_on ?n]) w = with_call ?cs (Settled (find_key cl ks keysetId amount)) w1"
        using ins(2) Inr False by (auto simp: resume_call_def with_call_pieces)
      moreover have "asked_in (ins @ [Goes_on ?n]) = 1" using ins(1) by (simp add: asked_in_def)
      ultimately show ?thesis using out by blast
    qed
  qed
qed

end
