(* ===== verification/VoucherProperties.thy ===== *)
theory VoucherProperties
  imports VoucherScenario VoucherOverlap
begin

text \<open>
  The properties of the voucher resolver: what a grant and a degraded grant mean, what leaves
  the server and when, how refusals look, what an issuer's signature binds, and the flaws of
  the parser, of the signed bytes and of the issuer allowlist.
\<close>

section \<open>Access by voucher\<close>

text \<open>
  C7. The voucher resolver allows only for a voucher that is on the mint allowlist, well formed,
  locked to the key that signed, unexpired, signed by an issuer trusted on that mint, and
  that the mint confirmed with a valid DLEQ proof and the state UNSPENT, or failed to and
  the policy degrades; the decision carries exactly what the policy granted and the
  voucher's expiry.
\<close>

theorem voucher_grant_sound:
  assumes "voucher_resolver opts npub pubkey context w = (Inr d, w')" and "cx_voucher context = Some v"
    and "d_allowed d"
  shows "\<exists>mintUrl secret. locally_valid opts pubkey (cx_now context) v mintUrl secret
     \<and> d_expires_at d = map_option Fin (pv_expiresAt secret)
     \<and> ((mint_confirmed (vo_mintClient opts) mintUrl v w
          \<and> d_reason d = None \<and> (\<exists>granted. vo_grant opts (verified_voucher mintUrl pubkey secret) = Inr granted
              \<and> undeclaredKeys (vo_permissionRegistry opts) granted = []
              \<and> d_roles d = (case granted of None \<Rightarrow> [] | Some g \<Rightarrow> vg_roles g)
              \<and> d_permissions d = (case granted of None \<Rightarrow> [] | Some g \<Rightarrow> vg_permissions g)))
        \<or> (\<exists>reason grant. mint_failed (vo_mintClient opts) mintUrl v reason w
              \<and> ap_decide (vo_availability opts) reason = Avail_degrade grant
              \<and> d_reason d = Some ''NAP_VOUCHER_DEGRADED''
              \<and> d_roles d = dg_roles grant \<and> d_permissions d = dg_permissions grant))"
  using resolver_allows [OF assms] by blast

theorem voucher_grant_sound_witness:
  "\<exists>w. voucher_resolver vs_voucher_options [] vs_key vs_context vs_acl = (Inr vs_decision, w)
     \<and> mint_confirmed vs_client ''https://mint'' vs_voucher vs_acl"
proof -
  obtain w where w: "voucher_resolver vs_voucher_options [] vs_key vs_context vs_acl = (Inr vs_decision, w)"
    using vs_allowed by blast
  have c: "cx_voucher vs_context = Some vs_voucher" "d_allowed vs_decision" "d_reason vs_decision = None"
    "vo_mintClient vs_voucher_options = vs_client" "vo_mintAllowlist vs_voucher_options = vs_mints"
    "v_mint_url vs_voucher = ''https://mint''"
    by (simp_all add: vs_context_def vs_decision_def vs_voucher_options_def vs_voucher_def)
  from voucher_grant_sound [OF w c(1,2)] show ?thesis
    using w c(3-6) vs_mint by (auto simp: locally_valid_def)
qed

text \<open>
  C8. No request leaves the server for a voucher that fails a local check, and the requests made
  go to the two endpoints of the origin the allowlist resolves its mint to and nowhere else,
  whatever the credential says.
\<close>

theorem voucher_no_early_contact:
  assumes "voucher_resolver opts npub pubkey context w = (x, w')" and "cx_voucher context = Some v"
    and "mw_requests w' \<noteq> mw_requests w"
  shows "\<exists>mintUrl secret origin new. locally_valid opts pubkey (cx_now context) v mintUrl secret
     \<and> ml_resolve (mk_allowlist (vo_mintClient opts)) mintUrl = Some origin
     \<and> mw_requests w' = mw_requests w @ new
     \<and> nr_url ` set new \<subseteq> {origin @ ''/v1/keys'', origin @ ''/v1/checkstate''}"
  using contact [OF assms] unfolding asked_def mint_urls_def by fastforce

theorem voucher_no_early_contact_witness:
  "\<exists>w secret. mw_requests w \<noteq> mw_requests vs_acl_down
     \<and> snd (voucher_resolver vs_voucher_options [] vs_key vs_context vs_acl_down) = w
     \<and> locally_valid vs_voucher_options vs_key 110 vs_voucher ''https://mint'' secret"
proof -
  obtain x w where w: "voucher_resolver vs_voucher_options [] vs_key vs_context vs_acl_down = (x, w)" by fastforce
  have n: "mw_requests w \<noteq> mw_requests vs_acl_down" using vs_contacted [of "[]"] w by simp
  have c: "cx_voucher vs_context = Some vs_voucher" "cx_now vs_context = 110"
    "vo_mintAllowlist vs_voucher_options = vs_mints" "v_mint_url vs_voucher = ''https://mint''"
    by (simp_all add: vs_context_def vs_voucher_options_def vs_voucher_def)
  from voucher_no_early_contact [OF w c(1) n] show ?thesis
    using w n c vs_mint by (auto simp: locally_valid_def)
qed

text \<open>
  C9. A degraded grant is only given when the mint was unavailable (never on a clear answer), in
  a deployment that chose to degrade, to a voucher that passed every local check; it is the
  configured grant, has no destructive permission or role, and ends with the voucher.
\<close>

theorem degraded_grant_bounded:
  assumes "createMintAvailabilityPolicy options = Inr (vo_availability opts)"
    and "voucher_resolver opts npub pubkey context w = (Inr d, w')" and "cx_voucher context = Some v"
    and "d_allowed d" and "d_reason d = Some ''NAP_VOUCHER_DEGRADED''"
  shows "\<exists>mintUrl secret grant. locally_valid opts pubkey (cx_now context) v mintUrl secret
     \<and> mint_failed (vo_mintClient opts) mintUrl v unavailable w
     \<and> ao_onMintUnavailable options = Some ''degrade'' \<and> ao_degradedGrant options = Some grant
     \<and> d_roles d = dg_roles grant \<and> d_permissions d = dg_permissions grant
     \<and> set (d_permissions d) \<inter> set (or_else (ao_destructivePermissions options) []) = {}
     \<and> set (d_roles d) \<inter> set (or_else (ao_destructiveRoles options) []) = {}
     \<and> d_expires_at d = map_option Fin (pv_expiresAt secret)"
proof -
  from resolver_allows [OF assms(2-4)] assms(5) obtain mintUrl secret reason grant where
    g: "locally_valid opts pubkey (cx_now context) v mintUrl secret"
      "d_expires_at d = map_option Fin (pv_expiresAt secret)"
      "mint_failed (vo_mintClient opts) mintUrl v reason w"
      "ap_decide (vo_availability opts) reason = Avail_degrade grant"
      "d_roles d = dg_roles grant" "d_permissions d = dg_permissions grant"
    by auto
  show ?thesis using g degrades_only_unavailable [OF assms(1) g(4)] by metis
qed

theorem degraded_grant_bounded_witness:
  "\<exists>d w. voucher_resolver vs_voucher_options [] vs_key vs_context vs_acl_down = (Inr d, w)
     \<and> d_permissions d = [''read''] \<and> mint_failed vs_client ''https://mint'' vs_voucher unavailable vs_acl_down"
proof -
  let ?d = "vs_decision\<lparr>d_roles := [], d_permissions := [''read''], d_reason := Some ''NAP_VOUCHER_DEGRADED''\<rparr>"
  obtain w where w: "voucher_resolver vs_voucher_options [] vs_key vs_context vs_acl_down = (Inr ?d, w)"
    using vs_degraded by blast
  have c: "cx_voucher vs_context = Some vs_voucher" "d_allowed ?d" "d_reason ?d = Some ''NAP_VOUCHER_DEGRADED''"
    "vo_mintClient vs_voucher_options = vs_client" "vo_mintAllowlist vs_voucher_options = vs_mints"
    "v_mint_url vs_voucher = ''https://mint''"
    by (simp_all add: vs_context_def vs_decision_def vs_voucher_options_def vs_voucher_def)
  have p: "createMintAvailabilityPolicy vs_policy_options = Inr (vo_availability vs_voucher_options)"
    by (simp add: vs_policy_eq vs_voucher_options_def)
  from degraded_grant_bounded [OF p w c(1,2,3)] show ?thesis
    using w c(4-6) vs_mint by (auto simp: locally_valid_def)
qed

text \<open>
  C39. With a permission registry wired, every decision on a presented voucher that the resolver
  allows carries only permissions and roles the registry declares, degraded grants included.
  (Without a voucher, the decision of a fallback resolver or of a trusted session is passed
  on as it is.)
\<close>

theorem voucher_grants_declared:
  assumes "voucher_resolver opts npub pubkey context w = (Inr d, w')" and "cx_voucher context = Some v"
    and "d_allowed d" and "vo_permissionRegistry opts = Some reg"
  shows "set (d_permissions d) \<subseteq> set (rl_permissions reg) \<and> set (d_roles d) \<subseteq> set (rl_roles reg)"
  using resolver_allows [OF assms(1-3)] assms(4)
  by (auto simp: undeclared_none split: option.splits dest!: subsetD)

theorem voucher_grants_declared_witness:
  "\<exists>w. voucher_resolver vs_voucher_options [] vs_key vs_context vs_acl = (Inr vs_decision, w)
     \<and> set (d_permissions vs_decision) \<subseteq> {''read'', ''pay''}"
proof -
  obtain w where w: "voucher_resolver vs_voucher_options [] vs_key vs_context vs_acl = (Inr vs_decision, w)"
    using vs_allowed by blast
  have c: "cx_voucher vs_context = Some vs_voucher" "d_allowed vs_decision"
    "vo_permissionRegistry vs_voucher_options = Some \<lparr>rl_permissions = [''read'', ''pay''], rl_roles = [''member'']\<rparr>"
    by (simp_all add: vs_context_def vs_decision_def vs_voucher_options_def)
  show ?thesis using w voucher_grants_declared [OF w c] by simp
qed

theorem voucher_refusals_uniform:
  assumes "voucher_resolver opts npub pubkey context w = (Inr d, w')" and "\<not> d_allowed d"
    and "cx_voucher context = None \<Longrightarrow> vo_fallback opts = None"
  shows "\<exists>code details. d = voucher_DENY (VOUCHER_DENIAL_CODES code)
     \<and> (vo_auditLogger opts = None \<or> vw_audit w' = vw_audit w @
          [\<lparr>ve_code = VOUCHER_DENIAL_CODES code, ve_npub = npub, ve_pubkey = pubkey, ve_success = False,
            ve_details = details\<rparr>])"
  using resolver_refuses [OF assms] unfolding refusal_def by blast

theorem voucher_refusals_uniform_witness:
  "\<exists>d w code. voucher_resolver vs_voucher_options [] vs_issuer vs_context vs_acl = (Inr d, w)
     \<and> d = voucher_DENY (VOUCHER_DENIAL_CODES code)"
proof -
  obtain d w where r: "voucher_resolver vs_voucher_options [] vs_issuer vs_context vs_acl = (Inr d, w)"
    and d: "\<not> d_allowed d"
    using vs_refused by blast
  have v: "cx_voucher vs_context = None \<Longrightarrow> vo_fallback vs_voucher_options = None" by (simp add: vs_context_def)
  show ?thesis using voucher_refusals_uniform [OF r d v] r by blast
qed

section \<open>Requests to a mint\<close>

definition vs_key_world :: key_world where
  "vs_key_world =
     \<lparr>mw_cache = [], mw_requests = [], mw_answer = (\<lambda>_ _. Net_failed), mw_delay = (\<lambda>_. 0), mw_now = 100, kw_calls = []\<rparr>"

lemma vs_read: "read_keysets (Net_answer 200 (Some vs_keys)) = Inr [(''k'', [(''1'', ''07'')])]"
proof -
  have "parseKeysets vs_keys = Inr [(''k'', [(''1'', ''07'')])]" by code_simp
  then show ?thesis by (simp add: read_keysets_def)
qed

text \<open>
  C31. However the calls of getKey for one mint, the mint's answers, the clock and clearCache
  interleave, a call costs the mint at most two requests for its keys; and calls that do not
  overlap, all answered with keysets and with nobody clearing the cache, cost two in all
  within the cache's TTL, whatever keysets they ask for.
\<close>

theorem mint_requests_bounded:
  assumes "idle w"
  shows "length (mw_requests (key_run cl origin ins w)) \<le> length (mw_requests w) + 2 * asked_in ins
    \<and> (one_at_a_time cl origin ins w \<longrightarrow> list_all good_input ins \<longrightarrow> of_nat (waited_in ins) < mk_ttl cl \<longrightarrow>
       length (mw_requests (key_run cl origin ins w)) \<le> length (mw_requests w) + 2)"
proof -
  have "still c = 0" if "settled c" for c using that by (cases c) simp_all
  then have "still_all w = 0" using assms by (simp add: still_all_def idle_def list_all_iff)
  then have "length (mw_requests (key_run cl origin ins w)) \<le> length (mw_requests w) + 2 * asked_in ins"
    using requests_two_each [of cl origin ins w] by simp
  then show ?thesis using requests_two_in_all [OF assms] by blast
qed

text \<open>Two calls for a keyset the mint does not have, the second after the first.\<close>

theorem mint_requests_bounded_witness:
  "length (mw_requests (key_run vs_client ''https://mint''
     [Asks ''other'' 1, Mint_answers 0 (Net_answer 200 (Some vs_keys)), Goes_on 0, Passes 3,
      Mint_answers 0 (Net_answer 200 (Some vs_keys)), Asks ''other'' 1, Goes_on 1, Asks ''another'' 1] vs_key_world)) \<le> 2"
proof -
  let ?ins = "[Asks ''other'' 1, Mint_answers 0 (Net_answer 200 (Some vs_keys)), Goes_on 0, Passes 3,
      Mint_answers 0 (Net_answer 200 (Some vs_keys)), Asks ''other'' 1, Goes_on 1, Asks ''another'' 1]"
  have i: "idle vs_key_world" by (simp add: idle_def vs_key_world_def)
  have "mk_ttl vs_client > 3" by (simp add: vs_client_eq)
  moreover have "jm_get [] k = None" "jm_get [(''k'', x)] ''other'' = None" "jm_get [(''k'', x)] ''another'' = None" for k and x :: keyset
    by (simp_all add: jm_get_def)
  ultimately have "one_at_a_time vs_client ''https://mint'' ?ins vs_key_world"
    by (simp add: vs_key_world_def idle_def start_call_def fresh_keysets_def answer_call_def resume_call_def
        may_refetch_def key_pieces vs_read jm_get_set jm_get_delete)
  moreover have "list_all good_input ?ins" by (simp add: vs_read)
  moreover have "of_nat (waited_in ?ins) < mk_ttl vs_client" by (simp add: waited_in_def vs_client_eq)
  moreover have "mw_requests vs_key_world = []" by (simp add: vs_key_world_def)
  ultimately show ?thesis
    using mint_requests_bounded [OF i, of vs_client "''https://mint''" ?ins] by auto
qed



section \<open>What an issuer signs\<close>



theorem hostile_tag_throws:
  assumes "cx_voucher context = Some v" and "v_secret v = hostile_secret"
    and "ml_resolve (vo_mintAllowlist opts) (v_mint_url v) = Some mintUrl" and "mintUrl \<noteq> []"
  shows "voucher_resolver opts npub pubkey context w = (Inl (Exn ''TypeError''), w)"
  using assms hostile_parse
  by (simp add: voucher_resolver_def voucher_resolve_def local_checks_def raw_of_def as_string_def as_number_def)

theorem hostile_tag_throws_witness:
  "fst (voucher_resolver vs_voucher_options [] vs_key (vs_context\<lparr>cx_voucher := Some (vs_voucher\<lparr>v_secret := hostile_secret\<rparr>)\<rparr>) vs_acl)
     = Inl (Exn ''TypeError'')"
proof -
  let ?v = "vs_voucher\<lparr>v_secret := hostile_secret\<rparr>"
  have "ml_resolve (vo_mintAllowlist vs_voucher_options) (v_mint_url ?v) = Some ''https://mint''"
    by (simp add: vs_voucher_options_def vs_voucher_def vs_mint)
  then show ?thesis
    using hostile_tag_throws [of "vs_context\<lparr>cx_voucher := Some ?v\<rparr>" ?v vs_voucher_options "''https://mint''"] by simp
qed

text \<open>Two secrets with one canonical text: the texts of \<open>data\<close> and \<open>nonce\<close> are not escaped.\<close>

theorem canonical_bytes_collide:
  "voucherCanonicalBytes nt (secret_record VOUCHER (Some ''z'') ''x\",\"y'' [])
     = voucherCanonicalBytes nt (secret_record VOUCHER (Some ''y\",\"z'') ''x'' [])"
  by (simp add: voucherCanonicalBytes_def canonical_text_def secret_record_def quoted_def signed_tags_def)

text \<open>The issuer allowlist holds x-only keys alone: a compressed issuer key is on none.\<close>

lemma last_bar:
  assumes "a @ c # x = b @ c # y" and "c \<notin> set x" and "c \<notin> set y"
  shows "x = y"
proof -
  have t: "takeWhile (\<lambda>d. d \<noteq> c) (rev (u @ c # v)) = rev v" if "c \<notin> set v" for u v
  proof -
    have "takeWhile (\<lambda>d. d \<noteq> c) (rev v @ c # rev u) = rev v"
      using that by (subst takeWhile_append2) (auto simp del: rev_append)
    then show ?thesis by simp
  qed
  have "rev x = rev y" by (rule trans [OF t [OF assms(2), of a, symmetric] t [OF assms(3), of b, folded assms(1)]])
  then show ?thesis by (rule rev_is_rev_conv [THEN iffD1])
qed

lemma hex_no_bar: "is_hex_string n s \<Longrightarrow> CHR ''|'' \<notin> set s"
proof
  assume "is_hex_string n s" and "CHR ''|'' \<in> set s"
  then have "lower_hex (CHR ''|'')" by (simp add: is_hex_string_def list_all_iff)
  then show False by code_simp
qed

lemma compressed_shape:
  assumes "compressed_key k"
  shows "CHR ''|'' \<notin> set k" and "length k = 66"
proof -
  have c: "take 2 k = ''02'' \<or> take 2 k = ''03''" "is_hex_string 64 (drop 2 k)"
    using assms by (auto simp: compressed_key_def)
  have "CHR ''|'' \<notin> set (take 2 k) \<union> set (drop 2 k)"
    using c(1) hex_no_bar [OF c(2)] by auto
  then show "CHR ''|'' \<notin> set k" by (metis append_take_drop_id set_append)
  have "length (drop 2 k) = 64" using c(2) by (simp add: is_hex_string_def)
  then show "length k = 66" by simp
qed

theorem compressed_issuer_refused:
  assumes "createIssuerAllowlist entries mints = Inr al" and "compressed_key (to_lower (js_trim issuerPubkey))"
  shows "\<not> il_allows al mint issuerPubkey"
proof
  assume a: "il_allows al mint issuerPubkey"
  let ?k = "to_lower (js_trim issuerPubkey)"
  obtain e where e: "e \<in> set (il_entries al)" "issuer_key (to_lower mint) ?k = issuer_key (ai_mint e) (ai_issuerPubkey e)"
    and p: "map (parseIssuerEntry mints) entries = map Inr (il_entries al)"
    using a assms(1) by (auto simp: createIssuerAllowlist_def Let_def map_or_throw_Inr split: if_splits sum.splits)
  have "Inr e \<in> set (map (parseIssuerEntry mints) entries)" using e(1) p by simp
  then have h: "is_hex_string 64 (ai_issuerPubkey e)"
    by (auto simp: parseIssuerEntry_def Let_def HEX_64_def split: option.splits if_splits)
  have "?k = ai_issuerPubkey e"
    using last_bar [of "to_lower mint" "CHR ''|''" ?k "ai_mint e" "ai_issuerPubkey e"] e(2)
      compressed_shape(1) [OF assms(2)] hex_no_bar [OF h] by (simp add: issuer_key_def)
  then show False using h compressed_shape(2) [OF assms(2)] by (simp add: is_hex_string_def)
qed

end
