(* ===== verification/Fastify.thy ===== *)
theory Fastify
  imports Express
begin

text \<open>
  nap-adapter-fastify (\<open>adapter.ts\<close>): the same routes and guards over Fastify. The
  definitions carry the prefix \<open>fy_\<close>; the guard options, the \<open>writeSuccess\<close> objects and the
  answers have the shape they have in \<open>Express\<close> and share its records. A handler that throws
  rejects its promise and Fastify's error handler answers (\<open>Fail\<close>); a guard that returns
  without an answer lets the request through (\<open>Pass\<close>). A header is a string, or a list of
  them when it came several times. The section at the end compares the two adapters.
\<close>

section \<open>Requests and options\<close>

datatype header_value = One string | Many "string list"

record fastify_request =
  fq_headers :: "(string \<times> header_value) list"
  fq_method :: string
  fq_body :: "json option"
  fq_rawBody :: "byte list option"
  fq_protocol :: string
  fq_ip :: "string option"

text \<open>\<open>req.headers[name]\<close> where the code wants a string.\<close>

definition fy_header :: "fastify_request \<Rightarrow> string \<Rightarrow> string option" where
  "fy_header req name = (case map_of (fq_headers req) name of Some (One s) \<Rightarrow> Some s | _ \<Rightarrow> None)"

record ('cs, 'ss, 'as, 'rl) fastify_options =
  fo_server :: "('cs, 'ss, 'as, 'rl) server_options"
  fo_routePrefix :: "string option"
  fo_getExternalBaseUrl :: "(fastify_request \<Rightarrow> exn + string) option"
  fo_audienceResolver :: "(fastify_request \<Rightarrow> exn + string) option"
  fo_cookieName :: "string option"
  fo_clearCookieOptions :: "cookie_attrs option"
  fo_getClientIp :: "(fastify_request \<Rightarrow> string option) option"
  fo_rawBodyExtractor :: "(fastify_request \<Rightarrow> byte list option) option"
  fo_writeSuccess :: "success_writer option"
  fo_writeFailure :: "(VerifyCompleteFailure \<Rightarrow> http_response) option"

text \<open>An \<open>async\<close> handler under Fastify.\<close>

definition async_handler :: "('w, handled) io \<Rightarrow> ('w, handled) io" where
  "async_handler m w = (case m w of (Inl e, w') \<Rightarrow> (Inr (Fail e), w') | (Inr r, w') \<Rightarrow> (Inr r, w'))"

section \<open>The body parser\<close>

text \<open>
  \<open>installNapJsonParser\<close>, below the body limit: the raw bytes, and the parsed body. The bytes
  are decoded by \<open>Buffer.toString\<close>, which keeps a byte order mark.
\<close>

definition buffer_text :: "byte list \<Rightarrow> string" where
  "buffer_text bs = map char_of_byte (utf8_replace bs)"

definition fy_parseBody :: "byte list \<Rightarrow> fastify_request \<Rightarrow> exn + fastify_request" where
  "fy_parseBody bytes req =
     (let text = buffer_text bytes in
      if text = [] then Inr (req\<lparr>fq_rawBody := Some bytes, fq_body := Some (JObj [])\<rparr>)
      else case json_parse text of
             None \<Rightarrow> Inl (Exn ''SyntaxError'')
           | Some v \<Rightarrow> Inr (req\<lparr>fq_rawBody := Some bytes, fq_body := Some v\<rparr>))"

text \<open>\<open>(req.body as Record | undefined)?.npub\<close>; \<open>null\<close> has none either.\<close>

definition fy_npub :: "fastify_request \<Rightarrow> json option" where
  "fy_npub req = (case fq_body req of Some (JObj fs) \<Rightarrow> map_of fs ''npub'' | _ \<Rightarrow> None)"

section \<open>Answers\<close>

definition fy_unauthorized :: http_response where
  "fy_unauthorized =
     (case toPublicAuthFailure of (status, body) \<Rightarrow>
        reply_json status (Body_message (fr_status body) (fr_message body)))"

definition fy_forbidden :: "string \<Rightarrow> http_response" where
  "fy_forbidden reason = reply_json 403 (Body_message ''error'' reason)"

definition fy_rateLimited :: "int option \<Rightarrow> http_response" where
  "fy_rateLimited retryAfterSeconds =
     (reply_json 429 (Body_message ''error'' ''rate limited''))\<lparr>hs_retryAfter := retryAfterSeconds\<rparr>"

definition fy_defaultWriteFailure :: http_response where
  "fy_defaultWriteFailure =
     (case toPublicAuthFailure of (status, body) \<Rightarrow>
        reply_json status (Body_message (fr_status body) (fr_message body)))"

definition fy_issueChallengeFailure :: "VerifyCompleteFailure \<Rightarrow> http_response" where
  "fy_issueChallengeFailure f =
     (if vf_code f = NAP_INIT_RATE_LIMITED then fy_rateLimited (vf_retryAfterSeconds f)
      else reply_json (if vf_code f = NAP_INIT_INVALID_NPUB then 400 else 500)
             (Body_message ''error''
                (if vf_code f = NAP_INIT_INVALID_NPUB then ''bad request'' else ''internal error'')))"

section \<open>Reading the request\<close>

definition fy_parseCookieValue :: "string option \<Rightarrow> string \<Rightarrow> string option" where
  "fy_parseCookieValue hdr cookieName =
     (if \<not> truthy_str hdr then None
      else map_of (map (\<lambda>candidate.
             case js_split (CHR ''='') (js_trim candidate) of
               [] \<Rightarrow> ([], [])
             | name # rest \<Rightarrow> (name, js_join ''='' rest)) (js_split (CHR '';'') (the hdr))) cookieName)"

definition fy_session_token :: "fastify_request \<Rightarrow> string option \<Rightarrow> string option" where
  "fy_session_token req cookieName =
     (let bearerToken = (case fy_header req ''authorization'' of
            None \<Rightarrow> None
          | Some a \<Rightarrow> if starts_with a ''Bearer '' then Some (js_trim (drop (length ''Bearer '') a)) else None);
          cookieToken = fy_parseCookieValue (fy_header req ''cookie'') (or_else cookieName ''session'')
      in if truthy_str bearerToken then bearerToken else cookieToken)"

definition fy_guardNow :: "('ss, 'as) guard_options \<Rightarrow> ('cs, 'ss, 'as, 'rl) world \<Rightarrow> int" where
  "fy_guardNow gopts w = clock_now (go_clock gopts) w"

definition fy_loadSession ::
  "fastify_request \<Rightarrow> ('ss, 'as) guard_options \<Rightarrow> ('cs, 'ss, 'as, 'rl, SessionRecord option) act" where
  "fy_loadSession req gopts =
     (let token = fy_session_token req (go_cookieName gopts) in
      if \<not> truthy_str token then io_ret None
      else
        io_bind (on_sess (so_getByAccessToken (go_sessionStore gopts) (the token))) (\<lambda>session.
          case session of
            None \<Rightarrow> io_ret None
          | Some s \<Rightarrow>
              io_bind (io_get (fy_guardNow gopts)) (\<lambda>now.
                io_ret (if truthy_num (s_revoked_at s) \<or> s_expires_at s \<le> now then None else Some s))))"

definition fy_bearerTokenOf :: "fastify_request \<Rightarrow> string option" where
  "fy_bearerTokenOf req =
     (case fy_header req ''authorization'' of
        None \<Rightarrow> None
      | Some a \<Rightarrow> if starts_with (to_lower a) ''bearer '' then Some (js_trim (drop 7 a)) else None)"

text \<open>Of a step-up header that came several times the first counts.\<close>

definition fy_stepUpToken :: "fastify_request \<Rightarrow> string option" where
  "fy_stepUpToken req =
     (case map_of (fq_headers req) ''x-step-up-token'' of
        None \<Rightarrow> None
      | Some (One s) \<Rightarrow> Some s
      | Some (Many ss) \<Rightarrow> (case ss of [] \<Rightarrow> None | s # _ \<Rightarrow> Some s))"

definition fy_hasValidStepUpToken :: "fastify_request \<Rightarrow> SessionRecord \<Rightarrow> int \<Rightarrow> bool" where
  "fy_hasValidStepUpToken req s now \<longleftrightarrow>
     truthy_str (fy_stepUpToken req)
     \<and> truthy_str (s_step_up_token s)
     \<and> constantTimeEquals (the (s_step_up_token s)) (the (fy_stepUpToken req))
     \<and> truthy_num (s_step_up_expires_at s)
     \<and> the (s_step_up_expires_at s) > now"

section \<open>Guards\<close>

definition fy_requiresStepUp :: "string \<Rightarrow> PermissionRegistry option \<Rightarrow> bool" where
  "fy_requiresStepUp permission registry =
     (case registry of
        None \<Rightarrow> False
      | Some reg \<Rightarrow> list_ex (\<lambda>d. pd_key d = permission \<and> pd_stepUp d) (pr_permissions reg))"

definition fy_loadGuardContext ::
  "fastify_request \<Rightarrow> ('ss, 'as) guard_options \<Rightarrow> ('cs, 'ss, 'as, 'rl, guard_context) act" where
  "fy_loadGuardContext req gopts =
     io_bind (fy_loadSession req gopts) (\<lambda>session.
       case session of
         None \<Rightarrow> io_ret (Context_denied NO_SESSION None)
       | Some s \<Rightarrow>
           io_bind (resolveEffectiveAcl (go_aclResolver gopts) (Some (go_sessionStore gopts)) (go_clock gopts) s) (\<lambda>acl.
             case acl of
               Some a \<Rightarrow> io_ret (Context_ok s a)
             | None \<Rightarrow> io_ret (Context_denied ACL_DENIED (Some s))))"

definition fy_denyGuard ::
  "('ss, 'as) guard_options \<Rightarrow> GuardDenialCode \<Rightarrow> SessionRecord option \<Rightarrow> http_response
     \<Rightarrow> (string \<times> json) list option \<Rightarrow> ('cs, 'ss, 'as, 'rl, handled) act" where
  "fy_denyGuard gopts code session response details =
     io_bind (on_log (logGuardDenial (go_log gopts) code session details)) (\<lambda>_. io_ret (Reply response))"

definition fy_requirePermission ::
  "string \<Rightarrow> ('ss, 'as) guard_options \<Rightarrow> fastify_request \<Rightarrow> ('cs, 'ss, 'as, 'rl, handled) act" where
  "fy_requirePermission permission gopts req =
     async_handler (io_bind (fy_loadGuardContext req gopts) (\<lambda>context.
       case context of
         Context_denied code session \<Rightarrow>
           fy_denyGuard gopts code session fy_unauthorized (Some [(''permission'', JStr permission)])
       | Context_ok s acl \<Rightarrow>
           if permission \<notin> set (snd acl)
           then fy_denyGuard gopts PERMISSION_DENIED (Some s) (fy_forbidden ''forbidden'')
                  (Some [(''permission'', JStr permission)])
           else io_bind (io_get (fy_guardNow gopts)) (\<lambda>now.
                  if fy_requiresStepUp permission (go_registry gopts) \<and> \<not> fy_hasValidStepUpToken req s now
                  then fy_denyGuard gopts STEP_UP_REQUIRED (Some s) (fy_forbidden ''step-up required'')
                         (Some [(''permission'', JStr permission)])
                  else io_ret Pass)))"

definition fy_requireRole ::
  "string list \<Rightarrow> ('ss, 'as) guard_options \<Rightarrow> fastify_request \<Rightarrow> ('cs, 'ss, 'as, 'rl, handled) act" where
  "fy_requireRole accepted gopts req =
     async_handler (io_bind (fy_loadGuardContext req gopts) (\<lambda>context.
       case context of
         Context_denied code session \<Rightarrow>
           fy_denyGuard gopts code session fy_unauthorized (Some [(''roles'', JArr (map JStr accepted))])
       | Context_ok s acl \<Rightarrow>
           if \<not> list_ex (\<lambda>r. r \<in> set (fst acl)) accepted
           then fy_denyGuard gopts ROLE_DENIED (Some s) (fy_forbidden ''forbidden'')
                  (Some [(''roles'', JArr (map JStr accepted))])
           else io_ret Pass))"

definition fy_requireStepUp ::
  "('ss, 'as) guard_options \<Rightarrow> fastify_request \<Rightarrow> ('cs, 'ss, 'as, 'rl, handled) act" where
  "fy_requireStepUp gopts req =
     async_handler (io_bind (fy_loadSession req gopts) (\<lambda>session.
       case session of
         None \<Rightarrow> fy_denyGuard gopts NO_SESSION None fy_unauthorized None
       | Some s \<Rightarrow>
           io_bind (io_get (fy_guardNow gopts)) (\<lambda>now.
             if \<not> fy_hasValidStepUpToken req s now
             then fy_denyGuard gopts STEP_UP_REQUIRED (Some s) (fy_forbidden ''step-up required'') None
             else io_ret Pass)))"

definition fy_requireSession ::
  "('ss, 'as) guard_options \<Rightarrow> fastify_request \<Rightarrow> ('cs, 'ss, 'as, 'rl, handled) act" where
  "fy_requireSession gopts req =
     async_handler (io_bind (fy_loadGuardContext req gopts) (\<lambda>context.
       case context of
         Context_denied code session \<Rightarrow> fy_denyGuard gopts code session fy_unauthorized None
       | Context_ok s acl \<Rightarrow> io_ret Pass))"

section \<open>Wiring\<close>

definition fy_normalizeBaseUrl :: "string \<Rightarrow> string" where
  "fy_normalizeBaseUrl value = (if ends_with value ''/'' then butlast value else value)"

definition fy_authCompleteUrl ::
  "fastify_request \<Rightarrow> ('cs, 'ss, 'as, 'rl) fastify_options \<Rightarrow> exn + string" where
  "fy_authCompleteUrl req fopts =
     (case fo_audienceResolver fopts of
        Some resolve \<Rightarrow> resolve req
      | None \<Rightarrow>
          (case fo_getExternalBaseUrl fopts of
             None \<Rightarrow> Inl (Exn ''TypeError'')
           | Some base \<Rightarrow>
               (case base req of
                  Inl e \<Rightarrow> Inl e
                | Inr b \<Rightarrow> Inr (fy_normalizeBaseUrl b @ ''/auth/complete''))))"

definition fy_assertOneAudienceSource :: "('cs, 'ss, 'as, 'rl) fastify_options \<Rightarrow> bool" where
  "fy_assertOneAudienceSource fopts \<longleftrightarrow>
     (fo_getExternalBaseUrl fopts \<noteq> None) \<noteq> (fo_audienceResolver fopts \<noteq> None)"

definition fy_discardsTokens :: "success_writer option \<Rightarrow> bool" where
  "fy_discardsTokens wr = (case wr of None \<Rightarrow> False | Some sw \<Rightarrow> sw_discardsTokens sw)"

definition fy_setCookieAttrsOf :: "success_writer option \<Rightarrow> cookie_attrs option" where
  "fy_setCookieAttrsOf wr =
     (case wr of
        None \<Rightarrow> None
      | Some sw \<Rightarrow> map_option (\<lambda>attrs. jm_delete ''expires'' (jm_delete ''maxAge'' attrs)) (sw_cookieAttrs sw))"

definition fy_assertCookieNamesAgree :: "('cs, 'ss, 'as, 'rl) fastify_options \<Rightarrow> bool" where
  "fy_assertCookieNamesAgree fopts =
     (case fo_writeSuccess fopts of
        None \<Rightarrow> True
      | Some sw \<Rightarrow>
          (case sw_cookieName sw of
             None \<Rightarrow> True
           | Some written \<Rightarrow> written = or_else (fo_cookieName fopts) ''session''))"

definition fy_rawBodyOf :: "fastify_request \<Rightarrow> ('cs, 'ss, 'as, 'rl) fastify_options \<Rightarrow> byte list option" where
  "fy_rawBodyOf req fopts =
     (case fo_rawBodyExtractor fopts of Some extract \<Rightarrow> extract req | None \<Rightarrow> fq_rawBody req)"

definition fy_assertRefreshIsWirable :: "('cs, 'ss, 'as, 'rl) fastify_options \<Rightarrow> bool" where
  "fy_assertRefreshIsWirable fopts \<longleftrightarrow>
     truthy_num (op_refreshTtlSeconds (fo_server fopts))
     \<and> so_getByRefreshToken (op_sessionStore (fo_server fopts)) \<noteq> None
     \<and> so_rotateRefreshToken (op_sessionStore (fo_server fopts)) \<noteq> None
     \<and> \<not> fy_discardsTokens (fo_writeSuccess fopts)"

definition fy_clientIpOf :: "fastify_request \<Rightarrow> ('cs, 'ss, 'as, 'rl) fastify_options \<Rightarrow> string option" where
  "fy_clientIpOf req fopts =
     (case fo_getClientIp fopts of Some get \<Rightarrow> get req | None \<Rightarrow> fq_ip req)"

definition fy_routeGuardOptions ::
  "('cs, 'ss, 'as, 'rl) fastify_options \<Rightarrow> ('ss, 'as) guard_options" where
  "fy_routeGuardOptions fopts =
     \<lparr>go_sessionStore = op_sessionStore (fo_server fopts), go_cookieName = fo_cookieName fopts,
      go_aclResolver = None, go_registry = None,
      go_log = \<lparr>lc_auditLogger = None, lc_metrics = None\<rparr>, go_clock = None\<rparr>"

definition fy_SECURE_COOKIE_DEFAULTS :: cookie_attrs where
  "fy_SECURE_COOKIE_DEFAULTS =
     [(''httpOnly'', JBool True), (''secure'', JBool True), (''sameSite'', JStr ''lax''),
      (''path'', JStr ''/'')]"

text \<open>A cookie is the name, the value and the attributes given to \<open>serialize\<close>.\<close>

definition fy_writeNapCookieSuccess ::
  "string \<Rightarrow> cookie_attrs option \<Rightarrow> (AuthSuccessResponse \<Rightarrow> json) option \<Rightarrow> success_writer" where
  "fy_writeNapCookieSuccess cookieName cookieOptions transformBody =
     (let attrs = spread fy_SECURE_COOKIE_DEFAULTS (or_else cookieOptions []) in
      \<lparr>sw_write = (\<lambda>body.
         (reply_json 200 (case transformBody of
              Some f \<Rightarrow> Body_json (f body)
            | None \<Rightarrow> Body_json (JObj [(''status'', JStr ''ok'')])))
         \<lparr>hs_cookie := Some (cookieName, as_access_token body, attrs)\<rparr>),
       sw_discardsTokens = (transformBody = None),
       sw_cookieAttrs = Some attrs,
       sw_cookieName = Some cookieName\<rparr>)"

definition fy_write_success :: "('cs, 'ss, 'as, 'rl) fastify_options \<Rightarrow> AuthSuccessResponse \<Rightarrow> http_response" where
  "fy_write_success fopts body =
     (case fo_writeSuccess fopts of
        Some sw \<Rightarrow> sw_write sw body
      | None \<Rightarrow> reply_json 200 (Body_success body))"

definition fy_createRequestDerivedBaseUrlResolver ::
  "string list \<Rightarrow> audience_error + (fastify_request \<Rightarrow> exn + string)" where
  "fy_createRequestDerivedBaseUrlResolver allowedHosts =
     (case createAudienceHostAllowlist allowedHosts of
        Inl e \<Rightarrow> Inl e
      | Inr allow \<Rightarrow>
          Inr (\<lambda>req. case allow (fy_header req ''host'') (fq_protocol req) of
                        Inl _ \<Rightarrow> Inl (Exn ''audience'') | Inr url \<Rightarrow> Inr url))"

section \<open>Registered permissions\<close>

definition fy_register_permission :: "string \<Rightarrow> registered \<Rightarrow> registered" where
  "fy_register_permission p g = g\<lparr>rg_permissions := List.insert p (rg_permissions g)\<rparr>"

definition fy_register_roles :: "string list \<Rightarrow> registered \<Rightarrow> registered" where
  "fy_register_roles rs g = g\<lparr>rg_roles := fold List.insert rs (rg_roles g)\<rparr>"

definition fy_resetPermissionValidationState :: "registered \<Rightarrow> registered" where
  "fy_resetPermissionValidationState g = \<lparr>rg_permissions = [], rg_roles = []\<rparr>"

definition fy_validatePermissions :: "PermissionRegistry \<Rightarrow> registered \<Rightarrow> permissions_error + unit" where
  "fy_validatePermissions reg g =
     (case validatePermissionRegistry reg of
        Inl e \<Rightarrow> Inl (Registry_invalid e)
      | Inr _ \<Rightarrow>
          let unknown = filter (\<lambda>p. p \<notin> pd_key ` set (pr_permissions reg)) (rg_permissions g);
              unknownRoles = filter (\<lambda>r. r \<notin> ro_key ` set (pr_roles reg)) (rg_roles g)
          in if unknown \<noteq> [] then Inl (Unknown_permissions unknown)
             else if unknownRoles \<noteq> [] then Inl (Unknown_roles unknownRoles)
             else Inr ())"

section \<open>Routes\<close>

definition fy_init_request ::
  "('cs, 'ss, 'as, 'rl) fastify_options \<Rightarrow> fastify_request \<Rightarrow> ('cs, 'ss, 'as, 'rl, handled) act" where
  "fy_init_request fopts req =
     (case as_string (fy_npub req) of
        None \<Rightarrow> io_ret (Reply (reply_json 400 (Body_message ''error'' ''bad request'')))
      | Some npub \<Rightarrow>
          io_bind (lift (fy_authCompleteUrl req fopts)) (\<lambda>url.
          io_bind (issueChallenge
                     \<lparr>ii_npub = npub, ii_authUrl = url, ii_authMethod = Some ''POST'',
                      ii_clientIp = fy_clientIpOf req fopts\<rparr> (fo_server fopts)) (\<lambda>result.
            case result of
              Inl f \<Rightarrow> io_ret (Reply (fy_issueChallengeFailure f))
            | Inr value \<Rightarrow> io_ret (Reply (reply_json 200 (Body_init value))))))"

definition createNapFastifyInitHandler ::
  "('cs, 'ss, 'as, 'rl) fastify_options \<Rightarrow> string + (fastify_request \<Rightarrow> ('cs, 'ss, 'as, 'rl, handled) act)" where
  "createNapFastifyInitHandler fopts =
     (if \<not> fy_assertOneAudienceSource fopts then Inl ''audience source''
      else Inr (\<lambda>req. async_handler (fy_init_request fopts req)))"

definition fy_complete_response ::
  "('cs, 'ss, 'as, 'rl) fastify_options \<Rightarrow> VerifyCompletionOutcome \<Rightarrow> http_response" where
  "fy_complete_response fopts result =
     (case result of
        Verify_malformed \<Rightarrow> malformed_response
      | Verify_failed f \<Rightarrow>
          if vf_code f = NAP_COMPLETE_RATE_LIMITED then fy_rateLimited (vf_retryAfterSeconds f)
          else (case fo_writeFailure fopts of Some wr \<Rightarrow> wr f | None \<Rightarrow> fy_defaultWriteFailure)
      | Verify_ok s \<Rightarrow> fy_write_success fopts (toPublicAuthSuccess s))"

definition fy_complete_request ::
  "('cs, 'ss, 'as, 'rl) fastify_options \<Rightarrow> fastify_request \<Rightarrow> ('cs, 'ss, 'as, 'rl, handled) act" where
  "fy_complete_request fopts req =
     (case fy_rawBodyOf req fopts of
        None \<Rightarrow> io_throw ''raw body''
      | Some rawBody \<Rightarrow>
          io_bind (lift (fy_authCompleteUrl req fopts)) (\<lambda>url.
          io_bind (verifyCompletion
                     \<lparr>vn_authorization = fy_header req ''authorization'', vn_method = fq_method req,
                      vn_url = url, vn_rawBody = rawBody, vn_clientIp = fy_clientIpOf req fopts\<rparr>
                     (fo_server fopts)) (\<lambda>result.
            io_ret (Reply (fy_complete_response fopts result)))))"

definition createNapFastifyCompleteHandler ::
  "('cs, 'ss, 'as, 'rl) fastify_options \<Rightarrow> string + (fastify_request \<Rightarrow> ('cs, 'ss, 'as, 'rl, handled) act)" where
  "createNapFastifyCompleteHandler fopts =
     (if \<not> fy_assertOneAudienceSource fopts then Inl ''audience source''
      else if \<not> fy_assertCookieNamesAgree fopts then Inl ''cookie name''
      else Inr (\<lambda>req. async_handler (fy_complete_request fopts req)))"

definition fy_refresh_response ::
  "('cs, 'ss, 'as, 'rl) fastify_options \<Rightarrow> RefreshSessionOutcome \<Rightarrow> http_response" where
  "fy_refresh_response fopts result =
     (case result of
        Inl f \<Rightarrow>
          if vf_code f = NAP_REFRESH_RATE_LIMITED then fy_rateLimited (vf_retryAfterSeconds f)
          else fy_defaultWriteFailure
      | Inr s \<Rightarrow> fy_write_success fopts (toPublicAuthSuccess s))"

definition fy_refresh_request ::
  "('cs, 'ss, 'as, 'rl) fastify_options \<Rightarrow> fastify_request \<Rightarrow> ('cs, 'ss, 'as, 'rl, handled) act" where
  "fy_refresh_request fopts req =
     io_bind (refreshSession
                \<lparr>rf_refreshToken = fy_bearerTokenOf req, rf_clientIp = fy_clientIpOf req fopts\<rparr>
                (fo_server fopts)) (\<lambda>result.
       io_ret (Reply (fy_refresh_response fopts result)))"

definition createNapFastifyRefreshHandler ::
  "('cs, 'ss, 'as, 'rl) fastify_options \<Rightarrow> string + (fastify_request \<Rightarrow> ('cs, 'ss, 'as, 'rl, handled) act)" where
  "createNapFastifyRefreshHandler fopts =
     (if \<not> fy_assertRefreshIsWirable fopts then Inl ''refresh''
      else Inr (\<lambda>req. async_handler (fy_refresh_request fopts req)))"

definition createNapFastifySessionHandler ::
  "('cs, 'ss, 'as, 'rl) fastify_options \<Rightarrow> fastify_request \<Rightarrow> ('cs, 'ss, 'as, 'rl, handled) act" where
  "createNapFastifySessionHandler fopts req =
     async_handler (io_bind (fy_loadSession req (fy_routeGuardOptions fopts)) (\<lambda>session.
       case session of
         None \<Rightarrow> io_ret (Reply fy_unauthorized)
       | Some s \<Rightarrow> io_ret (Reply (reply_json 200 (Body_session (toPublicSessionView s))))))"

text \<open>
  Fastify has no \<open>clearCookie\<close>: the logout sets the cookie again, empty and with
  \<open>maxAge: 0\<close> after all other attributes.
\<close>

definition fy_logout_attrs :: "('cs, 'ss, 'as, 'rl) fastify_options \<Rightarrow> cookie_attrs" where
  "fy_logout_attrs fopts =
     jm_set ''maxAge'' (JNum 0)
       (spread [(''path'', JStr ''/'')]
         (or_else (case fo_clearCookieOptions fopts of
                     Some attrs \<Rightarrow> Some attrs
                   | None \<Rightarrow> fy_setCookieAttrsOf (fo_writeSuccess fopts)) []))"

definition fy_logout_response :: "('cs, 'ss, 'as, 'rl) fastify_options \<Rightarrow> http_response" where
  "fy_logout_response fopts =
     (reply_json 204 Body_none)
     \<lparr>hs_cookie := Some (or_else (fo_cookieName fopts) ''session'', [], fy_logout_attrs fopts)\<rparr>"

definition createNapFastifyLogoutHandler ::
  "('cs, 'ss, 'as, 'rl) fastify_options \<Rightarrow> fastify_request \<Rightarrow> ('cs, 'ss, 'as, 'rl, handled) act" where
  "createNapFastifyLogoutHandler fopts req =
     async_handler (io_bind (fy_loadSession req (fy_routeGuardOptions fopts)) (\<lambda>session.
       io_bind (case session of
                  None \<Rightarrow> io_ret ()
                | Some s \<Rightarrow>
                    io_bind (io_get (fy_guardNow (fy_routeGuardOptions fopts))) (\<lambda>now.
                      on_sess (so_revokeBySessionId (op_sessionStore (fo_server fopts)) (s_session_id s) now)))
         (\<lambda>_. io_ret (Reply (fy_logout_response fopts)))))"

text \<open>The routes, by method and path; a handler that cannot be built rejects the plugin.\<close>

definition napFastifyPlugin ::
  "('cs, 'ss, 'as, 'rl) fastify_options
     \<Rightarrow> string + ((string \<times> string) \<times> (fastify_request \<Rightarrow> ('cs, 'ss, 'as, 'rl, handled) act)) list" where
  "napFastifyPlugin fopts =
     (let prefix = fy_normalizeBaseUrl (or_else (fo_routePrefix fopts) []) in
      case createNapFastifyInitHandler fopts of
        Inl e \<Rightarrow> Inl e
      | Inr init \<Rightarrow>
     (case createNapFastifyCompleteHandler fopts of
        Inl e \<Rightarrow> Inl e
      | Inr completion \<Rightarrow>
          let routes = [((''post'', prefix @ ''/init''), init), ((''post'', prefix @ ''/complete''), completion),
                        ((''get'', prefix @ ''/session''), createNapFastifySessionHandler fopts),
                        ((''post'', prefix @ ''/logout''), createNapFastifyLogoutHandler fopts)]
          in if truthy_num (op_refreshTtlSeconds (fo_server fopts))
             then (case createNapFastifyRefreshHandler fopts of
                     Inl e \<Rightarrow> Inl e
                   | Inr refresh \<Rightarrow> Inr (routes @ [((''post'', prefix @ ''/refresh''), refresh)]))
             else Inr routes))"

text \<open>\<open>permissionsFastifyPlugin\<close>: the one route, and what it answers.\<close>

definition permissionsFastifyPlugin :: "PermissionRegistry \<Rightarrow> ((string \<times> string) \<times> PermissionRegistry) list" where
  "permissionsFastifyPlugin registry = [((''get'', ''/permissions''), registry)]"

end
