(* ===== verification/FastifyFacts.thy ===== *)
theory FastifyFacts
  imports Fastify ExpressFacts
begin

text \<open>
  The two adapters compared. \<open>as_express\<close> is the request Express hands to its handlers for
  the same message, \<open>fastify_wiring\<close> the same application wired over Fastify. Where every
  header comes once the guards are equal, and the routes differ in how they clear a cookie.
\<close>

section \<open>The same request\<close>

definition single_headers :: "fastify_request \<Rightarrow> bool" where
  "single_headers req \<longleftrightarrow> list_all (\<lambda>h. case snd h of One _ \<Rightarrow> True | Many _ \<Rightarrow> False) (fq_headers req)"

definition as_express :: "fastify_request \<Rightarrow> http_request" where
  "as_express req =
     \<lparr>hr_headers = List.map_filter (\<lambda>(n, v). case v of One s \<Rightarrow> Some (n, s) | Many _ \<Rightarrow> None) (fq_headers req),
      hr_method = fq_method req, hr_npub = fy_npub req, hr_rawBody = fq_rawBody req,
      hr_protocol = fq_protocol req, hr_ip = fq_ip req\<rparr>"

lemma as_express_sel [simp]:
  "hr_method (as_express req) = fq_method req" "hr_npub (as_express req) = fy_npub req"
  "hr_rawBody (as_express req) = fq_rawBody req" "hr_protocol (as_express req) = fq_protocol req"
  "hr_ip (as_express req) = fq_ip req"
  by (simp_all add: as_express_def)

lemma single_lookup:
  assumes "list_all (\<lambda>h. case snd h of One _ \<Rightarrow> True | Many _ \<Rightarrow> False) hs"
  shows "map_of (List.map_filter (\<lambda>(n, v). case v of One s \<Rightarrow> Some (n, s) | Many _ \<Rightarrow> None) hs) n
           = (case map_of hs n of Some (One s) \<Rightarrow> Some s | _ \<Rightarrow> None)"
    and "map_of hs n \<noteq> Some (Many ss)"
  using assms by (induction hs) (auto simp: List.map_filter_simps split: header_value.splits)

lemma header_same: "single_headers req \<Longrightarrow> header (as_express req) n = fy_header req n"
  by (simp add: header_def as_express_def fy_header_def single_headers_def single_lookup(1))

lemma stepup_same: "single_headers req \<Longrightarrow> fy_stepUpToken req = header (as_express req) ''x-step-up-token''"
  using single_lookup(2) [of "fq_headers req" "''x-step-up-token''"]
  by (auto simp: header_same fy_header_def fy_stepUpToken_def single_headers_def
      split: option.splits header_value.splits)

section \<open>The same guards\<close>

lemmas reading_same =
  fy_session_token_def session_token_def bearer_session_token_def fy_parseCookieValue_def
  parseCookieValue_def cookie_pair_def [abs_def] fy_bearerTokenOf_def bearerTokenOf_def

lemma token_same: "single_headers req \<Longrightarrow> fy_session_token req cn = session_token (as_express req) cn"
  unfolding reading_same by (simp only: header_same)

lemma bearer_same: "single_headers req \<Longrightarrow> fy_bearerTokenOf req = bearerTokenOf (as_express req)"
  by (simp add: reading_same header_same)

lemma guardNow_same [simp]: "fy_guardNow = guardNow"
  by (intro ext) (simp add: fy_guardNow_def guardNow_def)

lemma load_same: "single_headers req \<Longrightarrow> fy_loadSession req gopts = loadSession (as_express req) gopts"
  unfolding fy_loadSession_def loadSession_def guardNow_same by (simp add: token_same)

lemma context_same: "single_headers req \<Longrightarrow> fy_loadGuardContext req gopts = loadGuardContext (as_express req) gopts"
  by (simp add: fy_loadGuardContext_def loadGuardContext_def load_same)

lemma valid_stepup_same:
  "single_headers req \<Longrightarrow> fy_hasValidStepUpToken req s now = hasValidStepUpToken (as_express req) s now"
  by (simp add: fy_hasValidStepUpToken_def hasValidStepUpToken_def stepup_same)

lemma answers_same [simp]:
  "fy_unauthorized = unauthorized" "fy_forbidden = forbidden" "fy_rateLimited = rateLimited"
  "fy_defaultWriteFailure = defaultWriteFailure" "fy_denyGuard = denyGuard"
  "fy_requiresStepUp = requiresStepUp" "async_handler = guarded"
  by (simp_all add: fy_unauthorized_def unauthorized_def fy_forbidden_def [abs_def] forbidden_def [abs_def]
      fy_rateLimited_def [abs_def] rateLimited_def [abs_def] fy_defaultWriteFailure_def
      defaultWriteFailure_def fy_denyGuard_def [abs_def] denyGuard_def [abs_def]
      fy_requiresStepUp_def [abs_def] requiresStepUp_def [abs_def] async_handler_def [abs_def]
      guarded_def [abs_def])

lemma issue_failure_same [simp]: "fy_issueChallengeFailure = issueChallengeFailure"
  unfolding fy_issueChallengeFailure_def [abs_def] issueChallengeFailure_def [abs_def] answers_same ..

lemmas guard_defs =
  fy_requirePermission_def requirePermission_def fy_requireRole_def requireRole_def
  fy_requireStepUp_def requireStepUp_def fy_requireSession_def requireSession_def
  permission_details_def roles_details_def

lemma guards_same:
  assumes "single_headers req"
  shows "fy_requirePermission p gopts req = requirePermission p gopts (as_express req)"
    and "fy_requireRole rs gopts req = requireRole rs gopts (as_express req)"
    and "fy_requireStepUp gopts req = requireStepUp gopts (as_express req)"
    and "fy_requireSession gopts req = requireSession gopts (as_express req)"
  unfolding guard_defs answers_same guardNow_same context_same [OF assms] load_same [OF assms] valid_stepup_same [OF assms]
  by (rule refl)+

section \<open>The same wiring\<close>

definition fastify_wiring ::
  "string option \<Rightarrow> ('cs, 'ss, 'as, 'rl) express_options \<Rightarrow> ('cs, 'ss, 'as, 'rl) fastify_options" where
  "fastify_wiring pfx eopts =
     \<lparr>fo_server = eo_server eopts, fo_routePrefix = pfx,
      fo_getExternalBaseUrl = map_option (\<lambda>f req. f (as_express req)) (eo_getExternalBaseUrl eopts),
      fo_audienceResolver = map_option (\<lambda>f req. f (as_express req)) (eo_audienceResolver eopts),
      fo_cookieName = eo_cookieName eopts, fo_clearCookieOptions = eo_clearCookieOptions eopts,
      fo_getClientIp = map_option (\<lambda>f req. f (as_express req)) (eo_getClientIp eopts),
      fo_rawBodyExtractor = map_option (\<lambda>f req. f (as_express req)) (eo_rawBodyExtractor eopts),
      fo_writeSuccess = eo_writeSuccess eopts, fo_writeFailure = eo_writeFailure eopts\<rparr>"

lemma wiring_sel [simp]:
  "fo_server (fastify_wiring p eopts) = eo_server eopts"
  "fo_routePrefix (fastify_wiring p eopts) = p"
  "fo_cookieName (fastify_wiring p eopts) = eo_cookieName eopts"
  "fo_clearCookieOptions (fastify_wiring p eopts) = eo_clearCookieOptions eopts"
  "fo_writeSuccess (fastify_wiring p eopts) = eo_writeSuccess eopts"
  "fo_writeFailure (fastify_wiring p eopts) = eo_writeFailure eopts"
  by (simp_all add: fastify_wiring_def)

lemma wiring_same [simp]:
  "fy_authCompleteUrl req (fastify_wiring p eopts) = authCompleteUrl (as_express req) eopts"
  "fy_assertOneAudienceSource (fastify_wiring p eopts) = assertOneAudienceSource eopts"
  "fy_assertCookieNamesAgree (fastify_wiring p eopts) = assertCookieNamesAgree eopts"
  "fy_assertRefreshIsWirable (fastify_wiring p eopts) = assertRefreshIsWirable eopts"
  "fy_rawBodyOf req (fastify_wiring p eopts) = rawBodyOf (as_express req) eopts"
  "fy_clientIpOf req (fastify_wiring p eopts) = clientIpOf (as_express req) eopts"
  "fy_routeGuardOptions (fastify_wiring p eopts) = routeGuardOptions eopts"
  "fy_write_success (fastify_wiring p eopts) = write_success eopts"
  by (auto simp: fastify_wiring_def fy_authCompleteUrl_def authCompleteUrl_def fy_normalizeBaseUrl_def
      normalizeBaseUrl_def fy_assertOneAudienceSource_def assertOneAudienceSource_def
      fy_assertCookieNamesAgree_def assertCookieNamesAgree_def fy_assertRefreshIsWirable_def
      assertRefreshIsWirable_def fy_discardsTokens_def discardsTokens_def fy_rawBodyOf_def rawBodyOf_def
      fy_clientIpOf_def clientIpOf_def fy_routeGuardOptions_def routeGuardOptions_def
      fy_write_success_def [abs_def] write_success_def [abs_def] split: option.splits sum.splits)

lemma requests_same:
  assumes "single_headers req"
  shows "fy_init_request (fastify_wiring p eopts) req = init_request eopts (as_express req)"
    and "fy_complete_request (fastify_wiring p eopts) req = complete_request eopts (as_express req)"
    and "fy_refresh_request (fastify_wiring p eopts) req = refresh_request eopts (as_express req)"
    and "createNapFastifySessionHandler (fastify_wiring p eopts) req
           = createNapExpressSessionHandler eopts (as_express req)"
  unfolding fy_init_request_def init_request_def malformed_response_def fy_complete_request_def
    complete_request_def fy_complete_response_def [abs_def] complete_response_def [abs_def]
    fy_refresh_request_def refresh_request_def fy_refresh_response_def [abs_def]
    refresh_response_def [abs_def] createNapFastifySessionHandler_def createNapExpressSessionHandler_def
    wiring_same wiring_sel answers_same issue_failure_same as_express_sel
    header_same [OF assms] bearer_same [OF assms] load_same [OF assms]
  by (rule refl)+

text \<open>Two answers that differ at most in the cookie they write or clear.\<close>

definition same_but_cookie :: "(exn + handled) \<times> 'w \<Rightarrow> (exn + handled) \<times> 'w \<Rightarrow> bool" where
  "same_but_cookie x y \<longleftrightarrow> snd x = snd y \<and>
     (case (fst x, fst y) of
        (Inr (Reply a), Inr (Reply b)) \<Rightarrow> a\<lparr>hs_cookie := None, hs_clear := None\<rparr> = b\<lparr>hs_cookie := None, hs_clear := None\<rparr>
      | (a, b) \<Rightarrow> a = b)"

lemma same_but_cookie_refl [simp]: "same_but_cookie x x"
  by (auto simp: same_but_cookie_def split: sum.splits handled.splits)

lemma logout_same:
  assumes "single_headers req"
  shows "same_but_cookie (createNapFastifyLogoutHandler (fastify_wiring p eopts) req w)
           (createNapExpressLogoutHandler eopts (as_express req) w)"
proof -
  have e: "same_but_cookie (guarded (io_bind m (\<lambda>s. io_bind (k s) (\<lambda>_. io_ret (Reply a)))) w)
      (guarded (io_bind m (\<lambda>s. io_bind (k s) (\<lambda>_. io_ret (Reply b)))) w)"
    if "a\<lparr>hs_cookie := None, hs_clear := None\<rparr> = b\<lparr>hs_cookie := None, hs_clear := None\<rparr>"
    for m :: "(('a, 'b, 'c, 'd) world, 's) io" and k a b w
    using that by (auto simp: same_but_cookie_def guarded_def io_bind_def io_ret_def split: prod.splits sum.splits)
  show ?thesis
    unfolding createNapFastifyLogoutHandler_def createNapExpressLogoutHandler_def answers_same guardNow_same wiring_same
      wiring_sel load_same [OF assms]
    by (rule e) (simp add: fy_logout_response_def logout_response_def reply_json_def)
qed

text \<open>A route of the plugin and the one Express mounts for it.\<close>

definition same_route ::
  "string \<Rightarrow> (string \<times> string) \<times> (fastify_request \<Rightarrow> ('w, handled) io)
     \<Rightarrow> (string \<times> string) \<times> (http_request \<Rightarrow> ('w, handled) io) \<Rightarrow> bool" where
  "same_route pfx f e \<longleftrightarrow>
     fst (fst f) = fst (fst e) \<and> snd (fst f) = pfx @ snd (fst e)
     \<and> (\<forall>req w. single_headers req \<longrightarrow>
          (if snd (fst e) = ''/logout'' then same_but_cookie (snd f req w) (snd e (as_express req) w)
           else snd f req w = snd e (as_express req) w))"

lemma handlers_same:
  "createNapFastifyInitHandler (fastify_wiring p eopts) =
     (if assertOneAudienceSource eopts then Inr (\<lambda>req. guarded (fy_init_request (fastify_wiring p eopts) req))
      else Inl ''audience source'')"
  "createNapFastifyCompleteHandler (fastify_wiring p eopts) =
     (if \<not> assertOneAudienceSource eopts then Inl ''audience source''
      else if \<not> assertCookieNamesAgree eopts then Inl ''cookie name''
      else Inr (\<lambda>req. guarded (fy_complete_request (fastify_wiring p eopts) req)))"
  "createNapFastifyRefreshHandler (fastify_wiring p eopts) =
     (if assertRefreshIsWirable eopts then Inr (\<lambda>req. guarded (fy_refresh_request (fastify_wiring p eopts) req))
      else Inl ''refresh'')"
  by (simp_all add: createNapFastifyInitHandler_def createNapFastifyCompleteHandler_def
      createNapFastifyRefreshHandler_def)

lemma plugin_same:
  "rel_sum (=) (list_all2 (same_route (normalizeBaseUrl (or_else p []))))
     (napFastifyPlugin (fastify_wiring p eopts)) (createNapExpressRouter eopts)"
  by (auto simp: napFastifyPlugin_def createNapExpressRouter_def handlers_same createNapExpressInitHandler_def
      createNapExpressCompleteHandler_def createNapExpressRefreshHandler_def Let_def same_route_def
      fy_normalizeBaseUrl_def normalizeBaseUrl_def requests_same logout_same)

section \<open>The attributes of a cookie\<close>

lemma spread_ok: "jm_ok a \<Longrightarrow> jm_ok (spread a b)"
  by (induction b arbitrary: a) (auto simp: spread_def)

end
