(* ===== verification/AdapterProperties.thy ===== *)
theory AdapterProperties
  imports FastifyFacts Scenario
begin

text \<open>
  The Fastify adapter compared with the Express adapter, and what both do to the cookie of a
  session at logout.
\<close>

definition scen_fastify_request :: fastify_request where
  "scen_fastify_request =
     \<lparr>fq_headers = [(''cookie'', One ''theme=dark; session=tok''), (''x-step-up-token'', One ''su'')],
      fq_method = ''GET'', fq_body = None, fq_rawBody = None, fq_protocol = ''https'', fq_ip = None\<rparr>"

text \<open>
  C25. On a request whose headers come once each, the four Fastify guards do exactly what the
  Express guards do: the same answer or passage, the same audit events, the same effects on
  the stores.
\<close>

theorem fastify_guards_agree:
  assumes "single_headers req"
  shows "fy_requirePermission p gopts req w = requirePermission p gopts (as_express req) w
     \<and> fy_requireRole rs gopts req w = requireRole rs gopts (as_express req) w
     \<and> fy_requireStepUp gopts req w = requireStepUp gopts (as_express req) w
     \<and> fy_requireSession gopts req w = requireSession gopts (as_express req) w"
  by (simp add: guards_same [OF assms])

theorem fastify_guards_agree_witness:
  "fst (fy_requirePermission ''pay'' scen_guard scen_fastify_request scen_signed) = Inr Pass"
proof -
  have "single_headers scen_fastify_request" by code_simp
  moreover have "as_express scen_fastify_request = scen_request" by code_simp
  ultimately show ?thesis
    using fastify_guards_agree [of scen_fastify_request "''pay''" scen_guard scen_signed] scen_guard_pass by simp
qed

text \<open>
  C26. The Fastify plugin refuses the wirings the Express router refuses, and otherwise mounts
  the same routes below its prefix; on the same message, whose headers come once each, each
  handler has the same effect and answer, the logout up to how it clears the cookie.
\<close>

theorem fastify_routes_agree:
  "rel_sum (=) (list_all2 (same_route (normalizeBaseUrl (or_else p []))))
     (napFastifyPlugin (fastify_wiring p eopts)) (createNapExpressRouter eopts)"
  by (rule plugin_same)

text \<open>The prefix applies, and the plugin of the scenario has the five routes.\<close>

theorem fastify_routes_agree_witness:
  "\<exists>routes. napFastifyPlugin (fastify_wiring (Some ''/auth/'') scen_express) = Inr routes
     \<and> map fst routes = [(''post'', ''/auth/init''), (''post'', ''/auth/complete''), (''get'', ''/auth/session''),
         (''post'', ''/auth/logout''), (''post'', ''/auth/refresh'')]"
proof -
  obtain es where e: "createNapExpressRouter scen_express = Inr es"
    "map fst es = [(''post'', ''/init''), (''post'', ''/complete''), (''get'', ''/session''),
       (''post'', ''/logout''), (''post'', ''/refresh'')]"
    by (simp add: createNapExpressRouter_def createNapExpressInitHandler_def createNapExpressCompleteHandler_def
        createNapExpressRefreshHandler_def assertOneAudienceSource_def assertCookieNamesAgree_def
        assertRefreshIsWirable_def discardsTokens_def scen_express_def scen_opts_def ms_ops_def)
  have "rel_sum (=) (list_all2 (same_route ''/auth'')) (napFastifyPlugin (fastify_wiring (Some ''/auth/'') scen_express))
      (Inr es)"
    using fastify_routes_agree [of "Some ''/auth/''" scen_express] e(1)
    by simp (simp add: normalizeBaseUrl_def ends_with_def starts_with_def)
  then obtain fs where f: "napFastifyPlugin (fastify_wiring (Some ''/auth/'') scen_express) = Inr fs"
    "list_all2 (same_route ''/auth'') fs es"
    by (auto elim: rel_sum.cases)
  have "map fst fs = map (\<lambda>(m, p). (m, ''/auth'' @ p)) (map fst es)"
    using f(2) by induction (auto simp: same_route_def prod_eq_iff)
  then show ?thesis using f(1) e(2) by simp
qed

theorem logout_clears_login_cookie:
  assumes "eo_writeSuccess eopts = Some (writeNapCookieSuccess name os tb)" and "jm_ok (or_else os [])"
    and "assertCookieNamesAgree eopts" and "eo_clearCookieOptions eopts = None"
    and "hs_cookie (write_success eopts body) = Some (n, v, attrs)"
  shows "v = as_access_token body \<and>
     (\<exists>gone over. hs_clear (logout_response eopts) = Some (n, gone)
       \<and> hs_cookie (fy_logout_response (fastify_wiring p eopts)) = Some (n, [], over)
       \<and> jm_get over ''maxAge'' = Some (JNum 0) \<and> jm_get over ''expires'' = None
       \<and> (\<forall>k. k \<noteq> ''maxAge'' \<longrightarrow> k \<noteq> ''expires'' \<longrightarrow>
            jm_get gone k = jm_get attrs k \<and> jm_get over k = jm_get attrs k))"
proof -
  let ?attrs = "spread SECURE_COOKIE_DEFAULTS (or_else os [])"
  let ?kept = "jm_delete ''expires'' (jm_delete ''maxAge'' ?attrs)"
  have w: "n = name" "v = as_access_token body" "attrs = ?attrs"
    using assms(1,5) by (simp_all add: write_success_def writeNapCookieSuccess_def Let_def reply_json_def)
  have c: "or_else (eo_cookieName eopts) ''session'' = n"
    using assms(1,3) w(1) by (simp add: assertCookieNamesAgree_def writeNapCookieSuccess_def Let_def)
  have a: "setCookieAttrsOf (eo_writeSuccess eopts) = Some ?kept"
      "fy_setCookieAttrsOf (eo_writeSuccess eopts) = Some ?kept"
    using assms(1) by (simp_all add: setCookieAttrsOf_def fy_setCookieAttrsOf_def writeNapCookieSuccess_def Let_def)
  have path: "jm_get ?attrs ''path'' \<noteq> None"
    using spread_get [OF assms(2)] by (simp add: SECURE_COOKIE_DEFAULTS_def jm_get_def split: option.split)
  have "jm_ok ?kept" 
    by (intro jm_ok_delete spread_ok) (simp add: SECURE_COOKIE_DEFAULTS_def jm_ok_def)
  note over = spread_get [OF this]
  have "jm_get (spread [(''path'', JStr ''/'')] ?kept) k = jm_get ?kept k" for k
  proof (cases "k = ''path''")
    case True
    then show ?thesis using path over by (auto simp: jm_get_delete split: option.split)
  next
    case False
    then have "jm_get [(''path'', JStr ''/'')] k = None" by (simp add: jm_get_def)
    then show ?thesis by (simp add: over split: option.split)
  qed
  note over = this
  show ?thesis
    using a c assms(4) w over
    by (simp add: logout_response_def fy_logout_response_def fy_logout_attrs_def reply_json_def jm_get_set jm_get_delete)
qed

theorem logout_clears_login_cookie_witness:
  "\<exists>gone. hs_clear (logout_response (scen_express\<lparr>eo_writeSuccess :=
       Some (writeNapCookieSuccess ''session'' (Some [(''domain'', JStr ''.a''), (''maxAge'', JNum 900)]) None)\<rparr>))
     = Some (''session'', gone) \<and> jm_get gone ''domain'' = Some (JStr ''.a'')"
proof -
  let ?os = "Some [(''domain'', JStr ''.a''), (''maxAge'', JNum 900)]"
  let ?e = "scen_express\<lparr>eo_writeSuccess := Some (writeNapCookieSuccess ''session'' ?os None)\<rparr>"
  let ?b = "toPublicAuthSuccess scen_session"
  obtain attrs where "hs_cookie (write_success ?e ?b) = Some (''session'', as_access_token ?b, attrs)"
    "jm_get attrs ''domain'' = Some (JStr ''.a'')"
    by (simp add: write_success_def writeNapCookieSuccess_def Let_def reply_json_def spread_get jm_ok_def) (simp add: jm_get_def)
  moreover have "assertCookieNamesAgree ?e" by (simp add: assertCookieNamesAgree_def scen_express_def writeNapCookieSuccess_def Let_def)
  ultimately show ?thesis
    using logout_clears_login_cookie [of ?e "''session''" ?os None ?b] by (simp add: jm_ok_def scen_express_def) fastforce
qed

end
