(* ===== verification/StoreProperties.thy ===== *)
theory StoreProperties
  imports RefreshRuns Scenario
begin

text \<open>
  The properties of the in-memory stores over any run of their operations, and of the
  refresh operation over the in-memory session store. Each theorem is an instance of a lemma
  of a contract locale, written out over the model, with a run of the scenario as witness.
\<close>

theorem redeemed_once:
  assumes "mc_inv s" and "mc_redeem k p s = (Inr Redeemed, s1)"
    and "challenge_run mc_ops k s1 s2" and "mc_redeem k q s2 = (y, s3)"
  shows "y \<noteq> Inr Redeemed"
  by (rule mc.redeemed_forever [OF assms(1) _ assms(3)]) (use assms(2,4) in \<open>simp_all add: mc_ops_def\<close>)

theorem redeemed_once_witness:
  "fst (mc_redeem ''c'' \<lparr>rp_eventId = ''e'', rp_sessionId = ''s2'', rp_now = 112, rp_resultCacheUntil = 142\<rparr>
     (snd (mc_redeem ''c'' \<lparr>rp_eventId = ''e'', rp_sessionId = ''s1'', rp_now = 111, rp_resultCacheUntil = 141\<rparr>
        (w_challenges scen_world)))) \<noteq> Inr Redeemed"
proof (rule redeemed_once)
  let ?p = "\<lparr>rp_eventId = ''e'', rp_sessionId = ''s1'', rp_now = 111, rp_resultCacheUntil = 141\<rparr>"
  show "mc_inv (w_challenges scen_world)" using scen_ready by (simp add: memory.ready_def)
  show "mc_redeem ''c'' ?p (w_challenges scen_world) = (Inr Redeemed, snd (mc_redeem ''c'' ?p (w_challenges scen_world)))"
    by (simp add: mc_redeem_def scen_world_def mc_look_put [unfolded mc_look_def] scen_challenge_def new_challenge_def)
qed (rule rtranclp.rtrancl_refl, rule prod.collapse [symmetric])

theorem challenge_only_moves_forward:
  assumes "mc_inv s" and "challenge_run mc_ops k s s'" and "mc_look s k = Some c" and "mc_look s' k = Some d"
  shows "ch_state c \<le> ch_state d
    \<and> ch_challenge d = ch_challenge c \<and> ch_pubkey d = ch_pubkey c \<and> ch_npub d = ch_npub c
    \<and> ch_issued_at d = ch_issued_at c \<and> ch_expires_at d = ch_expires_at c
    \<and> (ch_state c \<noteq> issued \<longrightarrow> ch_state d \<noteq> issued
         \<and> ch_redeemed_event_id d = ch_redeemed_event_id c
         \<and> ch_redeemed_session_id d = ch_redeemed_session_id c
         \<and> ch_result_cache_until d = ch_result_cache_until c)"
  using mc.run_monotone [OF assms(2,1,3,4)] by (auto simp: same_challenge_def redemption_def)

theorem challenge_only_moves_forward_witness:
  "ch_state scen_challenge \<le> expired"
proof -
  let ?s = "w_challenges scen_world" and ?t = "mc_put ''c'' (scen_challenge\<lparr>ch_state := expired\<rparr>) (w_challenges scen_world)"
  let ?p = "\<lparr>rp_eventId = ''e'', rp_sessionId = ''s1'', rp_now = 200, rp_resultCacheUntil = 141\<rparr>"
  have look: "mc_look ?s ''c'' = Some scen_challenge" by (simp add: scen_world_def mc_look_put)
  then have "co_redeem mc_ops ''c'' ?p ?s = (Inr Redeem_expired, ?t)"
    by (simp add: mc_ops_def mc_redeem_def mc_look_def) (simp add: scen_challenge_def new_challenge_def)
  then have "challenge_step mc_ops ''c'' ?s ?t" by (rule challenge_step.redeem)
  then have "challenge_run mc_ops ''c'' ?s ?t" by (rule r_into_rtranclp)
  then show ?thesis
    using challenge_only_moves_forward [of ?s "''c''" ?t scen_challenge "scen_challenge\<lparr>ch_state := expired\<rparr>"]
      look scen_ready by (simp add: memory.ready_def mc_look_put)
qed

text \<open>
  C22. Once a session has been revoked by its id, no later operation of the session store, in any
  order, makes its access token resolve to an unrevoked session.
\<close>

theorem revoked_stays_revoked:
  assumes "ms_inv s" and "now \<noteq> 0" and "ms_revokeBySessionId k now s = (Inr (), s1)"
    and "session_run ms_ops (\<lambda>s. s_session_id ` ms_sess s) k [] s1 s2"
    and "ms_getByAccessToken a s2 = (Inr (Some y), s3)" and "s_session_id y = k"
  shows "truthy_num (s_revoked_at y)"
  by (rule ms.revoked_forever [OF assms(1,2) _ assms(4) _ assms(6)])
    (use assms(3,5) in \<open>simp_all add: ms_ops_def\<close>)

theorem revoked_stays_revoked_witness:
  "\<exists>y s3. ms_getByAccessToken ''tok'' (snd (ms_revokeBySessionId ''sid'' 120 (w_sessions scen_signed)))
      = (Inr (Some y), s3) \<and> truthy_num (s_revoked_at y)"
proof -
  let ?s = "w_sessions scen_signed" and ?s1 = "snd (ms_revokeBySessionId ''sid'' 120 (w_sessions scen_signed))"
  have r: "ms_revokeBySessionId ''sid'' 120 ?s = (Inr (), ?s1)"
    by (simp add: ms_revokeBySessionId_def split: option.split)
  have "fst (ms_getByAccessToken ''tok'' ?s1) = Inr (Some (scen_session\<lparr>s_revoked_at := Some 120\<rparr>))" by code_simp
  then obtain s3 where g: "ms_getByAccessToken ''tok'' ?s1 = (Inr (Some (scen_session\<lparr>s_revoked_at := Some 120\<rparr>)), s3)"
    by (metis prod.collapse)
  have "truthy_num (s_revoked_at (scen_session\<lparr>s_revoked_at := Some 120\<rparr>))"
    by (rule revoked_stays_revoked [OF scen_inv _ r rtranclp.rtrancl_refl g]) (simp_all add: scen_session_def)
  then show ?thesis using g by blast
qed

theorem refresh_token_rotates_once:
  assumes "ms_inv s" and "rt_refreshToken p \<noteq> []" and "rt_refreshToken q \<noteq> []"
    and "ms_rotateRefreshToken k p s = (Inr (Some y), s1)"
    and "rt_refreshToken p \<noteq> rt_expectedRefreshToken p"
    and "session_run ms_ops (\<lambda>s. s_session_id ` ms_sess s) k (rt_expectedRefreshToken p) s1 s2"
    and "ms_rotateRefreshToken k q s2 = (Inr z, s3)"
    and "rt_expectedRefreshToken q = rt_expectedRefreshToken p"
  shows "z = None"
  by (rule ms_rotating.rotate_once_ever [where rot = ms_rotateRefreshToken, OF assms(1) _ assms(2-8)])
    (simp add: ms_ops_def)

theorem refresh_token_rotates_once_witness:
  "\<exists>s3. ms_rotateRefreshToken ''sid'' (rotation_params scen_opts scen_session ''r1'' 130 (acl_allowed ''member'' []) ''a3'' ''r3'')
     (snd (ms_rotateRefreshToken ''sid'' (rotation_params scen_opts scen_session ''r1'' 120 (acl_allowed ''member'' []) ''a2'' ''r2'')
        (w_sessions scen_signed))) = (Inr None, s3)"
proof -
  let ?p = "rotation_params scen_opts scen_session ''r1'' 120 (acl_allowed ''member'' []) ''a2'' ''r2''"
  let ?q = "rotation_params scen_opts scen_session ''r1'' 130 (acl_allowed ''member'' []) ''a3'' ''r3''"
  have p: "rt_refreshToken ?p = ''r2''" "rt_expectedRefreshToken ?p = ''r1''"
    "rt_refreshToken ?q = ''r3''" "rt_expectedRefreshToken ?q = ''r1''"
    by (simp_all add: rotation_params_def Let_def)
  obtain s1 where s1: "ms_rotateRefreshToken ''sid'' ?p (w_sessions scen_signed) = (Inr (Some (rotated scen_session ?p)), s1)"
    using ms_insert_rotate [of scen_session ?p "ms_new 100"] p(2) by (auto simp: scen_signed_def scen_session_def)
  obtain x s3 where x: "ms_rotateRefreshToken ''sid'' ?q s1 = (x, s3)" by fastforce
  from x have "\<exists>z. x = Inr z" by (rule ms_rotate_cases) blast+
  then obtain z where z: "ms_rotateRefreshToken ''sid'' ?q s1 = (Inr z, s3)" using x by blast
  have "z = None"
    by (rule refresh_token_rotates_once [OF scen_inv _ _ s1 _ rtranclp.rtrancl_refl z]) (simp_all add: p)
  then show ?thesis using z by (simp add: s1)
qed

theorem session_indexes_agree:
  assumes "session_run ms_ops (\<lambda>s. s_session_id ` ms_sess s) k t (ms_new clock) s"
  shows "ms_inv s
    \<and> (\<forall>x\<in>ms_sess s. \<forall>y\<in>ms_sess s.
         s_challenge_id x = s_challenge_id y \<or> s_session_id x = s_session_id y \<longrightarrow> x = y)
    \<and> (\<forall>a y s'. ms_getByAccessToken a s = (Inr (Some y), s') \<longrightarrow> y \<in> ms_sess s \<and> s_access_token y = a)
    \<and> (\<forall>r y s'. ms_getByRefreshToken r s = (Inr (Some y), s') \<longrightarrow>
         y \<in> ms_sess s \<and> (s_refresh_token y = Some r \<or> s_previous_refresh_token y = Some r))"
proof -
  have i: "ms_inv s" by (rule ms.session_run_inv [OF assms ms_inv_new])
  have a: "y \<in> ms_sess s \<and> s_access_token y = a" if "ms_getByAccessToken a s = (Inr (Some y), s')" for a y s'
    using ms.token_value [OF i] ms.token_frame [OF i] that by (fastforce simp: ms_ops_def)
  have r: "y \<in> ms_sess s \<and> (s_refresh_token y = Some r \<or> s_previous_refresh_token y = Some r)"
    if "ms_getByRefreshToken r s = (Inr (Some y), s')" for r y s'
    using ms.refresh_value [where g = ms_getByRefreshToken, OF i _ that] ms.refresh_frame [where g = ms_getByRefreshToken, OF i _ that]
    by (auto simp: ms_ops_def)
  show ?thesis
    using i a r ms.one_per_challenge [OF i] ms.one_per_id [OF i] by blast
qed

theorem session_indexes_agree_witness:
  "\<exists>s. ms_createForChallenge scen_session (ms_new 100) = (Inr scen_session, s)
     \<and> (\<forall>a y s'. ms_getByAccessToken a s = (Inr (Some y), s') \<longrightarrow> s_access_token y = a)"
proof -
  have c: "so_createForChallenge ms_ops scen_session (ms_new 100) = (Inr scen_session, snd (ms_createForChallenge scen_session (ms_new 100)))"
    by (simp add: ms_ops_def ms_createForChallenge_def Let_def ms_sweep_def swept_already_def ms_new_def)
  have "session_step ms_ops (\<lambda>s. s_session_id ` ms_sess s) ''other'' [] (ms_new 100)
      (snd (ms_createForChallenge scen_session (ms_new 100)))"
    by (rule session_step.create [OF _ _ _ c])
      (simp_all add: fresh_session_def scen_session_def ms_sess_def ms_new_def)
  then have "session_run ms_ops (\<lambda>s. s_session_id ` ms_sess s) ''other'' [] (ms_new 100)
      (snd (ms_createForChallenge scen_session (ms_new 100)))" by (rule r_into_rtranclp)
  note session_indexes_agree [OF this]
  then show ?thesis using c by (auto simp: ms_ops_def)
qed

text \<open>
  C20. A refresh that succeeds rotated a stored session whose current (not retired) refresh token
  was presented, which was neither revoked, nor past its refresh expiry, nor past its
  maximum lifetime, and whose principal the resolver allows now; the result is exactly that
  session with the rotated tokens, and it is stored.
\<close>

theorem refresh_sound:
  assumes "op_sessionStore opts = ms_ops" and "ms_inv (w_sessions w)"
    and "refreshSession input opts w = (Inr (Inr s), w')"
  shows "s \<in> ms_sess (w_sessions w') \<and> (\<exists>x\<in>ms_sess (w_sessions w). \<exists>t e d a r as'.
     rf_refreshToken input = Some t \<and> s_refresh_token x = Some t \<and> s_previous_refresh_token x \<noteq> Some t
     \<and> s_revoked_at x = None
     \<and> s_refresh_expires_at x = Some e \<and> w_now w \<le> e
     \<and> (\<forall>m. op_maxSessionLifetimeSeconds opts = Some m \<longrightarrow> w_now w < s_issued_at x + m)
     \<and> op_aclResolver opts (s_principal_npub x) (s_principal_pubkey x)
         \<lparr>cx_voucher = None, cx_now = w_now w, cx_session = Some (s_roles x, s_permissions x)\<rparr> (w_acl w) = (Inr d, as')
     \<and> d_allowed d
     \<and> s = rotated x (rotation_params opts x t (w_now w) d a r))"
  using ms.refresh_granted [OF assms] unfolding ms.refreshed_def by metis

theorem refresh_sound_witness:
  "\<exists>s w'. refreshSession scen_refresh_input scen_opts scen_signed = (Inr (Inr s), w') \<and> s_session_id s = ''sid''"
proof -
  obtain s w' where r: "refreshSession scen_refresh_input scen_opts scen_signed = (Inr (Inr s), w')"
    using scen_refresh by blast
  have "ms_sess (w_sessions scen_signed) = {scen_session}" by (simp add: scen_signed_def ms_sess_new)
  then have "s_session_id s = s_session_id scen_session"
    using refresh_sound [OF _ scen_inv r] by (auto simp: scen_opts_def rotated_def)
  then show ?thesis using r by (simp add: scen_session_def)
qed

text \<open>
  C27. Where refresh is enabled, presenting the refresh token that the last rotation of a session
  retired, and that the store still knows, in a call that is not rate limited, is answered
  NAP_REFRESH_REUSED and leaves the session revoked. (Tokens of earlier rotations the store
  has forgotten: they are answered as unknown and revoke nothing.)
\<close>

theorem refresh_reuse_ends_session:
  assumes "op_sessionStore opts = ms_ops" and "ms_inv (w_sessions w)" and "w_now w \<noteq> 0"
    and "truthy_num (op_refreshTtlSeconds opts)"
    and "rf_refreshToken input = Some t" and "t \<noteq> []"
    and "ms_getByRefreshToken t (w_sessions w) = (Inr (Some y), s1)" and "s_previous_refresh_token y = Some t"
    and "refreshSession input opts w = (Inr z, w')" and "\<not> refresh_rate_limited z"
  shows "z = Inl (failure NAP_REFRESH_REUSED)
    \<and> (\<forall>x\<in>ms_sess (w_sessions w'). s_session_id x = s_session_id y \<longrightarrow> s_revoked_at x \<noteq> None)"
  by (rule ms.refresh_reuse [where g = ms_getByRefreshToken, OF assms(1-4) _ _ assms(5-10)])
    (simp_all add: ms_ops_def)

theorem refresh_reuse_ends_session_witness:
  "\<exists>w'. refreshSession scen_refresh_input scen_opts scen_rotated = (Inr (Inl (failure NAP_REFRESH_REUSED)), w')
     \<and> (\<forall>x\<in>ms_sess (w_sessions w'). s_session_id x = ''sid'' \<longrightarrow> s_revoked_at x \<noteq> None)"
proof -
  have g: "fst (ms_getByRefreshToken ''r1'' (w_sessions scen_rotated)) = Inr (Some (rotated scen_session scen_rotation))"
    by (simp add: scen_rotated_def scen_signed_def) code_simp
  then obtain s1 where g: "ms_getByRefreshToken ''r1'' (w_sessions scen_rotated) = (Inr (Some (rotated scen_session scen_rotation)), s1)"
    by (metis prod.collapse)
  have "fst (refreshSession scen_refresh_input scen_opts scen_rotated) = Inr (Inl (failure NAP_REFRESH_REUSED))"
    by code_simp
  then obtain w' where r: "refreshSession scen_refresh_input scen_opts scen_rotated
      = (Inr (Inl (failure NAP_REFRESH_REUSED)), w')"
    by (metis prod.collapse)
  have "\<not> refresh_rate_limited (Inl (failure NAP_REFRESH_REUSED) :: RefreshSessionOutcome)"
    by (simp add: refresh_rate_limited_def failure_def)
  then show ?thesis
    using refresh_reuse_ends_session [OF _ scen_rotated_inv _ _ _ _ g _ r] r
    by (simp add: scen_opts_def scen_rotated_def scen_signed_def scen_world_def scen_refresh_input_def
        rotated_def scen_session_def truthy_num_def)
qed

text \<open>
  C30. With maxSessionLifetimeSeconds set and a resolver that bounds sessions by a number, an
  absent bound or +Infinity, no refresh issues an access or refresh token that outlives the
  session's start by more than that lifetime.
\<close>

theorem refresh_within_lifetime:
  assumes "op_sessionStore opts = ms_ops" and "ms_inv (w_sessions w)"
    and "refreshSession input opts w = (Inr (Inr s), w')"
    and "op_maxSessionLifetimeSeconds opts = Some m"
    and "\<And>np pk ctx st d st'. op_aclResolver opts np pk ctx st = (Inr d, st') \<Longrightarrow> bound_ok (d_expires_at d)"
  shows "s_expires_at s \<le> s_issued_at s + m \<and> (\<exists>e. s_refresh_expires_at s = Some e \<and> e \<le> s_issued_at s + m)"
proof -
  obtain x t d a r as' where x: "w_now w < s_issued_at x + m"
    "op_aclResolver opts (s_principal_npub x) (s_principal_pubkey x)
         \<lparr>cx_voucher = None, cx_now = w_now w, cx_session = Some (s_roles x, s_permissions x)\<rparr> (w_acl w) = (Inr d, as')"
    "s = rotated x (rotation_params opts x t (w_now w) d a r)"
    using ms.refresh_granted [OF assms(1-3)] assms(4) unfolding ms.refreshed_def by blast
  show ?thesis
    using refresh_lifetime [OF assms(4) x(1) assms(5) [OF x(2)], of t a r] by (simp add: x(3) rotated_def)
qed

theorem refresh_within_lifetime_witness:
  "\<exists>s w'. refreshSession scen_refresh_input scen_opts scen_signed = (Inr (Inr s), w')
     \<and> s_expires_at s \<le> s_issued_at s + 7200"
proof -
  obtain s w' where r: "refreshSession scen_refresh_input scen_opts scen_signed = (Inr (Inr s), w')"
    using scen_refresh by blast
  have b: "bound_ok (d_expires_at d)" if "op_aclResolver scen_opts np pk ctx st = (Inr d, st')" for np pk ctx st d st'
  proof -
    have "registry_resolve scen_registry ma_ops True np pk ctx st = (Inr d, st')" using that by (simp add: scen_opts_def)
    then obtain rec where "d = decide scen_registry rec" using ma.resolve_decides by blast
    then show ?thesis
      by (auto simp: decide_def acl_denied_def acl_allowed_def bound_ok_def split: option.split)
  qed
  show ?thesis
    using refresh_within_lifetime [OF _ scen_inv r _ b] r by (auto simp: scen_opts_def)
qed

theorem unbounded_decision_lifts_lifetime:
  assumes "op_maxSessionLifetimeSeconds opts = Some m"
    and "d_expires_at d = Some NaN \<or> d_expires_at d = Some NegInf"
  shows "rt_expiresAt (rotation_params opts s t now d a r) = now + or_else (op_sessionTtlSeconds opts) 900"
  by (rule refresh_lifetime_nan [OF assms])

theorem unbounded_decision_lifts_lifetime_witness:
  "rt_expiresAt (rotation_params scen_opts scen_session ''r1'' 7299 ((acl_allowed ''member'' [])\<lparr>d_expires_at := Some NaN\<rparr>) ''a'' ''r'')
     = 8199 \<and> s_issued_at scen_session + 7200 < 8199"
proof -
  have "rt_expiresAt (rotation_params scen_opts scen_session ''r1'' 7299 ((acl_allowed ''member'' [])\<lparr>d_expires_at := Some NaN\<rparr>) ''a'' ''r'')
     = 7299 + or_else (op_sessionTtlSeconds scen_opts) 900"
    by (rule unbounded_decision_lifts_lifetime [where m = 7200]) (simp_all add: scen_opts_def)
  then show ?thesis by (simp add: scen_opts_def scen_session_def)
qed

end
