(* ===== verification/Postgres.thy ===== *)
theory Postgres
  imports ServerTypes
begin

text \<open>
  nap-store-postgres (\<open>index.ts\<close>): the three stores over PostgreSQL. The SQL texts are read
  against the tables of \<open>examples/merchant-app/db/schema.sql\<close>: a table is the list of its
  rows, a statement runs whole, and a statement that would break a \<open>UNIQUE\<close> or
  \<open>PRIMARY KEY\<close> constraint, or that the connection loses, changes nothing and rejects the
  promise. Which statements are lost is a parameter (\<open>pt_fails\<close>, by their number). A select
  gives the rows in the order of the table.

  The pool reads a \<open>BIGINT\<close> as a number, as the one of the merchant application does
  (\<open>examples/merchant-app/src/stores.ts\<close>, \<open>getTypeParser\<close>). Without that type parser
  node-postgres hands the column over as text, which the unchecked casts of
  \<open>mapChallengeRecord\<close> and \<open>mapSessionRecord\<close> put into fields typed as numbers; such a pool
  is not modelled.
\<close>

section \<open>Tables and statements\<close>

record 'r pg =
  pt_rows :: "'r list"
  pt_now :: string
  pt_fails :: "nat \<Rightarrow> bool"
  pt_statements :: nat

text \<open>\<open>pool.query\<close>: \<open>uniq\<close> holds the constraints of the table.\<close>

definition pool_query :: "('r list \<Rightarrow> bool) \<Rightarrow> ('r list \<Rightarrow> 'a \<times> 'r list) \<Rightarrow> ('r pg, 'a) io" where
  "pool_query uniq f db =
     (let db' = db\<lparr>pt_statements := Suc (pt_statements db)\<rparr>;
          (x, rows) = f (pt_rows db)
      in if pt_fails db (pt_statements db) then (Inl (Exn ''connection''), db')
         else if \<not> uniq rows then (Inl (Exn ''unique_violation''), db')
         else (Inr x, db'\<lparr>pt_rows := rows\<rparr>))"

text \<open>\<open>SELECT * .. WHERE\<close>, and \<open>UPDATE .. SET .. WHERE\<close> with the rows it returns.\<close>

definition sql_select :: "('r \<Rightarrow> bool) \<Rightarrow> 'r list \<Rightarrow> 'r list \<times> 'r list" where
  "sql_select P rows = (filter P rows, rows)"

definition sql_update :: "('r \<Rightarrow> bool) \<Rightarrow> ('r \<Rightarrow> 'r) \<Rightarrow> 'r list \<Rightarrow> 'r list \<times> 'r list" where
  "sql_update P f rows = (map f (filter P rows), map (\<lambda>r. if P r then f r else r) rows)"

text \<open>\<open>result.rowCount === 0 ? null : map(result.rows[0])\<close>.\<close>

definition first_row :: "('r \<Rightarrow> 'a) \<Rightarrow> 'r list \<Rightarrow> 'a option" where
  "first_row m rows = (case rows of [] \<Rightarrow> None | r # _ \<Rightarrow> Some (m r))"

section \<open>Reading columns\<close>

text \<open>The value of a nullable \<open>BIGINT\<close>.\<close>

definition read_int8 :: "int option \<Rightarrow> json" where
  "read_int8 v = (case v of None \<Rightarrow> JNull | Some n \<Rightarrow> JNum (of_int n))"

definition asNullableNumber :: "json \<Rightarrow> int option" where
  "asNullableNumber v = (case v of JNum q \<Rightarrow> Some \<lfloor>q\<rfloor> | _ \<Rightarrow> None)"

definition normalizeArray :: "json \<Rightarrow> string list" where
  "normalizeArray v = (case v of JArr xs \<Rightarrow> List.map_filter (\<lambda>x. as_string (Some x)) xs | _ \<Rightarrow> [])"

definition read_override :: "json \<Rightarrow> PermissionOverride list" where
  "read_override e =
     (case e of
        JObj fs \<Rightarrow>
          (case (map_of fs ''action'', map_of fs ''permission'') of
             (Some (JStr a), Some (JStr p)) \<Rightarrow>
               if a = ''grant'' then [\<lparr>po_action = Grant, po_permission = p\<rparr>]
               else if a = ''deny'' then [\<lparr>po_action = Deny, po_permission = p\<rparr>]
               else []
           | _ \<Rightarrow> [])
      | _ \<Rightarrow> [])"

definition normalizeOverrides :: "json \<Rightarrow> PermissionOverride list" where
  "normalizeOverrides v = (case v of JArr xs \<Rightarrow> concat (map read_override xs) | _ \<Rightarrow> [])"

text \<open>What the statements store for a list: \<open>JSON.stringify(..)::jsonb\<close>.\<close>

definition jsonb_strings :: "string list \<Rightarrow> json" where
  "jsonb_strings xs = JArr (map JStr xs)"

primrec action_str :: "override_action \<Rightarrow> string" where
  "action_str Grant = ''grant''"
| "action_str Deny = ''deny''"

definition jsonb_overrides :: "PermissionOverride list \<Rightarrow> json" where
  "jsonb_overrides os =
     JArr (map (\<lambda>po. JObj [(''action'', JStr (action_str (po_action po))),
                          (''permission'', JStr (po_permission po))]) os)"

lemma read_int8_number [simp]: "asNullableNumber (read_int8 v) = v"
  by (cases v) (simp_all add: read_int8_def asNullableNumber_def)

lemma normalizeArray_strings [simp]: "normalizeArray (jsonb_strings xs) = xs"
  by (induction xs) (simp_all add: normalizeArray_def jsonb_strings_def List.map_filter_def as_string_def)

lemma normalizeOverrides_jsonb [simp]: "normalizeOverrides (jsonb_overrides os) = os"
proof (induction os)
  case (Cons po os)
  have "read_override (JObj [(''action'', JStr (action_str (po_action po))),
                          (''permission'', JStr (po_permission po))]) = [po]"
    by (cases "po_action po"; cases po) (simp_all add: read_override_def)
  with Cons show ?case by (simp add: normalizeOverrides_def jsonb_overrides_def)
qed (simp add: normalizeOverrides_def jsonb_overrides_def)

section \<open>\<open>nap_challenges\<close>\<close>

record challenge_row =
  cr_challenge_id :: string
  cr_challenge :: string
  cr_npub :: string
  cr_pubkey :: string
  cr_auth_url :: string
  cr_auth_method :: string
  cr_state :: ChallengeState
  cr_issued_at :: int
  cr_expires_at :: int
  cr_redeemed_event_id :: "string option"
  cr_redeemed_session_id :: "string option"
  cr_result_cache_until :: "int option"
  cr_client_ip :: "string option"
  cr_failure_count :: int

definition challenges_unique :: "challenge_row list \<Rightarrow> bool" where
  "challenges_unique rows \<longleftrightarrow> distinct (map cr_challenge_id rows)"

definition mapChallengeRecord :: "challenge_row \<Rightarrow> ChallengeRecord" where
  "mapChallengeRecord row =
     \<lparr>ch_challenge_id = cr_challenge_id row, ch_challenge = cr_challenge row, ch_npub = cr_npub row,
      ch_pubkey = cr_pubkey row, ch_auth_url = cr_auth_url row, ch_auth_method = cr_auth_method row,
      ch_issued_at = cr_issued_at row, ch_expires_at = cr_expires_at row, ch_state = cr_state row,
      ch_redeemed_event_id = cr_redeemed_event_id row,
      ch_redeemed_session_id = cr_redeemed_session_id row,
      ch_result_cache_until = asNullableNumber (read_int8 (cr_result_cache_until row)),
      ch_client_ip = cr_client_ip row,
      ch_failure_count = asNullableNumber (JNum (of_int (cr_failure_count row)))\<rparr>"

definition challenge_row_of :: "ChallengeRecord \<Rightarrow> challenge_row" where
  "challenge_row_of r =
     \<lparr>cr_challenge_id = ch_challenge_id r, cr_challenge = ch_challenge r, cr_npub = ch_npub r,
      cr_pubkey = ch_pubkey r, cr_auth_url = ch_auth_url r, cr_auth_method = ch_auth_method r,
      cr_state = ch_state r, cr_issued_at = ch_issued_at r, cr_expires_at = ch_expires_at r,
      cr_redeemed_event_id = None, cr_redeemed_session_id = None, cr_result_cache_until = None,
      cr_client_ip = ch_client_ip r, cr_failure_count = 0\<rparr>"

definition pc_create :: "ChallengeRecord \<Rightarrow> (challenge_row pg, unit) io" where
  "pc_create r = pool_query challenges_unique (\<lambda>rows. ((), rows @ [challenge_row_of r]))"

definition pc_get :: "string \<Rightarrow> (challenge_row pg, ChallengeRecord option) io" where
  "pc_get k =
     io_bind (pool_query challenges_unique (sql_select (\<lambda>r. cr_challenge_id r = k))) (\<lambda>rows.
       io_ret (first_row mapChallengeRecord rows))"

definition redeem_row :: "RedeemParams \<Rightarrow> challenge_row \<Rightarrow> challenge_row" where
  "redeem_row p r =
     r\<lparr>cr_state := redeemed, cr_redeemed_event_id := Some (rp_eventId p),
       cr_redeemed_session_id := Some (rp_sessionId p),
       cr_result_cache_until := Some (rp_resultCacheUntil p)\<rparr>"

definition pc_redeem :: "string \<Rightarrow> RedeemParams \<Rightarrow> (challenge_row pg, RedeemStatus) io" where
  "pc_redeem k p =
     io_bind (pool_query challenges_unique
        (sql_update (\<lambda>r. cr_challenge_id r = k \<and> cr_state r = issued \<and> cr_expires_at r > rp_now p)
          (redeem_row p))) (\<lambda>updated.
       if length updated = 1 then io_ret Redeemed
       else io_bind (pc_get k) (\<lambda>found.
         case found of
           None \<Rightarrow> io_ret Not_found
         | Some c \<Rightarrow>
             io_ret (if ch_state c = expired \<or> ch_expires_at c < rp_now p then Redeem_expired
                     else Already_redeemed)))"

definition pc_markExpired :: "int \<Rightarrow> (challenge_row pg, nat) io" where
  "pc_markExpired now =
     io_bind (pool_query challenges_unique
        (sql_update (\<lambda>r. cr_state r = issued \<and> cr_expires_at r < now) (\<lambda>r. r\<lparr>cr_state := expired\<rparr>)))
       (\<lambda>updated. io_ret (length updated))"

text \<open>A comparison with a \<open>NULL\<close> column is not true.\<close>

definition pc_countOutstanding :: "OutstandingChallengeFilter \<Rightarrow> (challenge_row pg, nat) io" where
  "pc_countOutstanding f =
     io_bind (pool_query challenges_unique
        (sql_select (\<lambda>r. cr_state r = issued \<and> cr_expires_at r \<ge> of_now f
            \<and> (of_npub f = None \<or> of_npub f = Some (cr_npub r))
            \<and> (of_clientIp f = None \<or> cr_client_ip r = of_clientIp f))))
       (\<lambda>rows. io_ret (length rows))"

definition fail_row :: "int \<Rightarrow> challenge_row \<Rightarrow> challenge_row" where
  "fail_row maxFailures r =
     r\<lparr>cr_failure_count := cr_failure_count r + 1,
       cr_state := (if cr_failure_count r + 1 \<ge> maxFailures then failed_terminal else cr_state r)\<rparr>"

definition pc_recordFailure ::
  "string \<Rightarrow> int \<Rightarrow> int \<Rightarrow> (challenge_row pg, (int \<times> ChallengeState) option) io" where
  "pc_recordFailure k now maxFailures =
     io_bind (pool_query challenges_unique
        (sql_update (\<lambda>r. cr_challenge_id r = k \<and> cr_state r = issued) (fail_row maxFailures)))
       (\<lambda>updated. io_ret (first_row (\<lambda>r. (cr_failure_count r, cr_state r)) updated))"

definition pc_ops :: "challenge_row pg challenge_ops" where
  "pc_ops =
     \<lparr>co_create = pc_create, co_get = pc_get, co_redeem = pc_redeem, co_markExpired = pc_markExpired,
      co_countOutstanding = Some pc_countOutstanding, co_recordFailure = Some pc_recordFailure\<rparr>"

section \<open>\<open>nap_sessions\<close>\<close>

record session_row =
  sr_session_id :: string
  sr_challenge_id :: string
  sr_access_token :: string
  sr_principal_npub :: string
  sr_principal_pubkey :: string
  sr_roles :: json
  sr_permissions :: json
  sr_issued_at :: int
  sr_expires_at :: int
  sr_step_up_token :: "string option"
  sr_step_up_expires_at :: "int option"
  sr_refresh_token :: "string option"
  sr_refresh_expires_at :: "int option"
  sr_previous_refresh_token :: "string option"
  sr_revoked_at :: "int option"

text \<open>Two \<open>NULL\<close>s do not collide in a unique column.\<close>

definition sessions_unique :: "session_row list \<Rightarrow> bool" where
  "sessions_unique rows \<longleftrightarrow>
     distinct (map sr_session_id rows) \<and> distinct (map sr_challenge_id rows)
     \<and> distinct (map sr_access_token rows) \<and> distinct (List.map_filter sr_refresh_token rows)"

definition mapSessionRecord :: "session_row \<Rightarrow> SessionRecord" where
  "mapSessionRecord row =
     \<lparr>s_session_id = sr_session_id row, s_challenge_id = sr_challenge_id row,
      s_access_token = sr_access_token row, s_principal_npub = sr_principal_npub row,
      s_principal_pubkey = sr_principal_pubkey row, s_roles = normalizeArray (sr_roles row),
      s_permissions = normalizeArray (sr_permissions row), s_issued_at = sr_issued_at row,
      s_expires_at = sr_expires_at row, s_step_up_token = sr_step_up_token row,
      s_step_up_expires_at = asNullableNumber (read_int8 (sr_step_up_expires_at row)),
      s_refresh_token = sr_refresh_token row,
      s_refresh_expires_at = asNullableNumber (read_int8 (sr_refresh_expires_at row)),
      s_previous_refresh_token = sr_previous_refresh_token row,
      s_revoked_at = asNullableNumber (read_int8 (sr_revoked_at row))\<rparr>"

definition session_row_of :: "SessionRecord \<Rightarrow> session_row" where
  "session_row_of r =
     \<lparr>sr_session_id = s_session_id r, sr_challenge_id = s_challenge_id r,
      sr_access_token = s_access_token r, sr_principal_npub = s_principal_npub r,
      sr_principal_pubkey = s_principal_pubkey r, sr_roles = jsonb_strings (s_roles r),
      sr_permissions = jsonb_strings (s_permissions r), sr_issued_at = s_issued_at r,
      sr_expires_at = s_expires_at r, sr_step_up_token = s_step_up_token r,
      sr_step_up_expires_at = s_step_up_expires_at r, sr_refresh_token = s_refresh_token r,
      sr_refresh_expires_at = s_refresh_expires_at r, sr_previous_refresh_token = None,
      sr_revoked_at = None\<rparr>"

text \<open>\<open>INSERT .. ON CONFLICT (challenge_id) DO NOTHING\<close>, and its \<open>rowCount\<close>.\<close>

definition insert_session :: "SessionRecord \<Rightarrow> session_row list \<Rightarrow> nat \<times> session_row list" where
  "insert_session r rows =
     (if s_challenge_id r \<in> set (map sr_challenge_id rows) then (0, rows)
      else (1, rows @ [session_row_of r]))"

definition ps_findBy :: "(session_row \<Rightarrow> string) \<Rightarrow> string \<Rightarrow> (session_row pg, SessionRecord option) io" where
  "ps_findBy column v =
     io_bind (pool_query sessions_unique (sql_select (\<lambda>r. column r = v \<and> sr_revoked_at r = None))) (\<lambda>rows.
       io_ret (first_row mapSessionRecord rows))"

definition ps_createForChallenge :: "SessionRecord \<Rightarrow> (session_row pg, SessionRecord) io" where
  "ps_createForChallenge r =
     io_bind (pool_query sessions_unique (insert_session r)) (\<lambda>rowCount.
       if rowCount = 1 then io_ret r
       else io_bind (ps_findBy sr_challenge_id (s_challenge_id r)) (\<lambda>existing.
         case existing of
           None \<Rightarrow> io_throw ''PostgresSessionStore could not reload session''
         | Some s \<Rightarrow> io_ret s))"

definition ps_revokeBySessionId :: "string \<Rightarrow> int \<Rightarrow> (session_row pg, unit) io" where
  "ps_revokeBySessionId k now =
     io_bind (pool_query sessions_unique
        (sql_update (\<lambda>r. sr_session_id r = k \<and> sr_revoked_at r = None) (\<lambda>r. r\<lparr>sr_revoked_at := Some now\<rparr>)))
       (\<lambda>_. io_ret ())"

definition ps_revokeByPrincipal :: "string \<Rightarrow> int \<Rightarrow> (session_row pg, nat) io" where
  "ps_revokeByPrincipal pk now =
     io_bind (pool_query sessions_unique
        (sql_update (\<lambda>r. sr_principal_pubkey r = pk \<and> sr_revoked_at r = None)
          (\<lambda>r. r\<lparr>sr_revoked_at := Some now\<rparr>)))
       (\<lambda>updated. io_ret (length updated))"

definition ps_getByRefreshToken :: "string \<Rightarrow> (session_row pg, SessionRecord option) io" where
  "ps_getByRefreshToken t =
     io_bind (pool_query sessions_unique
        (sql_select (\<lambda>r. sr_refresh_token r = Some t \<or> sr_previous_refresh_token r = Some t))) (\<lambda>rows.
       io_ret (first_row mapSessionRecord rows))"

definition rotate_row :: "RotateRefreshTokenParams \<Rightarrow> session_row \<Rightarrow> session_row" where
  "rotate_row p r =
     r\<lparr>sr_access_token := rt_accessToken p, sr_previous_refresh_token := sr_refresh_token r,
       sr_refresh_token := Some (rt_refreshToken p), sr_expires_at := rt_expiresAt p,
       sr_refresh_expires_at := Some (rt_refreshExpiresAt p), sr_roles := jsonb_strings (rt_roles p),
       sr_permissions := jsonb_strings (rt_permissions p)\<rparr>"

definition ps_rotateRefreshToken ::
  "string \<Rightarrow> RotateRefreshTokenParams \<Rightarrow> (session_row pg, SessionRecord option) io" where
  "ps_rotateRefreshToken k p =
     io_bind (pool_query sessions_unique
        (sql_update (\<lambda>r. sr_session_id r = k \<and> sr_refresh_token r = Some (rt_expectedRefreshToken p)
            \<and> sr_revoked_at r = None) (rotate_row p))) (\<lambda>updated.
       io_ret (first_row mapSessionRecord updated))"

definition ps_ops :: "session_row pg session_ops" where
  "ps_ops =
     \<lparr>so_createForChallenge = ps_createForChallenge, so_getBySessionId = ps_findBy sr_session_id,
      so_getByAccessToken = ps_findBy sr_access_token, so_revokeBySessionId = ps_revokeBySessionId,
      so_revokeByPrincipal = ps_revokeByPrincipal, so_getByRefreshToken = Some ps_getByRefreshToken,
      so_rotateRefreshToken = Some ps_rotateRefreshToken\<rparr>"

section \<open>\<open>nap_acl\<close>\<close>

text \<open>The timestamps are text; \<open>pt_now\<close> is the database's \<open>NOW()\<close>.\<close>

record acl_row =
  lr_app_id :: string
  lr_pubkey :: string
  lr_role :: string
  lr_permission_overrides :: json
  lr_suspended :: bool
  lr_suspended_at :: "string option"
  lr_suspended_reason :: "string option"
  lr_created_at :: "string option"
  lr_updated_at :: "string option"

definition acl_unique :: "acl_row list \<Rightarrow> bool" where
  "acl_unique rows \<longleftrightarrow> distinct (map (\<lambda>r. (lr_app_id r, lr_pubkey r)) rows)"

definition mapAclRecord :: "acl_row \<Rightarrow> AclRecord" where
  "mapAclRecord row =
     \<lparr>ar_principal_pubkey = lr_pubkey row, ar_app_id = lr_app_id row, ar_role = lr_role row,
      ar_permission_overrides = normalizeOverrides (lr_permission_overrides row),
      ar_suspended = lr_suspended row, ar_suspended_at = lr_suspended_at row,
      ar_suspended_reason = lr_suspended_reason row, ar_created_at = lr_created_at row,
      ar_updated_at = lr_updated_at row\<rparr>"

definition at_key :: "string \<Rightarrow> string \<Rightarrow> acl_row \<Rightarrow> bool" where
  "at_key pubkey appId r \<longleftrightarrow> lr_pubkey r = pubkey \<and> lr_app_id r = appId"

definition pa_get :: "string \<Rightarrow> string \<Rightarrow> (acl_row pg, AclRecord option) io" where
  "pa_get pubkey appId =
     io_bind (pool_query acl_unique (sql_select (at_key pubkey appId)))
       (\<lambda>rows. io_ret (first_row mapAclRecord rows))"

text \<open>\<open>INSERT .. ON CONFLICT (app_id, pubkey) DO UPDATE\<close>.\<close>

definition upsert_row :: "string \<Rightarrow> AclRecord \<Rightarrow> acl_row list \<Rightarrow> unit \<times> acl_row list" where
  "upsert_row now r rows =
     ((), if (ar_app_id r, ar_principal_pubkey r) \<in> set (map (\<lambda>r. (lr_app_id r, lr_pubkey r)) rows)
      then map (\<lambda>x. if at_key (ar_principal_pubkey r) (ar_app_id r) x
                    then x\<lparr>lr_role := ar_role r,
                           lr_permission_overrides := jsonb_overrides (ar_permission_overrides r),
                           lr_suspended := ar_suspended r, lr_suspended_at := ar_suspended_at r,
                           lr_suspended_reason := ar_suspended_reason r, lr_updated_at := Some now\<rparr>
                    else x) rows
      else rows @
        [\<lparr>lr_app_id = ar_app_id r, lr_pubkey = ar_principal_pubkey r, lr_role = ar_role r,
          lr_permission_overrides = jsonb_overrides (ar_permission_overrides r),
          lr_suspended = ar_suspended r, lr_suspended_at = ar_suspended_at r,
          lr_suspended_reason = ar_suspended_reason r, lr_created_at = Some now,
          lr_updated_at = Some now\<rparr>])"

definition pa_upsert :: "AclRecord \<Rightarrow> (acl_row pg, unit) io" where
  "pa_upsert r = io_bind (io_get pt_now) (\<lambda>now. pool_query acl_unique (upsert_row now r))"

definition pa_suspend :: "string \<Rightarrow> string \<Rightarrow> string option \<Rightarrow> (acl_row pg, unit) io" where
  "pa_suspend pubkey appId reason =
     io_bind (io_get pt_now) (\<lambda>now.
       io_bind (pool_query acl_unique (sql_update (at_key pubkey appId)
          (\<lambda>r. r\<lparr>lr_suspended := True, lr_suspended_at := Some now, lr_suspended_reason := reason,
                 lr_updated_at := Some now\<rparr>)))
         (\<lambda>_. io_ret ()))"

definition pa_unsuspend :: "string \<Rightarrow> string \<Rightarrow> (acl_row pg, unit) io" where
  "pa_unsuspend pubkey appId =
     io_bind (io_get pt_now) (\<lambda>now.
       io_bind (pool_query acl_unique (sql_update (at_key pubkey appId)
          (\<lambda>r. r\<lparr>lr_suspended := False, lr_suspended_at := None, lr_suspended_reason := None,
                 lr_updated_at := Some now\<rparr>)))
         (\<lambda>_. io_ret ()))"

definition pa_ops :: "acl_row pg acl_ops" where
  "pa_ops = \<lparr>ao_get = pa_get, ao_upsert = pa_upsert, ao_suspend = pa_suspend, ao_unsuspend = pa_unsuspend\<rparr>"

end
