(* ===== verification/PostgresFacts.thy ===== *)
theory PostgresFacts
  imports Postgres LoginRuns RefreshRuns IssueRuns Acl
begin

text \<open>
  The PostgreSQL stores keep the contracts:
  the unique constraints are the invariant, and a statement either has its effect or none.
  With the interpretations, everything proved over the contracts holds on PostgreSQL too.
\<close>

section \<open>Statements\<close>

lemma pool_query_cases:
  assumes "pool_query uniq f db = (x, db')"
  obtains (lost) e where "x = Inl e" "pt_rows db' = pt_rows db"
  | (ran) y where "x = Inr y" "f (pt_rows db) = (y, pt_rows db')" "uniq (pt_rows db')"
  using assms by (auto simp: pool_query_def Let_def split: if_splits prod.splits)

lemma select_cases:
  assumes "pool_query uniq (sql_select P) db = (x, db')"
  obtains "pt_rows db' = pt_rows db"
    "x = Inr (filter P (pt_rows db)) \<or> (\<exists>e. x = Inl e)"
  using assms by (rule pool_query_cases) (auto simp: sql_select_def)

lemma update_cases:
  assumes "pool_query uniq (sql_update P f) db = (x, db')"
  obtains (lost) e where "x = Inl e" "pt_rows db' = pt_rows db"
  | (ran) "x = Inr (map f (filter P (pt_rows db)))"
      "pt_rows db' = map (\<lambda>r. if P r then f r else r) (pt_rows db)" "uniq (pt_rows db')"
  using assms by (rule pool_query_cases) (auto simp: sql_update_def)

text \<open>Fetching one row by a select.\<close>

lemma fetch_run:
  assumes "io_bind (pool_query uniq (sql_select P)) (\<lambda>rows.
       io_ret (first_row m rows)) db = (x, db')"
  shows "pt_rows db' = pt_rows db"
    "x = Inr y \<Longrightarrow> y = first_row m (filter P (pt_rows db))"
  using assms by (auto simp: io_bind_def elim!: select_cases split: prod.splits sum.splits)

lemma first_row_find: "first_row m (filter P rows) = map_option m (List.find P rows)"
  by (induction rows) (auto simp: first_row_def)

lemma find_update:
  assumes "\<And>r. key (f r) = key r"
  shows "List.find (\<lambda>r. key r = k) (map (\<lambda>r. if P r then f r else r) rows)
     = map_option (\<lambda>r. if P r then f r else r) (List.find (\<lambda>r. key r = k) rows)"
  using assms by (induction rows) auto

lemma find_append: "List.find P (xs @ ys) = (case List.find P xs of None \<Rightarrow> List.find P ys | Some r \<Rightarrow> Some r)"
  by (induction xs) auto

lemma find_key_iff:
  assumes "distinct (map key rows)"
  shows "List.find (\<lambda>r. key r = k) rows = Some r \<longleftrightarrow> r \<in> set rows \<and> key r = k"
  using assms
proof (induction rows)
  case (Cons a rows)
  then have "key x \<noteq> key a" if "x \<in> set rows" for x using that by (auto simp: image_iff)
  with Cons show ?case by (cases "key a = k") (auto simp: find_Some_iff in_set_conv_nth)
qed simp

text \<open>With a primary key, a condition on the key selects at most one row.\<close>

lemma filter_key:
  assumes "distinct (map key rows)"
  shows "filter (\<lambda>r. key r = k \<and> P r) rows
    = (case List.find (\<lambda>r. key r = k) rows of None \<Rightarrow> [] | Some r \<Rightarrow> if P r then [r] else [])"
  using assms
proof (induction rows)
  case (Cons a rows)
  have "filter (\<lambda>r. key r = k \<and> P r) rows = []" if "key a = k"
    using Cons.prems that by (auto simp: filter_empty_conv image_iff)
  then show ?case using Cons by simp
qed simp

section \<open>Challenges\<close>

definition pc_look :: "challenge_row pg \<Rightarrow> string \<Rightarrow> ChallengeRecord option" where
  "pc_look db k = map_option (mapChallengeRecord) (List.find (\<lambda>r. cr_challenge_id r = k) (pt_rows db))"

definition pc_inv :: "challenge_row pg \<Rightarrow> bool" where
  "pc_inv db \<longleftrightarrow> challenges_unique (pt_rows db)"

lemma map_challenge_sel [simp]:
  "ch_challenge_id (mapChallengeRecord r) = cr_challenge_id r"
  "ch_state (mapChallengeRecord r) = cr_state r"
  "ch_expires_at (mapChallengeRecord r) = cr_expires_at r"
  "ch_npub (mapChallengeRecord r) = cr_npub r"
  "ch_client_ip (mapChallengeRecord r) = cr_client_ip r"
  by (simp_all add: mapChallengeRecord_def)

lemma map_redeem_row: "mapChallengeRecord (redeem_row p r) = redeemed_record (mapChallengeRecord r) p"
  by (simp add: mapChallengeRecord_def redeem_row_def redeemed_record_def)

lemma map_fail_row: "mapChallengeRecord (fail_row m r) = failed_record (mapChallengeRecord r) m"
  by (simp add: mapChallengeRecord_def fail_row_def failed_record_def asNullableNumber_def)

lemma map_expired_row:
  "mapChallengeRecord (r\<lparr>cr_state := expired\<rparr>) = (mapChallengeRecord r)\<lparr>ch_state := expired\<rparr>"
  by (simp add: mapChallengeRecord_def)

lemma challenge_row_id [simp]: "cr_challenge_id (challenge_row_of c) = ch_challenge_id c"
  by (simp add: challenge_row_of_def)

lemma map_new_row:
  "fresh_challenge c \<Longrightarrow> mapChallengeRecord (challenge_row_of c) = c\<lparr>ch_failure_count := Some 0\<rparr>"
  by (cases c) (simp add: mapChallengeRecord_def challenge_row_of_def fresh_challenge_def redemption_def
      asNullableNumber_def read_int8_def)

lemma pc_look_Some:
  "pc_look db k = Some c \<longleftrightarrow>
     (\<exists>r. List.find (\<lambda>r. cr_challenge_id r = k) (pt_rows db) = Some r \<and> c = mapChallengeRecord r)"
  by (auto simp: pc_look_def)

lemma pc_look_update:
  assumes "pt_rows db' = map (\<lambda>r. if P r then f r else r) (pt_rows db)"
    and "\<And>r. cr_challenge_id (f r) = cr_challenge_id r"
  shows "pc_look db' k = map_option (\<lambda>r. mapChallengeRecord (if P r then f r else r))
           (List.find (\<lambda>r. cr_challenge_id r = k) (pt_rows db))"
  by (simp add: pc_look_def assms find_update option.map_comp comp_def)

lemma pc_get_run:
  assumes "pc_get k db = (x, db')" and "pc_inv db"
  shows "pt_rows db' = pt_rows db" "x = Inr y \<Longrightarrow> y = pc_look db k"
proof -
  note r = fetch_run [OF assms(1) [unfolded pc_get_def]]
  show "pt_rows db' = pt_rows db"
    using r assms(2) by (simp_all add: pc_inv_def)
  show "x = Inr y \<Longrightarrow> y = pc_look db k"
    using r(2) [of y] assms(2) by (simp add: first_row_find pc_look_def pc_inv_def)
qed

lemma pc_redeem_cases:
  assumes i: "pc_inv db" and r: "pc_redeem k p db = (x, db')"
  obtains (ran) r where "x = Inr Redeemed" "List.find (\<lambda>r. cr_challenge_id r = k) (pt_rows db) = Some r"
      "cr_state r = issued" "cr_expires_at r > rp_now p" "pc_look db' k = Some (redeemed_record (mapChallengeRecord r) p)"
      "\<forall>j. j \<noteq> k \<longrightarrow> pc_look db' j = pc_look db j" "pc_inv db'"
  | (none) "x \<noteq> Inr Redeemed" "pc_look db' = pc_look db" "pc_inv db'"
      "x = Inr Not_found \<Longrightarrow> pc_look db k = None"
      "x = Inr Redeem_expired \<Longrightarrow> \<exists>c. pc_look db k = Some c \<and> (ch_expires_at c < rp_now p \<or> ch_state c = expired)"
      "x = Inr Already_redeemed \<Longrightarrow> \<exists>c. pc_look db k = Some c \<and> \<not> ch_expires_at c < rp_now p \<and> ch_state c \<noteq> expired
         \<and> (ch_state c = issued \<longrightarrow> ch_expires_at c = rp_now p)"
proof -
  let ?P = "\<lambda>r. cr_challenge_id r = k \<and> cr_state r = issued \<and> cr_expires_at r > rp_now p"
  let ?find = "List.find (\<lambda>r. cr_challenge_id r = k) (pt_rows db)"
  have d: "distinct (map cr_challenge_id (pt_rows db))"
    using i by (simp_all add: pc_inv_def challenges_unique_def)
  have sel: "filter ?P (pt_rows db) = (case ?find of None \<Rightarrow> []
      | Some r \<Rightarrow> if cr_state r = issued \<and> cr_expires_at r > rp_now p then [r] else [])"
    using filter_key [OF d, of k "\<lambda>r. cr_state r = issued \<and> cr_expires_at r > rp_now p"] by simp
  obtain u db1 where u: "pool_query challenges_unique (sql_update ?P (redeem_row p)) db = (u, db1)"
    by (cases "pool_query challenges_unique (sql_update ?P (redeem_row p)) db") auto
  from u show thesis
  proof (cases rule: update_cases)
    case (lost e)
    then have "x = Inl e" "db' = db1" using r u by (auto simp: pc_redeem_def io_bind_def)
    then show thesis using lost i by (intro none) (auto simp: pc_look_def pc_inv_def)
  next
    case ran
    show thesis
    proof (cases "\<exists>r. ?find = Some r \<and> cr_state r = issued \<and> cr_expires_at r > rp_now p")
      case True
      then obtain r0 where r0: "?find = Some r0" "cr_state r0 = issued" "cr_expires_at r0 > rp_now p" by blast
      then have x: "x = Inr Redeemed" "db' = db1"
        using r u ran sel by (auto simp: pc_redeem_def io_bind_def)
      have upd: "pc_look db' j = map_option (\<lambda>r. mapChallengeRecord (if ?P r then redeem_row p r else r))
           (List.find (\<lambda>r. cr_challenge_id r = j) (pt_rows db))" for j
        using pc_look_update [OF ran(2)] x(2) by (simp add: redeem_row_def)
      have k: "cr_challenge_id r0 = k" using r0(1) by (auto simp: find_Some_iff)
      show thesis
      proof (rule that(1) [OF x(1) r0])
        show "pc_look db' k = Some (redeemed_record (mapChallengeRecord r0) p)"
          using r0 k upd [of k] by (simp add: map_redeem_row)
        show "\<forall>j. j \<noteq> k \<longrightarrow> pc_look db' j = pc_look db j"
          unfolding upd unfolding pc_look_def by (auto simp: find_Some_iff intro!: option.map_cong)
        show "pc_inv db'" using ran x(2) by (simp add: pc_inv_def)
      qed
    next
      case False
      then have "filter ?P (pt_rows db) = []" using sel by (auto split: option.splits)
      moreover then have rows: "pt_rows db1 = pt_rows db"
        using ran(2) by (auto simp: filter_empty_conv intro!: map_idI)
      ultimately have g: "(io_bind (pc_get k) (\<lambda>found. case found of None \<Rightarrow> io_ret Not_found
          | Some c \<Rightarrow> io_ret (if ch_state c = expired \<or> ch_expires_at c < rp_now p then Redeem_expired
                     else Already_redeemed))) db1 = (x, db')"
        using r u ran(1) by (simp add: pc_redeem_def)
      obtain y db2 where y: "pc_get k db1 = (y, db2)" by (cases "pc_get k db1") auto
      have i1: "pc_inv db1" using ran i by (simp add: pc_inv_def)
      have look1: "pc_look db1 = pc_look db" using rows by (simp add: pc_look_def fun_eq_iff)
      have db': "db' = db2" using g y by (auto simp: io_bind_def split: sum.splits option.splits)
      note run = pc_get_run [OF y i1]
      have v: "y = Inr z \<Longrightarrow> z = pc_look db k" for z using run(2) look1 by simp
      show thesis
      proof (rule that(2))
        show "pc_inv db'" "pc_look db' = pc_look db"
          using run(1) rows i db' by (auto simp: pc_inv_def pc_look_def)
        have "x \<noteq> Inr Redeemed \<and> (x = Inr Not_found \<longrightarrow> pc_look db k = None)
          \<and> (x = Inr Redeem_expired \<longrightarrow> (\<exists>c. pc_look db k = Some c \<and> (ch_expires_at c < rp_now p \<or> ch_state c = expired)))
          \<and> (x = Inr Already_redeemed \<longrightarrow> (\<exists>c. pc_look db k = Some c \<and> \<not> ch_expires_at c < rp_now p \<and> ch_state c \<noteq> expired))"
          using g y v by (auto simp: io_bind_def split: sum.splits option.splits if_splits)
        then show "x \<noteq> Inr Redeemed" and "x = Inr Not_found \<Longrightarrow> pc_look db k = None"
          and "x = Inr Redeem_expired \<Longrightarrow> \<exists>c. pc_look db k = Some c \<and> (ch_expires_at c < rp_now p \<or> ch_state c = expired)"
          and "x = Inr Already_redeemed \<Longrightarrow> \<exists>c. pc_look db k = Some c \<and> \<not> ch_expires_at c < rp_now p
            \<and> ch_state c \<noteq> expired \<and> (ch_state c = issued \<longrightarrow> ch_expires_at c = rp_now p)"
          using False by (fastforce simp: pc_look_Some)+
      qed
    qed
  qed
qed

lemma pc_look_same: "pt_rows db' = pt_rows db \<Longrightarrow> pc_look db' = pc_look db"
  by (simp add: pc_look_def fun_eq_iff)

lemma pc_create_cases:
  assumes i: "pc_inv db" and r: "pc_create c db = (x, db')"
  obtains (lost) e where "x = Inl e" "pc_look db' = pc_look db" "pc_inv db'"
  | (ran) "x = Inr ()" "pc_inv db'" "\<And>k. k \<noteq> ch_challenge_id c \<Longrightarrow> pc_look db' k = pc_look db k"
      "fresh_challenge c \<Longrightarrow> pc_look db' (ch_challenge_id c) = Some (c\<lparr>ch_failure_count := Some 0\<rparr>)"
  using r [unfolded pc_create_def]
proof (cases rule: pool_query_cases)
  case (lost e)
  then show thesis using i that(1) pc_look_same [OF lost(2)] by (simp add: pc_inv_def)
next
  case (ran y)
  then have r: "pt_rows db' = pt_rows db @ [challenge_row_of c]" by simp
  have "List.find (\<lambda>r. cr_challenge_id r = ch_challenge_id c) (pt_rows db) = None"
    using ran(3) r by (auto simp: find_None_iff challenges_unique_def image_iff)
  then have "pc_look db' (ch_challenge_id c) = Some (mapChallengeRecord (challenge_row_of c))"
    using r by (simp add: pc_look_def find_append)
  moreover have "pc_look db' k = pc_look db k" if "k \<noteq> ch_challenge_id c" for k
    using that r by (simp add: pc_look_def find_append split: option.split)
  ultimately show thesis using ran i map_new_row [of c] by (intro that(2)) (auto simp: pc_inv_def)
qed

lemma pc_mark_cases:
  assumes i: "pc_inv db" and r: "pc_markExpired now db = (x, db')"
  shows "pc_inv db'" "pc_look db' k = pc_look db k
      \<or> (\<exists>c. pc_look db k = Some c \<and> ch_expires_at c < now \<and> pc_look db' k = Some (c\<lparr>ch_state := expired\<rparr>))"
proof -
  let ?P = "\<lambda>r. cr_state r = issued \<and> cr_expires_at r < now"
  obtain u where u: "pool_query challenges_unique (sql_update ?P (\<lambda>r. r\<lparr>cr_state := expired\<rparr>)) db = (u, db')"
    using r by (auto simp: pc_markExpired_def io_bind_def split: prod.splits sum.splits)
  from u have "pc_inv db' \<and> (pc_look db' k = pc_look db k
      \<or> (\<exists>c. pc_look db k = Some c \<and> ch_expires_at c < now \<and> pc_look db' k = Some (c\<lparr>ch_state := expired\<rparr>)))"
  proof (cases rule: update_cases)
    case (lost e)
    then show ?thesis using i pc_look_same [OF lost(2)] by (simp add: pc_inv_def)
  next
    case ran
    have "pc_look db' k = map_option (\<lambda>r. mapChallengeRecord (if ?P r then r\<lparr>cr_state := expired\<rparr> else r))
           (List.find (\<lambda>r. cr_challenge_id r = k) (pt_rows db))"
      by (rule pc_look_update [OF ran(2)]) simp
    then show ?thesis using ran i
      by (cases "List.find (\<lambda>r. cr_challenge_id r = k) (pt_rows db)")
        (auto simp: pc_look_def pc_inv_def map_expired_row)
  qed
  then show "pc_inv db'" "pc_look db' k = pc_look db k
      \<or> (\<exists>c. pc_look db k = Some c \<and> ch_expires_at c < now \<and> pc_look db' k = Some (c\<lparr>ch_state := expired\<rparr>))"
    by blast+
qed

lemma pc_fail_cases:
  assumes i: "pc_inv db" and r: "pc_recordFailure k now m db = (x, db')"
  obtains (none) "\<forall>fr. x \<noteq> Inr (Some fr)" "pc_look db' = pc_look db" "pc_inv db'"
  | (ran) c where "pc_look db k = Some c" "ch_state c = issued" "pc_look db' k = Some (failed_record c m)"
      "x = Inr (Some (the (ch_failure_count (failed_record c m)), ch_state (failed_record c m)))"
      "\<forall>j. j \<noteq> k \<longrightarrow> pc_look db' j = pc_look db j" "pc_inv db'"
proof -
  let ?P = "\<lambda>r. cr_challenge_id r = k \<and> cr_state r = issued"
  let ?find = "List.find (\<lambda>r. cr_challenge_id r = k) (pt_rows db)"
  have sel: "filter ?P (pt_rows db) = (case ?find of None \<Rightarrow> [] | Some r \<Rightarrow> if cr_state r = issued then [r] else [])"
    using filter_key [of cr_challenge_id "pt_rows db" k "\<lambda>r. cr_state r = issued"] i
    by (simp add: pc_inv_def challenges_unique_def)
  obtain u where u: "pool_query challenges_unique (sql_update ?P (fail_row m)) db = (u, db')"
    and x: "x = (case u of Inl e \<Rightarrow> Inl e | Inr rows \<Rightarrow> Inr (first_row (\<lambda>r. (cr_failure_count r, cr_state r)) rows))"
    using r by (auto simp: pc_recordFailure_def io_bind_def split: prod.splits sum.splits)
  from u show thesis
  proof (cases rule: update_cases)
    case (lost e)
    then show thesis using i x pc_look_same [OF lost(2)] by (intro that(1)) (simp_all add: pc_inv_def)
  next
    case ran
    have look: "pc_look db' j = map_option (\<lambda>r. mapChallengeRecord (if ?P r then fail_row m r else r))
           (List.find (\<lambda>r. cr_challenge_id r = j) (pt_rows db))" for j
      by (rule pc_look_update [OF ran(2)]) (simp add: fail_row_def)
    have other: "\<forall>j. j \<noteq> k \<longrightarrow> pc_look db' j = pc_look db j"
      unfolding look unfolding pc_look_def by (auto simp: find_Some_iff intro!: option.map_cong)
    have i': "pc_inv db'" using ran i by (simp add: pc_inv_def)
    show thesis
    proof (cases "\<exists>r. ?find = Some r \<and> cr_state r = issued")
      case True
      then obtain r where r: "?find = Some r" "cr_state r = issued" by blast
      then have k: "cr_challenge_id r = k" by (auto simp: find_Some_iff)
      have row: "x = Inr (Some (cr_failure_count (fail_row m r), cr_state (fail_row m r)))"
        using x ran(1) sel r by (simp add: first_row_def)
      show thesis
      proof (rule that(2) [of "mapChallengeRecord r"])
        show "x = Inr (Some (the (ch_failure_count (failed_record (mapChallengeRecord r) m)),
            ch_state (failed_record (mapChallengeRecord r) m)))"
          unfolding row map_fail_row [symmetric] by (simp add: mapChallengeRecord_def asNullableNumber_def)
      qed (use r k look [of k] other i' in \<open>simp_all add: pc_look_Some map_fail_row\<close>)
    next
      case False
      then have "filter ?P (pt_rows db) = []" using sel by (auto split: option.splits)
      then have "pt_rows db' = pt_rows db" and "x = Inr None"
        using ran x by (auto simp: filter_empty_conv first_row_def intro!: map_idI)
      then show thesis using i' pc_look_same [of db' db] by (intro that(1)) simp_all
    qed
  qed
qed

text \<open>Counting rows is counting keys.\<close>

lemma count_rows:
  assumes "challenges_unique rows"
  shows "length (filter P rows) = card {k. \<exists>r. List.find (\<lambda>r. cr_challenge_id r = k) rows = Some r \<and> P r}"
proof -
  have d: "distinct (map cr_challenge_id rows)" using assms by (simp add: challenges_unique_def)
  have "{k. \<exists>r. List.find (\<lambda>r. cr_challenge_id r = k) rows = Some r \<and> P r}
      = set (map cr_challenge_id (filter P rows))"
    using find_key_iff [OF d] by force
  then show ?thesis by (metis d distinct_card distinct_map_filter length_map)
qed

interpretation pc: challenge_store pc_ops pc_look pc_inv
proof unfold_locales
  fix s :: "challenge_row pg" and k c
  show "pc_inv s \<Longrightarrow> pc_look s k = Some c \<Longrightarrow> ch_challenge_id c = k"
    by (auto simp: pc_look_Some find_Some_iff)
next
  fix s s' :: "challenge_row pg" and r x
  assume i: "pc_inv s" and c: "co_create pc_ops r s = (x, s')"
  have c: "pc_create r s = (x, s')" using c by (simp add: pc_ops_def)
  show "pc_inv s'" by (rule pc_create_cases [OF i c])
  show "k \<noteq> ch_challenge_id r \<Longrightarrow> pc_look s' k = pc_look s k \<or> pc_look s' k = None" for k
    by (rule pc_create_cases [OF i c]) simp_all
next
  fix s s' :: "challenge_row pg" and r u
  assume i: "pc_inv s" and f: "fresh_challenge r" and c: "co_create pc_ops r s = (Inr u, s')"
  have "pc_create r s = (Inr u, s')" using c by (simp add: pc_ops_def)
  then have "pc_look s' (ch_challenge_id r) = Some (r\<lparr>ch_failure_count := Some 0\<rparr>)"
    by (rule pc_create_cases [OF i]) (use f in simp_all)
  then show "\<exists>n. or_else n 0 = 0 \<and> pc_look s' (ch_challenge_id r) = Some (r\<lparr>ch_failure_count := n\<rparr>)"
    by (intro exI [of _ "Some 0"]) simp
next
  fix s s' :: "challenge_row pg" and r e
  assume i: "pc_inv s" and c: "co_create pc_ops r s = (Inl e, s')"
  have "pc_create r s = (Inl e, s')" using c by (simp add: pc_ops_def)
  then show "pc_look s' (ch_challenge_id r) = pc_look s (ch_challenge_id r)"
    by (rule pc_create_cases [OF i]) simp_all
next
  fix s s' :: "challenge_row pg" and k x rg
  assume i: "pc_inv s"
  show "co_get pc_ops k s = (x, s') \<Longrightarrow> pc_inv s' \<and> pc_look s' = pc_look s"
    using pc_get_run(1,2) [of k s x s'] i pc_look_same [of s' s] by (simp add: pc_ops_def pc_inv_def)
  show "co_get pc_ops k s = (Inr rg, s') \<Longrightarrow> rg = pc_look s k"
    using pc_get_run(2) [of k s "Inr rg" s'] i by (simp add: pc_ops_def)
next
  fix s s' :: "challenge_row pg" and k p x
  assume i: "pc_inv s" and r: "co_redeem pc_ops k p s = (x, s')"
  have r: "pc_redeem k p s = (x, s')" using r by (simp add: pc_ops_def)
  show "pc_inv s' \<and> (\<forall>j. j \<noteq> k \<longrightarrow> pc_look s' j = pc_look s j)"
    by (rule pc_redeem_cases [OF i r]) auto
  show "x \<noteq> Inr Redeemed \<Longrightarrow> pc_look s' k = pc_look s k \<or> (\<exists>c. pc_look s k = Some c
      \<and> lifecycle c (c\<lparr>ch_state := expired\<rparr>) \<and> pc_look s' k = Some (c\<lparr>ch_state := expired\<rparr>))"
    by (rule pc_redeem_cases [OF i r]) auto
next
  fix s s' :: "challenge_row pg" and k p
  assume i: "pc_inv s"
  have op: "co_redeem pc_ops = pc_redeem" by (simp add: pc_ops_def)
  show "co_redeem pc_ops k p s = (Inr Redeemed, s') \<Longrightarrow>
      \<exists>c. pc_look s k = Some c \<and> ch_state c = issued \<and> \<not> ch_expires_at c < rp_now p
        \<and> pc_look s' k = Some (redeemed_record c p)"
    unfolding op by (erule pc_redeem_cases [OF i]) (auto simp: pc_look_Some)
  show "co_redeem pc_ops k p s = (Inr Not_found, s') \<Longrightarrow> pc_look s k = None"
    unfolding op by (erule pc_redeem_cases [OF i]) simp_all
  show "co_redeem pc_ops k p s = (Inr Redeem_expired, s') \<Longrightarrow>
      \<exists>c. pc_look s k = Some c \<and> (ch_expires_at c < rp_now p \<or> ch_state c = expired)"
    unfolding op by (erule pc_redeem_cases [OF i]) simp_all
  show "co_redeem pc_ops k p s = (Inr Already_redeemed, s') \<Longrightarrow>
      \<exists>c. pc_look s k = Some c \<and> \<not> ch_expires_at c < rp_now p \<and> ch_state c \<noteq> expired
        \<and> (ch_state c = issued \<longrightarrow> ch_expires_at c = rp_now p) \<and> pc_look s' k = Some c"
    unfolding op by (erule pc_redeem_cases [OF i]) auto
next
  fix s s' :: "challenge_row pg" and n x
  assume i: "pc_inv s" and m: "co_markExpired pc_ops n s = (x, s')"
  have m: "pc_markExpired n s = (x, s')" using m by (simp add: pc_ops_def)
  show "pc_inv s' \<and> (\<forall>k. pc_look s' k = pc_look s k \<or> (\<exists>c. pc_look s k = Some c
      \<and> lifecycle c (c\<lparr>ch_state := expired\<rparr>) \<and> pc_look s' k = Some (c\<lparr>ch_state := expired\<rparr>)))"
    using pc_mark_cases [OF i m] lifecycle.expire by metis
next
  fix s s' :: "challenge_row pg" and cnt x n and flt :: OutstandingChallengeFilter
  assume i: "pc_inv s" and o: "co_countOutstanding pc_ops = Some cnt"
  have cnt: "cnt = pc_countOutstanding" using o by (simp add: pc_ops_def)
  let ?P = "\<lambda>r. cr_state r = issued \<and> cr_expires_at r \<ge> of_now flt
            \<and> (of_npub flt = None \<or> of_npub flt = Some (cr_npub r))
            \<and> (of_clientIp flt = None \<or> cr_client_ip r = of_clientIp flt)"
  have out: "?P r = outstanding flt (mapChallengeRecord r)" for r
    by (auto simp: outstanding_def)
  show "cnt flt s = (x, s') \<Longrightarrow> pc_inv s' \<and> pc_look s' = pc_look s"
    using i pc_look_same [of s' s] unfolding cnt pc_countOutstanding_def io_bind_def
    by (auto simp: pc_inv_def elim!: select_cases split: prod.splits sum.splits)
  have len: "cnt flt s = (Inr n, s') \<Longrightarrow> n = length (filter ?P (pt_rows s))"
    unfolding cnt pc_countOutstanding_def io_bind_def
    by (auto elim!: select_cases split: prod.splits sum.splits)
  have "length (filter ?P (pt_rows s))
      = card {k. \<exists>r. List.find (\<lambda>r. cr_challenge_id r = k) (pt_rows s) = Some r \<and> ?P r}"
    using i by (intro count_rows) (simp add: pc_inv_def)
  also have "{k. \<exists>r. List.find (\<lambda>r. cr_challenge_id r = k) (pt_rows s) = Some r \<and> ?P r}
      = {k. \<exists>c. pc_look s k = Some c \<and> outstanding flt c}"
    unfolding out pc_look_Some by blast
  finally show "cnt flt s = (Inr n, s') \<Longrightarrow> n = card {k. \<exists>c. pc_look s k = Some c \<and> outstanding flt c}"
    using len by simp
next
  fix s s' :: "challenge_row pg" and rf k t m x
  assume i: "pc_inv s" and o: "co_recordFailure pc_ops = Some rf" and c: "rf k t m s = (x, s')"
  have c: "pc_recordFailure k t m s = (x, s')" using o c by (simp add: pc_ops_def)
  show "pc_inv s' \<and> (\<forall>j. j \<noteq> k \<longrightarrow> pc_look s' j = pc_look s j)"
    by (rule pc_fail_cases [OF i c]) auto
  show "\<forall>fr. x \<noteq> Inr (Some fr) \<Longrightarrow> pc_look s' k = pc_look s k"
    by (rule pc_fail_cases [OF i c]) auto
next
  fix s s' :: "challenge_row pg" and rf k t m fc st
  assume i: "pc_inv s" and o: "co_recordFailure pc_ops = Some rf"
    and c: "rf k t m s = (Inr (Some (fc, st)), s')"
  have "pc_recordFailure k t m s = (Inr (Some (fc, st)), s')" using o c by (simp add: pc_ops_def)
  then show "\<exists>c. pc_look s k = Some c \<and> ch_state c = issued \<and> pc_look s' k = Some (failed_record c m)
      \<and> ch_failure_count (failed_record c m) = Some fc \<and> ch_state (failed_record c m) = st"
    by (rule pc_fail_cases [OF i]) (auto simp: failed_record_def Let_def)
qed

section \<open>Sessions\<close>

abbreviation the_session :: "session_row \<Rightarrow> SessionRecord" where
  "the_session \<equiv> mapSessionRecord"

definition ps_sess :: "session_row pg \<Rightarrow> SessionRecord set" where
  "ps_sess db = the_session ` set (pt_rows db)"

definition ps_inv :: "session_row pg \<Rightarrow> bool" where
  "ps_inv db \<longleftrightarrow> sessions_unique (pt_rows db)
     \<and> (\<forall>r\<in>set (pt_rows db). sr_revoked_at r \<noteq> Some 0)"

lemma map_session_sel [simp]:
  "s_session_id (mapSessionRecord r) = sr_session_id r"
  "s_challenge_id (mapSessionRecord r) = sr_challenge_id r"
  "s_access_token (mapSessionRecord r) = sr_access_token r"
  "s_principal_npub (mapSessionRecord r) = sr_principal_npub r"
  "s_principal_pubkey (mapSessionRecord r) = sr_principal_pubkey r"
  "s_issued_at (mapSessionRecord r) = sr_issued_at r"
  "s_refresh_token (mapSessionRecord r) = sr_refresh_token r"
  "s_previous_refresh_token (mapSessionRecord r) = sr_previous_refresh_token r"
  "s_revoked_at (the_session r) = sr_revoked_at r"
  by (simp_all add: mapSessionRecord_def)

lemma map_session_row: "fresh_session r \<Longrightarrow> the_session (session_row_of r) = r"
  by (cases r) (simp add: mapSessionRecord_def session_row_of_def fresh_session_def
      asNullableNumber_def read_int8_def split: option.split)

lemma map_rotate_row: "the_session (rotate_row p r) = rotated (the_session r) p"
  by (simp add: mapSessionRecord_def rotate_row_def rotated_def asNullableNumber_def read_int8_def)

lemma sessions_unique_inj:
  assumes "sessions_unique rows" and "a \<in> set rows" and "b \<in> set rows"
  shows "sr_session_id a = sr_session_id b \<Longrightarrow> a = b" and "sr_challenge_id a = sr_challenge_id b \<Longrightarrow> a = b"
  using assms by (auto simp: sessions_unique_def distinct_map dest: inj_onD)

lemma find_the: "Some y = map_option m (List.find P rows) \<Longrightarrow> \<exists>r\<in>set rows. P r \<and> y = m r"
  by (induction rows) (auto split: if_splits)

lemma first_row_in: "Some v = first_row m rows \<Longrightarrow> \<exists>r\<in>set rows. v = m r"
  by (cases rows) (simp_all add: first_row_def)

lemma ps_frame: "pt_rows db' = pt_rows db \<Longrightarrow> ps_inv db' = ps_inv db \<and> ps_sess db' = ps_sess db"
  by (simp add: ps_inv_def ps_sess_def)

lemma ps_fetch:
  assumes "io_bind (pool_query sessions_unique (sql_select P)) (\<lambda>rows.
       io_ret (first_row mapSessionRecord rows)) db = (x, db')"
    and i: "ps_inv db"
  shows "ps_inv db' \<and> ps_sess db' = ps_sess db"
    and "x = Inr y \<Longrightarrow> y = map_option the_session (List.find P (pt_rows db))"
  using fetch_run [OF assms(1)] ps_frame [of db' db] i by (simp_all add: first_row_find ps_inv_def)

text \<open>An update: every session afterwards is one of before, or an updated one.\<close>

lemma ps_update:
  assumes i: "ps_inv db" and q: "pool_query sessions_unique (sql_update P f) db = (x, db')"
    and f: "\<And>r. sr_revoked_at (f r) \<noteq> Some 0 \<or> sr_revoked_at (f r) = sr_revoked_at r"
  shows "ps_inv db'"
    and "y \<in> ps_sess db' \<Longrightarrow> y \<in> ps_sess db \<or> (\<exists>r\<in>set (pt_rows db). P r \<and> y = the_session (f r))"
    and "x = Inr rs \<Longrightarrow> rs = map f (filter P (pt_rows db)) \<and> pt_rows db' = map (\<lambda>r. if P r then f r else r) (pt_rows db)"
proof -
  have "ps_inv db' \<and> (\<forall>y\<in>ps_sess db'. y \<in> ps_sess db \<or> (\<exists>r\<in>set (pt_rows db). P r \<and> y = the_session (f r)))
    \<and> (\<forall>rs. x = Inr rs \<longrightarrow> rs = map f (filter P (pt_rows db)) \<and> pt_rows db' = map (\<lambda>r. if P r then f r else r) (pt_rows db))"
    using q
  proof (cases rule: update_cases)
    case (lost e)
    then show ?thesis using i ps_frame [of db' db] by simp
  next
    case ran
    have "sr_revoked_at r \<noteq> Some 0" if "r \<in> set (pt_rows db')" for r
      using that i f unfolding ran(2) ps_inv_def by (auto split: if_splits)
    then have "ps_inv db'" using ran i by (simp add: ps_inv_def)
    moreover have "y \<in> ps_sess db \<or> (\<exists>r\<in>set (pt_rows db). P r \<and> y = the_session (f r))" if "y \<in> ps_sess db'" for y
      using that unfolding ps_sess_def ran(2) by auto
    ultimately show ?thesis using ran i by (simp add: ps_inv_def)
  qed
  then show "ps_inv db'"
    and "y \<in> ps_sess db' \<Longrightarrow> y \<in> ps_sess db \<or> (\<exists>r\<in>set (pt_rows db). P r \<and> y = the_session (f r))"
    and "x = Inr rs \<Longrightarrow> rs = map f (filter P (pt_rows db)) \<and> pt_rows db' = map (\<lambda>r. if P r then f r else r) (pt_rows db)"
    by blast+
qed

lemma ps_create_cases:
  assumes i: "ps_inv db" and f: "fresh_session r" and c: "ps_createForChallenge r db = (x, db')"
  shows "ps_inv db'" "ps_sess db' \<subseteq> insert r (ps_sess db)"
    "x = Inr y \<Longrightarrow> s_challenge_id y = s_challenge_id r \<and> (y = r \<or> y \<in> ps_sess db) \<and> y \<in> ps_sess db'"
proof -
  obtain u db1 where u: "pool_query sessions_unique (insert_session r) db = (u, db1)"
    by (cases "pool_query sessions_unique (insert_session r) db") auto
  have "ps_inv db' \<and> ps_sess db' \<subseteq> insert r (ps_sess db) \<and> (\<forall>y. x = Inr y \<longrightarrow>
      s_challenge_id y = s_challenge_id r \<and> (y = r \<or> y \<in> ps_sess db) \<and> y \<in> ps_sess db')"
    using u
  proof (cases rule: pool_query_cases)
    case (lost e)
    then show ?thesis using c u i ps_frame [OF lost(2)] by (auto simp: ps_createForChallenge_def io_bind_def)
  next
    case (ran n)
    show ?thesis
    proof (cases "s_challenge_id r \<in> set (map sr_challenge_id (pt_rows db))")
      case True
      then have n: "n = 0" "pt_rows db1 = pt_rows db" using ran(2) by (simp_all add: insert_session_def)
      have i1: "ps_inv db1" "ps_sess db1 = ps_sess db" using ps_frame [OF n(2)] i by simp_all
      obtain v db2 where v: "ps_findBy sr_challenge_id (s_challenge_id r) db1 = (v, db2)"
        by (cases "ps_findBy sr_challenge_id (s_challenge_id r) db1") auto
      note fetch = ps_fetch [OF v [unfolded ps_findBy_def] i1(1)]
      have "db' = db2 \<and> (\<forall>y. x = Inr y \<longrightarrow> v = Inr (Some y))"
        using c u v ran(1) n(1)
        by (auto simp: ps_createForChallenge_def io_bind_def split: sum.splits option.splits)
      then have "\<exists>r'\<in>set (pt_rows db). sr_challenge_id r' = s_challenge_id r \<and> y = the_session r'"
        if "x = Inr y" for y
        using find_the [OF fetch(2) [of "Some y"]] that n(2) by auto
      then show ?thesis using fetch(1) i1 \<open>db' = db2 \<and> _\<close> unfolding ps_sess_def by force
    next
      case False
      then have n: "n = 1" "pt_rows db1 = pt_rows db @ [session_row_of r]"
        using ran(2) by (simp_all add: insert_session_def)
      have "ps_sess db1 = insert r (ps_sess db)"
        using n(2) map_session_row [OF f] by (simp add: ps_sess_def)
      moreover have "ps_inv db1"
        using ran n(2) i by (auto simp: ps_inv_def session_row_of_def)
      moreover have "x = Inr r" "db' = db1"
        using c u ran(1) n(1) by (simp_all add: ps_createForChallenge_def)
      ultimately show ?thesis by simp
    qed
  qed
  then show "ps_inv db'" "ps_sess db' \<subseteq> insert r (ps_sess db)"
    "x = Inr y \<Longrightarrow> s_challenge_id y = s_challenge_id r \<and> (y = r \<or> y \<in> ps_sess db) \<and> y \<in> ps_sess db'"
    by blast+
qed

lemma succeeds_revoke_row: "now \<noteq> 0 \<Longrightarrow> succeeds (the_session r) (the_session (r\<lparr>sr_revoked_at := Some now\<rparr>))"
  by (simp add: succeeds_def)

lemma ps_revoke_run:
  assumes i: "ps_inv db" and now: "now \<noteq> 0"
    and q: "pool_query sessions_unique (sql_update P (\<lambda>r. r\<lparr>sr_revoked_at := Some now\<rparr>)) db = (x, db')"
  shows "ps_inv db' \<and> (\<forall>y\<in>ps_sess db'. \<exists>x\<in>ps_sess db. succeeds x y)"
proof -
  note upd = ps_update [OF i q]
  have "\<exists>x\<in>ps_sess db. succeeds x y" if "y \<in> ps_sess db'" for y
    using upd(2) [OF _ that] now succeeds_revoke_row [OF now] by (auto simp: ps_sess_def)
  then show ?thesis using upd(1) now by simp
qed

lemma revoke_only:
  "io_bind (pool_query uniq f) (\<lambda>rows. io_ret (g rows)) db = (x, db') \<Longrightarrow>
     \<exists>u. pool_query uniq f db = (u, db') \<and> (\<forall>v. x = Inr v \<longrightarrow> (\<exists>rows. u = Inr rows))"
  by (auto simp: io_bind_def split: prod.splits sum.splits)

lemma ps_revoke_done:
  assumes q: "pool_query sessions_unique
      (sql_update (\<lambda>r. c r = k \<and> sr_revoked_at r = None) (\<lambda>r. r\<lparr>sr_revoked_at := Some now\<rparr>)) db = (Inr rs, db')"
    and r: "r \<in> set (pt_rows db')" "c r = k"
  shows "sr_revoked_at r \<noteq> None"
  using q
proof (cases rule: update_cases)
  case ran
  then obtain r0 where "r = (if c r0 = k \<and> sr_revoked_at r0 = None then r0\<lparr>sr_revoked_at := Some now\<rparr> else r0)"
    using r(1) [unfolded ran(2) set_map] by (elim imageE)
  then show ?thesis using r(2) by (cases "c r0 = k \<and> sr_revoked_at r0 = None") simp_all
qed simp

lemma ps_token_run:
  assumes "ps_inv db" and "pool_query sessions_unique (sql_update P (\<lambda>r. r\<lparr>sr_revoked_at := Some now\<rparr>)) db = (x, db')"
    and "y \<in> ps_sess db'"
  shows "\<exists>x\<in>ps_sess db. s_session_id y = s_session_id x \<and> s_refresh_token y = s_refresh_token x"
proof (cases "pt_rows db' = pt_rows db")
  case True
  then show ?thesis using assms(3) by (auto simp: ps_sess_def)
next
  case False
  then have "pt_rows db' = map (\<lambda>r. if P r then r\<lparr>sr_revoked_at := Some now\<rparr> else r) (pt_rows db)"
    using assms(2) by (auto elim!: update_cases)
  then show ?thesis using assms(3) by (auto simp: ps_sess_def)
qed

lemma ps_rotate_run:
  assumes i: "ps_inv db" and r: "ps_rotateRefreshToken k p db = (x, db')"
  shows "ps_inv db'"
    and "y \<in> ps_sess db' \<Longrightarrow> y \<in> ps_sess db \<or> (\<exists>z\<in>ps_sess db. y = rotated z p)"
    and "x = Inr (Some v) \<Longrightarrow> v \<in> ps_sess db' \<and> (\<exists>z\<in>ps_sess db. s_session_id z = k
           \<and> s_refresh_token z = Some (rt_expectedRefreshToken p) \<and> v = rotated z p)"
proof -
  let ?P = "\<lambda>r. sr_session_id r = k \<and> sr_refresh_token r = Some (rt_expectedRefreshToken p) \<and> sr_revoked_at r = None"
  obtain u where u: "pool_query sessions_unique (sql_update ?P (rotate_row p)) db = (u, db')"
    and x: "\<And>y. x = Inr y \<Longrightarrow> \<exists>rows. u = Inr rows \<and> y = first_row mapSessionRecord rows"
    using r by (auto simp: ps_rotateRefreshToken_def io_bind_def split: prod.splits sum.splits)
  have f: "sr_revoked_at (rotate_row p r) \<noteq> Some 0 \<or> sr_revoked_at (rotate_row p r) = sr_revoked_at r" for r
    by (simp add: rotate_row_def)
  note upd = ps_update [OF i u f]
  show "ps_inv db'" by (rule upd(1))
  show "y \<in> ps_sess db' \<Longrightarrow> y \<in> ps_sess db \<or> (\<exists>z\<in>ps_sess db. y = rotated z p)"
    using upd(2) [of y] by (auto simp: ps_sess_def map_rotate_row)
  assume "x = Inr (Some v)"
  then obtain rows where rows: "u = Inr rows" "Some v = first_row mapSessionRecord rows"
    using x by blast
  then obtain r where r: "r \<in> set (pt_rows db)" "?P r" "v = the_session (rotate_row p r)"
    using upd(3) [OF rows(1)] first_row_in [OF rows(2)] by auto
  have "rotate_row p r \<in> set (pt_rows db')"
    using upd(3) [OF rows(1)] r(1,2) by force
  then have "v \<in> ps_sess db'" unfolding r(3) ps_sess_def by blast
  then show "v \<in> ps_sess db' \<and> (\<exists>z\<in>ps_sess db. s_session_id z = k
           \<and> s_refresh_token z = Some (rt_expectedRefreshToken p) \<and> v = rotated z p)"
    using r by (auto simp: ps_sess_def map_rotate_row intro!: bexI [of _ r])
qed

interpretation ps: rotating_session_store ps_ops ps_sess ps_inv
proof unfold_locales
  fix s :: "session_row pg" and x y
  assume i: "ps_inv s" and xy: "x \<in> ps_sess s" "y \<in> ps_sess s"
  have u: "sessions_unique (pt_rows s)" using i by (simp add: ps_inv_def)
  obtain a b where "a \<in> set (pt_rows s)" "b \<in> set (pt_rows s)" and ab: "x = the_session a" "y = the_session b"
    using xy unfolding ps_sess_def by blast
  note inj = sessions_unique_inj [OF u this(1,2)]
  show "s_challenge_id x = s_challenge_id y \<Longrightarrow> x = y" "s_session_id x = s_session_id y \<Longrightarrow> x = y"
    using inj unfolding ab by auto
next
  fix s :: "session_row pg" and x
  show "ps_inv s \<Longrightarrow> x \<in> ps_sess s \<Longrightarrow> s_revoked_at x \<noteq> Some 0"
    by (auto simp: ps_inv_def ps_sess_def)
next
  fix s s' :: "session_row pg" and r xc y
  assume i: "ps_inv s" and f: "fresh_session r"
  have op: "so_createForChallenge ps_ops = ps_createForChallenge" by (simp add: ps_ops_def)
  show "so_createForChallenge ps_ops r s = (xc, s') \<Longrightarrow> ps_inv s'"
    "so_createForChallenge ps_ops r s = (xc, s') \<Longrightarrow> ps_sess s' \<subseteq> insert r (ps_sess s)"
    unfolding op using ps_create_cases(1,2) [OF i f] by blast+
  show "so_createForChallenge ps_ops r s = (Inr y, s') \<Longrightarrow>
      s_challenge_id y = s_challenge_id r \<and> (y = r \<or> y \<in> ps_sess s) \<and> y \<in> ps_sess s'"
    unfolding op using ps_create_cases(3) [OF i f] by blast
next
  fix s s' :: "session_row pg" and k x y
  assume i: "ps_inv s"
  have op: "so_getBySessionId ps_ops = ps_findBy sr_session_id" "so_getByAccessToken ps_ops = ps_findBy sr_access_token"
    by (simp_all add: ps_ops_def)
  have run: "ps_findBy c k s = (x, s') \<Longrightarrow> ps_inv s' \<and> ps_sess s' \<subseteq> ps_sess s" for c x
    using ps_fetch(1) [OF _ i] unfolding ps_findBy_def by blast
  have val: "\<exists>r\<in>set (pt_rows s). c r = k \<and> y = the_session r"
    if r: "ps_findBy c k s = (Inr (Some y), s')" for c
    using find_the [OF ps_fetch(2) [OF r [unfolded ps_findBy_def] i refl]] by blast
  have sess: "ps_findBy c k s = (Inr (Some y), s') \<Longrightarrow> ps_sess s' = ps_sess s" for c
    using ps_fetch(1) [OF _ i] unfolding ps_findBy_def by blast
  show "so_getBySessionId ps_ops k s = (x, s') \<Longrightarrow> ps_inv s' \<and> ps_sess s' \<subseteq> ps_sess s"
    "so_getByAccessToken ps_ops k s = (x, s') \<Longrightarrow> ps_inv s' \<and> ps_sess s' \<subseteq> ps_sess s"
    unfolding op by (rule run, assumption)+
  show "so_getBySessionId ps_ops k s = (Inr (Some y), s') \<Longrightarrow> y \<in> ps_sess s' \<and> s_session_id y = k"
    "so_getByAccessToken ps_ops k s = (Inr (Some y), s') \<Longrightarrow> y \<in> ps_sess s' \<and> s_access_token y = k"
    unfolding op using val sess by (fastforce simp: ps_sess_def)+
next
  fix s s' :: "session_row pg" and now :: int and k x y
  assume i: "ps_inv s" and now: "now \<noteq> 0"
  have op: "so_revokeBySessionId ps_ops = ps_revokeBySessionId" by (simp add: ps_ops_def)
  show "so_revokeBySessionId ps_ops k now s = (x, s') \<Longrightarrow>
      ps_inv s' \<and> (\<forall>y\<in>ps_sess s'. \<exists>x\<in>ps_sess s. succeeds x y)"
    unfolding op ps_revokeBySessionId_def by (drule revoke_only, elim exE conjE) (rule ps_revoke_run [OF i now])
  show "so_revokeBySessionId ps_ops k now s = (Inr (), s') \<Longrightarrow> y \<in> ps_sess s' \<Longrightarrow> s_session_id y = k
      \<Longrightarrow> s_revoked_at y \<noteq> None"
    unfolding op ps_revokeBySessionId_def
    by (drule revoke_only) (auto simp: ps_sess_def dest: ps_revoke_done [where c = sr_session_id])
next
  fix s s' :: "session_row pg" and now :: int and pk x n y
  assume i: "ps_inv s" and now: "now \<noteq> 0"
  have op: "so_revokeByPrincipal ps_ops = ps_revokeByPrincipal" by (simp add: ps_ops_def)
  show "so_revokeByPrincipal ps_ops pk now s = (x, s') \<Longrightarrow>
      ps_inv s' \<and> (\<forall>y\<in>ps_sess s'. \<exists>x\<in>ps_sess s. succeeds x y)"
    unfolding op ps_revokeByPrincipal_def by (drule revoke_only, elim exE conjE) (rule ps_revoke_run [OF i now])
  show "so_revokeByPrincipal ps_ops pk now s = (Inr n, s') \<Longrightarrow> y \<in> ps_sess s' \<Longrightarrow> s_principal_pubkey y = pk
      \<Longrightarrow> s_revoked_at y \<noteq> None"
    unfolding op ps_revokeByPrincipal_def
    by (drule revoke_only) (auto simp: ps_sess_def dest: ps_revoke_done [where c = sr_principal_pubkey])
next
  fix s s' :: "session_row pg" and g t x y
  assume i: "ps_inv s" and o: "so_getByRefreshToken ps_ops = Some g"
  have g: "g = ps_getByRefreshToken" using o by (simp add: ps_ops_def)
  show "g t s = (x, s') \<Longrightarrow> ps_inv s' \<and> ps_sess s' \<subseteq> ps_sess s"
    unfolding g ps_getByRefreshToken_def using ps_fetch(1) [OF _ i] by blast
  assume r: "g t s = (Inr (Some y), s')"
  note f = ps_fetch [OF r [unfolded g ps_getByRefreshToken_def] i]
  show "y \<in> ps_sess s' \<and> (s_refresh_token y = Some t \<or> s_previous_refresh_token y = Some t)"
    using f(1) find_the [OF f(2) [OF refl]] by (auto simp: ps_sess_def)
next
  fix s s' :: "session_row pg" and rot k p x y
  assume i: "ps_inv s" and o: "so_rotateRefreshToken ps_ops = Some rot"
  have rot: "rot = ps_rotateRefreshToken" using o by (simp add: ps_ops_def)
  show "rot k p s = (x, s') \<Longrightarrow> ps_inv s' \<and> (\<forall>y\<in>ps_sess s'. \<exists>x\<in>ps_sess s. succeeds x y)"
    unfolding rot by (auto dest: ps_rotate_run(1,2) [OF i] intro: succeeds_refl succeeds_rotated)
  show "rot k p s = (Inr (Some y), s') \<Longrightarrow> y \<in> ps_sess s' \<and> (\<exists>x\<in>ps_sess s. s_session_id x = k
                \<and> s_refresh_token x = Some (rt_expectedRefreshToken p) \<and> y = rotated x p)"
    unfolding rot using ps_rotate_run(3) [OF i] by blast
next
  fix s s' :: "session_row pg" and j now x y
  assume i: "ps_inv s" and r: "so_revokeBySessionId ps_ops j now s = (x, s')" and y: "y \<in> ps_sess s'"
  show "\<exists>x\<in>ps_sess s. s_session_id y = s_session_id x \<and> s_refresh_token y = s_refresh_token x"
    using r by (auto simp: ps_ops_def ps_revokeBySessionId_def dest!: revoke_only intro: ps_token_run [OF i _ y])
next
  fix s s' :: "session_row pg" and pk now x y
  assume i: "ps_inv s" and r: "so_revokeByPrincipal ps_ops pk now s = (x, s')" and y: "y \<in> ps_sess s'"
  show "\<exists>x\<in>ps_sess s. s_session_id y = s_session_id x \<and> s_refresh_token y = s_refresh_token x"
    using r by (auto simp: ps_ops_def ps_revokeByPrincipal_def dest!: revoke_only intro: ps_token_run [OF i _ y])
next
  fix s s' :: "session_row pg" and rot j p x y
  assume i: "ps_inv s" and o: "so_rotateRefreshToken ps_ops = Some rot" and c: "rot j p s = (x, s')"
    and y: "y \<in> ps_sess s'"
  have "ps_rotateRefreshToken j p s = (x, s')" using o c by (simp add: ps_ops_def)
  from ps_rotate_run(2) [OF i this y]
  show "(\<exists>x\<in>ps_sess s. s_session_id y = s_session_id x \<and> s_refresh_token y = s_refresh_token x)
      \<or> s_refresh_token y = Some (rt_refreshToken p)"
    by (auto simp: rotated_def)
qed

section \<open>Access control\<close>

definition pa_rows :: "acl_row pg \<Rightarrow> string \<Rightarrow> string \<Rightarrow> AclRecord option" where
  "pa_rows db pubkey appId = map_option mapAclRecord (List.find (at_key pubkey appId) (pt_rows db))"

lemma find_at_key_update:
  assumes "\<And>r. lr_pubkey (f r) = lr_pubkey r \<and> lr_app_id (f r) = lr_app_id r"
  shows "List.find (at_key p a) (map (\<lambda>r. if P r then f r else r) rows)
     = map_option (\<lambda>r. if P r then f r else r) (List.find (at_key p a) rows)"
  using assms by (induction rows) (auto simp: at_key_def)

lemma pa_update_run:
  assumes "io_bind (io_get pt_now) (\<lambda>now. io_bind (pool_query acl_unique (sql_update (at_key p a) (f now))) (\<lambda>_. io_ret ())) db = (x, db')"
    and "\<And>now r. lr_pubkey (f now r) = lr_pubkey r \<and> lr_app_id (f now r) = lr_app_id r"
  shows "(q, b) \<noteq> (p, a) \<Longrightarrow> pa_rows db' q b = pa_rows db q b"
    and "x = Inr () \<Longrightarrow> pa_rows db' p a
           = map_option (\<lambda>r. mapAclRecord (f (pt_now db) r)) (List.find (at_key p a) (pt_rows db))"
proof -
  obtain u where u: "pool_query acl_unique (sql_update (at_key p a) (f (pt_now db))) db = (u, db')"
    and x: "x = Inr () \<Longrightarrow> \<exists>v. u = Inr v"
    using assms(1) by (auto simp: io_bind_def split: prod.splits sum.splits)
  have "((q, b) \<noteq> (p, a) \<longrightarrow> pa_rows db' q b = pa_rows db q b) \<and> (x = Inr () \<longrightarrow> pa_rows db' p a
           = map_option (\<lambda>r. mapAclRecord (f (pt_now db) r)) (List.find (at_key p a) (pt_rows db)))"
    using u
  proof (cases rule: update_cases)
    case (lost e)
    then show ?thesis using x by (auto simp: pa_rows_def)
  next
    case ran
    have "pa_rows db' q b = map_option (\<lambda>r. mapAclRecord (if at_key p a r then f (pt_now db) r else r))
        (List.find (at_key q b) (pt_rows db))" for q b
      unfolding pa_rows_def ran(2) using assms(2)
      by (subst find_at_key_update) (simp_all add: option.map_comp comp_def)
    then show ?thesis
      unfolding pa_rows_def by (auto simp: find_Some_iff at_key_def intro!: option.map_cong)
  qed
  then show "(q, b) \<noteq> (p, a) \<Longrightarrow> pa_rows db' q b = pa_rows db q b"
    and "x = Inr () \<Longrightarrow> pa_rows db' p a
           = map_option (\<lambda>r. mapAclRecord (f (pt_now db) r)) (List.find (at_key p a) (pt_rows db))"
    by blast+
qed

lemma pa_upsert_run:
  assumes "pa_upsert r db = (x, db')"
  shows "(q, b) \<noteq> (ar_principal_pubkey r, ar_app_id r) \<Longrightarrow> pa_rows db' q b = pa_rows db q b"
    and "x = Inr () \<Longrightarrow> \<exists>r'. pa_rows db' (ar_principal_pubkey r) (ar_app_id r) = Some r' \<and> same_grant r' r
           \<and> ar_suspended r' = ar_suspended r"
proof -
  let ?p = "ar_principal_pubkey r" and ?a = "ar_app_id r"
  have u: "pool_query acl_unique (upsert_row (pt_now db) r) db = (x, db')"
    using assms by (simp add: pa_upsert_def)
  have "((q, b) \<noteq> (?p, ?a) \<longrightarrow> pa_rows db' q b = pa_rows db q b) \<and> (x = Inr () \<longrightarrow> (\<exists>r'.
      pa_rows db' ?p ?a = Some r' \<and> same_grant r' r \<and> ar_suspended r' = ar_suspended r))"
    using u
  proof (cases rule: pool_query_cases)
    case (lost e)
    then show ?thesis by (simp add: pa_rows_def)
  next
    case (ran y)
    show ?thesis
    proof (cases "(?a, ?p) \<in> set (map (\<lambda>r. (lr_app_id r, lr_pubkey r)) (pt_rows db))")
      case True
      let ?f = "\<lambda>x. x\<lparr>lr_role := ar_role r, lr_permission_overrides := jsonb_overrides (ar_permission_overrides r),
                 lr_suspended := ar_suspended r, lr_suspended_at := ar_suspended_at r,
                 lr_suspended_reason := ar_suspended_reason r, lr_updated_at := Some (pt_now db)\<rparr>"
      have rows: "pt_rows db' = map (\<lambda>x. if at_key ?p ?a x then ?f x else x) (pt_rows db)"
        using ran(2) True by (auto simp: upsert_row_def)
      have look: "pa_rows db' q b = map_option (\<lambda>x. mapAclRecord (if at_key ?p ?a x then ?f x else x))
          (List.find (at_key q b) (pt_rows db))" for q b
        unfolding pa_rows_def rows by (subst find_at_key_update) (simp_all add: option.map_comp comp_def)
      have other: "(q, b) \<noteq> (?p, ?a) \<longrightarrow> pa_rows db' q b = pa_rows db q b"
        unfolding look unfolding pa_rows_def by (auto simp: find_Some_iff at_key_def intro!: option.map_cong)
      obtain x0 where x0: "List.find (at_key ?p ?a) (pt_rows db) = Some x0" "at_key ?p ?a x0"
        using True by (cases "List.find (at_key ?p ?a) (pt_rows db)")
          (auto simp: find_None_iff find_Some_iff at_key_def)
      then have "pa_rows db' ?p ?a = Some (mapAclRecord (?f x0))" using look by simp
      then show ?thesis using other x0(2) by (auto simp: mapAclRecord_def same_grant_def at_key_def)
    next
      case False
      then have rows: "pt_rows db' = pt_rows db @
        [\<lparr>lr_app_id = ?a, lr_pubkey = ?p, lr_role = ar_role r,
          lr_permission_overrides = jsonb_overrides (ar_permission_overrides r),
          lr_suspended = ar_suspended r, lr_suspended_at = ar_suspended_at r,
          lr_suspended_reason = ar_suspended_reason r, lr_created_at = Some (pt_now db),
          lr_updated_at = Some (pt_now db)\<rparr>]"
        using ran(2) by (auto simp: upsert_row_def)
      have "List.find (at_key ?p ?a) (pt_rows db) = None"
        using False by (auto simp: find_None_iff at_key_def image_iff)
      then show ?thesis unfolding pa_rows_def rows
        by (auto simp: find_append at_key_def mapAclRecord_def same_grant_def split: option.split)
    qed
  qed
  then show "(q, b) \<noteq> (?p, ?a) \<Longrightarrow> pa_rows db' q b = pa_rows db q b"
    and "x = Inr () \<Longrightarrow> \<exists>r'. pa_rows db' ?p ?a = Some r' \<and> same_grant r' r \<and> ar_suspended r' = ar_suspended r"
    by blast+
qed

text \<open>Here every public key is kept apart: the key of the table has two columns.\<close>

interpretation pa: acl_store pa_ops pa_rows "\<lambda>_. True"
proof unfold_locales
  fix s s' :: "acl_row pg" and p a x row
  have get: "ao_get pa_ops p a s = (x, s') \<Longrightarrow> pt_rows s' = pt_rows s
      \<and> (\<forall>row. x = Inr row \<longrightarrow> row = pa_rows s p a)" for x
    by (auto simp: pa_ops_def pa_get_def io_bind_def pa_rows_def first_row_find [symmetric]
        elim!: select_cases split: prod.splits sum.splits)
  show "ao_get pa_ops p a s = (x, s') \<Longrightarrow> pa_rows s' = pa_rows s"
    using get by (simp add: pa_rows_def fun_eq_iff)
  show "ao_get pa_ops p a s = (Inr row, s') \<Longrightarrow> row = pa_rows s p a" using get by blast
next
  fix s s' :: "acl_row pg" and r u p a xu
  show "ao_upsert pa_ops r s = (Inr u, s') \<Longrightarrow> \<exists>r'. pa_rows s' (ar_principal_pubkey r) (ar_app_id r) = Some r'
      \<and> same_grant r' r \<and> ar_suspended r' = ar_suspended r"
    using pa_upsert_run(2) by (simp add: pa_ops_def)
  show "ao_upsert pa_ops r s = (xu, s') \<Longrightarrow> (p, a) \<noteq> (ar_principal_pubkey r, ar_app_id r)
      \<Longrightarrow> pa_rows s' p a = pa_rows s p a"
    using pa_upsert_run(1) by (simp add: pa_ops_def)
next
  fix s s' :: "acl_row pg" and p q a b why xu u
  let ?f = "\<lambda>now r. r\<lparr>lr_suspended := True, lr_suspended_at := Some now, lr_suspended_reason := why,
                 lr_updated_at := Some now\<rparr>"
  let ?g = "\<lambda>now r. r\<lparr>lr_suspended := False, lr_suspended_at := None, lr_suspended_reason := None,
                 lr_updated_at := Some now\<rparr>"
  show "ao_suspend pa_ops p a why s = (xu, s') \<Longrightarrow> (q, b) \<noteq> (p, a) \<Longrightarrow> pa_rows s' q b = pa_rows s q b"
    using pa_update_run(1) [where f = ?f] by (simp add: pa_ops_def pa_suspend_def)
  show "ao_unsuspend pa_ops p a s = (xu, s') \<Longrightarrow> (q, b) \<noteq> (p, a) \<Longrightarrow> pa_rows s' q b = pa_rows s q b"
    using pa_update_run(1) [where f = ?g] by (simp add: pa_ops_def pa_unsuspend_def)
  show "ao_suspend pa_ops p a why s = (Inr u, s') \<Longrightarrow> case pa_rows s p a of None \<Rightarrow> pa_rows s' p a = None
      | Some r \<Rightarrow> \<exists>r'. pa_rows s' p a = Some r' \<and> ar_suspended r' \<and> same_grant r' r"
    using pa_update_run(2) [where f = ?f and db = s and db' = s' and x = "Inr ()" and p = p and a = a]
    by (auto simp: pa_ops_def pa_suspend_def pa_rows_def mapAclRecord_def same_grant_def split: option.split)
  show "ao_unsuspend pa_ops p a s = (Inr u, s') \<Longrightarrow> case pa_rows s p a of None \<Rightarrow> pa_rows s' p a = None
      | Some r \<Rightarrow> \<exists>r'. pa_rows s' p a = Some r' \<and> \<not> ar_suspended r' \<and> same_grant r' r"
    using pa_update_run(2) [where f = ?g and db = s and db' = s' and x = "Inr ()" and p = p and a = a]
    by (auto simp: pa_ops_def pa_unsuspend_def pa_rows_def mapAclRecord_def same_grant_def split: option.split)
qed

section \<open>The two stores together\<close>

interpretation postgres: nap_stores pc_ops pc_look pc_inv ps_ops ps_sess ps_inv
  by unfold_locales

end
