(* ===== verification/PostgresProperties.thy ===== *)
theory PostgresProperties
  imports PostgresFacts Scenario
begin

text \<open>
  The properties of the PostgreSQL stores: redemptions compared with the in-memory store,
  and logins over the tables.
  The witnesses run the scenario's deployment over tables that hold its challenge.
\<close>

text \<open>No statement is lost, and the tables hold the scenario's challenge.\<close>

definition scen_table :: "'r list \<Rightarrow> 'r pg" where
  "scen_table rows = \<lparr>pt_rows = rows, pt_now = ''t'', pt_fails = (\<lambda>_. False), pt_statements = 0\<rparr>"

definition scen_pg_opts :: "(challenge_row pg, session_row pg, mem_acl, mem_limiter) server_options" where
  "scen_pg_opts =
     \<lparr>op_platform = scen_platform, op_challengeStore = pc_ops, op_sessionStore = ps_ops,
      op_aclResolver = registry_resolve scen_registry ma_ops True, op_log = scen_log,
      op_rateLimiter = Limiter_null, op_challengeTtlSeconds = None, op_sessionTtlSeconds = None,
      op_resultCacheTtlSeconds = None, op_maxClockSkewSeconds = None, op_lowerBoundGraceSeconds = None,
      op_upperBoundGraceSeconds = None, op_stepUpTtlSeconds = None, op_refreshTtlSeconds = Some 3600,
      op_maxSessionLifetimeSeconds = Some 7200, op_supportedExtensions = None,
      op_maxOutstandingChallengesPerNpub = None, op_maxOutstandingChallengesPerIp = None,
      op_maxFailuresPerChallenge = None, op_minAuthResponseMillis = None,
      op_responseJitterMillis = None\<rparr>"

definition scen_pg :: "(challenge_row pg, session_row pg, mem_acl, mem_limiter) world" where
  "scen_pg =
     \<lparr>w_challenges = scen_table [challenge_row_of scen_challenge], w_sessions = scen_table [],
      w_acl = \<lparr>ma_records = [], ma_nowIso = ''t''\<rparr>, w_limiter = rl_new 100, w_default_limiter = rl_new 100,
      w_log = \<lparr>al_events = [], al_counters = []\<rparr>, w_random = of_nat, w_drawn = 0,
      w_now = 110, w_millis = 1000, w_latency = 40\<rparr>"

lemma scen_fresh_challenge: "fresh_challenge scen_challenge"
  by (simp add: fresh_challenge_def scen_challenge_def new_challenge_def redemption_def)

lemma scen_pg_look:
  "pc_look (w_challenges scen_pg) k = (if k = ''c'' then Some (scen_challenge\<lparr>ch_failure_count := Some 0\<rparr>) else None)"
  using map_new_row [OF scen_fresh_challenge]
  by (simp add: pc_look_def scen_pg_def scen_table_def) (simp add: scen_challenge_def new_challenge_def)

lemma scen_pg_ready: "postgres.ready scen_pg"
proof -
  have "pc_inv (w_challenges scen_pg)" "ps_inv (w_sessions scen_pg)" "ps_sess (w_sessions scen_pg) = {}"
    by (simp_all add: scen_pg_def scen_table_def pc_inv_def ps_inv_def ps_sess_def challenges_unique_def
        sessions_unique_def List.map_filter_def)
  moreover have "ch_redeemed_session_id scen_challenge = None"
    by (simp add: scen_challenge_def new_challenge_def)
  ultimately show ?thesis
    by (auto simp: postgres.ready_def postgres.coherent_def postgres.virgin_def postgres.fresh_ids_def scen_pg_look)
qed

lemma scen_pg_get:
  "\<exists>s1. co_get pc_ops ''c'' (w_challenges scen_pg) = (Inr (Some (scen_challenge\<lparr>ch_failure_count := Some 0\<rparr>)), s1)
     \<and> pt_rows s1 = [challenge_row_of scen_challenge] \<and> \<not> (\<exists>n. pt_fails s1 n)"
  using map_new_row [OF scen_fresh_challenge]
  by (simp add: pc_ops_def pc_get_def pool_query_def sql_select_def scen_pg_def scen_table_def Let_def
      challenges_unique_def first_row_def) (simp add: scen_challenge_def new_challenge_def)

lemma scen_pg_create: "\<exists>s'. ps_createForChallenge r (scen_table []) = (Inr r, s')"
  by (cases "s_refresh_token r") (simp_all add: ps_createForChallenge_def io_bind_def pool_query_def Let_def
      scen_table_def insert_session_def sessions_unique_def session_row_of_def List.map_filter_def)

lemma scen_pg_login: "\<exists>s w'. verifyCompletion scen_input scen_pg_opts scen_pg = (Inr (Verify_ok s), w')"
proof -
  let ?c = "scen_challenge\<lparr>ch_failure_count := Some 0\<rparr>"
  obtain d as' where d: "registry_resolve scen_registry ma_ops True ''npub1p'' ''p''
      \<lparr>cx_voucher = rq_voucher scen_body, cx_now = w_now scen_pg, cx_session = None\<rparr> (w_acl scen_pg)
        = (Inr d, as')" "d_allowed d"
    using scen_resolver unfolding scen_pg_def by force
  obtain s1 where s1: "co_get pc_ops (rq_challenge_id scen_body) (w_challenges scen_pg) = (Inr (Some ?c), s1)"
      "pt_rows s1 = [challenge_row_of scen_challenge]" "\<not> (\<exists>n. pt_fails s1 n)"
    using scen_pg_get by (auto simp: scen_body_def)
  have i: "pc_inv (w_challenges scen_pg)" using scen_pg_ready by (simp add: postgres.ready_def)
  show ?thesis
  proof (rule postgres.complete_answered [OF _ _ _ through_null i scen_parse _ s1(1) _ _ _ _ _ d(2)])
    show "audit_works scen_pg_opts"
      using scen_audit by (simp add: audit_works_def scen_opts_def scen_pg_opts_def)
    show "verifyNip98Completion (op_platform scen_pg_opts)
        (completion_input scen_input scen_pg_opts scen_body (w_now scen_pg)) = Inr scen_proof"
      using scen_verify by (simp add: scen_pg_opts_def scen_opts_def completion_input_def scen_pg_def scen_world_def)
    show "postgres.admitted scen_pg_opts scen_proof (w_now scen_pg) ?c"
      by (simp add: postgres.admitted_def scen_pg_opts_def scen_proof_def scen_event_def scen_pg_def
          scen_challenge_def new_challenge_def)
    show "postgres.redeems scen_pg_opts (rq_challenge_id scen_body) (w_now scen_pg) s1"
      unfolding postgres.redeems_def using s1(2,3)
      by (simp add: pc_ops_def pc_redeem_def pool_query_def sql_update_def Let_def
          scen_body_def scen_pg_def redeem_params_def redeem_row_def challenges_unique_def challenge_row_of_def
          scen_challenge_def new_challenge_def)
    show "postgres.creates (w_sessions scen_pg)"
      unfolding postgres.creates_def using scen_pg_create by (simp add: scen_pg_def ps_ops_def) blast
    show "op_aclResolver scen_pg_opts (ch_npub ?c) (ch_pubkey ?c)
      \<lparr>cx_voucher = rq_voucher scen_body, cx_now = w_now scen_pg, cx_session = None\<rparr> (w_acl scen_pg) = (Inr d, as')"
      using d(1) by (simp add: scen_pg_opts_def scen_challenge_def new_challenge_def)
  qed (simp_all add: scen_pg_opts_def scen_challenge_def new_challenge_def)
qed

definition scen_claim :: "string \<Rightarrow> int \<Rightarrow> RedeemParams" where
  "scen_claim sid now = \<lparr>rp_eventId = ''e'', rp_sessionId = sid, rp_now = now, rp_resultCacheUntil = now + 30\<rparr>"

section \<open>Redeeming\<close>

text \<open>What the two stores make of a challenge, at times not before \<open>t\<close>.\<close>

definition same_outlook :: "int \<Rightarrow> ChallengeRecord option \<Rightarrow> ChallengeRecord option \<Rightarrow> bool" where
  "same_outlook t x y \<longleftrightarrow>
     (case (x, y) of
        (None, None) \<Rightarrow> True
      | (Some c, Some d) \<Rightarrow> ch_expires_at c = ch_expires_at d
          \<and> (ch_state c = ch_state d \<or> ch_expires_at c < t \<and> ch_state d = expired)
      | _ \<Rightarrow> False)"

definition same_challenges :: "int \<Rightarrow> challenge_row pg \<Rightarrow> mem_challenges \<Rightarrow> bool" where
  "same_challenges t db m \<longleftrightarrow>
     pc_inv db \<and> (\<forall>n. \<not> pt_fails db n) \<and> (\<forall>k. same_outlook t (pc_look db k) (mc_look m k))"

lemma same_outlook_simps [simp]:
  "same_outlook t None y \<longleftrightarrow> y = None" "same_outlook t x None \<longleftrightarrow> x = None"
  "same_outlook t (Some c) (Some d) \<longleftrightarrow> ch_expires_at c = ch_expires_at d
          \<and> (ch_state c = ch_state d \<or> ch_expires_at c < t \<and> ch_state d = expired)"
  by (auto simp: same_outlook_def split: option.splits)

lemma same_outlook_later: "same_outlook t x y \<Longrightarrow> t \<le> u \<Longrightarrow> same_outlook u x y"
  by (cases x; cases y) auto

fun redeem_all :: "'cs challenge_ops \<Rightarrow> (string \<times> RedeemParams) list \<Rightarrow> 'cs \<Rightarrow> (exn + RedeemStatus) list" where
  "redeem_all ops [] s = []"
| "redeem_all ops ((k, p) # rest) s = (case co_redeem ops k p s of (x, s') \<Rightarrow> x # redeem_all ops rest s')"

lemma pool_query_fails: "pool_query uniq f db = (x, db') \<Longrightarrow> pt_fails db' = pt_fails db"
  by (auto simp: pool_query_def Let_def split: if_splits prod.splits)

text \<open>No statement of a redemption breaks a constraint, so without lost statements it answers.\<close>

lemma update_keeps_unique:
  "challenges_unique rows \<Longrightarrow> (\<And>r. cr_challenge_id (f r) = cr_challenge_id r) \<Longrightarrow>
     challenges_unique (map (\<lambda>r. if P r then f r else r) rows)"
  unfolding challenges_unique_def
proof -
  assume d: "distinct (map cr_challenge_id rows)" and f: "\<And>r. cr_challenge_id (f r) = cr_challenge_id r"
  have "map cr_challenge_id (map (\<lambda>r. if P r then f r else r) rows) = map cr_challenge_id rows"
    using f by (induction rows) auto
  then show "distinct (map cr_challenge_id (map (\<lambda>r. if P r then f r else r) rows))" using d by (simp only:)
qed

lemma pc_redeem_answers:
  assumes i: "pc_inv db" and f: "\<forall>n. \<not> pt_fails db n"
  shows "\<exists>st db'. pc_redeem k p db = (Inr st, db') \<and> (\<forall>n. \<not> pt_fails db' n)"
proof -
  let ?P = "\<lambda>r. cr_challenge_id r = k \<and> cr_state r = issued \<and> cr_expires_at r > rp_now p"
  let ?q = "pool_query challenges_unique (sql_update ?P (redeem_row p)) db"
  have u: "challenges_unique (map (\<lambda>r. if ?P r then redeem_row p r else r) (pt_rows db))"
    using i by (intro update_keeps_unique) (simp_all add: pc_inv_def redeem_row_def)
  then obtain rows db1 where q: "?q = (Inr rows, db1)" "challenges_unique (pt_rows db1)"
    using f by (auto simp: pool_query_def sql_update_def Let_def)
  have f1: "pt_fails db1 = pt_fails db" by (rule pool_query_fails [OF q(1)])
  obtain y db2 where g: "pc_get k db1 = (Inr y, db2)" "pt_fails db2 = pt_fails db"
    using q(2) f f1 by (auto simp: pc_get_def pool_query_def sql_select_def Let_def io_bind_def)
  show ?thesis using q(1) g f f1 by (auto simp: pc_redeem_def split: option.split)
qed

lemma redeem_agrees:
  assumes s: "same_challenges t db m" and t: "t \<le> rp_now p"
    and strict: "\<And>c. pc_look db k = Some c \<Longrightarrow> ch_expires_at c \<noteq> rp_now p"
    and d: "pc_redeem k p db = (x, db')" and e: "mc_redeem k p m = (y, m')"
  shows "x = y \<and> same_challenges (rp_now p) db' m'"
proof -
  have i: "pc_inv db" and f: "\<forall>n. \<not> pt_fails db n" and o: "\<And>j. same_outlook t (pc_look db j) (mc_look m j)"
    using s by (simp_all add: same_challenges_def)
  obtain st where x: "x = Inr st" and f': "\<forall>n. \<not> pt_fails db' n"
    using pc_redeem_answers [OF i f, of k p] d by auto
  have later: "same_outlook (rp_now p) (pc_look db j) (mc_look m j)" for j
    using same_outlook_later [OF o t] .
  from d have "pc_inv db' \<and> x = y \<and> (\<forall>j. same_outlook (rp_now p) (pc_look db' j) (mc_look m' j))"
  proof (rule pc_redeem_cases [OF i])
    fix r assume r: "List.find (\<lambda>r. cr_challenge_id r = k) (pt_rows db) = Some r" "cr_state r = issued"
        "cr_expires_at r > rp_now p" and x: "x = Inr Redeemed" and i': "pc_inv db'"
      and k: "pc_look db' k = Some (redeemed_record (mapChallengeRecord r) p)"
      and other: "\<forall>j. j \<noteq> k \<longrightarrow> pc_look db' j = pc_look db j"
    have c: "pc_look db k = Some (mapChallengeRecord r)" using r by (simp add: pc_look_def)
    then obtain b where b: "mc_look m k = Some b" "ch_expires_at b = cr_expires_at r" "ch_state b = issued"
      using o [of k] r t by (cases "mc_look m k") auto
    have y: "y = Inr Redeemed" "m' = mc_put k (redeemed_record b p) m"
      using e b r(3) by (auto elim!: mc_redeem_cases)
    have "same_outlook (rp_now p) (pc_look db' j) (mc_look m' j)" for j
      using later [of j] other b k r by (cases "j = k") (simp_all add: y mc_look_put redeemed_record_def)
    then show ?thesis using x y i' by simp
  next
    assume none: "x \<noteq> Inr Redeemed" "pc_look db' = pc_look db" "pc_inv db'"
      and nf: "x = Inr Not_found \<Longrightarrow> pc_look db k = None"
      and ex: "x = Inr Redeem_expired \<Longrightarrow> \<exists>c. pc_look db k = Some c \<and> (ch_expires_at c < rp_now p \<or> ch_state c = expired)"
      and al: "x = Inr Already_redeemed \<Longrightarrow> \<exists>c. pc_look db k = Some c \<and> \<not> ch_expires_at c < rp_now p \<and> ch_state c \<noteq> expired
         \<and> (ch_state c = issued \<longrightarrow> ch_expires_at c = rp_now p)"
    show ?thesis
      using e
    proof (rule mc_redeem_cases)
      assume "mc_look m k = None" "y = Inr Not_found" "m' = m"
      then show ?thesis using none o [of k] x ex al later by (cases st) auto
    next
      fix b assume b: "mc_look m k = Some b" "ch_expires_at b < rp_now p \<or> ch_state b = expired"
        "y = Inr Redeem_expired" "m' = mc_put k (b\<lparr>ch_state := expired\<rparr>) m"
      then obtain c where c: "pc_look db k = Some c" "ch_expires_at c = ch_expires_at b"
        "ch_state c = ch_state b \<or> ch_expires_at c < t \<and> ch_state b = expired"
        using o [of k] by (cases "pc_look db k") auto
      have "x = y" using none(1) x nf al b(2,3) c t by (cases st) auto
      moreover have "same_outlook (rp_now p) (pc_look db' j) (mc_look m' j)" for j
        using later [of j] none(2) b(2,4) c t by (cases "j = k") (auto simp: mc_look_put)
      ultimately show ?thesis using none(3) by simp
    next
      fix b assume b: "mc_look m k = Some b" "\<not> ch_expires_at b < rp_now p" "ch_state b = issued"
      then obtain c where c: "pc_look db k = Some c" "ch_expires_at c = ch_expires_at b" "ch_state c = issued"
        using o [of k] by (cases "pc_look db k") auto
      then show ?thesis using none(1) x nf ex al strict b by (cases st) auto
    next
      fix b assume b: "mc_look m k = Some b" "\<not> ch_expires_at b < rp_now p" "ch_state b \<noteq> expired"
        "ch_state b \<noteq> issued" "y = Inr Already_redeemed" "m' = m"
      then obtain c where c: "pc_look db k = Some c" "ch_expires_at c = ch_expires_at b" "ch_state c = ch_state b"
        using o [of k] by (cases "pc_look db k") auto
      then show ?thesis using none x nf ex b later by (cases st) auto
    qed
  qed
  then show ?thesis using f' by (simp add: same_challenges_def)
qed

lemma pc_redeem_expiry:
  assumes "pc_inv db" and "pc_redeem k p db = (x, db')" and "pc_look db' j = Some c"
  shows "\<exists>d. pc_look db j = Some d \<and> ch_expires_at d = ch_expires_at c"
  by (rule pc_redeem_cases [OF assms(1,2)])
    (use assms(3) in \<open>cases "j = k"; force simp: pc_look_Some redeemed_record_def\<close>)+

text \<open>
  C21. Over a table without lost statements that looks like the in-memory store, every sequence
  of redemptions at non-decreasing times, none of them at the very second a challenge
  expires, is answered by the Postgres store exactly as by the in-memory store.
\<close>

theorem postgres_redeems_like_memory:
  assumes "same_challenges t db m" and "sorted (t # map (\<lambda>c. rp_now (snd c)) calls)"
    and "\<And>k p c. (k, p) \<in> set calls \<Longrightarrow> pc_look db k = Some c \<Longrightarrow> ch_expires_at c \<noteq> rp_now p"
  shows "redeem_all pc_ops calls db = redeem_all mc_ops calls m"
  using assms
proof (induction calls arbitrary: t db m)
  case (Cons call rest)
  obtain k p where call: "call = (k, p)" by fastforce
  obtain x db' where d: "pc_redeem k p db = (x, db')" by fastforce
  obtain y m' where e: "mc_redeem k p m = (y, m')" by fastforce
  have s: "x = y" "same_challenges (rp_now p) db' m'"
    using redeem_agrees [OF Cons.prems(1) _ Cons.prems(3) [of k p] d e] Cons.prems(2) call by simp_all
  have i: "pc_inv db" using Cons.prems(1) by (simp add: same_challenges_def)
  have "redeem_all pc_ops rest db' = redeem_all mc_ops rest m'"
  proof (rule Cons.IH [OF s(2)])
    show "sorted (rp_now p # map (\<lambda>c. rp_now (snd c)) rest)" using Cons.prems(2) call by simp
    show "ch_expires_at c \<noteq> rp_now q" if "(j, q) \<in> set rest" "pc_look db' j = Some c" for j q c
      using Cons.prems(3) [of j q] that pc_redeem_expiry [OF i d that(2)] by auto
  qed
  then show ?case using d e s(1) by (simp add: call pc_ops_def mc_ops_def)
qed simp

theorem postgres_redeems_like_memory_witness:
  "redeem_all pc_ops [(''c'', scen_claim ''s1'' 120), (''c'', scen_claim ''s2'' 121), (''d'', scen_claim ''s3'' 121)] (w_challenges scen_pg)
     = [Inr Redeemed, Inr Already_redeemed, Inr Not_found]"
proof -
  let ?calls = "[(''c'', scen_claim ''s1'' 120), (''c'', scen_claim ''s2'' 121), (''d'', scen_claim ''s3'' 121)]"
  have "same_challenges 0 (w_challenges scen_pg) (w_challenges scen_world)"
  proof -
    have "mc_look (w_challenges scen_world) k = (if k = ''c'' then Some scen_challenge else None)" for k
      by (simp add: scen_world_def mc_look_put) (simp add: mc_look_def mc_new_def)
    moreover have "\<forall>n. \<not> pt_fails (w_challenges scen_pg) n" by (simp add: scen_pg_def scen_table_def)
    ultimately show ?thesis using scen_pg_ready
      by (simp add: same_challenges_def postgres.ready_def scen_pg_look)
  qed
  then have "redeem_all pc_ops ?calls (w_challenges scen_pg) = redeem_all mc_ops ?calls (w_challenges scen_world)"
    by (rule postgres_redeems_like_memory)
      (auto simp: scen_claim_def scen_pg_look scen_challenge_def new_challenge_def split: if_splits)
  also have "\<dots> = [Inr Redeemed, Inr Already_redeemed, Inr Not_found]" by code_simp
  finally show ?thesis .
qed

section \<open>Logins\<close>

theorem postgres_login_sound:
  assumes "op_challengeStore opts = pc_ops" and "op_sessionStore opts = ps_ops" and "postgres.ready w"
    and "verifyCompletion input opts w = (Inr (Verify_ok s), w')"
  shows "\<exists>body vp c d e as'.
     parseAuthCompleteRequest (vn_rawBody input) = Some body
     \<and> verifyNip98Completion (op_platform opts) (completion_input input opts body (w_now w)) = Inr vp
     \<and> pc_look (w_challenges w) (rq_challenge_id body) = Some c
     \<and> \<not> ch_expires_at c < w_now w
     \<and> ch_pubkey c = ev_pubkey (vc_event vp) \<and> ch_challenge c = vc_challenge vp
     \<and> op_aclResolver opts (ch_npub c) (ch_pubkey c)
         \<lparr>cx_voucher = rq_voucher body, cx_now = w_now w, cx_session = None\<rparr> (w_acl w) = (Inr d, as')
     \<and> d_allowed d
     \<and> s \<in> ps_sess (w_sessions w') \<and> s_challenge_id s = rq_challenge_id body
     \<and> s_principal_pubkey s = ev_pubkey (vc_event vp)
     \<and> pc_look (w_challenges w') (rq_challenge_id body) = Some e \<and> ch_state e \<noteq> issued
     \<and> ch_redeemed_session_id e = Some (s_session_id s)
     \<and> ch_redeemed_event_id e = Some (ev_id (vc_event vp))"
proof -
  have "postgres.granted input opts w s w'" by (rule postgres.complete_sound [OF assms])
  then show ?thesis
    unfolding postgres.granted_def postgres.admitted_def postgres.settled_def postgres.allowed_by_def by metis
qed

theorem postgres_login_sound_witness:
  "\<exists>s w'. verifyCompletion scen_input scen_pg_opts scen_pg = (Inr (Verify_ok s), w')
     \<and> s \<in> ps_sess (w_sessions w')"
proof -
  obtain s w' where l: "verifyCompletion scen_input scen_pg_opts scen_pg = (Inr (Verify_ok s), w')"
    using scen_pg_login by blast
  show ?thesis
    using postgres_login_sound [OF _ _ scen_pg_ready l] l by (auto simp: scen_pg_opts_def)
qed

end
