(* ===== verification/GuardProperties.thy ===== *)
theory GuardProperties
  imports Scenario
begin

text \<open>
  The properties of the guards and of the logout route of the Express adapter on the
  in-memory stores. The witnesses are requests of the scenario.
\<close>

text \<open>
  C19. A request that passes requirePermission presented the access token of a stored session
  that is neither revoked nor expired by the guard's clock, whose permissions (as the
  resolver gives them now, when one is configured) contain the permission, and, for a step-
  up permission, a valid step-up token.
\<close>

theorem permission_guard_sound:
  assumes "go_sessionStore gopts = ms_ops" and "ms_inv (w_sessions w)"
    and "requirePermission p gopts req w = (Inr Pass, w')"
  shows "\<exists>s\<in>ms_sess (w_sessions w). \<exists>roles permissions.
     session_token req (go_cookieName gopts) = Some (s_access_token s) \<and> s_access_token s \<noteq> []
     \<and> s_revoked_at s = None \<and> guardNow gopts w < s_expires_at s
     \<and> effective_acl gopts w s (roles, permissions) \<and> p \<in> set permissions
     \<and> (requiresStepUp p (go_registry gopts) \<longrightarrow> hasValidStepUpToken req s (guardNow gopts w))"
  using ms.permission_ok [OF assms] unfolding live_session_def by (metis prod.collapse)

theorem permission_guard_sound_witness:
  "\<exists>w'. requirePermission ''pay'' scen_guard scen_request scen_signed = (Inr Pass, w')
     \<and> hasValidStepUpToken scen_request scen_session 110"
proof -
  obtain w' where r: "requirePermission ''pay'' scen_guard scen_request scen_signed = (Inr Pass, w')"
    using scen_guard_pass by (metis prod.collapse)
  have "ms_sess (w_sessions scen_signed) = {scen_session}" by (simp add: scen_signed_def ms_sess_new)
  moreover have "requiresStepUp ''pay'' (go_registry scen_guard)" by code_simp
  moreover have "guardNow scen_guard scen_signed = 110"
    by (simp add: guardNow_def clock_now_def scen_guard_def scen_signed_def scen_world_def)
  ultimately have "hasValidStepUpToken scen_request scen_session 110"
    using permission_guard_sound [OF _ scen_inv r] by (auto simp: scen_guard_def)
  then show ?thesis using r by blast
qed

theorem role_guard_sound:
  assumes "go_sessionStore gopts = ms_ops" and "ms_inv (w_sessions w)"
    and "requireRole accepted gopts req w = (Inr Pass, w')"
  shows "\<exists>s\<in>ms_sess (w_sessions w). \<exists>roles permissions.
     session_token req (go_cookieName gopts) = Some (s_access_token s) \<and> s_access_token s \<noteq> []
     \<and> s_revoked_at s = None \<and> guardNow gopts w < s_expires_at s
     \<and> effective_acl gopts w s (roles, permissions) \<and> set accepted \<inter> set roles \<noteq> {}"
  using ms.role_ok [OF assms] unfolding live_session_def by (metis prod.collapse)

theorem role_guard_sound_witness:
  "\<exists>w'. requireRole [''admin'', ''member''] scen_guard scen_request scen_signed = (Inr Pass, w')
     \<and> scen_session \<in> ms_sess (w_sessions scen_signed) \<and> s_revoked_at scen_session = None"
proof -
  have "fst (requireRole [''admin'', ''member''] scen_guard scen_request scen_signed) = Inr Pass" by code_simp
  then obtain w' where r: "requireRole [''admin'', ''member''] scen_guard scen_request scen_signed = (Inr Pass, w')"
    by (metis prod.collapse)
  have "ms_sess (w_sessions scen_signed) = {scen_session}" by (simp add: scen_signed_def ms_sess_new)
  then show ?thesis
    using role_guard_sound [OF _ scen_inv r] r by (auto simp: scen_guard_def)
qed

theorem step_up_guard_sound:
  assumes "go_sessionStore gopts = ms_ops" and "ms_inv (w_sessions w)"
    and "requireStepUp gopts req w = (Inr Pass, w')"
  shows "\<exists>s\<in>ms_sess (w_sessions w). \<exists>token sent e.
     session_token req (go_cookieName gopts) = Some (s_access_token s)
     \<and> s_revoked_at s = None \<and> guardNow gopts w < s_expires_at s
     \<and> s_step_up_token s = Some token \<and> token \<noteq> [] \<and> header req ''x-step-up-token'' = Some sent
     \<and> constantTimeEquals token sent
     \<and> s_step_up_expires_at s = Some e \<and> guardNow gopts w < e"
proof -
  obtain s where s: "s \<in> ms_sess (w_sessions w)" "live_session req (go_cookieName gopts) (guardNow gopts w) s"
    "hasValidStepUpToken req s (guardNow gopts w)"
    using ms.stepup_ok [OF assms] by blast
  obtain token where t: "s_step_up_token s = Some token" "token \<noteq> []"
    using s(3) truthy_strE unfolding hasValidStepUpToken_def by blast
  obtain sent where h: "header req ''x-step-up-token'' = Some sent"
    using s(3) truthy_strE unfolding hasValidStepUpToken_def by blast
  obtain e where e: "s_step_up_expires_at s = Some e"
    using s(3) unfolding hasValidStepUpToken_def truthy_num_def by (cases "s_step_up_expires_at s") simp_all
  show ?thesis
    using s t h e unfolding hasValidStepUpToken_def live_session_def by auto
qed

theorem step_up_guard_sound_witness:
  "\<exists>w'. requireStepUp scen_guard scen_request scen_signed = (Inr Pass, w')
     \<and> constantTimeEquals ''su'' (the (header scen_request ''x-step-up-token''))"
proof -
  have "fst (requireStepUp scen_guard scen_request scen_signed) = Inr Pass" by code_simp
  then obtain w' where r: "requireStepUp scen_guard scen_request scen_signed = (Inr Pass, w')"
    by (metis prod.collapse)
  have m: "ms_sess (w_sessions scen_signed) = {scen_session}" by (simp add: scen_signed_def ms_sess_new)
  have g: "go_sessionStore scen_guard = ms_ops" by (simp add: scen_guard_def)
  obtain s token sent where s: "s \<in> ms_sess (w_sessions scen_signed)" "s_step_up_token s = Some token"
    "header scen_request ''x-step-up-token'' = Some sent" "constantTimeEquals token sent"
    using step_up_guard_sound [OF g scen_inv r] by blast
  have "s = scen_session" using s(1) m by simp
  then have "token = ''su''" using s(2) by (simp add: scen_session_def)
  then show ?thesis using r s(3,4) by simp
qed

text \<open>
  C24. After a logout answered for a request whose session loaded, no request ever loads that
  session again, whatever the session store goes through.
\<close>

theorem logout_ends_session:
  assumes "op_sessionStore (eo_server eopts) = ms_ops" and "ms_inv (w_sessions w)" and "w_now w \<noteq> 0"
    and "loadSession req (routeGuardOptions eopts) w = (Inr (Some s), w0)"
    and "createNapExpressLogoutHandler eopts req w = (Inr (Reply a), w1)"
    and "session_run ms_ops (\<lambda>s. s_session_id ` ms_sess s) (s_session_id s) [] (w_sessions w1) (w_sessions w2)"
    and "go_sessionStore gopts = ms_ops" and "loadSession req' gopts w2 = (Inr (Some s'), w3)"
  shows "s_session_id s' \<noteq> s_session_id s"
proof -
  have e: "ms.ended (s_session_id s) (w_sessions w1)"
    using ms.logout_ends [OF assms(1-5)] by blast
  have i1: "ms_inv (w_sessions w1)"
    using ms.logout_ends [OF assms(1-5)] by blast
  note i2 = ms.session_run_inv [OF assms(6) i1]
  have "live_session req' (go_cookieName gopts) (guardNow gopts w2) s' \<and> s' \<in> ms_sess (w_sessions w2)"
    using ms.load_ok [OF assms(7) i2 assms(8)] by blast
  then show ?thesis
    using ms.session_run_succeeds [OF assms(6) i1, of s'] e
    unfolding ms.ended_def live_session_def succeeds_def by metis
qed

theorem logout_ends_session_witness:
  "\<exists>w0 w1 a. loadSession scen_request (routeGuardOptions scen_express) scen_signed = (Inr (Some scen_session), w0)
     \<and> createNapExpressLogoutHandler scen_express scen_request scen_signed = (Inr (Reply a), w1)
     \<and> (\<forall>s' w3. loadSession scen_request scen_guard w1 = (Inr (Some s'), w3) \<longrightarrow> s_session_id s' \<noteq> ''sid'')"
proof -
  have "fst (loadSession scen_request (routeGuardOptions scen_express) scen_signed) = Inr (Some scen_session)" by code_simp
  then obtain w0 where 1: "loadSession scen_request (routeGuardOptions scen_express) scen_signed = (Inr (Some scen_session), w0)"
    by (metis prod.collapse)
  have "fst (createNapExpressLogoutHandler scen_express scen_request scen_signed) = Inr (Reply (logout_response scen_express))"
    by code_simp
  then obtain w1 where 2: "createNapExpressLogoutHandler scen_express scen_request scen_signed
      = (Inr (Reply (logout_response scen_express)), w1)"
    by (metis prod.collapse)
  have "s_session_id s' \<noteq> ''sid''" if "loadSession scen_request scen_guard w1 = (Inr (Some s'), w3)" for s' w3
    using logout_ends_session [OF _ scen_inv _ 1 2 rtranclp.rtrancl_refl _ that]
    by (simp add: scen_express_def scen_opts_def scen_signed_def scen_world_def scen_guard_def scen_session_def)
  then show ?thesis using 1 2 by blast
qed

theorem denied_principal_loses_sessions:
  assumes "go_sessionStore gopts = ms_ops" and "ms_inv (w_sessions w)" and "guardNow gopts w \<noteq> 0"
    and "loadSession req gopts w = (Inr (Some s), w0)" and "go_aclResolver gopts = Some resolve"
    and "resolve (s_principal_npub s) (s_principal_pubkey s)
         \<lparr>cx_voucher = None, cx_now = guardNow gopts w, cx_session = Some (s_roles s, s_permissions s)\<rparr> (w_acl w) = (Inr d, as')"
    and "\<not> d_allowed d" and "d_revoke_sessions d = Some True"
    and "loadGuardContext req gopts w = (Inr c, w1)"
  shows "c = Context_denied ACL_DENIED (Some s)
    \<and> (\<forall>y\<in>ms_sess (w_sessions w1). s_principal_pubkey y = s_principal_pubkey s \<longrightarrow> s_revoked_at y \<noteq> None)"
  by (rule ms.denied_ends [OF assms])

theorem denied_principal_loses_sessions_witness:
  "\<exists>w1. loadGuardContext scen_request scen_guard scen_suspended = (Inr (Context_denied ACL_DENIED (Some scen_session)), w1)
     \<and> (\<forall>y\<in>ms_sess (w_sessions w1). s_principal_pubkey y = ''p'' \<longrightarrow> s_revoked_at y \<noteq> None)"
proof -
  have "fst (loadSession scen_request scen_guard scen_suspended) = Inr (Some scen_session)" by code_simp
  then obtain w0 where 1: "loadSession scen_request scen_guard scen_suspended = (Inr (Some scen_session), w0)"
    by (metis prod.collapse)
  have "fst (loadGuardContext scen_request scen_guard scen_suspended) = Inr (Context_denied ACL_DENIED (Some scen_session))"
    by code_simp
  then obtain w1 where 2: "loadGuardContext scen_request scen_guard scen_suspended
      = (Inr (Context_denied ACL_DENIED (Some scen_session)), w1)"
    by (metis prod.collapse)
  have "fst (registry_resolve scen_registry ma_ops True (s_principal_npub scen_session) (s_principal_pubkey scen_session)
      \<lparr>cx_voucher = None, cx_now = guardNow scen_guard scen_suspended, cx_session = Some (s_roles scen_session, s_permissions scen_session)\<rparr>
      (w_acl scen_suspended)) = Inr (acl_denied ''suspended'' True)" by code_simp
  then obtain as' where 3: "registry_resolve scen_registry ma_ops True (s_principal_npub scen_session) (s_principal_pubkey scen_session)
      \<lparr>cx_voucher = None, cx_now = guardNow scen_guard scen_suspended, cx_session = Some (s_roles scen_session, s_permissions scen_session)\<rparr>
      (w_acl scen_suspended) = (Inr (acl_denied ''suspended'' True), as')" by (metis prod.collapse)
  have i: "ms_inv (w_sessions scen_suspended)" using scen_inv by (simp add: scen_suspended_def)
  show ?thesis
    using denied_principal_loses_sessions [where resolve = "registry_resolve scen_registry ma_ops True", OF _ i _ 1 _ 3 _ _ 2] 2
    by (simp add: guardNow_def clock_now_def scen_guard_def scen_suspended_def scen_signed_def scen_world_def acl_denied_def scen_session_def)
qed

theorem refusals_audited:
  assumes "lc_auditLogger (go_log gopts) = Some th"
    and "requirePermission p gopts req w = (Inr (Reply a), w')"
  shows "\<exists>code s. al_events (w_log w') = al_events (w_log w) @ [guard_event code s (permission_details p)]
    \<and> (code \<in> {NO_SESSION, ACL_DENIED} \<and> a = unauthorized
       \<or> code = PERMISSION_DENIED \<and> a = forbidden ''forbidden''
       \<or> code = STEP_UP_REQUIRED \<and> a = forbidden ''step-up required'')"
  by (rule permission_refused [OF assms])

theorem refusals_audited_witness:
  "\<exists>w' a. requirePermission ''admin'' scen_guard scen_request scen_signed = (Inr (Reply a), w')
     \<and> length (al_events (w_log w')) = 1"
proof -
  have "fst (requirePermission ''admin'' scen_guard scen_request scen_signed) = Inr (Reply (forbidden ''forbidden''))"
    by code_simp
  then obtain w' where r: "requirePermission ''admin'' scen_guard scen_request scen_signed
      = (Inr (Reply (forbidden ''forbidden'')), w')"
    by (metis prod.collapse)
  have l: "lc_auditLogger (go_log scen_guard) = Some (\<lambda>_ _. False)" by (simp add: scen_guard_def scen_log_def)
  have "al_events (w_log scen_signed) = []" by (simp add: scen_signed_def scen_world_def)
  then show ?thesis using refusals_audited [OF l r] r by fastforce
qed

end
