(* ===== verification/PolicyProperties.thy ===== *)
theory PolicyProperties
  imports Scenario
begin

text \<open>
  The properties of the policies around the protocol: the permission registry and its
  resolver, the store that revokes sessions with access, the rate limiter, the clamp of a
  session's lifetime and the audience allowlist.
\<close>

theorem suspension_denies:
  assumes "no_colon pk" and "ma_suspend pk (pr_appId reg) why s = (Inr (), s1)"
    and "ma_rows s pk (pr_appId reg) \<noteq> None"
    and "createRegistryAclResolver reg ma_ops auto = Inr resolve"
    and "resolve npub pk ctx s1 = (Inr d, s2)"
  shows "\<not> d_allowed d \<and> d_revoke_sessions d = Some True"
proof -
  have r: "registry_resolve reg ma_ops (or_else auto True) npub pk ctx s1 = (Inr d, s2)"
    using assms(4,5) by (auto simp: createRegistryAclResolver_def split: sum.splits)
  have "ao_suspend ma_ops pk (pr_appId reg) why s = (Inr (), s1)" using assms(2) by (simp add: ma_ops_def)
  from ma.suspended_denied [OF assms(1) this assms(3) r] show ?thesis .
qed

theorem suspension_denies_witness:
  "\<exists>d s2. registry_resolve scen_registry ma_ops True ''npub1p'' ''p'' \<lparr>cx_voucher = None, cx_now = 120, cx_session = None\<rparr>
     (snd (ma_suspend ''p'' ''app'' None (w_acl scen_suspended))) = (Inr d, s2) \<and> \<not> d_allowed d"
proof -
  let ?s = "w_acl scen_suspended" and ?t = "snd (ma_suspend ''p'' ''app'' None (w_acl scen_suspended))"
  have s: "fst (ma_suspend ''p'' ''app'' None ?s) = Inr ()" by code_simp
  then have s: "ma_suspend ''p'' (pr_appId scen_registry) None ?s = (Inr (), ?t)"
    by (simp add: scen_registry_def prod_eq_iff)
  have row: "ma_rows ?s ''p'' (pr_appId scen_registry) \<noteq> None"
    by (simp add: ma_rows_def ma_key_def scen_registry_def scen_suspended_def jm_get_def)
  have reg: "createRegistryAclResolver scen_registry ma_ops (Some True) = Inr (registry_resolve scen_registry ma_ops True)"
    by (simp add: createRegistryAclResolver_def scen_registry_ok)
  have "fst (registry_resolve scen_registry ma_ops True ''npub1p'' ''p'' \<lparr>cx_voucher = None, cx_now = 120, cx_session = None\<rparr> ?t) = Inr (acl_denied ''suspended'' True)"
    by code_simp
  then obtain d s2 where r: "registry_resolve scen_registry ma_ops True ''npub1p'' ''p'' \<lparr>cx_voucher = None, cx_now = 120, cx_session = None\<rparr> ?t = (Inr d, s2)"
    by (metis prod.collapse)
  have "no_colon ''p''" by code_simp
  then have "\<not> d_allowed d" using suspension_denies [OF _ s row reg r] by blast
  then show ?thesis using r by blast
qed

theorem role_change_revokes_sessions:
  assumes "ms_inv b" and "now \<noteq> 0"
    and "ma_rows a (ar_principal_pubkey r) (ar_app_id r) = Some old"
    and "ar_role old \<noteq> ar_role r \<or> ar_suspended r"
    and "ao_upsert (createRevokingAclStore ma_ops ms_ops now) r (a, b) = (Inr (), (a', b'))"
    and "ms_getByAccessToken t b' = (Inr (Some y), b'')"
    and "s_principal_pubkey y = ar_principal_pubkey r"
  shows "truthy_num (s_revoked_at y)"
  by (rule revoking_upsert_revokes [OF assms])

theorem role_change_revokes_sessions_witness:
  "\<exists>a' b' y b''. ao_upsert (createRevokingAclStore ma_ops ms_ops 120) (scen_member\<lparr>ar_role := ''guest''\<rparr>)
      (scen_acl, w_sessions scen_signed) = (Inr (), (a', b'))
     \<and> ms_getByAccessToken ''tok'' b' = (Inr (Some y), b'') \<and> truthy_num (s_revoked_at y)"
proof -
  let ?r = "scen_member\<lparr>ar_role := ''guest''\<rparr>"
  let ?m = "ao_upsert (createRevokingAclStore ma_ops ms_ops 120) ?r (scen_acl, w_sessions scen_signed)"
  have "fst ?m = Inr ()" by code_simp
  then obtain a' b' where m: "?m = (Inr (), (a', b'))" by (metis prod.collapse)
  have "map_option s_principal_pubkey (case fst (ms_getByAccessToken ''tok'' (snd (snd ?m))) of Inr y \<Rightarrow> y | Inl _ \<Rightarrow> None)
      = Some ''p''" by code_simp
  then obtain y b'' where y: "ms_getByAccessToken ''tok'' b' = (Inr (Some y), b'')" "s_principal_pubkey y = ''p''"
    by (cases "ms_getByAccessToken ''tok'' b'") (auto simp: m split: sum.splits)
  have row: "ma_rows scen_acl (ar_principal_pubkey ?r) (ar_app_id ?r) = Some scen_member"
    by (simp add: ma_rows_def ma_key_def scen_acl_def scen_member_def buildAutoProvisionRecord_def scen_registry_def jm_get_def)
  have "truthy_num (s_revoked_at y)"
    by (rule role_change_revokes_sessions [OF scen_inv _ row _ m y(1)])
      (simp_all add: y(2) scen_member_def buildAutoProvisionRecord_def scen_registry_def)
  then show ?thesis using m y(1) by blast
qed

text \<open>
  C33. A principal the registry resolver allows has exactly the permissions of its role plus the
  granted overrides minus the denied ones, the role's permissions being declared in the
  registry.
\<close>

theorem effective_permissions:
  assumes "createRegistryAclResolver reg ma_ops auto = Inr resolve"
    and "resolve npub pk ctx s = (Inr d, s')" and "d_allowed d"
  shows "\<exists>r ro. ma_rows s' pk (pr_appId reg) = Some r \<and> \<not> ar_suspended r
    \<and> ro \<in> set (pr_roles reg) \<and> ro_key ro = ar_role r \<and> d_roles d = [ar_role r]
    \<and> set (d_permissions d)
        = (set (ro_permissions ro) \<union> grants_of (ar_permission_overrides r)) - denies_of (ar_permission_overrides r)
    \<and> set (ro_permissions ro) \<subseteq> pd_key ` set (pr_permissions reg)"
proof -
  have v: "validatePermissionRegistry reg = Inr ()" "resolve = registry_resolve reg ma_ops (or_else auto True)"
    using assms(1) by (auto simp: createRegistryAclResolver_def split: sum.splits)
  obtain rec where rec: "d = decide reg rec" "rec = ma_rows s' pk (pr_appId reg)"
    using ma.resolve_decides assms(2) v(2) by blast
  obtain r ro where r: "rec = Some r" "\<not> ar_suspended r"
    and ro: "List.find (\<lambda>ro. ro_key ro = ar_role r) (pr_roles reg) = Some ro"
    and d: "d = acl_allowed (ro_key ro) (applyOverrides (ro_permissions ro) (ar_permission_overrides r))"
    using assms(3) rec(1) by (auto simp: decide_def acl_denied_def split: option.splits if_splits)
  have in_roles: "ro \<in> set (pr_roles reg)" "ro_key ro = ar_role r" using ro by (auto simp: find_Some_iff)
  then have "set (ro_permissions ro) \<subseteq> pd_key ` set (pr_permissions reg)"
    using v(1) by (simp add: validatePermissionRegistry_Inr well_formed_registry_def)
  then show ?thesis
    using r rec(2) in_roles by (auto simp: d acl_allowed_def applyOverrides_spec(1))
qed

theorem effective_permissions_witness:
  "\<exists>d s'. registry_resolve scen_registry ma_ops True ''npub1p'' ''p'' \<lparr>cx_voucher = None, cx_now = 120, cx_session = None\<rparr> scen_acl = (Inr d, s')
     \<and> set (d_permissions d) \<subseteq> {''read'', ''pay''}"
proof -
  have "validatePermissionRegistry scen_registry = Inr ()" by code_simp
  then have reg: "createRegistryAclResolver scen_registry ma_ops (Some True) = Inr (registry_resolve scen_registry ma_ops True)"
    by (simp add: createRegistryAclResolver_def)
  have "fst (registry_resolve scen_registry ma_ops True ''npub1p'' ''p'' \<lparr>cx_voucher = None, cx_now = 120, cx_session = None\<rparr> scen_acl)
      = Inr (acl_allowed ''member'' (applyOverrides [''read'', ''pay''] []))"
    by code_simp
  then obtain d s' where r: "registry_resolve scen_registry ma_ops True ''npub1p'' ''p'' \<lparr>cx_voucher = None, cx_now = 120, cx_session = None\<rparr> scen_acl = (Inr d, s')" "d_allowed d"
    by (cases "registry_resolve scen_registry ma_ops True ''npub1p'' ''p'' \<lparr>cx_voucher = None, cx_now = 120, cx_session = None\<rparr> scen_acl") (simp add: acl_allowed_def)
  obtain r ro where e: "set (d_permissions d)
        = (set (ro_permissions ro) \<union> grants_of (ar_permission_overrides r)) - denies_of (ar_permission_overrides r)"
    "ma_rows s' ''p'' (pr_appId scen_registry) = Some r" "ro \<in> set (pr_roles scen_registry)"
    using effective_permissions [OF reg r] by blast
  have "s' = scen_acl"
    using r(1) by (simp add: registry_resolve_def resolveAclRecord_def ma_ops_def ma_get_def io_bind_def scen_acl_def
        scen_registry_def ma_key_def jm_get_def)
  then have "r = scen_member"
    using e(2) by (simp add: ma_rows_def ma_key_def scen_acl_def scen_registry_def jm_get_def)
  then have "grants_of (ar_permission_overrides r) = {}"
    by (simp add: scen_member_def buildAutoProvisionRecord_def grants_of_def)
  then show ?thesis using r(1) e(1,3) by (auto simp: scen_registry_def)
qed

theorem registry_accepted_iff:
  "validatePermissionRegistry reg = Inr () \<longleftrightarrow>
     distinct (map pd_key (pr_permissions reg)) \<and> distinct (map ro_key (pr_roles reg))
     \<and> pr_defaultRole reg \<in> ro_key ` set (pr_roles reg)
     \<and> (\<forall>ro\<in>set (pr_roles reg). set (ro_permissions ro) \<subseteq> pd_key ` set (pr_permissions reg))"
  by (simp only: validatePermissionRegistry_Inr well_formed_registry_def)

theorem registry_accepted_iff_witness:
  "validatePermissionRegistry scen_registry = Inr () \<and> pr_defaultRole scen_registry \<in> ro_key ` set (pr_roles scen_registry)"
  using registry_accepted_iff [of scen_registry] scen_registry_ok by simp

text \<open>
  C36. The in-memory rate limiter, with its pruning, decides every sequence of requests at non-
  decreasing times exactly like the specification that keeps one fixed window per identifier
  for ever.
\<close>

theorem limiter_refines_windows:
  assumes "sorted (map fst reqs)"
  shows "rl_run cfg reqs (rl_new t) = spec_run cfg reqs (\<lambda>_. None)"
proof (cases reqs)
  case (Cons r rs)
  then have "\<forall>q\<in>set reqs. fst r \<le> fst q" using assms by auto
  then show ?thesis by (rule rl_run_spec [OF agree_new assms])
qed simp

theorem limiter_refines_windows_witness:
  "rl_run \<lparr>lm_windowSeconds = 60, lm_maxPerWindow = 1\<rparr>
     [(100, \<lparr>rk_scope = scope_init, rk_npub = Some ''n'', rk_pubkey = None, rk_clientIp = Some ''i''\<rparr>),
      (101, \<lparr>rk_scope = scope_init, rk_npub = Some ''n'', rk_pubkey = None, rk_clientIp = Some ''i''\<rparr>)] (rl_new 0)
   = [\<lparr>rd_allowed = True, rd_retryAfterSeconds = None\<rparr>, \<lparr>rd_allowed = False, rd_retryAfterSeconds = Some 59\<rparr>]"
proof -
  let ?k = "\<lparr>rk_scope = scope_init, rk_npub = Some ''n'', rk_pubkey = None, rk_clientIp = Some ''i''\<rparr>"
  have "spec_run \<lparr>lm_windowSeconds = 60, lm_maxPerWindow = 1\<rparr> [(100, ?k), (101, ?k)] (\<lambda>_. None)
   = [\<lparr>rd_allowed = True, rd_retryAfterSeconds = None\<rparr>, \<lparr>rd_allowed = False, rd_retryAfterSeconds = Some 59\<rparr>]"
    by code_simp
  then show ?thesis by (subst limiter_refines_windows) simp_all
qed

theorem window_bound:
  assumes "jm_ok (rl_windows s)" and "jm_get (rl_windows s) i = None" and "0 < lm_windowSeconds cfg"
    and "\<forall>(t, k)\<in>set ((T, k0) # reqs). t - T < lm_windowSeconds cfg \<and> i \<in> set (rl_identifiers k)"
  shows "int (allowed_count (rl_run cfg ((T, k0) # reqs) s)) \<le> max 1 (lm_maxPerWindow cfg)"
  by (rule rl_window_bound [OF assms])

theorem window_bound_witness:
  "allowed_count (rl_run \<lparr>lm_windowSeconds = 60, lm_maxPerWindow = 2\<rparr>
     ((100, \<lparr>rk_scope = scope_init, rk_npub = None, rk_pubkey = None, rk_clientIp = Some ''i''\<rparr>)
      # replicate 5 (101, \<lparr>rk_scope = scope_init, rk_npub = None, rk_pubkey = None, rk_clientIp = Some ''i''\<rparr>)) (rl_new 0)) \<le> 2"
proof -
  let ?k = "\<lparr>rk_scope = scope_init, rk_npub = None, rk_pubkey = None, rk_clientIp = Some ''i''\<rparr>"
  have "rl_identifiers ?k = [''init:ip:i'']" by code_simp
  then have "int (allowed_count (rl_run \<lparr>lm_windowSeconds = 60, lm_maxPerWindow = 2\<rparr> ((100, ?k) # replicate 5 (101, ?k)) (rl_new 0)))
      \<le> max 1 (lm_maxPerWindow \<lparr>lm_windowSeconds = 60, lm_maxPerWindow = 2\<rparr>)"
    by (intro window_bound [where i = "''init:ip:i''"]) (simp_all add: rl_new_def jm_get_def)
  then show ?thesis by simp
qed

theorem session_ttl_clamped:
  assumes "1 \<le> configured"
  shows "1 \<le> clampTtlToDecision configured d now \<and> clampTtlToDecision configured d now \<le> configured
    \<and> (\<forall>x. d = Some (Fin x) \<and> of_int (now + 1) \<le> x \<longrightarrow> of_int (now + clampTtlToDecision configured d now) \<le> x)"
  using clamp_bounds [OF assms] clamp_bound by blast

theorem session_ttl_clamped_witness: "clampTtlToDecision 900 (Some (Fin 130)) 100 \<le> 30"
proof -
  have "(of_int (100 + clampTtlToDecision 900 (Some (Fin 130)) 100) :: rat) \<le> 130"
    using session_ttl_clamped [of 900 "Some (Fin 130)" 100] by simp
  then show ?thesis by (simp add: of_int_add [symmetric] del: of_int_add)
qed

theorem only_listed_audiences:
  assumes "createAudienceHostAllowlist hosts = Inr resolve" and "resolve host protocol = Inr url"
    and "\<forall>e\<in>set hosts. \<forall>a. parseEntry e = Inr a \<longrightarrow> \<not> ah_wildcard a"
  shows "\<exists>e\<in>set hosts. \<exists>a. parseEntry e = Inr a
     \<and> url = or_else (ah_scheme a) protocol @ ''://'' @ ah_host a"
  by (rule exact_audiences [OF assms])

theorem only_listed_audiences_witness:
  "\<exists>resolve. createAudienceHostAllowlist [''example.com''] = Inr resolve
     \<and> (\<forall>host protocol url. resolve host protocol = Inr url \<longrightarrow> url = protocol @ ''://example.com'')"
proof -
  have "(case createAudienceHostAllowlist [''example.com''] of Inr _ \<Rightarrow> True | Inl _ \<Rightarrow> False)" by code_simp
  then obtain resolve where r: "createAudienceHostAllowlist [''example.com''] = Inr resolve" by (auto split: sum.splits)
  have p: "parseEntry ''example.com'' = Inr \<lparr>ah_host = ''example.com'', ah_scheme = None, ah_wildcard = False\<rparr>" by code_simp
  have "url = protocol @ ''://example.com''" if "resolve host protocol = Inr url" for host protocol url
    using only_listed_audiences [OF r that] p by auto
  then show ?thesis using r by blast
qed

theorem wildcard_entry_escapes:
  "\<exists>resolve. createAudienceHostAllowlist [''*.example.com''] = Inr resolve
     \<and> resolve (Some ''evil.test/.example.com'') ''https'' = Inr ''https://evil.test/.example.com''"
  using wildcard_escapes by (simp add: escape_hosts_def)

end
