(* ===== verification/CoreProperties.thy ===== *)
theory CoreProperties
  imports Scenario
begin

text \<open>
  The properties of nap-core and of the parsers: the check of a NIP-98 proof, the codecs,
  the authorization and Cookie headers and the JSON parser's fuel.
\<close>

text \<open>
  C34. verifyNip98Completion accepts exactly the requests whose header decodes to an event of
  kind 27235 with empty content, a verifying signature, a timestamp within the skew, and
  single u, method, payload, challenge_id and challenge tags that match the request.
\<close>

theorem nip98_proof_checked:
  "verifyNip98Completion pf input = Inr r \<longleftrightarrow>
     (let ev = vc_event r; k = rq_challenge_id (vi_body input); h = sha256Hex (pf_sha256 pf) (vi_rawBody input) in
      parseNostrAuthorizationHeader (vi_authorization input) = Some ev
      \<and> ev_kind ev = 27235 \<and> ev_content ev = [] \<and> pf_verifyEvent pf ev
      \<and> \<bar>of_int (vi_now input) - ev_created_at ev\<bar> \<le> of_int (or_else (vi_maxClockSkewSeconds input) 60)
      \<and> (\<exists>u n. single_tag ev ''u'' u \<and> pf_url_toString pf u = Some n \<and> pf_url_toString pf (vi_url input) = Some n)
      \<and> single_tag ev ''method'' (to_upper (vi_method input))
      \<and> single_tag ev ''payload'' h \<and> k \<noteq> [] \<and> single_tag ev ''challenge_id'' k
      \<and> single_tag ev ''challenge'' (vc_challenge r) \<and> vc_challengeId r = k \<and> vc_payload r = h)"
  unfolding verifyNip98Completion_Inr valid_proof_def exactUrlMatch_iff Let_def by blast

theorem proof_failure_codes:
  assumes "verifyNip98Completion pf input = Inl f"
  shows "vf_code f \<in> {NAP_COMPLETE_MISSING_AUTH_HEADER, NAP_COMPLETE_INVALID_AUTH_SCHEME,
     NAP_COMPLETE_INVALID_EVENT_JSON, NAP_COMPLETE_INVALID_KIND, NAP_COMPLETE_INVALID_SIGNATURE,
     NAP_COMPLETE_CREATED_AT_OUT_OF_RANGE, NAP_COMPLETE_URL_MISMATCH,
     NAP_COMPLETE_METHOD_MISMATCH, NAP_COMPLETE_MISSING_PAYLOAD, NAP_COMPLETE_PAYLOAD_MISMATCH,
     NAP_COMPLETE_MISSING_CHALLENGE_ID, NAP_COMPLETE_CHALLENGE_MISMATCH}"
  by (rule verifyNip98Completion_codes [OF assms])

theorem proof_failure_codes_witness:
  "\<exists>f. verifyNip98Completion scen_platform
     (completion_input (scen_input\<lparr>vn_authorization := None\<rparr>) scen_opts scen_body 110) = Inl f \<and> vf_code f \<noteq> NAP_COMPLETE_INTERNAL"
proof -
  have "\<nexists>vp. verifyNip98Completion scen_platform
     (completion_input (scen_input\<lparr>vn_authorization := None\<rparr>) scen_opts scen_body 110) = Inr vp"
    by (simp add: verifyNip98Completion_Inr valid_proof_def completion_input_def parseNostrAuthorizationHeader_def)
  then obtain f where f: "verifyNip98Completion scen_platform
     (completion_input (scen_input\<lparr>vn_authorization := None\<rparr>) scen_opts scen_body 110) = Inl f"
    by (cases "verifyNip98Completion scen_platform
     (completion_input (scen_input\<lparr>vn_authorization := None\<rparr>) scen_opts scen_body 110)") auto
  show ?thesis using proof_failure_codes [OF f] f by auto
qed

theorem constant_time_compare:
  assumes "length a < 2 ^ 32" and "length b < 2 ^ 32"
  shows "constantTimeEquals a b \<longleftrightarrow> a = b"
  by (rule constantTimeEquals_iff [OF assms])

theorem constant_time_compare_witness: "\<not> constantTimeEquals ''tok'' ''tol''"
  using constant_time_compare [of "''tok''" "''tol''"] by simp

theorem header_round_trip:
  assumes "ascii text" and "text \<noteq> []"
  shows "parseNostrAuthorizationHeader (Some (''Nostr '' @ encodeBase64String text))
    = (case json_parse text of None \<Rightarrow> None | Some v \<Rightarrow> event_of_json v)"
  by (rule parse_header_encode [OF assms])

theorem header_round_trip_witness:
  "parseNostrAuthorizationHeader (Some (''Nostr '' @ encodeBase64String scen_json)) = Some scen_event"
proof -
  have "scen_json \<noteq> []" by (simp add: scen_json_def)
  then show ?thesis by (rule trans [OF header_round_trip [OF scen_ascii] scen_json_parse])
qed

theorem codecs_round_trip:
  "hexToBytes (bytesToHex bs) = Inr bs \<and> decodeBase64Bytes (encodeBase64Bytes bs) = Inr bs
   \<and> length (encodeBase64Bytes bs) = 4 * ((length bs + 2) div 3)"
  by (simp add: hexToBytes_bytesToHex decodeBase64Bytes_encode length_encode)

lemma js_trim_space: "js_trim (CHR '' '' # s) = js_trim s"
proof -
  have "lead_space js_spaces (CHR '' '' # s) = 1"
    by (simp add: lead_space_def js_spaces_def starts_with_def)
  then have "trim_lead js_spaces (CHR '' '' # s) = trim_lead js_spaces s"
    by (subst trim_lead.simps) simp
  then show ?thesis by (simp add: js_trim_def)
qed

lemma join_spaced: "js_join ''; '' (w # ws) = js_join '';'' (w # map (\<lambda>x. CHR '' '' # x) ws)"
proof (induction ws arbitrary: w)
  case (Cons v vs)
  have "js_join '';'' ((CHR '' '' # v) # map (\<lambda>x. CHR '' '' # x) vs)
      = CHR '' '' # js_join '';'' (v # map (\<lambda>x. CHR '' '' # x) vs)"
    by (cases vs) simp_all
  then show ?case using Cons.IH [of v] by simp
qed simp

theorem cookie_round_trip:
  assumes "ps \<noteq> []"
    and "\<forall>(n, v)\<in>set ps. set (n @ v) \<inter> space_ends = {} \<and> CHR '';'' \<notin> set (n @ v) \<and> CHR ''='' \<notin> set n"
  shows "parseCookieValue (Some (js_join ''; '' (map (\<lambda>(n, v). n @ ''='' @ v) ps))) name = map_of ps name"
proof -
  let ?c = "\<lambda>(n, v). n @ ''='' @ v"
  obtain p qs where ps: "ps = p # qs" using assms(1) by (cases ps) simp_all
  let ?cands = "?c p # map (\<lambda>x. CHR '' '' # x) (map ?c qs)"
  have e: "CHR ''='' \<notin> space_ends" by (rule alphabet_not_end(2))
  have trim: "js_trim (?c q) = ?c q" if "q \<in> set ps" for q
    using assms(2) that e by (intro js_trim_plain) (auto split: prod.splits)
  have pair: "cookie_pair (?c q) = q" "cookie_pair (CHR '' '' # ?c q) = q" if "q \<in> set ps" for q
    using cookie_pair_value trim [OF that] js_trim_space [of "?c q"] assms(2) that by (auto split: prod.splits)
  have map: "map cookie_pair ?cands = ps"
    using pair by (auto simp: ps intro!: map_idI)
  have semi: "\<forall>x\<in>set ?cands. CHR '';'' \<notin> set x" using assms(2) by (auto simp: ps split: prod.splits)
  have ne: "js_join '';'' ?cands \<noteq> []" by (cases p; cases qs) auto
  have "parseCookieValue (Some (js_join '';'' ?cands)) name = map_of (map cookie_pair ?cands) name"
    by (rule parseCookieValue_header [OF _ ne semi]) simp
  then show ?thesis using join_spaced [of "?c p" "map ?c qs"] map by (simp add: ps)
qed

theorem cookie_round_trip_witness: "parseCookieValue (Some ''theme=dark; session=tok'') ''session'' = Some ''tok''"
proof -
  have "parseCookieValue (Some (js_join ''; '' (map (\<lambda>(n, v). n @ ''='' @ v) [(''theme'', ''dark''), (''session'', ''tok'')]))) ''session''
      = map_of [(''theme'', ''dark''), (''session'', ''tok'')] ''session''"
    by (rule cookie_round_trip) (simp_all add: space_ends_def js_spaces_def)
  then show ?thesis by simp
qed

theorem json_parse_terminates:
  assumes "2 * length s + 2 \<le> n"
  shows "json_parse s = (case p_value n s of None \<Rightarrow> None
     | Some (v, r) \<Rightarrow> if skip_ws r = [] then Some v else None)"
  using json_fuel_enough [of s n] assms by (simp add: json_parse_def json_fuel_def)

theorem json_parse_terminates_witness:
  "json_parse ''[1]'' = (case p_value 100 ''[1]'' of None \<Rightarrow> None | Some (v, r) \<Rightarrow> if skip_ws r = [] then Some v else None)"
  by (rule json_parse_terminates) simp

end
