(* ===== verification/Spec2Isabelle.thy ===== *)
theory Spec2Isabelle
  imports WebProperties Nip46Properties EndToEndProperties VoucherProperties AdapterProperties StoreProperties PostgresProperties GuardProperties PolicyProperties CoreProperties IssueRuns
begin

text \<open>
  A verification development of NAP, the Nostr authentication protocol server.

  \<^bold>\<open>The program.\<close> A client proves that it holds a Nostr key and gets a session. It asks for a
  challenge (\<open>issueChallenge\<close>), signs a NIP-98 event that names it, and sends the event
  (\<open>verifyCompletion\<close>); the server checks the event (nap-core), the state of the challenge,
  the caller's rights (access control), makes a session and redeems the challenge, once. The
  session's refresh token is exchanged for a new pair (\<open>refreshSession\<close>), and an adapter puts
  guards before an application's own routes. Stores, resolver, limiter, logger and metrics are
  interfaces the operator supplies; nap-server has in-memory ones.

  \<^bold>\<open>Where things are\<close> (sources under \<open>packages/\<close>):
  \<^item> \<open>Prelude\<close>, \<open>JsText\<close>, \<open>JsNumber\<close>, \<open>Json\<close>: actions and their combinators, \<open>Map\<close>, text as UTF-8
    bytes, \<open>trim\<close>, \<open>split\<close>, the rounding of numbers to doubles, \<open>JSON.parse\<close>.
  \<^item> \<open>Codec\<close>, \<open>CoreTypes\<close>, \<open>Validate\<close>, \<open>HeaderFacts\<close>: nap-core (\<open>codec.ts\<close>, \<open>base64.ts\<close>,
    \<open>hash.ts\<close>, \<open>types.ts\<close>, \<open>errors.ts\<close>, \<open>header.ts\<close>, \<open>url.ts\<close>, \<open>validate.ts\<close>).
  \<^item> \<open>ServerTypes\<close>: nap-server's interfaces (\<open>types.ts\<close>) as records of operations, and their
    contracts as the locales \<open>challenge_store\<close>, \<open>session_store\<close>, \<open>acl_store\<close>; the lifecycle of
    a challenge as the step relation \<open>lifecycle\<close>.
  \<^item> \<open>MemoryChallenges\<close>, \<open>MemorySessions\<close>, \<open>Acl\<close>: the stores of \<open>memory.ts\<close> and the registry,
    the resolver and the revoking store of \<open>acl.ts\<close>, with the interpretations of the contracts.
  \<^item> \<open>RateLimit\<close>, \<open>Metrics\<close>, \<open>Audience\<close>: \<open>rateLimit.ts\<close>, \<open>metrics.ts\<close> and \<open>guard.ts\<close>,
    \<open>audience.ts\<close>.
  \<^item> \<open>ServerCore\<close>, \<open>ServerIssue\<close>, \<open>ServerComplete\<close>, \<open>ServerRefresh\<close>: \<open>server.ts\<close>. \<open>CompleteFacts\<close>,
    \<open>CompleteSound\<close>, \<open>Padding\<close>, \<open>LoginRuns\<close>, \<open>RefreshRuns\<close>, \<open>IssueRuns\<close> prove what they do over
    any stores that keep the contracts (locales \<open>nap_stores\<close>, \<open>eager_nap_stores\<close>).
  \<^item> \<open>StoreRuns\<close>: runs of a store, any operations in any order (\<open>challenge_run\<close>,
    \<open>session_run\<close>), and what every run keeps.
  \<^item> \<open>Express\<close>, \<open>ExpressFacts\<close>: the Express adapter (\<open>adapter.ts\<close>).
  \<^item> \<open>Fastify\<close>, \<open>FastifyFacts\<close>: the Fastify adapter, and its comparison with the Express one.
  \<^item> \<open>Postgres\<close>, \<open>PostgresFacts\<close>: nap-store-postgres (\<open>index.ts\<close>) over tables, and the
    interpretations of the same contracts on it.
  \<^item> \<open>VoucherLists\<close>, \<open>VoucherSecret\<close>, \<open>VoucherMint\<close>, \<open>VoucherResolver\<close>: nap-voucher
    (\<open>allowlist.ts\<close> and \<open>availability.ts\<close>, \<open>secret.ts\<close>, \<open>mintClient.ts\<close> and \<open>dleq.ts\<close>,
    \<open>resolver.ts\<close>). \<open>VoucherFacts\<close> has what a run of the resolver keeps; \<open>VoucherOverlap\<close> has calls
    of \<open>getKey\<close> that overlap.
  \<^item> \<open>JsonPrint\<close>, \<open>ClientHttp\<close>: \<open>JSON.stringify\<close> with its round trip, and nap-client-http
    (\<open>client.ts\<close>): the completion a client builds and what the server reads of it.
  \<^item> \<open>VoucherScenario\<close>: a deployment with the voucher resolver, for the witnesses.
  \<^item> \<open>Reactive\<close>: programs that react to inputs and keep a trace, with the locale \<open>reactive\<close> of
    what they share. \<open>WebProtocol\<close>, \<open>WebSigner\<close>, \<open>WebClient\<close>, \<open>WebSession\<close>: nap-client-web
    (\<open>crossOriginProtocol.ts\<close>; \<open>crossOriginSigner.ts\<close>; \<open>crossOriginClient.ts\<close>; \<open>session.ts\<close> with \<open>activityLock.ts\<close>,
    \<open>broadcast.ts\<close>, \<open>httpClient.ts\<close> and \<open>reunlock.ts\<close>). \<open>WebSignerFacts\<close>, \<open>WebSignerLimits\<close>,
    \<open>WebClientFacts\<close>, \<open>WebClientCalls\<close>, \<open>WebSessionFacts\<close> have the invariants of their runs,
    \<open>WebScenario\<close> two pages and a tab for the witnesses. \<open>WebStores\<close> has the encrypted stores, the
    remembered signer and the key in the page (\<open>webCryptoSecretStore.ts\<close>, \<open>storage.ts\<close>,
    \<open>signerPreference.ts\<close>, \<open>signers.ts\<close>), \<open>WebStoreFacts\<close> what they keep, and \<open>WebNip07\<close> the signer of an
    extension (\<open>nip07.ts\<close>, \<open>signerCapabilities.ts\<close>).
  \<^item> \<open>Nip46Pairing\<close>, \<open>Nip46Signer\<close>: nap-client-nip46 (\<open>errors.ts\<close>, \<open>timeout.ts\<close> and
    \<open>waitForNostrConnect\<close>; \<open>connection.ts\<close>, \<open>persistence.ts\<close> and \<open>signer.ts\<close>), with the facts of
    their runs in \<open>Nip46PairingFacts\<close> and \<open>Nip46SignerFacts\<close>.
  \<^item> \<open>Scenario\<close>: one concrete deployment, evaluated by the kernel, for the witnesses.
  \<^item> \<open>StoreProperties\<close>, \<open>PostgresProperties\<close>, \<open>GuardProperties\<close>, \<open>AdapterProperties\<close>,
    \<open>PolicyProperties\<close>, \<open>CoreProperties\<close>, \<open>VoucherProperties\<close>, \<open>EndToEndProperties\<close>,
    \<open>WebProperties\<close>, \<open>Nip46Properties\<close> and this theory hold the properties.

  \<^bold>\<open>How state and effects are modelled.\<close> An asynchronous method is an action, from the state it
  works on to its outcome (\<open>Inl\<close> a thrown error, \<open>Inr\<close> a value) and the new state; every
  \<open>catch\<close> of the source is an \<open>io_catch\<close>. The server's operations run in a \<open>world\<close> with a field
  per collaborator: the store states, the limiter, the sequence of audit events and counters,
  the wall clock \<open>w_now\<close>, the monotonic clock \<open>w_millis\<close>, and the random bytes drawn. An
  operation runs to its end before the next starts; interleavings are modelled at the
  stores, whose operations between two requests are an arbitrary run. The in-memory session store keeps an explicit heap of session objects,
  because its four maps share them.
  The pages of the browser client and the remote signer are reactive programs: \<open>page_step\<close>, \<open>xc_step\<close>,
  \<open>tab_step\<close> and \<open>n46_step\<close> take a
  state and one input (a message, a call, a timer, the clock, the answer to something awaited)
  to the next state, and every \<open>await\<close> ends a step, so that a run over any list of inputs is any
  interleaving of the handlers that are under way; what the page does is in its trace. \<open>key_step\<close> cuts the
  voucher mint client's \<open>getKey\<close> in the same way.

  \<^bold>\<open>Numbers.\<close> Integers of the bit operators are words of 32 bits; times
  are \<open>int\<close>, those the client chooses are rationals, and a bound a resolver returns is any
  JavaScript number, NaN and the infinities included. A literal, in JSON or in a tag, is rounded
  to the nearest double as it is read (\<open>js_round\<close>); in a tag one beyond the range of doubles is
  an infinity, in JSON the model keeps its rounded value. Sums and comparisons are exact.
  \<open>String\<close> of an integer up to \<open>2 ^ 53\<close> is its digits; of any other number it is a parameter.
  \<open>BIGINT\<close> columns are read as numbers, as with the type parser of the merchant app. The guards
  have a clock of their own (\<open>go_clock\<close>), or else the server's wall clock.

  \<^bold>\<open>Fuel.\<close> Only the JSON parser has fuel, twice the length of the text plus two; it is always
  enough (\<open>json_parse_terminates\<close>). The search of \<open>hashToCurve\<close> ends with the counter's bound
  of the source, by a measure. All other loops are structural.

  \<^bold>\<open>Parameters.\<close> \<open>platform\<close> holds what the code takes from libraries: SHA-256, signature
  verification, \<open>nip19.decode\<close>, \<open>URL\<close>. For vouchers, \<open>curve\<close> holds the points of secp256k1 and
  BIP-340, \<open>url_parser\<close> the URL parser, \<open>num_text\<close> the text of a number that is not an integer
  up to \<open>2 ^ 53\<close>; a mint is a function of the requests made so far, so it may answer anything. The
  client's signer is an action, \<open>finalizeEvent\<close> a function. The only assumptions are of
  \<open>honest_client_logs_in\<close>: the signer returns the event it was given, with a signature that
  the server's \<open>verifyEvent\<close> accepts, and the \<open>URL\<close> can be parsed; of it,
  \<open>login_succeeds\<close> and \<open>retry_gets_same_session\<close>: the loggers work (\<open>audit_works\<close>), the resolver
  allows the key, and the rate limiter lets the two checks of the request through
  (\<open>let_through\<close>: a limiter switched off always does, \<open>through_null\<close>; the default one while it
  has room for the address and the key, \<open>default_lets_through\<close>); of
  \<open>mint_requests_bounded\<close>, for its second bound: calls do not overlap, the mint answers requests
  for its keysets with keysets and nobody clears the cache; of
  \<open>pools_accounted\<close>: nostr-tools' constructors do not throw; and of \<open>enrolled_key_unlocks\<close>: WebCrypto
  decrypts what it has encrypted under the same key, and the storage works.

  \<^bold>\<open>What is shown.\<close> A session is only ever given for a verified proof of a live challenge by the
  key it was issued to and the resolver allows (\<open>login_sound\<close>), once per challenge
  (\<open>one_session_per_challenge\<close>, \<open>redeemed_once\<close>), and is given when the conditions hold
  (\<open>login_succeeds\<close>, \<open>retry_gets_same_session\<close>); someone else cannot disturb it
  (\<open>stranger_changes_nothing\<close>). A refresh token is good for one rotation of a live session, and
  its reuse ends the session (\<open>refresh_sound\<close>, \<open>refresh_token_rotates_once\<close>,
  \<open>refresh_reuse_ends_session\<close>). Guards admit live sessions with the right in force now only
  (\<open>permission_guard_sound\<close>, \<open>role_guard_sound\<close>), revocation and logout
  are final (\<open>revoked_stays_revoked\<close>, \<open>logout_ends_session\<close>). The limits on lifetimes, requests
  and outstanding challenges hold. The PostgreSQL stores keep
  the same contracts (\<open>postgres_login_sound\<close>, \<open>postgres_redeems_like_memory\<close>). The completion
  the HTTP client builds is one the server accepts (\<open>honest_client_logs_in\<close>). A voucher gives
  rights only when every local check and the mint confirm it (\<open>voucher_grant_sound\<close>,
  \<open>voucher_login\<close>), no request leaves before the local checks pass
  (\<open>voucher_no_early_contact\<close>), a mint that is down gives at most the degraded grant
  (\<open>degraded_grant_bounded\<close>), and a stream of unknown keysets costs a mint two requests in all
  when the calls do not overlap and two for each when they do (\<open>mint_requests_bounded\<close>,
  \<open>overlapping_calls_flood\<close>). In the browser, an event only leaves the signer page for an
  origin with a consented grant it is within (\<open>signer_page_safe\<close>), the page that asked only
  accepts what it asked for (\<open>relying_signature_checked\<close>, \<open>cross_origin_end_to_end\<close>), nothing leaves a locked
  wallet (\<open>locked_wallet_signs_nothing\<close>), a consent covers one completion proof
  (\<open>one_completion_per_consent\<close>) for at most 15 minutes (\<open>grant_lifetime_bounded\<close>), and a tab's
  lock takes the key and holds (\<open>lock_takes_key\<close>, \<open>locked_tab_signs_nothing\<close>), but for a
  login already under way (\<open>pending_login_undoes_lock\<close>); the key store gives the key back to its
  passphrase (\<open>enrolled_key_unlocks\<close>). A remote signer is paired by an echo of the secret
  alone (\<open>pairing_by_secret_alone\<close>), and loses no pool (\<open>pools_accounted\<close>). Flaws that are theorems: \<open>wildcard_entry_escapes\<close>,
  \<open>unbounded_decision_lifts_lifetime\<close>, \<open>retry_after_expiry_refused\<close>, \<open>hostile_tag_throws\<close>,
  \<open>canonical_bytes_collide\<close>, \<open>compressed_issuer_refused\<close>, \<open>refresh_outlives_voucher\<close>, \<open>hint_without_text_hangs\<close>,
  \<open>overlapping_connects_leak\<close>, \<open>disconnect_undone\<close>, \<open>denied_read_blames_passphrase\<close>.

  \<^bold>\<open>Not modelled.\<close> The PostgreSQL driver and server (a statement runs whole or not at all), secp256k1 and the mint itself, timeouts
  and abort signals of a request, WebCrypto, Web Storage, browser extensions and relays, the React hooks and the examples; Express and Fastify themselves, the body parser of
  Express and the text of a cookie; log texts, metric labels and
  the console warning of an unknown role; cookies' attributes are data of the response.
\<close>

text \<open>
  C1. A completion that verifyCompletion answers with a session carried a well-formed body and a
  NIP-98 proof that verifies, names a challenge the store holds, unexpired, issued to the
  key that signed and with the challenge value in the proof; the access control resolver
  allowed that key; and the session returned is stored, belongs to that key, and is the one
  the challenge is now recorded as redeemed for, by this very event.
\<close>

theorem login_sound:
  assumes "op_challengeStore opts = mc_ops" and "op_sessionStore opts = ms_ops" and "memory.ready w"
    and "verifyCompletion input opts w = (Inr (Verify_ok s), w')"
  shows "\<exists>body vp c d e as'.
     parseAuthCompleteRequest (vn_rawBody input) = Some body
     \<and> verifyNip98Completion (op_platform opts) (completion_input input opts body (w_now w)) = Inr vp
     \<and> mc_look (w_challenges w) (rq_challenge_id body) = Some c
     \<and> \<not> ch_expires_at c < w_now w
     \<and> ch_pubkey c = ev_pubkey (vc_event vp) \<and> ch_challenge c = vc_challenge vp
     \<and> op_aclResolver opts (ch_npub c) (ch_pubkey c)
         \<lparr>cx_voucher = rq_voucher body, cx_now = w_now w, cx_session = None\<rparr> (w_acl w) = (Inr d, as')
     \<and> d_allowed d
     \<and> s \<in> ms_sess (w_sessions w') \<and> s_challenge_id s = rq_challenge_id body
     \<and> s_principal_pubkey s = ev_pubkey (vc_event vp)
     \<and> mc_look (w_challenges w') (rq_challenge_id body) = Some e \<and> ch_state e \<noteq> issued
     \<and> ch_redeemed_session_id e = Some (s_session_id s)
     \<and> ch_redeemed_event_id e = Some (ev_id (vc_event vp))"
proof -
  have "memory.granted input opts w s w'" by (rule memory.complete_sound [OF assms])
  then show ?thesis
    unfolding memory.granted_def memory.admitted_def memory.settled_def memory.allowed_by_def by metis
qed

theorem login_sound_witness:
  "\<exists>s w'. verifyCompletion scen_input scen_opts scen_world = (Inr (Verify_ok s), w')
     \<and> s \<in> ms_sess (w_sessions w')"
proof -
  obtain s w' where l: "verifyCompletion scen_input scen_opts scen_world = (Inr (Verify_ok s), w')"
    using scen_login by blast
  show ?thesis
    using login_sound [OF _ _ scen_ready l] l by (auto simp: scen_opts_def)
qed

text \<open>
  C2. Unless a request carries a valid proof signed by the very key the named challenge was
  issued to, verifyCompletion changes neither store: no failure is counted against the
  challenge, nothing is redeemed, no session is made. Knowing a challenge id is not enough
  to burn it.
\<close>

theorem stranger_changes_nothing:
  fixes w :: "(mem_challenges, mem_sessions, 'as, 'rl) world"
  assumes "op_challengeStore opts = mc_ops" and "mc_inv (w_challenges w)"
    and "\<not> (\<exists>body vp c. parseAuthCompleteRequest (vn_rawBody input) = Some body
        \<and> verifyNip98Completion (op_platform opts) (completion_input input opts body (w_now w)) = Inr vp
        \<and> mc_look (w_challenges w) (rq_challenge_id body) = Some c \<and> ch_pubkey c = ev_pubkey (vc_event vp))"
    and "verifyCompletion input opts w = (x, w')"
  shows "mc_look (w_challenges w') = mc_look (w_challenges w) \<and> w_sessions w' = w_sessions w"
  by (rule memory.stranger_frame [OF assms(1,2) _ assms(4)])
    (use assms(3) in \<open>simp only: memory.by_principal_def not_False_eq_True\<close>)

theorem stranger_changes_nothing_witness:
  "mc_look (w_challenges (snd (verifyCompletion (scen_input\<lparr>vn_authorization := None\<rparr>) scen_opts scen_world)))
     = mc_look (w_challenges scen_world)"
proof -
  have no: "\<nexists>vp body. verifyNip98Completion (op_platform scen_opts)
      (completion_input (scen_input\<lparr>vn_authorization := None\<rparr>) scen_opts body (w_now scen_world)) = Inr vp"
    by (simp add: verifyNip98Completion_Inr valid_proof_def completion_input_def parseNostrAuthorizationHeader_def)
  show ?thesis
    by (rule conjunct1 [OF stranger_changes_nothing [of scen_opts _ "scen_input\<lparr>vn_authorization := None\<rparr>"
            "fst (verifyCompletion (scen_input\<lparr>vn_authorization := None\<rparr>) scen_opts scen_world)"]])
      (use no scen_ready in \<open>auto simp: memory.ready_def scen_opts_def\<close>)
qed

text \<open>
  C3. Two completions of one challenge that both succeed return the same session id and carried
  verifying proofs whose events have the same id, the one the challenge is recorded as
  redeemed by, whatever operations the challenge store went through between them.
\<close>

theorem one_session_per_challenge:
  assumes "op_challengeStore opts = mc_ops" and "op_sessionStore opts = ms_ops"
    and "memory.ready w" and "verifyCompletion i1 opts w = (Inr (Verify_ok s1), w1)"
    and "challenge_run mc_ops (s_challenge_id s1) (w_challenges w1) (w_challenges w2)" and "memory.ready w2"
    and "verifyCompletion i2 opts w2 = (Inr (Verify_ok s2), w3)"
    and "s_challenge_id s2 = s_challenge_id s1"
  shows "s_session_id s2 = s_session_id s1
    \<and> (\<exists>c d. mc_look (w_challenges w1) (s_challenge_id s1) = Some c
          \<and> mc_look (w_challenges w3) (s_challenge_id s1) = Some d
          \<and> ch_redeemed_event_id c \<noteq> None \<and> ch_redeemed_event_id d = ch_redeemed_event_id c)
    \<and> (\<exists>body1 vp1 body2 vp2.
          parseAuthCompleteRequest (vn_rawBody i1) = Some body1
          \<and> verifyNip98Completion (op_platform opts) (completion_input i1 opts body1 (w_now w)) = Inr vp1
          \<and> parseAuthCompleteRequest (vn_rawBody i2) = Some body2
          \<and> verifyNip98Completion (op_platform opts) (completion_input i2 opts body2 (w_now w2)) = Inr vp2
          \<and> ev_id (vc_event vp2) = ev_id (vc_event vp1))"
proof -
  let ?k = "s_challenge_id s1"
  obtain e where once: "s_session_id s2 = s_session_id s1" "memory.settled w1 ?k e s1" "memory.settled w3 ?k e s2"
    using memory.complete_once_run [OF assms] by blast
  obtain b1 v1 where 1: "parseAuthCompleteRequest (vn_rawBody i1) = Some b1"
    "verifyNip98Completion (op_platform opts) (completion_input i1 opts b1 (w_now w)) = Inr v1"
    "memory.settled w1 (rq_challenge_id b1) (ev_id (vc_event v1)) s1"
    using memory.complete_sound [OF assms(1-4)] unfolding memory.granted_def by blast
  obtain b2 v2 where 2: "parseAuthCompleteRequest (vn_rawBody i2) = Some b2"
    "verifyNip98Completion (op_platform opts) (completion_input i2 opts b2 (w_now w2)) = Inr v2"
    "memory.settled w3 (rq_challenge_id b2) (ev_id (vc_event v2)) s2"
    using memory.complete_sound [OF assms(1,2,6,7)] unfolding memory.granted_def by blast
  have "ev_id (vc_event v1) = e" "ev_id (vc_event v2) = e"
    using once(2,3) 1(3) 2(3) assms(8) unfolding memory.settled_def by auto
  then have same: "ev_id (vc_event v2) = ev_id (vc_event v1)" by simp
  show ?thesis using once 1(1,2) 2(1,2) same by (fastforce simp: memory.settled_def)
qed

theorem one_session_per_challenge_witness:
  "\<exists>s w1 w3. verifyCompletion scen_input scen_opts scen_settled = (Inr (Verify_ok s), w1)
     \<and> verifyCompletion scen_input scen_opts scen_settled = (Inr (Verify_ok s), w3)
     \<and> s_session_id s = ''sid''"
proof -
  obtain w1 where w1: "verifyCompletion scen_input scen_opts scen_settled = (Inr (Verify_ok scen_owned), w1)"
    "w_challenges w1 = w_challenges scen_settled"
    using scen_retry by blast
  have run: "challenge_run mc_ops (s_challenge_id scen_owned) (w_challenges w1) (w_challenges scen_settled)"
    unfolding w1(2) by simp
  have "s_session_id scen_owned = s_session_id scen_owned"
    using one_session_per_challenge [OF _ _ scen_settled_ready w1(1) run scen_settled_ready w1(1)]
    by (auto simp: scen_opts_def)
  moreover have "s_session_id scen_owned = ''sid''" by (simp add: scen_owned_def scen_session_def)
  ultimately show ?thesis using w1(1) by blast
qed

text \<open>
  C4. When the loggers work and the rate limiter lets the request through, a verifying proof of
  a live issued challenge, with a created_at between the challenge's issue and expiry
  (widened by the two grace periods), by a key the resolver allows, is answered with a
  session on the in-memory stores, expiry boundary included.
\<close>

theorem login_succeeds:
  assumes "op_challengeStore opts = mc_ops" and "op_sessionStore opts = ms_ops"
    and "audit_works opts" and "let_through opts (completion_keys input (ev_pubkey (vc_event vp))) w"
    and "mc_inv (w_challenges w)" and "ms_inv (w_sessions w)"
    and "parseAuthCompleteRequest (vn_rawBody input) = Some body"
    and "verifyNip98Completion (op_platform opts) (completion_input input opts body (w_now w)) = Inr vp"
    and "mc_look (w_challenges w) (rq_challenge_id body) = Some c" and "ch_state c = issued"
    and "\<not> ch_expires_at c < w_now w" and "ch_pubkey c = ev_pubkey (vc_event vp)"
    and "ch_challenge c = vc_challenge vp"
    and "of_int (ch_issued_at c - or_else (op_lowerBoundGraceSeconds opts) 30) \<le> ev_created_at (vc_event vp)"
    and "ev_created_at (vc_event vp) \<le> of_int (ch_expires_at c + or_else (op_upperBoundGraceSeconds opts) 5)"
    and "op_aclResolver opts (ch_npub c) (ch_pubkey c)
        \<lparr>cx_voucher = rq_voucher body, cx_now = w_now w, cx_session = None\<rparr> (w_acl w) = (Inr d, as')"
    and "d_allowed d"
  shows "\<exists>s w'. verifyCompletion input opts w = (Inr (Verify_ok s), w')"
  using eager_memory.complete_live [OF assms(1-10) _ assms(16,17)] assms(11-15)
  unfolding memory.admitted_def by blast

theorem login_succeeds_witness:
  "\<exists>s w'. verifyCompletion scen_input scen_opts scen_world = (Inr (Verify_ok s), w')"
proof -
  obtain d as' where d: "registry_resolve scen_registry ma_ops True ''npub1p'' ''p''
      \<lparr>cx_voucher = rq_voucher scen_body, cx_now = w_now scen_world, cx_session = None\<rparr> (w_acl scen_world)
        = (Inr d, as')" "d_allowed d"
    using scen_resolver unfolding scen_world_def by force
  have a: "op_aclResolver scen_opts (ch_npub scen_challenge) (ch_pubkey scen_challenge)
      \<lparr>cx_voucher = rq_voucher scen_body, cx_now = w_now scen_world, cx_session = None\<rparr> (w_acl scen_world) = (Inr d, as')"
    using d(1) by (simp add: scen_opts_def scen_challenge_def new_challenge_def)
  have look: "mc_look (w_challenges scen_world) (rq_challenge_id scen_body) = Some scen_challenge"
    by (simp add: scen_world_def scen_body_def mc_look_put)
  show ?thesis
    by (rule login_succeeds [OF _ _ scen_audit through_null _ _ scen_parse scen_verify look _ _ _ _ _ _ a d(2)])
      (use scen_ready scen_admitted in \<open>simp_all add: scen_opts_def memory.ready_def memory.admitted_def
         scen_challenge_def new_challenge_def\<close>)
qed



text \<open>
  After the challenge has expired the same request is refused, its result cache
  notwithstanding: the expiry is checked before the cached result is looked at.
\<close>

lemma retry_after_expiry_refused:
  assumes "op_challengeStore opts = mc_ops" and "op_sessionStore opts = ms_ops" and "memory.ready w"
    and "parseAuthCompleteRequest (vn_rawBody input) = Some body"
    and "mc_look (w_challenges w) (rq_challenge_id body) = Some c" and "ch_expires_at c < w_now w"
  shows "verifyCompletion input opts w \<noteq> (Inr (Verify_ok s), w')"
proof
  assume r: "verifyCompletion input opts w = (Inr (Verify_ok s), w')"
  show False
    using memory.complete_sound [OF assms(1-3) r] assms(4-6)
    unfolding memory.granted_def memory.admitted_def by auto
qed

theorem issued_challenge_stored:
  fixes w :: "(mem_challenges, 'ss, 'as, 'rl) world"
  assumes "op_challengeStore opts = mc_ops" and "mc_inv (w_challenges w)"
    and "issueChallenge input opts w = (Inr (Inr z), w')"
  shows "\<exists>pk ttl k x d. decodeNpub (op_platform opts) (ii_npub input) = Some pk \<and> 1 \<le> ttl \<and> ttl \<le> 60
    \<and> z = init_response opts (new_challenge input k x pk (w_now w) ttl)
    \<and> mc_look (w_challenges w') k = Some d
    \<and> ch_challenge d = x \<and> ch_pubkey d = pk \<and> ch_auth_url d = ii_authUrl input
    \<and> ch_issued_at d = w_now w \<and> ch_expires_at d = w_now w + ttl \<and> ch_state d = issued
    \<and> (\<forall>j. j \<noteq> k \<longrightarrow> mc_look (w_challenges w') j = mc_look (w_challenges w) j \<or> mc_look (w_challenges w') j = None)
    \<and> w_sessions w' = w_sessions w"
proof -
  obtain r d where r: "mc.created input opts w r" "z = init_response opts r"
    "mc_look (w_challenges w') (ch_challenge_id r) = Some d" "same_challenge r d" "ch_state d = issued"
    "\<forall>j. j \<noteq> ch_challenge_id r \<longrightarrow> mc_look (w_challenges w') j = mc_look (w_challenges w) j \<or> mc_look (w_challenges w') j = None"
    "w_sessions w' = w_sessions w"
    using mc.issue_stored [OF assms] by blast
  obtain k x pk ttl where c: "resolveChallengeTtl opts = Some ttl"
    "decodeNpub (op_platform opts) (ii_npub input) = Some pk" "r = new_challenge input k x pk (w_now w) ttl"
    using r(1) unfolding mc.created_def by blast
  have "1 \<le> ttl \<and> ttl \<le> 60" by (rule resolveChallengeTtl_bounds [OF c(1)])
  moreover have "ch_challenge_id r = k" "ch_challenge d = x" "ch_pubkey d = pk" "ch_auth_url d = ii_authUrl input"
    "ch_issued_at d = w_now w" "ch_expires_at d = w_now w + ttl"
    using r(4) by (simp_all add: c(3) same_challenge_def new_challenge_def)
  ultimately show ?thesis using r(2,3,5-7) c(2,3) by metis
qed

theorem issued_challenge_stored_witness:
  "\<exists>z w' k d. issueChallenge scen_init scen_opts scen_fresh = (Inr (Inr z), w')
     \<and> mc_look (w_challenges w') k = Some d \<and> ch_pubkey d = ''p'' \<and> ch_state d = issued"
proof -
  obtain z w' where r: "issueChallenge scen_init scen_opts scen_fresh = (Inr (Inr z), w')" using scen_issue by blast
  have "op_challengeStore scen_opts = mc_ops" by (simp add: scen_opts_def)
  moreover have "decodeNpub (op_platform scen_opts) (ii_npub scen_init) = Some ''p''" by code_simp
  ultimately show ?thesis
    using issued_challenge_stored [OF _ scen_fresh_inv r] r by fastforce
qed

theorem outstanding_capped:
  fixes w :: "(mem_challenges, 'ss, 'as, 'rl) world"
  assumes "op_challengeStore opts = mc_ops" and "mc_inv (w_challenges w)"
    and "issueChallenge input opts w = (Inr (Inr z), w')"
    and "ii_clientIp input = Some ip" and "ip \<noteq> []"
    and "0 < or_else (op_maxOutstandingChallengesPerNpub opts) 10"
    and "0 < or_else (op_maxOutstandingChallengesPerIp opts) 30"
  shows "int (card {k. \<exists>c. mc_look (w_challenges w) k = Some c \<and> ch_state c = issued
           \<and> \<not> ch_expires_at c < w_now w \<and> ch_npub c = ii_npub input \<and> ch_client_ip c = Some ip})
       < or_else (op_maxOutstandingChallengesPerNpub opts) 10
    \<and> int (card {k. \<exists>c. mc_look (w_challenges w) k = Some c \<and> ch_state c = issued
           \<and> \<not> ch_expires_at c < w_now w \<and> ch_client_ip c = Some ip})
       < or_else (op_maxOutstandingChallengesPerIp opts) 30"
proof -
  have t: "truthy_str (ii_clientIp input)" "truthy_part (ii_clientIp input) = Some ip"
    using assms(4,5) by (simp_all add: truthy_part_def truthy_str_def)
  have a: "outstanding \<lparr>of_npub = Some (ii_npub input), of_clientIp = Some ip, of_now = w_now w\<rparr> c
      \<longleftrightarrow> ch_state c = issued \<and> \<not> ch_expires_at c < w_now w \<and> ch_npub c = ii_npub input \<and> ch_client_ip c = Some ip" for c
    by (auto simp: outstanding_def)
  have b: "outstanding \<lparr>of_npub = None, of_clientIp = Some ip, of_now = w_now w\<rparr> c
      \<longleftrightarrow> ch_state c = issued \<and> \<not> ch_expires_at c < w_now w \<and> ch_client_ip c = Some ip" for c
    by (auto simp: outstanding_def)
  have cnt: "co_countOutstanding mc_ops = Some mc_countOutstanding" by (simp add: mc_ops_def)
  show ?thesis
    using mc.issue_capped [OF assms(1,2) cnt assms(3)] t assms(4,6,7) by (simp add: a b)
qed

theorem outstanding_capped_witness:
  "\<exists>z w'. issueChallenge scen_init scen_opts scen_fresh = (Inr (Inr z), w')
     \<and> int (card {k. \<exists>c. mc_look (w_challenges scen_fresh) k = Some c \<and> ch_state c = issued
           \<and> \<not> ch_expires_at c < w_now scen_fresh \<and> ch_client_ip c = Some ''1.2.3.4''}) < 30"
proof -
  obtain z w' where r: "issueChallenge scen_init scen_opts scen_fresh = (Inr (Inr z), w')" using scen_issue by blast
  have o: "op_challengeStore scen_opts = mc_ops" "op_maxOutstandingChallengesPerIp scen_opts = None"
    "op_maxOutstandingChallengesPerNpub scen_opts = None" "ii_clientIp scen_init = Some ''1.2.3.4''"
    by (simp_all add: scen_opts_def scen_init_def)
  show ?thesis
    using conjunct2 [OF outstanding_capped [OF o(1) scen_fresh_inv r o(4)]] r o(2,3) by simp
qed

theorem answers_no_sooner_than_floor:
  assumes "0 < or_else (op_minAuthResponseMillis opts) 100"
    and "verifyCompletion input opts w = (Inr x, w')" and "\<not> complete_rate_limited x"
  shows "\<exists>jitter. 0 \<le> jitter \<and> jitter \<le> max 0 (or_else (op_responseJitterMillis opts) 25)
    \<and> w_millis w' = w_millis w + max (w_latency w) (or_else (op_minAuthResponseMillis opts) 100 + jitter)"
proof -
  obtain w1 where 1: "verifyCompletionUnpadded input opts w = (Inr x, w1)" "same_but_time w1 w'"
    using assms(2) unfolding verifyCompletion_def by (rule padded_runD)
  let ?b = "w_random w (w_drawn w1)" and ?r = "or_else (op_responseJitterMillis opts) 25"
  let ?j = "if ?r > 0 then int (unat ?b) mod (?r + 1) else 0"
  have "w_millis w' = w_millis w + max (w_latency w) (response_floor opts ?b)"
    using padded_time [where opts = opts and rl = complete_rate_limited, OF times_complete assms(1) 1(1) assms(3)] assms(2)
    unfolding verifyCompletion_def by simp
  moreover have "response_floor opts ?b = or_else (op_minAuthResponseMillis opts) 100 + ?j"
    by (simp add: response_floor_def)
  moreover have "0 \<le> ?j \<and> ?j \<le> max 0 ?r"
    using pos_mod_bound [of "?r + 1" "int (unat ?b)"] by auto
  ultimately show ?thesis by metis
qed

theorem answers_no_sooner_than_floor_witness:
  "\<exists>x w'. verifyCompletion (scen_input\<lparr>vn_rawBody := []\<rparr>) scen_opts scen_world = (Inr x, w')
     \<and> w_millis scen_world + 100 \<le> w_millis w'"
proof -
  have "fst (verifyCompletion (scen_input\<lparr>vn_rawBody := []\<rparr>) scen_opts scen_world) = Inr Verify_malformed" by code_simp
  then obtain w' where r: "verifyCompletion (scen_input\<lparr>vn_rawBody := []\<rparr>) scen_opts scen_world = (Inr Verify_malformed, w')"
    by (metis prod.collapse)
  have o: "or_else (op_minAuthResponseMillis scen_opts) 100 = 100" by (simp add: scen_opts_def)
  have "\<not> complete_rate_limited Verify_malformed" by (simp add: complete_rate_limited_def)
  then obtain j where "0 \<le> j" "w_millis w' = w_millis scen_world + max (w_latency scen_world) (100 + j)"
    using answers_no_sooner_than_floor [OF _ r] o by auto
  then have "w_millis scen_world + 100 \<le> w_millis w'" by linarith
  then show ?thesis using r by blast
qed

text \<open>
  C35. With the default writeFailure, the completion route answers every refused completion but a
  rate limit with the same 401 body, a malformed body with 400, and a success with the
  session's public response: the reason of a refusal stays in the audit log.
\<close>

theorem completion_answers_uniform:
  assumes "createNapExpressCompleteHandler eopts = Inr h" and "h req w = (Inr (Reply a), w')"
    and "eo_writeFailure eopts = None"
  shows "\<exists>body url out. rawBodyOf req eopts = Some body \<and> authCompleteUrl req eopts = Inr url
    \<and> verifyCompletion \<lparr>vn_authorization = header req ''authorization'', vn_method = hr_method req,
         vn_url = url, vn_rawBody = body, vn_clientIp = clientIpOf req eopts\<rparr> (eo_server eopts) w = (Inr out, w')
    \<and> (case out of
         Verify_malformed \<Rightarrow> a = reply_json 400 (Body_message ''error'' ''bad request'')
       | Verify_failed f \<Rightarrow> if vf_code f = NAP_COMPLETE_RATE_LIMITED then a = rateLimited (vf_retryAfterSeconds f)
           else a = reply_json 401 (Body_message ''error'' ''authentication failed'')
       | Verify_ok s \<Rightarrow> a = write_success eopts (toPublicAuthSuccess s))"
proof -
  obtain body url out where r: "rawBodyOf req eopts = Some body" "authCompleteUrl req eopts = Inr url"
    "verifyCompletion \<lparr>vn_authorization = header req ''authorization'', vn_method = hr_method req,
         vn_url = url, vn_rawBody = body, vn_clientIp = clientIpOf req eopts\<rparr> (eo_server eopts) w = (Inr out, w')"
    "a = complete_response eopts out"
    using complete_request_run [OF complete_handler_run [OF assms(1,2)]] by blast
  show ?thesis
    by (rule exI [of _ body], rule exI [of _ url], rule exI [of _ out], cases out)
      (use r assms(3) in \<open>simp_all add: complete_response_def malformed_response_def defaultWriteFailure_def
         toPublicAuthFailure_def\<close>)
qed

theorem completion_answers_uniform_witness:
  "\<exists>w' a. guarded (complete_request scen_express (scen_request\<lparr>hr_rawBody := Some []\<rparr>)) scen_world = (Inr (Reply a), w')
     \<and> (a = reply_json 400 (Body_message ''error'' ''bad request'') \<or> hs_status a \<in> {401, 429, 200})"
proof -
  have h: "createNapExpressCompleteHandler scen_express = Inr (\<lambda>req. guarded (complete_request scen_express req))"
    by (simp add: createNapExpressCompleteHandler_def assertOneAudienceSource_def assertCookieNamesAgree_def scen_express_def)
  have "fst (guarded (complete_request scen_express (scen_request\<lparr>hr_rawBody := Some []\<rparr>)) scen_world)
      = Inr (Reply malformed_response)"
    by code_simp
  then obtain w' where r: "guarded (complete_request scen_express (scen_request\<lparr>hr_rawBody := Some []\<rparr>)) scen_world
      = (Inr (Reply malformed_response), w')"
    by (metis prod.collapse)
  have "eo_writeFailure scen_express = None" by (simp add: scen_express_def)
  from completion_answers_uniform [OF h r this] r show ?thesis
    by (auto simp: malformed_response_def)
qed

end
